(* ===== verification/Go_Prelude.thy ===== *)
theory Go_Prelude
  imports Main "HOL-Library.AList" "HOL-Library.Multiset" "HOL-Library.List_Lexorder"
    "HOL-Library.Char_ord"
begin

text \<open>
  The part of Go that the modelled packages share: instants and durations, 64-bit
  signed arithmetic, maps, \<^verbatim>\<open>sort.Slice\<close>, and the interface \<open>invariant_machine\<close>
  through which every component lifts a one-step invariant to whole runs.

  \<^item> An instant (\<^verbatim>\<open>time.Time\<close>) is the number of nanoseconds since Go's zero time
    (1 January of year 1, UTC), so the zero value is \<open>0\<close>; \<^verbatim>\<open>UTC()\<close> changes no
    instant. A duration is a number of nanoseconds.
  \<^item> A Go map is an association list with distinct keys. Its order stands for the
    order in which \<^verbatim>\<open>range\<close> visits the map. Go leaves that order open; the
    theorems quantify over every well-formed list and so over every such order.
\<close>

section \<open>Instants, durations, 64-bit integers\<close>

type_synonym time = int
type_synonym duration = int

definition Nanosecond :: duration where "Nanosecond = 1"
definition Microsecond :: duration where "Microsecond = 1000"
definition Second :: duration where "Second = 1000000000"
definition Minute :: duration where "Minute = 60 * Second"
definition Hour :: duration where "Hour = 60 * Minute"

named_theorems duration_simps
declare Nanosecond_def [duration_simps] Microsecond_def [duration_simps]
  Second_def [duration_simps] Minute_def [duration_simps] Hour_def [duration_simps]

definition IsZero :: "time \<Rightarrow> bool" where
  "IsZero t \<longleftrightarrow> t = 0"

definition max_int64 :: int where "max_int64 = 2 ^ 63 - 1"
definition min_int64 :: int where "min_int64 = - (2 ^ 63)"

text \<open>Two's complement wrap-around of a 64-bit result.\<close>

definition wrap64 :: "int \<Rightarrow> int" where
  "wrap64 x = (x + 2 ^ 63) mod 2 ^ 64 - 2 ^ 63"

lemma wrap64_id: "min_int64 \<le> x \<Longrightarrow> x \<le> max_int64 \<Longrightarrow> wrap64 x = x"
  by (simp add: wrap64_def min_int64_def max_int64_def)

lemma wrap64_range: "min_int64 \<le> wrap64 x \<and> wrap64 x \<le> max_int64"
proof -
  have "0 \<le> (x + 2 ^ 63) mod 2 ^ 64" "(x + 2 ^ 63) mod 2 ^ 64 < (2::int) ^ 64"
    by (simp_all add: pos_mod_bound)
  then show ?thesis
    by (simp add: wrap64_def min_int64_def max_int64_def)
qed

text \<open>Go's integer division truncates towards zero.\<close>

definition tdiv :: "int \<Rightarrow> int \<Rightarrow> int" where
  "tdiv a b = sgn a * sgn b * (\<bar>a\<bar> div \<bar>b\<bar>)"

lemma tdiv_pos [simp]: "0 \<le> a \<Longrightarrow> 0 < b \<Longrightarrow> tdiv a b = a div b"
  by (cases "a = 0") (auto simp: tdiv_def sgn_if)

text \<open>\<^verbatim>\<open>Time.Sub\<close> saturates at the range of a duration.\<close>

definition time_sub :: "time \<Rightarrow> time \<Rightarrow> duration" where
  "time_sub t u = max min_int64 (min max_int64 (t - u))"

lemma time_sub_id: "min_int64 \<le> t - u \<Longrightarrow> t - u \<le> max_int64 \<Longrightarrow> time_sub t u = t - u"
  by (simp add: time_sub_def)

lemma time_sub_pos_iff [simp]: "0 < time_sub t u \<longleftrightarrow> u < t"
  by (auto simp: time_sub_def min_int64_def max_int64_def)

section \<open>Maps\<close>

type_synonym ('k, 'v) gomap = "('k \<times> 'v) list"

definition wf_map :: "('k, 'v) gomap \<Rightarrow> bool" where
  "wf_map m \<longleftrightarrow> distinct (map fst m)"

text \<open>Reading an absent key gives the zero value of the element type.\<close>

definition lookup_or :: "'v \<Rightarrow> ('k, 'v) gomap \<Rightarrow> 'k \<Rightarrow> 'v" where
  "lookup_or d m k = (case map_of m k of None \<Rightarrow> d | Some v \<Rightarrow> v)"

definition has_key :: "('k, 'v) gomap \<Rightarrow> 'k \<Rightarrow> bool" where
  "has_key m k \<longleftrightarrow> map_of m k \<noteq> None"

definition map_len :: "('k, 'v) gomap \<Rightarrow> int" where
  "map_len m = int (length m)"

abbreviation put :: "'k \<Rightarrow> 'v \<Rightarrow> ('k, 'v) gomap \<Rightarrow> ('k, 'v) gomap" where
  "put \<equiv> AList.update"

abbreviation del :: "'k \<Rightarrow> ('k, 'v) gomap \<Rightarrow> ('k, 'v) gomap" where
  "del \<equiv> AList.delete"

named_theorems map_simps

declare AList.update_conv' [map_simps] AList.delete_conv' [map_simps]

lemma wf_map_empty [simp]: "wf_map []"
  by (simp add: wf_map_def)

lemma wf_map_put [simp, intro]: "wf_map m \<Longrightarrow> wf_map (put k v m)"
  by (simp add: wf_map_def distinct_update)

lemma wf_map_del [simp, intro]: "wf_map m \<Longrightarrow> wf_map (del k m)"
  by (simp add: wf_map_def AList.distinct_delete)

lemma wf_map_filter [simp, intro]: "wf_map m \<Longrightarrow> wf_map (filter P m)"
  by (induction m) (auto simp: wf_map_def)

lemma wf_map_Cons [simp]: "wf_map (e # m) \<longleftrightarrow> fst e \<notin> fst ` set m \<and> wf_map m"
  by (simp add: wf_map_def)

lemma wf_map_mem: "wf_map m \<Longrightarrow> (k, v) \<in> set m \<longleftrightarrow> map_of m k = Some v"
  by (simp add: wf_map_def)

lemma map_of_filter:
  "wf_map m \<Longrightarrow>
    map_of (filter P m) k = (case map_of m k of None \<Rightarrow> None | Some v \<Rightarrow> if P (k, v) then Some v else None)"
  by (induction m) (auto split: option.splits simp: map_of_eq_None_iff)

lemma wf_map_map:
  assumes "\<And>k v. fst (f (k, v)) = k"
  shows "wf_map (map f m) = wf_map m"
proof -
  have "map fst (map f m) = map fst m"
    by (induction m) (auto simp: assms)
  then show ?thesis
    by (simp only: wf_map_def)
qed

lemma map_of_map_val: "map_of (map (\<lambda>(k, v). (k, f k v)) m) k = map_option (f k) (map_of m k)"
  by (induction m) auto

lemma lookup_or_put [map_simps]: "lookup_or d (put k v m) k' = (if k' = k then v else lookup_or d m k')"
  by (simp add: lookup_or_def AList.update_conv')

lemma lookup_or_del [map_simps]: "lookup_or d (del k m) k' = (if k' = k then d else lookup_or d m k')"
  by (simp add: lookup_or_def AList.delete_conv')

lemma has_key_put [map_simps]: "has_key (put k v m) k' \<longleftrightarrow> k' = k \<or> has_key m k'"
  by (simp add: has_key_def AList.update_conv')

lemma has_key_del [map_simps]: "has_key (del k m) k' \<longleftrightarrow> k' \<noteq> k \<and> has_key m k'"
  by (simp add: has_key_def AList.delete_conv')

lemma has_key_iff: "has_key m k \<longleftrightarrow> k \<in> fst ` set m"
  by (simp add: has_key_def map_of_eq_None_iff)

lemma length_put: "length (put k v m) = (if has_key m k then length m else Suc (length m))"
  by (induction m) (auto simp: has_key_def)

lemma length_del_le: "length (del k m) \<le> length m"
  by (simp add: AList.delete_eq)

lemma map_len_put: "map_len (put k v m) = (if has_key m k then map_len m else map_len m + 1)"
  by (simp add: map_len_def length_put)

lemma map_len_filter_le: "map_len (filter P m) \<le> map_len m"
  by (simp add: map_len_def)

text \<open>
  A map of counters whose zero entries are removed: \<^verbatim>\<open>if m[k] <= 1 { delete(m, k) } else { m[k]-- }\<close>.
\<close>

definition decrement :: "'k \<Rightarrow> ('k, int) gomap \<Rightarrow> ('k, int) gomap" where
  "decrement k m = (if lookup_or 0 m k \<le> 1 then del k m else put k (lookup_or 0 m k - 1) m)"

lemma lookup_decrement:
  "0 \<le> lookup_or 0 m k \<Longrightarrow> lookup_or 0 m key \<ge> 1 \<Longrightarrow>
    lookup_or 0 (decrement key m) k = lookup_or 0 m k - (if k = key then 1 else 0)"
  by (auto simp: decrement_def map_simps)

lemma wf_decrement [simp, intro]: "wf_map m \<Longrightarrow> wf_map (decrement k m)"
  by (simp add: decrement_def)

lemma has_key_lookup: "lookup_or d m k \<noteq> d \<Longrightarrow> has_key m k"
  by (auto simp: lookup_or_def has_key_def split: option.splits)

lemma has_key_decrement: "has_key (decrement key m) k \<Longrightarrow> has_key m k"
  using has_key_lookup [of 0 m key] by (auto simp: decrement_def map_simps split: if_splits)

lemma map_len_decrement: "map_len (decrement key m) \<le> map_len m"
  using has_key_lookup [of 0 m key] length_del_le [of key m]
  by (auto simp: decrement_def map_len_def length_put)

text \<open>Counting the entries that satisfy a predicate, as a \<^verbatim>\<open>range\<close> loop with a counter does.\<close>

definition count_entries :: "('k \<Rightarrow> 'v \<Rightarrow> bool) \<Rightarrow> ('k, 'v) gomap \<Rightarrow> int" where
  "count_entries P m = int (length (filter (\<lambda>(k, v). P k v) m))"

lemma count_entries_Nil [simp]: "count_entries P [] = 0"
  by (simp add: count_entries_def)

lemma count_entries_Cons [simp]:
  "count_entries P ((k, v) # m) = (if P k v then 1 else 0) + count_entries P m"
  by (simp add: count_entries_def)

lemma count_entries_nonneg [simp]: "0 \<le> count_entries P m"
  by (simp add: count_entries_def)

lemma count_entries_le: "count_entries P m \<le> map_len m"
  by (simp add: count_entries_def map_len_def)

lemma count_entries_mono:
  "(\<And>k v. (k, v) \<in> set m \<Longrightarrow> P k v \<Longrightarrow> Q k v) \<Longrightarrow> count_entries P m \<le> count_entries Q m"
  by (induction m) force+

lemma count_entries_put_new:
  "\<not> has_key m k \<Longrightarrow> count_entries P (put k v m) = count_entries P m + (if P k v then 1 else 0)"
  by (induction m) (auto simp: has_key_def split: if_splits)

lemma count_entries_put_old:
  assumes "wf_map m" "map_of m k = Some u"
  shows "count_entries P (put k v m)
    = count_entries P m - (if P k u then 1 else 0) + (if P k v then 1 else 0)"
  using assms
proof (induction m)
  case Nil
  then show ?case by simp
next
  case (Cons e m)
  obtain k' v' where e: "e = (k', v')" by (cases e)
  show ?case
  proof (cases "k' = k")
    case True
    with Cons.prems e show ?thesis by simp
  next
    case False
    with Cons e show ?thesis by simp
  qed
qed

text \<open>The count does not depend on the order in which the map is visited.\<close>

lemma count_entries_order_free:
  assumes "wf_map m" "wf_map m'" "map_of m = map_of m'"
  shows "count_entries P m = count_entries P m'"
proof -
  have "set m = set m'"
    using assms by (simp add: wf_map_def map_of_inject_set)
  moreover have "distinct m" "distinct m'"
    using assms by (simp_all add: wf_map_def distinct_map)
  ultimately have "mset m = mset m'"
    by (simp add: set_eq_iff_mset_eq_distinct)
  then show ?thesis
    by (simp only: count_entries_def size_mset [symmetric] mset_filter)
qed

section \<open>Sorting\<close>

text \<open>
  \<^verbatim>\<open>sort.Slice(xs, less)\<close>. The library's result is determined up to elements that
  \<open>lt\<close> does not separate; every comparator in the modelled code is a strict total
  order on the keys it compares, so an insertion sort gives the library's result.
\<close>

fun insert_by :: "('a \<Rightarrow> 'a \<Rightarrow> bool) \<Rightarrow> 'a \<Rightarrow> 'a list \<Rightarrow> 'a list" where
  "insert_by lt x [] = [x]"
| "insert_by lt x (y # ys) = (if lt y x then y # insert_by lt x ys else x # y # ys)"

definition sort_slice :: "('a \<Rightarrow> 'a \<Rightarrow> bool) \<Rightarrow> 'a list \<Rightarrow> 'a list" where
  "sort_slice lt xs = foldr (insert_by lt) xs []"

lemma mset_insert_by [simp]: "mset (insert_by lt x xs) = add_mset x (mset xs)"
  by (induction xs) auto

lemma mset_sort_slice [simp]: "mset (sort_slice lt xs) = mset xs"
  by (induction xs) (auto simp: sort_slice_def)

lemma set_insert_by [simp]: "set (insert_by lt x xs) = insert x (set xs)"
  by (induction xs) auto

lemma set_sort_slice [simp]: "set (sort_slice lt xs) = set xs"
  by (metis mset_sort_slice set_mset_mset)

lemma length_sort_slice [simp]: "length (sort_slice lt xs) = length xs"
  by (metis mset_sort_slice size_mset)

text \<open>
  What a comparator must promise for the sorted order to mean something: it is
  irreflexive and transitive, and incomparability is transitive too.
\<close>

locale strict_weak_order =
  fixes lt :: "'a \<Rightarrow> 'a \<Rightarrow> bool"
  assumes irreflexive: "\<not> lt x x"
    and transitive: "lt x y \<Longrightarrow> lt y z \<Longrightarrow> lt x z"
    and incomparable: "\<not> lt x y \<Longrightarrow> \<not> lt y z \<Longrightarrow> \<not> lt x z"
begin

lemma sorted_insert_by:
  "sorted_wrt (\<lambda>x y. \<not> lt y x) xs \<Longrightarrow> sorted_wrt (\<lambda>x y. \<not> lt y x) (insert_by lt x xs)"
proof (induction xs)
  case Nil
  then show ?case by simp
next
  case (Cons y ys)
  show ?case
  proof (cases "lt y x")
    case True
    then have "\<not> lt x y"
      using irreflexive transitive by blast
    with Cons True show ?thesis by simp
  next
    case False
    then have "\<forall>z\<in>set ys. \<not> lt z x"
      using Cons.prems incomparable by auto
    with Cons.prems False show ?thesis by simp
  qed
qed

lemma sorted_sort_slice: "sorted_wrt (\<lambda>x y. \<not> lt y x) (sort_slice lt xs)"
  by (induction xs) (auto simp: sort_slice_def intro: sorted_insert_by)

end

section \<open>Runs\<close>

text \<open>Applying a list of operations one after the other.\<close>

fun run_ops :: "('op \<Rightarrow> 's \<Rightarrow> 's) \<Rightarrow> 'op list \<Rightarrow> 's \<Rightarrow> 's" where
  "run_ops f [] s = s"
| "run_ops f (x # xs) s = run_ops f xs (f x s)"

lemma run_ops_append: "run_ops f (xs @ ys) s = run_ops f ys (run_ops f xs s)"
  by (induction xs arbitrary: s) auto

text \<open>Every operation of the run is allowed in the state it is applied to.\<close>

fun ok_run :: "('op \<Rightarrow> 's \<Rightarrow> 's) \<Rightarrow> ('op \<Rightarrow> 's \<Rightarrow> bool) \<Rightarrow> 'op list \<Rightarrow> 's \<Rightarrow> bool" where
  "ok_run f ok [] s = True"
| "ok_run f ok (x # xs) s = (ok x s \<and> ok_run f ok xs (f x s))"

lemma ok_run_append: "ok_run f ok (xs @ ys) s \<longleftrightarrow> ok_run f ok xs s \<and> ok_run f ok ys (run_ops f xs s)"
  by (induction xs arbitrary: s) auto

lemma ok_run_trivial [simp]: "ok_run f (\<lambda>_ _. True) xs s"
  by (induction xs arbitrary: s) auto

text \<open>
  The interface every stateful component provides: a step function, the operations
  that may occur (\<open>ok\<close>: what the caller guarantees about an operation in a state),
  an invariant and its preservation by one step. The client facts lift both to runs.
\<close>

locale invariant_machine =
  fixes step :: "'op \<Rightarrow> 's \<Rightarrow> 's"
    and ok :: "'op \<Rightarrow> 's \<Rightarrow> bool"
    and inv :: "'s \<Rightarrow> bool"
  assumes step_inv: "inv s \<Longrightarrow> ok x s \<Longrightarrow> inv (step x s)"
begin

lemma run_inv: "inv s \<Longrightarrow> ok_run step ok xs s \<Longrightarrow> inv (run_ops step xs s)"
  by (induction xs arbitrary: s) (auto intro: step_inv)

lemma run_stable:
  assumes "\<And>x s. inv s \<Longrightarrow> ok x s \<Longrightarrow> P s \<Longrightarrow> P (step x s)"
  shows "inv s \<Longrightarrow> ok_run step ok xs s \<Longrightarrow> P s \<Longrightarrow> P (run_ops step xs s)"
  by (induction xs arbitrary: s) (auto intro: step_inv assms)

end

text \<open>
  A machine whose states only evolve along a preorder. Its client fact lifts the preorder to
  runs, and so to any two moments of one run.
\<close>

locale evolving_machine = invariant_machine step ok inv
  for step :: "'op \<Rightarrow> 's \<Rightarrow> 's" and ok :: "'op \<Rightarrow> 's \<Rightarrow> bool" and inv :: "'s \<Rightarrow> bool" +
  fixes rel :: "'s \<Rightarrow> 's \<Rightarrow> bool"
  assumes rel_refl: "rel s s"
    and rel_trans: "rel s t \<Longrightarrow> rel t u \<Longrightarrow> rel s u"
    and step_rel: "inv s \<Longrightarrow> ok x s \<Longrightarrow> rel s (step x s)"
begin

lemma run_rel: "inv s \<Longrightarrow> ok_run step ok xs s \<Longrightarrow> rel s (run_ops step xs s)"
proof (induction xs arbitrary: s)
  case (Cons x xs)
  then show ?case using rel_trans [OF step_rel [of s x] Cons.IH [of "step x s"]] step_inv by simp
qed (simp add: rel_refl)

end

lemma ok_run_weaken: "ok_run f ok xs s \<Longrightarrow> (\<And>x t. ok x t \<Longrightarrow> ok' x t) \<Longrightarrow> ok_run f ok' xs s"
  by (induction xs arbitrary: s) auto

lemma ok_run_static: "ok_run f (\<lambda>x _. P x) xs s \<longleftrightarrow> list_all P xs"
  by (induction xs arbitrary: s) auto

end
