(* ===== verification/Go_Text.thy ===== *)
theory Go_Text
  imports Go_Prelude
begin

text \<open>
  Go strings are byte sequences, here \<^typ>\<open>string\<close> (a \<^typ>\<open>char\<close> is one byte), and
  \<open>(<)\<close> on them is the bytewise lexicographic order. This theory models what the
  source uses of \<^verbatim>\<open>unicode/utf8\<close>, \<^verbatim>\<open>unicode\<close> and \<^verbatim>\<open>strings\<close>: decoding a string into
  runes (an invalid byte is the replacement rune of width one), \<^verbatim>\<open>utf8.ValidString\<close>,
  \<^verbatim>\<open>utf8.RuneCountInString\<close>, \<^verbatim>\<open>unicode.IsSpace\<close>, \<^verbatim>\<open>unicode.IsControl\<close>,
  \<^verbatim>\<open>strings.TrimSpace\<close> and \<^verbatim>\<open>strings.HasPrefix\<close>.
\<close>

section \<open>UTF-8\<close>

definition byte_of :: "char \<Rightarrow> int" where
  "byte_of c = of_char c"

definition is_cont :: "int \<Rightarrow> bool" where
  "is_cont b \<longleftrightarrow> 128 \<le> b \<and> b \<le> 191"

text \<open>The bounds of the second byte that the lead byte allows.\<close>

definition second_ok :: "int \<Rightarrow> int \<Rightarrow> bool" where
  "second_ok b c =
    (if b = 224 then 160 \<le> c \<and> c \<le> 191
     else if b = 237 then 128 \<le> c \<and> c \<le> 159
     else if b = 240 then 144 \<le> c \<and> c \<le> 191
     else if b = 244 then 128 \<le> c \<and> c \<le> 143
     else is_cont c)"

text \<open>The number of bytes after the lead byte; \<open>None\<close> for a byte that starts no rune.\<close>

definition rune_tail :: "int \<Rightarrow> nat option" where
  "rune_tail b =
    (if b < 128 then Some 0
     else if 194 \<le> b \<and> b \<le> 223 then Some 1
     else if 224 \<le> b \<and> b \<le> 239 then Some 2
     else if 240 \<le> b \<and> b \<le> 244 then Some 3
     else None)"

definition rune_error :: int where "rune_error = 65533"

definition rune_point :: "nat \<Rightarrow> int \<Rightarrow> int list \<Rightarrow> int" where
  "rune_point n b bs =
    (if n = 0 then b
     else if n = 1 then (b - 192) * 64 + (bs ! 0 - 128)
     else if n = 2 then (b - 224) * 4096 + (bs ! 0 - 128) * 64 + (bs ! 1 - 128)
     else (b - 240) * 262144 + (bs ! 0 - 128) * 4096 + (bs ! 1 - 128) * 64 + (bs ! 2 - 128))"

text \<open>One rune: its code point, whether it is validly encoded, and how many bytes follow the lead.\<close>

definition decode_rune :: "int \<Rightarrow> int list \<Rightarrow> int \<times> bool \<times> nat" where
  "decode_rune b bs =
    (case rune_tail b of
       None \<Rightarrow> (rune_error, False, 0)
     | Some n \<Rightarrow>
         if 0 < n \<and> (length bs < n \<or> \<not> second_ok b (bs ! 0)
           \<or> \<not> list_all is_cont (take (n - 1) (drop 1 bs)))
         then (rune_error, False, 0)
         else (rune_point n b bs, True, n))"

record rune_seg =
  seg_rune :: int
  seg_valid :: bool
  seg_bytes :: "int list"

fun segments :: "int list \<Rightarrow> rune_seg list" where
  "segments [] = []"
| "segments (b # bs) =
    (case decode_rune b bs of
       (r, v, n) \<Rightarrow> \<lparr>seg_rune = r, seg_valid = v, seg_bytes = b # take n bs\<rparr> # segments (drop n bs))"

definition runes_of :: "string \<Rightarrow> rune_seg list" where
  "runes_of s = segments (map byte_of s)"

definition valid_string :: "string \<Rightarrow> bool" where
  "valid_string s \<longleftrightarrow> list_all seg_valid (runes_of s)"

definition rune_count :: "string \<Rightarrow> int" where
  "rune_count s = int (length (runes_of s))"

definition is_control_rune :: "int \<Rightarrow> bool" where
  "is_control_rune r \<longleftrightarrow> r < 32 \<or> (127 \<le> r \<and> r < 160)"

definition is_space_rune :: "int \<Rightarrow> bool" where
  "is_space_rune r \<longleftrightarrow>
     (9 \<le> r \<and> r \<le> 13) \<or> r = 32 \<or> r = 133 \<or> r = 160 \<or> r = 5760 \<or> (8192 \<le> r \<and> r \<le> 8202)
     \<or> r = 8232 \<or> r = 8233 \<or> r = 8239 \<or> r = 8287 \<or> r = 12288"

text \<open>
  \<^verbatim>\<open>strings.TrimSpace\<close> drops leading and trailing white-space runes. The library
  decodes the tail backwards; as no byte of a white-space encoding after its lead is a
  lead byte, and no lead byte is a continuation, the forward segmentation ends with the
  same runes.
\<close>

definition trim_segs :: "rune_seg list \<Rightarrow> rune_seg list" where
  "trim_segs = rev \<circ> dropWhile (is_space_rune \<circ> seg_rune) \<circ> rev \<circ> dropWhile (is_space_rune \<circ> seg_rune)"

definition TrimSpace :: "string \<Rightarrow> string" where
  "TrimSpace s = map char_of (concat (map seg_bytes (trim_segs (runes_of s))))"

definition has_prefix :: "string \<Rightarrow> string \<Rightarrow> bool" where
  "has_prefix s p \<longleftrightarrow> take (length p) s = p"

section \<open>Facts\<close>

lemma concat_segments: "concat (map seg_bytes (segments bs)) = bs"
  by (induction bs rule: segments.induct) (auto split: prod.splits)

lemma char_of_byte_of [simp]: "char_of (byte_of c) = c"
  by (simp add: byte_of_def)

lemma second_ok_high: "second_ok b c \<Longrightarrow> 128 \<le> c"
  by (auto simp: second_ok_def is_cont_def split: if_splits)

text \<open>An ASCII byte is always a rune of its own: it is no part of a longer encoding.\<close>

lemma decode_rune_tail_high:
  assumes "decode_rune b bs = (r, v, n)" "c \<in> set (take n bs)"
  shows "128 \<le> c"
proof -
  have "n \<noteq> 0"
    using assms(2) by (cases n) auto
  with assms have *: "second_ok b (bs ! 0)" "list_all is_cont (take (n - 1) (drop 1 bs))" "n \<le> length bs"
    by (auto simp: decode_rune_def split: option.splits if_splits)
  from \<open>n \<noteq> 0\<close> \<open>n \<le> length bs\<close> obtain d ds where bs: "bs = d # ds"
    by (cases bs) auto
  have "c = d \<or> c \<in> set (take (n - 1) ds)"
    using assms(2) bs \<open>n \<noteq> 0\<close> by (cases n) auto
  then show ?thesis
    using * bs second_ok_high by (auto simp: list_all_iff is_cont_def)
qed

lemma ascii_segment:
  "b \<in> set bs \<Longrightarrow> b < 128 \<Longrightarrow> \<lparr>seg_rune = b, seg_valid = True, seg_bytes = [b]\<rparr> \<in> set (segments bs)"
proof (induction bs rule: segments.induct)
  case 1
  then show ?case by simp
next
  case (2 c cs)
  obtain r v n where d: "decode_rune c cs = (r, v, n)"
    by (cases "decode_rune c cs")
  show ?case
  proof (cases "b = c")
    case True
    with 2 d show ?thesis
      by (auto simp: decode_rune_def rune_tail_def rune_point_def)
  next
    case False
    then have "b \<in> set (take n cs) \<union> set (drop n cs)"
      using 2 by (metis Un_iff append_take_drop_id set_ConsD set_append)
    then have "b \<in> set (drop n cs)"
      using decode_rune_tail_high [OF d] 2 by force
    then show ?thesis
      using 2 d by auto
  qed
qed

lemma has_prefix_append [simp]: "has_prefix (p @ s) p"
  by (simp add: has_prefix_def)

lemma TrimSpace_Nil [simp]: "TrimSpace [] = []"
  by (simp add: TrimSpace_def runes_of_def trim_segs_def)

section \<open>Trimming again changes nothing\<close>

text \<open>Decoding looks only at the bytes of the rune itself, so a prefix decodes into a prefix of the runes.\<close>

lemma decode_rune_prefix:
  assumes "decode_rune b bs = (r, v, n)" "bs' = take n bs @ rest" "rest = take k (drop n bs)"
  shows "decode_rune b bs' = (r, v, n)"
proof (cases "rune_tail b")
  case None
  then show ?thesis using assms(1) by (simp add: decode_rune_def)
next
  case (Some m)
  have pre: "bs' = take (n + k) bs" using assms(2,3) by (simp add: take_add)
  have same: "bs' ! 0 = bs ! 0" "take (m - 1) (drop 1 bs') = take (m - 1) (drop 1 bs)" "rune_point m b bs' = rune_point m b bs"
    if "m \<le> n + k" "0 < m" "m \<le> length bs" "m \<le> 3"
  proof -
    have "take (n + k) bs ! 0 = bs ! 0" using that(1,2) by (intro nth_take) linarith
    with that pre show "bs' ! 0 = bs ! 0" "take (m - 1) (drop 1 bs') = take (m - 1) (drop 1 bs)" "rune_point m b bs' = rune_point m b bs"
      by (auto simp: drop_take min_def rune_point_def)
  qed
  have m3: "m \<le> 3" using Some by (auto simp: rune_tail_def split: if_splits)
  show ?thesis
  proof (cases v)
    case True
    then have "n = m" "m \<le> length bs" using assms(1) Some by (auto simp: decode_rune_def split: if_splits)
    with same m3 pre Some assms(1) show ?thesis
      by (cases "m = 0") (auto simp: decode_rune_def rune_point_def split: if_splits)
  next
    case False
    then have n: "n = 0" "0 < m" "length bs < m \<or> \<not> second_ok b (bs ! 0) \<or> \<not> list_all is_cont (take (m - 1) (drop 1 bs))"
      using assms(1) Some by (auto simp: decode_rune_def split: if_splits)
    show ?thesis
    proof (cases "length bs' < m")
      case True
      then show ?thesis using n Some assms(1) by (auto simp: decode_rune_def split: if_splits)
    next
      case False
      then have "m \<le> n + k" "m \<le> length bs" using pre by simp_all
      with same n m3 Some assms(1) show ?thesis by (auto simp: decode_rune_def split: if_splits)
    qed
  qed
qed

lemma segments_take: "segments (concat (map seg_bytes (take k (segments bs)))) = take k (segments bs)"
proof (induction bs arbitrary: k rule: segments.induct)
  case (2 b bs)
  obtain r v n where d: "decode_rune b bs = (r, v, n)" by (cases "decode_rune b bs")
  show ?case
  proof (cases k)
    case (Suc j)
    define rest where "rest = concat (map seg_bytes (take j (segments (drop n bs))))"
    have "concat (map seg_bytes (take j (segments (drop n bs)))) @ concat (map seg_bytes (drop j (segments (drop n bs)))) = drop n bs"
      by (metis append_take_drop_id concat_append concat_segments map_append)
    then have "rest = take (length rest) (drop n bs)" unfolding rest_def by (metis append_eq_conv_conj)
    from decode_rune_prefix [OF d refl this] have d': "decode_rune b (take n bs @ rest) = (r, v, n)" .
    have "n \<le> length bs" using d by (auto simp: decode_rune_def split: option.splits if_splits)
    then have "take n (take n bs @ rest) = take n bs" "drop n (take n bs @ rest) = rest" by simp_all
    moreover have "segments rest = take j (segments (drop n bs))" unfolding rest_def using 2 d by fastforce
    ultimately show ?thesis using Suc d d' by (simp add: rest_def)
  qed simp
qed simp

lemma segments_drop: "segments (concat (map seg_bytes (drop k (segments bs)))) = drop k (segments bs)"
proof (induction bs arbitrary: k rule: segments.induct)
  case (2 b bs)
  obtain r v n where d: "decode_rune b bs = (r, v, n)" by (cases "decode_rune b bs")
  show ?case
  proof (cases k)
    case 0
    then show ?thesis by (simp only: drop_0 concat_segments)
  next
    case (Suc j)
    with 2 d show ?thesis by fastforce
  qed
qed simp

lemma trim_segs_slice: "\<exists>i j. trim_segs ss = take j (drop i ss)"
proof -
  have "\<exists>j. rev (dropWhile P (rev xs)) = take j xs" for P :: "rune_seg \<Rightarrow> bool" and xs
    by (metis append_eq_conv_conj rev_append rev_rev_ident takeWhile_dropWhile_id)
  moreover have "\<exists>i. dropWhile P xs = drop i xs" for P :: "rune_seg \<Rightarrow> bool" and xs by (metis dropWhile_eq_drop)
  ultimately show ?thesis unfolding trim_segs_def o_apply by metis
qed

lemma trim_segs_idem: "trim_segs (trim_segs ss) = trim_segs ss"
proof -
  let ?P = "is_space_rune \<circ> seg_rune"
  define ys where "ys = dropWhile ?P ss"
  define zs where "zs = rev (dropWhile ?P (rev ys))"
  obtain ws where ws: "ys = zs @ ws" unfolding zs_def
    by (metis rev_append rev_rev_ident takeWhile_dropWhile_id)
  have "dropWhile ?P zs = zs"
  proof (cases zs)
    case (Cons z zs')
    with ws have "hd ys = z" "ys \<noteq> []" by auto
    then have "\<not> ?P z" unfolding ys_def using hd_dropWhile by blast
    with Cons show ?thesis by simp
  qed simp
  moreover have "rev (dropWhile ?P (rev zs)) = zs" by (simp add: zs_def dropWhile_idem)
  moreover have "trim_segs ss = zs" by (simp add: trim_segs_def zs_def ys_def)
  ultimately show ?thesis by (simp add: trim_segs_def)
qed

lemma runes_of_TrimSpace: "runes_of (TrimSpace s) = trim_segs (runes_of s)"
proof -
  obtain i j where t: "trim_segs (runes_of s) = take j (drop i (runes_of s))" using trim_segs_slice by blast
  let ?bs = "concat (map seg_bytes (trim_segs (runes_of s)))"
  have "set (concat (map seg_bytes (runes_of s))) \<subseteq> range byte_of"
    by (auto simp: runes_of_def concat_segments)
  then have "set ?bs \<subseteq> range byte_of" unfolding t by (fastforce dest: in_set_takeD in_set_dropD)
  then have "map byte_of (map char_of ?bs) = ?bs" 
    by (simp only: map_map) (rule map_idI, auto)
  then have "runes_of (TrimSpace s) = segments ?bs" by (simp add: TrimSpace_def runes_of_def)
  also have "\<dots> = trim_segs (runes_of s)"
    unfolding t unfolding runes_of_def
    using segments_take [of j "concat (map seg_bytes (drop i (segments (map byte_of s))))"] by (simp add: segments_drop)
  finally show ?thesis .
qed

lemma TrimSpace_idem [simp]: "TrimSpace (TrimSpace s) = TrimSpace s"
  unfolding TrimSpace_def [of "TrimSpace s"] runes_of_TrimSpace trim_segs_idem by (simp add: TrimSpace_def)

section \<open>ASCII text\<close>

lemma segments_ascii:
  "list_all (\<lambda>b. b < 128) bs \<Longrightarrow> segments bs = map (\<lambda>b. \<lparr>seg_rune = b, seg_valid = True, seg_bytes = [b]\<rparr>) bs"
  by (induction bs) (simp_all add: decode_rune_def rune_tail_def rune_point_def)

lemma runes_of_ascii:
  "list_all (\<lambda>c. byte_of c < 128) s \<Longrightarrow>
    runes_of s = map (\<lambda>c. \<lparr>seg_rune = byte_of c, seg_valid = True, seg_bytes = [byte_of c]\<rparr>) s"
  by (simp add: runes_of_def segments_ascii list_all_iff o_def)

lemma dropWhile_none: "(\<And>x. x \<in> set xs \<Longrightarrow> \<not> P x) \<Longrightarrow> dropWhile P xs = xs"
  by (cases xs) auto

lemma TrimSpace_plain:
  assumes "list_all (\<lambda>c. 33 \<le> byte_of c \<and> byte_of c < 128) s"
  shows "TrimSpace s = s"
proof -
  let ?ss = "map (\<lambda>c. \<lparr>seg_rune = byte_of c, seg_valid = True, seg_bytes = [byte_of c]\<rparr>) s"
  have "runes_of s = ?ss" using assms by (intro runes_of_ascii) (auto simp: list_all_iff)
  moreover have "trim_segs ?ss = ?ss"
  proof -
    have "\<not> (is_space_rune \<circ> seg_rune) g" if "g \<in> set ?ss" for g
      using that assms by (auto simp: list_all_iff is_space_rune_def)
    then have "dropWhile (is_space_rune \<circ> seg_rune) ?ss = ?ss" "dropWhile (is_space_rune \<circ> seg_rune) (rev ?ss) = rev ?ss"
      by (auto intro!: dropWhile_none)
    then show ?thesis by (simp only: trim_segs_def o_apply rev_rev_ident)
  qed
  moreover have "map char_of (concat (map seg_bytes ?ss)) = s" by (induction s) simp_all
  ultimately show ?thesis by (simp add: TrimSpace_def)
qed

end
