(* ===== verification/Limits_Policy.thy ===== *)
theory Limits_Policy
  imports Go_Text "HOL-Library.Word"
begin

text \<open>
  \<^verbatim>\<open>src/internal/limits/policy.go\<close>: request classes, the subject a request counts
  under and its key, resource budgets, and the policy set with its validation. The
  seven per-class policy structs of the source have the same fields and are converted
  to \<^verbatim>\<open>quotaPolicy\<close> before use; the model gives every class a \<open>quota_policy\<close>.
\<close>

section \<open>Definitions\<close>

datatype limits_error =
    ErrInvalidSubject
  | ErrInvalidRequestClass
  | ErrInvalidPolicy
  | ErrInvalidUsage
  | ErrResourceBudgetExceeded
  | ErrContext  \<comment> \<open>\<^verbatim>\<open>ctx.Err()\<close>\<close>

text \<open>\<^verbatim>\<open>type RequestClass uint8\<close>, with its seven constants.\<close>

type_synonym request_class = "8 word"

abbreviation RequestClassAuth :: request_class where "RequestClassAuth \<equiv> 1"
abbreviation RequestClassContext :: request_class where "RequestClassContext \<equiv> 2"
abbreviation RequestClassEvidence :: request_class where "RequestClassEvidence \<equiv> 3"
abbreviation RequestClassSnapshot :: request_class where "RequestClassSnapshot \<equiv> 4"
abbreviation RequestClassEpisode :: request_class where "RequestClassEpisode \<equiv> 5"
abbreviation RequestClassData :: request_class where "RequestClassData \<equiv> 6"
abbreviation RequestClassCapabilities :: request_class where "RequestClassCapabilities \<equiv> 7"

record subject =
  OrgID :: string
  CredentialID :: string
  Surface :: string

definition nul :: char where "nul = CHR 0x00"

definition subject_key :: "subject \<Rightarrow> string" where
  "subject_key s =
    (if Surface s = '''' then CredentialID s
     else ''owner'' @ [nul] @ Surface s @ [nul] @ CredentialID s)"

record resource_budget =
  MaxItems :: int
  MaxTokens :: int
  MaxBytes :: int

record resource_usage =
  Items :: int
  Tokens :: int
  Bytes :: int

record quota_policy =
  Window :: duration
  PerOrgLimit :: int
  PerCredentialLimit :: int
  Resources :: resource_budget

record policy_set =
  Auth :: quota_policy
  Context :: quota_policy
  Evidence :: quota_policy
  Snapshot :: quota_policy
  Episode :: quota_policy
  Data :: quota_policy
  Capabilities :: quota_policy

definition budget_valid :: "resource_budget \<Rightarrow> bool" where
  "budget_valid b \<longleftrightarrow> MaxItems b \<ge> 0 \<and> MaxTokens b \<ge> 0 \<and> MaxBytes b \<ge> 0"

definition budget_allows :: "resource_budget \<Rightarrow> resource_usage \<Rightarrow> bool" where
  "budget_allows b u \<longleftrightarrow>
     (MaxItems b = 0 \<or> Items u \<le> MaxItems b) \<and>
     (MaxTokens b = 0 \<or> Tokens u \<le> MaxTokens b) \<and>
     (MaxBytes b = 0 \<or> Bytes u \<le> MaxBytes b)"

definition class_policy :: "policy_set \<Rightarrow> request_class \<Rightarrow> quota_policy option" where
  "class_policy p c =
    (if c = RequestClassAuth then Some (Auth p)
     else if c = RequestClassContext then Some (Context p)
     else if c = RequestClassEvidence then Some (Evidence p)
     else if c = RequestClassSnapshot then Some (Snapshot p)
     else if c = RequestClassEpisode then Some (Episode p)
     else if c = RequestClassData then Some (Data p)
     else if c = RequestClassCapabilities then Some (Capabilities p)
     else None)"

definition policy_ok :: "quota_policy \<Rightarrow> bool" where
  "policy_ok q \<longleftrightarrow>
     \<not> (PerOrgLimit q < 0 \<or> PerCredentialLimit q < 0 \<or> \<not> budget_valid (Resources q)
        \<or> (Window q \<le> 0 \<and> (PerOrgLimit q > 0 \<or> PerCredentialLimit q > 0)))"

definition policy :: "policy_set \<Rightarrow> request_class \<Rightarrow> limits_error + quota_policy" where
  "policy p c =
    (case class_policy p c of
       None \<Rightarrow> Inl ErrInvalidRequestClass
     | Some q \<Rightarrow> if policy_ok q then Inr q else Inl ErrInvalidPolicy)"

definition request_classes :: "request_class list" where
  "request_classes =
    [RequestClassAuth, RequestClassContext, RequestClassEvidence, RequestClassSnapshot,
     RequestClassEpisode, RequestClassData, RequestClassCapabilities]"

fun validate_classes :: "policy_set \<Rightarrow> request_class list \<Rightarrow> limits_error option" where
  "validate_classes p [] = None"
| "validate_classes p (c # cs) =
    (case policy p c of Inl e \<Rightarrow> Some e | Inr _ \<Rightarrow> validate_classes p cs)"

definition policies_validate :: "policy_set \<Rightarrow> limits_error option" where
  "policies_validate p = validate_classes p request_classes"

definition valid_identifier :: "string \<Rightarrow> bool" where
  "valid_identifier v \<longleftrightarrow>
     \<not> (length v = 0 \<or> length v > 256 \<or> \<not> valid_string v \<or> TrimSpace v \<noteq> v) \<and>
     list_all (\<lambda>g. \<not> (is_control_rune (seg_rune g) \<or> is_space_rune (seg_rune g))) (runes_of v)"

definition subject_validate :: "subject \<Rightarrow> limits_error option" where
  "subject_validate s =
    (if \<not> valid_identifier (OrgID s) \<or> \<not> valid_identifier (CredentialID s)
        \<or> (Surface s \<noteq> '''' \<and> \<not> valid_identifier (Surface s))
     then Some ErrInvalidSubject else None)"

section \<open>Facts\<close>

lemma valid_identifier_no_nul: "valid_identifier v \<Longrightarrow> nul \<notin> set v"
proof
  assume v: "valid_identifier v" and "nul \<in> set v"
  then have "0 \<in> set (map byte_of v)"
    by (force simp: byte_of_def nul_def)
  then have "\<lparr>seg_rune = 0, seg_valid = True, seg_bytes = [0]\<rparr> \<in> set (runes_of v)"
    unfolding runes_of_def by (rule ascii_segment) simp
  with v show False
    by (auto simp: valid_identifier_def list_all_iff is_control_rune_def)
qed

lemma subject_validate_None:
  "subject_validate s = None \<longleftrightarrow>
     valid_identifier (OrgID s) \<and> valid_identifier (CredentialID s) \<and>
     (Surface s = '''' \<or> valid_identifier (Surface s))"
  by (simp add: subject_validate_def)

lemma append_sep_inject:
  assumes "a @ x # b = c @ x # d" "x \<notin> set a" "x \<notin> set c"
  shows "a = c \<and> b = d"
  using assms
proof (induction a arbitrary: c)
  case Nil
  then show ?case by (cases c) auto
next
  case (Cons y a)
  then show ?case by (cases c) auto
qed

lemma policies_validate_None:
  "policies_validate p = None \<longleftrightarrow> (\<forall>c\<in>set request_classes. \<exists>q. policy p c = Inr q)"
proof -
  have "validate_classes p cs = None \<longleftrightarrow> (\<forall>c\<in>set cs. \<exists>q. policy p c = Inr q)" for cs
    by (induction cs) (auto split: sum.splits)
  then show ?thesis
    by (simp add: policies_validate_def)
qed

lemma policy_Inr: "policy p c = Inr q \<longleftrightarrow> class_policy p c = Some q \<and> policy_ok q"
  by (auto simp: policy_def split: option.splits)

lemma class_policy_known: "class_policy p c = Some q \<Longrightarrow> c \<in> set request_classes"
  by (auto simp: class_policy_def request_classes_def split: if_splits)

text \<open>
  The key a subject is counted under identifies the subject's surface and
  credential. In particular an owner's key never equals a plain subject's, whatever a
  stored subject spells.
\<close>

theorem subject_key_injective:
  assumes "subject_validate s = None" "subject_validate t = None"
    and "subject_key s = subject_key t"
  shows "Surface s = Surface t \<and> CredentialID s = CredentialID t"
proof -
  have nn: "nul \<notin> set (CredentialID s)" "nul \<notin> set (CredentialID t)"
    using assms valid_identifier_no_nul by (auto simp: subject_validate_None)
  have sn: "nul \<notin> set (Surface s)" "nul \<notin> set (Surface t)"
    using assms valid_identifier_no_nul by (auto simp: subject_validate_None)
  show ?thesis
  proof (cases "Surface s = '''' \<or> Surface t = ''''")
    case True
    moreover have "nul \<in> set (''owner'' @ [nul] @ x)" for x
      by simp
    ultimately show ?thesis
      using assms(3) nn unfolding subject_key_def by (metis (full_types))
  next
    case False
    with assms(3) have "Surface s @ nul # CredentialID s = Surface t @ nul # CredentialID t"
      by (simp add: subject_key_def)
    from append_sep_inject [OF this sn] show ?thesis by simp
  qed
qed

theorem subject_key_injective_witness:
  "subject_validate \<lparr>OrgID = ''org'', CredentialID = ''alice'', Surface = ''web''\<rparr> = None \<and>
   subject_key \<lparr>OrgID = ''org'', CredentialID = ''alice'', Surface = ''web''\<rparr>
     \<noteq> subject_key \<lparr>OrgID = ''org'', CredentialID = ''bob'', Surface = ''''\<rparr>"
proof -
  let ?s = "\<lparr>OrgID = ''org'', CredentialID = ''alice'', Surface = ''web''\<rparr>"
  let ?t = "\<lparr>OrgID = ''org'', CredentialID = ''bob'', Surface = ''''\<rparr>"
  have s: "subject_validate ?s = None" and t: "subject_validate ?t = None"
    by code_simp+
  have "Surface ?s \<noteq> Surface ?t" by simp
  with subject_key_injective [OF s t] have "subject_key ?s \<noteq> subject_key ?t" by blast
  with s show ?thesis by simp
qed

end
