(* ===== verification/Limits_Manager.thy ===== *)
theory Limits_Manager
  imports Limits_Policy
begin

text \<open>
  \<^verbatim>\<open>src/internal/limits/manager.go\<close> and \<^verbatim>\<open>retention.go\<close>: the request limiter that admits
  a request of a subject under a class (a \<open>claim\<close>) and accounts for it when it
  completes.

  A usage window is shared by pointer between the manager's map and the claims admitted
  under it, so windows live in an explicit heap \<open>m_heap\<close> and the map and the claims hold
  addresses. The manager's mutex makes every operation atomic; the clock read under it is
  an argument. \<open>limits_sys\<close> is the manager with every claim it handed out, so an
  interleaving of requests is a list of operations on it.

  The event counters of a window (admissions, denials, completions) are unbounded
  integers here; the resource sums, which add numbers a caller chooses, wrap at 64 bits.
\<close>

section \<open>State\<close>

datatype denial_reason =
    DenialNone | DenialOrgQuota | DenialCredentialQuota | DenialConcurrency | DenialTrackingCapacity

record decision =
  Allowed :: bool
  Reason :: denial_reason
  RetryAfter :: duration

record usage_counters =
  uc_Admitted :: int
  uc_Denied :: int
  uc_Completed :: int
  uc_Items :: int
  uc_Tokens :: int
  uc_Bytes :: int

definition zero_counters :: usage_counters where
  "zero_counters = \<lparr>uc_Admitted = 0, uc_Denied = 0, uc_Completed = 0, uc_Items = 0, uc_Tokens = 0, uc_Bytes = 0\<rparr>"

record usage_totals =
  WindowStarted :: time
  Org :: usage_counters
  Credential :: usage_counters

definition zero_totals :: usage_totals where
  "zero_totals = \<lparr>WindowStarted = 0, Org = zero_counters, Credential = zero_counters\<rparr>"

record usage_window =
  w_started :: time
  w_quota_started :: time
  w_last_touched :: time
  w_quota_org :: int
  w_quota_credential :: "(string, int) gomap"
  w_org :: usage_counters
  w_credentials :: "(string, usage_counters) gomap"
  w_touched :: "(string, time) gomap"
  w_running :: "(string, int) gomap"
  w_next_forget :: time
  w_last_forget :: time
  w_forget_passes :: int

definition new_window :: "time \<Rightarrow> usage_window" where
  "new_window now =
    \<lparr>w_started = now, w_quota_started = now, w_last_touched = now, w_quota_org = 0,
     w_quota_credential = [], w_org = zero_counters, w_credentials = [], w_touched = [],
     w_running = [], w_next_forget = 0, w_last_forget = 0, w_forget_passes = 0\<rparr>"

type_synonym win_ref = nat

record manager =
  m_policies :: policy_set
  m_concurrency :: int
  m_max_organizations :: int
  m_max_credentials :: int
  m_retention :: duration
  m_concurrency_retry :: duration
  m_max_retry :: duration
  m_windows :: "(request_class, (string, win_ref) gomap) gomap"
  m_inflight :: "(string, int) gomap"
  m_heap :: "(win_ref, usage_window) gomap"
  m_next_ref :: win_ref

record limits_options =
  o_Policies :: policy_set
  o_PerOrgConcurrency :: int
  o_MaxTrackedOrganizations :: int
  o_MaxCredentialsPerOrganization :: int
  o_StateRetention :: duration
  o_ConcurrencyRetryAfter :: duration
  o_MaxRetryAfter :: duration

record claim =
  c_class :: request_class
  c_subject :: subject
  c_window :: win_ref
  c_budget :: resource_budget
  c_once :: bool  \<comment> \<open>\<^verbatim>\<open>sync.Once\<close> has fired\<close>
  c_result :: "limits_error option"

section \<open>Operations\<close>

definition or_default :: "int \<Rightarrow> int \<Rightarrow> int" where
  "or_default d x = (if x = 0 then d else x)"

definition new_manager :: "limits_options \<Rightarrow> limits_error + manager" where
  "new_manager opts =
    (case policies_validate (o_Policies opts) of
       Some e \<Rightarrow> Inl e
     | None \<Rightarrow>
         if o_PerOrgConcurrency opts < 0 \<or> o_MaxTrackedOrganizations opts < 0
            \<or> o_MaxCredentialsPerOrganization opts < 0 \<or> o_StateRetention opts < 0
            \<or> o_ConcurrencyRetryAfter opts < 0 \<or> o_MaxRetryAfter opts < 0
         then Inl ErrInvalidPolicy
         else
           let maxRetry = or_default Minute (o_MaxRetryAfter opts);
               retry = or_default (5 * Second) (o_ConcurrencyRetryAfter opts)
           in Inr \<lparr>m_policies = o_Policies opts, m_concurrency = o_PerOrgConcurrency opts,
                   m_max_organizations = or_default 1024 (o_MaxTrackedOrganizations opts),
                   m_max_credentials = or_default 128 (o_MaxCredentialsPerOrganization opts),
                   m_retention = or_default Hour (o_StateRetention opts),
                   m_concurrency_retry = (if retry > maxRetry then maxRetry else retry),
                   m_max_retry = maxRetry,
                   m_windows = [], m_inflight = [], m_heap = [], m_next_ref = 0\<rparr>)"

subsection \<open>Windows on the heap\<close>

definition window_at :: "manager \<Rightarrow> win_ref \<Rightarrow> usage_window" where
  "window_at m r = lookup_or (new_window 0) (m_heap m) r"

definition set_window :: "win_ref \<Rightarrow> usage_window \<Rightarrow> manager \<Rightarrow> manager" where
  "set_window r w m = m\<lparr>m_heap := put r w (m_heap m)\<rparr>"

definition class_windows :: "manager \<Rightarrow> request_class \<Rightarrow> (string, win_ref) gomap" where
  "class_windows m c = lookup_or [] (m_windows m) c"

definition window_ref :: "manager \<Rightarrow> request_class \<Rightarrow> string \<Rightarrow> win_ref option" where
  "window_ref m c org = map_of (class_windows m c) org"

definition inflight_of :: "manager \<Rightarrow> string \<Rightarrow> int" where
  "inflight_of m org = lookup_or 0 (m_inflight m) org"

subsection \<open>Retention\<close>

definition retention_of :: "manager \<Rightarrow> quota_policy \<Rightarrow> duration" where
  "retention_of m q = max (m_retention m) (Window q)"

definition expired :: "manager \<Rightarrow> usage_window \<Rightarrow> quota_policy \<Rightarrow> time \<Rightarrow> bool" where
  "expired m w q now \<longleftrightarrow> \<not> now < w_last_touched w + retention_of m q"

definition quota_expired :: "usage_window \<Rightarrow> quota_policy \<Rightarrow> time \<Rightarrow> bool" where
  "quota_expired w q now \<longleftrightarrow> Window q > 0 \<and> \<not> now < w_quota_started w + Window q"

definition capacity_denied :: "manager \<Rightarrow> decision" where
  "capacity_denied m = \<lparr>Allowed = False, Reason = DenialTrackingCapacity, RetryAfter = m_max_retry m\<rparr>"

definition denied :: "manager \<Rightarrow> denial_reason \<Rightarrow> time \<Rightarrow> duration \<Rightarrow> time \<Rightarrow> decision" where
  "denied m reason started window now =
    (let retryAfter = time_sub (started + window) now
     in if retryAfter \<le> 0 then \<lparr>Allowed = False, Reason = reason, RetryAfter = 0\<rparr>
        else let rounded = wrap64 (tdiv (wrap64 (retryAfter + Second - 1)) Second * Second)
             in \<lparr>Allowed = False, Reason = reason, RetryAfter = min rounded (m_max_retry m)\<rparr>)"

definition seen :: "string \<Rightarrow> time \<Rightarrow> usage_window \<Rightarrow> usage_window" where
  "seen key now w =
    w\<lparr>w_touched := put key now (w_touched w),
      w_next_forget := (if now < w_last_forget w then 0 else w_next_forget w)\<rparr>"

definition credential_of :: "usage_window \<Rightarrow> string \<Rightarrow> usage_counters" where
  "credential_of w key = lookup_or zero_counters (w_credentials w) key"

definition window_denied :: "string \<Rightarrow> time \<Rightarrow> usage_window \<Rightarrow> usage_window" where
  "window_denied key now w =
    (let credential = credential_of w key
     in seen key now
         (w\<lparr>w_org := (w_org w)\<lparr>uc_Denied := uc_Denied (w_org w) + 1\<rparr>,
            w_credentials := put key (credential\<lparr>uc_Denied := uc_Denied credential + 1\<rparr>) (w_credentials w),
            w_last_touched := now\<rparr>))"

definition running_of :: "usage_window \<Rightarrow> string \<Rightarrow> int" where
  "running_of w key = lookup_or 0 (w_running w) key"

text \<open>The loop of \<^verbatim>\<open>forgetIdle\<close> over \<^verbatim>\<open>window.touched\<close>.\<close>

fun forget_loop ::
  "duration \<Rightarrow> time \<Rightarrow> (string, time) gomap \<Rightarrow> usage_window \<Rightarrow> time \<Rightarrow> usage_window \<times> time" where
  "forget_loop ret now [] w next = (w, next)"
| "forget_loop ret now ((key, touched) # rest) w next =
    (if running_of w key > 0 then forget_loop ret now rest w next
     else let expires = touched + ret
          in if \<not> now < expires
             then forget_loop ret now rest
                    (w\<lparr>w_credentials := del key (w_credentials w),
                       w_quota_credential := del key (w_quota_credential w),
                       w_touched := del key (w_touched w)\<rparr>) next
             else forget_loop ret now rest w (if expires < next then expires else next))"

definition forget_scan :: "duration \<Rightarrow> time \<Rightarrow> usage_window \<Rightarrow> usage_window" where
  "forget_scan ret now w =
    (case forget_loop ret now (w_touched w)
            (w\<lparr>w_forget_passes := w_forget_passes w + 1, w_last_forget := now\<rparr>) (now + ret) of
       (w', next) \<Rightarrow> w'\<lparr>w_next_forget := next\<rparr>)"

definition forget_idle :: "duration \<Rightarrow> time \<Rightarrow> usage_window \<Rightarrow> usage_window" where
  "forget_idle ret now w = (if now < w_next_forget w then w else forget_scan ret now w)"

definition sweep_class :: "manager \<Rightarrow> time \<Rightarrow> request_class \<Rightarrow> (string, win_ref) gomap \<Rightarrow> (string, win_ref) gomap" where
  "sweep_class m now c by_org =
    (case policy (m_policies m) c of
       Inl _ \<Rightarrow> by_org
     | Inr q \<Rightarrow> filter (\<lambda>(org, r). \<not> (inflight_of m org = 0 \<and> expired m (window_at m r) q now)) by_org)"

definition sweep :: "time \<Rightarrow> manager \<Rightarrow> manager" where
  "sweep now m = m\<lparr>m_windows := map (\<lambda>(c, by_org). (c, sweep_class m now c by_org)) (m_windows m)\<rparr>"

subsection \<open>Finding or creating the window of a request\<close>

definition reset_quota :: "quota_policy \<Rightarrow> time \<Rightarrow> usage_window \<Rightarrow> usage_window" where
  "reset_quota q now w =
    (if quota_expired w q now
     then w\<lparr>w_quota_started := now, w_quota_org := 0, w_quota_credential := []\<rparr> else w)"

definition make_room :: "manager \<Rightarrow> quota_policy \<Rightarrow> string \<Rightarrow> time \<Rightarrow> usage_window \<Rightarrow> usage_window" where
  "make_room m q key now w =
    (if \<not> has_key (w_credentials w) key \<and> map_len (w_credentials w) \<ge> m_max_credentials m
     then forget_idle (retention_of m q) now w else w)"

definition has_room :: "manager \<Rightarrow> string \<Rightarrow> usage_window \<Rightarrow> bool" where
  "has_room m key w \<longleftrightarrow> has_key (w_credentials w) key \<or> map_len (w_credentials w) < m_max_credentials m"

definition open_class :: "request_class \<Rightarrow> manager \<Rightarrow> manager" where
  "open_class c m = (if has_key (m_windows m) c then m else m\<lparr>m_windows := put c [] (m_windows m)\<rparr>)"

definition alloc_window :: "request_class \<Rightarrow> string \<Rightarrow> time \<Rightarrow> manager \<Rightarrow> manager" where
  "alloc_window c org now m =
    m\<lparr>m_windows := put c (put org (m_next_ref m) (class_windows m c)) (m_windows m),
      m_heap := put (m_next_ref m) (new_window now) (m_heap m),
      m_next_ref := m_next_ref m + 1\<rparr>"

text \<open>The second half of \<^verbatim>\<open>windowFor\<close>, for a window that exists.\<close>

definition use_window ::
  "win_ref \<Rightarrow> subject \<Rightarrow> quota_policy \<Rightarrow> time \<Rightarrow> manager \<Rightarrow> (win_ref option \<times> decision) \<times> manager" where
  "use_window r subject q now m =
    (let key = subject_key subject;
         w = make_room m q key now (reset_quota q now (window_at m r));
         m' = set_window r w m
     in if has_room m key w then ((Some r, \<lparr>Allowed = True, Reason = DenialNone, RetryAfter = 0\<rparr>), m')
        else ((None, capacity_denied m), m'))"

definition window_for ::
  "request_class \<Rightarrow> subject \<Rightarrow> quota_policy \<Rightarrow> time \<Rightarrow> manager \<Rightarrow> (win_ref option \<times> decision) \<times> manager" where
  "window_for c subject q now m =
    (let m1 = open_class c m
     in case window_ref m1 c (OrgID subject) of
          Some r \<Rightarrow> use_window r subject q now m1
        | None \<Rightarrow>
            if map_len (class_windows m1 c) \<ge> m_max_organizations m1
            then ((None, capacity_denied m1), m1)
            else use_window (m_next_ref m1) subject q now (alloc_window c (OrgID subject) now m1))"

subsection \<open>Claim, Usage, Complete\<close>

definition admit_window :: "string \<Rightarrow> time \<Rightarrow> usage_window \<Rightarrow> usage_window" where
  "admit_window key now w =
    (let credential = credential_of w key
     in w\<lparr>w_quota_org := w_quota_org w + 1,
          w_quota_credential := put key (lookup_or 0 (w_quota_credential w) key + 1) (w_quota_credential w),
          w_org := (w_org w)\<lparr>uc_Admitted := uc_Admitted (w_org w) + 1\<rparr>,
          w_credentials := put key (credential\<lparr>uc_Admitted := uc_Admitted credential + 1\<rparr>) (w_credentials w),
          w_last_touched := now,
          w_running := put key (running_of w key + 1) (w_running w)\<rparr>)"

definition admission_denial ::
  "win_ref \<Rightarrow> subject \<Rightarrow> quota_policy \<Rightarrow> time \<Rightarrow> manager \<Rightarrow> decision option" where
  "admission_denial r subject q now m =
    (let w = window_at m r
     in if m_concurrency m > 0 \<and> inflight_of m (OrgID subject) \<ge> m_concurrency m
        then Some \<lparr>Allowed = False, Reason = DenialConcurrency, RetryAfter = m_concurrency_retry m\<rparr>
        else if PerOrgLimit q > 0 \<and> w_quota_org w \<ge> PerOrgLimit q
        then Some (denied m DenialOrgQuota (w_quota_started w) (Window q) now)
        else if PerCredentialLimit q > 0 \<and> lookup_or 0 (w_quota_credential w) (subject_key subject) \<ge> PerCredentialLimit q
        then Some (denied m DenialCredentialQuota (w_quota_started w) (Window q) now)
        else None)"

definition admit_claim ::
  "win_ref \<Rightarrow> subject \<Rightarrow> request_class \<Rightarrow> quota_policy \<Rightarrow> time \<Rightarrow> manager \<Rightarrow> claim \<times> manager" where
  "admit_claim r subject c q now m =
    (\<lparr>c_class = c, c_subject = subject, c_window = r, c_budget = Resources q, c_once = False, c_result = None\<rparr>,
     (set_window r (admit_window (subject_key subject) now (window_at m r)) m)
       \<lparr>m_inflight := put (OrgID subject) (inflight_of m (OrgID subject) + 1) (m_inflight m)\<rparr>)"

text \<open>
  \<^verbatim>\<open>Manager.Claim\<close>. The context is consulted on entry and again under the lock; the
  two observations are arguments.
\<close>

definition manager_claim ::
  "bool \<Rightarrow> bool \<Rightarrow> time \<Rightarrow> subject \<Rightarrow> request_class \<Rightarrow> manager \<Rightarrow>
     (limits_error + (claim option \<times> decision)) \<times> manager" where
  "manager_claim ctx_err ctx_err_locked now subject c m =
    (if ctx_err then (Inl ErrContext, m)
     else case subject_validate subject of Some e \<Rightarrow> (Inl e, m)
     | None \<Rightarrow> (case policy (m_policies m) c of Inl e \<Rightarrow> (Inl e, m)
     | Inr q \<Rightarrow>
       if ctx_err_locked then (Inl ErrContext, m)
       else case window_for c subject q now (sweep now m) of
         ((None, d), m2) \<Rightarrow> (Inr (None, d), m2)
       | ((Some r, _), m2) \<Rightarrow>
           (case admission_denial r subject q now m2 of
              Some d \<Rightarrow> (Inr (None, d), set_window r (window_denied (subject_key subject) now (window_at m2 r)) m2)
            | None \<Rightarrow> (case admit_claim r subject c q now m2 of
                (cl, m3) \<Rightarrow> (Inr (Some cl, \<lparr>Allowed = True, Reason = DenialNone, RetryAfter = 0\<rparr>), m3)))))"

definition manager_usage ::
  "subject \<Rightarrow> request_class \<Rightarrow> time \<Rightarrow> manager \<Rightarrow> (limits_error + usage_totals) \<times> manager" where
  "manager_usage subject c now m =
    (case subject_validate subject of Some e \<Rightarrow> (Inl e, m)
     | None \<Rightarrow> (case policy (m_policies m) c of Inl e \<Rightarrow> (Inl e, m)
     | Inr _ \<Rightarrow>
       let m1 = sweep now m
       in (Inr (case window_ref m1 c (OrgID subject) of
             None \<Rightarrow> zero_totals
           | Some r \<Rightarrow> \<lparr>WindowStarted = w_started (window_at m1 r), Org = w_org (window_at m1 r),
                        Credential = credential_of (window_at m1 r) (subject_key subject)\<rparr>), m1)))"

definition add_usage :: "resource_usage \<Rightarrow> usage_counters \<Rightarrow> usage_counters" where
  "add_usage u c =
    c\<lparr>uc_Items := wrap64 (uc_Items c + Items u), uc_Tokens := wrap64 (uc_Tokens c + Tokens u),
      uc_Bytes := wrap64 (uc_Bytes c + Bytes u)\<rparr>"

definition settle :: "resource_usage \<Rightarrow> bool \<Rightarrow> usage_counters \<Rightarrow> usage_counters" where
  "settle u accepted c =
    (let c1 = c\<lparr>uc_Completed := uc_Completed c + 1\<rparr>
     in if accepted then add_usage u c1 else c1\<lparr>uc_Denied := uc_Denied c1 + 1\<rparr>)"

definition complete_window :: "string \<Rightarrow> resource_usage \<Rightarrow> bool \<Rightarrow> time \<Rightarrow> usage_window \<Rightarrow> usage_window" where
  "complete_window key u accepted now w =
    (let w1 = seen key now
          (w\<lparr>w_org := settle u accepted (w_org w),
             w_credentials := put key (settle u accepted (credential_of w key)) (w_credentials w),
             w_last_touched := now\<rparr>)
     in w1\<lparr>w_running := decrement key (w_running w1)\<rparr>)"

definition manager_complete :: "claim \<Rightarrow> resource_usage \<Rightarrow> bool \<Rightarrow> time \<Rightarrow> manager \<Rightarrow> manager" where
  "manager_complete cl u accepted now m =
    (set_window (c_window cl)
       (complete_window (subject_key (c_subject cl)) u accepted now (window_at m (c_window cl))) m)
     \<lparr>m_inflight := decrement (OrgID (c_subject cl)) (m_inflight m)\<rparr>"

definition usage_negative :: "resource_usage \<Rightarrow> bool" where
  "usage_negative u \<longleftrightarrow> Items u < 0 \<or> Tokens u < 0 \<or> Bytes u < 0"

text \<open>The function both completions pass to \<^verbatim>\<open>once.Do\<close>, with the budget they apply.\<close>

definition complete_once ::
  "resource_budget \<Rightarrow> resource_usage \<Rightarrow> time \<Rightarrow> claim \<Rightarrow> manager \<Rightarrow> limits_error option \<times> claim \<times> manager" where
  "complete_once budget u now cl m =
    (if c_once cl then (c_result cl, cl, m)
     else if \<not> budget_allows budget u
     then (Some ErrResourceBudgetExceeded, cl\<lparr>c_once := True, c_result := Some ErrResourceBudgetExceeded\<rparr>,
           manager_complete cl u False now m)
     else (c_result cl, cl\<lparr>c_once := True\<rparr>, manager_complete cl u True now m))"

definition claim_complete ::
  "resource_usage \<Rightarrow> time \<Rightarrow> claim \<Rightarrow> manager \<Rightarrow> limits_error option \<times> claim \<times> manager" where
  "claim_complete u now cl m =
    (if usage_negative u then (Some ErrInvalidUsage, cl, m) else complete_once (c_budget cl) u now cl m)"

definition claim_complete_with_budget ::
  "resource_usage \<Rightarrow> resource_budget \<Rightarrow> time \<Rightarrow> claim \<Rightarrow> manager \<Rightarrow> limits_error option \<times> claim \<times> manager" where
  "claim_complete_with_budget u override now cl m =
    (if usage_negative u then (Some ErrInvalidUsage, cl, m)
     else if \<not> budget_valid override then (Some ErrInvalidPolicy, cl, m)
     else complete_once override u now cl m)"

definition done_claim :: "time \<Rightarrow> claim \<Rightarrow> manager \<Rightarrow> claim \<times> manager" where
  "done_claim now cl m = snd (claim_complete \<lparr>Items = 0, Tokens = 0, Bytes = 0\<rparr> now cl m)"

section \<open>The manager and its claims as one machine\<close>

record limits_sys =
  ls_manager :: manager
  ls_claims :: "claim list"

datatype limits_op =
    OpClaim bool bool time subject request_class
  | OpUsage subject request_class time
  | OpComplete nat resource_usage time
  | OpCompleteWithBudget nat resource_usage resource_budget time
  | OpDone nat time

definition with_claim ::
  "nat \<Rightarrow> (claim \<Rightarrow> manager \<Rightarrow> claim \<times> manager) \<Rightarrow> limits_sys \<Rightarrow> limits_sys" where
  "with_claim i f s =
    (if i < length (ls_claims s)
     then (case f (ls_claims s ! i) (ls_manager s) of
             (cl, m) \<Rightarrow> \<lparr>ls_manager = m, ls_claims = (ls_claims s)[i := cl]\<rparr>)
     else s)"

fun limits_step :: "limits_op \<Rightarrow> limits_sys \<Rightarrow> limits_sys" where
  "limits_step (OpClaim e1 e2 now subject c) s =
    (case manager_claim e1 e2 now subject c (ls_manager s) of
       (Inr (Some cl, _), m) \<Rightarrow> \<lparr>ls_manager = m, ls_claims = ls_claims s @ [cl]\<rparr>
     | (_, m) \<Rightarrow> s\<lparr>ls_manager := m\<rparr>)"
| "limits_step (OpUsage subject c now) s = s\<lparr>ls_manager := snd (manager_usage subject c now (ls_manager s))\<rparr>"
| "limits_step (OpComplete i u now) s = with_claim i (\<lambda>cl m. snd (claim_complete u now cl m)) s"
| "limits_step (OpCompleteWithBudget i u b now) s =
    with_claim i (\<lambda>cl m. snd (claim_complete_with_budget u b now cl m)) s"
| "limits_step (OpDone i now) s = with_claim i (done_claim now) s"

end
