(* ===== verification/Limits_Accounting.thy ===== *)
theory Limits_Accounting
  imports Limits_Manager
begin

text \<open>
  The accounting of the limiter. \<open>limits_inv\<close> says how the manager's counters and the
  claims that are still open agree: the in-flight count of an organization is the number
  of its open claims, the running count of a subject in a window is the number of its
  open claims there, and the window an open claim points to is the one the manager
  serves that class and organization with, so no completion is accounted to a window
  that was swept. It is preserved by every operation in any order.

  \<open>Limits_Windows\<close> builds on it: there an invariant of a single window is lifted to every
  window a manager holds.
\<close>

section \<open>Open claims\<close>

definition open_count :: "(claim \<Rightarrow> bool) \<Rightarrow> claim list \<Rightarrow> int" where
  "open_count P cs = int (length (filter (\<lambda>c. \<not> c_once c \<and> P c) cs))"

lemma open_count_snoc [simp]:
  "open_count P (cs @ [c]) = open_count P cs + (if \<not> c_once c \<and> P c then 1 else 0)"
  by (simp add: open_count_def)

lemma open_count_nonneg [simp]: "0 \<le> open_count P cs"
  by (simp add: open_count_def)

lemma open_count_Nil [simp]: "open_count P [] = 0"
  by (simp add: open_count_def)

lemma open_count_Cons [simp]:
  "open_count P (c # cs) = (if \<not> c_once c \<and> P c then 1 else 0) + open_count P cs"
  by (simp add: open_count_def)

lemma open_count_update:
  "i < length cs \<Longrightarrow> open_count P (cs[i := c]) = open_count P cs
     - (if \<not> c_once (cs ! i) \<and> P (cs ! i) then 1 else 0) + (if \<not> c_once c \<and> P c then 1 else 0)"
proof (induction cs arbitrary: i)
  case Nil
  then show ?case by simp
next
  case (Cons d cs)
  then show ?case by (cases i) auto
qed

lemma open_count_pos: "c \<in> set cs \<Longrightarrow> \<not> c_once c \<Longrightarrow> P c \<Longrightarrow> 0 < open_count P cs"
  by (force simp: open_count_def filter_empty_conv)

lemma open_count_cong:
  "(\<And>c. c \<in> set cs \<Longrightarrow> \<not> c_once c \<Longrightarrow> P c = Q c) \<Longrightarrow> open_count P cs = open_count Q cs"
  by (auto simp: open_count_def intro!: arg_cong [where f = length] filter_cong)

lemma open_count_zero: "(\<And>c. c \<in> set cs \<Longrightarrow> \<not> c_once c \<Longrightarrow> \<not> P c) \<Longrightarrow> open_count P cs = 0"
  by (auto simp: open_count_def filter_empty_conv)

section \<open>How each step of the manager changes what it holds\<close>

definition wf_manager :: "manager \<Rightarrow> bool" where
  "wf_manager m \<longleftrightarrow> wf_map (m_windows m) \<and> (\<forall>(c, by_org)\<in>set (m_windows m). wf_map by_org)"

definition manager_config ::
  "manager \<Rightarrow> policy_set \<times> int \<times> int \<times> int \<times> duration \<times> duration \<times> duration" where
  "manager_config m = (m_policies m, m_concurrency m, m_max_organizations m, m_max_credentials m,
     m_retention m, m_concurrency_retry m, m_max_retry m)"

named_theorems manager_simps

lemma class_windows_wf: "wf_manager m \<Longrightarrow> wf_map (class_windows m c)"
  by (auto simp: wf_manager_def class_windows_def lookup_or_def split: option.splits dest!: map_of_SomeD)

lemma window_at_set [manager_simps]: "window_at (set_window r w m) r' = (if r' = r then w else window_at m r')"
  by (simp add: window_at_def set_window_def map_simps)

lemma set_window_frame [manager_simps]:
  "window_ref (set_window r w m) = window_ref m"
  "inflight_of (set_window r w m) = inflight_of m"
  "m_next_ref (set_window r w m) = m_next_ref m"
  "m_inflight (set_window r w m) = m_inflight m"
  "class_windows (set_window r w m) = class_windows m"
  "manager_config (set_window r w m) = manager_config m"
  "wf_manager (set_window r w m) = wf_manager m"
  by (auto simp: set_window_def window_ref_def class_windows_def inflight_of_def manager_config_def
      wf_manager_def fun_eq_iff)

lemma set_inflight_frame [manager_simps]:
  "window_ref (m\<lparr>m_inflight := x\<rparr>) = window_ref m"
  "window_at (m\<lparr>m_inflight := x\<rparr>) = window_at m"
  "manager_config (m\<lparr>m_inflight := x\<rparr>) = manager_config m"
  "wf_manager (m\<lparr>m_inflight := x\<rparr>) = wf_manager m"
  by (auto simp: window_ref_def class_windows_def window_at_def manager_config_def wf_manager_def fun_eq_iff)

lemma inflight_of_set [manager_simps]: "inflight_of (m\<lparr>m_inflight := x\<rparr>) org = lookup_or 0 x org"
  by (simp add: inflight_of_def)

lemma sweep_frame [manager_simps]:
  "window_at (sweep now m) = window_at m"
  "inflight_of (sweep now m) = inflight_of m"
  "m_next_ref (sweep now m) = m_next_ref m"
  "manager_config (sweep now m) = manager_config m"
  "m_concurrency (sweep now m) = m_concurrency m"
  by (auto simp: sweep_def window_at_def inflight_of_def manager_config_def fun_eq_iff)

lemma config_fields [manager_simps]:
  "m_policies (sweep now m) = m_policies m"
  "m_max_organizations (sweep now m) = m_max_organizations m"
  "m_max_credentials (sweep now m) = m_max_credentials m"
  "m_max_retry (sweep now m) = m_max_retry m"
  "retention_of (sweep now m) = retention_of m"
  "m_policies (set_window r w m) = m_policies m"
  "m_concurrency (set_window r w m) = m_concurrency m"
  "m_max_credentials (set_window r w m) = m_max_credentials m"
  "retention_of (set_window r w m) = retention_of m"
  "m_policies (open_class c m) = m_policies m"
  "m_max_organizations (open_class c m) = m_max_organizations m"
  "m_max_credentials (open_class c m) = m_max_credentials m"
  "retention_of (open_class c m) = retention_of m"
  "m_policies (alloc_window c org now m) = m_policies m"
  "m_max_credentials (alloc_window c org now m) = m_max_credentials m"
  "retention_of (alloc_window c org now m) = retention_of m"
  "retention_of (m\<lparr>m_inflight := x\<rparr>) = retention_of m"
  by (auto simp: sweep_def set_window_def open_class_def alloc_window_def retention_of_def fun_eq_iff)

lemma wf_sweep_class: "wf_map b \<Longrightarrow> wf_map (sweep_class m now c b)"
  by (auto simp: sweep_class_def split: sum.splits)

lemma wf_sweep: "wf_manager m \<Longrightarrow> wf_manager (sweep now m)"
proof -
  assume "wf_manager m"
  moreover have "wf_map (map (\<lambda>(c, b). (c, sweep_class m now c b)) (m_windows m)) = wf_map (m_windows m)"
    by (rule wf_map_map) auto
  ultimately show ?thesis
    by (auto simp: wf_manager_def sweep_def wf_sweep_class)
qed

definition swept :: "manager \<Rightarrow> time \<Rightarrow> request_class \<Rightarrow> string \<Rightarrow> win_ref \<Rightarrow> bool" where
  "swept m now c org r \<longleftrightarrow>
     (\<exists>q. policy (m_policies m) c = Inr q \<and> inflight_of m org = 0 \<and> expired m (window_at m r) q now)"

lemma window_ref_sweep:
  "wf_manager m \<Longrightarrow>
    window_ref (sweep now m) c org =
      (case window_ref m c org of None \<Rightarrow> None | Some r \<Rightarrow> if swept m now c org r then None else Some r)"
proof -
  assume wf: "wf_manager m"
  have "class_windows (sweep now m) c = sweep_class m now c (class_windows m c)"
    by (auto simp: class_windows_def sweep_def lookup_or_def map_of_map_val sweep_class_def
        split: option.splits sum.splits)
  with class_windows_wf [OF wf, of c] show ?thesis
    by (auto simp: window_ref_def sweep_class_def swept_def map_of_filter split: sum.splits option.splits)
qed

lemma open_class_frame [manager_simps]:
  "window_ref (open_class c m) = window_ref m"
  "class_windows (open_class c m) = class_windows m"
  "window_at (open_class c m) = window_at m"
  "inflight_of (open_class c m) = inflight_of m"
  "m_next_ref (open_class c m) = m_next_ref m"
  "manager_config (open_class c m) = manager_config m"
  by (auto simp: open_class_def window_ref_def class_windows_def window_at_def inflight_of_def
      manager_config_def lookup_or_def has_key_def fun_eq_iff map_simps split: option.splits)

lemma wf_put_windows: "wf_manager m \<Longrightarrow> wf_map b \<Longrightarrow> wf_manager (m\<lparr>m_windows := put c b (m_windows m)\<rparr>)"
  by (auto simp: wf_manager_def wf_map_mem [OF wf_map_put] map_simps split: if_splits)
    (metis case_prodD map_of_SomeD)

lemma wf_open_class: "wf_manager m \<Longrightarrow> wf_manager (open_class c m)"
  by (simp add: open_class_def wf_put_windows)

lemma wf_alloc: "wf_manager m \<Longrightarrow> wf_manager (alloc_window c org now m)"
  using wf_put_windows [of m "put org (m_next_ref m) (class_windows m c)" c] class_windows_wf [of m c]
  by (simp add: alloc_window_def wf_manager_def)

lemma alloc_frame [manager_simps]:
  "inflight_of (alloc_window c org now m) = inflight_of m"
  "m_next_ref (alloc_window c org now m) = m_next_ref m + 1"
  "manager_config (alloc_window c org now m) = manager_config m"
  "window_at (alloc_window c org now m) r = (if r = m_next_ref m then new_window now else window_at m r)"
  by (auto simp: alloc_window_def inflight_of_def manager_config_def window_at_def map_simps fun_eq_iff)

lemma window_ref_alloc [manager_simps]:
  "window_ref (alloc_window c org now m) c' org' =
    (if c' = c \<and> org' = org then Some (m_next_ref m) else window_ref m c' org')"
  by (auto simp: alloc_window_def window_ref_def class_windows_def lookup_or_put AList.update_conv')

text \<open>The steps that only rewrite a window leave its running counts alone.\<close>

lemma running_seen [manager_simps]: "running_of (seen key now w) = running_of w"
  by (simp add: seen_def running_of_def fun_eq_iff)

lemma running_denied [manager_simps]: "running_of (window_denied key now w) = running_of w"
  by (simp add: window_denied_def Let_def running_seen) (simp add: running_of_def fun_eq_iff)

lemma running_reset [manager_simps]: "running_of (reset_quota q now w) = running_of w"
  by (simp add: reset_quota_def running_of_def fun_eq_iff)

lemma running_forget_loop: "running_of (fst (forget_loop ret now ts w next)) = running_of w"
  by (induction ret now ts w "next" rule: forget_loop.induct) (auto simp: Let_def running_of_def fun_eq_iff)

lemma running_forget_scan [manager_simps]: "running_of (forget_scan ret now w) = running_of w"
  using running_forget_loop [of ret now "w_touched w" "w\<lparr>w_forget_passes := w_forget_passes w + 1, w_last_forget := now\<rparr>" "now + ret"]
  by (auto simp: forget_scan_def running_of_def fun_eq_iff split: prod.splits)

lemma running_forget_idle [manager_simps]: "running_of (forget_idle ret now w) = running_of w"
  by (simp add: forget_idle_def manager_simps)

lemma running_make_room [manager_simps]: "running_of (make_room m q key now w) = running_of w"
  by (simp add: make_room_def manager_simps)

lemma running_admit [manager_simps]:
  "running_of (admit_window key now w) k = running_of w k + (if k = key then 1 else 0)"
  by (simp add: admit_window_def Let_def running_of_def map_simps)

lemma running_complete [manager_simps]:
  "running_of w key \<ge> 1 \<Longrightarrow> 0 \<le> running_of w k \<Longrightarrow>
    running_of (complete_window key u accepted now w) k = running_of w k - (if k = key then 1 else 0)"
  by (simp add: complete_window_def Let_def running_of_def seen_def lookup_decrement)

section \<open>The accounting invariant\<close>

definition refs_inv :: "manager \<Rightarrow> bool" where
  "refs_inv m \<longleftrightarrow>
     (\<forall>c org r. window_ref m c org = Some r \<longrightarrow> r < m_next_ref m) \<and>
     (\<forall>c org c' org' r. window_ref m c org = Some r \<longrightarrow> window_ref m c' org' = Some r \<longrightarrow> c = c' \<and> org = org')"

definition claims_inv :: "manager \<Rightarrow> claim list \<Rightarrow> bool" where
  "claims_inv m cs \<longleftrightarrow>
     (\<forall>c\<in>set cs. \<not> c_once c \<longrightarrow> window_ref m (c_class c) (OrgID (c_subject c)) = Some (c_window c))"

definition counts_inv :: "manager \<Rightarrow> claim list \<Rightarrow> bool" where
  "counts_inv m cs \<longleftrightarrow>
     (\<forall>org. inflight_of m org = open_count (\<lambda>c. OrgID (c_subject c) = org) cs) \<and>
     (\<forall>r k. running_of (window_at m r) k = open_count (\<lambda>c. c_window c = r \<and> subject_key (c_subject c) = k) cs)"

definition accounted :: "manager \<Rightarrow> claim list \<Rightarrow> bool" where
  "accounted m cs \<longleftrightarrow> wf_manager m \<and> refs_inv m \<and> claims_inv m cs \<and> counts_inv m cs"

text \<open>The concurrency limit, as a bound on the open claims of an organization.\<close>

definition concurrency_inv :: "manager \<Rightarrow> claim list \<Rightarrow> bool" where
  "concurrency_inv m cs \<longleftrightarrow>
     (m_concurrency m > 0 \<longrightarrow> (\<forall>org. open_count (\<lambda>c. OrgID (c_subject c) = org) cs \<le> m_concurrency m))"

definition limits_inv :: "limits_sys \<Rightarrow> bool" where
  "limits_inv s \<longleftrightarrow>
     accounted (ls_manager s) (ls_claims s) \<and> concurrency_inv (ls_manager s) (ls_claims s)"

lemmas accounted_defs = accounted_def refs_inv_def claims_inv_def counts_inv_def

lemma accounted_empty:
  "m_windows m = [] \<Longrightarrow> m_inflight m = [] \<Longrightarrow> m_heap m = [] \<Longrightarrow> accounted m []"
  by (simp add: accounted_defs wf_manager_def window_ref_def class_windows_def inflight_of_def
      running_of_def window_at_def lookup_or_def new_window_def)

lemma accounted_sweep:
  assumes "accounted m cs"
  shows "accounted (sweep now m) cs"
proof -
  have kept: "\<not> swept m now (c_class c) (OrgID (c_subject c)) r" if "c \<in> set cs" "\<not> c_once c" for c r
    using assms open_count_pos [OF that, of "\<lambda>d. OrgID (c_subject d) = OrgID (c_subject c)"] that
    by (auto simp: swept_def accounted_defs)
  have wf: "wf_manager m"
    using assms by (simp add: accounted_def)
  show ?thesis
    using assms kept unfolding accounted_defs
    by (auto simp: window_ref_sweep [OF wf] wf_sweep manager_simps split: option.splits if_splits)
qed

lemma accounted_open_class: "accounted m cs \<Longrightarrow> accounted (open_class c m) cs"
  by (simp add: accounted_defs manager_simps wf_open_class)

lemma accounted_set_window:
  "accounted m cs \<Longrightarrow> running_of w = running_of (window_at m r) \<Longrightarrow> accounted (set_window r w m) cs"
  by (simp add: accounted_defs manager_simps)

lemma accounted_alloc:
  assumes "accounted m cs" "window_ref m c org = None"
  shows "accounted (alloc_window c org now m) cs"
proof -
  have fresh: "window_ref m c' org' \<noteq> Some (m_next_ref m)" for c' org'
    using assms unfolding accounted_def refs_inv_def by (metis less_irrefl)
  have "open_count (\<lambda>c. c_window c = m_next_ref m \<and> subject_key (c_subject c) = k) cs = 0" for k
    using assms fresh by (intro open_count_zero) (auto simp: accounted_def claims_inv_def)
  then have "counts_inv (alloc_window c org now m) cs"
    using assms by (auto simp: accounted_def counts_inv_def manager_simps running_of_def new_window_def lookup_or_def)
  moreover have "refs_inv (alloc_window c org now m)"
    using assms fresh by (auto simp: accounted_def refs_inv_def manager_simps less_Suc_eq split: if_splits)
  moreover have "claims_inv (alloc_window c org now m) cs"
    using assms by (auto simp: accounted_def claims_inv_def manager_simps)
  ultimately show ?thesis
    using assms by (simp add: accounted_def wf_alloc)
qed

lemma accounted_use_window:
  assumes "accounted m cs" "use_window r subject q now m = ((ro, d), m')"
  shows "accounted m' cs \<and> window_ref m' = window_ref m \<and> (ro = None \<or> ro = Some r)
    \<and> manager_config m' = manager_config m"
  using assms
  by (auto simp: use_window_def Let_def manager_simps split: if_splits intro!: accounted_set_window)

lemma accounted_window_for:
  assumes "accounted m cs" "window_for c subject q now m = ((ro, d), m')"
  shows "accounted m' cs \<and> (\<forall>r. ro = Some r \<longrightarrow> window_ref m' c (OrgID subject) = Some r)
    \<and> manager_config m' = manager_config m"
proof (cases "window_ref m c (OrgID subject)")
  case (Some r)
  with assms have "use_window r subject q now (open_class c m) = ((ro, d), m')"
    by (simp add: window_for_def manager_simps)
  from accounted_use_window [OF accounted_open_class [OF assms(1)] this] Some show ?thesis
    by (auto simp: manager_simps)
next
  case None
  let ?m1 = "open_class c m"
  show ?thesis
  proof (cases "map_len (class_windows m c) \<ge> m_max_organizations ?m1")
    case True
    with assms None show ?thesis
      by (auto simp: window_for_def Let_def manager_simps accounted_open_class)
  next
    case False
    with assms None have *: "use_window (m_next_ref ?m1) subject q now (alloc_window c (OrgID subject) now ?m1) = ((ro, d), m')"
      by (simp add: window_for_def manager_simps)
    have "accounted (alloc_window c (OrgID subject) now ?m1) cs"
      using assms(1) None by (intro accounted_alloc accounted_open_class) (auto simp: manager_simps)
    from accounted_use_window [OF this *] show ?thesis
      by (auto simp: manager_simps)
  qed
qed

lemma accounted_admit:
  assumes "accounted m cs" "window_ref m c (OrgID subject) = Some r"
    and "admit_claim r subject c q now m = (cl, m')"
  shows "accounted m' (cs @ [cl])"
proof -
  have m': "m' = (set_window r (admit_window (subject_key subject) now (window_at m r)) m)
      \<lparr>m_inflight := put (OrgID subject) (inflight_of m (OrgID subject) + 1) (m_inflight m)\<rparr>"
    and cl: "\<not> c_once cl" "c_class cl = c" "c_subject cl = subject" "c_window cl = r"
    using assms(3) by (auto simp: admit_claim_def)
  have "wf_manager m'" "refs_inv m'"
    using assms(1) by (simp_all add: m' accounted_def refs_inv_def manager_simps)
  moreover have "claims_inv m' (cs @ [cl])"
    using assms(1,2) by (simp add: m' cl accounted_def claims_inv_def manager_simps)
  moreover have "counts_inv m' (cs @ [cl])"
    using assms(1) by (simp add: m' cl accounted_def counts_inv_def manager_simps map_simps) (simp add: inflight_of_def)
  ultimately show ?thesis
    by (simp add: accounted_def)
qed

lemma accounted_complete:
  assumes "accounted m cs" "i < length cs" "\<not> c_once (cs ! i)"
    and "c_once cl"
  shows "accounted (manager_complete (cs ! i) u acc now m) (cs[i := cl])"
proof -
  let ?c = "cs ! i"
  have mem: "?c \<in> set cs"
    using assms(2) by simp
  have "0 < open_count (\<lambda>d. OrgID (c_subject d) = OrgID (c_subject ?c)) cs"
    "0 < open_count (\<lambda>d. c_window d = c_window ?c \<and> subject_key (c_subject d) = subject_key (c_subject ?c)) cs"
    using open_count_pos [OF mem assms(3)] by simp_all
  then have pos: "lookup_or 0 (m_inflight m) (OrgID (c_subject ?c)) \<ge> 1"
    "running_of (window_at m (c_window ?c)) (subject_key (c_subject ?c)) \<ge> 1"
    "\<And>org. 0 \<le> lookup_or 0 (m_inflight m) org" "\<And>r k. 0 \<le> running_of (window_at m r) k"
    using assms(1) by (auto simp: accounted_defs inflight_of_def)
  have "claims_inv m (cs[i := cl])"
    using assms set_update_subset_insert [of cs i cl] by (auto simp: accounted_defs)
  moreover have "counts_inv (manager_complete ?c u acc now m) (cs[i := cl])"
    using assms pos unfolding accounted_def counts_inv_def manager_complete_def
    by (auto simp: manager_simps lookup_decrement open_count_update inflight_of_def)
  ultimately show ?thesis
    using assms(1) by (simp add: accounted_def refs_inv_def claims_inv_def manager_complete_def manager_simps)
qed

section \<open>Every operation keeps the accounting\<close>

text \<open>
  What one \<^verbatim>\<open>Claim\<close> call does to the manager and the list of claims: either it hands out
  no claim, or it admits one in a window and under the concurrency bound.
\<close>

lemma manager_claim_cases:
  assumes "accounted m cs" "manager_claim e1 e2 now subject c m = (res, m')"
  obtains (none) "accounted m' cs" "manager_config m' = manager_config m" "\<And>cl d. res \<noteq> Inr (Some cl, d)"
  | (admitted) q r cl m2 where
      "policy (m_policies m) c = Inr q"
      "accounted m2 cs" "manager_config m2 = manager_config m"
      "window_ref m2 c (OrgID subject) = Some r"
      "admission_denial r subject q now m2 = None"
      "admit_claim r subject c q now m2 = (cl, m')"
      "res = Inr (Some cl, \<lparr>Allowed = True, Reason = DenialNone, RetryAfter = 0\<rparr>)"
proof (cases "\<not> e1 \<and> subject_validate subject = None \<and> \<not> e2 \<and> (\<exists>q. policy (m_policies m) c = Inr q)")
  case False
  with assms show ?thesis
    by (intro none) (auto simp: manager_claim_def split: if_splits option.splits sum.splits)
next
  case True
  then obtain q where q: "policy (m_policies m) c = Inr q" by auto
  obtain ro d m2 where wf: "window_for c subject q now (sweep now m) = ((ro, d), m2)"
    by (metis surj_pair)
  note w = accounted_window_for [OF accounted_sweep [OF assms(1)] wf, simplified manager_simps]
  show ?thesis
  proof (cases ro)
    case None
    with True q wf w assms(2) show ?thesis
      by (intro none) (auto simp: manager_claim_def)
  next
    case (Some r)
    show ?thesis
    proof (cases "admission_denial r subject q now m2")
      case None
      with True q wf w assms(2) Some show ?thesis
        by (intro admitted [of q m2 r "fst (admit_claim r subject c q now m2)"])
          (auto simp: manager_claim_def split: prod.splits)
    next
      case (Some d')
      with True q wf w assms(2) \<open>ro = Some r\<close> show ?thesis
        by (intro none) (auto simp: manager_claim_def manager_simps intro!: accounted_set_window)
    qed
  qed
qed

lemma manager_usage_sweeps: "snd (manager_usage subject c now m) \<in> {m, sweep now m}"
  by (auto simp: manager_usage_def Let_def split: option.splits sum.splits)

lemma config_complete [manager_simps]: "manager_config (manager_complete cl u acc now m) = manager_config m"
  by (simp add: manager_complete_def manager_simps)

text \<open>What a completion of a claim can do: nothing, or settle the claim once.\<close>

definition settles :: "time \<Rightarrow> claim \<Rightarrow> manager \<Rightarrow> claim \<times> manager \<Rightarrow> bool" where
  "settles now cl m res \<longleftrightarrow> res = (cl, m) \<or>
     (\<not> c_once cl \<and> c_once (fst res) \<and> (\<exists>u acc. snd res = manager_complete cl u acc now m))"

lemma settles_once: "settles now cl m (snd (complete_once b u now cl m))"
  by (auto simp: settles_def complete_once_def)

lemma settles_completions:
  "settles now cl m (snd (claim_complete u now cl m))"
  "settles now cl m (snd (claim_complete_with_budget u b now cl m))"
  "settles now cl m (done_claim now cl m)"
  by (simp_all add: claim_complete_def claim_complete_with_budget_def done_claim_def settles_once)
    (simp_all add: settles_def)

lemma with_claim_inv:
  assumes inv: "limits_inv s" and f: "\<And>cl m. settles now cl m (f cl m)"
  shows "limits_inv (with_claim i f s)"
proof (cases "i < length (ls_claims s)")
  case False
  with inv show ?thesis by (simp add: with_claim_def)
next
  case True
  let ?cl = "ls_claims s ! i" and ?m = "ls_manager s"
  obtain cl' m' where fe: "f ?cl ?m = (cl', m')"
    by (cases "f ?cl ?m")
  have "(cl' = ?cl \<and> m' = ?m) \<or> (\<not> c_once ?cl \<and> c_once cl' \<and> (\<exists>u acc. m' = manager_complete ?cl u acc now ?m))"
    using f [of ?cl ?m] fe by (auto simp: settles_def)
  then show ?thesis
  proof
    assume "cl' = ?cl \<and> m' = ?m"
    with fe True inv show ?thesis by (simp add: with_claim_def limits_inv_def)
  next
    assume *: "\<not> c_once ?cl \<and> c_once cl' \<and> (\<exists>u acc. m' = manager_complete ?cl u acc now ?m)"
    then have acc: "accounted m' ((ls_claims s)[i := cl'])"
      using accounted_complete True inv by (auto simp: limits_inv_def)
    have "m_concurrency m' = m_concurrency ?m"
      using * by (auto simp: manager_complete_def manager_simps)
    moreover have "open_count Q ((ls_claims s)[i := cl']) \<le> open_count Q (ls_claims s)" for Q
      using * True by (simp add: open_count_update)
    ultimately have "concurrency_inv m' ((ls_claims s)[i := cl'])"
      using inv order_trans unfolding limits_inv_def concurrency_inv_def by metis
    with acc fe True show ?thesis
      by (simp add: with_claim_def limits_inv_def)
  qed
qed

lemma limits_inv_new: "new_manager opts = Inr m \<Longrightarrow> limits_inv \<lparr>ls_manager = m, ls_claims = []\<rparr>"
  by (auto simp: new_manager_def limits_inv_def concurrency_inv_def Let_def
      split: option.splits if_splits intro!: accounted_empty)

lemma limits_inv_claim:
  assumes "limits_inv s"
  shows "limits_inv (limits_step (OpClaim e1 e2 now subject c) s)"
proof -
  let ?m = "ls_manager s" and ?cs = "ls_claims s"
  obtain res m' where mc: "manager_claim e1 e2 now subject c ?m = (res, m')"
    by (cases "manager_claim e1 e2 now subject c ?m")
  have acc: "accounted ?m ?cs" and conc: "concurrency_inv ?m ?cs"
    using assms by (auto simp: limits_inv_def)
  from acc mc show ?thesis
  proof (cases rule: manager_claim_cases)
    case none
    with mc conc show ?thesis
      by (auto simp: limits_inv_def concurrency_inv_def manager_config_def split: sum.splits option.splits)
  next
    case (admitted q r cl m2)
    have "accounted m' (?cs @ [cl])"
      using admitted by (intro accounted_admit)
    moreover have "c_subject cl = subject" "m_concurrency m' = m_concurrency ?m"
      using admitted by (auto simp: admit_claim_def manager_config_def set_window_def)
    moreover have "m_concurrency ?m > 0 \<longrightarrow> inflight_of m2 (OrgID subject) < m_concurrency ?m"
      using admitted by (auto simp: admission_denial_def Let_def manager_config_def split: if_splits)
    ultimately show ?thesis
      using admitted mc conc by (auto simp: limits_inv_def concurrency_inv_def accounted_def counts_inv_def)
  qed
qed

interpretation limits: invariant_machine limits_step "\<lambda>_ _. True" limits_inv
proof
  fix s x
  assume inv: "limits_inv s"
  show "limits_inv (limits_step x s)"
  proof (cases x)
    case (OpClaim e1 e2 now subject c)
    with inv show ?thesis by (simp add: limits_inv_claim del: limits_step.simps)
  next
    case (OpUsage subject c now)
    have "snd (manager_usage subject c now (ls_manager s)) \<in> {ls_manager s, sweep now (ls_manager s)}"
      by (rule manager_usage_sweeps)
    with inv OpUsage show ?thesis
      by (auto simp: limits_inv_def concurrency_inv_def accounted_sweep manager_simps)
  qed (simp_all add: inv with_claim_inv [OF inv settles_completions(1)]
      with_claim_inv [OF inv settles_completions(2)] with_claim_inv [OF inv settles_completions(3)])
qed

end
