(* ===== verification/Limits_Windows.thy ===== *)
theory Limits_Windows
  imports Limits_Accounting
begin

text \<open>
  The locale \<open>window_invariant\<close> lifts an invariant of a single usage window to every window
  the manager serves requests with, along every run of the limiter. It is interpreted for
  the quota bounds, the capacity of the credential map and the settling of admissions.
\<close>

section \<open>Invariants of one window, for every window of the manager\<close>

definition windows_all ::
  "(int \<Rightarrow> duration \<Rightarrow> quota_policy \<Rightarrow> usage_window \<Rightarrow> bool) \<Rightarrow> manager \<Rightarrow> bool" where
  "windows_all P m \<longleftrightarrow>
     (\<forall>c org r q. window_ref m c org = Some r \<longrightarrow> policy (m_policies m) c = Inr q \<longrightarrow>
        P (m_max_credentials m) (retention_of m q) q (window_at m r))"

text \<open>What the clock of an operation must satisfy on every window the manager holds.\<close>

definition ticks_at :: "(time \<Rightarrow> usage_window \<Rightarrow> bool) \<Rightarrow> time \<Rightarrow> manager \<Rightarrow> bool" where
  "ticks_at tick now m \<longleftrightarrow>
     list_all (\<lambda>(c, by_org). list_all (\<lambda>(org, r). tick now (window_at m r)) by_org) (m_windows m)"

lemma ticks_atD: "ticks_at tick now m \<Longrightarrow> window_ref m c org = Some r \<Longrightarrow> tick now (window_at m r)"
  by (force simp: ticks_at_def list_all_iff window_ref_def class_windows_def lookup_or_def
      split: option.splits dest: map_of_SomeD)

lemma ticks_at_sweep: "ticks_at tick now m \<Longrightarrow> ticks_at tick now (sweep now m)"
  by (fastforce simp: ticks_at_def list_all_iff sweep_def sweep_class_def window_at_def split: sum.splits)

fun ticks :: "(time \<Rightarrow> usage_window \<Rightarrow> bool) \<Rightarrow> limits_op \<Rightarrow> limits_sys \<Rightarrow> bool" where
  "ticks tick (OpClaim e1 e2 now subject c) s = ticks_at tick now (ls_manager s)"
| "ticks tick (OpUsage subject c now) s = True"
| "ticks tick (OpComplete i u now) s = ticks_at tick now (ls_manager s)"
| "ticks tick (OpCompleteWithBudget i u b now) s = ticks_at tick now (ls_manager s)"
| "ticks tick (OpDone i now) s = ticks_at tick now (ls_manager s)"

definition quota_open :: "quota_policy \<Rightarrow> string \<Rightarrow> usage_window \<Rightarrow> bool" where
  "quota_open q key w \<longleftrightarrow>
     (PerOrgLimit q > 0 \<longrightarrow> w_quota_org w < PerOrgLimit q) \<and>
     (PerCredentialLimit q > 0 \<longrightarrow> lookup_or 0 (w_quota_credential w) key < PerCredentialLimit q)"

definition room :: "int \<Rightarrow> string \<Rightarrow> usage_window \<Rightarrow> bool" where
  "room cap key w \<longleftrightarrow> has_key (w_credentials w) key \<or> map_len (w_credentials w) < cap"

definition windows_inv ::
  "(int \<Rightarrow> duration \<Rightarrow> quota_policy \<Rightarrow> usage_window \<Rightarrow> bool) \<Rightarrow> limits_sys \<Rightarrow> bool" where
  "windows_inv P s \<longleftrightarrow> limits_inv s \<and> windows_all P (ls_manager s)"

locale window_invariant =
  fixes P :: "int \<Rightarrow> duration \<Rightarrow> quota_policy \<Rightarrow> usage_window \<Rightarrow> bool"
    and tick :: "time \<Rightarrow> usage_window \<Rightarrow> bool"
  assumes P_new: "policy_ok q \<Longrightarrow> P cap ret q (new_window now)"
    and tick_new: "tick now (new_window now)"
    and P_reset: "policy_ok q \<Longrightarrow> P cap ret q w \<Longrightarrow> tick now w \<Longrightarrow> P cap ret q (reset_quota q now w)"
    and tick_reset: "tick now w \<Longrightarrow> tick now (reset_quota q now w)"
    and P_forget: "policy_ok q \<Longrightarrow> Window q \<le> ret \<Longrightarrow> \<not> quota_expired w q now \<Longrightarrow>
      P cap ret q w \<Longrightarrow> tick now w \<Longrightarrow> P cap ret q (forget_idle ret now w)"
    and tick_forget: "tick now w \<Longrightarrow> tick now (forget_idle ret now w)"
    and P_denied: "policy_ok q \<Longrightarrow> room cap key w \<Longrightarrow> P cap ret q w \<Longrightarrow> tick now w \<Longrightarrow>
      P cap ret q (window_denied key now w)"
    and P_admit: "policy_ok q \<Longrightarrow> room cap key w \<Longrightarrow> quota_open q key w \<Longrightarrow> P cap ret q w \<Longrightarrow> tick now w \<Longrightarrow>
      P cap ret q (admit_window key now w)"
    and P_complete: "policy_ok q \<Longrightarrow> running_of w key \<ge> 1 \<Longrightarrow> P cap ret q w \<Longrightarrow> tick now w \<Longrightarrow>
      P cap ret q (complete_window key u acc now w)"
begin

lemma windows_all_sweep:
  "wf_manager m \<Longrightarrow> windows_all P m \<Longrightarrow> windows_all P (sweep now m)"
  by (auto simp: windows_all_def window_ref_sweep manager_simps
      split: option.splits if_splits)

lemma windows_all_open: "windows_all P (open_class c m) = windows_all P m"
  by (simp add: windows_all_def manager_simps)

lemma windows_all_alloc:
  assumes "windows_all P m"
  shows "windows_all P (alloc_window c org now m)"
  using assms P_new
  by (auto simp: windows_all_def manager_simps policy_Inr)

lemma windows_all_set:
  assumes all: "windows_all P m" and refs: "refs_inv m" "window_ref m c org = Some r"
    and w: "\<And>q. policy (m_policies m) c = Inr q \<Longrightarrow> P (m_max_credentials m) (retention_of m q) q w"
  shows "windows_all P (set_window r w m)"
  unfolding windows_all_def manager_simps
proof (intro allI impI)
  fix c' org' r' q
  assume ref: "window_ref m c' org' = Some r'" and q: "policy (m_policies m) c' = Inr q"
  show "P (m_max_credentials m) (retention_of m q) q (if r' = r then w else window_at m r')"
  proof (cases "r' = r")
    case True
    with refs ref have "c' = c" unfolding refs_inv_def by blast
    with w q True show ?thesis by simp
  next
    case False
    with all ref q show ?thesis by (simp add: windows_all_def)
  qed
qed

lemma windows_all_inflight: "windows_all P (m\<lparr>m_inflight := x\<rparr>) = windows_all P m"
  by (simp add: windows_all_def manager_simps)

text \<open>The window a request is admitted or refused in satisfies \<open>P\<close>, has room, and its quota window is open.\<close>

lemma use_window_P:
  assumes "windows_all P m" "refs_inv m" "window_ref m c (OrgID subject) = Some r" "policy (m_policies m) c = Inr q"
    and "tick now (window_at m r)"
    and "use_window r subject q now m = ((ro, d), m')"
  shows "windows_all P m' \<and> tick now (window_at m' r) \<and>
    (ro = Some r \<longrightarrow> room (m_max_credentials m) (subject_key subject) (window_at m' r))"
proof -
  let ?w1 = "reset_quota q now (window_at m r)"
  let ?w2 = "make_room m q (subject_key subject) now ?w1"
  have ok: "policy_ok q" "Window q \<le> retention_of m q"
    using assms(4) by (auto simp: policy_Inr retention_of_def)
  have "P (m_max_credentials m) (retention_of m q) q (window_at m r)"
    using assms by (auto simp: windows_all_def)
  then have "P (m_max_credentials m) (retention_of m q) q ?w1" "tick now ?w1"
    using ok assms(5) by (auto intro: P_reset tick_reset)
  moreover have "\<not> quota_expired ?w1 q now"
    by (auto simp: reset_quota_def quota_expired_def)
  ultimately have "P (m_max_credentials m) (retention_of m q) q ?w2" "tick now ?w2"
    using ok by (auto simp: make_room_def intro: P_forget tick_forget)
  then have "windows_all P (set_window r ?w2 m)"
    using assms(1-4) by (intro windows_all_set) auto
  with \<open>tick now ?w2\<close> assms(6) show ?thesis
    by (auto simp: use_window_def Let_def manager_simps has_room_def room_def split: if_splits)
qed

lemma window_for_P:
  assumes "windows_all P m" "accounted m cs" "policy (m_policies m) c = Inr q" "ticks_at tick now m"
    and "window_for c subject q now m = ((ro, d), m')"
  shows "windows_all P m' \<and> (\<forall>r. ro = Some r \<longrightarrow>
     tick now (window_at m' r) \<and> room (m_max_credentials m) (subject_key subject) (window_at m' r))"
proof (cases "window_ref m c (OrgID subject)")
  case (Some r)
  with assms have "use_window r subject q now (open_class c m) = ((ro, d), m')"
    by (simp add: window_for_def manager_simps)
  moreover from this have "ro = None \<or> ro = Some r"
    by (auto simp: use_window_def Let_def split: if_splits)
  moreover have "refs_inv (open_class c m)" "tick now (window_at (open_class c m) r)"
    "policy (m_policies (open_class c m)) c = Inr q" "m_max_credentials (open_class c m) = m_max_credentials m"
    using assms Some
    by (auto simp: accounted_def refs_inv_def manager_simps intro: ticks_atD)
  ultimately show ?thesis
    using use_window_P [of "open_class c m" c subject r q now ro d m'] assms Some
    by (auto simp: windows_all_open manager_simps)
next
  case None
  let ?m1 = "open_class c m" and ?m2 = "alloc_window c (OrgID subject) now (open_class c m)"
  show ?thesis
  proof (cases "map_len (class_windows m c) \<ge> m_max_organizations ?m1")
    case True
    with assms None show ?thesis
      by (auto simp: window_for_def Let_def manager_simps windows_all_open)
  next
    case False
    with assms None have u: "use_window (m_next_ref ?m1) subject q now ?m2 = ((ro, d), m')"
      by (simp add: window_for_def manager_simps)
    then have "ro = None \<or> ro = Some (m_next_ref ?m1)"
      by (auto simp: use_window_def Let_def split: if_splits)
    moreover have "refs_inv ?m2"
      using accounted_alloc [OF accounted_open_class [OF assms(2)], of c c "OrgID subject" now] None
      by (simp add: accounted_def manager_simps)
    moreover have "policy (m_policies ?m2) c = Inr q" "m_max_credentials ?m2 = m_max_credentials m"
      using assms by (auto simp: manager_simps)
    moreover have "windows_all P ?m2"
      using assms by (intro windows_all_alloc) (simp add: windows_all_open)
    ultimately show ?thesis
      using use_window_P [OF _ _ _ _ _ u, of c] tick_new by (auto simp: manager_simps)
  qed
qed

lemma complete_P:
  assumes "windows_all P m" "accounted m cs" "cl \<in> set cs" "\<not> c_once cl" "ticks_at tick now m"
  shows "windows_all P (manager_complete cl u acc now m)"
proof -
  have ref: "window_ref m (c_class cl) (OrgID (c_subject cl)) = Some (c_window cl)"
    using assms by (auto simp: accounted_defs)
  have run: "running_of (window_at m (c_window cl)) (subject_key (c_subject cl)) \<ge> 1"
    using assms(2) open_count_pos [OF assms(3,4), of "\<lambda>d. c_window d = c_window cl \<and> subject_key (c_subject d) = subject_key (c_subject cl)"]
    by (auto simp: accounted_defs)
  have "P (m_max_credentials m) (retention_of m q) q
      (complete_window (subject_key (c_subject cl)) u acc now (window_at m (c_window cl)))"
    if q: "policy (m_policies m) (c_class cl) = Inr q" for q
  proof (rule P_complete)
    show "policy_ok q" using q by (simp add: policy_Inr)
    show "P (m_max_credentials m) (retention_of m q) q (window_at m (c_window cl))"
      using assms(1) ref q by (simp add: windows_all_def)
    show "tick now (window_at m (c_window cl))"
      using assms(5) ref by (rule ticks_atD)
  qed (rule run)
  moreover have "refs_inv m"
    using assms(2) by (simp add: accounted_def)
  ultimately have "windows_all P (set_window (c_window cl)
      (complete_window (subject_key (c_subject cl)) u acc now (window_at m (c_window cl))) m)"
    using assms(1) ref by (intro windows_all_set)
  then show ?thesis
    by (simp add: manager_complete_def windows_all_inflight)
qed

lemma claim_P:
  assumes all: "windows_all P m" and acc: "accounted m cs" and tick: "ticks_at tick now m"
    and mc: "manager_claim e1 e2 now subject c m = (res, m')"
  shows "windows_all P m'"
proof (cases "\<not> e1 \<and> subject_validate subject = None \<and> \<not> e2 \<and> (\<exists>q. policy (m_policies m) c = Inr q)")
  case False
  with mc all show ?thesis
    by (auto simp: manager_claim_def split: if_splits option.splits sum.splits)
next
  case True
  then obtain q where q: "policy (m_policies m) c = Inr q" by auto
  obtain ro d m2 where wf: "window_for c subject q now (sweep now m) = ((ro, d), m2)"
    by (metis surj_pair)
  have wfm: "wf_manager m"
    using acc by (simp add: accounted_def)
  note acc2 = accounted_window_for [OF accounted_sweep [OF acc] wf]
  have cfg: "m_policies m2 = m_policies m" "m_max_credentials m2 = m_max_credentials m"
    using acc2 by (auto simp: manager_config_def manager_simps)
  have P2: "windows_all P m2 \<and> (\<forall>r. ro = Some r \<longrightarrow>
     tick now (window_at m2 r) \<and> room (m_max_credentials m) (subject_key subject) (window_at m2 r))"
    using window_for_P [OF windows_all_sweep [OF wfm all] accounted_sweep [OF acc] _ ticks_at_sweep [OF tick] wf] q
    by (simp add: manager_simps)
  show ?thesis
  proof (cases ro)
    case None
    with True q wf P2 mc show ?thesis by (auto simp: manager_claim_def)
  next
    case (Some r)
    have ref: "window_ref m2 c (OrgID subject) = Some r" "refs_inv m2"
      using acc2 Some by (auto simp: accounted_def)
    have Pr: "policy_ok q" "P (m_max_credentials m2) (retention_of m2 q) q (window_at m2 r)"
      "tick now (window_at m2 r)" "room (m_max_credentials m2) (subject_key subject) (window_at m2 r)"
      using P2 Some q cfg ref by (auto simp: policy_Inr windows_all_def)
    show ?thesis
    proof (cases "admission_denial r subject q now m2")
      case None
      have "quota_open q (subject_key subject) (window_at m2 r)"
        using None by (auto simp: admission_denial_def quota_open_def Let_def split: if_splits)
      then have "P (m_max_credentials m2) (retention_of m2 q) q (admit_window (subject_key subject) now (window_at m2 r))"
        using Pr by (intro P_admit)
      then have "windows_all P (set_window r (admit_window (subject_key subject) now (window_at m2 r)) m2)"
        using P2 ref q cfg by (intro windows_all_set) auto
      with True q wf mc Some None show ?thesis
        by (auto simp: manager_claim_def admit_claim_def windows_all_inflight)
    next
      case (Some d')
      have "P (m_max_credentials m2) (retention_of m2 q) q (window_denied (subject_key subject) now (window_at m2 r))"
        using Pr by (intro P_denied)
      then have "windows_all P (set_window r (window_denied (subject_key subject) now (window_at m2 r)) m2)"
        using P2 ref q cfg by (intro windows_all_set) auto
      with True q wf mc Some \<open>ro = Some r\<close> show ?thesis
        by (auto simp: manager_claim_def)
    qed
  qed
qed

lemma with_claim_P:
  assumes "windows_all P (ls_manager s)" "limits_inv s" "ticks_at tick now (ls_manager s)"
    and f: "\<And>cl m. settles now cl m (f cl m)"
  shows "windows_all P (ls_manager (with_claim i f s))"
proof (cases "i < length (ls_claims s)")
  case True
  have "windows_all P (snd (f (ls_claims s ! i) (ls_manager s)))"
    using f [of "ls_claims s ! i" "ls_manager s"] assms(1-3) True
    by (auto simp: limits_inv_def settles_def intro!: complete_P)
  with True show ?thesis
    by (auto simp: with_claim_def split: prod.splits)
qed (use assms in \<open>simp add: with_claim_def\<close>)

lemma step_P:
  assumes inv: "limits_inv s" and all: "windows_all P (ls_manager s)" and tick: "ticks tick x s"
  shows "windows_all P (ls_manager (limits_step x s))"
proof (cases x)
  case (OpClaim e1 e2 now subject c)
  obtain res m' where mc: "manager_claim e1 e2 now subject c (ls_manager s) = (res, m')"
    by (cases "manager_claim e1 e2 now subject c (ls_manager s)")
  have "windows_all P m'"
    using claim_P [OF all _ _ mc] inv tick OpClaim by (auto simp: limits_inv_def)
  with OpClaim mc show ?thesis
    by (auto split: sum.splits option.splits)
next
  case (OpUsage subject c now)
  then show ?thesis
    using manager_usage_sweeps [of subject c now "ls_manager s"] all inv
    by (auto simp: limits_inv_def accounted_def intro: windows_all_sweep)
next
  case (OpComplete i u now)
  with all inv tick show ?thesis by (simp add: with_claim_P [OF _ _ _ settles_completions(1)])
next
  case (OpCompleteWithBudget i u b now)
  with all inv tick show ?thesis by (simp add: with_claim_P [OF _ _ _ settles_completions(2)])
next
  case (OpDone i now)
  with all inv tick show ?thesis by (simp add: with_claim_P [OF _ _ _ settles_completions(3)])
qed

end

sublocale window_invariant \<subseteq> invariant_machine limits_step "ticks tick" "windows_inv P"
  by unfold_locales (auto simp: windows_inv_def intro: step_P limits.step_inv)

end
