(* ===== verification/Limits_Retention.thy ===== *)
theory Limits_Retention
  imports Limits_Windows
begin

text \<open>
  What the limiter forgets and what it must not forget. The loop of \<^verbatim>\<open>forgetIdle\<close> is
  characterised by the set of keys it drops (\<open>gone\<close>); the interpretations of
  \<open>window_invariant\<close> then give, for every window of every reachable state, the quota
  bounds, the capacity of the credential map, the balance of admissions and completions,
  and the two retention rules: the scan \<^verbatim>\<open>nextForget\<close> lets it skip would have dropped
  nothing, and no quota count is dropped while its quota window is open.
\<close>

section \<open>The forgetting scan\<close>

definition drop_key :: "string \<Rightarrow> usage_window \<Rightarrow> usage_window" where
  "drop_key key w = w\<lparr>w_credentials := del key (w_credentials w),
     w_quota_credential := del key (w_quota_credential w), w_touched := del key (w_touched w)\<rparr>"

text \<open>The keys the scan drops, and the next instant at which it may have work.\<close>

definition idle_keys :: "duration \<Rightarrow> time \<Rightarrow> (string \<Rightarrow> int) \<Rightarrow> (string, time) gomap \<Rightarrow> string list" where
  "idle_keys ret now running ts = map fst (filter (\<lambda>(k, t). running k \<le> 0 \<and> t + ret \<le> now) ts)"

fun next_scan :: "duration \<Rightarrow> time \<Rightarrow> (string \<Rightarrow> int) \<Rightarrow> (string, time) gomap \<Rightarrow> time \<Rightarrow> time" where
  "next_scan ret now running [] next = next"
| "next_scan ret now running ((k, t) # ts) next =
    next_scan ret now running ts (if running k \<le> 0 \<and> now < t + ret then min (t + ret) next else next)"

lemma running_drop_key [simp]: "running_of (drop_key k w) = running_of w"
  by (simp add: drop_key_def running_of_def fun_eq_iff)

lemma forget_loop_eq:
  "forget_loop ret now ts w next =
    (fold drop_key (idle_keys ret now (running_of w) ts) w, next_scan ret now (running_of w) ts next)"
  by (induction ret now ts w "next" rule: forget_loop.induct)
    (auto simp: Let_def idle_keys_def min_def not_less simp flip: drop_key_def)

lemma map_of_fold_drop:
  "map_of (w_credentials (fold drop_key ks w)) k = (if k \<in> set ks then None else map_of (w_credentials w) k)"
  "map_of (w_quota_credential (fold drop_key ks w)) k = (if k \<in> set ks then None else map_of (w_quota_credential w) k)"
  "map_of (w_touched (fold drop_key ks w)) k = (if k \<in> set ks then None else map_of (w_touched w) k)"
  by (induction ks arbitrary: w) (auto simp: drop_key_def map_simps)

lemma fold_drop_frame [simp]:
  "w_quota_started (fold drop_key ks w) = w_quota_started w"
  "w_quota_org (fold drop_key ks w) = w_quota_org w"
  "w_running (fold drop_key ks w) = w_running w"
  "w_org (fold drop_key ks w) = w_org w"
  "w_last_forget (fold drop_key ks w) = w_last_forget w"
  by (induction ks arbitrary: w) (auto simp: drop_key_def)

lemma fold_drop_wf:
  "wf_map (w_credentials w) \<Longrightarrow> wf_map (w_credentials (fold drop_key ks w))"
  "wf_map (w_touched w) \<Longrightarrow> wf_map (w_touched (fold drop_key ks w))"
  by (induction ks arbitrary: w) (auto simp: drop_key_def)

lemma fold_drop_len: "map_len (w_credentials (fold drop_key ks w)) \<le> map_len (w_credentials w)"
proof (induction ks arbitrary: w)
  case (Cons k ks)
  have "map_len (w_credentials (drop_key k w)) \<le> map_len (w_credentials w)"
    by (simp add: drop_key_def map_len_def length_del_le)
  with Cons [of "drop_key k w"] show ?case by simp
qed simp

lemma next_scan_le: "next_scan ret now running ts next \<le> next"
proof (induction ts arbitrary: "next")
  case (Cons e ts)
  obtain k t where e: "e = (k, t)" by (cases e)
  show ?case
    using Cons [of "min (t + ret) next"] Cons [of "next"] by (simp add: e)
qed simp

lemma next_scan_bound:
  "(k, t) \<in> set ts \<Longrightarrow> running k \<le> 0 \<Longrightarrow> now < t + ret \<Longrightarrow> next_scan ret now running ts next \<le> t + ret"
  by (induction ts arbitrary: "next") (auto intro: order_trans [OF next_scan_le min.cobounded1])

lemma idle_keys_mem:
  "wf_map ts \<Longrightarrow> k \<in> set (idle_keys ret now running ts) \<longleftrightarrow>
     (\<exists>t. map_of ts k = Some t \<and> running k \<le> 0 \<and> t + ret \<le> now)"
  by (force simp: idle_keys_def simp flip: wf_map_mem)

text \<open>The scan as one step: drop the idle keys, note when to look again.\<close>

lemma forget_scan_eq:
  "forget_scan ret now w =
    (fold drop_key (idle_keys ret now (running_of w) (w_touched w))
       (w\<lparr>w_forget_passes := w_forget_passes w + 1, w_last_forget := now\<rparr>))
     \<lparr>w_next_forget := next_scan ret now (running_of w) (w_touched w) (now + ret)\<rparr>"
proof -
  have "running_of (w\<lparr>w_forget_passes := w_forget_passes w + 1, w_last_forget := now\<rparr>) = running_of w"
    by (simp add: running_of_def fun_eq_iff)
  then show ?thesis
    by (simp add: forget_scan_def forget_loop_eq)
qed

definition gone :: "duration \<Rightarrow> time \<Rightarrow> usage_window \<Rightarrow> string \<Rightarrow> bool" where
  "gone ret now w k \<longleftrightarrow> \<not> now < w_next_forget w \<and>
     (\<exists>t. map_of (w_touched w) k = Some t \<and> running_of w k \<le> 0 \<and> t + ret \<le> now)"

lemma forget_idle_maps:
  assumes "wf_map (w_touched w)"
  shows "map_of (w_credentials (forget_idle ret now w)) k = (if gone ret now w k then None else map_of (w_credentials w) k)"
    and "map_of (w_quota_credential (forget_idle ret now w)) k = (if gone ret now w k then None else map_of (w_quota_credential w) k)"
    and "map_of (w_touched (forget_idle ret now w)) k = (if gone ret now w k then None else map_of (w_touched w) k)"
  by (auto simp: gone_def forget_idle_def forget_scan_eq map_of_fold_drop idle_keys_mem [OF assms])

lemma forget_idle_frame [simp]:
  "w_quota_started (forget_idle ret now w) = w_quota_started w"
  "w_quota_org (forget_idle ret now w) = w_quota_org w"
  "w_running (forget_idle ret now w) = w_running w"
  "w_org (forget_idle ret now w) = w_org w"
  by (simp_all add: forget_idle_def forget_scan_eq)

lemma forget_idle_wf:
  "wf_map (w_credentials w) \<Longrightarrow> wf_map (w_credentials (forget_idle ret now w))"
  "wf_map (w_touched w) \<Longrightarrow> wf_map (w_touched (forget_idle ret now w))"
  by (simp_all add: forget_idle_def forget_scan_eq fold_drop_wf)

lemma forget_idle_len: "map_len (w_credentials (forget_idle ret now w)) \<le> map_len (w_credentials w)"
  using fold_drop_len [of _ "w\<lparr>w_forget_passes := w_forget_passes w + 1, w_last_forget := now\<rparr>"]
  by (simp add: forget_idle_def forget_scan_eq)

lemma lookup_quota_forget:
  "0 \<le> b \<Longrightarrow> lookup_or 0 (w_quota_credential w) k \<le> b \<Longrightarrow>
    lookup_or 0 (w_quota_credential (forget_idle ret now w)) k \<le> (b :: int)"
  by (auto simp: forget_idle_def forget_scan_eq lookup_or_def map_of_fold_drop split: option.splits if_splits)

section \<open>The quota bounds\<close>

text \<open>No window counts more admissions in a quota window than its policy allows.\<close>

definition quota_bounded :: "int \<Rightarrow> duration \<Rightarrow> quota_policy \<Rightarrow> usage_window \<Rightarrow> bool" where
  "quota_bounded cap ret q w \<longleftrightarrow>
     (PerOrgLimit q > 0 \<longrightarrow> w_quota_org w \<le> PerOrgLimit q) \<and>
     (PerCredentialLimit q > 0 \<longrightarrow> (\<forall>k. lookup_or 0 (w_quota_credential w) k \<le> PerCredentialLimit q))"

lemmas window_ops = new_window_def reset_quota_def window_denied_def admit_window_def complete_window_def
  seen_def Let_def

interpretation quota: window_invariant quota_bounded "\<lambda>_ _. True"
proof (unfold_locales, goal_cases)
  case (3 q w now cap ret)
  then show ?case by (simp add: quota_bounded_def forget_idle_def window_ops lookup_or_def)
next
  case (5 q ret w now cap)
  then show ?case by (auto simp: quota_bounded_def intro: lookup_quota_forget)
qed (auto simp: quota_bounded_def quota_open_def window_ops map_simps lookup_or_def)

section \<open>The capacity of the credential map\<close>

definition capacity_bounded :: "int \<Rightarrow> duration \<Rightarrow> quota_policy \<Rightarrow> usage_window \<Rightarrow> bool" where
  "capacity_bounded cap ret q w \<longleftrightarrow>
     map_len (w_credentials w) \<le> max 0 cap \<and> wf_map (w_touched w) \<and>
     (\<forall>k. running_of w k > 0 \<longrightarrow> has_key (w_credentials w) k)"

interpretation capacity: window_invariant capacity_bounded "\<lambda>_ _. True"
proof (unfold_locales, goal_cases)
  case (5 q ret w now cap)
  then show ?case
    using forget_idle_len [of ret now w]
    by (auto simp: capacity_bounded_def forget_idle_wf has_key_def forget_idle_maps gone_def running_of_def)
next
  case (8 q cap key w ret now)
  then show ?case
    by (auto simp: capacity_bounded_def window_ops room_def map_len_put map_simps running_of_def)
next
  case (9 q w key cap ret now u acc)
  then show ?case
    by (auto simp: capacity_bounded_def window_ops map_len_put map_simps running_of_def decrement_def split: if_splits)
qed (auto simp: capacity_bounded_def window_ops room_def map_len_put map_simps running_of_def map_len_def
    length_put lookup_or_def)

section \<open>Admissions balance completions and running requests\<close>

definition balanced :: "int \<Rightarrow> duration \<Rightarrow> quota_policy \<Rightarrow> usage_window \<Rightarrow> bool" where
  "balanced cap ret q w \<longleftrightarrow> wf_map (w_touched w) \<and>
     (\<forall>k. 0 \<le> running_of w k \<and>
        uc_Admitted (credential_of w k) = uc_Completed (credential_of w k) + running_of w k)"

lemma settle_counts [simp]:
  "uc_Admitted (settle u acc c) = uc_Admitted c" "uc_Completed (settle u acc c) = uc_Completed c + 1"
  by (simp_all add: settle_def add_usage_def Let_def)

lemma zero_counters_simps [simp]: "uc_Admitted zero_counters = 0" "uc_Completed zero_counters = 0"
  by (simp_all add: zero_counters_def)

lemma credential_of_put [simp]:
  "credential_of (w\<lparr>w_credentials := put key v (w_credentials w)\<rparr>) k = (if k = key then v else credential_of w k)"
  by (simp add: credential_of_def map_simps)

interpretation balance: window_invariant balanced "\<lambda>_ _. True"
proof (unfold_locales, goal_cases)
  case (5 q ret w now cap)
  have "balanced cap ret q (forget_idle ret now w)"
    unfolding balanced_def
  proof (intro conjI allI)
    fix k
    have run: "running_of (forget_idle ret now w) k = running_of w k"
      by (simp add: running_of_def)
    have nn: "0 \<le> running_of w k" and wf: "wf_map (w_touched w)"
      and bal: "uc_Admitted (credential_of w k) = uc_Completed (credential_of w k) + running_of w k"
      using 5 by (auto simp: balanced_def)
    show "0 \<le> running_of (forget_idle ret now w) k" by (simp add: run nn)
    show "uc_Admitted (credential_of (forget_idle ret now w) k)
        = uc_Completed (credential_of (forget_idle ret now w) k) + running_of (forget_idle ret now w) k"
      using bal nn unfolding run credential_of_def lookup_or_def
      by (auto simp: forget_idle_maps [OF wf] gone_def)
  qed (use 5 in \<open>simp add: balanced_def forget_idle_wf\<close>)
  then show ?case .
next
  case (9 q w key cap ret now u acc)
  then show ?case
    by (auto simp: balanced_def window_ops map_simps running_of_def decrement_def credential_of_def)
qed (auto simp: balanced_def window_ops map_simps running_of_def credential_of_def lookup_or_def)

section \<open>A skipped scan would have dropped nothing\<close>

definition scan_sound :: "int \<Rightarrow> duration \<Rightarrow> quota_policy \<Rightarrow> usage_window \<Rightarrow> bool" where
  "scan_sound cap ret q w \<longleftrightarrow> wf_map (w_touched w) \<and>
     w_next_forget w \<le> max 0 (w_last_forget w + ret) \<and>
     (\<forall>k t. map_of (w_touched w) k = Some t \<longrightarrow> running_of w k \<le> 0 \<longrightarrow> w_next_forget w \<le> max 0 (t + ret))"

interpretation scan: window_invariant scan_sound "\<lambda>_ _. True"
proof (unfold_locales, goal_cases)
  case (5 q ret w now cap)
  have "scan_sound cap ret q (forget_scan ret now w)" if wf: "wf_map (w_touched w)"
    unfolding scan_sound_def
  proof (intro conjI allI impI)
    let ?w = "forget_scan ret now w"
    show "wf_map (w_touched ?w)"
      using wf by (simp add: forget_scan_eq fold_drop_wf)
    show "w_next_forget ?w \<le> max 0 (w_last_forget ?w + ret)"
      using next_scan_le [of ret now "running_of w" "w_touched w" "now + ret"] by (simp add: forget_scan_eq)
    fix k t
    assume t: "map_of (w_touched ?w) k = Some t" and "running_of ?w k \<le> 0"
    then have idle: "running_of w k \<le> 0"
      by (simp add: running_of_def forget_scan_eq)
    with t have "map_of (w_touched w) k = Some t" "now < t + ret"
      by (auto simp: forget_scan_eq map_of_fold_drop idle_keys_mem [OF wf] split: if_splits)
    with idle have "w_next_forget ?w \<le> t + ret"
      by (simp add: forget_scan_eq next_scan_bound [OF map_of_SomeD])
    then show "w_next_forget ?w \<le> max 0 (t + ret)" by simp
  qed
  with 5 show ?case by (auto simp: forget_idle_def scan_sound_def)
next
  case (9 q w key cap ret now u acc)
  then show ?case
    by (auto simp: scan_sound_def window_ops map_simps running_of_def decrement_def split: if_splits)
next
  case (8 q cap key w ret now)
  then show ?case
    by (fastforce simp: scan_sound_def window_ops map_simps running_of_def split: if_splits)
qed (auto simp: scan_sound_def window_ops map_simps running_of_def lookup_or_def split: if_splits)

lemma scan_sound_skips:
  assumes "scan_sound cap ret q w" "0 \<le> now"
  shows "w_credentials (forget_idle ret now w) = w_credentials (forget_scan ret now w)
    \<and> w_quota_credential (forget_idle ret now w) = w_quota_credential (forget_scan ret now w)
    \<and> w_touched (forget_idle ret now w) = w_touched (forget_scan ret now w)"
proof (cases "now < w_next_forget w")
  case True
  have wf: "wf_map (w_touched w)"
    using assms(1) by (simp add: scan_sound_def)
  have "k \<notin> set (idle_keys ret now (running_of w) (w_touched w))" for k
    using assms True unfolding idle_keys_mem [OF wf] scan_sound_def by force
  then have "idle_keys ret now (running_of w) (w_touched w) = []"
    by (cases "idle_keys ret now (running_of w) (w_touched w)") auto
  with True show ?thesis
    by (simp add: forget_idle_def forget_scan_eq)
qed (simp add: forget_idle_def)

section \<open>An open quota window is never forgotten\<close>

definition quota_kept :: "int \<Rightarrow> duration \<Rightarrow> quota_policy \<Rightarrow> usage_window \<Rightarrow> bool" where
  "quota_kept cap ret q w \<longleftrightarrow> wf_map (w_touched w) \<and>
     (\<forall>k. 0 \<le> running_of w k \<and> 0 \<le> lookup_or 0 (w_quota_credential w) k \<and>
        (lookup_or 0 (w_quota_credential w) k > 0 \<longrightarrow> running_of w k > 0 \<or>
           (\<exists>t. map_of (w_touched w) k = Some t \<and> w_quota_started w \<le> t)))"

lemma quota_kept_forget:
  assumes "quota_kept cap ret q w" "\<not> quota_expired w q now" "Window q \<le> ret" "0 < Window q"
  shows "lookup_or 0 (w_quota_credential (forget_idle ret now w)) k = lookup_or 0 (w_quota_credential w) k"
proof -
  have wf: "wf_map (w_touched w)" using assms(1) by (simp add: quota_kept_def)
  have "lookup_or 0 (w_quota_credential w) k = 0" if "gone ret now w k"
  proof (rule ccontr)
    assume "lookup_or 0 (w_quota_credential w) k \<noteq> 0"
    with assms(1) have "0 < lookup_or 0 (w_quota_credential w) k"
      by (simp add: quota_kept_def order_less_le)
    moreover from that obtain t where t: "map_of (w_touched w) k = Some t" "running_of w k \<le> 0" "t + ret \<le> now"
      by (auto simp: gone_def)
    ultimately have "w_quota_started w \<le> t"
      using assms(1) unfolding quota_kept_def by (metis not_le option.inject)
    with t assms(2-4) show False by (simp add: quota_expired_def)
  qed
  then show ?thesis
    by (simp add: lookup_or_def forget_idle_maps [OF wf])
qed

interpretation kept: window_invariant quota_kept "\<lambda>now w. w_quota_started w \<le> now"
proof (unfold_locales, goal_cases)
  case (5 q ret w now cap)
  have wf: "wf_map (w_touched w)" using 5 by (simp add: quota_kept_def)
  have "quota_kept cap ret q (forget_idle ret now w)"
    unfolding quota_kept_def
  proof (intro conjI allI)
    fix k
    have run: "running_of (forget_idle ret now w) k = running_of w k"
      by (simp add: running_of_def)
    have k: "0 \<le> running_of w k" "0 \<le> lookup_or 0 (w_quota_credential w) k"
      "lookup_or 0 (w_quota_credential w) k > 0 \<Longrightarrow> running_of w k > 0 \<or>
         (\<exists>t. map_of (w_touched w) k = Some t \<and> w_quota_started w \<le> t)"
      using 5 by (auto simp: quota_kept_def)
    show "0 \<le> running_of (forget_idle ret now w) k" by (simp add: run k)
    show "0 \<le> lookup_or 0 (w_quota_credential (forget_idle ret now w)) k"
      using k(2) by (simp add: lookup_or_def forget_idle_maps [OF wf])
    show "lookup_or 0 (w_quota_credential (forget_idle ret now w)) k > 0 \<longrightarrow>
       running_of (forget_idle ret now w) k > 0 \<or>
       (\<exists>t. map_of (w_touched (forget_idle ret now w)) k = Some t \<and> w_quota_started (forget_idle ret now w) \<le> t)"
      using k(3) unfolding run by (auto simp: lookup_or_def forget_idle_maps [OF wf])
  qed (simp add: forget_idle_wf wf)
  then show ?case .
next
  case (8 q cap key w ret now)
  then show ?case
    by (auto simp: quota_kept_def window_ops map_simps running_of_def)
next
  case (9 q w key cap ret now u acc)
  then show ?case
    by (auto simp: quota_kept_def window_ops map_simps running_of_def decrement_def split: if_splits)
qed (auto simp: quota_kept_def window_ops map_simps running_of_def lookup_or_def)

end
