(* ===== verification/Limits_Bursts.thy ===== *)
theory Limits_Bursts
  imports Limits_Retention
begin

text \<open>
  How many requests the limiter admits. A quota is counted in fixed windows, so what it promises about the admissions
  themselves is a bound over any stretch of time shorter than a quota window: twice the limit. The interface
  \<open>quota_meter\<close> says what a counter of a usage window has to do for that; the organization's counter and
  the counter of one credential are its interpretations.
\<close>

section \<open>Counting admissions\<close>

text \<open>The claims handed out so far to a class, an organization and the keys \<open>counts\<close> selects.\<close>

definition concerns :: "request_class \<Rightarrow> string \<Rightarrow> (string \<Rightarrow> bool) \<Rightarrow> claim \<Rightarrow> bool" where
  "concerns c org counts cl \<longleftrightarrow> c_class cl = c \<and> OrgID (c_subject cl) = org \<and> counts (subject_key (c_subject cl))"

definition granted :: "request_class \<Rightarrow> string \<Rightarrow> (string \<Rightarrow> bool) \<Rightarrow> limits_sys \<Rightarrow> int" where
  "granted c org counts s = int (length (filter (concerns c org counts) (ls_claims s)))"

fun op_time :: "limits_op \<Rightarrow> time" where
  "op_time (OpClaim _ _ now _ _) = now"
| "op_time (OpUsage _ _ now) = now"
| "op_time (OpComplete _ _ now) = now"
| "op_time (OpCompleteWithBudget _ _ _ now) = now"
| "op_time (OpDone _ now) = now"

text \<open>
  What the counter of a window says about the \<open>a\<close> admissions since an instant: a quota window that began before it
  counts them all; one that began after it counts all but a full window's worth.
\<close>

definition metered ::
  "int \<Rightarrow> (usage_window \<Rightarrow> int) \<Rightarrow> (time \<Rightarrow> usage_window \<Rightarrow> bool) \<Rightarrow> time \<Rightarrow> int \<Rightarrow> usage_window \<Rightarrow> bool" where
  "metered limit cnt recent since a w \<longleftrightarrow> wf_map (w_touched w) \<and> 0 \<le> cnt w \<and> cnt w \<le> limit \<and>
     (if w_quota_started w < since then a = 0 \<or> (recent since w \<and> a \<le> cnt w)
      else a \<le> limit + cnt w \<and> (a \<le> limit \<or> recent since w))"

definition metered_at ::
  "int \<Rightarrow> (usage_window \<Rightarrow> int) \<Rightarrow> (time \<Rightarrow> usage_window \<Rightarrow> bool) \<Rightarrow> time \<Rightarrow> request_class \<Rightarrow> string \<Rightarrow> int \<Rightarrow> manager \<Rightarrow> bool" where
  "metered_at limit cnt recent since c org a m \<longleftrightarrow>
     (case window_ref m c org of None \<Rightarrow> a \<le> limit | Some r \<Rightarrow> metered limit cnt recent since a (window_at m r))"

lemma started_frame [simp]:
  "w_quota_started (window_denied key now w) = w_quota_started w"
  "w_quota_started (admit_window key now w) = w_quota_started w"
  "w_quota_started (complete_window key u acc now w) = w_quota_started w"
  by (simp_all add: window_ops)

lemma touched_wf [simp]:
  "wf_map (w_touched w) \<Longrightarrow> wf_map (w_touched (window_denied key now w))"
  "wf_map (w_touched (admit_window key now w)) = wf_map (w_touched w)"
  "wf_map (w_touched w) \<Longrightarrow> wf_map (w_touched (complete_window key u acc now w))"
  "wf_map (w_touched (reset_quota q now w)) = wf_map (w_touched w)"
  by (simp_all add: window_ops)

section \<open>The interface of a quota counter\<close>

locale quota_meter =
  fixes counts :: "string \<Rightarrow> bool" and limit_of :: "quota_policy \<Rightarrow> int"
    and cnt :: "usage_window \<Rightarrow> int" and recent :: "time \<Rightarrow> usage_window \<Rightarrow> bool"
  assumes cnt_new: "cnt (new_window now) = 0"
    and cnt_reset: "quota_expired w q now \<Longrightarrow> cnt (reset_quota q now w) = 0"
    and recent_reset: "recent since (reset_quota q now w) \<longleftrightarrow> recent since w"
    and recent_forget: "wf_map (w_touched w) \<Longrightarrow> recent since w \<Longrightarrow> now < since + ret \<Longrightarrow>
      cnt (forget_idle ret now w) = cnt w \<and> recent since (forget_idle ret now w)"
    and cnt_forget: "wf_map (w_touched w) \<Longrightarrow> cnt (forget_idle ret now w) \<in> {cnt w, 0}"
    and recent_touched: "recent since w \<Longrightarrow> since \<le> w_last_touched w"
    and denied_law: "since \<le> now \<Longrightarrow>
      cnt (window_denied key now w) = cnt w \<and> (recent since w \<longrightarrow> recent since (window_denied key now w))"
    and admit_law: "0 \<le> running_of w key \<Longrightarrow> since \<le> now \<Longrightarrow>
      cnt (admit_window key now w) = cnt w + (if counts key then 1 else 0) \<and>
      (recent since w \<or> counts key \<longrightarrow> recent since (admit_window key now w))"
    and complete_law: "1 \<le> running_of w key \<Longrightarrow> since \<le> now \<Longrightarrow>
      cnt (complete_window key u acc now w) = cnt w \<and> (recent since w \<longrightarrow> recent since (complete_window key u acc now w))"
    and open_law: "quota_open q key w \<Longrightarrow> counts key \<Longrightarrow> 0 < limit_of q \<Longrightarrow> cnt w < limit_of q"
begin

abbreviation meter :: "quota_policy \<Rightarrow> time \<Rightarrow> int \<Rightarrow> usage_window \<Rightarrow> bool" where
  "meter q \<equiv> metered (limit_of q) cnt recent"

abbreviation meter_at :: "quota_policy \<Rightarrow> time \<Rightarrow> request_class \<Rightarrow> string \<Rightarrow> int \<Rightarrow> manager \<Rightarrow> bool" where
  "meter_at q \<equiv> metered_at (limit_of q) cnt recent"

subsection \<open>One window\<close>

lemma meter_new: "a \<le> limit_of q \<Longrightarrow> 0 < limit_of q \<Longrightarrow> since \<le> now \<Longrightarrow> meter q since a (new_window now)"
  by (simp add: metered_def cnt_new) (simp add: new_window_def)

lemma meter_reset:
  assumes "meter q since a w" "0 < limit_of q" "since \<le> now" "now < since + Window q"
  shows "meter q since a (reset_quota q now w)"
proof (cases "quota_expired w q now")
  case True
  then have "w_quota_started w < since" using assms(4) by (auto simp: quota_expired_def)
  then have "a \<le> limit_of q" using assms(1,2) by (auto simp: metered_def)
  moreover have "w_quota_started (reset_quota q now w) = now" using True by (simp add: reset_quota_def)
  ultimately show ?thesis using assms(1,3) cnt_reset [OF True] by (auto simp: metered_def)
qed (use assms(1) in \<open>simp add: reset_quota_def\<close>)

lemma meter_forget:
  assumes "meter q since a w" "now < since + ret"
  shows "meter q since a (forget_idle ret now w)"
proof -
  have wf: "wf_map (w_touched w)" using assms(1) by (simp add: metered_def)
  show ?thesis
    using assms(1) recent_forget [OF wf _ assms(2)] cnt_forget [OF wf, of ret now]
    by (cases "recent since w") (auto simp: metered_def forget_idle_wf)
qed

lemma meter_denied: "meter q since a w \<Longrightarrow> since \<le> now \<Longrightarrow> meter q since a (window_denied key now w)"
  using denied_law [of since now key w] by (auto simp: metered_def)

lemma meter_admit:
  assumes "meter q since a w" "0 < limit_of q" "since \<le> now" "0 \<le> running_of w key" "quota_open q key w"
  shows "meter q since (a + (if counts key then 1 else 0)) (admit_window key now w)"
  using assms(1) admit_law [OF assms(4,3)] open_law [OF assms(5) _ assms(2)] by (auto simp: metered_def)

lemma meter_complete:
  "meter q since a w \<Longrightarrow> since \<le> now \<Longrightarrow> 1 \<le> running_of w key \<Longrightarrow> meter q since a (complete_window key u acc now w)"
  using complete_law [of w key since now u acc] by (auto simp: metered_def)

lemma meter_expired:
  assumes "meter q since a w" "0 < limit_of q" "w_last_touched w < since"
  shows "a \<le> limit_of q"
  using assms recent_touched [of since w] by (auto simp: metered_def split: if_splits)

lemma meter_bound: "meter q since a w \<Longrightarrow> 0 < limit_of q \<Longrightarrow> a \<le> 2 * limit_of q"
  by (auto simp: metered_def split: if_splits)

subsection \<open>The manager\<close>

lemma meter_at_set:
  assumes "meter_at q since c org a m" "refs_inv m" "window_ref m c' org' = Some r"
    and "c' = c \<Longrightarrow> org' = org \<Longrightarrow> meter q since a (window_at m r) \<Longrightarrow> meter q since a' w" "(c', org') \<noteq> (c, org) \<Longrightarrow> a' = a"
  shows "meter_at q since c org a' (set_window r w m)"
proof (cases "(c', org') = (c, org)")
  case True
  with assms show ?thesis by (auto simp: metered_at_def manager_simps split: option.splits)
next
  case False
  then have "window_ref m c org \<noteq> Some r" using assms(2,3) unfolding refs_inv_def by blast
  with assms(1,5) False show ?thesis by (auto simp: metered_at_def manager_simps split: option.splits)
qed

lemma meter_at_sweep:
  assumes "meter_at q since c org a m" "wf_manager m" "policy (m_policies m) c = Inr q" "0 < limit_of q" "now < since + Window q"
  shows "meter_at q since c org a (sweep now m)"
proof (cases "window_ref m c org")
  case (Some r)
  have "a \<le> limit_of q" if "swept m now c org r"
  proof (rule meter_expired [OF _ assms(4)])
    show "meter q since a (window_at m r)" using assms(1) Some by (simp add: metered_at_def)
    show "w_last_touched (window_at m r) < since"
      using that assms(3,5) by (auto simp: swept_def expired_def retention_of_def)
  qed
  with Some assms(1,2) show ?thesis by (auto simp: metered_at_def window_ref_sweep manager_simps)
qed (use assms in \<open>simp add: metered_at_def window_ref_sweep\<close>)

lemma meter_at_open: "meter_at q since c org a (open_class c' m) = meter_at q since c org a m"
  by (simp add: metered_at_def manager_simps split: option.splits)

lemma meter_at_inflight: "meter_at q since c org a (m\<lparr>m_inflight := x\<rparr>) = meter_at q since c org a m"
  by (simp add: metered_at_def manager_simps split: option.splits)

lemma meter_at_alloc:
  assumes "meter_at q since c org a m" "refs_inv m" "window_ref m c' org' = None" "0 < limit_of q" "since \<le> now"
  shows "meter_at q since c org a (alloc_window c' org' now m)"
proof -
  have "window_ref m c org \<noteq> Some (m_next_ref m)" using assms(2) unfolding refs_inv_def by blast
  with assms meter_new [of a q since now] show ?thesis by (auto simp: metered_at_def manager_simps split: option.splits)
qed

lemma meter_at_use:
  assumes "meter_at q since c org a m" "refs_inv m" "window_ref m c' (OrgID subject) = Some r"
    and "policy (m_policies m) c = Inr q" "policy (m_policies m) c' = Inr q'" "0 < limit_of q" "since \<le> now" "now < since + Window q"
    and "use_window r subject q' now m = ((ro, d), m')"
  shows "meter_at q since c org a m'"
proof -
  let ?w = "make_room m q' (subject_key subject) now (reset_quota q' now (window_at m r))"
  have "meter_at q since c org a (set_window r ?w m)"
  proof (rule meter_at_set [OF assms(1-3)])
    assume "c' = c" "meter q since a (window_at m r)"
    moreover have "q' = q" using \<open>c' = c\<close> assms(4,5) by simp
    moreover have "now < since + retention_of m q" using assms(8) by (simp add: retention_of_def)
    ultimately show "meter q since a ?w"
      using meter_reset [OF _ assms(6-8)] meter_forget by (simp add: make_room_def)
  qed simp
  then show ?thesis using assms(9) by (auto simp: use_window_def Let_def split: if_splits)
qed

lemma meter_at_window_for:
  assumes "meter_at q since c org a m" "accounted m cs"
    and "policy (m_policies m) c = Inr q" "policy (m_policies m) c' = Inr q'" "0 < limit_of q" "since \<le> now" "now < since + Window q"
    and "window_for c' subject q' now m = ((ro, d), m')"
  shows "meter_at q since c org a m'"
proof -
  let ?m1 = "open_class c' m" and ?m2 = "alloc_window c' (OrgID subject) now (open_class c' m)"
  have acc: "accounted ?m1 cs" by (rule accounted_open_class [OF assms(2)])
  have at: "meter_at q since c org a ?m1" using assms(1) by (simp add: meter_at_open)
  have refs: "refs_inv ?m1" using acc by (simp add: accounted_def)
  show ?thesis
  proof (cases "window_ref ?m1 c' (OrgID subject)")
    case (Some r)
    then have "use_window r subject q' now ?m1 = ((ro, d), m')" using assms(8) by (simp add: window_for_def)
    from meter_at_use [OF at refs Some _ _ assms(5-7) this] assms(3,4) show ?thesis by (simp add: manager_simps)
  next
    case None
    show ?thesis
    proof (cases "map_len (class_windows ?m1 c') \<ge> m_max_organizations ?m1")
      case True
      then show ?thesis using assms(8) None at by (auto simp: window_for_def Let_def)
    next
      case False
      then have u: "use_window (m_next_ref ?m1) subject q' now ?m2 = ((ro, d), m')" using assms(8) None by (simp add: window_for_def Let_def)
      have refs2: "refs_inv ?m2" using accounted_alloc [OF acc None] by (simp add: accounted_def)
      have ref2: "window_ref ?m2 c' (OrgID subject) = Some (m_next_ref ?m1)" by (simp add: window_ref_alloc)
      from meter_at_use [OF meter_at_alloc [OF at refs None assms(5,6)] refs2 ref2 _ _ assms(5-7) u] assms(3,4) show ?thesis
        by (simp add: manager_simps)
    qed
  qed
qed

lemma meter_at_complete:
  assumes "meter_at q since c org a m" "accounted m cs" "cl \<in> set cs" "\<not> c_once cl" "since \<le> now"
  shows "meter_at q since c org a (manager_complete cl u acc now m)"
proof -
  have ref: "window_ref m (c_class cl) (OrgID (c_subject cl)) = Some (c_window cl)" and refs: "refs_inv m"
    using assms(2-4) by (auto simp: accounted_defs)
  have run: "1 \<le> running_of (window_at m (c_window cl)) (subject_key (c_subject cl))"
    using assms(2) open_count_pos [OF assms(3,4), of "\<lambda>d. c_window d = c_window cl \<and> subject_key (c_subject d) = subject_key (c_subject cl)"]
    by (auto simp: accounted_defs)
  show ?thesis
    unfolding manager_complete_def meter_at_inflight
    by (rule meter_at_set [OF assms(1) refs ref]) (simp_all add: meter_complete assms(5) run)
qed

lemma meter_at_claim:
  assumes "meter_at q since c org a m" "accounted m cs" "policy (m_policies m) c = Inr q" "0 < limit_of q"
    and "since \<le> now" "now < since + Window q" "manager_claim e1 e2 now subject c' m = (res, m')"
  shows "meter_at q since c org
    (a + (case res of Inr (Some cl, _) \<Rightarrow> if concerns c org counts cl then 1 else 0 | _ \<Rightarrow> 0)) m'"
proof (cases "\<not> e1 \<and> subject_validate subject = None \<and> \<not> e2 \<and> (\<exists>q'. policy (m_policies m) c' = Inr q')")
  case False
  with assms show ?thesis
    by (auto simp: manager_claim_def split: if_splits option.splits sum.splits)
next
  case True
  then obtain q' where q': "policy (m_policies m) c' = Inr q'" by auto
  obtain ro d m2 where wf: "window_for c' subject q' now (sweep now m) = ((ro, d), m2)" by (metis surj_pair)
  have wfm: "wf_manager m" using assms(2) by (simp add: accounted_def)
  note acc2 = accounted_window_for [OF accounted_sweep [OF assms(2)] wf]
  have at2: "meter_at q since c org a m2"
    using meter_at_window_for [OF meter_at_sweep [OF assms(1) wfm assms(3,4,6)] accounted_sweep [OF assms(2)] _ _ assms(4-6) wf] assms(3) q'
    by (simp add: manager_simps)
  show ?thesis
  proof (cases ro)
    case None
    with True q' wf at2 assms(7) show ?thesis by (auto simp: manager_claim_def)
  next
    case (Some r)
    have ref: "window_ref m2 c' (OrgID subject) = Some r" "refs_inv m2" using acc2 Some by (auto simp: accounted_def)
    show ?thesis
    proof (cases "admission_denial r subject q' now m2")
      case (Some d')
      have "meter_at q since c org a (set_window r (window_denied (subject_key subject) now (window_at m2 r)) m2)"
        by (rule meter_at_set [OF at2 ref(2,1)]) (simp_all add: meter_denied assms(5))
      with True q' wf assms(7) Some \<open>ro = Some r\<close> show ?thesis by (auto simp: manager_claim_def)
    next
      case None
      let ?a' = "a + (if c' = c \<and> OrgID subject = org \<and> counts (subject_key subject) then 1 else 0)"
      have qopen: "quota_open q' (subject_key subject) (window_at m2 r)"
        using None by (auto simp: admission_denial_def quota_open_def Let_def split: if_splits)
      have run: "0 \<le> running_of (window_at m2 r) (subject_key subject)" using acc2 by (auto simp: accounted_defs)
      have "meter_at q since c org ?a' (set_window r (admit_window (subject_key subject) now (window_at m2 r)) m2)"
      proof (rule meter_at_set [OF at2 ref(2,1)])
        assume c: "c' = c" "OrgID subject = org" "meter q since a (window_at m2 r)"
        then have "q' = q" using q' assms(3) by simp
        with meter_admit [OF c(3) assms(4,5) run] qopen c
        show "meter q since ?a' (admit_window (subject_key subject) now (window_at m2 r))" by simp
      qed auto
      with True q' wf assms(7) Some None show ?thesis
        by (auto simp: manager_claim_def admit_claim_def meter_at_inflight concerns_def)
    qed
  qed
qed

subsection \<open>The machine\<close>

lemma granted_update:
  "i < length (ls_claims s) \<Longrightarrow> c_class cl = c_class (ls_claims s ! i) \<Longrightarrow> c_subject cl = c_subject (ls_claims s ! i) \<Longrightarrow>
    granted c org counts \<lparr>ls_manager = m, ls_claims = (ls_claims s)[i := cl]\<rparr> = granted c org counts s"
proof -
  assume a: "i < length (ls_claims s)" "c_class cl = c_class (ls_claims s ! i)" "c_subject cl = c_subject (ls_claims s ! i)"
  then have "map (concerns c org counts) ((ls_claims s)[i := cl]) = map (concerns c org counts) (ls_claims s)"
    by (simp add: map_update concerns_def list_eq_iff_nth_eq nth_list_update)
  then have "length (filter id (map (concerns c org counts) ((ls_claims s)[i := cl]))) = length (filter id (map (concerns c org counts) (ls_claims s)))"
    by simp
  then show ?thesis by (simp add: granted_def filter_map comp_def)
qed

lemma meter_with_claim:
  assumes "limits_inv s" "meter_at q since c org (granted c org counts s - base) (ls_manager s)" "since \<le> now"
    and f: "\<And>cl m. settles now cl m (f cl m)" "\<And>cl m. c_class (fst (f cl m)) = c_class cl \<and> c_subject (fst (f cl m)) = c_subject cl"
  shows "meter_at q since c org (granted c org counts (with_claim i f s) - base) (ls_manager (with_claim i f s))"
proof (cases "i < length (ls_claims s)")
  case True
  let ?cl = "ls_claims s ! i"
  have "meter_at q since c org (granted c org counts s - base) (snd (f ?cl (ls_manager s)))"
    using f(1) [of ?cl "ls_manager s"] assms(1-3) True
    by (auto simp: limits_inv_def settles_def intro!: meter_at_complete)
  with True f(2) [of ?cl "ls_manager s"] show ?thesis
    by (auto simp: with_claim_def granted_update split: prod.splits)
qed (use assms in \<open>simp add: with_claim_def\<close>)

lemma completions_keep_claim:
  "c_class (fst (snd (claim_complete u now cl m))) = c_class cl \<and> c_subject (fst (snd (claim_complete u now cl m))) = c_subject cl"
  "c_class (fst (snd (claim_complete_with_budget u b now cl m))) = c_class cl \<and> c_subject (fst (snd (claim_complete_with_budget u b now cl m))) = c_subject cl"
  "c_class (fst (done_claim now cl m)) = c_class cl \<and> c_subject (fst (done_claim now cl m)) = c_subject cl"
  by (simp_all add: claim_complete_def claim_complete_with_budget_def done_claim_def complete_once_def)

lemma meter_step:
  assumes "limits_inv s" "meter_at q since c org (granted c org counts s - base) (ls_manager s)"
    and "policy (m_policies (ls_manager s)) c = Inr q" "0 < limit_of q" "since \<le> op_time x" "op_time x < since + Window q"
  shows "meter_at q since c org (granted c org counts (limits_step x s) - base) (ls_manager (limits_step x s))"
proof -
  have acc: "accounted (ls_manager s) (ls_claims s)" using assms(1) by (simp add: limits_inv_def)
  show ?thesis
  proof (cases x)
    case (OpClaim e1 e2 now subject c')
    obtain res m' where mc: "manager_claim e1 e2 now subject c' (ls_manager s) = (res, m')" by fastforce
    from meter_at_claim [OF assms(2) acc assms(3,4) _ _ mc] assms(5,6) OpClaim mc show ?thesis
      by (auto simp: granted_def algebra_simps split: sum.splits option.splits prod.splits if_splits)
  next
    case (OpUsage subject c' now)
    then show ?thesis
      using manager_usage_sweeps [of subject c' now "ls_manager s"] meter_at_sweep [OF assms(2) _ assms(3,4)] acc assms(2,6)
      by (auto simp: granted_def accounted_def)
  next
    case (OpComplete i u now)
    then show ?thesis using assms(5) meter_with_claim [OF assms(1,2) _ settles_completions(1) completions_keep_claim(1)] by simp
  next
    case (OpCompleteWithBudget i u b now)
    then show ?thesis using assms(5) meter_with_claim [OF assms(1,2) _ settles_completions(2) completions_keep_claim(2)] by simp
  next
    case (OpDone i now)
    then show ?thesis using assms(5) meter_with_claim [OF assms(1,2) _ settles_completions(3) completions_keep_claim(3)] by simp
  qed
qed

end

text \<open>The two counters of a usage window.\<close>

lemma last_touched_forget [simp]: "w_last_touched (forget_idle ret now w) = w_last_touched w"
proof -
  have "w_last_touched (fold drop_key ks w') = w_last_touched w'" for ks w'
    by (induction ks arbitrary: w') (auto simp: drop_key_def)
  then show ?thesis by (simp add: forget_idle_def forget_scan_eq)
qed

interpretation org_meter: quota_meter "\<lambda>_. True" PerOrgLimit w_quota_org "\<lambda>since w. since \<le> w_last_touched w"
  by unfold_locales (auto simp: window_ops quota_open_def)

definition active_since :: "string \<Rightarrow> time \<Rightarrow> usage_window \<Rightarrow> bool" where
  "active_since key since w \<longleftrightarrow> since \<le> w_last_touched w \<and>
     (running_of w key > 0 \<or> (\<exists>t. map_of (w_touched w) key = Some t \<and> since \<le> t))"

interpretation credential_meter: quota_meter "\<lambda>k. k = key" PerCredentialLimit "\<lambda>w. lookup_or 0 (w_quota_credential w) key" "active_since key"
  for key
proof (unfold_locales, goal_cases)
  case (4 w since now ret)
  have "\<not> gone ret now w key" using 4(2,3) by (auto simp: gone_def active_since_def)
  with 4 show ?case by (simp add: lookup_or_def forget_idle_maps active_since_def manager_simps)
next
  case (5 w ret now)
  then show ?case by (simp add: lookup_or_def forget_idle_maps)
qed (auto simp: window_ops quota_open_def active_since_def running_of_def map_simps lookup_or_def decrement_def split: option.splits if_splits)

text \<open>A counter is never negative.\<close>

definition counting :: "int \<Rightarrow> duration \<Rightarrow> quota_policy \<Rightarrow> usage_window \<Rightarrow> bool" where
  "counting cap ret q w \<longleftrightarrow> wf_map (w_touched w) \<and> 0 \<le> w_quota_org w \<and> (\<forall>k. 0 \<le> lookup_or 0 (w_quota_credential w) k)"

interpretation counting: window_invariant counting "\<lambda>_ _. True"
proof (unfold_locales, goal_cases)
  case (5 q ret w now cap)
  then show ?case by (auto simp: counting_def forget_idle_wf forget_idle_maps lookup_or_def)
qed (auto simp: counting_def window_ops map_simps lookup_or_def)

end
