(* ===== verification/Limits_Properties.thy ===== *)
theory Limits_Properties
  imports Limits_Bursts
begin

text \<open>
  The properties of the request limiter, for every manager \<^verbatim>\<open>NewManager\<close> returns and every
  sequence of claims, usage reads and completions in any interleaving.
\<close>

section \<open>Reachable states\<close>

definition limits_run :: "manager \<Rightarrow> limits_op list \<Rightarrow> limits_sys" where
  "limits_run m ops = run_ops limits_step ops \<lparr>ls_manager = m, ls_claims = []\<rparr>"

text \<open>Every operation of the run reads a clock that is not before the start of a quota window it finds.\<close>

definition clocked :: "manager \<Rightarrow> limits_op list \<Rightarrow> bool" where
  "clocked m ops \<longleftrightarrow>
     ok_run limits_step (ticks (\<lambda>now w. w_quota_started w \<le> now)) ops \<lparr>ls_manager = m, ls_claims = []\<rparr>"

lemma limits_run_inv: "new_manager opts = Inr m \<Longrightarrow> limits_inv (limits_run m ops)"
  unfolding limits_run_def by (rule limits.run_inv) (simp_all add: limits_inv_new)

lemma windows_all_new: "new_manager opts = Inr m \<Longrightarrow> windows_all P m"
  by (auto simp: new_manager_def windows_all_def window_ref_def class_windows_def lookup_or_def Let_def
      split: option.splits if_splits)

lemma windows_inv_new:
  "new_manager opts = Inr m \<Longrightarrow> windows_inv P \<lparr>ls_manager = m, ls_claims = []\<rparr>"
  by (simp add: windows_inv_def limits_inv_new windows_all_new)

lemma ticks_trivial [simp]: "ticks (\<lambda>_ _. True) x s"
  by (cases x) (auto simp: ticks_at_def list_all_iff)

lemma ok_run_ticks_trivial [simp]: "ok_run limits_step (ticks (\<lambda>_ _. True)) ops s"
  by (induction ops arbitrary: s) auto

lemma with_claim_frame:
  assumes f: "\<And>cl m. settles now cl m (f cl m)"
    and g: "\<And>cl u acc m. g (manager_complete cl u acc now m) = g m"
  shows "g (ls_manager (with_claim i f s)) = g (ls_manager s)"
proof -
  have "g (snd (f cl m)) = g m" for cl m
    using f [of cl m] g by (auto simp: settles_def)
  from this [of "ls_claims s ! i" "ls_manager s"] show ?thesis
    by (cases "f (ls_claims s ! i) (ls_manager s)") (simp add: with_claim_def)
qed

lemmas config_with_claim = with_claim_frame [where g = manager_config, OF _ config_complete]

lemma config_step:
  assumes "limits_inv s"
  shows "manager_config (ls_manager (limits_step x s)) = manager_config (ls_manager s)"
proof (cases x)
  case (OpClaim e1 e2 now subject c)
  obtain res m' where mc: "manager_claim e1 e2 now subject c (ls_manager s) = (res, m')"
    by (cases "manager_claim e1 e2 now subject c (ls_manager s)")
  have "accounted (ls_manager s) (ls_claims s)" using assms by (simp add: limits_inv_def)
  from this mc have "manager_config m' = manager_config (ls_manager s)"
    by (cases rule: manager_claim_cases) (auto simp: admit_claim_def manager_simps)
  with OpClaim mc show ?thesis by (auto split: sum.splits option.splits)
next
  case (OpUsage subject c now)
  then show ?thesis
    using manager_usage_sweeps [of subject c now "ls_manager s"] by (auto simp: manager_simps)
qed (simp_all add: config_with_claim [OF settles_completions(1)] config_with_claim [OF settles_completions(2)]
    config_with_claim [OF settles_completions(3)])

lemma config_run:
  "new_manager opts = Inr m \<Longrightarrow> manager_config (ls_manager (limits_run m ops)) = manager_config m"
  unfolding limits_run_def
  by (rule limits.run_stable [where P = "\<lambda>s. manager_config (ls_manager s) = manager_config m"])
    (simp_all add: config_step limits_inv_new)

lemma new_manager_config:
  "new_manager opts = Inr m \<Longrightarrow>
    m_policies m = o_Policies opts \<and> m_concurrency m = o_PerOrgConcurrency opts \<and>
    m_max_organizations m = or_default 1024 (o_MaxTrackedOrganizations opts) \<and>
    m_max_credentials m = or_default 128 (o_MaxCredentialsPerOrganization opts) \<and> 0 < m_max_credentials m \<and>
    0 < m_max_retry m \<and> 0 < m_concurrency_retry m \<and> m_concurrency_retry m \<le> m_max_retry m"
proof -
  assume new: "new_manager opts = Inr m"
  have pos: "0 < d \<Longrightarrow> 0 \<le> x \<Longrightarrow> 0 < or_default d x" for d x
    by (simp add: or_default_def)
  have nn: "0 \<le> o_MaxCredentialsPerOrganization opts" "0 \<le> o_ConcurrencyRetryAfter opts" "0 \<le> o_MaxRetryAfter opts"
    using new by (auto simp: new_manager_def split: option.splits if_splits)
  have "0 < or_default Minute (o_MaxRetryAfter opts)" "0 < or_default (5 * Second) (o_ConcurrencyRetryAfter opts)"
    "0 < or_default 128 (o_MaxCredentialsPerOrganization opts)"
    using nn by (auto intro!: pos simp: duration_simps)
  with new show ?thesis
    by (simp add: new_manager_def Let_def split: option.splits if_split_asm) auto
qed

context quota_meter begin

text \<open>The counter follows the admissions along every run whose clock stays within one quota window's length.\<close>

lemma meter_run:
  assumes "limits_inv s" "meter_at q since c org (granted c org counts s - base) (ls_manager s)"
    "policy (m_policies (ls_manager s)) c = Inr q" "0 < limit_of q"
    "list_all (\<lambda>x. since \<le> op_time x \<and> op_time x < since + Window q) ops"
  shows "meter_at q since c org (granted c org counts (run_ops limits_step ops s) - base) (ls_manager (run_ops limits_step ops s))"
  using assms
proof (induction ops arbitrary: s)
  case (Cons x ops)
  have "m_policies (ls_manager (limits_step x s)) = m_policies (ls_manager s)"
    using config_step [OF Cons.prems(1)] by (simp add: manager_config_def)
  moreover have "limits_inv (limits_step x s)" using limits.step_inv Cons.prems(1) by blast
  ultimately show ?case using Cons.IH meter_step [OF Cons.prems(1-4)] Cons.prems(3-5) by simp
qed simp

lemma granted_bound:
  assumes "new_manager opts = Inr m" "policy (o_Policies opts) c = Inr q" "0 < limit_of q"
    and "list_all (\<lambda>x. since \<le> op_time x \<and> op_time x < since + Window q) ops"
    and "\<And>r. window_ref (ls_manager (limits_run m before)) c org = Some r \<Longrightarrow>
      wf_map (w_touched (window_at (ls_manager (limits_run m before)) r)) \<and>
      0 \<le> cnt (window_at (ls_manager (limits_run m before)) r) \<and> cnt (window_at (ls_manager (limits_run m before)) r) \<le> limit_of q"
  shows "granted c org counts (limits_run m (before @ ops)) - granted c org counts (limits_run m before) \<le> 2 * limit_of q"
proof -
  let ?s = "limits_run m before"
  have "meter_at q since c org (granted c org counts ?s - granted c org counts ?s) (ls_manager ?s)"
    using assms(3,5) by (auto simp: metered_at_def metered_def split: option.splits)
  moreover have "policy (m_policies (ls_manager ?s)) c = Inr q"
    using assms(2) config_run [OF assms(1), of before] new_manager_config [OF assms(1)] by (simp add: manager_config_def)
  ultimately have "meter_at q since c org (granted c org counts (run_ops limits_step ops ?s) - granted c org counts ?s)
      (ls_manager (run_ops limits_step ops ?s))"
    using limits_run_inv [OF assms(1)] assms(3,4) by (intro meter_run)
  moreover have "run_ops limits_step ops ?s = limits_run m (before @ ops)" by (simp add: limits_run_def run_ops_append)
  ultimately show ?thesis
    using meter_bound [OF _ assms(3)] assms(3) by (force simp: metered_at_def split: option.splits)
qed

end

section \<open>The number of organizations tracked\<close>

definition orgs_bounded :: "limits_sys \<Rightarrow> bool" where
  "orgs_bounded s \<longleftrightarrow>
     (\<forall>c. map_len (class_windows (ls_manager s) c) \<le> max 0 (m_max_organizations (ls_manager s)))"

lemma class_windows_sweep: "map_len (class_windows (sweep now m) c) \<le> map_len (class_windows m c)"
  by (auto simp: class_windows_def sweep_def lookup_or_def map_of_map_val sweep_class_def map_len_def
      split: option.splits sum.splits)

lemma class_windows_alloc:
  "class_windows (alloc_window c org now m) c' =
    (if c' = c then put org (m_next_ref m) (class_windows m c) else class_windows m c')"
  by (simp add: alloc_window_def class_windows_def lookup_or_put)

lemma class_windows_use: "class_windows (snd (use_window r subject q now m)) = class_windows m"
  by (simp add: use_window_def Let_def manager_simps)

lemma class_windows_window_for:
  "map_len (class_windows (snd (window_for c subject q now m)) c')
    \<le> max (map_len (class_windows m c')) (m_max_organizations m)"
proof (cases "window_ref m c (OrgID subject) = None \<and> map_len (class_windows m c) < m_max_organizations m")
  case True
  then have "class_windows (snd (window_for c subject q now m)) c' =
      (if c' = c then put (OrgID subject) (m_next_ref m) (class_windows m c) else class_windows m c')"
    by (simp add: window_for_def Let_def manager_simps class_windows_use class_windows_alloc)
  with True show ?thesis by (simp add: map_len_put)
next
  case False
  then have "class_windows (snd (window_for c subject q now m)) = class_windows m"
    by (auto simp: window_for_def Let_def manager_simps class_windows_use split: option.splits)
  then show ?thesis by simp
qed

lemma class_windows_claim:
  "map_len (class_windows (snd (manager_claim e1 e2 now subject k m)) c)
    \<le> max (map_len (class_windows m c)) (m_max_organizations m)"
proof (cases "\<not> e1 \<and> subject_validate subject = None \<and> \<not> e2 \<and> (\<exists>q. policy (m_policies m) k = Inr q)")
  case False
  then show ?thesis
    by (auto simp: manager_claim_def split: option.splits sum.splits)
next
  case True
  then obtain q where q: "policy (m_policies m) k = Inr q" by auto
  obtain ro d m2 where wf: "window_for k subject q now (sweep now m) = ((ro, d), m2)"
    by (metis surj_pair)
  have "class_windows (snd (manager_claim e1 e2 now subject k m)) = class_windows m2"
    using True q wf
    by (auto simp: manager_claim_def admit_claim_def manager_simps split: option.splits)
      (simp add: class_windows_def set_window_def fun_eq_iff)
  moreover have "map_len (class_windows m2 c) \<le> max (map_len (class_windows (sweep now m) c)) (m_max_organizations m)"
    using class_windows_window_for [of k subject q now "sweep now m" c] by (simp add: wf manager_simps)
  ultimately show ?thesis
    using class_windows_sweep [of now m c] by simp
qed

lemma class_windows_complete: "class_windows (manager_complete cl u acc now m) = class_windows m"
  by (simp add: manager_complete_def class_windows_def set_window_def fun_eq_iff)

lemmas orgs_with_claim = with_claim_frame [where g = class_windows, OF _ class_windows_complete]

interpretation orgs: invariant_machine limits_step "\<lambda>_ _. True" "\<lambda>s. limits_inv s \<and> orgs_bounded s"
proof
  fix s x
  assume inv: "limits_inv s \<and> orgs_bounded s"
  have cfg: "m_max_organizations (ls_manager (limits_step x s)) = m_max_organizations (ls_manager s)"
    using config_step [of s x] inv by (simp add: manager_config_def)
  have "map_len (class_windows (ls_manager (limits_step x s)) c)
      \<le> max (map_len (class_windows (ls_manager s) c)) (m_max_organizations (ls_manager s))" for c
  proof (cases x)
    case (OpClaim e1 e2 now subject k)
    have "ls_manager (limits_step x s) = snd (manager_claim e1 e2 now subject k (ls_manager s))"
      using OpClaim by (auto split: prod.splits sum.splits option.splits)
    then show ?thesis by (simp only: class_windows_claim)
  next
    case (OpUsage subject k now)
    then show ?thesis
      using manager_usage_sweeps [of subject k now "ls_manager s"] class_windows_sweep [of now "ls_manager s" c]
      by auto
  qed (simp_all add: orgs_with_claim [OF settles_completions(1)] orgs_with_claim [OF settles_completions(2)]
      orgs_with_claim [OF settles_completions(3)])
  then have "orgs_bounded (limits_step x s)"
    using inv unfolding orgs_bounded_def cfg by (meson le_max_iff_disj order_trans)
  with inv limits.step_inv show "limits_inv (limits_step x s) \<and> orgs_bounded (limits_step x s)" by auto
qed

section \<open>The retry time of a denial\<close>

lemma denied_retry:
  assumes "started \<le> now" "now < started + window" "window + Second - 1 \<le> max_int64" "0 < m_max_retry m"
    and d: "d = denied m reason started window now"
  shows "0 < RetryAfter d \<and> RetryAfter d \<le> m_max_retry m \<and> \<not> Allowed d \<and> Reason d = reason \<and>
    (RetryAfter d = m_max_retry m \<or> started + window \<le> now + RetryAfter d)"
proof -
  let ?r = "started + window - now" and ?n = "(started + window - now + Second - 1) div Second * Second"
  have S: "Second = 1000000000" by (simp add: Second_def)
  have r: "0 < ?r" "?r \<le> window" using assms by auto
  have sub: "time_sub (started + window) now = ?r"
    using r assms by (intro time_sub_id) (auto simp: min_int64_def S)
  have "wrap64 (?r + Second - 1) = ?r + Second - 1"
    using r assms by (intro wrap64_id) (auto simp: min_int64_def S)
  moreover have n: "?r \<le> ?n" "?n \<le> ?r + Second - 1"
    by (auto simp: S)
  moreover have "wrap64 ?n = ?n"
    using r n assms by (intro wrap64_id) (auto simp: min_int64_def S)
  ultimately have "d = \<lparr>Allowed = False, Reason = reason, RetryAfter = min ?n (m_max_retry m)\<rparr>"
    using r by (simp add: d denied_def Let_def sub S)
  with n r assms(4) show ?thesis by (auto simp: min_def)
qed

lemma use_window_quota:
  assumes "w_quota_started (window_at m r) \<le> now" "use_window r subject q now m = ((ro, d), m')"
  shows "\<not> quota_expired (window_at m' r) q now \<and> w_quota_started (window_at m' r) \<le> now"
    and "ro = None \<Longrightarrow> d = capacity_denied m"
  using assms
  by (auto simp: use_window_def Let_def manager_simps make_room_def reset_quota_def quota_expired_def split: if_splits)

lemma window_for_quota:
  assumes "ticks_at (\<lambda>now w. w_quota_started w \<le> now) now m" "window_for c subject q now m = ((ro, d), m')"
  shows "ro = Some r \<Longrightarrow> \<not> quota_expired (window_at m' r) q now \<and> w_quota_started (window_at m' r) \<le> now"
    and "ro = None \<Longrightarrow> RetryAfter d = m_max_retry m \<and> \<not> Allowed d \<and> Reason d = DenialTrackingCapacity"
proof -
  have retry: "m_max_retry (open_class c m) = m_max_retry m" "m_max_retry (alloc_window c org now (open_class c m)) = m_max_retry m" for org
    by (simp_all add: open_class_def alloc_window_def)
  {
    assume ro: "ro = Some r"
    have use: "use_window r' subject q now n = ((Some r, d), m') \<Longrightarrow> r' = r" for r' n
      by (auto simp: use_window_def Let_def split: if_splits)
    obtain n where "use_window r subject q now n = ((Some r, d), m')" "w_quota_started (window_at n r) \<le> now"
    proof (cases "window_ref m c (OrgID subject)")
      case None
      let ?n = "alloc_window c (OrgID subject) now (open_class c m)"
      have u: "use_window (m_next_ref m) subject q now ?n = ((Some r, d), m')"
        using None assms(2) ro by (auto simp: window_for_def Let_def manager_simps split: if_splits)
      with use [OF u] have "w_quota_started (window_at ?n r) \<le> now"
        by (simp add: manager_simps new_window_def)
      with u use [OF u] that show ?thesis by blast
    next
      case (Some r')
      with assms(2) ro have u: "use_window r' subject q now (open_class c m) = ((Some r, d), m')"
        by (simp add: window_for_def Let_def manager_simps)
      with use [OF u] ticks_atD [OF assms(1) Some] that [of "open_class c m"] show ?thesis
        by (simp add: manager_simps)
    qed
    then show "\<not> quota_expired (window_at m' r) q now \<and> w_quota_started (window_at m' r) \<le> now"
      by (rule use_window_quota(1) [rotated])
  }
  show "ro = None \<Longrightarrow> RetryAfter d = m_max_retry m \<and> \<not> Allowed d \<and> Reason d = DenialTrackingCapacity"
    using assms unfolding window_for_def Let_def
    by (auto simp: capacity_denied_def retry use_window_def Let_def split: option.splits if_splits)
qed

lemma admission_denial_retry:
  assumes "admission_denial r subject q now m = Some d" "policy_ok q" "0 < m_max_retry m"
    and "0 < m_concurrency_retry m" "m_concurrency_retry m \<le> m_max_retry m"
    and "Window q + Second - 1 \<le> max_int64"
    and "\<not> quota_expired (window_at m r) q now" "w_quota_started (window_at m r) \<le> now"
  shows "\<not> Allowed d \<and> Reason d \<noteq> DenialNone \<and> 0 < RetryAfter d \<and> RetryAfter d \<le> m_max_retry m"
proof -
  have "0 < Window q" if "PerOrgLimit q > 0 \<or> PerCredentialLimit q > 0"
    using assms(2) that by (auto simp: policy_ok_def)
  then have "now < w_quota_started (window_at m r) + Window q" if "PerOrgLimit q > 0 \<or> PerCredentialLimit q > 0"
    using assms(7) that by (simp add: quota_expired_def)
  with denied_retry [OF assms(8) _ assms(6,3) refl] assms(1,4,5) show ?thesis
    by (auto simp: admission_denial_def Let_def split: if_splits)
qed

lemma claim_denial_retry:
  assumes "accounted m cs" "manager_claim e1 e2 now subject c m = (Inr (None, d), m')"
    and "ticks_at (\<lambda>now w. w_quota_started w \<le> now) now m"
    and "0 < m_max_retry m" "0 < m_concurrency_retry m" "m_concurrency_retry m \<le> m_max_retry m"
    and "\<And>q. class_policy (m_policies m) c = Some q \<Longrightarrow> Window q + Second - 1 \<le> max_int64"
  shows "\<not> Allowed d \<and> Reason d \<noteq> DenialNone \<and> 0 < RetryAfter d \<and> RetryAfter d \<le> m_max_retry m"
proof -
  obtain q where q: "policy (m_policies m) c = Inr q" and ok: "\<not> e1" "subject_validate subject = None" "\<not> e2"
    using assms(2) by (auto simp: manager_claim_def split: if_splits option.splits sum.splits)
  obtain ro d2 m2 where wf: "window_for c subject q now (sweep now m) = ((ro, d2), m2)"
    by (metis surj_pair)
  have tick: "ticks_at (\<lambda>now w. w_quota_started w \<le> now) now (sweep now m)"
    using assms(3) by (rule ticks_at_sweep)
  have cfg: "m_max_retry m2 = m_max_retry m" "m_concurrency_retry m2 = m_concurrency_retry m"
    using accounted_window_for [OF accounted_sweep [OF assms(1)] wf] by (auto simp: manager_config_def sweep_def)
  show ?thesis
  proof (cases ro)
    case None
    with wf q ok assms(2) have "d = d2" by (simp add: manager_claim_def)
    with window_for_quota(2) [OF tick wf None] assms(4) show ?thesis by (simp add: manager_simps)
  next
    case (Some r)
    with wf q ok assms(2) have "admission_denial r subject q now m2 = Some d"
      by (auto simp: manager_claim_def split: option.splits prod.splits)
    from admission_denial_retry [OF this] window_for_quota(1) [OF tick wf Some] assms(4-7) q cfg
    show ?thesis by (auto simp: policy_Inr)
  qed
qed


section \<open>Properties\<close>

text \<open>A configuration and a run for the witnesses: two admissions, a denial, a completion.\<close>

definition ex_policy :: quota_policy where
  "ex_policy = \<lparr>Window = Minute, PerOrgLimit = 3, PerCredentialLimit = 2,
     Resources = \<lparr>MaxItems = 10, MaxTokens = 0, MaxBytes = 0\<rparr>\<rparr>"

definition ex_options :: limits_options where
  "ex_options = \<lparr>o_Policies = \<lparr>Auth = ex_policy, Context = ex_policy, Evidence = ex_policy, Snapshot = ex_policy,
       Episode = ex_policy, Data = ex_policy, Capabilities = ex_policy\<rparr>,
     o_PerOrgConcurrency = 2, o_MaxTrackedOrganizations = 2, o_MaxCredentialsPerOrganization = 2,
     o_StateRetention = Minute, o_ConcurrencyRetryAfter = 0, o_MaxRetryAfter = 0\<rparr>"

definition ex_manager :: manager where
  "ex_manager = projr (new_manager ex_options)"

definition ex_subject :: "string \<Rightarrow> subject" where
  "ex_subject name = \<lparr>OrgID = ''o'', CredentialID = name, Surface = ''''\<rparr>"

definition ex_ops :: "limits_op list" where
  "ex_ops =
    [OpClaim False False (Hour) (ex_subject ''a'') RequestClassContext,
     OpClaim False False (Hour + Second) (ex_subject ''b'') RequestClassContext,
     OpClaim False False (Hour + 2 * Second) (ex_subject ''a'') RequestClassContext,
     OpComplete 0 \<lparr>Items = 3, Tokens = 1, Bytes = 1\<rparr> (Hour + 3 * Second)]"

lemma ex_new: "new_manager ex_options = Inr ex_manager"
  by code_simp

text \<open>
  C15: an organization never has more requests running than its concurrency limit,
  whatever operations have run and in whatever order.
\<close>

theorem concurrency_limit_holds:
  assumes "new_manager opts = Inr m" "o_PerOrgConcurrency opts > 0"
  shows "open_count (\<lambda>cl. OrgID (c_subject cl) = org) (ls_claims (limits_run m ops)) \<le> o_PerOrgConcurrency opts"
proof -
  have "m_concurrency (ls_manager (limits_run m ops)) = o_PerOrgConcurrency opts"
    using config_run [OF assms(1), of ops] new_manager_config [OF assms(1)] by (simp add: manager_config_def)
  with limits_run_inv [OF assms(1), of ops] assms(2) show ?thesis
    by (simp add: limits_inv_def concurrency_inv_def)
qed

theorem concurrency_limit_holds_witness:
  "open_count (\<lambda>cl. OrgID (c_subject cl) = ''o'') (ls_claims (limits_run ex_manager (take 3 ex_ops))) = 2 \<and>
   open_count (\<lambda>cl. OrgID (c_subject cl) = ''o'') (ls_claims (limits_run ex_manager (take 3 ex_ops)))
     \<le> o_PerOrgConcurrency ex_options"
proof -
  have "o_PerOrgConcurrency ex_options > 0" by (simp add: ex_options_def)
  from concurrency_limit_holds [OF ex_new this]
  have "open_count (\<lambda>cl. OrgID (c_subject cl) = ''o'') (ls_claims (limits_run ex_manager (take 3 ex_ops)))
      \<le> o_PerOrgConcurrency ex_options" .
  moreover have "open_count (\<lambda>cl. OrgID (c_subject cl) = ''o'') (ls_claims (limits_run ex_manager (take 3 ex_ops))) = 2"
    by code_simp
  ultimately show ?thesis by blast
qed

text \<open>
  The in-flight count of an organization is the number of its open claims, and the
  window an open claim points to is the one the manager serves that class and
  organization with; a completion is never accounted to a window that was swept.
\<close>

theorem open_claims_accounted:
  assumes "new_manager opts = Inr m"
  shows "inflight_of (ls_manager (limits_run m ops)) org
      = open_count (\<lambda>cl. OrgID (c_subject cl) = org) (ls_claims (limits_run m ops))
    \<and> (cl \<in> set (ls_claims (limits_run m ops)) \<longrightarrow> \<not> c_once cl \<longrightarrow>
        window_ref (ls_manager (limits_run m ops)) (c_class cl) (OrgID (c_subject cl)) = Some (c_window cl))"
  using limits_run_inv [OF assms(1), of ops]
  by (auto simp: limits_inv_def accounted_defs)

theorem open_claims_accounted_witness:
  "inflight_of (ls_manager (limits_run ex_manager ex_ops)) ''o'' = 1 \<and>
   window_ref (ls_manager (limits_run ex_manager ex_ops)) RequestClassContext ''o'' = Some 0"
proof -
  have "open_count (\<lambda>cl. OrgID (c_subject cl) = ''o'') (ls_claims (limits_run ex_manager ex_ops)) = 1"
    by code_simp
  moreover have "ls_claims (limits_run ex_manager ex_ops) ! 1 \<in> set (ls_claims (limits_run ex_manager ex_ops))"
    by (rule nth_mem) code_simp
  moreover have "\<not> c_once (ls_claims (limits_run ex_manager ex_ops) ! 1)"
    "c_class (ls_claims (limits_run ex_manager ex_ops) ! 1) = RequestClassContext"
    "OrgID (c_subject (ls_claims (limits_run ex_manager ex_ops) ! 1)) = ''o''"
    "c_window (ls_claims (limits_run ex_manager ex_ops) ! 1) = 0"
    by code_simp+
  ultimately show ?thesis
    using open_claims_accounted [OF ex_new, of ex_ops "''o''" "ls_claims (limits_run ex_manager ex_ops) ! 1"] by simp
qed

lemma counters_bounded:
  assumes "new_manager opts = Inr m" "policy (o_Policies opts) c = Inr q"
    and "window_ref (ls_manager (limits_run m ops)) c org = Some r"
  defines "w \<equiv> window_at (ls_manager (limits_run m ops)) r"
  shows "wf_map (w_touched w) \<and> 0 \<le> w_quota_org w \<and> 0 \<le> lookup_or 0 (w_quota_credential w) key \<and>
    (PerOrgLimit q > 0 \<longrightarrow> w_quota_org w \<le> PerOrgLimit q) \<and>
    (PerCredentialLimit q > 0 \<longrightarrow> lookup_or 0 (w_quota_credential w) key \<le> PerCredentialLimit q)"
proof -
  let ?m = "ls_manager (limits_run m ops)"
  have "windows_inv quota_bounded (limits_run m ops)" "windows_inv counting (limits_run m ops)"
    unfolding limits_run_def by (rule quota.run_inv counting.run_inv, simp_all add: windows_inv_new [OF assms(1)])+
  moreover have "m_policies ?m = o_Policies opts"
    using config_run [OF assms(1), of ops] new_manager_config [OF assms(1)] by (simp add: manager_config_def)
  ultimately have "quota_bounded (m_max_credentials ?m) (retention_of ?m q) q w" "counting (m_max_credentials ?m) (retention_of ?m q) q w"
    using assms(2,3) by (simp_all add: windows_inv_def windows_all_def w_def)
  then show ?thesis by (simp add: quota_bounded_def counting_def)
qed

text \<open>
  C29: the quota bounds the admissions themselves. In any stretch of a run whose clock readings lie less than one
  quota window of the class apart, after any earlier run and with any interleaving of claims, completions, sweeps and
  forgetting, an organization is admitted at most twice its limit, and so is any credential: a stretch
  meets at most two quota windows.
\<close>

theorem quota_bounds_admissions:
  assumes "new_manager opts = Inr m" "policy (o_Policies opts) c = Inr q"
    and "list_all (\<lambda>x. since \<le> op_time x \<and> op_time x < since + Window q) ops"
  shows "(PerOrgLimit q > 0 \<longrightarrow>
      granted c org (\<lambda>_. True) (limits_run m (before @ ops)) - granted c org (\<lambda>_. True) (limits_run m before) \<le> 2 * PerOrgLimit q) \<and>
    (PerCredentialLimit q > 0 \<longrightarrow>
      granted c org (\<lambda>k. k = key) (limits_run m (before @ ops)) - granted c org (\<lambda>k. k = key) (limits_run m before) \<le> 2 * PerCredentialLimit q)"
  using org_meter.granted_bound [OF assms(1,2) _ assms(3), of before org] credential_meter.granted_bound [OF assms(1,2) _ assms(3), of before org key]
    counters_bounded [OF assms(1,2), of before org _ key] by blast

lemma ex_policy_context: "policy (o_Policies ex_options) RequestClassContext = Inr ex_policy"
  by code_simp

lemma ex_ref: "window_ref (ls_manager (limits_run ex_manager ex_ops)) RequestClassContext ''o'' = Some 0"
  by code_simp

text \<open>
  A stretch over two quota windows: two admissions at the end of the first, which the earlier one fills, and three at the start
  of the second.
\<close>

definition ex_turn :: "duration \<Rightarrow> string \<Rightarrow> nat \<Rightarrow> limits_op list" where
  "ex_turn after name i =
    [OpClaim False False (Hour + after) (ex_subject name) RequestClassContext, OpDone i (Hour + after)]"

definition ex_burst :: "limits_op list" where
  "ex_burst = ex_turn (50 * Second) ''b'' 1 @ ex_turn (51 * Second) ''a'' 2 @ ex_turn (52 * Second) ''b'' 9 @
     ex_turn (60 * Second) ''a'' 3 @ ex_turn (61 * Second) ''b'' 4 @ ex_turn (62 * Second) ''a'' 5 @ ex_turn (63 * Second) ''b'' 9"

theorem quota_bounds_admissions_witness:
  "granted RequestClassContext ''o'' (\<lambda>_. True) (limits_run ex_manager (ex_turn 0 ''a'' 0 @ ex_burst))
     - granted RequestClassContext ''o'' (\<lambda>_. True) (limits_run ex_manager (ex_turn 0 ''a'' 0)) = 5 \<and> (5 :: int) \<le> 2 * PerOrgLimit ex_policy"
proof -
  have "list_all (\<lambda>x. Hour + 40 * Second \<le> op_time x \<and> op_time x < Hour + 40 * Second + Window ex_policy) ex_burst" by code_simp
  note bound = quota_bounds_admissions [OF ex_new ex_policy_context this, of "''o''" "ex_turn 0 ''a'' 0", THEN conjunct1]
  have "0 < PerOrgLimit ex_policy" by (simp add: ex_policy_def)
  moreover have five: "granted RequestClassContext ''o'' (\<lambda>_. True) (limits_run ex_manager (ex_turn 0 ''a'' 0 @ ex_burst))
     - granted RequestClassContext ''o'' (\<lambda>_. True) (limits_run ex_manager (ex_turn 0 ''a'' 0)) = 5" by code_simp
  ultimately show ?thesis using bound by (simp only: five)
qed

text \<open>
  For every subject the admissions its credential counter shows are the completions
  plus the claims of that subject that are still open in that class, so no admitted
  request is lost or counted twice, also across forgetting and sweeping.
\<close>

theorem admissions_balance:
  assumes "new_manager opts = Inr m" "policy (o_Policies opts) c = Inr q"
    and "window_ref (ls_manager (limits_run m ops)) c org = Some r"
  shows "uc_Admitted (credential_of (window_at (ls_manager (limits_run m ops)) r) key)
    = uc_Completed (credential_of (window_at (ls_manager (limits_run m ops)) r) key)
      + open_count (\<lambda>cl. c_class cl = c \<and> OrgID (c_subject cl) = org \<and> subject_key (c_subject cl) = key)
          (ls_claims (limits_run m ops))"
proof -
  let ?s = "limits_run m ops"
  have "windows_inv balanced ?s"
    unfolding limits_run_def by (rule balance.run_inv) (simp_all add: windows_inv_new [OF assms(1)])
  moreover have "m_policies (ls_manager ?s) = o_Policies opts"
    using config_run [OF assms(1), of ops] new_manager_config [OF assms(1)] by (simp add: manager_config_def)
  ultimately have "uc_Admitted (credential_of (window_at (ls_manager ?s) r) key)
      = uc_Completed (credential_of (window_at (ls_manager ?s) r) key) + running_of (window_at (ls_manager ?s) r) key"
    using assms(2,3) by (auto simp: windows_inv_def windows_all_def balanced_def)
  moreover have acc: "accounted (ls_manager ?s) (ls_claims ?s)"
    using limits_run_inv [OF assms(1), of ops] by (simp add: limits_inv_def)
  moreover have "c_window cl = r \<longleftrightarrow> c_class cl = c \<and> OrgID (c_subject cl) = org"
    if "cl \<in> set (ls_claims ?s)" "\<not> c_once cl" for cl
  proof -
    have ref: "window_ref (ls_manager ?s) (c_class cl) (OrgID (c_subject cl)) = Some (c_window cl)"
      using acc that by (simp add: accounted_def claims_inv_def)
    have "refs_inv (ls_manager ?s)" using acc by (simp add: accounted_def)
    with ref assms(3) show ?thesis unfolding refs_inv_def by auto
  qed
  then have "open_count (\<lambda>cl. c_window cl = r \<and> subject_key (c_subject cl) = key) (ls_claims ?s)
     = open_count (\<lambda>cl. c_class cl = c \<and> OrgID (c_subject cl) = org \<and> subject_key (c_subject cl) = key) (ls_claims ?s)"
    by (intro open_count_cong) blast
  ultimately show ?thesis
    by (simp add: accounted_def counts_inv_def)
qed

theorem admissions_balance_witness:
  "uc_Admitted (credential_of (window_at (ls_manager (limits_run ex_manager ex_ops)) 0) ''b'')
    = uc_Completed (credential_of (window_at (ls_manager (limits_run ex_manager ex_ops)) 0) ''b'') + 1"
proof -
  have "open_count (\<lambda>cl. c_class cl = RequestClassContext \<and> OrgID (c_subject cl) = ''o'' \<and>
      subject_key (c_subject cl) = ''b'') (ls_claims (limits_run ex_manager ex_ops)) = 1"
    by code_simp
  with admissions_balance [OF ex_new ex_policy_context ex_ref, of "''b''"] show ?thesis by simp
qed

text \<open>
  The tracking state is bounded: a window holds at most the configured number of
  credentials, and a class at most the configured number of organizations.
\<close>

theorem tracking_is_bounded:
  assumes "new_manager opts = Inr m" "policy (o_Policies opts) c = Inr q"
    and "window_ref (ls_manager (limits_run m ops)) c org = Some r"
  shows "map_len (w_credentials (window_at (ls_manager (limits_run m ops)) r))
      \<le> or_default 128 (o_MaxCredentialsPerOrganization opts)
    \<and> map_len (class_windows (ls_manager (limits_run m ops)) c') \<le> or_default 1024 (o_MaxTrackedOrganizations opts)"
proof -
  let ?M = "ls_manager (limits_run m ops)"
  note cfg = config_run [OF assms(1), of ops] new_manager_config [OF assms(1)]
  have "windows_inv capacity_bounded (limits_run m ops)"
    unfolding limits_run_def by (rule capacity.run_inv) (simp_all add: windows_inv_new [OF assms(1)])
  then have "map_len (w_credentials (window_at ?M r)) \<le> max 0 (m_max_credentials ?M)"
    using assms(2,3) cfg by (auto simp: windows_inv_def windows_all_def capacity_bounded_def manager_config_def)
  moreover have "limits_inv (limits_run m ops) \<and> orgs_bounded (limits_run m ops)"
    unfolding limits_run_def using assms(1) limits_inv_new [OF assms(1)]
    by (intro orgs.run_inv) (auto simp: orgs_bounded_def class_windows_def lookup_or_def map_len_def new_manager_def Let_def
        split: option.splits if_splits)
  then have "map_len (class_windows ?M c') \<le> max 0 (m_max_organizations ?M)"
    by (simp add: orgs_bounded_def)
  moreover have "0 \<le> or_default 1024 (o_MaxTrackedOrganizations opts)"
    using assms(1) by (auto simp: new_manager_def or_default_def split: option.splits if_splits)
  ultimately show ?thesis
    using cfg by (simp add: manager_config_def)
qed

theorem tracking_is_bounded_witness:
  "map_len (w_credentials (window_at (ls_manager (limits_run ex_manager ex_ops)) 0)) \<le> 2 \<and>
   map_len (class_windows (ls_manager (limits_run ex_manager ex_ops)) RequestClassContext) \<le> 2"
  using tracking_is_bounded [OF ex_new ex_policy_context ex_ref, of RequestClassContext]
  by (simp add: ex_options_def or_default_def)

text \<open>
  C25: when \<^verbatim>\<open>nextForget\<close> lets \<^verbatim>\<open>forgetIdle\<close> return without scanning, the scan would have
  dropped nothing: for every window of every reachable state and any clock, also one that
  moved back, the guarded and the unguarded pass leave the same credentials, quota counts
  and touch times.
\<close>

theorem forget_skip_is_sound:
  assumes "new_manager opts = Inr m" "policy (o_Policies opts) c = Inr q"
    and "window_ref (ls_manager (limits_run m ops)) c org = Some r" "0 \<le> now"
  shows "w_credentials (forget_idle (retention_of m q) now (window_at (ls_manager (limits_run m ops)) r))
      = w_credentials (forget_scan (retention_of m q) now (window_at (ls_manager (limits_run m ops)) r))
    \<and> w_quota_credential (forget_idle (retention_of m q) now (window_at (ls_manager (limits_run m ops)) r))
      = w_quota_credential (forget_scan (retention_of m q) now (window_at (ls_manager (limits_run m ops)) r))
    \<and> w_touched (forget_idle (retention_of m q) now (window_at (ls_manager (limits_run m ops)) r))
      = w_touched (forget_scan (retention_of m q) now (window_at (ls_manager (limits_run m ops)) r))"
proof -
  let ?M = "ls_manager (limits_run m ops)"
  note cfg = config_run [OF assms(1), of ops] new_manager_config [OF assms(1)]
  have "retention_of ?M q = retention_of m q" using cfg by (simp add: retention_of_def manager_config_def)
  moreover have "windows_inv scan_sound (limits_run m ops)"
    unfolding limits_run_def by (rule scan.run_inv) (simp_all add: windows_inv_new [OF assms(1)])
  ultimately have "scan_sound (m_max_credentials ?M) (retention_of m q) q (window_at ?M r)"
    using assms(2,3) cfg by (fastforce simp: windows_inv_def windows_all_def manager_config_def)
  then show ?thesis using assms(4) by (rule scan_sound_skips)
qed

text \<open>A third credential finds the organization full: the scan keeps the idle one and notes when it can go, which lets the next pass skip.\<close>

definition ex_full_ops :: "limits_op list" where
  "ex_full_ops = ex_ops @ [OpClaim False False (Hour + 4 * Second) (ex_subject ''c'') RequestClassContext]"

theorem forget_skip_is_sound_witness:
  "Hour + 5 * Second < w_next_forget (window_at (ls_manager (limits_run ex_manager ex_full_ops)) 0) \<and>
   w_touched (window_at (ls_manager (limits_run ex_manager ex_full_ops)) 0) = [(''a'', Hour + 3 * Second)] \<and>
   w_credentials (forget_idle (retention_of ex_manager ex_policy) (Hour + 5 * Second) (window_at (ls_manager (limits_run ex_manager ex_full_ops)) 0))
   = w_credentials (forget_scan (retention_of ex_manager ex_policy) (Hour + 5 * Second) (window_at (ls_manager (limits_run ex_manager ex_full_ops)) 0))"
proof -
  have "Hour + 5 * Second < w_next_forget (window_at (ls_manager (limits_run ex_manager ex_full_ops)) 0)" by code_simp
  moreover have "w_touched (window_at (ls_manager (limits_run ex_manager ex_full_ops)) 0) = [(''a'', Hour + 3 * Second)]" by code_simp
  moreover have "window_ref (ls_manager (limits_run ex_manager ex_full_ops)) RequestClassContext ''o'' = Some 0" by code_simp
  moreover have "0 \<le> Hour + 5 * Second" by (simp add: duration_simps)
  ultimately show ?thesis using forget_skip_is_sound [OF ex_new ex_policy_context] by blast
qed

text \<open>
  Forgetting idle credentials never returns quota: while a quota window is open, a
  pass of \<^verbatim>\<open>forgetIdle\<close> leaves every credential's quota count as it was, provided the clock
  of each operation is not before the start of a quota window it meets.
\<close>

theorem forgetting_keeps_quota:
  assumes "new_manager opts = Inr m" "policy (o_Policies opts) c = Inr q" "clocked m ops"
    and "window_ref (ls_manager (limits_run m ops)) c org = Some r"
    and "0 < Window q" "\<not> quota_expired (window_at (ls_manager (limits_run m ops)) r) q now"
  shows "lookup_or 0 (w_quota_credential (forget_idle (retention_of m q) now (window_at (ls_manager (limits_run m ops)) r))) key
    = lookup_or 0 (w_quota_credential (window_at (ls_manager (limits_run m ops)) r)) key"
proof -
  let ?M = "ls_manager (limits_run m ops)"
  note cfg = config_run [OF assms(1), of ops] new_manager_config [OF assms(1)]
  have "retention_of ?M q = retention_of m q" using cfg by (simp add: retention_of_def manager_config_def)
  moreover have "windows_inv quota_kept (limits_run m ops)"
    using assms(3) unfolding limits_run_def clocked_def
    by (intro kept.run_inv) (simp_all add: windows_inv_new [OF assms(1)])
  ultimately have "quota_kept (m_max_credentials ?M) (retention_of m q) q (window_at ?M r)"
    using assms(2,4) cfg by (fastforce simp: windows_inv_def windows_all_def manager_config_def)
  moreover have "Window q \<le> retention_of m q" by (simp add: retention_of_def)
  ultimately show ?thesis using assms(5,6) by (intro quota_kept_forget)
qed

theorem forgetting_keeps_quota_witness:
  "clocked ex_manager ex_ops \<and>
   lookup_or 0 (w_quota_credential (forget_idle (retention_of ex_manager ex_policy) (Hour + 30 * Second)
     (window_at (ls_manager (limits_run ex_manager ex_ops)) 0))) ''a'' = 1"
proof -
  have c: "clocked ex_manager ex_ops" by code_simp
  have q: "\<not> quota_expired (window_at (ls_manager (limits_run ex_manager ex_ops)) 0) ex_policy (Hour + 30 * Second)"
    by code_simp
  have w: "0 < Window ex_policy" by (simp add: ex_policy_def duration_simps)
  have "lookup_or 0 (w_quota_credential (window_at (ls_manager (limits_run ex_manager ex_ops)) 0)) ''a'' = 1"
    by code_simp
  with forgetting_keeps_quota [OF ex_new ex_policy_context c ex_ref w q, of "''a''"] c show ?thesis by simp
qed

text \<open>
  A denied request is told to retry after a positive time that does not exceed the
  configured maximum, whatever the reason of the denial, as long as no policy window is
  so long that rounding it up to seconds leaves the 64-bit range.
\<close>

theorem denials_say_when_to_retry:
  assumes "new_manager opts = Inr m" "clocked m (ops @ [OpClaim e1 e2 now subject c])"
    and "manager_claim e1 e2 now subject c (ls_manager (limits_run m ops)) = (Inr (None, d), m')"
    and "class_policy (o_Policies opts) c = Some q" "Window q + Second - 1 \<le> max_int64"
  shows "\<not> Allowed d \<and> Reason d \<noteq> DenialNone \<and> 0 < RetryAfter d \<and> RetryAfter d \<le> or_default Minute (o_MaxRetryAfter opts)"
proof -
  let ?M = "ls_manager (limits_run m ops)"
  have "ok_run f ok (xs @ [x]) s \<Longrightarrow> ok x (run_ops f xs s)" for f ok xs x s
    by (induction xs arbitrary: s) auto
  from this [OF assms(2) [unfolded clocked_def]] have tick: "ticks_at (\<lambda>now w. w_quota_started w \<le> now) now ?M"
    by (simp add: limits_run_def)
  have acc: "accounted ?M (ls_claims (limits_run m ops))"
    using limits_run_inv [OF assms(1), of ops] by (simp add: limits_inv_def)
  have cfg: "m_policies ?M = o_Policies opts" "0 < m_max_retry ?M" "0 < m_concurrency_retry ?M"
    "m_concurrency_retry ?M \<le> m_max_retry ?M" "m_max_retry ?M = m_max_retry m"
    using config_run [OF assms(1), of ops] new_manager_config [OF assms(1)] by (simp_all add: manager_config_def)
  have "m_max_retry m = or_default Minute (o_MaxRetryAfter opts)"
    using assms(1) by (auto simp: new_manager_def Let_def split: option.splits if_splits)
  with claim_denial_retry [OF acc assms(3) tick cfg(2-4)] assms(4,5) cfg show ?thesis by simp
qed

theorem denials_say_when_to_retry_witness:
  "let (res, m') = manager_claim False False (Hour + 2 * Second) (ex_subject ''a'') RequestClassContext
         (ls_manager (limits_run ex_manager (take 2 ex_ops)))
   in res = Inr (None, \<lparr>Allowed = False, Reason = DenialConcurrency, RetryAfter = 5 * Second\<rparr>)
     \<and> 5 * Second \<le> or_default Minute (o_MaxRetryAfter ex_options)"
proof -
  let ?x = "OpClaim False False (Hour + 2 * Second) (ex_subject ''a'') RequestClassContext"
  let ?r = "manager_claim False False (Hour + 2 * Second) (ex_subject ''a'') RequestClassContext
         (ls_manager (limits_run ex_manager (take 2 ex_ops)))"
  let ?d = "\<lparr>Allowed = False, Reason = DenialConcurrency, RetryAfter = 5 * Second\<rparr>"
  have c: "clocked ex_manager (take 2 ex_ops @ [?x])" by code_simp
  have "fst ?r = Inr (None, ?d)" by code_simp
  then have r: "?r = (Inr (None, ?d), snd ?r)" by (metis prod.collapse)
  have "class_policy (o_Policies ex_options) RequestClassContext = Some ex_policy"
    "Window ex_policy + Second - 1 \<le> max_int64" by code_simp+
  from denials_say_when_to_retry [OF ex_new c r this]
  have "5 * Second \<le> or_default Minute (o_MaxRetryAfter ex_options)" by simp
  with \<open>fst ?r = _\<close> show ?thesis by (simp add: Let_def case_prod_beta)
qed

text \<open>
  Completing a claim takes effect once. After one completion with a valid usage report
  any further completion returns the same result and changes neither the claim nor the
  manager, whatever usage, budget and clock it carries.
\<close>

theorem completion_is_idempotent:
  assumes "claim_complete u now cl m = (e, cl1, m1)" "\<not> usage_negative u"
    and "\<not> usage_negative u'" "budget_valid b"
  shows "claim_complete u' now' cl1 m2 = (e, cl1, m2) \<and>
    claim_complete_with_budget u' b now' cl1 m2 = (e, cl1, m2) \<and> done_claim now' cl1 m2 = (cl1, m2)"
  using assms
  by (auto simp: claim_complete_def claim_complete_with_budget_def done_claim_def complete_once_def usage_negative_def
      split: if_splits)

theorem completion_is_idempotent_witness:
  "let (e, cl1, m1) = claim_complete \<lparr>Items = 11, Tokens = 0, Bytes = 0\<rparr> (Hour + 3 * Second)
        (ls_claims (limits_run ex_manager ex_ops) ! 1) (ls_manager (limits_run ex_manager ex_ops))
   in e = Some ErrResourceBudgetExceeded \<and>
     claim_complete \<lparr>Items = 0, Tokens = 0, Bytes = 0\<rparr> (2 * Hour) cl1 m1 = (Some ErrResourceBudgetExceeded, cl1, m1)"
proof -
  let ?r = "claim_complete \<lparr>Items = 11, Tokens = 0, Bytes = 0\<rparr> (Hour + 3 * Second)
        (ls_claims (limits_run ex_manager ex_ops) ! 1) (ls_manager (limits_run ex_manager ex_ops))"
  obtain e cl1 m1 where r: "?r = (e, cl1, m1)" by (metis prod_cases3)
  have "fst ?r = Some ErrResourceBudgetExceeded" by code_simp
  with r have e: "e = Some ErrResourceBudgetExceeded" by simp
  have "\<not> usage_negative \<lparr>Items = 11, Tokens = 0, Bytes = 0\<rparr>" "\<not> usage_negative \<lparr>Items = 0, Tokens = 0, Bytes = 0\<rparr>"
    "budget_valid \<lparr>MaxItems = 0, MaxTokens = 0, MaxBytes = 0\<rparr>"
    by (simp_all add: usage_negative_def budget_valid_def)
  from completion_is_idempotent [OF r this, of "2 * Hour" m1] e r show ?thesis by simp
qed

end
