(* ===== verification/Attempt_Limiter.thy ===== *)
theory Attempt_Limiter
  imports Go_Prelude
begin

text \<open>
  \<^verbatim>\<open>src/internal/auth/limiter.go\<close>: the limiter of authentication attempts per address. It
  keeps two fixed-window tables (attempts and failures) and a table of undecided attempts.
  An admitted attempt gets a release function that takes effect once; \<open>limiter_sys\<close> is the
  limiter with every attempt it admitted, so the interleaving of concurrent requests is a
  list of operations.
\<close>

section \<open>Definitions\<close>

datatype attempt_refusal =
    RefusalNone | RefusalFailureBudget | RefusalInFlight | RefusalTrackedKeys
  | RefusalUnspecified | RefusalVerificationSlot

definition OverBudgetVerificationSlots :: int where "OverBudgetVerificationSlots = 1"

record attempt_decision =
  ad_Refusal :: attempt_refusal
  ad_InFlight :: int
  ad_FirstRefusal :: bool
  ad_OverBudget :: bool

definition Admitted :: "attempt_decision \<Rightarrow> bool" where
  "Admitted d \<longleftrightarrow> ad_Refusal d = RefusalNone"

record fixed_window =
  fw_Started :: time
  fw_Count :: int
  fw_RefusalLogged :: bool

definition fresh_window :: "time \<Rightarrow> fixed_window" where
  "fresh_window now = \<lparr>fw_Started = now, fw_Count = 0, fw_RefusalLogged = False\<rparr>"

record memory_limiter =
  al_Window :: duration
  al_AttemptLimit :: int
  al_FailureLimit :: int
  al_maxKeys :: int
  al_maxInflight :: int
  al_attempts :: "(string, fixed_window) gomap"
  al_failures :: "(string, fixed_window) gomap"
  al_inflight :: "(string, int) gomap"

record memory_limiter_options =
  mo_Window :: duration
  mo_AttemptLimit :: int
  mo_FailureLimit :: int
  mo_MaxTrackedKeys :: int
  mo_MaxInFlight :: int

definition DefaultMaxInFlight :: int where "DefaultMaxInFlight = 64"

definition NewBoundedMemoryLimiter :: "memory_limiter_options \<Rightarrow> memory_limiter" where
  "NewBoundedMemoryLimiter opts =
    \<lparr>al_Window = mo_Window opts, al_AttemptLimit = mo_AttemptLimit opts, al_FailureLimit = mo_FailureLimit opts,
     al_maxKeys = (if mo_MaxTrackedKeys opts < 1 then 1 else mo_MaxTrackedKeys opts),
     al_maxInflight = (if mo_MaxInFlight opts < 1 then DefaultMaxInFlight else mo_MaxInFlight opts),
     al_attempts = [], al_failures = [], al_inflight = []\<rparr>"

definition NewMemoryLimiter :: "duration \<Rightarrow> int \<Rightarrow> int \<Rightarrow> memory_limiter" where
  "NewMemoryLimiter window attemptLimit failureLimit =
    NewBoundedMemoryLimiter \<lparr>mo_Window = window, mo_AttemptLimit = attemptLimit, mo_FailureLimit = failureLimit,
      mo_MaxTrackedKeys = 4096, mo_MaxInFlight = 0\<rparr>"

definition inflight_at :: "memory_limiter \<Rightarrow> string \<Rightarrow> int" where
  "inflight_at l key = lookup_or 0 (al_inflight l) key"

text \<open>\<^verbatim>\<open>current\<close> and \<^verbatim>\<open>window\<close>: purge the table, then find or start the window of the key.\<close>

definition current_window :: "memory_limiter \<Rightarrow> fixed_window \<Rightarrow> time \<Rightarrow> fixed_window" where
  "current_window l w now =
    (if al_Window l \<le> 0 \<or> IsZero (fw_Started w) \<or> \<not> now < fw_Started w + al_Window l
     then fresh_window now else w)"

definition purge :: "memory_limiter \<Rightarrow> time \<Rightarrow> (string, fixed_window) gomap \<Rightarrow> (string, fixed_window) gomap" where
  "purge l now ws = filter (\<lambda>(k, w). now < fw_Started w + al_Window l) ws"

definition limiter_window ::
  "memory_limiter \<Rightarrow> (string, fixed_window) gomap \<Rightarrow> string \<Rightarrow> time \<Rightarrow> (string, fixed_window) gomap \<times> fixed_window option" where
  "limiter_window l ws key now =
    (let ws' = purge l now ws
     in (ws', case map_of ws' key of
           Some w \<Rightarrow> Some (current_window l w now)
         | None \<Rightarrow> if map_len ws' \<ge> al_maxKeys l \<and> inflight_at l key = 0 then None else Some (fresh_window now)))"

definition AllowAttempt :: "string \<Rightarrow> time \<Rightarrow> memory_limiter \<Rightarrow> bool \<times> memory_limiter" where
  "AllowAttempt key now l =
    (case limiter_window l (al_attempts l) key now of
       (ws, None) \<Rightarrow> (False, l\<lparr>al_attempts := ws\<rparr>)
     | (ws, Some w) \<Rightarrow>
         if al_AttemptLimit l > 0 \<and> fw_Count w \<ge> al_AttemptLimit l then (False, l\<lparr>al_attempts := put key w ws\<rparr>)
         else (True, l\<lparr>al_attempts := put key (w\<lparr>fw_Count := fw_Count w + 1\<rparr>) ws\<rparr>))"

definition over_budget :: "memory_limiter \<Rightarrow> fixed_window \<Rightarrow> bool" where
  "over_budget l w \<longleftrightarrow> al_FailureLimit l > 0 \<and> fw_Count w \<ge> al_FailureLimit l"

definition FailureBlocked :: "string \<Rightarrow> time \<Rightarrow> memory_limiter \<Rightarrow> bool \<times> memory_limiter" where
  "FailureBlocked key now l =
    (case limiter_window l (al_failures l) key now of
       (ws, None) \<Rightarrow> (True, l\<lparr>al_failures := ws\<rparr>)
     | (ws, Some w) \<Rightarrow> (over_budget l w, l\<lparr>al_failures := put key w ws\<rparr>))"

definition begin_attempt :: "string \<Rightarrow> time \<Rightarrow> bool \<Rightarrow> memory_limiter \<Rightarrow> attempt_decision \<times> memory_limiter" where
  "begin_attempt key now verification l =
    (case limiter_window l (al_failures l) key now of
       (ws, None) \<Rightarrow>
         (\<lparr>ad_Refusal = RefusalTrackedKeys, ad_InFlight = inflight_at l key, ad_FirstRefusal = True, ad_OverBudget = False\<rparr>,
          l\<lparr>al_failures := ws\<rparr>)
     | (ws, Some w) \<Rightarrow>
         let over = over_budget l w;
             current = inflight_at l key;
             logged = l\<lparr>al_failures := put key (w\<lparr>fw_RefusalLogged := True\<rparr>) ws\<rparr>;
             kept = l\<lparr>al_failures := put key w ws\<rparr>
         in if over \<and> \<not> verification
            then (\<lparr>ad_Refusal = RefusalFailureBudget, ad_InFlight = current,
                   ad_FirstRefusal = \<not> fw_RefusalLogged w, ad_OverBudget = False\<rparr>, logged)
            else if over \<and> current \<ge> OverBudgetVerificationSlots
            then (\<lparr>ad_Refusal = RefusalVerificationSlot, ad_InFlight = current,
                   ad_FirstRefusal = \<not> fw_RefusalLogged w, ad_OverBudget = False\<rparr>, logged)
            else if current \<ge> al_maxInflight l
            then (\<lparr>ad_Refusal = RefusalInFlight, ad_InFlight = current, ad_FirstRefusal = True, ad_OverBudget = False\<rparr>, kept)
            else if \<not> has_key (al_inflight l) key \<and> map_len (al_inflight l) \<ge> al_maxKeys l
            then (\<lparr>ad_Refusal = RefusalTrackedKeys, ad_InFlight = current, ad_FirstRefusal = True, ad_OverBudget = False\<rparr>, kept)
            else (\<lparr>ad_Refusal = RefusalNone, ad_InFlight = current + 1, ad_FirstRefusal = False, ad_OverBudget = over\<rparr>,
                  kept\<lparr>al_inflight := put key (current + 1) (al_inflight l)\<rparr>))"

definition release_attempt :: "string \<Rightarrow> memory_limiter \<Rightarrow> memory_limiter" where
  "release_attempt key l = l\<lparr>al_inflight := decrement key (al_inflight l)\<rparr>"

definition limiter_RecordRejection ::
  "string \<Rightarrow> time \<Rightarrow> bool \<Rightarrow> memory_limiter \<Rightarrow> (bool \<times> bool) \<times> memory_limiter" where
  "limiter_RecordRejection key now admittedOverBudget l =
    (case limiter_window l (al_failures l) key now of
       (ws, None) \<Rightarrow> ((True, True), l\<lparr>al_failures := ws\<rparr>)
     | (ws, Some w) \<Rightarrow>
         let over = admittedOverBudget \<or> over_budget l w;
             w1 = (if over then w\<lparr>fw_RefusalLogged := True\<rparr> else w)
         in ((over, over \<and> \<not> fw_RefusalLogged w),
             l\<lparr>al_failures := put key (w1\<lparr>fw_Count := fw_Count w1 + 1\<rparr>) ws\<rparr>))"

definition limiter_RecordFailure :: "string \<Rightarrow> time \<Rightarrow> memory_limiter \<Rightarrow> memory_limiter" where
  "limiter_RecordFailure key now l =
    (case limiter_window l (al_failures l) key now of
       (ws, None) \<Rightarrow> l\<lparr>al_failures := ws\<rparr>
     | (ws, Some w) \<Rightarrow> l\<lparr>al_failures := put key (w\<lparr>fw_Count := fw_Count w + 1\<rparr>) ws\<rparr>)"

definition remaining :: "memory_limiter \<Rightarrow> (string, fixed_window) gomap \<Rightarrow> string \<Rightarrow> time \<Rightarrow> duration" where
  "remaining l ws key now =
    (case map_of ws key of None \<Rightarrow> 0 | Some w \<Rightarrow> max 0 (time_sub (fw_Started w + al_Window l) now))"

definition limiter_RetryAfter :: "string \<Rightarrow> time \<Rightarrow> memory_limiter \<Rightarrow> duration" where
  "limiter_RetryAfter key now l =
    (let retryAfter = max (remaining l (al_attempts l) key now) (remaining l (al_failures l) key now)
     in if retryAfter \<le> 0 \<and> (map_len (al_attempts l) \<ge> al_maxKeys l \<or> map_len (al_failures l) \<ge> al_maxKeys l)
        then al_Window l else retryAfter)"

section \<open>The limiter and its attempts as one machine\<close>

record attempt =
  at_key :: string
  at_over :: bool  \<comment> \<open>admitted over the failure budget\<close>
  at_released :: bool  \<comment> \<open>the release function has run\<close>
  at_recorded :: bool  \<comment> \<open>its failure has been recorded\<close>

record limiter_sys =
  sys_limiter :: memory_limiter
  sys_attempts :: "attempt list"

datatype limiter_op =
    OpAllow string time
  | OpBlocked string time
  | OpBegin string time bool
  | OpRelease nat
  | OpFail nat time
  | OpReject nat time

definition with_attempt :: "nat \<Rightarrow> (attempt \<Rightarrow> limiter_sys \<Rightarrow> limiter_sys) \<Rightarrow> limiter_sys \<Rightarrow> limiter_sys" where
  "with_attempt i f s = (if i < length (sys_attempts s) then f (sys_attempts s ! i) s else s)"

fun limiter_step :: "limiter_op \<Rightarrow> limiter_sys \<Rightarrow> limiter_sys" where
  "limiter_step (OpAllow key now) s = s\<lparr>sys_limiter := snd (AllowAttempt key now (sys_limiter s))\<rparr>"
| "limiter_step (OpBlocked key now) s = s\<lparr>sys_limiter := snd (FailureBlocked key now (sys_limiter s))\<rparr>"
| "limiter_step (OpBegin key now verification) s =
    (case begin_attempt key now verification (sys_limiter s) of
       (d, l) \<Rightarrow> \<lparr>sys_limiter = l, sys_attempts = sys_attempts s @
         (if Admitted d then [\<lparr>at_key = key, at_over = ad_OverBudget d, at_released = False, at_recorded = False\<rparr>] else [])\<rparr>)"
| "limiter_step (OpRelease i) s =
    with_attempt i (\<lambda>a s. if at_released a then s
      else \<lparr>sys_limiter = release_attempt (at_key a) (sys_limiter s),
            sys_attempts = (sys_attempts s)[i := a\<lparr>at_released := True\<rparr>]\<rparr>) s"
| "limiter_step (OpFail i now) s =
    with_attempt i (\<lambda>a s. \<lparr>sys_limiter = limiter_RecordFailure (at_key a) now (sys_limiter s),
      sys_attempts = (sys_attempts s)[i := a\<lparr>at_recorded := True\<rparr>]\<rparr>) s"
| "limiter_step (OpReject i now) s =
    with_attempt i (\<lambda>a s. \<lparr>sys_limiter = snd (limiter_RecordRejection (at_key a) now (at_over a) (sys_limiter s)),
      sys_attempts = (sys_attempts s)[i := a\<lparr>at_recorded := True\<rparr>]\<rparr>) s"

section \<open>Limiters behind the interface\<close>

text \<open>
  The two implementations of \<^verbatim>\<open>AttemptLimiter\<close>. \<^verbatim>\<open>NoopLimiter\<close> is neither a
  \<^verbatim>\<open>DecisionLimiter\<close> nor a \<^verbatim>\<open>VerificationLimiter\<close>.
\<close>

datatype attempt_limiter = NoopLimiter | Memory memory_limiter

definition BeginAttemptDecision :: "attempt_limiter \<Rightarrow> string \<Rightarrow> time \<Rightarrow> attempt_decision \<times> attempt_limiter" where
  "BeginAttemptDecision l key now =
    (case l of
       Memory m \<Rightarrow> (case begin_attempt key now False m of (d, m') \<Rightarrow> (d, Memory m'))
     | NoopLimiter \<Rightarrow>
         (\<lparr>ad_Refusal = RefusalNone, ad_InFlight = 0, ad_FirstRefusal = False, ad_OverBudget = False\<rparr>, NoopLimiter))"

definition BeginVerificationDecision :: "attempt_limiter \<Rightarrow> string \<Rightarrow> time \<Rightarrow> attempt_decision \<times> attempt_limiter" where
  "BeginVerificationDecision l key now =
    (case l of
       Memory m \<Rightarrow> (case begin_attempt key now True m of (d, m') \<Rightarrow> (d, Memory m'))
     | NoopLimiter \<Rightarrow> BeginAttemptDecision NoopLimiter key now)"

definition RecordRejection :: "attempt_limiter \<Rightarrow> string \<Rightarrow> time \<Rightarrow> bool \<Rightarrow> (bool \<times> bool) \<times> attempt_limiter" where
  "RecordRejection l key now admittedOverBudget =
    (case l of
       Memory m \<Rightarrow> (case limiter_RecordRejection key now admittedOverBudget m of (r, m') \<Rightarrow> (r, Memory m'))
     | NoopLimiter \<Rightarrow> ((False, False), NoopLimiter))"

end
