(* ===== verification/Attempt_Limiter_Facts.thy ===== *)
theory Attempt_Limiter_Facts
  imports Attempt_Limiter
begin

text \<open>
  Facts about the attempt limiter. Two invariants of the machine \<open>limiter_step\<close>: the table
  of undecided attempts counts exactly the attempts that are not released and stays within
  its bounds (with it the failure table), and, for callers that record at most one failure
  per attempt and begin no over-budget verification, the failures of an address overshoot
  the limit by less than the in-flight cap.
\<close>

section \<open>Counting attempts\<close>

definition attempts_where :: "(attempt \<Rightarrow> bool) \<Rightarrow> string \<Rightarrow> attempt list \<Rightarrow> int" where
  "attempts_where P key as = int (length (filter (\<lambda>a. at_key a = key \<and> P a) as))"

abbreviation undecided :: "string \<Rightarrow> attempt list \<Rightarrow> int" where
  "undecided \<equiv> attempts_where (\<lambda>a. \<not> at_released a)"

abbreviation failed_over :: "string \<Rightarrow> attempt list \<Rightarrow> int" where
  "failed_over \<equiv> attempts_where (\<lambda>a. at_over a \<and> at_recorded a)"

abbreviation undecided_over :: "string \<Rightarrow> attempt list \<Rightarrow> int" where
  "undecided_over \<equiv> attempts_where (\<lambda>a. at_over a \<and> \<not> at_released a)"

lemma attempts_where_simps [simp]:
  "attempts_where P key [] = 0"
  "attempts_where P key (a # as) = (if at_key a = key \<and> P a then 1 else 0) + attempts_where P key as"
  "attempts_where P key (as @ bs) = attempts_where P key as + attempts_where P key bs"
  "0 \<le> attempts_where P key as"
  by (simp_all add: attempts_where_def)

lemma attempts_where_update:
  "i < length as \<Longrightarrow> attempts_where P key (as[i := a]) = attempts_where P key as
     - (if at_key (as ! i) = key \<and> P (as ! i) then 1 else 0) + (if at_key a = key \<and> P a then 1 else 0)"
proof (induction as arbitrary: i)
  case (Cons b as)
  then show ?case by (cases i) auto
qed simp

lemma attempts_where_mono:
  "(\<And>a. P a \<Longrightarrow> Q a) \<Longrightarrow> attempts_where P key as \<le> attempts_where Q key as"
  by (induction as) auto

lemma attempts_where_pos: "i < length as \<Longrightarrow> P (as ! i) \<Longrightarrow> 0 < attempts_where P (at_key (as ! i)) as"
  using attempts_where_update [of i as P "at_key (as ! i)" "(as ! i)\<lparr>at_key := at_key (as ! i) @ ''x''\<rparr>"]
    attempts_where_simps(4) [of P "at_key (as ! i)" "as[i := (as ! i)\<lparr>at_key := at_key (as ! i) @ ''x''\<rparr>]"]
  by (simp del: attempts_where_simps(4))

section \<open>The window lookup\<close>

definition count_at :: "(string, fixed_window) gomap \<Rightarrow> string \<Rightarrow> int" where
  "count_at ws key = (case map_of ws key of None \<Rightarrow> 0 | Some w \<Rightarrow> fw_Count w)"

definition keys_of :: "('k, 'v) gomap \<Rightarrow> 'k set" where
  "keys_of m = fst ` set m"

lemma keys_of_put [simp]: "keys_of (put k v m) = insert k (keys_of m)"
  by (simp add: keys_of_def dom_update)

lemma finite_keys_of [simp]: "finite (keys_of m)"
  by (simp add: keys_of_def)

lemma card_keys_of: "wf_map m \<Longrightarrow> int (card (keys_of m)) = map_len m"
  by (simp add: keys_of_def wf_map_def map_len_def distinct_card flip: set_map)

lemma has_key_keys_of: "has_key m k \<longleftrightarrow> k \<in> keys_of m"
  by (simp add: has_key_iff keys_of_def)

lemma purge_keys: "keys_of (purge l now ws) \<subseteq> keys_of ws"
  by (auto simp: purge_def keys_of_def)

lemma purge_Some: "wf_map ws \<Longrightarrow> map_of (purge l now ws) k = Some w \<Longrightarrow> map_of ws k = Some w"
  by (auto simp: purge_def map_of_filter split: option.splits if_splits)

lemma limiter_window_cases:
  assumes "limiter_window l ws key now = (ws', wo)" "wf_map ws"
  obtains (full) "ws' = purge l now ws" "wo = None" "key \<notin> keys_of ws'" "map_len ws' \<ge> al_maxKeys l" "inflight_at l key = 0"
  | (found) w where "ws' = purge l now ws" "map_of ws key = Some w" "wo = Some (current_window l w now)" "key \<in> keys_of ws'"
  | (started) "ws' = purge l now ws" "wo = Some (fresh_window now)" "key \<notin> keys_of ws'"
      "map_len ws' < al_maxKeys l \<or> inflight_at l key \<noteq> 0"
  using assms purge_Some [OF assms(2)]
  by (auto simp: limiter_window_def Let_def keys_of_def map_of_eq_None_iff split: option.splits if_splits
      dest: map_of_SomeD)
    (metis fst_conv image_eqI map_of_SomeD)+

lemma limiter_window_count:
  assumes "limiter_window l ws key now = (ws', Some w)" "wf_map ws"
  shows "fw_Count w = 0 \<or> fw_Count w = count_at ws key"
  using assms
  by (cases rule: limiter_window_cases) (auto simp: current_window_def fresh_window_def count_at_def)

lemma count_purge: "wf_map ws \<Longrightarrow> count_at (purge l now ws) k = 0 \<or> count_at (purge l now ws) k = count_at ws k"
  by (auto simp: count_at_def purge_def map_of_filter split: option.splits)

section \<open>The bounds of the tables\<close>

definition inflight_inv :: "memory_limiter \<Rightarrow> attempt list \<Rightarrow> bool" where
  "inflight_inv l as \<longleftrightarrow> wf_map (al_inflight l) \<and>
     (\<forall>k. inflight_at l k = undecided k as) \<and>
     (\<forall>k. has_key (al_inflight l) k \<longleftrightarrow> 0 < inflight_at l k) \<and>
     map_len (al_inflight l) \<le> al_maxKeys l \<and> (\<forall>k. undecided k as \<le> al_maxInflight l)"

definition table_bounded :: "memory_limiter \<Rightarrow> (string, fixed_window) gomap \<Rightarrow> bool" where
  "table_bounded l ws \<longleftrightarrow> wf_map ws \<and> int (card (keys_of ws \<union> keys_of (al_inflight l))) \<le> 2 * al_maxKeys l"

definition limiter_inv :: "limiter_sys \<Rightarrow> bool" where
  "limiter_inv s \<longleftrightarrow> inflight_inv (sys_limiter s) (sys_attempts s) \<and>
     table_bounded (sys_limiter s) (al_failures (sys_limiter s))"

lemma table_bounded_mono:
  assumes "table_bounded l ws" "wf_map ws'" "keys_of ws' \<subseteq> keys_of ws" "keys_of (al_inflight l') \<subseteq> keys_of (al_inflight l)"
    and "al_maxKeys l' = al_maxKeys l"
  shows "table_bounded l' ws'"
proof -
  have "card (keys_of ws' \<union> keys_of (al_inflight l')) \<le> card (keys_of ws \<union> keys_of (al_inflight l))"
    using assms(3,4) by (intro card_mono) auto
  with assms(1,2,5) show ?thesis by (simp add: table_bounded_def)
qed

lemma table_bounded_window:
  assumes tb: "table_bounded l ws" and lw: "limiter_window l ws key now = (ws', wo)" and inf: "inflight_inv l as"
  shows "table_bounded l ws' \<and> (wo \<noteq> None \<longrightarrow> table_bounded l (put key v ws'))"
proof -
  have wf: "wf_map ws" using tb by (simp add: table_bounded_def)
  from lw have ws': "ws' = purge l now ws" by (auto simp: limiter_window_def Let_def)
  have t': "table_bounded l ws'"
    using tb purge_keys [of l now ws] wf unfolding ws'
    by (auto intro!: table_bounded_mono [OF tb] simp: purge_def)
  from lw wf have "table_bounded l (put key v ws')" if "wo \<noteq> None"
  proof (cases rule: limiter_window_cases)
    case full
    with that show ?thesis by simp
  next
    case (found w)
    with t' show ?thesis by (simp add: table_bounded_def insert_absorb)
  next
    case started
    show ?thesis
    proof (cases "inflight_at l key = 0")
      case False
      then have "key \<in> keys_of (al_inflight l)"
        using inf attempts_where_simps(4) [of "\<lambda>a. \<not> at_released a" key as]
        by (auto simp: inflight_inv_def order_less_le simp flip: has_key_keys_of)
      with t' show ?thesis by (simp add: table_bounded_def insert_absorb)
    next
      case True
      with started have "map_len ws' < al_maxKeys l" by simp
      moreover have "card (keys_of ws' \<union> keys_of (al_inflight l)) \<le> card (keys_of ws') + card (keys_of (al_inflight l))"
        by (rule card_Un_le)
      moreover have "int (card (keys_of ws')) = map_len ws'" "int (card (keys_of (al_inflight l))) \<le> al_maxKeys l"
        using t' inf by (auto simp: card_keys_of table_bounded_def inflight_inv_def)
      moreover have "card (insert key (keys_of ws' \<union> keys_of (al_inflight l))) \<le> Suc (card (keys_of ws' \<union> keys_of (al_inflight l)))"
        by (rule card_insert_le_m1) auto
      ultimately show ?thesis using t' by (simp add: table_bounded_def)
    qed
  qed
  with t' show ?thesis by blast
qed

lemma inflight_inv_frame [simp]:
  "inflight_inv (l\<lparr>al_failures := x\<rparr>) as = inflight_inv l as"
  "inflight_inv (l\<lparr>al_attempts := x\<rparr>) as = inflight_inv l as"
  "table_bounded (l\<lparr>al_failures := x\<rparr>) ws = table_bounded l ws"
  "table_bounded (l\<lparr>al_attempts := x\<rparr>) ws = table_bounded l ws"
  by (simp_all add: inflight_inv_def inflight_at_def table_bounded_def)

text \<open>What each operation does to the failure table: purge it, or purge it and write the key's window.\<close>

definition failures_step :: "string \<Rightarrow> memory_limiter \<Rightarrow> memory_limiter \<Rightarrow> bool" where
  "failures_step key l l' \<longleftrightarrow> (\<exists>ws wo now v. limiter_window l (al_failures l) key now = (ws, wo) \<and>
     (l' = l\<lparr>al_failures := ws\<rparr> \<or> (wo \<noteq> None \<and> l' = l\<lparr>al_failures := put key v ws\<rparr>)))"

lemma failures_step_bounded:
  "failures_step key l l' \<Longrightarrow> inflight_inv l as \<Longrightarrow> table_bounded l (al_failures l) \<Longrightarrow>
    inflight_inv l' as \<and> table_bounded l' (al_failures l')"
  by (auto simp: failures_step_def dest: table_bounded_window)

lemma failures_step_purge:
  "limiter_window l (al_failures l) key now = (ws, wo) \<Longrightarrow> failures_step key l (l\<lparr>al_failures := ws\<rparr>)"
  by (auto simp: failures_step_def)

lemma failures_step_put:
  "limiter_window l (al_failures l) key now = (ws, Some w) \<Longrightarrow> failures_step key l (l\<lparr>al_failures := put key v ws\<rparr>)"
  unfolding failures_step_def by blast

lemma failures_steps:
  "failures_step key l (snd (FailureBlocked key now l))"
  "failures_step key l (limiter_RecordFailure key now l)"
  "failures_step key l (snd (limiter_RecordRejection key now b l))"
  "\<not> Admitted (fst (begin_attempt key now v l)) \<Longrightarrow> failures_step key l (snd (begin_attempt key now v l))"
proof -
  obtain ws wo where lw: "limiter_window l (al_failures l) key now = (ws, wo)" by (metis surj_pair)
  note purged = failures_step_purge [OF lw]
  show "failures_step key l (snd (FailureBlocked key now l))"
    "failures_step key l (limiter_RecordFailure key now l)"
    "failures_step key l (snd (limiter_RecordRejection key now b l))"
    using purged failures_step_put lw
    by (cases wo; simp add: FailureBlocked_def limiter_RecordFailure_def limiter_RecordRejection_def Let_def)+
  show "failures_step key l (snd (begin_attempt key now v l))" if "\<not> Admitted (fst (begin_attempt key now v l))"
    using purged failures_step_put lw that
    by (cases wo) (auto simp: begin_attempt_def Let_def Admitted_def)
qed

lemma begin_admitted:
  assumes "begin_attempt key now v l = (d, l')" "Admitted d"
  obtains ws w l1 where "limiter_window l (al_failures l) key now = (ws, Some w)"
    "l1 = l\<lparr>al_failures := put key w ws\<rparr>" "l' = l1\<lparr>al_inflight := put key (inflight_at l key + 1) (al_inflight l)\<rparr>"
    "ad_OverBudget d = over_budget l w" "over_budget l w \<longrightarrow> v \<and> inflight_at l key < 1"
    "inflight_at l key < al_maxInflight l" "has_key (al_inflight l) key \<or> map_len (al_inflight l) < al_maxKeys l"
    "ad_InFlight d = inflight_at l key + 1"
  using assms
  by (auto simp: begin_attempt_def Let_def Admitted_def OverBudgetVerificationSlots_def
      split: prod.splits option.splits if_splits)

lemma inflight_inv_begin:
  assumes "inflight_inv l as" "inflight_at l key < al_maxInflight l"
    and "has_key (al_inflight l) key \<or> map_len (al_inflight l) < al_maxKeys l"
    and "at_key a = key" "\<not> at_released a"
  shows "inflight_inv (l\<lparr>al_inflight := put key (inflight_at l key + 1) (al_inflight l)\<rparr>) (as @ [a])"
proof -
  have nn: "0 \<le> inflight_at l k" for k
    using assms(1) by (simp add: inflight_inv_def)
  have at: "inflight_at (l\<lparr>al_inflight := put key (inflight_at l key + 1) (al_inflight l)\<rparr>) k
      = (if k = key then inflight_at l key + 1 else inflight_at l k)" for k
    by (simp add: inflight_at_def map_simps)
  show ?thesis
    using assms nn [of key] unfolding inflight_inv_def at by (auto simp: map_simps map_len_put)
qed

lemma inflight_inv_release:
  assumes "inflight_inv l as" "i < length as" "\<not> at_released (as ! i)"
  shows "inflight_inv (release_attempt (at_key (as ! i)) l) (as[i := (as ! i)\<lparr>at_released := True\<rparr>])"
proof -
  let ?k = "at_key (as ! i)"
  have "1 \<le> undecided ?k as"
    using attempts_where_pos [of i as "\<lambda>a. \<not> at_released a"] assms(2,3) by simp
  then have pos: "1 \<le> lookup_or 0 (al_inflight l) ?k" "0 \<le> lookup_or 0 (al_inflight l) k" for k
    using assms(1) by (auto simp: inflight_inv_def inflight_at_def)
  have keys: "has_key (decrement ?k (al_inflight l)) k \<longleftrightarrow> 0 < lookup_or 0 (decrement ?k (al_inflight l)) k" for k
    using assms(1) pos unfolding inflight_inv_def inflight_at_def decrement_def by (auto simp: map_simps)
  have "undecided ?k as \<le> al_maxInflight l"
    using assms(1) by (simp add: inflight_inv_def)
  then have "undecided ?k as - 1 \<le> al_maxInflight l" by simp
  then show ?thesis
    using assms pos keys map_len_decrement [of ?k "al_inflight l"]
    unfolding inflight_inv_def release_attempt_def inflight_at_def
    by (auto simp: lookup_decrement attempts_where_update intro: order_trans)
qed

lemma limiter_inv_recorded:
  "inflight_inv l as \<Longrightarrow> i < length as \<Longrightarrow> inflight_inv l (as[i := (as ! i)\<lparr>at_recorded := True\<rparr>])"
  by (simp add: inflight_inv_def attempts_where_update)

interpretation limiter: invariant_machine limiter_step "\<lambda>_ _. True" limiter_inv
proof
  fix s x
  assume inv: "limiter_inv s"
  let ?l = "sys_limiter s" and ?as = "sys_attempts s"
  have parts: "inflight_inv ?l ?as" "table_bounded ?l (al_failures ?l)"
    using inv by (auto simp: limiter_inv_def)
  note fs = failures_step_bounded [OF _ parts]
  show "limiter_inv (limiter_step x s)"
  proof (cases x)
    case (OpAllow key now)
    have "inflight_inv (snd (AllowAttempt key now ?l)) ?as \<and> table_bounded (snd (AllowAttempt key now ?l)) (al_failures ?l)
       \<and> al_failures (snd (AllowAttempt key now ?l)) = al_failures ?l"
      using parts by (auto simp: AllowAttempt_def split: prod.splits option.splits)
    with OpAllow show ?thesis by (simp add: limiter_inv_def)
  next
    case (OpBlocked key now)
    with fs [OF failures_steps(1)] show ?thesis by (simp add: limiter_inv_def)
  next
    case (OpBegin key now v)
    obtain d l' where b: "begin_attempt key now v ?l = (d, l')" by (cases "begin_attempt key now v ?l")
    show ?thesis
    proof (cases "Admitted d")
      case False
      with fs [OF failures_steps(4), of key now v] b OpBegin show ?thesis by (simp add: limiter_inv_def)
    next
      case True
      with b obtain ws w l1 where *: "limiter_window ?l (al_failures ?l) key now = (ws, Some w)"
        "l1 = ?l\<lparr>al_failures := put key w ws\<rparr>" "l' = l1\<lparr>al_inflight := put key (inflight_at ?l key + 1) (al_inflight ?l)\<rparr>"
        "inflight_at ?l key < al_maxInflight ?l" "has_key (al_inflight ?l) key \<or> map_len (al_inflight ?l) < al_maxKeys ?l"
        by (rule begin_admitted)
      then have "table_bounded l1 (al_failures l1)"
        using table_bounded_window [OF parts(2) *(1) parts(1)] by simp
      then have "table_bounded l' (al_failures l')"
        using * by (simp add: table_bounded_def insert_absorb)
      moreover have "inflight_inv l' (?as @ [\<lparr>at_key = key, at_over = ad_OverBudget d, at_released = False, at_recorded = False\<rparr>])"
        using inflight_inv_begin [of l1 ?as key] parts * by (simp add: inflight_at_def)
      ultimately show ?thesis using OpBegin b True by (simp add: limiter_inv_def)
    qed
  next
    case (OpRelease i)
    have "table_bounded (release_attempt key ?l) (al_failures ?l)" for key
      using parts(2) by (rule table_bounded_mono)
        (use parts in \<open>auto simp: table_bounded_def release_attempt_def simp flip: has_key_keys_of dest: has_key_decrement\<close>)
    moreover have "al_failures (release_attempt key ?l) = al_failures ?l" for key
      by (simp add: release_attempt_def)
    ultimately show ?thesis
      using OpRelease parts inv by (auto simp: limiter_inv_def with_attempt_def inflight_inv_release)
  next
    case (OpFail i now)
    with fs [OF failures_steps(2)] inv show ?thesis
      by (auto simp: limiter_inv_def with_attempt_def limiter_inv_recorded)
  next
    case (OpReject i now)
    with fs [OF failures_steps(3)] inv show ?thesis
      by (auto simp: limiter_inv_def with_attempt_def limiter_inv_recorded)
  qed
qed

section \<open>The overshoot of the failure limit\<close>

text \<open>
  The callers' side of the bound: a failure is recorded only for an attempt that is
  undecided, once. Any attempt may begin, verifications over the failure budget included.
\<close>

fun guarded :: "limiter_op \<Rightarrow> limiter_sys \<Rightarrow> bool" where
  "guarded (OpFail i now) s = (i < length (sys_attempts s) \<and> \<not> at_released (sys_attempts s ! i) \<and> \<not> at_recorded (sys_attempts s ! i))"
| "guarded (OpReject i now) s = (i < length (sys_attempts s) \<and> \<not> at_released (sys_attempts s ! i) \<and> \<not> at_recorded (sys_attempts s ! i))"
| "guarded _ s = True"

text \<open>
  What the attempts of an address may still add to its count: each attempt admitted within
  the budget and not yet recorded one failure, less the failures of verifications admitted
  over the budget, which the bound allows for on top.
\<close>

definition pending :: "string \<Rightarrow> attempt list \<Rightarrow> int" where
  "pending key as = attempts_where (\<lambda>a. \<not> at_released a \<and> \<not> at_recorded a \<and> \<not> at_over a) key as - failed_over key as"

definition overshoot_bounded :: "memory_limiter \<Rightarrow> attempt list \<Rightarrow> bool" where
  "overshoot_bounded l as \<longleftrightarrow> al_FailureLimit l > 0 \<longrightarrow>
     (\<forall>k. count_at (al_failures l) k + pending k as \<le> al_FailureLimit l + al_maxInflight l - 1)"

lemma pending_undecided: "pending k as \<le> undecided k as"
proof -
  have "attempts_where (\<lambda>a. \<not> at_released a \<and> \<not> at_recorded a \<and> \<not> at_over a) k as \<le> undecided k as"
    by (rule attempts_where_mono) simp
  moreover have "0 \<le> failed_over k as" by simp
  ultimately show ?thesis unfolding pending_def by linarith
qed

lemma pending_simps [simp]:
  "pending k [] = 0"
  "pending k (as @ [a]) = pending k as + (if at_key a = k then (if at_over a then (if at_recorded a then - 1 else 0)
     else if \<not> at_released a \<and> \<not> at_recorded a then 1 else 0) else 0)"
  by (auto simp: pending_def)

lemma pending_le:
  assumes "inflight_inv l as"
  shows "pending k as \<le> al_maxInflight l"
proof -
  have "pending k as \<le> undecided k as" by (rule pending_undecided)
  also have "\<dots> \<le> al_maxInflight l" using assms by (simp add: inflight_inv_def)
  finally show ?thesis .
qed

text \<open>Writing a window whose count is that of the looked-up window plus \<open>n\<close>.\<close>

lemma overshoot_put:
  assumes "overshoot_bounded l as" "inflight_inv l as" "wf_map (al_failures l)"
    and "limiter_window l (al_failures l) key now = (ws, Some w)" "fw_Count v \<le> fw_Count w + n"
    and "\<And>k. pending k as' \<le> pending k as - (if k = key then n else 0)"
  shows "overshoot_bounded (l\<lparr>al_failures := put key v ws\<rparr>) as'"
  unfolding overshoot_bounded_def
proof (intro impI allI)
  fix k
  assume fl: "al_FailureLimit (l\<lparr>al_failures := put key v ws\<rparr>) > 0"
  have ws: "ws = purge l now (al_failures l)"
    using assms(4) by (auto simp: limiter_window_def Let_def)
  have "count_at (al_failures l) k + pending k as \<le> al_FailureLimit l + al_maxInflight l - 1"
    using assms(1) fl by (simp add: overshoot_bounded_def)
  moreover have "pending k as \<le> al_FailureLimit l + al_maxInflight l - 1"
    using pending_le [OF assms(2), of k] fl by simp
  moreover have "count_at (put key v ws) k = (if k = key then fw_Count v else count_at ws k)"
    by (simp add: count_at_def map_simps)
  moreover note limiter_window_count [OF assms(4,3)] count_purge [OF assms(3), of l now k] assms(5) assms(6) [of k] ws
  ultimately show "count_at (al_failures (l\<lparr>al_failures := put key v ws\<rparr>)) k + pending k as'
     \<le> al_FailureLimit (l\<lparr>al_failures := put key v ws\<rparr>) + al_maxInflight (l\<lparr>al_failures := put key v ws\<rparr>) - 1"
    by (auto split: if_splits)
qed

lemma overshoot_purge:
  assumes "overshoot_bounded l as" "inflight_inv l as" "wf_map (al_failures l)"
    and "\<And>k. pending k as' \<le> pending k as"
  shows "overshoot_bounded (l\<lparr>al_failures := purge l now (al_failures l)\<rparr>) as'"
  unfolding overshoot_bounded_def
proof (intro impI allI)
  fix k
  assume fl: "al_FailureLimit (l\<lparr>al_failures := purge l now (al_failures l)\<rparr>) > 0"
  have "count_at (al_failures l) k + pending k as \<le> al_FailureLimit l + al_maxInflight l - 1"
    using assms(1) fl by (simp add: overshoot_bounded_def)
  with pending_le [OF assms(2), of k] fl count_purge [OF assms(3), of l now k] assms(4) [of k]
  show "count_at (al_failures (l\<lparr>al_failures := purge l now (al_failures l)\<rparr>)) k + pending k as'
     \<le> al_FailureLimit (l\<lparr>al_failures := purge l now (al_failures l)\<rparr>)
       + al_maxInflight (l\<lparr>al_failures := purge l now (al_failures l)\<rparr>) - 1"
    by auto
qed

text \<open>A lookup of the failure table and what an operation does with its result keep the bound.\<close>

lemma overshoot_lookup:
  assumes "overshoot_bounded l as" "inflight_inv l as" "wf_map (al_failures l)"
    and "limiter_window l (al_failures l) key now = (ws, wo)"
    and "wo = None \<Longrightarrow> l' = l\<lparr>al_failures := ws\<rparr>"
    and "\<And>w. wo = Some w \<Longrightarrow> \<exists>v. l' = l\<lparr>al_failures := put key v ws\<rparr> \<and> fw_Count v \<le> fw_Count w + n"
    and "\<And>k. pending k as' \<le> pending k as - (if k = key then n else 0)" "0 \<le> n"
  shows "overshoot_bounded l' as'"
proof (cases wo)
  case None
  have "ws = purge l now (al_failures l)" using assms(4) by (auto simp: limiter_window_def Let_def)
  moreover have "pending k as' \<le> pending k as" for k
    using assms(7) [of k] assms(8) by (simp split: if_splits)
  ultimately show ?thesis
    using None assms(5) overshoot_purge [OF assms(1-3)] by auto
next
  case (Some w)
  with assms(4,6) obtain v where "l' = l\<lparr>al_failures := put key v ws\<rparr>" "fw_Count v \<le> fw_Count w + n"
    "limiter_window l (al_failures l) key now = (ws, Some w)" by auto
  with overshoot_put [OF assms(1-3) _ _ assms(7)] show ?thesis by blast
qed

lemma overshoot_frame [simp]:
  "overshoot_bounded (l\<lparr>al_attempts := x\<rparr>) as = overshoot_bounded l as"
  "overshoot_bounded (l\<lparr>al_inflight := y\<rparr>) as = overshoot_bounded l as"
  by (simp_all add: overshoot_bounded_def)

lemma overshoot_mono:
  assumes "overshoot_bounded l as" "\<And>k. pending k as' \<le> pending k as"
  shows "overshoot_bounded l as'"
  unfolding overshoot_bounded_def
proof (intro impI allI)
  fix k
  assume "al_FailureLimit l > 0"
  with assms(1) have "count_at (al_failures l) k + pending k as \<le> al_FailureLimit l + al_maxInflight l - 1"
    by (simp add: overshoot_bounded_def)
  with assms(2) [of k] show "count_at (al_failures l) k + pending k as' \<le> al_FailureLimit l + al_maxInflight l - 1"
    by simp
qed

lemma overshoot_begin:
  assumes "overshoot_bounded l as" "inflight_inv l as" "wf_map (al_failures l)" "begin_attempt key now v l = (d, l')"
  defines "a \<equiv> \<lparr>at_key = key, at_over = ad_OverBudget d, at_released = False, at_recorded = False\<rparr>"
  shows "overshoot_bounded l' (as @ (if Admitted d then [a] else []))"
proof (cases "Admitted d")
  case True
  with assms(4) obtain ws w l1 where *: "limiter_window l (al_failures l) key now = (ws, Some w)"
    "l1 = l\<lparr>al_failures := put key w ws\<rparr>" "l' = l1\<lparr>al_inflight := put key (inflight_at l key + 1) (al_inflight l)\<rparr>"
    "ad_OverBudget d = over_budget l w" "inflight_at l key < al_maxInflight l"
    by (rule begin_admitted) auto
  have b: "overshoot_bounded l1 as"
    unfolding *(2) by (rule overshoot_put [OF assms(1-3) *(1), where n = 0]) simp_all
  have "pending key as + 1 \<le> al_maxInflight l"
    using pending_undecided [of key as] *(5) assms(2) by (simp add: inflight_inv_def)
  then have "al_FailureLimit l > 0 \<Longrightarrow> \<not> over_budget l w \<Longrightarrow> fw_Count w + (pending key as + 1) \<le> al_FailureLimit l + al_maxInflight l - 1"
    by (simp add: over_budget_def)
  moreover have "al_FailureLimit l > 0 \<Longrightarrow> count_at (put key w ws) k + pending k as \<le> al_FailureLimit l + al_maxInflight l - 1" for k
    using b by (simp add: *(2) overshoot_bounded_def)
  moreover have "count_at (put key w ws) key = fw_Count w" by (simp add: count_at_def map_simps)
  ultimately have "overshoot_bounded l1 (as @ [a])"
    by (auto simp: overshoot_bounded_def *(2) *(4) a_def)
  with True *(3) show ?thesis by simp
next
  case False
  obtain ws wo where lw: "limiter_window l (al_failures l) key now = (ws, wo)" by (metis surj_pair)
  have "overshoot_bounded l' as"
    by (rule overshoot_lookup [OF assms(1-3) lw, where n = 0])
      (use lw False assms(4) in \<open>auto simp: begin_attempt_def Let_def Admitted_def split: if_splits\<close>)
  with False show ?thesis by simp
qed

lemma overshoot_recorded:
  assumes "i < length as" "\<not> at_released (as ! i)" "\<not> at_recorded (as ! i)"
  shows "pending k (as[i := (as ! i)\<lparr>at_recorded := True\<rparr>]) \<le> pending k as - (if k = at_key (as ! i) then 1 else 0)"
  using assms by (simp add: pending_def attempts_where_update)

lemma overshoot_fail:
  assumes "overshoot_bounded l as" "inflight_inv l as" "wf_map (al_failures l)"
    and "i < length as" "\<not> at_released (as ! i)" "\<not> at_recorded (as ! i)"
  shows "overshoot_bounded (limiter_RecordFailure (at_key (as ! i)) now l) (as[i := (as ! i)\<lparr>at_recorded := True\<rparr>])"
    and "overshoot_bounded (snd (limiter_RecordRejection (at_key (as ! i)) now b l)) (as[i := (as ! i)\<lparr>at_recorded := True\<rparr>])"
proof -
  obtain ws wo where lw: "limiter_window l (al_failures l) (at_key (as ! i)) now = (ws, wo)" by (metis surj_pair)
  note step = overshoot_lookup [OF assms(1-3) lw _ _ overshoot_recorded [OF assms(4-6)]]
  show "overshoot_bounded (limiter_RecordFailure (at_key (as ! i)) now l) (as[i := (as ! i)\<lparr>at_recorded := True\<rparr>])"
    by (rule step) (use lw in \<open>auto simp: limiter_RecordFailure_def\<close>)
  show "overshoot_bounded (snd (limiter_RecordRejection (at_key (as ! i)) now b l)) (as[i := (as ! i)\<lparr>at_recorded := True\<rparr>])"
    by (rule step) (use lw in \<open>auto simp: limiter_RecordRejection_def Let_def\<close>)
qed

interpretation overshoot: invariant_machine limiter_step guarded
  "\<lambda>s. limiter_inv s \<and> overshoot_bounded (sys_limiter s) (sys_attempts s)"
proof
  fix s x
  assume inv: "limiter_inv s \<and> overshoot_bounded (sys_limiter s) (sys_attempts s)" and g: "guarded x s"
  let ?l = "sys_limiter s" and ?as = "sys_attempts s"
  have parts: "overshoot_bounded ?l ?as" "inflight_inv ?l ?as" "wf_map (al_failures ?l)"
    using inv by (auto simp: limiter_inv_def table_bounded_def)
  have "overshoot_bounded (sys_limiter (limiter_step x s)) (sys_attempts (limiter_step x s))"
  proof (cases x)
    case (OpAllow key now)
    with parts show ?thesis by (auto simp: AllowAttempt_def split: prod.splits option.splits)
  next
    case (OpBlocked key now)
    obtain ws wo where lw: "limiter_window ?l (al_failures ?l) key now = (ws, wo)" by (metis surj_pair)
    have "overshoot_bounded (snd (FailureBlocked key now ?l)) ?as"
      by (rule overshoot_lookup [OF parts lw, where n = 0]) (use lw in \<open>auto simp: FailureBlocked_def\<close>)
    with OpBlocked show ?thesis by simp
  next
    case (OpBegin key now v)
    obtain d l' where b: "begin_attempt key now v ?l = (d, l')" by (cases "begin_attempt key now v ?l")
    with overshoot_begin [OF parts b] OpBegin g show ?thesis by simp
  next
    case (OpRelease i)
    have "pending k (?as[i := (?as ! i)\<lparr>at_released := True\<rparr>]) \<le> pending k ?as" if "i < length ?as" for k
      using that by (simp add: pending_def attempts_where_update)
    with overshoot_mono [OF parts(1)]
    have "i < length ?as \<Longrightarrow> overshoot_bounded (release_attempt key ?l) (?as[i := (?as ! i)\<lparr>at_released := True\<rparr>])" for key
      by (simp add: release_attempt_def)
    with OpRelease parts(1) show ?thesis by (auto simp: with_attempt_def)
  next
    case (OpFail i now)
    with overshoot_fail(1) [OF parts] g show ?thesis by (simp add: with_attempt_def)
  next
    case (OpReject i now)
    with overshoot_fail(2) [OF parts] g show ?thesis by (simp add: with_attempt_def)
  qed
  with inv limiter.step_inv
  show "limiter_inv (limiter_step x s) \<and> overshoot_bounded (sys_limiter (limiter_step x s)) (sys_attempts (limiter_step x s))"
    by auto
qed

text \<open>
  A verification is admitted over the budget only when its address has no undecided attempt,
  so an address never has two of them at once.
\<close>

definition over_alone :: "attempt list \<Rightarrow> bool" where
  "over_alone as \<longleftrightarrow> (\<forall>k. undecided_over k as \<le> 1)"

lemma over_alone_update:
  assumes "over_alone as" "i < length as" "at_key a = at_key (as ! i)" "at_over a = at_over (as ! i)" "at_released (as ! i) \<longrightarrow> at_released a"
  shows "over_alone (as[i := a])"
  unfolding over_alone_def
proof
  fix k
  have "undecided_over k as \<le> 1" using assms(1) by (simp add: over_alone_def)
  then show "undecided_over k (as[i := a]) \<le> 1" using assms(2-) by (auto simp: attempts_where_update)
qed

lemma over_alone_begin:
  assumes "over_alone as" "inflight_inv l as" "begin_attempt key now v l = (d, l')" "Admitted d"
  shows "over_alone (as @ [\<lparr>at_key = key, at_over = ad_OverBudget d, at_released = False, at_recorded = False\<rparr>])"
  unfolding over_alone_def
proof
  fix k
  have "undecided_over k as \<le> undecided k as" by (rule attempts_where_mono) simp
  moreover have "ad_OverBudget d \<Longrightarrow> undecided key as < 1"
    using assms(2-4) by (elim begin_admitted) (auto simp: inflight_inv_def)
  moreover have "undecided_over k as \<le> 1" using assms(1) by (simp add: over_alone_def)
  ultimately show "undecided_over k (as @ [\<lparr>at_key = key, at_over = ad_OverBudget d, at_released = False, at_recorded = False\<rparr>]) \<le> 1"
    by auto
qed

interpretation alone: invariant_machine limiter_step "\<lambda>x s. True" "\<lambda>s. limiter_inv s \<and> over_alone (sys_attempts s)"
proof
  fix s x
  assume inv: "limiter_inv s \<and> over_alone (sys_attempts s)"
  then have parts: "over_alone (sys_attempts s)" "inflight_inv (sys_limiter s) (sys_attempts s)" by (auto simp: limiter_inv_def)
  have "over_alone (sys_attempts (limiter_step x s))"
  proof (cases x)
    case (OpBegin key now v)
    obtain d l' where b: "begin_attempt key now v (sys_limiter s) = (d, l')" by (metis surj_pair)
    with over_alone_begin [OF parts b] parts(1) OpBegin show ?thesis by simp
  qed (use parts(1) in \<open>auto simp: with_attempt_def intro: over_alone_update\<close>)
  with inv limiter.step_inv show "limiter_inv (limiter_step x s) \<and> over_alone (sys_attempts (limiter_step x s))" by auto
qed

text \<open>Only verifications are admitted over the budget.\<close>

fun is_verification :: "string \<Rightarrow> limiter_op \<Rightarrow> bool" where
  "is_verification key (OpBegin k now v) = (k = key \<and> v)"
| "is_verification key _ = False"

definition verifications :: "string \<Rightarrow> limiter_op list \<Rightarrow> int" where
  "verifications key ops = int (length (filter (is_verification key) ops))"

lemma over_step:
  "attempts_where at_over k (sys_attempts (limiter_step x s)) \<le> attempts_where at_over k (sys_attempts s) + (if is_verification k x then 1 else 0)"
proof (cases x)
  case (OpBegin key now v)
  obtain d l where b: "begin_attempt key now v (sys_limiter s) = (d, l)" by (metis surj_pair)
  have "Admitted d \<Longrightarrow> ad_OverBudget d \<Longrightarrow> v" using b by (elim begin_admitted) auto
  with b OpBegin show ?thesis by auto
qed (auto simp: with_attempt_def attempts_where_update)

lemma over_verified:
  "attempts_where at_over k (sys_attempts (run_ops limiter_step ops s)) \<le> attempts_where at_over k (sys_attempts s) + verifications k ops"
proof (induction ops arbitrary: s)
  case (Cons x ops)
  from Cons.IH [of "limiter_step x s"] over_step [of k x s] show ?case by (simp add: verifications_def split: if_splits)
qed (simp add: verifications_def)

end
