(* ===== verification/Attempt_Limiter_Properties.thy ===== *)
theory Attempt_Limiter_Properties
  imports Attempt_Limiter_Facts
begin

text \<open>
  The properties of the attempt limiter, over every interleaving of the operations of
  concurrent requests on a limiter \<^verbatim>\<open>NewBoundedMemoryLimiter\<close> made.
\<close>

definition limiter_run :: "memory_limiter_options \<Rightarrow> limiter_op list \<Rightarrow> limiter_sys" where
  "limiter_run opts ops = run_ops limiter_step ops \<lparr>sys_limiter = NewBoundedMemoryLimiter opts, sys_attempts = []\<rparr>"

definition limiter_config :: "memory_limiter \<Rightarrow> duration \<times> int \<times> int \<times> int" where
  "limiter_config l = (al_Window l, al_FailureLimit l, al_maxKeys l, al_maxInflight l)"

lemma limiter_config_ops [simp]:
  "limiter_config (snd (AllowAttempt key now l)) = limiter_config l"
  "limiter_config (snd (FailureBlocked key now l)) = limiter_config l"
  "limiter_config (snd (begin_attempt key now v l)) = limiter_config l"
  "limiter_config (limiter_RecordFailure key now l) = limiter_config l"
  "limiter_config (snd (limiter_RecordRejection key now b l)) = limiter_config l"
  "limiter_config (release_attempt key l) = limiter_config l"
  by (auto simp: limiter_config_def AllowAttempt_def FailureBlocked_def begin_attempt_def limiter_RecordFailure_def
      limiter_RecordRejection_def release_attempt_def Let_def split: prod.splits option.splits)

lemma limiter_config_step: "limiter_config (sys_limiter (limiter_step x s)) = limiter_config (sys_limiter s)"
proof (cases x)
  case (OpBegin key now v)
  then show ?thesis
    using limiter_config_ops(3) [of key now v "sys_limiter s"]
    by (cases "begin_attempt key now v (sys_limiter s)") simp
qed (auto simp: with_attempt_def)

lemma limiter_inv_new: "limiter_inv \<lparr>sys_limiter = NewBoundedMemoryLimiter opts, sys_attempts = []\<rparr>"
  by (simp add: limiter_inv_def inflight_inv_def table_bounded_def NewBoundedMemoryLimiter_def inflight_at_def
      lookup_or_def has_key_def map_len_def keys_of_def DefaultMaxInFlight_def)

lemma limiter_run_config: "limiter_config (sys_limiter (limiter_run opts ops)) = limiter_config (NewBoundedMemoryLimiter opts)"
  unfolding limiter_run_def
  by (rule limiter.run_stable [where P = "\<lambda>s. limiter_config (sys_limiter s) = limiter_config (NewBoundedMemoryLimiter opts)"])
    (simp_all add: limiter_config_step limiter_inv_new)

lemma limiter_run_inv: "limiter_inv (limiter_run opts ops)"
  unfolding limiter_run_def by (rule limiter.run_inv) (simp_all add: limiter_inv_new)

definition ex_limiter :: memory_limiter_options where
  "ex_limiter = \<lparr>mo_Window = Minute, mo_AttemptLimit = 0, mo_FailureLimit = 2, mo_MaxTrackedKeys = 1, mo_MaxInFlight = 2\<rparr>"

text \<open>
  The table of undecided attempts counts exactly the admitted attempts whose release
  has not run, never more than the in-flight cap per address nor more addresses than the
  tracked-key bound, and the failure table never holds more than twice that bound.
\<close>

theorem limiter_tables_bounded:
  "inflight_at (sys_limiter (limiter_run opts ops)) key = undecided key (sys_attempts (limiter_run opts ops))
    \<and> undecided key (sys_attempts (limiter_run opts ops)) \<le> al_maxInflight (NewBoundedMemoryLimiter opts)
    \<and> map_len (al_inflight (sys_limiter (limiter_run opts ops))) \<le> al_maxKeys (NewBoundedMemoryLimiter opts)
    \<and> map_len (al_failures (sys_limiter (limiter_run opts ops))) \<le> 2 * al_maxKeys (NewBoundedMemoryLimiter opts)"
proof -
  let ?l = "sys_limiter (limiter_run opts ops)"
  have cfg: "al_maxKeys ?l = al_maxKeys (NewBoundedMemoryLimiter opts)"
    "al_maxInflight ?l = al_maxInflight (NewBoundedMemoryLimiter opts)"
    using limiter_run_config [of opts ops] by (auto simp: limiter_config_def)
  have inv: "inflight_inv ?l (sys_attempts (limiter_run opts ops))" "table_bounded ?l (al_failures ?l)"
    using limiter_run_inv [of opts ops] by (auto simp: limiter_inv_def)
  have "card (keys_of (al_failures ?l)) \<le> card (keys_of (al_failures ?l) \<union> keys_of (al_inflight ?l))"
    by (intro card_mono) auto
  with inv(2) have "map_len (al_failures ?l) \<le> 2 * al_maxKeys ?l"
    by (simp add: table_bounded_def flip: card_keys_of)
  with inv(1) show ?thesis by (simp add: inflight_inv_def flip: cfg)
qed

text \<open>
  C32: concurrent guesses overshoot the failure limit of an address by less than the
  in-flight cap, but for the failures of attempts that were admitted over the budget. Those
  are verifications, no more than were begun from the address, and an address has at most
  one of them undecided at any time. This holds in every
  run of plain attempts and verifications in which each attempt records at most one failure,
  while it is undecided, as every caller does.
\<close>

theorem failure_overshoot_bounded:
  assumes "ok_run limiter_step guarded ops \<lparr>sys_limiter = NewBoundedMemoryLimiter opts, sys_attempts = []\<rparr>"
    and "mo_FailureLimit opts > 0" "mo_MaxInFlight opts \<ge> 1"
  shows "count_at (al_failures (sys_limiter (limiter_run opts ops))) key
      < mo_FailureLimit opts + mo_MaxInFlight opts + failed_over key (sys_attempts (limiter_run opts ops))
    \<and> failed_over key (sys_attempts (limiter_run opts ops)) \<le> verifications key ops
    \<and> undecided_over key (sys_attempts (limiter_run opts ops)) \<le> 1"
proof -
  let ?s = "limiter_run opts ops"
  have "overshoot_bounded (NewBoundedMemoryLimiter opts) []"
    by (auto simp: overshoot_bounded_def NewBoundedMemoryLimiter_def count_at_def DefaultMaxInFlight_def)
  then have "limiter_inv ?s \<and> overshoot_bounded (sys_limiter ?s) (sys_attempts ?s)"
    unfolding limiter_run_def using assms(1) by (intro overshoot.run_inv) (auto simp: limiter_inv_new)
  moreover have "al_FailureLimit (sys_limiter ?s) = mo_FailureLimit opts" "al_maxInflight (sys_limiter ?s) = mo_MaxInFlight opts"
    using limiter_run_config [of opts ops] assms(3) by (auto simp: limiter_config_def NewBoundedMemoryLimiter_def)
  ultimately have "count_at (al_failures (sys_limiter ?s)) key + pending key (sys_attempts ?s)
      \<le> mo_FailureLimit opts + mo_MaxInFlight opts - 1"
    using assms(2) by (simp add: overshoot_bounded_def)
  moreover have "- failed_over key (sys_attempts ?s) \<le> pending key (sys_attempts ?s)" by (simp add: pending_def)
  moreover have "limiter_inv ?s \<and> over_alone (sys_attempts ?s)"
    unfolding limiter_run_def by (rule alone.run_inv) (simp_all add: limiter_inv_new over_alone_def)
  then have "undecided_over key (sys_attempts ?s) \<le> 1" by (simp add: over_alone_def)
  moreover have "failed_over key (sys_attempts ?s) \<le> attempts_where at_over key (sys_attempts ?s)" by (rule attempts_where_mono) simp
  moreover have "attempts_where at_over key (sys_attempts ?s) \<le> verifications key ops"
    unfolding limiter_run_def using over_verified [of key ops] by (metis add_0 attempts_where_simps(1) limiter_sys.select_convs(2))
  ultimately show ?thesis by linarith
qed

definition ex_guesses :: "limiter_op list" where
  "ex_guesses = [OpBegin ''a'' Hour False, OpFail 0 Hour, OpRelease 0, OpBegin ''a'' Hour False,
     OpBegin ''a'' Hour False, OpFail 1 Hour, OpFail 2 Hour, OpRelease 1, OpRelease 2, OpBegin ''a'' Hour False]"

definition ex_over_guesses :: "limiter_op list" where
  "ex_over_guesses = ex_guesses @ [OpBegin ''a'' Hour True, OpReject 3 Hour, OpRelease 3, OpBegin ''a'' Hour True, OpBegin ''a'' Hour True]"

theorem failure_overshoot_bounded_witness:
  "count_at (al_failures (sys_limiter (limiter_run ex_limiter ex_over_guesses))) ''a'' = 4 \<and>
   count_at (al_failures (sys_limiter (limiter_run ex_limiter ex_over_guesses))) ''a'' < 4 + 1 \<and> 1 \<le> verifications ''a'' ex_over_guesses \<and>
   undecided_over ''a'' (sys_attempts (limiter_run ex_limiter ex_over_guesses)) \<le> 1"
proof -
  have "ok_run limiter_step guarded ex_over_guesses \<lparr>sys_limiter = NewBoundedMemoryLimiter ex_limiter, sys_attempts = []\<rparr>"
    by code_simp
  moreover have "mo_FailureLimit ex_limiter = 2" "mo_MaxInFlight ex_limiter = 2" by (simp_all add: ex_limiter_def)
  moreover have "count_at (al_failures (sys_limiter (limiter_run ex_limiter ex_over_guesses))) ''a'' = 4" by code_simp
  moreover have "failed_over ''a'' (sys_attempts (limiter_run ex_limiter ex_over_guesses)) = 1" by code_simp
  ultimately show ?thesis
    using failure_overshoot_bounded [of ex_over_guesses ex_limiter "''a''"] by simp
qed

text \<open>
  An attempt admitted over the failure budget is the only undecided attempt of its
  address: right after the admission the address has exactly one, whatever ran before.
\<close>

theorem over_budget_slot_is_exclusive:
  assumes "begin_attempt key now v (sys_limiter (limiter_run opts ops)) = (d, l)" "Admitted d" "ad_OverBudget d"
  shows "v \<and> ad_InFlight d = 1 \<and> undecided key (sys_attempts (limiter_run opts (ops @ [OpBegin key now v]))) = 1"
proof -
  let ?s = "limiter_run opts ops"
  from assms(1,2) obtain w where "ad_OverBudget d = over_budget (sys_limiter ?s) w"
    "over_budget (sys_limiter ?s) w \<longrightarrow> v \<and> inflight_at (sys_limiter ?s) key < 1"
    "ad_InFlight d = inflight_at (sys_limiter ?s) key + 1"
    by (rule begin_admitted)
  moreover have "inflight_at (sys_limiter ?s) key = undecided key (sys_attempts ?s)"
    using limiter_run_inv [of opts ops] by (simp add: limiter_inv_def inflight_inv_def)
  moreover have "0 \<le> undecided key (sys_attempts ?s)" by simp
  moreover have "sys_attempts (limiter_run opts (ops @ [OpBegin key now v])) = sys_attempts ?s @
      [\<lparr>at_key = key, at_over = ad_OverBudget d, at_released = False, at_recorded = False\<rparr>]"
    using assms(1,2) by (simp add: limiter_run_def run_ops_append)
  ultimately show ?thesis
    using assms(3) by (smt (verit, best) attempts_where_simps(1-3) attempt.select_convs(1,3))
qed

theorem over_budget_slot_is_exclusive_witness:
  "undecided ''a'' (sys_attempts (limiter_run ex_limiter (ex_guesses @ [OpBegin ''a'' Hour True]))) = 1"
proof -
  let ?r = "begin_attempt ''a'' Hour True (sys_limiter (limiter_run ex_limiter ex_guesses))"
  obtain d l where r: "?r = (d, l)" by (cases ?r)
  have "Admitted (fst ?r)" "ad_OverBudget (fst ?r)" by code_simp+
  with over_budget_slot_is_exclusive [OF r] r show ?thesis by simp
qed

text \<open>
  The retry time clears the failure budget: an attempt that waits for what
  \<^verbatim>\<open>RetryAfter\<close> said is not refused for the failure budget, whatever the table holds.
\<close>

theorem retry_after_clears_budget:
  assumes "wf_map (al_failures l)" "0 < al_Window l"
    and "\<And>w. map_of (al_failures l) key = Some w \<Longrightarrow> fw_Started w + al_Window l - now \<le> max_int64"
    and "now + limiter_RetryAfter key now l \<le> later"
  shows "ad_Refusal (fst (begin_attempt key later v l)) \<notin> {RefusalFailureBudget, RefusalVerificationSlot}"
proof -
  obtain ws wo where lw: "limiter_window l (al_failures l) key later = (ws, wo)" by (metis surj_pair)
  have no: "\<not> over_budget l w" if "wo = Some w" for w
  proof -
    have "key \<notin> keys_of (purge l later (al_failures l))"
    proof
      assume "key \<in> keys_of (purge l later (al_failures l))"
      then obtain u where "(key, u) \<in> set (al_failures l)" and alive: "later < fw_Started u + al_Window l"
        by (auto simp: keys_of_def purge_def)
      with assms(1) have u: "map_of (al_failures l) key = Some u" by (simp add: wf_map_mem)
      with assms(3) have "fw_Started u + al_Window l - now \<le> remaining l (al_failures l) key now"
        by (auto simp: remaining_def time_sub_def max_def min_def)
      moreover have "remaining l (al_failures l) key now \<le> limiter_RetryAfter key now l"
        using assms(2) by (auto simp: limiter_RetryAfter_def Let_def)
      ultimately show False using alive assms(4) by simp
    qed
    with lw that have "w = fresh_window later"
      by (auto simp: limiter_window_def Let_def keys_of_def split: option.splits if_splits)
        (metis fst_conv image_eqI map_of_SomeD)
    then show ?thesis by (auto simp: over_budget_def fresh_window_def)
  qed
  with lw show ?thesis
    by (cases wo) (auto simp: begin_attempt_def Let_def)
qed

theorem retry_after_clears_budget_witness:
  "let l = sys_limiter (limiter_run ex_limiter ex_guesses)
   in limiter_RetryAfter ''a'' (Hour + Second) l = 59 * Second \<and>
      ad_Refusal (fst (begin_attempt ''a'' (Hour + Second) False l)) = RefusalFailureBudget \<and>
      ad_Refusal (fst (begin_attempt ''a'' (Hour + 60 * Second) False l)) \<noteq> RefusalFailureBudget"
proof -
  let ?l = "sys_limiter (limiter_run ex_limiter ex_guesses)"
  have f: "al_failures ?l = [(''a'', \<lparr>fw_Started = Hour, fw_Count = 3, fw_RefusalLogged = True\<rparr>)]" by code_simp
  have w: "al_Window ?l = Minute" by code_simp
  have r: "limiter_RetryAfter ''a'' (Hour + Second) ?l = 59 * Second" by code_simp
  have "ad_Refusal (fst (begin_attempt ''a'' (Hour + Second) False ?l)) = RefusalFailureBudget" by code_simp
  moreover have "ad_Refusal (fst (begin_attempt ''a'' (Hour + 60 * Second) False ?l)) \<notin> {RefusalFailureBudget, RefusalVerificationSlot}"
    by (rule retry_after_clears_budget [where now = "Hour + Second"])
      (simp_all only: r, simp_all add: f w duration_simps max_int64_def)
  ultimately show ?thesis using r by (simp add: Let_def)
qed

text \<open>
  The attempt table is not bounded like the failure table. Three addresses can be in it
  with a tracked-key bound of one, although \<^verbatim>\<open>window\<close> says the map holds at most twice the
  bound: an address may enter while it has an undecided attempt and stay after the attempt
  is decided, and the next address with an undecided attempt enters too.
\<close>

theorem attempt_table_exceeds_twice_the_bound:
  "al_maxKeys (sys_limiter (limiter_run ex_limiter
     [OpBegin ''a'' Hour False, OpAllow ''k'' (Hour + Second), OpAllow ''a'' (Hour + 2 * Second), OpRelease 0,
      OpBegin ''c'' (Hour + Minute) False, OpAllow ''c'' (Hour + Minute)])) = 1
   \<and> map_len (al_attempts (sys_limiter (limiter_run ex_limiter
     [OpBegin ''a'' Hour False, OpAllow ''k'' (Hour + Second), OpAllow ''a'' (Hour + 2 * Second), OpRelease 0,
      OpBegin ''c'' (Hour + Minute) False, OpAllow ''c'' (Hour + Minute)]))) = 3"
  by code_simp

end
