(* ===== verification/Go_Calendar.thy ===== *)
theory Go_Calendar
  imports Go_Prelude
begin

text \<open>
  The proleptic Gregorian calendar of Go's \<^verbatim>\<open>time\<close> package, as far as the usage months of
  \<^verbatim>\<open>src/internal/contextfabric/submission_limits.go\<close> need it: the first day of the month of an
  instant, and the first day of the next month. Days are counted from 1 January of year 1.
\<close>

section \<open>Years\<close>

definition Day :: duration where "Day = 24 * Hour"

lemma Day_pos: "0 < Day"
  by (simp add: Day_def duration_simps)

definition is_leap :: "int \<Rightarrow> bool" where
  "is_leap y \<longleftrightarrow> y mod 4 = 0 \<and> (y mod 100 \<noteq> 0 \<or> y mod 400 = 0)"

definition year_length :: "int \<Rightarrow> int" where
  "year_length y = (if is_leap y then 366 else 365)"

definition days_before_year :: "int \<Rightarrow> int" where
  "days_before_year y = 365 * (y - 1) + (y - 1) div 4 - (y - 1) div 100 + (y - 1) div 400"

definition year_of_day :: "int \<Rightarrow> int" where
  "year_of_day d =
    (let y = 400 * d div 146097 + 1
     in if d < days_before_year y then y - 1 else if days_before_year (y + 1) \<le> d then y + 1 else y)"

lemma div_Suc: "0 < k \<Longrightarrow> (n :: int) div k = (n - 1) div k + (if n mod k = 0 then 1 else 0)"
proof -
  assume k: "0 < k"
  show ?thesis
  proof (cases "n mod k = 0")
    case True
    then obtain q where q: "n = k * q" by (auto simp: mod_eq_0_iff_dvd)
    have "(k * q - 1) div k = q - 1"
      using k by (intro int_div_pos_eq [of _ _ _ "k - 1"]) (simp_all add: algebra_simps)
    with q k show ?thesis by simp
  next
    case False
    let ?q = "n div k" and ?r = "n mod k"
    have "0 \<le> ?r" "?r < k" using k by (simp_all add: pos_mod_sign pos_mod_bound)
    with False have "0 < ?r" by linarith
    then have "(n - 1) div k = ?q"
      using \<open>?r < k\<close> by (intro int_div_pos_eq [of _ _ _ "?r - 1"]) (simp_all add: algebra_simps)
    with False show ?thesis by simp
  qed
qed

lemma days_before_next_year: "days_before_year (y + 1) = days_before_year y + year_length y"
proof -
  define a b c where "a = (y - 1) div 4" and "b = (y - 1) div 100" and "c = (y - 1) div 400"
  have d: "y div 4 = a + (if y mod 4 = 0 then 1 else 0)" "y div 100 = b + (if y mod 100 = 0 then 1 else 0)"
    "y div 400 = c + (if y mod 400 = 0 then 1 else 0)"
    unfolding a_def b_def c_def by (rule div_Suc; simp)+
  have "y mod 400 = 0 \<longrightarrow> y mod 100 = 0" "y mod 100 = 0 \<longrightarrow> y mod 4 = 0"
    by (auto simp: mod_eq_0_iff_dvd intro: dvd_trans [rotated])
  moreover have "days_before_year (y + 1) = 365 * y + y div 4 - y div 100 + y div 400"
    by (simp add: days_before_year_def)
  moreover have "days_before_year y = 365 * (y - 1) + a - b + c"
    by (simp only: days_before_year_def a_def b_def c_def)
  moreover define P4 P100 P400 where "P4 \<longleftrightarrow> y mod 4 = 0" and "P100 \<longleftrightarrow> y mod 100 = 0" and "P400 \<longleftrightarrow> y mod 400 = 0"
  ultimately show ?thesis
    unfolding d year_length_def is_leap_def P4_def [symmetric] P100_def [symmetric] P400_def [symmetric]
    by (cases P4; cases P100; cases P400) simp_all
qed

lemma floor_bounds: "0 < k \<Longrightarrow> k * ((n :: int) div k) \<le> n \<and> n < k * (n div k) + k"
  using mult_div_mod_eq [of k n] pos_mod_sign [of k n] pos_mod_bound [of k n] by linarith

lemma year_length_bounds: "365 \<le> year_length y" "year_length y \<le> 366"
  by (auto simp: year_length_def)

lemma approx_arith:
  fixes D n a b c :: int
  assumes "D = 365 * n + a - b + c" "4 * a \<le> n" "n < 4 * a + 4" "100 * b \<le> n" "n < 100 * b + 100"
    "400 * c \<le> n" "n < 400 * c + 400"
  shows "400 * D \<le> 146097 * n + 396" "146097 * n \<le> 400 * D + 699"
  using assms by linarith+

lemma days_before_year_approx:
  "400 * days_before_year (n + 1) \<le> 146097 * n + 396" "146097 * n \<le> 400 * days_before_year (n + 1) + 699"
proof -
  have "days_before_year (n + 1) = 365 * n + n div 4 - n div 100 + n div 400"
    by (simp add: days_before_year_def)
  note approx_arith [OF this]
  then show "400 * days_before_year (n + 1) \<le> 146097 * n + 396" "146097 * n \<le> 400 * days_before_year (n + 1) + 699"
    using floor_bounds [of 4 n] floor_bounds [of 100 n] floor_bounds [of 400 n] by simp_all
qed

lemma year_of_day_bounds:
  "days_before_year (year_of_day d) \<le> d" "d < days_before_year (year_of_day d + 1)"
proof -
  define q where "q = 400 * d div 146097"
  have "146097 * q \<le> 400 * d \<and> 400 * d < 146097 * q + 146097"
    unfolding q_def by (rule floor_bounds) simp
  then have g: "146097 * q \<le> 400 * d" "400 * d < 146097 * q + 146097" by auto
  have low: "D \<le> d" if "400 * D \<le> 146097 * q - 146097 + 396" for D
    using that g by linarith
  have "days_before_year q \<le> d"
    using days_before_year_approx(1) [of "q - 1"] by (intro low) simp
  moreover have high: "d < D" if "146097 * q + 292194 \<le> 400 * D + 699" for D
    using that g by linarith
  have "d < days_before_year (q + 3)"
    using days_before_year_approx(2) [of "q + 2"] by (intro high) (simp add: add.assoc)
  ultimately show "days_before_year (year_of_day d) \<le> d" "d < days_before_year (year_of_day d + 1)"
    unfolding year_of_day_def Let_def q_def [symmetric] by (auto simp: add.assoc)
qed

lemma days_before_year_mono: "y \<le> z \<Longrightarrow> days_before_year y \<le> days_before_year z"
proof (induction z rule: int_ge_induct)
  case (step i)
  with days_before_next_year [of i] year_length_bounds [of i] show ?case by simp
qed simp

lemma year_of_day_unique:
  assumes "days_before_year y \<le> d" "d < days_before_year (y + 1)"
  shows "year_of_day d = y"
proof (rule ccontr)
  assume "year_of_day d \<noteq> y"
  then consider "year_of_day d + 1 \<le> y" | "y + 1 \<le> year_of_day d" by linarith
  then show False
  proof cases
    case 1
    with days_before_year_mono [OF 1] year_of_day_bounds [of d] assms show ?thesis by simp
  next
    case 2
    with days_before_year_mono [OF 2] year_of_day_bounds [of d] assms show ?thesis by simp
  qed
qed

lemma day_floor: "t div Day * Day \<le> t" "t < (t div Day + 1) * Day"
  using floor_bounds [OF Day_pos, of t] by (simp_all add: algebra_simps)

lemma days_mono: "m \<le> n \<Longrightarrow> m * Day \<le> n * Day"
  using Day_pos by (intro mult_right_mono) auto

section \<open>Months\<close>

text \<open>The days of a year on which its months begin, and those on which they end.\<close>

definition month_starts :: "int \<Rightarrow> int list" where
  "month_starts y = (let l = (if is_leap y then 1 else 0)
     in [0, 31, 59 + l, 90 + l, 120 + l, 151 + l, 181 + l, 212 + l, 243 + l, 273 + l, 304 + l, 334 + l])"

definition month_ends :: "int \<Rightarrow> int list" where
  "month_ends y = tl (month_starts y) @ [year_length y]"

definition day_of_year :: "int \<Rightarrow> int" where
  "day_of_year d = d - days_before_year (year_of_day d)"

text \<open>\<^verbatim>\<open>time.Date(t.Year(), t.Month(), 1, ...)\<close> and \<^verbatim>\<open>AddDate(0, 1, 0)\<close> of such an instant.\<close>

definition month_start :: "time \<Rightarrow> time" where
  "month_start t = (let d = t div Day; y = year_of_day d
     in (days_before_year y + last (filter (\<lambda>s. s \<le> day_of_year d) (month_starts y))) * Day)"

definition next_month_start :: "time \<Rightarrow> time" where
  "next_month_start t = (let d = t div Day; y = year_of_day d
     in (days_before_year y + hd (filter (\<lambda>s. day_of_year d < s) (month_ends y))) * Day)"

lemma day_of_year_bounds: "0 \<le> day_of_year d" "day_of_year d < year_length (year_of_day d)"
  using year_of_day_bounds [of d] days_before_next_year [of "year_of_day d"] by (auto simp: day_of_year_def)

lemma month_bounds:
  assumes "0 \<le> n" "n < year_length y"
  shows "last (filter (\<lambda>s. s \<le> n) (month_starts y)) \<le> n" "n < hd (filter (\<lambda>s. n < s) (month_ends y))"
    "0 \<le> last (filter (\<lambda>s. s \<le> n) (month_starts y))" "hd (filter (\<lambda>s. n < s) (month_ends y)) \<le> year_length y"
    "hd (filter (\<lambda>s. n < s) (month_ends y)) \<in> set (month_starts y) \<union> {year_length y}"
  using assms by (auto simp: month_starts_def month_ends_def year_length_def Let_def)

lemma month_start_le:
  "s \<in> set (month_starts y) \<Longrightarrow> s \<le> n \<Longrightarrow> s \<le> last (filter (\<lambda>s. s \<le> n) (month_starts y))"
  by (auto simp: month_starts_def Let_def)

lemma month_next_of_start:
  assumes "0 \<le> n" "n < year_length y"
  shows "hd (filter (\<lambda>s. last (filter (\<lambda>s. s \<le> n) (month_starts y)) < s) (month_ends y)) = hd (filter (\<lambda>s. n < s) (month_ends y))"
  using assms by (auto simp: month_starts_def month_ends_def year_length_def Let_def)

text \<open>The month of an instant by its year, its first day and the first day after it.\<close>

lemma month_cases:
  obtains y s e where "month_start t = (days_before_year y + s) * Day" "next_month_start t = (days_before_year y + e) * Day"
    "days_before_year y + s \<le> t div Day" "t div Day < days_before_year y + e" "0 \<le> s" "e \<le> year_length y"
    "e \<in> set (month_starts y) \<union> {year_length y}"
    "hd (filter (\<lambda>x. s < x) (month_ends y)) = e" "year_of_day (t div Day) = y"
    "s = last (filter (\<lambda>s. s \<le> day_of_year (t div Day)) (month_starts y))"
proof -
  let ?d = "t div Day"
  note b = month_bounds [OF day_of_year_bounds, of ?d] month_next_of_start [OF day_of_year_bounds, of ?d]
  show ?thesis
    by (rule that [of "year_of_day ?d" "last (filter (\<lambda>s. s \<le> day_of_year ?d) (month_starts (year_of_day ?d)))"
          "hd (filter (\<lambda>s. day_of_year ?d < s) (month_ends (year_of_day ?d)))"])
      (use b in \<open>simp_all add: month_start_def next_month_start_def Let_def day_of_year_def\<close>)
qed

lemma month_start_bounds: "month_start t \<le> t" "t < next_month_start t"
proof -
  obtain y s e where m: "month_start t = (days_before_year y + s) * Day" "next_month_start t = (days_before_year y + e) * Day"
    "days_before_year y + s \<le> t div Day" "t div Day < days_before_year y + e"
    by (rule month_cases [of t])
  from days_mono [OF m(3)] m(1) day_floor(1) [of t] show "month_start t \<le> t" by simp
  have "t div Day + 1 \<le> days_before_year y + e" using m(4) by simp
  from days_mono [OF this] m(2) day_floor(2) [of t] show "t < next_month_start t" by simp
qed

lemma day_of_days [simp]: "n * Day div Day = n"
  using Day_pos by simp

lemma next_month_of_start: "next_month_start (month_start t) = next_month_start t"
proof -
  obtain y s e where m: "month_start t = (days_before_year y + s) * Day" "next_month_start t = (days_before_year y + e) * Day"
    "days_before_year y + s \<le> t div Day" "t div Day < days_before_year y + e" "0 \<le> s" "e \<le> year_length y"
    "hd (filter (\<lambda>x. s < x) (month_ends y)) = e"
    by (rule month_cases [of t])
  have "year_of_day (days_before_year y + s) = y"
    using m by (intro year_of_day_unique) (auto simp: days_before_next_year)
  then have "next_month_start ((days_before_year y + s) * Day) = (days_before_year y + e) * Day"
    using m(7) by (simp add: next_month_start_def Let_def day_of_year_def)
  with m show ?thesis by simp
qed

text \<open>An instant at or after the start of the next month belongs to a later month.\<close>

lemma later_month:
  assumes "next_month_start t \<le> u"
  shows "next_month_start t \<le> month_start u"
proof -
  obtain y s e where m: "next_month_start t = (days_before_year y + e) * Day" "e \<le> year_length y"
    "e \<in> set (month_starts y) \<union> {year_length y}" "days_before_year y + s \<le> t div Day" "t div Day < days_before_year y + e" "0 \<le> s"
    by (rule month_cases [of t])
  obtain z s' where u: "month_start u = (days_before_year z + s') * Day" "0 \<le> s'" "year_of_day (u div Day) = z"
    "s' = last (filter (\<lambda>s. s \<le> day_of_year (u div Day)) (month_starts z))"
    by (rule month_cases [of u])
  have le: "days_before_year y + e \<le> u div Day"
    using zdiv_mono1 [OF assms, of Day] m(1) Day_pos by simp
  have zb: "u div Day < days_before_year (z + 1)" using year_of_day_bounds(2) [of "u div Day"] u(3) by simp
  have "y \<le> z"
  proof (rule ccontr)
    assume "\<not> y \<le> z"
    then have "days_before_year (z + 1) \<le> days_before_year y" by (intro days_before_year_mono) simp
    with le zb m(4-6) show False by simp
  qed
  have "days_before_year y + e \<le> days_before_year z + s'"
  proof (cases "y = z")
    case True
    have doy: "day_of_year (u div Day) = u div Day - days_before_year z" using u(3) by (simp add: day_of_year_def)
    with le True have "e \<le> day_of_year (u div Day)" by simp
    moreover have "day_of_year (u div Day) < year_length z" using day_of_year_bounds(2) [of "u div Day"] u(3) by simp
    ultimately show ?thesis using m(3) month_start_le [of e z "day_of_year (u div Day)"] u(4) True by auto
  next
    case False
    with \<open>y \<le> z\<close> have "days_before_year (y + 1) \<le> days_before_year z" by (intro days_before_year_mono) simp
    with m(2) u(2) show ?thesis by (simp add: days_before_next_year)
  qed
  from days_mono [OF this] show ?thesis by (simp add: m(1) u(1))
qed

end
