(* ===== verification/Submission.thy ===== *)
theory Submission
  imports Go_Text Go_Calendar
begin

text \<open>
  Submission identity: \<^verbatim>\<open>src/internal/contextfabric/submission.go\<close> and
  \<^verbatim>\<open>submission_limits.go\<close>, with the parts of \<^verbatim>\<open>src/internal/storage/interfaces.go\<close> (principal)
  and of the contracts (the id grammar) they use. Surfaces, authentication methods and client
  classes are string types in the source and stay strings here. A turn cursor, a pair of an
  instant and a submission id, is in \<open>Threads\<close>.
\<close>

section \<open>Principals and owners\<close>

record principal =
  p_AuthenticationMethod :: string
  p_Subject :: string
  p_OrgID :: string
  p_CredentialID :: string
  p_RepositoryScopes :: "string list"
  p_Permissions :: "string list"
  p_ProductEntitlements :: "string list"
  p_ClientClass :: string
  p_ApprovingUserID :: string
  p_SessionID :: string
  p_Impersonating :: bool
  p_CredentialSessionID :: string
  p_ProjectScopes :: "string list"

abbreviation AuthenticationMethodCredential :: string where "AuthenticationMethodCredential \<equiv> ''credential''"
abbreviation AuthenticationMethodWebAssertion :: string where "AuthenticationMethodWebAssertion \<equiv> ''web_assertion''"
abbreviation CredentialClientClassBrowser :: string where "CredentialClientClassBrowser \<equiv> ''browser''"
abbreviation CredentialClientClassOAuthUser :: string where "CredentialClientClassOAuthUser \<equiv> ''oauth_user''"
abbreviation CredentialClientClassNativeDevice :: string where "CredentialClientClassNativeDevice \<equiv> ''native_device''"
abbreviation SubmissionSurfaceBrowser :: string where "SubmissionSurfaceBrowser \<equiv> ''browser''"
abbreviation SubmissionSurfaceMCP :: string where "SubmissionSurfaceMCP \<equiv> ''mcp''"

definition AuditActor :: "principal \<Rightarrow> string \<times> string" where
  "AuditActor p =
    (if p_AuthenticationMethod p = AuthenticationMethodWebAssertion
     then (AuthenticationMethodWebAssertion, p_Subject p) else (AuthenticationMethodCredential, p_Subject p))"

record submission_owner =
  so_AuthenticationMethod :: string
  so_Subject :: string
  so_UserID :: string
  so_Surface :: string

definition zero_owner :: submission_owner where
  "zero_owner = \<lparr>so_AuthenticationMethod = '''', so_Subject = '''', so_UserID = '''', so_Surface = ''''\<rparr>"

definition canonicalSubmissionOwner :: "principal \<Rightarrow> string \<times> string" where
  "canonicalSubmissionOwner p =
    (if p_AuthenticationMethod p = AuthenticationMethodWebAssertion
     then if p_Subject p = '''' then ('''', '''') else (p_Subject p, SubmissionSurfaceBrowser)
     else if p_AuthenticationMethod p = AuthenticationMethodCredential
     then if p_ApprovingUserID p = '''' then ('''', '''')
          else if p_ClientClass p = CredentialClientClassBrowser then (p_ApprovingUserID p, SubmissionSurfaceBrowser)
          else if p_ClientClass p = CredentialClientClassOAuthUser \<or> p_ClientClass p = CredentialClientClassNativeDevice
          then (p_ApprovingUserID p, SubmissionSurfaceMCP)
          else ('''', '''')
     else ('''', ''''))"

text \<open>\<open>None\<close> is \<^verbatim>\<open>ErrSubmissionOwnerUnknown\<close>.\<close>

definition SubmissionOwnerOf :: "principal \<Rightarrow> submission_owner option" where
  "SubmissionOwnerOf p =
    (case AuditActor p of (method, subject) \<Rightarrow>
       if subject = '''' then None
       else case canonicalSubmissionOwner p of (userID, surface) \<Rightarrow>
         Some \<lparr>so_AuthenticationMethod = method, so_Subject = subject, so_UserID = userID, so_Surface = surface\<rparr>)"

definition SameSubmissionOwner :: "submission_owner \<Rightarrow> submission_owner \<Rightarrow> bool" where
  "SameSubmissionOwner a b \<longleftrightarrow>
     (so_Subject a \<noteq> '''' \<and> so_AuthenticationMethod a = so_AuthenticationMethod b \<and> so_Subject a = so_Subject b) \<or>
     (so_UserID a \<noteq> '''' \<and> so_UserID a = so_UserID b \<and> so_Surface a \<noteq> '''' \<and> so_Surface a = so_Surface b)"

definition owner_Is :: "submission_owner \<Rightarrow> principal \<Rightarrow> bool" where
  "owner_Is a p = (case SubmissionOwnerOf p of None \<Rightarrow> False | Some b \<Rightarrow> SameSubmissionOwner a b)"

datatype submission_owner_match =
  SubmissionOwnerMatchLegacy | SubmissionOwnerMatchCanonical | SubmissionOwnerMatchNone

definition SubmissionOwnerMatchOf :: "submission_owner \<Rightarrow> submission_owner \<Rightarrow> submission_owner_match" where
  "SubmissionOwnerMatchOf stored request =
    (if so_Subject stored \<noteq> '''' \<and> so_AuthenticationMethod stored = so_AuthenticationMethod request
        \<and> so_Subject stored = so_Subject request then SubmissionOwnerMatchLegacy
     else if SameSubmissionOwner stored request then SubmissionOwnerMatchCanonical
     else SubmissionOwnerMatchNone)"

definition ValidSubmissionOwnerSurface :: "string \<Rightarrow> bool" where
  "ValidSubmissionOwnerSurface s \<longleftrightarrow> s = '''' \<or> s = SubmissionSurfaceBrowser \<or> s = SubmissionSurfaceMCP"

section \<open>Keys and records\<close>

record submission_key =
  sk_OrgID :: string
  sk_Owner :: submission_owner
  sk_SubmissionID :: string

definition SubmissionKeyFor :: "principal \<Rightarrow> string \<Rightarrow> submission_key option" where
  "SubmissionKeyFor p submissionID =
    (case SubmissionOwnerOf p of None \<Rightarrow> None
     | Some owner \<Rightarrow> Some \<lparr>sk_OrgID = p_OrgID p, sk_Owner = owner, sk_SubmissionID = submissionID\<rparr>)"

text \<open>The grammar \<^verbatim>\<open>^[A-Za-z0-9._:-]{8,128}$\<close>.\<close>

definition correlation_char :: "char \<Rightarrow> bool" where
  "correlation_char c \<longleftrightarrow>
     (let n = byte_of c in (65 \<le> n \<and> n \<le> 90) \<or> (97 \<le> n \<and> n \<le> 122) \<or> (48 \<le> n \<and> n \<le> 57) \<or> n \<in> {46, 95, 58, 45})"

definition ValidContextFabricClientCorrelationID :: "string \<Rightarrow> bool" where
  "ValidContextFabricClientCorrelationID v \<longleftrightarrow> 8 \<le> length v \<and> length v \<le> 128 \<and> list_all correlation_char v"

definition ValidSubmissionID :: "string \<Rightarrow> bool" where
  "ValidSubmissionID v = ValidContextFabricClientCorrelationID v"

datatype submission_state = SubmissionRunning | SubmissionDone | SubmissionDoneUnsaved | SubmissionAbandoned

definition SubmissionAbandonGrace :: duration where "SubmissionAbandonGrace = 30 * Second"

datatype thread_closed_reason = ThreadClosedDeleted | ThreadClosedExpired | ThreadClosedFull

record submission_record =
  sr_Key :: submission_key
  sr_RequestDigest :: string
  sr_ReservedResultID :: string
  sr_State :: submission_state
  sr_ResultID :: string
  sr_ThreadID :: string
  sr_AdmittedAt :: time
  sr_UpdatedAt :: time
  sr_ExpiresAt :: time
  sr_Question :: string
  sr_ThreadClosed :: "thread_closed_reason option"
  sr_ThreadOwner :: submission_owner
  sr_LeaseHolder :: string
  sr_LeaseExpiresAt :: time
  sr_RunRequestID :: string
  sr_CancelRequestedAt :: time

definition Leased :: "submission_record \<Rightarrow> bool" where
  "Leased r \<longleftrightarrow> sr_LeaseHolder r \<noteq> ''''"

section \<open>The reserved result id a run carries\<close>

text \<open>\<^verbatim>\<open>resultIDReservation\<close>; a context carries at most one.\<close>

record reservation =
  rv_id :: string
  rv_mints :: int
  rv_submission :: bool

definition WithReservedResultIDFor :: "reservation option \<Rightarrow> string \<Rightarrow> bool \<Rightarrow> reservation option" where
  "WithReservedResultIDFor ctx resultID submissionRecord =
    (if resultID = [] then ctx else Some \<lparr>rv_id = resultID, rv_mints = 0, rv_submission = submissionRecord\<rparr>)"

definition WithReservedResultID :: "reservation option \<Rightarrow> string \<Rightarrow> reservation option" where
  "WithReservedResultID ctx resultID =
    (if resultID = [] then ctx else Some \<lparr>rv_id = resultID, rv_mints = 0, rv_submission = False\<rparr>)"

definition WithSubmissionReservedResultID :: "reservation option \<Rightarrow> string \<Rightarrow> reservation option" where
  "WithSubmissionReservedResultID ctx resultID = WithReservedResultIDFor ctx resultID True"

definition ReservedResultID :: "reservation option \<Rightarrow> string option" where
  "ReservedResultID ctx = map_option rv_id ctx"

definition MintReservedResultID :: "reservation option \<Rightarrow> (string \<times> int) option \<times> reservation option" where
  "MintReservedResultID ctx =
    (case ctx of None \<Rightarrow> (None, None)
     | Some r \<Rightarrow> (Some (rv_id r, rv_mints r + 1), Some (r\<lparr>rv_mints := rv_mints r + 1\<rparr>)))"

definition IsReservedSave :: "reservation option \<Rightarrow> string \<Rightarrow> bool" where
  "IsReservedSave ctx resultID =
    (case ctx of None \<Rightarrow> False | Some r \<Rightarrow> rv_submission r \<and> rv_id r \<noteq> [] \<and> rv_id r = resultID)"

section \<open>Shared limits\<close>

definition DefaultMaxRunningPerPrincipal :: int where "DefaultMaxRunningPerPrincipal = 2"
definition DefaultMaxRunningPerOrg :: int where "DefaultMaxRunningPerOrg = 4"
definition DefaultMonthlyPlatformRunAllowance :: int where "DefaultMonthlyPlatformRunAllowance = 1000"
definition MaxMonthlyPlatformRunAllowance :: int where "MaxMonthlyPlatformRunAllowance = 5000"
definition MaxRunningPerPrincipalLimit :: int where "MaxRunningPerPrincipalLimit = 16"
definition MaxRunningPerOrgLimit :: int where "MaxRunningPerOrgLimit = 64"

record submission_limits =
  MaxRunningPerPrincipal :: int
  MaxRunningPerOrg :: int
  MonthlyPlatformRunAllowance :: int

definition Effective :: "submission_limits \<Rightarrow> submission_limits" where
  "Effective l =
    \<lparr>MaxRunningPerPrincipal = (if MaxRunningPerPrincipal l \<le> 0 then DefaultMaxRunningPerPrincipal else MaxRunningPerPrincipal l),
     MaxRunningPerOrg = (if MaxRunningPerOrg l \<le> 0 then DefaultMaxRunningPerOrg else MaxRunningPerOrg l),
     MonthlyPlatformRunAllowance =
       (if MonthlyPlatformRunAllowance l \<le> 0 then DefaultMonthlyPlatformRunAllowance else MonthlyPlatformRunAllowance l)\<rparr>"

text \<open>\<^verbatim>\<open>Validate\<close>; the branches of the source differ in the message only.\<close>

definition limits_Validate :: "submission_limits \<Rightarrow> bool" where
  "limits_Validate l =
    (let e = Effective l
     in \<not> (MaxRunningPerPrincipal e > MaxRunningPerPrincipalLimit \<or> MaxRunningPerOrg e > MaxRunningPerOrgLimit
           \<or> MaxRunningPerOrg e < MaxRunningPerPrincipal e \<or> MonthlyPlatformRunAllowance e > MaxMonthlyPlatformRunAllowance))"

datatype submission_refusal =
  SubmissionRefusedPrincipalConcurrency | SubmissionRefusedOrgConcurrency | SubmissionRefusedAllowanceExhausted

record submission_refused_error =
  re_Refusal :: submission_refusal
  re_Count :: int
  re_Limit :: int
  re_RetryAfter :: duration

definition SubmissionConcurrencyRetryAfter :: duration where "SubmissionConcurrencyRetryAfter = 3 * Second"

definition UsageMonth :: "time \<Rightarrow> time" where
  "UsageMonth now = month_start now"

definition AllowanceRetryAfter :: "time \<Rightarrow> duration" where
  "AllowanceRetryAfter now = time_sub (next_month_start (UsageMonth now)) now"

section \<open>Facts\<close>

lemma SameSubmissionOwner_sym: "SameSubmissionOwner a b \<longleftrightarrow> SameSubmissionOwner b a"
  by (auto simp: SameSubmissionOwner_def)

lemma SameSubmissionOwner_refl [simp]: "so_Subject a \<noteq> '''' \<Longrightarrow> SameSubmissionOwner a a"
  by (simp add: SameSubmissionOwner_def)

lemma Effective_pos:
  "0 < MaxRunningPerPrincipal (Effective l)" "0 < MaxRunningPerOrg (Effective l)"
  "0 < MonthlyPlatformRunAllowance (Effective l)"
  by (simp_all add: Effective_def DefaultMaxRunningPerPrincipal_def DefaultMaxRunningPerOrg_def
      DefaultMonthlyPlatformRunAllowance_def)

lemma Effective_idem: "Effective (Effective l) = Effective l"
  using Effective_pos [of l] by (simp add: Effective_def)

text \<open>
  An admission refused because the month's allowance is spent is told to retry at an
  instant that counts in a later month: the retry time is positive, and from the instant it
  names on the admission counts in another month.
\<close>

theorem allowance_retry_is_next_month:
  assumes "now + AllowanceRetryAfter now \<le> later" "next_month_start now - now \<le> max_int64"
  shows "0 < AllowanceRetryAfter now \<and> UsageMonth now < UsageMonth later"
proof -
  have n: "next_month_start (UsageMonth now) = next_month_start now"
    by (simp add: UsageMonth_def next_month_of_start)
  have b: "month_start now \<le> now" "now < next_month_start now"
    by (rule month_start_bounds)+
  then have r: "AllowanceRetryAfter now = next_month_start now - now"
    using assms(2) by (simp add: AllowanceRetryAfter_def n time_sub_def min_int64_def)
  with assms(1) have "next_month_start now \<le> later" by simp
  then have "next_month_start now \<le> month_start later" by (rule later_month)
  with b r show ?thesis by (simp add: UsageMonth_def)
qed

text \<open>The last second of the year 2026 and the first instant of 2027.\<close>

theorem allowance_retry_is_next_month_witness:
  "AllowanceRetryAfter (739981 * Day - Second) = Second \<and>
   UsageMonth (739981 * Day - Second) = (739981 - 31) * Day \<and> UsageMonth (739981 * Day) = 739981 * Day \<and>
   UsageMonth (739981 * Day - Second) < UsageMonth (739981 * Day)"
proof -
  let ?now = "739981 * Day - Second"
  have r: "AllowanceRetryAfter ?now = Second" by code_simp
  have "next_month_start ?now - ?now \<le> max_int64" by code_simp
  with allowance_retry_is_next_month [of ?now "739981 * Day"] r
  have "UsageMonth ?now < UsageMonth (739981 * Day)" by simp
  moreover have "UsageMonth ?now = (739981 - 31) * Day" "UsageMonth (739981 * Day) = 739981 * Day" by code_simp+
  ultimately show ?thesis using r by blast
qed

end
