(* ===== verification/Threads.thy ===== *)
theory Threads
  imports Submission "HOL-Library.Product_Lexorder"
begin

text \<open>
  \<^verbatim>\<open>src/internal/contextfabric/thread.go\<close> and the retention rules of
  \<^verbatim>\<open>src/internal/contracts/v1/context_fabric_thread.go\<close>: the row of an Ask Dev conversation and
  how each admitted turn advances it. \<^verbatim>\<open>AdvanceThread\<close> is compared with \<open>thread_of_turns\<close>, the
  row as a function of the set of turns: the order in which turns are admitted does not matter.
\<close>

section \<open>Retention\<close>

type_synonym retention_days = int

abbreviation (input) ContextFabricThreadRetentionDay :: retention_days where "ContextFabricThreadRetentionDay \<equiv> 0"
abbreviation (input) ContextFabricThreadRetentionMonth :: retention_days where "ContextFabricThreadRetentionMonth \<equiv> 30"

definition ContextFabricThreadDefaultRetention :: retention_days where
  "ContextFabricThreadDefaultRetention = ContextFabricThreadRetentionDay"

definition ContextFabricThreadMaxTurnCount :: int where
  "ContextFabricThreadMaxTurnCount = 1000000"

definition retention_Valid :: "retention_days \<Rightarrow> bool" where
  "retention_Valid r \<longleftrightarrow> r \<in> {ContextFabricThreadRetentionDay, ContextFabricThreadRetentionMonth}"

definition retention_Window :: "retention_days \<Rightarrow> duration" where
  "retention_Window r =
    (if r = ContextFabricThreadRetentionDay then 24 * Hour
     else if r = ContextFabricThreadRetentionMonth then 30 * 24 * Hour else 0)"

definition ParseContextFabricThreadRetention :: "string \<Rightarrow> retention_days option" where
  "ParseContextFabricThreadRetention v =
    (if v = ''0'' then Some ContextFabricThreadRetentionDay
     else if v = ''30'' then Some ContextFabricThreadRetentionMonth else None)"

definition ContextFabricThreadExpiresAt :: "time \<Rightarrow> retention_days \<Rightarrow> time" where
  "ContextFabricThreadExpiresAt lastTurnAt retention = lastTurnAt + retention_Window retention"

definition UnthreadedRecordExpiresAt :: "time \<Rightarrow> time" where
  "UnthreadedRecordExpiresAt admittedAt = ContextFabricThreadExpiresAt admittedAt ContextFabricThreadRetentionDay"

section \<open>Turn order\<close>

datatype thread_turn_cursor = ThreadTurnCursor (tc_AdmittedAt: time) (tc_SubmissionID: string)

definition cursor_Before :: "thread_turn_cursor \<Rightarrow> thread_turn_cursor \<Rightarrow> bool" where
  "cursor_Before a b =
    (if tc_AdmittedAt a \<noteq> tc_AdmittedAt b then tc_AdmittedAt a < tc_AdmittedAt b
     else tc_SubmissionID a < tc_SubmissionID b)"

instantiation thread_turn_cursor :: linorder
begin

definition less_thread_turn_cursor :: "thread_turn_cursor \<Rightarrow> thread_turn_cursor \<Rightarrow> bool" where
  "less_thread_turn_cursor a b \<longleftrightarrow> cursor_Before a b"

definition less_eq_thread_turn_cursor :: "thread_turn_cursor \<Rightarrow> thread_turn_cursor \<Rightarrow> bool" where
  "less_eq_thread_turn_cursor a b \<longleftrightarrow> a = b \<or> cursor_Before a b"

instance
proof
  fix a b c :: thread_turn_cursor
  show "a < b \<longleftrightarrow> a \<le> b \<and> \<not> b \<le> a"
    by (auto simp: less_thread_turn_cursor_def less_eq_thread_turn_cursor_def cursor_Before_def split: if_splits)
  show "a \<le> a" by (simp add: less_eq_thread_turn_cursor_def)
  show "a \<le> b \<Longrightarrow> b \<le> c \<Longrightarrow> a \<le> c"
    by (auto simp: less_eq_thread_turn_cursor_def cursor_Before_def split: if_splits)
  show "a \<le> b \<Longrightarrow> b \<le> a \<Longrightarrow> a = b"
    by (auto simp: less_eq_thread_turn_cursor_def cursor_Before_def split: if_splits)
  show "a \<le> b \<or> b \<le> a"
    by (cases a; cases b) (auto simp: less_eq_thread_turn_cursor_def cursor_Before_def split: if_splits)
qed

end

section \<open>The thread row\<close>

record thread_key =
  tk_OrgID :: string
  tk_Owner :: submission_owner
  tk_ThreadID :: string

definition ThreadKeyFor :: "principal \<Rightarrow> string \<Rightarrow> thread_key option" where
  "ThreadKeyFor p threadID =
    (case SubmissionOwnerOf p of None \<Rightarrow> None
     | Some owner \<Rightarrow> Some \<lparr>tk_OrgID = p_OrgID p, tk_Owner = owner, tk_ThreadID = threadID\<rparr>)"

record thread_record =
  tr_Key :: thread_key
  tr_CreatedAt :: time
  tr_LastTurnAt :: time
  tr_TurnCount :: int
  tr_RetentionDays :: retention_days
  tr_ExpiresAt :: time
  tr_ClosedAt :: "time option"
  tr_RetentionSetBy :: "thread_turn_cursor option"
  tr_FirstQuestion :: string

definition thread_Closed :: "time \<Rightarrow> thread_record \<Rightarrow> bool" where
  "thread_Closed now r \<longleftrightarrow> tr_ClosedAt r \<noteq> None \<or> \<not> now < tr_ExpiresAt r"

definition thread_ClosedReason :: "time \<Rightarrow> thread_record \<Rightarrow> thread_closed_reason option" where
  "thread_ClosedReason now r =
    (if tr_ClosedAt r \<noteq> None then Some ThreadClosedDeleted
     else if \<not> now < tr_ExpiresAt r then Some ThreadClosedExpired
     else if tr_TurnCount r \<ge> ContextFabricThreadMaxTurnCount then Some ThreadClosedFull
     else None)"

definition AdvanceThread ::
  "thread_record option \<Rightarrow> thread_key \<Rightarrow> thread_turn_cursor \<Rightarrow> retention_days option \<Rightarrow> thread_record" where
  "AdvanceThread thread key turn retention =
    (let at = tc_AdmittedAt turn;
         next = (case thread of
             None \<Rightarrow> \<lparr>tr_Key = key, tr_CreatedAt = at, tr_LastTurnAt = at, tr_TurnCount = 0,
                      tr_RetentionDays = ContextFabricThreadDefaultRetention, tr_ExpiresAt = 0, tr_ClosedAt = None,
                      tr_RetentionSetBy = None, tr_FirstQuestion = ''''\<rparr>
           | Some t \<Rightarrow> t\<lparr>tr_CreatedAt := (if at < tr_CreatedAt t then at else tr_CreatedAt t),
                         tr_LastTurnAt := (if tr_LastTurnAt t < at then at else tr_LastTurnAt t)\<rparr>);
         counted = next\<lparr>tr_TurnCount := tr_TurnCount next + 1\<rparr>;
         retained = (case retention of
             None \<Rightarrow> counted
           | Some r \<Rightarrow>
               if (case tr_RetentionSetBy counted of None \<Rightarrow> True | Some c \<Rightarrow> \<not> cursor_Before turn c)
               then counted\<lparr>tr_RetentionDays := r, tr_RetentionSetBy := Some turn\<rparr> else counted)
     in retained\<lparr>tr_ExpiresAt := ContextFabricThreadExpiresAt (tr_LastTurnAt retained) (tr_RetentionDays retained)\<rparr>)"

record thread_turn =
  tt_SubmissionID :: string
  tt_State :: submission_state
  tt_ResultID :: string
  tt_Question :: string
  tt_AdmittedAt :: time
  tt_UpdatedAt :: time

record thread_list_cursor =
  lc_LastTurnAt :: time
  lc_ThreadID :: string

record thread_page =
  pg_Thread :: thread_record
  pg_Turns :: "thread_turn list"
  pg_EarlierTurns :: bool

section \<open>The row as a function of the turns\<close>

type_synonym turn = "thread_turn_cursor \<times> retention_days option"

text \<open>The retention the latest naming turn set, with its cursor.\<close>

definition naming_turns :: "turn list \<Rightarrow> (thread_turn_cursor \<times> retention_days) list" where
  "naming_turns ts = List.map_filter (\<lambda>(c, r). map_option (Pair c) r) ts"

definition thread_of_turns :: "thread_key \<Rightarrow> turn list \<Rightarrow> thread_record" where
  "thread_of_turns key ts =
    (let last = Max (set (map (tc_AdmittedAt \<circ> fst) ts));
         named = naming_turns ts;
         setBy = (if named = [] then None else Some (Max (set (map fst named))));
         days = (case setBy of None \<Rightarrow> ContextFabricThreadDefaultRetention | Some c \<Rightarrow> the (map_of named c))
     in \<lparr>tr_Key = key, tr_CreatedAt = Min (set (map (tc_AdmittedAt \<circ> fst) ts)), tr_LastTurnAt = last,
         tr_TurnCount = int (length ts), tr_RetentionDays = days, tr_ExpiresAt = ContextFabricThreadExpiresAt last days,
         tr_ClosedAt = None, tr_RetentionSetBy = setBy, tr_FirstQuestion = ''''\<rparr>)"

text \<open>Admitting the turns one after the other.\<close>

fun advance_all :: "thread_key \<Rightarrow> thread_record option \<Rightarrow> turn list \<Rightarrow> thread_record option" where
  "advance_all key t [] = t"
| "advance_all key t ((c, r) # ts) = advance_all key (Some (AdvanceThread t key c r)) ts"

lemma advance_all_snoc:
  "advance_all key t (ts @ [(c, r)]) = Some (AdvanceThread (advance_all key t ts) key c r)"
  by (induction key t ts rule: advance_all.induct) auto

lemma naming_turns_snoc:
  "naming_turns (ts @ [(c, r)]) = naming_turns ts @ (case r of None \<Rightarrow> [] | Some d \<Rightarrow> [(c, d)])"
  by (simp add: naming_turns_def List.map_filter_def split: option.splits)

lemma naming_turns_fst: "fst ` set (naming_turns ts) \<subseteq> fst ` set ts"
  by (force simp: naming_turns_def List.map_filter_def)

lemma not_Before_iff: "\<not> cursor_Before a b \<longleftrightarrow> b \<le> a"
  using not_less [of a b] by (simp add: less_thread_turn_cursor_def)

lemma thread_of_turns_single: "AdvanceThread None key c r = thread_of_turns key [(c, r)]"
  by (cases r) (auto simp: AdvanceThread_def thread_of_turns_def naming_turns_def List.map_filter_def Let_def)

lemma Min_insert_if: "finite A \<Longrightarrow> A \<noteq> {} \<Longrightarrow> Min (insert x A) = (if x < Min A then x else Min (A :: 'a :: linorder set))"
  by (metis Min_insert linorder_not_less min.absorb1 min.absorb2 order_less_imp_le)

lemma Max_insert_if: "finite A \<Longrightarrow> A \<noteq> {} \<Longrightarrow> Max (insert x A) = (if Max A < x then x else Max (A :: 'a :: linorder set))"
  by (metis Max_insert linorder_not_less max.absorb1 max.absorb2 order_less_imp_le)

lemma Max_insert_if_le: "finite A \<Longrightarrow> A \<noteq> {} \<Longrightarrow> Max (insert x A) = (if Max A \<le> x then x else Max (A :: 'a :: linorder set))"
  by (metis Max_insert linear max.absorb1 max.absorb2)

lemma naming_turns_Cons:
  "naming_turns ((c, r) # ts) = (case r of None \<Rightarrow> naming_turns ts | Some d \<Rightarrow> (c, d) # naming_turns ts)"
  by (simp add: naming_turns_def List.map_filter_def split: option.splits)

text \<open>One more turn: the step of the source against the closed form.\<close>

lemma thread_of_turns_snoc:
  assumes "ts \<noteq> []" "c \<notin> fst ` set ts"
  shows "AdvanceThread (Some (thread_of_turns key ts)) key c r = thread_of_turns key (ts @ [(c, r)])"
proof -
  let ?A = "set (map (tc_AdmittedAt \<circ> fst) ts)" and ?N = "naming_turns ts"
  have A: "finite ?A" "?A \<noteq> {}" using assms(1) by auto
  have min: "Min (insert (tc_AdmittedAt c) ?A) = (if tc_AdmittedAt c < Min ?A then tc_AdmittedAt c else Min ?A)"
    by (rule Min_insert_if [OF A])
  have max: "Max (insert (tc_AdmittedAt c) ?A) = (if Max ?A < tc_AdmittedAt c then tc_AdmittedAt c else Max ?A)"
    by (rule Max_insert_if [OF A])
  have fresh: "c \<notin> fst ` set ?N" using assms(2) naming_turns_fst [of ts] by auto
  then have lookup: "map_of (?N @ [(c, d)]) c = Some d" for d
    by (simp add: map_add_def map_of_eq_None_iff [THEN iffD2])
  have keep: "map_of (?N @ [(c, d)]) (Max (fst ` set ?N)) = map_of ?N (Max (fst ` set ?N))" if "?N \<noteq> []" for d
  proof -
    have "Max (fst ` set ?N) \<in> fst ` set ?N" using that by (intro Max_in) auto
    then obtain v where "map_of ?N (Max (fst ` set ?N)) = Some v"
      by (metis domIff dom_map_of_conv_image_fst option.exhaust)
    then show ?thesis by (simp add: map_add_Some_iff)
  qed
  have maxN: "Max (insert c (fst ` set ?N)) = (if Max (fst ` set ?N) \<le> c then c else Max (fst ` set ?N))" if "?N \<noteq> []"
    using that by (intro Max_insert_if_le) auto
  show ?thesis
    using min max lookup keep maxN
    by (cases r; cases "?N = []")
      (auto simp: AdvanceThread_def thread_of_turns_def naming_turns_snoc Let_def not_Before_iff)
qed


lemma advance_all_eq:
  "distinct (map fst ts) \<Longrightarrow> ts \<noteq> [] \<Longrightarrow> advance_all key None ts = Some (thread_of_turns key ts)"
proof (induction ts rule: rev_induct)
  case (snoc t ts)
  obtain c r where t: "t = (c, r)" by (cases t)
  show ?case
  proof (cases "ts = []")
    case True
    then show ?thesis by (simp add: t thread_of_turns_single)
  next
    case False
    with snoc t show ?thesis by (simp add: advance_all_snoc thread_of_turns_snoc)
  qed
qed simp

lemma map_of_naming_set:
  assumes "distinct (map fst ts)" "mset ts = mset us"
  shows "set (naming_turns ts) = set (naming_turns us)" "distinct (map fst (naming_turns ts))"
proof -
  have "set ts = set us" using assms(2) by (rule mset_eq_setD)
  then show "set (naming_turns ts) = set (naming_turns us)" by (simp add: naming_turns_def List.map_filter_def)
  show "distinct (map fst (naming_turns ts))"
    using assms(1)
  proof (induction ts)
    case (Cons t ts)
    with naming_turns_fst [of ts] show ?case
      by (cases t) (auto simp: naming_turns_Cons split: option.splits)
  qed (simp add: naming_turns_def List.map_filter_def)
qed

lemma thread_of_turns_order_free:
  assumes "distinct (map fst ts)" "mset ts = mset us"
  shows "thread_of_turns key ts = thread_of_turns key us"
proof -
  have s: "set ts = set us" "length ts = length us"
    using assms(2) by (auto dest: mset_eq_setD mset_eq_length)
  note n = map_of_naming_set [OF assms]
  have "distinct (map fst us)"
    using assms by (metis distinct_count_atmost_1 mset_map set_mset_mset)
  then have n': "distinct (map fst (naming_turns us))" using map_of_naming_set(2) by blast
  have "map_of (naming_turns ts) = map_of (naming_turns us)"
    using n n' by (simp add: map_of_inject_set)
  moreover have "naming_turns ts = [] \<longleftrightarrow> naming_turns us = []"
    using n(1) by (metis set_empty)
  ultimately show ?thesis
    using s n(1) by (simp add: thread_of_turns_def Let_def)
qed

text \<open>
  The row of a conversation depends on the turns admitted to it and not on the order in
  which their admissions were decided: the first and last turn times, the turn count, the
  retention (that of the latest turn, in turn order, that named one) and the expiry are the
  same for every order.
\<close>

theorem admission_order_does_not_matter:
  assumes "distinct (map fst ts)" "ts \<noteq> []" "mset us = mset ts"
  shows "advance_all key None us = advance_all key None ts \<and> advance_all key None ts = Some (thread_of_turns key ts)"
proof -
  have "us \<noteq> []" using assms(2,3) by auto
  moreover have "distinct (map fst us)"
    using assms(1,3) by (metis distinct_count_atmost_1 mset_map set_mset_mset)
  ultimately show ?thesis
    using assms thread_of_turns_order_free [of ts us key] by (simp add: advance_all_eq)
qed

text \<open>Two turns, the later one admitted first: the later one's retention stands.\<close>

theorem admission_order_does_not_matter_witness:
  "\<exists>key t. advance_all key None
       [(ThreadTurnCursor (2 * Hour) ''bbbbbbbb'', Some 30), (ThreadTurnCursor Hour ''aaaaaaaa'', Some 0)] = Some t
     \<and> tr_RetentionDays t = 30 \<and> tr_CreatedAt t = Hour \<and> tr_ExpiresAt t = 2 * Hour + 30 * 24 * Hour"
proof -
  let ?k = "\<lparr>tk_OrgID = ''o'', tk_Owner = zero_owner, tk_ThreadID = ''t''\<rparr>"
  let ?ts = "[(ThreadTurnCursor Hour ''aaaaaaaa'', Some 0), (ThreadTurnCursor (2 * Hour) ''bbbbbbbb'', Some 30)]"
  have "advance_all ?k None (rev ?ts) = advance_all ?k None ?ts"
    using admission_order_does_not_matter [of ?ts "rev ?ts" ?k] by simp
  moreover have "map_option (\<lambda>t. (tr_RetentionDays t, tr_CreatedAt t, tr_ExpiresAt t)) (advance_all ?k None ?ts)
      = Some (30, Hour, 2 * Hour + 30 * 24 * Hour)"
    by code_simp
  ultimately show ?thesis
    by (auto simp del: advance_all.simps) (metis rev.simps(1,2) append_Cons append_Nil)
qed

end
