(* ===== verification/Run_Lease.thy ===== *)
theory Run_Lease
  imports Threads
begin

text \<open>
  The value types and pure rules of \<^verbatim>\<open>src/internal/contextfabric/run_lease.go\<close> and
  \<^verbatim>\<open>retention.go\<close>. An error envelope is an opaque string here. The hex SHA-256 of an id
  (\<open>digest\<close>) is a parameter.
\<close>

section \<open>Run leases and the event log\<close>

definition RunLeaseTTL :: duration where "RunLeaseTTL = 15 * Second"
definition RunLeaseRenewInterval :: duration where "RunLeaseRenewInterval = 5 * Second"
definition RunEventLogMaxEvents :: int where "RunEventLogMaxEvents = 128"

record run_lease_grant =
  rg_Holder :: string
  rg_ExpiresAt :: time
  rg_RequestID :: string

definition grant_Valid :: "run_lease_grant \<Rightarrow> bool" where
  "grant_Valid g \<longleftrightarrow> 1 \<le> length (rg_Holder g) \<and> length (rg_Holder g) \<le> 200 \<and> 1 \<le> length (rg_RequestID g)
     \<and> length (rg_RequestID g) \<le> 128 \<and> \<not> IsZero (rg_ExpiresAt g)"

record run_key =
  rk_OrgID :: string
  rk_ReservedResultID :: string

definition RunKeyOf :: "submission_record \<Rightarrow> run_key" where
  "RunKeyOf r = \<lparr>rk_OrgID = sk_OrgID (sr_Key r), rk_ReservedResultID = sr_ReservedResultID r\<rparr>"

text \<open>\<open>RunTerminalOther\<close> is a kind outside the closed set.\<close>

datatype run_terminal_kind = RunTerminalResult | RunTerminalUnsaved | RunTerminalError | RunTerminalOther string

record run_terminal =
  te_Kind :: run_terminal_kind
  te_ResultID :: string
  te_Error :: "string option"

record run_event =
  ev_Seq :: int
  ev_Type :: string
  ev_LastStageStarted :: string
  ev_Data :: string
  ev_Terminal :: "run_terminal option"
  ev_WrittenAt :: time

record run_event_page =
  rp_Events :: "run_event list"
  rp_FirstSeq :: int
  rp_LastSeq :: int
  rp_TerminalSeq :: int
  rp_LastStageStarted :: string
  rp_Record :: submission_record

record run_lease_check =
  rl_Found :: bool
  rl_State :: submission_state
  rl_Holder :: string
  rl_Renewed :: bool
  rl_CancelRequestedAt :: time

definition check_Held :: "string \<Rightarrow> run_lease_check \<Rightarrow> bool" where
  "check_Held holder c \<longleftrightarrow> rl_Found c \<and> rl_State c = SubmissionRunning \<and> rl_Holder c \<noteq> '''' \<and> rl_Holder c = holder"

record lost_run =
  lr_Run :: run_key
  lr_RequestID :: string
  lr_TerminalSeq :: int
  lr_PreviousHolder :: string
  lr_LeaseExpiredAt :: time
  lr_TerminalAppended :: bool

section \<open>Admission\<close>

record submission_admission =
  adm_Key :: submission_key
  adm_RequestDigest :: string
  adm_ReservedResultID :: string
  adm_ThreadID :: string
  adm_ExpiresAt :: time
  adm_Question :: string
  adm_ThreadRetention :: "retention_days option"
  adm_Limits :: submission_limits
  adm_PlatformRun :: bool
  adm_Lease :: "run_lease_grant option"

datatype submission_completion =
    SubmissionCompletionAlreadyFinal | SubmissionCompletionServedStored
  | SubmissionCompletionServedUnsaved | SubmissionCompletionNotRunning

record submission_sweep =
  sw_Completed :: int
  sw_Abandoned :: int

section \<open>Retention\<close>

definition RetentionSaveWindow :: duration where "RetentionSaveWindow = Hour"
definition RetentionSweepBatch :: int where "RetentionSweepBatch = 500"

record retention_sweep =
  rs_ThreadsRemoved :: int
  rs_ThreadsErased :: int
  rs_RecordsRemoved :: int
  rs_ResultsRemoved :: int
  rs_Fenced :: int

definition sweep_Changed :: "retention_sweep \<Rightarrow> bool" where
  "sweep_Changed s \<longleftrightarrow> rs_ThreadsRemoved s > 0 \<or> rs_ThreadsErased s > 0 \<or> rs_RecordsRemoved s > 0 \<or> rs_ResultsRemoved s > 0"

definition RetentionFenced :: "submission_record \<Rightarrow> time \<Rightarrow> bool" where
  "RetentionFenced r now =
    (if sr_State r = SubmissionRunning \<or> sr_State r = SubmissionAbandoned
     then now < sr_ExpiresAt r + RetentionSaveWindow else False)"

definition ErasedReservedResultIDPrefix :: string where "ErasedReservedResultIDPrefix = ''erased_''"

definition ErasedReservedResultID :: "(string \<Rightarrow> string) \<Rightarrow> string \<Rightarrow> string" where
  "ErasedReservedResultID digest reserved = ErasedReservedResultIDPrefix @ digest reserved"

definition IsErasedReservedResultID :: "string \<Rightarrow> bool" where
  "IsErasedReservedResultID v = has_prefix v ErasedReservedResultIDPrefix"

end
