(* ===== verification/Investigation_Store.thy ===== *)
theory Investigation_Store
  imports Run_Lease
begin

text \<open>
  \<^verbatim>\<open>src/internal/contextfabric/memoryinvestigation/store.go\<close>: the state of the in-memory
  investigation store and its result side (\<^verbatim>\<open>Save\<close>, \<^verbatim>\<open>Get\<close>, supersession claims, the evidence
  lookup), and the lookups of the other files that \<^verbatim>\<open>Save\<close> and \<^verbatim>\<open>Get\<close> call. The mutex makes
  every method atomic, so a method is a function of the state; \<^verbatim>\<open>ctx.Err()\<close> and the clock are
  arguments, and a nil receiver is not modelled.

  An investigation result is a record with the fields the store reads and a rest \<open>'x\<close>. Its
  JSON encoding, its validation and the semantic snapshot codec are large parts of their own;
  they are the fields of \<open>result_codec\<close>, an argument of the operations that use them.
\<close>

section \<open>Results and their codec\<close>

record confirmed_structure =
  cs_Member :: string
  cs_Disposition :: string
  cs_Source :: string
  cs_PriorResultID :: string

record investigation_result =
  ir_ResultID :: string
  ir_ConfirmedStructure :: "confirmed_structure list"
  ir_SynthesisSource :: string
  ir_SynthesisVersion :: string
  ir_GeneratedAt :: time

datatype semantic_read =
    SemanticStateReadAvailable | SemanticStateReadAbsent | SemanticStateReadUnsupportedVersion
  | SemanticStateReadMalformed | SemanticStateReadOversized

record ('x, 'w, 's) result_codec =
  rc_ValidateResult :: "'x investigation_result_scheme \<Rightarrow> bool"
  rc_ValidateStoredResult :: "'x investigation_result_scheme \<Rightarrow> bool"
  rc_Marshal :: "'x investigation_result_scheme \<Rightarrow> string option"
  rc_Unmarshal :: "string \<Rightarrow> 'x investigation_result_scheme option"
  rc_ExplicitNull :: "string \<Rightarrow> bool"  \<comment> \<open>\<^verbatim>\<open>rejectExplicitNullDegradedReasons\<close> refuses the payload\<close>
  rc_EvidenceRefClosure :: "'x investigation_result_scheme \<Rightarrow> string list"
  rc_EncodedColumn :: "'w \<Rightarrow> string option option"
  rc_WriteState :: "'w \<Rightarrow> 's option"
  rc_DecodeSemanticState :: "string option \<Rightarrow> 's option \<times> semantic_read"
  rc_SemanticStatesEqual :: "'s option \<Rightarrow> 's option \<Rightarrow> bool"
  rc_GrantDigest :: "principal \<Rightarrow> string"

section \<open>State\<close>

record entry =
  en_orgID :: string
  en_payload :: string
  en_parentResultID :: string
  en_grantDigest :: string
  en_semanticState :: "string option"
  en_owner :: "submission_owner option"

record claim_key =
  ck_orgID :: string
  ck_priorResultID :: string
  ck_member :: string

record reserved_key =
  rv_orgID :: string
  rv_resultID :: string

record usage_key =
  uk_orgID :: string
  uk_month :: time

record thread_row_key =
  tw_orgID :: string
  tw_method :: string
  tw_subject :: string
  tw_threadID :: string

datatype feedback_value =
    ContextFabricResultFeedbackYes | ContextFabricResultFeedbackNo | ContextFabricResultFeedbackUnset
  | FeedbackOther string  \<comment> \<open>outside the closed set\<close>

record result_feedback =
  rf_Correct :: feedback_value
  rf_Useful :: feedback_value
  rf_UpdatedAt :: time

record store =
  st_results :: "(string, entry) gomap"
  st_claims :: "(claim_key, string) gomap"
  st_submissions :: "(submission_key, submission_record) gomap"
  st_reserved :: "(reserved_key, submission_key) gomap"
  st_usage :: "(usage_key, int) gomap"
  st_threads :: "(thread_row_key, thread_record) gomap"
  st_runEvents :: "(run_key, run_event list) gomap"
  st_feedback :: "(string, result_feedback) gomap"
  st_unthreadedRetention :: bool

definition NewStore :: store where
  "NewStore = \<lparr>st_results = [], st_claims = [], st_submissions = [], st_reserved = [], st_usage = [],
     st_threads = [], st_runEvents = [], st_feedback = [], st_unthreadedRetention = False\<rparr>"

definition WithUnthreadedRecordRetention :: "bool \<Rightarrow> store \<Rightarrow> store" where
  "WithUnthreadedRecordRetention enabled s = s\<lparr>st_unthreadedRetention := enabled\<rparr>"

datatype store_error =
    ErrContextDone
  | ErrRequired  \<comment> \<open>a missing or malformed argument\<close>
  | ErrInvalidParent
  | ErrInvalidResult
  | ErrMarshal
  | ErrSemanticColumn
  | ErrStoredInvalid
  | ErrOtherOrganization
  | ErrDifferentContent
  | ErrSemanticStateReplayConflict
  | ErrReservationGone
  | ErrStructureOfferSuperseded "string list"
  | ErrDecode
  | ErrNotFound
  | ErrSubmissionNotFound
  | ErrReservedTaken
  | ErrThreadClosed thread_closed_reason
  | ErrSubmissionRefused submission_refused_error
  | ErrThreadNotFound
  | ErrRunEventSeq
  | ErrRunRecordMissing
  | ErrRetentionReadRuleOff

section \<open>Records by reserved result id and by owner\<close>

definition record_at :: "store \<Rightarrow> submission_key \<Rightarrow> submission_record option" where
  "record_at s key = map_of (st_submissions s) key"

definition put_record :: "submission_key \<Rightarrow> submission_record \<Rightarrow> store \<Rightarrow> store" where
  "put_record key r s = s\<lparr>st_submissions := put key r (st_submissions s)\<rparr>"

definition reservation_of :: "store \<Rightarrow> string \<Rightarrow> string \<Rightarrow> submission_key option" where
  "reservation_of s orgID resultID = map_of (st_reserved s) \<lparr>rv_orgID = orgID, rv_resultID = resultID\<rparr>"

definition reservationHeldLocked :: "principal \<Rightarrow> string \<Rightarrow> string \<Rightarrow> store \<Rightarrow> bool" where
  "reservationHeldLocked p orgID resultID s =
    (case reservation_of s orgID resultID of
       None \<Rightarrow> False
     | Some key \<Rightarrow> (case record_at s key of None \<Rightarrow> False | Some r \<Rightarrow> owner_Is (sk_Owner (sr_Key r)) p))"

text \<open>
  The map read \<^verbatim>\<open>s.submissions[key]\<close> gives the zero record for an absent key, whose owner is
  no principal's; both readings of the index treat it as the foreign owner it is.
\<close>

definition completeSubmissionLocked ::
  "time \<Rightarrow> principal \<Rightarrow> string \<Rightarrow> string \<Rightarrow> store \<Rightarrow> submission_owner option \<times> store" where
  "completeSubmissionLocked now p orgID resultID s =
    (case reservation_of s orgID resultID of
       None \<Rightarrow> (None, s)
     | Some key \<Rightarrow> (case record_at s key of
         None \<Rightarrow> (None, s)
       | Some r \<Rightarrow>
           if \<not> owner_Is (sk_Owner (sr_Key r)) p then (None, s)
           else if sr_State r = SubmissionRunning \<or> sr_State r = SubmissionAbandoned
           then (Some (sk_Owner (sr_Key r)),
                 put_record key (r\<lparr>sr_State := SubmissionDone, sr_ResultID := resultID, sr_UpdatedAt := now\<rparr>) s)
           else (Some (sk_Owner (sr_Key r)), s)))"

definition ownedByLocked :: "string \<Rightarrow> submission_key \<Rightarrow> store \<Rightarrow> bool" where
  "ownedByLocked resultID key s =
    (case map_of (st_results s) resultID of
       None \<Rightarrow> False
     | Some e \<Rightarrow> en_orgID e = sk_OrgID key \<and>
         (case en_owner e of None \<Rightarrow> False | Some owner \<Rightarrow> SameSubmissionOwner owner (sk_Owner key)))"

section \<open>Threads of records\<close>

definition rowKeyOf :: "thread_key \<Rightarrow> thread_row_key" where
  "rowKeyOf key = \<lparr>tw_orgID = tk_OrgID key, tw_method = so_AuthenticationMethod (tk_Owner key),
     tw_subject = so_Subject (tk_Owner key), tw_threadID = tk_ThreadID key\<rparr>"

definition recordThreadRow :: "submission_key \<Rightarrow> submission_record \<Rightarrow> thread_row_key" where
  "recordThreadRow key r =
    (let owner = (if so_Subject (sr_ThreadOwner r) = '''' then sk_Owner key else sr_ThreadOwner r)
     in \<lparr>tw_orgID = sk_OrgID key, tw_method = so_AuthenticationMethod owner, tw_subject = so_Subject owner,
         tw_threadID = sr_ThreadID r\<rparr>)"

definition threadClosedLocked :: "time \<Rightarrow> submission_record \<Rightarrow> store \<Rightarrow> thread_closed_reason option" where
  "threadClosedLocked now r s =
    (if sr_ThreadID r = '''' then
       if st_unthreadedRetention s \<and> \<not> now < UnthreadedRecordExpiresAt (sr_AdmittedAt r) then Some ThreadClosedExpired
       else None
     else case map_of (st_threads s) (recordThreadRow (sr_Key r) r) of
       None \<Rightarrow> None
     | Some t \<Rightarrow>
         if tr_ClosedAt t \<noteq> None then Some ThreadClosedDeleted
         else if \<not> now < tr_ExpiresAt t then Some ThreadClosedExpired else None)"

definition names_result :: "string \<Rightarrow> string \<Rightarrow> submission_key \<times> submission_record \<Rightarrow> bool" where
  "names_result orgID resultID kr =
    (case kr of (key, r) \<Rightarrow> sk_OrgID key = orgID \<and> (sr_ResultID r = resultID \<or> sr_ReservedResultID r = resultID))"

text \<open>The loop over the records, with its early return.\<close>

fun hidden_loop :: "string \<Rightarrow> string \<Rightarrow> time \<Rightarrow> store \<Rightarrow> (submission_key, submission_record) gomap \<Rightarrow> bool \<Rightarrow> bool" where
  "hidden_loop orgID resultID now s [] named = named"
| "hidden_loop orgID resultID now s ((key, r) # rest) named =
    (if \<not> names_result orgID resultID (key, r) then hidden_loop orgID resultID now s rest named
     else if threadClosedLocked now r s = None then False
     else hidden_loop orgID resultID now s rest True)"

definition hiddenByClosedThreadLocked :: "string \<Rightarrow> string \<Rightarrow> time \<Rightarrow> store \<Rightarrow> bool" where
  "hiddenByClosedThreadLocked orgID resultID now s = hidden_loop orgID resultID now s (st_submissions s) False"

section \<open>Save\<close>

definition RedeemsStructureOffers :: "'x investigation_result_scheme \<Rightarrow> bool" where
  "RedeemsStructureOffers r \<longleftrightarrow> ir_SynthesisSource r \<noteq> ''client'' \<or> ir_SynthesisVersion r \<noteq> ''not_synthesized''"

text \<open>The claims a result makes, as (prior result id, member) pairs.\<close>

definition structureSupersessionClaims :: "'x investigation_result_scheme \<Rightarrow> (string \<times> string) list" where
  "structureSupersessionClaims result =
    (if \<not> RedeemsStructureOffers result then []
     else List.map_filter (\<lambda>e.
       if cs_Disposition e \<noteq> ''applied'' \<or> cs_Source e \<noteq> ''receipt'' then None
       else let prior = TrimSpace (cs_PriorResultID e) in if prior = '''' then None else Some (prior, cs_Member e))
       (ir_ConfirmedStructure result))"

definition claim_key_of :: "string \<Rightarrow> string \<times> string \<Rightarrow> claim_key" where
  "claim_key_of orgID c = \<lparr>ck_orgID = orgID, ck_priorResultID = fst c, ck_member = snd c\<rparr>"

definition ValidateStoredParentResultID :: "string \<Rightarrow> string \<Rightarrow> bool" where
  "ValidateStoredParentResultID resultID parentResultID =
    (let parent = TrimSpace parentResultID
     in if parent = '''' then True
        else if rune_count parent < 8 \<or> rune_count parent > 256 then False
        else parent \<noteq> TrimSpace resultID)"

text \<open>The branch of \<^verbatim>\<open>Save\<close> that finds the result id already stored.\<close>

definition save_replay ::
  "('x, 'w, 's) result_codec \<Rightarrow> string \<Rightarrow> string \<Rightarrow> 'w \<Rightarrow> entry \<Rightarrow> store_error option" where
  "save_replay cd orgID payload semantic existing =
    (if rc_ExplicitNull cd (en_payload existing) then Some ErrStoredInvalid
     else if en_orgID existing \<noteq> orgID then Some ErrOtherOrganization
     else if en_payload existing \<noteq> payload then Some ErrDifferentContent
     else case rc_DecodeSemanticState cd (en_semanticState existing) of
       (storedState, status) \<Rightarrow>
         if status \<noteq> SemanticStateReadAvailable \<and> status \<noteq> SemanticStateReadAbsent then Some ErrSemanticStateReplayConflict
         else if \<not> rc_SemanticStatesEqual cd storedState (rc_WriteState cd semantic) then Some ErrSemanticStateReplayConflict
         else None)"

definition save_fresh ::
  "('x, 'w, 's) result_codec \<Rightarrow> reservation option \<Rightarrow> time \<Rightarrow> principal \<Rightarrow> string \<Rightarrow> string \<Rightarrow>
     'x investigation_result_scheme \<Rightarrow> string \<Rightarrow> string \<Rightarrow> string option \<Rightarrow> store \<Rightarrow> store_error option \<times> store" where
  "save_fresh cd ctx now p orgID resultID result payload parentResultID column s =
    (if IsReservedSave ctx resultID \<and> \<not> reservationHeldLocked p orgID resultID s then (Some ErrReservationGone, s)
     else
       let claims = structureSupersessionClaims result;
           conflicted = filter (\<lambda>c. has_key (st_claims s) (claim_key_of orgID c)) claims
       in if conflicted \<noteq> [] then (Some (ErrStructureOfferSuperseded (map snd conflicted)), s)
          else
            let s1 = s\<lparr>st_claims := fold (\<lambda>c m. put (claim_key_of orgID c) resultID m) claims (st_claims s)\<rparr>
            in case completeSubmissionLocked now p orgID resultID s1 of
                 (owner, s2) \<Rightarrow>
                   (None, s2\<lparr>st_results := put resultID
                      \<lparr>en_orgID = orgID, en_payload = payload, en_parentResultID = TrimSpace parentResultID,
                       en_grantDigest = rc_GrantDigest cd p, en_semanticState = column, en_owner = owner\<rparr> (st_results s2)\<rparr>))"

definition Save ::
  "('x, 'w, 's) result_codec \<Rightarrow> bool \<Rightarrow> reservation option \<Rightarrow> time \<Rightarrow> principal \<Rightarrow> 'x investigation_result_scheme \<Rightarrow>
     string \<Rightarrow> 'w \<Rightarrow> store \<Rightarrow> store_error option \<times> store" where
  "Save cd ctx_err ctx now p result parentResultID semantic s =
    (if ctx_err then (Some ErrContextDone, s)
     else let orgID = TrimSpace (p_OrgID p); resultID = TrimSpace (ir_ResultID result)
     in if orgID = '''' \<or> resultID = '''' then (Some ErrRequired, s)
        else if \<not> ValidateStoredParentResultID resultID parentResultID then (Some ErrInvalidParent, s)
        else if \<not> rc_ValidateResult cd result then (Some ErrInvalidResult, s)
        else case rc_Marshal cd result of None \<Rightarrow> (Some ErrMarshal, s)
        | Some payload \<Rightarrow>
            (case rc_EncodedColumn cd semantic of None \<Rightarrow> (Some ErrSemanticColumn, s)
             | Some column \<Rightarrow>
                 (case map_of (st_results s) resultID of
                    Some existing \<Rightarrow> (save_replay cd orgID payload semantic existing, s)
                  | None \<Rightarrow> save_fresh cd ctx now p orgID resultID result payload parentResultID column s)))"

section \<open>Reads\<close>

definition IsStructureSuperseded :: "string \<Rightarrow> string \<Rightarrow> string \<Rightarrow> store \<Rightarrow> store_error + bool" where
  "IsStructureSuperseded orgID priorResultID member s =
    (let org = TrimSpace orgID; prior = TrimSpace priorResultID
     in if org = '''' \<or> prior = '''' then Inl ErrRequired
        else Inr (has_key (st_claims s) \<lparr>ck_orgID = org, ck_priorResultID = prior, ck_member = member\<rparr>))"

record ('x, 's) stored_result =
  sd_Result :: "'x investigation_result_scheme"
  sd_ParentResultID :: string
  sd_GrantDigest :: string
  sd_SubmissionOwner :: "submission_owner option"
  sd_SemanticState :: "'s option"
  sd_SemanticStateRead :: semantic_read

definition Get ::
  "('x, 'w, 's) result_codec \<Rightarrow> bool \<Rightarrow> time \<Rightarrow> principal \<Rightarrow> string \<Rightarrow> store \<Rightarrow> store_error + ('x, 's) stored_result" where
  "Get cd ctx_err now p resultID s =
    (if ctx_err then Inl ErrContextDone
     else let orgID = TrimSpace (p_OrgID p); rid = TrimSpace resultID
     in if orgID = '''' \<or> rid = '''' then Inl ErrNotFound
        else case map_of (st_results s) rid of
          None \<Rightarrow> Inl ErrNotFound
        | Some e \<Rightarrow>
            if en_orgID e \<noteq> orgID \<or> hiddenByClosedThreadLocked orgID rid now s then Inl ErrNotFound
            else if rc_ExplicitNull cd (en_payload e) then Inl ErrStoredInvalid
            else case rc_Unmarshal cd (en_payload e) of None \<Rightarrow> Inl ErrDecode
            | Some result \<Rightarrow>
                if \<not> rc_ValidateStoredResult cd result then Inl ErrStoredInvalid
                else (case rc_DecodeSemanticState cd (en_semanticState e) of (state, status) \<Rightarrow>
                  Inr \<lparr>sd_Result = result, sd_ParentResultID = en_parentResultID e, sd_GrantDigest = en_grantDigest e,
                       sd_SubmissionOwner = en_owner e, sd_SemanticState = state, sd_SemanticStateRead = status\<rparr>))"

text \<open>The scan of \<^verbatim>\<open>ResultIDsCitingEvidence\<close>: \<open>None\<close> when a payload does not decode.\<close>

fun citing_scan ::
  "('x, 'w, 's) result_codec \<Rightarrow> string \<Rightarrow> string \<Rightarrow> (string, entry) gomap \<Rightarrow> (string \<times> time) list option" where
  "citing_scan cd orgID ref [] = Some []"
| "citing_scan cd orgID ref ((rid, e) # rest) =
    (if en_orgID e \<noteq> orgID then citing_scan cd orgID ref rest
     else case rc_Unmarshal cd (en_payload e) of None \<Rightarrow> None
       | Some result \<Rightarrow> (case citing_scan cd orgID ref rest of None \<Rightarrow> None
           | Some found \<Rightarrow> Some (if ref \<in> set (rc_EvidenceRefClosure cd result)
               then (rid, ir_GeneratedAt result) # found else found)))"

definition citing_before :: "string \<times> time \<Rightarrow> string \<times> time \<Rightarrow> bool" where
  "citing_before a b = (if snd a \<noteq> snd b then snd b < snd a else fst b < fst a)"

definition ResultIDsCitingEvidence ::
  "('x, 'w, 's) result_codec \<Rightarrow> bool \<Rightarrow> principal \<Rightarrow> string \<Rightarrow> int \<Rightarrow> int \<Rightarrow> store \<Rightarrow> store_error + string list" where
  "ResultIDsCitingEvidence cd ctx_err p ref offset limit s =
    (if ctx_err then Inl ErrContextDone
     else let orgID = TrimSpace (p_OrgID p)
     in if orgID = '''' \<or> ref = '''' \<or> limit \<le> 0 \<or> offset < 0 then Inr []
        else case citing_scan cd orgID ref (st_results s) of None \<Rightarrow> Inl ErrDecode
        | Some found \<Rightarrow> Inr (map fst (take (nat limit) (drop (nat offset) (sort_slice citing_before found)))))"

end
