(* ===== verification/Investigation_Submissions.thy ===== *)
theory Investigation_Submissions
  imports Investigation_Store
begin

text \<open>
  \<^verbatim>\<open>memoryinvestigation/submissions.go\<close>: admission of a submission under the shared limits,
  the reconcile rule, and the operations that end a submission. \<open>findThreadLocked\<close> of
  \<^verbatim>\<open>threads.go\<close> is here because admission calls it.
\<close>

section \<open>Finding records and threads\<close>

definition same_submission :: "submission_key \<Rightarrow> submission_key \<Rightarrow> bool" where
  "same_submission stored key \<longleftrightarrow> sk_OrgID stored = sk_OrgID key \<and> sk_SubmissionID stored = sk_SubmissionID key
     \<and> SameSubmissionOwner (sk_Owner stored) (sk_Owner key)"

text \<open>
  \<^verbatim>\<open>findSubmissionLocked\<close>: the record of the key itself, else a record of the same submission held under
  another credential of its user. The code ranges over the map in no fixed order; here the first entry that
  matches is taken. The properties of admissions state of the record found only that it matches.
\<close>

definition findSubmissionLocked :: "submission_key \<Rightarrow> store \<Rightarrow> (submission_key \<times> submission_record) option" where
  "findSubmissionLocked key s =
    (case record_at s key of
       Some r \<Rightarrow> Some (key, r)
     | None \<Rightarrow> List.find (\<lambda>(stored, _). same_submission stored key) (st_submissions s))"

definition validSubmissionKey :: "submission_key \<Rightarrow> bool" where
  "validSubmissionKey key \<longleftrightarrow>
     \<not> (TrimSpace (sk_OrgID key) = '''' \<or> so_Subject (sk_Owner key) = '''' \<or> so_AuthenticationMethod (sk_Owner key) = '''')
     \<and> ValidSubmissionID (sk_SubmissionID key)"

definition threadRowPreferred :: "thread_record \<Rightarrow> thread_record \<Rightarrow> submission_owner \<Rightarrow> bool" where
  "threadRowPreferred a b owner =
    (let oa = tk_Owner (tr_Key a); ob = tk_Owner (tr_Key b);
         ownA = (so_AuthenticationMethod oa = so_AuthenticationMethod owner \<and> so_Subject oa = so_Subject owner);
         ownB = (so_AuthenticationMethod ob = so_AuthenticationMethod owner \<and> so_Subject ob = so_Subject owner)
     in if ownA \<noteq> ownB then ownA
        else if tr_CreatedAt a \<noteq> tr_CreatedAt b then tr_CreatedAt a < tr_CreatedAt b
        else if so_AuthenticationMethod oa \<noteq> so_AuthenticationMethod ob
        then so_AuthenticationMethod oa < so_AuthenticationMethod ob
        else so_Subject oa < so_Subject ob)"

fun find_thread_loop ::
  "string \<Rightarrow> submission_owner \<Rightarrow> string \<Rightarrow> (thread_row_key, thread_record) gomap \<Rightarrow> thread_record option \<Rightarrow> thread_record option" where
  "find_thread_loop orgID owner threadID [] best = best"
| "find_thread_loop orgID owner threadID ((key, t) # rest) best =
    (if tw_orgID key \<noteq> orgID \<or> tw_threadID key \<noteq> threadID \<or> \<not> SameSubmissionOwner (tk_Owner (tr_Key t)) owner
     then find_thread_loop orgID owner threadID rest best
     else find_thread_loop orgID owner threadID rest
       (case best of None \<Rightarrow> Some t | Some b \<Rightarrow> if threadRowPreferred t b owner then Some t else best))"

definition findThreadLocked :: "string \<Rightarrow> submission_owner \<Rightarrow> string \<Rightarrow> store \<Rightarrow> thread_record option" where
  "findThreadLocked orgID owner threadID s = find_thread_loop orgID owner threadID (st_threads s) None"

section \<open>The reconcile rule\<close>

definition reconcileLocked :: "time \<Rightarrow> submission_record \<Rightarrow> store \<Rightarrow> submission_record \<times> bool" where
  "reconcileLocked now r s =
    (if sr_State r \<noteq> SubmissionRunning \<and> sr_State r \<noteq> SubmissionAbandoned then (r, False)
     else if ownedByLocked (sr_ReservedResultID r) (sr_Key r) s
     then (r\<lparr>sr_State := SubmissionDone, sr_ResultID := sr_ReservedResultID r, sr_UpdatedAt := now\<rparr>, True)
     else if sr_State r = SubmissionRunning \<and> \<not> now < sr_ExpiresAt r
     then (r\<lparr>sr_State := SubmissionAbandoned, sr_UpdatedAt := now\<rparr>, True)
     else (r, False))"

text \<open>Reconcile the record stored under a key and return it with its thread's closure.\<close>

definition reconcile_at :: "time \<Rightarrow> submission_key \<Rightarrow> submission_record \<Rightarrow> store \<Rightarrow> submission_record \<times> store" where
  "reconcile_at now key r s =
    (case reconcileLocked now r s of (r', changed) \<Rightarrow>
       let s' = (if changed then put_record key r' s else s)
       in (r'\<lparr>sr_ThreadClosed := threadClosedLocked now r' s'\<rparr>, s'))"

definition liveLocked :: "time \<Rightarrow> submission_record \<Rightarrow> store \<Rightarrow> bool" where
  "liveLocked now r s =
    (if sr_State r \<noteq> SubmissionRunning \<or> \<not> now < sr_ExpiresAt r then False
     else case map_of (st_results s) (sr_ReservedResultID r) of
       None \<Rightarrow> True | Some e \<Rightarrow> en_orgID e \<noteq> sk_OrgID (sr_Key r))"

section \<open>Admission\<close>

definition usage_at :: "store \<Rightarrow> usage_key \<Rightarrow> int" where
  "usage_at s k = lookup_or 0 (st_usage s) k"

definition ReadUsageMonthly :: "bool \<Rightarrow> string \<Rightarrow> time \<Rightarrow> store \<Rightarrow> store_error + int option" where
  "ReadUsageMonthly ctx_err orgID month s =
    (if ctx_err then Inl ErrContextDone else Inr (map_of (st_usage s) \<lparr>uk_orgID = orgID, uk_month = UsageMonth month\<rparr>))"

definition DeleteSubmissionsForTest :: "string \<Rightarrow> store \<Rightarrow> store" where
  "DeleteSubmissionsForTest orgID s =
    fold (\<lambda>(key, r) s. if sk_OrgID key = orgID
        then s\<lparr>st_submissions := del key (st_submissions s),
               st_reserved := del \<lparr>rv_orgID = orgID, rv_resultID = sr_ReservedResultID r\<rparr> (st_reserved s),
               st_runEvents := del (RunKeyOf r) (st_runEvents s)\<rparr>
        else s) (st_submissions s) s"

definition admission_valid :: "submission_admission \<Rightarrow> time \<Rightarrow> bool" where
  "admission_valid a now \<longleftrightarrow> validSubmissionKey (adm_Key a)
     \<and> \<not> (adm_RequestDigest a = '''' \<or> adm_ReservedResultID a = '''' \<or> \<not> now < adm_ExpiresAt a)
     \<and> \<not> (adm_ThreadID a \<noteq> '''' \<and> \<not> ValidSubmissionID (adm_ThreadID a))
     \<and> (case adm_ThreadRetention a of None \<Rightarrow> True | Some r \<Rightarrow> retention_Valid r)
     \<and> (case adm_Lease a of None \<Rightarrow> True | Some g \<Rightarrow> grant_Valid g \<and> now < rg_ExpiresAt g)"

definition org_running :: "string \<Rightarrow> time \<Rightarrow> store \<Rightarrow> int" where
  "org_running orgID now s = count_entries (\<lambda>key r. sk_OrgID key = orgID \<and> liveLocked now r s) (st_submissions s)"

definition principal_running :: "submission_key \<Rightarrow> time \<Rightarrow> store \<Rightarrow> int" where
  "principal_running k now s =
    count_entries (\<lambda>key r. sk_OrgID key = sk_OrgID k \<and> liveLocked now r s \<and> SameSubmissionOwner (sk_Owner key) (sk_Owner k))
      (st_submissions s)"

text \<open>The refusals of the shared limits, in the order the code decides them.\<close>

definition limit_refusal :: "submission_admission \<Rightarrow> time \<Rightarrow> store \<Rightarrow> submission_refused_error option" where
  "limit_refusal a now s =
    (let limits = Effective (adm_Limits a);
         principalRunning = principal_running (adm_Key a) now s;
         orgRunning = org_running (sk_OrgID (adm_Key a)) now s;
         runs = usage_at s \<lparr>uk_orgID = sk_OrgID (adm_Key a), uk_month = UsageMonth now\<rparr>
     in if principalRunning \<ge> MaxRunningPerPrincipal limits
        then Some \<lparr>re_Refusal = SubmissionRefusedPrincipalConcurrency, re_Count = principalRunning,
                   re_Limit = MaxRunningPerPrincipal limits, re_RetryAfter = SubmissionConcurrencyRetryAfter\<rparr>
        else if orgRunning \<ge> MaxRunningPerOrg limits
        then Some \<lparr>re_Refusal = SubmissionRefusedOrgConcurrency, re_Count = orgRunning,
                   re_Limit = MaxRunningPerOrg limits, re_RetryAfter = SubmissionConcurrencyRetryAfter\<rparr>
        else if adm_PlatformRun a \<and> runs \<ge> MonthlyPlatformRunAllowance limits
        then Some \<lparr>re_Refusal = SubmissionRefusedAllowanceExhausted, re_Count = runs,
                   re_Limit = MonthlyPlatformRunAllowance limits, re_RetryAfter = AllowanceRetryAfter now\<rparr>
        else None)"

definition new_record :: "submission_admission \<Rightarrow> submission_owner \<Rightarrow> time \<Rightarrow> submission_record" where
  "new_record a threadOwner now =
    \<lparr>sr_Key = adm_Key a, sr_RequestDigest = adm_RequestDigest a, sr_ReservedResultID = adm_ReservedResultID a,
     sr_State = SubmissionRunning, sr_ResultID = '''', sr_ThreadID = adm_ThreadID a,
     sr_AdmittedAt = now, sr_UpdatedAt = now, sr_ExpiresAt = adm_ExpiresAt a,
     sr_Question = (if adm_ThreadID a \<noteq> '''' then adm_Question a else ''''), sr_ThreadClosed = None,
     sr_ThreadOwner = (if adm_ThreadID a \<noteq> '''' then threadOwner else zero_owner),
     sr_LeaseHolder = (case adm_Lease a of None \<Rightarrow> '''' | Some g \<Rightarrow> rg_Holder g),
     sr_LeaseExpiresAt = (case adm_Lease a of None \<Rightarrow> 0 | Some g \<Rightarrow> rg_ExpiresAt g),
     sr_RunRequestID = (case adm_Lease a of None \<Rightarrow> '''' | Some g \<Rightarrow> rg_RequestID g), sr_CancelRequestedAt = 0\<rparr>"

text \<open>The writes of an admission: usage, thread row, record and index.\<close>

definition admit_write :: "submission_admission \<Rightarrow> thread_record option \<Rightarrow> time \<Rightarrow> store \<Rightarrow> submission_record \<times> store" where
  "admit_write a thread now s =
    (let threadKey = (case thread of Some t \<Rightarrow> tr_Key t
           | None \<Rightarrow> \<lparr>tk_OrgID = sk_OrgID (adm_Key a), tk_Owner = sk_Owner (adm_Key a), tk_ThreadID = adm_ThreadID a\<rparr>);
         month = \<lparr>uk_orgID = sk_OrgID (adm_Key a), uk_month = UsageMonth now\<rparr>;
         r = new_record a (tk_Owner threadKey) now;
         s1 = (if adm_PlatformRun a then s\<lparr>st_usage := put month (usage_at s month + 1) (st_usage s)\<rparr> else s);
         s2 = (if adm_ThreadID a \<noteq> ''''
               then s1\<lparr>st_threads := put (rowKeyOf threadKey)
                      (AdvanceThread thread threadKey (ThreadTurnCursor now (sk_SubmissionID (adm_Key a))) (adm_ThreadRetention a))
                      (st_threads s1)\<rparr>
               else s1)
     in (r, s2\<lparr>st_submissions := put (adm_Key a) r (st_submissions s2),
               st_reserved := put \<lparr>rv_orgID = sk_OrgID (adm_Key a), rv_resultID = adm_ReservedResultID a\<rparr> (adm_Key a) (st_reserved s2)\<rparr>))"

definition AdmitSubmission ::
  "bool \<Rightarrow> submission_admission \<Rightarrow> time \<Rightarrow> store \<Rightarrow> (store_error + (submission_record \<times> bool)) \<times> store" where
  "AdmitSubmission ctx_err a now s =
    (if ctx_err then (Inl ErrContextDone, s)
     else if \<not> admission_valid a now then (Inl ErrRequired, s)
     else case findSubmissionLocked (adm_Key a) s of
       Some (storedKey, existing) \<Rightarrow>
         (case reconcile_at now storedKey existing s of (r, s') \<Rightarrow> (Inr (r, False), s'))
     | None \<Rightarrow>
         let thread = (if adm_ThreadID a = '''' then None
                       else findThreadLocked (sk_OrgID (adm_Key a)) (sk_Owner (adm_Key a)) (adm_ThreadID a) s)
         in case Option.bind thread (thread_ClosedReason now) of
              Some reason \<Rightarrow> (Inl (ErrThreadClosed reason), s)
            | None \<Rightarrow>
                if reservation_of s (sk_OrgID (adm_Key a)) (adm_ReservedResultID a) \<noteq> None then (Inl ErrReservedTaken, s)
                else (case limit_refusal a now s of
                    Some e \<Rightarrow> (Inl (ErrSubmissionRefused e), s)
                  | None \<Rightarrow> (case admit_write a thread now s of (r, s') \<Rightarrow> (Inr (r, True), s'))))"

section \<open>Reading and ending a submission\<close>

definition GetSubmission :: "bool \<Rightarrow> submission_key \<Rightarrow> time \<Rightarrow> store \<Rightarrow> (store_error + submission_record) \<times> store" where
  "GetSubmission ctx_err key now s =
    (if ctx_err then (Inl ErrContextDone, s)
     else if \<not> validSubmissionKey key then (Inl ErrSubmissionNotFound, s)
     else case findSubmissionLocked key s of
       None \<Rightarrow> (Inl ErrSubmissionNotFound, s)
     | Some (storedKey, r) \<Rightarrow> (case reconcile_at now storedKey r s of (r', s') \<Rightarrow> (Inr r', s')))"

definition FinishSubmission ::
  "bool \<Rightarrow> submission_key \<Rightarrow> string \<Rightarrow> time \<Rightarrow> store \<Rightarrow> (store_error + (submission_record \<times> submission_completion)) \<times> store" where
  "FinishSubmission ctx_err key servedResultID now s =
    (if \<not> validSubmissionKey key then (Inl ErrRequired, s)
     else if ctx_err then (Inl ErrContextDone, s)
     else case findSubmissionLocked key s of
       None \<Rightarrow> (Inl ErrSubmissionNotFound, s)
     | Some (storedKey, r) \<Rightarrow>
         if sr_State r \<noteq> SubmissionRunning
         then (Inr (r, if sr_State r = SubmissionAbandoned then SubmissionCompletionNotRunning
                       else SubmissionCompletionAlreadyFinal), s)
         else if servedResultID \<noteq> '''' \<and> ownedByLocked servedResultID storedKey s
         then let r' = r\<lparr>sr_State := SubmissionDone, sr_ResultID := servedResultID, sr_UpdatedAt := now\<rparr>
              in (Inr (r', SubmissionCompletionServedStored), put_record storedKey r' s)
         else let r' = r\<lparr>sr_State := SubmissionDoneUnsaved, sr_UpdatedAt := now\<rparr>
              in (Inr (r', SubmissionCompletionServedUnsaved), put_record storedKey r' s))"

definition AbandonSubmission :: "bool \<Rightarrow> submission_key \<Rightarrow> time \<Rightarrow> store \<Rightarrow> (store_error + submission_record) \<times> store" where
  "AbandonSubmission ctx_err key now s =
    (if \<not> validSubmissionKey key then (Inl ErrRequired, s)
     else if ctx_err then (Inl ErrContextDone, s)
     else case findSubmissionLocked key s of
       None \<Rightarrow> (Inl ErrSubmissionNotFound, s)
     | Some (storedKey, r) \<Rightarrow>
         if sr_State r = SubmissionRunning
         then let r' = r\<lparr>sr_State := SubmissionAbandoned, sr_UpdatedAt := now\<rparr> in (Inr r', put_record storedKey r' s)
         else (Inr r, s))"

text \<open>\<^verbatim>\<open>SweepSubmissions\<close>: reconciling a record reads the results only, so each record is decided alone.\<close>

definition sweep_counts :: "time \<Rightarrow> store \<Rightarrow> submission_sweep" where
  "sweep_counts now s =
    \<lparr>sw_Completed = count_entries (\<lambda>key r. snd (reconcileLocked now r s) \<and> sr_State (fst (reconcileLocked now r s)) = SubmissionDone) (st_submissions s),
     sw_Abandoned = count_entries (\<lambda>key r. snd (reconcileLocked now r s) \<and> sr_State (fst (reconcileLocked now r s)) \<noteq> SubmissionDone) (st_submissions s)\<rparr>"

definition SweepSubmissions :: "bool \<Rightarrow> time \<Rightarrow> store \<Rightarrow> (store_error + submission_sweep) \<times> store" where
  "SweepSubmissions ctx_err now s =
    (if ctx_err then (Inl ErrContextDone, s)
     else (Inr (sweep_counts now s),
           s\<lparr>st_submissions := map (\<lambda>(key, r). (key, fst (reconcileLocked now r s))) (st_submissions s)\<rparr>))"

definition MarkSubmissionUnsaved :: "bool \<Rightarrow> principal \<Rightarrow> string \<Rightarrow> time \<Rightarrow> store \<Rightarrow> (store_error + bool) \<times> store" where
  "MarkSubmissionUnsaved ctx_err p resultID now s =
    (if ctx_err then (Inl ErrContextDone, s)
     else case reservation_of s (TrimSpace (p_OrgID p)) resultID of
       None \<Rightarrow> (Inr False, s)
     | Some key \<Rightarrow> (case record_at s key of
         None \<Rightarrow> (Inr False, s)
       | Some r \<Rightarrow>
           if sr_State r \<noteq> SubmissionRunning \<or> \<not> owner_Is (sk_Owner (sr_Key r)) p then (Inr False, s)
           else (Inr True, put_record key (r\<lparr>sr_State := SubmissionDoneUnsaved, sr_UpdatedAt := now\<rparr>) s)))"

end
