(* ===== verification/Investigation_Runs.thy ===== *)
theory Investigation_Runs
  imports Investigation_Submissions
begin

text \<open>
  \<^verbatim>\<open>memoryinvestigation/runs.go\<close>: the run lease (renewal, cancel request, takeover of a lost run)
  and the event log of a run.
\<close>

definition recordOfRunLocked :: "run_key \<Rightarrow> store \<Rightarrow> (submission_key \<times> submission_record) option" where
  "recordOfRunLocked run s =
    (case reservation_of s (rk_OrgID run) (rk_ReservedResultID run) of
       None \<Rightarrow> None
     | Some key \<Rightarrow> map_option (Pair key) (record_at s key))"

text \<open>
  The answer for a run that is not found has \<^verbatim>\<open>Found\<close> false; its state, which is the empty string in the code
  and which no caller reads then, is \<open>SubmissionRunning\<close> here, since the datatype has no empty state.
\<close>

definition CheckRunLease ::
  "bool \<Rightarrow> run_key \<Rightarrow> string \<Rightarrow> time \<Rightarrow> store \<Rightarrow> (store_error + run_lease_check) \<times> store" where
  "CheckRunLease ctx_err run holder renewUntil s =
    (if ctx_err then (Inl ErrContextDone, s)
     else case recordOfRunLocked run s of
       None \<Rightarrow> (Inr \<lparr>rl_Found = False, rl_State = SubmissionRunning, rl_Holder = '''', rl_Renewed = False, rl_CancelRequestedAt = 0\<rparr>, s)
     | Some (key, r) \<Rightarrow>
         let check = \<lparr>rl_Found = True, rl_State = sr_State r, rl_Holder = sr_LeaseHolder r, rl_Renewed = False,
                      rl_CancelRequestedAt = sr_CancelRequestedAt r\<rparr>
         in if check_Held holder check \<and> \<not> IsZero renewUntil
            then (Inr (check\<lparr>rl_Renewed := True\<rparr>),
                  if sr_LeaseExpiresAt r < renewUntil then put_record key (r\<lparr>sr_LeaseExpiresAt := renewUntil\<rparr>) s else s)
            else (Inr check, s))"

text \<open>
  \<^verbatim>\<open>RequestRunCancel\<close> locks three times. Each locked section is one step of the machine, with
  the operations of other requests between them.
\<close>

definition cancel_wanted :: "submission_record \<Rightarrow> bool" where
  "cancel_wanted r \<longleftrightarrow> sr_State r = SubmissionRunning \<and> Leased r \<and> IsZero (sr_CancelRequestedAt r)"

definition cancel_section :: "submission_key \<Rightarrow> time \<Rightarrow> store \<Rightarrow> store" where
  "cancel_section key now s =
    (case findSubmissionLocked key s of
       None \<Rightarrow> s
     | Some (stored, current) \<Rightarrow>
         if cancel_wanted current then put_record stored (current\<lparr>sr_CancelRequestedAt := now\<rparr>) s else s)"

definition RequestRunCancel :: "bool \<Rightarrow> submission_key \<Rightarrow> time \<Rightarrow> store \<Rightarrow> (store_error + submission_record) \<times> store" where
  "RequestRunCancel ctx_err key now s =
    (case GetSubmission ctx_err key now s of
       (Inl e, s') \<Rightarrow> (Inl e, s')
     | (Inr r, s') \<Rightarrow>
         if sr_ThreadClosed r \<noteq> None \<or> \<not> cancel_wanted r then (Inr r, s')
         else GetSubmission ctx_err key now (cancel_section key now s'))"

section \<open>The event log\<close>

definition run_log :: "run_key \<Rightarrow> store \<Rightarrow> run_event list" where
  "run_log run s = lookup_or [] (st_runEvents s) run"

definition is_terminal :: "run_event \<Rightarrow> bool" where
  "is_terminal e \<longleftrightarrow> ev_Terminal e \<noteq> None"

definition hasTerminal :: "run_event list \<Rightarrow> bool" where
  "hasTerminal rows = list_ex is_terminal rows"

definition terminal_valid :: "run_event \<Rightarrow> bool" where
  "terminal_valid e =
    (case ev_Terminal e of None \<Rightarrow> True
     | Some t \<Rightarrow> (case te_Kind t of
         RunTerminalResult \<Rightarrow> te_ResultID t \<noteq> ''''
       | RunTerminalUnsaved \<Rightarrow> True
       | RunTerminalError \<Rightarrow> te_Error t \<noteq> None
       | RunTerminalOther _ \<Rightarrow> False))"

definition seq_before :: "run_event \<Rightarrow> run_event \<Rightarrow> bool" where
  "seq_before a b \<longleftrightarrow> ev_Seq a < ev_Seq b"

text \<open>A sequence number and a bound are positive \<^verbatim>\<open>int64\<close>, so their difference stays in range.\<close>

definition append_rows :: "run_event list \<Rightarrow> run_event \<Rightarrow> int \<Rightarrow> run_event list" where
  "append_rows rows event maxEvents =
    (let sorted = sort_slice seq_before (rows @ [event])
     in if is_terminal event then sorted
        else filter (\<lambda>row. is_terminal row \<or> ev_Seq row > ev_Seq event - maxEvents) sorted)"

definition AppendRunEvent ::
  "bool \<Rightarrow> run_key \<Rightarrow> run_event \<Rightarrow> int \<Rightarrow> time \<Rightarrow> store \<Rightarrow> (store_error + bool) \<times> store" where
  "AppendRunEvent ctx_err run event maxEvents now s =
    (if ctx_err then (Inl ErrContextDone, s)
     else if ev_Seq event < 1 then (Inl ErrRunEventSeq, s)
     else if \<not> terminal_valid event then (Inl ErrRequired, s)
     else if recordOfRunLocked run s = None then (Inl ErrRunRecordMissing, s)
     else let rows = run_log run s
     in case List.find (\<lambda>row. ev_Seq row = ev_Seq event) rows of
          Some row \<Rightarrow> if is_terminal event \<and> is_terminal row then (Inr False, s) else (Inl ErrRunEventSeq, s)
        | None \<Rightarrow>
            if hasTerminal rows then (if is_terminal event then (Inr False, s) else (Inl ErrRunEventSeq, s))
            else let bound = (if maxEvents < 1 then RunEventLogMaxEvents else maxEvents)
                 in (Inr True, s\<lparr>st_runEvents := put run (append_rows rows (event\<lparr>ev_WrittenAt := now\<rparr>) bound) (st_runEvents s)\<rparr>))"

definition ReadRunEvents :: "bool \<Rightarrow> run_key \<Rightarrow> int \<Rightarrow> int \<Rightarrow> store \<Rightarrow> store_error + run_event_page" where
  "ReadRunEvents ctx_err run afterSeq limit s =
    (if ctx_err then Inl ErrContextDone
     else case recordOfRunLocked run s of None \<Rightarrow> Inl ErrSubmissionNotFound
     | Some (_, r) \<Rightarrow>
         let rows = run_log run s; bound = (if limit < 1 then RunEventLogMaxEvents else limit)
         in Inr \<lparr>rp_Events = take (nat bound) (filter (\<lambda>row. ev_Seq row > afterSeq) rows),
                 rp_FirstSeq = (if rows = [] then 0 else ev_Seq (hd rows)),
                 rp_LastSeq = (if rows = [] then 0 else ev_Seq (last rows)),
                 rp_TerminalSeq = (let ts = filter is_terminal rows in if ts = [] then 0 else ev_Seq (last ts)),
                 rp_LastStageStarted = (if rows = [] then '''' else ev_LastStageStarted (last rows)), rp_Record = r\<rparr>)"

definition RunTerminalOf :: "bool \<Rightarrow> run_key \<Rightarrow> store \<Rightarrow> store_error + run_event option" where
  "RunTerminalOf ctx_err run s =
    (if ctx_err then Inl ErrContextDone else Inr (List.find is_terminal (run_log run s)))"

section \<open>Takeover of lost runs\<close>

definition lost :: "run_key option \<Rightarrow> time \<Rightarrow> submission_key \<Rightarrow> submission_record \<Rightarrow> store \<Rightarrow> bool" where
  "lost only now key r s \<longleftrightarrow>
     \<not> (case only of None \<Rightarrow> False | Some run \<Rightarrow> run \<noteq> RunKeyOf r) \<and>
     \<not> (sr_State r \<noteq> SubmissionRunning \<or> \<not> Leased r \<or> now < sr_LeaseExpiresAt r
        \<or> ownedByLocked (sr_ReservedResultID r) key s)"

definition lost_event :: "run_event list \<Rightarrow> string \<Rightarrow> time \<Rightarrow> run_event" where
  "lost_event rows envelope now =
    \<lparr>ev_Seq = (if rows = [] then 1 else wrap64 (ev_Seq (last rows) + 1)), ev_Type = ''error'',
     ev_LastStageStarted = (if rows = [] then '''' else ev_LastStageStarted (last rows)), ev_Data = '''',
     ev_Terminal = Some \<lparr>te_Kind = RunTerminalError, te_ResultID = '''', te_Error = Some envelope\<rparr>, ev_WrittenAt = now\<rparr>"

definition take_over ::
  "string \<Rightarrow> (string \<Rightarrow> string) \<Rightarrow> time \<Rightarrow> submission_key \<Rightarrow> submission_record \<Rightarrow> store \<Rightarrow> lost_run \<times> store" where
  "take_over taker lostTerminal now key r s =
    (let run = RunKeyOf r;
         rows = run_log run s;
         s1 = put_record key (r\<lparr>sr_State := SubmissionAbandoned, sr_LeaseHolder := taker, sr_UpdatedAt := now\<rparr>) s;
         event = lost_event rows (lostTerminal (sr_RunRequestID r)) now
     in (\<lparr>lr_Run = run, lr_RequestID = sr_RunRequestID r, lr_TerminalSeq = ev_Seq event,
          lr_PreviousHolder = sr_LeaseHolder r, lr_LeaseExpiredAt = sr_LeaseExpiresAt r, lr_TerminalAppended = \<not> hasTerminal rows\<rparr>,
         if hasTerminal rows then s1 else s1\<lparr>st_runEvents := put run (rows @ [event]) (st_runEvents s1)\<rparr>))"

fun reap_loop ::
  "string \<Rightarrow> (string \<Rightarrow> string) \<Rightarrow> run_key option \<Rightarrow> time \<Rightarrow> (submission_key, submission_record) gomap \<Rightarrow> store \<Rightarrow> lost_run list \<times> store" where
  "reap_loop taker lostTerminal only now [] s = ([], s)"
| "reap_loop taker lostTerminal only now ((key, r) # rest) s =
    (if lost only now key r s
     then (case take_over taker lostTerminal now key r s of (l, s1) \<Rightarrow>
             (case reap_loop taker lostTerminal only now rest s1 of (ls, s2) \<Rightarrow> (l # ls, s2)))
     else reap_loop taker lostTerminal only now rest s)"

definition ReapLostRuns ::
  "bool \<Rightarrow> string \<Rightarrow> run_key option \<Rightarrow> (string \<Rightarrow> string) \<Rightarrow> time \<Rightarrow> store \<Rightarrow> (store_error + lost_run list) \<times> store" where
  "ReapLostRuns ctx_err taker only lostTerminal now s =
    (if ctx_err then (Inl ErrContextDone, s)
     else if taker = '''' then (Inl ErrRequired, s)
     else (case reap_loop taker lostTerminal only now (st_submissions s) s of (ls, s') \<Rightarrow> (Inr ls, s')))"

end
