(* ===== verification/Investigation_Threads.thy ===== *)
theory Investigation_Threads
  imports Investigation_Runs
begin

text \<open>
  \<^verbatim>\<open>memoryinvestigation/threads.go\<close> (listing, reading and closing a conversation) and
  \<^verbatim>\<open>feedback.go\<close> (the owner's feedback on a result).
\<close>

definition validThreadKey :: "thread_key \<Rightarrow> bool" where
  "validThreadKey key \<longleftrightarrow>
     \<not> (TrimSpace (tk_OrgID key) = '''' \<or> so_Subject (tk_Owner key) = '''' \<or> so_AuthenticationMethod (tk_Owner key) = '''')
     \<and> ValidSubmissionID (tk_ThreadID key)"

section \<open>Listing\<close>

definition threadListBefore :: "thread_record \<Rightarrow> thread_record \<Rightarrow> bool" where
  "threadListBefore a b =
    (if tr_LastTurnAt a \<noteq> tr_LastTurnAt b then tr_LastTurnAt b < tr_LastTurnAt a
     else tk_ThreadID (tr_Key a) < tk_ThreadID (tr_Key b))"

definition threadListAfter :: "thread_record \<Rightarrow> thread_list_cursor \<Rightarrow> bool" where
  "threadListAfter t cursor =
    (if tr_LastTurnAt t \<noteq> lc_LastTurnAt cursor then tr_LastTurnAt t < lc_LastTurnAt cursor
     else lc_ThreadID cursor < tk_ThreadID (tr_Key t))"

text \<open>The records linked to a thread row, in the order of the map.\<close>

definition thread_linked :: "thread_record \<Rightarrow> submission_key \<Rightarrow> submission_record \<Rightarrow> bool" where
  "thread_linked t key r \<longleftrightarrow> sr_ThreadID r = tk_ThreadID (tr_Key t) \<and> recordThreadRow key r = rowKeyOf (tr_Key t)"

definition cursor_of :: "submission_key \<Rightarrow> submission_record \<Rightarrow> thread_turn_cursor" where
  "cursor_of key r = ThreadTurnCursor (sr_AdmittedAt r) (sk_SubmissionID key)"

fun first_question_loop ::
  "thread_record \<Rightarrow> (submission_key, submission_record) gomap \<Rightarrow> (thread_turn_cursor \<times> string) option \<Rightarrow> string" where
  "first_question_loop t [] first = (case first of None \<Rightarrow> '''' | Some (_, q) \<Rightarrow> q)"
| "first_question_loop t ((key, r) # rest) first =
    (if \<not> thread_linked t key r then first_question_loop t rest first
     else first_question_loop t rest
       (case first of None \<Rightarrow> Some (cursor_of key r, sr_Question r)
        | Some (c, q) \<Rightarrow> if cursor_Before (cursor_of key r) c then Some (cursor_of key r, sr_Question r) else first))"

definition firstQuestionLocked :: "thread_record \<Rightarrow> store \<Rightarrow> string" where
  "firstQuestionLocked t s = first_question_loop t (st_submissions s) None"

fun reached_loop ::
  "string \<Rightarrow> submission_owner \<Rightarrow> (thread_row_key, thread_record) gomap \<Rightarrow> (string, thread_record) gomap \<Rightarrow> (string, thread_record) gomap" where
  "reached_loop orgID owner [] reached = reached"
| "reached_loop orgID owner ((key, t) # rest) reached =
    (if tw_orgID key \<noteq> orgID \<or> \<not> SameSubmissionOwner (tk_Owner (tr_Key t)) owner then reached_loop orgID owner rest reached
     else reached_loop orgID owner rest
       (case map_of reached (tw_threadID key) of
          None \<Rightarrow> put (tw_threadID key) t reached
        | Some best \<Rightarrow> if threadRowPreferred t best owner then put (tw_threadID key) t reached else reached))"

definition ListThreads ::
  "bool \<Rightarrow> string \<Rightarrow> submission_owner \<Rightarrow> thread_list_cursor option \<Rightarrow> int \<Rightarrow> time \<Rightarrow> store \<Rightarrow>
     store_error + (thread_record list \<times> bool)" where
  "ListThreads ctx_err orgID owner after limit now s =
    (if ctx_err then Inl ErrContextDone
     else if TrimSpace orgID = '''' \<or> so_Subject owner = '''' \<or> so_AuthenticationMethod owner = '''' \<or> limit < 1 then Inl ErrRequired
     else
       let reached = map snd (reached_loop orgID owner (st_threads s) []);
           open = sort_slice threadListBefore
             (filter (\<lambda>t. \<not> thread_Closed now t \<and> (case after of None \<Rightarrow> True | Some c \<Rightarrow> threadListAfter t c)) reached);
           more = int (length open) > limit
       in Inr (map (\<lambda>t. t\<lparr>tr_FirstQuestion := firstQuestionLocked t s\<rparr>) (take (nat limit) open), more))"

section \<open>Reading\<close>

definition turn_of :: "submission_key \<Rightarrow> submission_record \<Rightarrow> thread_turn" where
  "turn_of key r = \<lparr>tt_SubmissionID = sk_SubmissionID key, tt_State = sr_State r, tt_ResultID = sr_ResultID r,
     tt_Question = sr_Question r, tt_AdmittedAt = sr_AdmittedAt r, tt_UpdatedAt = sr_UpdatedAt r\<rparr>"

definition turn_before :: "thread_turn \<Rightarrow> thread_turn \<Rightarrow> bool" where
  "turn_before a b = cursor_Before (ThreadTurnCursor (tt_AdmittedAt a) (tt_SubmissionID a))
     (ThreadTurnCursor (tt_AdmittedAt b) (tt_SubmissionID b))"

definition page_linked :: "thread_record \<Rightarrow> thread_turn_cursor option \<Rightarrow> submission_key \<Rightarrow> submission_record \<Rightarrow> bool" where
  "page_linked t before key r \<longleftrightarrow> thread_linked t key r \<and>
     (case before of None \<Rightarrow> True | Some c \<Rightarrow> cursor_Before (cursor_of key r) c)"

text \<open>Every linked record is reconciled while the page is collected.\<close>

definition GetThread ::
  "bool \<Rightarrow> thread_key \<Rightarrow> thread_turn_cursor option \<Rightarrow> int \<Rightarrow> time \<Rightarrow> store \<Rightarrow> (store_error + thread_page) \<times> store" where
  "GetThread ctx_err key before limit now s =
    (if ctx_err then (Inl ErrContextDone, s)
     else if \<not> validThreadKey key \<or> limit < 1 then (Inl ErrThreadNotFound, s)
     else case findThreadLocked (tk_OrgID key) (tk_Owner key) (tk_ThreadID key) s of
       None \<Rightarrow> (Inl ErrThreadNotFound, s)
     | Some t \<Rightarrow>
         if thread_Closed now t then (Inl ErrThreadNotFound, s)
         else
           let s' = s\<lparr>st_submissions := map (\<lambda>(k, r). (k, if page_linked t before k r then fst (reconcileLocked now r s) else r))
                 (st_submissions s)\<rparr>;
               turns = sort_slice turn_before
                 (map (\<lambda>(k, r). turn_of k r) (filter (\<lambda>(k, r). page_linked t before k r) (st_submissions s')));
               earlier = int (length turns) > limit;
               page = (if earlier then drop (length turns - nat limit) turns else turns)
           in if page = [] then (Inl ErrThreadNotFound, s')
              else (Inr \<lparr>pg_Thread = t, pg_Turns = page, pg_EarlierTurns = earlier\<rparr>, s'))"

section \<open>Closing\<close>

definition CloseThread :: "bool \<Rightarrow> thread_key \<Rightarrow> time \<Rightarrow> store \<Rightarrow> (store_error + bool) \<times> store" where
  "CloseThread ctx_err key now s =
    (if ctx_err then (Inl ErrContextDone, s)
     else if \<not> validThreadKey key then (Inl ErrRequired, s)
     else case findThreadLocked (tk_OrgID key) (tk_Owner key) (tk_ThreadID key) s of
       None \<Rightarrow> (Inr False, s)
     | Some t \<Rightarrow>
         if thread_Closed now t then (Inr False, s)
         else
           let row = rowKeyOf (tr_Key t)
           in (Inr True, s\<lparr>st_threads := put row (t\<lparr>tr_ClosedAt := Some now\<rparr>) (st_threads s),
                 st_submissions := map (\<lambda>(k, r). (k, if sr_ThreadID r = tk_ThreadID key \<and> recordThreadRow k r = row
                   then r\<lparr>sr_Question := ''''\<rparr> else r)) (st_submissions s)\<rparr>))"

section \<open>Feedback\<close>

definition UnsetResultFeedback :: result_feedback where
  "UnsetResultFeedback = \<lparr>rf_Correct = ContextFabricResultFeedbackUnset, rf_Useful = ContextFabricResultFeedbackUnset, rf_UpdatedAt = 0\<rparr>"

definition feedback_Valid :: "feedback_value \<Rightarrow> bool" where
  "feedback_Valid v \<longleftrightarrow> v \<in> {ContextFabricResultFeedbackYes, ContextFabricResultFeedbackNo, ContextFabricResultFeedbackUnset}"

definition feedbackResultLocked :: "principal \<Rightarrow> string \<Rightarrow> time \<Rightarrow> store \<Rightarrow> bool" where
  "feedbackResultLocked p resultID now s =
    (let orgID = TrimSpace (p_OrgID p)
     in if orgID = '''' \<or> resultID = '''' then False
        else case map_of (st_results s) resultID of
          None \<Rightarrow> False
        | Some e \<Rightarrow>
            if en_orgID e \<noteq> orgID \<or> (case en_owner e of None \<Rightarrow> True | Some owner \<Rightarrow> \<not> owner_Is owner p) then False
            else \<not> hiddenByClosedThreadLocked orgID resultID now s)"

definition GetResultFeedback :: "bool \<Rightarrow> principal \<Rightarrow> string \<Rightarrow> time \<Rightarrow> store \<Rightarrow> store_error + result_feedback" where
  "GetResultFeedback ctx_err p resultID now s =
    (if ctx_err then Inl ErrContextDone
     else if \<not> feedbackResultLocked p resultID now s then Inl ErrNotFound
     else Inr (lookup_or UnsetResultFeedback (st_feedback s) resultID))"

text \<open>\<^verbatim>\<open>Truncate(time.Microsecond)\<close> rounds down to a multiple since the zero time.\<close>

definition truncate_us :: "time \<Rightarrow> time" where
  "truncate_us t = t - t mod Microsecond"

definition SetResultFeedback ::
  "bool \<Rightarrow> principal \<Rightarrow> string \<Rightarrow> feedback_value \<Rightarrow> feedback_value \<Rightarrow> time \<Rightarrow> store \<Rightarrow> (store_error + result_feedback) \<times> store" where
  "SetResultFeedback ctx_err p resultID correct useful now s =
    (if ctx_err then (Inl ErrContextDone, s)
     else if \<not> feedback_Valid correct \<or> \<not> feedback_Valid useful \<or> IsZero now then (Inl ErrRequired, s)
     else if \<not> feedbackResultLocked p resultID now s then (Inl ErrNotFound, s)
     else
       let stamp = truncate_us now;
           at = (case map_of (st_feedback s) resultID of
                   None \<Rightarrow> stamp | Some previous \<Rightarrow> if stamp < rf_UpdatedAt previous then rf_UpdatedAt previous else stamp);
           feedback = \<lparr>rf_Correct = correct, rf_Useful = useful, rf_UpdatedAt = at\<rparr>
       in (Inr feedback, s\<lparr>st_feedback := put resultID feedback (st_feedback s)\<rparr>))"

end
