(* ===== verification/Investigation_Retention.thy ===== *)
theory Investigation_Retention
  imports Investigation_Threads
begin

text \<open>
  \<^verbatim>\<open>memoryinvestigation/retention.go\<close>: the retention pass. A unit (an expired or deleted thread,
  or a record without a thread) is removed or erased unless one of its records can still save.
  \<open>digest\<close> is the hex SHA-256 an erased reserved id is replaced with.
\<close>

definition zero_sweep :: retention_sweep where
  "zero_sweep = \<lparr>rs_ThreadsRemoved = 0, rs_ThreadsErased = 0, rs_RecordsRemoved = 0, rs_ResultsRemoved = 0, rs_Fenced = 0\<rparr>"

definition threadRecordsLocked :: "thread_row_key \<Rightarrow> store \<Rightarrow> submission_key list" where
  "threadRecordsLocked row s =
    map fst (filter (\<lambda>(key, r). sr_ThreadID r \<noteq> '''' \<and> recordThreadRow key r = row) (st_submissions s))"

text \<open>Reading the record of a key that was just listed; a key that is gone has no effect.\<close>

definition reserved_id_at :: "store \<Rightarrow> submission_key \<Rightarrow> string" where
  "reserved_id_at s key = (case record_at s key of None \<Rightarrow> '''' | Some r \<Rightarrow> sr_ReservedResultID r)"

definition thread_due :: "time \<Rightarrow> thread_row_key \<Rightarrow> thread_record \<Rightarrow> store \<Rightarrow> bool" where
  "thread_due now row t s =
    (if \<not> now < tr_ExpiresAt t then True
     else if tr_ClosedAt t = None then False
     else list_ex (\<lambda>key. \<not> IsErasedReservedResultID (reserved_id_at s key)) (threadRecordsLocked row s))"

definition due_thread_before :: "thread_row_key \<times> thread_record \<Rightarrow> thread_row_key \<times> thread_record \<Rightarrow> bool" where
  "due_thread_before a b =
    (if tr_ExpiresAt (snd a) \<noteq> tr_ExpiresAt (snd b) then tr_ExpiresAt (snd a) < tr_ExpiresAt (snd b)
     else if tw_orgID (fst a) \<noteq> tw_orgID (fst b) then tw_orgID (fst a) < tw_orgID (fst b)
     else tw_threadID (fst a) < tw_threadID (fst b))"

definition dueRetentionThreadsLocked :: "time \<Rightarrow> store \<Rightarrow> thread_row_key list" where
  "dueRetentionThreadsLocked now s =
    map fst (sort_slice due_thread_before (filter (\<lambda>(row, t). thread_due now row t s) (st_threads s)))"

definition due_record_before :: "submission_key \<times> submission_record \<Rightarrow> submission_key \<times> submission_record \<Rightarrow> bool" where
  "due_record_before a b =
    (if sr_AdmittedAt (snd a) \<noteq> sr_AdmittedAt (snd b) then sr_AdmittedAt (snd a) < sr_AdmittedAt (snd b)
     else if sk_OrgID (fst a) \<noteq> sk_OrgID (fst b) then sk_OrgID (fst a) < sk_OrgID (fst b)
     else sk_SubmissionID (fst a) < sk_SubmissionID (fst b))"

definition dueRetentionRecordsLocked :: "time \<Rightarrow> store \<Rightarrow> submission_key list" where
  "dueRetentionRecordsLocked now s =
    map fst (sort_slice due_record_before
      (filter (\<lambda>(key, r). sr_ThreadID r = '''' \<and> \<not> now < UnthreadedRecordExpiresAt (sr_AdmittedAt r)) (st_submissions s)))"

section \<open>Removing results\<close>

definition namedByLiveRecordLocked :: "string \<Rightarrow> string \<Rightarrow> time \<Rightarrow> store \<Rightarrow> bool" where
  "namedByLiveRecordLocked orgID resultID now s =
    list_ex (\<lambda>(key, r). names_result orgID resultID (key, r) \<and> threadClosedLocked now r s = None) (st_submissions s)"

text \<open>One result row with the claims made on it or by it and its feedback.\<close>

definition remove_result :: "string \<Rightarrow> string \<Rightarrow> store \<Rightarrow> store" where
  "remove_result orgID rid s =
    s\<lparr>st_results := del rid (st_results s), st_feedback := del rid (st_feedback s),
      st_claims := filter (\<lambda>(c, by). \<not> (ck_orgID c = orgID \<and> (ck_priorResultID c = rid \<or> by = rid))) (st_claims s)\<rparr>"

definition removable :: "string \<Rightarrow> time \<Rightarrow> string \<Rightarrow> store \<Rightarrow> bool" where
  "removable orgID now rid s \<longleftrightarrow> \<not> namedByLiveRecordLocked orgID rid now s \<and>
     (case map_of (st_results s) rid of None \<Rightarrow> False | Some e \<Rightarrow> en_orgID e = orgID)"

text \<open>The ids the unit's records name, each once, in order: final result id, then reserved id.\<close>

definition unit_ids :: "submission_key list \<Rightarrow> store \<Rightarrow> string list" where
  "unit_ids keys s =
    filter (\<lambda>rid. \<not> (rid = '''' \<or> IsErasedReservedResultID rid))
      (concat (map (\<lambda>key. case record_at s key of None \<Rightarrow> ['''', ''''] | Some r \<Rightarrow> [sr_ResultID r, sr_ReservedResultID r]) keys))"

fun remove_results_loop :: "string \<Rightarrow> time \<Rightarrow> string list \<Rightarrow> string list \<Rightarrow> store \<Rightarrow> int \<times> store" where
  "remove_results_loop orgID now [] seen s = (0, s)"
| "remove_results_loop orgID now (rid # ids) seen s =
    (if rid \<in> set seen then remove_results_loop orgID now ids seen s
     else if removable orgID now rid s
     then (case remove_results_loop orgID now ids (rid # seen) (remove_result orgID rid s) of (n, s') \<Rightarrow> (n + 1, s'))
     else remove_results_loop orgID now ids (rid # seen) s)"

definition removeRetainedResultsLocked :: "string \<Rightarrow> submission_key list \<Rightarrow> time \<Rightarrow> store \<Rightarrow> int \<times> store" where
  "removeRetainedResultsLocked orgID keys now s = remove_results_loop orgID now (unit_ids keys s) [] s"

section \<open>Removing and erasing records\<close>

definition removeRecordLocked :: "submission_key \<Rightarrow> store \<Rightarrow> store" where
  "removeRecordLocked key s =
    (case record_at s key of
       None \<Rightarrow> s
     | Some r \<Rightarrow> s\<lparr>st_submissions := del key (st_submissions s),
         st_reserved := del \<lparr>rv_orgID = sk_OrgID key, rv_resultID = sr_ReservedResultID r\<rparr> (st_reserved s),
         st_runEvents := del (RunKeyOf r) (st_runEvents s)\<rparr>)"

definition erase_record :: "(string \<Rightarrow> string) \<Rightarrow> time \<Rightarrow> submission_key \<Rightarrow> store \<Rightarrow> store" where
  "erase_record digest now key s =
    (case record_at s key of
       None \<Rightarrow> s
     | Some r \<Rightarrow>
         if IsErasedReservedResultID (sr_ReservedResultID r) then s
         else
           let erased = ErasedReservedResultID digest (sr_ReservedResultID r);
               r' = r\<lparr>sr_State := (if sr_State r = SubmissionDone then SubmissionDoneUnsaved else sr_State r),
                      sr_ResultID := '''', sr_Question := '''', sr_ReservedResultID := erased, sr_UpdatedAt := now\<rparr>
           in s\<lparr>st_runEvents := del (RunKeyOf r) (st_runEvents s),
                st_reserved := put \<lparr>rv_orgID = sk_OrgID key, rv_resultID = erased\<rparr> key
                  (del \<lparr>rv_orgID = sk_OrgID key, rv_resultID = sr_ReservedResultID r\<rparr> (st_reserved s)),
                st_submissions := put key r' (st_submissions s)\<rparr>)"

definition fenced_at :: "time \<Rightarrow> store \<Rightarrow> submission_key \<Rightarrow> bool" where
  "fenced_at now s key = (case record_at s key of None \<Rightarrow> False | Some r \<Rightarrow> RetentionFenced r now)"

definition sweepRetentionThreadLocked ::
  "(string \<Rightarrow> string) \<Rightarrow> time \<Rightarrow> thread_row_key \<Rightarrow> store \<times> retention_sweep \<Rightarrow> store \<times> retention_sweep" where
  "sweepRetentionThreadLocked digest now row ss =
    (case ss of (s, sweep) \<Rightarrow>
      (case map_of (st_threads s) row of
         None \<Rightarrow> (s, sweep)
       | Some t \<Rightarrow>
           let expired = (\<not> now < tr_ExpiresAt t)
           in if \<not> expired \<and> tr_ClosedAt t = None then (s, sweep)
              else let keys = threadRecordsLocked row s
              in if list_ex (fenced_at now s) keys then (s, sweep\<lparr>rs_Fenced := rs_Fenced sweep + 1\<rparr>)
                 else case removeRetainedResultsLocked (tw_orgID row) keys now s of (n, s1) \<Rightarrow>
                   let sweep1 = sweep\<lparr>rs_ResultsRemoved := rs_ResultsRemoved sweep + n\<rparr>
                   in if expired
                      then let s2 = fold removeRecordLocked keys s1
                           in (s2\<lparr>st_threads := del row (st_threads s2)\<rparr>, sweep1\<lparr>rs_ThreadsRemoved := rs_ThreadsRemoved sweep1 + 1\<rparr>)
                      else (fold (erase_record digest now) keys s1, sweep1\<lparr>rs_ThreadsErased := rs_ThreadsErased sweep1 + 1\<rparr>)))"

definition sweepRetentionRecordLocked ::
  "time \<Rightarrow> submission_key \<Rightarrow> store \<times> retention_sweep \<Rightarrow> store \<times> retention_sweep" where
  "sweepRetentionRecordLocked now key ss =
    (case ss of (s, sweep) \<Rightarrow>
      (case record_at s key of
         None \<Rightarrow> (s, sweep)
       | Some r \<Rightarrow>
           if sr_ThreadID r \<noteq> '''' then (s, sweep)
           else if RetentionFenced r now then (s, sweep\<lparr>rs_Fenced := rs_Fenced sweep + 1\<rparr>)
           else case removeRetainedResultsLocked (sk_OrgID key) [key] now s of (n, s1) \<Rightarrow>
             (removeRecordLocked key s1,
              sweep\<lparr>rs_ResultsRemoved := rs_ResultsRemoved sweep + n, rs_RecordsRemoved := rs_RecordsRemoved sweep + 1\<rparr>)))"

definition SweepRetention ::
  "(string \<Rightarrow> string) \<Rightarrow> bool \<Rightarrow> time \<Rightarrow> int \<Rightarrow> store \<Rightarrow> (store_error + retention_sweep) \<times> store" where
  "SweepRetention digest ctx_err now limit s =
    (if ctx_err then (Inl ErrContextDone, s)
     else if \<not> st_unthreadedRetention s then (Inl ErrRetentionReadRuleOff, s)
     else
       let bound = nat (if limit < 1 then RetentionSweepBatch else limit);
           threads = take bound (dueRetentionThreadsLocked now s)
       in case fold (sweepRetentionThreadLocked digest now) threads (s, zero_sweep) of
            (s1, sweep1) \<Rightarrow>
              (case fold (sweepRetentionRecordLocked now) (take (bound - length threads) (dueRetentionRecordsLocked now s1)) (s1, sweep1) of
                 (s2, sweep2) \<Rightarrow> (Inr sweep2, s2)))"

definition ProbeRetention :: "bool \<Rightarrow> store_error option" where
  "ProbeRetention ctx_err = (if ctx_err then Some ErrContextDone else None)"

end
