(* ===== verification/Investigation_Machine.thy ===== *)
theory Investigation_Machine
  imports Investigation_Retention
begin

text \<open>
  The investigation store as a machine. A step is one locked section of a method of the store;
  requests interleave at this grain, so every interleaving of requests is a list of steps.
  The inductive relation \<open>touch\<close> lists the ways a step changes a submission record.
\<close>

section \<open>Steps\<close>

datatype ('x, 'w) store_op =
    is_save: OpSave bool "reservation option" time principal "'x investigation_result_scheme" string 'w
  | is_admit: OpAdmit bool submission_admission time
  | OpGetSubmission bool submission_key time
  | OpFinish bool submission_key string time
  | OpAbandon bool submission_key time
  | OpSweep bool time
  | OpMarkUnsaved bool principal string time
  | OpCheckLease bool run_key string time
  | OpCancelSection submission_key time
  | is_append: OpAppend bool run_key run_event int time
  | is_reap: OpReap bool string "run_key option" "string \<Rightarrow> string" time
  | OpGetThread bool thread_key "thread_turn_cursor option" int time
  | OpCloseThread bool thread_key time
  | OpSetFeedback bool principal string feedback_value feedback_value time
  | OpRetention bool time int
  | OpDeleteForTest string

fun store_step :: "('x, 'w, 's) result_codec \<Rightarrow> (string \<Rightarrow> string) \<Rightarrow> ('x, 'w) store_op \<Rightarrow> store \<Rightarrow> store" where
  "store_step cd digest (OpSave e ctx now p result parent sem) s = snd (Save cd e ctx now p result parent sem s)"
| "store_step cd digest (OpAdmit e a now) s = snd (AdmitSubmission e a now s)"
| "store_step cd digest (OpGetSubmission e key now) s = snd (GetSubmission e key now s)"
| "store_step cd digest (OpFinish e key served now) s = snd (FinishSubmission e key served now s)"
| "store_step cd digest (OpAbandon e key now) s = snd (AbandonSubmission e key now s)"
| "store_step cd digest (OpSweep e now) s = snd (SweepSubmissions e now s)"
| "store_step cd digest (OpMarkUnsaved e p rid now) s = snd (MarkSubmissionUnsaved e p rid now s)"
| "store_step cd digest (OpCheckLease e run holder until) s = snd (CheckRunLease e run holder until s)"
| "store_step cd digest (OpCancelSection key now) s = cancel_section key now s"
| "store_step cd digest (OpAppend e run event bound now) s = snd (AppendRunEvent e run event bound now s)"
| "store_step cd digest (OpReap e taker only envelope now) s = snd (ReapLostRuns e taker only envelope now s)"
| "store_step cd digest (OpGetThread e key before limit now) s = snd (GetThread e key before limit now s)"
| "store_step cd digest (OpCloseThread e key now) s = snd (CloseThread e key now s)"
| "store_step cd digest (OpSetFeedback e p rid c u now) s = snd (SetResultFeedback e p rid c u now s)"
| "store_step cd digest (OpRetention e now limit) s = snd (SweepRetention digest e now limit s)"
| "store_step cd digest (OpDeleteForTest org) s = DeleteSubmissionsForTest org s"

text \<open>\<^verbatim>\<open>RequestRunCancel\<close> is three of these steps, the last two only when the cancel is wanted.\<close>

lemma RequestRunCancel_steps:
  "snd (RequestRunCancel e key now s) \<in>
    {run_ops (store_step cd digest) [OpGetSubmission e key now] s,
     run_ops (store_step cd digest) [OpGetSubmission e key now, OpCancelSection key now, OpGetSubmission e key now] s}"
  by (auto simp: RequestRunCancel_def split: prod.splits sum.splits)

text \<open>The steps that remove no record and no result: all but the retention pass and the test hook.\<close>

fun keeps_records :: "('x, 'w) store_op \<Rightarrow> bool" where
  "keeps_records (OpRetention _ _ _) = False"
| "keeps_records (OpDeleteForTest _) = False"
| "keeps_records _ = True"

section \<open>The ways a record changes\<close>

inductive touch :: "store \<Rightarrow> submission_key \<Rightarrow> submission_record \<Rightarrow> submission_record \<Rightarrow> bool" for s k where
  same: "touch s k r r"
| complete: "sr_State r = SubmissionRunning \<or> sr_State r = SubmissionAbandoned \<Longrightarrow> ownedByLocked rid k s \<Longrightarrow>
    touch s k r (r\<lparr>sr_State := SubmissionDone, sr_ResultID := rid, sr_UpdatedAt := now\<rparr>)"
| unsave: "sr_State r = SubmissionRunning \<Longrightarrow> touch s k r (r\<lparr>sr_State := SubmissionDoneUnsaved, sr_UpdatedAt := now\<rparr>)"
| abandon: "sr_State r = SubmissionRunning \<Longrightarrow> touch s k r (r\<lparr>sr_State := SubmissionAbandoned, sr_UpdatedAt := now\<rparr>)"
| take: "sr_State r = SubmissionRunning \<Longrightarrow> Leased r \<Longrightarrow> \<not> now < sr_LeaseExpiresAt r \<Longrightarrow>
    \<not> ownedByLocked (sr_ReservedResultID r) k s \<Longrightarrow>
    touch s k r (r\<lparr>sr_State := SubmissionAbandoned, sr_LeaseHolder := taker, sr_UpdatedAt := now\<rparr>)"
| renew: "sr_State r = SubmissionRunning \<Longrightarrow> Leased r \<Longrightarrow> sr_LeaseExpiresAt r < until \<Longrightarrow>
    touch s k r (r\<lparr>sr_LeaseExpiresAt := until\<rparr>)"
| cancel: "cancel_wanted r \<Longrightarrow> touch s k r (r\<lparr>sr_CancelRequestedAt := now\<rparr>)"
| forget: "touch s k r (r\<lparr>sr_Question := ''''\<rparr>)"

text \<open>What no touch changes, and the order of the states.\<close>

lemma touch_fixed:
  "touch s k r r' \<Longrightarrow> sr_Key r' = sr_Key r \<and> sr_RequestDigest r' = sr_RequestDigest r \<and>
     sr_ReservedResultID r' = sr_ReservedResultID r \<and> sr_ThreadID r' = sr_ThreadID r \<and>
     sr_ThreadOwner r' = sr_ThreadOwner r \<and> sr_AdmittedAt r' = sr_AdmittedAt r \<and> sr_ExpiresAt r' = sr_ExpiresAt r \<and>
     sr_RunRequestID r' = sr_RunRequestID r"
  by (induction rule: touch.induct) simp_all

text \<open>
  The records of two states correspond: same keys, every record touched once; the reserved index
  is the same. \<open>touch\<close> reads the later state, in which a saved result is already stored.
\<close>

definition touched :: "store \<Rightarrow> store \<Rightarrow> bool" where
  "touched s s' \<longleftrightarrow> st_reserved s' = st_reserved s \<and> wf_map (st_submissions s') \<and>
     (\<forall>k. rel_option (touch s' k) (record_at s k) (record_at s' k))"

text \<open>The index of a store: the key of a record is the key it is stored under, and the reserved ids
  of an organization lead back to their records.\<close>

definition indexed :: "store \<Rightarrow> bool" where
  "indexed s \<longleftrightarrow> wf_map (st_submissions s) \<and> wf_map (st_reserved s) \<and>
     (\<forall>k r. record_at s k = Some r \<longrightarrow> sr_Key r = k \<and> reservation_of s (sk_OrgID k) (sr_ReservedResultID r) = Some k) \<and>
     (\<forall>org rid k. reservation_of s org rid = Some k \<longrightarrow>
        sk_OrgID k = org \<and> (\<exists>r. record_at s k = Some r \<and> sr_ReservedResultID r = rid))"

lemma indexedI:
  assumes "wf_map (st_submissions s)" "wf_map (st_reserved s)"
    "\<And>k r. record_at s k = Some r \<Longrightarrow> sr_Key r = k \<and> reservation_of s (sk_OrgID k) (sr_ReservedResultID r) = Some k"
    "\<And>org rid k. reservation_of s org rid = Some k \<Longrightarrow>
       sk_OrgID k = org \<and> (\<exists>r. record_at s k = Some r \<and> sr_ReservedResultID r = rid)"
  shows "indexed s"
  using assms by (auto simp: indexed_def)

lemma indexed_wf: "indexed s \<Longrightarrow> wf_map (st_submissions s)"
  by (simp add: indexed_def)

lemma indexed_key: "indexed s \<Longrightarrow> record_at s k = Some r \<Longrightarrow> sr_Key r = k"
  by (auto simp: indexed_def)

lemma indexed_reserved:
  "indexed s \<Longrightarrow> record_at s k = Some r \<Longrightarrow> reservation_of s (sk_OrgID k) (sr_ReservedResultID r) = Some k"
  by (auto simp: indexed_def)

lemma indexed_reservationE:
  assumes "indexed s" "reservation_of s org rid = Some k"
  obtains r where "record_at s k = Some r" "sk_OrgID k = org" "sr_ReservedResultID r = rid" "sr_Key r = k"
  using assms unfolding indexed_def by blast

lemma touched_indexed: assumes "indexed s" "touched s s'" shows "indexed s'"
proof (rule indexedI)
  have rel: "rel_option (touch s' k) (record_at s k) (record_at s' k)" for k
    using assms(2) by (simp add: touched_def)
  have res: "reservation_of s' = reservation_of s"
    using assms(2) by (auto simp: touched_def reservation_of_def fun_eq_iff)
  show "wf_map (st_submissions s')" using assms(2) by (simp add: touched_def)
  show "wf_map (st_reserved s')" using assms by (simp add: touched_def indexed_def)
  show "sr_Key r' = k \<and> reservation_of s' (sk_OrgID k) (sr_ReservedResultID r') = Some k" if "record_at s' k = Some r'" for k r'
  proof -
    from rel [of k] that obtain r where "record_at s k = Some r" "touch s' k r r'"
      by (auto simp: option_rel_Some2)
    with assms(1) touch_fixed [of s' k r r'] show ?thesis by (auto simp: res indexed_def)
  qed
  show "sk_OrgID k = org \<and> (\<exists>r. record_at s' k = Some r \<and> sr_ReservedResultID r = rid)"
    if "reservation_of s' org rid = Some k" for org rid k
  proof -
    from that assms(1) obtain r where r: "record_at s k = Some r" "sk_OrgID k = org" "sr_ReservedResultID r = rid"
      by (auto simp: res elim: indexed_reservationE)
    with rel [of k] obtain r' where "record_at s' k = Some r'" "touch s' k r r'"
      by (auto simp: option_rel_Some1)
    with r touch_fixed [of s' k r r'] show ?thesis by auto
  qed
qed

end
