(* ===== verification/Investigation_Touch.thy ===== *)
theory Investigation_Touch
  imports Investigation_Machine
begin

text \<open>Every step that keeps records, apart from an admission, touches each record at most once.\<close>

section \<open>Building blocks\<close>

lemma ownedBy_cong: "st_results s = st_results s' \<Longrightarrow> ownedByLocked rid k s = ownedByLocked rid k s'"
  by (simp add: ownedByLocked_def)

lemma touch_cong: "touch s k r r' \<Longrightarrow> st_results s = st_results s' \<Longrightarrow> touch s' k r r'"
  by (induction rule: touch.induct) (auto intro: touch.intros simp: ownedBy_cong [of s s'])

lemma touched_refl [simp]: "indexed s \<Longrightarrow> touched s s"
  by (auto simp: touched_def indexed_def intro!: option.rel_refl touch.same)

lemma record_at_put_record [simp]: "record_at (put_record k r s) k' = (if k' = k then Some r else record_at s k')"
  by (simp add: record_at_def put_record_def AList.update_conv')

lemma put_record_simps [simp]:
  "st_results (put_record k r s) = st_results s" "st_reserved (put_record k r s) = st_reserved s"
  "st_claims (put_record k r s) = st_claims s" "st_usage (put_record k r s) = st_usage s"
  "st_threads (put_record k r s) = st_threads s" "st_runEvents (put_record k r s) = st_runEvents s"
  "st_feedback (put_record k r s) = st_feedback s"
  "st_unthreadedRetention (put_record k r s) = st_unthreadedRetention s"
  by (simp_all add: put_record_def)

lemma record_at_map:
  "record_at (s\<lparr>st_submissions := map (\<lambda>(k, r). (k, f k r)) (st_submissions s)\<rparr>) k = map_option (f k) (record_at s k)"
  by (simp add: record_at_def map_of_map_val)

lemma touched_put:
  assumes "indexed s" "record_at s k = Some r" "touch s k r r'"
  shows "touched s (put_record k r' s)"
proof -
  have "wf_map (st_submissions (put_record k r' s))"
    using assms(1) by (simp add: put_record_def indexed_wf)
  moreover have "rel_option (touch (put_record k r' s) k') (record_at s k') (record_at (put_record k r' s) k')" for k'
    using assms(2,3) by (auto intro: touch_cong option.rel_refl touch.same)
  ultimately show ?thesis by (simp add: touched_def)
qed

lemma touched_map:
  assumes "indexed s" "st_results s' = st_results s" "st_reserved s' = st_reserved s"
    and "st_submissions s' = map (\<lambda>(k, r). (k, f k r)) (st_submissions s)"
    and "\<And>k r. record_at s k = Some r \<Longrightarrow> touch s k r (f k r)"
  shows "touched s s'"
proof -
  have "wf_map (st_submissions s')"
    unfolding assms(4) by (subst wf_map_map) (auto simp: indexed_wf [OF assms(1)])
  moreover have "rel_option (touch s' k) (record_at s k) (record_at s' k)" for k
  proof (cases "record_at s k")
    case (Some r)
    with assms(5) [of k r] have "touch s' k r (f k r)" by (auto simp: assms(2) elim: touch_cong)
    with Some show ?thesis by (simp add: record_at_def assms(4) map_of_map_val)
  qed (simp add: record_at_def assms(4) map_of_map_val)
  ultimately show ?thesis by (simp add: touched_def assms(3))
qed

lemma touched_records_same:
  assumes "indexed s" "st_reserved s' = st_reserved s" "st_submissions s' = st_submissions s"
  shows "touched s s'"
  using assms by (auto simp: touched_def record_at_def indexed_wf intro!: option.rel_refl touch.same)

lemma findSubmissionLocked_Some:
  assumes "indexed s" "findSubmissionLocked key s = Some (k, r)"
  shows "record_at s k = Some r" "k = key \<or> same_submission k key" "sr_Key r = k"
proof -
  show "record_at s k = Some r"
    using assms wf_map_mem [OF indexed_wf [OF assms(1)], of k r]
    by (auto simp: findSubmissionLocked_def record_at_def find_Some_iff split: option.splits) (metis nth_mem)
  then show "sr_Key r = k" by (rule indexed_key [OF assms(1)])
  show "k = key \<or> same_submission k key"
    using assms by (auto simp: findSubmissionLocked_def find_Some_iff split: option.splits)
qed

lemma findSubmissionLocked_present:
  assumes "record_at s k = Some r" "k = key \<or> same_submission k key"
  shows "findSubmissionLocked key s \<noteq> None"
proof (cases "record_at s key")
  case None
  with assms have "(k, r) \<in> set (st_submissions s)" "same_submission k key"
    by (auto simp: record_at_def dest: map_of_SomeD)
  then have "List.find (\<lambda>(stored, _). same_submission stored key) (st_submissions s) \<noteq> None"
    unfolding find_None_iff by auto
  with None show ?thesis by (simp add: findSubmissionLocked_def)
qed (simp add: findSubmissionLocked_def)

section \<open>The operations on records\<close>

lemma reconcile_touch:
  "indexed s \<Longrightarrow> record_at s k = Some r \<Longrightarrow> touch s k r (fst (reconcileLocked now r s))"
  using indexed_key [of s k r]
  by (auto simp: reconcileLocked_def intro: touch.same touch.complete touch.abandon)

lemma touched_reconcile_at:
  "indexed s \<Longrightarrow> record_at s k = Some r \<Longrightarrow> touched s (snd (reconcile_at now k r s))"
  using reconcile_touch [of s k r now]
  by (auto simp: reconcile_at_def Let_def split: prod.splits intro: touched_put)

lemma touched_GetSubmission:
  assumes "indexed s"
  shows "touched s (snd (GetSubmission e key now s))"
proof (cases "e \<or> \<not> validSubmissionKey key \<or> findSubmissionLocked key s = None")
  case False
  then obtain k r where f: "findSubmissionLocked key s = Some (k, r)" "\<not> e" "validSubmissionKey key" by auto
  then have "snd (GetSubmission e key now s) = snd (reconcile_at now k r s)"
    by (simp add: GetSubmission_def split: prod.splits)
  with touched_reconcile_at [OF assms findSubmissionLocked_Some(1) [OF assms f(1)]] show ?thesis by simp
qed (use assms in \<open>auto simp: GetSubmission_def\<close>)

lemma touched_FinishSubmission: "indexed s \<Longrightarrow> touched s (snd (FinishSubmission e key served now s))"
  by (auto simp: FinishSubmission_def Let_def split: option.splits prod.splits
      intro!: touched_put touch.complete touch.unsave dest: findSubmissionLocked_Some(1))

lemma touched_AbandonSubmission: "indexed s \<Longrightarrow> touched s (snd (AbandonSubmission e key now s))"
  by (auto simp: AbandonSubmission_def Let_def split: option.splits prod.splits
      intro!: touched_put touch.abandon dest: findSubmissionLocked_Some(1))

lemma touched_SweepSubmissions: "indexed s \<Longrightarrow> touched s (snd (SweepSubmissions e now s))"
  by (auto simp: SweepSubmissions_def intro!: touched_map [where f = "\<lambda>k r. fst (reconcileLocked now r s)"] reconcile_touch)

lemma touched_MarkSubmissionUnsaved: "indexed s \<Longrightarrow> touched s (snd (MarkSubmissionUnsaved e p rid now s))"
  by (auto simp: MarkSubmissionUnsaved_def split: option.splits intro!: touched_put touch.unsave)

lemma recordOfRunLocked_Some:
  "recordOfRunLocked run s = Some (k, r) \<Longrightarrow> record_at s k = Some r"
  by (auto simp: recordOfRunLocked_def split: option.splits)

lemma touched_CheckRunLease: "indexed s \<Longrightarrow> touched s (snd (CheckRunLease e run holder until s))"
  by (auto simp: CheckRunLease_def Let_def check_Held_def Leased_def split: option.splits prod.splits
      intro!: touched_put touch.renew dest: recordOfRunLocked_Some)

lemma touched_cancel_section: "indexed s \<Longrightarrow> touched s (cancel_section key now s)"
  by (auto simp: cancel_section_def split: option.splits prod.splits
      intro!: touched_put touch.cancel dest: findSubmissionLocked_Some(1))

lemma AppendRunEvent_keeps:
  "st_submissions (snd (AppendRunEvent e run event bound now s)) = st_submissions s"
  "st_reserved (snd (AppendRunEvent e run event bound now s)) = st_reserved s"
  "st_results (snd (AppendRunEvent e run event bound now s)) = st_results s"
  by (auto simp: AppendRunEvent_def Let_def split: option.splits)

lemma touched_AppendRunEvent: "indexed s \<Longrightarrow> touched s (snd (AppendRunEvent e run event bound now s))"
  by (rule touched_records_same) (simp_all add: AppendRunEvent_keeps)

lemma touched_GetThread: "indexed s \<Longrightarrow> touched s (snd (GetThread e key before limit now s))"
  by (auto simp: GetThread_def Let_def split: option.splits
      intro!: touched_map [where f = "\<lambda>k r. if page_linked t before k r then fst (reconcileLocked now r s) else r" for t]
        reconcile_touch touch.same)

lemma touched_CloseThread: "indexed s \<Longrightarrow> touched s (snd (CloseThread e key now s))"
  by (auto simp: CloseThread_def Let_def split: option.splits
      intro!: touched_map [where f = "\<lambda>k r. if sr_ThreadID r = tk_ThreadID key \<and> recordThreadRow k r = rowKeyOf (tr_Key t)
                   then r\<lparr>sr_Question := ''''\<rparr> else r" for t] touch.same touch.forget)

lemma touched_SetResultFeedback: "indexed s \<Longrightarrow> touched s (snd (SetResultFeedback e p rid c u now s))"
  by (auto simp: SetResultFeedback_def Let_def split: option.splits intro!: touched_records_same)

section \<open>Takeover\<close>

text \<open>\<^verbatim>\<open>ReapLostRuns\<close> decides every record alone, by the results and the record itself.\<close>

definition taken :: "string \<Rightarrow> time \<Rightarrow> submission_record \<Rightarrow> submission_record" where
  "taken taker now r = r\<lparr>sr_State := SubmissionAbandoned, sr_LeaseHolder := taker, sr_UpdatedAt := now\<rparr>"

lemma take_over_fields:
  "record_at (snd (take_over taker env now k r s)) k' = (if k' = k then Some (taken taker now r) else record_at s k')"
  "st_results (snd (take_over taker env now k r s)) = st_results s"
  "st_reserved (snd (take_over taker env now k r s)) = st_reserved s"
  "st_submissions (snd (take_over taker env now k r s)) = put k (taken taker now r) (st_submissions s)"
  by (auto simp: take_over_def Let_def taken_def put_record_def record_at_def AList.update_conv')

lemma lost_cong: "st_results s = st_results s' \<Longrightarrow> lost only now k r s = lost only now k r s'"
  by (simp add: lost_def ownedBy_cong [of s s'])

lemma reap_loop_Cons:
  "snd (reap_loop taker env only now ((k, r) # m) s) =
    snd (reap_loop taker env only now m (if lost only now k r s then snd (take_over taker env now k r s) else s))"
  "fst (reap_loop taker env only now ((k, r) # m) s) =
    (if lost only now k r s
     then fst (take_over taker env now k r s) # fst (reap_loop taker env only now m (snd (take_over taker env now k r s)))
     else fst (reap_loop taker env only now m s))"
  by (auto split: prod.splits)

lemma reap_loop_fields:
  "st_results (snd (reap_loop taker env only now m s)) = st_results s \<and>
   st_reserved (snd (reap_loop taker env only now m s)) = st_reserved s \<and>
   (wf_map (st_submissions s) \<longrightarrow> wf_map (st_submissions (snd (reap_loop taker env only now m s))))"
proof (induction m arbitrary: s)
  case (Cons e m)
  obtain k r where e: "e = (k, r)" by (cases e)
  show ?case
    using Cons.IH [of "if lost only now k r s then snd (take_over taker env now k r s) else s"]
    by (auto simp: e reap_loop_Cons take_over_fields simp del: reap_loop.simps)
qed simp

lemma reap_loop_records:
  "wf_map m \<Longrightarrow> record_at (snd (reap_loop taker env only now m s)) k =
    (case map_of m k of
       None \<Rightarrow> record_at s k
     | Some r \<Rightarrow> if lost only now k r s then Some (taken taker now r) else record_at s k)"
proof (induction m arbitrary: s)
  case (Cons e m)
  obtain k' r' where e: "e = (k', r')" by (cases e)
  let ?s = "if lost only now k' r' s then snd (take_over taker env now k' r' s) else s"
  have res: "st_results ?s = st_results s" by (simp add: take_over_fields)
  have "map_of m k' = None" using Cons.prems by (simp add: e map_of_eq_None_iff)
  with Cons.IH [of ?s] Cons.prems lost_cong [OF res, of only now k] show ?case
    by (auto simp: e reap_loop_Cons take_over_fields split: option.splits simp del: reap_loop.simps)
qed simp

lemma ReapLostRuns_snd:
  "snd (ReapLostRuns e taker only env now s) =
    (if e \<or> taker = '''' then s else snd (reap_loop taker env only now (st_submissions s) s))"
  by (auto simp: ReapLostRuns_def split: prod.splits)

lemma ReapLostRuns_records:
  assumes "indexed s" "\<not> e" "taker \<noteq> ''''"
  shows "record_at (snd (ReapLostRuns e taker only env now s)) k =
    map_option (\<lambda>r. if lost only now k r s then taken taker now r else r) (record_at s k)"
  using assms reap_loop_records [OF indexed_wf [OF assms(1)], of taker env only now s k]
  by (auto simp: ReapLostRuns_snd record_at_def split: option.splits)

lemma touched_ReapLostRuns:
  assumes "indexed s"
  shows "touched s (snd (ReapLostRuns e taker only env now s))" (is "touched s ?s'")
proof (cases "e \<or> taker = ''''")
  case False
  have res: "st_results ?s' = st_results s" "st_reserved ?s' = st_reserved s" "wf_map (st_submissions ?s')"
    using reap_loop_fields [of taker env only now "st_submissions s" s] assms
    by (auto simp: ReapLostRuns_snd indexed_wf)
  have "touch ?s' k r (if lost only now k r s then taken taker now r else r)" for k r
    using res(1) by (auto simp: taken_def lost_def ownedBy_cong [of ?s' s] intro: touch.same touch.take)
  then have "rel_option (touch ?s' k) (record_at s k) (record_at ?s' k)" for k
    using ReapLostRuns_records [OF assms, of e taker only env now k] False by (cases "record_at s k") auto
  with res show ?thesis by (simp add: touched_def)
qed (auto simp: assms ReapLostRuns_snd)

section \<open>Saving\<close>

text \<open>A save either changes nothing, or stores the new result with its claims and completes its reservation.\<close>

lemma Save_cases:
  assumes "Save cd e ctx now p result parent sem s = (err, s')"
  obtains (kept) "s' = s"
  | (stored) orgID rid payload column where
      "err = None" "orgID = TrimSpace (p_OrgID p)" "rid = TrimSpace (ir_ResultID result)" "orgID \<noteq> ''''" "rid \<noteq> ''''"
      "rc_Marshal cd result = Some payload" "rc_EncodedColumn cd sem = Some column" "map_of (st_results s) rid = None"
      "IsReservedSave ctx rid \<Longrightarrow> reservationHeldLocked p orgID rid s"
      "\<forall>c\<in>set (structureSupersessionClaims result). \<not> has_key (st_claims s) (claim_key_of orgID c)"
      "s' = snd (save_fresh cd ctx now p orgID rid result payload parent column s)"
proof (cases "s' = s")
  case False
  let ?org = "TrimSpace (p_OrgID p)" and ?rid = "TrimSpace (ir_ResultID result)"
  from False assms obtain payload column where
    n: "?org \<noteq> ''''" "?rid \<noteq> ''''" "rc_Marshal cd result = Some payload" "rc_EncodedColumn cd sem = Some column"
    "map_of (st_results s) ?rid = None" "(err, s') = save_fresh cd ctx now p ?org ?rid result payload parent column s"
    by (auto simp: Save_def Let_def split: if_splits option.splits)
  from n(6) False have "IsReservedSave ctx ?rid \<Longrightarrow> reservationHeldLocked p ?org ?rid s"
    "\<forall>c\<in>set (structureSupersessionClaims result). \<not> has_key (st_claims s) (claim_key_of ?org c)" "err = None"
    by (auto simp: save_fresh_def Let_def filter_empty_conv split: if_splits prod.splits)
  with n stored [OF _ refl refl] show thesis by (metis snd_conv)
qed (rule kept)

lemma SameSubmissionOwner_self: "SameSubmissionOwner a b \<Longrightarrow> SameSubmissionOwner a a"
  by (auto simp: SameSubmissionOwner_def)

lemma owner_Is_self: "owner_Is a p \<Longrightarrow> SameSubmissionOwner a a"
  by (auto simp: owner_Is_def dest: SameSubmissionOwner_self split: option.splits)

lemma completeSubmissionLocked_fields:
  "st_results (snd (completeSubmissionLocked now p org rid s)) = st_results s"
  "st_claims (snd (completeSubmissionLocked now p org rid s)) = st_claims s"
  "st_reserved (snd (completeSubmissionLocked now p org rid s)) = st_reserved s"
  "st_usage (snd (completeSubmissionLocked now p org rid s)) = st_usage s"
  "st_threads (snd (completeSubmissionLocked now p org rid s)) = st_threads s"
  "st_runEvents (snd (completeSubmissionLocked now p org rid s)) = st_runEvents s"
  "st_feedback (snd (completeSubmissionLocked now p org rid s)) = st_feedback s"
  "st_unthreadedRetention (snd (completeSubmissionLocked now p org rid s)) = st_unthreadedRetention s"
  by (auto simp: completeSubmissionLocked_def split: option.splits)

text \<open>The closed form of a successful save.\<close>

definition saved_claims :: "string \<Rightarrow> string \<Rightarrow> 'x investigation_result_scheme \<Rightarrow> store \<Rightarrow> (claim_key, string) gomap" where
  "saved_claims orgID rid result s =
    fold (\<lambda>c m. put (claim_key_of orgID c) rid m) (structureSupersessionClaims result) (st_claims s)"

definition saved_entry ::
  "('x, 'w, 's) result_codec \<Rightarrow> time \<Rightarrow> principal \<Rightarrow> string \<Rightarrow> string \<Rightarrow> string \<Rightarrow> string \<Rightarrow> string option \<Rightarrow> store \<Rightarrow> entry" where
  "saved_entry cd now p orgID rid payload parent column s =
    \<lparr>en_orgID = orgID, en_payload = payload, en_parentResultID = TrimSpace parent, en_grantDigest = rc_GrantDigest cd p,
     en_semanticState = column, en_owner = fst (completeSubmissionLocked now p orgID rid s)\<rparr>"

lemma completeSubmissionLocked_claims:
  "completeSubmissionLocked now p org rid (s\<lparr>st_claims := c\<rparr>) =
    (fst (completeSubmissionLocked now p org rid s), (snd (completeSubmissionLocked now p org rid s))\<lparr>st_claims := c\<rparr>)"
  by (auto simp: completeSubmissionLocked_def reservation_of_def record_at_def put_record_def split: option.splits)

lemma save_fresh_form:
  assumes "IsReservedSave ctx rid \<Longrightarrow> reservationHeldLocked p org rid s"
    "\<forall>c\<in>set (structureSupersessionClaims result). \<not> has_key (st_claims s) (claim_key_of org c)"
  shows "save_fresh cd ctx now p org rid result payload parent column s =
    (None, (snd (completeSubmissionLocked now p org rid s))
       \<lparr>st_claims := saved_claims org rid result s,
        st_results := put rid (saved_entry cd now p org rid payload parent column s) (st_results s)\<rparr>)"
proof -
  have "filter (\<lambda>c. has_key (st_claims s) (claim_key_of org c)) (structureSupersessionClaims result) = []"
    using assms(2) by (simp add: filter_empty_conv)
  with assms(1) show ?thesis
    by (auto simp: save_fresh_def Let_def completeSubmissionLocked_claims completeSubmissionLocked_fields
        saved_claims_def saved_entry_def)
qed

lemma touched_save:
  assumes "indexed s"
    and s': "st_reserved s' = st_reserved s" "st_submissions s' = st_submissions (snd (completeSubmissionLocked now p org rid s))"
      "st_results s' = put rid (saved_entry cd now p org rid payload parent column s) (st_results s)"
  shows "touched s s'"
proof (cases "\<exists>key r. reservation_of s org rid = Some key \<and> record_at s key = Some r \<and> owner_Is (sk_Owner (sr_Key r)) p
    \<and> (sr_State r = SubmissionRunning \<or> sr_State r = SubmissionAbandoned)")
  case True
  then obtain key r where k: "reservation_of s org rid = Some key" "record_at s key = Some r"
    "owner_Is (sk_Owner (sr_Key r)) p" "sr_State r = SubmissionRunning \<or> sr_State r = SubmissionAbandoned" by blast
  let ?r = "r\<lparr>sr_State := SubmissionDone, sr_ResultID := rid, sr_UpdatedAt := now\<rparr>"
  have c: "completeSubmissionLocked now p org rid s = (Some (sk_Owner (sr_Key r)), put_record key ?r s)"
    using k by (simp add: completeSubmissionLocked_def)
  have key: "sr_Key r = key" "sk_OrgID key = org"
    using assms(1) k by (auto intro: indexed_key elim: indexed_reservationE)
  have "ownedByLocked rid key s'"
    using k(3) by (auto simp: ownedByLocked_def s'(3) saved_entry_def c key AList.update_conv' dest: owner_Is_self)
  then have "touch s' key r ?r" using k(4) by (intro touch.complete) auto
  then have "rel_option (touch s' k') (record_at s k') (record_at (put_record key ?r s) k')" for k'
    using k(2) by (auto intro: option.rel_refl touch.same)
  moreover have "record_at s' = record_at (put_record key ?r s)"
    by (auto simp: record_at_def s'(2) c fun_eq_iff)
  moreover have "wf_map (st_submissions s')" using indexed_wf [OF assms(1)] by (simp add: s'(2) c put_record_def)
  ultimately show ?thesis by (simp add: touched_def s'(1))
next
  case False
  then have "snd (completeSubmissionLocked now p org rid s) = s"
    by (auto simp: completeSubmissionLocked_def split: option.splits)
  with assms show ?thesis by (auto intro: touched_records_same)
qed

lemma touched_Save:
  assumes "indexed s"
  shows "touched s (snd (Save cd e ctx now p result parent sem s))"
proof -
  obtain err s' where S: "Save cd e ctx now p result parent sem s = (err, s')" by fastforce
  then show ?thesis
  proof (cases rule: Save_cases)
    case (stored orgID rid payload column)
    have "touched s s'"
      unfolding stored(11) using stored(9,10)
      by (simp add: save_fresh_form touched_save [OF assms, where rid = rid] completeSubmissionLocked_fields)
    with S show ?thesis by simp
  qed (use S assms in simp)
qed

section \<open>Admission\<close>

definition admission_thread :: "submission_admission \<Rightarrow> store \<Rightarrow> thread_record option" where
  "admission_thread a s = (if adm_ThreadID a = '''' then None
     else findThreadLocked (sk_OrgID (adm_Key a)) (sk_Owner (adm_Key a)) (adm_ThreadID a) s)"

lemma AdmitSubmission_cases:
  assumes "AdmitSubmission e a now s = (res, s')"
  obtains (refused) err where "res = Inl err" "s' = s"
  | (replayed) k r where "admission_valid a now" "findSubmissionLocked (adm_Key a) s = Some (k, r)"
      "s' = snd (reconcile_at now k r s)" "res = Inr (fst (reconcile_at now k r s), False)"
  | (admitted) "admission_valid a now" "findSubmissionLocked (adm_Key a) s = None"
      "Option.bind (admission_thread a s) (thread_ClosedReason now) = None"
      "reservation_of s (sk_OrgID (adm_Key a)) (adm_ReservedResultID a) = None" "limit_refusal a now s = None"
      "s' = snd (admit_write a (admission_thread a s) now s)"
      "res = Inr (fst (admit_write a (admission_thread a s) now s), True)"
proof -
  let ?t = "admission_thread a s"
  have A: "AdmitSubmission e a now s =
    (if e then (Inl ErrContextDone, s) else if \<not> admission_valid a now then (Inl ErrRequired, s)
     else case findSubmissionLocked (adm_Key a) s of
       Some (k, r) \<Rightarrow> (Inr (fst (reconcile_at now k r s), False), snd (reconcile_at now k r s))
     | None \<Rightarrow> (case Option.bind ?t (thread_ClosedReason now) of
         Some reason \<Rightarrow> (Inl (ErrThreadClosed reason), s)
       | None \<Rightarrow> if reservation_of s (sk_OrgID (adm_Key a)) (adm_ReservedResultID a) \<noteq> None then (Inl ErrReservedTaken, s)
           else (case limit_refusal a now s of Some x \<Rightarrow> (Inl (ErrSubmissionRefused x), s)
             | None \<Rightarrow> (Inr (fst (admit_write a ?t now s), True), snd (admit_write a ?t now s)))))"
    by (simp only: AdmitSubmission_def admission_thread_def Let_def case_prod_beta)
  consider "e \<or> \<not> admission_valid a now" | k r where "\<not> e" "admission_valid a now" "findSubmissionLocked (adm_Key a) s = Some (k, r)"
    | "\<not> e" "admission_valid a now" "findSubmissionLocked (adm_Key a) s = None" by fastforce
  then show thesis
  proof cases
    case 1
    then have "s' = s" "\<exists>err. res = Inl err" using assms A by (cases e; simp)+
    then show thesis using refused by blast
  next
    case 2
    then show thesis using replayed assms A by simp
  next
    case 3
    consider reason where "Option.bind ?t (thread_ClosedReason now) = Some reason"
      | "Option.bind ?t (thread_ClosedReason now) = None" "reservation_of s (sk_OrgID (adm_Key a)) (adm_ReservedResultID a) \<noteq> None"
      | x where "Option.bind ?t (thread_ClosedReason now) = None" "reservation_of s (sk_OrgID (adm_Key a)) (adm_ReservedResultID a) = None"
          "limit_refusal a now s = Some x"
      | "Option.bind ?t (thread_ClosedReason now) = None" "reservation_of s (sk_OrgID (adm_Key a)) (adm_ReservedResultID a) = None"
          "limit_refusal a now s = None"
      by (metis option.exhaust)
    then show thesis using refused admitted 3 assms A by cases simp_all
  qed
qed

lemma admit_write_fields:
  "st_results (snd (admit_write a t now s)) = st_results s"
  "st_claims (snd (admit_write a t now s)) = st_claims s"
  "st_feedback (snd (admit_write a t now s)) = st_feedback s"
  "st_runEvents (snd (admit_write a t now s)) = st_runEvents s"
  "st_unthreadedRetention (snd (admit_write a t now s)) = st_unthreadedRetention s"
  "st_submissions (snd (admit_write a t now s)) = put (adm_Key a) (fst (admit_write a t now s)) (st_submissions s)"
  "st_reserved (snd (admit_write a t now s)) =
     put \<lparr>rv_orgID = sk_OrgID (adm_Key a), rv_resultID = adm_ReservedResultID a\<rparr> (adm_Key a) (st_reserved s)"
  "st_usage (snd (admit_write a t now s)) =
     (let month = \<lparr>uk_orgID = sk_OrgID (adm_Key a), uk_month = UsageMonth now\<rparr>
      in if adm_PlatformRun a then put month (usage_at s month + 1) (st_usage s) else st_usage s)"
  by (auto simp: admit_write_def Let_def)

lemma admit_write_record:
  "sr_Key (fst (admit_write a t now s)) = adm_Key a"
  "sr_ReservedResultID (fst (admit_write a t now s)) = adm_ReservedResultID a"
  "sr_RequestDigest (fst (admit_write a t now s)) = adm_RequestDigest a"
  "sr_State (fst (admit_write a t now s)) = SubmissionRunning"
  "sr_ExpiresAt (fst (admit_write a t now s)) = adm_ExpiresAt a"
  "sr_AdmittedAt (fst (admit_write a t now s)) = now"
  by (auto simp: admit_write_def new_record_def Let_def)

lemma record_at_admit_write:
  "record_at (snd (admit_write a t now s)) k = (if k = adm_Key a then Some (fst (admit_write a t now s)) else record_at s k)"
  by (simp add: record_at_def admit_write_fields AList.update_conv')

lemma reservation_of_admit_write:
  "reservation_of (snd (admit_write a t now s)) org rid =
    (if org = sk_OrgID (adm_Key a) \<and> rid = adm_ReservedResultID a then Some (adm_Key a) else reservation_of s org rid)"
  by (simp add: reservation_of_def admit_write_fields AList.update_conv')

lemma findSubmissionLocked_None: "findSubmissionLocked key s = None \<Longrightarrow> record_at s key = None"
  by (auto simp: findSubmissionLocked_def split: option.splits)

lemma indexed_admit_write:
  assumes "indexed s" "record_at s (adm_Key a) = None"
    "reservation_of s (sk_OrgID (adm_Key a)) (adm_ReservedResultID a) = None"
  shows "indexed (snd (admit_write a t now s))"
proof (rule indexedI)
  show "wf_map (st_submissions (snd (admit_write a t now s)))" "wf_map (st_reserved (snd (admit_write a t now s)))"
    using assms(1) by (auto simp: admit_write_fields indexed_def)
  show "sr_Key r = k \<and> reservation_of (snd (admit_write a t now s)) (sk_OrgID k) (sr_ReservedResultID r) = Some k"
    if "record_at (snd (admit_write a t now s)) k = Some r" for k r
    using that assms indexed_key [of s k r] indexed_reserved [of s k r]
    by (auto simp: record_at_admit_write reservation_of_admit_write admit_write_record split: if_splits)
  show "sk_OrgID k = org \<and> (\<exists>r. record_at (snd (admit_write a t now s)) k = Some r \<and> sr_ReservedResultID r = rid)"
    if "reservation_of (snd (admit_write a t now s)) org rid = Some k" for org rid k
    using that assms
    by (auto simp: record_at_admit_write reservation_of_admit_write admit_write_record split: if_splits
        elim: indexed_reservationE)
qed

lemma admitted_record:
  assumes "AdmitSubmission e a now s = (Inr (r, True), s')"
  shows "record_at s' (adm_Key a) = Some r \<and> r = fst (admit_write a (admission_thread a s) now s) \<and>
    s' = snd (admit_write a (admission_thread a s) now s)"
  using assms
proof (cases rule: AdmitSubmission_cases)
  case admitted
  then have "r = fst (admit_write a (admission_thread a s) now s)" by simp
  with admitted(6) show ?thesis by (simp add: record_at_admit_write)
qed simp_all

section \<open>All steps that keep records\<close>

text \<open>A step touches the records, or is an admission that adds one.\<close>

lemma step_touched:
  assumes "indexed s" "keeps_records op" "\<not> is_admit op"
  shows "touched s (store_step cd digest op s)"
  using assms
  by (cases op)
    (auto simp: touched_Save touched_GetSubmission touched_FinishSubmission touched_AbandonSubmission
      touched_SweepSubmissions touched_MarkSubmissionUnsaved touched_CheckRunLease touched_cancel_section
      touched_AppendRunEvent touched_ReapLostRuns touched_GetThread touched_CloseThread touched_SetResultFeedback)

lemma admit_touched:
  assumes "indexed s" "AdmitSubmission e a now s = (res, s')" "\<nexists>r. res = Inr (r, True)"
  shows "touched s s'"
  using assms(2)
proof (cases rule: AdmitSubmission_cases)
  case (replayed k r)
  then show ?thesis
    using assms(1) by (auto intro: touched_reconcile_at findSubmissionLocked_Some)
qed (use assms in auto)

lemma step_record:
  assumes "indexed s" "keeps_records op" "record_at s k = Some r"
  obtains r' where "record_at (store_step cd digest op s) k = Some r'" "touch (store_step cd digest op s) k r r'"
proof -
  have from_touched: thesis if "touched s (store_step cd digest op s)"
    using that assms(3) that [unfolded touched_def]
    by (metis \<open>\<And>r'. \<lbrakk>record_at (store_step cd digest op s) k = Some r'; touch (store_step cd digest op s) k r r'\<rbrakk> \<Longrightarrow> thesis\<close>
        option_rel_Some1)
  show thesis
  proof (cases "is_admit op")
    case True
    then obtain e a now where op: "op = OpAdmit e a now" by (auto simp: is_admit_def)
    obtain res s' where A: "AdmitSubmission e a now s = (res, s')" by fastforce
    from A show thesis
    proof (cases rule: AdmitSubmission_cases)
      case admitted
      then have "record_at (store_step cd digest op s) k = Some r"
        using assms(3) A findSubmissionLocked_None [of "adm_Key a" s] by (auto simp: op record_at_admit_write)
      then show thesis using that touch.same by blast
    qed (use A admit_touched [OF assms(1) A] from_touched op in auto)
  qed (use step_touched [OF assms(1,2)] from_touched in blast)
qed

lemma step_indexed_keeps:
  assumes "indexed s" "keeps_records op"
  shows "indexed (store_step cd digest op s)"
proof (cases "is_admit op")
  case True
  then obtain e a now where op: "op = OpAdmit e a now" by (auto simp: is_admit_def)
  obtain res s' where A: "AdmitSubmission e a now s = (res, s')" by fastforce
  from A show ?thesis
  proof (cases rule: AdmitSubmission_cases)
    case admitted
    then show ?thesis
      using assms(1) A findSubmissionLocked_None [of "adm_Key a" s] by (simp add: op indexed_admit_write)
  qed (use A admit_touched [OF assms(1) A] touched_indexed [OF assms(1)] op in auto)
qed (use step_touched [OF assms] touched_indexed [OF assms(1)] in blast)

end
