(* ===== verification/Investigation_Index.thy ===== *)
theory Investigation_Index
  imports Investigation_Touch
begin

text \<open>
  The index of reserved ids through the retention pass, and \<open>retention_rule\<close>: what an invariant
  has to promise about the single writes of the pass to survive all of it.
\<close>

section \<open>The writes of the retention pass\<close>

text \<open>
  Erasing a record replaces its reserved id by the digest of it. The replacement must be free:
  no record that is not erased yet may find its own replacement taken.
\<close>

definition erasable :: "(string \<Rightarrow> string) \<Rightarrow> store \<Rightarrow> bool" where
  "erasable digest s \<longleftrightarrow> indexed s \<and>
     (\<forall>k r. record_at s k = Some r \<longrightarrow> \<not> IsErasedReservedResultID (sr_ReservedResultID r) \<longrightarrow>
        reservation_of s (sk_OrgID k) (ErasedReservedResultID digest (sr_ReservedResultID r)) = None)"

lemma erasable_indexed: "erasable digest s \<Longrightarrow> indexed s"
  by (simp add: erasable_def)

lemma erasable_cong:
  "erasable digest s \<Longrightarrow> st_submissions s' = st_submissions s \<Longrightarrow> st_reserved s' = st_reserved s \<Longrightarrow> erasable digest s'"
  by (simp add: erasable_def indexed_def record_at_def reservation_of_def)

lemma removeRecordLocked_fields:
  "st_results (removeRecordLocked k s) = st_results s" "st_claims (removeRecordLocked k s) = st_claims s"
  "st_usage (removeRecordLocked k s) = st_usage s" "st_threads (removeRecordLocked k s) = st_threads s"
  "st_feedback (removeRecordLocked k s) = st_feedback s"
  "st_unthreadedRetention (removeRecordLocked k s) = st_unthreadedRetention s"
  by (auto simp: removeRecordLocked_def split: option.splits)

lemma record_at_removeRecord: "record_at (removeRecordLocked k s) k' = (if k' = k then None else record_at s k')"
  by (auto simp: removeRecordLocked_def record_at_def AList.delete_conv' split: option.splits)

lemma reservation_of_removeRecord:
  "reservation_of (removeRecordLocked k s) org rid =
    (case record_at s k of None \<Rightarrow> reservation_of s org rid
     | Some r \<Rightarrow> if org = sk_OrgID k \<and> rid = sr_ReservedResultID r then None else reservation_of s org rid)"
  by (auto simp: removeRecordLocked_def reservation_of_def AList.delete_conv' split: option.splits)

lemma erasable_removeRecord:
  assumes "erasable digest s"
  shows "erasable digest (removeRecordLocked k s)"
proof -
  have i: "indexed s" by (rule erasable_indexed [OF assms])
  have "indexed (removeRecordLocked k s)"
  proof (rule indexedI)
    show "wf_map (st_submissions (removeRecordLocked k s))" "wf_map (st_reserved (removeRecordLocked k s))"
      using i by (auto simp: removeRecordLocked_def indexed_def split: option.splits)
    show "sr_Key r = k' \<and> reservation_of (removeRecordLocked k s) (sk_OrgID k') (sr_ReservedResultID r) = Some k'"
      if "record_at (removeRecordLocked k s) k' = Some r" for k' r
      using that i indexed_key [of s k' r] indexed_reserved [of s k' r] indexed_reserved [of s k]
      by (auto simp: record_at_removeRecord reservation_of_removeRecord split: if_splits option.splits)
    show "sk_OrgID k' = org \<and> (\<exists>r. record_at (removeRecordLocked k s) k' = Some r \<and> sr_ReservedResultID r = rid)"
      if "reservation_of (removeRecordLocked k s) org rid = Some k'" for org rid k'
      using that i
      by (auto simp: record_at_removeRecord reservation_of_removeRecord split: if_splits option.splits
          elim: indexed_reservationE)
  qed
  with assms show ?thesis
    by (auto simp: erasable_def record_at_removeRecord reservation_of_removeRecord split: option.splits)
qed

lemma remove_result_fields [simp]:
  "st_submissions (remove_result org rid s) = st_submissions s" "st_reserved (remove_result org rid s) = st_reserved s"
  "st_usage (remove_result org rid s) = st_usage s" "st_threads (remove_result org rid s) = st_threads s"
  "st_runEvents (remove_result org rid s) = st_runEvents s"
  "st_unthreadedRetention (remove_result org rid s) = st_unthreadedRetention s"
  by (simp_all add: remove_result_def)

definition erased_record :: "(string \<Rightarrow> string) \<Rightarrow> time \<Rightarrow> submission_record \<Rightarrow> submission_record" where
  "erased_record digest now r =
    r\<lparr>sr_State := (if sr_State r = SubmissionDone then SubmissionDoneUnsaved else sr_State r), sr_ResultID := '''',
      sr_Question := '''', sr_ReservedResultID := ErasedReservedResultID digest (sr_ReservedResultID r), sr_UpdatedAt := now\<rparr>"

lemma erase_record_fields:
  "st_results (erase_record digest now k s) = st_results s" "st_claims (erase_record digest now k s) = st_claims s"
  "st_usage (erase_record digest now k s) = st_usage s" "st_threads (erase_record digest now k s) = st_threads s"
  "st_feedback (erase_record digest now k s) = st_feedback s"
  "st_unthreadedRetention (erase_record digest now k s) = st_unthreadedRetention s"
  by (auto simp: erase_record_def Let_def split: option.splits)

lemma erase_record_skip:
  "(\<And>r. record_at s k = Some r \<Longrightarrow> IsErasedReservedResultID (sr_ReservedResultID r)) \<Longrightarrow> erase_record digest now k s = s"
  by (auto simp: erase_record_def split: option.splits)

lemma erase_record_at:
  assumes "record_at s k = Some r" "\<not> IsErasedReservedResultID (sr_ReservedResultID r)"
  shows "record_at (erase_record digest now k s) k' = (if k' = k then Some (erased_record digest now r) else record_at s k')"
    and "reservation_of (erase_record digest now k s) org rid =
      (if org = sk_OrgID k \<and> rid = ErasedReservedResultID digest (sr_ReservedResultID r) then Some k
       else if org = sk_OrgID k \<and> rid = sr_ReservedResultID r then None else reservation_of s org rid)"
    and "wf_map (st_submissions s) \<Longrightarrow> wf_map (st_submissions (erase_record digest now k s))"
    and "wf_map (st_reserved s) \<Longrightarrow> wf_map (st_reserved (erase_record digest now k s))"
  using assms
  by (auto simp: erase_record_def Let_def erased_record_def record_at_def reservation_of_def
      AList.update_conv' AList.delete_conv')

lemma erased_is_erased [simp]: "IsErasedReservedResultID (ErasedReservedResultID digest x)"
  by (simp add: IsErasedReservedResultID_def ErasedReservedResultID_def has_prefix_def)

lemma erasable_erase:
  assumes "inj digest" "erasable digest s"
  shows "erasable digest (erase_record digest now k s)"
proof (cases "\<exists>r. record_at s k = Some r \<and> \<not> IsErasedReservedResultID (sr_ReservedResultID r)")
  case True
  then obtain r where r: "record_at s k = Some r" "\<not> IsErasedReservedResultID (sr_ReservedResultID r)" by blast
  let ?e = "ErasedReservedResultID digest (sr_ReservedResultID r)" and ?s = "erase_record digest now k s"
  have i: "indexed s" by (rule erasable_indexed [OF assms(2)])
  have free: "reservation_of s (sk_OrgID k) ?e = None" using assms(2) r by (auto simp: erasable_def)
  have ne: "?e \<noteq> sr_ReservedResultID r" using r(2) by (metis erased_is_erased)
  note at = erase_record_at [OF r]
  have only: "k' = k" if "record_at s k' = Some r'" "sk_OrgID k' = sk_OrgID k" "sr_ReservedResultID r' = sr_ReservedResultID r" for k' r'
    using that indexed_reserved [OF i r(1)] indexed_reserved [OF i that(1)] by simp
  have not_free: "sk_OrgID k' = sk_OrgID k \<longrightarrow> sr_ReservedResultID r' \<noteq> ?e" if "record_at s k' = Some r'" for k' r'
    using that indexed_reserved [OF i that] free by auto
  have "indexed ?s"
  proof (rule indexedI)
    show "wf_map (st_submissions ?s)" "wf_map (st_reserved ?s)"
      using i at(3,4) by (auto simp: indexed_def)
    show "sr_Key r' = k' \<and> reservation_of ?s (sk_OrgID k') (sr_ReservedResultID r') = Some k'"
      if "record_at ?s k' = Some r'" for k' r'
      using that r(1) i ne indexed_key [OF i] indexed_reserved [OF i] only not_free
      by (auto simp: at erased_record_def split: if_splits)
    show "sk_OrgID k' = org \<and> (\<exists>r'. record_at ?s k' = Some r' \<and> sr_ReservedResultID r' = rid)"
      if "reservation_of ?s org rid = Some k'" for org rid k'
      using that r i
      by (auto simp: at erased_record_def split: if_splits elim: indexed_reservationE)
  qed
  moreover have "reservation_of ?s (sk_OrgID k') (ErasedReservedResultID digest (sr_ReservedResultID r')) = None"
    if "record_at ?s k' = Some r'" "\<not> IsErasedReservedResultID (sr_ReservedResultID r')" for k' r'
  proof -
    have k': "k' \<noteq> k" "record_at s k' = Some r'" using that by (auto simp: at erased_record_def split: if_splits)
    then have "reservation_of s (sk_OrgID k') (ErasedReservedResultID digest (sr_ReservedResultID r')) = None"
      using assms(2) that(2) by (auto simp: erasable_def)
    moreover have "ErasedReservedResultID digest (sr_ReservedResultID r') \<noteq> ?e" if "sk_OrgID k' = sk_OrgID k"
      using that only [OF k'(2)] k'(1) assms(1) by (auto simp: ErasedReservedResultID_def dest: injD)
    ultimately show ?thesis by (auto simp: at)
  qed
  ultimately show ?thesis by (simp add: erasable_def)
qed (use assms in \<open>auto simp: erase_record_skip\<close>)

section \<open>Closed records\<close>

abbreviation closed_at :: "time \<Rightarrow> submission_record \<Rightarrow> store \<Rightarrow> bool" where
  "closed_at now r s \<equiv> threadClosedLocked now r s \<noteq> None"

lemma threadClosed_cong:
  assumes "sr_ThreadID r' = sr_ThreadID r" "sr_Key r' = sr_Key r" "sr_ThreadOwner r' = sr_ThreadOwner r"
    "sr_AdmittedAt r' = sr_AdmittedAt r" "st_threads s' = st_threads s" "st_unthreadedRetention s' = st_unthreadedRetention s"
  shows "threadClosedLocked now r' s' = threadClosedLocked now r s"
  by (simp add: threadClosedLocked_def recordThreadRow_def assms)

lemma threadClosed_store_cong:
  "st_threads s' = st_threads s \<Longrightarrow> st_unthreadedRetention s' = st_unthreadedRetention s \<Longrightarrow>
    threadClosedLocked now r s' = threadClosedLocked now r s"
  by (simp add: threadClosedLocked_def)

lemma closed_by_row:
  assumes "sr_Key r = k" "sr_ThreadID r \<noteq> ''''" "recordThreadRow k r = row" "map_of (st_threads s) row = Some t" "thread_Closed now t"
  shows "closed_at now r s"
  using assms by (auto simp: threadClosedLocked_def thread_Closed_def)

lemma fenced_erased: "\<not> RetentionFenced r now \<Longrightarrow> \<not> RetentionFenced (erased_record digest now r) now"
  by (auto simp: RetentionFenced_def erased_record_def split: if_splits)

text \<open>The records of a unit may all go: closed, and none of them can still save.\<close>

definition unit_over :: "time \<Rightarrow> submission_key list \<Rightarrow> store \<Rightarrow> bool" where
  "unit_over now keys s \<longleftrightarrow> (\<forall>k\<in>set keys. \<forall>r. record_at s k = Some r \<longrightarrow> closed_at now r s \<and> \<not> RetentionFenced r now)"

lemma unit_over_cong:
  "unit_over now keys s \<Longrightarrow> st_submissions s' = st_submissions s \<Longrightarrow> st_threads s' = st_threads s \<Longrightarrow>
    st_unthreadedRetention s' = st_unthreadedRetention s \<Longrightarrow> unit_over now keys s'"
  by (auto simp: unit_over_def record_at_def threadClosed_store_cong [of s' s])

lemma unit_over_remove: "unit_over now keys s \<Longrightarrow> unit_over now keys (removeRecordLocked k s)"
  by (auto simp: unit_over_def record_at_removeRecord threadClosed_store_cong [of "removeRecordLocked k s" s]
      removeRecordLocked_fields split: if_splits)

lemma unit_over_erase:
  assumes u: "unit_over now keys s"
  shows "unit_over now keys (erase_record digest now k s)"
proof (cases "\<exists>r. record_at s k = Some r \<and> \<not> IsErasedReservedResultID (sr_ReservedResultID r)")
  case True
  then obtain r where r: "record_at s k = Some r" "\<not> IsErasedReservedResultID (sr_ReservedResultID r)" by blast
  have "threadClosedLocked now r' (erase_record digest now k s) = threadClosedLocked now r' s" for r'
    by (rule threadClosed_store_cong) (simp_all add: erase_record_fields)
  moreover have "threadClosedLocked now (erased_record digest now r) s = threadClosedLocked now r s"
    by (rule threadClosed_cong) (simp_all add: erased_record_def)
  ultimately show ?thesis
    using u r by (auto simp: unit_over_def erase_record_at [OF r] fenced_erased split: if_splits)
qed (use u in \<open>auto simp: erase_record_skip\<close>)

section \<open>What survives the pass\<close>

definition retainable :: "(string \<Rightarrow> string) \<Rightarrow> store \<Rightarrow> bool" where
  "retainable digest s \<longleftrightarrow> inj digest \<and> erasable digest s \<and> st_unthreadedRetention s"

lemma retainable_indexed: "retainable digest s \<Longrightarrow> indexed s"
  by (simp add: retainable_def erasable_def)

lemma retainable_writes:
  assumes "retainable digest s"
  shows "retainable digest (remove_result org rid s)" "retainable digest (removeRecordLocked k s)"
    "retainable digest (erase_record digest now k s)" "retainable digest (s\<lparr>st_threads := m\<rparr>)"
  using assms
  by (auto simp: retainable_def erasable_removeRecord erasable_erase removeRecordLocked_fields erase_record_fields
      intro: erasable_cong [of digest s])

definition retained :: "(string \<Rightarrow> string) \<Rightarrow> (store \<Rightarrow> bool) \<Rightarrow> store \<Rightarrow> bool" where
  "retained digest I s \<longleftrightarrow> retainable digest s \<and> I s"

text \<open>
  The interface: an invariant \<open>I\<close> that each write of the pass keeps, under what the pass has
  checked at that point. Its client fact: the whole pass keeps it.
\<close>

locale retention_rule =
  fixes digest :: "string \<Rightarrow> string" and now :: time and I :: "store \<Rightarrow> bool"
  assumes result_law: "retainable digest s \<Longrightarrow> I s \<Longrightarrow> removable org now rid s \<Longrightarrow> I (remove_result org rid s)"
    and record_law: "retainable digest s \<Longrightarrow> I s \<Longrightarrow> record_at s k = Some r \<Longrightarrow> closed_at now r s \<Longrightarrow>
      \<not> RetentionFenced r now \<Longrightarrow> I (removeRecordLocked k s)"
    and erase_law: "retainable digest s \<Longrightarrow> I s \<Longrightarrow> record_at s k = Some r \<Longrightarrow> closed_at now r s \<Longrightarrow>
      \<not> RetentionFenced r now \<Longrightarrow> \<not> IsErasedReservedResultID (sr_ReservedResultID r) \<Longrightarrow> I (erase_record digest now k s)"
    and row_law: "retainable digest s \<Longrightarrow> I s \<Longrightarrow> map_of (st_threads s) row = Some t \<Longrightarrow> thread_Closed now t \<Longrightarrow>
      (\<And>k r. record_at s k = Some r \<Longrightarrow> sr_ThreadID r = '''' \<or> recordThreadRow k r \<noteq> row) \<Longrightarrow>
      I (s\<lparr>st_threads := del row (st_threads s)\<rparr>)"
begin

lemma results_loop:
  "retained digest I s \<Longrightarrow> retained digest I (snd (remove_results_loop org now ids seen s)) \<and>
    st_submissions (snd (remove_results_loop org now ids seen s)) = st_submissions s \<and>
    st_threads (snd (remove_results_loop org now ids seen s)) = st_threads s \<and>
    st_unthreadedRetention (snd (remove_results_loop org now ids seen s)) = st_unthreadedRetention s"
proof (induction ids arbitrary: seen s)
  case (Cons rid ids)
  have "retained digest I (remove_result org rid s)" if "removable org now rid s"
    using Cons.prems that result_law retainable_writes(1) unfolding retained_def by blast
  with Cons.prems Cons.IH [of s seen] Cons.IH [of s "rid # seen"] Cons.IH [of "remove_result org rid s" "rid # seen"]
  show ?case by (auto split: prod.splits)
qed simp

lemma remove_fold:
  "retained digest I s \<Longrightarrow> unit_over now keys s \<Longrightarrow> retained digest I (fold removeRecordLocked keys s)"
proof (induction keys arbitrary: s)
  case (Cons k keys)
  have "retained digest I (removeRecordLocked k s)"
  proof (cases "record_at s k")
    case None
    then show ?thesis using Cons.prems by (simp add: removeRecordLocked_def)
  next
    case (Some r)
    with Cons.prems have "closed_at now r s" "\<not> RetentionFenced r now" by (auto simp: unit_over_def)
    with Cons.prems Some show ?thesis
      using record_law retainable_writes(2) unfolding retained_def by blast
  qed
  moreover have "unit_over now keys (removeRecordLocked k s)"
    using Cons.prems(2) unit_over_remove [of now keys s k] by (auto simp: unit_over_def)
  ultimately show ?case using Cons.IH by simp
qed simp

lemma erase_fold:
  "retained digest I s \<Longrightarrow> unit_over now keys s \<Longrightarrow> retained digest I (fold (erase_record digest now) keys s)"
proof (induction keys arbitrary: s)
  case (Cons k keys)
  have "retained digest I (erase_record digest now k s)"
  proof (cases "\<exists>r. record_at s k = Some r \<and> \<not> IsErasedReservedResultID (sr_ReservedResultID r)")
    case False
    then show ?thesis using Cons.prems by (auto simp: erase_record_skip)
  next
    case True
    then obtain r where r: "record_at s k = Some r" "\<not> IsErasedReservedResultID (sr_ReservedResultID r)" by blast
    with Cons.prems have "closed_at now r s" "\<not> RetentionFenced r now" by (auto simp: unit_over_def)
    with Cons.prems r show ?thesis
      using erase_law retainable_writes(3) unfolding retained_def by blast
  qed
  moreover have "unit_over now keys (erase_record digest now k s)"
    using Cons.prems(2) unit_over_erase [of now keys s digest k] by (auto simp: unit_over_def)
  ultimately show ?case using Cons.IH by simp
qed simp

end

lemma record_at_remove_fold:
  "record_at (fold removeRecordLocked keys s) k = (if k \<in> set keys then None else record_at s k)"
  by (induction keys arbitrary: s) (auto simp: record_at_removeRecord)

lemma st_threads_remove_fold: "st_threads (fold removeRecordLocked keys s) = st_threads s"
  by (induction keys arbitrary: s) (auto simp: removeRecordLocked_fields)

lemma threadRecords_mem:
  assumes "indexed s"
  shows "k \<in> set (threadRecordsLocked row s) \<longleftrightarrow>
    (\<exists>r. record_at s k = Some r \<and> sr_ThreadID r \<noteq> '''' \<and> recordThreadRow k r = row)"
  using wf_map_mem [OF indexed_wf [OF assms]] by (force simp: threadRecordsLocked_def record_at_def)

lemma thread_unit_over:
  assumes "indexed s" "map_of (st_threads s) row = Some t" "thread_Closed now t"
    "\<not> list_ex (fenced_at now s) (threadRecordsLocked row s)"
  shows "unit_over now (threadRecordsLocked row s) s"
proof -
  have "closed_at now r s \<and> \<not> RetentionFenced r now"
    if k: "k \<in> set (threadRecordsLocked row s)" and r: "record_at s k = Some r" for k r
  proof -
    have "sr_ThreadID r \<noteq> ''''" "recordThreadRow k r = row"
      using k r by (auto simp: threadRecords_mem [OF assms(1)])
    then have "closed_at now r s" using closed_by_row [OF indexed_key [OF assms(1) r] _ _ assms(2,3)] by blast
    moreover have "\<not> fenced_at now s k" using assms(4) k by (auto simp: list_ex_iff)
    ultimately show ?thesis using r by (simp add: fenced_at_def)
  qed
  then show ?thesis by (simp add: unit_over_def)
qed

text \<open>The records the second half of the pass visits are past their window.\<close>

definition unthreaded_due :: "time \<Rightarrow> submission_key list \<Rightarrow> store \<Rightarrow> bool" where
  "unthreaded_due now keys s \<longleftrightarrow> (\<forall>k\<in>set keys. \<forall>r. record_at s k = Some r \<longrightarrow> sr_ThreadID r = '''' \<longrightarrow>
     \<not> now < UnthreadedRecordExpiresAt (sr_AdmittedAt r))"

lemma dueRecords_due:
  assumes "indexed s"
  shows "unthreaded_due now (take n (dueRetentionRecordsLocked now s)) s"
  using wf_map_mem [OF indexed_wf [OF assms]]
  by (fastforce simp: unthreaded_due_def dueRetentionRecordsLocked_def record_at_def dest!: in_set_takeD)

context retention_rule
begin

lemma thread_unit:
  assumes "retained digest I s"
  shows "retained digest I (fst (sweepRetentionThreadLocked digest now row (s, sweep)))"
proof (cases "map_of (st_threads s) row")
  case None
  with assms show ?thesis by (simp add: sweepRetentionThreadLocked_def)
next
  case (Some t)
  let ?keys = "threadRecordsLocked row s"
  let ?s1 = "snd (removeRetainedResultsLocked (tw_orgID row) ?keys now s)"
  consider "\<not> thread_Closed now t" | "thread_Closed now t" "list_ex (fenced_at now s) ?keys"
    | "thread_Closed now t" "\<not> list_ex (fenced_at now s) ?keys" by blast
  then show ?thesis
  proof cases
    case 3
    have ix: "indexed s" using assms retainable_indexed by (auto simp: retained_def)
    have s1: "retained digest I ?s1" "st_submissions ?s1 = st_submissions s" "st_threads ?s1 = st_threads s"
      "st_unthreadedRetention ?s1 = st_unthreadedRetention s"
      using results_loop [OF assms] by (auto simp: removeRetainedResultsLocked_def)
    have over: "unit_over now ?keys ?s1"
      using thread_unit_over [OF ix Some 3] s1 by (auto intro: unit_over_cong)
    have rem: "retained digest I (fold removeRecordLocked ?keys ?s1)" and er: "retained digest I (fold (erase_record digest now) ?keys ?s1)"
      using remove_fold [OF s1(1) over] erase_fold [OF s1(1) over] by simp_all
    have at: "record_at ?s1 = record_at s" by (auto simp: record_at_def s1 fun_eq_iff)
    let ?s2 = "fold removeRecordLocked ?keys ?s1"
    have gone: "sr_ThreadID r = '''' \<or> recordThreadRow k r \<noteq> row" if "record_at ?s2 k = Some r" for k r
      using that threadRecords_mem [OF ix, of k row] by (auto simp: record_at_remove_fold at split: if_splits)
    have "I (?s2\<lparr>st_threads := del row (st_threads ?s2)\<rparr>)"
      using rem gone Some 3(1) by (intro row_law [of _ row t]) (auto simp: retained_def st_threads_remove_fold s1)
    then have "retained digest I (?s2\<lparr>st_threads := del row (st_threads ?s2)\<rparr>)"
      using rem by (simp add: retained_def retainable_writes)
    with er Some 3 assms show ?thesis
      by (auto simp: sweepRetentionThreadLocked_def Let_def thread_Closed_def split: prod.splits)
  qed (use assms Some in \<open>auto simp: sweepRetentionThreadLocked_def Let_def thread_Closed_def\<close>)
qed

lemma record_unit:
  assumes "retained digest I s" "unthreaded_due now (key # keys) s"
  shows "retained digest I (fst (sweepRetentionRecordLocked now key (s, sweep)))"
    and "unthreaded_due now keys (fst (sweepRetentionRecordLocked now key (s, sweep)))"
proof -
  let ?s1 = "snd (removeRetainedResultsLocked (sk_OrgID key) [key] now s)"
  have s1: "retained digest I ?s1" "st_submissions ?s1 = st_submissions s" "st_threads ?s1 = st_threads s"
    "st_unthreadedRetention ?s1 = st_unthreadedRetention s"
    using results_loop [OF assms(1)] by (auto simp: removeRetainedResultsLocked_def)
  have at: "record_at ?s1 = record_at s" by (auto simp: record_at_def s1 fun_eq_iff)
  have "retained digest I (removeRecordLocked key ?s1)" if r: "record_at s key = Some r" "sr_ThreadID r = ''''" "\<not> RetentionFenced r now" for r
  proof -
    have "closed_at now r s"
      using r assms by (auto simp: threadClosedLocked_def unthreaded_due_def retained_def retainable_def)
    then have "unit_over now [key] s" using r by (simp add: unit_over_def)
    then have "unit_over now [key] ?s1" using s1(2,3,4) by (rule unit_over_cong)
    from remove_fold [OF s1(1) this] show ?thesis by simp
  qed
  with assms(1) show "retained digest I (fst (sweepRetentionRecordLocked now key (s, sweep)))"
    by (auto simp: sweepRetentionRecordLocked_def split: option.splits prod.splits)
  show "unthreaded_due now keys (fst (sweepRetentionRecordLocked now key (s, sweep)))"
    using assms(2) at
    by (auto simp: sweepRetentionRecordLocked_def unthreaded_due_def record_at_removeRecord split: option.splits prod.splits if_splits)
qed

lemma thread_units:
  "retained digest I (fst ss) \<Longrightarrow> retained digest I (fst (fold (sweepRetentionThreadLocked digest now) rows ss))"
proof (induction rows arbitrary: ss)
  case (Cons row rows)
  then show ?case using thread_unit [of "fst ss" row "snd ss"] by simp
qed simp

lemma record_units:
  "retained digest I (fst ss) \<Longrightarrow> unthreaded_due now keys (fst ss) \<Longrightarrow>
    retained digest I (fst (fold (sweepRetentionRecordLocked now) keys ss))"
proof (induction keys arbitrary: ss)
  case (Cons key keys)
  then show ?case using record_unit [of "fst ss" key keys "snd ss"] by simp
qed simp

lemma sweep_retained:
  assumes "inj digest" "erasable digest s" "I s"
  shows "erasable digest (snd (SweepRetention digest e now limit s)) \<and> I (snd (SweepRetention digest e now limit s))"
proof (cases "e \<or> \<not> st_unthreadedRetention s")
  case False
  let ?bound = "nat (if limit < 1 then RetentionSweepBatch else limit)"
  let ?threads = "take ?bound (dueRetentionThreadsLocked now s)"
  let ?ss = "fold (sweepRetentionThreadLocked digest now) ?threads (s, zero_sweep)"
  let ?keys = "take (?bound - length ?threads) (dueRetentionRecordsLocked now (fst ?ss))"
  have 1: "retained digest I (fst ?ss)"
    using assms False by (intro thread_units) (simp add: retained_def retainable_def)
  then have "unthreaded_due now ?keys (fst ?ss)"
    using retainable_indexed by (intro dueRecords_due) (auto simp: retained_def)
  from record_units [OF 1 this] show ?thesis
    using False by (simp add: SweepRetention_def Let_def retained_def retainable_def case_prod_beta)
qed (use assms in \<open>auto simp: SweepRetention_def\<close>)

end

section \<open>The index through every step\<close>

text \<open>
  What the callers guarantee: a reserved id is minted fresh (it is no erased id, and the
  replacement it would be erased to is not taken), the digest has no collisions where the
  retention pass uses it, and a run numbers its events below the largest \<^verbatim>\<open>int64\<close>.
\<close>

definition mint_ok :: "(string \<Rightarrow> string) \<Rightarrow> ('x, 'w) store_op \<Rightarrow> store \<Rightarrow> bool" where
  "mint_ok digest op s =
    (case op of
       OpAdmit e a now \<Rightarrow> \<not> IsErasedReservedResultID (adm_ReservedResultID a) \<and>
         reservation_of s (sk_OrgID (adm_Key a)) (ErasedReservedResultID digest (adm_ReservedResultID a)) = None
     | OpRetention e now limit \<Rightarrow> inj digest
     | OpAppend e run event bound now \<Rightarrow> ev_Seq event < max_int64
     | _ \<Rightarrow> True)"

lemma erasable_touched:
  assumes "erasable digest s" "touched s s'"
  shows "erasable digest s'"
proof -
  have res: "reservation_of s' = reservation_of s"
    using assms(2) by (auto simp: touched_def reservation_of_def fun_eq_iff)
  have "reservation_of s' (sk_OrgID k) (ErasedReservedResultID digest (sr_ReservedResultID r')) = None"
    if "record_at s' k = Some r'" "\<not> IsErasedReservedResultID (sr_ReservedResultID r')" for k r'
  proof -
    have "rel_option (touch s' k) (record_at s k) (record_at s' k)" using assms(2) by (simp add: touched_def)
    with that(1) obtain r where "record_at s k = Some r" "touch s' k r r'" by (auto simp: option_rel_Some2)
    with assms(1) that(2) touch_fixed [of s' k r r'] show ?thesis by (auto simp: res erasable_def)
  qed
  with touched_indexed [OF erasable_indexed [OF assms(1)] assms(2)] show ?thesis by (simp add: erasable_def)
qed

lemma erasable_admit_write:
  assumes "erasable digest s" "record_at s (adm_Key a) = None"
    "reservation_of s (sk_OrgID (adm_Key a)) (adm_ReservedResultID a) = None" "mint_ok digest (OpAdmit e a now) s"
  shows "erasable digest (snd (admit_write a t now s))"
proof -
  have m: "\<not> IsErasedReservedResultID (adm_ReservedResultID a)"
    "reservation_of s (sk_OrgID (adm_Key a)) (ErasedReservedResultID digest (adm_ReservedResultID a)) = None"
    using assms(4) by (simp_all add: mint_ok_def)
  have "ErasedReservedResultID digest x \<noteq> adm_ReservedResultID a" for x using m(1) by (metis erased_is_erased)
  with assms m indexed_admit_write [OF erasable_indexed [OF assms(1)] assms(2,3)] show ?thesis
    by (auto simp: erasable_def record_at_admit_write reservation_of_admit_write admit_write_record)
qed

lemma delete_fold:
  "wf_map m \<Longrightarrow> (\<And>k r. (k, r) \<in> set m \<Longrightarrow> record_at s k = Some r) \<Longrightarrow>
    fold (\<lambda>(key, r) s. if sk_OrgID key = orgID
        then s\<lparr>st_submissions := del key (st_submissions s),
               st_reserved := del \<lparr>rv_orgID = orgID, rv_resultID = sr_ReservedResultID r\<rparr> (st_reserved s),
               st_runEvents := del (RunKeyOf r) (st_runEvents s)\<rparr>
        else s) m s = fold removeRecordLocked (filter (\<lambda>k. sk_OrgID k = orgID) (map fst m)) s"
proof (induction m arbitrary: s)
  case (Cons e m)
  obtain k r where e: "e = (k, r)" by (cases e)
  have r: "record_at s k = Some r" using Cons.prems e by simp
  have "record_at (removeRecordLocked k s) k' = Some r'" if "(k', r') \<in> set m" for k' r'
    using that Cons.prems e by (force simp: record_at_removeRecord)
  moreover have "sk_OrgID k = orgID \<Longrightarrow>
    s\<lparr>st_submissions := del k (st_submissions s),
      st_reserved := del \<lparr>rv_orgID = orgID, rv_resultID = sr_ReservedResultID r\<rparr> (st_reserved s),
      st_runEvents := del (RunKeyOf r) (st_runEvents s)\<rparr> = removeRecordLocked k s"
    using r by (auto simp: removeRecordLocked_def)
  ultimately show ?case
    using Cons.IH [of "removeRecordLocked k s"] Cons.IH [of s] Cons.prems by (simp add: e)
qed simp

lemma DeleteSubmissionsForTest_eq:
  "indexed s \<Longrightarrow> DeleteSubmissionsForTest orgID s =
    fold removeRecordLocked (filter (\<lambda>k. sk_OrgID k = orgID) (map fst (st_submissions s))) s"
  unfolding DeleteSubmissionsForTest_def
  by (rule delete_fold) (auto simp: indexed_wf record_at_def wf_map_mem [symmetric])

lemma erasable_remove_fold: "erasable digest s \<Longrightarrow> erasable digest (fold removeRecordLocked keys s)"
  by (induction keys arbitrary: s) (auto simp: erasable_removeRecord)

interpretation index_pass: retention_rule digest now "\<lambda>_. True" for digest now
  by unfold_locales auto

lemma step_erasable:
  assumes "erasable digest s" "mint_ok digest op s"
  shows "erasable digest (store_step cd digest op s)"
proof -
  have ix: "indexed s" by (rule erasable_indexed [OF assms(1)])
  consider e a now where "op = OpAdmit e a now" | e now limit where "op = OpRetention e now limit"
    | org where "op = OpDeleteForTest org" | "keeps_records op" "\<not> is_admit op"
    by (cases op) auto
  then show ?thesis
  proof cases
    case 1
    obtain res s' where A: "AdmitSubmission e a now s = (res, s')" by fastforce
    from A show ?thesis
    proof (cases rule: AdmitSubmission_cases)
      case admitted
      with A assms 1 findSubmissionLocked_None [of "adm_Key a" s] show ?thesis by (simp add: erasable_admit_write)
    qed (use A admit_touched [OF ix A] erasable_touched [OF assms(1)] 1 in auto)
  next
    case 2
    with index_pass.sweep_retained [of digest s e now limit] assms show ?thesis by (simp add: mint_ok_def)
  next
    case 3
    with assms ix show ?thesis by (simp add: DeleteSubmissionsForTest_eq erasable_remove_fold)
  next
    case 4
    with step_touched [OF ix 4] erasable_touched [OF assms(1)] show ?thesis by blast
  qed
qed

lemma erasable_NewStore [simp]: "erasable digest (WithUnthreadedRecordRetention b NewStore)"
  by (simp add: erasable_def indexed_def NewStore_def WithUnthreadedRecordRetention_def record_at_def reservation_of_def)

interpretation index: invariant_machine "store_step cd digest" "mint_ok digest" "erasable digest" for cd digest
  by unfold_locales (rule step_erasable)

interpretation records: invariant_machine "store_step cd digest" "\<lambda>op _. keeps_records op" indexed for cd digest
  by unfold_locales (rule step_indexed_keeps)

end
