(* ===== verification/Investigation_Growth.thy ===== *)
theory Investigation_Growth
  imports Investigation_Index
begin

text \<open>
  How the store grows while nothing is removed: records only move forward through their states,
  results and claims are written once, usage only rises, and a run's log is final once it has
  its terminal row.
\<close>

section \<open>Frames: what an operation leaves alone\<close>

definition same_rest :: "store \<Rightarrow> store \<Rightarrow> bool" where
  "same_rest s s' \<longleftrightarrow> st_results s' = st_results s \<and> st_claims s' = st_claims s \<and> st_usage s' = st_usage s \<and>
     st_runEvents s' = st_runEvents s \<and> st_feedback s' = st_feedback s \<and> st_unthreadedRetention s' = st_unthreadedRetention s"

lemma same_rest_refl [simp]: "same_rest s s"
  by (simp add: same_rest_def)

lemma same_rest_put [simp]: "same_rest s (put_record k r s)"
  by (simp add: same_rest_def)

lemma same_rest_update [simp]: "same_rest s (s\<lparr>st_submissions := m\<rparr>)" "same_rest s (s\<lparr>st_threads := t, st_submissions := m\<rparr>)"
  by (simp_all add: same_rest_def)

lemma same_rest_reconcile: "same_rest s (snd (reconcile_at now k r s))"
  by (simp add: reconcile_at_def Let_def split: prod.splits)

lemma same_rest_GetSubmission: "same_rest s (snd (GetSubmission e key now s))"
  using same_rest_reconcile [of s now]
  by (auto simp: GetSubmission_def split: option.splits prod.splits) (metis snd_conv)

lemma same_rest_ops:
  "same_rest s (snd (FinishSubmission e key served now s))"
  "same_rest s (snd (AbandonSubmission e key now s))"
  "same_rest s (snd (SweepSubmissions e now s))"
  "same_rest s (snd (MarkSubmissionUnsaved e p rid now s))"
  "same_rest s (snd (CheckRunLease e run holder until s))"
  "same_rest s (cancel_section key now s)"
  "same_rest s (snd (GetThread e tkey before limit now s))"
  "same_rest s (snd (CloseThread e tkey now s))"
  by (auto simp: FinishSubmission_def AbandonSubmission_def SweepSubmissions_def MarkSubmissionUnsaved_def
      CheckRunLease_def cancel_section_def GetThread_def CloseThread_def Let_def split: option.splits prod.splits)

lemma AppendRunEvent_frame:
  "st_claims (snd (AppendRunEvent e run event bound now s)) = st_claims s"
  "st_usage (snd (AppendRunEvent e run event bound now s)) = st_usage s"
  "st_feedback (snd (AppendRunEvent e run event bound now s)) = st_feedback s"
  by (auto simp: AppendRunEvent_def Let_def split: option.splits)

lemma reap_loop_frame:
  "st_claims (snd (reap_loop taker env only now m s)) = st_claims s \<and>
   st_usage (snd (reap_loop taker env only now m s)) = st_usage s \<and>
   st_feedback (snd (reap_loop taker env only now m s)) = st_feedback s"
proof (induction m arbitrary: s)
  case (Cons e m)
  obtain k r where e: "e = (k, r)" by (cases e)
  show ?case
    using Cons.IH [of "if lost only now k r s then snd (take_over taker env now k r s) else s"]
    by (auto simp: e reap_loop_Cons take_over_def Let_def simp del: reap_loop.simps)
qed simp

lemma ReapLostRuns_frame:
  "st_claims (snd (ReapLostRuns e taker only env now s)) = st_claims s"
  "st_usage (snd (ReapLostRuns e taker only env now s)) = st_usage s"
  "st_feedback (snd (ReapLostRuns e taker only env now s)) = st_feedback s"
  "st_results (snd (ReapLostRuns e taker only env now s)) = st_results s"
  using reap_loop_frame [of taker env only now "st_submissions s" s] reap_loop_fields [of taker env only now "st_submissions s" s]
  by (auto simp: ReapLostRuns_snd)

lemma SetResultFeedback_frame:
  "st_claims (snd (SetResultFeedback e p rid c u now s)) = st_claims s"
  "st_usage (snd (SetResultFeedback e p rid c u now s)) = st_usage s"
  "st_runEvents (snd (SetResultFeedback e p rid c u now s)) = st_runEvents s"
  "st_results (snd (SetResultFeedback e p rid c u now s)) = st_results s"
  by (auto simp: SetResultFeedback_def Let_def split: option.splits)

lemma AdmitSubmission_frame:
  assumes "AdmitSubmission e a now s = (res, s')"
  shows "st_claims s' = st_claims s" "st_runEvents s' = st_runEvents s" "st_feedback s' = st_feedback s" "st_results s' = st_results s"
  using assms
  by (cases rule: AdmitSubmission_cases; use same_rest_reconcile [of s now] in \<open>auto simp: admit_write_fields same_rest_def\<close>)+

lemma Save_frame:
  assumes "Save cd e ctx now p result parent sem s = (err, s')"
  shows "st_usage s' = st_usage s" "st_runEvents s' = st_runEvents s" "st_feedback s' = st_feedback s"
  using assms
  by (cases rule: Save_cases; simp add: save_fresh_form completeSubmissionLocked_fields)+

section \<open>The preorder\<close>

definition evolves :: "submission_record \<Rightarrow> submission_record \<Rightarrow> bool" where
  "evolves r r' \<longleftrightarrow> sr_Key r' = sr_Key r \<and> sr_RequestDigest r' = sr_RequestDigest r \<and>
     sr_ReservedResultID r' = sr_ReservedResultID r \<and> sr_ThreadID r' = sr_ThreadID r \<and>
     sr_ThreadOwner r' = sr_ThreadOwner r \<and> sr_AdmittedAt r' = sr_AdmittedAt r \<and> sr_ExpiresAt r' = sr_ExpiresAt r \<and>
     sr_RunRequestID r' = sr_RunRequestID r \<and>
     (sr_State r = SubmissionDone \<longrightarrow> sr_State r' = SubmissionDone \<and> sr_ResultID r' = sr_ResultID r) \<and>
     (sr_State r = SubmissionDoneUnsaved \<longrightarrow> sr_State r' = SubmissionDoneUnsaved) \<and>
     (sr_State r = SubmissionAbandoned \<longrightarrow> sr_State r' = SubmissionAbandoned \<or> sr_State r' = SubmissionDone) \<and>
     sr_LeaseExpiresAt r \<le> sr_LeaseExpiresAt r' \<and>
     (sr_State r \<noteq> SubmissionRunning \<or> sr_State r' = SubmissionRunning \<longrightarrow> sr_LeaseHolder r' = sr_LeaseHolder r) \<and>
     (\<not> IsZero (sr_CancelRequestedAt r) \<longrightarrow> sr_CancelRequestedAt r' = sr_CancelRequestedAt r)"

lemma evolves_refl [simp]: "evolves r r"
  by (simp add: evolves_def)

lemma evolves_trans: "evolves r1 r2 \<Longrightarrow> evolves r2 r3 \<Longrightarrow> evolves r1 r3"
  by (cases "sr_State r1"; cases "sr_State r2") (auto simp: evolves_def)

lemma touch_evolves: "touch s k r r' \<Longrightarrow> evolves r r'"
  by (induction rule: touch.induct) (auto simp: evolves_def cancel_wanted_def)

definition grows :: "store \<Rightarrow> store \<Rightarrow> bool" where
  "grows s s' \<longleftrightarrow>
     (\<forall>k r. record_at s k = Some r \<longrightarrow> (\<exists>r'. record_at s' k = Some r' \<and> evolves r r')) \<and>
     map_of (st_results s) \<subseteq>\<^sub>m map_of (st_results s') \<and>
     map_of (st_claims s) \<subseteq>\<^sub>m map_of (st_claims s') \<and>
     (\<forall>k. usage_at s k \<le> usage_at s' k) \<and>
     (\<forall>run. hasTerminal (run_log run s) \<longrightarrow> run_log run s' = run_log run s) \<and>
     (\<forall>rid f. map_of (st_feedback s) rid = Some f \<longrightarrow>
        (\<exists>f'. map_of (st_feedback s') rid = Some f' \<and> rf_UpdatedAt f \<le> rf_UpdatedAt f'))"

lemma grows_refl: "grows s s"
  by (auto simp: grows_def)

lemma grows_trans:
  assumes "grows s t" "grows t u"
  shows "grows s u"
proof -
  have "\<exists>r'. record_at u k = Some r' \<and> evolves r r'" if "record_at s k = Some r" for k r
    using that assms unfolding grows_def by (meson evolves_trans)
  moreover have "map_of (st_results s) \<subseteq>\<^sub>m map_of (st_results u)" "map_of (st_claims s) \<subseteq>\<^sub>m map_of (st_claims u)"
    using assms by (auto simp: grows_def intro: map_le_trans)
  moreover have "usage_at s k \<le> usage_at u k" for k using assms by (auto simp: grows_def intro: order_trans)
  moreover have "run_log run u = run_log run s" if "hasTerminal (run_log run s)" for run
    using that assms by (simp add: grows_def)
  moreover have "\<exists>f'. map_of (st_feedback u) rid = Some f' \<and> rf_UpdatedAt f \<le> rf_UpdatedAt f'" if "map_of (st_feedback s) rid = Some f" for rid f
    using that assms unfolding grows_def by (meson order_trans)
  ultimately show ?thesis unfolding grows_def by blast
qed

section \<open>Every keeping step grows the store\<close>

lemma put_new_le: "map_of m k = None \<Longrightarrow> map_of m \<subseteq>\<^sub>m map_of (put k v m)"
  by (auto simp: map_le_def AList.update_conv')

lemma fold_put_lookup:
  "map_of (fold (\<lambda>c m. put (f c) v m) cs m) k = (if k \<in> f ` set cs then Some v else map_of m k)"
  by (induction cs arbitrary: m) (auto simp: AList.update_conv')

lemma saved_claims_lookup:
  "map_of (saved_claims org rid result s) c =
    (if c \<in> claim_key_of org ` set (structureSupersessionClaims result) then Some rid else map_of (st_claims s) c)"
  by (simp add: saved_claims_def fold_put_lookup)

lemma step_results:
  assumes "keeps_records op" "\<not> is_save op"
  shows "st_results (store_step cd digest op s) = st_results s" "st_claims (store_step cd digest op s) = st_claims s"
proof -
  have f: "same_rest s s' \<Longrightarrow> st_results s' = st_results s \<and> st_claims s' = st_claims s" for s'
    by (simp add: same_rest_def)
  have a: "st_results (snd (AdmitSubmission e a now s)) = st_results s \<and> st_claims (snd (AdmitSubmission e a now s)) = st_claims s" for e a now
    using AdmitSubmission_frame [of e a now s] by (metis prod.collapse)
  have "st_results (store_step cd digest op s) = st_results s \<and> st_claims (store_step cd digest op s) = st_claims s"
    using assms
    by (cases op)
      (auto simp: a f [OF same_rest_GetSubmission] f [OF same_rest_ops(1)] f [OF same_rest_ops(2)] f [OF same_rest_ops(3)]
        f [OF same_rest_ops(4)] f [OF same_rest_ops(5)] f [OF same_rest_ops(6)] f [OF same_rest_ops(7)] f [OF same_rest_ops(8)]
        AppendRunEvent_keeps AppendRunEvent_frame ReapLostRuns_frame SetResultFeedback_frame)
  then show "st_results (store_step cd digest op s) = st_results s" "st_claims (store_step cd digest op s) = st_claims s" by simp_all
qed

lemma Save_results:
  assumes "Save cd e ctx now p result parent sem s = (err, s')"
  shows "map_of (st_results s) \<subseteq>\<^sub>m map_of (st_results s') \<and> map_of (st_claims s) \<subseteq>\<^sub>m map_of (st_claims s')"
  using assms
proof (cases rule: Save_cases)
  case (stored orgID rid payload column)
  note form = save_fresh_form [OF stored(9,10)]
  have "map_of (st_results s) \<subseteq>\<^sub>m map_of (st_results s')"
    using stored(8) by (simp add: stored(11) form put_new_le)
  moreover have "map_of (st_claims s) \<subseteq>\<^sub>m map_of (st_claims s')"
    using stored(10) by (auto simp: stored(11) form saved_claims_lookup map_le_def has_key_def)
  ultimately show ?thesis ..
qed auto

lemma step_results_grow:
  assumes "keeps_records op"
  shows "map_of (st_results s) \<subseteq>\<^sub>m map_of (st_results (store_step cd digest op s))"
    "map_of (st_claims s) \<subseteq>\<^sub>m map_of (st_claims (store_step cd digest op s))"
proof -
  have "map_of (st_results s) \<subseteq>\<^sub>m map_of (st_results (store_step cd digest op s)) \<and>
    map_of (st_claims s) \<subseteq>\<^sub>m map_of (st_claims (store_step cd digest op s))"
  proof (cases "is_save op")
    case True
    then obtain e ctx now p result parent sem where op: "op = OpSave e ctx now p result parent sem" by (auto simp: is_save_def)
    obtain err s' where S: "Save cd e ctx now p result parent sem s = (err, s')" by fastforce
    with Save_results [OF S] op show ?thesis by simp
  qed (use step_results [OF assms, where cd = cd and digest = digest and s = s] in simp)
  then show "map_of (st_results s) \<subseteq>\<^sub>m map_of (st_results (store_step cd digest op s))"
    "map_of (st_claims s) \<subseteq>\<^sub>m map_of (st_claims (store_step cd digest op s))" by simp_all
qed

text \<open>Usage: only an admission writes it, and it adds one.\<close>

lemma admit_usage:
  assumes "AdmitSubmission e a now s = (res, s')"
  shows "usage_at s' k = usage_at s k +
    (if (\<exists>r. res = Inr (r, True)) \<and> adm_PlatformRun a \<and> k = \<lparr>uk_orgID = sk_OrgID (adm_Key a), uk_month = UsageMonth now\<rparr> then 1 else 0)"
  using assms
proof (cases rule: AdmitSubmission_cases)
  case (replayed k r)
  then show ?thesis using same_rest_reconcile [of s now k r] by (simp add: usage_at_def same_rest_def)
qed (auto simp: usage_at_def admit_write_fields Let_def map_simps)

lemma step_usage:
  assumes "keeps_records op" "\<not> is_admit op"
  shows "st_usage (store_step cd digest op s) = st_usage s"
proof -
  have f: "same_rest s s' \<Longrightarrow> st_usage s' = st_usage s" for s' by (simp add: same_rest_def)
  have v: "st_usage (snd (Save cd e ctx now p result parent sem s)) = st_usage s" for e ctx now p result parent sem
    using Save_frame [of cd e ctx now p result parent sem s] by (metis prod.collapse)
  show ?thesis
    using assms
    by (cases op)
      (auto simp: v f [OF same_rest_GetSubmission] f [OF same_rest_ops(1)] f [OF same_rest_ops(2)] f [OF same_rest_ops(3)]
        f [OF same_rest_ops(4)] f [OF same_rest_ops(5)] f [OF same_rest_ops(6)] f [OF same_rest_ops(7)] f [OF same_rest_ops(8)]
        AppendRunEvent_frame ReapLostRuns_frame SetResultFeedback_frame)
qed

lemma step_usage_grows: "keeps_records op \<Longrightarrow> usage_at s k \<le> usage_at (store_step cd digest op s) k"
proof (cases "is_admit op")
  case True
  then obtain e a now where op: "op = OpAdmit e a now" by (auto simp: is_admit_def)
  obtain res s' where A: "AdmitSubmission e a now s = (res, s')" by fastforce
  with admit_usage [OF A, of k] op show ?thesis by simp
qed (simp add: usage_at_def step_usage)

text \<open>Logs.\<close>

lemma append_terminal_kept: "hasTerminal (run_log run' s) \<Longrightarrow> run_log run' (snd (AppendRunEvent e run event bound now s)) = run_log run' s"
  by (auto simp: AppendRunEvent_def run_log_def map_simps Let_def split: option.splits)

lemma take_over_terminal_kept:
  "hasTerminal (run_log run s) \<Longrightarrow> run_log run (snd (take_over taker env now k r s)) = run_log run s"
  by (auto simp: take_over_def Let_def run_log_def map_simps)

lemma reap_terminal_kept:
  "hasTerminal (run_log run s) \<Longrightarrow> run_log run (snd (reap_loop taker env only now m s)) = run_log run s"
proof (induction m arbitrary: s)
  case (Cons e m)
  obtain k r where e: "e = (k, r)" by (cases e)
  show ?case
    using Cons.IH [of "snd (take_over taker env now k r s)"] Cons.IH [of s] Cons.prems
    by (auto simp: e reap_loop_Cons take_over_terminal_kept simp del: reap_loop.simps)
qed simp

lemma step_logs:
  assumes "keeps_records op" "\<not> is_append op" "\<not> is_reap op"
  shows "st_runEvents (store_step cd digest op s) = st_runEvents s"
proof -
  have f: "same_rest s s' \<Longrightarrow> st_runEvents s' = st_runEvents s" for s' by (simp add: same_rest_def)
  have a: "st_runEvents (snd (AdmitSubmission e a now s)) = st_runEvents s" for e a now
    using AdmitSubmission_frame [of e a now s] by (metis prod.collapse)
  have v: "st_runEvents (snd (Save cd e ctx now p result parent sem s)) = st_runEvents s" for e ctx now p result parent sem
    using Save_frame [of cd e ctx now p result parent sem s] by (metis prod.collapse)
  show ?thesis
    using assms
    by (cases op)
      (auto simp: a v f [OF same_rest_GetSubmission] f [OF same_rest_ops(1)] f [OF same_rest_ops(2)] f [OF same_rest_ops(3)]
        f [OF same_rest_ops(4)] f [OF same_rest_ops(5)] f [OF same_rest_ops(6)] f [OF same_rest_ops(7)] f [OF same_rest_ops(8)]
        SetResultFeedback_frame)
qed

lemma step_terminal_kept:
  assumes "keeps_records op" "hasTerminal (run_log run s)"
  shows "run_log run (store_step cd digest op s) = run_log run s"
proof -
  consider e run' event bound now where "op = OpAppend e run' event bound now"
    | e taker only env now where "op = OpReap e taker only env now"
    | "\<not> is_append op" "\<not> is_reap op"
    by (cases op) auto
  then show ?thesis
  proof cases
    case 3
    with step_logs [OF assms(1), where cd = cd and digest = digest and s = s] show ?thesis by (simp add: run_log_def)
  qed (use assms(2) in \<open>auto simp: append_terminal_kept ReapLostRuns_snd reap_terminal_kept\<close>)
qed

text \<open>Feedback.\<close>

lemma SetResultFeedback_time:
  "map_of (st_feedback s) rid' = Some f \<Longrightarrow>
    \<exists>f'. map_of (st_feedback (snd (SetResultFeedback e p rid c u now s))) rid' = Some f' \<and> rf_UpdatedAt f \<le> rf_UpdatedAt f'"
  by (auto simp: SetResultFeedback_def Let_def AList.update_conv' split: option.splits)

lemma step_feedback:
  assumes "keeps_records op" "map_of (st_feedback s) rid = Some f"
  shows "\<exists>f'. map_of (st_feedback (store_step cd digest op s)) rid = Some f' \<and> rf_UpdatedAt f \<le> rf_UpdatedAt f'"
proof -
  have f: "same_rest s s' \<Longrightarrow> st_feedback s' = st_feedback s" for s' by (simp add: same_rest_def)
  have a: "st_feedback (snd (AdmitSubmission e a now s)) = st_feedback s" for e a now
    using AdmitSubmission_frame [of e a now s] by (metis prod.collapse)
  have v: "st_feedback (snd (Save cd e ctx now p result parent sem s)) = st_feedback s" for e ctx now p result parent sem
    using Save_frame [of cd e ctx now p result parent sem s] by (metis prod.collapse)
  show ?thesis
    using assms
    by (cases op)
      (auto simp: a v f [OF same_rest_GetSubmission] f [OF same_rest_ops(1)] f [OF same_rest_ops(2)] f [OF same_rest_ops(3)]
        f [OF same_rest_ops(4)] f [OF same_rest_ops(5)] f [OF same_rest_ops(6)] f [OF same_rest_ops(7)] f [OF same_rest_ops(8)]
        AppendRunEvent_frame ReapLostRuns_frame SetResultFeedback_time)
qed

lemma step_grows:
  assumes "indexed s" "keeps_records op"
  shows "grows s (store_step cd digest op s)"
proof -
  have "\<exists>r'. record_at (store_step cd digest op s) k = Some r' \<and> evolves r r'" if "record_at s k = Some r" for k r
    using step_record [OF assms that] touch_evolves by metis
  with assms(2) show ?thesis
    by (simp add: grows_def step_results_grow step_usage_grows step_terminal_kept step_feedback)
qed

interpretation growth: evolving_machine "store_step cd digest" "\<lambda>op _. keeps_records op" indexed grows for cd digest
  by unfold_locales (auto intro: grows_refl grows_trans step_grows)

text \<open>The form the properties use: a run of keeping steps, its steps given as a list.\<close>

lemma run_grows: "indexed s \<Longrightarrow> list_all keeps_records ops \<Longrightarrow> grows s (run_ops (store_step cd digest) ops s)"
  using growth.run_rel [of s cd digest ops] by (simp add: ok_run_static)

lemma run_indexed: "indexed s \<Longrightarrow> list_all keeps_records ops \<Longrightarrow> indexed (run_ops (store_step cd digest) ops s)"
  using records.run_inv [of s cd digest ops] by (simp add: ok_run_static)

lemma growsD:
  assumes "grows s s'"
  shows "record_at s k = Some r \<Longrightarrow> \<exists>r'. record_at s' k = Some r' \<and> evolves r r'"
    and "map_of (st_results s) rid = Some e \<Longrightarrow> map_of (st_results s') rid = Some e"
    and "map_of (st_claims s) c = Some v \<Longrightarrow> map_of (st_claims s') c = Some v"
  using assms by (auto simp: grows_def map_le_def dom_def)

end
