(* ===== verification/Investigation_Ownership.thy ===== *)
theory Investigation_Ownership
  imports Investigation_Growth
begin

text \<open>
  Who a stored result belongs to: a done record names a stored result of its own organization and
  owner, a supersession claim is held by a stored result of its organization, and what the
  retention pass keeps.
\<close>

section \<open>Done records\<close>

definition done_owned :: "store \<Rightarrow> bool" where
  "done_owned s \<longleftrightarrow> indexed s \<and>
     (\<forall>k r. record_at s k = Some r \<longrightarrow> sr_State r = SubmissionDone \<longrightarrow> ownedByLocked (sr_ResultID r) k s)"

lemma ownedBy_grows: "grows s s' \<Longrightarrow> ownedByLocked rid k s \<Longrightarrow> ownedByLocked rid k s'"
  by (auto simp: ownedByLocked_def dest: growsD(2) split: option.splits)

lemma touch_owned:
  "touch s' k r r' \<Longrightarrow> (sr_State r = SubmissionDone \<Longrightarrow> ownedByLocked (sr_ResultID r) k s') \<Longrightarrow>
    sr_State r' = SubmissionDone \<Longrightarrow> ownedByLocked (sr_ResultID r') k s'"
  by (induction rule: touch.induct) (auto simp: cancel_wanted_def)

lemma done_owned_touched:
  assumes "done_owned s" "touched s s'" "grows s s'"
  shows "done_owned s'"
proof -
  have "ownedByLocked (sr_ResultID r') k s'" if "record_at s' k = Some r'" "sr_State r' = SubmissionDone" for k r'
  proof -
    have "rel_option (touch s' k) (record_at s k) (record_at s' k)" using assms(2) by (simp add: touched_def)
    with that(1) obtain r where r: "record_at s k = Some r" "touch s' k r r'" by (auto simp: option_rel_Some2)
    from r(1) assms(1,3) have "sr_State r = SubmissionDone \<Longrightarrow> ownedByLocked (sr_ResultID r) k s'"
      by (auto simp: done_owned_def intro: ownedBy_grows)
    from touch_owned [OF r(2) this that(2)] show ?thesis by blast
  qed
  with assms(1,2) show ?thesis by (auto simp: done_owned_def intro: touched_indexed)
qed

lemma step_done_owned:
  assumes "done_owned s" "keeps_records op"
  shows "done_owned (store_step cd digest op s)"
proof -
  have ix: "indexed s" using assms(1) by (simp add: done_owned_def)
  note g = step_grows [OF ix assms(2), of cd digest]
  show ?thesis
  proof (cases "is_admit op")
    case True
    then obtain e a now where op: "op = OpAdmit e a now" by (auto simp: is_admit_def)
    obtain res s' where A: "AdmitSubmission e a now s = (res, s')" by fastforce
    from A show ?thesis
    proof (cases rule: AdmitSubmission_cases)
      case admitted
      have "ownedByLocked (sr_ResultID r) k s'" if "record_at s' k = Some r" "sr_State r = SubmissionDone" for k r
        using that assms(1) g A op
        by (auto simp: admitted(6) record_at_admit_write admit_write_record done_owned_def split: if_splits
            intro: ownedBy_grows)
      with A op step_indexed_keeps [OF ix assms(2), of cd digest] show ?thesis by (simp add: done_owned_def)
    next
      case (replayed k r)
      with A op admit_touched [OF ix A] done_owned_touched [OF assms(1) _ g] show ?thesis by simp
    qed (use assms A op in simp)
  qed (use step_touched [OF ix assms(2)] done_owned_touched [OF assms(1) _ g] in blast)
qed

interpretation finished: invariant_machine "store_step cd digest" "\<lambda>op _. keeps_records op" done_owned for cd digest
  by unfold_locales (rule step_done_owned)

section \<open>Supersession claims\<close>

definition claims_held :: "store \<Rightarrow> bool" where
  "claims_held s \<longleftrightarrow> wf_map (st_results s) \<and> wf_map (st_claims s) \<and>
     (\<forall>c rid. map_of (st_claims s) c = Some rid \<longrightarrow>
        (\<exists>e. map_of (st_results s) rid = Some e \<and> en_orgID e = ck_orgID c))"

lemma claims_held_cong: "claims_held s \<Longrightarrow> st_results s' = st_results s \<Longrightarrow> st_claims s' = st_claims s \<Longrightarrow> claims_held s'"
  by (simp add: claims_held_def)

lemma claims_held_remove_result:
  assumes "claims_held s" "removable org now rid s"
  shows "claims_held (remove_result org rid s)"
proof -
  have "\<exists>e. map_of (st_results (remove_result org rid s)) by' = Some e \<and> en_orgID e = ck_orgID c"
    if c: "map_of (st_claims (remove_result org rid s)) c = Some by'" for c by'
  proof -
    have keep: "map_of (st_claims s) c = Some by'" "\<not> (ck_orgID c = org \<and> (ck_priorResultID c = rid \<or> by' = rid))"
      using c assms(1) by (auto simp: remove_result_def claims_held_def map_of_filter split: option.splits if_splits)
    then obtain e where e: "map_of (st_results s) by' = Some e" "en_orgID e = ck_orgID c"
      using assms(1) by (auto simp: claims_held_def)
    with keep(2) assms(2) have "by' \<noteq> rid" by (auto simp: removable_def)
    with e show ?thesis by (simp add: remove_result_def AList.delete_conv')
  qed
  with assms(1) show ?thesis by (auto simp: claims_held_def remove_result_def)
qed

interpretation claims_pass: retention_rule digest now claims_held for digest now
  by unfold_locales
    (auto simp: claims_held_remove_result removeRecordLocked_fields erase_record_fields intro: claims_held_cong)

lemma fold_put_wf: "wf_map m \<Longrightarrow> wf_map (fold (\<lambda>c m. put (f c) v m) cs m)"
  by (induction cs arbitrary: m) auto

lemma claims_held_Save:
  assumes "claims_held s" "Save cd e ctx now p result parent sem s = (err, s')"
  shows "claims_held s'"
  using assms(2)
proof (cases rule: Save_cases)
  case (stored orgID rid payload column)
  note form = save_fresh_form [OF stored(9,10)]
  have "\<exists>e. map_of (st_results s') by' = Some e \<and> en_orgID e = ck_orgID c" if "map_of (st_claims s') c = Some by'" for c by'
    using that assms(1) stored(8) unfolding claims_held_def
    by (fastforce simp: stored(11) form saved_claims_lookup AList.update_conv' saved_entry_def claim_key_of_def
        split: if_splits)
  with assms(1) show ?thesis
    by (auto simp: claims_held_def stored(11) form saved_claims_def fold_put_wf)
qed (use assms in simp)

lemma remove_fold_fields:
  "st_results (fold removeRecordLocked keys s) = st_results s \<and> st_claims (fold removeRecordLocked keys s) = st_claims s
   \<and> st_usage (fold removeRecordLocked keys s) = st_usage s \<and> st_feedback (fold removeRecordLocked keys s) = st_feedback s"
  by (induction keys arbitrary: s) (auto simp: removeRecordLocked_fields)

lemma step_claims_held:
  assumes "erasable digest s \<and> claims_held s" "mint_ok digest op s"
  shows "erasable digest (store_step cd digest op s) \<and> claims_held (store_step cd digest op s)"
proof -
  have ix: "indexed s" using assms(1) erasable_indexed by blast
  consider "is_save op" | e now limit where "op = OpRetention e now limit" | org where "op = OpDeleteForTest org"
    | "keeps_records op" "\<not> is_save op" by (cases op) auto
  then have "claims_held (store_step cd digest op s)"
  proof cases
    case 1
    then obtain e ctx now p result parent sem where op: "op = OpSave e ctx now p result parent sem" by (auto simp: is_save_def)
    obtain err s' where "Save cd e ctx now p result parent sem s = (err, s')" by fastforce
    with claims_held_Save [OF _ this] assms op show ?thesis by simp
  next
    case 2
    with claims_pass.sweep_retained [of digest s e now limit] assms show ?thesis by (simp add: mint_ok_def)
  next
    case 3
    with assms ix remove_fold_fields show ?thesis
      by (auto simp: DeleteSubmissionsForTest_eq intro: claims_held_cong)
  next
    case 4
    with assms step_results [OF 4, where cd = cd and digest = digest and s = s] show ?thesis by (auto intro: claims_held_cong)
  qed
  with step_erasable [of digest s op cd] assms show ?thesis by blast
qed

interpretation claims: invariant_machine "store_step cd digest" "mint_ok digest" "\<lambda>s. erasable digest s \<and> claims_held s" for cd digest
  by unfold_locales (rule step_claims_held)

section \<open>What the retention pass keeps\<close>

text \<open>
  Records that can still be read (their thread is not closed) and records that can still save
  stay as they are, and so do the results the former name.
\<close>

definition spared :: "time \<Rightarrow> store \<Rightarrow> submission_record \<Rightarrow> bool" where
  "spared now s r \<longleftrightarrow> \<not> closed_at now r s \<or> RetentionFenced r now"

definition kept_by_pass :: "time \<Rightarrow> store \<Rightarrow> store \<Rightarrow> bool" where
  "kept_by_pass now s s' \<longleftrightarrow>
     (\<forall>k r. record_at s k = Some r \<longrightarrow> spared now s r \<longrightarrow> record_at s' k = Some r \<and>
        (\<not> closed_at now r s \<longrightarrow> \<not> closed_at now r s' \<and>
           (\<forall>rid e. names_result (sk_OrgID k) rid (k, r) \<longrightarrow> map_of (st_results s) rid = Some e \<longrightarrow>
              en_orgID e = sk_OrgID k \<longrightarrow> map_of (st_results s') rid = Some e)))"

lemma kept_refl: "kept_by_pass now s s"
  by (simp add: kept_by_pass_def)

lemma kept_remove_result:
  assumes "indexed s" "kept_by_pass now s0 s" "removable org now rid s"
  shows "kept_by_pass now s0 (remove_result org rid s)"
proof -
  have safe: "rid' \<noteq> rid" if r: "record_at s k = Some r" "\<not> closed_at now r s"
    "names_result (sk_OrgID k) rid' (k, r)" "map_of (st_results s) rid' = Some e" "en_orgID e = sk_OrgID k" for k r rid' e
  proof
    assume "rid' = rid"
    with r assms(3) have "org = sk_OrgID k" by (auto simp: removable_def)
    moreover have "(k, r) \<in> set (st_submissions s)"
      using r(1) by (auto simp: record_at_def dest: map_of_SomeD)
    ultimately show False
      using r assms(3) \<open>rid' = rid\<close> by (auto simp: removable_def namedByLiveRecordLocked_def list_ex_iff)
  qed
  have at: "record_at (remove_result org rid s) = record_at s" by (simp add: record_at_def fun_eq_iff)
  have cl: "threadClosedLocked now r (remove_result org rid s) = threadClosedLocked now r s" for r
    by (rule threadClosed_store_cong) simp_all
  have res: "map_of (st_results (remove_result org rid s)) rid' = map_of (st_results s) rid'" if "rid' \<noteq> rid" for rid'
    using that by (simp add: remove_result_def AList.delete_conv')
  have "map_of (st_results (remove_result org rid s)) rid' = Some e"
    if "record_at s0 k = Some r" "\<not> closed_at now r s0" "names_result (sk_OrgID k) rid' (k, r)"
      "map_of (st_results s0) rid' = Some e" "en_orgID e = sk_OrgID k" for k r rid' e
  proof -
    have s: "record_at s k = Some r" "\<not> closed_at now r s" "map_of (st_results s) rid' = Some e"
      using that assms(2) unfolding kept_by_pass_def spared_def by blast+
    with safe [OF s(1,2) that(3) s(3) that(5)] res show ?thesis by simp
  qed
  with assms(2) show ?thesis unfolding kept_by_pass_def at cl by blast
qed

lemma kept_records:
  assumes "kept_by_pass now s0 s" "record_at s k = Some r" "closed_at now r s" "\<not> RetentionFenced r now"
    and s': "\<And>k'. k' \<noteq> k \<Longrightarrow> record_at s' k' = record_at s k'" "st_results s' = st_results s" "st_threads s' = st_threads s"
      "st_unthreadedRetention s' = st_unthreadedRetention s"
  shows "kept_by_pass now s0 s'"
proof -
  have cl: "threadClosedLocked now r s' = threadClosedLocked now r s" for r
    by (rule threadClosed_store_cong) (simp_all add: s')
  have "record_at s' k' = record_at s k'" if "record_at s0 k' = Some r'" "spared now s0 r'" for k' r'
  proof -
    have "k' \<noteq> k" using that assms(1-4) unfolding kept_by_pass_def spared_def by (metis option.inject)
    then show ?thesis by (rule s'(1))
  qed
  with assms(1) show ?thesis unfolding kept_by_pass_def cl s'(2) by simp
qed

lemma kept_row:
  assumes "indexed s" "kept_by_pass now s0 s"
    "\<And>k r. record_at s k = Some r \<Longrightarrow> sr_ThreadID r = '''' \<or> recordThreadRow k r \<noteq> row"
  shows "kept_by_pass now s0 (s\<lparr>st_threads := del row (st_threads s)\<rparr>)" (is "kept_by_pass _ _ ?s'")
proof -
  have at: "record_at ?s' = record_at s" by (simp add: record_at_def fun_eq_iff)
  have "threadClosedLocked now r ?s' = threadClosedLocked now r s" if "record_at s k = Some r" for k r
    using that assms(3) [OF that] indexed_key [OF assms(1) that]
    by (auto simp: threadClosedLocked_def AList.delete_conv' split: option.splits)
  with assms(2) show ?thesis unfolding kept_by_pass_def at by simp metis
qed

interpretation kept_pass: retention_rule digest now "kept_by_pass now s0" for digest now s0
proof unfold_locales
  fix s org rid
  assume "retainable digest s" "kept_by_pass now s0 s" "removable org now rid s"
  then show "kept_by_pass now s0 (remove_result org rid s)" by (blast intro: kept_remove_result retainable_indexed)
next
  fix s k r
  assume "kept_by_pass now s0 s" "record_at s k = Some r" "closed_at now r s" "\<not> RetentionFenced r now"
  then show "kept_by_pass now s0 (removeRecordLocked k s)"
    by (rule kept_records) (simp_all add: record_at_removeRecord removeRecordLocked_fields)
next
  fix s k r
  assume a: "kept_by_pass now s0 s" "record_at s k = Some r" "closed_at now r s" "\<not> RetentionFenced r now"
    and "\<not> IsErasedReservedResultID (sr_ReservedResultID r)"
  then show "kept_by_pass now s0 (erase_record digest now k s)"
    by (intro kept_records [OF a]) (simp_all add: erase_record_at(1) erase_record_fields)
next
  fix s row t
  assume "retainable digest s" "kept_by_pass now s0 s"
    "\<And>k r. record_at s k = Some r \<Longrightarrow> sr_ThreadID r = '''' \<or> recordThreadRow k r \<noteq> row"
  then show "kept_by_pass now s0 (s\<lparr>st_threads := del row (st_threads s)\<rparr>)"
    by (intro kept_row) (auto dest: retainable_indexed)
qed

end
