(* ===== verification/Investigation_Lifecycle.thy ===== *)
theory Investigation_Lifecycle
  imports Investigation_Ownership
begin

text \<open>
  The abstract specification of one submission: a machine over phases whose moves are labelled with
  what the store was asked to do. The store simulates it step for step: seen through \<open>phase_of\<close>, a step
  of the store leaves the phase of a submission key or makes the one move its label allows.
\<close>

section \<open>The abstract machine\<close>

text \<open>
  \<open>Active\<close> carries the lease holder and the deadline, \<open>Finished\<close> the result id that answers the submission.
\<close>

datatype phase = NoRecord | Active string time | Finished string | Unsaved | Lost

text \<open>
  \<open>Admitting\<close> carries the lease holder and the deadline of the admission and its time; \<open>Looking\<close> is a read or
  a sweep, which settles what it reads, at its time. \<open>Quiet\<close> operations move no phase.
\<close>

datatype cause =
    Admitting string time time
  | Looking time
  | Saving
  | Answering
  | GivingUp
  | TakingOver
  | Quiet
  | Retaining
  | Deleting

fun settles :: "cause \<Rightarrow> time option" where
  "settles (Admitting _ _ now) = Some now"
| "settles (Looking now) = Some now"
| "settles _ = None"

text \<open>The moves, for a predicate \<open>saved\<close> of the result ids stored for the owner of the submission.\<close>

inductive phase_move :: "(string \<Rightarrow> bool) \<Rightarrow> cause \<Rightarrow> phase \<Rightarrow> phase \<Rightarrow> bool" for saved where
  stay: "phase_move saved c p p"
| admit: "phase_move saved (Admitting holder deadline now) NoRecord (Active holder deadline)"
| save: "c = Saving \<or> settles c \<noteq> None \<or> c = Answering \<Longrightarrow> saved rid \<Longrightarrow> phase_move saved c (Active holder deadline) (Finished rid)"
| late_save: "c = Saving \<or> settles c \<noteq> None \<Longrightarrow> saved rid \<Longrightarrow> phase_move saved c Lost (Finished rid)"
| serve_unsaved: "phase_move saved Answering (Active holder deadline) Unsaved"
| give_up: "phase_move saved GivingUp (Active holder deadline) Lost"
| expire: "settles c = Some now \<Longrightarrow> \<not> now < deadline \<Longrightarrow> phase_move saved c (Active holder deadline) Lost"
| take_over: "holder \<noteq> '''' \<Longrightarrow> phase_move saved TakingOver (Active holder deadline) Lost"
| erase: "phase_move saved Retaining (Finished rid) Unsaved"
| remove: "c = Retaining \<or> c = Deleting \<Longrightarrow> phase_move saved c p NoRecord"

inductive_simps move_Active: "phase_move saved c (Active h d) p"
inductive_simps move_Finished: "phase_move saved c (Finished rid) p"
inductive_simps move_Unsaved: "phase_move saved c Unsaved p"
inductive_simps move_Lost: "phase_move saved c Lost p"
inductive_simps move_NoRecord: "phase_move saved c NoRecord p"
inductive_simps move_Retaining: "phase_move saved Retaining p q"

lemmas move_simps = move_Active move_Finished move_Unsaved move_Lost move_NoRecord

lemma retaining_trans:
  "phase_move saved Retaining p q \<Longrightarrow> phase_move saved' Retaining q r \<Longrightarrow> phase_move saved Retaining p r"
  by (auto simp: move_Retaining)

section \<open>The abstraction\<close>

definition phase_of_record :: "submission_record \<Rightarrow> phase" where
  "phase_of_record r =
    (case sr_State r of
       SubmissionRunning \<Rightarrow> Active (sr_LeaseHolder r) (sr_ExpiresAt r)
     | SubmissionDone \<Rightarrow> Finished (sr_ResultID r)
     | SubmissionDoneUnsaved \<Rightarrow> Unsaved
     | SubmissionAbandoned \<Rightarrow> Lost)"

definition phase_of :: "store \<Rightarrow> submission_key \<Rightarrow> phase" where
  "phase_of s k = (case record_at s k of None \<Rightarrow> NoRecord | Some r \<Rightarrow> phase_of_record r)"

lemma phase_of_record_quiet [simp]:
  "phase_of_record (r\<lparr>sr_Question := q\<rparr>) = phase_of_record r"
  "phase_of_record (r\<lparr>sr_LeaseExpiresAt := t\<rparr>) = phase_of_record r"
  "phase_of_record (r\<lparr>sr_CancelRequestedAt := t\<rparr>) = phase_of_record r"
  by (simp_all add: phase_of_record_def split: submission_state.split)

text \<open>What an operation asks for, seen from one key: an admission reads the records of other keys.\<close>

fun cause_of :: "submission_key \<Rightarrow> ('x, 'w) store_op \<Rightarrow> cause" where
  "cause_of k (OpSave _ _ _ _ _ _ _) = Saving"
| "cause_of k (OpAdmit _ a now) =
    (if k = adm_Key a
     then Admitting (case adm_Lease a of None \<Rightarrow> '''' | Some g \<Rightarrow> rg_Holder g) (adm_ExpiresAt a) now else Looking now)"
| "cause_of k (OpGetSubmission _ _ now) = Looking now"
| "cause_of k (OpFinish _ _ _ _) = Answering"
| "cause_of k (OpAbandon _ _ _) = GivingUp"
| "cause_of k (OpSweep _ now) = Looking now"
| "cause_of k (OpMarkUnsaved _ _ _ _) = Answering"
| "cause_of k (OpReap _ _ _ _ _) = TakingOver"
| "cause_of k (OpGetThread _ _ _ _ now) = Looking now"
| "cause_of k (OpRetention _ _ _) = Retaining"
| "cause_of k (OpDeleteForTest _) = Deleting"
| "cause_of k _ = Quiet"

section \<open>The simulation\<close>

text \<open>One state reaches another by a move of every key.\<close>

definition moves :: "(submission_key \<Rightarrow> cause) \<Rightarrow> store \<Rightarrow> store \<Rightarrow> bool" where
  "moves c s s' \<longleftrightarrow> (\<forall>k. phase_move (\<lambda>rid. ownedByLocked rid k s') (c k) (phase_of s k) (phase_of s' k))"

abbreviation record_move :: "store \<Rightarrow> submission_key \<Rightarrow> cause \<Rightarrow> submission_record \<Rightarrow> submission_record \<Rightarrow> bool" where
  "record_move s k c r r' \<equiv> phase_move (\<lambda>rid. ownedByLocked rid k s) c (phase_of_record r) (phase_of_record r')"

lemma moves_refl [simp]: "moves c s s"
  by (simp add: moves_def phase_move.stay)

lemma moves_records_same: "st_submissions s' = st_submissions s \<Longrightarrow> moves c s s'"
  by (simp add: moves_def phase_of_def record_at_def phase_move.stay)

lemma moves_put:
  assumes "record_at s k = Some r" "record_move s k (c k) r r'"
  shows "moves c s (put_record k r' s)"
  unfolding moves_def
proof
  fix k'
  have "ownedByLocked rid k' (put_record k r' s) = ownedByLocked rid k' s" for rid by (rule ownedBy_cong) simp
  with assms show "phase_move (\<lambda>rid. ownedByLocked rid k' (put_record k r' s)) (c k') (phase_of s k') (phase_of (put_record k r' s) k')"
    by (simp add: phase_of_def phase_move.stay)
qed

lemma moves_map:
  assumes "st_results s' = st_results s" "st_submissions s' = map (\<lambda>(k, r). (k, f k r)) (st_submissions s)"
    and "\<And>k r. record_at s k = Some r \<Longrightarrow> record_move s k (c k) r (f k r)"
  shows "moves c s s'"
  unfolding moves_def
proof
  fix k
  have at: "record_at s' k = map_option (f k) (record_at s k)" by (simp add: record_at_def assms(2) map_of_map_val)
  have "ownedByLocked rid k s' = ownedByLocked rid k s" for rid by (rule ownedBy_cong) (rule assms(1))
  with assms(3) [of k] show "phase_move (\<lambda>rid. ownedByLocked rid k s') (c k) (phase_of s k) (phase_of s' k)"
    by (cases "record_at s k") (simp_all add: phase_of_def at phase_move.stay)
qed

lemma reconcile_move:
  "indexed s \<Longrightarrow> record_at s k = Some r \<Longrightarrow> settles c = Some now \<Longrightarrow> record_move s k c r (fst (reconcileLocked now r s))"
  using indexed_key [of s k r]
  by (cases "sr_State r")
    (auto simp: reconcileLocked_def phase_of_record_def phase_move.stay
      intro: phase_move.save phase_move.late_save phase_move.expire)

lemma moves_reconcile_at:
  "indexed s \<Longrightarrow> record_at s k = Some r \<Longrightarrow> settles (c k) = Some now \<Longrightarrow> moves c s (snd (reconcile_at now k r s))"
  using reconcile_move [of s k r "c k" now]
  by (auto simp: reconcile_at_def Let_def split: prod.splits intro: moves_put)

lemma moves_GetSubmission:
  assumes "indexed s"
  shows "moves (\<lambda>_. Looking now) s (snd (GetSubmission e key now s))"
proof (cases "e \<or> \<not> validSubmissionKey key \<or> findSubmissionLocked key s = None")
  case False
  then obtain k r where f: "findSubmissionLocked key s = Some (k, r)" "\<not> e" "validSubmissionKey key" by auto
  then have "snd (GetSubmission e key now s) = snd (reconcile_at now k r s)"
    by (simp add: GetSubmission_def split: prod.splits)
  with moves_reconcile_at [OF assms findSubmissionLocked_Some(1) [OF assms f(1)]] show ?thesis by simp
qed (auto simp: GetSubmission_def)

lemma moves_FinishSubmission: "indexed s \<Longrightarrow> moves (\<lambda>_. Answering) s (snd (FinishSubmission e key served now s))"
  by (auto simp: FinishSubmission_def Let_def phase_of_record_def split: option.splits prod.splits
      dest!: findSubmissionLocked_Some(1) intro!: moves_put phase_move.save phase_move.serve_unsaved)

lemma moves_AbandonSubmission: "indexed s \<Longrightarrow> moves (\<lambda>_. GivingUp) s (snd (AbandonSubmission e key now s))"
  by (auto simp: AbandonSubmission_def Let_def phase_of_record_def split: option.splits prod.splits
      dest!: findSubmissionLocked_Some(1) intro!: moves_put phase_move.give_up)

lemma moves_SweepSubmissions: "indexed s \<Longrightarrow> moves (\<lambda>_. Looking now) s (snd (SweepSubmissions e now s))"
  by (auto simp: SweepSubmissions_def intro!: moves_map [where f = "\<lambda>k r. fst (reconcileLocked now r s)"] reconcile_move)

lemma moves_MarkSubmissionUnsaved: "moves (\<lambda>_. Answering) s (snd (MarkSubmissionUnsaved e p rid now s))"
  by (auto simp: MarkSubmissionUnsaved_def phase_of_record_def split: option.splits intro!: moves_put phase_move.serve_unsaved)

lemma moves_CheckRunLease: "moves (\<lambda>_. Quiet) s (snd (CheckRunLease e run holder until s))"
  by (auto simp: CheckRunLease_def Let_def phase_move.stay split: option.splits prod.splits
      intro!: moves_put dest: recordOfRunLocked_Some)

lemma moves_cancel_section: "indexed s \<Longrightarrow> moves (\<lambda>_. Quiet) s (cancel_section key now s)"
  by (auto simp: cancel_section_def phase_move.stay split: option.splits prod.splits
      intro!: moves_put dest!: findSubmissionLocked_Some(1))

lemma moves_GetThread: "indexed s \<Longrightarrow> moves (\<lambda>_. Looking now) s (snd (GetThread e key before limit now s))"
  by (auto simp: GetThread_def Let_def phase_move.stay split: option.splits
      intro!: moves_map [where f = "\<lambda>k r. if page_linked t before k r then fst (reconcileLocked now r s) else r" for t] reconcile_move)

lemma moves_CloseThread: "moves (\<lambda>_. Quiet) s (snd (CloseThread e key now s))"
  by (auto simp: CloseThread_def Let_def phase_move.stay split: option.splits
      intro!: moves_map [where f = "\<lambda>k r. if sr_ThreadID r = tk_ThreadID key \<and> recordThreadRow k r = rowKeyOf (tr_Key t)
                   then r\<lparr>sr_Question := ''''\<rparr> else r" for t])

lemma moves_SetResultFeedback: "moves (\<lambda>_. Quiet) s (snd (SetResultFeedback e p rid c u now s))"
  by (auto simp: SetResultFeedback_def Let_def split: option.splits intro!: moves_records_same)

lemma moves_ReapLostRuns:
  assumes "indexed s"
  shows "moves (\<lambda>_. TakingOver) s (snd (ReapLostRuns e taker only env now s))" (is "moves _ s ?s'")
proof (cases "e \<or> taker = ''''")
  case False
  have "phase_move saved TakingOver (phase_of_record r) (phase_of_record (taken taker now r))" if "lost only now k r s" for saved k r
    using that by (auto simp: lost_def taken_def phase_of_record_def Leased_def intro: phase_move.take_over)
  then have "phase_move (\<lambda>rid. ownedByLocked rid k ?s') TakingOver (phase_of s k) (phase_of ?s' k)" for k
    using ReapLostRuns_records [OF assms, of e taker only env now k] False
    by (cases "record_at s k") (auto simp: phase_of_def phase_move.stay)
  then show ?thesis by (simp add: moves_def)
qed (auto simp: ReapLostRuns_snd)

text \<open>A save completes the submission that reserved its result id, and only that one.\<close>

lemma moves_Save:
  assumes "indexed s"
  shows "moves (\<lambda>_. Saving) s (snd (Save cd e ctx now p result parent sem s))"
proof -
  obtain err s' where S: "Save cd e ctx now p result parent sem s = (err, s')" by fastforce
  then have "moves (\<lambda>_. Saving) s s'"
  proof (cases rule: Save_cases)
    case (stored org rid payload column)
    let ?c = "snd (completeSubmissionLocked now p org rid s)"
    have "touched s s'" using touched_Save [OF assms, of cd e ctx now p result parent sem] S by simp
    then have t: "rel_option (touch s' k) (record_at s k) (record_at s' k)" for k by (simp add: touched_def)
    have "record_at s' k = record_at ?c k" for k
      unfolding stored(11) using stored(9,10) by (simp add: save_fresh_form record_at_def)
    then have d: "record_at s' k = record_at s k \<or> map_option sr_State (record_at s' k) = Some SubmissionDone" for k
      by (auto simp: completeSubmissionLocked_def split: option.splits)
    have "record_move s' k Saving r r'" if "touch s' k r r'" "r' = r \<or> sr_State r' = SubmissionDone" for k r r'
    proof (cases "r' = r")
      case False
      with that have "sr_State r' = SubmissionDone" by blast
      with that(1) show ?thesis
        by (cases rule: touch.cases) (auto simp: phase_move.stay phase_of_record_def intro: phase_move.save phase_move.late_save)
    qed (simp add: phase_move.stay)
    note move = this
    have "phase_move (\<lambda>rid. ownedByLocked rid k s') Saving (phase_of s k) (phase_of s' k)" for k
    proof (cases "record_at s k")
      case None
      with t [of k] show ?thesis by (simp add: phase_of_def phase_move.stay)
    next
      case (Some r)
      with t [of k] obtain r' where r': "record_at s' k = Some r'" "touch s' k r r'" by (auto simp: option_rel_Some1)
      with move [OF r'(2)] d [of k] Some show ?thesis by (auto simp: phase_of_def)
    qed
    then show ?thesis by (simp add: moves_def)
  qed simp
  with S show ?thesis by simp
qed

lemma admit_write_holder:
  "sr_LeaseHolder (fst (admit_write a t now s)) = (case adm_Lease a of None \<Rightarrow> [] | Some g \<Rightarrow> rg_Holder g)"
  by (simp add: admit_write_def new_record_def Let_def)

lemma moves_AdmitSubmission:
  assumes "indexed s"
  shows "moves (\<lambda>k. cause_of k (OpAdmit e a now)) s (snd (AdmitSubmission e a now s))"
proof -
  obtain res s' where A: "AdmitSubmission e a now s = (res, s')" by fastforce
  then have "moves (\<lambda>k. cause_of k (OpAdmit e a now)) s s'"
  proof (cases rule: AdmitSubmission_cases)
    case (replayed k r)
    with assms findSubmissionLocked_Some(1) [OF assms replayed(2)] show ?thesis by (simp add: moves_reconcile_at)
  next
    case admitted
    then have "record_at s (adm_Key a) = None" using findSubmissionLocked_None by blast
    then show ?thesis
      using admitted(6)
      by (simp add: moves_def phase_of_def record_at_admit_write phase_of_record_def admit_write_record phase_move.stay
          admit_write_holder phase_move.admit)
  qed simp
  with A show ?thesis by simp
qed

section \<open>Steps that remove records\<close>

interpretation phase_pass: retention_rule digest now "\<lambda>s. phase_move saved Retaining p (phase_of s k)" for digest now saved p k
proof unfold_locales
  fix s org rid
  assume "phase_move saved Retaining p (phase_of s k)"
  then show "phase_move saved Retaining p (phase_of (remove_result org rid s) k)" by (simp add: phase_of_def record_at_def)
next
  fix s k' r
  assume "phase_move saved Retaining p (phase_of s k)"
  moreover have "phase_move saved Retaining (phase_of s k) (phase_of (removeRecordLocked k' s) k)"
    by (auto simp: phase_of_def record_at_removeRecord intro: phase_move.stay phase_move.remove)
  ultimately show "phase_move saved Retaining p (phase_of (removeRecordLocked k' s) k)" by (rule retaining_trans)
next
  fix s k' r
  assume a: "phase_move saved Retaining p (phase_of s k)" "record_at s k' = Some r" "\<not> IsErasedReservedResultID (sr_ReservedResultID r)"
  have "phase_move saved Retaining (phase_of_record r) (phase_of_record (erased_record digest now r))"
    by (cases "sr_State r") (auto simp: phase_of_record_def erased_record_def intro: phase_move.stay phase_move.erase)
  then have "phase_move saved Retaining (phase_of s k) (phase_of (erase_record digest now k' s) k)"
    using a(2,3) by (simp add: phase_of_def erase_record_at(1) phase_move.stay)
  with a(1) show "phase_move saved Retaining p (phase_of (erase_record digest now k' s) k)" by (rule retaining_trans)
next
  fix s row t
  assume "phase_move saved Retaining p (phase_of s k)"
  then show "phase_move saved Retaining p (phase_of (s\<lparr>st_threads := del row (st_threads s)\<rparr>) k)"
    by (simp add: phase_of_def record_at_def)
qed

lemma moves_SweepRetention:
  assumes "erasable digest s" "inj digest"
  shows "moves (\<lambda>_. Retaining) s (snd (SweepRetention digest e now limit s))"
  using phase_pass.sweep_retained [OF assms(2,1) phase_move.stay] by (simp add: moves_def)

lemma moves_DeleteSubmissionsForTest: "indexed s \<Longrightarrow> moves (\<lambda>_. Deleting) s (DeleteSubmissionsForTest org s)"
  by (auto simp: moves_def phase_of_def DeleteSubmissionsForTest_eq record_at_remove_fold intro: phase_move.stay phase_move.remove)

section \<open>Every step\<close>

lemma step_moves:
  assumes "erasable digest s" "mint_ok digest op s"
  shows "moves (\<lambda>k. cause_of k op) s (store_step cd digest op s)"
proof -
  have ix: "indexed s" by (rule erasable_indexed [OF assms(1)])
  note quiet = moves_CheckRunLease moves_cancel_section [OF ix] moves_records_same [OF AppendRunEvent_keeps(1)]
    moves_CloseThread moves_SetResultFeedback
  note settling = moves_Save [OF ix] moves_GetSubmission [OF ix] moves_FinishSubmission [OF ix] moves_AbandonSubmission [OF ix]
    moves_SweepSubmissions [OF ix] moves_MarkSubmissionUnsaved moves_ReapLostRuns [OF ix] moves_GetThread [OF ix]
  show ?thesis
  proof (cases op)
    case (OpAdmit e a now)
    then show ?thesis using moves_AdmitSubmission [OF ix, of e a now] by simp
  next
    case (OpRetention e now limit)
    then show ?thesis using assms moves_SweepRetention by (simp add: mint_ok_def)
  next
    case (OpDeleteForTest org)
    then show ?thesis using moves_DeleteSubmissionsForTest [OF ix] by simp
  qed (simp_all add: quiet settling)
qed

end
