(* ===== verification/Investigation_Examples.thy ===== *)
theory Investigation_Examples
  imports Investigation_Lifecycle
begin

text \<open>
  Concrete inputs for the witnesses: a user, its submissions, a small result codec with the
  behaviour the store relies on, and a digest.
\<close>

definition ex_principal :: principal where
  "ex_principal = \<lparr>p_AuthenticationMethod = AuthenticationMethodWebAssertion, p_Subject = ''u-1'', p_OrgID = ''org-1'',
     p_CredentialID = '''', p_RepositoryScopes = [], p_Permissions = [], p_ProductEntitlements = [], p_ClientClass = '''',
     p_ApprovingUserID = '''', p_SessionID = '''', p_Impersonating = False, p_CredentialSessionID = '''', p_ProjectScopes = []\<rparr>"

definition ex_owner :: submission_owner where
  "ex_owner = \<lparr>so_AuthenticationMethod = ''web_assertion'', so_Subject = ''u-1'', so_UserID = ''u-1'', so_Surface = ''browser''\<rparr>"

definition ex_key :: "string \<Rightarrow> submission_key" where
  "ex_key sid = \<lparr>sk_OrgID = ''org-1'', sk_Owner = ex_owner, sk_SubmissionID = sid\<rparr>"

definition ex_limits :: submission_limits where
  "ex_limits = \<lparr>MaxRunningPerPrincipal = 0, MaxRunningPerOrg = 0, MonthlyPlatformRunAllowance = 0\<rparr>"

text \<open>An admission with a thread and a lease; the run may take ten minutes from the hour on.\<close>

definition ex_admission :: "string \<Rightarrow> string \<Rightarrow> string \<Rightarrow> submission_admission" where
  "ex_admission sid rid thread = \<lparr>adm_Key = ex_key sid, adm_RequestDigest = ''d-1'', adm_ReservedResultID = rid,
     adm_ThreadID = thread, adm_ExpiresAt = Hour + 10 * Minute, adm_Question = ''why'', adm_ThreadRetention = None,
     adm_Limits = ex_limits, adm_PlatformRun = True,
     adm_Lease = Some \<lparr>rg_Holder = ''replica-1'', rg_ExpiresAt = Hour + RunLeaseTTL, rg_RequestID = ''req-1''\<rparr>\<rparr>"

definition ex_result :: "string \<Rightarrow> investigation_result" where
  "ex_result rid = \<lparr>ir_ResultID = rid, ir_ConfirmedStructure = [], ir_SynthesisSource = ''model'',
     ir_SynthesisVersion = ''v1'', ir_GeneratedAt = 0\<rparr>"

text \<open>A codec for the results of the form \<open>ex_result rid\<close>; the snapshot is a flag.\<close>

definition ex_codec :: "(unit, bool, bool) result_codec" where
  "ex_codec = \<lparr>rc_ValidateResult = (\<lambda>_. True), rc_ValidateStoredResult = (\<lambda>_. True),
     rc_Marshal = (\<lambda>r. if r = ex_result (ir_ResultID r) then Some (ir_ResultID r) else None),
     rc_Unmarshal = (\<lambda>s. Some (ex_result s)), rc_ExplicitNull = (\<lambda>_. False), rc_EvidenceRefClosure = (\<lambda>_. []),
     rc_EncodedColumn = (\<lambda>w. Some (if w then Some ''s'' else None)), rc_WriteState = (\<lambda>w. if w then Some True else None),
     rc_DecodeSemanticState = (\<lambda>c. case c of None \<Rightarrow> (None, SemanticStateReadAbsent) | Some _ \<Rightarrow> (Some True, SemanticStateReadAvailable)),
     rc_SemanticStatesEqual = (\<lambda>a b. a = b), rc_GrantDigest = (\<lambda>_. ''g'')\<rparr>"

definition ex_digest :: "string \<Rightarrow> string" where
  "ex_digest x = x"

lemma inj_ex_digest: "inj ex_digest"
  by (simp add: inj_on_def ex_digest_def)

abbreviation ex_start :: store where
  "ex_start \<equiv> WithUnthreadedRecordRetention True NewStore"

abbreviation ex_step :: "(unit, bool) store_op \<Rightarrow> store \<Rightarrow> store" where
  "ex_step \<equiv> store_step ex_codec ex_digest"

text \<open>One admitted submission.\<close>

definition ex_admitted :: store where
  "ex_admitted = snd (AdmitSubmission False (ex_admission ''sub-0001'' ''res-0001'' '''') Hour ex_start)"

lemma ex_admitted_result:
  "\<exists>r. AdmitSubmission False (ex_admission ''sub-0001'' ''res-0001'' '''') Hour ex_start = (Inr (r, True), ex_admitted)"
proof -
  have "map_sum (\<lambda>_. ()) snd (fst (AdmitSubmission False (ex_admission ''sub-0001'' ''res-0001'' '''') Hour ex_start)) = Inr True"
    by code_simp
  then show ?thesis
    by (cases "fst (AdmitSubmission False (ex_admission ''sub-0001'' ''res-0001'' '''') Hour ex_start)")
      (auto simp: ex_admitted_def prod_eq_iff)
qed

end
