(* ===== verification/Investigation_Properties.thy ===== *)
theory Investigation_Properties
  imports Investigation_Examples
begin

text \<open>
  What the investigation store promises its callers: admission at most once, the index of
  reserved ids, ownership of results, the lifecycle of a submission, usage and limits.
\<close>

lemma reachable_indexed:
  "ok_run (store_step cd digest) (mint_ok digest) ops (WithUnthreadedRecordRetention b NewStore) \<Longrightarrow>
    erasable digest (run_ops (store_step cd digest) ops (WithUnthreadedRecordRetention b NewStore))"
  by (rule index.run_inv) simp_all

section \<open>Admission\<close>

lemma evolves_ThreadClosed: "evolves r (r'\<lparr>sr_ThreadClosed := x\<rparr>) \<longleftrightarrow> evolves r r'"
  by (simp add: evolves_def)

lemma reconcile_at_evolves:
  assumes "indexed s" "record_at s k = Some r"
  shows "evolves r (fst (reconcile_at now k r s))"
proof -
  have "fst (reconcile_at now k r s) = (fst (reconcileLocked now r s))
    \<lparr>sr_ThreadClosed := threadClosedLocked now (fst (reconcileLocked now r s)) (snd (reconcile_at now k r s))\<rparr>"
    by (simp add: reconcile_at_def Let_def case_prod_beta)
  with touch_evolves [OF reconcile_touch [OF assms]] show ?thesis by (simp only: evolves_ThreadClosed)
qed

text \<open>
  The record of one admission, followed through later steps: until it is removed it keeps the digest and the
  time of the admission, and its reserved result id, which the erasure of a deleted conversation replaces by
  the erased form of the same id.
\<close>

definition stems_from :: "(string \<Rightarrow> string) \<Rightarrow> submission_admission \<Rightarrow> time \<Rightarrow> submission_record \<Rightarrow> bool" where
  "stems_from digest a now r \<longleftrightarrow> sr_RequestDigest r = adm_RequestDigest a \<and> sr_AdmittedAt r = now \<and>
     (sr_ReservedResultID r = adm_ReservedResultID a \<or> sr_ReservedResultID r = ErasedReservedResultID digest (adm_ReservedResultID a))"

definition stems_at :: "(string \<Rightarrow> string) \<Rightarrow> submission_admission \<Rightarrow> time \<Rightarrow> store \<Rightarrow> bool" where
  "stems_at digest a now s \<longleftrightarrow> (\<forall>r. record_at s (adm_Key a) = Some r \<longrightarrow> stems_from digest a now r)"

interpretation stems_pass: retention_rule digest now "stems_at digest a t" for digest now a t
proof unfold_locales
  fix s k r
  assume "stems_at digest a t s" "record_at s k = Some r" "\<not> IsErasedReservedResultID (sr_ReservedResultID r)"
  then show "stems_at digest a t (erase_record digest now k s)"
    by (auto simp: stems_at_def stems_from_def erase_record_at(1) erased_record_def)
next
  fix s k r
  assume "stems_at digest a t s"
  then show "stems_at digest a t (removeRecordLocked k s)" by (simp add: stems_at_def record_at_removeRecord)
qed (simp_all add: stems_at_def record_at_def)

lemma step_stems:
  assumes "erasable digest s" "mint_ok digest op s" "stems_at digest a t s" "record_at s (adm_Key a) \<noteq> None"
  shows "stems_at digest a t (store_step cd digest op s)"
proof -
  have ix: "indexed s" by (rule erasable_indexed [OF assms(1)])
  consider (keeps) "keeps_records op" | (pass) e now limit where "op = OpRetention e now limit"
    | (deleted) org where "op = OpDeleteForTest org" by (cases op) auto
  then show ?thesis
  proof cases
    case keeps
    obtain r where r: "record_at s (adm_Key a) = Some r" using assms(4) by blast
    obtain r' where r': "record_at (store_step cd digest op s) (adm_Key a) = Some r'" "touch (store_step cd digest op s) (adm_Key a) r r'"
      by (rule step_record [OF ix keeps r])
    with touch_fixed [OF r'(2)] assms(3) r show ?thesis by (simp add: stems_at_def stems_from_def)
  next
    case pass
    with assms stems_pass.sweep_retained [of digest s a t e now limit] show ?thesis by (simp add: mint_ok_def)
  next
    case deleted
    then show ?thesis
      using assms(3) ix by (auto simp: stems_at_def DeleteSubmissionsForTest_eq record_at_remove_fold split: if_splits)
  qed
qed

lemma run_stems:
  assumes "erasable digest s" "ok_run (store_step cd digest) (mint_ok digest) ops s" "stems_at digest a t s"
    and "\<forall>i\<le>length ops. record_at (run_ops (store_step cd digest) (take i ops) s) (adm_Key a) \<noteq> None"
  shows "stems_at digest a t (run_ops (store_step cd digest) ops s)"
  using assms
proof (induction ops arbitrary: s)
  case (Cons op ops)
  have at: "record_at s (adm_Key a) \<noteq> None" using Cons.prems(4) [rule_format, of 0] by simp
  have mint: "mint_ok digest op s" using Cons.prems(2) by simp
  have "\<forall>i\<le>length ops. record_at (run_ops (store_step cd digest) (take i ops) (store_step cd digest op s)) (adm_Key a) \<noteq> None"
    using Cons.prems(4) by (metis Suc_le_mono length_Cons run_ops.simps(2) take_Suc_Cons)
  with Cons.IH [of "store_step cd digest op s"] Cons.prems(2) index.step_inv [OF Cons.prems(1) mint, of cd]
    step_stems [OF Cons.prems(1) mint Cons.prems(3) at, of cd] show ?case by simp
qed simp

text \<open>
  C6: a submission is admitted at most once while its record is stored. After an admission and any further
  steps through which its record is never removed, an admission with the same submission id by the same
  owner (under the same key, or under another credential of the same user) is never admitted again: it is
  answered with a stored record of that submission id and owner. A repeat of the same key is answered with
  the record of the first admission: its request digest, its time and its reserved result id (or the
  erased form of that id once its conversation is erased). Once a retention pass has removed the record, a
  request with the same id is new.
\<close>

theorem submission_admitted_at_most_once:
  assumes "ok_run (store_step cd digest) (mint_ok digest) (before @ OpAdmit e a now # between) (WithUnthreadedRecordRetention b NewStore)"
    and "s = run_ops (store_step cd digest) before (WithUnthreadedRecordRetention b NewStore)"
    and "AdmitSubmission e a now s = (Inr (r, True), s1)"
    and "\<forall>i\<le>length between. record_at (run_ops (store_step cd digest) (take i between) s1) (adm_Key a) \<noteq> None"
    and "AdmitSubmission e' a' now' (run_ops (store_step cd digest) between s1) = (Inr (r', admitted), s2)"
    and "adm_Key a' = adm_Key a \<or> same_submission (adm_Key a) (adm_Key a')"
  shows "\<not> admitted \<and> (sr_Key r' = adm_Key a' \<or> same_submission (sr_Key r') (adm_Key a')) \<and>
    (adm_Key a' = adm_Key a \<longrightarrow> sr_RequestDigest r' = adm_RequestDigest a \<and> sr_AdmittedAt r' = now \<and>
      (sr_ReservedResultID r' = adm_ReservedResultID a \<or>
       sr_ReservedResultID r' = ErasedReservedResultID digest (adm_ReservedResultID a)))"
proof -
  have s1: "s1 = store_step cd digest (OpAdmit e a now) s" using assms(3) by simp
  let ?s = "run_ops (store_step cd digest) between s1"
  have er: "erasable digest s" and ok: "ok_run (store_step cd digest) (mint_ok digest) between s1"
    using assms(1,2) reachable_indexed [of cd digest before b] s1 by (auto simp: ok_run_append)
  have er1: "erasable digest s1"
    unfolding s1 by (rule index.step_inv [OF er]) (use assms(1,2) in \<open>simp add: ok_run_append\<close>)
  have ers: "erasable digest ?s" by (rule index.run_inv [OF er1 ok])
  have ixs: "indexed ?s" by (rule erasable_indexed [OF ers])
  have "stems_at digest a now s1"
    using admitted_record [OF assms(3)] by (auto simp: stems_at_def stems_from_def admit_write_record)
  from run_stems [OF er1 ok this assms(4)] have st: "stems_at digest a now ?s" .
  obtain r2 where r2: "record_at ?s (adm_Key a) = Some r2" using assms(4) [rule_format, of "length between"] by auto
  have found: "findSubmissionLocked (adm_Key a') ?s \<noteq> None"
    using findSubmissionLocked_present [OF r2] assms(6) by metis
  from assms(5) show ?thesis
  proof (cases rule: AdmitSubmission_cases)
    case (replayed k q)
    note f = findSubmissionLocked_Some [OF ixs replayed(2)]
    have ev: "evolves q r'" using replayed(4) reconcile_at_evolves [OF ixs f(1), of now'] by simp
    have "stems_from digest a now q" if "adm_Key a' = adm_Key a"
      using replayed(2) that r2 st by (auto simp: findSubmissionLocked_def stems_at_def)
    with ev f(2,3) replayed(4) show ?thesis by (auto simp: evolves_def stems_from_def)
  next
    case admitted
    with found show ?thesis by simp
  qed simp
qed

section \<open>The index, the lifecycle, ownership\<close>

text \<open>A conversation with one submission, deleted and then swept: the witness run of all steps.\<close>

definition ex_erased_run :: "(unit, bool) store_op list" where
  "ex_erased_run =
    [OpAdmit False (ex_admission ''sub-0001'' ''res-0001'' ''thr-0001'') Hour,
     OpSave False (WithSubmissionReservedResultID None ''res-0001'') (Hour + Minute) ex_principal (ex_result ''res-0001'') '''' True,
     OpCloseThread False \<lparr>tk_OrgID = ''org-1'', tk_Owner = ex_owner, tk_ThreadID = ''thr-0001''\<rparr> (2 * Hour),
     OpRetention False (3 * Hour) 0]"

lemma ex_erased_run_ok: "ok_run ex_step (mint_ok ex_digest) ex_erased_run ex_start"
proof -
  have "\<not> IsErasedReservedResultID ''res-0001''" by code_simp
  moreover have "reservation_of ex_start ''org-1'' (ErasedReservedResultID ex_digest ''res-0001'') = None" by code_simp
  ultimately show ?thesis
    by (simp add: ex_erased_run_def mint_ok_def inj_ex_digest ex_admission_def ex_key_def del: store_step.simps)
qed

text \<open>A conversation is deleted and erased by a retention pass, and its submission is sent again.\<close>

theorem submission_admitted_at_most_once_witness:
  "\<exists>r' s2. AdmitSubmission False (ex_admission ''sub-0001'' ''res-0009'' ''''\<lparr>adm_ExpiresAt := 5 * Hour, adm_Lease := None\<rparr>) (4 * Hour)
      (run_ops ex_step ex_erased_run ex_start) = (Inr (r', False), s2)
    \<and> sr_AdmittedAt r' = Hour \<and> sr_ReservedResultID r' = ''erased_res-0001''"
proof -
  let ?a = "ex_admission ''sub-0001'' ''res-0001'' ''thr-0001''" and ?a' = "ex_admission ''sub-0001'' ''res-0009'' ''''\<lparr>adm_ExpiresAt := 5 * Hour, adm_Lease := None\<rparr>"
  let ?between = "tl ex_erased_run" and ?s1 = "snd (AdmitSubmission False ?a Hour ex_start)"
  let ?A = "AdmitSubmission False ?a' (4 * Hour) (run_ops ex_step ex_erased_run ex_start)"
  have run: "ex_erased_run = OpAdmit False ?a Hour # ?between" by (simp add: ex_erased_run_def)
  have rs: "run_ops ex_step ?between ?s1 = run_ops ex_step ex_erased_run ex_start" by (subst (2) run) simp
  have "map_sum (\<lambda>_. ()) snd (fst (AdmitSubmission False ?a Hour ex_start)) = Inr True" by code_simp
  then obtain r where r: "AdmitSubmission False ?a Hour ex_start = (Inr (r, True), ?s1)"
    by (cases "AdmitSubmission False ?a Hour ex_start"; cases "fst (AdmitSubmission False ?a Hour ex_start)") auto
  have "map_sum (\<lambda>_. ()) (sr_ReservedResultID \<circ> fst) (fst ?A) = Inr ''erased_res-0001''" by code_simp
  then obtain r' ad s2 where A: "?A = (Inr (r', ad), s2)" "sr_ReservedResultID r' = ''erased_res-0001''"
    by (cases ?A; cases "fst ?A") auto
  have "list_all (\<lambda>i. record_at (run_ops ex_step (take i ?between) ?s1) (ex_key ''sub-0001'') \<noteq> None) [0..<Suc (length ?between)]"
    by code_simp
  then have stays: "\<forall>i\<le>length ?between. record_at (run_ops ex_step (take i ?between) ?s1) (adm_Key ?a) \<noteq> None"
    by (auto simp: list_all_iff ex_admission_def simp del: upt_Suc)
  have "\<not> ad \<and> (sr_Key r' = adm_Key ?a' \<or> same_submission (sr_Key r') (adm_Key ?a')) \<and>
    (adm_Key ?a' = adm_Key ?a \<longrightarrow> sr_RequestDigest r' = adm_RequestDigest ?a \<and> sr_AdmittedAt r' = Hour \<and>
      (sr_ReservedResultID r' = adm_ReservedResultID ?a \<or>
       sr_ReservedResultID r' = ErasedReservedResultID ex_digest (adm_ReservedResultID ?a)))"
  proof (rule submission_admitted_at_most_once [OF _ refl _ stays])
    show "ok_run ex_step (mint_ok ex_digest) ([] @ OpAdmit False ?a Hour # ?between) ex_start"
      using ex_erased_run_ok by (subst (asm) run) simp
  qed (use r A rs in \<open>simp_all add: ex_admission_def\<close>)
  then show ?thesis using A by (simp add: ex_admission_def)
qed

text \<open>
  C21: in every reachable state, retention passes included, the record index is consistent: a
  record is stored under its own key, its reserved result id leads back to it, every reserved id
  leads to a record that reserves it, and two records of an organization never share one. The run satisfies \<open>mint_ok\<close>: fresh reserved ids,
  an injective digest, event numbers below the largest \<^verbatim>\<open>int64\<close>.
\<close>

theorem reserved_index_consistent:
  assumes "ok_run (store_step cd digest) (mint_ok digest) ops (WithUnthreadedRecordRetention b NewStore)"
    and "s = run_ops (store_step cd digest) ops (WithUnthreadedRecordRetention b NewStore)"
  shows "(record_at s k = Some r \<longrightarrow> sr_Key r = k \<and> reservation_of s (sk_OrgID k) (sr_ReservedResultID r) = Some k) \<and>
    (reservation_of s org rid = Some k \<longrightarrow> sk_OrgID k = org \<and> (\<exists>r. record_at s k = Some r \<and> sr_ReservedResultID r = rid)) \<and>
    (record_at s k = Some r \<and> record_at s k' = Some r' \<and> sk_OrgID k = sk_OrgID k' \<and>
       sr_ReservedResultID r = sr_ReservedResultID r' \<longrightarrow> k = k')"
proof -
  have ix: "indexed s" using reachable_indexed [OF assms(1)] assms(2) by (simp add: erasable_indexed)
  show ?thesis
  proof (intro conjI impI)
    show "sr_Key r = k" "reservation_of s (sk_OrgID k) (sr_ReservedResultID r) = Some k" if "record_at s k = Some r"
      using that indexed_key [OF ix] indexed_reserved [OF ix] by blast+
    show "sk_OrgID k = org" "\<exists>r. record_at s k = Some r \<and> sr_ReservedResultID r = rid" if "reservation_of s org rid = Some k"
      by (rule indexed_reservationE [OF ix that], assumption) (rule indexed_reservationE [OF ix that], blast)
    show "k = k'" if "record_at s k = Some r \<and> record_at s k' = Some r' \<and> sk_OrgID k = sk_OrgID k' \<and>
       sr_ReservedResultID r = sr_ReservedResultID r'"
      using that indexed_reserved [OF ix] by (metis option.inject)
  qed
qed

theorem reserved_index_consistent_witness:
  "\<exists>r. record_at (run_ops ex_step ex_erased_run ex_start) (ex_key ''sub-0001'') = Some r \<and>
     sr_ReservedResultID r = ''erased_res-0001'' \<and> sr_Key r = ex_key ''sub-0001'' \<and>
     reservation_of (run_ops ex_step ex_erased_run ex_start) ''org-1'' ''erased_res-0001'' = Some (ex_key ''sub-0001'')"
proof -
  let ?s = "run_ops ex_step ex_erased_run ex_start"
  have "map_option sr_ReservedResultID (record_at ?s (ex_key ''sub-0001'')) = Some ''erased_res-0001''" by code_simp
  then obtain r where r: "record_at ?s (ex_key ''sub-0001'') = Some r" "sr_ReservedResultID r = ''erased_res-0001''" by auto
  with reserved_index_consistent [OF ex_erased_run_ok refl, of "ex_key ''sub-0001''" r "''x''" "''x''" "ex_key ''sub-0001''" r]
  show ?thesis by (simp add: ex_key_def)
qed

text \<open>
  C7: the store simulates the phase machine step for step. In every reachable state, each operation leaves the
  phase of each submission key or makes the one move its label allows: a record appears only by its own
  admission, with that admission's lease holder and deadline; it becomes finished only with a result that is
  then stored for its owner, and a finished one keeps that result; only an answer leaves it unsaved; it is
  lost only by giving up, by a takeover of a leased run, or by a read or sweep past its deadline; only a
  retention pass erases a finished one; and only a retention pass or the test deletion removes it.
\<close>

theorem store_refines_lifecycle:
  assumes "ok_run (store_step cd digest) (mint_ok digest) (ops @ [op]) (WithUnthreadedRecordRetention b NewStore)"
    and "s = run_ops (store_step cd digest) ops (WithUnthreadedRecordRetention b NewStore)"
    and "s' = store_step cd digest op s"
  shows "phase_move (\<lambda>rid. ownedByLocked rid k s') (cause_of k op) (phase_of s k) (phase_of s' k)"
  using assms step_moves [of digest s op cd] reachable_indexed [of cd digest ops b]
  by (auto simp: ok_run_append moves_def)

theorem store_refines_lifecycle_witness:
  "phase_of (run_ops ex_step (take 2 ex_erased_run) ex_start) (ex_key ''sub-0001'') = Finished ''res-0001'' \<and>
   phase_move (\<lambda>rid. ownedByLocked rid (ex_key ''sub-0001'') (run_ops ex_step (take 2 ex_erased_run) ex_start)) Saving
     (phase_of (run_ops ex_step (take 1 ex_erased_run) ex_start) (ex_key ''sub-0001'')) (Finished ''res-0001'')"
proof -
  let ?s = "\<lambda>n. run_ops ex_step (take n ex_erased_run) ex_start" and ?k = "ex_key ''sub-0001''"
  have run: "take 2 ex_erased_run = take 1 ex_erased_run @ [ex_erased_run ! 1]" by (simp add: ex_erased_run_def)
  have "ok_run ex_step (mint_ok ex_digest) (take 2 ex_erased_run @ drop 2 ex_erased_run) ex_start" using ex_erased_run_ok by simp
  then have ok: "ok_run ex_step (mint_ok ex_digest) (take 1 ex_erased_run @ [ex_erased_run ! 1]) ex_start"
    unfolding ok_run_append run by simp
  have s2: "?s 2 = ex_step (ex_erased_run ! 1) (?s 1)" unfolding run by (simp add: run_ops_append)
  have c: "cause_of ?k (ex_erased_run ! 1) = Saving" by (simp add: ex_erased_run_def)
  have p: "phase_of (?s 2) ?k = Finished ''res-0001''" by code_simp
  from store_refines_lifecycle [OF ok refl s2, of ?k] show ?thesis unfolding c p by simp
qed

text \<open>
  While no record is removed, a done record names a stored result of its own organization
  that was saved for its own owner.
\<close>

theorem done_record_names_owned_result:
  assumes "list_all keeps_records ops"
    and "s = run_ops (store_step cd digest) ops (WithUnthreadedRecordRetention b NewStore)"
    and "record_at s k = Some r" "sr_State r = SubmissionDone"
  shows "\<exists>e owner. map_of (st_results s) (sr_ResultID r) = Some e \<and> en_orgID e = sk_OrgID k \<and>
    en_owner e = Some owner \<and> SameSubmissionOwner owner (sk_Owner k)"
proof -
  have "done_owned (WithUnthreadedRecordRetention b NewStore)"
    using erasable_indexed [OF erasable_NewStore]
    by (simp add: done_owned_def NewStore_def WithUnthreadedRecordRetention_def record_at_def)
  then have "done_owned s"
    using assms(1,2) finished.run_inv by (simp add: ok_run_static)
  then have "ownedByLocked (sr_ResultID r) k s" using assms(3,4) by (simp add: done_owned_def)
  then show ?thesis by (auto simp: ownedByLocked_def split: option.splits)
qed

theorem done_record_names_owned_result_witness:
  "\<exists>e owner. map_of (st_results (run_ops ex_step (take 2 ex_erased_run) ex_start)) ''res-0001'' = Some e \<and>
     en_orgID e = ''org-1'' \<and> en_owner e = Some owner \<and> SameSubmissionOwner owner ex_owner"
proof -
  let ?s = "run_ops ex_step (take 2 ex_erased_run) ex_start"
  have "map_option (\<lambda>r. (sr_State r, sr_ResultID r)) (record_at ?s (ex_key ''sub-0001'')) = Some (SubmissionDone, ''res-0001'')"
    by code_simp
  then obtain r where r: "record_at ?s (ex_key ''sub-0001'') = Some r" "sr_State r = SubmissionDone" "sr_ResultID r = ''res-0001''"
    by auto
  have "list_all keeps_records (take 2 ex_erased_run)" by (simp add: ex_erased_run_def)
  from done_record_names_owned_result [OF this refl r(1,2)] r(3) show ?thesis by (simp add: ex_key_def)
qed

text \<open>
  Between two moments of a run that removes no record, a submission only moves forward: a
  done record stays done with the same result, an unsaved one stays unsaved, an abandoned one can
  only still become done; its reservation, digest and deadline are fixed, its lease never
  shrinks, a requested cancel is kept, and no stored result changes.
\<close>

theorem submission_only_moves_forward:
  assumes "ok_run (store_step cd digest) (mint_ok digest) before (WithUnthreadedRecordRetention b NewStore)"
    and "s = run_ops (store_step cd digest) before (WithUnthreadedRecordRetention b NewStore)"
    and "list_all keeps_records ops" "s' = run_ops (store_step cd digest) ops s"
    and "record_at s k = Some r"
  shows "\<exists>r'. record_at s' k = Some r' \<and>
    (sr_State r = SubmissionDone \<longrightarrow> sr_State r' = SubmissionDone \<and> sr_ResultID r' = sr_ResultID r) \<and>
    (sr_State r = SubmissionDoneUnsaved \<longrightarrow> sr_State r' = SubmissionDoneUnsaved) \<and>
    (sr_State r = SubmissionAbandoned \<longrightarrow> sr_State r' \<in> {SubmissionAbandoned, SubmissionDone}) \<and>
    sr_ReservedResultID r' = sr_ReservedResultID r \<and> sr_RequestDigest r' = sr_RequestDigest r \<and>
    sr_ExpiresAt r' = sr_ExpiresAt r \<and> sr_LeaseExpiresAt r \<le> sr_LeaseExpiresAt r' \<and>
    (\<not> IsZero (sr_CancelRequestedAt r) \<longrightarrow> sr_CancelRequestedAt r' = sr_CancelRequestedAt r) \<and>
    (\<forall>rid. map_of (st_results s) rid \<noteq> None \<longrightarrow> map_of (st_results s') rid = map_of (st_results s) rid)"
proof -
  have "indexed s" using reachable_indexed [OF assms(1)] assms(2) by (simp add: erasable_indexed)
  then have g: "grows s s'" using run_grows assms(3,4) by blast
  obtain r' where r': "record_at s' k = Some r'" "evolves r r'" using growsD(1) [OF g assms(5)] by blast
  have "map_of (st_results s') rid = map_of (st_results s) rid" if "map_of (st_results s) rid \<noteq> None" for rid
    using that growsD(2) [OF g] by auto
  with r' show ?thesis by (auto simp: evolves_def)
qed

theorem submission_only_moves_forward_witness:
  "\<exists>r'. record_at (run_ops ex_step [OpReap False ''replica-2'' None (\<lambda>_. ''lost'') (3 * Hour), OpSweep False (3 * Hour)]
        (run_ops ex_step (take 2 ex_erased_run) ex_start)) (ex_key ''sub-0001'') = Some r' \<and>
     sr_State r' = SubmissionDone \<and> sr_ResultID r' = ''res-0001''"
proof -
  let ?s = "run_ops ex_step (take 2 ex_erased_run) ex_start"
  let ?ops = "[OpReap False ''replica-2'' None (\<lambda>_. ''lost'') (3 * Hour), OpSweep False (3 * Hour)]"
  have "map_option (\<lambda>r. (sr_State r, sr_ResultID r)) (record_at ?s (ex_key ''sub-0001'')) = Some (SubmissionDone, ''res-0001'')"
    by code_simp
  then obtain r where r: "record_at ?s (ex_key ''sub-0001'') = Some r" "sr_State r = SubmissionDone" "sr_ResultID r = ''res-0001''"
    by auto
  have ok: "ok_run ex_step (mint_ok ex_digest) (take 2 ex_erased_run) ex_start"
    using ex_erased_run_ok by (simp add: ex_erased_run_def del: store_step.simps)
  have "list_all keeps_records ?ops" by simp
  from submission_only_moves_forward [OF ok refl this refl r(1)] r(2,3) show ?thesis by metis
qed

section \<open>Usage and limits\<close>

text \<open>The admissions on the deployment's own model that count to a usage row, over a run.\<close>

definition counts_to :: "usage_key \<Rightarrow> ('x, 'w) store_op \<Rightarrow> store \<Rightarrow> bool" where
  "counts_to uk op s =
    (case op of
       OpAdmit e a now \<Rightarrow> adm_PlatformRun a \<and> uk = \<lparr>uk_orgID = sk_OrgID (adm_Key a), uk_month = UsageMonth now\<rparr> \<and>
         (case fst (AdmitSubmission e a now s) of Inr (r, admitted) \<Rightarrow> admitted | Inl _ \<Rightarrow> False)
     | _ \<Rightarrow> False)"

fun platform_admissions ::
  "('x, 'w, 's) result_codec \<Rightarrow> (string \<Rightarrow> string) \<Rightarrow> usage_key \<Rightarrow> ('x, 'w) store_op list \<Rightarrow> store \<Rightarrow> int" where
  "platform_admissions cd digest uk [] s = 0"
| "platform_admissions cd digest uk (op # ops) s =
    (if counts_to uk op s then 1 else 0) + platform_admissions cd digest uk ops (store_step cd digest op s)"

interpretation usage_pass: retention_rule digest now "\<lambda>s. st_usage s = u" for digest now u
  by unfold_locales (auto simp: removeRecordLocked_fields erase_record_fields)

lemma step_usage_exact:
  assumes "erasable digest s" "mint_ok digest op s"
  shows "usage_at (store_step cd digest op s) uk = usage_at s uk + (if counts_to uk op s then 1 else 0)"
proof -
  have ix: "indexed s" by (rule erasable_indexed [OF assms(1)])
  consider e a now where "op = OpAdmit e a now" | e now limit where "op = OpRetention e now limit"
    | org where "op = OpDeleteForTest org" | "keeps_records op" "\<not> is_admit op" by (cases op) auto
  then show ?thesis
  proof cases
    case 1
    obtain res s' where A: "AdmitSubmission e a now s = (res, s')" by fastforce
    from admit_usage [OF A, of uk] A show ?thesis by (auto simp: 1 counts_to_def split: sum.splits prod.splits)
  next
    case 2
    with assms usage_pass.sweep_retained [of digest s "st_usage s" e now limit]
    show ?thesis by (simp add: mint_ok_def counts_to_def usage_at_def)
  next
    case 3
    with ix remove_fold_fields show ?thesis by (simp add: DeleteSubmissionsForTest_eq counts_to_def usage_at_def)
  next
    case 4
    then have "\<not> counts_to uk op s" by (cases op) (simp_all add: counts_to_def)
    with step_usage [OF 4, where cd = cd and digest = digest and s = s] show ?thesis by (simp add: usage_at_def)
  qed
qed

lemma run_usage_exact:
  "erasable digest s \<Longrightarrow> ok_run (store_step cd digest) (mint_ok digest) ops s \<Longrightarrow>
    usage_at (run_ops (store_step cd digest) ops s) uk = usage_at s uk + platform_admissions cd digest uk ops s"
proof (induction ops arbitrary: s)
  case (Cons op ops)
  then show ?case using step_usage_exact [of digest s op cd uk] step_erasable [of digest s op cd] by simp
qed simp

text \<open>
  The usage row of an organization and a calendar month counts exactly the admitted runs on
  the deployment's own model in that month. Repeats, refusals, reads, saves, sweeps and the
  deletion of records never change it.
\<close>

theorem usage_counts_admissions:
  assumes "ok_run (store_step cd digest) (mint_ok digest) ops (WithUnthreadedRecordRetention b NewStore)"
  shows "usage_at (run_ops (store_step cd digest) ops (WithUnthreadedRecordRetention b NewStore)) uk =
    platform_admissions cd digest uk ops (WithUnthreadedRecordRetention b NewStore)"
proof -
  have "usage_at (WithUnthreadedRecordRetention b NewStore) uk = 0"
    by (simp add: usage_at_def lookup_or_def WithUnthreadedRecordRetention_def NewStore_def)
  with run_usage_exact [OF erasable_NewStore assms] show ?thesis by simp
qed

theorem usage_counts_admissions_witness:
  "usage_at (run_ops ex_step ex_erased_run ex_start) \<lparr>uk_orgID = ''org-1'', uk_month = 0\<rparr> = 1"
proof -
  have "platform_admissions ex_codec ex_digest \<lparr>uk_orgID = ''org-1'', uk_month = 0\<rparr> ex_erased_run ex_start = 1" by code_simp
  with usage_counts_admissions [OF ex_erased_run_ok] show ?thesis by simp
qed

lemma live_admit_write: "liveLocked now r (snd (admit_write a t now s)) = liveLocked now r s"
  by (simp add: liveLocked_def admit_write_fields)

lemma running_admit_write:
  assumes "record_at s (adm_Key a) = None"
  shows "principal_running (adm_Key a) now (snd (admit_write a t now s)) \<le> principal_running (adm_Key a) now s + 1"
    and "org_running (sk_OrgID (adm_Key a)) now (snd (admit_write a t now s)) \<le> org_running (sk_OrgID (adm_Key a)) now s + 1"
proof -
  have "\<not> has_key (st_submissions s) (adm_Key a)" using assms by (simp add: has_key_def record_at_def)
  then show "principal_running (adm_Key a) now (snd (admit_write a t now s)) \<le> principal_running (adm_Key a) now s + 1"
    and "org_running (sk_OrgID (adm_Key a)) now (snd (admit_write a t now s)) \<le> org_running (sk_OrgID (adm_Key a)) now s + 1"
    by (simp_all add: principal_running_def org_running_def live_admit_write admit_write_fields(6) count_entries_put_new)
qed

lemma limit_refusal_None:
  assumes "limit_refusal a now s = None"
  shows "principal_running (adm_Key a) now s < MaxRunningPerPrincipal (Effective (adm_Limits a))"
    "org_running (sk_OrgID (adm_Key a)) now s < MaxRunningPerOrg (Effective (adm_Limits a))"
    "adm_PlatformRun a \<Longrightarrow> usage_at s \<lparr>uk_orgID = sk_OrgID (adm_Key a), uk_month = UsageMonth now\<rparr>
       < MonthlyPlatformRunAllowance (Effective (adm_Limits a))"
  using assms by (auto simp: limit_refusal_def Let_def split: if_splits)

text \<open>
  An admitted run respects the shared limits: after the admission the owner and the
  organization have at most their configured numbers of live runs, and the month's usage, which
  the run on the deployment's own model was counted to, is within the allowance.
\<close>

theorem admission_respects_limits:
  assumes "AdmitSubmission e a now s = (Inr (r, True), s')"
  shows "principal_running (adm_Key a) now s' \<le> MaxRunningPerPrincipal (Effective (adm_Limits a)) \<and>
    org_running (sk_OrgID (adm_Key a)) now s' \<le> MaxRunningPerOrg (Effective (adm_Limits a)) \<and>
    (adm_PlatformRun a \<longrightarrow>
       usage_at s' \<lparr>uk_orgID = sk_OrgID (adm_Key a), uk_month = UsageMonth now\<rparr> =
         usage_at s \<lparr>uk_orgID = sk_OrgID (adm_Key a), uk_month = UsageMonth now\<rparr> + 1 \<and>
       usage_at s' \<lparr>uk_orgID = sk_OrgID (adm_Key a), uk_month = UsageMonth now\<rparr> \<le>
         MonthlyPlatformRunAllowance (Effective (adm_Limits a)))"
proof -
  let ?uk = "\<lparr>uk_orgID = sk_OrgID (adm_Key a), uk_month = UsageMonth now\<rparr>"
  have u: "usage_at s' ?uk = usage_at s ?uk + (if adm_PlatformRun a then 1 else 0)"
    using admit_usage [OF assms, of ?uk] by simp
  from assms show ?thesis
  proof (cases rule: AdmitSubmission_cases)
    case admitted
    have "record_at s (adm_Key a) = None" by (rule findSubmissionLocked_None [OF admitted(2)])
    with running_admit_write [of s a now "admission_thread a s"] limit_refusal_None [OF admitted(5)] u
    show ?thesis by (auto simp: admitted(6))
  qed simp_all
qed

theorem admission_respects_limits_witness:
  "principal_running (ex_key ''sub-0001'') Hour ex_admitted \<le> 2 \<and>
   usage_at ex_admitted \<lparr>uk_orgID = ''org-1'', uk_month = UsageMonth Hour\<rparr> = 1"
proof -
  let ?a = "ex_admission ''sub-0001'' ''res-0001'' ''''"
  obtain r where r: "AdmitSubmission False ?a Hour ex_start = (Inr (r, True), ex_admitted)" using ex_admitted_result by blast
  have "adm_Key ?a = ex_key ''sub-0001''" "adm_PlatformRun ?a" "sk_OrgID (adm_Key ?a) = ''org-1''"
    "MaxRunningPerPrincipal (Effective (adm_Limits ?a)) = 2"
    by (simp_all add: ex_admission_def ex_key_def Effective_def ex_limits_def DefaultMaxRunningPerPrincipal_def)
  moreover have "usage_at ex_start \<lparr>uk_orgID = ''org-1'', uk_month = UsageMonth Hour\<rparr> = 0"
    by (simp add: usage_at_def lookup_or_def NewStore_def WithUnthreadedRecordRetention_def)
  ultimately show ?thesis using admission_respects_limits [OF r] by simp
qed

lemma allowance_wait_pos: "0 < AllowanceRetryAfter now"
proof -
  have "now < next_month_start (UsageMonth now)"
    using month_start_bounds(2) [of now] by (simp add: UsageMonth_def next_month_of_start)
  then show ?thesis by (simp add: AllowanceRetryAfter_def)
qed

text \<open>
  A refused admission changes nothing, and a refusal by a shared limit is honest: the count
  it reports has reached the limit it reports, that count is the one of the refused scope, and
  the caller is told a positive time to wait.
\<close>

theorem refused_admission_changes_nothing:
  assumes "AdmitSubmission e a now s = (Inl err, s')"
  shows "s' = s \<and> (\<forall>x. err = ErrSubmissionRefused x \<longrightarrow> re_Limit x \<le> re_Count x \<and> 0 < re_RetryAfter x \<and>
    re_Count x = (case re_Refusal x of
       SubmissionRefusedPrincipalConcurrency \<Rightarrow> principal_running (adm_Key a) now s
     | SubmissionRefusedOrgConcurrency \<Rightarrow> org_running (sk_OrgID (adm_Key a)) now s
     | SubmissionRefusedAllowanceExhausted \<Rightarrow> usage_at s \<lparr>uk_orgID = sk_OrgID (adm_Key a), uk_month = UsageMonth now\<rparr>))"
proof -
  have "s' = s" using assms by (cases rule: AdmitSubmission_cases) simp_all
  moreover have "limit_refusal a now s = Some x" if "err = ErrSubmissionRefused x" for x
    using assms that
    by (auto simp: AdmitSubmission_def Let_def split: if_splits option.splits prod.splits)
  moreover have "re_Limit x \<le> re_Count x \<and> 0 < re_RetryAfter x \<and>
    re_Count x = (case re_Refusal x of
       SubmissionRefusedPrincipalConcurrency \<Rightarrow> principal_running (adm_Key a) now s
     | SubmissionRefusedOrgConcurrency \<Rightarrow> org_running (sk_OrgID (adm_Key a)) now s
     | SubmissionRefusedAllowanceExhausted \<Rightarrow> usage_at s \<lparr>uk_orgID = sk_OrgID (adm_Key a), uk_month = UsageMonth now\<rparr>)"
    if "limit_refusal a now s = Some x" for x
    using that allowance_wait_pos [of now]
    by (auto simp: limit_refusal_def Let_def SubmissionConcurrencyRetryAfter_def Second_def split: if_splits)
  ultimately show ?thesis by blast
qed

text \<open>The third run of a user whose limit is two.\<close>

theorem refused_admission_changes_nothing_witness:
  "\<exists>x. AdmitSubmission False (ex_admission ''sub-0003'' ''res-0003'' '''') Hour
       (run_ops ex_step [OpAdmit False (ex_admission ''sub-0002'' ''res-0002'' '''') Hour] ex_admitted) =
       (Inl (ErrSubmissionRefused x),
        run_ops ex_step [OpAdmit False (ex_admission ''sub-0002'' ''res-0002'' '''') Hour] ex_admitted) \<and>
     re_Refusal x = SubmissionRefusedPrincipalConcurrency \<and> re_Limit x \<le> re_Count x"
proof -
  let ?s = "run_ops ex_step [OpAdmit False (ex_admission ''sub-0002'' ''res-0002'' '''') Hour] ex_admitted"
  let ?A = "AdmitSubmission False (ex_admission ''sub-0003'' ''res-0003'' '''') Hour ?s"
  have "(case fst ?A of Inl (ErrSubmissionRefused x) \<Rightarrow> Some (re_Refusal x) | _ \<Rightarrow> None) = Some SubmissionRefusedPrincipalConcurrency"
    by code_simp
  then obtain x where x: "fst ?A = Inl (ErrSubmissionRefused x)" "re_Refusal x = SubmissionRefusedPrincipalConcurrency"
    by (auto split: sum.splits store_error.splits)
  then have A: "?A = (Inl (ErrSubmissionRefused x), snd ?A)" by (simp add: prod_eq_iff)
  from refused_admission_changes_nothing [OF A] have "snd ?A = ?s" "re_Limit x \<le> re_Count x" by blast+
  with A x show ?thesis by metis
qed

end
