(* ===== verification/Investigation_Results.thy ===== *)
theory Investigation_Results
  imports Investigation_Properties
begin

text \<open>
  Stored results: a save is idempotent, what is saved is what is read, an organization never sees
  or replaces another's result, a supersession claim has one stored holder, and a save for a
  reservation that is gone is refused.
\<close>

section \<open>Saving again\<close>

text \<open>
  What the store relies on in the codec for one result and one snapshot: the payload it writes is
  not one the null check refuses, and the snapshot column decodes to the snapshot.
\<close>

definition codec_writes :: "('x, 'w, 's) result_codec \<Rightarrow> 'x investigation_result_scheme \<Rightarrow> 'w \<Rightarrow> bool" where
  "codec_writes cd result sem \<longleftrightarrow>
     (\<forall>payload. rc_Marshal cd result = Some payload \<longrightarrow> \<not> rc_ExplicitNull cd payload) \<and>
     (\<forall>column. rc_EncodedColumn cd sem = Some column \<longrightarrow>
        fst (rc_DecodeSemanticState cd column) = rc_WriteState cd sem \<and>
        snd (rc_DecodeSemanticState cd column) \<in> {SemanticStateReadAvailable, SemanticStateReadAbsent}) \<and>
     rc_SemanticStatesEqual cd (rc_WriteState cd sem) (rc_WriteState cd sem)"

lemma ex_codec_writes: "codec_writes ex_codec result sem"
  by (auto simp: codec_writes_def ex_codec_def split: option.splits)

text \<open>After a successful save the stored row is one that the same save replays.\<close>

lemma Save_succeeds:
  assumes "Save cd e ctx now p result parent sem s = (None, s1)"
  obtains payload column where "\<not> e" "TrimSpace (p_OrgID p) \<noteq> ''''" "TrimSpace (ir_ResultID result) \<noteq> ''''"
    "ValidateStoredParentResultID (TrimSpace (ir_ResultID result)) parent" "rc_ValidateResult cd result"
    "rc_Marshal cd result = Some payload" "rc_EncodedColumn cd sem = Some column"
    "\<And>existing. map_of (st_results s) (TrimSpace (ir_ResultID result)) = Some existing \<Longrightarrow>
       save_replay cd (TrimSpace (p_OrgID p)) payload sem existing = None \<and> s1 = s"
    "map_of (st_results s) (TrimSpace (ir_ResultID result)) = None \<Longrightarrow>
       save_fresh cd ctx now p (TrimSpace (p_OrgID p)) (TrimSpace (ir_ResultID result)) result payload parent column s = (None, s1)"
  using assms by (auto simp: Save_def Let_def split: if_splits option.splits)

lemma save_fresh_stores:
  assumes "save_fresh cd ctx now p org rid result payload parent column s = (None, s1)"
  shows "map_of (st_results s1) rid = Some (saved_entry cd now p org rid payload parent column s)"
proof -
  have c: "IsReservedSave ctx rid \<Longrightarrow> reservationHeldLocked p org rid s"
    "\<forall>c\<in>set (structureSupersessionClaims result). \<not> has_key (st_claims s) (claim_key_of org c)"
    using assms by (auto simp: save_fresh_def Let_def filter_empty_conv split: if_splits)
  from assms save_fresh_form [OF c, where cd = cd and now = now and payload = payload and parent = parent and column = column] show ?thesis by (auto simp: AList.update_conv')
qed

lemma Save_stored:
  assumes "Save cd e ctx now p result parent sem s = (None, s1)" "codec_writes cd result sem"
  obtains payload column entry where "rc_Marshal cd result = Some payload" "rc_EncodedColumn cd sem = Some column"
    "map_of (st_results s1) (TrimSpace (ir_ResultID result)) = Some entry" "en_orgID entry = TrimSpace (p_OrgID p)"
    "en_payload entry = payload" "save_replay cd (TrimSpace (p_OrgID p)) payload sem entry = None"
proof -
  show thesis
  proof (rule Save_succeeds [OF assms(1)])
    fix payload column
    assume S: "rc_Marshal cd result = Some payload" "rc_EncodedColumn cd sem = Some column"
      "\<And>existing. map_of (st_results s) (TrimSpace (ir_ResultID result)) = Some existing \<Longrightarrow>
         save_replay cd (TrimSpace (p_OrgID p)) payload sem existing = None \<and> s1 = s"
      "map_of (st_results s) (TrimSpace (ir_ResultID result)) = None \<Longrightarrow>
         save_fresh cd ctx now p (TrimSpace (p_OrgID p)) (TrimSpace (ir_ResultID result)) result payload parent column s = (None, s1)"
    show thesis
    proof (cases "map_of (st_results s) (TrimSpace (ir_ResultID result))")
      case (Some existing)
      with S(3) [OF Some] show thesis
        by (intro that [OF S(1,2)]) (auto simp: save_replay_def split: if_splits)
    next
      case None
      from save_fresh_stores [OF S(4) [OF None]] S(1,2) assms(2) show thesis
        by (intro that [OF S(1,2)]) (auto simp: save_replay_def saved_entry_def codec_writes_def split: prod.splits)
    qed
  qed
qed

text \<open>
  A save is idempotent. Once a result is saved, the same save at any later moment, with the
  same or another credential of the organization, succeeds and changes nothing, as long as no
  retention pass removed the result in between.
\<close>

theorem save_is_idempotent:
  assumes "ok_run (store_step cd digest) (mint_ok digest) before (WithUnthreadedRecordRetention b NewStore)"
    and "s = run_ops (store_step cd digest) before (WithUnthreadedRecordRetention b NewStore)"
    and "Save cd e ctx now p result parent sem s = (None, s1)" "codec_writes cd result sem"
    and "list_all keeps_records ops" "s2 = run_ops (store_step cd digest) ops s1"
    and "TrimSpace (p_OrgID p') = TrimSpace (p_OrgID p)"
  shows "Save cd False ctx' now' p' result parent sem s2 = (None, s2)"
proof -
  have ix: "indexed s" using reachable_indexed [OF assms(1)] assms(2) by (simp add: erasable_indexed)
  have s1: "s1 = store_step cd digest (OpSave e ctx now p result parent sem) s" using assms(3) by simp
  have "indexed s1" unfolding s1 by (rule step_indexed_keeps [OF ix]) simp
  then have g: "grows s1 s2" using run_grows assms(5,6) by blast
  from Save_stored [OF assms(3,4)] obtain payload column entry where
    e: "rc_Marshal cd result = Some payload" "map_of (st_results s1) (TrimSpace (ir_ResultID result)) = Some entry"
      "save_replay cd (TrimSpace (p_OrgID p)) payload sem entry = None" by metis
  have "map_of (st_results s2) (TrimSpace (ir_ResultID result)) = Some entry" by (rule growsD(2) [OF g e(2)])
  moreover from assms(3) have "TrimSpace (p_OrgID p) \<noteq> ''''" "TrimSpace (ir_ResultID result) \<noteq> ''''"
    "ValidateStoredParentResultID (TrimSpace (ir_ResultID result)) parent" "rc_ValidateResult cd result"
    "\<exists>column. rc_EncodedColumn cd sem = Some column"
    by (blast elim: Save_succeeds)+
  ultimately show ?thesis using e assms(7) by (auto simp: Save_def Let_def)
qed

lemma ex_saved: "\<exists>s1. Save ex_codec False None Hour ex_principal (ex_result ''res-0007'') '''' True ex_start = (None, s1)"
proof -
  have "fst (Save ex_codec False None Hour ex_principal (ex_result ''res-0007'') '''' True ex_start) = None" by code_simp
  then show ?thesis by (metis prod.collapse)
qed

theorem save_is_idempotent_witness:
  "\<exists>s1. Save ex_codec False None Hour ex_principal (ex_result ''res-0007'') '''' True ex_start = (None, s1) \<and>
     Save ex_codec False None (2 * Hour) ex_principal (ex_result ''res-0007'') '''' True (run_ops ex_step [OpSweep False (2 * Hour)] s1) =
       (None, run_ops ex_step [OpSweep False (2 * Hour)] s1)"
proof -
  obtain s1 where s1: "Save ex_codec False None Hour ex_principal (ex_result ''res-0007'') '''' True ex_start = (None, s1)"
    using ex_saved by blast
  have "Save ex_codec False None (2 * Hour) ex_principal (ex_result ''res-0007'') '''' True (run_ops ex_step [OpSweep False (2 * Hour)] s1) =
       (None, run_ops ex_step [OpSweep False (2 * Hour)] s1)"
    by (rule save_is_idempotent [where before = "[]" and s = ex_start and digest = ex_digest and b = True
          and ops = "[OpSweep False (2 * Hour)]", OF _ _ s1 ex_codec_writes]) simp_all
  with s1 show ?thesis by blast
qed

section \<open>Reading\<close>

text \<open>
  What was saved is what is read. A result saved in an organization is read back by any of
  its principals at any later moment at which no closed conversation hides it, with the parent
  and the snapshot it was saved with; hypotheses are that the codec decodes what it encoded for
  this result.
\<close>

theorem saved_result_is_read_back:
  assumes "ok_run (store_step cd digest) (mint_ok digest) before (WithUnthreadedRecordRetention b NewStore)"
    and "s = run_ops (store_step cd digest) before (WithUnthreadedRecordRetention b NewStore)"
    and "Save cd e ctx now p result parent sem s = (None, s1)" "codec_writes cd result sem"
    and "\<And>payload. rc_Marshal cd result = Some payload \<Longrightarrow> rc_Unmarshal cd payload = Some result"
    and "rc_ValidateStoredResult cd result"
    and "list_all keeps_records ops" "s2 = run_ops (store_step cd digest) ops s1"
    and "TrimSpace (p_OrgID p') = TrimSpace (p_OrgID p)" "TrimSpace rid = TrimSpace (ir_ResultID result)"
    and "\<not> hiddenByClosedThreadLocked (TrimSpace (p_OrgID p)) (TrimSpace rid) now' s2"
  shows "\<exists>sd. Get cd False now' p' rid s2 = Inr sd \<and> sd_Result sd = result \<and>
    (map_of (st_results s) (TrimSpace rid) = None \<longrightarrow>
       sd_ParentResultID sd = TrimSpace parent \<and> sd_SemanticState sd = rc_WriteState cd sem)"
proof -
  have ix: "indexed s" using reachable_indexed [OF assms(1)] assms(2) by (simp add: erasable_indexed)
  have s1: "s1 = store_step cd digest (OpSave e ctx now p result parent sem) s" using assms(3) by simp
  have "indexed s1" unfolding s1 by (rule step_indexed_keeps [OF ix]) simp
  then have g: "grows s1 s2" using run_grows assms(7,8) by blast
  from Save_stored [OF assms(3,4)] obtain payload column entry where
    e: "rc_Marshal cd result = Some payload" "rc_EncodedColumn cd sem = Some column"
      "map_of (st_results s1) (TrimSpace (ir_ResultID result)) = Some entry"
      "en_orgID entry = TrimSpace (p_OrgID p)" "en_payload entry = payload" by metis
  have at2: "map_of (st_results s2) (TrimSpace rid) = Some entry" using growsD(2) [OF g e(3)] assms(10) by simp
  from assms(3) have ne: "TrimSpace (p_OrgID p) \<noteq> ''''" "TrimSpace (ir_ResultID result) \<noteq> ''''"
    by (blast elim: Save_succeeds)+
  have nn: "\<not> rc_ExplicitNull cd payload" using assms(4) e(1) by (simp add: codec_writes_def)
  have fresh: "entry = saved_entry cd now p (TrimSpace (p_OrgID p)) (TrimSpace rid) payload parent column s"
    if none: "map_of (st_results s) (TrimSpace rid) = None"
  proof -
    have "save_fresh cd ctx now p (TrimSpace (p_OrgID p)) (TrimSpace rid) result payload parent column s = (None, s1)"
      using Save_succeeds [OF assms(3)] none e(1,2) assms(10) by (metis option.inject)
    from save_fresh_stores [OF this] e(3) assms(10) show ?thesis by simp
  qed
  obtain state status where d: "rc_DecodeSemanticState cd (en_semanticState entry) = (state, status)" by fastforce
  have "Get cd False now' p' rid s2 = Inr \<lparr>sd_Result = result, sd_ParentResultID = en_parentResultID entry,
      sd_GrantDigest = en_grantDigest entry, sd_SubmissionOwner = en_owner entry, sd_SemanticState = state,
      sd_SemanticStateRead = status\<rparr>"
    using assms(5) [OF e(1)] assms(6,9,10,11) e(4,5) at2 ne nn d by (simp add: Get_def Let_def)
  moreover have "en_parentResultID entry = TrimSpace parent \<and> state = rc_WriteState cd sem"
    if "map_of (st_results s) (TrimSpace rid) = None"
    using fresh [OF that] d assms(4) e(2) by (auto simp: saved_entry_def codec_writes_def)
  ultimately show ?thesis by simp
qed

theorem saved_result_is_read_back_witness:
  "\<exists>s1 sd. Save ex_codec False None Hour ex_principal (ex_result ''res-0007'') '''' True ex_start = (None, s1) \<and>
     Get ex_codec False (2 * Hour) ex_principal '' res-0007'' s1 = Inr sd \<and> sd_Result sd = ex_result ''res-0007''"
proof -
  obtain s1 where s1: "Save ex_codec False None Hour ex_principal (ex_result ''res-0007'') '''' True ex_start = (None, s1)"
    using ex_saved by blast
  have t: "TrimSpace '' res-0007'' = TrimSpace (ir_ResultID (ex_result ''res-0007''))" by code_simp
  have "st_submissions (snd (Save ex_codec False None Hour ex_principal (ex_result ''res-0007'') '''' True ex_start)) = []" by code_simp
  then have "st_submissions s1 = []" using s1 by simp
  then have h: "\<not> hiddenByClosedThreadLocked (TrimSpace (p_OrgID ex_principal)) (TrimSpace '' res-0007'') (2 * Hour) s1"
    by (simp add: hiddenByClosedThreadLocked_def)
  have m: "rc_Unmarshal ex_codec payload = Some (ex_result ''res-0007'')"
    if "rc_Marshal ex_codec (ex_result ''res-0007'') = Some payload" for payload
    using that by (simp add: ex_codec_def ex_result_def split: if_splits)
  have v: "rc_ValidateStoredResult ex_codec (ex_result ''res-0007'')" by (simp add: ex_codec_def)
  have "\<exists>sd. Get ex_codec False (2 * Hour) ex_principal '' res-0007'' s1 = Inr sd \<and> sd_Result sd = ex_result ''res-0007'' \<and>
    (map_of (st_results ex_start) (TrimSpace '' res-0007'') = None \<longrightarrow>
       sd_ParentResultID sd = TrimSpace '''' \<and> sd_SemanticState sd = rc_WriteState ex_codec True)"
    by (rule saved_result_is_read_back [where before = "[]" and ops = "[]" and digest = ex_digest and b = True, OF _ _ s1 ex_codec_writes m v _ _ _ t h]) simp_all
  with s1 show ?thesis by blast
qed

section \<open>Organizations\<close>

lemma Save_entry:
  assumes "Save cd e ctx now p result parent sem s = (None, s1)"
  obtains entry where "map_of (st_results s1) (TrimSpace (ir_ResultID result)) = Some entry" "en_orgID entry = TrimSpace (p_OrgID p)"
proof (rule Save_succeeds [OF assms])
  fix payload column
  assume S: "\<And>existing. map_of (st_results s) (TrimSpace (ir_ResultID result)) = Some existing \<Longrightarrow>
      save_replay cd (TrimSpace (p_OrgID p)) payload sem existing = None \<and> s1 = s"
    "map_of (st_results s) (TrimSpace (ir_ResultID result)) = None \<Longrightarrow>
      save_fresh cd ctx now p (TrimSpace (p_OrgID p)) (TrimSpace (ir_ResultID result)) result payload parent column s = (None, s1)"
  show thesis
  proof (cases "map_of (st_results s) (TrimSpace (ir_ResultID result))")
    case (Some existing)
    with S(1) [OF Some] show thesis by (intro that [of existing]) (auto simp: save_replay_def split: if_splits)
  next
    case None
    from save_fresh_stores [OF S(2) [OF None]] show thesis by (rule that) (simp add: saved_entry_def)
  qed
qed

lemma Save_foreign:
  assumes "map_of (st_results s) (TrimSpace (ir_ResultID result)) = Some entry" "en_orgID entry \<noteq> TrimSpace (p_OrgID p)"
  shows "\<exists>err. Save cd e ctx now p result parent sem s = (Some err, s)"
  using assms by (auto simp: Save_def Let_def save_replay_def split: option.splits)

text \<open>
  Organizations are separate. A result saved by one organization is, at every later moment of
  a run, neither returned to a principal of another organization nor replaced by a save of one.
\<close>

theorem results_are_org_scoped:
  assumes "ok_run (store_step cd digest) (mint_ok digest) before (WithUnthreadedRecordRetention b NewStore)"
    and "s = run_ops (store_step cd digest) before (WithUnthreadedRecordRetention b NewStore)"
    and "Save cd e ctx now p result parent sem s = (None, s1)"
    and "list_all keeps_records ops" "s2 = run_ops (store_step cd digest) ops s1"
    and "TrimSpace (p_OrgID q) \<noteq> TrimSpace (p_OrgID p)"
    and "TrimSpace rid = TrimSpace (ir_ResultID result)" "TrimSpace (ir_ResultID other) = TrimSpace (ir_ResultID result)"
  shows "(\<exists>err. Get cd e' now' q rid s2 = Inl err) \<and>
    (\<exists>err. Save cd e'' ctx' now'' q other parent' sem' s2 = (Some err, s2))"
proof -
  have ix: "indexed s" using reachable_indexed [OF assms(1)] assms(2) by (simp add: erasable_indexed)
  have s1: "s1 = store_step cd digest (OpSave e ctx now p result parent sem) s" using assms(3) by simp
  have "indexed s1" unfolding s1 by (rule step_indexed_keeps [OF ix]) simp
  then have g: "grows s1 s2" using run_grows assms(4,5) by blast
  obtain entry where en: "map_of (st_results s1) (TrimSpace (ir_ResultID result)) = Some entry" "en_orgID entry = TrimSpace (p_OrgID p)"
    by (rule Save_entry [OF assms(3)])
  have at2: "map_of (st_results s2) (TrimSpace (ir_ResultID result)) = Some entry" by (rule growsD(2) [OF g en(1)])
  then have "\<exists>err. Save cd e'' ctx' now'' q other parent' sem' s2 = (Some err, s2)"
    using assms(6,8) en(2) by (intro Save_foreign [where entry = entry]) auto
  moreover have "\<exists>err. Get cd e' now' q rid s2 = Inl err"
    using at2 en(2) assms(6,7) by (auto simp: Get_def Let_def)
  ultimately show ?thesis by blast
qed

theorem results_are_org_scoped_witness:
  "\<exists>s1. Save ex_codec False None Hour ex_principal (ex_result ''res-0007'') '''' True ex_start = (None, s1) \<and>
     (\<exists>err. Get ex_codec False Hour (ex_principal\<lparr>p_OrgID := ''org-2''\<rparr>) ''res-0007'' s1 = Inl err) \<and>
     (\<exists>err. Save ex_codec False None Hour (ex_principal\<lparr>p_OrgID := ''org-2''\<rparr>) (ex_result ''res-0007'') '''' True s1 = (Some err, s1))"
proof -
  obtain s1 where s1: "Save ex_codec False None Hour ex_principal (ex_result ''res-0007'') '''' True ex_start = (None, s1)"
    using ex_saved by blast
  have t: "TrimSpace (p_OrgID (ex_principal\<lparr>p_OrgID := ''org-2''\<rparr>)) \<noteq> TrimSpace (p_OrgID ex_principal)"
    "TrimSpace ''res-0007'' = TrimSpace (ir_ResultID (ex_result ''res-0007''))" by code_simp+
  have "(\<exists>err. Get ex_codec False Hour (ex_principal\<lparr>p_OrgID := ''org-2''\<rparr>) ''res-0007'' s1 = Inl err) \<and>
     (\<exists>err. Save ex_codec False None Hour (ex_principal\<lparr>p_OrgID := ''org-2''\<rparr>) (ex_result ''res-0007'') '''' True s1 = (Some err, s1))"
    by (rule results_are_org_scoped [where before = "[]" and ops = "[]" and digest = ex_digest and b = True, OF _ _ s1 _ _ t refl]) simp_all
  with s1 show ?thesis by blast
qed

section \<open>Supersession claims\<close>

text \<open>
  A supersession claim never outlives the result that made it: in every reachable state,
  retention passes included, the result a claim names is stored, in the claim's organization.
\<close>

theorem claim_holder_is_stored:
  assumes "ok_run (store_step cd digest) (mint_ok digest) ops (WithUnthreadedRecordRetention b NewStore)"
    and "s = run_ops (store_step cd digest) ops (WithUnthreadedRecordRetention b NewStore)"
    and "map_of (st_claims s) c = Some rid"
  shows "\<exists>e. map_of (st_results s) rid = Some e \<and> en_orgID e = ck_orgID c"
proof -
  have "claims_held (WithUnthreadedRecordRetention b NewStore)"
    by (simp add: claims_held_def NewStore_def WithUnthreadedRecordRetention_def)
  then have "claims_held s" using claims.run_inv [OF _ assms(1)] assms(2) by simp
  with assms(3) show ?thesis by (simp add: claims_held_def)
qed

text \<open>A codec for results with one redeemed receipt, and such a result.\<close>

definition ex_redeeming :: "string \<Rightarrow> investigation_result" where
  "ex_redeeming rid = (ex_result rid)\<lparr>ir_ConfirmedStructure :=
     [\<lparr>cs_Member = ''kind'', cs_Disposition = ''applied'', cs_Source = ''receipt'', cs_PriorResultID = ''res-0001''\<rparr>]\<rparr>"

definition ex_claim_codec :: "(unit, bool, bool) result_codec" where
  "ex_claim_codec = ex_codec\<lparr>rc_Marshal := \<lambda>r. Some (ir_ResultID r), rc_Unmarshal := \<lambda>s. Some (ex_redeeming s)\<rparr>"

theorem claim_holder_is_stored_witness:
  "\<exists>s e. s = run_ops (store_step ex_claim_codec ex_digest) [OpSave False None Hour ex_principal (ex_redeeming ''res-0002'') '''' True] ex_start \<and>
     map_of (st_claims s) \<lparr>ck_orgID = ''org-1'', ck_priorResultID = ''res-0001'', ck_member = ''kind''\<rparr> = Some ''res-0002'' \<and>
     map_of (st_results s) ''res-0002'' = Some e \<and> en_orgID e = ''org-1''"
proof -
  let ?ops = "[OpSave False None Hour ex_principal (ex_redeeming ''res-0002'') '''' True]"
  let ?s = "run_ops (store_step ex_claim_codec ex_digest) ?ops ex_start"
  have c: "map_of (st_claims ?s) \<lparr>ck_orgID = ''org-1'', ck_priorResultID = ''res-0001'', ck_member = ''kind''\<rparr> = Some ''res-0002''"
    by code_simp
  have "ok_run (store_step ex_claim_codec ex_digest) (mint_ok ex_digest) ?ops ex_start" by (simp add: mint_ok_def)
  from claim_holder_is_stored [OF this refl c] c show ?thesis by auto
qed

lemma Save_claims:
  assumes "Save cd e ctx now p result parent sem s = (None, s1)" "map_of (st_results s) (TrimSpace (ir_ResultID result)) = None"
    "c \<in> set (structureSupersessionClaims result)"
  shows "map_of (st_claims s1) (claim_key_of (TrimSpace (p_OrgID p)) c) = Some (TrimSpace (ir_ResultID result))"
  using assms(1)
proof (cases rule: Save_cases)
  case kept
  with Save_entry [OF assms(1)] assms(2) show ?thesis by auto
next
  case (stored orgID rid payload column)
  show ?thesis
    unfolding stored(11) stored(2,3) [symmetric] using assms(3)
    by (simp add: save_fresh_form [OF stored(9,10)] saved_claims_lookup)
qed

text \<open>
  An offer is redeemed once. After a result redeemed a structure offer, another result of
  the organization that redeems the same offer is refused at every later moment, with nothing
  written, as long as no retention pass removed the first.
\<close>

theorem redeemed_offer_is_refused:
  assumes "ok_run (store_step cd digest) (mint_ok digest) before (WithUnthreadedRecordRetention b NewStore)"
    and "s = run_ops (store_step cd digest) before (WithUnthreadedRecordRetention b NewStore)"
    and "Save cd e ctx now p result parent sem s = (None, s1)" "map_of (st_results s) (TrimSpace (ir_ResultID result)) = None"
    and "c \<in> set (structureSupersessionClaims result)"
    and "list_all keeps_records ops" "s2 = run_ops (store_step cd digest) ops s1"
    and "TrimSpace (p_OrgID p') = TrimSpace (p_OrgID p)" "c \<in> set (structureSupersessionClaims other)"
    and "map_of (st_results s2) (TrimSpace (ir_ResultID other)) = None"
  shows "\<exists>err. Save cd e' ctx' now' p' other parent' sem' s2 = (Some err, s2)"
proof -
  have ix: "indexed s" using reachable_indexed [OF assms(1)] assms(2) by (simp add: erasable_indexed)
  have s1: "s1 = store_step cd digest (OpSave e ctx now p result parent sem) s" using assms(3) by simp
  have "indexed s1" unfolding s1 by (rule step_indexed_keeps [OF ix]) simp
  then have g: "grows s1 s2" using run_grows assms(6,7) by blast
  have held: "has_key (st_claims s2) (claim_key_of (TrimSpace (p_OrgID p')) c)"
    using growsD(3) [OF g Save_claims [OF assms(3-5)]] assms(8) by (simp add: has_key_def)
  obtain err s3 where S: "Save cd e' ctx' now' p' other parent' sem' s2 = (err, s3)" by fastforce
  from S show ?thesis
  proof (cases rule: Save_cases)
    case kept
    moreover have "err \<noteq> None" using Save_entry [of cd e' ctx' now' p' other parent' sem' s2 s3] S kept assms(10) by auto
    ultimately show ?thesis using S by auto
  next
    case (stored orgID rid payload column)
    with held assms(9) show ?thesis by blast
  qed
qed

theorem redeemed_offer_is_refused_witness:
  "\<exists>s1 err. Save ex_claim_codec False None Hour ex_principal (ex_redeeming ''res-0002'') '''' True ex_start = (None, s1) \<and>
     Save ex_claim_codec False None Hour ex_principal (ex_redeeming ''res-0003'') '''' True s1 = (Some err, s1)"
proof -
  let ?S = "Save ex_claim_codec False None Hour ex_principal (ex_redeeming ''res-0002'') '''' True ex_start"
  have "fst ?S = None" by code_simp
  then obtain s1 where s1: "?S = (None, s1)" by (metis prod.collapse)
  have "map_of (st_results (snd ?S)) (TrimSpace (ir_ResultID (ex_redeeming ''res-0003''))) = None" by code_simp
  then have n: "map_of (st_results s1) (TrimSpace (ir_ResultID (ex_redeeming ''res-0003''))) = None" by (simp only: s1 snd_conv)
  have c: "map_of (st_results ex_start) (TrimSpace (ir_ResultID (ex_redeeming ''res-0002''))) = None"
    "(''res-0001'', ''kind'') \<in> set (structureSupersessionClaims (ex_redeeming ''res-0002''))"
    "(''res-0001'', ''kind'') \<in> set (structureSupersessionClaims (ex_redeeming ''res-0003''))" by code_simp+
  have "\<exists>err. Save ex_claim_codec False None Hour ex_principal (ex_redeeming ''res-0003'') '''' True s1 = (Some err, s1)"
    by (rule redeemed_offer_is_refused [where before = "[]" and ops = "[]" and digest = ex_digest and b = True,
          OF _ _ s1 c(1,2) _ _ refl c(3) n]) simp_all
  with s1 show ?thesis by blast
qed

section \<open>Feedback\<close>

text \<open>
  Feedback belongs to the owner of a stored result. A feedback that is accepted comes from
  the principal the result was saved for, is what that principal then reads, never moves the
  update time back, and leaves the feedback on every other result alone.
\<close>

theorem feedback_is_the_owners:
  assumes "SetResultFeedback e p rid correct useful now s = (Inr f, s')"
  shows "(\<exists>en owner. map_of (st_results s) rid = Some en \<and> en_orgID en = TrimSpace (p_OrgID p) \<and>
      en_owner en = Some owner \<and> owner_Is owner p) \<and>
    GetResultFeedback False p rid now s' = Inr f \<and> rf_Correct f = correct \<and> rf_Useful f = useful \<and>
    (\<forall>prev. map_of (st_feedback s) rid = Some prev \<longrightarrow> rf_UpdatedAt prev \<le> rf_UpdatedAt f) \<and>
    (\<forall>other. other \<noteq> rid \<longrightarrow> map_of (st_feedback s') other = map_of (st_feedback s) other)"
proof -
  have ok: "feedbackResultLocked p rid now s" and s': "s' = s\<lparr>st_feedback := put rid f (st_feedback s)\<rparr>"
    and f: "rf_Correct f = correct" "rf_Useful f = useful"
      "\<forall>prev. map_of (st_feedback s) rid = Some prev \<longrightarrow> rf_UpdatedAt prev \<le> rf_UpdatedAt f"
    using assms by (auto simp: SetResultFeedback_def Let_def split: if_splits option.splits)
  have loop: "hidden_loop org r now (s\<lparr>st_feedback := x\<rparr>) m b = hidden_loop org r now s m b" for org r m b x
    by (induction m arbitrary: b) (auto simp: threadClosedLocked_def)
  have hid: "hiddenByClosedThreadLocked org r now s' = hiddenByClosedThreadLocked org r now s" for org r
    by (simp add: s' hiddenByClosedThreadLocked_def loop)
  have "st_results s' = st_results s" by (simp add: s')
  then have "feedbackResultLocked p rid now s' = feedbackResultLocked p rid now s" by (simp only: feedbackResultLocked_def hid)
  with ok have "feedbackResultLocked p rid now s'" by simp
  then have "GetResultFeedback False p rid now s' = Inr f" by (simp add: GetResultFeedback_def s' map_simps)
  moreover have "\<exists>en owner. map_of (st_results s) rid = Some en \<and> en_orgID en = TrimSpace (p_OrgID p) \<and>
      en_owner en = Some owner \<and> owner_Is owner p"
    using ok by (auto simp: feedbackResultLocked_def Let_def split: option.splits if_splits)
  ultimately show ?thesis using f by (auto simp: s' AList.update_conv')
qed

theorem feedback_is_the_owners_witness:
  "\<exists>f s'. SetResultFeedback False ex_principal ''res-0001'' ContextFabricResultFeedbackYes ContextFabricResultFeedbackNo (2 * Hour)
       (run_ops ex_step (take 2 ex_erased_run) ex_start) = (Inr f, s') \<and>
     GetResultFeedback False ex_principal ''res-0001'' (2 * Hour) s' = Inr f \<and> rf_Useful f = ContextFabricResultFeedbackNo"
proof -
  let ?F = "SetResultFeedback False ex_principal ''res-0001'' ContextFabricResultFeedbackYes ContextFabricResultFeedbackNo (2 * Hour)
       (run_ops ex_step (take 2 ex_erased_run) ex_start)"
  have "map_sum (\<lambda>_. ()) (\<lambda>_. ()) (fst ?F) = Inr ()" by code_simp
  then obtain f where "fst ?F = Inr f" by (cases "fst ?F") auto
  then have F: "?F = (Inr f, snd ?F)" by (simp add: prod_eq_iff)
  from feedback_is_the_owners [OF F] F show ?thesis by blast
qed

end
