(* ===== verification/Run_Properties.thy ===== *)
theory Run_Properties
  imports Investigation_Results
begin

text \<open>
  Runs of the investigation store: the event log of a run is ordered, has one terminal row and is
  final after it; pages of it continue each other; a lost run is taken over once and a renewed
  lease is safe from takeover.
\<close>

section \<open>The event log\<close>

definition log_ok :: "run_event list \<Rightarrow> bool" where
  "log_ok rows \<longleftrightarrow> sorted_wrt (\<lambda>a b. ev_Seq a < ev_Seq b) rows \<and> length (filter is_terminal rows) \<le> 1 \<and>
     (\<forall>row\<in>set rows. 1 \<le> ev_Seq row) \<and> (\<not> hasTerminal rows \<longrightarrow> (\<forall>row\<in>set rows. ev_Seq row < max_int64))"

definition logs_ok :: "store \<Rightarrow> bool" where
  "logs_ok s \<longleftrightarrow> (\<forall>run. log_ok (run_log run s))"

interpretation seq_order: strict_weak_order seq_before
  by unfold_locales (auto simp: seq_before_def)

lemma strictly_sorted:
  assumes "distinct (map ev_Seq rows)"
  shows "sorted_wrt (\<lambda>a b. ev_Seq a < ev_Seq b) (sort_slice seq_before rows)"
proof -
  have "mset (map ev_Seq (sort_slice seq_before rows)) = mset (map ev_Seq rows)" by simp
  then have "distinct (map ev_Seq (sort_slice seq_before rows))"
    using assms by (metis mset_eq_imp_distinct_iff)
  moreover have "sorted (map ev_Seq (sort_slice seq_before rows))"
    using seq_order.sorted_sort_slice [of rows] by (simp add: seq_before_def not_less sorted_wrt_map)
  ultimately have "sorted_wrt (<) (map ev_Seq (sort_slice seq_before rows))" by (simp add: strict_sorted_iff)
  then show ?thesis by (simp add: sorted_wrt_map)
qed

lemma no_terminal_filter: "\<not> hasTerminal rows \<Longrightarrow> filter is_terminal rows = []"
  by (auto simp: hasTerminal_def list_ex_iff filter_empty_conv)

lemma length_filter_mset: "mset xs = mset ys \<Longrightarrow> length (filter P xs) = length (filter P ys)"
  by (metis mset_filter size_mset)

lemma log_ok_filter:
  assumes ok: "log_ok rows" and keep: "\<And>row. row \<in> set rows \<Longrightarrow> is_terminal row \<Longrightarrow> P row"
  shows "log_ok (filter P rows)"
proof -
  have "hasTerminal (filter P rows) = hasTerminal rows" using keep by (auto simp: hasTerminal_def list_ex_iff)
  moreover
  have "length (filter is_terminal (filter P rows)) \<le> length (filter is_terminal rows)"
    by (induction rows) auto
  ultimately show ?thesis using ok by (auto simp: log_ok_def sorted_wrt_filter)
qed

lemma log_ok_append_rows:
  assumes "log_ok rows" "\<not> hasTerminal rows" "ev_Seq event \<notin> ev_Seq ` set rows" "1 \<le> ev_Seq event" "ev_Seq event < max_int64"
  shows "log_ok (append_rows rows event bound)"
proof -
  let ?sorted = "sort_slice seq_before (rows @ [event])"
  have "sorted_wrt (<) (map ev_Seq rows)" using assms(1) by (simp add: log_ok_def sorted_wrt_map)
  then have "distinct (map ev_Seq (rows @ [event]))" using assms(3) by (simp add: strict_sorted_iff)
  then have "sorted_wrt (\<lambda>a b. ev_Seq a < ev_Seq b) ?sorted" by (rule strictly_sorted)
  moreover have "length (filter is_terminal ?sorted) \<le> 1"
    using length_filter_mset [of ?sorted "rows @ [event]" is_terminal] assms(2) by (simp add: no_terminal_filter)
  ultimately have "log_ok ?sorted" using assms(1,2,4,5) by (auto simp: log_ok_def)
  then show ?thesis by (auto simp: append_rows_def Let_def intro: log_ok_filter)
qed

lemma log_ok_snoc:
  assumes "log_ok rows" "\<not> hasTerminal rows" "\<And>row. row \<in> set rows \<Longrightarrow> ev_Seq row < ev_Seq e" "1 \<le> ev_Seq e" "is_terminal e"
  shows "log_ok (rows @ [e])"
  using assms by (auto simp: log_ok_def sorted_wrt_append no_terminal_filter hasTerminal_def)

lemma log_ok_lost_event:
  assumes "log_ok rows" "\<not> hasTerminal rows"
  shows "log_ok (rows @ [lost_event rows envelope now])"
proof (cases rows rule: rev_cases)
  case (snoc init l)
  have le: "ev_Seq row \<le> ev_Seq l" "1 \<le> ev_Seq l" if "row \<in> set rows" for row
    using assms(1) that by (auto simp: snoc log_ok_def sorted_wrt_append intro: less_imp_le)
  have "ev_Seq l < max_int64" using assms by (simp add: snoc log_ok_def)
  with le [of l] have "wrap64 (ev_Seq l + 1) = ev_Seq l + 1" by (intro wrap64_id) (auto simp: snoc min_int64_def)
  then have "ev_Seq (lost_event rows envelope now) = ev_Seq l + 1" by (simp add: lost_event_def snoc)
  moreover have "is_terminal (lost_event rows envelope now)" by (simp add: is_terminal_def lost_event_def)
  ultimately show ?thesis using le [of l] le by (intro log_ok_snoc [OF assms]) (force simp: snoc)+
qed (simp add: log_ok_def lost_event_def is_terminal_def hasTerminal_def)

section \<open>Every log, in every reachable state\<close>

lemma run_log_put [simp]: "run_log run (s\<lparr>st_runEvents := put run' rows m\<rparr>) = (if run = run' then rows else lookup_or [] m run)"
  by (simp add: run_log_def map_simps)

lemma logs_ok_cong: "logs_ok s \<Longrightarrow> st_runEvents s' = st_runEvents s \<Longrightarrow> logs_ok s'"
  by (simp add: logs_ok_def run_log_def)

lemma log_ok_Nil [simp]: "log_ok []"
  by (simp add: log_ok_def)

lemma is_terminal_WrittenAt [simp]: "is_terminal (e\<lparr>ev_WrittenAt := t\<rparr>) = is_terminal e"
  by (simp add: is_terminal_def)

lemma logs_ok_del: "logs_ok s \<Longrightarrow> st_runEvents s' = del run (st_runEvents s) \<Longrightarrow> logs_ok s'"
  by (auto simp: logs_ok_def run_log_def map_simps)

lemma logs_ok_removeRecord: "logs_ok s \<Longrightarrow> logs_ok (removeRecordLocked k s)"
  by (auto simp: removeRecordLocked_def split: option.splits intro: logs_ok_del)

lemma logs_ok_erase: "logs_ok s \<Longrightarrow> logs_ok (erase_record digest now k s)"
  by (auto simp: erase_record_def Let_def split: option.splits intro: logs_ok_del)

lemma logs_ok_remove_fold: "logs_ok s \<Longrightarrow> logs_ok (fold removeRecordLocked keys s)"
  by (induction keys arbitrary: s) (auto simp: logs_ok_removeRecord)

interpretation logs_pass: retention_rule digest now logs_ok for digest now
  by unfold_locales (auto simp: logs_ok_removeRecord logs_ok_erase intro: logs_ok_cong)

lemma logs_ok_AppendRunEvent:
  assumes "logs_ok s" "ev_Seq event < max_int64"
  shows "logs_ok (snd (AppendRunEvent e run event bound now s))"
proof -
  let ?rows = "run_log run s" and ?ev = "event\<lparr>ev_WrittenAt := now\<rparr>"
  have "log_ok (append_rows ?rows ?ev n)" if "1 \<le> ev_Seq event" "\<not> hasTerminal ?rows"
    "List.find (\<lambda>row. ev_Seq row = ev_Seq event) ?rows = None" for n
    using assms that by (intro log_ok_append_rows) (auto simp: logs_ok_def find_None_iff)
  with assms(1) show ?thesis
    by (auto simp: AppendRunEvent_def Let_def logs_ok_def run_log_def [of _ s] split: option.splits)
qed

lemma logs_ok_take_over: "logs_ok s \<Longrightarrow> logs_ok (snd (take_over taker env now k r s))"
  by (auto simp: take_over_def Let_def logs_ok_def log_ok_lost_event run_log_def map_simps)

lemma logs_ok_reap_loop: "logs_ok s \<Longrightarrow> logs_ok (snd (reap_loop taker env only now m s))"
proof (induction m arbitrary: s)
  case (Cons e m)
  obtain k r where e: "e = (k, r)" by (cases e)
  show ?case
    using Cons.IH [of "snd (take_over taker env now k r s)"] Cons.IH [of s] Cons.prems
    by (simp add: e reap_loop_Cons logs_ok_take_over del: reap_loop.simps)
qed simp

lemma step_logs_ok:
  assumes "erasable digest s \<and> logs_ok s" "mint_ok digest op s"
  shows "erasable digest (store_step cd digest op s) \<and> logs_ok (store_step cd digest op s)"
proof -
  have ix: "indexed s" using assms(1) erasable_indexed by blast
  consider "is_append op" | "is_reap op" | e now limit where "op = OpRetention e now limit" | org where "op = OpDeleteForTest org"
    | "keeps_records op" "\<not> is_append op" "\<not> is_reap op" by (cases op) auto
  then have "logs_ok (store_step cd digest op s)"
  proof cases
    case 3
    with logs_pass.sweep_retained [of digest s e now limit] assms show ?thesis by (simp add: mint_ok_def)
  next
    case 4
    with assms ix show ?thesis by (simp add: DeleteSubmissionsForTest_eq logs_ok_remove_fold)
  next
    case 5
    with assms step_logs [OF 5, where cd = cd and digest = digest and s = s] show ?thesis by (auto intro: logs_ok_cong)
  qed (use assms in \<open>auto simp: is_append_def is_reap_def mint_ok_def logs_ok_AppendRunEvent ReapLostRuns_snd logs_ok_reap_loop\<close>)
  with step_erasable [of digest s op cd] assms show ?thesis by blast
qed

interpretation logs: invariant_machine "store_step cd digest" "mint_ok digest" "\<lambda>s. erasable digest s \<and> logs_ok s" for cd digest
  by unfold_locales (rule step_logs_ok)

lemma logs_ok_NewStore: "logs_ok (WithUnthreadedRecordRetention b NewStore)"
  by (simp add: logs_ok_def run_log_def lookup_or_def NewStore_def WithUnthreadedRecordRetention_def)

lemma reachable_logs:
  assumes "ok_run (store_step cd digest) (mint_ok digest) ops (WithUnthreadedRecordRetention b NewStore)"
  shows "log_ok (run_log run (run_ops (store_step cd digest) ops (WithUnthreadedRecordRetention b NewStore)))"
  using logs.run_inv [OF _ assms] logs_ok_NewStore by (simp add: logs_ok_def)

text \<open>A run that emits two events and its terminal row.\<close>

definition ex_event :: "int \<Rightarrow> run_terminal option \<Rightarrow> run_event" where
  "ex_event seq t = \<lparr>ev_Seq = seq, ev_Type = ''stage'', ev_LastStageStarted = ''plan'', ev_Data = ''{}'', ev_Terminal = t, ev_WrittenAt = 0\<rparr>"

abbreviation ex_run :: run_key where
  "ex_run \<equiv> \<lparr>rk_OrgID = ''org-1'', rk_ReservedResultID = ''res-0001''\<rparr>"

definition ex_logged :: "(unit, bool) store_op list" where
  "ex_logged =
    [OpAdmit False (ex_admission ''sub-0001'' ''res-0001'' '''') Hour,
     OpAppend False ex_run (ex_event 1 None) 0 Hour, OpAppend False ex_run (ex_event 2 None) 0 Hour,
     OpAppend False ex_run (ex_event 3 (Some \<lparr>te_Kind = RunTerminalUnsaved, te_ResultID = '''', te_Error = None\<rparr>)) 0 Hour]"

lemma ex_logged_ok: "ok_run ex_step (mint_ok ex_digest) ex_logged ex_start"
proof -
  have "\<not> IsErasedReservedResultID ''res-0001''" by code_simp
  moreover have "reservation_of ex_start ''org-1'' (ErasedReservedResultID ex_digest ''res-0001'') = None" by code_simp
  ultimately show ?thesis
    by (simp add: ex_logged_def mint_ok_def ex_admission_def ex_key_def ex_event_def max_int64_def del: store_step.simps)
qed

text \<open>
  C27: in every reachable state the event log of every run is strictly ordered by sequence
  number, starts at one or later, and holds at most one terminal row. The run satisfies \<open>mint_ok\<close>: fresh reserved ids,
  an injective digest, event numbers below the largest \<^verbatim>\<open>int64\<close>.
\<close>

theorem event_log_is_ordered:
  assumes "ok_run (store_step cd digest) (mint_ok digest) ops (WithUnthreadedRecordRetention b NewStore)"
    and "rows = run_log run (run_ops (store_step cd digest) ops (WithUnthreadedRecordRetention b NewStore))"
  shows "sorted_wrt (\<lambda>a b. ev_Seq a < ev_Seq b) rows \<and> length (filter is_terminal rows) \<le> 1 \<and> (\<forall>row\<in>set rows. 1 \<le> ev_Seq row)"
  using reachable_logs [OF assms(1), of run] assms(2) by (simp add: log_ok_def)

theorem event_log_is_ordered_witness:
  "\<exists>rows. rows = run_log ex_run (run_ops ex_step ex_logged ex_start) \<and> map ev_Seq rows = [1, 2, 3] \<and>
     length (filter is_terminal rows) \<le> 1"
proof -
  have "map ev_Seq (run_log ex_run (run_ops ex_step ex_logged ex_start)) = [1, 2, 3]" by code_simp
  then show ?thesis
    using event_log_is_ordered [OF ex_logged_ok refl, of ex_run, THEN conjunct2, THEN conjunct1] by (intro exI conjI) simp_all
qed

text \<open>
  The terminal row ends a log. Once a run has its terminal row no later step that removes no
  record changes its log; an append after it writes nothing and reports \<^verbatim>\<open>appended = false\<close>
  for a terminal row and a sequence error for any other valid row.
\<close>

theorem terminal_row_ends_the_log:
  assumes "ok_run (store_step cd digest) (mint_ok digest) before (WithUnthreadedRecordRetention b NewStore)"
    and "s = run_ops (store_step cd digest) before (WithUnthreadedRecordRetention b NewStore)"
    and "hasTerminal (run_log run s)" "list_all keeps_records ops" "s' = run_ops (store_step cd digest) ops s"
  shows "run_log run s' = run_log run s \<and>
    snd (AppendRunEvent e run event bound now s') = s' \<and>
    (\<not> e \<and> 1 \<le> ev_Seq event \<and> terminal_valid event \<and> recordOfRunLocked run s' \<noteq> None \<and> ev_Terminal event = None \<longrightarrow>
       fst (AppendRunEvent e run event bound now s') = Inl ErrRunEventSeq)"
proof -
  have ix: "indexed s" using reachable_indexed [OF assms(1)] assms(2) by (simp add: erasable_indexed)
  then have "grows s s'" using run_grows assms(4,5) by blast
  then have log: "run_log run s' = run_log run s" using assms(3) by (simp add: grows_def)
  then have "hasTerminal (run_log run s')" using assms(3) by simp
  then have "snd (AppendRunEvent e run event bound now s') = s'"
    "\<not> e \<and> 1 \<le> ev_Seq event \<and> terminal_valid event \<and> recordOfRunLocked run s' \<noteq> None \<and> ev_Terminal event = None \<Longrightarrow>
       fst (AppendRunEvent e run event bound now s') = Inl ErrRunEventSeq"
    by (auto simp: AppendRunEvent_def Let_def is_terminal_def split: option.splits)
  with log show ?thesis by blast
qed

theorem terminal_row_ends_the_log_witness:
  "fst (AppendRunEvent False ex_run (ex_event 4 None) 0 (2 * Hour) (run_ops ex_step ex_logged ex_start)) = Inl ErrRunEventSeq \<and>
   snd (AppendRunEvent False ex_run (ex_event 4 None) 0 (2 * Hour) (run_ops ex_step ex_logged ex_start)) = run_ops ex_step ex_logged ex_start"
proof -
  let ?s = "run_ops ex_step ex_logged ex_start"
  have t: "hasTerminal (run_log ex_run ?s)" "recordOfRunLocked ex_run ?s \<noteq> None" "1 \<le> ev_Seq (ex_event 4 None)"
    "terminal_valid (ex_event 4 None)" "ev_Terminal (ex_event 4 None) = None" by code_simp+
  have "list_all keeps_records ([] :: (unit, bool) store_op list)" by simp
  from terminal_row_ends_the_log [OF ex_logged_ok refl t(1) this refl, of False "ex_event 4 None" 0 "2 * Hour"] t
  show ?thesis by simp
qed

section \<open>Reading the log page by page\<close>

lemma take_filter_split:
  assumes "sorted_wrt (\<lambda>a b. ev_Seq a < ev_Seq b) rows" "take n rows \<noteq> []"
  shows "rows = take n rows @ filter (\<lambda>row. ev_Seq (last (take n rows)) < ev_Seq row) rows"
proof -
  let ?l = "last (take n rows)"
  have split: "sorted_wrt (\<lambda>a b. ev_Seq a < ev_Seq b) (take n rows @ drop n rows)" using assms(1) by simp
  have "?l \<in> set (take n rows)" using assms(2) by simp
  then have "\<forall>x\<in>set (drop n rows). ev_Seq ?l < ev_Seq x" using split by (auto simp only: sorted_wrt_append)
  moreover have "\<forall>x\<in>set (take n rows). \<not> ev_Seq ?l < ev_Seq x"
  proof -
    obtain ys y where "take n rows = ys @ [y]" using assms(2) by (cases "take n rows" rule: rev_cases) auto
    with split show ?thesis by (auto simp: sorted_wrt_append)
  qed
  ultimately have "filter (\<lambda>row. ev_Seq ?l < ev_Seq row) (take n rows @ drop n rows) = drop n rows"
    by (simp only: filter_append) (auto simp: filter_empty_conv filter_id_conv)
  then show ?thesis by simp
qed

text \<open>
  Pages continue each other. Reading a run's log after a cursor gives the first rows after
  it, and the rows after the page's last sequence number are exactly the rest: an attach that
  follows the pages sees every row once and in order.
\<close>

theorem event_pages_continue:
  assumes "ok_run (store_step cd digest) (mint_ok digest) ops (WithUnthreadedRecordRetention b NewStore)"
    and "s = run_ops (store_step cd digest) ops (WithUnthreadedRecordRetention b NewStore)"
    and "ReadRunEvents False run cursor limit s = Inr page" "rp_Events page \<noteq> []"
  shows "filter (\<lambda>row. cursor < ev_Seq row) (run_log run s) =
    rp_Events page @ filter (\<lambda>row. ev_Seq (last (rp_Events page)) < ev_Seq row) (run_log run s)"
proof -
  let ?rows = "filter (\<lambda>row. cursor < ev_Seq row) (run_log run s)"
  obtain n where n: "rp_Events page = take n ?rows"
    using assms(3) by (auto simp: ReadRunEvents_def Let_def split: option.splits prod.splits)
  have sorted: "sorted_wrt (\<lambda>a b. ev_Seq a < ev_Seq b) ?rows"
    using reachable_logs [OF assms(1), of run] assms(2) by (simp add: log_ok_def sorted_wrt_filter)
  have "last (take n ?rows) \<in> set ?rows" using assms(4) n by (metis in_set_takeD last_in_set)
  then have c: "cursor < ev_Seq (last (take n ?rows))" by simp
  have "?rows = take n ?rows @ filter (\<lambda>row. ev_Seq (last (take n ?rows)) < ev_Seq row) ?rows"
    by (rule take_filter_split [OF sorted]) (use assms(4) n in simp)
  moreover have "filter (\<lambda>row. ev_Seq (last (take n ?rows)) < ev_Seq row) ?rows =
    filter (\<lambda>row. ev_Seq (last (take n ?rows)) < ev_Seq row) (run_log run s)"
    unfolding filter_filter by (rule filter_cong) (use c in auto)
  ultimately show ?thesis using n by metis
qed

theorem event_pages_continue_witness:
  "\<exists>page. ReadRunEvents False ex_run 0 2 (run_ops ex_step ex_logged ex_start) = Inr page \<and> map ev_Seq (rp_Events page) = [1, 2] \<and>
     filter (\<lambda>row. 0 < ev_Seq row) (run_log ex_run (run_ops ex_step ex_logged ex_start)) =
       rp_Events page @ filter (\<lambda>row. ev_Seq (last (rp_Events page)) < ev_Seq row) (run_log ex_run (run_ops ex_step ex_logged ex_start))"
proof -
  let ?R = "ReadRunEvents False ex_run 0 2 (run_ops ex_step ex_logged ex_start)"
  have "map_sum (\<lambda>_. ()) (\<lambda>page. map ev_Seq (rp_Events page)) ?R = Inr [1, 2]" by code_simp
  then obtain page where p: "?R = Inr page" "map ev_Seq (rp_Events page) = [1, 2]" by (cases ?R) auto
  then have "rp_Events page \<noteq> []" by auto
  from p event_pages_continue [OF ex_logged_ok refl p(1) this] show ?thesis by (intro exI [of _ page] conjI)
qed

section \<open>Leases\<close>

lemma reap_loop_runs:
  "wf_map m \<Longrightarrow> map lr_Run (fst (reap_loop taker env only now m s)) =
    map (\<lambda>(k, r). RunKeyOf r) (filter (\<lambda>(k, r). lost only now k r s) m)"
proof (induction m arbitrary: s)
  case (Cons e m)
  obtain k r where e: "e = (k, r)" by (cases e)
  have l: "lr_Run (fst (take_over taker env now k r s)) = RunKeyOf r" by (simp add: take_over_def Let_def)
  have "filter (\<lambda>(k, r). lost only now k r (snd (take_over taker env now k' r' s))) m = filter (\<lambda>(k, r). lost only now k r s) m" for k' r'
    by (rule filter_cong) (auto simp: lost_cong [OF take_over_fields(2)])
  with Cons show ?case by (simp add: e reap_loop_Cons l del: reap_loop.simps)
qed simp

lemma recordOfRun_indexed:
  "indexed s \<Longrightarrow> record_at s k = Some r \<Longrightarrow> recordOfRunLocked (RunKeyOf r) s = Some (k, r)"
  using indexed_reserved [of s k r] indexed_key [of s k r] by (simp add: recordOfRunLocked_def RunKeyOf_def)

lemma ReapLostRuns_taken:
  assumes "indexed s" "ReapLostRuns e taker only env now s = (Inr ls, s')" "l \<in> set ls"
  obtains k r where "record_at s k = Some r" "lost only now k r s" "lr_Run l = RunKeyOf r" "record_at s' k = Some (taken taker now r)"
proof -
  have ok: "\<not> e" "taker \<noteq> ''''" and ls: "ls = fst (reap_loop taker env only now (st_submissions s) s)"
    using assms(2) by (auto simp: ReapLostRuns_def split: if_splits prod.splits)
  have "lr_Run l \<in> set (map lr_Run ls)" using assms(3) by simp
  then obtain k r where kr: "(k, r) \<in> set (st_submissions s)" "lost only now k r s" "lr_Run l = RunKeyOf r"
    unfolding ls reap_loop_runs [OF indexed_wf [OF assms(1)]] by auto
  then have at: "record_at s k = Some r" using wf_map_mem [OF indexed_wf [OF assms(1)]] by (simp add: record_at_def)
  have "record_at s' k = Some (taken taker now r)"
    using ReapLostRuns_records [OF assms(1) ok, of only env now k] assms(2) at kr(2) by simp
  with that at kr show thesis by blast
qed

lemma abandoned_lease:
  assumes "indexed s" "record_at s k = Some r" "sr_State r \<noteq> SubmissionRunning" "CheckRunLease e (RunKeyOf r) holder until s = (res, s')"
  shows "s' = s \<and> (\<forall>check. res = Inr check \<longrightarrow> \<not> rl_Renewed check \<and> \<not> check_Held holder check)"
  using assms(3,4) recordOfRun_indexed [OF assms(1,2)]
  by (auto simp: CheckRunLease_def Let_def check_Held_def split: if_splits)

text \<open>
  C26: a lost run is taken over exactly once. A takeover only takes running records under a lease
  that has ended and whose reserved result is not stored; after it, as long as no record is removed, no
  holder can renew or hold the lease of that run again and no later takeover takes it.
\<close>

theorem lost_run_is_taken_once:
  assumes "ok_run (store_step cd digest) (mint_ok digest) before (WithUnthreadedRecordRetention b NewStore)"
    and "s = run_ops (store_step cd digest) before (WithUnthreadedRecordRetention b NewStore)"
    and "ReapLostRuns e taker only env now s = (Inr ls, s1)" "l \<in> set ls"
    and "list_all keeps_records ops" "s2 = run_ops (store_step cd digest) ops s1"
  shows "(\<exists>k r. record_at s k = Some r \<and> lr_Run l = RunKeyOf r \<and> sr_State r = SubmissionRunning \<and> Leased r \<and>
      sr_LeaseExpiresAt r \<le> now \<and> \<not> ownedByLocked (sr_ReservedResultID r) k s) \<and>
    (\<forall>e' holder until res s3. CheckRunLease e' (lr_Run l) holder until s2 = (res, s3) \<longrightarrow>
       s3 = s2 \<and> (\<forall>check. res = Inr check \<longrightarrow> \<not> rl_Renewed check \<and> \<not> check_Held holder check)) \<and>
    (\<forall>e' taker' only' env' now' ls' s3. ReapLostRuns e' taker' only' env' now' s2 = (Inr ls', s3) \<longrightarrow>
       lr_Run l \<notin> lr_Run ` set ls')"
proof -
  have ix: "indexed s" using reachable_indexed [OF assms(1)] assms(2) by (simp add: erasable_indexed)
  have s1: "s1 = store_step cd digest (OpReap e taker only env now) s" using assms(3) by simp
  have ix1: "indexed s1" unfolding s1 by (rule step_indexed_keeps [OF ix]) simp
  have ix2: "indexed s2" using run_indexed [OF ix1 assms(5)] assms(6) by simp
  obtain k r where kr: "record_at s k = Some r" "lost only now k r s" "lr_Run l = RunKeyOf r" "record_at s1 k = Some (taken taker now r)"
    by (rule ReapLostRuns_taken [OF ix assms(3,4)])
  obtain r2 where r2: "record_at s2 k = Some r2" "evolves (taken taker now r) r2"
    using growsD(1) [OF run_grows [OF ix1 assms(5)] kr(4)] assms(6) by blast
  have run: "RunKeyOf r2 = lr_Run l" and over: "sr_State r2 \<noteq> SubmissionRunning"
    using r2(2) kr(3) by (auto simp: evolves_def taken_def RunKeyOf_def)
  have "lr_Run l \<notin> lr_Run ` set ls'" if R: "ReapLostRuns e' taker' only' env' now' s2 = (Inr ls', s3)" for e' taker' only' env' now' ls' s3
  proof
    assume "lr_Run l \<in> lr_Run ` set ls'"
    then obtain l' where l': "l' \<in> set ls'" "lr_Run l' = lr_Run l" by auto
    obtain k' r' where k': "record_at s2 k' = Some r'" "lost only' now' k' r' s2" "lr_Run l' = RunKeyOf r'"
      by (rule ReapLostRuns_taken [OF ix2 R l'(1)])
    have "recordOfRunLocked (lr_Run l) s2 = Some (k', r')" "recordOfRunLocked (lr_Run l) s2 = Some (k, r2)"
      using recordOfRun_indexed [OF ix2] k' r2(1) l'(2) run by metis+
    then have "r' = r2" by simp
    with k'(2) over show False by (simp add: lost_def)
  qed
  moreover have "sr_State r = SubmissionRunning \<and> Leased r \<and> sr_LeaseExpiresAt r \<le> now \<and> \<not> ownedByLocked (sr_ReservedResultID r) k s"
    using kr(2) by (auto simp: lost_def not_less)
  moreover note abandoned_lease [OF ix2 r2(1) over, unfolded run]
  ultimately show ?thesis using kr(1,3) by blast
qed

theorem lost_run_is_taken_once_witness:
  "\<exists>ls s1 l. ReapLostRuns False ''replica-2'' None (\<lambda>_. ''lost'') (Hour + Minute) ex_admitted = (Inr ls, s1) \<and> l \<in> set ls \<and>
     lr_Run l = ex_run \<and> (\<forall>res s3. CheckRunLease False ex_run ''replica-1'' (2 * Hour) s1 = (res, s3) \<longrightarrow> s3 = s1)"
proof -
  let ?R = "ReapLostRuns False ''replica-2'' None (\<lambda>_. ''lost'') (Hour + Minute) ex_admitted"
  have "map_sum (\<lambda>_. ()) (map lr_Run) (fst ?R) = Inr [ex_run]" by code_simp
  then obtain ls where "fst ?R = Inr ls" "map lr_Run ls = [ex_run]" by (cases "fst ?R") auto
  then obtain l where R: "?R = (Inr ls, snd ?R)" and l: "l \<in> set ls" "lr_Run l = ex_run" by (cases ls) (auto simp: prod_eq_iff)
  let ?ops = "[OpAdmit False (ex_admission ''sub-0001'' ''res-0001'' '''') Hour]"
  have ok: "ok_run ex_step (mint_ok ex_digest) ?ops ex_start" using ex_logged_ok by (simp add: ex_logged_def del: store_step.simps)
  have s: "ex_admitted = run_ops ex_step ?ops ex_start" by (simp add: ex_admitted_def)
  have "list_all keeps_records ([] :: (unit, bool) store_op list)" by simp
  note t = lost_run_is_taken_once [OF ok s R l(1) this refl, THEN conjunct2, THEN conjunct1]
  have "s3 = snd ?R" if "CheckRunLease False ex_run ''replica-1'' (2 * Hour) (snd ?R) = (res, s3)" for res s3
    using t that l(2) by (metis run_ops.simps(1))
  with R l show ?thesis by blast
qed

text \<open>
  A renewed lease is safe. When the holder's renewal succeeds, no takeover before the renewed
  end touches the run: the record is the same after it, and the holder still holds the lease.
\<close>

theorem renewed_lease_is_safe:
  assumes "ok_run (store_step cd digest) (mint_ok digest) before (WithUnthreadedRecordRetention b NewStore)"
    and "s = run_ops (store_step cd digest) before (WithUnthreadedRecordRetention b NewStore)"
    and "CheckRunLease False run holder until s = (Inr check, s1)" "rl_Renewed check"
    and "now < until" "ReapLostRuns e taker only env now s1 = (res, s2)"
  shows "\<exists>k r. recordOfRunLocked run s1 = Some (k, r) \<and> until \<le> sr_LeaseExpiresAt r \<and> record_at s2 k = Some r \<and>
    (\<exists>check'. CheckRunLease False run holder 0 s2 = (Inr check', s2) \<and> check_Held holder check')"
proof -
  have ix: "indexed s" using reachable_indexed [OF assms(1)] assms(2) by (simp add: erasable_indexed)
  have s1: "s1 = store_step cd digest (OpCheckLease False run holder until) s" using assms(3) by simp
  have ix1: "indexed s1" unfolding s1 by (rule step_indexed_keeps [OF ix]) simp
  have s2: "s2 = store_step cd digest (OpReap e taker only env now) s1" using assms(6) by simp
  have ix2: "indexed s2" unfolding s2 by (rule step_indexed_keeps [OF ix1]) simp
  obtain k r0 where k0: "recordOfRunLocked run s = Some (k, r0)" "sr_State r0 = SubmissionRunning" "sr_LeaseHolder r0 = holder" "holder \<noteq> ''''"
    and s1': "s1 = (if sr_LeaseExpiresAt r0 < until then put_record k (r0\<lparr>sr_LeaseExpiresAt := until\<rparr>) s else s)"
    using assms(3,4) by (auto simp: CheckRunLease_def Let_def check_Held_def split: option.splits if_splits)
  let ?r = "if sr_LeaseExpiresAt r0 < until then r0\<lparr>sr_LeaseExpiresAt := until\<rparr> else r0"
  have at1: "record_at s1 k = Some ?r" using recordOfRunLocked_Some [OF k0(1)] by (simp add: s1')
  have run: "RunKeyOf ?r = run"
    using k0(1) ix recordOfRunLocked_Some [OF k0(1)] by (auto simp: recordOfRunLocked_def RunKeyOf_def split: option.splits
        elim!: indexed_reservationE)
  have at2: "record_at s2 k = Some ?r"
  proof (cases "e \<or> taker = ''''")
    case True
    then have "s2 = s1" using assms(6) ReapLostRuns_snd [of e taker only env now s1] by simp
    with at1 show ?thesis by simp
  next
    case False
    have "\<not> lost only now k ?r s1" using assms(5) by (auto simp: lost_def)
    then show ?thesis using ReapLostRuns_records [OF ix1, of e taker only env now k] False at1 assms(6) by simp
  qed
  have "until \<le> sr_LeaseExpiresAt ?r" by simp
  moreover have "recordOfRunLocked run s1 = Some (k, ?r)" "recordOfRunLocked run s2 = Some (k, ?r)"
    using recordOfRun_indexed [OF ix1 at1] recordOfRun_indexed [OF ix2 at2] run by simp_all
  moreover have "\<exists>check'. CheckRunLease False run holder 0 s2 = (Inr check', s2) \<and> check_Held holder check'"
    using \<open>recordOfRunLocked run s2 = Some (k, ?r)\<close> k0(2-4) by (auto simp: CheckRunLease_def Let_def check_Held_def IsZero_def)
  ultimately show ?thesis using at2 by blast
qed

theorem renewed_lease_is_safe_witness:
  "\<exists>check s1 res s2. CheckRunLease False ex_run ''replica-1'' (2 * Hour) ex_admitted = (Inr check, s1) \<and>
     ReapLostRuns False ''replica-2'' None (\<lambda>_. ''lost'') (Hour + Minute) s1 = (res, s2) \<and>
     (\<exists>check'. CheckRunLease False ex_run ''replica-1'' 0 s2 = (Inr check', s2) \<and> check_Held ''replica-1'' check')"
proof -
  let ?C = "CheckRunLease False ex_run ''replica-1'' (2 * Hour) ex_admitted"
  have "map_sum (\<lambda>_. ()) rl_Renewed (fst ?C) = Inr True" by code_simp
  then obtain check where "fst ?C = Inr check" and c: "rl_Renewed check" by (cases "fst ?C") auto
  then have C: "?C = (Inr check, snd ?C)" by (simp add: prod_eq_iff)
  obtain res s2 where R: "ReapLostRuns False ''replica-2'' None (\<lambda>_. ''lost'') (Hour + Minute) (snd ?C) = (res, s2)" by fastforce
  let ?ops = "[OpAdmit False (ex_admission ''sub-0001'' ''res-0001'' '''') Hour]"
  have ok: "ok_run ex_step (mint_ok ex_digest) ?ops ex_start" using ex_logged_ok by (simp add: ex_logged_def del: store_step.simps)
  have s: "ex_admitted = run_ops ex_step ?ops ex_start" by (simp add: ex_admitted_def)
  have "Hour + Minute < 2 * Hour" by (simp add: duration_simps)
  from renewed_lease_is_safe [OF ok s C c this R] C R show ?thesis by blast
qed

section \<open>The sequence numbers a log accepts\<close>

text \<open>
  The in-memory log does not require the next sequence number. Appending event 5 to an empty
  log and then event 2 succeeds both times and leaves the log with events 2 and 5, although
  neither row took the next number.
\<close>

theorem append_accepts_gaps:
  "let s1 = AppendRunEvent False ex_run (ex_event 5 None) 0 Hour ex_admitted;
       s2 = AppendRunEvent False ex_run (ex_event 2 None) 0 Hour (snd s1)
   in fst s1 = Inr True \<and> fst s2 = Inr True \<and> map ev_Seq (run_log ex_run (snd s2)) = [2, 5]"
  by code_simp

end
