(* ===== verification/Retention_Properties.thy ===== *)
theory Retention_Properties
  imports Run_Properties
begin

text \<open>
  Deleting and forgetting: a deleted conversation is gone for its owner at once, and the
  retention pass spares what can still be read or saved.
\<close>

section \<open>The thread table\<close>

definition threads_keyed :: "store \<Rightarrow> bool" where
  "threads_keyed s \<longleftrightarrow> wf_map (st_threads s) \<and> (\<forall>row t. map_of (st_threads s) row = Some t \<longrightarrow> row = rowKeyOf (tr_Key t))"

lemma threads_keyed_cong: "threads_keyed s \<Longrightarrow> st_threads s' = st_threads s \<Longrightarrow> threads_keyed s'"
  by (simp add: threads_keyed_def)

lemma threads_keyed_put:
  "threads_keyed s \<Longrightarrow> st_threads s' = put (rowKeyOf (tr_Key t)) t (st_threads s) \<Longrightarrow> threads_keyed s'"
  by (auto simp: threads_keyed_def AList.update_conv' split: if_splits)

lemma threads_keyed_del: "threads_keyed s \<Longrightarrow> threads_keyed (s\<lparr>st_threads := del row (st_threads s)\<rparr>)"
  by (auto simp: threads_keyed_def AList.delete_conv' split: if_splits)

interpretation threads_pass: retention_rule digest now threads_keyed for digest now
  by unfold_locales
    (auto simp: threads_keyed_del removeRecordLocked_fields erase_record_fields intro: threads_keyed_cong)

lemma AdvanceThread_key: "tr_Key (AdvanceThread thread key turn ret) = (case thread of None \<Rightarrow> key | Some t \<Rightarrow> tr_Key t)"
  by (auto simp: AdvanceThread_def Let_def split: option.splits)

lemma threads_keyed_admit_write:
  assumes "threads_keyed s"
  shows "threads_keyed (snd (admit_write a t now s))"
proof (cases "adm_ThreadID a = ''''")
  case True
  then have "st_threads (snd (admit_write a t now s)) = st_threads s" by (simp add: admit_write_def Let_def)
  with assms show ?thesis by (rule threads_keyed_cong)
next
  case False
  let ?key = "case t of Some t \<Rightarrow> tr_Key t | None \<Rightarrow> \<lparr>tk_OrgID = sk_OrgID (adm_Key a), tk_Owner = sk_Owner (adm_Key a), tk_ThreadID = adm_ThreadID a\<rparr>"
  let ?t = "AdvanceThread t ?key (ThreadTurnCursor now (sk_SubmissionID (adm_Key a))) (adm_ThreadRetention a)"
  have "tr_Key ?t = ?key" by (simp add: AdvanceThread_key split: option.splits)
  with False have "st_threads (snd (admit_write a t now s)) = put (rowKeyOf (tr_Key ?t)) ?t (st_threads s)"
    by (simp add: admit_write_def Let_def)
  with assms show ?thesis by (rule threads_keyed_put)
qed

lemma same_threads:
  "st_threads (snd (GetSubmission e key now s)) = st_threads s"
  "st_threads (snd (FinishSubmission e key served now s)) = st_threads s"
  "st_threads (snd (AbandonSubmission e key now s)) = st_threads s"
  "st_threads (snd (SweepSubmissions e now s)) = st_threads s"
  "st_threads (snd (MarkSubmissionUnsaved e p rid now s)) = st_threads s"
  "st_threads (snd (CheckRunLease e run holder until s)) = st_threads s"
  "st_threads (cancel_section key now s) = st_threads s"
  "st_threads (snd (AppendRunEvent e run event bound now s)) = st_threads s"
  "st_threads (snd (GetThread e tkey before limit now s)) = st_threads s"
  "st_threads (snd (SetResultFeedback e p rid c u now s)) = st_threads s"
  by (auto simp: GetSubmission_def reconcile_at_def FinishSubmission_def AbandonSubmission_def SweepSubmissions_def
      MarkSubmissionUnsaved_def CheckRunLease_def cancel_section_def AppendRunEvent_def GetThread_def SetResultFeedback_def Let_def
      split: option.splits prod.splits)

lemma same_threads_Save: "st_threads (snd (Save cd e ctx now p result parent sem s)) = st_threads s"
proof -
  obtain err s' where S: "Save cd e ctx now p result parent sem s = (err, s')" by fastforce
  from S show ?thesis
  proof (cases rule: Save_cases)
    case (stored orgID rid payload column)
    have "st_threads s' = st_threads s"
      by (simp add: stored(11) save_fresh_form [OF stored(9,10)] completeSubmissionLocked_fields)
    with S show ?thesis by simp
  qed (use S in simp)
qed

lemma same_threads_reap: "st_threads (snd (reap_loop taker env only now m s)) = st_threads s"
proof (induction m arbitrary: s)
  case (Cons e m)
  obtain k r where e: "e = (k, r)" by (cases e)
  show ?case
    using Cons.IH [of "if lost only now k r s then snd (take_over taker env now k r s) else s"]
    by (auto simp: e reap_loop_Cons take_over_def Let_def simp del: reap_loop.simps)
qed simp

lemma find_thread_mem:
  "find_thread_loop org owner tid m best = Some t \<Longrightarrow> best = Some t \<or> (\<exists>row. (row, t) \<in> set m)"
  by (induction org owner tid m best rule: find_thread_loop.induct) (auto split: option.splits if_splits)

lemma findThread_row:
  assumes "threads_keyed s" "findThreadLocked org owner tid s = Some t"
  shows "map_of (st_threads s) (rowKeyOf (tr_Key t)) = Some t"
proof -
  obtain row where "(row, t) \<in> set (st_threads s)"
    using find_thread_mem assms(2) unfolding findThreadLocked_def by fastforce
  then have "map_of (st_threads s) row = Some t" using assms(1) by (simp add: threads_keyed_def wf_map_mem)
  with assms(1) show ?thesis by (auto simp: threads_keyed_def)
qed

lemma CloseThread_cases:
  assumes "CloseThread e key now s = (res, s')"
  obtains (kept) "s' = s" "res \<noteq> Inr True"
  | (closed) t where "res = Inr True" "validThreadKey key" "findThreadLocked (tk_OrgID key) (tk_Owner key) (tk_ThreadID key) s = Some t"
      "\<not> thread_Closed now t"
      "s' = s\<lparr>st_threads := put (rowKeyOf (tr_Key t)) (t\<lparr>tr_ClosedAt := Some now\<rparr>) (st_threads s),
        st_submissions := map (\<lambda>(k, r). (k, if sr_ThreadID r = tk_ThreadID key \<and> recordThreadRow k r = rowKeyOf (tr_Key t)
          then r\<lparr>sr_Question := ''''\<rparr> else r)) (st_submissions s)\<rparr>"
proof -
  let ?find = "findThreadLocked (tk_OrgID key) (tk_Owner key) (tk_ThreadID key) s"
  consider "e" | "\<not> e" "\<not> validThreadKey key" | "\<not> e" "validThreadKey key" "?find = None"
    | t where "\<not> e" "validThreadKey key" "?find = Some t" "thread_Closed now t"
    | t where "\<not> e" "validThreadKey key" "?find = Some t" "\<not> thread_Closed now t"
    by (metis option.exhaust)
  then show thesis
  proof cases
    case (5 t)
    with assms closed [of t] show thesis by (simp add: CloseThread_def Let_def)
  qed (use assms kept in \<open>auto simp: CloseThread_def\<close>)
qed

lemma threads_keyed_CloseThread:
  assumes "threads_keyed s"
  shows "threads_keyed (snd (CloseThread e key now s))"
proof -
  obtain res s' where C: "CloseThread e key now s = (res, s')" by fastforce
  from C show ?thesis
  proof (cases rule: CloseThread_cases)
    case (closed t)
    have "st_threads s' = put (rowKeyOf (tr_Key (t\<lparr>tr_ClosedAt := Some now\<rparr>))) (t\<lparr>tr_ClosedAt := Some now\<rparr>) (st_threads s)"
      by (simp add: closed(5))
    from threads_keyed_put [OF assms this] C show ?thesis by simp
  qed (use C assms in simp)
qed

lemma remove_fold_threads: "st_threads (fold removeRecordLocked keys s) = st_threads s"
  by (rule st_threads_remove_fold)

lemma step_threads_keyed:
  assumes "erasable digest s \<and> threads_keyed s" "mint_ok digest op s"
  shows "erasable digest (store_step cd digest op s) \<and> threads_keyed (store_step cd digest op s)"
proof -
  have ix: "indexed s" using assms(1) erasable_indexed by blast
  have admit: "threads_keyed (snd (AdmitSubmission e a now s))" for e a now
  proof -
    obtain res s' where A: "AdmitSubmission e a now s = (res, s')" by fastforce
    from A have "threads_keyed s'"
    proof (cases rule: AdmitSubmission_cases)
      case (replayed k r)
      have "st_threads s' = st_threads s" by (simp add: replayed(3) reconcile_at_def Let_def split: prod.splits)
      with assms(1) show ?thesis by (blast intro: threads_keyed_cong)
    qed (use assms(1) in \<open>auto simp: threads_keyed_admit_write\<close>)
    with A show ?thesis by simp
  qed
  have "threads_keyed (store_step cd digest op s)"
  proof (cases op)
    case (OpRetention e now limit)
    with threads_pass.sweep_retained [of digest s e now limit] assms show ?thesis by (simp add: mint_ok_def)
  next
    case (OpDeleteForTest org)
    with assms ix show ?thesis by (auto simp: DeleteSubmissionsForTest_eq remove_fold_threads intro: threads_keyed_cong)
  qed (use assms(1) admit in \<open>auto simp: same_threads same_threads_Save ReapLostRuns_snd same_threads_reap threads_keyed_CloseThread
      intro: threads_keyed_cong [of s]\<close>)
  with step_erasable [of digest s op cd] assms show ?thesis by blast
qed

interpretation thread_table: invariant_machine "store_step cd digest" "mint_ok digest" "\<lambda>s. erasable digest s \<and> threads_keyed s" for cd digest
  by unfold_locales (rule step_threads_keyed)

lemma reachable_threads:
  assumes "ok_run (store_step cd digest) (mint_ok digest) ops (WithUnthreadedRecordRetention b NewStore)"
  shows "threads_keyed (run_ops (store_step cd digest) ops (WithUnthreadedRecordRetention b NewStore))"
proof -
  have "threads_keyed (WithUnthreadedRecordRetention b NewStore)"
    by (simp add: threads_keyed_def NewStore_def WithUnthreadedRecordRetention_def)
  with thread_table.run_inv [OF _ assms] show ?thesis by simp
qed

section \<open>Deleting a conversation\<close>

definition close_row :: "thread_row_key \<Rightarrow> time \<Rightarrow> thread_record \<Rightarrow> thread_record" where
  "close_row row now t = (if rowKeyOf (tr_Key t) = row then t\<lparr>tr_ClosedAt := Some now\<rparr> else t)"

lemma close_row_prefers:
  "tr_Key (close_row row now a) = tr_Key a"
  "threadRowPreferred (close_row row now a) (close_row row now b) owner = threadRowPreferred a b owner"
  by (auto simp: close_row_def threadRowPreferred_def Let_def)

lemma find_close_row:
  "find_thread_loop org owner tid (map (\<lambda>(k, t). (k, close_row row now t)) m) (map_option (close_row row now) best) =
    map_option (close_row row now) (find_thread_loop org owner tid m best)"
proof (induction m arbitrary: best)
  case (Cons e m)
  obtain k t where e: "e = (k, t)" by (cases e)
  have "(case map_option (close_row row now) best of None \<Rightarrow> Some (close_row row now t)
      | Some b \<Rightarrow> if threadRowPreferred (close_row row now t) b owner then Some (close_row row now t) else map_option (close_row row now) best)
    = map_option (close_row row now) (case best of None \<Rightarrow> Some t | Some b \<Rightarrow> if threadRowPreferred t b owner then Some t else best)"
    by (auto simp: close_row_prefers split: option.splits)
  with Cons show ?case by (simp add: e close_row_prefers)
qed simp

lemma put_close_row:
  "wf_map m \<Longrightarrow> (\<And>k t. (k, t) \<in> set m \<Longrightarrow> k = rowKeyOf (tr_Key t)) \<Longrightarrow> map_of m row = Some t \<Longrightarrow>
    put row (t\<lparr>tr_ClosedAt := Some now\<rparr>) m = map (\<lambda>(k, t). (k, close_row row now t)) m"
proof (induction m)
  case (Cons e m)
  obtain k u where e: "e = (k, u)" by (cases e)
  have k: "k = rowKeyOf (tr_Key u)" using Cons.prems(2) e by simp
  show ?case
  proof (cases "k = row")
    case True
    have "close_row row now t' = t'" if "(k', t') \<in> set m" for k' t'
    proof -
      have "k' \<noteq> row" using that Cons.prems(1) e True by force
      moreover have "k' = rowKeyOf (tr_Key t')" using Cons.prems(2) that by simp
      ultimately show ?thesis by (simp add: close_row_def)
    qed
    then have "map (\<lambda>(k, t). (k, close_row row now t)) m = m" by (intro map_idI) auto
    moreover have "close_row row now u = u\<lparr>tr_ClosedAt := Some now\<rparr>" using True k by (simp only: close_row_def if_True refl)
    moreover have "u = t" using Cons.prems(3) True by (simp add: e)
    ultimately show ?thesis using True by (simp only: e list.map prod.case update.simps fst_conv if_True refl)
  next
    case False
    then have "close_row row now u = u" using k by (simp only: close_row_def if_False)
    moreover have "put row (t\<lparr>tr_ClosedAt := Some now\<rparr>) m = map (\<lambda>(k, t). (k, close_row row now t)) m"
      by (rule Cons.IH) (use Cons.prems e False in auto)
    ultimately show ?thesis using False by (simp only: e list.map prod.case update.simps fst_conv if_False)
  qed
qed simp

lemma closed_find:
  assumes "threads_keyed s" "findThreadLocked org owner tid s = Some t"
    "st_threads s' = put (rowKeyOf (tr_Key t)) (t\<lparr>tr_ClosedAt := Some now\<rparr>) (st_threads s)"
  shows "findThreadLocked org owner tid s' = Some (t\<lparr>tr_ClosedAt := Some now\<rparr>)"
proof -
  have "st_threads s' = map (\<lambda>(k, u). (k, close_row (rowKeyOf (tr_Key t)) now u)) (st_threads s)"
    unfolding assms(3)
  proof (rule put_close_row)
    show "wf_map (st_threads s)" using assms(1) by (simp add: threads_keyed_def)
    then show "k = rowKeyOf (tr_Key u)" if "(k, u) \<in> set (st_threads s)" for k u
      using assms(1) that unfolding threads_keyed_def by (metis wf_map_mem)
  qed (rule findThread_row [OF assms(1,2)])
  with find_close_row [of org owner tid "rowKeyOf (tr_Key t)" now "st_threads s" None] assms(2)
  show ?thesis by (simp add: findThreadLocked_def close_row_def)
qed

text \<open>
  A deleted conversation is gone for its owner at once. After \<^verbatim>\<open>CloseThread\<close> reports
  the deletion, the question of every submission of the conversation is erased, its records read
  as deleted at any time, the conversation cannot be read or deleted again, and a new submission
  to it is not admitted.
\<close>

theorem deleted_thread_is_gone:
  assumes "ok_run (store_step cd digest) (mint_ok digest) ops (WithUnthreadedRecordRetention b NewStore)"
    and "s = run_ops (store_step cd digest) ops (WithUnthreadedRecordRetention b NewStore)"
    and "CloseThread e key now s = (Inr True, s')"
  shows "\<exists>t. findThreadLocked (tk_OrgID key) (tk_Owner key) (tk_ThreadID key) s = Some t \<and>
    (\<forall>k r now'. record_at s' k = Some r \<and> sr_ThreadID r = tk_ThreadID key \<and> sr_ThreadID r \<noteq> '''' \<and>
       recordThreadRow k r = rowKeyOf (tr_Key t) \<longrightarrow>
         sr_Question r = '''' \<and> threadClosedLocked now' r s' = Some ThreadClosedDeleted) \<and>
    (\<forall>before limit now'. GetThread False key before limit now' s' = (Inl ErrThreadNotFound, s')) \<and>
    (\<forall>now'. CloseThread False key now' s' = (Inr False, s')) \<and>
    (\<forall>e' a now' r. sk_OrgID (adm_Key a) = tk_OrgID key \<and> sk_Owner (adm_Key a) = tk_Owner key \<and> adm_ThreadID a = tk_ThreadID key \<and>
       adm_ThreadID a \<noteq> '''' \<longrightarrow> fst (AdmitSubmission e' a now' s') \<noteq> Inr (r, True))"
  using assms(3)
proof (cases rule: CloseThread_cases)
  case (closed t)
  let ?row = "rowKeyOf (tr_Key t)" and ?t = "t\<lparr>tr_ClosedAt := Some now\<rparr>"
  have keyed: "threads_keyed s" using reachable_threads [OF assms(1)] assms(2) by simp
  have ix: "indexed s" using reachable_indexed [OF assms(1)] assms(2) by (simp add: erasable_indexed)
  have ix': "indexed s'" using step_indexed_keeps [OF ix, of "OpCloseThread e key now :: ('a, 'b) store_op" cd digest] assms(3) by simp
  have th: "st_threads s' = put ?row ?t (st_threads s)" by (simp add: closed(5))
  have find: "findThreadLocked (tk_OrgID key) (tk_Owner key) (tk_ThreadID key) s' = Some ?t" by (rule closed_find [OF keyed closed(3) th])
  have recs: "sr_Question r = '''' \<and> threadClosedLocked now' r s' = Some ThreadClosedDeleted"
    if r: "record_at s' k = Some r" "sr_ThreadID r = tk_ThreadID key" "sr_ThreadID r \<noteq> ''''" "recordThreadRow k r = ?row" for k r now'
  proof -
    obtain r0 where r0: "record_at s k = Some r0"
      "r = (if sr_ThreadID r0 = tk_ThreadID key \<and> recordThreadRow k r0 = ?row then r0\<lparr>sr_Question := ''''\<rparr> else r0)"
      using r(1) by (auto simp: record_at_def closed(5) map_of_map_val)
    have "sr_Question r = ''''"
    proof (cases "sr_ThreadID r0 = tk_ThreadID key \<and> recordThreadRow k r0 = ?row")
      case False
      then have "r = r0" using r0(2) by (simp only: if_False)
      with False r(2,4) show ?thesis by blast
    qed (simp add: r0(2))
    moreover have "threadClosedLocked now' r s' = Some ThreadClosedDeleted"
      using r(3,4) indexed_key [OF ix' r(1)] by (simp add: threadClosedLocked_def th AList.update_conv')
    ultimately show ?thesis ..
  qed
  have get: "GetThread False key before limit now' s' = (Inl ErrThreadNotFound, s')" for before limit now'
    using find by (simp add: GetThread_def thread_Closed_def)
  have close: "CloseThread False key now' s' = (Inr False, s')" for now'
    using find closed(2) by (simp add: CloseThread_def thread_Closed_def)
  have admit: "fst (AdmitSubmission e' a now' s') \<noteq> Inr (r, True)"
    if "sk_OrgID (adm_Key a) = tk_OrgID key" "sk_Owner (adm_Key a) = tk_Owner key" "adm_ThreadID a = tk_ThreadID key" "adm_ThreadID a \<noteq> ''''"
    for e' a now' r
  proof
    assume "fst (AdmitSubmission e' a now' s') = Inr (r, True)"
    then have "AdmitSubmission e' a now' s' = (Inr (r, True), snd (AdmitSubmission e' a now' s'))" by (simp add: prod_eq_iff)
    then show False
      by (cases rule: AdmitSubmission_cases) (use that find in \<open>auto simp: admission_thread_def thread_ClosedReason_def\<close>)
  qed
  from closed(3) recs get close admit show ?thesis by blast
qed simp

theorem deleted_thread_is_gone_witness:
  "\<exists>s'. CloseThread False \<lparr>tk_OrgID = ''org-1'', tk_Owner = ex_owner, tk_ThreadID = ''thr-0001''\<rparr> (2 * Hour)
       (run_ops ex_step (take 2 ex_erased_run) ex_start) = (Inr True, s') \<and>
     GetThread False \<lparr>tk_OrgID = ''org-1'', tk_Owner = ex_owner, tk_ThreadID = ''thr-0001''\<rparr> None 10 (2 * Hour) s' = (Inl ErrThreadNotFound, s')"
proof -
  let ?key = "\<lparr>tk_OrgID = ''org-1'', tk_Owner = ex_owner, tk_ThreadID = ''thr-0001''\<rparr>"
  let ?C = "CloseThread False ?key (2 * Hour) (run_ops ex_step (take 2 ex_erased_run) ex_start)"
  have "(case fst ?C of Inr x \<Rightarrow> x | Inl _ \<Rightarrow> False)" by code_simp
  then have C: "?C = (Inr True, snd ?C)" by (auto simp: prod_eq_iff split: sum.splits)
  have ok: "ok_run ex_step (mint_ok ex_digest) (take 2 ex_erased_run) ex_start"
    using ex_erased_run_ok by (simp add: ex_erased_run_def del: store_step.simps)
  have "GetThread False ?key None 10 (2 * Hour) (snd ?C) = (Inl ErrThreadNotFound, snd ?C)"
    using deleted_thread_is_gone [OF ok refl C] by blast
  with C show ?thesis by metis
qed

section \<open>The retention pass\<close>

text \<open>
  C16: the retention pass spares what is needed. A record whose conversation is still open, or
  whose run can still save, is the same after any pass and keeps its reservation, so its owner's
  save is not refused; and the results an open record names stay stored. The run satisfies \<open>mint_ok\<close>: fresh reserved ids,
  an injective digest, event numbers below the largest \<^verbatim>\<open>int64\<close>.
\<close>

theorem retention_spares_live_records:
  assumes "ok_run (store_step cd digest) (mint_ok digest) ops (WithUnthreadedRecordRetention b NewStore)" "inj digest"
    and "s = run_ops (store_step cd digest) ops (WithUnthreadedRecordRetention b NewStore)"
    and "s' = snd (SweepRetention digest e now limit s)"
    and "record_at s k = Some r" "threadClosedLocked now r s = None \<or> RetentionFenced r now"
  shows "record_at s' k = Some r \<and> reservation_of s' (sk_OrgID k) (sr_ReservedResultID r) = Some k \<and>
    (owner_Is (sk_Owner k) p \<longrightarrow> reservationHeldLocked p (sk_OrgID k) (sr_ReservedResultID r) s') \<and>
    (\<forall>rid en. threadClosedLocked now r s = None \<and> (rid = sr_ResultID r \<or> rid = sr_ReservedResultID r) \<and>
       map_of (st_results s) rid = Some en \<and> en_orgID en = sk_OrgID k \<longrightarrow> map_of (st_results s') rid = Some en)"
proof -
  have er: "erasable digest s" using reachable_indexed [OF assms(1)] assms(3) by simp
  have pass: "erasable digest s'" "kept_by_pass now s s'"
    using kept_pass.sweep_retained [OF assms(2) er kept_refl, of e now limit] assms(4) by simp_all
  have sp: "spared now s r" using assms(6) by (auto simp: spared_def)
  then have at': "record_at s' k = Some r" using pass(2) assms(5) unfolding kept_by_pass_def by blast
  have res': "reservation_of s' (sk_OrgID k) (sr_ReservedResultID r) = Some k"
    by (rule indexed_reserved [OF erasable_indexed [OF pass(1)] at'])
  moreover have "owner_Is (sk_Owner k) p \<longrightarrow> reservationHeldLocked p (sk_OrgID k) (sr_ReservedResultID r) s'"
    using res' at' indexed_key [OF erasable_indexed [OF pass(1)] at'] by (simp add: reservationHeldLocked_def)
  moreover have "map_of (st_results s') rid = Some en"
    if "threadClosedLocked now r s = None" "rid = sr_ResultID r \<or> rid = sr_ReservedResultID r"
      "map_of (st_results s) rid = Some en" "en_orgID en = sk_OrgID k" for rid en
  proof -
    have "names_result (sk_OrgID k) rid (k, r)" using that(2) by (auto simp: names_result_def)
    then show ?thesis using pass(2) assms(5) sp that unfolding kept_by_pass_def by blast
  qed
  ultimately show ?thesis using at' by blast
qed

text \<open>A running submission without a conversation, an hour after its deadline's start: still savable.\<close>

theorem retention_spares_live_records_witness:
  "\<exists>r. record_at ex_admitted (ex_key ''sub-0001'') = Some r \<and>
     record_at (snd (SweepRetention ex_digest False (2 * Hour) 0 ex_admitted)) (ex_key ''sub-0001'') = Some r"
proof -
  let ?ops = "[OpAdmit False (ex_admission ''sub-0001'' ''res-0001'' '''') Hour]"
  have ok: "ok_run ex_step (mint_ok ex_digest) ?ops ex_start" using ex_logged_ok by (simp add: ex_logged_def del: store_step.simps)
  have s: "ex_admitted = run_ops ex_step ?ops ex_start" by (simp add: ex_admitted_def)
  have "map_option (\<lambda>r. RetentionFenced r (2 * Hour)) (record_at ex_admitted (ex_key ''sub-0001'')) = Some True" by code_simp
  then obtain r where r: "record_at ex_admitted (ex_key ''sub-0001'') = Some r" "RetentionFenced r (2 * Hour)" by auto
  from retention_spares_live_records [OF ok inj_ex_digest s refl r(1) disjI2 [OF r(2)], of False 0 ex_principal] r(1)
  show ?thesis by blast
qed

end
