(* ===== verification/Go_Format.thy ===== *)
theory Go_Format
  imports Go_Text Go_Calendar
begin

text \<open>
  The parts of \<^verbatim>\<open>strconv\<close>, \<^verbatim>\<open>strings\<close>, \<^verbatim>\<open>time\<close> and \<^verbatim>\<open>net/url\<close> that the credential, OAuth and
  repository-scope code uses: decimal integers, \<^verbatim>\<open>strings.Split\<close> with a one-byte separator,
  \<^verbatim>\<open>CutPrefix\<close> and \<^verbatim>\<open>CutSuffix\<close>, the two time layouts, ASCII case folding, and a parsed URL with its
  \<^verbatim>\<open>Hostname\<close> and \<^verbatim>\<open>Port\<close> methods. \<^verbatim>\<open>url.Parse\<close> itself is an argument of the definitions that
  call it. The last section has the sum type for fallible code (\<open>Inl\<close> is the error).
\<close>

section \<open>Fallible results\<close>

definition and_then :: "'e + 'a \<Rightarrow> ('a \<Rightarrow> 'e + 'b) \<Rightarrow> 'e + 'b" where
  "and_then r f = (case r of Inl e \<Rightarrow> Inl e | Inr v \<Rightarrow> f v)"

lemma and_then_simps [simp]: "and_then (Inl e) f = Inl e" "and_then (Inr v) f = f v"
  by (simp_all add: and_then_def)

lemma and_then_Inr: "and_then r f = Inr b \<longleftrightarrow> (\<exists>a. r = Inr a \<and> f a = Inr b)"
  by (cases r) auto

definition check_that :: "bool \<Rightarrow> 'e \<Rightarrow> 'a \<Rightarrow> 'e + 'a" where
  "check_that ok e v = (if ok then Inr v else Inl e)"

lemma check_that_Inr [simp]: "check_that ok e v = Inr w \<longleftrightarrow> ok \<and> v = w"
  by (auto simp: check_that_def)

section \<open>Strings\<close>

definition split_step :: "char \<Rightarrow> char \<Rightarrow> string list \<Rightarrow> string list" where
  "split_step sep c parts =
    (case parts of [] \<Rightarrow> [[c]] | p # ps \<Rightarrow> if c = sep then [] # p # ps else (c # p) # ps)"

text \<open>\<^verbatim>\<open>strings.Split\<close> with a separator of one byte: the empty string has one empty part.\<close>

definition split_on :: "char \<Rightarrow> string \<Rightarrow> string list" where
  "split_on sep s = foldr (split_step sep) s [[]]"

definition has_suffix :: "string \<Rightarrow> string \<Rightarrow> bool" where
  "has_suffix s p \<longleftrightarrow> length p \<le> length s \<and> drop (length s - length p) s = p"

definition trim_suffix :: "string \<Rightarrow> string \<Rightarrow> string" where
  "trim_suffix s p = (if has_suffix s p then take (length s - length p) s else s)"

definition is_digit :: "char \<Rightarrow> bool" where
  "is_digit c \<longleftrightarrow> 48 \<le> byte_of c \<and> byte_of c \<le> 57"

definition is_lower :: "char \<Rightarrow> bool" where
  "is_lower c \<longleftrightarrow> 97 \<le> byte_of c \<and> byte_of c \<le> 122"

definition is_upper :: "char \<Rightarrow> bool" where
  "is_upper c \<longleftrightarrow> 65 \<le> byte_of c \<and> byte_of c \<le> 90"

definition is_alnum :: "char \<Rightarrow> bool" where
  "is_alnum c \<longleftrightarrow> is_lower c \<or> is_upper c \<or> is_digit c"

definition ascii_lower :: "char \<Rightarrow> char" where
  "ascii_lower c = (if is_upper c then char_of (byte_of c + 32) else c)"

fun nat_digits :: "nat \<Rightarrow> string" where
  "nat_digits n = (if n < 10 then [char_of (48 + n)] else nat_digits (n div 10) @ [char_of (48 + n mod 10)])"

declare nat_digits.simps [simp del]

definition itoa :: "int \<Rightarrow> string" where
  "itoa i = (if i < 0 then ''-'' @ nat_digits (nat (- i)) else nat_digits (nat i))"

definition pad_zero :: "nat \<Rightarrow> int \<Rightarrow> string" where
  "pad_zero w i = (let d = nat_digits (nat \<bar>i\<bar>)
     in (if i < 0 then ''-'' else []) @ replicate (w - length d) (CHR ''0'') @ d)"

text \<open>
  \<^verbatim>\<open>strings.ToLower\<close> on a repository scope. Two runes outside ASCII have an ASCII lower case, U+0130
  (to \<open>i\<close>) and U+212A (to \<open>k\<close>). Every other rune outside ASCII stays outside ASCII, where the scope
  grammar refuses it whatever it is; such runes are kept as they are.
\<close>

definition lower_seg :: "rune_seg \<Rightarrow> string" where
  "lower_seg g =
    (if seg_rune g = 304 then ''i'' else if seg_rune g = 8490 then ''k''
     else map (\<lambda>b. ascii_lower (char_of b)) (seg_bytes g))"

definition ToLower :: "string \<Rightarrow> string" where
  "ToLower s = concat (map lower_seg (runes_of s))"

section \<open>Times\<close>

definition month_of_day :: "int \<Rightarrow> int" where
  "month_of_day d = int (length (filter (\<lambda>s. s \<le> day_of_year d) (month_starts (year_of_day d))))"

definition day_of_month :: "int \<Rightarrow> int" where
  "day_of_month d = day_of_year d - last (filter (\<lambda>s. s \<le> day_of_year d) (month_starts (year_of_day d))) + 1"

definition clock_of :: "time \<Rightarrow> string" where
  "clock_of t = (let s = t mod Day div Second
     in pad_zero 2 (s div 3600) @ '':'' @ pad_zero 2 (s div 60 mod 60) @ '':'' @ pad_zero 2 (s mod 60))"

text \<open>The layout \<^verbatim>\<open>2006-01-02T15:04:05\<close> in UTC.\<close>

definition format_seconds :: "time \<Rightarrow> string" where
  "format_seconds t = (let d = t div Day
     in pad_zero 4 (year_of_day d) @ ''-'' @ pad_zero 2 (month_of_day d) @ ''-'' @ pad_zero 2 (day_of_month d)
        @ ''T'' @ clock_of t)"

text \<open>\<^verbatim>\<open>time.RFC3339\<close> of a UTC time, and the fraction \<^verbatim>\<open>.999999\<close>, which drops trailing zeros.\<close>

definition format_rfc3339 :: "time \<Rightarrow> string" where
  "format_rfc3339 t = format_seconds t @ ''Z''"

definition fraction_micros :: "time \<Rightarrow> string" where
  "fraction_micros t =
    (let ds = rev (dropWhile (\<lambda>c. c = CHR ''0'') (rev (pad_zero 6 (t mod Second div Microsecond))))
     in if ds = [] then [] else CHR ''.'' # ds)"

section \<open>URLs\<close>

text \<open>What \<^verbatim>\<open>url.Parse\<close> returns, as far as the code reads it; \<open>u_User\<close> says whether user info is present.\<close>

record url =
  u_Scheme :: string
  u_Opaque :: string
  u_User :: bool
  u_Host :: string
  u_Path :: string
  u_RawQuery :: string
  u_ForceQuery :: bool
  u_Fragment :: string

type_synonym url_parser = "string \<Rightarrow> url option"

definition url_IsAbs :: "url \<Rightarrow> bool" where
  "url_IsAbs u \<longleftrightarrow> u_Scheme u \<noteq> ''''"

text \<open>The text after the last colon, when it is a port (digits only, perhaps none).\<close>

definition port_digits :: "string \<Rightarrow> string" where
  "port_digits host = rev (takeWhile is_digit (rev host))"

definition has_port :: "string \<Rightarrow> bool" where
  "has_port host \<longleftrightarrow> has_suffix host (CHR '':'' # port_digits host)"

definition url_Port :: "url \<Rightarrow> string" where
  "url_Port u = (if has_port (u_Host u) then port_digits (u_Host u) else '''')"

definition unbracket :: "string \<Rightarrow> string" where
  "unbracket h = (if has_prefix h ''['' \<and> has_suffix h '']'' then butlast (tl h) else h)"

definition url_Hostname :: "url \<Rightarrow> string" where
  "url_Hostname u =
    unbracket (if has_port (u_Host u) then trim_suffix (u_Host u) (CHR '':'' # port_digits (u_Host u)) else u_Host u)"

lemma has_suffix_iff: "has_suffix s p \<longleftrightarrow> (\<exists>r. s = r @ p)"
proof
  assume "has_suffix s p"
  then have "s = take (length s - length p) s @ p" unfolding has_suffix_def by (metis append_take_drop_id)
  then show "\<exists>r. s = r @ p" by blast
qed (auto simp: has_suffix_def)

lemma trim_suffix_append [simp]: "trim_suffix (r @ p) p = r"
  by (auto simp: trim_suffix_def has_suffix_iff)

lemma has_prefix_iff: "has_prefix s p \<longleftrightarrow> (\<exists>r. s = p @ r)"
  unfolding has_prefix_def by (metis append_take_drop_id append_eq_conv_conj)

lemma byte_of_inject [simp]: "byte_of a = byte_of b \<longleftrightarrow> a = b"
  by (simp add: byte_of_def)

lemma byte_of_char_of: "0 \<le> n \<Longrightarrow> n < 256 \<Longrightarrow> byte_of (char_of n) = n"
  by (simp add: byte_of_def of_char_of)

lemma byte_of_nat: "byte_of c = int (of_char c)"
  unfolding byte_of_def by (rule of_nat_of_char [symmetric])

lemma byte_of_bounds: "0 \<le> byte_of c" "byte_of c < 256"
  by (simp_all only: byte_of_nat of_nat_0_le_iff) (use nat_of_char_less_256 [of c] in simp)

lemma is_lower_ascii_lower: "is_upper c \<Longrightarrow> is_lower (ascii_lower c)"
  using byte_of_bounds [of c] by (simp add: ascii_lower_def is_lower_def is_upper_def byte_of_char_of)

lemma ascii_lower_idem [simp]: "ascii_lower (ascii_lower c) = ascii_lower c"
proof (cases "is_upper c")
  case True
  then have "is_lower (ascii_lower c)" by (rule is_lower_ascii_lower)
  then have "\<not> is_upper (ascii_lower c)" by (simp add: is_lower_def is_upper_def)
  then show ?thesis by (simp add: ascii_lower_def)
qed (simp add: ascii_lower_def)

end
