(* ===== verification/Repo_Slug.thy ===== *)
theory Repo_Slug
  imports Go_Format
begin

text \<open>
  \<^verbatim>\<open>src/internal/reposlug/reposlug.go\<close>: the grammar of owner and repository names, of repository
  keys and of repository scopes. The anchored patterns of the source are written out as conditions on
  the length, the first, the last and all characters.
\<close>

definition slug_alnum :: "char \<Rightarrow> bool" where
  "slug_alnum c \<longleftrightarrow> is_lower c \<or> is_digit c"

definition slug_char :: "char \<Rightarrow> bool" where
  "slug_char c \<longleftrightarrow> slug_alnum c \<or> c = CHR ''.'' \<or> c = CHR ''_'' \<or> c = CHR ''-''"

text \<open>\<^verbatim>\<open>^[a-z0-9](?:[a-z0-9._-]{0,98}[a-z0-9])?$\<close>\<close>

definition ValidOwner :: "string \<Rightarrow> bool" where
  "ValidOwner part \<longleftrightarrow> part \<noteq> [] \<and> length part \<le> 100 \<and> slug_alnum (hd part) \<and> slug_alnum (last part)
     \<and> list_all slug_char part"

text \<open>\<^verbatim>\<open>^([a-z0-9]|[a-z0-9.][a-z0-9._-]{0,98}[a-z0-9])$\<close>\<close>

definition ValidName :: "string \<Rightarrow> bool" where
  "ValidName part \<longleftrightarrow> part \<noteq> [] \<and> length part \<le> 100 \<and> (slug_alnum (hd part) \<or> hd part = CHR ''.'')
     \<and> slug_alnum (last part) \<and> list_all slug_char part"

definition quoted :: "string \<Rightarrow> string" where
  "quoted s = [CHR 0x27] @ s @ [CHR 0x27]"

definition grammar_text :: string where
  "grammar_text = ''must start with a letter or digit (a leading '' @ quoted ''.'' @
     '' is allowed for a repository name), end with a letter or digit, and contain only letters, digits, '' @
     quoted ''.'' @ '', '' @ quoted ''_'' @ '' and '' @ quoted ''-''"

definition Fault :: "string \<Rightarrow> bool \<Rightarrow> string" where
  "Fault part owner =
    (if part = '''' then ''empty''
     else if \<not> owner \<and> (part = ''.'' \<or> part = ''..'') then ''reserved path name''
     else if 100 < length part then ''longer than 100 characters''
     else if owner \<and> ValidOwner part \<or> \<not> owner \<and> ValidName part then ''''
     else grammar_text)"

definition MaxSlugSegments :: nat where "MaxSlugSegments = 20"
definition MaxSlugBytes :: nat where "MaxSlugBytes = 255"

definition ValidSlug :: "string \<Rightarrow> bool" where
  "ValidSlug slug \<longleftrightarrow> length slug \<le> MaxSlugBytes \<and>
    (let parts = split_on (CHR ''/'') slug
     in 2 \<le> length parts \<and> length parts \<le> MaxSlugSegments \<and> list_all ValidOwner (butlast parts)
        \<and> ValidName (last parts))"

definition ValidScope :: "string \<Rightarrow> bool" where
  "ValidScope scope =
    (if scope = ''*'' then True
     else if has_suffix scope ''/*'' then ValidOwner (trim_suffix scope ''/*'')
     else ValidSlug scope)"

definition Lower :: "string \<Rightarrow> string" where
  "Lower s = map ascii_lower s"

definition ValidSlugFolded :: "string \<Rightarrow> bool" where
  "ValidSlugFolded slug = ValidSlug (Lower slug)"

section \<open>Facts\<close>

text \<open>The explanation agrees with the grammar: a part has no fault exactly when it is valid.\<close>

lemma Fault_none_iff: "Fault part owner = '''' \<longleftrightarrow> (if owner then ValidOwner part else ValidName part)"
proof -
  have "\<not> ValidName ''.''" "\<not> ValidName ''..''"
    by (simp_all add: ValidName_def slug_alnum_def is_lower_def is_digit_def byte_of_def)
  then show ?thesis by (auto simp: Fault_def grammar_text_def ValidOwner_def ValidName_def)
qed

lemma ValidOwner_ValidName: "ValidOwner part \<Longrightarrow> ValidName part"
  by (simp add: ValidOwner_def ValidName_def)

lemma ValidSlugFolded_Lower: "ValidSlugFolded (Lower s) = ValidSlugFolded s"
  by (simp add: ValidSlugFolded_def Lower_def o_def)

end
