(* ===== verification/Credential_Input.thy ===== *)
theory Credential_Input
  imports Repo_Slug
begin

text \<open>
  The inputs of the credential lifecycle and their normal forms:
  \<^verbatim>\<open>src/internal/storage/internal/credentiallifecycle/input.go\<close> and \<^verbatim>\<open>validation.go\<close>. Client classes,
  issuance provenances and scopes are string types in the source and stay strings. \<^verbatim>\<open>url.Parse\<close> and
  \<^verbatim>\<open>net.ParseIP\<close> are arguments. An error is a value of \<open>credential_error\<close>; \<open>ErrInvalidInput\<close>
  carries the field that \<^verbatim>\<open>invalid\<close> names.
\<close>

section \<open>Errors and inputs\<close>

datatype credential_error =
    ErrCanceled  \<comment> \<open>the context ended: \<^verbatim>\<open>ctx.Err()\<close>\<close>
  | ErrInvalidInput string
  | ErrInvalidEvent string
  | ErrRevisionConflict
  | ErrNotFound
  | ErrConflict
  | ErrUnknownEventType string
  | ErrInvalidAuditMetadata string

abbreviation IssuanceProvenanceDeviceAuthorization :: string where
  "IssuanceProvenanceDeviceAuthorization \<equiv> ''device_authorization''"
abbreviation IssuanceProvenanceWorkloadExchange :: string where
  "IssuanceProvenanceWorkloadExchange \<equiv> ''workload_exchange''"

abbreviation ClientClassBrowser :: string where "ClientClassBrowser \<equiv> ''browser''"
abbreviation ClientClassOAuthUser :: string where "ClientClassOAuthUser \<equiv> ''oauth_user''"
abbreviation ClientClassNativeDevice :: string where "ClientClassNativeDevice \<equiv> ''native_device''"
abbreviation ClientClassOrgBearer :: string where "ClientClassOrgBearer \<equiv> ''org_bearer''"
abbreviation ClientClassOperator :: string where "ClientClassOperator \<equiv> ''operator''"
abbreviation ClientClassWorkload :: string where "ClientClassWorkload \<equiv> ''workload''"

definition class_Valid :: "string \<Rightarrow> bool" where
  "class_Valid c \<longleftrightarrow> c \<in> {ClientClassBrowser, ClientClassOAuthUser, ClientClassNativeDevice,
     ClientClassOrgBearer, ClientClassOperator, ClientClassWorkload}"

definition UserApproved :: "string \<Rightarrow> bool" where
  "UserApproved c \<longleftrightarrow> c = ClientClassBrowser \<or> c = ClientClassOAuthUser \<or> c = ClientClassNativeDevice"

definition MaximumOverlap :: duration where "MaximumOverlap = 15 * Minute"

record create_input =
  ci_CredentialID :: string
  ci_OrgID :: string
  ci_Name :: string
  ci_TokenPrefix :: string
  ci_TokenHash :: string
  ci_RepositoryScopes :: "string list"
  ci_Scopes :: "string list"
  ci_ActorID :: string
  ci_ExpiresAt :: "time option"
  ci_IssuanceProvenance :: string
  ci_WorkloadBindingID :: string
  ci_Resource :: string
  ci_ClientID :: string
  ci_ApprovingUserID :: string
  ci_ClientClass :: string
  ci_SessionID :: string
  ci_FamilyID :: string
  ci_FamilyExpiresAt :: "time option"

record rotation_replacement =
  rr_CredentialID :: string
  rr_Name :: string
  rr_TokenPrefix :: string
  rr_TokenHash :: string
  rr_RepositoryScopes :: "string list"
  rr_Scopes :: "string list"
  rr_ExpiresAt :: "time option"
  rr_Overlap :: duration
  rr_Immediate :: bool

record rotation_input =
  ri_OrgID :: string
  ri_SourceCredentialID :: string
  ri_ActorID :: string
  ri_SelfCredential :: bool
  ri_Replacement :: rotation_replacement

record revocation_input =
  vi_OrgID :: string
  vi_CredentialID :: string
  vi_ActorID :: string
  vi_ActorType :: string
  vi_Reason :: string
  vi_SelfCredential :: bool

record rollback_input =
  bi_OrgID :: string
  bi_SourceCredentialID :: string
  bi_SuccessorCredentialID :: string
  bi_ActorID :: string
  bi_RollbackUntil :: time

section \<open>Single fields\<close>

text \<open>\<^verbatim>\<open>^[A-Za-z0-9][A-Za-z0-9._:-]{0,199}$\<close>\<close>

definition credential_id_ok :: "string \<Rightarrow> bool" where
  "credential_id_ok v \<longleftrightarrow> v \<noteq> [] \<and> length v \<le> 200 \<and> is_alnum (hd v)
     \<and> list_all (\<lambda>c. is_alnum c \<or> c \<in> {CHR ''.'', CHR ''_'', CHR '':'', CHR ''-''}) (tl v)"

text \<open>\<^verbatim>\<open>^[a-f0-9]{64}$\<close>\<close>

definition is_hex :: "char \<Rightarrow> bool" where
  "is_hex c \<longleftrightarrow> is_digit c \<or> 97 \<le> byte_of c \<and> byte_of c \<le> 102"

definition token_hash_ok :: "string \<Rightarrow> bool" where
  "token_hash_ok v \<longleftrightarrow> length v = 64 \<and> list_all is_hex v"

text \<open>\<^verbatim>\<open>^fcacr_[A-Za-z0-9_-]{6,64}$\<close>\<close>

definition ref_char :: "char \<Rightarrow> bool" where
  "ref_char c \<longleftrightarrow> is_alnum c \<or> c = CHR ''_'' \<or> c = CHR ''-''"

definition token_prefix_ok :: "string \<Rightarrow> bool" where
  "token_prefix_ok v \<longleftrightarrow> has_prefix v ''fcacr_'' \<and> 12 \<le> length v \<and> length v \<le> 70 \<and> list_all ref_char (drop 6 v)"

definition knownScopes :: "string list" where
  "knownScopes = [''context:read'', ''evidence:read'', ''episode:write'', ''data:read'',
     ''credential_lifecycle:read'', ''credential_lifecycle:revoke'']"

definition has_control :: "string \<Rightarrow> bool" where
  "has_control v \<longleftrightarrow> list_ex (is_control_rune \<circ> seg_rune) (runes_of v)"

definition normalizeText :: "string \<Rightarrow> string \<Rightarrow> nat \<Rightarrow> credential_error + string" where
  "normalizeText name value maximum =
    (let v = TrimSpace value
     in if v = '''' \<or> length v > maximum \<or> \<not> valid_string v \<or> has_control v then Inl (ErrInvalidInput name) else Inr v)"

definition normalizeOptionalText :: "string \<Rightarrow> string \<Rightarrow> nat \<Rightarrow> credential_error + string" where
  "normalizeOptionalText name value maximum =
    (if TrimSpace value = '''' then Inr '''' else normalizeText name value maximum)"

definition normalizeIdentifier :: "string \<Rightarrow> string \<Rightarrow> credential_error + string" where
  "normalizeIdentifier name value = normalizeText name value 200"

definition normalizeCredentialID :: "string \<Rightarrow> credential_error + string" where
  "normalizeCredentialID value =
    (let v = TrimSpace value in if credential_id_ok v then Inr v else Inl (ErrInvalidInput ''credential id''))"

definition normalizeTokenHash :: "string \<Rightarrow> credential_error + string" where
  "normalizeTokenHash value =
    (let v = TrimSpace value in if token_hash_ok v then Inr v else Inl (ErrInvalidInput ''token hash''))"

definition loopback_host :: "string \<Rightarrow> bool" where
  "loopback_host host \<longleftrightarrow> host = ''localhost'' \<or> host = ''127.0.0.1'' \<or> host = ''::1''"

definition normalizeResource :: "url_parser \<Rightarrow> string \<Rightarrow> credential_error + string" where
  "normalizeResource parse value =
    (let v = TrimSpace value
     in if v = '''' then Inr ''''
        else if length v > 2048 \<or> \<not> valid_string v \<or> has_control v then Inl (ErrInvalidInput ''resource'')
        else case parse v of
          None \<Rightarrow> Inl (ErrInvalidInput ''resource'')
        | Some u \<Rightarrow>
            if \<not> url_IsAbs u \<or> u_Host u = '''' \<or> u_Fragment u \<noteq> '''' \<or> u_User u \<or> u_Opaque u \<noteq> ''''
            then Inl (ErrInvalidInput ''resource'')
            else if u_Scheme u = ''https'' then Inr v
            else if u_Scheme u = ''http'' \<and> loopback_host (url_Hostname u) then Inr v
            else Inl (ErrInvalidInput ''resource''))"

fun repositories_loop :: "string list \<Rightarrow> string list \<Rightarrow> credential_error + string list" where
  "repositories_loop [] acc = Inr acc"
| "repositories_loop (raw # rest) acc =
    (let v = ToLower (TrimSpace raw)
     in if \<not> ValidScope v then Inl (ErrInvalidInput ''repository scope'')
        else repositories_loop rest (if v \<in> set acc then acc else acc @ [v]))"

definition normalizeRepositories :: "string list \<Rightarrow> credential_error + string list" where
  "normalizeRepositories values =
    (if values = [] then Inl (ErrInvalidInput ''repository scopes'')
     else and_then (repositories_loop values []) (\<lambda>result. Inr (sort result)))"

fun scopes_loop :: "string list \<Rightarrow> string list \<Rightarrow> credential_error + string list" where
  "scopes_loop [] acc = Inr acc"
| "scopes_loop (raw # rest) acc =
    (let v = TrimSpace raw
     in if v \<notin> set knownScopes then Inl (ErrInvalidInput ''scope'')
        else scopes_loop rest (if v \<in> set acc then acc else acc @ [v]))"

definition normalizeScopes :: "string list \<Rightarrow> credential_error + string list" where
  "normalizeScopes values =
    (if values = [] then Inl (ErrInvalidInput ''scopes'')
     else and_then (scopes_loop values []) (\<lambda>result. Inr (sort result)))"

definition normalizeExpiry :: "time option \<Rightarrow> credential_error + time option" where
  "normalizeExpiry value =
    (case value of None \<Rightarrow> Inr None
     | Some t \<Rightarrow> if IsZero t then Inl (ErrInvalidInput ''expiry'') else Inr (Some t))"

definition normalizeUsage :: "(string \<Rightarrow> bool) \<Rightarrow> string \<Rightarrow> string \<Rightarrow> credential_error + string \<times> string" where
  "normalizeUsage parse_ip ip userAgent =
    (let ip' = TrimSpace ip; ua = TrimSpace userAgent
     in if ip' \<noteq> '''' \<and> \<not> parse_ip ip' then Inl (ErrInvalidInput ''last-used ip'')
        else if length ua > 512 \<or> \<not> valid_string ua \<or> has_control ua then Inl (ErrInvalidInput ''last-used user agent'')
        else Inr (ip', ua))"

definition validOverlap :: "rotation_replacement \<Rightarrow> bool" where
  "validOverlap r \<longleftrightarrow> rr_Immediate r \<and> rr_Overlap r = 0
     \<or> \<not> rr_Immediate r \<and> rr_Overlap r > 0 \<and> rr_Overlap r \<le> MaximumOverlap"

section \<open>Whole inputs\<close>

definition deriveClientClass :: "create_input \<Rightarrow> credential_error + string" where
  "deriveClientClass i =
    (if ci_IssuanceProvenance i = ''''
     then if ci_ApprovingUserID i \<noteq> '''' then Inl (ErrInvalidInput ''approving user'')
          else if ci_ClientID i \<noteq> '''' then Inl (ErrInvalidInput ''client id'')
          else Inr ClientClassOrgBearer
     else if ci_IssuanceProvenance i = IssuanceProvenanceWorkloadExchange
     then if ci_ApprovingUserID i \<noteq> '''' then Inl (ErrInvalidInput ''approving user'')
          else if ci_ClientID i \<noteq> '''' then Inl (ErrInvalidInput ''client id'')
          else Inr ClientClassWorkload
     else if ci_IssuanceProvenance i = IssuanceProvenanceDeviceAuthorization
     then if ci_ApprovingUserID i = '''' then Inl (ErrInvalidInput ''approving user'')
          else if ci_Resource i = ''''
          then if ci_ClientID i \<noteq> '''' then Inl (ErrInvalidInput ''client id'') else Inr ClientClassNativeDevice
          else if ci_ClientID i = '''' then Inl (ErrInvalidInput ''client id'')
          else Inr ClientClassOAuthUser
     else Inl (ErrInvalidInput ''issuance provenance''))"

text \<open>The pairing of issuance provenance, workload binding and resource.\<close>

definition normalizeBinding :: "create_input \<Rightarrow> credential_error + string" where
  "normalizeBinding i =
    (if ci_IssuanceProvenance i = '''' \<or> ci_IssuanceProvenance i = IssuanceProvenanceDeviceAuthorization
     then if ci_WorkloadBindingID i \<noteq> '''' then Inl (ErrInvalidInput ''workload binding id'') else Inr (ci_WorkloadBindingID i)
     else if ci_IssuanceProvenance i = IssuanceProvenanceWorkloadExchange
     then and_then (normalizeText ''workload binding id'' (ci_WorkloadBindingID i) 200) (\<lambda>binding.
            if ci_Resource i \<noteq> '''' then Inl (ErrInvalidInput ''resource'') else Inr binding)
     else Inl (ErrInvalidInput ''issuance provenance''))"

text \<open>The fields one after the other, in the order of the source.\<close>

definition normalizeFields :: "url_parser \<Rightarrow> create_input \<Rightarrow> credential_error + create_input" where
  "normalizeFields parse i =
    and_then (normalizeCredentialID (ci_CredentialID i)) (\<lambda>credentialID.
    and_then (normalizeIdentifier ''organization'' (ci_OrgID i)) (\<lambda>orgID.
    and_then (normalizeText ''name'' (ci_Name i) 200) (\<lambda>name.
    and_then (check_that (token_prefix_ok (TrimSpace (ci_TokenPrefix i))) (ErrInvalidInput ''token prefix'')
      (TrimSpace (ci_TokenPrefix i))) (\<lambda>tokenPrefix.
    and_then (normalizeTokenHash (ci_TokenHash i)) (\<lambda>tokenHash.
    and_then (normalizeRepositories (ci_RepositoryScopes i)) (\<lambda>repositories.
    and_then (normalizeScopes (ci_Scopes i)) (\<lambda>scopes.
    and_then (normalizeText ''actor'' (ci_ActorID i) 200) (\<lambda>actor.
    and_then (normalizeExpiry (ci_ExpiresAt i)) (\<lambda>expiry.
    and_then (normalizeBinding i) (\<lambda>binding.
    and_then (normalizeResource parse (ci_Resource i)) (\<lambda>resource.
    and_then (normalizeOptionalText ''client id'' (ci_ClientID i) 2048) (\<lambda>client.
    and_then (normalizeOptionalText ''approving user'' (ci_ApprovingUserID i) 200) (\<lambda>approving.
    and_then (normalizeOptionalText ''session id'' (ci_SessionID i) 256) (\<lambda>session.
    and_then (normalizeOptionalText ''family id'' (ci_FamilyID i) 256) (\<lambda>family.
    Inr (i\<lparr>ci_CredentialID := credentialID, ci_OrgID := orgID, ci_Name := name, ci_TokenPrefix := tokenPrefix,
      ci_TokenHash := tokenHash, ci_RepositoryScopes := repositories, ci_Scopes := scopes, ci_ActorID := actor,
      ci_ExpiresAt := expiry, ci_WorkloadBindingID := binding, ci_Resource := resource, ci_ClientID := client,
      ci_ApprovingUserID := approving, ci_SessionID := session, ci_FamilyID := family\<rparr>))))))))))))))))"

text \<open>The class: what the path derives, or the browser class where the caller names it.\<close>

definition settle_class :: "create_input \<Rightarrow> credential_error + create_input" where
  "settle_class i =
    and_then (deriveClientClass i) (\<lambda>derived.
    and_then
      (if ci_ClientClass i = ClientClassBrowser \<and> derived = ClientClassOAuthUser
       then case (ci_FamilyExpiresAt i, ci_ExpiresAt i) of
           (Some fe, Some e) \<Rightarrow>
             if ci_ClientID i = '''' \<or> ci_SessionID i = '''' \<or> ci_FamilyID i = ''''
             then Inl (ErrInvalidInput ''browser credential'')
             else if fe < e then Inl (ErrInvalidInput ''family expiry'') else Inr ClientClassBrowser
         | _ \<Rightarrow> Inl (ErrInvalidInput ''browser credential'')
       else Inr derived) (\<lambda>class.
    if ci_ClientClass i \<noteq> '''' \<and> ci_ClientClass i \<noteq> class then Inl (ErrInvalidInput ''client class'')
    else if class \<noteq> ClientClassBrowser \<and> (ci_SessionID i \<noteq> '''' \<or> ci_FamilyID i \<noteq> '''' \<or> ci_FamilyExpiresAt i \<noteq> None)
    then Inl (ErrInvalidInput ''session or family'')
    else Inr (i\<lparr>ci_ClientClass := class\<rparr>)))"

definition normalizeCreate :: "url_parser \<Rightarrow> create_input \<Rightarrow> credential_error + create_input" where
  "normalizeCreate parse i = and_then (normalizeFields parse i) settle_class"

definition zero_create :: create_input where
  "zero_create = \<lparr>ci_CredentialID = '''', ci_OrgID = '''', ci_Name = '''', ci_TokenPrefix = '''', ci_TokenHash = '''',
     ci_RepositoryScopes = [], ci_Scopes = [], ci_ActorID = '''', ci_ExpiresAt = None, ci_IssuanceProvenance = '''',
     ci_WorkloadBindingID = '''', ci_Resource = '''', ci_ClientID = '''', ci_ApprovingUserID = '''', ci_ClientClass = '''',
     ci_SessionID = '''', ci_FamilyID = '''', ci_FamilyExpiresAt = None\<rparr>"

definition normalizeRotation :: "url_parser \<Rightarrow> rotation_input \<Rightarrow> credential_error + rotation_input" where
  "normalizeRotation parse i =
    and_then (normalizeIdentifier ''organization'' (ri_OrgID i)) (\<lambda>orgID.
    and_then (normalizeCredentialID (ri_SourceCredentialID i)) (\<lambda>source.
    and_then (normalizeText ''actor'' (ri_ActorID i) 200) (\<lambda>actor.
    if ri_SelfCredential i \<and> actor \<noteq> source then Inl (ErrInvalidInput ''self rotation actor'')
    else let r = ri_Replacement i in
    and_then (normalizeCreate parse (zero_create\<lparr>ci_CredentialID := rr_CredentialID r, ci_OrgID := orgID,
        ci_Name := rr_Name r, ci_TokenPrefix := rr_TokenPrefix r, ci_TokenHash := rr_TokenHash r,
        ci_RepositoryScopes := rr_RepositoryScopes r, ci_Scopes := rr_Scopes r, ci_ActorID := actor,
        ci_ExpiresAt := rr_ExpiresAt r\<rparr>)) (\<lambda>create.
    if ci_CredentialID create = source then Inl (ErrInvalidInput ''replacement credential id'')
    else if \<not> validOverlap r then Inl (ErrInvalidInput ''rotation overlap'')
    else Inr (i\<lparr>ri_OrgID := orgID, ri_SourceCredentialID := source, ri_ActorID := actor,
      ri_Replacement := \<lparr>rr_CredentialID = ci_CredentialID create, rr_Name = ci_Name create,
        rr_TokenPrefix = ci_TokenPrefix create, rr_TokenHash = ci_TokenHash create,
        rr_RepositoryScopes = ci_RepositoryScopes create, rr_Scopes = ci_Scopes create,
        rr_ExpiresAt = ci_ExpiresAt create, rr_Overlap = rr_Overlap r, rr_Immediate = rr_Immediate r\<rparr>\<rparr>)))))"

definition normalizeRevocation :: "revocation_input \<Rightarrow> credential_error + revocation_input" where
  "normalizeRevocation i =
    and_then (normalizeIdentifier ''organization'' (vi_OrgID i)) (\<lambda>orgID.
    and_then (normalizeCredentialID (vi_CredentialID i)) (\<lambda>credentialID.
    and_then (normalizeText ''actor'' (vi_ActorID i) 200) (\<lambda>actor.
    if vi_SelfCredential i \<and> actor \<noteq> credentialID then Inl (ErrInvalidInput ''self revocation actor'')
    else
    and_then (if TrimSpace (vi_Reason i) \<noteq> '''' then normalizeText ''reason'' (TrimSpace (vi_Reason i)) 500 else Inr '''') (\<lambda>reason.
    Inr (i\<lparr>vi_OrgID := orgID, vi_CredentialID := credentialID, vi_ActorID := actor, vi_Reason := reason,
      vi_ActorType := TrimSpace (vi_ActorType i)\<rparr>)))))"

definition normalizeRotationRollback :: "rollback_input \<Rightarrow> credential_error + rollback_input" where
  "normalizeRotationRollback i =
    and_then (normalizeIdentifier ''organization'' (bi_OrgID i)) (\<lambda>orgID.
    and_then (normalizeCredentialID (bi_SourceCredentialID i)) (\<lambda>source.
    and_then (case normalizeCredentialID (bi_SuccessorCredentialID i) of
        Inl _ \<Rightarrow> Inl (ErrInvalidInput ''rotation successor credential id'')
      | Inr successor \<Rightarrow> if source = successor then Inl (ErrInvalidInput ''rotation successor credential id'')
          else Inr successor) (\<lambda>successor.
    and_then (normalizeText ''actor'' (bi_ActorID i) 200) (\<lambda>actor.
    if IsZero (bi_RollbackUntil i) then Inl (ErrInvalidInput ''rotation rollback deadline'')
    else Inr (i\<lparr>bi_OrgID := orgID, bi_SourceCredentialID := source, bi_SuccessorCredentialID := successor,
      bi_ActorID := actor\<rparr>)))))"

end
