(* ===== verification/Credential_Events.thy ===== *)
theory Credential_Events
  imports Credential_Input
begin

text \<open>
  The credential lifecycle outbox: \<^verbatim>\<open>src/internal/storage/internal/credentiallifecycle/event.go\<close> and
  \<^verbatim>\<open>ledger.go\<close>, with the credential type of \<^verbatim>\<open>src/internal/contracts/v1/types.go\<close>. Event kinds and
  actor types, whose values are all constants of the package, are datatypes. The functions of code
  outside the repository come as the record \<open>libs\<close>: \<^verbatim>\<open>url.Parse\<close>, \<^verbatim>\<open>net.ParseIP\<close>, \<^verbatim>\<open>uuid.Parse\<close> (with
  \<^verbatim>\<open>String\<close>), the hexadecimal SHA-256 and \<^verbatim>\<open>json.Marshal\<close> of a wire event. A ledger function returns
  the error, if any, with the rows it leaves behind, since a failed append may leave rows for its
  caller to truncate.
\<close>

section \<open>Credentials\<close>

record credential_provenance =
  cp_ClientClass :: string
  cp_ApprovingUserID :: string
  cp_ClientID :: string
  cp_SessionID :: string
  cp_FamilyID :: string
  cp_FamilyExpiresAt :: "time option"

record client_credential =
  cc_SchemaVersion :: string
  cc_CredentialID :: string
  cc_Name :: string
  cc_TokenPrefix :: string
  cc_OrgID :: string
  cc_RepositoryScopes :: "string list"
  cc_Scopes :: "string list"
  cc_CreatedAt :: time
  cc_ExpiresAt :: "time option"
  cc_RevokedAt :: "time option"
  cc_LastUsedAt :: "time option"
  cc_WorkloadBindingID :: "string option"
  cc_Resource :: string
  cc_Provenance :: credential_provenance

section \<open>Events\<close>

datatype event_kind = KindIssued | KindDeviceRedeemed | KindRotated | KindRevoked | KindExpired

fun kind_string :: "event_kind \<Rightarrow> string" where
  "kind_string KindIssued = ''issued''"
| "kind_string KindDeviceRedeemed = ''device_redeemed''"
| "kind_string KindRotated = ''rotated''"
| "kind_string KindRevoked = ''revoked''"
| "kind_string KindExpired = ''expired''"

datatype actor_type = ActorUser | ActorOperator | ActorCredential | ActorSystem

fun actor_string :: "actor_type \<Rightarrow> string" where
  "actor_string ActorUser = ''user''"
| "actor_string ActorOperator = ''operator''"
| "actor_string ActorCredential = ''credential''"
| "actor_string ActorSystem = ''system''"

record actor =
  ac_Type :: actor_type
  ac_Ref :: string

record facts =
  fa_Kind :: event_kind
  fa_Credential :: client_credential
  fa_Revision :: int
  fa_ParentID :: string
  fa_At :: time
  fa_Actor :: actor

record outbox_row =
  ob_OrgID :: string
  ob_AggregateID :: string
  ob_Revision :: int
  ob_EventType :: string
  ob_Payload :: string
  ob_CreatedAt :: time

record wire_change =
  wc_Status :: string
  wc_AcrClass :: string
  wc_Scopes :: "string list"
  wc_OwnerSubject :: string
  wc_ExpiresAt :: string
  wc_RotationParentID :: string

record wire_payload =
  wp_Revision :: int
  wp_OrganizationID :: string
  wp_ActorType :: string
  wp_ActorRef :: string
  wp_Change :: wire_change

record wire_event =
  we_SchemaVersion :: string
  we_AggregateType :: string
  we_AggregateID :: string
  we_EventType :: string
  we_IdempotencyKey :: string
  we_CreatedAt :: string
  we_Payload :: wire_payload

record libs =
  url_Parse :: url_parser
  net_ParseIP :: "string \<Rightarrow> bool"
  uuid_Parse :: "string \<Rightarrow> string option"
  sha256_hex :: "string \<Rightarrow> string"
  json_Marshal :: "wire_event \<Rightarrow> string"

definition eventTypePrefix :: string where "eventTypePrefix = ''acr_credential.''"

definition event_type :: "event_kind \<Rightarrow> string" where
  "event_type k = eventTypePrefix @ kind_string k"

text \<open>\<^verbatim>\<open>^[A-Za-z0-9_-]{1,128}$\<close>, \<^verbatim>\<open>^[A-Za-z0-9_-]{1,64}$\<close> and \<^verbatim>\<open>^[a-z][a-z0-9_]*(:[a-z][a-z0-9_]*)+$\<close>\<close>

definition wire_ref_ok :: "string \<Rightarrow> bool" where
  "wire_ref_ok v \<longleftrightarrow> v \<noteq> [] \<and> length v \<le> 128 \<and> list_all ref_char v"

definition org_id_ok :: "string \<Rightarrow> bool" where
  "org_id_ok v \<longleftrightarrow> v \<noteq> [] \<and> length v \<le> 64 \<and> list_all ref_char v"

definition scope_part_ok :: "string \<Rightarrow> bool" where
  "scope_part_ok p \<longleftrightarrow> p \<noteq> [] \<and> is_lower (hd p) \<and> list_all (\<lambda>c. is_lower c \<or> is_digit c \<or> c = CHR ''_'') (tl p)"

definition scope_ok :: "string \<Rightarrow> bool" where
  "scope_ok v \<longleftrightarrow> (let ps = split_on (CHR '':'') v in 2 \<le> length ps \<and> list_all scope_part_ok ps)"

definition OrgWireID :: "libs \<Rightarrow> string \<Rightarrow> credential_error + string" where
  "OrgWireID lib orgID =
    (case (if length orgID = 36 then uuid_Parse lib orgID else None) of
       Some canonical \<Rightarrow> Inr (''org_'' @ canonical)
     | None \<Rightarrow> if \<not> org_id_ok orgID then Inl (ErrInvalidEvent ''organization id'') else Inr (''org_'' @ orgID))"

definition WireRef :: "libs \<Rightarrow> string \<Rightarrow> credential_error + string" where
  "WireRef lib value =
    (if value = '''' then Inl (ErrInvalidEvent ''empty reference'')
     else if wire_ref_ok value then Inr value
     else Inr (''sha256_'' @ sha256_hex lib value))"

definition ClassOf :: "client_credential \<Rightarrow> string" where
  "ClassOf c =
    (if class_Valid (cp_ClientClass (cc_Provenance c)) then cp_ClientClass (cc_Provenance c)
     else if cc_WorkloadBindingID c \<noteq> None \<and> cc_WorkloadBindingID c \<noteq> Some '''' then ClientClassWorkload
     else if cp_ApprovingUserID (cc_Provenance c) \<noteq> ''''
     then if cp_ClientID (cc_Provenance c) \<noteq> '''' \<or> cc_Resource c \<noteq> '''' then ClientClassOAuthUser else ClientClassNativeDevice
     else ClientClassOrgBearer)"

definition wireTime :: "time \<Rightarrow> string" where
  "wireTime t = (let u = t - t mod Microsecond in format_seconds u @ fraction_micros u @ ''Z'')"

definition actorRef :: "libs \<Rightarrow> facts \<Rightarrow> event_kind \<Rightarrow> credential_error + string" where
  "actorRef lib f kind =
    (case ac_Type (fa_Actor f) of
       ActorSystem \<Rightarrow> if ac_Ref (fa_Actor f) \<noteq> '''' then Inl (ErrInvalidEvent ''system actor reference'') else Inr ''''
     | ActorCredential \<Rightarrow>
         (case kind of KindRevoked \<Rightarrow> Inr (cc_CredentialID (fa_Credential f))
          | KindRotated \<Rightarrow> Inr (fa_ParentID f)
          | _ \<Rightarrow> Inl (ErrInvalidEvent (''credential actor on '' @ kind_string kind)))
     | ActorUser \<Rightarrow> WireRef lib (ac_Ref (fa_Actor f))
     | ActorOperator \<Rightarrow> WireRef lib (ac_Ref (fa_Actor f)))"

text \<open>The kind that is written and its revision.\<close>

definition row_kind :: "facts \<Rightarrow> credential_error + event_kind \<times> int" where
  "row_kind f =
    (let c = fa_Credential f; class = ClassOf c
     in case fa_Kind f of
          KindIssued \<Rightarrow> Inr (KindIssued, 1)
        | KindDeviceRedeemed \<Rightarrow>
            if class = ClientClassBrowser then Inr (KindIssued, 1)
            else if class \<noteq> ClientClassNativeDevice \<and> class \<noteq> ClientClassOAuthUser then Inl (ErrInvalidEvent ''device_redeemed class'')
            else Inr (KindDeviceRedeemed, 1)
        | KindRotated \<Rightarrow>
            if class = ClientClassBrowser then Inl (ErrInvalidEvent ''rotated browser credential'') else Inr (KindRotated, 1)
        | KindRevoked \<Rightarrow>
            if fa_Revision f < 2 then Inl (ErrInvalidEvent ''revoked revision'') else Inr (KindRevoked, fa_Revision f)
        | KindExpired \<Rightarrow>
            if fa_Revision f < 2 then Inl (ErrInvalidEvent ''expired revision'')
            else if ac_Type (fa_Actor f) \<noteq> ActorSystem \<or> cc_ExpiresAt c = None then Inl (ErrInvalidEvent ''expired actor or expiry'')
            else Inr (KindExpired, fa_Revision f))"

definition row_change :: "libs \<Rightarrow> facts \<Rightarrow> event_kind \<Rightarrow> credential_error + wire_change" where
  "row_change lib f kind =
    (let c = fa_Credential f;
         bare = \<lparr>wc_Status = ''revoked'', wc_AcrClass = '''', wc_Scopes = [], wc_OwnerSubject = '''', wc_ExpiresAt = '''',
                 wc_RotationParentID = ''''\<rparr>;
         expires = (case cc_ExpiresAt c of None \<Rightarrow> '''' | Some t \<Rightarrow> wireTime t);
         scopes = remdups_adj (sort (cc_Scopes c));
         approving = cp_ApprovingUserID (cc_Provenance c)
     in if kind = KindExpired then Inr (bare\<lparr>wc_Status := ''expired'', wc_ExpiresAt := expires\<rparr>)
        else if kind = KindRevoked then Inr bare
        else if scopes = [] \<or> length scopes > 64 then Inl (ErrInvalidEvent ''scopes'')
        else if \<not> list_all (\<lambda>s. length s \<le> 64 \<and> scope_ok s) scopes then Inl (ErrInvalidEvent ''scope'')
        else and_then (if approving \<noteq> '''' then WireRef lib approving else Inr '''') (\<lambda>subject.
          Inr \<lparr>wc_Status = ''active'', wc_AcrClass = ClassOf c, wc_Scopes = scopes, wc_OwnerSubject = subject,
               wc_ExpiresAt = expires, wc_RotationParentID = (if kind = KindRotated then fa_ParentID f else '''')\<rparr>))"

definition BuildRow :: "libs \<Rightarrow> facts \<Rightarrow> credential_error + outbox_row" where
  "BuildRow lib f =
    (let c = fa_Credential f
     in if IsZero (fa_At f) then Inl (ErrInvalidEvent ''time'')
        else and_then (OrgWireID lib (cc_OrgID c)) (\<lambda>org.
          if \<not> wire_ref_ok (cc_CredentialID c) then Inl (ErrInvalidEvent ''aggregate id'')
          else and_then (row_kind f) (\<lambda>(kind, revision).
          if kind = KindRotated \<and> \<not> wire_ref_ok (fa_ParentID f) then Inl (ErrInvalidEvent ''rotation parent'')
          else and_then (actorRef lib f kind) (\<lambda>ref.
          and_then (row_change lib f kind) (\<lambda>change.
          let event = \<lparr>we_SchemaVersion = ''acr-credential-lifecycle-event.v1'', we_AggregateType = ''acr_credential'',
                we_AggregateID = cc_CredentialID c, we_EventType = event_type kind,
                we_IdempotencyKey = ''acr_credential:'' @ cc_CredentialID c @ '':'' @ itoa revision,
                we_CreatedAt = wireTime (fa_At f),
                we_Payload = \<lparr>wp_Revision = revision, wp_OrganizationID = org, wp_ActorType = actor_string (ac_Type (fa_Actor f)),
                  wp_ActorRef = ref, wp_Change = change\<rparr>\<rparr>
          in Inr \<lparr>ob_OrgID = cc_OrgID c, ob_AggregateID = cc_CredentialID c, ob_Revision = revision,
               ob_EventType = event_type kind, ob_Payload = json_Marshal lib event, ob_CreatedAt = fa_At f\<rparr>)))))"

section \<open>The ledger\<close>

type_synonym ledger = "outbox_row list"

fun max_loop :: "string \<Rightarrow> ledger \<Rightarrow> int \<Rightarrow> int" where
  "max_loop aggregateID [] m = m"
| "max_loop aggregateID (row # rows) m =
    max_loop aggregateID rows (if ob_AggregateID row = aggregateID \<and> ob_Revision row > m then ob_Revision row else m)"

definition MaxRevision :: "string \<Rightarrow> ledger \<Rightarrow> int" where
  "MaxRevision aggregateID rows = max_loop aggregateID rows 0"

fun latest_loop :: "string \<Rightarrow> ledger \<Rightarrow> string \<times> int \<Rightarrow> string \<times> int" where
  "latest_loop aggregateID [] acc = acc"
| "latest_loop aggregateID (row # rows) acc =
    latest_loop aggregateID rows
      (if ob_AggregateID row = aggregateID \<and> ob_Revision row > snd acc then (ob_EventType row, ob_Revision row) else acc)"

definition LatestEventType :: "string \<Rightarrow> ledger \<Rightarrow> string" where
  "LatestEventType aggregateID rows = fst (latest_loop aggregateID rows ('''', 0))"

definition ledger_Insert :: "outbox_row \<Rightarrow> ledger \<Rightarrow> credential_error option \<times> ledger" where
  "ledger_Insert row rows =
    (if list_ex (\<lambda>existing. ob_AggregateID existing = ob_AggregateID row \<and> ob_Revision existing = ob_Revision row) rows
     then (Some ErrRevisionConflict, rows) else (None, rows @ [row]))"

definition TruncateTo :: "nat \<Rightarrow> 'a list \<Rightarrow> 'a list" where
  "TruncateTo n rows = (if n < length rows then take n rows else rows)"

definition insertFacts :: "libs \<Rightarrow> facts \<Rightarrow> ledger \<Rightarrow> credential_error option \<times> ledger" where
  "insertFacts lib f rows = (case BuildRow lib f of Inl e \<Rightarrow> (Some e, rows) | Inr row \<Rightarrow> ledger_Insert row rows)"

definition EnsureIssued :: "libs \<Rightarrow> client_credential \<Rightarrow> ledger \<Rightarrow> credential_error option \<times> ledger" where
  "EnsureIssued lib c rows =
    (if MaxRevision (cc_CredentialID c) rows > 0 then (None, rows)
     else insertFacts lib \<lparr>fa_Kind = KindIssued, fa_Credential = c, fa_Revision = 0, fa_ParentID = '''', fa_At = cc_CreatedAt c,
            fa_Actor = \<lparr>ac_Type = ActorSystem, ac_Ref = ''''\<rparr>\<rparr> rows)"

definition isTerminalEventType :: "string \<Rightarrow> bool" where
  "isTerminalEventType t \<longleftrightarrow> t = event_type KindRevoked \<or> t = event_type KindExpired"

definition ledger_Append :: "libs \<Rightarrow> facts \<Rightarrow> ledger \<Rightarrow> credential_error option \<times> ledger" where
  "ledger_Append lib f rows =
    (if fa_Kind f = KindRevoked \<or> fa_Kind f = KindExpired
     then case EnsureIssued lib (fa_Credential f) rows of
         (Some e, rows1) \<Rightarrow> (Some e, rows1)
       | (None, rows1) \<Rightarrow>
           if isTerminalEventType (LatestEventType (cc_CredentialID (fa_Credential f)) rows1) then (None, rows1)
           else insertFacts lib (f\<lparr>fa_Revision := MaxRevision (cc_CredentialID (fa_Credential f)) rows1 + 1\<rparr>) rows1
     else insertFacts lib f rows)"

definition StatusOfEventType :: "string \<Rightarrow> string option" where
  "StatusOfEventType t =
    (if t = event_type KindRevoked then Some ''revoked''
     else if t = event_type KindExpired then Some ''expired''
     else if t = event_type KindIssued \<or> t = event_type KindDeviceRedeemed \<or> t = event_type KindRotated then Some ''active''
     else None)"

section \<open>Kinds and actors of the mutations\<close>

definition CreateKind :: "create_input \<Rightarrow> event_kind" where
  "CreateKind i = (if ci_IssuanceProvenance i = IssuanceProvenanceDeviceAuthorization then KindDeviceRedeemed else KindIssued)"

definition system_actor :: actor where
  "system_actor = \<lparr>ac_Type = ActorSystem, ac_Ref = ''''\<rparr>"

definition CreateActor :: "create_input \<Rightarrow> actor" where
  "CreateActor i =
    (if ci_IssuanceProvenance i = IssuanceProvenanceWorkloadExchange then system_actor
     else if ci_IssuanceProvenance i = IssuanceProvenanceDeviceAuthorization \<and> ci_ApprovingUserID i \<noteq> ''''
       \<and> ci_ActorID i \<noteq> ci_ApprovingUserID i then system_actor
     else \<lparr>ac_Type = ActorUser, ac_Ref = ci_ActorID i\<rparr>)"

definition RotationActor :: "rotation_input \<Rightarrow> actor" where
  "RotationActor i =
    (if ri_SelfCredential i then \<lparr>ac_Type = ActorCredential, ac_Ref = ''''\<rparr> else \<lparr>ac_Type = ActorUser, ac_Ref = ri_ActorID i\<rparr>)"

definition RevocationActor :: "revocation_input \<Rightarrow> actor" where
  "RevocationActor i =
    (if vi_SelfCredential i then \<lparr>ac_Type = ActorCredential, ac_Ref = ''''\<rparr>
     else if vi_ActorType i = ''system'' then system_actor
     else if vi_ActorType i = ''operator'' then \<lparr>ac_Type = ActorOperator, ac_Ref = vi_ActorID i\<rparr>
     else \<lparr>ac_Type = ActorUser, ac_Ref = vi_ActorID i\<rparr>)"

definition RollbackActor :: "rollback_input \<Rightarrow> actor" where
  "RollbackActor i =
    (if bi_ActorID i = bi_SuccessorCredentialID i then \<lparr>ac_Type = ActorCredential, ac_Ref = ''''\<rparr>
     else \<lparr>ac_Type = ActorUser, ac_Ref = bi_ActorID i\<rparr>)"

definition FamilyMemberActor :: "actor \<Rightarrow> actor" where
  "FamilyMemberActor initiator = (if ac_Type initiator = ActorCredential then system_actor else initiator)"

end
