(* ===== verification/Credential_Store.thy ===== *)
theory Credential_Store
  imports Credential_Events
begin

text \<open>
  The in-memory credential store and its audit store: \<^verbatim>\<open>credentials.go\<close>, \<^verbatim>\<open>credentials_lifecycle.go\<close>,
  \<^verbatim>\<open>credentials_lifecycle_list.go\<close>, \<^verbatim>\<open>credential_values.go\<close> and \<^verbatim>\<open>audit.go\<close> under
  \<^verbatim>\<open>src/internal/storage/memory\<close>, behind the facade \<^verbatim>\<open>credentiallifecycle/lifecycle.go\<close>. One audit store is bound
  to one credential store, so they share a record. An operation takes an \<open>env\<close>: the outcomes of its
  successive \<^verbatim>\<open>ctx.Err()\<close> checks (check \<open>k\<close> is \<open>env_err e k\<close>, so the context may end at any of them) and
  the reading of the clock. Defensive copies are identities on values.
\<close>

section \<open>Audit events\<close>

text \<open>
  The values of audit metadata that the reflective copy of \<^verbatim>\<open>cloneMetadataValue\<close> tells apart. They are
  trees, so its check for a cyclic value has nothing to find here.
\<close>

datatype meta =
    MetaScalar string  \<comment> \<open>a boolean, number or string\<close>
  | MetaTime time
  | MetaNil
  | MetaPtr meta
  | MetaSlice "meta list"
  | MetaMap "(string \<times> meta) list"
  | MetaKeyedMap  \<comment> \<open>a map whose keys are not strings\<close>
  | MetaUnsupported  \<comment> \<open>a function, channel or other struct\<close>

record audit_event =
  ae_OrgID :: string
  ae_RepoID :: string
  ae_ActorType :: string
  ae_ActorID :: string
  ae_Action :: string
  ae_ResourceType :: string
  ae_ResourceID :: string
  ae_Status :: string
  ae_RequestID :: string
  ae_Metadata :: "(string \<times> meta) list option"
  ae_CreatedAt :: time

abbreviation AuditActionCredentialCreated :: string where "AuditActionCredentialCreated \<equiv> ''credential_created''"
abbreviation AuditActionCredentialRotated :: string where "AuditActionCredentialRotated \<equiv> ''credential_rotated''"
abbreviation AuditActionCredentialRevoked :: string where "AuditActionCredentialRevoked \<equiv> ''credential_revoked''"

definition IsCredentialLifecycleAuditAction :: "string \<Rightarrow> bool" where
  "IsCredentialLifecycleAuditAction action \<longleftrightarrow>
     action \<in> {AuditActionCredentialCreated, AuditActionCredentialRotated, AuditActionCredentialRevoked}"

fun cloneMetadataValue :: "meta \<Rightarrow> credential_error + meta"
  and clone_items :: "meta list \<Rightarrow> credential_error + meta list"
  and clone_entries :: "(string \<times> meta) list \<Rightarrow> credential_error + (string \<times> meta) list" where
  "cloneMetadataValue (MetaScalar s) = Inr (MetaScalar s)"
| "cloneMetadataValue (MetaTime t) = Inr (MetaTime t)"
| "cloneMetadataValue MetaNil = Inr MetaNil"
| "cloneMetadataValue (MetaPtr v) = and_then (cloneMetadataValue v) (\<lambda>w. Inr (MetaPtr w))"
| "cloneMetadataValue (MetaSlice vs) = and_then (clone_items vs) (\<lambda>ws. Inr (MetaSlice ws))"
| "cloneMetadataValue (MetaMap es) = and_then (clone_entries es) (\<lambda>fs. Inr (MetaMap fs))"
| "cloneMetadataValue MetaKeyedMap = Inl (ErrInvalidAuditMetadata ''map key must be string'')"
| "cloneMetadataValue MetaUnsupported = Inl (ErrInvalidAuditMetadata ''unsupported'')"
| "clone_items [] = Inr []"
| "clone_items (v # vs) = and_then (cloneMetadataValue v) (\<lambda>w. and_then (clone_items vs) (\<lambda>ws. Inr (w # ws)))"
| "clone_entries [] = Inr []"
| "clone_entries ((k, v) # es) = and_then (cloneMetadataValue v) (\<lambda>w. and_then (clone_entries es) (\<lambda>fs. Inr ((k, w) # fs)))"

definition cloneMetadata :: "(string \<times> meta) list option \<Rightarrow> credential_error + (string \<times> meta) list option" where
  "cloneMetadata value =
    (case value of None \<Rightarrow> Inr None | Some es \<Rightarrow> and_then (clone_entries es) (\<lambda>fs. Inr (Some fs)))"

definition recordLocked :: "audit_event \<Rightarrow> audit_event list \<Rightarrow> credential_error option \<times> audit_event list" where
  "recordLocked event events =
    (case cloneMetadata (ae_Metadata event) of
       Inl e \<Rightarrow> (Some e, events)
     | Inr m \<Rightarrow> (None, events @ [event\<lparr>ae_Metadata := m\<rparr>]))"

section \<open>The store\<close>

record credential_record =
  cr_Metadata :: client_credential
  cr_TokenHash :: string
  cr_CreatedBy :: string
  cr_RotatedAt :: "time option"
  cr_LastUsedIP :: string
  cr_LastUsedUserAgent :: string
  cr_IssuanceProvenance :: string

record credential_store =
  cs_byID :: "(string, credential_record) gomap"
  cs_byHash :: "(string, string) gomap"
  cs_events :: "audit_event list"
  cs_ledger :: ledger

definition newCredentialStore :: credential_store where
  "newCredentialStore = \<lparr>cs_byID = [], cs_byHash = [], cs_events = [], cs_ledger = []\<rparr>"

record env =
  env_err :: "nat \<Rightarrow> bool"
  env_now :: time

section \<open>Values\<close>

definition str_meta :: "string \<Rightarrow> string \<Rightarrow> (string \<times> meta) list" where
  "str_meta k v = (if v \<noteq> '''' then [(k, MetaScalar v)] else [])"

definition credentialCreatedEvent :: "credential_record \<Rightarrow> audit_event" where
  "credentialCreatedEvent r =
    (let c = cr_Metadata r; p = cc_Provenance c;
         metadata = [(''name'', MetaScalar (cc_Name c)), (''token_prefix'', MetaScalar (cc_TokenPrefix c)),
             (''repository_scopes'', MetaSlice (map MetaScalar (cc_RepositoryScopes c))),
             (''scopes'', MetaSlice (map MetaScalar (cc_Scopes c))),
             (''expires_at'', case cc_ExpiresAt c of None \<Rightarrow> MetaNil | Some t \<Rightarrow> MetaPtr (MetaTime t))]
           @ str_meta ''issuance_provenance'' (cr_IssuanceProvenance r)
           @ (case cc_WorkloadBindingID c of None \<Rightarrow> [] | Some b \<Rightarrow> [(''workload_binding_id'', MetaScalar b)])
           @ str_meta ''resource'' (cc_Resource c) @ str_meta ''client_class'' (cp_ClientClass p)
           @ str_meta ''approving_user_id'' (cp_ApprovingUserID p) @ str_meta ''client_id'' (cp_ClientID p)
           @ (case cp_FamilyExpiresAt p of
                Some t \<Rightarrow> if cp_FamilyID p \<noteq> ''''
                  then [(''family_id'', MetaScalar (cp_FamilyID p)), (''family_expires_at'', MetaScalar (format_rfc3339 t))] else []
              | None \<Rightarrow> [])
     in \<lparr>ae_OrgID = cc_OrgID c, ae_RepoID = '''', ae_ActorType = ''user'', ae_ActorID = cr_CreatedBy r,
         ae_Action = AuditActionCredentialCreated, ae_ResourceType = ''acr_credential'', ae_ResourceID = cc_CredentialID c,
         ae_Status = ''success'', ae_RequestID = '''', ae_Metadata = Some metadata, ae_CreatedAt = cc_CreatedAt c\<rparr>)"

definition credentialRotatedEvent ::
  "client_credential \<Rightarrow> client_credential \<Rightarrow> string \<Rightarrow> duration \<Rightarrow> time \<Rightarrow> audit_event" where
  "credentialRotatedEvent source replacement actorID overlap occurredAt =
    \<lparr>ae_OrgID = cc_OrgID source, ae_RepoID = '''', ae_ActorType = ''user'', ae_ActorID = actorID,
     ae_Action = AuditActionCredentialRotated, ae_ResourceType = ''acr_credential'', ae_ResourceID = cc_CredentialID source,
     ae_Status = ''success'', ae_RequestID = '''',
     ae_Metadata = Some [(''replacement_credential_id'', MetaScalar (cc_CredentialID replacement)),
       (''overlap_seconds'', MetaScalar (itoa (tdiv overlap Second)))],
     ae_CreatedAt = occurredAt\<rparr>"

definition credentialRevokedEvent :: "client_credential \<Rightarrow> string \<Rightarrow> time \<Rightarrow> audit_event" where
  "credentialRevokedEvent c actorID occurredAt =
    \<lparr>ae_OrgID = cc_OrgID c, ae_RepoID = '''', ae_ActorType = ''user'', ae_ActorID = actorID,
     ae_Action = AuditActionCredentialRevoked, ae_ResourceType = ''acr_credential'', ae_ResourceID = cc_CredentialID c,
     ae_Status = ''success'', ae_RequestID = '''', ae_Metadata = None, ae_CreatedAt = occurredAt\<rparr>"

definition withRevocationDetails :: "audit_event \<Rightarrow> revocation_input \<Rightarrow> audit_event" where
  "withRevocationDetails event i =
    (let event1 = (if vi_ActorType i \<noteq> '''' then event\<lparr>ae_ActorType := vi_ActorType i\<rparr> else event)
     in if vi_Reason i \<noteq> '''' then event1\<lparr>ae_Metadata := Some [(''reason'', MetaScalar (vi_Reason i))]\<rparr> else event1)"

definition nonEmptyPtr :: "string \<Rightarrow> string option" where
  "nonEmptyPtr v = (if v = '''' then None else Some v)"

definition credentialFromCreate :: "create_input \<Rightarrow> time \<Rightarrow> client_credential" where
  "credentialFromCreate i createdAt =
    \<lparr>cc_SchemaVersion = ''acr_client_credential.v1'', cc_CredentialID = ci_CredentialID i, cc_Name = ci_Name i,
     cc_TokenPrefix = ci_TokenPrefix i, cc_OrgID = ci_OrgID i, cc_RepositoryScopes = ci_RepositoryScopes i,
     cc_Scopes = ci_Scopes i, cc_CreatedAt = createdAt, cc_ExpiresAt = ci_ExpiresAt i, cc_RevokedAt = None,
     cc_LastUsedAt = None, cc_WorkloadBindingID = nonEmptyPtr (ci_WorkloadBindingID i), cc_Resource = ci_Resource i,
     cc_Provenance = \<lparr>cp_ClientClass = ci_ClientClass i, cp_ApprovingUserID = ci_ApprovingUserID i,
       cp_ClientID = ci_ClientID i, cp_SessionID = ci_SessionID i, cp_FamilyID = ci_FamilyID i,
       cp_FamilyExpiresAt = ci_FamilyExpiresAt i\<rparr>\<rparr>"

definition credentialFromRotation ::
  "rotation_replacement \<Rightarrow> string \<Rightarrow> time \<Rightarrow> string \<Rightarrow> credential_provenance \<Rightarrow> client_credential" where
  "credentialFromRotation r orgID createdAt resource provenance =
    (credentialFromCreate (zero_create\<lparr>ci_CredentialID := rr_CredentialID r, ci_OrgID := orgID, ci_Name := rr_Name r,
       ci_TokenPrefix := rr_TokenPrefix r, ci_RepositoryScopes := rr_RepositoryScopes r, ci_Scopes := rr_Scopes r,
       ci_ExpiresAt := rr_ExpiresAt r, ci_Resource := resource\<rparr>) createdAt)\<lparr>cc_Provenance := provenance\<rparr>"

definition overlapExpiry :: "time \<Rightarrow> duration \<Rightarrow> time option" where
  "overlapExpiry now overlap = (if overlap \<le> 0 then None else Some (now + overlap))"

definition browserFamilyOf :: "client_credential \<Rightarrow> string option" where
  "browserFamilyOf c =
    (if cp_ClientClass (cc_Provenance c) \<noteq> ClientClassBrowser \<or> cp_FamilyID (cc_Provenance c) = '''' then None
     else Some (cp_FamilyID (cc_Provenance c)))"

section \<open>Writing outbox and audit rows together\<close>

text \<open>\<open>recordAudit\<close> makes the checks \<open>k\<close> and \<open>k + 1\<close> of the context.\<close>

definition recordAudit ::
  "env \<Rightarrow> nat \<Rightarrow> audit_event \<Rightarrow> credential_store \<Rightarrow> credential_error option \<times> credential_store" where
  "recordAudit e k event s =
    (if env_err e k \<or> env_err e (Suc k) then (Some ErrCanceled, s)
     else case recordLocked event (cs_events s) of (r, events) \<Rightarrow> (r, s\<lparr>cs_events := events\<rparr>))"

fun append_steps :: "libs \<Rightarrow> facts list \<Rightarrow> ledger \<Rightarrow> credential_error option \<times> ledger" where
  "append_steps lib [] rows = (None, rows)"
| "append_steps lib (f # fs) rows =
    (case ledger_Append lib f rows of (Some e, rows1) \<Rightarrow> (Some e, rows1) | (None, rows1) \<Rightarrow> append_steps lib fs rows1)"

definition appendLifecycle ::
  "libs \<Rightarrow> client_credential option \<Rightarrow> facts list \<Rightarrow> credential_store \<Rightarrow> credential_error option \<times> credential_store" where
  "appendLifecycle lib parent steps s =
    (let mark = length (cs_ledger s);
         truncated = (\<lambda>rows. s\<lparr>cs_ledger := TruncateTo mark rows\<rparr>)
     in case (case parent of None \<Rightarrow> (None, cs_ledger s) | Some p \<Rightarrow> EnsureIssued lib p (cs_ledger s)) of
          (Some e, rows) \<Rightarrow> (Some e, truncated rows)
        | (None, rows) \<Rightarrow>
            (case append_steps lib steps rows of
               (Some e, rows1) \<Rightarrow> (Some e, truncated rows1)
             | (None, rows1) \<Rightarrow> (None, s\<lparr>cs_ledger := rows1\<rparr>)))"

definition recordMutation ::
  "libs \<Rightarrow> env \<Rightarrow> nat \<Rightarrow> audit_event \<Rightarrow> client_credential option \<Rightarrow> facts list \<Rightarrow> credential_store
    \<Rightarrow> credential_error option \<times> credential_store" where
  "recordMutation lib e k event parent steps s =
    (let mark = length (cs_ledger s)
     in case appendLifecycle lib parent steps s of
          (Some err, s1) \<Rightarrow> (Some err, s1)
        | (None, s1) \<Rightarrow>
            (case recordAudit e k event s1 of
               (Some err, s2) \<Rightarrow> (Some err, s2\<lparr>cs_ledger := TruncateTo mark (cs_ledger s2)\<rparr>)
             | (None, s2) \<Rightarrow> (None, s2)))"

section \<open>Reading\<close>

type_synonym 'a credential_result = "(credential_error + 'a) \<times> credential_store"

definition List_credentials :: "env \<Rightarrow> string \<Rightarrow> credential_store \<Rightarrow> credential_error + client_credential list" where
  "List_credentials e orgID s =
    (if env_err e 0 then Inl ErrCanceled
     else and_then (normalizeIdentifier ''organization'' orgID) (\<lambda>org.
       if env_err e 1 \<or> env_err e 2 then Inl ErrCanceled
       else Inr (sort_slice (\<lambda>a b. cc_CreatedAt a < cc_CreatedAt b)
         (map (cr_Metadata \<circ> snd) (filter (\<lambda>(_, r). cc_OrgID (cr_Metadata r) = org) (cs_byID s))))))"

definition credential_at :: "credential_store \<Rightarrow> string \<Rightarrow> string \<Rightarrow> credential_record option" where
  "credential_at s orgID credentialID =
    (case map_of (cs_byID s) credentialID of
       None \<Rightarrow> None
     | Some r \<Rightarrow> if cc_OrgID (cr_Metadata r) \<noteq> orgID then None else Some r)"

definition GetByID :: "env \<Rightarrow> string \<Rightarrow> string \<Rightarrow> credential_store \<Rightarrow> credential_error + client_credential" where
  "GetByID e orgID credentialID s =
    (if env_err e 0 then Inl ErrCanceled
     else and_then (normalizeIdentifier ''organization'' orgID) (\<lambda>org.
       and_then (normalizeCredentialID credentialID) (\<lambda>cid.
       if env_err e 1 \<or> env_err e 2 then Inl ErrCanceled
       else case credential_at s org cid of None \<Rightarrow> Inl ErrNotFound | Some r \<Rightarrow> Inr (cr_Metadata r))))"

definition FindByTokenHash :: "env \<Rightarrow> string \<Rightarrow> credential_store \<Rightarrow> credential_error + client_credential" where
  "FindByTokenHash e tokenHash s =
    (if env_err e 0 then Inl ErrCanceled
     else and_then (normalizeTokenHash tokenHash) (\<lambda>hash.
       if env_err e 1 \<or> env_err e 2 then Inl ErrCanceled
       else case map_of (cs_byHash s) hash of
         None \<Rightarrow> Inl ErrNotFound
       | Some cid \<Rightarrow>
           (case map_of (cs_byID s) cid of
              None \<Rightarrow> Inl ErrNotFound
            | Some r \<Rightarrow>
                if cc_RevokedAt (cr_Metadata r) \<noteq> None
                  \<or> (case cc_ExpiresAt (cr_Metadata r) of None \<Rightarrow> False | Some t \<Rightarrow> \<not> t > env_now e)
                then Inl ErrNotFound else Inr (cr_Metadata r))))"

definition TouchLastUsed ::
  "libs \<Rightarrow> env \<Rightarrow> string \<Rightarrow> string \<Rightarrow> string \<Rightarrow> string \<Rightarrow> time \<Rightarrow> credential_store
    \<Rightarrow> credential_error option \<times> credential_store" where
  "TouchLastUsed lib e orgID credentialID ip userAgent usedAt s =
    (if env_err e 0 then (Some ErrCanceled, s)
     else case and_then (normalizeCredentialID credentialID) (\<lambda>cid.
         and_then (normalizeIdentifier ''organization'' orgID) (\<lambda>org.
         if IsZero usedAt then Inl (ErrInvalidInput '''')
         else and_then (normalizeUsage (net_ParseIP lib) ip userAgent) (\<lambda>(ip', ua). Inr (cid, org, ip', ua)))) of
       Inl err \<Rightarrow> (Some err, s)
     | Inr (cid, org, ip', ua) \<Rightarrow>
         if env_err e 1 \<or> env_err e 2 then (Some ErrCanceled, s)
         else case credential_at s org cid of
           None \<Rightarrow> (Some ErrNotFound, s)
         | Some r \<Rightarrow>
             (None, if (case cc_LastUsedAt (cr_Metadata r) of None \<Rightarrow> True | Some t \<Rightarrow> usedAt > t)
                then s\<lparr>cs_byID := put cid (r\<lparr>cr_Metadata := (cr_Metadata r)\<lparr>cc_LastUsedAt := Some usedAt\<rparr>,
                       cr_LastUsedIP := ip', cr_LastUsedUserAgent := ua\<rparr>) (cs_byID s)\<rparr>
                else s))"

section \<open>Mutations\<close>

definition createCredential :: "libs \<Rightarrow> env \<Rightarrow> create_input \<Rightarrow> credential_store \<Rightarrow> client_credential credential_result" where
  "createCredential lib e i s =
    (if env_err e 1 \<or> env_err e 2 then (Inl ErrCanceled, s)
     else if has_key (cs_byID s) (ci_CredentialID i) then (Inl ErrConflict, s)
     else if has_key (cs_byHash s) (ci_TokenHash i) then (Inl ErrConflict, s)
     else if (case ci_ExpiresAt i of None \<Rightarrow> False | Some t \<Rightarrow> \<not> t > env_now e) then (Inl (ErrInvalidInput ''''), s)
     else
       let now = env_now e;
           credential = credentialFromCreate i now;
           r = \<lparr>cr_Metadata = credential, cr_TokenHash = ci_TokenHash i, cr_CreatedBy = ci_ActorID i, cr_RotatedAt = None,
                cr_LastUsedIP = '''', cr_LastUsedUserAgent = '''', cr_IssuanceProvenance = ci_IssuanceProvenance i\<rparr>
       in case recordMutation lib e 3 (credentialCreatedEvent r) None
            [\<lparr>fa_Kind = CreateKind i, fa_Credential = credential, fa_Revision = 0, fa_ParentID = '''', fa_At = now,
              fa_Actor = CreateActor i\<rparr>] s of
            (Some err, s1) \<Rightarrow> (Inl err, s1)
          | (None, s1) \<Rightarrow>
              (Inr credential, s1\<lparr>cs_byID := put (ci_CredentialID i) r (cs_byID s1),
                 cs_byHash := put (ci_TokenHash i) (ci_CredentialID i) (cs_byHash s1)\<rparr>))"

definition CreateCredential :: "libs \<Rightarrow> env \<Rightarrow> create_input \<Rightarrow> credential_store \<Rightarrow> client_credential credential_result" where
  "CreateCredential lib e i s =
    (if env_err e 0 then (Inl ErrCanceled, s)
     else case normalizeCreate (url_Parse lib) i of
       Inl err \<Rightarrow> (Inl err, s)
     | Inr n \<Rightarrow> createCredential lib e n s)"

definition rotation_steps :: "rotation_input \<Rightarrow> client_credential \<Rightarrow> client_credential \<Rightarrow> time \<Rightarrow> facts list" where
  "rotation_steps i old replacement now =
    (let until = overlapExpiry now (rr_Overlap (ri_Replacement i))
     in \<lparr>fa_Kind = KindRotated, fa_Credential = replacement, fa_Revision = 0, fa_ParentID = cc_CredentialID old,
         fa_At = now, fa_Actor = RotationActor i\<rparr>
        # (if (case until of None \<Rightarrow> True | Some t \<Rightarrow> \<not> t > now)
           then [\<lparr>fa_Kind = KindRevoked, fa_Credential = old, fa_Revision = 0, fa_ParentID = '''', fa_At = now,
                  fa_Actor = RotationActor i\<rparr>] else []))"

text \<open>What a rotation leaves of the source: revoked at once, or with its expiry moved to the end of the overlap.\<close>

definition rotated_source :: "credential_record \<Rightarrow> duration \<Rightarrow> time \<Rightarrow> credential_record" where
  "rotated_source old overlap now =
    (let c = cr_Metadata old;
         c1 = (case overlapExpiry now overlap of
             None \<Rightarrow> c\<lparr>cc_RevokedAt := Some now\<rparr>
           | Some t \<Rightarrow> if \<not> t > now then c\<lparr>cc_RevokedAt := Some now\<rparr>
               else if (case cc_ExpiresAt c of None \<Rightarrow> True | Some x \<Rightarrow> t < x) then c\<lparr>cc_ExpiresAt := Some t\<rparr> else c)
     in old\<lparr>cr_Metadata := c1, cr_RotatedAt := Some now\<rparr>)"

definition rotateCredential :: "libs \<Rightarrow> env \<Rightarrow> rotation_input \<Rightarrow> credential_store \<Rightarrow> client_credential credential_result" where
  "rotateCredential lib e i s =
    (if env_err e 1 \<or> env_err e 2 then (Inl ErrCanceled, s)
     else case credential_at s (ri_OrgID i) (ri_SourceCredentialID i) of
       None \<Rightarrow> (Inl ErrNotFound, s)
     | Some old \<Rightarrow>
         let now = env_now e; r = ri_Replacement i
         in if cr_RotatedAt old \<noteq> None then (Inl ErrConflict, s)
            else if cc_RevokedAt (cr_Metadata old) \<noteq> None then (Inl ErrNotFound, s)
            else if (case rr_ExpiresAt r of None \<Rightarrow> False | Some t \<Rightarrow> \<not> t > now) then (Inl (ErrInvalidInput ''''), s)
            else if has_key (cs_byID s) (rr_CredentialID r) then (Inl ErrConflict, s)
            else if has_key (cs_byHash s) (rr_TokenHash r) then (Inl ErrConflict, s)
            else
              let replacement = credentialFromRotation r (cc_OrgID (cr_Metadata old)) now (cc_Resource (cr_Metadata old))
                    (cc_Provenance (cr_Metadata old))
              in case recordMutation lib e 3 (credentialRotatedEvent (cr_Metadata old) replacement (ri_ActorID i) (rr_Overlap r) now)
                   (Some (cr_Metadata old)) (rotation_steps i (cr_Metadata old) replacement now) s of
                   (Some err, s1) \<Rightarrow> (Inl err, s1)
                 | (None, s1) \<Rightarrow>
                     (Inr replacement, s1\<lparr>cs_byID := put (rr_CredentialID r)
                          \<lparr>cr_Metadata = replacement, cr_TokenHash = rr_TokenHash r, cr_CreatedBy = ri_ActorID i,
                           cr_RotatedAt = None, cr_LastUsedIP = '''', cr_LastUsedUserAgent = '''', cr_IssuanceProvenance = ''''\<rparr>
                          (put (ri_SourceCredentialID i) (rotated_source old (rr_Overlap r) now) (cs_byID s1)),
                        cs_byHash := put (rr_TokenHash r) (rr_CredentialID r) (cs_byHash s1)\<rparr>))"

definition RotateCredential :: "libs \<Rightarrow> env \<Rightarrow> rotation_input \<Rightarrow> credential_store \<Rightarrow> client_credential credential_result" where
  "RotateCredential lib e i s =
    (if env_err e 0 then (Inl ErrCanceled, s)
     else case normalizeRotation (url_Parse lib) i of
       Inl err \<Rightarrow> (Inl err, s)
     | Inr n \<Rightarrow> rotateCredential lib e n s)"

text \<open>The other live members of a browser credential's family, in the order of their ids.\<close>

definition family_siblings :: "client_credential \<Rightarrow> string \<Rightarrow> string \<Rightarrow> credential_store \<Rightarrow> (string \<times> credential_record) list" where
  "family_siblings c orgID credentialID s =
    (case browserFamilyOf c of
       None \<Rightarrow> []
     | Some familyID \<Rightarrow> sort_key fst (filter (\<lambda>(cid, m). \<not> (cid = credentialID \<or> cc_OrgID (cr_Metadata m) \<noteq> orgID
         \<or> cp_FamilyID (cc_Provenance (cr_Metadata m)) \<noteq> familyID \<or> cc_RevokedAt (cr_Metadata m) \<noteq> None)) (cs_byID s)))"

definition member_event :: "revocation_input \<Rightarrow> string \<Rightarrow> time \<Rightarrow> string \<Rightarrow> client_credential \<Rightarrow> audit_event" where
  "member_event i familyID now cid c =
    (if cid = vi_CredentialID i then withRevocationDetails (credentialRevokedEvent c (vi_ActorID i) now) i
     else (credentialRevokedEvent c (vi_ActorID i) now)\<lparr>ae_Metadata :=
       Some [(''family_id'', MetaScalar familyID), (''family_revoke_reason'', MetaScalar ''member_revoked'')]\<rparr>)"

definition memberActor :: "revocation_input \<Rightarrow> string \<Rightarrow> actor" where
  "memberActor i cid = (if cid = vi_CredentialID i then RevocationActor i else FamilyMemberActor (RevocationActor i))"

fun revoke_rows ::
  "libs \<Rightarrow> env \<Rightarrow> nat \<Rightarrow> revocation_input \<Rightarrow> string \<Rightarrow> (string \<times> credential_record) list \<Rightarrow> credential_store
    \<Rightarrow> credential_error option \<times> credential_store" where
  "revoke_rows lib e k i familyID [] s = (None, s)"
| "revoke_rows lib e k i familyID ((cid, m) # rest) s =
    (case recordMutation lib e k (member_event i familyID (env_now e) cid (cr_Metadata m)) None
        [\<lparr>fa_Kind = KindRevoked, fa_Credential = cr_Metadata m, fa_Revision = 0, fa_ParentID = '''', fa_At = env_now e,
          fa_Actor = memberActor i cid\<rparr>] s of
       (Some err, s1) \<Rightarrow> (Some err, s1)
     | (None, s1) \<Rightarrow> revoke_rows lib e (k + 2) i familyID rest s1)"

definition revoked_record :: "time \<Rightarrow> credential_record \<Rightarrow> credential_record" where
  "revoked_record now r = r\<lparr>cr_Metadata := (cr_Metadata r)\<lparr>cc_RevokedAt := Some now\<rparr>\<rparr>"

definition revoke_all :: "time \<Rightarrow> (string \<times> credential_record) list \<Rightarrow> (string, credential_record) gomap
    \<Rightarrow> (string, credential_record) gomap" where
  "revoke_all now ids byID = foldl (\<lambda>m (cid, r). put cid (revoked_record now r) m) byID ids"

definition revokeCredential :: "libs \<Rightarrow> env \<Rightarrow> revocation_input \<Rightarrow> credential_store \<Rightarrow> client_credential credential_result" where
  "revokeCredential lib e i s =
    (if env_err e 1 \<or> env_err e 2 then (Inl ErrCanceled, s)
     else case credential_at s (vi_OrgID i) (vi_CredentialID i) of
       None \<Rightarrow> (Inl ErrNotFound, s)
     | Some r \<Rightarrow>
         if cc_RevokedAt (cr_Metadata r) \<noteq> None then (Inl ErrConflict, s)
         else
           let now = env_now e;
               ids = (vi_CredentialID i, r) # family_siblings (cr_Metadata r) (vi_OrgID i) (vi_CredentialID i) s;
               familyID = cp_FamilyID (cc_Provenance (cr_Metadata r))
           in case revoke_rows lib e 3 i familyID ids s of
                (Some err, s1) \<Rightarrow> (Inl err, s1\<lparr>cs_ledger := TruncateTo (length (cs_ledger s)) (cs_ledger s1),
                  cs_events := TruncateTo (length (cs_events s)) (cs_events s1)\<rparr>)
              | (None, s1) \<Rightarrow> (Inr (cr_Metadata (revoked_record now r)), s1\<lparr>cs_byID := revoke_all now ids (cs_byID s1)\<rparr>))"

definition RevokeCredential :: "libs \<Rightarrow> env \<Rightarrow> revocation_input \<Rightarrow> credential_store \<Rightarrow> client_credential credential_result" where
  "RevokeCredential lib e i s =
    (if env_err e 0 then (Inl ErrCanceled, s)
     else case normalizeRevocation i of Inl err \<Rightarrow> (Inl err, s) | Inr n \<Rightarrow> revokeCredential lib e n s)"

definition rotationRelates :: "string \<Rightarrow> string \<Rightarrow> credential_store \<Rightarrow> bool" where
  "rotationRelates sourceID successorID s \<longleftrightarrow>
     list_ex (\<lambda>event. ae_Action event = AuditActionCredentialRotated \<and> ae_ResourceID event = sourceID \<and>
       (case ae_Metadata event of None \<Rightarrow> False
        | Some m \<Rightarrow> map_of m ''replacement_credential_id'' = Some (MetaScalar successorID))) (cs_events s)"

definition rollback_allowed :: "rollback_input \<Rightarrow> time \<Rightarrow> credential_record \<Rightarrow> credential_record \<Rightarrow> credential_store \<Rightarrow> bool" where
  "rollback_allowed i now source successor s \<longleftrightarrow>
     cc_OrgID (cr_Metadata source) = bi_OrgID i \<and> cc_OrgID (cr_Metadata successor) = bi_OrgID i
     \<and> cc_RevokedAt (cr_Metadata source) = None \<and> cc_RevokedAt (cr_Metadata successor) = None \<and> cr_RotatedAt successor = None
     \<and> (case cc_ExpiresAt (cr_Metadata source) of None \<Rightarrow> False | Some t \<Rightarrow> t > now)
     \<and> cc_RepositoryScopes (cr_Metadata source) = cc_RepositoryScopes (cr_Metadata successor)
     \<and> cc_Scopes (cr_Metadata source) = cc_Scopes (cr_Metadata successor)
     \<and> rotationRelates (cc_CredentialID (cr_Metadata source)) (cc_CredentialID (cr_Metadata successor)) s"

definition rollbackCredentialRotation ::
  "libs \<Rightarrow> env \<Rightarrow> rollback_input \<Rightarrow> credential_store \<Rightarrow> client_credential credential_result" where
  "rollbackCredentialRotation lib e i s =
    (if env_err e 1 \<or> env_err e 2 then (Inl ErrCanceled, s)
     else if \<not> bi_RollbackUntil i > env_now e then (Inl ErrConflict, s)
     else case (map_of (cs_byID s) (bi_SourceCredentialID i), map_of (cs_byID s) (bi_SuccessorCredentialID i)) of
       (Some source, Some successor) \<Rightarrow>
         if \<not> rollback_allowed i (env_now e) source successor s then (Inl ErrConflict, s)
         else
           (case recordMutation lib e 3 (credentialRevokedEvent (cr_Metadata successor) (bi_ActorID i) (env_now e)) None
              [\<lparr>fa_Kind = KindRevoked, fa_Credential = cr_Metadata successor, fa_Revision = 0, fa_ParentID = '''',
                fa_At = env_now e, fa_Actor = RollbackActor i\<rparr>] s of
              (Some err, s1) \<Rightarrow> (Inl err, s1)
            | (None, s1) \<Rightarrow> (Inr (cr_Metadata (revoked_record (env_now e) successor)),
                s1\<lparr>cs_byID := put (cc_CredentialID (cr_Metadata successor)) (revoked_record (env_now e) successor) (cs_byID s1)\<rparr>))
     | _ \<Rightarrow> (Inl ErrConflict, s))"

definition RollbackCredentialRotation ::
  "libs \<Rightarrow> env \<Rightarrow> rollback_input \<Rightarrow> credential_store \<Rightarrow> client_credential credential_result" where
  "RollbackCredentialRotation lib e i s =
    (if env_err e 0 then (Inl ErrCanceled, s)
     else case normalizeRotationRollback i of Inl err \<Rightarrow> (Inl err, s) | Inr n \<Rightarrow> rollbackCredentialRotation lib e n s)"

text \<open>\<^verbatim>\<open>AuditStore.Record\<close>, for every event that is not a credential lifecycle event; it checks the context three times.\<close>

definition audit_Record :: "env \<Rightarrow> audit_event \<Rightarrow> credential_store \<Rightarrow> credential_error option \<times> credential_store" where
  "audit_Record e event s =
    (if env_err e 0 then (Some ErrCanceled, s)
     else if IsCredentialLifecycleAuditAction (ae_Action event) then (Some (ErrInvalidInput ''''), s)
     else recordAudit e 1 event s)"

section \<open>The reconciliation listing\<close>

fun latest_rows :: "string \<Rightarrow> string \<Rightarrow> ledger \<Rightarrow> (string, outbox_row) gomap \<Rightarrow> (string, outbox_row) gomap" where
  "latest_rows orgID after [] acc = acc"
| "latest_rows orgID after (row # rows) acc =
    latest_rows orgID after rows
      (if ob_OrgID row \<noteq> orgID \<or> ob_AggregateID row \<le> after then acc
       else if (case map_of acc (ob_AggregateID row) of None \<Rightarrow> True | Some current \<Rightarrow> ob_Revision row > ob_Revision current)
       then put (ob_AggregateID row) row acc else acc)"

record lifecycle_item =
  li_CredentialID :: string
  li_Revision :: int
  li_Status :: string

fun list_items :: "(string \<times> outbox_row) list \<Rightarrow> credential_error + lifecycle_item list" where
  "list_items [] = Inr []"
| "list_items ((cid, row) # rest) =
    (case StatusOfEventType (ob_EventType row) of
       None \<Rightarrow> Inl (ErrUnknownEventType cid)
     | Some status \<Rightarrow> and_then (list_items rest) (\<lambda>items.
         Inr (\<lparr>li_CredentialID = cid, li_Revision = ob_Revision row, li_Status = status\<rparr> # items)))"

definition ListCredentialLifecycle ::
  "string \<Rightarrow> string \<Rightarrow> nat \<Rightarrow> credential_store \<Rightarrow> credential_error + lifecycle_item list" where
  "ListCredentialLifecycle orgID after limit s =
    list_items (take limit (sort_key fst (latest_rows orgID after (cs_ledger s) [])))"

end
