(* ===== verification/Credential_Facts.thy ===== *)
theory Credential_Facts
  imports Credential_Store
begin

text \<open>
  Facts about the ledger, about the pair of outbox and audit rows that every mutation writes, and the
  invariant \<open>store_ok\<close> of the credential store: the two indexes agree, and the outbox stream of every
  credential is its opening row followed by one revoked row exactly when the credential is revoked.
\<close>

section \<open>The ledger\<close>

definition stream :: "string \<Rightarrow> ledger \<Rightarrow> ledger" where
  "stream cid rows = filter (\<lambda>row. ob_AggregateID row = cid) rows"

lemma stream_append [simp]: "stream cid (xs @ ys) = stream cid xs @ stream cid ys"
  by (simp add: stream_def)

lemma stream_single [simp]: "stream cid [row] = (if ob_AggregateID row = cid then [row] else [])"
  by (simp add: stream_def)

lemma max_loop_stream: "max_loop cid rows m = max_loop cid (stream cid rows) m"
  by (induction rows arbitrary: m) (auto simp: stream_def)

lemma latest_loop_stream: "latest_loop cid rows acc = latest_loop cid (stream cid rows) acc"
  by (induction rows arbitrary: acc) (auto simp: stream_def)

lemma MaxRevision_stream: "MaxRevision cid rows = max_loop cid (stream cid rows) 0"
  unfolding MaxRevision_def by (rule max_loop_stream)

lemma LatestEventType_stream: "LatestEventType cid rows = fst (latest_loop cid (stream cid rows) ('''', 0))"
  unfolding LatestEventType_def by (subst latest_loop_stream) simp

text \<open>What a row that was built says.\<close>

definition row_of :: "facts \<Rightarrow> event_kind \<Rightarrow> int \<Rightarrow> outbox_row \<Rightarrow> bool" where
  "row_of f kind revision row \<longleftrightarrow> ob_OrgID row = cc_OrgID (fa_Credential f) \<and>
     ob_AggregateID row = cc_CredentialID (fa_Credential f) \<and> ob_Revision row = revision \<and>
     ob_EventType row = event_type kind \<and> ob_CreatedAt row = fa_At f"

lemma BuildRow_row:
  "BuildRow lib f = Inr row \<Longrightarrow> \<exists>kind revision. row_kind f = Inr (kind, revision) \<and> row_of f kind revision row"
  by (auto simp: BuildRow_def Let_def and_then_Inr row_of_def split: if_splits)

lemma row_kind_open:
  "row_kind f = Inr (kind, revision) \<Longrightarrow> fa_Kind f \<noteq> KindRevoked \<Longrightarrow> fa_Kind f \<noteq> KindExpired \<Longrightarrow>
    revision = 1 \<and> kind \<in> {KindIssued, KindDeviceRedeemed, KindRotated}"
  by (auto simp: row_kind_def Let_def split: event_kind.splits if_splits)

lemma row_kind_revoked:
  "row_kind f = Inr (kind, revision) \<Longrightarrow> fa_Kind f = KindRevoked \<Longrightarrow> kind = KindRevoked \<and> revision = fa_Revision f"
  by (auto simp: row_kind_def Let_def split: if_splits)

lemma insertFacts_cases:
  "insertFacts lib f rows = (r, rows') \<Longrightarrow>
    (r \<noteq> None \<and> rows' = rows) \<or> (r = None \<and> (\<exists>row. BuildRow lib f = Inr row \<and> rows' = rows @ [row]))"
  by (auto simp: insertFacts_def ledger_Insert_def split: sum.splits if_splits)

text \<open>A ledger operation only appends.\<close>

definition extends :: "'a list \<Rightarrow> 'a list \<Rightarrow> bool" where
  "extends xs ys \<longleftrightarrow> take (length xs) ys = xs"

lemma extends_refl [simp]: "extends xs xs"
  by (simp add: extends_def)

lemma extends_append [simp]: "extends xs (xs @ ys)"
  by (simp add: extends_def)

lemma extends_iff: "extends xs ys \<longleftrightarrow> (\<exists>zs. ys = xs @ zs)"
  unfolding extends_def by (metis append_eq_conv_conj)

lemma extends_trans: "extends xs ys \<Longrightarrow> extends ys zs \<Longrightarrow> extends xs zs"
  by (auto simp: extends_iff)

lemma TruncateTo_extends: "extends xs ys \<Longrightarrow> TruncateTo (length xs) ys = xs"
  by (auto simp: TruncateTo_def extends_iff)

lemma insertFacts_extends: "insertFacts lib f rows = (r, rows') \<Longrightarrow> extends rows rows'"
  by (drule insertFacts_cases) auto

lemma EnsureIssued_extends: "EnsureIssued lib c rows = (r, rows') \<Longrightarrow> extends rows rows'"
  by (auto simp: EnsureIssued_def intro: insertFacts_extends split: if_splits)

lemma ledger_Append_extends: "ledger_Append lib f rows = (r, rows') \<Longrightarrow> extends rows rows'"
  by (auto simp: ledger_Append_def intro: insertFacts_extends EnsureIssued_extends extends_trans
      split: if_splits prod.splits option.splits)

lemma append_steps_extends: "append_steps lib fs rows = (r, rows') \<Longrightarrow> extends rows rows'"
proof (induction fs arbitrary: rows)
  case (Cons f fs)
  obtain r1 rows1 where a: "ledger_Append lib f rows = (r1, rows1)" by (cases "ledger_Append lib f rows")
  with Cons show ?case
    by (cases r1) (auto intro: ledger_Append_extends extends_trans)
qed simp

section \<open>All or nothing\<close>

lemma truncated_same [simp]:
  "extends (cs_ledger s) rows \<Longrightarrow> s\<lparr>cs_ledger := TruncateTo (length (cs_ledger s)) rows\<rparr> = s"
  by (simp add: TruncateTo_extends)

text \<open>A metadata copy that succeeds is the value itself.\<close>

lemma clone_value_same:
  "cloneMetadataValue v = Inr w \<Longrightarrow> w = v" "clone_items vs = Inr ws \<Longrightarrow> ws = vs" "clone_entries es = Inr fs \<Longrightarrow> fs = es"
  by (induction v and vs and es arbitrary: w and ws and fs rule: cloneMetadataValue_clone_items_clone_entries.induct)
    (auto simp: and_then_Inr)

lemma cloneMetadata_same: "cloneMetadata m = Inr m' \<Longrightarrow> m' = m"
  by (auto simp: cloneMetadata_def and_then_Inr dest: clone_value_same split: option.splits)

lemma recordLocked_cases:
  "recordLocked event events = (r, events') \<Longrightarrow>
    (r \<noteq> None \<and> events' = events) \<or> (r = None \<and> events' = events @ [event])"
  by (auto simp: recordLocked_def dest!: cloneMetadata_same split: sum.splits)

lemma appendLifecycle_fail: "appendLifecycle lib parent steps s = (Some err, s') \<Longrightarrow> s' = s"
  by (auto simp: appendLifecycle_def Let_def dest!: EnsureIssued_extends append_steps_extends
      intro: truncated_same extends_trans split: option.splits prod.splits)

text \<open>A mutation's rows are written together or not at all.\<close>

lemma recordMutation_fail:
  assumes "recordMutation lib e k event parent steps s = (Some err, s')"
  shows "s' = s"
proof (cases "appendLifecycle lib parent steps s")
  case (Pair r s1)
  show ?thesis
  proof (cases r)
    case (Some err1)
    with Pair assms appendLifecycle_fail [of lib parent steps s err1 s1] show ?thesis
      by (auto simp: recordMutation_def)
  next
    case None
    with Pair have s1: "\<exists>rows. extends (cs_ledger s) rows \<and> s1 = s\<lparr>cs_ledger := rows\<rparr>"
      by (auto simp: appendLifecycle_def Let_def dest!: EnsureIssued_extends append_steps_extends
          intro: extends_trans split: option.splits prod.splits)
    obtain rows where r: "extends (cs_ledger s) rows" "s1 = s\<lparr>cs_ledger := rows\<rparr>" using s1 by blast
    then show ?thesis using assms Pair None
      by (auto simp: recordMutation_def recordAudit_def recordLocked_def TruncateTo_extends
          split: if_splits prod.splits option.splits sum.splits)
  qed
qed

text \<open>A mutation that succeeds appends to the ledger and adds one audit event; nothing else changes.\<close>

lemma recordMutation_ok:
  assumes "recordMutation lib e k event parent steps s = (None, s')"
  obtains rows where "s' = s\<lparr>cs_ledger := rows, cs_events := cs_events s @ [event]\<rparr>"
    "append_steps lib steps (case parent of None \<Rightarrow> cs_ledger s | Some p \<Rightarrow> snd (EnsureIssued lib p (cs_ledger s))) = (None, rows)"
    "case parent of None \<Rightarrow> True | Some p \<Rightarrow> fst (EnsureIssued lib p (cs_ledger s)) = None"
  using assms
  by (auto simp: recordMutation_def appendLifecycle_def recordAudit_def Let_def dest!: recordLocked_cases
      split: if_splits prod.splits option.splits)

section \<open>The invariant\<close>

definition opening_row :: "client_credential \<Rightarrow> outbox_row \<Rightarrow> bool" where
  "opening_row c row \<longleftrightarrow> ob_OrgID row = cc_OrgID c \<and> ob_AggregateID row = cc_CredentialID c \<and> ob_Revision row = 1 \<and>
     ob_EventType row \<in> {event_type KindIssued, event_type KindDeviceRedeemed, event_type KindRotated}"

definition closing_row :: "client_credential \<Rightarrow> time \<Rightarrow> outbox_row \<Rightarrow> bool" where
  "closing_row c at row \<longleftrightarrow> ob_OrgID row = cc_OrgID c \<and> ob_AggregateID row = cc_CredentialID c \<and> ob_Revision row = 2 \<and>
     ob_EventType row = event_type KindRevoked \<and> ob_CreatedAt row = at"

text \<open>The stream of a credential: the opening row, and the revoked row when it is revoked.\<close>

definition stream_ok :: "client_credential \<Rightarrow> ledger \<Rightarrow> bool" where
  "stream_ok c rows \<longleftrightarrow>
     (case cc_RevokedAt c of
        None \<Rightarrow> (\<exists>first. rows = [first] \<and> opening_row c first)
      | Some at \<Rightarrow> (\<exists>first final. rows = [first, final] \<and> opening_row c first \<and> closing_row c at final))"

definition streams_ok :: "(string, credential_record) gomap \<Rightarrow> ledger \<Rightarrow> bool" where
  "streams_ok byID rows \<longleftrightarrow>
     (\<forall>cid. case map_of byID cid of None \<Rightarrow> stream cid rows = [] | Some r \<Rightarrow> stream_ok (cr_Metadata r) (stream cid rows))"

definition indexes_ok :: "(string, credential_record) gomap \<Rightarrow> (string, string) gomap \<Rightarrow> bool" where
  "indexes_ok byID byHash \<longleftrightarrow> wf_map byID \<and> wf_map byHash \<and>
     (\<forall>cid r. map_of byID cid = Some r \<longrightarrow> cc_CredentialID (cr_Metadata r) = cid \<and> map_of byHash (cr_TokenHash r) = Some cid) \<and>
     (\<forall>h cid. map_of byHash h = Some cid \<longrightarrow> (\<exists>r. map_of byID cid = Some r \<and> cr_TokenHash r = h))"

definition store_ok :: "credential_store \<Rightarrow> bool" where
  "store_ok s \<longleftrightarrow> indexes_ok (cs_byID s) (cs_byHash s) \<and> streams_ok (cs_byID s) (cs_ledger s)"

lemma store_ok_new [simp]: "store_ok newCredentialStore"
  by (simp add: store_ok_def newCredentialStore_def indexes_ok_def streams_ok_def stream_def)

lemma store_ok_id: "store_ok s \<Longrightarrow> map_of (cs_byID s) cid = Some r \<Longrightarrow> cc_CredentialID (cr_Metadata r) = cid"
  by (simp add: store_ok_def indexes_ok_def)

lemma streams_ok_some: "streams_ok byID rows \<Longrightarrow> map_of byID cid = Some r \<Longrightarrow> stream_ok (cr_Metadata r) (stream cid rows)"
  unfolding streams_ok_def by (metis option.simps(5))

lemma streams_ok_none: "streams_ok byID rows \<Longrightarrow> map_of byID cid = None \<Longrightarrow> stream cid rows = []"
  unfolding streams_ok_def by (metis option.simps(4))

lemma event_type_inject [simp]: "event_type a = event_type b \<longleftrightarrow> a = b"
  by (cases a; cases b) (simp_all add: event_type_def)

text \<open>Adding an opening row for a new credential, and a revoked row for a live one.\<close>

lemma append_open:
  assumes "ledger_Append lib f rows = (None, rows')" "fa_Kind f \<noteq> KindRevoked" "fa_Kind f \<noteq> KindExpired"
  obtains row where "rows' = rows @ [row]" "opening_row (fa_Credential f) row"
proof -
  from assms have "insertFacts lib f rows = (None, rows')" by (simp add: ledger_Append_def)
  then obtain row where row: "BuildRow lib f = Inr row" "rows' = rows @ [row]" using insertFacts_cases by fastforce
  with BuildRow_row [OF row(1)] row_kind_open [OF _ assms(2,3)] have "opening_row (fa_Credential f) row"
    by (fastforce simp: opening_row_def row_of_def)
  with row(2) show ?thesis by (rule that)
qed

lemma live_stream:
  assumes "stream_ok c (stream (cc_CredentialID c) rows)" "cc_RevokedAt c = None"
  obtains first where "stream (cc_CredentialID c) rows = [first]" "opening_row c first"
    "MaxRevision (cc_CredentialID c) rows = 1" "LatestEventType (cc_CredentialID c) rows = ob_EventType first"
proof -
  from assms obtain first where f: "stream (cc_CredentialID c) rows = [first]" "opening_row c first"
    by (auto simp: stream_ok_def)
  then have "MaxRevision (cc_CredentialID c) rows = 1" "LatestEventType (cc_CredentialID c) rows = ob_EventType first"
    by (simp_all add: MaxRevision_stream LatestEventType_stream opening_row_def)
  with f show ?thesis by (rule that)
qed

lemma append_revoked:
  assumes "ledger_Append lib f rows = (None, rows')" "fa_Kind f = KindRevoked" "fa_Credential f = c"
    "stream_ok c (stream (cc_CredentialID c) rows)" "cc_RevokedAt c = None"
  obtains row where "rows' = rows @ [row]" "closing_row c (fa_At f) row"
proof -
  obtain first where f: "opening_row c first" "MaxRevision (cc_CredentialID c) rows = 1"
    "LatestEventType (cc_CredentialID c) rows = ob_EventType first"
    using live_stream [OF assms(4,5)] by blast
  have "\<not> isTerminalEventType (ob_EventType first)" using f(1) by (auto simp: opening_row_def isTerminalEventType_def)
  with assms(1-3) f have "insertFacts lib (f\<lparr>fa_Revision := 2\<rparr>) rows = (None, rows')"
    by (simp add: ledger_Append_def EnsureIssued_def)
  then obtain row where row: "BuildRow lib (f\<lparr>fa_Revision := 2\<rparr>) = Inr row" "rows' = rows @ [row]"
    using insertFacts_cases by fastforce
  with BuildRow_row [OF row(1)] row_kind_revoked [of "f\<lparr>fa_Revision := 2\<rparr>"] assms(2,3) have "closing_row c (fa_At f) row"
    by (fastforce simp: closing_row_def row_of_def)
  with row(2) show ?thesis by (rule that)
qed

lemma EnsureIssued_seen:
  assumes "stream_ok c (stream (cc_CredentialID c) rows)" "cc_RevokedAt c = None"
  shows "EnsureIssued lib c rows = (None, rows)"
proof -
  obtain first where "MaxRevision (cc_CredentialID c) rows = 1" using live_stream [OF assms] by blast
  then show ?thesis by (simp add: EnsureIssued_def)
qed

end
