(* ===== verification/Credential_Normal.thy ===== *)
theory Credential_Normal
  imports Credential_Input
begin

text \<open>
  Facts about the normal form of a credential input: what \<open>normalizeCreate\<close> guarantees about its result
  (\<open>issued_ok\<close>), and that the stored form is a fixed point of the normalization.
\<close>

section \<open>Scopes\<close>

lemma split_on_chars: "c \<in> set s \<Longrightarrow> c = sep \<or> (\<exists>p \<in> set (split_on sep s). c \<in> set p)"
proof -
  have "foldr (split_step sep) s [[]] \<noteq> [] \<and> (c \<in> set s \<longrightarrow> c = sep \<or> (\<exists>p \<in> set (foldr (split_step sep) s [[]]). c \<in> set p))"
    by (induction s) (auto simp: split_step_def split: list.splits)
  then show "c \<in> set s \<Longrightarrow> ?thesis" by (simp add: split_on_def)
qed

definition scope_char :: "char \<Rightarrow> bool" where
  "scope_char c \<longleftrightarrow> slug_char c \<or> c = CHR ''/'' \<or> c = CHR ''*''"

lemma ValidScope_chars: "ValidScope v \<Longrightarrow> list_all scope_char v"
proof -
  assume v: "ValidScope v"
  have slug: "list_all slug_char p" if "ValidOwner p \<or> ValidName p" for p
    using that by (auto simp: ValidOwner_def ValidName_def)
  consider (star) "v = ''*''" | (owner) o' where "v = o' @ ''/*''" "ValidOwner o'" | (slug) "ValidSlug v"
    using v by (auto simp: ValidScope_def has_suffix_iff split: if_splits)
  then show ?thesis
  proof cases
    case star
    then show ?thesis by (simp add: scope_char_def)
  next
    case owner
    then show ?thesis using slug [of o'] by (auto simp: scope_char_def list_all_iff)
  next
    case slug
    let ?parts = "split_on (CHR ''/'') v"
    have ne: "?parts \<noteq> []" using slug by (auto simp: ValidSlug_def Let_def)
    have "list_all slug_char p" if "p \<in> set ?parts" for p
    proof -
      have "p \<in> set (butlast ?parts) \<or> p = last ?parts"
        using that ne by (metis append_butlast_last_id in_set_butlast_appendI rotate1.simps(2) set_ConsD set_rotate1)
      with slug show ?thesis by (auto simp: ValidSlug_def Let_def list_all_iff intro: \<open>\<And>p. ValidOwner p \<or> ValidName p \<Longrightarrow> list_all slug_char p\<close> [unfolded list_all_iff, rule_format])
    qed
    then show ?thesis using split_on_chars [of _ v "CHR ''/''"] by (fastforce simp: list_all_iff scope_char_def)
  qed
qed

lemma scope_char_byte: "scope_char c \<Longrightarrow> 33 \<le> byte_of c \<and> byte_of c < 128 \<and> \<not> is_upper c"
  by (auto simp: scope_char_def slug_char_def slug_alnum_def is_lower_def is_digit_def is_upper_def byte_of_def)

lemma ToLower_plain:
  assumes "list_all (\<lambda>c. byte_of c < 128 \<and> \<not> is_upper c) s"
  shows "ToLower s = s"
proof -
  have "runes_of s = map (\<lambda>c. \<lparr>seg_rune = byte_of c, seg_valid = True, seg_bytes = [byte_of c]\<rparr>) s"
    using assms by (intro runes_of_ascii) (auto simp: list_all_iff)
  moreover have "concat (map (lower_seg \<circ> (\<lambda>c. \<lparr>seg_rune = byte_of c, seg_valid = True, seg_bytes = [byte_of c]\<rparr>)) s) = s"
    using assms by (induction s) (auto simp: lower_seg_def ascii_lower_def)
  ultimately show ?thesis by (simp add: ToLower_def)
qed

lemma ValidScope_normal: "ValidScope v \<Longrightarrow> ToLower (TrimSpace v) = v"
proof -
  assume "ValidScope v"
  then have "list_all (\<lambda>c. 33 \<le> byte_of c \<and> byte_of c < 128 \<and> \<not> is_upper c) v"
    using ValidScope_chars scope_char_byte by (auto simp: list_all_iff)
  then show ?thesis
    using TrimSpace_plain [of v] ToLower_plain [of v] by (auto simp: list_all_iff)
qed

lemma knownScopes_normal: "v \<in> set knownScopes \<Longrightarrow> TrimSpace v = v"
  by (rule TrimSpace_plain) (auto simp: knownScopes_def byte_of_def)

text \<open>The two loops: what they return, and that they return a normal list unchanged.\<close>

lemma repositories_loop_result:
  "repositories_loop vs acc = Inr w \<Longrightarrow> distinct acc \<Longrightarrow> list_all ValidScope acc \<Longrightarrow>
    distinct w \<and> list_all ValidScope w \<and> set acc \<subseteq> set w \<and> (vs \<noteq> [] \<longrightarrow> w \<noteq> [])"
  by (induction vs arbitrary: acc) (fastforce simp: Let_def split: if_splits)+

lemma repositories_loop_normal:
  "list_all ValidScope vs \<Longrightarrow> distinct (acc @ vs) \<Longrightarrow> repositories_loop vs acc = Inr (acc @ vs)"
  by (induction vs arbitrary: acc) (auto simp: ValidScope_normal)

lemma scopes_loop_result:
  "scopes_loop vs acc = Inr w \<Longrightarrow> distinct acc \<Longrightarrow> set acc \<subseteq> set knownScopes \<Longrightarrow>
    distinct w \<and> set w \<subseteq> set knownScopes \<and> set acc \<subseteq> set w \<and> (vs \<noteq> [] \<longrightarrow> w \<noteq> [])"
  by (induction vs arbitrary: acc) (fastforce simp: Let_def split: if_splits)+

lemma scopes_loop_normal:
  "set vs \<subseteq> set knownScopes \<Longrightarrow> distinct (acc @ vs) \<Longrightarrow> scopes_loop vs acc = Inr (acc @ vs)"
  by (induction vs arbitrary: acc) (auto simp: knownScopes_normal)

definition scopes_ok :: "string list \<Rightarrow> bool" where
  "scopes_ok vs \<longleftrightarrow> vs \<noteq> [] \<and> distinct vs \<and> sorted vs \<and> set vs \<subseteq> set knownScopes"

definition repositories_ok :: "string list \<Rightarrow> bool" where
  "repositories_ok vs \<longleftrightarrow> vs \<noteq> [] \<and> distinct vs \<and> sorted vs \<and> list_all ValidScope vs"

lemma sort_Nil_iff [simp]: "sort xs = [] \<longleftrightarrow> xs = []"
  by (metis length_0_conv length_sort)

lemma normalizeScopes_result: "normalizeScopes vs = Inr w \<Longrightarrow> scopes_ok w"
  by (auto simp: normalizeScopes_def and_then_Inr scopes_ok_def dest!: scopes_loop_result split: if_splits)

lemma normalizeScopes_normal: "scopes_ok w \<Longrightarrow> normalizeScopes w = Inr w"
  by (simp add: normalizeScopes_def scopes_ok_def scopes_loop_normal sorted_sort_id)

lemma normalizeRepositories_result: "normalizeRepositories vs = Inr w \<Longrightarrow> repositories_ok w"
  by (auto simp: normalizeRepositories_def and_then_Inr repositories_ok_def list_all_iff dest!: repositories_loop_result split: if_splits)

lemma normalizeRepositories_normal: "repositories_ok w \<Longrightarrow> normalizeRepositories w = Inr w"
  by (simp add: normalizeRepositories_def repositories_ok_def repositories_loop_normal sorted_sort_id)

section \<open>Single fields\<close>

lemma normalizeText_normal: "normalizeText name v m = Inr w \<Longrightarrow> normalizeText name w m = Inr w"
  by (auto simp: normalizeText_def Let_def split: if_splits)

lemma normalizeText_nonempty: "normalizeText name v m = Inr w \<Longrightarrow> w \<noteq> ''''"
  by (auto simp: normalizeText_def Let_def split: if_splits)

lemma normalizeIdentifier_normal: "normalizeIdentifier name v = Inr w \<Longrightarrow> normalizeIdentifier name w = Inr w"
  unfolding normalizeIdentifier_def by (rule normalizeText_normal)

lemma normalizeOptionalText_normal: "normalizeOptionalText name v m = Inr w \<Longrightarrow> normalizeOptionalText name w m = Inr w"
  by (auto simp: normalizeOptionalText_def normalizeText_def Let_def split: if_splits)

lemma normalizeCredentialID_normal: "normalizeCredentialID v = Inr w \<Longrightarrow> normalizeCredentialID w = Inr w"
  by (auto simp: normalizeCredentialID_def Let_def split: if_splits)

lemma credential_id_fixed: "credential_id_ok v \<Longrightarrow> normalizeCredentialID v = Inr v"
proof -
  assume v: "credential_id_ok v"
  have "33 \<le> byte_of c \<and> byte_of c < 128" if "is_alnum c \<or> c \<in> {CHR ''.'', CHR ''_'', CHR '':'', CHR ''-''}" for c
    using that by (auto simp: is_alnum_def is_lower_def is_upper_def is_digit_def byte_of_def)
  with v have "TrimSpace v = v" by (intro TrimSpace_plain) (cases v, auto simp: credential_id_ok_def list_all_iff)
  with v show ?thesis by (simp add: normalizeCredentialID_def)
qed

lemma normalizeTokenHash_normal: "normalizeTokenHash v = Inr w \<Longrightarrow> normalizeTokenHash w = Inr w"
  by (auto simp: normalizeTokenHash_def Let_def split: if_splits)

lemma normalizeResource_normal: "normalizeResource parse v = Inr w \<Longrightarrow> normalizeResource parse w = Inr w"
  by (auto simp: normalizeResource_def Let_def split: if_splits option.splits)

lemma normalizeText_trimmed: "normalizeText name v m = Inr w \<Longrightarrow> w = TrimSpace v"
  by (auto simp: normalizeText_def Let_def split: if_splits)

lemma normalizeOptionalText_trimmed: "normalizeOptionalText name v m = Inr w \<Longrightarrow> w = TrimSpace v"
  by (auto simp: normalizeOptionalText_def dest: normalizeText_trimmed split: if_splits)

lemma normalizeResource_trimmed: "normalizeResource parse v = Inr w \<Longrightarrow> w = TrimSpace v"
  by (auto simp: normalizeResource_def Let_def split: if_splits option.splits)

definition trimmed :: "string \<Rightarrow> bool" where
  "trimmed v \<longleftrightarrow> TrimSpace v = v"

lemma trimmed_Nil [simp]: "trimmed []"
  by (simp add: trimmed_def)

lemma normalizeExpiry_same: "normalizeExpiry v = Inr w \<Longrightarrow> w = v"
  by (auto simp: normalizeExpiry_def split: option.splits if_splits)

section \<open>Whole inputs\<close>

text \<open>What a normalized input promises about class, provenance and scopes.\<close>

definition issued_ok :: "create_input \<Rightarrow> bool" where
  "issued_ok n \<longleftrightarrow> list_all trimmed [ci_Name n, ci_Resource n, ci_ClientID n, ci_ApprovingUserID n, ci_SessionID n, ci_FamilyID n] \<and>
     credential_id_ok (ci_CredentialID n) \<and> token_hash_ok (ci_TokenHash n) \<and>
     scopes_ok (ci_Scopes n) \<and> repositories_ok (ci_RepositoryScopes n) \<and> class_Valid (ci_ClientClass n) \<and>
     (UserApproved (ci_ClientClass n) \<longleftrightarrow> ci_ApprovingUserID n \<noteq> '''') \<and>
     (ci_ClientClass n = ClientClassOAuthUser \<or> ci_ClientClass n = ClientClassBrowser \<longrightarrow> ci_Resource n \<noteq> '''' \<and> ci_ClientID n \<noteq> '''') \<and>
     (ci_ClientClass n = ClientClassBrowser \<longrightarrow> ci_SessionID n \<noteq> '''' \<and> ci_FamilyID n \<noteq> '''' \<and>
        (\<exists>fe t. ci_FamilyExpiresAt n = Some fe \<and> ci_ExpiresAt n = Some t \<and> t \<le> fe)) \<and>
     (ci_ClientClass n \<noteq> ClientClassBrowser \<longrightarrow> ci_SessionID n = '''' \<and> ci_FamilyID n = '''' \<and> ci_FamilyExpiresAt n = None)"

lemma normalizeBinding_normal:
  "normalizeBinding i = Inr b \<Longrightarrow> ci_IssuanceProvenance m = ci_IssuanceProvenance i \<Longrightarrow> ci_WorkloadBindingID m = b \<Longrightarrow>
    (ci_Resource i = '''' \<Longrightarrow> ci_Resource m = '''') \<Longrightarrow> normalizeBinding m = Inr b"
  by (auto simp: normalizeBinding_def and_then_Inr dest: normalizeText_normal split: if_splits)

lemma normalizeCreate_fields:
  assumes "normalizeFields parse i = Inr m"
  shows "normalizeFields parse (m\<lparr>ci_ClientClass := cls\<rparr>) = Inr (m\<lparr>ci_ClientClass := cls\<rparr>)" "credential_id_ok (ci_CredentialID m)" "token_hash_ok (ci_TokenHash m)"
    "scopes_ok (ci_Scopes m)" "repositories_ok (ci_RepositoryScopes m)" "normalizeIdentifier ''organization'' (ci_OrgID m) = Inr (ci_OrgID m)"
    "ci_IssuanceProvenance m = ci_IssuanceProvenance i" "ci_ClientClass m = ci_ClientClass i" "ci_ExpiresAt m = ci_ExpiresAt i"
    "ci_FamilyExpiresAt m = ci_FamilyExpiresAt i" "normalizeCredentialID (ci_CredentialID i) = Inr (ci_CredentialID m)"
    "normalizeTokenHash (ci_TokenHash i) = Inr (ci_TokenHash m)" "normalizeIdentifier ''organization'' (ci_OrgID i) = Inr (ci_OrgID m)"
    "ci_Name m = TrimSpace (ci_Name i)" "ci_Resource m = TrimSpace (ci_Resource i)" "ci_ClientID m = TrimSpace (ci_ClientID i)"
    "ci_ApprovingUserID m = TrimSpace (ci_ApprovingUserID i)" "ci_SessionID m = TrimSpace (ci_SessionID i)" "ci_FamilyID m = TrimSpace (ci_FamilyID i)"
proof -
  from assms obtain credentialID orgID name tokenHash repositories scopes actor expiry binding resource client approving session family
    where f: "normalizeCredentialID (ci_CredentialID i) = Inr credentialID" "normalizeIdentifier ''organization'' (ci_OrgID i) = Inr orgID"
      "normalizeText ''name'' (ci_Name i) 200 = Inr name" "token_prefix_ok (TrimSpace (ci_TokenPrefix i))"
      "normalizeTokenHash (ci_TokenHash i) = Inr tokenHash" "normalizeRepositories (ci_RepositoryScopes i) = Inr repositories"
      "normalizeScopes (ci_Scopes i) = Inr scopes" "normalizeText ''actor'' (ci_ActorID i) 200 = Inr actor"
      "normalizeExpiry (ci_ExpiresAt i) = Inr expiry" "normalizeBinding i = Inr binding" "normalizeResource parse (ci_Resource i) = Inr resource"
      "normalizeOptionalText ''client id'' (ci_ClientID i) 2048 = Inr client" "normalizeOptionalText ''approving user'' (ci_ApprovingUserID i) 200 = Inr approving"
      "normalizeOptionalText ''session id'' (ci_SessionID i) 256 = Inr session" "normalizeOptionalText ''family id'' (ci_FamilyID i) 256 = Inr family"
    and m: "m = i\<lparr>ci_CredentialID := credentialID, ci_OrgID := orgID, ci_Name := name, ci_TokenPrefix := TrimSpace (ci_TokenPrefix i),
      ci_TokenHash := tokenHash, ci_RepositoryScopes := repositories, ci_Scopes := scopes, ci_ActorID := actor,
      ci_ExpiresAt := expiry, ci_WorkloadBindingID := binding, ci_Resource := resource, ci_ClientID := client,
      ci_ApprovingUserID := approving, ci_SessionID := session, ci_FamilyID := family\<rparr>"
    unfolding normalizeFields_def by (auto simp: and_then_Inr)
  have e: "expiry = ci_ExpiresAt i" using f(9) by (rule normalizeExpiry_same)
  have b: "normalizeBinding (m\<lparr>ci_ClientClass := cls\<rparr>) = Inr binding"
    by (rule normalizeBinding_normal [OF f(10)]) (use f(11) in \<open>auto simp: m normalizeResource_def\<close>)
  show "normalizeFields parse (m\<lparr>ci_ClientClass := cls\<rparr>) = Inr (m\<lparr>ci_ClientClass := cls\<rparr>)"
    unfolding normalizeFields_def b using f(4,9) e
    by (simp add: m check_that_def normalizeCredentialID_normal [OF f(1)] normalizeIdentifier_normal [OF f(2)] normalizeText_normal [OF f(3)]
        normalizeTokenHash_normal [OF f(5)] normalizeText_normal [OF f(8)] normalizeResource_normal [OF f(11)]
        normalizeOptionalText_normal [OF f(12)] normalizeOptionalText_normal [OF f(13)] normalizeOptionalText_normal [OF f(14)]
        normalizeOptionalText_normal [OF f(15)]
        normalizeScopes_normal [OF normalizeScopes_result [OF f(7)]] normalizeRepositories_normal [OF normalizeRepositories_result [OF f(6)]])
  show "credential_id_ok (ci_CredentialID m)" "token_hash_ok (ci_TokenHash m)"
    using f(1,5) by (auto simp: m normalizeCredentialID_def normalizeTokenHash_def Let_def split: if_splits)
  show "scopes_ok (ci_Scopes m)" "repositories_ok (ci_RepositoryScopes m)"
    using normalizeScopes_result [OF f(7)] normalizeRepositories_result [OF f(6)] by (simp_all add: m)
  show "normalizeIdentifier ''organization'' (ci_OrgID m) = Inr (ci_OrgID m)" using normalizeIdentifier_normal [OF f(2)] by (simp add: m)
  show "ci_IssuanceProvenance m = ci_IssuanceProvenance i" "ci_ClientClass m = ci_ClientClass i" "ci_ExpiresAt m = ci_ExpiresAt i"
    "ci_FamilyExpiresAt m = ci_FamilyExpiresAt i" "normalizeCredentialID (ci_CredentialID i) = Inr (ci_CredentialID m)"
    "normalizeTokenHash (ci_TokenHash i) = Inr (ci_TokenHash m)" "normalizeIdentifier ''organization'' (ci_OrgID i) = Inr (ci_OrgID m)"
    using f(1,2,5) e by (simp_all add: m)
  show "ci_Name m = TrimSpace (ci_Name i)" "ci_Resource m = TrimSpace (ci_Resource i)" "ci_ClientID m = TrimSpace (ci_ClientID i)"
    "ci_ApprovingUserID m = TrimSpace (ci_ApprovingUserID i)" "ci_SessionID m = TrimSpace (ci_SessionID i)" "ci_FamilyID m = TrimSpace (ci_FamilyID i)"
    using normalizeText_trimmed [OF f(3)] normalizeResource_trimmed [OF f(11)] normalizeOptionalText_trimmed [OF f(12)]
      normalizeOptionalText_trimmed [OF f(13)] normalizeOptionalText_trimmed [OF f(14)] normalizeOptionalText_trimmed [OF f(15)]
    by (simp_all add: m)
qed

lemma deriveClientClass_result:
  "deriveClientClass i = Inr class \<Longrightarrow>
    class \<in> {ClientClassOrgBearer, ClientClassWorkload, ClientClassNativeDevice, ClientClassOAuthUser} \<and>
    (UserApproved class \<longleftrightarrow> ci_ApprovingUserID i \<noteq> '''') \<and>
    (class = ClientClassOAuthUser \<longrightarrow> ci_Resource i \<noteq> '''' \<and> ci_ClientID i \<noteq> '''')"
  by (auto simp: deriveClientClass_def UserApproved_def split: if_splits)

lemma deriveClientClass_same [simp]: "deriveClientClass (i\<lparr>ci_ClientClass := c\<rparr>) = deriveClientClass i"
  by (simp add: deriveClientClass_def)

lemma settle_class_cases:
  assumes "settle_class i = Inr n"
  obtains (plain) derived where "deriveClientClass i = Inr derived" "n = i\<lparr>ci_ClientClass := derived\<rparr>" "ci_ClientClass i \<noteq> ClientClassBrowser"
      "ci_SessionID i = ''''" "ci_FamilyID i = ''''" "ci_FamilyExpiresAt i = None" "ci_ClientClass i = '''' \<or> ci_ClientClass i = derived"
    | (browser) fe t where "deriveClientClass i = Inr ClientClassOAuthUser" "n = i" "ci_ClientClass i = ClientClassBrowser"
      "ci_FamilyExpiresAt i = Some fe" "ci_ExpiresAt i = Some t" "t \<le> fe" "ci_SessionID i \<noteq> ''''" "ci_FamilyID i \<noteq> ''''"
proof (cases "deriveClientClass i")
  case (Inr derived)
  have cls: "derived \<noteq> ClientClassBrowser" "derived \<noteq> ''''" using deriveClientClass_result [OF Inr] by auto
  show ?thesis
  proof (cases "ci_ClientClass i = ClientClassBrowser")
    case True
    then have oauth: "derived = ClientClassOAuthUser"
      using assms Inr cls by (auto simp: settle_class_def split: if_splits)
    then obtain fe t where "ci_FamilyExpiresAt i = Some fe" "ci_ExpiresAt i = Some t" "t \<le> fe" "ci_SessionID i \<noteq> ''''" "ci_FamilyID i \<noteq> ''''"
        "n = i\<lparr>ci_ClientClass := ClientClassBrowser\<rparr>"
      using assms Inr True by (auto simp: settle_class_def split: if_splits option.splits)
    then show ?thesis using browser Inr oauth True by simp
  next
    case False
    with assms Inr cls show ?thesis by (intro plain [OF Inr]) (auto simp: settle_class_def split: if_splits)
  qed
qed (use assms in \<open>simp add: settle_class_def\<close>)

lemma settle_class_normal:
  assumes "settle_class i = Inr n"
  shows "settle_class n = Inr n"
  using assms
proof (cases rule: settle_class_cases)
  case (plain derived)
  then show ?thesis using deriveClientClass_result [OF plain(1)] by (auto simp: settle_class_def)
next
  case (browser fe t)
  then show ?thesis using deriveClientClass_result [OF browser(1)] by (simp add: settle_class_def)
qed

lemma normalizeCreate_normal:
  assumes "normalizeCreate parse i = Inr n"
  shows "normalizeCreate parse n = Inr n"
proof -
  from assms obtain m where m: "normalizeFields parse i = Inr m" "settle_class m = Inr n"
    by (auto simp: normalizeCreate_def and_then_Inr)
  have "n = m\<lparr>ci_ClientClass := ci_ClientClass n\<rparr>" using m(2) by (cases rule: settle_class_cases) simp_all
  then have "normalizeFields parse n = Inr n"
    using normalizeCreate_fields(1) [OF m(1), of "ci_ClientClass n"] by simp
  with settle_class_normal [OF m(2)] show ?thesis by (simp add: normalizeCreate_def)
qed

lemma normalizeCreate_issued:
  assumes "normalizeCreate parse i = Inr n"
  shows "issued_ok n" "normalizeCredentialID (ci_CredentialID i) = Inr (ci_CredentialID n)"
    "normalizeTokenHash (ci_TokenHash i) = Inr (ci_TokenHash n)" "normalizeIdentifier ''organization'' (ci_OrgID i) = Inr (ci_OrgID n)"
    "ci_Resource n = TrimSpace (ci_Resource i)" "ci_ClientID n = TrimSpace (ci_ClientID i)"
    "ci_ApprovingUserID n = TrimSpace (ci_ApprovingUserID i)" "ci_SessionID n = TrimSpace (ci_SessionID i)" "ci_FamilyID n = TrimSpace (ci_FamilyID i)"
    "ci_ExpiresAt n = ci_ExpiresAt i" "ci_FamilyExpiresAt n = ci_FamilyExpiresAt i" "ci_IssuanceProvenance n = ci_IssuanceProvenance i"
    "ci_ClientClass i = '''' \<or> ci_ClientClass n = ci_ClientClass i"
    "scopes_ok (ci_Scopes i) \<Longrightarrow> ci_Scopes n = ci_Scopes i" "repositories_ok (ci_RepositoryScopes i) \<Longrightarrow> ci_RepositoryScopes n = ci_RepositoryScopes i"
proof -
  from assms obtain m where m: "normalizeFields parse i = Inr m" "settle_class m = Inr n"
    by (auto simp: normalizeCreate_def and_then_Inr)
  note f = normalizeCreate_fields [OF m(1)]
  have n: "n = m\<lparr>ci_ClientClass := ci_ClientClass n\<rparr>" using m(2) by (cases rule: settle_class_cases) simp_all
  show "normalizeCredentialID (ci_CredentialID i) = Inr (ci_CredentialID n)"
    "normalizeTokenHash (ci_TokenHash i) = Inr (ci_TokenHash n)" "normalizeIdentifier ''organization'' (ci_OrgID i) = Inr (ci_OrgID n)"
    by (subst n, simp add: f(11-13))+
  show "ci_Resource n = TrimSpace (ci_Resource i)" "ci_ClientID n = TrimSpace (ci_ClientID i)"
    "ci_ApprovingUserID n = TrimSpace (ci_ApprovingUserID i)" "ci_SessionID n = TrimSpace (ci_SessionID i)" "ci_FamilyID n = TrimSpace (ci_FamilyID i)"
    "ci_ExpiresAt n = ci_ExpiresAt i" "ci_FamilyExpiresAt n = ci_FamilyExpiresAt i" "ci_IssuanceProvenance n = ci_IssuanceProvenance i"
    by (subst n, simp add: f(7,9,10,14-19))+
  show "ci_ClientClass i = '''' \<or> ci_ClientClass n = ci_ClientClass i"
    using m(2) by (cases rule: settle_class_cases) (auto simp: f(8))
  have sc: "normalizeScopes (ci_Scopes i) = Inr (ci_Scopes n)" "normalizeRepositories (ci_RepositoryScopes i) = Inr (ci_RepositoryScopes n)"
    using m(1) by (subst n, auto simp: normalizeFields_def and_then_Inr)+
  show "scopes_ok (ci_Scopes i) \<Longrightarrow> ci_Scopes n = ci_Scopes i" "repositories_ok (ci_RepositoryScopes i) \<Longrightarrow> ci_RepositoryScopes n = ci_RepositoryScopes i"
    using sc normalizeScopes_normal [of "ci_Scopes i"] normalizeRepositories_normal [of "ci_RepositoryScopes i"] by simp_all
  have tr: "list_all trimmed [ci_Name m, ci_Resource m, ci_ClientID m, ci_ApprovingUserID m, ci_SessionID m, ci_FamilyID m]"
    by (simp add: f(14-19) trimmed_def)
  from m(2) show "issued_ok n"
  proof (cases rule: settle_class_cases)
    case (plain derived)
    with deriveClientClass_result [OF plain(1)] f(2-5) tr show ?thesis by (auto simp: issued_ok_def class_Valid_def)
  next
    case (browser fe t)
    with deriveClientClass_result [OF browser(1)] f(2-5) tr show ?thesis by (auto simp: issued_ok_def class_Valid_def UserApproved_def)
  qed
qed


lemma scopes_loop_trim: "scopes_loop vs acc = Inr w \<Longrightarrow> set w = set acc \<union> TrimSpace ` set vs"
  by (induction vs acc rule: scopes_loop.induct) (auto simp: Let_def split: if_splits)

lemma normalizeScopes_trim: "normalizeScopes vs = Inr w \<Longrightarrow> set w = TrimSpace ` set vs"
  by (auto simp: normalizeScopes_def and_then_Inr dest: scopes_loop_trim split: if_splits)

lemma normalizeCreate_scopes:
  assumes "normalizeCreate parse i = Inr n"
  shows "normalizeScopes (ci_Scopes i) = Inr (ci_Scopes n)" "normalizeRepositories (ci_RepositoryScopes i) = Inr (ci_RepositoryScopes n)"
proof -
  from assms obtain m where m: "normalizeFields parse i = Inr m" "settle_class m = Inr n"
    by (auto simp: normalizeCreate_def and_then_Inr)
  have n: "n = m\<lparr>ci_ClientClass := ci_ClientClass n\<rparr>" using m(2) by (cases rule: settle_class_cases) simp_all
  show "normalizeScopes (ci_Scopes i) = Inr (ci_Scopes n)" "normalizeRepositories (ci_RepositoryScopes i) = Inr (ci_RepositoryScopes n)"
    using m(1) by (subst n, auto simp: normalizeFields_def and_then_Inr)+
qed

end
