(* ===== verification/Repository_Grants.thy ===== *)
theory Repository_Grants
  imports Submission Credential_Facts Credential_Normal
begin

text \<open>
  What a caller may read: repository scopes and grant classes, \<^verbatim>\<open>src/internal/auth/repository.go\<close> and
  \<^verbatim>\<open>grant_class.go\<close>, and the request of a credential with its normal form, \<^verbatim>\<open>types.go\<close>. The facts below give the
  scopes a meaning, the set of repositories they allow, and show that covering a scope means allowing what it allows.
\<close>

section \<open>Scopes\<close>

definition ReservedRepositoryScopePrefix :: string where "ReservedRepositoryScopePrefix = ''acr-reserved:''"

definition IsReservedRepositoryScope :: "string \<Rightarrow> bool" where
  "IsReservedRepositoryScope value = has_prefix (ToLower (TrimSpace value)) ReservedRepositoryScopePrefix"

fun repository_scopes_loop :: "string list \<Rightarrow> string list \<Rightarrow> string list option" where
  "repository_scopes_loop [] result = Some result"
| "repository_scopes_loop (raw # rest) result =
    (let scope = ToLower (TrimSpace raw)
     in if IsReservedRepositoryScope scope then None
        else if \<not> ValidScope scope then None
        else if scope \<in> set result then repository_scopes_loop rest result
        else repository_scopes_loop rest (result @ [scope]))"

definition NormalizeRepositoryScopes :: "string list \<Rightarrow> string list option" where
  "NormalizeRepositoryScopes scopes =
    (if scopes = [] then None else map_option sort (repository_scopes_loop scopes []))"

definition NormalizeRepositorySlug :: "string \<Rightarrow> string option" where
  "NormalizeRepositorySlug slug = (let normalized = ToLower (TrimSpace slug) in if \<not> ValidSlug normalized then None else Some normalized)"

definition owner_of :: "string \<Rightarrow> string" where
  "owner_of slug = takeWhile (\<lambda>c. c \<noteq> CHR ''/'') slug"

definition scope_allows :: "string \<Rightarrow> string \<Rightarrow> bool" where
  "scope_allows raw normalized =
    (let scope = ToLower (TrimSpace raw)
     in if IsReservedRepositoryScope scope then False
        else scope = ''*'' \<or> scope = normalized \<or> scope = owner_of normalized @ ''/*'')"

definition RepositoryAllowed :: "string list \<Rightarrow> string \<Rightarrow> bool" where
  "RepositoryAllowed scopes slug =
    (case NormalizeRepositorySlug slug of None \<Rightarrow> False | Some normalized \<Rightarrow> list_ex (\<lambda>raw. scope_allows raw normalized) scopes)"

definition repositorySlugFault :: "string \<Rightarrow> string" where
  "repositorySlugFault slug =
    (let normalized = ToLower (TrimSpace slug); parts = split_on (CHR ''/'') normalized
     in if length parts < 2 then ''not of the form owner/repo''
        else if length parts > MaxSlugSegments then ''more than 20 segments''
        else if length normalized > MaxSlugBytes then ''longer than 255 characters''
        else if Fault (hd parts) True \<noteq> '''' then ''owner '' @ Fault (hd parts) True
        else case find (\<lambda>part. Fault part True \<noteq> '''') (tl (butlast parts)) of
          Some part \<Rightarrow> ''group '' @ Fault part True
        | None \<Rightarrow>
            if Fault (last parts) False \<noteq> '''' then ''repository '' @ Fault (last parts) False else ''invalid repository slug'')"

definition repositoryScopeCovers :: "string \<Rightarrow> string \<Rightarrow> bool" where
  "repositoryScopeCovers parent requested =
    (if parent = ''*'' \<or> parent = requested then True
     else if has_suffix parent ''/*'' then CHR ''/'' \<in> set requested \<and> owner_of requested = trim_suffix parent ''/*''
     else False)"

section \<open>Grant classes\<close>

datatype grant_class = GrantUnrestricted | GrantUniversal | GrantRestricted | GrantProjectOnly

definition IsRestricted :: "grant_class \<Rightarrow> bool" where
  "IsRestricted c = (case c of GrantUnrestricted \<Rightarrow> False | GrantUniversal \<Rightarrow> False | GrantRestricted \<Rightarrow> True | GrantProjectOnly \<Rightarrow> True)"

definition HoldsProjectGrant :: "principal \<Rightarrow> bool" where
  "HoldsProjectGrant p \<longleftrightarrow> p_ProjectScopes p \<noteq> []"

definition ClassifyGrant :: "principal \<Rightarrow> grant_class" where
  "ClassifyGrant p =
    (if HoldsProjectGrant p then GrantProjectOnly
     else if p_RepositoryScopes p = [] then GrantUnrestricted
     else if list_ex (\<lambda>scope. TrimSpace scope = ''*'') (p_RepositoryScopes p) then GrantUniversal
     else GrantRestricted)"

definition AuthorizeRepository :: "principal \<Rightarrow> string \<Rightarrow> bool" where
  "AuthorizeRepository p slug \<longleftrightarrow> \<not> (ClassifyGrant p = GrantProjectOnly \<or> \<not> RepositoryAllowed (p_RepositoryScopes p) slug)"

section \<open>Requests\<close>

record create_request =
  cq_OrgID :: string
  cq_Name :: string
  cq_RepositoryScopes :: "string list"
  cq_Scopes :: "string list"
  cq_CreatedBy :: string
  cq_ExpiresAt :: "time option"
  cq_IssuanceProvenance :: string
  cq_WorkloadBindingID :: string
  cq_Resource :: string
  cq_ClientID :: string
  cq_ClientClass :: string
  cq_FamilyID :: string
  cq_FamilyExpiresAt :: "time option"

definition auth_knownScopes :: "string list" where
  "auth_knownScopes = [''context:read'', ''evidence:read'', ''episode:write'', ''data:read'', ''credential_lifecycle:read'',
     ''credential_lifecycle:revoke'']"

fun auth_scopes_loop :: "string list \<Rightarrow> string list \<Rightarrow> string list option" where
  "auth_scopes_loop [] result = Some result"
| "auth_scopes_loop (raw # rest) result =
    (let scope = TrimSpace raw
     in if scope \<notin> set auth_knownScopes then None
        else if scope \<in> set result then auth_scopes_loop rest result
        else auth_scopes_loop rest (result @ [scope]))"

definition auth_normalizeScopes :: "string list \<Rightarrow> string list option" where
  "auth_normalizeScopes scopes =
    (if scopes = [] then Some [''context:read'', ''evidence:read'']
     else case auth_scopes_loop scopes [] of None \<Rightarrow> None | Some result \<Rightarrow> if result = [] then None else Some result)"

definition normalizeCreateRequest :: "create_request \<Rightarrow> create_request option" where
  "normalizeCreateRequest q =
    (let q1 = q\<lparr>cq_OrgID := TrimSpace (cq_OrgID q), cq_Name := TrimSpace (cq_Name q), cq_CreatedBy := TrimSpace (cq_CreatedBy q)\<rparr>
     in if cq_OrgID q1 = '''' \<or> cq_Name q1 = '''' \<or> cq_CreatedBy q1 = '''' then None
        else if length (cq_Name q1) > 200 then None
        else case NormalizeRepositoryScopes (cq_RepositoryScopes q1) of
          None \<Rightarrow> None
        | Some repositories \<Rightarrow>
            (case auth_normalizeScopes (cq_Scopes q1) of
               None \<Rightarrow> None
             | Some scopes \<Rightarrow>
                 let q2 = q1\<lparr>cq_RepositoryScopes := repositories, cq_Scopes := scopes, cq_ClientID := TrimSpace (cq_ClientID q1)\<rparr>
                 in if cq_ClientID q2 \<noteq> '''' \<and> cq_Resource q2 = '''' then None else Some q2))"

definition rotationWithinParent :: "client_credential \<Rightarrow> create_request \<Rightarrow> bool" where
  "rotationWithinParent parent successor \<longleftrightarrow>
     list_all (\<lambda>scope. scope \<in> set (map TrimSpace (cc_Scopes parent))) (cq_Scopes successor) \<and>
     list_all (\<lambda>requested. list_ex (\<lambda>held. repositoryScopeCovers (ToLower (TrimSpace held)) requested) (cc_RepositoryScopes parent))
       (cq_RepositoryScopes successor)"

section \<open>What scopes mean\<close>

lemma scope_chars_fixed:
  assumes "list_all scope_char v"
  shows "ToLower (TrimSpace v) = v" "\<not> IsReservedRepositoryScope v"
proof -
  have "list_all (\<lambda>c. 33 \<le> byte_of c \<and> byte_of c < 128 \<and> \<not> is_upper c) v" using assms scope_char_byte by (auto simp: list_all_iff)
  then show fixed: "ToLower (TrimSpace v) = v" using TrimSpace_plain [of v] ToLower_plain [of v] by (auto simp: list_all_iff)
  show "\<not> IsReservedRepositoryScope v"
  proof
    assume "IsReservedRepositoryScope v"
    then have "take (length ReservedRepositoryScopePrefix) v = ReservedRepositoryScopePrefix" using fixed by (simp add: IsReservedRepositoryScope_def has_prefix_def)
    moreover have "CHR '':'' \<in> set ReservedRepositoryScopePrefix" by (simp add: ReservedRepositoryScopePrefix_def)
    ultimately have "CHR '':'' \<in> set v" by (metis in_set_takeD)
    with assms have "scope_char (CHR '':'')" by (simp add: list_all_iff)
    then show False by (simp add: scope_char_def slug_char_def slug_alnum_def is_lower_def is_digit_def byte_of_def)
  qed
qed

lemma ValidScope_not_reserved: "ValidScope v \<Longrightarrow> \<not> IsReservedRepositoryScope v"
  by (rule scope_chars_fixed(2) [OF ValidScope_chars])

text \<open>The reserved prefix is outside the grammar, so the service and the store normalize scopes alike.\<close>

lemma repository_scopes_loop_store: "repository_scopes_loop vs acc = Some w \<longleftrightarrow> repositories_loop vs acc = Inr w"
  by (induction vs arbitrary: acc) (auto simp: Let_def ValidScope_not_reserved split: if_splits)

lemma NormalizeRepositoryScopes_store: "NormalizeRepositoryScopes vs = Some w \<longleftrightarrow> normalizeRepositories vs = Inr w"
  by (auto simp: NormalizeRepositoryScopes_def normalizeRepositories_def and_then_Inr repository_scopes_loop_store)

lemma NormalizeRepositoryScopes_ok: "NormalizeRepositoryScopes vs = Some w \<Longrightarrow> repositories_ok w"
  unfolding NormalizeRepositoryScopes_store by (rule normalizeRepositories_result)

lemma split_on_none: "sep \<notin> set s \<Longrightarrow> split_on sep s = [s]"
  unfolding split_on_def by (induction s) (auto simp: split_step_def)

lemma owner_of_slug: "ValidSlug s \<Longrightarrow> CHR ''/'' \<in> set s"
  by (rule ccontr) (simp add: split_on_none ValidSlug_def Let_def)

lemma owner_of_owner [simp]: "owner_of (owner_of s @ ''/*'') = owner_of s"
proof -
  have "\<forall>c \<in> set (owner_of s). c \<noteq> CHR ''/''" unfolding owner_of_def by (auto dest: set_takeWhileD)
  then show ?thesis by (simp add: owner_of_def takeWhile_append)
qed

lemma scope_allows_valid:
  assumes "ValidScope v"
  shows "scope_allows v s \<longleftrightarrow> v = ''*'' \<or> v = s \<or> v = owner_of s @ ''/*''"
  using ValidScope_normal [OF assms] ValidScope_not_reserved [OF assms] by (simp add: scope_allows_def)

lemma trim_suffix_back: "has_suffix v p \<Longrightarrow> trim_suffix v p @ p = v"
  by (auto simp: has_suffix_def trim_suffix_def) (metis append_take_drop_id)

text \<open>A scope that covers another allows what the other allows.\<close>

lemma covers_allows:
  assumes cov: "repositoryScopeCovers (ToLower (TrimSpace held)) requested" and v: "ValidScope requested" and s: "scope_allows requested s"
  shows "scope_allows held s"
proof -
  let ?parent = "ToLower (TrimSpace held)"
  have star: "ValidScope ''*''" by (simp add: ValidScope_def)
  have r: "requested = ''*'' \<or> requested = s \<or> requested = owner_of s @ ''/*''" using s scope_allows_valid [OF v] by simp
  consider (star) "?parent = ''*''" | (same) "?parent = requested" | (owner) "?parent = owner_of requested @ ''/*''" "CHR ''/'' \<in> set requested"
    using cov trim_suffix_back [of ?parent "''/*''"] unfolding repositoryScopeCovers_def by (metis (full_types))
  then show ?thesis
  proof cases
    case star
    then show ?thesis using ValidScope_not_reserved [OF \<open>ValidScope ''*''\<close>] by (simp add: scope_allows_def)
  next
    case same
    then show ?thesis using r ValidScope_not_reserved [OF v] by (simp add: scope_allows_def)
  next
    case owner
    have "list_all scope_char (owner_of requested @ ''/*'')"
      using ValidScope_chars [OF v] by (auto simp: owner_of_def list_all_iff scope_char_def dest: set_takeWhileD)
    then have "\<not> IsReservedRepositoryScope ?parent" using scope_chars_fixed(2) owner(1) by simp
    moreover have "owner_of requested = owner_of s" using r owner(2) by auto
    ultimately show ?thesis using owner(1) by (simp add: scope_allows_def)
  qed
qed

lemma allowed_mono:
  assumes "\<And>requested. requested \<in> set rs \<Longrightarrow> ValidScope requested \<and> list_ex (\<lambda>held. repositoryScopeCovers (ToLower (TrimSpace held)) requested) hs"
    "RepositoryAllowed rs slug"
  shows "RepositoryAllowed hs slug"
proof -
  obtain s requested where s: "NormalizeRepositorySlug slug = Some s" "requested \<in> set rs" "scope_allows requested s"
    using assms(2) by (auto simp: RepositoryAllowed_def list_ex_iff split: option.splits)
  from assms(1) [OF s(2)] obtain held where "held \<in> set hs" "repositoryScopeCovers (ToLower (TrimSpace held)) requested" "ValidScope requested"
    by (auto simp: list_ex_iff)
  with covers_allows s(3) have "scope_allows held s" by blast
  with s(1) \<open>held \<in> set hs\<close> show ?thesis by (auto simp: RepositoryAllowed_def list_ex_iff)
qed

section \<open>Covering is inclusion\<close>

lemma split_on_nonempty [simp]: "split_on sep s \<noteq> []"
  unfolding split_on_def by (induction s) (auto simp: split_step_def split: list.splits)

lemma split_on_Cons: "split_on sep (c # s) = split_step sep c (split_on sep s)"
  by (simp add: split_on_def)

lemma split_on_append: "split_on sep (x @ sep # r) = split_on sep x @ split_on sep r"
proof (induction x)
  case Nil
  show ?case using split_on_nonempty [of sep r] by (auto simp: split_on_Cons split_step_def split_on_none split: list.splits)
next
  case (Cons c x)
  obtain p ps where "split_on sep x = p # ps" by (metis neq_Nil_conv split_on_nonempty)
  then have "split_step sep c (split_on sep x @ ys) = split_step sep c (split_on sep x) @ ys" for ys by (simp add: split_step_def)
  with Cons show ?case by (simp add: split_on_Cons)
qed

lemma slug_no_suffix:
  assumes "ValidSlug s"
  shows "\<not> has_suffix s ''/*''"
proof
  assume "has_suffix s ''/*''"
  then obtain x where "s = x @ CHR ''/'' # ''*''" by (metis trim_suffix_back)
  then have "last (split_on (CHR ''/'') s) = ''*''" by (simp add: split_on_append split_on_none)
  with assms have "ValidName ''*''" by (simp add: ValidSlug_def Let_def)
  then show False by (simp add: ValidName_def slug_alnum_def is_lower_def is_digit_def byte_of_def)
qed

lemma suffix_append [simp]: "has_suffix (v @ ''/*'') ''/*''" "trim_suffix (v @ ''/*'') ''/*'' = v"
  by (simp_all add: has_suffix_def trim_suffix_def)

text \<open>A repository is no wildcard.\<close>

lemma slug_is_exact:
  assumes "ValidSlug v"
  shows "v \<noteq> ''*''" "v \<noteq> owner_of s @ ''/*''"
  using owner_of_slug [OF assms] slug_no_suffix [OF assms] by auto

lemma ValidSlug_scope: "ValidSlug s \<Longrightarrow> ValidScope s"
  using slug_is_exact(1) [of s] slug_no_suffix [of s] by (simp add: ValidScope_def)

lemma RepositoryAllowed_valid:
  assumes "ValidSlug s" "ValidScope v"
  shows "RepositoryAllowed [v] s \<longleftrightarrow> v = ''*'' \<or> v = s \<or> v = owner_of s @ ''/*''"
proof -
  have "NormalizeRepositorySlug s = Some s" using assms(1) ValidScope_normal [OF ValidSlug_scope] by (simp add: NormalizeRepositorySlug_def)
  then show ?thesis using scope_allows_valid [OF assms(2)] by (simp add: RepositoryAllowed_def)
qed

lemma ValidOwner_slug:
  assumes "ValidOwner o'" "c = CHR ''a'' \<or> c = CHR ''b''"
  shows "ValidSlug (o' @ [CHR ''/'', c])" "owner_of (o' @ [CHR ''/'', c]) = o'"
proof -
  have o: "CHR ''/'' \<notin> set o'"
    using assms(1) by (auto simp: ValidOwner_def list_all_iff slug_char_def slug_alnum_def is_lower_def is_digit_def byte_of_def)
  have "split_on (CHR ''/'') (o' @ [CHR ''/'', c]) = [o', [c]]"
    using split_on_append [of "CHR ''/''" o' "[c]"] split_on_none [OF o] split_on_none [of "CHR ''/''" "[c]"] assms(2) by auto
  moreover have "ValidName [c]" using assms(2) by (auto simp: ValidName_def slug_char_def slug_alnum_def is_lower_def is_digit_def byte_of_def)
  ultimately show "ValidSlug (o' @ [CHR ''/'', c])"
    using assms(1) by (simp add: ValidSlug_def MaxSlugBytes_def MaxSlugSegments_def ValidOwner_def)
  show "owner_of (o' @ [CHR ''/'', c]) = o'" using o by (auto simp: owner_of_def takeWhile_append)
qed

lemma ValidScope_cases:
  assumes "ValidScope v"
  obtains (all) "v = ''*''" | (owner) o' where "v = o' @ ''/*''" "ValidOwner o'" | (slug) "ValidSlug v"
  using assms trim_suffix_back [of v "''/*''"] unfolding ValidScope_def by (metis (full_types))

lemma covers_if_included:
  assumes p: "ValidScope parent" and r: "ValidScope requested"
    and inc: "\<And>slug. RepositoryAllowed [requested] slug \<Longrightarrow> RepositoryAllowed [parent] slug"
  shows "repositoryScopeCovers parent requested"
proof -
  have allowed: "parent = ''*'' \<or> parent = s \<or> parent = owner_of s @ ''/*''"
    if "ValidSlug s" "requested = ''*'' \<or> requested = s \<or> requested = owner_of s @ ''/*''" for s
    using inc RepositoryAllowed_valid [OF that(1)] p r that(2) by blast
  have own: "ValidOwner ''a''" "ValidOwner ''b''"
    by (simp_all add: ValidOwner_def slug_char_def slug_alnum_def is_lower_def is_digit_def byte_of_def)
  from r show ?thesis
  proof (cases rule: ValidScope_cases)
    case all
    have "ValidSlug ''a/a''" "owner_of ''a/a'' = ''a''" "ValidSlug ''b/a''" "owner_of ''b/a'' = ''b''"
      using ValidOwner_slug [OF own(1), of "CHR ''a''"] ValidOwner_slug [OF own(2), of "CHR ''a''"] by simp_all
    with allowed [of "''a/a''"] allowed [of "''b/a''"] all have "parent = ''*''" by auto
    then show ?thesis by (simp add: repositoryScopeCovers_def)
  next
    case (owner o')
    note sl = ValidOwner_slug [OF owner(2)]
    from allowed [of "o' @ ''/a''"] allowed [of "o' @ ''/b''"] sl [of "CHR ''a''"] sl [of "CHR ''b''"] owner(1)
    have "parent = ''*'' \<or> parent = requested" by auto
    then show ?thesis by (auto simp: repositoryScopeCovers_def)
  next
    case slug
    from allowed [OF slug] consider "parent = ''*'' \<or> parent = requested" | "parent = owner_of requested @ ''/*''" by blast
    then show ?thesis
    proof cases
      case 2
      then show ?thesis using owner_of_slug [OF slug] by (simp add: repositoryScopeCovers_def has_suffix_def trim_suffix_def)
    qed (auto simp: repositoryScopeCovers_def)
  qed
qed

text \<open>
  C33: covering is exactly inclusion. One valid repository scope covers another precisely when every repository the other
  allows is allowed by it, so the check of a rotation refuses no narrower scope and admits no wider one.
\<close>

theorem covers_is_inclusion:
  assumes "ValidScope parent" "ValidScope requested"
  shows "repositoryScopeCovers parent requested \<longleftrightarrow> (\<forall>slug. RepositoryAllowed [requested] slug \<longrightarrow> RepositoryAllowed [parent] slug)"
proof
  assume "repositoryScopeCovers parent requested"
  then show "\<forall>slug. RepositoryAllowed [requested] slug \<longrightarrow> RepositoryAllowed [parent] slug"
    using allowed_mono [of "[requested]" "[parent]"] assms ValidScope_normal [OF assms(1)] by simp
qed (use covers_if_included assms in blast)

theorem covers_is_inclusion_witness:
  "ValidScope ''acme/*'' \<and> ValidScope ''acme/widgets'' \<and> repositoryScopeCovers ''acme/*'' ''acme/widgets'' \<and>
   RepositoryAllowed [''acme/widgets''] ''Acme/Widgets'' \<and> RepositoryAllowed [''acme/*''] ''Acme/Widgets''"
proof -
  have v: "ValidScope ''acme/*''" "ValidScope ''acme/widgets''" "repositoryScopeCovers ''acme/*'' ''acme/widgets''" by code_simp+
  have "RepositoryAllowed [''acme/widgets''] ''Acme/Widgets''" by code_simp
  with covers_is_inclusion [OF v(1,2)] v show ?thesis by blast
qed

end
