(* ===== verification/Credential_Machine.thy ===== *)
theory Credential_Machine
  imports Credential_Facts
begin

text \<open>
  The credential store as a machine: its operations as a datatype, one step, the preservation of
  \<open>store_ok\<close>, and the preorder \<open>store_evolves\<close> along which the store changes (credentials never disappear, a
  revocation is final, the expiry never moves later, outbox and audit trail only grow). The
  interpretations of \<open>invariant_machine\<close> and \<open>evolving_machine\<close> at the end carry both to runs.
\<close>

section \<open>Operations\<close>

datatype credential_op =
    OpCreate env create_input
  | OpRotate env rotation_input
  | OpRevoke env revocation_input
  | OpRollback env rollback_input
  | OpTouch env string string string string time
  | OpAudit env audit_event

fun credential_step :: "libs \<Rightarrow> credential_op \<Rightarrow> credential_store \<Rightarrow> credential_store" where
  "credential_step lib (OpCreate e i) s = snd (CreateCredential lib e i s)"
| "credential_step lib (OpRotate e i) s = snd (RotateCredential lib e i s)"
| "credential_step lib (OpRevoke e i) s = snd (RevokeCredential lib e i s)"
| "credential_step lib (OpRollback e i) s = snd (RollbackCredentialRotation lib e i s)"
| "credential_step lib (OpTouch e org cid ip ua at) s = snd (TouchLastUsed lib e org cid ip ua at s)"
| "credential_step lib (OpAudit e event) s = snd (audit_Record e event s)"

text \<open>The error of an operation, if it fails.\<close>

fun credential_failure :: "libs \<Rightarrow> credential_op \<Rightarrow> credential_store \<Rightarrow> credential_error option" where
  "credential_failure lib (OpCreate e i) s = (case fst (CreateCredential lib e i s) of Inl err \<Rightarrow> Some err | Inr _ \<Rightarrow> None)"
| "credential_failure lib (OpRotate e i) s = (case fst (RotateCredential lib e i s) of Inl err \<Rightarrow> Some err | Inr _ \<Rightarrow> None)"
| "credential_failure lib (OpRevoke e i) s = (case fst (RevokeCredential lib e i s) of Inl err \<Rightarrow> Some err | Inr _ \<Rightarrow> None)"
| "credential_failure lib (OpRollback e i) s =
    (case fst (RollbackCredentialRotation lib e i s) of Inl err \<Rightarrow> Some err | Inr _ \<Rightarrow> None)"
| "credential_failure lib (OpTouch e org cid ip ua at) s = fst (TouchLastUsed lib e org cid ip ua at s)"
| "credential_failure lib (OpAudit e event) s = fst (audit_Record e event s)"

section \<open>Indexes and streams\<close>

lemma credential_at_some: "credential_at s org cid = Some r \<longleftrightarrow> map_of (cs_byID s) cid = Some r \<and> cc_OrgID (cr_Metadata r) = org"
  by (auto simp: credential_at_def split: option.splits if_splits)

lemma indexes_ok_put:
  assumes "indexes_ok byID byHash" "map_of byID cid = Some r" "cc_CredentialID (cr_Metadata r') = cid" "cr_TokenHash r' = cr_TokenHash r"
  shows "indexes_ok (put cid r' byID) byHash"
proof -
  have "\<exists>q. map_of (put cid r' byID) x = Some q \<and> cr_TokenHash q = h" if "map_of byHash h = Some x" for h x
  proof -
    have "\<exists>q. map_of byID x = Some q \<and> cr_TokenHash q = h" using assms(1) that unfolding indexes_ok_def by blast
    then obtain q where "map_of byID x = Some q" "cr_TokenHash q = h" by blast
    with assms(2,4) show ?thesis by (cases "x = cid") (simp_all add: map_simps)
  qed
  with assms show ?thesis unfolding indexes_ok_def by (auto simp: map_simps)
qed

lemma indexes_ok_add:
  assumes "indexes_ok byID byHash" "\<not> has_key byID cid" "\<not> has_key byHash h" "cc_CredentialID (cr_Metadata r) = cid" "cr_TokenHash r = h"
  shows "indexes_ok (put cid r byID) (put h cid byHash)"
  unfolding indexes_ok_def
proof (intro conjI allI impI)
  note ix = assms(1) [unfolded indexes_ok_def]
  show "wf_map (put cid r byID)" "wf_map (put h cid byHash)" using ix by simp_all
  fix x q assume q: "map_of (put cid r byID) x = Some q"
  show "cc_CredentialID (cr_Metadata q) = x" using q ix assms(4) by (auto simp: map_simps split: if_splits)
  show "map_of (put h cid byHash) (cr_TokenHash q) = Some x"
  proof (cases "x = cid")
    case False
    then have "map_of byHash (cr_TokenHash q) = Some x" using q ix by (simp add: map_simps)
    with assms(3) have "cr_TokenHash q \<noteq> h" by (auto simp: has_key_def)
    with \<open>map_of byHash (cr_TokenHash q) = Some x\<close> show ?thesis by (simp add: map_simps)
  qed (use q assms(5) in \<open>simp add: map_simps\<close>)
next
  note ix = assms(1) [unfolded indexes_ok_def]
  fix k x assume k: "map_of (put h cid byHash) k = Some x"
  show "\<exists>q. map_of (put cid r byID) x = Some q \<and> cr_TokenHash q = k"
  proof (cases "k = h")
    case False
    then have "map_of byHash k = Some x" using k by (simp add: map_simps)
    then have "\<exists>q. map_of byID x = Some q \<and> cr_TokenHash q = k" using ix by blast
    moreover have "x \<noteq> cid" using calculation assms(2) by (auto simp: has_key_def)
    ultimately show ?thesis by (simp add: map_simps)
  qed (use k assms(5) in \<open>simp add: map_simps\<close>)
qed

lemma streams_ok_change:
  assumes "streams_ok byID rows" "\<And>x. x \<noteq> cid \<Longrightarrow> stream x rows' = stream x rows" "stream_ok (cr_Metadata r) (stream cid rows')"
  shows "streams_ok (put cid r byID) rows'"
  unfolding streams_ok_def
proof
  fix x
  show "case map_of (put cid r byID) x of None \<Rightarrow> stream x rows' = [] | Some r \<Rightarrow> stream_ok (cr_Metadata r) (stream x rows')"
  proof (cases "x = cid")
    case False
    with assms(1) [unfolded streams_ok_def, rule_format, of x] assms(2) [OF False] show ?thesis
      by (cases "map_of byID x") (simp_all add: map_simps)
  qed (use assms(3) in \<open>simp add: map_simps\<close>)
qed

lemma stream_ok_same:
  "stream_ok c rows \<Longrightarrow> cc_RevokedAt c' = cc_RevokedAt c \<Longrightarrow> cc_OrgID c' = cc_OrgID c \<Longrightarrow> cc_CredentialID c' = cc_CredentialID c
    \<Longrightarrow> stream_ok c' rows"
  by (simp add: stream_ok_def opening_row_def closing_row_def cong: option.case_cong)

lemma streams_ok_put:
  assumes "streams_ok byID rows" "map_of byID cid = Some r" "cc_RevokedAt (cr_Metadata r') = cc_RevokedAt (cr_Metadata r)"
    "cc_OrgID (cr_Metadata r') = cc_OrgID (cr_Metadata r)" "cc_CredentialID (cr_Metadata r') = cc_CredentialID (cr_Metadata r)"
  shows "streams_ok (put cid r' byID) rows"
  by (rule streams_ok_change [OF assms(1)])
    (simp_all add: stream_ok_same [OF streams_ok_some [OF assms(1,2)] assms(3-5)])

lemma streams_ok_add:
  assumes "streams_ok byID rows" "\<not> has_key byID cid" "cc_CredentialID (cr_Metadata r) = cid" "cc_RevokedAt (cr_Metadata r) = None"
    "opening_row (cr_Metadata r) row"
  shows "streams_ok (put cid r byID) (rows @ [row])"
  using streams_ok_none [OF assms(1), of cid] assms(2-5)
  by (intro streams_ok_change [OF assms(1)]) (auto simp: has_key_def stream_ok_def opening_row_def)

lemma streams_ok_revoke:
  assumes "streams_ok byID rows" "map_of byID cid = Some r" "cc_CredentialID (cr_Metadata r) = cid" "cc_RevokedAt (cr_Metadata r) = None"
    "closing_row (cr_Metadata r) now row" "cr_Metadata r' = (cr_Metadata r)\<lparr>cc_RevokedAt := Some now\<rparr>"
  shows "streams_ok (put cid r' byID) (rows @ [row])"
  using streams_ok_some [OF assms(1,2)] assms(3-6)
  by (intro streams_ok_change [OF assms(1)]) (auto simp: stream_ok_def opening_row_def closing_row_def)

lemma indexes_ok_revoke:
  "indexes_ok byID byHash \<Longrightarrow> map_of byID cid = Some r \<Longrightarrow> indexes_ok (put cid (revoked_record now r) byID) byHash"
  by (rule indexes_ok_put) (auto simp: revoked_record_def indexes_ok_def)

lemma store_ok_rows: "store_ok (s\<lparr>cs_events := ev\<rparr>) = store_ok s"
  by (simp add: store_ok_def)

section \<open>Creating and touching\<close>

lemma create_cases:
  assumes "CreateCredential lib e i s = (r, s')"
  obtains (fail) err where "r = Inl err" "s' = s"
    | (created) n rows where "normalizeCreate (url_Parse lib) i = Inr n" "r = Inr (credentialFromCreate n (env_now e))"
      "\<not> has_key (cs_byID s) (ci_CredentialID n)" "\<not> has_key (cs_byHash s) (ci_TokenHash n)"
      "case ci_ExpiresAt n of None \<Rightarrow> True | Some t \<Rightarrow> t > env_now e"
      "opening_row (credentialFromCreate n (env_now e)) rows"
      "s' = s\<lparr>cs_ledger := cs_ledger s @ [rows],
         cs_events := cs_events s @ [credentialCreatedEvent \<lparr>cr_Metadata = credentialFromCreate n (env_now e), cr_TokenHash = ci_TokenHash n,
           cr_CreatedBy = ci_ActorID n, cr_RotatedAt = None, cr_LastUsedIP = '''', cr_LastUsedUserAgent = '''',
           cr_IssuanceProvenance = ci_IssuanceProvenance n\<rparr>],
         cs_byID := put (ci_CredentialID n) \<lparr>cr_Metadata = credentialFromCreate n (env_now e), cr_TokenHash = ci_TokenHash n,
           cr_CreatedBy = ci_ActorID n, cr_RotatedAt = None, cr_LastUsedIP = '''', cr_LastUsedUserAgent = '''',
           cr_IssuanceProvenance = ci_IssuanceProvenance n\<rparr> (cs_byID s),
         cs_byHash := put (ci_TokenHash n) (ci_CredentialID n) (cs_byHash s)\<rparr>"
proof (cases "\<exists>err. r = Inl err")
  case True
  then have "s' = s" using assms
    by (auto simp: CreateCredential_def createCredential_def Let_def dest: recordMutation_fail
        split: if_splits sum.splits option.splits prod.splits)
  with True show ?thesis using fail by blast
next
  case False
  then obtain n where n: "normalizeCreate (url_Parse lib) i = Inr n" "createCredential lib e n s = (r, s')"
    using assms by (auto simp: CreateCredential_def split: if_splits sum.splits)
  define c where "c = credentialFromCreate n (env_now e)"
  define cr where "cr = \<lparr>cr_Metadata = c, cr_TokenHash = ci_TokenHash n, cr_CreatedBy = ci_ActorID n, cr_RotatedAt = None,
    cr_LastUsedIP = '''', cr_LastUsedUserAgent = '''', cr_IssuanceProvenance = ci_IssuanceProvenance n\<rparr>"
  define f where "f = \<lparr>fa_Kind = CreateKind n, fa_Credential = c, fa_Revision = 0, fa_ParentID = '''', fa_At = env_now e,
    fa_Actor = CreateActor n\<rparr>"
  from n(2) False obtain s1 where m: "recordMutation lib e 3 (credentialCreatedEvent cr) None [f] s = (None, s1)" "r = Inr c"
      "s' = s1\<lparr>cs_byID := put (ci_CredentialID n) cr (cs_byID s1), cs_byHash := put (ci_TokenHash n) (ci_CredentialID n) (cs_byHash s1)\<rparr>"
      "\<not> has_key (cs_byID s) (ci_CredentialID n)" "\<not> has_key (cs_byHash s) (ci_TokenHash n)"
      "case ci_ExpiresAt n of None \<Rightarrow> True | Some t \<Rightarrow> t > env_now e"
    unfolding createCredential_def Let_def c_def cr_def f_def by (auto split: if_splits option.splits prod.splits)
  from m(1) obtain rows where rows: "s1 = s\<lparr>cs_ledger := rows, cs_events := cs_events s @ [credentialCreatedEvent cr]\<rparr>"
      "append_steps lib [f] (cs_ledger s) = (None, rows)"
    by (rule recordMutation_ok) simp
  from rows(2) have "ledger_Append lib f (cs_ledger s) = (None, rows)" by (simp split: prod.splits option.splits)
  then obtain row where row: "rows = cs_ledger s @ [row]" "opening_row c row"
    by (rule append_open) (simp_all add: f_def CreateKind_def)
  show ?thesis
    by (rule created [OF n(1) _ m(4-6)]) (use m(2,3) rows(1) row in \<open>simp_all add: c_def cr_def\<close>)
qed

lemma store_ok_create: "store_ok s \<Longrightarrow> store_ok (snd (CreateCredential lib e i s))"
proof -
  assume ok: "store_ok s"
  obtain r s' where c: "CreateCredential lib e i s = (r, s')" by fastforce
  then show ?thesis
  proof (cases rule: create_cases)
    case (created n rows)
    with ok c show ?thesis
      by (auto simp: store_ok_def credentialFromCreate_def intro!: indexes_ok_add streams_ok_add)
  qed (use ok c in simp)
qed

lemma touch_cases:
  "snd (TouchLastUsed lib e org cid ip ua at s) = s \<or>
    (\<exists>k r ip' ua'. map_of (cs_byID s) k = Some r \<and> fst (TouchLastUsed lib e org cid ip ua at s) = None \<and>
       snd (TouchLastUsed lib e org cid ip ua at s) = s\<lparr>cs_byID := put k (r\<lparr>cr_Metadata := (cr_Metadata r)\<lparr>cc_LastUsedAt := Some at\<rparr>,
         cr_LastUsedIP := ip', cr_LastUsedUserAgent := ua'\<rparr>) (cs_byID s)\<rparr>)"
  by (auto simp: TouchLastUsed_def credential_at_some split: if_splits sum.splits option.splits prod.splits)

lemma store_ok_put:
  assumes "store_ok s" "map_of (cs_byID s) cid = Some r" "cr_TokenHash r' = cr_TokenHash r"
    "cc_RevokedAt (cr_Metadata r') = cc_RevokedAt (cr_Metadata r)"
    "cc_OrgID (cr_Metadata r') = cc_OrgID (cr_Metadata r)" "cc_CredentialID (cr_Metadata r') = cc_CredentialID (cr_Metadata r)"
  shows "store_ok (s\<lparr>cs_byID := put cid r' (cs_byID s)\<rparr>)"
proof -
  have "cc_CredentialID (cr_Metadata r') = cid" using store_ok_id [OF assms(1,2)] assms(6) by simp
  then show ?thesis
    using assms(1) indexes_ok_put [OF _ assms(2) _ assms(3)] streams_ok_put [OF _ assms(2,4,5,6)] by (simp add: store_ok_def)
qed

lemma store_ok_touch: "store_ok s \<Longrightarrow> store_ok (snd (TouchLastUsed lib e org cid ip ua at s))"
  using touch_cases [of lib e org cid ip ua at s] by (auto intro!: store_ok_put)

section \<open>Revoking\<close>

text \<open>The members a revocation takes: distinct ids, each with its live record.\<close>

definition live_members :: "(string, credential_record) gomap \<Rightarrow> (string \<times> credential_record) list \<Rightarrow> bool" where
  "live_members byID ms \<longleftrightarrow> distinct (map fst ms) \<and>
     (\<forall>(cid, m) \<in> set ms. map_of byID cid = Some m \<and> cc_CredentialID (cr_Metadata m) = cid \<and> cc_RevokedAt (cr_Metadata m) = None)"

lemma live_members_tail:
  "live_members byID ((cid, m) # ms) \<Longrightarrow> live_members (put cid m' byID) ms"
  by (fastforce simp: live_members_def map_simps image_iff)

lemma map_of_revoke_all:
  "distinct (map fst ms) \<Longrightarrow> map_of (revoke_all now ms byID) x =
    (case map_of ms x of Some m \<Rightarrow> Some (revoked_record now m) | None \<Rightarrow> map_of byID x)"
proof (induction ms arbitrary: byID)
  case (Cons p ms)
  obtain cid m where p: "p = (cid, m)" by (cases p)
  have "map_of ms cid = None" using Cons.prems p by (simp add: map_of_eq_None_iff)
  with Cons.IH [of "put cid (revoked_record now m) byID"] Cons.prems p show ?case
    by (auto simp: revoke_all_def map_simps split: option.splits)
qed (simp add: revoke_all_def)

lemma indexes_ok_revoke_all:
  "indexes_ok byID byHash \<Longrightarrow> live_members byID ms \<Longrightarrow> indexes_ok (revoke_all now ms byID) byHash"
proof (induction ms arbitrary: byID)
  case (Cons p ms)
  obtain cid m where p: "p = (cid, m)" by (cases p)
  with Cons.prems have "indexes_ok (put cid (revoked_record now m) byID) byHash"
    by (intro indexes_ok_revoke) (simp_all add: live_members_def)
  from Cons.IH [OF this live_members_tail] Cons.prems(2) p show ?case by (simp add: revoke_all_def)
qed (simp add: revoke_all_def)

lemma revoke_rows_ok:
  assumes "revoke_rows lib e k i fam ms s = (None, s')" "streams_ok byID (cs_ledger s)" "live_members byID ms"
  shows "\<exists>rows evs. s' = s\<lparr>cs_ledger := cs_ledger s @ rows, cs_events := cs_events s @ evs\<rparr> \<and>
    streams_ok (revoke_all (env_now e) ms byID) (cs_ledger s @ rows)"
  using assms
proof (induction ms arbitrary: k s byID)
  case Nil
  then show ?case by (intro exI [of _ "[]"]) (simp add: revoke_all_def)
next
  case (Cons p ms)
  obtain cid m where p: "p = (cid, m)" by (cases p)
  have m: "map_of byID cid = Some m" "cc_CredentialID (cr_Metadata m) = cid" "cc_RevokedAt (cr_Metadata m) = None"
    using Cons.prems(3) p by (simp_all add: live_members_def)
  define f where "f = \<lparr>fa_Kind = KindRevoked, fa_Credential = cr_Metadata m, fa_Revision = 0, fa_ParentID = '''',
    fa_At = env_now e, fa_Actor = memberActor i cid\<rparr>"
  define ev where "ev = member_event i fam (env_now e) cid (cr_Metadata m)"
  obtain s1 where s1: "recordMutation lib e k ev None [f] s = (None, s1)" "revoke_rows lib e (k + 2) i fam ms s1 = (None, s')"
    using Cons.prems(1) p by (auto simp: f_def ev_def split: prod.splits option.splits)
  from s1(1) obtain rows where r: "s1 = s\<lparr>cs_ledger := rows, cs_events := cs_events s @ [ev]\<rparr>" "append_steps lib [f] (cs_ledger s) = (None, rows)"
    by (rule recordMutation_ok) simp
  from r(2) have "ledger_Append lib f (cs_ledger s) = (None, rows)" by (simp split: prod.splits option.splits)
  moreover have "stream_ok (cr_Metadata m) (stream (cc_CredentialID (cr_Metadata m)) (cs_ledger s))"
    using streams_ok_some [OF Cons.prems(2) m(1)] m(2) by simp
  ultimately obtain row where row: "rows = cs_ledger s @ [row]" "closing_row (cr_Metadata m) (env_now e) row"
    using append_revoked [of lib f "cs_ledger s" rows "cr_Metadata m"] m(3) by (auto simp: f_def)
  have "streams_ok (put cid (revoked_record (env_now e) m) byID) (cs_ledger s @ [row])"
    by (rule streams_ok_revoke [OF Cons.prems(2) m row(2)]) (simp add: revoked_record_def)
  from Cons.IH [OF s1(2), of "put cid (revoked_record (env_now e) m) byID"] this Cons.prems(3) live_members_tail r(1) row(1) p
  obtain rows2 evs where "s' = s1\<lparr>cs_ledger := cs_ledger s1 @ rows2, cs_events := cs_events s1 @ evs\<rparr>"
    "streams_ok (revoke_all (env_now e) ms (put cid (revoked_record (env_now e) m) byID)) (cs_ledger s1 @ rows2)"
    by fastforce
  with r(1) row(1) p show ?case
    by (intro exI [of _ "row # rows2"] exI [of _ "ev # evs"]) (simp add: revoke_all_def)
qed

lemma revoke_rows_extends:
  "revoke_rows lib e k i fam ms s = (r, s') \<Longrightarrow>
    \<exists>rows evs. s' = s\<lparr>cs_ledger := cs_ledger s @ rows, cs_events := cs_events s @ evs\<rparr>"
proof (induction ms arbitrary: k s)
  case Nil
  then show ?case by (intro exI [of _ "[]"]) simp
next
  case (Cons p ms)
  obtain cid m where p: "p = (cid, m)" by (cases p)
  let ?f = "\<lparr>fa_Kind = KindRevoked, fa_Credential = cr_Metadata m, fa_Revision = 0, fa_ParentID = '''',
    fa_At = env_now e, fa_Actor = memberActor i cid\<rparr>"
  let ?ev = "member_event i fam (env_now e) cid (cr_Metadata m)"
  obtain r1 s1 where s1: "recordMutation lib e k ?ev None [?f] s = (r1, s1)" by fastforce
  show ?case
  proof (cases r1)
    case (Some err)
    with s1 recordMutation_fail Cons.prems p show ?thesis by (intro exI [of _ "[]"]) fastforce
  next
    case None
    with s1 obtain rows where r: "s1 = s\<lparr>cs_ledger := rows, cs_events := cs_events s @ [?ev]\<rparr>" "append_steps lib [?f] (cs_ledger s) = (None, rows)"
      using recordMutation_ok [of lib e k ?ev None "[?f]" s s1] by auto
    obtain zs where "rows = cs_ledger s @ zs" using append_steps_extends [OF r(2)] by (auto simp: extends_iff)
    moreover have "\<exists>rows evs. s' = s1\<lparr>cs_ledger := cs_ledger s1 @ rows, cs_events := cs_events s1 @ evs\<rparr>"
      using Cons.IH [of "k + 2" s1] Cons.prems s1 None p by simp
    ultimately show ?thesis using r(1) by auto
  qed
qed

lemma live_members_of:
  assumes "store_ok s" "credential_at s org cid = Some r" "cc_RevokedAt (cr_Metadata r) = None"
  shows "live_members (cs_byID s) ((cid, r) # family_siblings (cr_Metadata r) org cid s)"
proof -
  have wf: "wf_map (cs_byID s)" using assms(1) by (simp add: store_ok_def indexes_ok_def)
  have d: "distinct (map fst (filter P (cs_byID s)))" for P
    using wf_map_filter [OF wf] by (simp add: wf_map_def)
  have k: "mset (map fst (sort_key fst xs)) = mset (map fst xs)" for xs :: "(string \<times> credential_record) list"
    by (simp only: mset_map mset_sort)
  have "distinct (map fst (family_siblings (cr_Metadata r) org cid s))"
    using d mset_eq_imp_distinct_iff [OF k] by (auto simp: family_siblings_def split: option.splits)
  moreover have "\<forall>(x, m) \<in> set (family_siblings (cr_Metadata r) org cid s). x \<noteq> cid \<and> map_of (cs_byID s) x = Some m \<and> cc_RevokedAt (cr_Metadata m) = None"
    using wf by (auto simp: family_siblings_def wf_map_def split: option.splits)
  ultimately show ?thesis
    using assms store_ok_id [OF assms(1)] by (auto simp: live_members_def credential_at_some)
qed

lemma revoke_cases:
  assumes "RevokeCredential lib e i s = (r, s')" "store_ok s"
  obtains (fail) err where "r = Inl err" "s' = s"
    | (revoked) n q rows evs where "normalizeRevocation i = Inr n" "credential_at s (vi_OrgID n) (vi_CredentialID n) = Some q"
      "cc_RevokedAt (cr_Metadata q) = None" "r = Inr (cr_Metadata (revoked_record (env_now e) q))"
      "live_members (cs_byID s) ((vi_CredentialID n, q) # family_siblings (cr_Metadata q) (vi_OrgID n) (vi_CredentialID n) s)"
      "streams_ok (revoke_all (env_now e) ((vi_CredentialID n, q) # family_siblings (cr_Metadata q) (vi_OrgID n) (vi_CredentialID n) s)
         (cs_byID s)) (cs_ledger s @ rows)"
      "s' = s\<lparr>cs_ledger := cs_ledger s @ rows, cs_events := cs_events s @ evs,
         cs_byID := revoke_all (env_now e) ((vi_CredentialID n, q) # family_siblings (cr_Metadata q) (vi_OrgID n) (vi_CredentialID n) s) (cs_byID s)\<rparr>"
proof -
  consider (early) err where "r = Inl err" "s' = s"
    | (go) n q where "normalizeRevocation i = Inr n" "credential_at s (vi_OrgID n) (vi_CredentialID n) = Some q"
        "cc_RevokedAt (cr_Metadata q) = None" "revokeCredential lib e n s = (r, s')" "\<not> env_err e 1" "\<not> env_err e 2"
    using assms(1) by (auto simp: RevokeCredential_def revokeCredential_def split: if_splits sum.splits option.splits)
  then show ?thesis
  proof cases
    case go
    let ?ms = "(vi_CredentialID n, q) # family_siblings (cr_Metadata q) (vi_OrgID n) (vi_CredentialID n) s"
    have lm: "live_members (cs_byID s) ?ms" by (rule live_members_of [OF assms(2) go(2,3)])
    obtain r1 s1 where rr: "revoke_rows lib e 3 n (cp_FamilyID (cc_Provenance (cr_Metadata q))) ?ms s = (r1, s1)" by fastforce
    show ?thesis
    proof (cases r1)
      case (Some err)
      with go rr have "r = Inl err" "s' = s1\<lparr>cs_ledger := TruncateTo (length (cs_ledger s)) (cs_ledger s1),
          cs_events := TruncateTo (length (cs_events s)) (cs_events s1)\<rparr>"
        by (simp_all add: revokeCredential_def Let_def)
      moreover obtain rows evs where "s1 = s\<lparr>cs_ledger := cs_ledger s @ rows, cs_events := cs_events s @ evs\<rparr>"
        using revoke_rows_extends [OF rr] by blast
      ultimately show ?thesis using fail by (simp add: TruncateTo_extends)
    next
      case None
      with go rr have *: "r = Inr (cr_Metadata (revoked_record (env_now e) q))" "s' = s1\<lparr>cs_byID := revoke_all (env_now e) ?ms (cs_byID s1)\<rparr>"
        by (simp_all add: revokeCredential_def Let_def)
      obtain rows evs where "s1 = s\<lparr>cs_ledger := cs_ledger s @ rows, cs_events := cs_events s @ evs\<rparr>"
        "streams_ok (revoke_all (env_now e) ?ms (cs_byID s)) (cs_ledger s @ rows)"
        using revoke_rows_ok [OF rr [unfolded None] _ lm] assms(2) by (auto simp: store_ok_def)
      with * show ?thesis by (intro revoked [OF go(1,2,3) *(1) lm]) simp_all
    qed
  qed (use fail in blast)
qed

lemma store_ok_revoke: "store_ok s \<Longrightarrow> store_ok (snd (RevokeCredential lib e i s))"
proof -
  assume ok: "store_ok s"
  obtain r s' where c: "RevokeCredential lib e i s = (r, s')" by fastforce
  then show ?thesis using ok
  proof (cases rule: revoke_cases)
    case (revoked n q rows evs)
    with ok c show ?thesis by (simp add: store_ok_def indexes_ok_revoke_all)
  qed (use ok c in simp)
qed

section \<open>Rotating and rolling back\<close>

lemma rollback_cases:
  assumes "RollbackCredentialRotation lib e i s = (r, s')" "store_ok s"
  obtains (fail) err where "r = Inl err" "s' = s"
    | (rolled) n source q row ev where "normalizeRotationRollback i = Inr n"
      "map_of (cs_byID s) (bi_SourceCredentialID n) = Some source" "map_of (cs_byID s) (bi_SuccessorCredentialID n) = Some q"
      "rollback_allowed n (env_now e) source q s" "r = Inr (cr_Metadata (revoked_record (env_now e) q))"
      "closing_row (cr_Metadata q) (env_now e) row"
      "s' = s\<lparr>cs_ledger := cs_ledger s @ [row], cs_events := cs_events s @ [ev],
         cs_byID := put (bi_SuccessorCredentialID n) (revoked_record (env_now e) q) (cs_byID s)\<rparr>"
proof -
  consider (early) err where "r = Inl err" "s' = s"
    | (go) n source q where "normalizeRotationRollback i = Inr n"
        "map_of (cs_byID s) (bi_SourceCredentialID n) = Some source" "map_of (cs_byID s) (bi_SuccessorCredentialID n) = Some q"
        "rollback_allowed n (env_now e) source q s" "rollbackCredentialRotation lib e n s = (r, s')" "\<not> env_err e 1" "\<not> env_err e 2"
        "bi_RollbackUntil n > env_now e"
    using assms(1)
    by (auto simp: RollbackCredentialRotation_def rollbackCredentialRotation_def split: if_splits sum.splits option.splits)
  then show ?thesis
  proof cases
    case go
    let ?f = "\<lparr>fa_Kind = KindRevoked, fa_Credential = cr_Metadata q, fa_Revision = 0, fa_ParentID = '''',
                fa_At = env_now e, fa_Actor = RollbackActor n\<rparr>"
    let ?ev = "credentialRevokedEvent (cr_Metadata q) (bi_ActorID n) (env_now e)"
    have cid: "cc_CredentialID (cr_Metadata q) = bi_SuccessorCredentialID n" by (rule store_ok_id [OF assms(2) go(3)])
    have live: "cc_RevokedAt (cr_Metadata q) = None" using go(4) by (simp add: rollback_allowed_def)
    obtain r1 s1 where m: "recordMutation lib e 3 ?ev None [?f] s = (r1, s1)" by fastforce
    show ?thesis
    proof (cases r1)
      case (Some err)
      with go m recordMutation_fail show ?thesis by (intro fail [of err]) (auto simp: rollbackCredentialRotation_def)
    next
      case None
      with m obtain rows where rw: "s1 = s\<lparr>cs_ledger := rows, cs_events := cs_events s @ [?ev]\<rparr>" "append_steps lib [?f] (cs_ledger s) = (None, rows)"
        using recordMutation_ok [of lib e 3 ?ev None "[?f]" s s1] by auto
      from rw(2) have "ledger_Append lib ?f (cs_ledger s) = (None, rows)" by (simp split: prod.splits option.splits)
      moreover have "stream_ok (cr_Metadata q) (stream (cc_CredentialID (cr_Metadata q)) (cs_ledger s))"
        using assms(2) streams_ok_some [OF _ go(3)] cid by (simp add: store_ok_def)
      ultimately obtain row where row: "rows = cs_ledger s @ [row]" "closing_row (cr_Metadata q) (env_now e) row"
        using append_revoked [of lib ?f "cs_ledger s" rows "cr_Metadata q"] live by auto
      show ?thesis
        by (rule rolled [OF go(1-4) _ row(2)]) (use go m None rw(1) row(1) cid in \<open>auto simp: rollbackCredentialRotation_def\<close>)
    qed
  qed (use fail in blast)
qed

lemma store_ok_rollback: "store_ok s \<Longrightarrow> store_ok (snd (RollbackCredentialRotation lib e i s))"
proof -
  assume ok: "store_ok s"
  obtain r s' where c: "RollbackCredentialRotation lib e i s = (r, s')" by fastforce
  then show ?thesis using ok
  proof (cases rule: rollback_cases)
    case (rolled n source q row ev)
    have "streams_ok (put (bi_SuccessorCredentialID n) (revoked_record (env_now e) q) (cs_byID s)) (cs_ledger s @ [row])"
      using ok rolled store_ok_id [OF ok rolled(3)]
      by (intro streams_ok_revoke [OF _ rolled(3) _ _ rolled(6)]) (simp_all add: store_ok_def rollback_allowed_def revoked_record_def)
    with ok c rolled show ?thesis by (simp add: store_ok_def indexes_ok_revoke)
  qed (use ok c in simp)
qed

text \<open>A source is revoked by a rotation exactly when the rotation has no overlap.\<close>

lemma overlap_ends: "(case overlapExpiry now overlap of None \<Rightarrow> True | Some t \<Rightarrow> \<not> t > now) \<longleftrightarrow> overlap \<le> 0"
  by (auto simp: overlapExpiry_def)

lemma rotated_source_revoked:
  "cc_RevokedAt (cr_Metadata q) = None \<Longrightarrow>
    cc_RevokedAt (cr_Metadata (rotated_source q overlap now)) = (if overlap \<le> 0 then Some now else None)"
  by (auto simp: rotated_source_def overlapExpiry_def Let_def split: option.splits)

lemma rotated_source_same [simp]:
  "cr_TokenHash (rotated_source q overlap now) = cr_TokenHash q"
  "cc_CredentialID (cr_Metadata (rotated_source q overlap now)) = cc_CredentialID (cr_Metadata q)"
  "cc_OrgID (cr_Metadata (rotated_source q overlap now)) = cc_OrgID (cr_Metadata q)"
  "cc_Provenance (cr_Metadata (rotated_source q overlap now)) = cc_Provenance (cr_Metadata q)"
  "cr_RotatedAt (rotated_source q overlap now) = Some now"
  by (auto simp: rotated_source_def Let_def split: option.splits)

definition replacement_record :: "rotation_input \<Rightarrow> credential_record \<Rightarrow> time \<Rightarrow> credential_record" where
  "replacement_record n q now = \<lparr>cr_Metadata = credentialFromRotation (ri_Replacement n) (cc_OrgID (cr_Metadata q)) now
       (cc_Resource (cr_Metadata q)) (cc_Provenance (cr_Metadata q)),
     cr_TokenHash = rr_TokenHash (ri_Replacement n), cr_CreatedBy = ri_ActorID n, cr_RotatedAt = None, cr_LastUsedIP = '''',
     cr_LastUsedUserAgent = '''', cr_IssuanceProvenance = ''''\<rparr>"

lemma rotation_rows:
  assumes "append_steps lib (rotation_steps n (cr_Metadata q) c now) (cs_ledger s) = (None, rows)" "store_ok s"
    "map_of (cs_byID s) cid = Some q" "cc_RevokedAt (cr_Metadata q) = None" "\<not> has_key (cs_byID s) (cc_CredentialID c)"
    "cc_RevokedAt c = None" "cr_Metadata r = c"
  shows "streams_ok (put (cc_CredentialID c) r (put cid (rotated_source q (rr_Overlap (ri_Replacement n)) now) (cs_byID s))) rows \<and>
    extends (cs_ledger s) rows \<and> ClassOf c \<noteq> ClientClassBrowser"
proof -
  let ?o = "rr_Overlap (ri_Replacement n)"
  define f where "f = \<lparr>fa_Kind = KindRotated, fa_Credential = c, fa_Revision = 0, fa_ParentID = cc_CredentialID (cr_Metadata q),
    fa_At = now, fa_Actor = RotationActor n\<rparr>"
  define g where "g = \<lparr>fa_Kind = KindRevoked, fa_Credential = cr_Metadata q, fa_Revision = 0, fa_ParentID = '''', fa_At = now,
    fa_Actor = RotationActor n\<rparr>"
  have steps: "rotation_steps n (cr_Metadata q) c now = f # (if ?o \<le> 0 then [g] else [])"
    unfolding rotation_steps_def Let_def overlap_ends f_def g_def by simp
  obtain rows1 where a: "ledger_Append lib f (cs_ledger s) = (None, rows1)" "append_steps lib (if ?o \<le> 0 then [g] else []) rows1 = (None, rows)"
    using assms(1) unfolding steps by (auto split: prod.splits option.splits)
  have "\<exists>row. BuildRow lib f = Inr row"
    using a(1) by (auto simp: ledger_Append_def f_def insertFacts_def split: sum.splits)
  then have "ClassOf c \<noteq> ClientClassBrowser"
    by (auto dest!: BuildRow_row simp: row_kind_def f_def Let_def split: if_splits)
  moreover obtain row where row: "rows1 = cs_ledger s @ [row]" "opening_row c row"
    using append_open [OF a(1)] by (auto simp: f_def)
  have qid: "cc_CredentialID (cr_Metadata q) = cid" by (rule store_ok_id [OF assms(2,3)])
  have st: "streams_ok (put (cc_CredentialID c) r (cs_byID s)) rows1"
    unfolding row(1) using assms(2,5-7) row(2) by (intro streams_ok_add) (simp_all add: store_ok_def)
  have ne: "cid \<noteq> cc_CredentialID c" using assms(3,5) by (auto simp: has_key_def)
  have q1: "map_of (put (cc_CredentialID c) r (cs_byID s)) cid = Some q" using assms(3) ne by (simp add: map_simps)
  have comm: "streams_ok (put (cc_CredentialID c) r (put cid q' (cs_byID s))) rows'" if "streams_ok (put cid q' (put (cc_CredentialID c) r (cs_byID s))) rows'" for q' rows'
    using that ne unfolding streams_ok_def by (auto simp: map_simps fun_upd_twist)
  show ?thesis
  proof (cases "?o \<le> 0")
    case False
    then have rows: "rows = rows1" using a(2) by simp
    have "streams_ok (put cid (rotated_source q ?o now) (put (cc_CredentialID c) r (cs_byID s))) rows1"
      using assms(4) False by (intro streams_ok_put [OF st q1]) (simp_all add: rotated_source_revoked)
    with comm rows row(1) \<open>ClassOf c \<noteq> ClientClassBrowser\<close> show ?thesis by simp
  next
    case True
    then have "ledger_Append lib g rows1 = (None, rows)" using a(2) by (simp split: prod.splits option.splits)
    moreover have "stream_ok (cr_Metadata q) (stream (cc_CredentialID (cr_Metadata q)) rows1)"
      using streams_ok_some [OF st q1] qid by simp
    ultimately obtain row2 where row2: "rows = rows1 @ [row2]" "closing_row (cr_Metadata q) now row2"
      using append_revoked [of lib g rows1 rows "cr_Metadata q"] assms(4) by (auto simp: g_def)
    have "cr_Metadata (rotated_source q ?o now) = (cr_Metadata q)\<lparr>cc_RevokedAt := Some now\<rparr>"
      using True by (simp add: rotated_source_def overlapExpiry_def)
    from streams_ok_revoke [OF st q1 qid assms(4) row2(2) this] comm row2(1) row(1) \<open>ClassOf c \<noteq> ClientClassBrowser\<close>
    show ?thesis by simp
  qed
qed

lemma rotate_cases:
  assumes "RotateCredential lib e i s = (r, s')" "store_ok s"
  obtains (fail) err where "r = Inl err" "s' = s"
    | (rotated) n q rows where "normalizeRotation (url_Parse lib) i = Inr n"
      "credential_at s (ri_OrgID n) (ri_SourceCredentialID n) = Some q" "cr_RotatedAt q = None" "cc_RevokedAt (cr_Metadata q) = None"
      "case rr_ExpiresAt (ri_Replacement n) of None \<Rightarrow> True | Some t \<Rightarrow> t > env_now e"
      "\<not> has_key (cs_byID s) (rr_CredentialID (ri_Replacement n))" "\<not> has_key (cs_byHash s) (rr_TokenHash (ri_Replacement n))"
      "r = Inr (cr_Metadata (replacement_record n q (env_now e)))"
      "streams_ok (put (rr_CredentialID (ri_Replacement n)) (replacement_record n q (env_now e))
         (put (ri_SourceCredentialID n) (rotated_source q (rr_Overlap (ri_Replacement n)) (env_now e)) (cs_byID s))) rows"
      "extends (cs_ledger s) rows" "ClassOf (cr_Metadata (replacement_record n q (env_now e))) \<noteq> ClientClassBrowser"
      "s' = s\<lparr>cs_ledger := rows, cs_events := cs_events s @ [credentialRotatedEvent (cr_Metadata q)
           (cr_Metadata (replacement_record n q (env_now e))) (ri_ActorID n) (rr_Overlap (ri_Replacement n)) (env_now e)],
         cs_byID := put (rr_CredentialID (ri_Replacement n)) (replacement_record n q (env_now e))
           (put (ri_SourceCredentialID n) (rotated_source q (rr_Overlap (ri_Replacement n)) (env_now e)) (cs_byID s)),
         cs_byHash := put (rr_TokenHash (ri_Replacement n)) (rr_CredentialID (ri_Replacement n)) (cs_byHash s)\<rparr>"
proof -
  consider (early) err where "r = Inl err" "s' = s"
    | (go) n q where "normalizeRotation (url_Parse lib) i = Inr n"
      "credential_at s (ri_OrgID n) (ri_SourceCredentialID n) = Some q" "cr_RotatedAt q = None" "cc_RevokedAt (cr_Metadata q) = None"
      "case rr_ExpiresAt (ri_Replacement n) of None \<Rightarrow> True | Some t \<Rightarrow> t > env_now e"
      "\<not> has_key (cs_byID s) (rr_CredentialID (ri_Replacement n))" "\<not> has_key (cs_byHash s) (rr_TokenHash (ri_Replacement n))"
      "rotateCredential lib e n s = (r, s')" "\<not> env_err e 1" "\<not> env_err e 2"
    using assms(1)
    by (auto simp: RotateCredential_def rotateCredential_def Let_def split: if_splits sum.splits option.splits)
  then show ?thesis
  proof cases
    case go
    let ?R = "replacement_record n q (env_now e)"
    define c where "c = cr_Metadata ?R"
    have c: "credentialFromRotation (ri_Replacement n) (cc_OrgID (cr_Metadata q)) (env_now e) (cc_Resource (cr_Metadata q)) (cc_Provenance (cr_Metadata q)) = c"
      by (simp add: c_def replacement_record_def)
    let ?ev = "credentialRotatedEvent (cr_Metadata q) c (ri_ActorID n) (rr_Overlap (ri_Replacement n)) (env_now e)"
    let ?steps = "rotation_steps n (cr_Metadata q) c (env_now e)"
    have q: "map_of (cs_byID s) (ri_SourceCredentialID n) = Some q" using go(2) by (simp add: credential_at_some)
    have cid: "cc_CredentialID c = rr_CredentialID (ri_Replacement n)" "cc_RevokedAt c = None"
      by (simp_all add: c_def replacement_record_def credentialFromRotation_def credentialFromCreate_def)
    obtain r1 s1 where m: "recordMutation lib e 3 ?ev (Some (cr_Metadata q)) ?steps s = (r1, s1)" by fastforce
    have noexp: "\<not> (case rr_ExpiresAt (ri_Replacement n) of None \<Rightarrow> False | Some t \<Rightarrow> \<not> env_now e < t)"
      using go(5) by (simp split: option.splits)
    have rot: "rotateCredential lib e n s = (case r1 of Some err \<Rightarrow> (Inl err, s1) | None \<Rightarrow>
        (Inr c, s1\<lparr>cs_byID := put (rr_CredentialID (ri_Replacement n)) ?R (put (ri_SourceCredentialID n)
            (rotated_source q (rr_Overlap (ri_Replacement n)) (env_now e)) (cs_byID s1)),
          cs_byHash := put (rr_TokenHash (ri_Replacement n)) (rr_CredentialID (ri_Replacement n)) (cs_byHash s1)\<rparr>))"
      using go noexp m by (simp add: rotateCredential_def Let_def c replacement_record_def split: option.splits)
    show ?thesis
    proof (cases r1)
      case (Some err)
      with rot go(8) m recordMutation_fail show ?thesis by (intro fail [of err]) auto
    next
      case None
      have "EnsureIssued lib (cr_Metadata q) (cs_ledger s) = (None, cs_ledger s)"
        using assms(2) streams_ok_some [OF _ q] store_ok_id [OF assms(2) q] go(4) by (intro EnsureIssued_seen) (auto simp: store_ok_def)
      with m None obtain rows where rw: "s1 = s\<lparr>cs_ledger := rows, cs_events := cs_events s @ [?ev]\<rparr>" "append_steps lib ?steps (cs_ledger s) = (None, rows)"
        using recordMutation_ok [of lib e 3 ?ev "Some (cr_Metadata q)" ?steps s s1] by auto
      have facts: "streams_ok (put (rr_CredentialID (ri_Replacement n)) ?R (put (ri_SourceCredentialID n)
          (rotated_source q (rr_Overlap (ri_Replacement n)) (env_now e)) (cs_byID s))) rows" "extends (cs_ledger s) rows" "ClassOf (cr_Metadata ?R) \<noteq> ClientClassBrowser"
        using rotation_rows [OF rw(2) assms(2) q go(4) _ cid(2) c_def [symmetric], unfolded cid(1), OF go(6)] c_def by simp_all
      show ?thesis
        by (rule rotated [OF go(1-7) _ facts]) (use go(8) rot None rw(1) in \<open>simp_all add: c_def\<close>)
    qed
  qed (use fail in blast)
qed

lemma store_ok_rotate: "store_ok s \<Longrightarrow> store_ok (snd (RotateCredential lib e i s))"
proof -
  assume ok: "store_ok s"
  obtain r s' where c: "RotateCredential lib e i s = (r, s')" by fastforce
  then show ?thesis using ok
  proof (cases rule: rotate_cases)
    case (rotated n q rows)
    let ?byID = "put (ri_SourceCredentialID n) (rotated_source q (rr_Overlap (ri_Replacement n)) (env_now e)) (cs_byID s)"
    have q: "map_of (cs_byID s) (ri_SourceCredentialID n) = Some q" using rotated(2) by (simp add: credential_at_some)
    have "indexes_ok ?byID (cs_byHash s)"
      using ok store_ok_id [OF ok q] by (intro indexes_ok_put [OF _ q]) (simp_all add: store_ok_def)
    moreover have "\<not> has_key ?byID (rr_CredentialID (ri_Replacement n))"
      using rotated(6) q by (auto simp: map_simps has_key_def)
    ultimately have "indexes_ok (put (rr_CredentialID (ri_Replacement n)) (replacement_record n q (env_now e)) ?byID)
        (put (rr_TokenHash (ri_Replacement n)) (rr_CredentialID (ri_Replacement n)) (cs_byHash s))"
      using rotated(7) by (intro indexes_ok_add)
        (simp_all add: replacement_record_def credentialFromRotation_def credentialFromCreate_def)
    with rotated c show ?thesis by (simp add: store_ok_def)
  qed (use ok c in simp)
qed

section \<open>The machine\<close>

lemma audit_cases:
  "snd (audit_Record e event s) = s \<or>
    fst (audit_Record e event s) = None \<and> snd (audit_Record e event s) = s\<lparr>cs_events := cs_events s @ [event]\<rparr>"
  by (auto simp: audit_Record_def recordAudit_def dest: recordLocked_cases split: prod.splits)

lemma store_ok_step: "store_ok s \<Longrightarrow> store_ok (credential_step lib op s)"
proof (cases op)
  case (OpAudit e event)
  assume "store_ok s"
  with audit_cases [of e event s] OpAudit show ?thesis by (auto simp: store_ok_def)
qed (simp_all add: store_ok_create store_ok_rotate store_ok_revoke store_ok_rollback store_ok_touch)

text \<open>An operation that fails leaves the whole store as it was, the audit trail and the outbox included.\<close>

lemma failed_step_same:
  assumes "store_ok s" "credential_failure lib op s = Some err"
  shows "credential_step lib op s = s"
proof (cases op)
  case (OpCreate e i)
  obtain r s' where c: "CreateCredential lib e i s = (r, s')" by fastforce
  show ?thesis using assms OpCreate c by (cases rule: create_cases [OF c]) auto
next
  case (OpRotate e i)
  obtain r s' where c: "RotateCredential lib e i s = (r, s')" by fastforce
  show ?thesis using assms OpRotate c by (cases rule: rotate_cases [OF c assms(1)]) auto
next
  case (OpRevoke e i)
  obtain r s' where c: "RevokeCredential lib e i s = (r, s')" by fastforce
  show ?thesis using assms OpRevoke c by (cases rule: revoke_cases [OF c assms(1)]) auto
next
  case (OpRollback e i)
  obtain r s' where c: "RollbackCredentialRotation lib e i s = (r, s')" by fastforce
  show ?thesis using assms OpRollback c by (cases rule: rollback_cases [OF c assms(1)]) auto
next
  case (OpTouch e org cid ip ua at)
  with assms(2) touch_cases [of lib e org cid ip ua at s] show ?thesis by auto
next
  case (OpAudit e event)
  with assms(2) audit_cases [of e event s] show ?thesis by auto
qed

text \<open>What a credential keeps: everything but its expiry, which only moves earlier, its revocation, which is final, and its last use.\<close>

definition frozen :: "client_credential \<Rightarrow> client_credential" where
  "frozen c = c\<lparr>cc_ExpiresAt := None, cc_RevokedAt := None, cc_LastUsedAt := None\<rparr>"

definition record_evolves :: "credential_record \<Rightarrow> credential_record \<Rightarrow> bool" where
  "record_evolves r r' \<longleftrightarrow> frozen (cr_Metadata r') = frozen (cr_Metadata r) \<and>
     cr_TokenHash r' = cr_TokenHash r \<and> cr_CreatedBy r' = cr_CreatedBy r \<and> cr_IssuanceProvenance r' = cr_IssuanceProvenance r \<and>
     (cc_RevokedAt (cr_Metadata r) \<noteq> None \<longrightarrow> cc_RevokedAt (cr_Metadata r') = cc_RevokedAt (cr_Metadata r)) \<and>
     (cr_RotatedAt r \<noteq> None \<longrightarrow> cr_RotatedAt r' = cr_RotatedAt r) \<and>
     (\<forall>t. cc_ExpiresAt (cr_Metadata r) = Some t \<longrightarrow> (\<exists>t' \<le> t. cc_ExpiresAt (cr_Metadata r') = Some t'))"

lemma frozen_fields:
  assumes "frozen c' = frozen c"
  shows "cc_CredentialID c' = cc_CredentialID c" "cc_OrgID c' = cc_OrgID c" "cc_Scopes c' = cc_Scopes c"
    "cc_RepositoryScopes c' = cc_RepositoryScopes c" "cc_Provenance c' = cc_Provenance c" "cc_Resource c' = cc_Resource c"
    "cc_CreatedAt c' = cc_CreatedAt c" "cc_Name c' = cc_Name c"
  using arg_cong [OF assms, of cc_CredentialID] arg_cong [OF assms, of cc_OrgID] arg_cong [OF assms, of cc_Scopes]
    arg_cong [OF assms, of cc_RepositoryScopes] arg_cong [OF assms, of cc_Provenance] arg_cong [OF assms, of cc_Resource]
    arg_cong [OF assms, of cc_CreatedAt] arg_cong [OF assms, of cc_Name]
  by (simp_all add: frozen_def)

lemma record_evolves_refl [simp]: "record_evolves r r"
  by (simp add: record_evolves_def)

lemma record_evolves_trans: "record_evolves a b \<Longrightarrow> record_evolves b c \<Longrightarrow> record_evolves a c"
  unfolding record_evolves_def by (intro conjI; fastforce)

lemma record_evolves_touch [simp]:
  "record_evolves r (r\<lparr>cr_Metadata := (cr_Metadata r)\<lparr>cc_LastUsedAt := at\<rparr>, cr_LastUsedIP := ip, cr_LastUsedUserAgent := ua\<rparr>)"
  by (simp add: record_evolves_def frozen_def)

lemma record_evolves_revoked: "cc_RevokedAt (cr_Metadata r) = None \<Longrightarrow> record_evolves r (revoked_record now r)"
  by (simp add: record_evolves_def frozen_def revoked_record_def)

lemma record_evolves_rotated:
  "cr_RotatedAt r = None \<Longrightarrow> cc_RevokedAt (cr_Metadata r) = None \<Longrightarrow> record_evolves r (rotated_source r overlap now)"
  by (auto simp: record_evolves_def frozen_def rotated_source_def Let_def split: option.splits if_splits)

definition store_evolves :: "credential_store \<Rightarrow> credential_store \<Rightarrow> bool" where
  "store_evolves s s' \<longleftrightarrow> extends (cs_ledger s) (cs_ledger s') \<and> extends (cs_events s) (cs_events s') \<and>
     (\<forall>cid r. map_of (cs_byID s) cid = Some r \<longrightarrow> (\<exists>r'. map_of (cs_byID s') cid = Some r' \<and> record_evolves r r'))"

lemma store_evolves_refl [simp]: "store_evolves s s"
  by (auto simp: store_evolves_def)

lemma store_evolves_trans: "store_evolves a b \<Longrightarrow> store_evolves b c \<Longrightarrow> store_evolves a c"
  unfolding store_evolves_def by (metis extends_trans record_evolves_trans)

lemma byID_evolves_put:
  assumes "\<And>r. map_of byID cid = Some r \<Longrightarrow> record_evolves r r'"
  shows "\<forall>x q. map_of byID x = Some q \<longrightarrow> (\<exists>q'. map_of (put cid r' byID) x = Some q' \<and> record_evolves q q')"
  using assms by (auto simp: map_simps)

lemma step_evolves:
  assumes ok: "store_ok s"
  shows "store_evolves s (credential_step lib op s)"
proof (cases op)
  case (OpCreate e i)
  obtain r s' where c: "CreateCredential lib e i s = (r, s')" by fastforce
  from c show ?thesis
  proof (cases rule: create_cases)
    case (created n rows)
    then show ?thesis using c OpCreate byID_evolves_put [of "cs_byID s" "ci_CredentialID n"]
      by (simp add: store_evolves_def has_key_def)
  qed (use c OpCreate in simp)
next
  case (OpRotate e i)
  obtain r s' where c: "RotateCredential lib e i s = (r, s')" by fastforce
  from c ok show ?thesis
  proof (cases rule: rotate_cases)
    case (rotated n q rows)
    let ?o = "rr_Overlap (ri_Replacement n)"
    have q: "map_of (cs_byID s) (ri_SourceCredentialID n) = Some q" using rotated(2) by (simp add: credential_at_some)
    have "\<forall>x r. map_of (cs_byID s) x = Some r \<longrightarrow> (\<exists>r'. map_of (put (rr_CredentialID (ri_Replacement n)) (replacement_record n q (env_now e))
        (put (ri_SourceCredentialID n) (rotated_source q ?o (env_now e)) (cs_byID s))) x = Some r' \<and> record_evolves r r')"
      using rotated(6) q record_evolves_rotated [OF rotated(3,4)] by (auto simp: map_simps has_key_def)
    then show ?thesis using c OpRotate rotated(10,12) by (simp add: store_evolves_def)
  qed (use c OpRotate in simp)
next
  case (OpRevoke e i)
  obtain r s' where c: "RevokeCredential lib e i s = (r, s')" by fastforce
  from c ok show ?thesis
  proof (cases rule: revoke_cases)
    case (revoked n q rows evs)
    let ?ms = "(vi_CredentialID n, q) # family_siblings (cr_Metadata q) (vi_OrgID n) (vi_CredentialID n) s"
    have "\<exists>r'. map_of (revoke_all (env_now e) ?ms (cs_byID s)) x = Some r' \<and> record_evolves p r'" if "map_of (cs_byID s) x = Some p" for x p
    proof (cases "map_of ?ms x")
      case None
      then show ?thesis using revoked(5) that by (simp add: map_of_revoke_all live_members_def)
    next
      case (Some m)
      then have "(x, m) \<in> set ?ms" by (rule map_of_SomeD)
      with revoked(5) that have "m = p" "cc_RevokedAt (cr_Metadata p) = None" by (auto simp: live_members_def)
      with Some revoked(5) show ?thesis
        by (simp add: map_of_revoke_all live_members_def record_evolves_revoked split: if_splits)
    qed
    then show ?thesis using c OpRevoke revoked(7) by (simp add: store_evolves_def)
  qed (use c OpRevoke in simp)
next
  case (OpRollback e i)
  obtain r s' where c: "RollbackCredentialRotation lib e i s = (r, s')" by fastforce
  from c ok show ?thesis
  proof (cases rule: rollback_cases)
    case (rolled n source q row ev)
    have "cc_RevokedAt (cr_Metadata q) = None" using rolled(4) by (simp add: rollback_allowed_def)
    then show ?thesis using c OpRollback rolled(3,7) byID_evolves_put [of "cs_byID s" "bi_SuccessorCredentialID n" "revoked_record (env_now e) q"]
      by (simp add: store_evolves_def record_evolves_revoked)
  qed (use c OpRollback in simp)
next
  case (OpTouch e org cid ip ua at)
  from touch_cases [of lib e org cid ip ua at s] show ?thesis
  proof
    assume "\<exists>k r ip' ua'. map_of (cs_byID s) k = Some r \<and> fst (TouchLastUsed lib e org cid ip ua at s) = None \<and>
       snd (TouchLastUsed lib e org cid ip ua at s) = s\<lparr>cs_byID := put k (r\<lparr>cr_Metadata := (cr_Metadata r)\<lparr>cc_LastUsedAt := Some at\<rparr>,
         cr_LastUsedIP := ip', cr_LastUsedUserAgent := ua'\<rparr>) (cs_byID s)\<rparr>"
    then show ?thesis using OpTouch by (auto simp: store_evolves_def map_simps)
  qed (use OpTouch in simp)
next
  case (OpAudit e event)
  with audit_cases [of e event s] show ?thesis by (auto simp: store_evolves_def)
qed

interpretation creds: evolving_machine "credential_step lib" "\<lambda>_ _. True" store_ok store_evolves
  by unfold_locales (auto intro: store_ok_step step_evolves store_evolves_trans)

lemma creds_run_ok: "store_ok s \<Longrightarrow> store_ok (run_ops (credential_step lib) ops s)"
  by (rule creds.run_inv) simp_all

lemma creds_run_evolves: "store_ok s \<Longrightarrow> store_evolves s (run_ops (credential_step lib) ops s)"
  by (rule creds.run_rel) simp_all

text \<open>The states a new store can reach.\<close>

definition reachable_creds :: "libs \<Rightarrow> credential_store \<Rightarrow> bool" where
  "reachable_creds lib s \<longleftrightarrow> (\<exists>ops. s = run_ops (credential_step lib) ops newCredentialStore)"

lemma reachable_creds_ok: "reachable_creds lib s \<Longrightarrow> store_ok s"
  by (auto simp: reachable_creds_def creds_run_ok)

lemma evolves_at:
  assumes "store_evolves s s'" "map_of (cs_byID s) cid = Some r"
  obtains r' where "map_of (cs_byID s') cid = Some r'" "record_evolves r r'"
  using assms unfolding store_evolves_def by blast

end
