(* ===== verification/Credential_Examples.thy ===== *)
theory Credential_Examples
  imports Credential_Machine
begin

text \<open>
  A small credential store at which the properties of the next theory are evaluated: two browser credentials
  of one family and an organization bearer credential, with simple stand-ins for the libraries.
\<close>

definition ex_libs :: libs where
  "ex_libs = \<lparr>url_Parse = (\<lambda>_. Some \<lparr>u_Scheme = ''https'', u_Opaque = '''', u_User = False, u_Host = ''acr.example'',
       u_Path = ''/mcp'', u_RawQuery = '''', u_ForceQuery = False, u_Fragment = ''''\<rparr>),
     net_ParseIP = (\<lambda>_. True), uuid_Parse = (\<lambda>_. None), sha256_hex = id, json_Marshal = we_IdempotencyKey\<rparr>"

definition ex_env :: "time \<Rightarrow> env" where
  "ex_env t = \<lparr>env_err = (\<lambda>_. False), env_now = t\<rparr>"

definition ex_hash :: "char \<Rightarrow> string" where
  "ex_hash c = replicate 63 (CHR ''0'') @ [c]"

definition ex_bearer :: "string \<Rightarrow> char \<Rightarrow> create_input" where
  "ex_bearer cid h = zero_create\<lparr>ci_CredentialID := cid, ci_OrgID := ''org1'', ci_Name := ''cli'', ci_TokenPrefix := ''fcacr_abcdef'',
     ci_TokenHash := ex_hash h, ci_RepositoryScopes := [''Acme/Widgets'', ''acme/*''], ci_Scopes := [''evidence:read'', ''context:read''],
     ci_ActorID := ''admin''\<rparr>"

definition ex_browser :: "string \<Rightarrow> char \<Rightarrow> create_input" where
  "ex_browser cid h = (ex_bearer cid h)\<lparr>ci_ActorID := ''user1'', ci_ExpiresAt := Some (10 * Hour),
     ci_IssuanceProvenance := IssuanceProvenanceDeviceAuthorization, ci_Resource := ''https://acr.example/mcp'',
     ci_ClientID := ''web'', ci_ApprovingUserID := ''user1'', ci_ClientClass := ClientClassBrowser, ci_SessionID := ''sess1'',
     ci_FamilyID := ''fam1'', ci_FamilyExpiresAt := Some (20 * Hour)\<rparr>"

definition ex_creds :: credential_store where
  "ex_creds = run_ops (credential_step ex_libs)
     [OpCreate (ex_env Hour) (ex_browser ''c1'' (CHR ''1'')), OpCreate (ex_env Hour) (ex_browser ''c2'' (CHR ''2'')),
      OpCreate (ex_env Hour) (ex_bearer ''c3'' (CHR ''3''))] newCredentialStore"

definition ex_revoke :: "string \<Rightarrow> revocation_input" where
  "ex_revoke cid = \<lparr>vi_OrgID = ''org1'', vi_CredentialID = cid, vi_ActorID = ''user1'', vi_ActorType = '''', vi_Reason = ''lost'',
     vi_SelfCredential = False\<rparr>"

definition ex_rotate :: rotation_input where
  "ex_rotate = \<lparr>ri_OrgID = ''org1'', ri_SourceCredentialID = ''c3'', ri_ActorID = ''admin'', ri_SelfCredential = False,
     ri_Replacement = \<lparr>rr_CredentialID = ''c4'', rr_Name = ''cli'', rr_TokenPrefix = ''fcacr_abcdef'', rr_TokenHash = ex_hash (CHR ''4''),
       rr_RepositoryScopes = [''acme/widgets''], rr_Scopes = [''context:read''], rr_ExpiresAt = None, rr_Overlap = 5 * Minute,
       rr_Immediate = False\<rparr>\<rparr>"

text \<open>A result whose value was computed, as a pair.\<close>

lemma result_pair:
  assumes "map_sum (\<lambda>_. ()) g (fst R) = Inr d"
  obtains out where "R = (Inr out, snd R)" "g out = d"
proof (cases R)
  case (Pair x y)
  with assms that show ?thesis by (cases x) auto
qed

lemma reachable_ex_creds: "reachable_creds ex_libs ex_creds"
  unfolding reachable_creds_def ex_creds_def by blast

lemma reachable_new_creds: "reachable_creds lib newCredentialStore"
  unfolding reachable_creds_def by (rule exI [of _ "[]"]) simp

end
