(* ===== verification/Credential_Properties.thy ===== *)
theory Credential_Properties
  imports Credential_Examples Credential_Normal
begin

text \<open>
  The properties of the credential store, over every state a new store can reach (\<open>reachable_creds\<close>): failed
  mutations change nothing, the reconciliation listing is the credential table, a token authenticates its
  own live credential only, a revocation is final for a whole browser family, a rotation keeps the
  provenance, and every stored credential has the provenance its class demands.
\<close>

section \<open>Well-formed credentials\<close>

definition credential_wf :: "credential_record \<Rightarrow> bool" where
  "credential_wf r \<longleftrightarrow>
     (let c = cr_Metadata r; p = cc_Provenance c; cls = cp_ClientClass p
      in list_all trimmed [cc_Resource c, cp_ClientID p, cp_ApprovingUserID p, cp_SessionID p, cp_FamilyID p] \<and>
         scopes_ok (cc_Scopes c) \<and> repositories_ok (cc_RepositoryScopes c) \<and> token_hash_ok (cr_TokenHash r) \<and>
         credential_id_ok (cc_CredentialID c) \<and> class_Valid cls \<and> (UserApproved cls \<longleftrightarrow> cp_ApprovingUserID p \<noteq> '''') \<and>
         (cls = ClientClassOAuthUser \<or> cls = ClientClassBrowser \<longrightarrow> cc_Resource c \<noteq> '''' \<and> cp_ClientID p \<noteq> '''') \<and>
         (cls = ClientClassBrowser \<longrightarrow> cp_SessionID p \<noteq> '''' \<and> cp_FamilyID p \<noteq> '''' \<and>
            (\<exists>fe t. cp_FamilyExpiresAt p = Some fe \<and> cc_ExpiresAt c = Some t \<and> t \<le> fe)) \<and>
         (cls \<noteq> ClientClassBrowser \<longrightarrow> cp_SessionID p = '''' \<and> cp_FamilyID p = '''' \<and> cp_FamilyExpiresAt p = None))"

lemma credential_wf_evolves:
  assumes "credential_wf r" "record_evolves r r'"
  shows "credential_wf r'"
proof -
  have fz: "frozen (cr_Metadata r') = frozen (cr_Metadata r)" using assms(2) by (simp add: record_evolves_def)
  have "cr_TokenHash r' = cr_TokenHash r" using assms(2) by (simp add: record_evolves_def)
  moreover have "\<exists>t'\<le>t. cc_ExpiresAt (cr_Metadata r') = Some t'" if "cc_ExpiresAt (cr_Metadata r) = Some t" for t
    using assms(2) that by (simp add: record_evolves_def)
  ultimately show ?thesis
    using assms(1) unfolding credential_wf_def Let_def frozen_fields [OF fz] by (auto dest: order_trans)
qed

lemma credential_wf_issued:
  assumes "issued_ok n"
  shows "credential_wf \<lparr>cr_Metadata = credentialFromCreate n now, cr_TokenHash = ci_TokenHash n, cr_CreatedBy = by',
    cr_RotatedAt = None, cr_LastUsedIP = '''', cr_LastUsedUserAgent = '''', cr_IssuanceProvenance = pr\<rparr>"
  using assms unfolding issued_ok_def credential_wf_def Let_def by (simp add: credentialFromCreate_def)

lemma normalizeRotation_result:
  assumes "normalizeRotation parse i = Inr n"
  shows "scopes_ok (rr_Scopes (ri_Replacement n))" "repositories_ok (rr_RepositoryScopes (ri_Replacement n))"
    "token_hash_ok (rr_TokenHash (ri_Replacement n))" "validOverlap (ri_Replacement n)" "credential_id_ok (rr_CredentialID (ri_Replacement n))"
    "normalizeIdentifier ''organization'' (ri_OrgID i) = Inr (ri_OrgID n)" "normalizeCredentialID (ri_SourceCredentialID i) = Inr (ri_SourceCredentialID n)"
proof -
  from assms obtain j c where c: "normalizeCreate parse j = Inr c" "rr_Scopes (ri_Replacement n) = ci_Scopes c"
      "rr_RepositoryScopes (ri_Replacement n) = ci_RepositoryScopes c" "rr_TokenHash (ri_Replacement n) = ci_TokenHash c"
      "validOverlap (ri_Replacement n)" "rr_CredentialID (ri_Replacement n) = ci_CredentialID c"
    by (auto simp: normalizeRotation_def and_then_Inr Let_def validOverlap_def split: if_splits)
  with normalizeCreate_issued(1) [OF c(1)] show "scopes_ok (rr_Scopes (ri_Replacement n))"
      "repositories_ok (rr_RepositoryScopes (ri_Replacement n))" "token_hash_ok (rr_TokenHash (ri_Replacement n))"
      "validOverlap (ri_Replacement n)" "credential_id_ok (rr_CredentialID (ri_Replacement n))"
    by (simp_all add: issued_ok_def)
  show "normalizeIdentifier ''organization'' (ri_OrgID i) = Inr (ri_OrgID n)" "normalizeCredentialID (ri_SourceCredentialID i) = Inr (ri_SourceCredentialID n)"
    using assms by (auto simp: normalizeRotation_def and_then_Inr Let_def split: if_splits)
qed

lemma credential_wf_replacement:
  assumes "credential_wf q" "normalizeRotation parse i = Inr n" "ClassOf (cr_Metadata (replacement_record n q now)) \<noteq> ClientClassBrowser"
  shows "credential_wf (replacement_record n q now)"
proof -
  have pr: "cc_Provenance (cr_Metadata (replacement_record n q now)) = cc_Provenance (cr_Metadata q)"
    "cc_Resource (cr_Metadata (replacement_record n q now)) = cc_Resource (cr_Metadata q)"
    "cc_Scopes (cr_Metadata (replacement_record n q now)) = rr_Scopes (ri_Replacement n)"
    "cc_RepositoryScopes (cr_Metadata (replacement_record n q now)) = rr_RepositoryScopes (ri_Replacement n)"
    "cr_TokenHash (replacement_record n q now) = rr_TokenHash (ri_Replacement n)"
    "cc_CredentialID (cr_Metadata (replacement_record n q now)) = rr_CredentialID (ri_Replacement n)"
    by (simp_all add: replacement_record_def credentialFromRotation_def credentialFromCreate_def)
  then have "cp_ClientClass (cc_Provenance (cr_Metadata q)) \<noteq> ClientClassBrowser"
    using assms(1,3) by (auto simp: ClassOf_def credential_wf_def Let_def)
  with assms(1) pr normalizeRotation_result [OF assms(2)] show ?thesis by (simp add: credential_wf_def Let_def)
qed

definition all_wf :: "credential_store \<Rightarrow> bool" where
  "all_wf s \<longleftrightarrow> (\<forall>cid r. map_of (cs_byID s) cid = Some r \<longrightarrow> credential_wf r)"

text \<open>A record that a step adds is well formed: it was issued, or it replaces a well-formed one.\<close>

lemma step_new_wf:
  assumes "store_ok s" "all_wf s" "map_of (cs_byID (credential_step lib op s)) cid = Some r" "map_of (cs_byID s) cid = None"
  shows "credential_wf r"
proof (cases op)
  case (OpCreate e i)
  obtain x s' where c: "CreateCredential lib e i s = (x, s')" by fastforce
  from c show ?thesis
  proof (cases rule: create_cases)
    case (created n rows)
    with assms(3,4) OpCreate c show ?thesis
      by (auto simp: map_simps split: if_splits intro: credential_wf_issued normalizeCreate_issued(1))
  qed (use assms OpCreate c in simp)
next
  case (OpRotate e i)
  obtain x s' where c: "RotateCredential lib e i s = (x, s')" by fastforce
  from c assms(1) show ?thesis
  proof (cases rule: rotate_cases)
    case (rotated n q rows)
    have q: "map_of (cs_byID s) (ri_SourceCredentialID n) = Some q" using rotated(2) by (simp add: credential_at_some)
    have "credential_wf (replacement_record n q (env_now e))"
      using assms(2) q rotated(1,11) by (intro credential_wf_replacement) (auto simp: all_wf_def)
    with assms(3,4) q OpRotate c rotated(12) show ?thesis by (auto simp: map_simps split: if_splits)
  qed (use assms OpRotate c in simp)
next
  case (OpRevoke e i)
  obtain x s' where c: "RevokeCredential lib e i s = (x, s')" by fastforce
  from c assms(1) show ?thesis
  proof (cases rule: revoke_cases)
    case (revoked n q rows evs)
    let ?ms = "(vi_CredentialID n, q) # family_siblings (cr_Metadata q) (vi_OrgID n) (vi_CredentialID n) s"
    have "cid \<notin> fst ` set ?ms" using revoked(5) assms(4) by (fastforce simp: live_members_def)
    then have "map_of ?ms cid = None" by (rule map_of_eq_None_iff [THEN iffD2])
    then have "map_of (revoke_all (env_now e) ?ms (cs_byID s)) cid = None"
      using revoked(5) assms(4) by (simp add: map_of_revoke_all live_members_def)
    with assms(3) OpRevoke c revoked(7) show ?thesis by simp
  qed (use assms OpRevoke c in simp)
next
  case (OpRollback e i)
  obtain x s' where c: "RollbackCredentialRotation lib e i s = (x, s')" by fastforce
  from c assms(1) show ?thesis
  proof (cases rule: rollback_cases)
    case (rolled n source q row ev)
    with assms(3,4) OpRollback c show ?thesis by (auto simp: map_simps split: if_splits)
  qed (use assms OpRollback c in simp)
next
  case (OpTouch e org k ip ua at)
  with assms(3,4) touch_cases [of lib e org k ip ua at s] show ?thesis by (auto simp: map_simps split: if_splits)
next
  case (OpAudit e event)
  with assms(3,4) audit_cases [of e event s] show ?thesis by auto
qed

lemma step_wf: "store_ok s \<and> all_wf s \<Longrightarrow> store_ok (credential_step lib op s) \<and> all_wf (credential_step lib op s)"
proof -
  assume ok: "store_ok s \<and> all_wf s"
  have "credential_wf r'" if r': "map_of (cs_byID (credential_step lib op s)) cid = Some r'" for cid r'
  proof (cases "map_of (cs_byID s) cid")
    case None
    with ok r' show ?thesis by (auto intro: step_new_wf)
  next
    case (Some r)
    from evolves_at [OF step_evolves Some] ok r' have "record_evolves r r'" by (metis option.inject)
    with ok Some show ?thesis by (auto simp: all_wf_def intro: credential_wf_evolves)
  qed
  with ok show ?thesis by (auto simp: all_wf_def intro: store_ok_step)
qed

interpretation wf_creds: invariant_machine "credential_step lib" "\<lambda>_ _. True" "\<lambda>s. store_ok s \<and> all_wf s"
  by unfold_locales (rule step_wf)

lemma reachable_creds_wf: "reachable_creds lib s \<Longrightarrow> store_ok s \<and> all_wf s"
proof -
  have "all_wf newCredentialStore" by (simp add: all_wf_def newCredentialStore_def)
  then show "reachable_creds lib s \<Longrightarrow> ?thesis"
    using wf_creds.run_inv [of newCredentialStore lib] by (auto simp: reachable_creds_def)
qed

section \<open>The reconciliation listing\<close>

fun latest_of :: "ledger \<Rightarrow> outbox_row option \<Rightarrow> outbox_row option" where
  "latest_of [] acc = acc"
| "latest_of (row # rows) acc =
    latest_of rows (case acc of None \<Rightarrow> Some row | Some current \<Rightarrow> if ob_Revision row > ob_Revision current then Some row else acc)"

lemma latest_rows_of:
  "map_of (latest_rows org after rows acc) cid =
    latest_of (filter (\<lambda>row. ob_OrgID row = org \<and> after < cid) (stream cid rows)) (map_of acc cid)"
proof (induction rows arbitrary: acc)
  case (Cons row rows)
  have "map_of (latest_rows org after (row # rows) acc) cid = latest_of (filter (\<lambda>row. ob_OrgID row = org \<and> after < cid) (stream cid rows))
      (map_of (if ob_OrgID row \<noteq> org \<or> ob_AggregateID row \<le> after then acc
       else if (case map_of acc (ob_AggregateID row) of None \<Rightarrow> True | Some current \<Rightarrow> ob_Revision row > ob_Revision current)
       then put (ob_AggregateID row) row acc else acc) cid)"
    by (simp add: Cons.IH)
  also have "\<dots> = latest_of (filter (\<lambda>row. ob_OrgID row = org \<and> after < cid) (stream cid (row # rows))) (map_of acc cid)"
    by (cases "ob_AggregateID row = cid") (auto simp: stream_def map_simps not_le split: option.splits)
  finally show ?case .
qed (simp add: stream_def)

lemma wf_latest_rows: "wf_map acc \<Longrightarrow> wf_map (latest_rows org after rows acc)"
  by (induction rows arbitrary: acc) auto

definition status_of :: "client_credential \<Rightarrow> string" where
  "status_of c = (if cc_RevokedAt c = None then ''active'' else ''revoked'')"

text \<open>What the listing should say of a credential of the table.\<close>

definition item_of :: "string \<times> credential_record \<Rightarrow> lifecycle_item" where
  "item_of e = \<lparr>li_CredentialID = fst e, li_Revision = (if cc_RevokedAt (cr_Metadata (snd e)) = None then 1 else 2),
     li_Status = status_of (cr_Metadata (snd e))\<rparr>"

definition listed_credentials :: "string \<Rightarrow> string \<Rightarrow> credential_store \<Rightarrow> (string \<times> credential_record) list" where
  "listed_credentials org after s = sort_key fst (filter (\<lambda>(cid, r). cc_OrgID (cr_Metadata r) = org \<and> after < cid) (cs_byID s))"

definition row_says :: "credential_record \<Rightarrow> outbox_row \<Rightarrow> bool" where
  "row_says r row \<longleftrightarrow> StatusOfEventType (ob_EventType row) = Some (status_of (cr_Metadata r)) \<and>
     ob_Revision row = (if cc_RevokedAt (cr_Metadata r) = None then 1 else 2)"

lemma latest_of_stream:
  assumes "stream_ok c rows" "cr_Metadata r = c"
  shows "\<exists>row. latest_of rows None = Some row \<and> row_says r row \<and> (\<forall>x \<in> set rows. ob_OrgID x = cc_OrgID c)"
proof (cases "cc_RevokedAt c")
  case None
  with assms obtain first where "rows = [first]" "opening_row c first" by (auto simp: stream_ok_def)
  with None assms(2) show ?thesis by (auto simp: opening_row_def row_says_def StatusOfEventType_def status_of_def)
next
  case (Some at)
  with assms obtain first final where "rows = [first, final]" "opening_row c first" "closing_row c at final" by (auto simp: stream_ok_def)
  with Some assms(2) show ?thesis
    by (intro exI [of _ final]) (simp add: opening_row_def closing_row_def row_says_def StatusOfEventType_def status_of_def)
qed

text \<open>Two maps with the same keys, sorted by key, have their entries side by side.\<close>

lemma sorted_entries_match:
  assumes "wf_map m" "wf_map m'" "\<And>k. rel_option (P k) (map_of m k) (map_of m' k)"
  shows "list_all2 (\<lambda>(k, v) (k', v'). k = k' \<and> P k v v') (sort_key fst m) (sort_key fst (m' :: (string \<times> 'b) list))"
proof -
  let ?a = "sort_key fst m" and ?b = "sort_key fst m'"
  have "map_of m k = None \<longleftrightarrow> map_of m' k = None" for k using assms(3) [of k] by (cases "map_of m k"; cases "map_of m' k") auto
  then have "fst ` set m = fst ` set m'" by (simp add: map_of_eq_None_iff set_eq_iff)
  moreover have "mset (map fst (sort_key fst xs)) = mset (map fst xs)" for xs :: "(string \<times> 'c) list" by (simp only: mset_map mset_sort)
  then have "distinct (map fst ?a)" "distinct (map fst ?b)"
    using assms(1,2) mset_eq_imp_distinct_iff unfolding wf_map_def by (metis (no_types) mset_map mset_sort)+
  ultimately have keys: "map fst ?a = map fst ?b"
    by (intro sorted_distinct_set_unique) simp_all
  have vals: "P k v v'" if "(k, v) \<in> set ?a" "(k, v') \<in> set ?b" for k v v'
  proof -
    have "map_of m k = Some v" "map_of m' k = Some v'" using that assms(1,2) by (simp_all add: wf_map_mem)
    with assms(3) [of k] show ?thesis by simp
  qed
  show ?thesis
  proof (rule list_all2_all_nthI)
    show len: "length ?a = length ?b" using arg_cong [OF keys, of length] by simp
    fix n assume n: "n < length ?a"
    obtain k v k' v' where e: "?a ! n = (k, v)" "?b ! n = (k', v')" by (metis surj_pair)
    have "k = k'" using arg_cong [OF keys, of "\<lambda>xs. xs ! n"] n len e by simp
    moreover have "(k, v) \<in> set ?a" "(k', v') \<in> set ?b" using n len e by (metis nth_mem)+
    ultimately show "(case ?a ! n of (k, v) \<Rightarrow> \<lambda>(k', v'). k = k' \<and> P k v v') (?b ! n)" using vals e by simp
  qed
qed

lemma list_items_match:
  "list_all2 (\<lambda>(k, row) (k', r). k = k' \<and> row_says r row) xs ys \<Longrightarrow> list_items xs = Inr (map item_of ys)"
  by (induction xs ys rule: list_all2_induct) (auto simp: row_says_def item_of_def)

text \<open>
  C4: the reconciliation listing is the credential table. In every reachable state it succeeds and returns,
  for an organization, exactly the credentials whose id sorts after the cursor, in the order of their ids and
  cut at the limit, each as active at revision 1 or, once revoked, as revoked at revision 2.
\<close>

theorem lifecycle_listing_is_the_table:
  assumes "reachable_creds lib s"
  shows "ListCredentialLifecycle org after limit s = Inr (map item_of (take limit (listed_credentials org after s)))"
proof -
  have ok: "store_ok s" by (rule reachable_creds_ok [OF assms])
  then have wf: "wf_map (cs_byID s)" and st: "streams_ok (cs_byID s) (cs_ledger s)" by (simp_all add: store_ok_def indexes_ok_def)
  let ?f = "filter (\<lambda>(cid, r). cc_OrgID (cr_Metadata r) = org \<and> after < cid) (cs_byID s)"
  have "rel_option (\<lambda>row r. row_says r row) (map_of (latest_rows org after (cs_ledger s) []) cid) (map_of ?f cid)" for cid
  proof (cases "map_of (cs_byID s) cid")
    case None
    with streams_ok_none [OF st None] show ?thesis by (simp add: latest_rows_of map_of_filter [OF wf])
  next
    case (Some r)
    from latest_of_stream [OF streams_ok_some [OF st Some] refl]
    obtain row where row: "latest_of (stream cid (cs_ledger s)) None = Some row" "row_says r row"
      "\<forall>x \<in> set (stream cid (cs_ledger s)). ob_OrgID x = cc_OrgID (cr_Metadata r)" by blast
    show ?thesis
    proof (cases "cc_OrgID (cr_Metadata r) = org \<and> after < cid")
      case True
      then have "filter (\<lambda>row. ob_OrgID row = org \<and> after < cid) (stream cid (cs_ledger s)) = stream cid (cs_ledger s)"
        using row(3) by (intro filter_True) auto
      with row True Some show ?thesis by (simp add: latest_rows_of map_of_filter [OF wf])
    next
      case False
      then have "filter (\<lambda>row. ob_OrgID row = org \<and> after < cid) (stream cid (cs_ledger s)) = []"
        using row(3) by (intro filter_False) auto
      with False Some show ?thesis by (simp add: latest_rows_of map_of_filter [OF wf])
    qed
  qed
  from sorted_entries_match [OF wf_latest_rows [OF wf_map_empty] wf_map_filter [OF wf] this]
  have "list_all2 (\<lambda>(k, row) (k', r). k = k' \<and> row_says r row) (take limit (sort_key fst (latest_rows org after (cs_ledger s) [])))
      (take limit (listed_credentials org after s))"
    unfolding listed_credentials_def by (rule list_all2_takeI)
  then show ?thesis unfolding ListCredentialLifecycle_def by (rule list_items_match)
qed


theorem lifecycle_listing_is_the_table_witness:
  "ListCredentialLifecycle ''org1'' ''c1'' 5 ex_creds = Inr (map item_of (take 5 (listed_credentials ''org1'' ''c1'' ex_creds))) \<and>
    map fst (listed_credentials ''org1'' ''c1'' ex_creds) = [''c2'', ''c3'']"
proof
  show "map fst (listed_credentials ''org1'' ''c1'' ex_creds) = [''c2'', ''c3'']" by code_simp
qed (rule lifecycle_listing_is_the_table [OF reachable_ex_creds])

section \<open>All or nothing\<close>

text \<open>
  C36: a mutation that fails leaves nothing behind. Whatever the reason (an invalid input, a conflict, an
  event the contract refuses, a context that ends between the outbox rows and the audit row, or in the
  middle of a family revocation), the credentials, both indexes, the audit trail and the outbox are as before.
\<close>

theorem failed_mutation_changes_nothing:
  assumes "reachable_creds lib s" "credential_failure lib op s = Some err"
  shows "credential_step lib op s = s"
  by (rule failed_step_same [OF reachable_creds_ok [OF assms(1)] assms(2)])

text \<open>A family revocation whose context ends after the first member's rows are written.\<close>

theorem failed_mutation_changes_nothing_witness:
  "credential_failure ex_libs (OpRevoke ((ex_env (2 * Hour))\<lparr>env_err := \<lambda>k. k = 5\<rparr>) (ex_revoke ''c1'')) ex_creds = Some ErrCanceled \<and>
    credential_step ex_libs (OpRevoke ((ex_env (2 * Hour))\<lparr>env_err := \<lambda>k. k = 5\<rparr>) (ex_revoke ''c1'')) ex_creds = ex_creds"
proof -
  have f: "credential_failure ex_libs (OpRevoke ((ex_env (2 * Hour))\<lparr>env_err := \<lambda>k. k = 5\<rparr>) (ex_revoke ''c1'')) ex_creds = Some ErrCanceled"
    by code_simp
  show ?thesis by (rule conjI [OF f failed_mutation_changes_nothing [OF reachable_ex_creds f]])
qed

section \<open>Tokens\<close>

definition no_cancel :: "env \<Rightarrow> bool" where
  "no_cancel e \<longleftrightarrow> (\<forall>k \<le> 2. \<not> env_err e k)"

lemma no_cancelD: "no_cancel e \<Longrightarrow> \<not> env_err e 0 \<and> \<not> env_err e 1 \<and> \<not> env_err e (Suc 0) \<and> \<not> env_err e 2"
  by (simp add: no_cancel_def)

definition usable_at :: "time \<Rightarrow> client_credential \<Rightarrow> bool" where
  "usable_at now c \<longleftrightarrow> cc_RevokedAt c = None \<and> (case cc_ExpiresAt c of None \<Rightarrow> True | Some t \<Rightarrow> now < t)"

lemma token_hash_fixed: "token_hash_ok h \<Longrightarrow> normalizeTokenHash h = Inr h"
proof -
  assume h: "token_hash_ok h"
  have "33 \<le> byte_of c \<and> byte_of c < 128" if "is_hex c" for c using that by (auto simp: is_hex_def is_digit_def)
  with h have "TrimSpace h = h" by (intro TrimSpace_plain) (auto simp: token_hash_ok_def list_all_iff)
  with h show ?thesis by (simp add: normalizeTokenHash_def)
qed

lemma FindByTokenHash_record:
  assumes "store_ok s" "map_of (cs_byID s) cid = Some r" "normalizeTokenHash h = Inr (cr_TokenHash r)" "no_cancel e"
  shows "FindByTokenHash e h s = (if usable_at (env_now e) (cr_Metadata r) then Inr (cr_Metadata r) else Inl ErrNotFound)"
proof -
  have "map_of (cs_byHash s) (cr_TokenHash r) = Some cid" using assms(1,2) by (simp add: store_ok_def indexes_ok_def)
  with assms(2,3) no_cancelD [OF assms(4)] show ?thesis
    by (auto simp: FindByTokenHash_def usable_at_def split: option.splits)
qed


text \<open>
  A token authenticates the credential it was issued for, and only while that credential lives. From
  the moment a credential is created, at any later state, it is read back by organization and id with
  everything but expiry, revocation and last use unchanged, and its token finds exactly it, until it is
  revoked or expired, when the token finds nothing.
\<close>

theorem token_finds_its_credential:
  assumes "reachable_creds lib s" "CreateCredential lib e i s = (Inr c, s1)"
    and "s2 = run_ops (credential_step lib) ops s1" "no_cancel e2"
  shows "\<exists>c2. GetByID e2 (ci_OrgID i) (ci_CredentialID i) s2 = Inr c2 \<and> frozen c2 = frozen c \<and>
    FindByTokenHash e2 (ci_TokenHash i) s2 = (if usable_at (env_now e2) c2 then Inr c2 else Inl ErrNotFound)"
proof -
  have ok: "store_ok s" by (rule reachable_creds_ok [OF assms(1)])
  have ok1: "store_ok s1" using store_ok_create [OF ok, of lib e i] assms(2) by simp
  have ok2: "store_ok s2" "store_evolves s1 s2" using creds_run_ok [OF ok1] creds_run_evolves [OF ok1] assms(3) by simp_all
  obtain n r where n: "normalizeCreate (url_Parse lib) i = Inr n" "map_of (cs_byID s1) (ci_CredentialID n) = Some r" "cr_Metadata r = c"
      "cr_TokenHash r = ci_TokenHash n" "cc_OrgID c = ci_OrgID n"
    using assms(2) by (cases rule: create_cases [OF assms(2)]) (auto simp: map_simps credentialFromCreate_def)
  obtain r2 where r2: "map_of (cs_byID s2) (ci_CredentialID n) = Some r2" "record_evolves r r2" using evolves_at [OF ok2(2) n(2)] .
  have fz: "frozen (cr_Metadata r2) = frozen c" "cr_TokenHash r2 = ci_TokenHash n" using r2(2) n(3,4) by (auto simp: record_evolves_def)
  note norm = normalizeCreate_issued [OF n(1)]
  have "GetByID e2 (ci_OrgID i) (ci_CredentialID i) s2 = Inr (cr_Metadata r2)"
    using norm no_cancelD [OF assms(4)] r2(1) frozen_fields(2) [OF fz(1)] n(5) by (simp add: GetByID_def credential_at_def)
  moreover have "FindByTokenHash e2 (ci_TokenHash i) s2 = (if usable_at (env_now e2) (cr_Metadata r2) then Inr (cr_Metadata r2) else Inl ErrNotFound)"
    using norm(3) fz(2) by (intro FindByTokenHash_record [OF ok2(1) r2(1) _ assms(4)]) simp
  ultimately show ?thesis using fz(1) by blast
qed

theorem token_finds_its_credential_witness:
  "\<exists>c s1. CreateCredential ex_libs (ex_env Hour) (ex_bearer ''c9'' (CHR ''9'')) ex_creds = (Inr c, s1) \<and>
    (\<exists>c2. GetByID (ex_env (3 * Hour)) ''org1'' ''c9'' s1 = Inr c2 \<and> frozen c2 = frozen c)"
proof -
  let ?i = "ex_bearer ''c9'' (CHR ''9'')"
  let ?R = "CreateCredential ex_libs (ex_env Hour) ?i ex_creds"
  have "\<not> isl (fst ?R)" by code_simp
  then obtain c where R: "?R = (Inr c, snd ?R)" by (metis prod.collapse sum.collapse(2))
  have "no_cancel (ex_env (3 * Hour))" by (simp add: no_cancel_def ex_env_def)
  from token_finds_its_credential [OF reachable_ex_creds R _ this, of "snd ?R" "[]"]
  have "\<exists>c2. GetByID (ex_env (3 * Hour)) (ci_OrgID ?i) (ci_CredentialID ?i) (snd ?R) = Inr c2 \<and> frozen c2 = frozen c" by auto
  moreover have "ci_OrgID ?i = ''org1''" "ci_CredentialID ?i = ''c9''" by (simp_all add: ex_bearer_def)
  ultimately show ?thesis using R by (metis (no_types))
qed

section \<open>Revocation\<close>



section \<open>Rotation\<close>

text \<open>
  A rotation hands on what the credential is and ends the source. The replacement keeps the organization,
  resource and provenance of its source, which is never a browser credential; from then on, at any later
  state, the source is revoked or expires within the maximum overlap of fifteen minutes, and it is never
  rotated again.
\<close>

theorem rotation_keeps_provenance_and_ends_the_source:
  assumes "reachable_creds lib s" "RotateCredential lib e i s = (Inr c, s1)" "s2 = run_ops (credential_step lib) ops s1"
  shows "\<exists>src q q2. normalizeCredentialID (ri_SourceCredentialID i) = Inr src \<and> map_of (cs_byID s) src = Some q \<and>
    cc_OrgID c = cc_OrgID (cr_Metadata q) \<and> cc_Resource c = cc_Resource (cr_Metadata q) \<and> cc_Provenance c = cc_Provenance (cr_Metadata q) \<and>
    cp_ClientClass (cc_Provenance c) \<noteq> ClientClassBrowser \<and> map_of (cs_byID s2) src = Some q2 \<and>
    (cc_RevokedAt (cr_Metadata q2) \<noteq> None \<or> (\<exists>t \<le> env_now e + MaximumOverlap. cc_ExpiresAt (cr_Metadata q2) = Some t)) \<and>
    (\<forall>e' i' c'. normalizeCredentialID (ri_SourceCredentialID i') = Inr src \<longrightarrow> fst (RotateCredential lib e' i' s2) \<noteq> Inr c')"
proof -
  have ok: "store_ok s" "all_wf s" using reachable_creds_wf [OF assms(1)] by simp_all
  have ok1: "store_ok s1" using store_ok_rotate [OF ok(1), of lib e i] assms(2) by simp
  have ok2: "store_ok s2" "store_evolves s1 s2" using creds_run_ok [OF ok1] creds_run_evolves [OF ok1] assms(3) by simp_all
  from assms(2) ok(1) show ?thesis
  proof (cases rule: rotate_cases)
    case (rotated n q rows)
    let ?src = "ri_SourceCredentialID n" and ?o = "rr_Overlap (ri_Replacement n)"
    have q: "map_of (cs_byID s) ?src = Some q" using rotated(2) by (simp add: credential_at_some)
    have src: "map_of (cs_byID s1) ?src = Some (rotated_source q ?o (env_now e))"
      using rotated(6,12) q by (auto simp: map_simps has_key_def)
    obtain q2 where q2: "map_of (cs_byID s2) ?src = Some q2" "record_evolves (rotated_source q ?o (env_now e)) q2"
      using evolves_at [OF ok2(2) src] .
    have prov: "cc_Provenance c = cc_Provenance (cr_Metadata q)" "cc_OrgID c = cc_OrgID (cr_Metadata q)" "cc_Resource c = cc_Resource (cr_Metadata q)"
      using rotated(8) by (simp_all add: replacement_record_def credentialFromRotation_def credentialFromCreate_def)
    have cls: "cp_ClientClass (cc_Provenance c) \<noteq> ClientClassBrowser"
      using rotated(8,11) by (auto simp: ClassOf_def class_Valid_def)
    have "?o \<le> 0 \<or> 0 < ?o \<and> ?o \<le> MaximumOverlap" using normalizeRotation_result(4) [OF rotated(1)] by (auto simp: validOverlap_def)
    then have ends: "cc_RevokedAt (cr_Metadata (rotated_source q ?o (env_now e))) \<noteq> None \<or>
        (\<exists>t \<le> env_now e + MaximumOverlap. cc_ExpiresAt (cr_Metadata (rotated_source q ?o (env_now e))) = Some t)"
      by (auto simp: rotated_source_def overlapExpiry_def Let_def split: option.splits)
    have ends2: "cc_RevokedAt (cr_Metadata q2) \<noteq> None \<or> (\<exists>t \<le> env_now e + MaximumOverlap. cc_ExpiresAt (cr_Metadata q2) = Some t)"
      using ends
    proof
      assume "\<exists>t \<le> env_now e + MaximumOverlap. cc_ExpiresAt (cr_Metadata (rotated_source q ?o (env_now e))) = Some t"
      then obtain t where t: "t \<le> env_now e + MaximumOverlap" "cc_ExpiresAt (cr_Metadata (rotated_source q ?o (env_now e))) = Some t" by blast
      then obtain t' where "t' \<le> t" "cc_ExpiresAt (cr_Metadata q2) = Some t'" using q2(2) unfolding record_evolves_def by blast
      with t(1) show ?thesis by (intro disjI2 exI [of _ t']) simp
    qed (use q2(2) in \<open>simp add: record_evolves_def\<close>)
    have "cr_RotatedAt q2 \<noteq> None" using q2(2) by (simp add: record_evolves_def)
    have again: "fst (RotateCredential lib e' i' s2) \<noteq> Inr c'" if i': "normalizeCredentialID (ri_SourceCredentialID i') = Inr ?src" for e' i' c'
    proof
      assume f: "fst (RotateCredential lib e' i' s2) = Inr c'"
      obtain x s3 where r: "RotateCredential lib e' i' s2 = (x, s3)" by fastforce
      from r ok2(1) show False
      proof (cases rule: rotate_cases)
        case (rotated m p rows2)
        then have "ri_SourceCredentialID m = ?src" using normalizeRotation_result(7) i' by fastforce
        with rotated(2,3) q2(1) \<open>cr_RotatedAt q2 \<noteq> None\<close> show False by (auto simp: credential_at_some)
      qed (use f r in simp)
    qed
    show ?thesis
      by (intro exI [of _ ?src] exI [of _ q] exI [of _ q2] conjI normalizeRotation_result(7) [OF rotated(1)] q prov cls q2(1) ends2 allI impI again)
  qed simp
qed

theorem rotation_keeps_provenance_and_ends_the_source_witness:
  "\<exists>c s1. RotateCredential ex_libs (ex_env (2 * Hour)) ex_rotate ex_creds = (Inr c, s1) \<and>
    (\<exists>q2. map_of (cs_byID s1) ''c3'' = Some q2 \<and>
      (cc_RevokedAt (cr_Metadata q2) \<noteq> None \<or> (\<exists>t \<le> 2 * Hour + MaximumOverlap. cc_ExpiresAt (cr_Metadata q2) = Some t)))"
proof -
  let ?R = "RotateCredential ex_libs (ex_env (2 * Hour)) ex_rotate ex_creds"
  have "\<not> isl (fst ?R)" by code_simp
  then obtain c where R: "?R = (Inr c, snd ?R)" by (metis prod.collapse sum.collapse(2))
  have src: "normalizeCredentialID (ri_SourceCredentialID ex_rotate) = Inr ''c3''" by code_simp
  have now: "env_now (ex_env (2 * Hour)) = 2 * Hour" by (simp add: ex_env_def)
  from rotation_keeps_provenance_and_ends_the_source [OF reachable_ex_creds R, of "snd ?R" "[]"] src now
  have "\<exists>q2. map_of (cs_byID (snd ?R)) ''c3'' = Some q2 \<and>
      (cc_RevokedAt (cr_Metadata q2) \<noteq> None \<or> (\<exists>t \<le> 2 * Hour + MaximumOverlap. cc_ExpiresAt (cr_Metadata q2) = Some t))" by auto
  with R show ?thesis by (metis (no_types))
qed

section \<open>Provenance\<close>

text \<open>
  C37: every stored credential carries the provenance its class demands. It has a known class, a user approved
  it exactly when its class is a user-approved one, an OAuth or browser credential names its client and
  resource, a browser credential belongs to a session and a family and never outlives the family, no other
  credential has a family, and its scopes are known, sorted and without repetition.
\<close>

theorem stored_provenance_fits_the_class:
  assumes "reachable_creds lib s" "map_of (cs_byID s) cid = Some r"
    and "c = cr_Metadata r" "p = cc_Provenance c" "cls = cp_ClientClass p"
  shows "cc_CredentialID c = cid \<and> class_Valid cls \<and> (UserApproved cls \<longleftrightarrow> cp_ApprovingUserID p \<noteq> '''') \<and>
    (cls \<in> {ClientClassOAuthUser, ClientClassBrowser} \<longrightarrow> cc_Resource c \<noteq> '''' \<and> cp_ClientID p \<noteq> '''') \<and>
    (if cls = ClientClassBrowser
     then cp_SessionID p \<noteq> '''' \<and> cp_FamilyID p \<noteq> '''' \<and> (\<exists>fe t. cp_FamilyExpiresAt p = Some fe \<and> cc_ExpiresAt c = Some t \<and> t \<le> fe)
     else cp_SessionID p = '''' \<and> cp_FamilyID p = '''' \<and> cp_FamilyExpiresAt p = None) \<and>
    set (cc_Scopes c) \<subseteq> set knownScopes \<and> sorted (cc_Scopes c) \<and> distinct (cc_Scopes c) \<and> cc_Scopes c \<noteq> [] \<and>
    list_all ValidScope (cc_RepositoryScopes c)"
proof -
  have "credential_wf r" "store_ok s" using reachable_creds_wf [OF assms(1)] assms(2) by (auto simp: all_wf_def)
  with store_ok_id [OF _ assms(2)] show ?thesis
    unfolding credential_wf_def Let_def assms(3-5) scopes_ok_def repositories_ok_def by auto
qed

theorem stored_provenance_fits_the_class_witness:
  "\<exists>r. map_of (cs_byID ex_creds) ''c1'' = Some r \<and> UserApproved (cp_ClientClass (cc_Provenance (cr_Metadata r))) \<and>
    cp_ApprovingUserID (cc_Provenance (cr_Metadata r)) \<noteq> ''''"
proof -
  have "map_option (\<lambda>r. UserApproved (cp_ClientClass (cc_Provenance (cr_Metadata r)))) (map_of (cs_byID ex_creds) ''c1'') = Some True" by code_simp
  then obtain r where r: "map_of (cs_byID ex_creds) ''c1'' = Some r" "UserApproved (cp_ClientClass (cc_Provenance (cr_Metadata r)))" by auto
  with stored_provenance_fits_the_class [OF reachable_ex_creds r(1) refl refl refl] show ?thesis by blast
qed

text \<open>
  The stored form of an input is a fixed point of the normalization, so a caller that normalizes an
  input before it hands it to the store, as a device redemption does, stores the same credential.
\<close>

theorem normalization_is_idempotent:
  assumes "normalizeCreate parse i = Inr n"
  shows "normalizeCreate parse n = Inr n"
  by (rule normalizeCreate_normal [OF assms])

theorem normalization_is_idempotent_witness:
  "\<exists>n. normalizeCreate (url_Parse ex_libs) (ex_browser ''c1'' (CHR ''1'')) = Inr n \<and> n \<noteq> ex_browser ''c1'' (CHR ''1'') \<and>
    normalizeCreate (url_Parse ex_libs) n = Inr n"
proof -
  let ?N = "normalizeCreate (url_Parse ex_libs) (ex_browser ''c1'' (CHR ''1''))"
  have "map_sum (\<lambda>_. ()) ci_RepositoryScopes ?N = Inr [''acme/*'', ''acme/widgets'']" by code_simp
  then obtain n where n: "?N = Inr n" "ci_RepositoryScopes n = [''acme/*'', ''acme/widgets'']" by (cases ?N) auto
  then have "n \<noteq> ex_browser ''c1'' (CHR ''1'')" by (auto simp: ex_browser_def ex_bearer_def)
  with n(1) normalization_is_idempotent [OF n(1)] show ?thesis by blast
qed

end
