(* ===== verification/Credential_Client.thy ===== *)
theory Credential_Client
  imports Credential_Properties
begin

text \<open>
  The credential store as other components use it. The interface \<open>credential_client\<close> says that a component touches
  the credential store only through the operations of the lifecycle; it carries the store's invariant and
  evolution to every client. Below it, what a client learns from the answers of lookups, creations and
  revocations.
\<close>

section \<open>Clients of the credential store\<close>

definition calls :: "libs \<Rightarrow> credential_store \<Rightarrow> credential_store \<Rightarrow> bool" where
  "calls lib cs cs' \<longleftrightarrow> (\<exists>ops. cs' = run_ops (credential_step lib) ops cs)"

lemma calls_refl [simp]: "calls lib cs cs"
  unfolding calls_def by (rule exI [of _ "[]"]) simp

lemma calls_trans: "calls lib a b \<Longrightarrow> calls lib b c \<Longrightarrow> calls lib a c"
  unfolding calls_def by (metis run_ops_append)

lemma calls_step [intro]: "calls lib cs (credential_step lib op cs)"
  unfolding calls_def by (rule exI [of _ "[op]"]) simp

lemma calls_revoke [intro]: "calls lib cs (snd (RevokeCredential lib e i cs))"
  using calls_step [of lib cs "OpRevoke e i"] by simp

lemma calls_create [intro]: "calls lib cs (snd (CreateCredential lib e i cs))"
  using calls_step [of lib cs "OpCreate e i"] by simp

lemma calls_ok: "calls lib cs cs' \<Longrightarrow> store_ok cs \<Longrightarrow> store_ok cs' \<and> store_evolves cs cs'"
  by (auto simp: calls_def creds_run_ok creds_run_evolves)

lemma calls_reachable: "calls lib cs cs' \<Longrightarrow> reachable_creds lib cs \<Longrightarrow> reachable_creds lib cs'"
  unfolding calls_def reachable_creds_def by (metis run_ops_append)

locale credential_client =
  fixes lib :: libs
    and step :: "'op \<Rightarrow> 's \<Rightarrow> 's"
    and creds :: "'s \<Rightarrow> credential_store"
  assumes step_calls: "calls lib (creds s) (creds (step op s))"
begin

lemma run_calls: "calls lib (creds s) (creds (run_ops step ops s))"
  by (induction ops arbitrary: s) (auto intro: calls_trans step_calls)

lemma run_reachable: "reachable_creds lib (creds s) \<Longrightarrow> reachable_creds lib (creds (run_ops step ops s))"
  by (rule calls_reachable [OF run_calls])

lemma run_keeps_record:
  assumes "store_ok (creds s)" "map_of (cs_byID (creds s)) cid = Some r"
  obtains r' where "map_of (cs_byID (creds (run_ops step ops s))) cid = Some r'" "record_evolves r r'"
  using calls_ok [OF run_calls assms(1)] evolves_at [OF _ assms(2)] by blast

end

section \<open>What the answers mean\<close>

text \<open>A revocation answers with a conflict only for a credential that is revoked already.\<close>

lemma ledger_Insert_err: "ledger_Insert row rows = (Some err, rows') \<Longrightarrow> err \<noteq> ErrConflict"
  by (auto simp: ledger_Insert_def split: if_splits)

lemma and_then_Inl: "and_then r f = Inl err \<longleftrightarrow> r = Inl err \<or> (\<exists>a. r = Inr a \<and> f a = Inl err)"
  by (cases r) auto

lemma row_errs:
  "OrgWireID lib org = Inl err \<Longrightarrow> err \<noteq> ErrConflict" "WireRef lib v = Inl err \<Longrightarrow> err \<noteq> ErrConflict"
  "row_kind f = Inl err \<Longrightarrow> err \<noteq> ErrConflict"
  by (auto simp: OrgWireID_def split: if_splits option.splits) (auto simp: WireRef_def row_kind_def Let_def split: if_splits event_kind.splits)

lemma actorRef_err: "actorRef lib f kind = Inl err \<Longrightarrow> err \<noteq> ErrConflict"
  by (auto simp: actorRef_def dest: row_errs(2) split: if_splits event_kind.splits actor_type.splits)

lemma row_change_err: "row_change lib f kind = Inl err \<Longrightarrow> err \<noteq> ErrConflict"
  unfolding row_change_def Let_def by (auto simp: and_then_Inl dest: row_errs(2) split: if_splits)

lemma BuildRow_err: "BuildRow lib f = Inl err \<Longrightarrow> err \<noteq> ErrConflict"
  unfolding BuildRow_def Let_def
  by (auto simp: and_then_Inl dest: row_errs actorRef_err row_change_err split: if_splits)

lemma insertFacts_err: "insertFacts lib f rows = (Some err, rows') \<Longrightarrow> err \<noteq> ErrConflict"
  by (auto simp: insertFacts_def dest: BuildRow_err ledger_Insert_err split: sum.splits)

lemma ledger_Append_err: "ledger_Append lib f rows = (Some err, rows') \<Longrightarrow> err \<noteq> ErrConflict"
  by (auto simp: ledger_Append_def EnsureIssued_def dest: insertFacts_err split: if_splits prod.splits option.splits)

lemma clone_err:
  "cloneMetadataValue v = Inl err \<Longrightarrow> err \<noteq> ErrConflict" "clone_items vs = Inl err \<Longrightarrow> err \<noteq> ErrConflict"
  "clone_entries es = Inl err \<Longrightarrow> err \<noteq> ErrConflict"
  by (induction v and vs and es rule: cloneMetadataValue_clone_items_clone_entries.induct) (auto simp: and_then_Inl)

lemma recordMutation_err: "recordMutation lib e k ev None [f] s = (Some err, s') \<Longrightarrow> err \<noteq> ErrConflict"
  by (auto simp: recordMutation_def appendLifecycle_def recordAudit_def recordLocked_def cloneMetadata_def and_then_Inl Let_def
      dest: ledger_Append_err clone_err split: if_splits prod.splits option.splits sum.splits)

lemma revoke_rows_err: "revoke_rows lib e k i fam ms s = (Some err, s') \<Longrightarrow> err \<noteq> ErrConflict"
proof (induction ms arbitrary: k s)
  case (Cons p ms)
  obtain cid m where p: "p = (cid, m)" by (cases p)
  then show ?case using Cons recordMutation_err by (fastforce split: prod.splits option.splits)
qed simp

lemma revoke_conflict:
  assumes "fst (RevokeCredential lib e i s) = Inl ErrConflict"
  shows "\<exists>n q. normalizeRevocation i = Inr n \<and> credential_at s (vi_OrgID n) (vi_CredentialID n) = Some q \<and> cc_RevokedAt (cr_Metadata q) \<noteq> None"
proof -
  have norm: "normalizeRevocation i \<noteq> Inl ErrConflict"
    by (auto simp: normalizeRevocation_def and_then_Inl normalizeIdentifier_def normalizeText_def normalizeCredentialID_def Let_def split: if_splits)
  with assms obtain n where n: "normalizeRevocation i = Inr n" "fst (revokeCredential lib e n s) = Inl ErrConflict"
    by (auto simp: RevokeCredential_def split: if_splits sum.splits)
  have go: "\<not> env_err e 1" "\<not> env_err e 2" using n(2) by (auto simp: revokeCredential_def)
  obtain q where q: "credential_at s (vi_OrgID n) (vi_CredentialID n) = Some q"
    using n(2) go by (cases "credential_at s (vi_OrgID n) (vi_CredentialID n)") (auto simp: revokeCredential_def)
  let ?ms = "(vi_CredentialID n, q) # family_siblings (cr_Metadata q) (vi_OrgID n) (vi_CredentialID n) s"
  obtain r1 s1 where rr: "revoke_rows lib e 3 n (cp_FamilyID (cc_Provenance (cr_Metadata q))) ?ms s = (r1, s1)" by fastforce
  have "cc_RevokedAt (cr_Metadata q) \<noteq> None"
  proof
    assume "cc_RevokedAt (cr_Metadata q) = None"
    with n(2) go q rr have "r1 = Some ErrConflict" by (cases r1) (simp_all add: revokeCredential_def Let_def)
    with revoke_rows_err rr show False by blast
  qed
  with n(1) q show ?thesis by blast
qed

text \<open>A revocation that succeeds, or conflicts, leaves the credential revoked.\<close>

lemma revoke_leaves_revoked:
  assumes "RevokeCredential lib e i cs = (x, cs1)" "store_ok cs" "x = Inr c \<or> x = Inl ErrConflict"
    "normalizeIdentifier ''organization'' (vi_OrgID i) = Inr org" "normalizeCredentialID (vi_CredentialID i) = Inr cid"
  shows "\<exists>r. map_of (cs_byID cs1) cid = Some r \<and> cc_RevokedAt (cr_Metadata r) \<noteq> None"
proof -
  have norm: "vi_OrgID n = org \<and> vi_CredentialID n = cid" if "normalizeRevocation i = Inr n" for n
    using that assms(4,5) by (auto simp: normalizeRevocation_def and_then_Inr split: if_splits)
  from assms(1,2) show ?thesis
  proof (cases rule: revoke_cases)
    case (fail err)
    with assms(1,3) revoke_conflict [of lib e i cs] obtain n q where "normalizeRevocation i = Inr n"
      "credential_at cs (vi_OrgID n) (vi_CredentialID n) = Some q" "cc_RevokedAt (cr_Metadata q) \<noteq> None" by auto
    with norm fail show ?thesis by (auto simp: credential_at_some)
  next
    case (revoked n q rows evs)
    have "map_of (revoke_all (env_now e) ((vi_CredentialID n, q) # family_siblings (cr_Metadata q) (vi_OrgID n) (vi_CredentialID n) cs) (cs_byID cs)) cid
        = Some (revoked_record (env_now e) q)"
      using revoked(5) norm [OF revoked(1)] map_of_revoke_all [of "(vi_CredentialID n, q) # family_siblings (cr_Metadata q) (vi_OrgID n) (vi_CredentialID n) cs"]
      by (simp add: live_members_def)
    with revoked(7) show ?thesis by (simp add: revoked_record_def)
  qed
qed

lemma evolves_revoked:
  assumes "store_evolves cs cs'" "map_of (cs_byID cs) cid = Some r" "cc_RevokedAt (cr_Metadata r) \<noteq> None"
  shows "\<exists>r'. map_of (cs_byID cs') cid = Some r' \<and> cc_RevokedAt (cr_Metadata r') \<noteq> None"
  using evolves_at [OF assms(1,2)] assms(3) by (metis record_evolves_def)

lemma GetByID_record:
  assumes "GetByID e org cid cs = Inr c" "store_ok cs"
  obtains r where "map_of (cs_byID cs) (cc_CredentialID c) = Some r" "cr_Metadata r = c" "cc_OrgID c = TrimSpace org"
    "normalizeIdentifier ''organization'' org = Inr (TrimSpace org)"
    "\<And>k. normalizeCredentialID cid = Inr k \<Longrightarrow> map_of (cs_byID cs) k = Some r"
proof -
  obtain o' k r where r: "normalizeIdentifier ''organization'' org = Inr o'" "normalizeCredentialID cid = Inr k"
    "credential_at cs o' k = Some r" "cr_Metadata r = c"
    using assms(1) by (auto simp: GetByID_def and_then_Inr split: if_splits option.splits)
  have o: "o' = TrimSpace org" using r(1) unfolding normalizeIdentifier_def by (rule normalizeText_trimmed)
  show ?thesis
  proof (rule that [of r])
    show "map_of (cs_byID cs) (cc_CredentialID c) = Some r"
      using r(3,4) store_ok_id [OF assms(2)] by (auto simp: credential_at_some)
  qed (use r o in \<open>auto simp: credential_at_some\<close>)
qed

lemma store_ok_hash: "store_ok s \<Longrightarrow> map_of (cs_byID s) cid = Some r \<Longrightarrow> map_of (cs_byHash s) (cr_TokenHash r) = Some cid"
  by (simp add: store_ok_def indexes_ok_def)

lemma GetByID_id:
  assumes "GetByID e org cid cs = Inr c" "store_ok cs" "credential_id_ok cid"
  shows "cc_CredentialID c = cid"
  using assms(1,2)
proof (rule GetByID_record)
  fix r assume r: "cr_Metadata r = c" "\<And>k. normalizeCredentialID cid = Inr k \<Longrightarrow> map_of (cs_byID cs) k = Some r"
  from r(2) [OF credential_id_fixed [OF assms(3)]] have "map_of (cs_byID cs) cid = Some r" .
  from store_ok_id [OF assms(2) this] r(1) show ?thesis by simp
qed

lemma CreateCredential_id:
  assumes "CreateCredential lib e i cs = (Inr c, cs')"
  shows "credential_id_ok (cc_CredentialID c)"
  using assms
proof (cases rule: create_cases)
  case (created n rows)
  with normalizeCreate_issued(1) [OF created(1)] show ?thesis by (simp add: issued_ok_def credentialFromCreate_def)
qed simp

lemma revoke_success:
  assumes "RevokeCredential lib e i cs = (Inr c, cs1)" "store_ok cs" "credential_id_ok (vi_CredentialID i)"
  shows "\<exists>r. map_of (cs_byID cs1) (vi_CredentialID i) = Some r \<and> cc_RevokedAt (cr_Metadata r) \<noteq> None"
proof -
  obtain n where n: "normalizeRevocation i = Inr n" using assms(1) by (auto simp: RevokeCredential_def split: if_splits sum.splits)
  then have "normalizeIdentifier ''organization'' (vi_OrgID i) = Inr (vi_OrgID n)" by (auto simp: normalizeRevocation_def and_then_Inr split: if_splits)
  with revoke_leaves_revoked [OF assms(1,2), of c] credential_id_fixed [OF assms(3)] show ?thesis by simp
qed

text \<open>A new credential was not there before, and is live.\<close>

lemma create_success:
  assumes "CreateCredential lib e i cs = (Inr c, cs1)"
  shows "map_of (cs_byID cs) (cc_CredentialID c) = None" "credential_id_ok (cc_CredentialID c)" "cc_RevokedAt c = None"
    "\<exists>r. map_of (cs_byID cs1) (cc_CredentialID c) = Some r \<and> cr_Metadata r = c"
    "\<And>x. x \<noteq> cc_CredentialID c \<Longrightarrow> map_of (cs_byID cs1) x = map_of (cs_byID cs) x"
proof -
  show "credential_id_ok (cc_CredentialID c)" by (rule CreateCredential_id [OF assms])
  from assms show "map_of (cs_byID cs) (cc_CredentialID c) = None" "cc_RevokedAt c = None"
    "\<exists>r. map_of (cs_byID cs1) (cc_CredentialID c) = Some r \<and> cr_Metadata r = c"
    "\<And>x. x \<noteq> cc_CredentialID c \<Longrightarrow> map_of (cs_byID cs1) x = map_of (cs_byID cs) x"
    by (cases rule: create_cases; simp add: has_key_def credentialFromCreate_def map_simps)+
qed

lemma revoked_not_found:
  assumes "store_ok cs" "all_wf cs" "map_of (cs_byID cs) cid = Some r" "cc_RevokedAt (cr_Metadata r) \<noteq> None"
  shows "FindByTokenHash e (cr_TokenHash r) cs \<noteq> Inr m"
proof
  assume f: "FindByTokenHash e (cr_TokenHash r) cs = Inr m"
  have "token_hash_ok (cr_TokenHash r)" using assms(2,3) by (auto simp: all_wf_def credential_wf_def Let_def)
  then have k: "normalizeTokenHash (cr_TokenHash r) = Inr (cr_TokenHash r)" by (rule token_hash_fixed)
  from f k store_ok_hash [OF assms(1,3)] assms(3,4) show False by (simp add: FindByTokenHash_def split: if_splits)
qed

end
