(* ===== verification/Go_Base64.thy ===== *)
theory Go_Base64
  imports Go_Format
begin

text \<open>
  \<^verbatim>\<open>encoding/base64\<close> and \<^verbatim>\<open>encoding/base32\<close> as the code uses them: \<^verbatim>\<open>base64.RawURLEncoding\<close> (no padding, the
  decoder skips carriage returns and line feeds, and \<^verbatim>\<open>Strict\<close> refuses leftover bits), and unpadded base32 of
  whole groups of five bytes over a given alphabet. A byte is a number below 256.
\<close>

section \<open>Base64\<close>

definition b64_alphabet :: string where
  "b64_alphabet = ''ABCDEFGHIJKLMNOPQRSTUVWXYZabcdefghijklmnopqrstuvwxyz0123456789-_''"

definition b64_char :: "nat \<Rightarrow> char" where
  "b64_char v = b64_alphabet ! v"

text \<open>The decoder's table is the inverse of the alphabet.\<close>

fun index_of :: "'a \<Rightarrow> 'a list \<Rightarrow> nat option" where
  "index_of x [] = None"
| "index_of x (y # ys) = (if x = y then Some 0 else map_option Suc (index_of x ys))"

definition b64_value :: "char \<Rightarrow> nat option" where
  "b64_value c = index_of c b64_alphabet"

fun b64_encode :: "nat list \<Rightarrow> string" where
  "b64_encode [] = []"
| "b64_encode [a] = [b64_char (a div 4), b64_char (a mod 4 * 16)]"
| "b64_encode [a, b] = [b64_char (a div 4), b64_char (a mod 4 * 16 + b div 16), b64_char (b mod 16 * 4)]"
| "b64_encode (a # b # c # rest) =
    b64_char (a div 4) # b64_char (a mod 4 * 16 + b div 16) # b64_char (b mod 16 * 4 + c div 64) # b64_char (c mod 64) # b64_encode rest"

fun b64_groups :: "bool \<Rightarrow> nat list \<Rightarrow> nat list option" where
  "b64_groups strict [] = Some []"
| "b64_groups strict [x] = None"
| "b64_groups strict [x, y] = (if strict \<and> y mod 16 \<noteq> 0 then None else Some [x * 4 + y div 16])"
| "b64_groups strict [x, y, z] =
    (if strict \<and> z mod 4 \<noteq> 0 then None else Some [x * 4 + y div 16, y mod 16 * 16 + z div 4])"
| "b64_groups strict (x # y # z # w # rest) =
    map_option (\<lambda>bs. (x * 4 + y div 16) # (y mod 16 * 16 + z div 4) # (z mod 4 * 64 + w) # bs) (b64_groups strict rest)"

definition b64_values :: "string \<Rightarrow> nat list option" where
  "b64_values s = those (map b64_value (filter (\<lambda>c. c \<noteq> CHR 0x0D \<and> c \<noteq> CHR 0x0A) s))"

definition b64_decode :: "bool \<Rightarrow> string \<Rightarrow> nat list option" where
  "b64_decode strict s = Option.bind (b64_values s) (b64_groups strict)"

definition bytes_ok :: "nat list \<Rightarrow> bool" where
  "bytes_ok bs \<longleftrightarrow> list_all (\<lambda>b. b < 256) bs"

definition string_bytes :: "string \<Rightarrow> nat list" where
  "string_bytes s = map of_char s"

section \<open>Base32\<close>

fun b32_encode :: "string \<Rightarrow> nat list \<Rightarrow> string" where
  "b32_encode alphabet (a # b # c # d # e # rest) =
    map ((!) alphabet) [a div 8, a mod 8 * 4 + b div 64, b div 2 mod 32, b mod 2 * 16 + c div 16, c mod 16 * 2 + d div 128,
      d div 4 mod 32, d mod 4 * 8 + e div 32, e mod 32] @ b32_encode alphabet rest"
| "b32_encode alphabet _ = []"

section \<open>Facts\<close>

lemma index_of_nth: "distinct xs \<Longrightarrow> i < length xs \<Longrightarrow> index_of (xs ! i) xs = Some i"
  by (induction xs arbitrary: i) (auto simp: nth_Cons split: nat.splits)

lemma index_of_some: "index_of x xs = Some i \<Longrightarrow> i < length xs \<and> xs ! i = x"
  by (induction xs arbitrary: i) (auto split: if_splits)

lemma b64_alphabet_facts: "distinct b64_alphabet" "length b64_alphabet = 64" "CHR 0x0D \<notin> set b64_alphabet" "CHR 0x0A \<notin> set b64_alphabet"
  by (simp_all add: b64_alphabet_def)

lemma b64_value_char [simp]: "v < 64 \<Longrightarrow> b64_value (b64_char v) = Some v"
  by (simp add: b64_value_def b64_char_def index_of_nth b64_alphabet_facts)

lemma b64_value_some: "b64_value c = Some v \<Longrightarrow> v < 64 \<and> b64_char v = c"
  using index_of_some [of c b64_alphabet v] by (simp add: b64_value_def b64_char_def b64_alphabet_facts)

lemma b64_char_kept [simp]: "v < 64 \<Longrightarrow> b64_char v \<noteq> CHR 0x0D \<and> b64_char v \<noteq> CHR 0x0A"
  using nth_mem [of v b64_alphabet] b64_alphabet_facts by (auto simp: b64_char_def simp del: nth_mem)

lemma b64_values_chars: "list_all (\<lambda>v. v < 64) vs \<Longrightarrow> b64_values (map b64_char vs) = Some vs"
  by (induction vs) (auto simp: b64_values_def)

text \<open>The six-bit values of an encoding.\<close>

fun b64_split :: "nat list \<Rightarrow> nat list" where
  "b64_split [] = []"
| "b64_split [a] = [a div 4, a mod 4 * 16]"
| "b64_split [a, b] = [a div 4, a mod 4 * 16 + b div 16, b mod 16 * 4]"
| "b64_split (a # b # c # rest) = a div 4 # (a mod 4 * 16 + b div 16) # (b mod 16 * 4 + c div 64) # (c mod 64) # b64_split rest"

lemma b64_encode_split: "b64_encode bs = map b64_char (b64_split bs)"
  by (induction bs rule: b64_encode.induct) simp_all

lemma six_bits:
  fixes a b c :: nat
  shows "a < 256 \<Longrightarrow> a div 4 < 64" "a mod 4 * 16 < 64" "b < 256 \<Longrightarrow> a mod 4 * 16 + b div 16 < 64" "b mod 16 * 4 < 64"
    "c < 256 \<Longrightarrow> b mod 16 * 4 + c div 64 < 64"
  by linarith+

lemma b64_split_small: "bytes_ok bs \<Longrightarrow> list_all (\<lambda>v. v < 64) (b64_split bs)"
  by (induction bs rule: b64_split.induct) (auto simp: bytes_ok_def intro: six_bits)

lemma b64_groups_split: "bytes_ok bs \<Longrightarrow> b64_groups strict (b64_split bs) = Some bs"
  by (induction bs rule: b64_split.induct) (auto simp: bytes_ok_def less_mult_imp_div_less)

theorem b64_decode_encode: "bytes_ok bs \<Longrightarrow> b64_decode strict (b64_encode bs) = Some bs"
  by (simp add: b64_decode_def b64_encode_split b64_values_chars b64_split_small b64_groups_split)

lemma length_b64_encode: "length (b64_encode bs) = (length bs * 8 + 5) div 6"
  by (induction bs rule: b64_encode.induct) simp_all

text \<open>A strict decoding of alphabet characters is the inverse of the encoding.\<close>

lemma eight_bits:
  fixes x y z w :: nat
  shows "x < 64 \<Longrightarrow> y < 64 \<Longrightarrow> x * 4 + y div 16 < 256" "z < 64 \<Longrightarrow> y mod 16 * 16 + z div 4 < 256" "w < 64 \<Longrightarrow> z mod 4 * 64 + w < 256"
  by linarith+

lemma b64_split_groups: "b64_groups True vs = Some bs \<Longrightarrow> list_all (\<lambda>v. v < 64) vs \<Longrightarrow> b64_split bs = vs \<and> bytes_ok bs"
  by (induction "True" vs arbitrary: bs rule: b64_groups.induct) (auto simp: bytes_ok_def less_mult_imp_div_less intro: eight_bits split: if_splits)

lemma b64_values_some:
  assumes "those (map b64_value s) = Some vs"
  shows "map b64_char vs = s \<and> list_all (\<lambda>v. v < 64) vs"
  using assms by (induction s arbitrary: vs) (auto dest: b64_value_some split: option.splits)

theorem b64_decode_strict:
  assumes "b64_decode True s = Some bs" "CHR 0x0D \<notin> set s" "CHR 0x0A \<notin> set s"
  shows "s = b64_encode bs \<and> bytes_ok bs"
proof -
  have "filter (\<lambda>c. c \<noteq> CHR 0x0D \<and> c \<noteq> CHR 0x0A) s = s" using assms(2,3) by (auto simp: filter_id_conv)
  with assms(1) obtain vs where vs: "those (map b64_value s) = Some vs" "b64_groups True vs = Some bs"
    by (auto simp: b64_decode_def b64_values_def bind_eq_Some_conv)
  from b64_values_some [OF vs(1)] b64_split_groups [OF vs(2)] show ?thesis by (auto simp: b64_encode_split)
qed

end
