(* ===== verification/Credential_Service.thy ===== *)
theory Credential_Service
  imports Repository_Grants Credential_Client Go_Base64
begin

text \<open>
  The credential service over the credential store: \<^verbatim>\<open>src/internal/auth/service.go\<close>, \<^verbatim>\<open>self_lifecycle.go\<close>,
  \<^verbatim>\<open>revoke_on_behalf.go\<close> and \<^verbatim>\<open>token.go\<close>. An operation takes the instant its clock returns (the service reads it
  at most once on a path) and one \<open>env\<close> per call of the store. The generators of tokens and ids read random
  bytes; what they return is an argument \<open>generated\<close>.
\<close>

section \<open>Tokens\<close>

definition TokenPrefix :: string where "TokenPrefix = ''fcacr_''"
definition tokenSecretBytes :: nat where "tokenSecretBytes = 32"
definition tokenEncodedLen :: nat where "tokenEncodedLen = (tokenSecretBytes * 8 + 5) div 6"

definition GenerateToken :: "nat list option \<Rightarrow> string option" where
  "GenerateToken secret = map_option (\<lambda>bs. TokenPrefix @ b64_encode bs) secret"

definition base32_std :: string where "base32_std = ''ABCDEFGHIJKLMNOPQRSTUVWXYZ234567''"

definition GenerateCredentialID :: "nat list option \<Rightarrow> string option" where
  "GenerateCredentialID random = map_option (\<lambda>bs. ''cred_'' @ ToLower (b32_encode base32_std bs)) random"

definition HashToken :: "libs \<Rightarrow> string \<Rightarrow> string" where
  "HashToken lib token = sha256_hex lib token"

definition DisplayPrefix :: "string \<Rightarrow> string" where
  "DisplayPrefix token = (let displayLength = length TokenPrefix + 10 in if length token \<le> displayLength then token else take displayLength token)"

definition BrowserCredentialLifetime :: duration where "BrowserCredentialLifetime = 10 * Minute"

definition isRawURLAlphabet :: "string \<Rightarrow> bool" where
  "isRawURLAlphabet value = list_all (\<lambda>c. is_upper c \<or> is_lower c \<or> is_digit c \<or> c = CHR ''-'' \<or> c = CHR ''_'') value"

definition IsTokenShapeValid :: "string \<Rightarrow> bool" where
  "IsTokenShapeValid token =
    (if \<not> has_prefix token TokenPrefix then False
     else let secret = drop (length TokenPrefix) token
          in if length secret \<noteq> tokenEncodedLen \<or> \<not> isRawURLAlphabet secret then False
             else case b64_decode True secret of None \<Rightarrow> False | Some decoded \<Rightarrow> length decoded = tokenSecretBytes)"

section \<open>Issuing\<close>

datatype service_error =
    ErrInvalidCredential
  | ErrBrowserCredentialRotation
  | ErrRotationWiderThanParent
  | ErrStaleSelfCredential
  | SvGenerate
  | SvBadToken
  | OnBehalfRefusal string
  | SvStore credential_error

record generated =
  gn_token :: "string option"
  gn_id :: "string option"

record credential_service =
  sv_maximumOverlap :: duration

definition newService :: "duration \<Rightarrow> credential_service" where
  "newService maximumOverlap = \<lparr>sv_maximumOverlap = (if maximumOverlap \<le> 0 then 15 * Minute else maximumOverlap)\<rparr>"

record issued_credential =
  is_Credential :: client_credential
  is_Token :: string

record rotate_request =
  rq_OrgID :: string
  rq_CredentialID :: string
  rq_Name :: string
  rq_RepositoryScopes :: "string list"
  rq_Scopes :: "string list"
  rq_CreatedBy :: string
  rq_ExpiresAt :: "time option"
  rq_Overlap :: duration
  rq_SelfCredential :: bool

type_synonym 'a service_result = "(service_error + 'a) \<times> credential_store"

definition issueCreateInput :: "libs \<Rightarrow> generated \<Rightarrow> create_request \<Rightarrow> service_error + (string \<times> create_input)" where
  "issueCreateInput lib g q =
    (case gn_token g of
       None \<Rightarrow> Inl SvGenerate
     | Some token \<Rightarrow>
         if \<not> IsTokenShapeValid token then Inl SvBadToken
         else case gn_id g of
           None \<Rightarrow> Inl SvGenerate
         | Some credentialID \<Rightarrow>
             Inr (token, \<lparr>ci_CredentialID = credentialID, ci_OrgID = cq_OrgID q, ci_Name = cq_Name q, ci_TokenPrefix = DisplayPrefix token,
               ci_TokenHash = HashToken lib token, ci_RepositoryScopes = cq_RepositoryScopes q, ci_Scopes = cq_Scopes q,
               ci_ActorID = cq_CreatedBy q, ci_ExpiresAt = cq_ExpiresAt q, ci_IssuanceProvenance = cq_IssuanceProvenance q,
               ci_WorkloadBindingID = cq_WorkloadBindingID q, ci_Resource = cq_Resource q, ci_ClientID = cq_ClientID q,
               ci_ApprovingUserID = '''', ci_ClientClass = cq_ClientClass q, ci_SessionID = '''', ci_FamilyID = cq_FamilyID q,
               ci_FamilyExpiresAt = cq_FamilyExpiresAt q\<rparr>))"

definition issueRotationInput :: "libs \<Rightarrow> generated \<Rightarrow> create_request \<Rightarrow> duration \<Rightarrow> service_error + (string \<times> rotation_replacement)" where
  "issueRotationInput lib g q overlap =
    and_then (issueCreateInput lib g q) (\<lambda>(token, i).
      Inr (token, \<lparr>rr_CredentialID = ci_CredentialID i, rr_Name = ci_Name i, rr_TokenPrefix = ci_TokenPrefix i, rr_TokenHash = ci_TokenHash i,
        rr_RepositoryScopes = ci_RepositoryScopes i, rr_Scopes = ci_Scopes i, rr_ExpiresAt = ci_ExpiresAt i, rr_Overlap = overlap,
        rr_Immediate = (overlap = 0)\<rparr>))"

definition in_future :: "time option \<Rightarrow> time \<Rightarrow> bool" where
  "in_future expiresAt now = (case expiresAt of None \<Rightarrow> True | Some t \<Rightarrow> t > now)"

text \<open>A prepared credential is its token and its storage input.\<close>

definition PrepareCreate :: "libs \<Rightarrow> time \<Rightarrow> generated \<Rightarrow> create_request \<Rightarrow> service_error + (string \<times> create_input)" where
  "PrepareCreate lib now g q =
    (case normalizeCreateRequest q of
       None \<Rightarrow> Inl ErrInvalidCredential
     | Some n \<Rightarrow> if \<not> in_future (cq_ExpiresAt n) now then Inl ErrInvalidCredential else issueCreateInput lib g n)"

definition Complete :: "string \<times> create_input \<Rightarrow> client_credential \<Rightarrow> service_error + issued_credential" where
  "Complete prepared credential =
    (if cc_CredentialID credential \<noteq> ci_CredentialID (snd prepared) \<or> cc_OrgID credential \<noteq> ci_OrgID (snd prepared) then Inl ErrInvalidCredential
     else Inr \<lparr>is_Credential = credential, is_Token = fst prepared\<rparr>)"

definition Service_Create :: "libs \<Rightarrow> env \<Rightarrow> time \<Rightarrow> generated \<Rightarrow> create_request \<Rightarrow> credential_store \<Rightarrow> issued_credential service_result" where
  "Service_Create lib e now g q cs =
    (case PrepareCreate lib now g q of
       Inl err \<Rightarrow> (Inl err, cs)
     | Inr prepared \<Rightarrow>
         (case CreateCredential lib e (snd prepared) cs of
            (Inl err, cs1) \<Rightarrow> (Inl (SvStore err), cs1)
          | (Inr credential, cs1) \<Rightarrow> (Complete prepared credential, cs1)))"

definition Service_List :: "env \<Rightarrow> string \<Rightarrow> credential_store \<Rightarrow> service_error + client_credential list" where
  "Service_List e orgID cs =
    (if orgID = '''' then Inl ErrInvalidCredential else case List_credentials e orgID cs of Inl err \<Rightarrow> Inl (SvStore err) | Inr values \<Rightarrow> Inr values)"

section \<open>Rotating\<close>

definition rotation_request :: "rotate_request \<Rightarrow> client_credential \<Rightarrow> create_request" where
  "rotation_request q current =
    \<lparr>cq_OrgID = cc_OrgID current, cq_Name = (if rq_Name q = '''' then cc_Name current else rq_Name q),
     cq_RepositoryScopes = (if rq_RepositoryScopes q = [] then cc_RepositoryScopes current else rq_RepositoryScopes q),
     cq_Scopes = (if rq_Scopes q = [] then cc_Scopes current else rq_Scopes q), cq_CreatedBy = rq_CreatedBy q, cq_ExpiresAt = rq_ExpiresAt q,
     cq_IssuanceProvenance = '''', cq_WorkloadBindingID = '''', cq_Resource = '''', cq_ClientID = '''', cq_ClientClass = '''', cq_FamilyID = '''',
     cq_FamilyExpiresAt = None\<rparr>"

definition rotation_trimmed :: "rotate_request \<Rightarrow> rotate_request" where
  "rotation_trimmed q = q\<lparr>rq_OrgID := TrimSpace (rq_OrgID q), rq_CredentialID := TrimSpace (rq_CredentialID q), rq_CreatedBy := TrimSpace (rq_CreatedBy q)\<rparr>"

definition Rotate ::
  "credential_service \<Rightarrow> libs \<Rightarrow> (nat \<Rightarrow> env) \<Rightarrow> time \<Rightarrow> generated \<Rightarrow> rotate_request \<Rightarrow> credential_store \<Rightarrow> issued_credential service_result" where
  "Rotate sv lib es now g q0 cs =
    (if rq_Overlap q0 < 0 \<or> rq_Overlap q0 > sv_maximumOverlap sv then (Inl ErrInvalidCredential, cs)
     else let q = rotation_trimmed q0
     in if rq_OrgID q = '''' \<or> rq_CredentialID q = '''' \<or> rq_CreatedBy q = '''' then (Inl ErrInvalidCredential, cs)
        else case GetByID (es 0) (rq_OrgID q) (rq_CredentialID q) cs of
          Inl err \<Rightarrow> (Inl (SvStore err), cs)
        | Inr current \<Rightarrow>
            if cc_RevokedAt current \<noteq> None then (Inl ErrInvalidCredential, cs)
            else if cp_ClientClass (cc_Provenance current) = ClientClassBrowser then (Inl ErrBrowserCredentialRotation, cs)
            else case normalizeCreateRequest (rotation_request q current) of
              None \<Rightarrow> (Inl ErrInvalidCredential, cs)
            | Some n \<Rightarrow>
                if \<not> rotationWithinParent current n then (Inl ErrRotationWiderThanParent, cs)
                else if \<not> in_future (cq_ExpiresAt n) now then (Inl ErrInvalidCredential, cs)
                else case issueRotationInput lib g n (rq_Overlap q) of
                  Inl err \<Rightarrow> (Inl err, cs)
                | Inr (token, replacement) \<Rightarrow>
                    (case RotateCredential lib (es 1) \<lparr>ri_OrgID = rq_OrgID q, ri_SourceCredentialID = rq_CredentialID q, ri_ActorID = rq_CreatedBy q,
                         ri_SelfCredential = rq_SelfCredential q, ri_Replacement = replacement\<rparr> cs of
                       (Inl err, cs1) \<Rightarrow> (Inl (SvStore err), cs1)
                     | (Inr credential, cs1) \<Rightarrow> (Inr \<lparr>is_Credential = credential, is_Token = token\<rparr>, cs1)))"

section \<open>Revoking\<close>

definition revokeWithActor :: "libs \<Rightarrow> env \<Rightarrow> revocation_input \<Rightarrow> credential_store \<Rightarrow> client_credential service_result" where
  "revokeWithActor lib e i cs =
    (case RevokeCredential lib e i cs of (Inl err, cs1) \<Rightarrow> (Inl (SvStore err), cs1) | (Inr credential, cs1) \<Rightarrow> (Inr credential, cs1))"

definition revoke_with :: "libs \<Rightarrow> env \<Rightarrow> string \<Rightarrow> string \<Rightarrow> string \<Rightarrow> string \<Rightarrow> string \<Rightarrow> bool \<Rightarrow> credential_store \<Rightarrow> client_credential service_result" where
  "revoke_with lib e orgID credentialID actorID actorType reason self cs =
    (let orgID = TrimSpace orgID; credentialID = TrimSpace credentialID; actorID = TrimSpace actorID
     in if orgID = '''' \<or> credentialID = '''' \<or> actorID = '''' then (Inl ErrInvalidCredential, cs)
        else revokeWithActor lib e \<lparr>vi_OrgID = orgID, vi_CredentialID = credentialID, vi_ActorID = actorID, vi_ActorType = actorType,
               vi_Reason = reason, vi_SelfCredential = self\<rparr> cs)"

definition service_revoke :: "libs \<Rightarrow> env \<Rightarrow> string \<Rightarrow> string \<Rightarrow> string \<Rightarrow> bool \<Rightarrow> credential_store \<Rightarrow> client_credential service_result" where
  "service_revoke lib e orgID credentialID actorID self cs = revoke_with lib e orgID credentialID actorID '''' '''' self cs"

definition Service_Revoke :: "libs \<Rightarrow> env \<Rightarrow> string \<Rightarrow> string \<Rightarrow> string \<Rightarrow> credential_store \<Rightarrow> client_credential service_result" where
  "Service_Revoke lib e orgID credentialID actorID cs = service_revoke lib e orgID credentialID actorID False cs"

definition RevokeAsOperator :: "libs \<Rightarrow> env \<Rightarrow> string \<Rightarrow> string \<Rightarrow> string \<Rightarrow> string \<Rightarrow> credential_store \<Rightarrow> client_credential service_result" where
  "RevokeAsOperator lib e orgID credentialID actorID reason cs = revoke_with lib e orgID credentialID actorID ''operator'' reason False cs"

definition OnBehalfActorUser :: string where "OnBehalfActorUser = ''user''"
definition OnBehalfActorAdmin :: string where "OnBehalfActorAdmin = ''admin''"

definition RevokeOnBehalf :: "libs \<Rightarrow> (nat \<Rightarrow> env) \<Rightarrow> string \<Rightarrow> string \<Rightarrow> string \<Rightarrow> string \<Rightarrow> credential_store \<Rightarrow> client_credential service_result" where
  "RevokeOnBehalf lib es orgID0 credentialID0 actorType actorID0 cs =
    (let orgID = TrimSpace orgID0; credentialID = TrimSpace credentialID0; actorID = TrimSpace actorID0
     in if orgID = '''' \<or> actorID = '''' \<or> (actorType \<noteq> OnBehalfActorUser \<and> actorType \<noteq> OnBehalfActorAdmin) then (Inl ErrInvalidCredential, cs)
        else case GetByID (es 0) orgID credentialID cs of
          Inl ErrNotFound \<Rightarrow> (Inl (OnBehalfRefusal ''unknown_credential''), cs)
        | Inl (ErrInvalidInput f) \<Rightarrow> (Inl (OnBehalfRefusal ''unknown_credential''), cs)
        | Inl err \<Rightarrow> (Inl (SvStore err), cs)
        | Inr credential \<Rightarrow>
            if cp_ClientClass (cc_Provenance credential) \<noteq> ClientClassOAuthUser \<or> cc_Resource credential = ''''
            then (Inl (OnBehalfRefusal ''not_mcp_bound''), cs)
            else if actorType = OnBehalfActorUser \<and> cp_ApprovingUserID (cc_Provenance credential) \<noteq> actorID
            then (Inl (OnBehalfRefusal ''not_approver''), cs)
            else revokeWithActor lib (es 1) \<lparr>vi_OrgID = orgID, vi_CredentialID = cc_CredentialID credential, vi_ActorID = actorID,
                   vi_ActorType = actorType, vi_Reason = '''', vi_SelfCredential = False\<rparr> cs)"

section \<open>A credential's own lifecycle\<close>

definition validateSelfLifecyclePrincipal :: "principal \<Rightarrow> bool" where
  "validateSelfLifecyclePrincipal p \<longleftrightarrow>
     \<not> (p_AuthenticationMethod p \<noteq> AuthenticationMethodCredential \<or> TrimSpace (p_Subject p) = '''' \<or> p_Subject p \<noteq> p_CredentialID p
        \<or> TrimSpace (p_OrgID p) = '''') \<and>
     NormalizeRepositoryScopes (p_RepositoryScopes p) = Some (p_RepositoryScopes p) \<and>
     auth_normalizeScopes (p_Permissions p) = Some (p_Permissions p)"

definition authenticatedCredential :: "env \<Rightarrow> time \<Rightarrow> principal \<Rightarrow> credential_store \<Rightarrow> service_error + client_credential" where
  "authenticatedCredential e now p cs =
    (if \<not> validateSelfLifecyclePrincipal p then Inl ErrInvalidCredential
     else case GetByID e (p_OrgID p) (p_CredentialID p) cs of
       Inl err \<Rightarrow> Inl (SvStore err)
     | Inr credential \<Rightarrow>
         if cc_RevokedAt credential \<noteq> None \<or> \<not> in_future (cc_ExpiresAt credential) now
            \<or> cc_RepositoryScopes credential \<noteq> p_RepositoryScopes p \<or> cc_Scopes credential \<noteq> p_Permissions p
         then Inl ErrInvalidCredential else Inr credential)"

record self_receipt =
  sf_SourceCredentialID :: string
  sf_SuccessorCredentialID :: string
  sf_RollbackUntil :: time

definition DeviceCredentialLifetime :: duration where "DeviceCredentialLifetime = 30 * 24 * Hour"

definition self_rotation :: "principal \<Rightarrow> time \<Rightarrow> rotate_request" where
  "self_rotation p now = \<lparr>rq_OrgID = p_OrgID p, rq_CredentialID = p_CredentialID p, rq_Name = '''', rq_RepositoryScopes = [], rq_Scopes = [],
     rq_CreatedBy = p_Subject p, rq_ExpiresAt = Some (now + DeviceCredentialLifetime), rq_Overlap = MaximumOverlap, rq_SelfCredential = True\<rparr>"

text \<open>The clock of \<open>RotateSelf\<close> is read three times: for the check, for the new expiry, and by the rotation.\<close>

definition RotateSelf ::
  "credential_service \<Rightarrow> libs \<Rightarrow> (nat \<Rightarrow> env) \<Rightarrow> (nat \<Rightarrow> time) \<Rightarrow> generated \<Rightarrow> principal \<Rightarrow> credential_store \<Rightarrow> (issued_credential \<times> self_receipt) service_result" where
  "RotateSelf sv lib es now g p cs =
    (case authenticatedCredential (es 0) (now 0) p cs of
       Inl err \<Rightarrow> (Inl err, cs)
     | Inr source \<Rightarrow>
         (case Rotate sv lib (\<lambda>k. es (Suc k)) (now 2) g (self_rotation p (now 1)) cs of
            (Inl err, cs1) \<Rightarrow> (Inl (if err = SvStore ErrNotFound then ErrStaleSelfCredential else err), cs1)
          | (Inr issued, cs1) \<Rightarrow>
              let until = cc_CreatedAt (is_Credential issued) + MaximumOverlap;
                  until' = (case cc_ExpiresAt source of None \<Rightarrow> until | Some t \<Rightarrow> if t < until then t else until)
              in (Inr (issued, \<lparr>sf_SourceCredentialID = p_CredentialID p, sf_SuccessorCredentialID = cc_CredentialID (is_Credential issued),
                    sf_RollbackUntil = until'\<rparr>), cs1)))"

definition RollbackSelfRotation ::
  "libs \<Rightarrow> (nat \<Rightarrow> env) \<Rightarrow> time \<Rightarrow> principal \<Rightarrow> self_receipt \<Rightarrow> credential_store \<Rightarrow> client_credential service_result" where
  "RollbackSelfRotation lib es now p receipt cs =
    (if \<not> validateSelfLifecyclePrincipal p then (Inl ErrInvalidCredential, cs)
     else case GetByID (es 0) (p_OrgID p) (p_CredentialID p) cs of
       Inl err \<Rightarrow> (Inl (SvStore err), cs)
     | Inr credential \<Rightarrow>
         if cc_RepositoryScopes credential \<noteq> p_RepositoryScopes p \<or> cc_Scopes credential \<noteq> p_Permissions p then (Inl ErrInvalidCredential, cs)
         else if TrimSpace (sf_SourceCredentialID receipt) = '''' \<or> TrimSpace (sf_SuccessorCredentialID receipt) \<noteq> p_CredentialID p
           \<or> sf_SourceCredentialID receipt = p_CredentialID p \<or> \<not> sf_RollbackUntil receipt > now then (Inl ErrInvalidCredential, cs)
         else case RollbackCredentialRotation lib (es 1) \<lparr>bi_OrgID = p_OrgID p, bi_SourceCredentialID = sf_SourceCredentialID receipt,
                bi_SuccessorCredentialID = sf_SuccessorCredentialID receipt, bi_ActorID = p_Subject p, bi_RollbackUntil = sf_RollbackUntil receipt\<rparr> cs of
           (Inl err, cs1) \<Rightarrow> (Inl (SvStore err), cs1)
         | (Inr revoked, cs1) \<Rightarrow> (Inr revoked, cs1))"

definition RevokeSelf :: "libs \<Rightarrow> (nat \<Rightarrow> env) \<Rightarrow> time \<Rightarrow> principal \<Rightarrow> credential_store \<Rightarrow> client_credential service_result" where
  "RevokeSelf lib es now p cs =
    (case authenticatedCredential (es 0) now p cs of
       Inl err \<Rightarrow> (Inl err, cs)
     | Inr _ \<Rightarrow>
         (case service_revoke lib (es 1) (p_OrgID p) (p_CredentialID p) (p_Subject p) True cs of
            (Inl err, cs1) \<Rightarrow> (Inl (if err = SvStore ErrNotFound then ErrStaleSelfCredential else err), cs1)
          | (Inr credential, cs1) \<Rightarrow> (Inr credential, cs1)))"

datatype presented_outcome = OutcomeInvalidGrant | OutcomeClientMismatch | OutcomeOK

text \<open>The outcome comes with the id of the credential the token named, if it named one.\<close>

definition RevokePresentedAccessToken ::
  "libs \<Rightarrow> (nat \<Rightarrow> env) \<Rightarrow> string \<Rightarrow> string \<Rightarrow> credential_store \<Rightarrow> (presented_outcome \<times> string) service_result" where
  "RevokePresentedAccessToken lib es token clientID cs =
    (if TrimSpace clientID = '''' then (Inl ErrInvalidCredential, cs)
     else if \<not> IsTokenShapeValid token then (Inr (OutcomeInvalidGrant, ''''), cs)
     else case FindByTokenHash (es 0) (HashToken lib token) cs of
       Inl err \<Rightarrow> if err = ErrNotFound then (Inr (OutcomeInvalidGrant, ''''), cs) else (Inl (SvStore err), cs)
     | Inr credential \<Rightarrow>
         if cp_ClientID (cc_Provenance credential) \<noteq> clientID then (Inr (OutcomeClientMismatch, cc_CredentialID credential), cs)
         else case service_revoke lib (es 1) (cc_OrgID credential) (cc_CredentialID credential) (cc_CredentialID credential) True cs of
           (Inl err, cs1) \<Rightarrow>
             if err = SvStore ErrNotFound \<or> err = SvStore ErrConflict then (Inr (OutcomeInvalidGrant, cc_CredentialID credential), cs1)
             else (Inl err, cs1)
         | (Inr _, cs1) \<Rightarrow> (Inr (OutcomeOK, cc_CredentialID credential), cs1))"

end
