(* ===== verification/OAuth_Input.thy ===== *)
theory OAuth_Input
  imports Credential_Store
begin

text \<open>
  The data of OAuth logins and its validation, \<^verbatim>\<open>src/internal/storage/oauth.go\<close>: secret hashes and their
  hexadecimal text, dynamic client ids, redirect URIs and how a presented one matches a registered one,
  authorization requests and device grants. \<^verbatim>\<open>url.Parse\<close> is the parameter \<open>parse\<close>; a hash of
  32 bytes is the string of its bytes.
\<close>

section \<open>Constants and types\<close>

definition OAuthClientKindDynamic :: string where "OAuthClientKindDynamic = ''dynamic''"
definition OAuthClientKindMetadataDocument :: string where "OAuthClientKindMetadataDocument = ''metadata_document''"

definition maxOAuthClientNameLength :: nat where "maxOAuthClientNameLength = 200"
definition maxOAuthRedirectURIs :: nat where "maxOAuthRedirectURIs = 8"
definition maxOAuthURILength :: nat where "maxOAuthURILength = 2048"
definition maxOAuthStateLength :: nat where "maxOAuthStateLength = 1024"
definition maxOAuthScopeLength :: nat where "maxOAuthScopeLength = 512"
definition oauthCodeChallengeLength :: nat where "oauthCodeChallengeLength = 43"
definition dynamicOAuthClientIDBytes :: nat where "dynamicOAuthClientIDBytes = 16"
definition dynamicOAuthClientIDStart :: string where "dynamicOAuthClientIDStart = ''acrc_''"

datatype oauth_error =
    ErrInvalidOAuthClient
  | ErrInvalidOAuthAuthorizationRequest
  | ErrOAuthAuthorizationCodeUnavailable
  | OaConflict
  | OaNotFound
  | OaCanceled

type_synonym secret_hash = string

record oauth_client =
  oc_ClientID :: string
  oc_ClientName :: string
  oc_RedirectURIs :: "string list"
  oc_CreatedAt :: time

record authorization_request =
  ar_HandleHash :: secret_hash
  ar_DeviceCodeHash :: secret_hash
  ar_ClientID :: string
  ar_ClientKind :: string
  ar_RedirectURI :: string
  ar_CodeChallenge :: string
  ar_Resource :: string
  ar_Scope :: string
  ar_State :: string
  ar_CreatedAt :: time
  ar_ExpiresAt :: time
  ar_CodeHash :: "secret_hash option"
  ar_CodeExpiresAt :: "time option"
  ar_ConsumedAt :: "time option"
  ar_BoundOrgID :: string
  ar_BoundSubject :: string

record device_grant =
  dg_DeviceCodeHash :: secret_hash
  dg_ClientID :: string
  dg_ClientKind :: string
  dg_Resource :: string
  dg_Scope :: string
  dg_CreatedAt :: time
  dg_ExpiresAt :: time

section \<open>Hashes and client ids\<close>

definition hash_size :: nat where "hash_size = 32"

definition hash_IsZero :: "secret_hash \<Rightarrow> bool" where
  "hash_IsZero h \<longleftrightarrow> h = replicate hash_size (char_of (0 :: nat))"

definition hex_digit :: "nat \<Rightarrow> char" where
  "hex_digit n = (if n < 10 then char_of (48 + n) else char_of (87 + n))"

definition hex_value :: "char \<Rightarrow> nat option" where
  "hex_value c = (let b = nat (byte_of c)
     in if 48 \<le> b \<and> b \<le> 57 then Some (b - 48) else if 97 \<le> b \<and> b \<le> 102 then Some (b - 87)
        else if 65 \<le> b \<and> b \<le> 70 then Some (b - 55) else None)"

definition hex_EncodeToString :: "string \<Rightarrow> string" where
  "hex_EncodeToString bytes = concat (map (\<lambda>c. [hex_digit (of_char c div 16), hex_digit (of_char c mod 16)]) bytes)"

fun hex_DecodeString :: "string \<Rightarrow> string option" where
  "hex_DecodeString [] = Some []"
| "hex_DecodeString [_] = None"
| "hex_DecodeString (a # b # rest) =
    (case (hex_value a, hex_value b, hex_DecodeString rest) of
       (Some x, Some y, Some r) \<Rightarrow> Some (char_of (16 * x + y) # r)
     | _ \<Rightarrow> None)"

definition ParseOAuthSecretHash :: "string \<Rightarrow> oauth_error + secret_hash" where
  "ParseOAuthSecretHash value =
    (case hex_DecodeString (TrimSpace value) of
       None \<Rightarrow> Inl ErrInvalidOAuthAuthorizationRequest
     | Some decoded \<Rightarrow> if length decoded \<noteq> hash_size then Inl ErrInvalidOAuthAuthorizationRequest else Inr decoded)"

definition hash_String :: "secret_hash \<Rightarrow> string" where
  "hash_String h = hex_EncodeToString h"

definition IsDynamicOAuthClientID :: "string \<Rightarrow> bool" where
  "IsDynamicOAuthClientID clientID \<longleftrightarrow>
     has_prefix clientID dynamicOAuthClientIDStart \<and>
     (let rest = drop (length dynamicOAuthClientIDStart) clientID
      in length rest = 2 * dynamicOAuthClientIDBytes \<and>
         list_all (\<lambda>g. \<not> ((seg_rune g < 48 \<or> seg_rune g > 57) \<and> (seg_rune g < 97 \<or> seg_rune g > 102))) (runes_of rest))"

definition NewDynamicOAuthClientID :: "string \<Rightarrow> string" where
  "NewDynamicOAuthClientID random = dynamicOAuthClientIDStart @ hex_EncodeToString random"

section \<open>URIs\<close>

definition hasControl :: "string \<Rightarrow> bool" where
  "hasControl value \<longleftrightarrow> list_ex (\<lambda>g. seg_rune g < 32 \<or> seg_rune g = 127) (runes_of value)"

definition oauth_loopback_host :: "string \<Rightarrow> bool" where
  "oauth_loopback_host host \<longleftrightarrow> host = ''localhost'' \<or> host = ''127.0.0.1'' \<or> host = ''::1''"

definition https_or_loopback :: "url_parser \<Rightarrow> string \<Rightarrow> bool" where
  "https_or_loopback parse value \<longleftrightarrow>
     \<not> (value = '''' \<or> length value > maxOAuthURILength \<or> \<not> valid_string value \<or> hasControl value) \<and>
     (case parse value of
        None \<Rightarrow> False
      | Some u \<Rightarrow>
          \<not> (\<not> url_IsAbs u \<or> u_Host u = '''' \<or> u_Fragment u \<noteq> '''' \<or> u_User u \<or> u_Opaque u \<noteq> '''') \<and>
          (if u_Scheme u = ''https'' then True else if u_Scheme u = ''http'' then oauth_loopback_host (url_Hostname u) else False))"

definition ValidOAuthRedirectURI :: "url_parser \<Rightarrow> string \<Rightarrow> bool" where
  "ValidOAuthRedirectURI parse value = https_or_loopback parse value"

definition ValidOAuthResource :: "url_parser \<Rightarrow> string \<Rightarrow> bool" where
  "ValidOAuthResource parse value = https_or_loopback parse value"

definition ValidOAuthClientMetadataURL :: "url_parser \<Rightarrow> string \<Rightarrow> bool" where
  "ValidOAuthClientMetadataURL parse value \<longleftrightarrow>
     \<not> (value = '''' \<or> length value > maxOAuthURILength \<or> \<not> valid_string value \<or> hasControl value) \<and>
     (case parse value of
        None \<Rightarrow> False
      | Some u \<Rightarrow>
          \<not> (u_Scheme u \<noteq> ''https'' \<or> u_Host u = '''' \<or> u_Fragment u \<noteq> '''' \<or> u_User u \<or> u_Opaque u \<noteq> '''') \<and>
          \<not> (u_Path u = '''' \<or> u_Path u = ''/'' \<or> has_suffix (u_Path u) ''/'') \<and>
          ''.'' \<notin> set (split_on (CHR ''/'') (u_Path u)) \<and> ''..'' \<notin> set (split_on (CHR ''/'') (u_Path u)))"

definition isLoopbackRedirectHost :: "string \<Rightarrow> bool \<Rightarrow> bool" where
  "isLoopbackRedirectHost host allowLocalhost =
    (if host = ''127.0.0.1'' \<or> host = ''::1'' then True else if host = ''localhost'' then allowLocalhost else False)"

definition MatchOAuthRedirectURI :: "url_parser \<Rightarrow> string \<Rightarrow> string \<Rightarrow> bool \<Rightarrow> bool" where
  "MatchOAuthRedirectURI parse registered presented allowLocalhost =
    (if registered = presented then True
     else case parse registered of
       None \<Rightarrow> False
     | Some reg \<Rightarrow>
         if url_Port reg \<noteq> '''' \<or> \<not> isLoopbackRedirectHost (url_Hostname reg) allowLocalhost then False
         else case parse presented of
           None \<Rightarrow> False
         | Some pres \<Rightarrow>
             if u_User pres \<or> url_Hostname pres \<noteq> url_Hostname reg \<or> u_Scheme pres \<noteq> u_Scheme reg \<or> url_Port pres = '''' then False
             else let prefix = u_Scheme pres @ ''://'' @ u_Host pres
                  in if \<not> has_prefix presented prefix then False
                     else let hostWithoutPort = trim_suffix (u_Host pres) (CHR '':'' # url_Port pres);
                              presentedWithoutPort = u_Scheme pres @ ''://'' @ hostWithoutPort @ drop (length prefix) presented
                          in presentedWithoutPort = registered)"

section \<open>Validation\<close>

definition isBase64URLRune :: "int \<Rightarrow> bool" where
  "isBase64URLRune r \<longleftrightarrow> 65 \<le> r \<and> r \<le> 90 \<or> 97 \<le> r \<and> r \<le> 122 \<or> 48 \<le> r \<and> r \<le> 57 \<or> r = 45 \<or> r = 95"

definition ValidOAuthCodeChallenge :: "string \<Rightarrow> bool" where
  "ValidOAuthCodeChallenge value \<longleftrightarrow>
     length value = oauthCodeChallengeLength \<and> list_all (\<lambda>g. isBase64URLRune (seg_rune g)) (runes_of value)"

definition ValidateOAuthClient :: "url_parser \<Rightarrow> oauth_client \<Rightarrow> bool" where
  "ValidateOAuthClient parse client \<longleftrightarrow>
     \<not> (\<not> IsDynamicOAuthClientID (oc_ClientID client) \<or> IsZero (oc_CreatedAt client)) \<and>
     \<not> (\<not> valid_string (oc_ClientName client) \<or> length (oc_ClientName client) > maxOAuthClientNameLength \<or> hasControl (oc_ClientName client)) \<and>
     \<not> length (oc_RedirectURIs client) > maxOAuthRedirectURIs \<and>
     list_all (ValidOAuthRedirectURI parse) (oc_RedirectURIs client) \<and> distinct (oc_RedirectURIs client)"

definition valid_client_id :: "url_parser \<Rightarrow> string \<Rightarrow> string \<Rightarrow> bool" where
  "valid_client_id parse kind clientID =
    (if kind = OAuthClientKindDynamic then IsDynamicOAuthClientID clientID
     else if kind = OAuthClientKindMetadataDocument then ValidOAuthClientMetadataURL parse clientID else False)"

definition ValidateOAuthAuthorizationRequest :: "url_parser \<Rightarrow> authorization_request \<Rightarrow> bool" where
  "ValidateOAuthAuthorizationRequest parse r \<longleftrightarrow>
     \<not> (hash_IsZero (ar_HandleHash r) \<or> hash_IsZero (ar_DeviceCodeHash r) \<or> ar_CodeHash r \<noteq> None \<or> ar_CodeExpiresAt r \<noteq> None
        \<or> ar_ConsumedAt r \<noteq> None) \<and>
     \<not> (IsZero (ar_CreatedAt r) \<or> \<not> ar_ExpiresAt r > ar_CreatedAt r) \<and>
     valid_client_id parse (ar_ClientKind r) (ar_ClientID r) \<and>
     ValidOAuthRedirectURI parse (ar_RedirectURI r) \<and> ValidOAuthCodeChallenge (ar_CodeChallenge r) \<and> ValidOAuthResource parse (ar_Resource r) \<and>
     \<not> (length (ar_Scope r) > maxOAuthScopeLength \<or> length (ar_State r) > maxOAuthStateLength \<or> \<not> valid_string (ar_State r)
        \<or> hasControl (ar_State r) \<or> hasControl (ar_Scope r))"

definition ValidateOAuthDeviceGrant :: "url_parser \<Rightarrow> device_grant \<Rightarrow> bool" where
  "ValidateOAuthDeviceGrant parse g \<longleftrightarrow>
     \<not> hash_IsZero (dg_DeviceCodeHash g) \<and>
     \<not> (IsZero (dg_CreatedAt g) \<or> \<not> dg_ExpiresAt g > dg_CreatedAt g) \<and>
     valid_client_id parse (dg_ClientKind g) (dg_ClientID g) \<and> ValidOAuthResource parse (dg_Resource g) \<and>
     \<not> (length (dg_Scope g) > maxOAuthScopeLength \<or> \<not> valid_string (dg_Scope g) \<or> hasControl (dg_Scope g))"

end
