(* ===== verification/Device_Store.thy ===== *)
theory Device_Store
  imports OAuth_Input
begin

text \<open>
  Device authorizations: \<^verbatim>\<open>src/internal/storage/device_authorization.go\<close> and the in-memory store
  \<^verbatim>\<open>src/internal/storage/memory/device_authorization.go\<close> and
  \<^verbatim>\<open>device_authorization_redeem.go\<close>, which works on the shared credential store. An operation takes an \<open>env\<close>
  for each point at which it asks its surroundings: \<open>es 0\<close> for its check of the context and the first
  reading of its clock, \<open>es 1\<close> for the second reading, the later ones for its calls of the credential
  lifecycle in their order. Cloning a record is the identity. The range over the map of records takes its
  order as an argument, since Go leaves it open.
\<close>

section \<open>States, records, errors\<close>

datatype device_state =
    DeviceAuthorizationStatePending
  | DeviceAuthorizationStateApproved
  | DeviceAuthorizationStateDenied
  | DeviceAuthorizationStateExpired
  | DeviceAuthorizationStateRedeemed

definition DeviceAuthorizationTTL :: duration where "DeviceAuthorizationTTL = 10 * Minute"
definition DeviceAuthorizationPollInterval :: duration where "DeviceAuthorizationPollInterval = 5 * Second"
definition DeviceCredentialAckWindow :: duration where "DeviceCredentialAckWindow = 120 * Second"

definition state_string :: "device_state \<Rightarrow> string" where
  "state_string st = (case st of DeviceAuthorizationStatePending \<Rightarrow> ''pending'' | DeviceAuthorizationStateApproved \<Rightarrow> ''approved''
     | DeviceAuthorizationStateDenied \<Rightarrow> ''denied'' | DeviceAuthorizationStateExpired \<Rightarrow> ''expired'' | DeviceAuthorizationStateRedeemed \<Rightarrow> ''redeemed'')"

definition ParseDeviceAuthorizationState :: "string \<Rightarrow> device_state option" where
  "ParseDeviceAuthorizationState v =
    (if v = ''pending'' then Some DeviceAuthorizationStatePending else if v = ''approved'' then Some DeviceAuthorizationStateApproved
     else if v = ''denied'' then Some DeviceAuthorizationStateDenied else if v = ''expired'' then Some DeviceAuthorizationStateExpired
     else if v = ''redeemed'' then Some DeviceAuthorizationStateRedeemed else None)"

definition Terminal :: "device_state \<Rightarrow> bool" where
  "Terminal st = (case st of DeviceAuthorizationStateDenied \<Rightarrow> True | DeviceAuthorizationStateExpired \<Rightarrow> True
     | DeviceAuthorizationStateRedeemed \<Rightarrow> True | DeviceAuthorizationStatePending \<Rightarrow> False | DeviceAuthorizationStateApproved \<Rightarrow> False)"

record device_authorization =
  da_DeviceCodeHash :: secret_hash
  da_UserCodeHash :: secret_hash
  da_OrganizationIDHint :: string
  da_RepositoryHints :: "string list"
  da_State :: device_state
  da_ExpiresAt :: time
  da_PollInterval :: duration
  da_LastPollAt :: "time option"
  da_AuthorizedOrgID :: string
  da_AuthorizedRepositoryScopes :: "string list"
  da_AuthorizedScopes :: "string list"
  da_ApprovingSubject :: string
  da_ApprovingAuthenticationMethod :: string
  da_ApprovingSessionID :: string
  da_CreatedAt :: time
  da_ApprovedAt :: "time option"
  da_RedeemedAt :: "time option"
  da_RedeemedCredentialID :: string
  da_IssuanceProvenance :: string
  da_AckRequired :: bool
  da_CredentialAckedAt :: "time option"

definition CredentialUnacknowledged :: "device_authorization \<Rightarrow> bool" where
  "CredentialUnacknowledged r \<longleftrightarrow> da_State r = DeviceAuthorizationStateRedeemed \<and> da_AckRequired r \<and> da_CredentialAckedAt r = None
     \<and> da_RedeemedCredentialID r \<noteq> ''''"

definition AckWindowOpen :: "device_authorization \<Rightarrow> time \<Rightarrow> bool" where
  "AckWindowOpen r now \<longleftrightarrow> CredentialUnacknowledged r \<and>
     (case da_RedeemedAt r of None \<Rightarrow> False | Some t \<Rightarrow> now < t + DeviceCredentialAckWindow)"

record device_create =
  dc_DeviceCodeHash :: secret_hash
  dc_UserCodeHash :: secret_hash
  dc_OrganizationIDHint :: string
  dc_RepositoryHints :: "string list"

record device_approval =
  dp_OrgID :: string
  dp_RepositoryScopes :: "string list"
  dp_Scopes :: "string list"
  dp_ApprovingSubject :: string
  dp_ApprovingAuthenticationMethod :: string
  dp_ApprovingSessionID :: string

datatype device_kind = DeviceNotFound | DeviceConflict | DeviceExpired | DevicePollTooSoon

datatype conflict_reason = NoReason | DeviceConflictAckWindowElapsed | DeviceConflictAcknowledged | DeviceConflictNotAckable

datatype device_error =
    ErrInvalidDeviceAuthorization
  | ErrDeviceAuthorizationNotFound
  | DvCanceled
  | DvState device_kind device_state duration conflict_reason
  | DvCredential credential_error

definition NewDeviceAuthorizationError :: "device_kind \<Rightarrow> device_state \<Rightarrow> duration \<Rightarrow> device_error" where
  "NewDeviceAuthorizationError kind st retryAfter = DvState kind st (if retryAfter < 0 then 0 else retryAfter) NoReason"

definition NewDeviceAuthorizationConflict :: "device_state \<Rightarrow> conflict_reason \<Rightarrow> device_error" where
  "NewDeviceAuthorizationConflict st reason = DvState DeviceConflict st 0 reason"

definition RedeemedConflictReason :: "device_authorization \<Rightarrow> conflict_reason" where
  "RedeemedConflictReason r = (if \<not> da_AckRequired r then DeviceConflictNotAckable
     else if da_CredentialAckedAt r \<noteq> None then DeviceConflictAcknowledged else DeviceConflictAckWindowElapsed)"

section \<open>Validation\<close>

definition AuthenticationMethodWebAssertion :: string where "AuthenticationMethodWebAssertion = ''web_assertion''"

definition ValidateDeviceAuthorizationGrant :: "device_approval \<Rightarrow> bool" where
  "ValidateDeviceAuthorizationGrant g \<longleftrightarrow>
     \<not> (TrimSpace (dp_OrgID g) = '''' \<or> TrimSpace (dp_ApprovingSubject g) = '''') \<and>
     \<not> (dp_ApprovingAuthenticationMethod g \<noteq> AuthenticationMethodWebAssertion \<or> dp_RepositoryScopes g = [] \<or> dp_Scopes g = []) \<and>
     \<not> (length (dp_ApprovingSessionID g) > 256 \<or> dp_ApprovingSessionID g \<noteq> TrimSpace (dp_ApprovingSessionID g)) \<and>
     \<not> (''*'' \<in> set (dp_RepositoryScopes g) \<and> dp_RepositoryScopes g \<noteq> [''*'']) \<and>
     list_all (\<lambda>repository. \<not> (has_suffix repository ''/*'' \<or> TrimSpace repository = '''')) (dp_RepositoryScopes g) \<and>
     list_all (\<lambda>scope. scope = ''context:read'' \<or> scope = ''evidence:read'' \<or> scope = ''data:read'') (dp_Scopes g)"

definition ValidateDeviceAuthorizationHints :: "device_create \<Rightarrow> bool" where
  "ValidateDeviceAuthorizationHints h \<longleftrightarrow>
     \<not> (TrimSpace (dc_OrganizationIDHint h) \<noteq> dc_OrganizationIDHint h \<or> length (runes_of (dc_OrganizationIDHint h)) > 128
        \<or> length (dc_RepositoryHints h) > 100) \<and>
     list_all (\<lambda>repository. \<not> (TrimSpace repository \<noteq> repository \<or> repository = '''' \<or> length (runes_of repository) > 512
        \<or> CHR ''*'' \<in> set repository)) (dc_RepositoryHints h) \<and> distinct (dc_RepositoryHints h)"

definition scopesWithin :: "string list \<Rightarrow> string list \<Rightarrow> bool" where
  "scopesWithin requested approved \<longleftrightarrow> requested \<noteq> [] \<and> list_all (\<lambda>scope. scope \<in> set approved) requested"

definition DeviceAuthorizationCredentialMatches :: "device_authorization \<Rightarrow> create_input \<Rightarrow> bool" where
  "DeviceAuthorizationCredentialMatches r i \<longleftrightarrow> ci_OrgID i = da_AuthorizedOrgID r \<and> ci_ActorID i = da_ApprovingSubject r
     \<and> ci_RepositoryScopes i = da_AuthorizedRepositoryScopes r \<and> scopesWithin (ci_Scopes i) (da_AuthorizedScopes r)"

section \<open>The store\<close>

record device_store =
  ds_byDevice :: "(secret_hash, device_authorization) gomap"
  ds_byUser :: "(secret_hash, secret_hash) gomap"
  ds_credentials :: credential_store

definition NewDeviceAuthorizationStore :: "credential_store \<Rightarrow> device_store" where
  "NewDeviceAuthorizationStore cs = \<lparr>ds_byDevice = [], ds_byUser = [], ds_credentials = cs\<rparr>"

type_synonym 'a device_result = "(device_error + 'a) \<times> device_store"

definition store_device :: "secret_hash \<Rightarrow> device_authorization \<Rightarrow> device_store \<Rightarrow> device_store" where
  "store_device hash r s = s\<lparr>ds_byDevice := put hash r (ds_byDevice s)\<rparr>"

definition Device_Create :: "(nat \<Rightarrow> env) \<Rightarrow> device_create \<Rightarrow> device_store \<Rightarrow> device_authorization device_result" where
  "Device_Create es i s =
    (if env_err (es 0) 0 then (Inl DvCanceled, s)
     else if hash_IsZero (dc_DeviceCodeHash i) \<or> hash_IsZero (dc_UserCodeHash i) \<or> \<not> ValidateDeviceAuthorizationHints i
     then (Inl ErrInvalidDeviceAuthorization, s)
     else if env_err (es 0) 1 then (Inl DvCanceled, s)
     else if has_key (ds_byDevice s) (dc_DeviceCodeHash i)
     then (Inl (NewDeviceAuthorizationError DeviceConflict DeviceAuthorizationStatePending 0), s)
     else if has_key (ds_byUser s) (dc_UserCodeHash i)
     then (Inl (NewDeviceAuthorizationError DeviceConflict DeviceAuthorizationStatePending 0), s)
     else let now = env_now (es 0);
              r = \<lparr>da_DeviceCodeHash = dc_DeviceCodeHash i, da_UserCodeHash = dc_UserCodeHash i, da_OrganizationIDHint = dc_OrganizationIDHint i,
                   da_RepositoryHints = dc_RepositoryHints i, da_State = DeviceAuthorizationStatePending,
                   da_ExpiresAt = now + DeviceAuthorizationTTL, da_PollInterval = DeviceAuthorizationPollInterval, da_LastPollAt = None,
                   da_AuthorizedOrgID = '''', da_AuthorizedRepositoryScopes = [], da_AuthorizedScopes = [], da_ApprovingSubject = '''',
                   da_ApprovingAuthenticationMethod = '''', da_ApprovingSessionID = '''', da_CreatedAt = now, da_ApprovedAt = None,
                   da_RedeemedAt = None, da_RedeemedCredentialID = '''', da_IssuanceProvenance = IssuanceProvenanceDeviceAuthorization,
                   da_AckRequired = False, da_CredentialAckedAt = None\<rparr>
          in (Inr r, (store_device (dc_DeviceCodeHash i) r s)\<lparr>ds_byUser := put (dc_UserCodeHash i) (dc_DeviceCodeHash i) (ds_byUser s)\<rparr>))"

definition deviceLocked :: "env \<Rightarrow> secret_hash \<Rightarrow> device_store \<Rightarrow> device_authorization device_result" where
  "deviceLocked e hash s =
    (case map_of (ds_byDevice s) hash of
       None \<Rightarrow> (Inl ErrDeviceAuthorizationNotFound, s)
     | Some r \<Rightarrow>
         let late = \<not> env_now e < da_ExpiresAt r
         in if late \<and> (da_State r = DeviceAuthorizationStatePending \<or> da_State r = DeviceAuthorizationStateApproved)
            then (Inl (NewDeviceAuthorizationError DeviceExpired DeviceAuthorizationStateExpired 0),
                  store_device hash (r\<lparr>da_State := DeviceAuthorizationStateExpired\<rparr>) s)
            else if late \<and> (da_State r = DeviceAuthorizationStateDenied \<or> da_State r = DeviceAuthorizationStateRedeemed) then (Inr r, s)
            else if da_State r = DeviceAuthorizationStateExpired
            then (Inl (NewDeviceAuthorizationError DeviceExpired DeviceAuthorizationStateExpired 0), s)
            else (Inr r, s))"

definition GetByDeviceCodeHash :: "env \<Rightarrow> secret_hash \<Rightarrow> device_store \<Rightarrow> device_authorization device_result" where
  "GetByDeviceCodeHash e hash s = (if env_err e 0 then (Inl DvCanceled, s) else deviceLocked e hash s)"

definition by_user :: "env \<Rightarrow> secret_hash \<Rightarrow> device_store \<Rightarrow> (secret_hash \<Rightarrow> 'a device_result) \<Rightarrow> 'a device_result" where
  "by_user e hash s f =
    (case map_of (ds_byUser s) hash of None \<Rightarrow> (Inl ErrDeviceAuthorizationNotFound, s) | Some deviceHash \<Rightarrow> f deviceHash)"

definition GetByUserCodeHash :: "env \<Rightarrow> secret_hash \<Rightarrow> device_store \<Rightarrow> device_authorization device_result" where
  "GetByUserCodeHash e hash s =
    (if env_err e 0 then (Inl DvCanceled, s) else by_user e hash s (\<lambda>deviceHash. deviceLocked e deviceHash s))"

definition Device_Preview :: "env \<Rightarrow> secret_hash \<Rightarrow> device_store \<Rightarrow> device_error + device_authorization" where
  "Device_Preview e hash s =
    (if env_err e 0 then Inl DvCanceled
     else case map_of (ds_byUser s) hash of
       None \<Rightarrow> Inl ErrDeviceAuthorizationNotFound
     | Some deviceHash \<Rightarrow>
         (case map_of (ds_byDevice s) deviceHash of
            None \<Rightarrow> Inl ErrDeviceAuthorizationNotFound
          | Some r \<Rightarrow>
              if \<not> env_now e < da_ExpiresAt r \<and> (da_State r = DeviceAuthorizationStatePending \<or> da_State r = DeviceAuthorizationStateApproved
                   \<or> da_State r = DeviceAuthorizationStateExpired)
              then Inl (NewDeviceAuthorizationError DeviceExpired DeviceAuthorizationStateExpired 0) else Inr r))"

definition Device_Poll :: "(nat \<Rightarrow> env) \<Rightarrow> secret_hash \<Rightarrow> device_store \<Rightarrow> device_authorization device_result" where
  "Device_Poll es hash s =
    (if env_err (es 0) 0 then (Inl DvCanceled, s)
     else case deviceLocked (es 0) hash s of
       (Inl err, s1) \<Rightarrow> (Inl err, s1)
     | (Inr r, s1) \<Rightarrow>
         if Terminal (da_State r) then (Inr r, s1)
         else let now = env_now (es 1)
              in (case da_LastPollAt r of
                   Some at \<Rightarrow>
                     if now < at + da_PollInterval r
                     then (Inl (NewDeviceAuthorizationError DevicePollTooSoon (da_State r) (time_sub (at + da_PollInterval r) now)), s1)
                     else (Inr (r\<lparr>da_LastPollAt := Some now\<rparr>), store_device hash (r\<lparr>da_LastPollAt := Some now\<rparr>) s1)
                 | None \<Rightarrow> (Inr (r\<lparr>da_LastPollAt := Some now\<rparr>), store_device hash (r\<lparr>da_LastPollAt := Some now\<rparr>) s1)))"

definition Device_Approve :: "(nat \<Rightarrow> env) \<Rightarrow> secret_hash \<Rightarrow> device_approval \<Rightarrow> device_store \<Rightarrow> device_authorization device_result" where
  "Device_Approve es hash g s =
    (if env_err (es 0) 0 then (Inl DvCanceled, s)
     else if \<not> ValidateDeviceAuthorizationGrant g then (Inl ErrInvalidDeviceAuthorization, s)
     else by_user (es 0) hash s (\<lambda>deviceHash.
       case deviceLocked (es 0) deviceHash s of
         (Inl err, s1) \<Rightarrow> (Inl err, s1)
       | (Inr r, s1) \<Rightarrow>
           if da_State r \<noteq> DeviceAuthorizationStatePending then (Inl (NewDeviceAuthorizationError DeviceConflict (da_State r) 0), s1)
           else let r1 = r\<lparr>da_State := DeviceAuthorizationStateApproved, da_AuthorizedOrgID := dp_OrgID g,
                      da_AuthorizedRepositoryScopes := dp_RepositoryScopes g, da_AuthorizedScopes := dp_Scopes g,
                      da_ApprovingSubject := dp_ApprovingSubject g, da_ApprovingAuthenticationMethod := dp_ApprovingAuthenticationMethod g,
                      da_ApprovingSessionID := dp_ApprovingSessionID g, da_ApprovedAt := Some (env_now (es 1))\<rparr>
                in (Inr r1, store_device deviceHash r1 s1)))"

definition Device_Deny :: "env \<Rightarrow> secret_hash \<Rightarrow> device_store \<Rightarrow> device_authorization device_result" where
  "Device_Deny e hash s =
    (if env_err e 0 then (Inl DvCanceled, s)
     else by_user e hash s (\<lambda>deviceHash.
       case deviceLocked e deviceHash s of
         (Inl err, s1) \<Rightarrow> (Inl err, s1)
       | (Inr r, s1) \<Rightarrow>
           if da_State r \<noteq> DeviceAuthorizationStatePending then (Inl (NewDeviceAuthorizationError DeviceConflict (da_State r) 0), s1)
           else let r1 = r\<lparr>da_State := DeviceAuthorizationStateDenied\<rparr> in (Inr r1, store_device deviceHash r1 s1)))"

section \<open>Redeeming\<close>

definition deviceAckRevokeActor :: string where "deviceAckRevokeActor = ''device-credential-ack''"

definition ack_revocation :: "string \<Rightarrow> string \<Rightarrow> string \<Rightarrow> revocation_input" where
  "ack_revocation orgID credentialID reason =
    \<lparr>vi_OrgID = orgID, vi_CredentialID = credentialID, vi_ActorID = deviceAckRevokeActor, vi_ActorType = ''system'', vi_Reason = reason,
     vi_SelfCredential = False\<rparr>"

definition revokeUnackedLocked :: "libs \<Rightarrow> env \<Rightarrow> device_authorization \<Rightarrow> credential_store \<Rightarrow> client_credential credential_result" where
  "revokeUnackedLocked lib e r cs =
    RevokeCredential lib e (ack_revocation (da_AuthorizedOrgID r) (da_RedeemedCredentialID r) ''device credential not acknowledged'') cs"

text \<open>Whether the record may be redeemed now, and which credential that replaces (none: the empty id).\<close>

definition redeemable :: "(nat \<Rightarrow> env) \<Rightarrow> bool \<Rightarrow> device_authorization \<Rightarrow> credential_store \<Rightarrow> device_error + string" where
  "redeemable es ackable r cs =
    (if da_State r = DeviceAuthorizationStateApproved then Inr ''''
     else if ackable \<and> da_State r = DeviceAuthorizationStateRedeemed \<and> CredentialUnacknowledged r then
       (if \<not> AckWindowOpen r (env_now (es 1)) then Inl (NewDeviceAuthorizationConflict (da_State r) DeviceConflictAckWindowElapsed)
        else case GetByID (es 2) (da_AuthorizedOrgID r) (da_RedeemedCredentialID r) cs of
          Inl err \<Rightarrow> Inl (DvCredential err)
        | Inr old \<Rightarrow>
            if cc_RevokedAt old \<noteq> None then Inl (NewDeviceAuthorizationConflict (da_State r) DeviceConflictAckWindowElapsed)
            else Inr (da_RedeemedCredentialID r))
     else if da_State r = DeviceAuthorizationStateRedeemed then Inl (NewDeviceAuthorizationConflict (da_State r) (RedeemedConflictReason r))
     else Inl (NewDeviceAuthorizationError DeviceConflict (da_State r) 0))"

text \<open>The input of the credential: approving user and web session come from the record.\<close>

definition redeem_input :: "device_authorization \<Rightarrow> create_input \<Rightarrow> create_input option" where
  "redeem_input r i =
    (if \<not> DeviceAuthorizationCredentialMatches r i then None
     else if ci_ApprovingUserID i \<noteq> '''' \<and> ci_ApprovingUserID i \<noteq> da_ApprovingSubject r then None
     else let i1 = i\<lparr>ci_ApprovingUserID := da_ApprovingSubject r\<rparr>
          in if ci_ClientClass i1 = ClientClassBrowser then
               (if da_ApprovingSessionID r = '''' \<or> (ci_SessionID i1 \<noteq> '''' \<and> ci_SessionID i1 \<noteq> da_ApprovingSessionID r) then None
                else Some (i1\<lparr>ci_SessionID := da_ApprovingSessionID r, ci_IssuanceProvenance := IssuanceProvenanceDeviceAuthorization\<rparr>))
             else Some (i1\<lparr>ci_IssuanceProvenance := IssuanceProvenanceDeviceAuthorization\<rparr>))"

definition redeemed_record :: "device_authorization \<Rightarrow> time \<Rightarrow> string \<Rightarrow> bool \<Rightarrow> device_authorization" where
  "redeemed_record r now cid ackable = r\<lparr>da_State := DeviceAuthorizationStateRedeemed, da_RedeemedAt := Some now,
     da_RedeemedCredentialID := cid, da_AckRequired := ackable, da_CredentialAckedAt := None\<rparr>"

definition redeem ::
  "libs \<Rightarrow> (nat \<Rightarrow> env) \<Rightarrow> secret_hash \<Rightarrow> create_input \<Rightarrow> bool \<Rightarrow> device_store \<Rightarrow> client_credential device_result" where
  "redeem lib es hash i ackable s =
    (if env_err (es 0) 0 then (Inl DvCanceled, s)
     else case deviceLocked (es 0) hash s of
       (Inl err, s1) \<Rightarrow> (Inl err, s1)
     | (Inr r, s1) \<Rightarrow>
         (case redeemable es ackable r (ds_credentials s1) of
            Inl err \<Rightarrow> (Inl err, s1)
          | Inr replacing \<Rightarrow>
              (case redeem_input r i of
                 None \<Rightarrow> (Inl ErrInvalidDeviceAuthorization, s1)
               | Some i1 \<Rightarrow>
                   (case CreateCredential lib (es 3) i1 (ds_credentials s1) of
                      (Inl err, cs1) \<Rightarrow> (Inl (DvCredential err), s1\<lparr>ds_credentials := cs1\<rparr>)
                    | (Inr credential, cs1) \<Rightarrow>
                        if replacing = '''' then
                          (Inr credential, store_device hash (redeemed_record r (env_now (es 1)) (cc_CredentialID credential) ackable)
                             (s1\<lparr>ds_credentials := cs1\<rparr>))
                        else (case revokeUnackedLocked lib (es 4) r cs1 of
                          (Inr _, cs2) \<Rightarrow>
                            (Inr credential, store_device hash (redeemed_record r (env_now (es 1)) (cc_CredentialID credential) ackable)
                               (s1\<lparr>ds_credentials := cs2\<rparr>))
                        | (Inl err, cs2) \<Rightarrow>
                            let cs3 = snd (RevokeCredential lib (es 5) (ack_revocation (da_AuthorizedOrgID r) (cc_CredentialID credential)
                                  ''device credential replacement abandoned'') cs2)
                            in (Inl (if err = ErrConflict then NewDeviceAuthorizationConflict (da_State r) DeviceConflictAckWindowElapsed
                                     else DvCredential err), s1\<lparr>ds_credentials := cs3\<rparr>))))))"

definition Redeem :: "libs \<Rightarrow> (nat \<Rightarrow> env) \<Rightarrow> secret_hash \<Rightarrow> create_input \<Rightarrow> device_store \<Rightarrow> client_credential device_result" where
  "Redeem lib es hash i s = redeem lib es hash i False s"

definition RedeemAckable :: "libs \<Rightarrow> (nat \<Rightarrow> env) \<Rightarrow> secret_hash \<Rightarrow> create_input \<Rightarrow> device_store \<Rightarrow> client_credential device_result" where
  "RedeemAckable lib es hash i s = redeem lib es hash i True s"

section \<open>Acknowledging\<close>

definition awaits :: "string \<Rightarrow> string \<Rightarrow> device_authorization \<Rightarrow> bool" where
  "awaits orgID credentialID r \<longleftrightarrow> \<not> (da_RedeemedCredentialID r \<noteq> credentialID \<or> da_AuthorizedOrgID r \<noteq> orgID \<or> \<not> da_AckRequired r)"

definition AcknowledgeCredential ::
  "(nat \<Rightarrow> env) \<Rightarrow> (secret_hash \<times> device_authorization) list \<Rightarrow> string \<Rightarrow> string \<Rightarrow> device_store \<Rightarrow> time device_result" where
  "AcknowledgeCredential es order orgID credentialID s =
    (if env_err (es 0) 0 then (Inl DvCanceled, s)
     else case find (\<lambda>(_, r). awaits orgID credentialID r) order of
       Some (hash, r) \<Rightarrow>
         (case da_CredentialAckedAt r of
            Some at \<Rightarrow> (Inr at, s)
          | None \<Rightarrow>
              let now = env_now (es 0)
              in if (case da_RedeemedAt r of None \<Rightarrow> True | Some t \<Rightarrow> \<not> now < t + DeviceCredentialAckWindow)
                 then (Inl (NewDeviceAuthorizationConflict DeviceAuthorizationStateRedeemed DeviceConflictAckWindowElapsed), s)
                 else (case GetByID (es 1) orgID credentialID (ds_credentials s) of
                   Inl _ \<Rightarrow> (Inl (NewDeviceAuthorizationConflict DeviceAuthorizationStateRedeemed DeviceConflictAckWindowElapsed), s)
                 | Inr credential \<Rightarrow>
                     if cc_RevokedAt credential \<noteq> None
                     then (Inl (NewDeviceAuthorizationConflict DeviceAuthorizationStateRedeemed DeviceConflictAckWindowElapsed), s)
                     else (Inr now, store_device hash (r\<lparr>da_CredentialAckedAt := Some now\<rparr>) s)))
     | None \<Rightarrow>
         (case GetByID (es 1) orgID credentialID (ds_credentials s) of
            Inr credential \<Rightarrow>
              if cc_RevokedAt credential \<noteq> None
              then (Inl (NewDeviceAuthorizationConflict DeviceAuthorizationStateRedeemed DeviceConflictAckWindowElapsed), s)
              else (Inl ErrDeviceAuthorizationNotFound, s)
          | Inl _ \<Rightarrow> (Inl ErrDeviceAuthorizationNotFound, s)))"

definition overdue :: "time \<Rightarrow> device_authorization \<Rightarrow> bool" where
  "overdue now r \<longleftrightarrow> \<not> (\<not> CredentialUnacknowledged r \<or> (case da_RedeemedAt r of None \<Rightarrow> True | Some t \<Rightarrow> now < t + DeviceCredentialAckWindow))"

fun revoke_overdue ::
  "libs \<Rightarrow> (nat \<Rightarrow> env) \<Rightarrow> time \<Rightarrow> int \<Rightarrow> (secret_hash \<times> device_authorization) list \<Rightarrow> int \<Rightarrow> credential_store
    \<Rightarrow> ((int \<times> credential_error) + int) \<times> credential_store" where
  "revoke_overdue lib es now limit [] revoked cs = (Inr revoked, cs)"
| "revoke_overdue lib es now limit ((_, r) # rest) revoked cs =
    (if revoked \<ge> limit then (Inr revoked, cs)
     else if \<not> overdue now r then revoke_overdue lib es now limit rest revoked cs
     else case GetByID (es 0) (da_AuthorizedOrgID r) (da_RedeemedCredentialID r) cs of
       Inl err \<Rightarrow> (Inl (revoked, err), cs)
     | Inr credential \<Rightarrow>
         if cc_RevokedAt credential \<noteq> None then revoke_overdue lib (\<lambda>k. es (k + 2)) now limit rest revoked cs
         else case revokeUnackedLocked lib (es 1) r cs of
           (Inl err, cs1) \<Rightarrow>
             if err = ErrConflict then revoke_overdue lib (\<lambda>k. es (k + 2)) now limit rest revoked cs1 else (Inl (revoked, err), cs1)
         | (Inr _, cs1) \<Rightarrow> revoke_overdue lib (\<lambda>k. es (k + 2)) now limit rest (revoked + 1) cs1)"

text \<open>The number of credentials revoked comes with the error too.\<close>

definition RevokeUnacknowledged ::
  "libs \<Rightarrow> (nat \<Rightarrow> env) \<Rightarrow> (secret_hash \<times> device_authorization) list \<Rightarrow> int \<Rightarrow> device_store \<Rightarrow> (int \<times> device_error option) \<times> device_store" where
  "RevokeUnacknowledged lib es order limit s =
    (if env_err (es 0) 0 then ((0, Some DvCanceled), s)
     else if limit \<le> 0 then ((0, Some ErrInvalidDeviceAuthorization), s)
     else case revoke_overdue lib (\<lambda>k. es (Suc k)) (env_now (es 0)) limit order 0 (ds_credentials s) of
       (Inl (n, err), cs1) \<Rightarrow> ((n, Some (DvCredential err)), s\<lparr>ds_credentials := cs1\<rparr>)
     | (Inr n, cs1) \<Rightarrow> ((n, None), s\<lparr>ds_credentials := cs1\<rparr>))"

end
