(* ===== verification/Map_Evolution.thy ===== *)
theory Map_Evolution
  imports Go_Prelude
begin

text \<open>
  How a Go map changes over a run when entries are only added, or replaced along a relation on their values. The
  interface \<open>evolution\<close> asks for a preorder on the values and gives one on the maps; the stores interpret it
  with what their entries keep.
\<close>

definition map_evolves :: "('v \<Rightarrow> 'v \<Rightarrow> bool) \<Rightarrow> ('k, 'v) gomap \<Rightarrow> ('k, 'v) gomap \<Rightarrow> bool" where
  "map_evolves R m m' \<longleftrightarrow> (\<forall>k v. map_of m k = Some v \<longrightarrow> (\<exists>v'. map_of m' k = Some v' \<and> R v v'))"

lemma map_evolves_at:
  assumes "map_evolves R m m'" "map_of m k = Some v"
  obtains v' where "map_of m' k = Some v'" "R v v'"
  using assms by (auto simp: map_evolves_def)

locale evolution =
  fixes R :: "'v \<Rightarrow> 'v \<Rightarrow> bool"
  assumes refl: "R v v"
    and trans: "R u v \<Longrightarrow> R v w \<Longrightarrow> R u w"
begin

lemma map_refl: "map_evolves R m m"
  by (simp add: map_evolves_def refl)

lemma map_trans: "map_evolves R a b \<Longrightarrow> map_evolves R b c \<Longrightarrow> map_evolves R a c"
  unfolding map_evolves_def by (blast intro: trans)

lemma map_put: "(\<And>v. map_of m k = Some v \<Longrightarrow> R v v') \<Longrightarrow> map_evolves R m (put k v' m)"
  by (auto simp: map_evolves_def map_simps refl)

lemma map_add: "\<not> has_key m k \<Longrightarrow> map_evolves R m (put k v' m)"
  by (rule map_put) (simp add: has_key_def)

end

interpretation fixed: evolution "(=)"
  by unfold_locales auto

end
