(* ===== verification/OAuth_Store.thy ===== *)
theory OAuth_Store
  imports OAuth_Input Map_Evolution
begin

text \<open>
  The in-memory OAuth store, \<^verbatim>\<open>src/internal/storage/memory/oauth.go\<close>: dynamic clients, authorization
  requests with their one-time codes, and device grants. An \<open>env\<close> gives the answers of the checks of the
  request's context (\<open>env_err e 0\<close> in \<open>ready\<close>, \<open>env_err e 1\<close> under the lock) and the store's clock. Cloning a
  request copies pointers only and is the identity here.
\<close>

record oauth_store =
  os_clients :: "(string, oauth_client) gomap"
  os_byHandle :: "(secret_hash, authorization_request) gomap"
  os_byDeviceCode :: "(secret_hash, secret_hash) gomap"
  os_byCode :: "(secret_hash, secret_hash) gomap"
  os_deviceGrants :: "(secret_hash, device_grant) gomap"

definition NewOAuthStore :: oauth_store where
  "NewOAuthStore = \<lparr>os_clients = [], os_byHandle = [], os_byDeviceCode = [], os_byCode = [], os_deviceGrants = []\<rparr>"

type_synonym 'a oauth_result = "(oauth_error + 'a) \<times> oauth_store"

definition RegisterClient :: "url_parser \<Rightarrow> env \<Rightarrow> oauth_client \<Rightarrow> oauth_store \<Rightarrow> oauth_client oauth_result" where
  "RegisterClient parse e client s =
    (if env_err e 0 then (Inl OaCanceled, s)
     else if \<not> ValidateOAuthClient parse client then (Inl ErrInvalidOAuthClient, s)
     else if env_err e 1 then (Inl OaCanceled, s)
     else if has_key (os_clients s) (oc_ClientID client) then (Inl OaConflict, s)
     else (Inr client, s\<lparr>os_clients := put (oc_ClientID client) client (os_clients s)\<rparr>))"

definition GetClient :: "env \<Rightarrow> string \<Rightarrow> oauth_store \<Rightarrow> oauth_error + oauth_client" where
  "GetClient e clientID s =
    (if env_err e 0 then Inl OaCanceled
     else case map_of (os_clients s) clientID of None \<Rightarrow> Inl OaNotFound | Some client \<Rightarrow> Inr client)"

definition CreateAuthorizationRequest ::
  "url_parser \<Rightarrow> env \<Rightarrow> authorization_request \<Rightarrow> oauth_store \<Rightarrow> authorization_request oauth_result" where
  "CreateAuthorizationRequest parse e r s =
    (if env_err e 0 then (Inl OaCanceled, s)
     else if \<not> ValidateOAuthAuthorizationRequest parse r then (Inl ErrInvalidOAuthAuthorizationRequest, s)
     else if env_err e 1 then (Inl OaCanceled, s)
     else if has_key (os_byHandle s) (ar_HandleHash r) then (Inl OaConflict, s)
     else if has_key (os_byDeviceCode s) (ar_DeviceCodeHash r) then (Inl OaConflict, s)
     else (Inr r, s\<lparr>os_byHandle := put (ar_HandleHash r) r (os_byHandle s),
                    os_byDeviceCode := put (ar_DeviceCodeHash r) (ar_HandleHash r) (os_byDeviceCode s)\<rparr>))"

definition GetAuthorizationRequest :: "env \<Rightarrow> secret_hash \<Rightarrow> oauth_store \<Rightarrow> oauth_error + authorization_request" where
  "GetAuthorizationRequest e handle s =
    (if env_err e 0 then Inl OaCanceled
     else case map_of (os_byHandle s) handle of None \<Rightarrow> Inl OaNotFound | Some r \<Rightarrow> Inr r)"

definition BindAuthorizationRequestUser :: "env \<Rightarrow> secret_hash \<Rightarrow> string \<Rightarrow> string \<Rightarrow> oauth_store \<Rightarrow> unit oauth_result" where
  "BindAuthorizationRequestUser e handle orgID subject s =
    (if env_err e 0 then (Inl OaCanceled, s)
     else if hash_IsZero handle \<or> orgID = '''' \<or> subject = '''' then (Inl ErrInvalidOAuthAuthorizationRequest, s)
     else if env_err e 1 then (Inl OaCanceled, s)
     else case map_of (os_byHandle s) handle of
       None \<Rightarrow> (Inl OaNotFound, s)
     | Some r \<Rightarrow>
         if ar_BoundSubject r \<noteq> '''' \<and> (ar_BoundOrgID r \<noteq> orgID \<or> ar_BoundSubject r \<noteq> subject) then (Inl OaConflict, s)
         else (Inr (), s\<lparr>os_byHandle := put handle (r\<lparr>ar_BoundOrgID := orgID, ar_BoundSubject := subject\<rparr>) (os_byHandle s)\<rparr>))"

definition IssueAuthorizationCode ::
  "env \<Rightarrow> secret_hash \<Rightarrow> secret_hash \<Rightarrow> time \<Rightarrow> oauth_store \<Rightarrow> authorization_request oauth_result" where
  "IssueAuthorizationCode e handle code codeExpiresAt s =
    (if env_err e 0 then (Inl OaCanceled, s)
     else if hash_IsZero handle \<or> hash_IsZero code \<or> IsZero codeExpiresAt then (Inl ErrInvalidOAuthAuthorizationRequest, s)
     else if env_err e 1 then (Inl OaCanceled, s)
     else case map_of (os_byHandle s) handle of
       None \<Rightarrow> (Inl OaNotFound, s)
     | Some r \<Rightarrow>
         if \<not> ar_ExpiresAt r > env_now e \<or> ar_CodeHash r \<noteq> None then (Inl OaConflict, s)
         else if has_key (os_byCode s) code then (Inl OaConflict, s)
         else let stored = r\<lparr>ar_CodeHash := Some code, ar_CodeExpiresAt := Some codeExpiresAt\<rparr>
              in (Inr stored, s\<lparr>os_byHandle := put handle stored (os_byHandle s), os_byCode := put code handle (os_byCode s)\<rparr>))"

definition ConsumeAuthorizationCode :: "env \<Rightarrow> secret_hash \<Rightarrow> oauth_store \<Rightarrow> authorization_request oauth_result" where
  "ConsumeAuthorizationCode e code s =
    (if env_err e 0 \<or> env_err e 1 then (Inl OaCanceled, s)
     else case map_of (os_byCode s) code of
       None \<Rightarrow> (Inl ErrOAuthAuthorizationCodeUnavailable, s)
     | Some handle \<Rightarrow>
         (case map_of (os_byHandle s) handle of
            None \<Rightarrow> (Inl ErrOAuthAuthorizationCodeUnavailable, s)
          | Some r \<Rightarrow>
              if ar_CodeHash r \<noteq> Some code then (Inl ErrOAuthAuthorizationCodeUnavailable, s)
              else if (case ar_CodeExpiresAt r of None \<Rightarrow> True | Some t \<Rightarrow> \<not> t > env_now e) \<or> ar_ConsumedAt r \<noteq> None
              then (Inl ErrOAuthAuthorizationCodeUnavailable, s)
              else let stored = r\<lparr>ar_ConsumedAt := Some (env_now e)\<rparr>
                   in (Inr stored, s\<lparr>os_byHandle := put handle stored (os_byHandle s)\<rparr>)))"

definition CreateDeviceGrant :: "url_parser \<Rightarrow> env \<Rightarrow> device_grant \<Rightarrow> oauth_store \<Rightarrow> device_grant oauth_result" where
  "CreateDeviceGrant parse e g s =
    (if env_err e 0 then (Inl OaCanceled, s)
     else if \<not> ValidateOAuthDeviceGrant parse g then (Inl ErrInvalidOAuthAuthorizationRequest, s)
     else if env_err e 1 then (Inl OaCanceled, s)
     else if has_key (os_deviceGrants s) (dg_DeviceCodeHash g) then (Inl OaConflict, s)
     else (Inr g, s\<lparr>os_deviceGrants := put (dg_DeviceCodeHash g) g (os_deviceGrants s)\<rparr>))"

definition GetDeviceGrant :: "env \<Rightarrow> secret_hash \<Rightarrow> oauth_store \<Rightarrow> oauth_error + device_grant" where
  "GetDeviceGrant e hash s =
    (if env_err e 0 then Inl OaCanceled
     else case map_of (os_deviceGrants s) hash of None \<Rightarrow> Inl OaNotFound | Some g \<Rightarrow> Inr g)"

section \<open>The machine\<close>

datatype oauth_op =
    OaRegister env oauth_client
  | OaRequest env authorization_request
  | OaBind env secret_hash string string
  | OaIssue env secret_hash secret_hash time
  | OaConsume env secret_hash
  | OaGrant env device_grant

fun oauth_step :: "url_parser \<Rightarrow> oauth_op \<Rightarrow> oauth_store \<Rightarrow> oauth_store" where
  "oauth_step parse (OaRegister e c) s = snd (RegisterClient parse e c s)"
| "oauth_step parse (OaRequest e r) s = snd (CreateAuthorizationRequest parse e r s)"
| "oauth_step parse (OaBind e h org subject) s = snd (BindAuthorizationRequestUser e h org subject s)"
| "oauth_step parse (OaIssue e h code t) s = snd (IssueAuthorizationCode e h code t s)"
| "oauth_step parse (OaConsume e code) s = snd (ConsumeAuthorizationCode e code s)"
| "oauth_step parse (OaGrant e g) s = snd (CreateDeviceGrant parse e g s)"

text \<open>
  What a stored request keeps: everything that was verified at \<^verbatim>\<open>/authorize\<close>; the user it is bound to, its
  code and its consumption are set once.
\<close>

definition request_evolves :: "authorization_request \<Rightarrow> authorization_request \<Rightarrow> bool" where
  "request_evolves r r' \<longleftrightarrow>
     r'\<lparr>ar_CodeHash := None, ar_CodeExpiresAt := None, ar_ConsumedAt := None, ar_BoundOrgID := '''', ar_BoundSubject := ''''\<rparr> =
     r\<lparr>ar_CodeHash := None, ar_CodeExpiresAt := None, ar_ConsumedAt := None, ar_BoundOrgID := '''', ar_BoundSubject := ''''\<rparr> \<and>
     (ar_BoundSubject r \<noteq> '''' \<longrightarrow> ar_BoundSubject r' = ar_BoundSubject r \<and> ar_BoundOrgID r' = ar_BoundOrgID r) \<and>
     (ar_CodeHash r \<noteq> None \<longrightarrow> ar_CodeHash r' = ar_CodeHash r \<and> ar_CodeExpiresAt r' = ar_CodeExpiresAt r) \<and>
     (ar_ConsumedAt r \<noteq> None \<longrightarrow> ar_ConsumedAt r' = ar_ConsumedAt r)"

definition oauth_evolves :: "oauth_store \<Rightarrow> oauth_store \<Rightarrow> bool" where
  "oauth_evolves s s' \<longleftrightarrow> map_evolves request_evolves (os_byHandle s) (os_byHandle s') \<and> map_evolves (=) (os_byCode s) (os_byCode s') \<and>
     map_evolves (=) (os_clients s) (os_clients s') \<and> map_evolves (=) (os_deviceGrants s) (os_deviceGrants s')"

text \<open>Codes and the requests that carry them agree, and a consumed request has a code.\<close>

definition codes_ok :: "oauth_store \<Rightarrow> bool" where
  "codes_ok s \<longleftrightarrow>
     (\<forall>code h. map_of (os_byCode s) code = Some h \<longrightarrow> map_option ar_CodeHash (map_of (os_byHandle s) h) = Some (Some code)) \<and>
     (\<forall>h r. map_of (os_byHandle s) h = Some r \<longrightarrow> ar_HandleHash r = h \<and>
        (\<forall>code. ar_CodeHash r = Some code \<longrightarrow> map_of (os_byCode s) code = Some h) \<and>
        (ar_CodeHash r = None \<longrightarrow> ar_ConsumedAt r = None) \<and>
        map_of (os_byDeviceCode s) (ar_DeviceCodeHash r) = Some h)"

interpretation request_evolution: evolution request_evolves
proof
  show "request_evolves r r" for r by (simp add: request_evolves_def)
  show "request_evolves a b \<Longrightarrow> request_evolves b c \<Longrightarrow> request_evolves a c" for a b c unfolding request_evolves_def by auto
qed

lemmas map_evolves_intros = request_evolution.map_refl request_evolution.map_put request_evolution.map_add fixed.map_refl fixed.map_add

lemma oauth_evolves_refl [simp]: "oauth_evolves s s"
  by (simp add: oauth_evolves_def map_evolves_intros)

lemma oauth_evolves_trans: "oauth_evolves a b \<Longrightarrow> oauth_evolves b c \<Longrightarrow> oauth_evolves a c"
  unfolding oauth_evolves_def using request_evolution.map_trans fixed.map_trans by metis

text \<open>The successful operations on a request.\<close>

lemma bind_ok:
  assumes "BindAuthorizationRequestUser e h org subject s = (Inr u, s')"
  obtains r where "map_of (os_byHandle s) h = Some r" "ar_BoundSubject r = '''' \<or> ar_BoundOrgID r = org \<and> ar_BoundSubject r = subject"
    "s' = s\<lparr>os_byHandle := put h (r\<lparr>ar_BoundOrgID := org, ar_BoundSubject := subject\<rparr>) (os_byHandle s)\<rparr>" "subject \<noteq> ''''"
  using assms by (auto simp: BindAuthorizationRequestUser_def split: if_splits option.splits)

lemma issue_ok:
  assumes "IssueAuthorizationCode e h code t s = (Inr r', s')"
  obtains r where "map_of (os_byHandle s) h = Some r" "env_now e < ar_ExpiresAt r" "ar_CodeHash r = None" "\<not> has_key (os_byCode s) code"
    "r' = r\<lparr>ar_CodeHash := Some code, ar_CodeExpiresAt := Some t\<rparr>"
    "s' = s\<lparr>os_byHandle := put h r' (os_byHandle s), os_byCode := put code h (os_byCode s)\<rparr>"
  using assms by (auto simp: IssueAuthorizationCode_def Let_def split: if_splits option.splits)

lemma consume_ok:
  assumes "ConsumeAuthorizationCode e code s = (Inr r', s')"
  obtains h r t where "map_of (os_byCode s) code = Some h" "map_of (os_byHandle s) h = Some r" "ar_CodeHash r = Some code"
    "ar_CodeExpiresAt r = Some t" "env_now e < t" "ar_ConsumedAt r = None" "r' = r\<lparr>ar_ConsumedAt := Some (env_now e)\<rparr>"
    "s' = s\<lparr>os_byHandle := put h r' (os_byHandle s)\<rparr>"
  using assms by (auto simp: ConsumeAuthorizationCode_def Let_def split: if_splits option.splits)

end
