(* ===== verification/Device_Flow.thy ===== *)
theory Device_Flow
  imports Credential_Service Device_Store OAuth_Store
begin

text \<open>
  The device flow: \<^verbatim>\<open>device_flow.go\<close>, \<^verbatim>\<open>device_flow_codes.go\<close>, \<^verbatim>\<open>device_hints.go\<close>, \<^verbatim>\<open>device_poll.go\<close> and
  \<^verbatim>\<open>device_oauth.go\<close> under \<^verbatim>\<open>src/internal/auth\<close>, which compose the device authorizations, the credential service
  and the OAuth device grants. An operation takes \<open>fe\<close>: \<open>fe 0 0\<close> for its own check of the context, \<open>fe c k\<close>
  for the \<open>k\<close>-th environment of its \<open>c\<close>-th call of a store. \<open>sha\<close> is SHA-256 as 32 bytes. The lookup of OAuth
  device grants is the OAuth store, or \<^verbatim>\<open>NoOAuthDeviceGrants\<close> (\<open>None\<close>). The stores here never
  answer with \<^verbatim>\<open>ErrOrgPurged\<close>, which only the PostgreSQL store knows.
\<close>

section \<open>Codes\<close>

definition deviceCodeBytes :: nat where "deviceCodeBytes = 32"
definition userCodeRandomBytes :: nat where "userCodeRandomBytes = 5"
definition maxDeviceCodeAttempts :: nat where "maxDeviceCodeAttempts = 8"
definition DeviceUserCodeAlphabet :: string where "DeviceUserCodeAlphabet = ''23456789ABCDEFGHJKLMNPQRSTUVWXYZ''"
definition DeviceUserCodeLength :: nat where "DeviceUserCodeLength = 8"

text \<open>The two reads of random bytes, \<open>None\<close> when one fails.\<close>

type_synonym random_codes = "(nat list \<times> nat list) option"

definition generateDeviceCodes :: "random_codes \<Rightarrow> (string \<times> string) option" where
  "generateDeviceCodes random = map_option (\<lambda>(deviceBytes, userBytes). (b64_encode deviceBytes, b32_encode DeviceUserCodeAlphabet userBytes)) random"

definition NormalizeDeviceCode :: "string \<Rightarrow> string option" where
  "NormalizeDeviceCode v =
    (let value = TrimSpace v
     in case b64_decode False value of
          None \<Rightarrow> None
        | Some decoded \<Rightarrow> if length decoded \<noteq> deviceCodeBytes \<or> b64_encode decoded \<noteq> value then None else Some value)"

text \<open>
  \<^verbatim>\<open>strings.ToUpper\<close> on a user code. Two runes outside ASCII have an ASCII upper case, U+0131 (to \<open>I\<close>) and
  U+017F (to \<open>S\<close>); every other one stays outside the alphabet, whatever it becomes, and is kept.
\<close>

definition ascii_upper :: "char \<Rightarrow> char" where
  "ascii_upper c = (if is_lower c then char_of (byte_of c - 32) else c)"

definition upper_seg :: "rune_seg \<Rightarrow> string" where
  "upper_seg g =
    (if seg_rune g = 305 then ''I'' else if seg_rune g = 383 then ''S'' else map (\<lambda>b. ascii_upper (char_of b)) (seg_bytes g))"

definition ToUpper :: "string \<Rightarrow> string" where
  "ToUpper s = concat (map upper_seg (runes_of s))"

definition normalizeUserCode :: "string \<Rightarrow> string option" where
  "normalizeUserCode v =
    (let value = ToUpper (TrimSpace v)
     in if length value \<noteq> DeviceUserCodeLength then None
        else if list_all (\<lambda>g. list_ex (\<lambda>c. byte_of c = seg_rune g) DeviceUserCodeAlphabet) (runes_of value) then Some value else None)"

definition HashDeviceCode :: "(string \<Rightarrow> secret_hash) \<Rightarrow> string \<Rightarrow> secret_hash" where "HashDeviceCode sha code = sha code"
definition HashUserCode :: "(string \<Rightarrow> secret_hash) \<Rightarrow> string \<Rightarrow> secret_hash" where "HashUserCode sha code = sha code"

section \<open>Errors\<close>

datatype poll_kind = DevicePollAuthorizationPending | DevicePollSlowDown | DevicePollAccessDenied | DevicePollExpiredToken | DevicePollInvalidGrant

datatype flow_error =
    FlCanceled
  | ErrInvalidDeviceFlow
  | ErrImpersonatedApproval
  | ErrBrowserSessionRequired
  | ErrDeviceCodeGeneration
  | ErrDeviceCodeCollision
  | ErrDeviceGrantLookup oauth_error
  | ErrOAuthDeviceGrantConflict
  | ErrOAuthDeviceGrantLookupUnavailable oauth_error
  | ErrOAuthDeviceNotApproved
  | ErrDeviceCredentialAckRejected
  | ErrDeviceCredentialAckWindowClosed
  | FlFamily
  | DevicePollError poll_kind duration
  | FlStore device_error
  | FlService service_error

definition newDevicePollError :: "poll_kind \<Rightarrow> duration \<Rightarrow> flow_error" where
  "newDevicePollError kind retryAfter = DevicePollError kind (if retryAfter < 0 then 0 else retryAfter)"

text \<open>\<^verbatim>\<open>errors.Is\<close> of a store error with one of the sentinel errors.\<close>

fun is_kind :: "device_kind \<Rightarrow> device_error \<Rightarrow> bool" where
  "is_kind k (DvState kind st retry reason) = (kind = k)"
| "is_kind k ErrDeviceAuthorizationNotFound = (k = DeviceNotFound)"
| "is_kind k _ = False"

definition pollErrorForState :: "device_state \<Rightarrow> flow_error" where
  "pollErrorForState st = newDevicePollError (case st of DeviceAuthorizationStatePending \<Rightarrow> DevicePollAuthorizationPending
     | DeviceAuthorizationStateDenied \<Rightarrow> DevicePollAccessDenied | DeviceAuthorizationStateExpired \<Rightarrow> DevicePollExpiredToken
     | DeviceAuthorizationStateApproved \<Rightarrow> DevicePollInvalidGrant | DeviceAuthorizationStateRedeemed \<Rightarrow> DevicePollInvalidGrant) 0"

fun mapDevicePollStoreError :: "device_error \<Rightarrow> flow_error" where
  "mapDevicePollStoreError (DvState DeviceExpired st retry reason) = newDevicePollError DevicePollExpiredToken 0"
| "mapDevicePollStoreError (DvState DevicePollTooSoon st retry reason) = newDevicePollError DevicePollSlowDown retry"
| "mapDevicePollStoreError (DvState DeviceNotFound st retry reason) = newDevicePollError DevicePollInvalidGrant 0"
| "mapDevicePollStoreError (DvState DeviceConflict st retry reason) = pollErrorForState st"
| "mapDevicePollStoreError ErrDeviceAuthorizationNotFound = newDevicePollError DevicePollInvalidGrant 0"
| "mapDevicePollStoreError err = FlStore err"

definition mapDeviceRedemptionStoreError :: "device_error \<Rightarrow> flow_error" where
  "mapDeviceRedemptionStoreError err =
    (if is_kind DeviceNotFound err \<or> is_kind DeviceConflict err then newDevicePollError DevicePollInvalidGrant 0
     else if is_kind DeviceExpired err then newDevicePollError DevicePollExpiredToken 0
     else FlStore err)"

section \<open>Starting\<close>

type_synonym flow_envs = "nat \<Rightarrow> nat \<Rightarrow> env"
type_synonym 'a flow_result = "(flow_error + 'a) \<times> device_store"

record flow_hints =
  fh_OrganizationIDHint :: string
  fh_RepositoryHints :: "string list option"  \<comment> \<open>\<open>None\<close>: a nil slice\<close>

definition hasRepositoryWildcard :: "string list \<Rightarrow> bool" where
  "hasRepositoryWildcard repositories = list_ex (\<lambda>repository. repository = ''*'' \<or> has_suffix repository ''/*'') repositories"

definition normalizeDeviceAuthorizationHints :: "flow_hints \<Rightarrow> flow_hints option" where
  "normalizeDeviceAuthorizationHints h =
    (if TrimSpace (fh_OrganizationIDHint h) \<noteq> fh_OrganizationIDHint h \<or> length (runes_of (fh_OrganizationIDHint h)) > 128 then None
     else case fh_RepositoryHints h of
       None \<Rightarrow> Some h
     | Some hints \<Rightarrow>
         (case NormalizeRepositoryScopes hints of
            None \<Rightarrow> None
          | Some repositories \<Rightarrow> if hasRepositoryWildcard repositories then None else Some (h\<lparr>fh_RepositoryHints := Some repositories\<rparr>)))"

record device_start =
  sd_DeviceCode :: string
  sd_UserCode :: string
  sd_Record :: device_authorization

text \<open>One round per attempt, until the codes are new.\<close>

fun start_loop :: "(string \<Rightarrow> secret_hash) \<Rightarrow> (nat \<Rightarrow> nat \<Rightarrow> env) \<Rightarrow> flow_hints \<Rightarrow> random_codes list \<Rightarrow> device_store \<Rightarrow> device_start flow_result" where
  "start_loop sha fe h [] s = (Inl ErrDeviceCodeCollision, s)"
| "start_loop sha fe h (random # rest) s =
    (case generateDeviceCodes random of
       None \<Rightarrow> (Inl ErrDeviceCodeGeneration, s)
     | Some (deviceCode, userCode) \<Rightarrow>
         (case Device_Create (fe 0) \<lparr>dc_DeviceCodeHash = HashDeviceCode sha deviceCode, dc_UserCodeHash = HashUserCode sha userCode,
              dc_OrganizationIDHint = fh_OrganizationIDHint h,
              dc_RepositoryHints = (case fh_RepositoryHints h of None \<Rightarrow> [] | Some hints \<Rightarrow> hints)\<rparr> s of
            (Inr r, s1) \<Rightarrow> (Inr \<lparr>sd_DeviceCode = deviceCode, sd_UserCode = userCode, sd_Record = r\<rparr>, s1)
          | (Inl err, s1) \<Rightarrow>
              if \<not> is_kind DeviceConflict err then (Inl (FlStore err), s1) else start_loop sha (\<lambda>c. fe (Suc c)) h rest s1))"

definition start_with :: "(string \<Rightarrow> secret_hash) \<Rightarrow> flow_envs \<Rightarrow> (nat \<Rightarrow> random_codes) \<Rightarrow> flow_hints \<Rightarrow> device_store \<Rightarrow> device_start flow_result" where
  "start_with sha fe random h s = start_loop sha (\<lambda>c. fe (Suc c)) h (map random [0..<maxDeviceCodeAttempts]) s"

definition Flow_Start :: "(string \<Rightarrow> secret_hash) \<Rightarrow> flow_envs \<Rightarrow> (nat \<Rightarrow> random_codes) \<Rightarrow> flow_hints \<Rightarrow> device_store \<Rightarrow> device_start flow_result" where
  "Flow_Start sha fe random hints s =
    (if env_err (fe 0 0) 0 then (Inl FlCanceled, s)
     else case normalizeDeviceAuthorizationHints hints of None \<Rightarrow> (Inl ErrInvalidDeviceFlow, s) | Some h \<Rightarrow> start_with sha fe random h s)"

text \<open>\<^verbatim>\<open>StartForOAuth\<close> and \<^verbatim>\<open>StartDeviceGrant\<close> start without hints; they differ in what they return of the result.\<close>

definition StartForOAuth :: "(string \<Rightarrow> secret_hash) \<Rightarrow> flow_envs \<Rightarrow> (nat \<Rightarrow> random_codes) \<Rightarrow> device_store \<Rightarrow> device_start flow_result" where
  "StartForOAuth sha fe random s =
    (if env_err (fe 0 0) 0 then (Inl FlCanceled, s)
     else start_with sha fe random \<lparr>fh_OrganizationIDHint = '''', fh_RepositoryHints = None\<rparr> s)"

definition StartDeviceGrant :: "(string \<Rightarrow> secret_hash) \<Rightarrow> flow_envs \<Rightarrow> (nat \<Rightarrow> random_codes) \<Rightarrow> device_store \<Rightarrow> device_start flow_result" where
  "StartDeviceGrant sha fe random s =
    (if env_err (fe 0 0) 0 then (Inl FlCanceled, s)
     else start_with sha fe random \<lparr>fh_OrganizationIDHint = '''', fh_RepositoryHints = None\<rparr> s)"

section \<open>Deciding\<close>

definition WebAssertionPermissionCredentialIssue :: string where "WebAssertionPermissionCredentialIssue = ''credential:issue''"
definition oauthDefaultApprovalScopes :: "string list" where "oauthDefaultApprovalScopes = [''context:read'', ''evidence:read'']"
definition deviceApprovalScopes :: "string list" where "deviceApprovalScopes = [''context:read'', ''evidence:read'', ''data:read'']"

definition validDeviceApprovalPrincipal :: "principal \<Rightarrow> bool" where
  "validDeviceApprovalPrincipal p \<longleftrightarrow> p_AuthenticationMethod p = ''web_assertion'' \<and> TrimSpace (p_Subject p) \<noteq> '''' \<and> TrimSpace (p_OrgID p) \<noteq> '''' \<and>
     p_CredentialID p = '''' \<and> p_Permissions p = [WebAssertionPermissionCredentialIssue]"

definition validApprovalScopes :: "string list \<Rightarrow> bool" where
  "validApprovalScopes scopes \<longleftrightarrow> scopes = oauthDefaultApprovalScopes \<or> scopes = oauthDefaultApprovalScopes @ [''data:read'']"

definition normalizedPrincipalRepositories :: "principal \<Rightarrow> string list option" where
  "normalizedPrincipalRepositories p =
    (case NormalizeRepositoryScopes (p_RepositoryScopes p) of
       None \<Rightarrow> None | Some repositories \<Rightarrow> if repositories \<noteq> p_RepositoryScopes p then None else Some repositories)"

definition repositoriesWithinGrant :: "string list \<Rightarrow> string list \<Rightarrow> bool" where
  "repositoriesWithinGrant grant selected = list_all (\<lambda>repository. RepositoryAllowed grant repository) selected"

definition intersectRepositoryHints :: "string list \<Rightarrow> string list \<Rightarrow> string list" where
  "intersectRepositoryHints hints repositories = filter (\<lambda>hint. RepositoryAllowed repositories hint) hints"

fun fields_loop :: "rune_seg list \<Rightarrow> string \<Rightarrow> string list" where
  "fields_loop [] word = (if word = '''' then [] else [word])"
| "fields_loop (g # rest) word =
    (if is_space_rune (seg_rune g) then (if word = '''' then [] else [word]) @ fields_loop rest ''''
     else fields_loop rest (word @ map char_of (seg_bytes g)))"

definition Fields :: "string \<Rightarrow> string list" where
  "Fields s = fields_loop (runes_of s) ''''"

definition lookup_grant :: "env \<Rightarrow> secret_hash \<Rightarrow> oauth_store option \<Rightarrow> oauth_error + device_grant" where
  "lookup_grant e hash grants = (case grants of None \<Rightarrow> Inl OaNotFound | Some os \<Rightarrow> GetDeviceGrant e hash os)"

definition requestedScopes :: "env \<Rightarrow> oauth_store option \<Rightarrow> secret_hash \<Rightarrow> flow_error + (string list \<times> string)" where
  "requestedScopes e grants hash =
    (case lookup_grant e hash grants of
       Inl err \<Rightarrow> if err = OaNotFound then Inr (oauthDefaultApprovalScopes, ''legacy_default'') else Inl (ErrDeviceGrantLookup err)
     | Inr grant \<Rightarrow>
         let scopes = Fields (dg_Scope grant)
         in if scopes = [] then Inr (oauthDefaultApprovalScopes, ''grant_default'') else Inr (scopes, ''grant''))"

record approval_preview =
  ap_OrganizationIDHint :: string
  ap_RepositoryHints :: "string list"
  ap_RequestedScopes :: "string list"
  ap_RequestedScopesSource :: string

definition Flow_Preview ::
  "(string \<Rightarrow> secret_hash) \<Rightarrow> flow_envs \<Rightarrow> oauth_store option \<Rightarrow> principal \<Rightarrow> string \<Rightarrow> device_store \<Rightarrow> flow_error + approval_preview" where
  "Flow_Preview sha fe grants p code s =
    (if env_err (fe 0 0) 0 then Inl FlCanceled
     else case normalizeUserCode code of
       None \<Rightarrow> Inl ErrInvalidDeviceFlow
     | Some userCode \<Rightarrow>
         if \<not> validDeviceApprovalPrincipal p then Inl ErrInvalidDeviceFlow
         else case Device_Preview (fe 1 0) (HashUserCode sha userCode) s of
           Inl err \<Rightarrow> Inl (FlStore err)
         | Inr r \<Rightarrow>
             if da_State r \<noteq> DeviceAuthorizationStatePending then Inl (FlStore ErrDeviceAuthorizationNotFound)
             else case normalizedPrincipalRepositories p of
               None \<Rightarrow> Inl ErrInvalidDeviceFlow
             | Some repositories \<Rightarrow>
                 if da_OrganizationIDHint r \<noteq> '''' \<and> da_OrganizationIDHint r \<noteq> p_OrgID p then Inl ErrInvalidDeviceFlow
                 else let hints = intersectRepositoryHints (da_RepositoryHints r) repositories
                 in if da_RepositoryHints r \<noteq> [] \<and> hints = [] then Inl ErrInvalidDeviceFlow
                    else case requestedScopes (fe 2 0) grants (da_DeviceCodeHash r) of
                      Inl err \<Rightarrow> Inl err
                    | Inr (scopes, source) \<Rightarrow> Inr \<lparr>ap_OrganizationIDHint = da_OrganizationIDHint r, ap_RepositoryHints = hints,
                        ap_RequestedScopes = scopes, ap_RequestedScopesSource = source\<rparr>)"

definition approval_grant :: "principal \<Rightarrow> string list \<Rightarrow> string list \<Rightarrow> device_approval" where
  "approval_grant p repositories scopes = \<lparr>dp_OrgID = p_OrgID p, dp_RepositoryScopes = repositories, dp_Scopes = scopes,
     dp_ApprovingSubject = p_Subject p, dp_ApprovingAuthenticationMethod = ''web_assertion'', dp_ApprovingSessionID = p_SessionID p\<rparr>"

text \<open>Which repositories a principal may approve.\<close>

definition may_approve :: "string list \<Rightarrow> string list \<Rightarrow> bool" where
  "may_approve principalRepositories repositories =
    (if repositories = [''*''] then principalRepositories = [''*'']
     else \<not> (hasRepositoryWildcard repositories \<or> \<not> repositoriesWithinGrant principalRepositories repositories))"

definition approveUserCodeHash ::
  "flow_envs \<Rightarrow> principal \<Rightarrow> secret_hash \<Rightarrow> string list \<Rightarrow> string list \<Rightarrow> device_store \<Rightarrow> device_authorization flow_result" where
  "approveUserCodeHash fe p hash repositoryScopes scopes s =
    (if \<not> validDeviceApprovalPrincipal p \<or> \<not> validApprovalScopes scopes then (Inl ErrInvalidDeviceFlow, s)
     else if p_Impersonating p then (Inl ErrImpersonatedApproval, s)
     else case NormalizeRepositoryScopes repositoryScopes of
       None \<Rightarrow> (Inl ErrInvalidDeviceFlow, s)
     | Some repositories \<Rightarrow>
         (case normalizedPrincipalRepositories p of
            None \<Rightarrow> (Inl ErrInvalidDeviceFlow, s)
          | Some principalRepositories \<Rightarrow>
              (case Device_Preview (fe 1 0) hash s of
                 Inl err \<Rightarrow> (Inl (FlStore err), s)
               | Inr r \<Rightarrow>
                   if da_OrganizationIDHint r \<noteq> '''' \<and> da_OrganizationIDHint r \<noteq> p_OrgID p then (Inl ErrInvalidDeviceFlow, s)
                   else if \<not> may_approve principalRepositories repositories then (Inl ErrInvalidDeviceFlow, s)
                   else (case Device_Approve (fe 2) hash (approval_grant p repositories scopes) s of
                     (Inl err, s1) \<Rightarrow> (Inl (FlStore err), s1)
                   | (Inr r1, s1) \<Rightarrow> (Inr r1, s1)))))"

definition Flow_Approve ::
  "(string \<Rightarrow> secret_hash) \<Rightarrow> flow_envs \<Rightarrow> principal \<Rightarrow> string \<Rightarrow> string list \<Rightarrow> device_store \<Rightarrow> device_authorization flow_result" where
  "Flow_Approve sha fe p code repositoryScopes s =
    (if env_err (fe 0 0) 0 then (Inl FlCanceled, s)
     else case normalizeUserCode code of
       None \<Rightarrow> (Inl ErrInvalidDeviceFlow, s)
     | Some userCode \<Rightarrow> approveUserCodeHash fe p (HashUserCode sha userCode) repositoryScopes deviceApprovalScopes s)"

definition Flow_Deny :: "(string \<Rightarrow> secret_hash) \<Rightarrow> flow_envs \<Rightarrow> principal \<Rightarrow> string \<Rightarrow> device_store \<Rightarrow> device_authorization flow_result" where
  "Flow_Deny sha fe p code s =
    (if env_err (fe 0 0) 0 then (Inl FlCanceled, s)
     else case normalizeUserCode code of
       None \<Rightarrow> (Inl ErrInvalidDeviceFlow, s)
     | Some userCode \<Rightarrow>
         if \<not> validDeviceApprovalPrincipal p then (Inl ErrInvalidDeviceFlow, s)
         else case Device_Deny (fe 1 0) (HashUserCode sha userCode) s of
           (Inl err, s1) \<Rightarrow> (Inl (FlStore err), s1) | (Inr r, s1) \<Rightarrow> (Inr r, s1))"

section \<open>Polling and redeeming\<close>

definition BrowserFamilyLifetime :: duration where "BrowserFamilyLifetime = 12 * Hour"

text \<open>What an issuance reads besides the stores: its clock, the clock of the credential service, generated values.\<close>

record issuance =
  ic_now :: time
  ic_service_now :: time
  ic_generated :: generated
  ic_family :: "nat list option"

definition familyID :: "nat list option \<Rightarrow> string option" where
  "familyID random = map_option (\<lambda>buf. ''fam_'' @ b64_encode buf) random"

definition redeem_request :: "device_authorization \<Rightarrow> time \<Rightarrow> string \<Rightarrow> string \<Rightarrow> string list option \<Rightarrow> create_request" where
  "redeem_request r now clientID resource scopes =
    \<lparr>cq_OrgID = da_AuthorizedOrgID r, cq_Name = ''device login'', cq_RepositoryScopes = da_AuthorizedRepositoryScopes r,
     cq_Scopes = (case scopes of None \<Rightarrow> [''context:read'', ''evidence:read''] | Some sc \<Rightarrow> sc), cq_CreatedBy = da_ApprovingSubject r,
     cq_ExpiresAt = Some (now + DeviceCredentialLifetime), cq_IssuanceProvenance = '''', cq_WorkloadBindingID = '''', cq_Resource = resource,
     cq_ClientID = clientID, cq_ClientClass = '''', cq_FamilyID = '''', cq_FamilyExpiresAt = None\<rparr>"

definition browser_request :: "create_request \<Rightarrow> time \<Rightarrow> string \<Rightarrow> create_request" where
  "browser_request q now fam = q\<lparr>cq_ExpiresAt := Some (now + BrowserCredentialLifetime), cq_Name := ''browser login'',
     cq_ClientClass := ClientClassBrowser, cq_FamilyID := fam, cq_FamilyExpiresAt := Some (now + BrowserFamilyLifetime)\<rparr>"

definition redeem_prepared ::
  "libs \<Rightarrow> (nat \<Rightarrow> env) \<Rightarrow> issuance \<Rightarrow> create_request \<Rightarrow> device_authorization \<Rightarrow> bool \<Rightarrow> device_store \<Rightarrow> issued_credential flow_result" where
  "redeem_prepared lib es ic q r ackable s =
    (case PrepareCreate lib (ic_service_now ic) (ic_generated ic) q of
       Inl err \<Rightarrow> (Inl (FlService err), s)
     | Inr prepared \<Rightarrow>
         (case (if ackable then RedeemAckable lib es (da_DeviceCodeHash r) (snd prepared) s else Redeem lib es (da_DeviceCodeHash r) (snd prepared) s) of
            (Inl err, s1) \<Rightarrow> (Inl (mapDeviceRedemptionStoreError err), s1)
          | (Inr credential, s1) \<Rightarrow>
              (case Complete prepared credential of Inl err \<Rightarrow> (Inl (FlService err), s1) | Inr issued \<Rightarrow> (Inr issued, s1))))"

definition redeemAs ::
  "libs \<Rightarrow> (nat \<Rightarrow> env) \<Rightarrow> issuance \<Rightarrow> device_authorization \<Rightarrow> string \<Rightarrow> string \<Rightarrow> string list option \<Rightarrow> bool \<Rightarrow> bool \<Rightarrow> device_store
    \<Rightarrow> issued_credential flow_result" where
  "redeemAs lib es ic r clientID resource scopes ackable browser s =
    (let q = redeem_request r (ic_now ic) clientID resource scopes
     in if browser then
          (if da_ApprovingSessionID r = '''' then (Inl ErrBrowserSessionRequired, s)
           else case familyID (ic_family ic) of
             None \<Rightarrow> (Inl FlFamily, s)
           | Some fam \<Rightarrow> redeem_prepared lib es ic (browser_request q (ic_now ic) fam) r ackable s)
        else redeem_prepared lib es ic q r ackable s)"

definition flow_redeem ::
  "libs \<Rightarrow> (nat \<Rightarrow> env) \<Rightarrow> issuance \<Rightarrow> device_authorization \<Rightarrow> string \<Rightarrow> string \<Rightarrow> string list option \<Rightarrow> bool \<Rightarrow> device_store
    \<Rightarrow> issued_credential flow_result" where
  "flow_redeem lib es ic r clientID resource scopes ackable s = redeemAs lib es ic r clientID resource scopes ackable False s"

definition Flow_Poll ::
  "libs \<Rightarrow> (string \<Rightarrow> secret_hash) \<Rightarrow> flow_envs \<Rightarrow> issuance \<Rightarrow> oauth_store option \<Rightarrow> string \<Rightarrow> device_store \<Rightarrow> issued_credential flow_result" where
  "Flow_Poll lib sha fe ic grants code s =
    (if env_err (fe 0 0) 0 then (Inl FlCanceled, s)
     else case NormalizeDeviceCode code of
       None \<Rightarrow> (Inl (newDevicePollError DevicePollInvalidGrant 0), s)
     | Some deviceCode \<Rightarrow>
         let hash = HashDeviceCode sha deviceCode
         in (case Device_Poll (fe 1) hash s of
               (Inl err, s1) \<Rightarrow> (Inl (mapDevicePollStoreError err), s1)
             | (Inr r, s1) \<Rightarrow>
                 (case lookup_grant (fe 2 0) hash grants of
                    Inr _ \<Rightarrow> (Inl ErrOAuthDeviceGrantConflict, s1)
                  | Inl gerr \<Rightarrow>
                      if gerr \<noteq> OaNotFound then (Inl (ErrOAuthDeviceGrantLookupUnavailable gerr), s1)
                      else (case da_State r of
                        DeviceAuthorizationStatePending \<Rightarrow> (Inl (newDevicePollError DevicePollAuthorizationPending 0), s1)
                      | DeviceAuthorizationStateApproved \<Rightarrow> flow_redeem lib (fe 3) ic r '''' '''' None True s1
                      | DeviceAuthorizationStateDenied \<Rightarrow> (Inl (newDevicePollError DevicePollAccessDenied 0), s1)
                      | DeviceAuthorizationStateExpired \<Rightarrow> (Inl (newDevicePollError DevicePollExpiredToken 0), s1)
                      | DeviceAuthorizationStateRedeemed \<Rightarrow>
                          if \<not> CredentialUnacknowledged r then (Inl (newDevicePollError DevicePollInvalidGrant 0), s1)
                          else flow_redeem lib (fe 3) ic r '''' '''' None True s1))))"

definition Flow_AcknowledgeCredential ::
  "flow_envs \<Rightarrow> (secret_hash \<times> device_authorization) list \<Rightarrow> principal \<Rightarrow> string \<Rightarrow> device_store \<Rightarrow> time flow_result" where
  "Flow_AcknowledgeCredential fe order p credentialID s =
    (if env_err (fe 0 0) 0 then (Inl FlCanceled, s)
     else if p_AuthenticationMethod p \<noteq> ''credential'' \<or> p_CredentialID p = '''' \<or> (credentialID \<noteq> '''' \<and> p_CredentialID p \<noteq> credentialID)
     then (Inl ErrDeviceCredentialAckRejected, s)
     else case AcknowledgeCredential (fe 1) order (p_OrgID p) (p_CredentialID p) s of
       (Inl err, s1) \<Rightarrow>
         (Inl (if is_kind DeviceNotFound err then ErrDeviceCredentialAckRejected
               else if is_kind DeviceConflict err then ErrDeviceCredentialAckWindowClosed else FlStore err), s1)
     | (Inr ackedAt, s1) \<Rightarrow> (Inr ackedAt, s1))"

section \<open>The OAuth consent\<close>

datatype oauth_device_state = OAuthDeviceStatePending | OAuthDeviceStateApproved | OAuthDeviceStateDenied | OAuthDeviceStateExpired | OAuthDeviceStateRedeemed

definition StateForOAuth :: "flow_envs \<Rightarrow> time \<Rightarrow> secret_hash \<Rightarrow> device_store \<Rightarrow> oauth_device_state flow_result" where
  "StateForOAuth fe now hash s =
    (if env_err (fe 0 0) 0 then (Inl FlCanceled, s)
     else case GetByDeviceCodeHash (fe 1 0) hash s of
       (Inl err, s1) \<Rightarrow>
         if is_kind DeviceNotFound err \<or> is_kind DeviceExpired err then (Inr OAuthDeviceStateExpired, s1) else (Inl (FlStore err), s1)
     | (Inr r, s1) \<Rightarrow>
         if \<not> Terminal (da_State r) \<and> \<not> da_ExpiresAt r > now then (Inr OAuthDeviceStateExpired, s1)
         else (Inr (case da_State r of DeviceAuthorizationStatePending \<Rightarrow> OAuthDeviceStatePending
                | DeviceAuthorizationStateApproved \<Rightarrow> OAuthDeviceStateApproved | DeviceAuthorizationStateDenied \<Rightarrow> OAuthDeviceStateDenied
                | DeviceAuthorizationStateRedeemed \<Rightarrow> OAuthDeviceStateRedeemed | DeviceAuthorizationStateExpired \<Rightarrow> OAuthDeviceStateExpired), s1))"

definition sameOAuthApproval :: "device_authorization \<Rightarrow> principal \<Rightarrow> string list \<Rightarrow> bool" where
  "sameOAuthApproval r p repositoryScopes \<longleftrightarrow> validDeviceApprovalPrincipal p \<and>
     (case NormalizeRepositoryScopes repositoryScopes of
        None \<Rightarrow> False
      | Some repositories \<Rightarrow> da_ApprovingAuthenticationMethod r = ''web_assertion'' \<and> da_ApprovingSubject r = p_Subject p
          \<and> da_AuthorizedOrgID r = p_OrgID p \<and> da_AuthorizedRepositoryScopes r = repositories)"

definition ApproveForOAuth ::
  "flow_envs \<Rightarrow> principal \<Rightarrow> secret_hash \<Rightarrow> string list \<Rightarrow> string list \<Rightarrow> device_store \<Rightarrow> unit flow_result" where
  "ApproveForOAuth fe p hash repositoryScopes scopes s =
    (if env_err (fe 0 0) 0 then (Inl FlCanceled, s)
     else case GetByDeviceCodeHash (fe 3 0) hash s of
       (Inl err, s1) \<Rightarrow> (Inl (FlStore err), s1)
     | (Inr r, s1) \<Rightarrow>
         if da_State r = DeviceAuthorizationStateApproved then
           (if sameOAuthApproval r p repositoryScopes \<and> da_AuthorizedScopes r = scopes then (Inr (), s1)
            else (Inl (FlStore (NewDeviceAuthorizationError DeviceConflict (da_State r) 0)), s1))
         else (case approveUserCodeHash fe p (da_UserCodeHash r) repositoryScopes scopes s1 of
           (Inl err, s2) \<Rightarrow> (Inl err, s2) | (Inr _, s2) \<Rightarrow> (Inr (), s2)))"

definition DenyForOAuth :: "flow_envs \<Rightarrow> principal \<Rightarrow> secret_hash \<Rightarrow> device_store \<Rightarrow> unit flow_result" where
  "DenyForOAuth fe p hash s =
    (if env_err (fe 0 0) 0 then (Inl FlCanceled, s)
     else if \<not> validDeviceApprovalPrincipal p then (Inl ErrInvalidDeviceFlow, s)
     else case GetByDeviceCodeHash (fe 1 0) hash s of
       (Inl err, s1) \<Rightarrow> (Inl (FlStore err), s1)
     | (Inr r, s1) \<Rightarrow>
         (case Device_Deny (fe 2 0) (da_UserCodeHash r) s1 of (Inl err, s2) \<Rightarrow> (Inl (FlStore err), s2) | (Inr _, s2) \<Rightarrow> (Inr (), s2)))"

fun is_poll_error :: "flow_error \<Rightarrow> bool" where
  "is_poll_error (DevicePollError kind retry) = True"
| "is_poll_error _ = False"

definition redeemForResource ::
  "libs \<Rightarrow> flow_envs \<Rightarrow> time \<Rightarrow> issuance \<Rightarrow> secret_hash \<Rightarrow> string \<Rightarrow> string \<Rightarrow> string list \<Rightarrow> bool \<Rightarrow> device_store \<Rightarrow> issued_credential flow_result" where
  "redeemForResource lib fe now ic hash clientID resource scopes browser s =
    (if env_err (fe 0 0) 0 then (Inl FlCanceled, s)
     else if clientID = '''' \<or> resource = '''' \<or> \<not> ValidOAuthResource (url_Parse lib) resource \<or> scopes = [] then (Inl ErrInvalidDeviceFlow, s)
     else case GetByDeviceCodeHash (fe 1 0) hash s of
       (Inl err, s1) \<Rightarrow>
         if is_kind DeviceNotFound err \<or> is_kind DeviceExpired err then (Inl ErrOAuthDeviceNotApproved, s1) else (Inl (FlStore err), s1)
     | (Inr r, s1) \<Rightarrow>
         if da_State r \<noteq> DeviceAuthorizationStateApproved \<or> \<not> da_ExpiresAt r > now then (Inl ErrOAuthDeviceNotApproved, s1)
         else (case redeemAs lib (fe 2) ic r clientID resource (Some scopes) False browser s1 of
           (Inl err, s2) \<Rightarrow> (Inl (if is_poll_error err then ErrOAuthDeviceNotApproved else err), s2)
         | (Inr issued, s2) \<Rightarrow> (Inr issued, s2)))"

definition RedeemForResource ::
  "libs \<Rightarrow> flow_envs \<Rightarrow> time \<Rightarrow> issuance \<Rightarrow> secret_hash \<Rightarrow> string \<Rightarrow> string \<Rightarrow> string list \<Rightarrow> device_store \<Rightarrow> issued_credential flow_result" where
  "RedeemForResource lib fe now ic hash clientID resource scopes s = redeemForResource lib fe now ic hash clientID resource scopes False s"

definition RedeemBrowserForResource ::
  "libs \<Rightarrow> flow_envs \<Rightarrow> time \<Rightarrow> issuance \<Rightarrow> secret_hash \<Rightarrow> string \<Rightarrow> string \<Rightarrow> string list \<Rightarrow> device_store \<Rightarrow> issued_credential flow_result" where
  "RedeemBrowserForResource lib fe now ic hash clientID resource scopes s = redeemForResource lib fe now ic hash clientID resource scopes True s"

definition PollDeviceGrant ::
  "libs \<Rightarrow> flow_envs \<Rightarrow> issuance \<Rightarrow> secret_hash \<Rightarrow> string \<Rightarrow> string \<Rightarrow> string list \<Rightarrow> device_store \<Rightarrow> issued_credential flow_result" where
  "PollDeviceGrant lib fe ic hash clientID resource scopes s =
    (if env_err (fe 0 0) 0 then (Inl FlCanceled, s)
     else if clientID = '''' \<or> resource = '''' \<or> \<not> ValidOAuthResource (url_Parse lib) resource \<or> scopes = [] then (Inl ErrInvalidDeviceFlow, s)
     else case Device_Poll (fe 1) hash s of
       (Inl err, s1) \<Rightarrow> (Inl (mapDevicePollStoreError err), s1)
     | (Inr r, s1) \<Rightarrow>
         (case da_State r of
            DeviceAuthorizationStatePending \<Rightarrow> (Inl (newDevicePollError DevicePollAuthorizationPending 0), s1)
          | DeviceAuthorizationStateApproved \<Rightarrow> flow_redeem lib (fe 2) ic r clientID resource (Some scopes) False s1
          | DeviceAuthorizationStateDenied \<Rightarrow> (Inl (newDevicePollError DevicePollAccessDenied 0), s1)
          | DeviceAuthorizationStateExpired \<Rightarrow> (Inl (newDevicePollError DevicePollExpiredToken 0), s1)
          | DeviceAuthorizationStateRedeemed \<Rightarrow> (Inl (newDevicePollError DevicePollInvalidGrant 0), s1)))"

end
