(* ===== verification/Browser_Refresh.thy ===== *)
theory Browser_Refresh
  imports Credential_Store
begin

text \<open>
  Browser token families: \<^verbatim>\<open>src/internal/storage/browser_refresh.go\<close> and the in-memory store
  \<^verbatim>\<open>src/internal/storage/memory/browser_refresh.go\<close>, which works on the shared credential store. An operation takes
  an \<open>env\<close> for each call it makes: \<open>es 0\<close> for its own check of the context, the later ones for its calls of the
  credential lifecycle in their order. The operations hold the store's lock throughout; the model takes
  each as one step, with no other call on the credential store in between. A missing family, which the
  source would dereference as a nil pointer, is the error \<open>BrNilFamily\<close>.
\<close>

section \<open>Types and validation\<close>

datatype browser_decision =
    BrowserRefreshRotated
  | BrowserRefreshGraceReplay
  | BrowserRefreshReuseRevoked
  | BrowserRefreshFamilyExpired
  | BrowserRefreshFamilyRevoked
  | BrowserRefreshUnknownToken
  | BrowserRefreshClientMismatch
  | BrowserFamilyRevokedNow

datatype browser_error =
    ErrInvalidBrowserRefresh
  | BrConflict
  | BrCanceled
  | BrCredential credential_error
  | BrNilFamily

record family_start =
  fs_OrgID :: string
  fs_FamilyID :: string
  fs_ClientID :: string
  fs_CredentialID :: string
  fs_RefreshTokenHash :: string
  fs_CreatedAt :: time
  fs_ExpiresAt :: time

record refresh_rotation =
  rf_PresentedHash :: string
  rf_ClientID :: string
  rf_Now :: time
  rf_Grace :: duration
  rf_AccessLifetime :: duration
  rf_Seed :: string
  rf_SuccessorCredential :: string
  rf_SuccessorTokenHash :: string
  rf_SuccessorPrefix :: string
  rf_SuccessorRefresh :: string
  rf_ActorID :: string

record refresh_outcome =
  ro_Decision :: browser_decision
  ro_OrgID :: string
  ro_FamilyID :: string
  ro_Credential :: "client_credential option"
  ro_Seed :: string
  ro_SuccessorTokenHash :: string
  ro_SuccessorRefreshHash :: string
  ro_RevokedCredentials :: int

record revocation_outcome =
  vo_Decision :: browser_decision
  vo_OrgID :: string
  vo_FamilyID :: string
  vo_RevokedCredentials :: int

definition ValidateBrowserRefreshRotation :: "refresh_rotation \<Rightarrow> bool" where
  "ValidateBrowserRefreshRotation r \<longleftrightarrow>
     \<not> (rf_PresentedHash r = '''' \<or> rf_ClientID r = '''' \<or> IsZero (rf_Now r) \<or> rf_Grace r < 0 \<or> rf_AccessLifetime r \<le> 0
        \<or> length (rf_Seed r) \<noteq> 32 \<or> rf_SuccessorCredential r = '''' \<or> rf_SuccessorTokenHash r = '''' \<or> rf_SuccessorPrefix r = ''''
        \<or> rf_SuccessorRefresh r = '''' \<or> rf_ActorID r = '''')"

definition ValidateBrowserFamilyStart :: "family_start \<Rightarrow> bool" where
  "ValidateBrowserFamilyStart s \<longleftrightarrow>
     \<not> (fs_OrgID s = '''' \<or> fs_FamilyID s = '''' \<or> fs_ClientID s = '''' \<or> fs_CredentialID s = '''' \<or> fs_RefreshTokenHash s = ''''
        \<or> IsZero (fs_CreatedAt s) \<or> \<not> fs_ExpiresAt s > fs_CreatedAt s)"

definition BrowserRefreshSuccessorExpiry :: "time \<Rightarrow> duration \<Rightarrow> time \<Rightarrow> time" where
  "BrowserRefreshSuccessorExpiry now lifetime familyEnd = (let end' = now + lifetime in if familyEnd < end' then familyEnd else end')"

definition BrowserRefreshInGrace :: "time \<Rightarrow> time \<Rightarrow> duration \<Rightarrow> bool" where
  "BrowserRefreshInGrace consumedAt now grace \<longleftrightarrow> \<not> now < consumedAt \<and> time_sub now consumedAt \<le> grace"

definition BrowserRefreshSuccessorInput :: "refresh_rotation \<Rightarrow> client_credential \<Rightarrow> time \<Rightarrow> time \<Rightarrow> create_input" where
  "BrowserRefreshSuccessorInput r source familyEnd now =
    \<lparr>ci_CredentialID = rf_SuccessorCredential r, ci_OrgID = cc_OrgID source, ci_Name = cc_Name source,
     ci_TokenPrefix = rf_SuccessorPrefix r, ci_TokenHash = rf_SuccessorTokenHash r,
     ci_RepositoryScopes = cc_RepositoryScopes source, ci_Scopes = cc_Scopes source, ci_ActorID = rf_ActorID r,
     ci_ExpiresAt = Some (BrowserRefreshSuccessorExpiry now (rf_AccessLifetime r) familyEnd),
     ci_IssuanceProvenance = IssuanceProvenanceDeviceAuthorization, ci_WorkloadBindingID = '''', ci_Resource = cc_Resource source,
     ci_ClientID = cp_ClientID (cc_Provenance source), ci_ApprovingUserID = cp_ApprovingUserID (cc_Provenance source),
     ci_ClientClass = ClientClassBrowser, ci_SessionID = cp_SessionID (cc_Provenance source),
     ci_FamilyID = cp_FamilyID (cc_Provenance source), ci_FamilyExpiresAt = Some familyEnd\<rparr>"

section \<open>The store\<close>

record browser_family =
  bf_orgID :: string
  bf_clientID :: string
  bf_expiresAt :: time
  bf_revokedAt :: "time option"
  bf_revokedReason :: string

record refresh_token =
  rt_familyID :: string
  rt_credentialID :: string
  rt_consumedAt :: "time option"
  rt_successorHash :: string
  rt_seed :: string
  rt_accessHash :: string

record browser_store =
  bs_families :: "(string, browser_family) gomap"
  bs_tokens :: "(string, refresh_token) gomap"
  bs_credentials :: credential_store

definition NewBrowserRefreshStore :: "credential_store \<Rightarrow> browser_store" where
  "NewBrowserRefreshStore cs = \<lparr>bs_families = [], bs_tokens = [], bs_credentials = cs\<rparr>"

type_synonym 'a browser_result = "(browser_error + 'a) \<times> browser_store"

definition StartBrowserFamily :: "env \<Rightarrow> family_start \<Rightarrow> browser_store \<Rightarrow> unit browser_result" where
  "StartBrowserFamily e st s =
    (if env_err e 0 then (Inl BrCanceled, s)
     else if \<not> ValidateBrowserFamilyStart st then (Inl ErrInvalidBrowserRefresh, s)
     else if has_key (bs_families s) (fs_FamilyID st) then (Inl BrConflict, s)
     else if has_key (bs_tokens s) (fs_RefreshTokenHash st) then (Inl BrConflict, s)
     else (Inr (), s\<lparr>bs_families := put (fs_FamilyID st) \<lparr>bf_orgID = fs_OrgID st, bf_clientID = fs_ClientID st,
              bf_expiresAt = fs_ExpiresAt st, bf_revokedAt = None, bf_revokedReason = ''''\<rparr> (bs_families s),
            bs_tokens := put (fs_RefreshTokenHash st) \<lparr>rt_familyID = fs_FamilyID st, rt_credentialID = fs_CredentialID st,
              rt_consumedAt = None, rt_successorHash = '''', rt_seed = '''', rt_accessHash = ''''\<rparr> (bs_tokens s)\<rparr>))"

section \<open>Revoking a family\<close>

definition family_revocation :: "string \<Rightarrow> string \<Rightarrow> string \<Rightarrow> string \<Rightarrow> revocation_input" where
  "family_revocation orgID credentialID actorID reason =
    \<lparr>vi_OrgID = orgID, vi_CredentialID = credentialID, vi_ActorID = actorID, vi_ActorType = '''',
     vi_Reason = ''browser family '' @ reason, vi_SelfCredential = False\<rparr>"

fun revoke_members ::
  "libs \<Rightarrow> (nat \<Rightarrow> env) \<Rightarrow> string \<Rightarrow> string \<Rightarrow> string \<Rightarrow> string \<Rightarrow> client_credential list \<Rightarrow> int \<Rightarrow> credential_store
    \<Rightarrow> int credential_result" where
  "revoke_members lib es orgID familyID actorID reason [] live cs = (Inr live, cs)"
| "revoke_members lib es orgID familyID actorID reason (member # rest) live cs =
    (if cp_FamilyID (cc_Provenance member) \<noteq> familyID \<or> cc_RevokedAt member \<noteq> None
     then revoke_members lib es orgID familyID actorID reason rest live cs
     else case RevokeCredential lib (es 0) (family_revocation orgID (cc_CredentialID member) actorID reason) cs of
       (Inl err, cs1) \<Rightarrow>
         if err \<noteq> ErrConflict then (Inl err, cs1)
         else revoke_members lib (\<lambda>k. es (Suc k)) orgID familyID actorID reason rest (live + 1) cs1
     | (Inr _, cs1) \<Rightarrow> revoke_members lib (\<lambda>k. es (Suc k)) orgID familyID actorID reason rest (live + 1) cs1)"

definition revokeFamilyCredentials ::
  "libs \<Rightarrow> (nat \<Rightarrow> env) \<Rightarrow> string \<Rightarrow> string \<Rightarrow> string \<Rightarrow> string \<Rightarrow> credential_store \<Rightarrow> int credential_result" where
  "revokeFamilyCredentials lib es orgID familyID actorID reason cs =
    (case List_credentials (es 0) orgID cs of
       Inl err \<Rightarrow> (Inl err, cs)
     | Inr members \<Rightarrow> revoke_members lib (\<lambda>k. es (Suc k)) orgID familyID actorID reason members 0 cs)"

definition mark_revoked :: "string \<Rightarrow> time \<Rightarrow> browser_family \<Rightarrow> browser_family" where
  "mark_revoked reason now f =
    (if bf_revokedAt f = None then f\<lparr>bf_revokedAt := Some now, bf_revokedReason := reason\<rparr> else f)"

definition revokeFamilyLocked ::
  "libs \<Rightarrow> (nat \<Rightarrow> env) \<Rightarrow> string \<Rightarrow> browser_family \<Rightarrow> string \<Rightarrow> string \<Rightarrow> time \<Rightarrow> browser_store \<Rightarrow> int browser_result" where
  "revokeFamilyLocked lib es familyID f reason actorID now s =
    (let s1 = s\<lparr>bs_families := put familyID (mark_revoked reason now f) (bs_families s)\<rparr>
     in case revokeFamilyCredentials lib es (bf_orgID f) familyID actorID reason (bs_credentials s1) of
          (Inl err, cs1) \<Rightarrow> (Inl (BrCredential err), s1\<lparr>bs_credentials := cs1\<rparr>)
        | (Inr n, cs1) \<Rightarrow> (Inr n, s1\<lparr>bs_credentials := cs1\<rparr>))"

section \<open>Refreshing\<close>

definition plain_outcome :: "browser_decision \<Rightarrow> string \<Rightarrow> string \<Rightarrow> refresh_outcome" where
  "plain_outcome d orgID familyID = \<lparr>ro_Decision = d, ro_OrgID = orgID, ro_FamilyID = familyID, ro_Credential = None, ro_Seed = '''',
     ro_SuccessorTokenHash = '''', ro_SuccessorRefreshHash = '''', ro_RevokedCredentials = 0\<rparr>"

definition graceReplayLocked ::
  "env \<Rightarrow> browser_family \<Rightarrow> refresh_token \<Rightarrow> duration \<Rightarrow> time \<Rightarrow> browser_store \<Rightarrow> refresh_outcome option" where
  "graceReplayLocked e f token grace now s =
    (case rt_consumedAt token of
       None \<Rightarrow> None
     | Some consumedAt \<Rightarrow>
         if rt_successorHash token = '''' \<or> length (rt_seed token) \<noteq> 32 \<or> \<not> BrowserRefreshInGrace consumedAt now grace then None
         else case map_of (bs_tokens s) (rt_successorHash token) of
           None \<Rightarrow> None
         | Some st \<Rightarrow>
             if rt_consumedAt st \<noteq> None then None
             else case GetByID e (bf_orgID f) (rt_credentialID st) (bs_credentials s) of
               Inl _ \<Rightarrow> None
             | Inr successor \<Rightarrow>
                 if cc_RevokedAt successor \<noteq> None then None
                 else Some \<lparr>ro_Decision = BrowserRefreshGraceReplay, ro_OrgID = '''', ro_FamilyID = '''', ro_Credential = Some successor,
                        ro_Seed = rt_seed token, ro_SuccessorTokenHash = rt_accessHash st,
                        ro_SuccessorRefreshHash = rt_successorHash token, ro_RevokedCredentials = 0\<rparr>)"

text \<open>The rotation of an unused token: the successor credential is created, the token is consumed.\<close>

definition rotate_unused ::
  "libs \<Rightarrow> env \<Rightarrow> refresh_rotation \<Rightarrow> browser_family \<Rightarrow> refresh_token \<Rightarrow> client_credential \<Rightarrow> browser_store
    \<Rightarrow> refresh_outcome browser_result" where
  "rotate_unused lib e r f token source s =
    (if has_key (bs_tokens s) (rf_SuccessorRefresh r) then (Inl BrConflict, s)
     else case CreateCredential lib e (BrowserRefreshSuccessorInput r source (bf_expiresAt f) (rf_Now r)) (bs_credentials s) of
       (Inl err, cs1) \<Rightarrow> (Inl (BrCredential err), s\<lparr>bs_credentials := cs1\<rparr>)
     | (Inr successor, cs1) \<Rightarrow>
         (Inr \<lparr>ro_Decision = BrowserRefreshRotated, ro_OrgID = bf_orgID f, ro_FamilyID = rt_familyID token,
               ro_Credential = Some successor, ro_Seed = rf_Seed r, ro_SuccessorTokenHash = rf_SuccessorTokenHash r,
               ro_SuccessorRefreshHash = rf_SuccessorRefresh r, ro_RevokedCredentials = 0\<rparr>,
          s\<lparr>bs_credentials := cs1,
            bs_tokens := put (rf_SuccessorRefresh r) \<lparr>rt_familyID = rt_familyID token, rt_credentialID = cc_CredentialID successor,
                rt_consumedAt = None, rt_successorHash = '''', rt_seed = '''', rt_accessHash = rf_SuccessorTokenHash r\<rparr>
              (put (rf_PresentedHash r) (token\<lparr>rt_consumedAt := Some (rf_Now r), rt_successorHash := rf_SuccessorRefresh r,
                 rt_seed := rf_Seed r\<rparr>) (bs_tokens s))\<rparr>))"

definition revoke_outcome ::
  "libs \<Rightarrow> (nat \<Rightarrow> env) \<Rightarrow> browser_decision \<Rightarrow> string \<Rightarrow> refresh_rotation \<Rightarrow> browser_family \<Rightarrow> refresh_token \<Rightarrow> browser_store
    \<Rightarrow> refresh_outcome browser_result" where
  "revoke_outcome lib es d reason r f token s =
    (case revokeFamilyLocked lib es (rt_familyID token) f reason (rf_ActorID r) (rf_Now r) s of
       (Inl err, s1) \<Rightarrow> (Inl err, s1)
     | (Inr n, s1) \<Rightarrow> (Inr ((plain_outcome d (bf_orgID f) (rt_familyID token))\<lparr>ro_RevokedCredentials := n\<rparr>), s1))"

definition RotateBrowserRefresh :: "libs \<Rightarrow> (nat \<Rightarrow> env) \<Rightarrow> refresh_rotation \<Rightarrow> browser_store \<Rightarrow> refresh_outcome browser_result" where
  "RotateBrowserRefresh lib es r s =
    (if env_err (es 0) 0 then (Inl BrCanceled, s)
     else if \<not> ValidateBrowserRefreshRotation r then (Inl ErrInvalidBrowserRefresh, s)
     else case map_of (bs_tokens s) (rf_PresentedHash r) of
       None \<Rightarrow> (Inr (plain_outcome BrowserRefreshUnknownToken '''' ''''), s)
     | Some token \<Rightarrow>
         (case map_of (bs_families s) (rt_familyID token) of
            None \<Rightarrow> (Inl BrNilFamily, s)
          | Some f \<Rightarrow>
              let plain = (\<lambda>d. plain_outcome d (bf_orgID f) (rt_familyID token))
              in if bf_clientID f \<noteq> rf_ClientID r then (Inr (plain BrowserRefreshClientMismatch), s)
                 else if bf_revokedAt f \<noteq> None then (Inr (plain BrowserRefreshFamilyRevoked), s)
                 else if \<not> rf_Now r < bf_expiresAt f then (Inr (plain BrowserRefreshFamilyExpired), s)
                 else case GetByID (es 1) (bf_orgID f) (rt_credentialID token) (bs_credentials s) of
                   Inl err \<Rightarrow> (Inl (BrCredential err), s)
                 | Inr source \<Rightarrow>
                     if cc_RevokedAt source \<noteq> None
                     then revoke_outcome lib (\<lambda>k. es (k + 3)) BrowserRefreshFamilyRevoked ''member_revoked'' r f token s
                     else if rt_consumedAt token = None then rotate_unused lib (es 2) r f token source s
                     else case graceReplayLocked (es 2) f token (rf_Grace r) (rf_Now r) s of
                       Some replay \<Rightarrow> (Inr (replay\<lparr>ro_OrgID := bf_orgID f, ro_FamilyID := rt_familyID token\<rparr>), s)
                     | None \<Rightarrow> revoke_outcome lib (\<lambda>k. es (k + 3)) BrowserRefreshReuseRevoked ''reuse'' r f token s))"

definition RevokeBrowserFamilyByToken ::
  "libs \<Rightarrow> (nat \<Rightarrow> env) \<Rightarrow> string \<Rightarrow> string \<Rightarrow> string \<Rightarrow> time \<Rightarrow> browser_store \<Rightarrow> revocation_outcome browser_result" where
  "RevokeBrowserFamilyByToken lib es presentedHash clientID actorID now s =
    (if env_err (es 0) 0 then (Inl BrCanceled, s)
     else if presentedHash = '''' \<or> clientID = '''' \<or> actorID = '''' \<or> IsZero now then (Inl ErrInvalidBrowserRefresh, s)
     else case map_of (bs_tokens s) presentedHash of
       None \<Rightarrow> (Inr \<lparr>vo_Decision = BrowserRefreshUnknownToken, vo_OrgID = '''', vo_FamilyID = '''', vo_RevokedCredentials = 0\<rparr>, s)
     | Some token \<Rightarrow>
         (case map_of (bs_families s) (rt_familyID token) of
            None \<Rightarrow> (Inl BrNilFamily, s)
          | Some f \<Rightarrow>
              let outcome = (\<lambda>d n. \<lparr>vo_Decision = d, vo_OrgID = bf_orgID f, vo_FamilyID = rt_familyID token, vo_RevokedCredentials = n\<rparr>)
              in if bf_clientID f \<noteq> clientID then (Inr (outcome BrowserRefreshClientMismatch 0), s)
                 else if bf_revokedAt f \<noteq> None then (Inr (outcome BrowserRefreshFamilyRevoked 0), s)
                 else case revokeFamilyLocked lib (\<lambda>k. es (Suc k)) (rt_familyID token) f ''sign_out'' actorID now s of
                   (Inl err, s1) \<Rightarrow> (Inl err, s1)
                 | (Inr n, s1) \<Rightarrow> (Inr (outcome BrowserFamilyRevokedNow n), s1)))"

end
