(* ===== verification/Browser_Facts.thy ===== *)
theory Browser_Facts
  imports Browser_Refresh Credential_Client
begin

text \<open>
  Facts about the operations of the browser refresh store: which calls of the credential store they make, what
  revoking a family leaves, and the cases of a refresh.
\<close>

section \<open>Revoking the members of a family\<close>

lemma revoke_members_calls: "calls lib cs (snd (revoke_members lib es org fam actor reason ms live cs))"
proof (induction ms arbitrary: es live cs)
  case (Cons m ms)
  obtain x cs1 where r: "RevokeCredential lib (es 0) (family_revocation org (cc_CredentialID m) actor reason) cs = (x, cs1)" by fastforce
  then have "calls lib cs cs1" using calls_revoke [of lib cs "es 0" "family_revocation org (cc_CredentialID m) actor reason"] by simp
  with r Cons.IH show ?case by (cases x) (auto intro: calls_trans)
qed simp

lemma revokeFamilyCredentials_calls: "calls lib cs (snd (revokeFamilyCredentials lib es org fam actor reason cs))"
  by (auto simp: revokeFamilyCredentials_def revoke_members_calls split: sum.splits)

lemma revoke_members_done:
  assumes "revoke_members lib es org fam actor reason ms live cs = (Inr n, cs')" "store_ok cs"
    "normalizeIdentifier ''organization'' org = Inr norg" "m \<in> set ms" "cp_FamilyID (cc_Provenance m) = fam"
    "normalizeCredentialID (cc_CredentialID m) = Inr (cc_CredentialID m)"
    "cc_RevokedAt m \<noteq> None \<Longrightarrow> \<exists>r. map_of (cs_byID cs) (cc_CredentialID m) = Some r \<and> cc_RevokedAt (cr_Metadata r) \<noteq> None"
  shows "\<exists>r. map_of (cs_byID cs') (cc_CredentialID m) = Some r \<and> cc_RevokedAt (cr_Metadata r) \<noteq> None"
  using assms
proof (induction ms arbitrary: es live cs)
  case (Cons p ms)
  have ev: "store_evolves cs cs'"
    using calls_ok [OF revoke_members_calls Cons.prems(2)] Cons.prems(1) by (metis snd_conv)
  show ?case
  proof (cases "cp_FamilyID (cc_Provenance p) \<noteq> fam \<or> cc_RevokedAt p \<noteq> None")
    case True
    then have rest: "revoke_members lib es org fam actor reason ms live cs = (Inr n, cs')" using Cons.prems(1) by simp
    show ?thesis
    proof (cases "m = p")
      case True
      with \<open>cp_FamilyID (cc_Provenance p) \<noteq> fam \<or> cc_RevokedAt p \<noteq> None\<close> Cons.prems(5,7) obtain r
        where "map_of (cs_byID cs) (cc_CredentialID m) = Some r" "cc_RevokedAt (cr_Metadata r) \<noteq> None" by auto
      then show ?thesis by (rule evolves_revoked [OF ev])
    next
      case False
      with Cons.prems(4) have "m \<in> set ms" by simp
      from Cons.IH [OF rest Cons.prems(2,3) this Cons.prems(5,6,7)] show ?thesis .
    qed
  next
    case False
    let ?i = "family_revocation org (cc_CredentialID p) actor reason"
    obtain x cs1 where r: "RevokeCredential lib (es 0) ?i cs = (x, cs1)" by fastforce
    have x: "(\<exists>c. x = Inr c) \<or> x = Inl ErrConflict" using Cons.prems(1) False r by (cases x) (auto split: if_splits)
    have rest: "revoke_members lib (\<lambda>k. es (Suc k)) org fam actor reason ms (live + 1) cs1 = (Inr n, cs')"
      using Cons.prems(1) False r x by auto
    have c1: "calls lib cs cs1" using calls_revoke [of lib cs "es 0" ?i] r by simp
    note ok1 = calls_ok [OF c1 Cons.prems(2)]
    have ev1: "store_evolves cs1 cs'" using calls_ok [OF revoke_members_calls, of cs1] ok1 rest by (metis snd_conv)
    show ?thesis
    proof (cases "m = p")
      case True
      have "\<exists>r. map_of (cs_byID cs1) (cc_CredentialID m) = Some r \<and> cc_RevokedAt (cr_Metadata r) \<noteq> None"
        using x Cons.prems(3,6) True revoke_leaves_revoked [OF r Cons.prems(2), of _ norg "cc_CredentialID m"]
        by (auto simp: family_revocation_def)
      then show ?thesis using evolves_revoked [OF ev1] by blast
    next
      case False
      with Cons.prems(4) have m: "m \<in> set ms" by simp
      have "\<exists>r. map_of (cs_byID cs1) (cc_CredentialID m) = Some r \<and> cc_RevokedAt (cr_Metadata r) \<noteq> None" if "cc_RevokedAt m \<noteq> None"
        using Cons.prems(7) [OF that] evolves_revoked ok1 by blast
      from Cons.IH [OF rest _ Cons.prems(3) m Cons.prems(5,6) this] ok1 show ?thesis by blast
    qed
  qed
qed simp

text \<open>Once a family's credentials are revoked, none of those stored in its organization is live.\<close>

lemma revokeFamilyCredentials_done:
  assumes "revokeFamilyCredentials lib es org fam actor reason cs = (Inr n, cs')" "store_ok cs" "all_wf cs"
    "map_of (cs_byID cs') cid = Some r" "cp_FamilyID (cc_Provenance (cr_Metadata r)) = fam"
    "normalizeIdentifier ''organization'' org = Inr (cc_OrgID (cr_Metadata r))" "map_of (cs_byID cs) cid \<noteq> None"
  shows "cc_RevokedAt (cr_Metadata r) \<noteq> None"
proof -
  obtain r0 where r0: "map_of (cs_byID cs) cid = Some r0" using assms(7) by blast
  have ev: "store_evolves cs cs'" using calls_ok [OF revokeFamilyCredentials_calls assms(2)] assms(1) by (metis snd_conv)
  obtain r' where "map_of (cs_byID cs') cid = Some r'" "record_evolves r0 r'" using evolves_at [OF ev r0] .
  with assms(4) have re: "record_evolves r0 r" by simp
  then have fz: "frozen (cr_Metadata r) = frozen (cr_Metadata r0)" by (simp add: record_evolves_def)
  obtain ms where ms: "List_credentials (es 0) org cs = Inr ms" "revoke_members lib (\<lambda>k. es (Suc k)) org fam actor reason ms 0 cs = (Inr n, cs')"
    using assms(1) by (auto simp: revokeFamilyCredentials_def split: sum.splits)
  have cid: "cc_CredentialID (cr_Metadata r0) = cid" by (rule store_ok_id [OF assms(2) r0])
  have "(cid, r0) \<in> set (cs_byID cs)" using r0 by (rule map_of_SomeD)
  then have m: "cr_Metadata r0 \<in> set ms"
    using ms(1) assms(6) frozen_fields(2) [OF fz] by (force simp: List_credentials_def split: if_splits)
  have "credential_id_ok (cc_CredentialID (cr_Metadata r0))" using assms(3) r0 by (auto simp: all_wf_def credential_wf_def Let_def)
  from revoke_members_done [OF ms(2) assms(2,6) m _ credential_id_fixed [OF this]] r0 cid frozen_fields(5) [OF fz] assms(5)
  have "\<exists>q. map_of (cs_byID cs') cid = Some q \<and> cc_RevokedAt (cr_Metadata q) \<noteq> None" by auto
  with assms(4) show ?thesis by auto
qed

section \<open>The machine\<close>

datatype browser_op =
    BrStart env family_start
  | BrRotate "nat \<Rightarrow> env" refresh_rotation
  | BrRevoke "nat \<Rightarrow> env" string string string time
  | BrCred credential_op  \<comment> \<open>any other use of the credential store\<close>

fun browser_step :: "libs \<Rightarrow> browser_op \<Rightarrow> browser_store \<Rightarrow> browser_store" where
  "browser_step lib (BrStart e st) s = snd (StartBrowserFamily e st s)"
| "browser_step lib (BrRotate es r) s = snd (RotateBrowserRefresh lib es r s)"
| "browser_step lib (BrRevoke es h c a now) s = snd (RevokeBrowserFamilyByToken lib es h c a now s)"
| "browser_step lib (BrCred op) s = s\<lparr>bs_credentials := credential_step lib op (bs_credentials s)\<rparr>"

lemma revokeFamilyLocked_frame:
  assumes "revokeFamilyLocked lib es fam f reason actor now s = (x, s')"
  shows "\<exists>cs'. calls lib (bs_credentials s) cs' \<and>
    s' = s\<lparr>bs_families := put fam (mark_revoked reason now f) (bs_families s), bs_credentials := cs'\<rparr> \<and>
    (\<forall>n. x = Inr n \<longrightarrow> revokeFamilyCredentials lib es (bf_orgID f) fam actor reason (bs_credentials s) = (Inr n, cs'))"
proof -
  obtain y cs' where r: "revokeFamilyCredentials lib es (bf_orgID f) fam actor reason (bs_credentials s) = (y, cs')" by fastforce
  then have "calls lib (bs_credentials s) cs'" using revokeFamilyCredentials_calls by (metis snd_conv)
  with r assms show ?thesis by (intro exI [of _ cs']) (auto simp: revokeFamilyLocked_def Let_def split: sum.splits)
qed

text \<open>What a refresh does to the store: nothing, a revoked family, or a rotated token; and what it answers.\<close>

lemma rotate_refresh_cases:
  assumes "RotateBrowserRefresh lib es r s = (x, s')"
  obtains (same) "s' = s" "\<And>out. x = Inr out \<Longrightarrow> ro_Decision out \<notin> {BrowserRefreshRotated, BrowserRefreshReuseRevoked, BrowserRefreshGraceReplay}"
    | (replay) token f out where "s' = s" "map_of (bs_tokens s) (rf_PresentedHash r) = Some token" "map_of (bs_families s) (rt_familyID token) = Some f"
      "rt_consumedAt token \<noteq> None" "graceReplayLocked (es 2) f token (rf_Grace r) (rf_Now r) s = Some out"
      "x = Inr (out\<lparr>ro_OrgID := bf_orgID f, ro_FamilyID := rt_familyID token\<rparr>)" "bf_revokedAt f = None" "bf_clientID f = rf_ClientID r"
    | (revoke) token f reason cs' where "map_of (bs_tokens s) (rf_PresentedHash r) = Some token" "map_of (bs_families s) (rt_familyID token) = Some f"
      "bf_revokedAt f = None" "calls lib (bs_credentials s) cs'"
      "s' = s\<lparr>bs_families := put (rt_familyID token) (mark_revoked reason (rf_Now r) f) (bs_families s), bs_credentials := cs'\<rparr>"
      "\<And>out. x = Inr out \<Longrightarrow> ro_Decision out \<in> {BrowserRefreshFamilyRevoked, BrowserRefreshReuseRevoked} \<and> ro_OrgID out = bf_orgID f \<and>
         ro_FamilyID out = rt_familyID token \<and>
         (\<exists>es' n. revokeFamilyCredentials lib es' (bf_orgID f) (rt_familyID token) (rf_ActorID r) reason (bs_credentials s) = (Inr n, cs'))"
    | (rotate) token f source where "map_of (bs_tokens s) (rf_PresentedHash r) = Some token" "map_of (bs_families s) (rt_familyID token) = Some f"
      "bf_revokedAt f = None" "bf_clientID f = rf_ClientID r" "rf_Now r < bf_expiresAt f" "rt_consumedAt token = None"
      "GetByID (es 1) (bf_orgID f) (rt_credentialID token) (bs_credentials s) = Inr source" "cc_RevokedAt source = None"
      "rotate_unused lib (es 2) r f token source s = (x, s')" "ValidateBrowserRefreshRotation r"
proof (cases "env_err (es 0) 0 \<or> \<not> ValidateBrowserRefreshRotation r")
  case True
  with assms have "s' = s \<and> isl x" by (auto simp: RotateBrowserRefresh_def split: if_splits)
  then show ?thesis by (intro same) auto
next
  case valid: False
  show ?thesis
  proof (cases "map_of (bs_tokens s) (rf_PresentedHash r)")
    case None
    with assms valid show ?thesis by (intro same) (auto simp: RotateBrowserRefresh_def plain_outcome_def)
  next
    case tok: (Some token)
    show ?thesis
    proof (cases "map_of (bs_families s) (rt_familyID token)")
      case None
      with assms valid tok show ?thesis by (intro same) (auto simp: RotateBrowserRefresh_def)
    next
      case fam: (Some f)
      show ?thesis
      proof (cases "bf_clientID f \<noteq> rf_ClientID r \<or> bf_revokedAt f \<noteq> None \<or> \<not> rf_Now r < bf_expiresAt f \<or> isl (GetByID (es 1) (bf_orgID f) (rt_credentialID token) (bs_credentials s))")
        case True
        with assms valid tok fam show ?thesis
          by (intro same) (auto simp: RotateBrowserRefresh_def plain_outcome_def isl_def split: if_splits)
      next
        case False
        then obtain source where g: "GetByID (es 1) (bf_orgID f) (rt_credentialID token) (bs_credentials s) = Inr source"
          "bf_clientID f = rf_ClientID r" "bf_revokedAt f = None" "rf_Now r < bf_expiresAt f" by (auto simp: isl_def split: sum.splits) (metis sum.exhaust)
        have rev: ?thesis if ro: "revoke_outcome lib (\<lambda>k. es (k + 3)) d reason r f token s = (x, s')" "d \<in> {BrowserRefreshFamilyRevoked, BrowserRefreshReuseRevoked}" for d reason
        proof -
          obtain y s1 where l: "revokeFamilyLocked lib (\<lambda>k. es (k + 3)) (rt_familyID token) f reason (rf_ActorID r) (rf_Now r) s = (y, s1)" by fastforce
          obtain cs' where cs': "calls lib (bs_credentials s) cs'"
            "s1 = s\<lparr>bs_families := put (rt_familyID token) (mark_revoked reason (rf_Now r) f) (bs_families s), bs_credentials := cs'\<rparr>"
            "\<And>n. y = Inr n \<Longrightarrow> revokeFamilyCredentials lib (\<lambda>k. es (k + 3)) (bf_orgID f) (rt_familyID token) (rf_ActorID r) reason (bs_credentials s) = (Inr n, cs')"
            using revokeFamilyLocked_frame [OF l] by blast
          have s': "s' = s1" using ro(1) l by (cases y) (auto simp: revoke_outcome_def)
          show ?thesis
          proof (rule revoke [OF tok fam g(3) cs'(1)])
            show "s' = s\<lparr>bs_families := put (rt_familyID token) (mark_revoked reason (rf_Now r) f) (bs_families s), bs_credentials := cs'\<rparr>"
              using s' cs'(2) by simp
            fix out assume "x = Inr out"
            with ro l obtain n where n: "y = Inr n" "out = (plain_outcome d (bf_orgID f) (rt_familyID token))\<lparr>ro_RevokedCredentials := n\<rparr>"
              by (cases y) (auto simp: revoke_outcome_def)
            with n(2) ro(2) cs'(3) [OF n(1)] show "ro_Decision out \<in> {BrowserRefreshFamilyRevoked, BrowserRefreshReuseRevoked} \<and> ro_OrgID out = bf_orgID f \<and>
              ro_FamilyID out = rt_familyID token \<and>
              (\<exists>es' n. revokeFamilyCredentials lib es' (bf_orgID f) (rt_familyID token) (rf_ActorID r) reason (bs_credentials s) = (Inr n, cs'))"
              by (auto simp: plain_outcome_def)
          qed
        qed
        have main: "(x, s') = (if cc_RevokedAt source \<noteq> None then revoke_outcome lib (\<lambda>k. es (k + 3)) BrowserRefreshFamilyRevoked ''member_revoked'' r f token s
            else if rt_consumedAt token = None then rotate_unused lib (es 2) r f token source s
            else case graceReplayLocked (es 2) f token (rf_Grace r) (rf_Now r) s of
              Some replay \<Rightarrow> (Inr (replay\<lparr>ro_OrgID := bf_orgID f, ro_FamilyID := rt_familyID token\<rparr>), s)
            | None \<Rightarrow> revoke_outcome lib (\<lambda>k. es (k + 3)) BrowserRefreshReuseRevoked ''reuse'' r f token s)"
          using assms valid tok fam g by (simp add: RotateBrowserRefresh_def)
        show ?thesis
        proof (cases "cc_RevokedAt source \<noteq> None")
          case True
          with main rev show ?thesis by auto
        next
          case live: False
          show ?thesis
          proof (cases "rt_consumedAt token = None")
            case True
            with main live have "rotate_unused lib (es 2) r f token source s = (x, s')" by simp
            with rotate [OF tok fam g(3,2,4) True g(1)] live valid show ?thesis by blast
          next
            case used: False
            show ?thesis
            proof (cases "graceReplayLocked (es 2) f token (rf_Grace r) (rf_Now r) s")
              case None
              with main live used rev show ?thesis by auto
            next
              case (Some out)
              with main live used have "s' = s" "x = Inr (out\<lparr>ro_OrgID := bf_orgID f, ro_FamilyID := rt_familyID token\<rparr>)" by auto
              with replay [OF _ tok fam used Some _ g(3,2)] show ?thesis by blast
            qed
          qed
        qed
      qed
    qed
  qed
qed

end
