(* ===== verification/Browser_Machine.thy ===== *)
theory Browser_Machine
  imports Browser_Facts Map_Evolution
begin

text \<open>
  Runs of the browser refresh store: the invariant \<open>families_ok\<close> and the evolution \<open>browser_evolves\<close> of its two
  maps, carried to runs by an interpretation of \<open>evolving_machine\<close>, and the interpretation of
  \<open>credential_client\<close> that carries the facts of the credential store below.
\<close>

section \<open>Signing out\<close>

lemma sign_out_cases:
  assumes "RevokeBrowserFamilyByToken lib es h c a now s = (x, s')"
  obtains (same) "s' = s" "\<And>out. x = Inr out \<Longrightarrow> vo_Decision out \<noteq> BrowserFamilyRevokedNow"
    | (revoke) token f cs' where "map_of (bs_tokens s) h = Some token" "map_of (bs_families s) (rt_familyID token) = Some f"
      "bf_revokedAt f = None" "bf_clientID f = c" "calls lib (bs_credentials s) cs'"
      "s' = s\<lparr>bs_families := put (rt_familyID token) (mark_revoked ''sign_out'' now f) (bs_families s), bs_credentials := cs'\<rparr>"
      "\<And>out. x = Inr out \<Longrightarrow> vo_OrgID out = bf_orgID f \<and> vo_FamilyID out = rt_familyID token \<and>
         (\<exists>es' n. revokeFamilyCredentials lib es' (bf_orgID f) (rt_familyID token) a ''sign_out'' (bs_credentials s) = (Inr n, cs'))"
proof (cases "\<exists>token f. map_of (bs_tokens s) h = Some token \<and> map_of (bs_families s) (rt_familyID token) = Some f \<and>
    bf_revokedAt f = None \<and> bf_clientID f = c \<and> \<not> env_err (es 0) 0 \<and> \<not> (h = '''' \<or> c = '''' \<or> a = '''' \<or> IsZero now)")
  case False
  with assms have "s' = s \<and> (\<forall>out. x = Inr out \<longrightarrow> vo_Decision out \<noteq> BrowserFamilyRevokedNow)"
    by (auto simp: RevokeBrowserFamilyByToken_def Let_def split: if_splits option.splits)
  then show ?thesis by (intro same) auto
next
  case True
  then obtain token f where t: "map_of (bs_tokens s) h = Some token" "map_of (bs_families s) (rt_familyID token) = Some f"
    "bf_revokedAt f = None" "bf_clientID f = c" "\<not> env_err (es 0) 0" "\<not> (h = '''' \<or> c = '''' \<or> a = '''' \<or> IsZero now)" by blast
  obtain y s1 where l: "revokeFamilyLocked lib (\<lambda>k. es (Suc k)) (rt_familyID token) f ''sign_out'' a now s = (y, s1)" by fastforce
  obtain cs' where cs': "calls lib (bs_credentials s) cs'"
    "s1 = s\<lparr>bs_families := put (rt_familyID token) (mark_revoked ''sign_out'' now f) (bs_families s), bs_credentials := cs'\<rparr>"
    "\<And>n. y = Inr n \<Longrightarrow> revokeFamilyCredentials lib (\<lambda>k. es (Suc k)) (bf_orgID f) (rt_familyID token) a ''sign_out'' (bs_credentials s) = (Inr n, cs')"
    using revokeFamilyLocked_frame [OF l] by blast
  have r: "x = (case y of Inl err \<Rightarrow> Inl err | Inr n \<Rightarrow> Inr \<lparr>vo_Decision = BrowserFamilyRevokedNow, vo_OrgID = bf_orgID f,
      vo_FamilyID = rt_familyID token, vo_RevokedCredentials = n\<rparr>)" "s' = s1"
    using assms t l by (auto simp: RevokeBrowserFamilyByToken_def split: sum.splits)
  show ?thesis
  proof (rule revoke [OF t(1-4) cs'(1)])
    show "s' = s\<lparr>bs_families := put (rt_familyID token) (mark_revoked ''sign_out'' now f) (bs_families s), bs_credentials := cs'\<rparr>"
      using r(2) cs'(2) by simp
    fix out assume "x = Inr out"
    then obtain n where n: "y = Inr n" "vo_OrgID out = bf_orgID f" "vo_FamilyID out = rt_familyID token" using r(1) by (cases y) auto
    with cs'(3) [OF n(1)] n(2,3) show "vo_OrgID out = bf_orgID f \<and> vo_FamilyID out = rt_familyID token \<and>
         (\<exists>es' n. revokeFamilyCredentials lib es' (bf_orgID f) (rt_familyID token) a ''sign_out'' (bs_credentials s) = (Inr n, cs'))" by blast
  qed
qed

section \<open>One rotation\<close>

lemma rotate_unused_cases:
  assumes "rotate_unused lib e r f token source s = (x, s')"
  obtains (fail) err cs' where "x = Inl err" "calls lib (bs_credentials s) cs'" "s' = s\<lparr>bs_credentials := cs'\<rparr>"
    | (rotated) out c cs' where "x = Inr out" "ro_Decision out = BrowserRefreshRotated" "ro_Credential out = Some c" "ro_OrgID out = bf_orgID f"
      "ro_FamilyID out = rt_familyID token" "ro_Seed out = rf_Seed r" "ro_SuccessorTokenHash out = rf_SuccessorTokenHash r"
      "ro_SuccessorRefreshHash out = rf_SuccessorRefresh r" "\<not> has_key (bs_tokens s) (rf_SuccessorRefresh r)"
      "CreateCredential lib e (BrowserRefreshSuccessorInput r source (bf_expiresAt f) (rf_Now r)) (bs_credentials s) = (Inr c, cs')"
      "s' = s\<lparr>bs_credentials := cs', bs_tokens := put (rf_SuccessorRefresh r) \<lparr>rt_familyID = rt_familyID token, rt_credentialID = cc_CredentialID c,
                rt_consumedAt = None, rt_successorHash = '''', rt_seed = '''', rt_accessHash = rf_SuccessorTokenHash r\<rparr>
              (put (rf_PresentedHash r) (token\<lparr>rt_consumedAt := Some (rf_Now r), rt_successorHash := rf_SuccessorRefresh r,
                 rt_seed := rf_Seed r\<rparr>) (bs_tokens s))\<rparr>"
proof (cases "has_key (bs_tokens s) (rf_SuccessorRefresh r)")
  case True
  then show ?thesis using assms by (intro fail [of BrConflict "bs_credentials s"]) (auto simp: rotate_unused_def)
next
  case False
  obtain y cs' where c: "CreateCredential lib e (BrowserRefreshSuccessorInput r source (bf_expiresAt f) (rf_Now r)) (bs_credentials s) = (y, cs')"
    by fastforce
  have k: "calls lib (bs_credentials s) cs'" using calls_create c by (metis snd_conv)
  show ?thesis
  proof (cases y)
    case (Inl err)
    then have "x = Inl (BrCredential err)" "s' = s\<lparr>bs_credentials := cs'\<rparr>" using assms False c by (simp_all add: rotate_unused_def)
    then show ?thesis by (rule fail [OF _ k])
  next
    case (Inr cc)
    then show ?thesis using assms False c
      by (intro rotated [where c = cc and cs' = cs', OF _ _ _ _ _ _ _ _ False c [unfolded Inr]]) (auto simp: rotate_unused_def)
  qed
qed

section \<open>The credential store below\<close>

lemma browser_step_calls: "calls lib (bs_credentials s) (bs_credentials (browser_step lib op s))"
proof (cases op)
  case (BrStart e st)
  then show ?thesis by (auto simp: StartBrowserFamily_def)
next
  case (BrRotate es r)
  obtain x s' where c: "RotateBrowserRefresh lib es r s = (x, s')" by fastforce
  from c show ?thesis
  proof (cases rule: rotate_refresh_cases)
    case (rotate token f source)
    from rotate(9) show ?thesis
    proof (cases rule: rotate_unused_cases)
      case (rotated out cc cs')
      from calls_create [of lib "bs_credentials s" "es 2"] rotated(10) have "calls lib (bs_credentials s) cs'" by (metis snd_conv)
      with rotated(11) BrRotate c show ?thesis by simp
    qed (use BrRotate c in simp)
  qed (use BrRotate c in simp_all)
next
  case (BrRevoke es h c a now)
  obtain x s' where c: "RevokeBrowserFamilyByToken lib es h c a now s = (x, s')" by fastforce
  from c show ?thesis by (cases rule: sign_out_cases) (use BrRevoke c in simp_all)
next
  case (BrCred op)
  then show ?thesis by (simp add: calls_step)
qed

interpretation browser_creds: credential_client lib "browser_step lib" bs_credentials
  by unfold_locales (rule browser_step_calls)

definition reachable_browser :: "libs \<Rightarrow> browser_store \<Rightarrow> bool" where
  "reachable_browser lib s \<longleftrightarrow> (\<exists>ops. s = run_ops (browser_step lib) ops (NewBrowserRefreshStore newCredentialStore))"

lemma reachable_browser_creds: "reachable_browser lib s \<Longrightarrow> reachable_creds lib (bs_credentials s)"
proof -
  have "reachable_creds lib newCredentialStore" unfolding reachable_creds_def by (metis run_ops.simps(1))
  then show "reachable_browser lib s \<Longrightarrow> ?thesis"
    using browser_creds.run_reachable [of lib "NewBrowserRefreshStore newCredentialStore"]
    by (auto simp: reachable_browser_def NewBrowserRefreshStore_def)
qed

lemma reachable_browser_run: "reachable_browser lib s \<Longrightarrow> reachable_browser lib (run_ops (browser_step lib) ops s)"
  unfolding reachable_browser_def by (metis run_ops_append)

section \<open>Invariant and evolution of the two maps\<close>

definition token_ok :: "(string, browser_family) gomap \<Rightarrow> (string, refresh_token) gomap \<Rightarrow> refresh_token \<Rightarrow> bool" where
  "token_ok families tokens t \<longleftrightarrow> has_key families (rt_familyID t) \<and>
     (case rt_consumedAt t of
        None \<Rightarrow> rt_successorHash t = '''' \<and> rt_seed t = ''''
      | Some _ \<Rightarrow> length (rt_seed t) = 32 \<and>
          (case map_of tokens (rt_successorHash t) of None \<Rightarrow> False | Some t' \<Rightarrow> rt_familyID t' = rt_familyID t))"

definition families_ok :: "browser_store \<Rightarrow> bool" where
  "families_ok s \<longleftrightarrow> (\<forall>h t. map_of (bs_tokens s) h = Some t \<longrightarrow> token_ok (bs_families s) (bs_tokens s) t) \<and>
     (\<forall>h h' t t'. map_of (bs_tokens s) h = Some t \<longrightarrow> map_of (bs_tokens s) h' = Some t' \<longrightarrow> rt_familyID t = rt_familyID t' \<longrightarrow>
        rt_consumedAt t = None \<longrightarrow> rt_consumedAt t' = None \<longrightarrow> h = h')"

definition family_evolves :: "browser_family \<Rightarrow> browser_family \<Rightarrow> bool" where
  "family_evolves f f' \<longleftrightarrow> bf_orgID f' = bf_orgID f \<and> bf_clientID f' = bf_clientID f \<and> bf_expiresAt f' = bf_expiresAt f \<and>
     (bf_revokedAt f \<noteq> None \<longrightarrow> f' = f)"

definition token_evolves :: "refresh_token \<Rightarrow> refresh_token \<Rightarrow> bool" where
  "token_evolves t t' \<longleftrightarrow> rt_familyID t' = rt_familyID t \<and> rt_credentialID t' = rt_credentialID t \<and> rt_accessHash t' = rt_accessHash t \<and>
     (rt_consumedAt t \<noteq> None \<longrightarrow> t' = t)"

definition browser_evolves :: "browser_store \<Rightarrow> browser_store \<Rightarrow> bool" where
  "browser_evolves s s' \<longleftrightarrow>
     map_evolves family_evolves (bs_families s) (bs_families s') \<and> map_evolves token_evolves (bs_tokens s) (bs_tokens s')"

interpretation family_evolution: evolution family_evolves
  by unfold_locales (auto simp: family_evolves_def)

interpretation token_evolution: evolution token_evolves
  by unfold_locales (auto simp: token_evolves_def)

lemmas browser_evolves_intros = family_evolution.map_refl family_evolution.map_put family_evolution.map_add
  token_evolution.map_refl token_evolution.map_put token_evolution.map_add

lemma browser_evolves_refl [simp]: "browser_evolves s s"
  by (simp add: browser_evolves_def browser_evolves_intros)

lemma browser_evolves_trans: "browser_evolves a b \<Longrightarrow> browser_evolves b c \<Longrightarrow> browser_evolves a c"
  unfolding browser_evolves_def using family_evolution.map_trans token_evolution.map_trans by metis

lemma mark_revoked_evolves [simp, intro]: "family_evolves f (mark_revoked reason now f)"
  by (simp add: mark_revoked_def family_evolves_def)

lemma mark_revoked_revoked [simp]: "bf_revokedAt (mark_revoked reason now f) \<noteq> None"
  by (simp add: mark_revoked_def)

text \<open>Every operation is one of four changes of the maps.\<close>

lemma browser_step_maps:
  obtains (none) "bs_families (browser_step lib op s) = bs_families s" "bs_tokens (browser_step lib op s) = bs_tokens s"
    | (start) k f h t where "\<not> has_key (bs_families s) k" "\<not> has_key (bs_tokens s) h" "rt_familyID t = k" "rt_consumedAt t = None"
      "rt_successorHash t = ''''" "rt_seed t = ''''" "bs_families (browser_step lib op s) = put k f (bs_families s)"
      "bs_tokens (browser_step lib op s) = put h t (bs_tokens s)"
    | (revoke) k f reason now where "map_of (bs_families s) k = Some f" "bs_tokens (browser_step lib op s) = bs_tokens s"
      "bs_families (browser_step lib op s) = put k (mark_revoked reason now f) (bs_families s)"
    | (rotate) h t now h' seed t' where "map_of (bs_tokens s) h = Some t" "\<not> has_key (bs_tokens s) h'" "rt_consumedAt t = None" "length seed = 32"
      "rt_familyID t' = rt_familyID t" "rt_consumedAt t' = None" "rt_successorHash t' = ''''" "rt_seed t' = ''''"
      "bs_families (browser_step lib op s) = bs_families s" "h' \<noteq> ''''"
      "bs_tokens (browser_step lib op s) = put h' t' (put h (t\<lparr>rt_consumedAt := Some now, rt_successorHash := h', rt_seed := seed\<rparr>) (bs_tokens s))"
proof (cases op)
  case (BrStart e st)
  show ?thesis
  proof (cases "fst (StartBrowserFamily e st s)")
    case (Inl err)
    with BrStart show ?thesis by (intro none) (auto simp: StartBrowserFamily_def split: if_splits)
  next
    case (Inr u)
    then have "\<not> has_key (bs_families s) (fs_FamilyID st) \<and> \<not> has_key (bs_tokens s) (fs_RefreshTokenHash st) \<and>
        \<not> env_err e 0 \<and> ValidateBrowserFamilyStart st"
      by (auto simp: StartBrowserFamily_def split: if_splits)
    then show ?thesis by (intro start [of "fs_FamilyID st" "fs_RefreshTokenHash st"])
      (simp_all add: BrStart StartBrowserFamily_def)
  qed
next
  case (BrRotate es r)
  obtain x s' where c: "RotateBrowserRefresh lib es r s = (x, s')" by fastforce
  from c show ?thesis
  proof (cases rule: rotate_refresh_cases)
    case (rotate token f source)
    from rotate(9) show ?thesis
    proof (cases rule: rotate_unused_cases)
      case (rotated out cc cs')
      show ?thesis
        by (rule that(4) [OF rotate(1) rotated(9) rotate(6)])
          (use rotated(11) rotate(10) BrRotate c in \<open>auto simp: ValidateBrowserRefreshRotation_def\<close>)
    qed (intro none; use BrRotate c in simp)
  next
    case (revoke token f reason cs')
    then show ?thesis using BrRotate c by (intro that(3)) simp_all
  qed (intro none; use BrRotate c in simp)+
next
  case (BrRevoke es h c a now)
  obtain x s' where c: "RevokeBrowserFamilyByToken lib es h c a now s = (x, s')" by fastforce
  from c show ?thesis
  proof (cases rule: sign_out_cases)
    case (revoke token f cs')
    then show ?thesis using BrRevoke c by (intro that(3)) simp_all
  qed (intro none; use BrRevoke c in simp)
next
  case (BrCred op)
  then show ?thesis by (intro none) simp_all
qed

lemma browser_step_evolves: "browser_evolves s (browser_step lib op s)"
proof (cases rule: browser_step_maps [of lib op s])
  case (rotate h t now h' seed t')
  then have "h' \<noteq> h" by (auto simp: has_key_def)
  then have fresh: "\<not> has_key (put h (t\<lparr>rt_consumedAt := Some now, rt_successorHash := h', rt_seed := seed\<rparr>) (bs_tokens s)) h'"
    using rotate(2) by (simp add: has_key_def map_simps)
  have "map_evolves token_evolves (bs_tokens s) (put h (t\<lparr>rt_consumedAt := Some now, rt_successorHash := h', rt_seed := seed\<rparr>) (bs_tokens s))"
    using rotate(1,3) by (intro token_evolution.map_put) (simp add: token_evolves_def)
  from token_evolution.map_trans [OF this token_evolution.map_add [OF fresh]] rotate show ?thesis
    by (simp add: browser_evolves_def browser_evolves_intros)
qed (auto simp: browser_evolves_def intro: browser_evolves_intros)

lemma token_ok_grow:
  assumes "token_ok fs ts t" "\<And>k. has_key fs k \<Longrightarrow> has_key fs' k" "\<And>h u. map_of ts h = Some u \<Longrightarrow> \<exists>u'. map_of ts' h = Some u' \<and> rt_familyID u' = rt_familyID u"
  shows "token_ok fs' ts' t"
  using assms(1,2) assms(3) [of "rt_successorHash t"] by (force simp: token_ok_def split: option.splits)

lemma token_ok_step:
  assumes "token_ok (bs_families s) (bs_tokens s) t"
  shows "token_ok (bs_families (browser_step lib op s)) (bs_tokens (browser_step lib op s)) t"
  using browser_step_evolves [of s lib op] by (intro token_ok_grow [OF assms]) (fastforce simp: browser_evolves_def map_evolves_def token_evolves_def has_key_def)+

lemma families_ok_step:
  assumes ok: "families_ok s"
  shows "families_ok (browser_step lib op s)"
proof -
  let ?s = "browser_step lib op s"
  note tok = ok [unfolded families_ok_def, THEN conjunct1, rule_format, THEN token_ok_step]
  note uniq = ok [unfolded families_ok_def, THEN conjunct2, rule_format]
  show ?thesis
  proof (cases rule: browser_step_maps [of lib op s])
    case none
    with ok show ?thesis by (simp add: families_ok_def)
  next
    case (revoke k f reason now)
    show ?thesis unfolding families_ok_def revoke(2) using tok [where lib = lib and op = op, unfolded revoke(2)] uniq by blast
  next
    case (start k f h t)
    have fresh: False if "map_of (bs_tokens s) x = Some u" "rt_familyID u = rt_familyID t" for x u
      using ok that start(1,3) by (auto simp: families_ok_def token_ok_def)
    have "token_ok (bs_families ?s) (bs_tokens ?s) t" using start(3-8) by (simp add: token_ok_def has_key_def map_simps)
    moreover have "map_of (bs_tokens ?s) x = Some u \<longleftrightarrow> (if x = h then u = t else map_of (bs_tokens s) x = Some u)" for x u
      using start(8) by (auto simp: map_simps)
    ultimately show ?thesis using tok uniq unfolding families_ok_def by (auto split: if_splits dest: fresh fresh [OF _ sym])
  next
    case (rotate h t now h' seed t')
    let ?t = "t\<lparr>rt_consumedAt := Some now, rt_successorHash := h', rt_seed := seed\<rparr>"
    have ne: "h' \<noteq> h" using rotate(1,2) by (auto simp: has_key_def)
    have at: "map_of (bs_tokens ?s) x = Some u \<longleftrightarrow> (if x = h' then u = t' else if x = h then u = ?t else map_of (bs_tokens s) x = Some u)" for x u
      using rotate(11) by (auto simp: map_simps)
    have fam: "has_key (bs_families ?s) (rt_familyID t)" using ok rotate(1,9) by (auto simp: families_ok_def token_ok_def)
    have "token_ok (bs_families ?s) (bs_tokens ?s) t'" "token_ok (bs_families ?s) (bs_tokens ?s) ?t"
      using fam rotate(4-8,11) by (simp_all add: token_ok_def map_simps)
    note new = this
    have split: "x = h' \<and> u = t' \<or> x = h \<and> u = ?t \<or> map_of (bs_tokens s) x = Some u \<and> x \<noteq> h" if "map_of (bs_tokens ?s) x = Some u" for x u
      using that unfolding at by (meson)
    have t1: "token_ok (bs_families ?s) (bs_tokens ?s) u" if "map_of (bs_tokens ?s) x = Some u" for x u
      using split [OF that] new tok [where lib = lib and op = op] by blast
    have t2: "x = h'" if "map_of (bs_tokens ?s) x = Some u" "rt_familyID u = rt_familyID t" "rt_consumedAt u = None" for x u
      using split [OF that(1)] that(2,3) uniq [of x u h t] rotate(1,3) by fastforce
    have t3: "map_of (bs_tokens s) x = Some u" if "map_of (bs_tokens ?s) x = Some u" "rt_familyID u \<noteq> rt_familyID t" for x u
      using that rotate(5) unfolding at by (auto split: if_splits)
    show ?thesis unfolding families_ok_def
    proof (intro conjI allI impI)
      fix x y u v
      assume u: "map_of (bs_tokens ?s) x = Some u" "map_of (bs_tokens ?s) y = Some v" "rt_familyID u = rt_familyID v"
        "rt_consumedAt u = None" "rt_consumedAt v = None"
      show "x = y"
      proof (cases "rt_familyID u = rt_familyID t")
        case True
        then show ?thesis using t2 [OF u(1) _ u(4)] t2 [OF u(2) _ u(5)] u(3) by simp
      next
        case False
        then show ?thesis using uniq [OF t3 [OF u(1)] t3 [OF u(2)] u(3-5)] u(3) by simp
      qed
    qed (rule t1)
  qed
qed

lemma families_ok_new: "families_ok (NewBrowserRefreshStore cs)"
  by (simp add: families_ok_def NewBrowserRefreshStore_def)

interpretation browser_machine: evolving_machine "browser_step lib" "\<lambda>_ _. True" families_ok browser_evolves
  by unfold_locales (auto intro: families_ok_step browser_step_evolves browser_evolves_trans)

lemma browser_run_evolves: "families_ok s \<Longrightarrow> browser_evolves s (run_ops (browser_step lib) ops s)"
  using browser_machine.run_rel [of s lib ops] by simp

lemma reachable_browser_ok: "reachable_browser lib s \<Longrightarrow> families_ok s"
  using browser_machine.run_inv [OF families_ok_new, of lib] by (auto simp: reachable_browser_def)

lemma token_after:
  assumes "reachable_browser lib s" "map_of (bs_tokens s) h = Some t"
  obtains t' where "map_of (bs_tokens (run_ops (browser_step lib) ops s)) h = Some t'" "token_evolves t t'"
  using browser_run_evolves [OF reachable_browser_ok [OF assms(1)]] assms(2) unfolding browser_evolves_def by (blast elim: map_evolves_at)

lemma family_after:
  assumes "reachable_browser lib s" "map_of (bs_families s) k = Some f"
  obtains f' where "map_of (bs_families (run_ops (browser_step lib) ops s)) k = Some f'" "family_evolves f f'"
  using browser_run_evolves [OF reachable_browser_ok [OF assms(1)]] assms(2) unfolding browser_evolves_def by (blast elim: map_evolves_at)

end
