(* ===== verification/Browser_Examples.thy ===== *)
theory Browser_Examples
  imports Browser_Machine
begin

text \<open>
  A small store of token families at which the properties are evaluated: one family with one access credential and
  one refresh token.
\<close>

definition ex_start :: family_start where
  "ex_start = \<lparr>fs_OrgID = ''org1'', fs_FamilyID = ''fam1'', fs_ClientID = ''web'', fs_CredentialID = ''c1'', fs_RefreshTokenHash = ''t0'',
     fs_CreatedAt = Hour, fs_ExpiresAt = 20 * Hour\<rparr>"

definition ex_families :: browser_store where
  "ex_families = run_ops (browser_step ex_libs)
     [BrCred (OpCreate (ex_env Hour) (ex_browser ''c1'' (CHR ''1''))), BrStart (ex_env Hour) ex_start] (NewBrowserRefreshStore newCredentialStore)"

definition ex_refresh :: "time \<Rightarrow> char \<Rightarrow> refresh_rotation" where
  "ex_refresh now h = \<lparr>rf_PresentedHash = ''t0'', rf_ClientID = ''web'', rf_Now = now, rf_Grace = Minute, rf_AccessLifetime = Hour,
     rf_Seed = replicate 32 h, rf_SuccessorCredential = ''c'' @ [h], rf_SuccessorTokenHash = ex_hash h, rf_SuccessorPrefix = ''fcacr_abcdef'',
     rf_SuccessorRefresh = ''t'' @ [h], rf_ActorID = ''user1''\<rparr>"

text \<open>The request context ends after the first call of a refresh.\<close>

definition ex_ends :: "time \<Rightarrow> nat \<Rightarrow> env" where
  "ex_ends t k = \<lparr>env_err = (\<lambda>_. k > 0), env_now = t\<rparr>"

lemma reachable_ex_families: "reachable_browser ex_libs ex_families"
  unfolding reachable_browser_def ex_families_def by blast

end
