(* ===== verification/Browser_Properties.thy ===== *)
theory Browser_Properties
  imports Browser_Examples
begin

text \<open>
  The properties of browser token families, over every state a new store can reach by refreshes, sign-outs and
  any use of the credential store between them (\<open>reachable_browser\<close>): a refresh token has one successor, a
  reused token ends its family, a successor never gets more than its source; and, as an example, what an
  interrupted revocation leaves behind.
\<close>

section \<open>One successor\<close>

text \<open>A replay answers with what the consumed token recorded.\<close>

lemma graceReplay_cases:
  assumes "graceReplayLocked e f token grace now s = Some out"
  obtains st c at where "map_of (bs_tokens s) (rt_successorHash token) = Some st" "rt_consumedAt st = None" "rt_consumedAt token = Some at"
    "BrowserRefreshInGrace at now grace" "GetByID e (bf_orgID f) (rt_credentialID st) (bs_credentials s) = Inr c" "cc_RevokedAt c = None"
    "out = \<lparr>ro_Decision = BrowserRefreshGraceReplay, ro_OrgID = '''', ro_FamilyID = '''', ro_Credential = Some c, ro_Seed = rt_seed token,
       ro_SuccessorTokenHash = rt_accessHash st, ro_SuccessorRefreshHash = rt_successorHash token, ro_RevokedCredentials = 0\<rparr>"
  using assms by (auto simp: graceReplayLocked_def split: option.splits if_splits sum.splits)

lemma rotated_refresh:
  assumes "RotateBrowserRefresh lib es r s = (Inr out, s')" "ro_Decision out = BrowserRefreshRotated"
  obtains token f source c cs' where "map_of (bs_tokens s) (rf_PresentedHash r) = Some token" "map_of (bs_families s) (rt_familyID token) = Some f"
    "bf_revokedAt f = None" "rf_Now r < bf_expiresAt f" "rt_consumedAt token = None"
    "GetByID (es 1) (bf_orgID f) (rt_credentialID token) (bs_credentials s) = Inr source" "cc_RevokedAt source = None"
    "ro_Credential out = Some c" "ro_OrgID out = bf_orgID f" "ro_FamilyID out = rt_familyID token" "ro_Seed out = rf_Seed r"
    "ro_SuccessorTokenHash out = rf_SuccessorTokenHash r" "ro_SuccessorRefreshHash out = rf_SuccessorRefresh r"
    "\<not> has_key (bs_tokens s) (rf_SuccessorRefresh r)"
    "CreateCredential lib (es 2) (BrowserRefreshSuccessorInput r source (bf_expiresAt f) (rf_Now r)) (bs_credentials s) = (Inr c, cs')"
    "s' = s\<lparr>bs_credentials := cs', bs_tokens := put (rf_SuccessorRefresh r) \<lparr>rt_familyID = rt_familyID token, rt_credentialID = cc_CredentialID c,
        rt_consumedAt = None, rt_successorHash = '''', rt_seed = '''', rt_accessHash = rf_SuccessorTokenHash r\<rparr>
        (put (rf_PresentedHash r) (token\<lparr>rt_consumedAt := Some (rf_Now r), rt_successorHash := rf_SuccessorRefresh r,
           rt_seed := rf_Seed r\<rparr>) (bs_tokens s))\<rparr>"
  using assms(1)
proof (cases rule: rotate_refresh_cases)
  case same
  with assms(2) show ?thesis by simp
next
  case (replay token f out')
  from replay(5) have "ro_Decision out' = BrowserRefreshGraceReplay" by (rule graceReplay_cases) simp
  with replay(6) assms(2) show ?thesis by simp
next
  case (revoke token f reason cs')
  with assms(2) show ?thesis by auto
next
  case (rotate token f source)
  from rotate(9) show ?thesis
  proof (cases rule: rotate_unused_cases)
    case (rotated out' c cs')
    then show ?thesis using rotate by (intro that [OF rotate(1,2,3,5,6,7,8)]) simp_all
  qed simp
qed

text \<open>The two tokens a rotation leaves.\<close>

lemma rotated_tokens:
  assumes "reachable_browser lib s" "RotateBrowserRefresh lib es r s = (Inr out, s1)" "ro_Decision out = BrowserRefreshRotated"
  obtains u v c where "ro_Credential out = Some c" "credential_id_ok (cc_CredentialID c)" "reachable_browser lib s1"
    "map_of (bs_tokens s1) (rf_PresentedHash r) = Some u" "rt_consumedAt u = Some (rf_Now r)" "rt_successorHash u = ro_SuccessorRefreshHash out"
    "rt_seed u = ro_Seed out" "rt_familyID u = ro_FamilyID out" "map_of (bs_tokens s1) (ro_SuccessorRefreshHash out) = Some v"
    "rt_credentialID v = cc_CredentialID c" "rt_accessHash v = ro_SuccessorTokenHash out"
proof -
  from assms(2) have s1: "s1 = run_ops (browser_step lib) [BrRotate es r] s" by simp
  from assms(2,3) show ?thesis
  proof (rule rotated_refresh)
    fix token f source c cs'
    assume r: "map_of (bs_tokens s) (rf_PresentedHash r) = Some token" "ro_Credential out = Some c" "ro_FamilyID out = rt_familyID token"
      "ro_Seed out = rf_Seed r" "ro_SuccessorTokenHash out = rf_SuccessorTokenHash r" "ro_SuccessorRefreshHash out = rf_SuccessorRefresh r"
      "\<not> has_key (bs_tokens s) (rf_SuccessorRefresh r)"
      "CreateCredential lib (es 2) (BrowserRefreshSuccessorInput r source (bf_expiresAt f) (rf_Now r)) (bs_credentials s) = (Inr c, cs')"
      "s1 = s\<lparr>bs_credentials := cs', bs_tokens := put (rf_SuccessorRefresh r) \<lparr>rt_familyID = rt_familyID token, rt_credentialID = cc_CredentialID c,
        rt_consumedAt = None, rt_successorHash = '''', rt_seed = '''', rt_accessHash = rf_SuccessorTokenHash r\<rparr>
        (put (rf_PresentedHash r) (token\<lparr>rt_consumedAt := Some (rf_Now r), rt_successorHash := rf_SuccessorRefresh r,
           rt_seed := rf_Seed r\<rparr>) (bs_tokens s))\<rparr>"
    have "rf_SuccessorRefresh r \<noteq> rf_PresentedHash r" using r(1,7) by (auto simp: has_key_def)
    then have "map_of (bs_tokens s1) (rf_PresentedHash r) = Some (token\<lparr>rt_consumedAt := Some (rf_Now r),
        rt_successorHash := rf_SuccessorRefresh r, rt_seed := rf_Seed r\<rparr>)"
      "map_of (bs_tokens s1) (ro_SuccessorRefreshHash out) = Some \<lparr>rt_familyID = rt_familyID token, rt_credentialID = cc_CredentialID c,
        rt_consumedAt = None, rt_successorHash = '''', rt_seed = '''', rt_accessHash = rf_SuccessorTokenHash r\<rparr>"
      using r(6,9) by (simp_all add: map_simps)
    from that [OF r(2) CreateCredential_id [OF r(8)] reachable_browser_run [OF assms(1), of "[BrRotate es r]", folded s1] this(1) _ _ _ _ this(2)] r(3-6)
    show ?thesis by simp
  qed
qed

lemma rotated_once:
  assumes "reachable_browser lib s" "RotateBrowserRefresh lib es r s = (Inr out, s1)" "ro_Decision out = BrowserRefreshRotated"
    and "RotateBrowserRefresh lib es' r' (run_ops (browser_step lib) ops s1) = (Inr out', s2)" "rf_PresentedHash r' = rf_PresentedHash r"
  shows "ro_Decision out' \<noteq> BrowserRefreshRotated \<and>
    (ro_Decision out' = BrowserRefreshGraceReplay \<longrightarrow>
       ro_Seed out' = ro_Seed out \<and> ro_SuccessorTokenHash out' = ro_SuccessorTokenHash out \<and>
       ro_SuccessorRefreshHash out' = ro_SuccessorRefreshHash out \<and> ro_FamilyID out' = ro_FamilyID out \<and>
       map_option cc_CredentialID (ro_Credential out') = map_option cc_CredentialID (ro_Credential out) \<and>
       BrowserRefreshInGrace (rf_Now r) (rf_Now r') (rf_Grace r') \<and> s2 = run_ops (browser_step lib) ops s1)"
proof -
  let ?t = "run_ops (browser_step lib) ops s1"
  obtain u v c where uv: "ro_Credential out = Some c" "credential_id_ok (cc_CredentialID c)" "reachable_browser lib s1"
    "map_of (bs_tokens s1) (rf_PresentedHash r) = Some u" "rt_consumedAt u = Some (rf_Now r)" "rt_successorHash u = ro_SuccessorRefreshHash out"
    "rt_seed u = ro_Seed out" "rt_familyID u = ro_FamilyID out" "map_of (bs_tokens s1) (ro_SuccessorRefreshHash out) = Some v"
    "rt_credentialID v = cc_CredentialID c" "rt_accessHash v = ro_SuccessorTokenHash out"
    using assms(1-3) by (rule rotated_tokens)
  obtain u' where "map_of (bs_tokens ?t) (rf_PresentedHash r) = Some u'" "token_evolves u u'" using uv(3,4) by (rule token_after)
  then have u: "map_of (bs_tokens ?t) (rf_PresentedHash r') = Some u" using assms(5) uv(5) by (simp add: token_evolves_def)
  obtain w where "map_of (bs_tokens ?t) (ro_SuccessorRefreshHash out) = Some w" "token_evolves v w" using uv(3,9) by (rule token_after)
  then have v: "map_of (bs_tokens ?t) (ro_SuccessorRefreshHash out) = Some w" "rt_credentialID w = cc_CredentialID c" "rt_accessHash w = ro_SuccessorTokenHash out"
    using uv(10,11) by (simp_all add: token_evolves_def)
  have ok: "store_ok (bs_credentials ?t)" using reachable_creds_wf [OF reachable_browser_creds [OF reachable_browser_run [OF uv(3)]]] by blast
  from assms(4) show ?thesis
  proof (cases rule: rotate_refresh_cases)
    case (replay token' f' out2)
    have t': "token' = u" using replay(2) u by simp
    from replay(5) show ?thesis
    proof (rule graceReplay_cases)
      fix st c' at
      assume st: "map_of (bs_tokens ?t) (rt_successorHash token') = Some st" "rt_consumedAt token' = Some at"
        "BrowserRefreshInGrace at (rf_Now r') (rf_Grace r')" "GetByID (es' 2) (bf_orgID f') (rt_credentialID st) (bs_credentials ?t) = Inr c'"
        "out2 = \<lparr>ro_Decision = BrowserRefreshGraceReplay, ro_OrgID = '''', ro_FamilyID = '''', ro_Credential = Some c', ro_Seed = rt_seed token',
         ro_SuccessorTokenHash = rt_accessHash st, ro_SuccessorRefreshHash = rt_successorHash token', ro_RevokedCredentials = 0\<rparr>"
      have sw: "st = w" using st(1) t' uv(6) v(1) by simp
      have "cc_CredentialID c' = cc_CredentialID c" using GetByID_id [OF st(4) ok] uv(2) v(2) sw by simp
      then show ?thesis using replay(1,6) st(2,3,5) t' sw v(3) uv(1,5-8) by simp
    qed
  next
    case (rotate token' f' source')
    with u uv(5) show ?thesis by simp
  qed auto
qed

text \<open>
  C11: a refresh token has one successor: once it was rotated, every later refresh with it, whatever happened
  between, either replays the very same seed, hashes and credential inside the grace window, changing
  nothing, or grants nothing.
\<close>

theorem refresh_token_has_one_successor:
  assumes "reachable_browser lib s" "RotateBrowserRefresh lib es r s = (Inr out, s1)" "ro_Decision out = BrowserRefreshRotated"
    and "RotateBrowserRefresh lib es' r' (run_ops (browser_step lib) ops s1) = (Inr out', s2)" "rf_PresentedHash r' = rf_PresentedHash r"
  shows "ro_Decision out' \<noteq> BrowserRefreshRotated \<and>
    (ro_Decision out' = BrowserRefreshGraceReplay \<longrightarrow>
       ro_Seed out' = ro_Seed out \<and> ro_SuccessorTokenHash out' = ro_SuccessorTokenHash out \<and>
       ro_SuccessorRefreshHash out' = ro_SuccessorRefreshHash out \<and> ro_FamilyID out' = ro_FamilyID out \<and>
       map_option cc_CredentialID (ro_Credential out') = map_option cc_CredentialID (ro_Credential out) \<and>
       BrowserRefreshInGrace (rf_Now r) (rf_Now r') (rf_Grace r') \<and> s2 = run_ops (browser_step lib) ops s1)"
  by (rule rotated_once [OF assms])

text \<open>The token of the example family, presented twice within the minute: the second answer replays the first.\<close>

theorem refresh_token_has_one_successor_witness:
  "\<exists>out out'. fst (RotateBrowserRefresh ex_libs (\<lambda>_. ex_env (2 * Hour)) (ex_refresh (2 * Hour) (CHR ''5'')) ex_families) = Inr out \<and>
    fst (RotateBrowserRefresh ex_libs (\<lambda>_. ex_env (2 * Hour)) (ex_refresh (2 * Hour) (CHR ''6''))
      (snd (RotateBrowserRefresh ex_libs (\<lambda>_. ex_env (2 * Hour)) (ex_refresh (2 * Hour) (CHR ''5'')) ex_families))) = Inr out' \<and>
    ro_SuccessorTokenHash out' = ro_SuccessorTokenHash out \<and> ro_Seed out' = ro_Seed out"
proof -
  let ?r = "ex_refresh (2 * Hour) (CHR ''5'')" and ?r' = "ex_refresh (2 * Hour) (CHR ''6'')"
  let ?R = "RotateBrowserRefresh ex_libs (\<lambda>_. ex_env (2 * Hour)) ?r ex_families"
  let ?R' = "RotateBrowserRefresh ex_libs (\<lambda>_. ex_env (2 * Hour)) ?r' (snd ?R)"
  have "map_sum (\<lambda>_. ()) ro_Decision (fst ?R) = Inr BrowserRefreshRotated" by code_simp
  then obtain out where R: "?R = (Inr out, snd ?R)" "ro_Decision out = BrowserRefreshRotated" by (rule result_pair)
  have "map_sum (\<lambda>_. ()) ro_Decision (fst ?R') = Inr BrowserRefreshGraceReplay" by code_simp
  then obtain out' where R': "?R' = (Inr out', snd ?R')" "ro_Decision out' = BrowserRefreshGraceReplay" by (rule result_pair)
  have run: "RotateBrowserRefresh ex_libs (\<lambda>_. ex_env (2 * Hour)) ?r' (run_ops (browser_step ex_libs) [] (snd ?R)) = (Inr out', snd ?R')"
    using R'(1) by simp
  have "rf_PresentedHash ?r' = rf_PresentedHash ?r" by (simp add: ex_refresh_def)
  from refresh_token_has_one_successor [OF reachable_ex_families R run this] R'(2)
  have "ro_SuccessorTokenHash out' = ro_SuccessorTokenHash out" "ro_Seed out' = ro_Seed out" by simp_all
  moreover have "fst ?R = Inr out" "fst ?R' = Inr out'" using R(1) R'(1) by (metis fst_conv)+
  ultimately show ?thesis by blast
qed

section \<open>A reused token\<close>

text \<open>A consumed token outside its grace: a completed call revoked the family and its credentials.\<close>

lemma stale_refresh_revokes:
  assumes "map_of (bs_tokens s) (rf_PresentedHash r) = Some token" "map_of (bs_families s) (rt_familyID token) = Some f"
    "rt_consumedAt token = Some at" "\<not> BrowserRefreshInGrace at (rf_Now r) (rf_Grace r)"
    "bf_clientID f = rf_ClientID r" "bf_revokedAt f = None" "rf_Now r < bf_expiresAt f"
    "RotateBrowserRefresh lib es r s = (Inr out, s1)"
  obtains reason cs' es' n where
    "s1 = s\<lparr>bs_families := put (rt_familyID token) (mark_revoked reason (rf_Now r) f) (bs_families s), bs_credentials := cs'\<rparr>"
    "revokeFamilyCredentials lib es' (bf_orgID f) (rt_familyID token) (rf_ActorID r) reason (bs_credentials s) = (Inr n, cs')"
    "ro_Decision out \<in> {BrowserRefreshReuseRevoked, BrowserRefreshFamilyRevoked}" "ro_Credential out = None"
proof -
  have "graceReplayLocked e f token (rf_Grace r) (rf_Now r) s = None" for e using assms(3,4) by (simp add: graceReplayLocked_def)
  with assms obtain d reason where d: "d \<in> {BrowserRefreshReuseRevoked, BrowserRefreshFamilyRevoked}"
    "revoke_outcome lib (\<lambda>k. es (k + 3)) d reason r f token s = (Inr out, s1)"
    by (auto simp: RotateBrowserRefresh_def Let_def split: if_splits sum.splits)
  obtain y s' where l: "revokeFamilyLocked lib (\<lambda>k. es (k + 3)) (rt_familyID token) f reason (rf_ActorID r) (rf_Now r) s = (y, s')" by fastforce
  with d(2) obtain n where "y = Inr n" "s' = s1" "ro_Decision out = d" "ro_Credential out = None"
    by (cases y) (auto simp: revoke_outcome_def plain_outcome_def)
  with revokeFamilyLocked_frame [OF l] d(1) that show ?thesis by blast
qed

text \<open>No refresh in a revoked family grants anything, however long after.\<close>

lemma revoked_family_grants_nothing:
  assumes "reachable_browser lib s" "map_of (bs_families s) k = Some f" "bf_revokedAt f \<noteq> None"
    "RotateBrowserRefresh lib es r (run_ops (browser_step lib) ops s) = (Inr out, s2)" "ro_FamilyID out = k"
  shows "ro_Decision out \<notin> {BrowserRefreshRotated, BrowserRefreshGraceReplay}"
proof -
  let ?t = "run_ops (browser_step lib) ops s"
  obtain f' where "map_of (bs_families ?t) k = Some f'" "family_evolves f f'" using assms(1,2) by (rule family_after)
  with assms(3) have f': "map_of (bs_families ?t) k = Some f" by (simp add: family_evolves_def)
  from assms(4) show ?thesis
  proof (cases rule: rotate_refresh_cases)
    case (replay token g out')
    with f' assms(3,5) show ?thesis by simp
  next
    case (rotate token g source)
    have "ro_FamilyID out = rt_familyID token" using rotate(9) by (cases rule: rotate_unused_cases) simp_all
    with rotate(2,3) f' assms(3,5) show ?thesis by simp
  qed auto
qed

text \<open>The credentials of a family, once revoked with it, stay revoked and authenticate nobody.\<close>

lemma family_credential_dead:
  assumes "reachable_browser lib s" "reachable_browser lib s1"
    "revokeFamilyCredentials lib es org fam actor reason (bs_credentials s) = (Inr n, cs')" "bs_credentials s1 = cs'"
    "map_of (cs_byID (bs_credentials s)) cid = Some c" "cp_FamilyID (cc_Provenance (cr_Metadata c)) = fam"
    "normalizeIdentifier ''organization'' org = Inr (cc_OrgID (cr_Metadata c))"
  shows "\<exists>c'. map_of (cs_byID (bs_credentials (run_ops (browser_step lib) ops s1))) cid = Some c' \<and> cc_RevokedAt (cr_Metadata c') \<noteq> None"
    "FindByTokenHash e (cr_TokenHash c) (bs_credentials (run_ops (browser_step lib) ops s1)) \<noteq> Inr m"
proof -
  let ?t = "run_ops (browser_step lib) ops s1"
  have wf: "store_ok (bs_credentials s)" "all_wf (bs_credentials s)" using reachable_creds_wf [OF reachable_browser_creds [OF assms(1)]] by simp_all
  have ok1: "store_ok (bs_credentials s1)" using reachable_creds_wf [OF reachable_browser_creds [OF assms(2)]] by simp
  have "store_evolves (bs_credentials s) cs'" using calls_ok [OF revokeFamilyCredentials_calls wf(1)] assms(3) by (metis snd_conv)
  then obtain c1 where c1: "map_of (cs_byID cs') cid = Some c1" "record_evolves c c1" using assms(5) by (rule evolves_at)
  have "frozen (cr_Metadata c1) = frozen (cr_Metadata c)" using c1(2) by (simp add: record_evolves_def)
  note fz = frozen_fields [OF this]
  have rev1: "cc_RevokedAt (cr_Metadata c1) \<noteq> None"
    using revokeFamilyCredentials_done [OF assms(3) wf c1(1)] assms(5-7) fz(2,5) by simp
  obtain c2 where c2: "map_of (cs_byID (bs_credentials ?t)) cid = Some c2" "record_evolves c1 c2"
    using browser_creds.run_keeps_record [OF ok1, of cid c1] c1(1) assms(4) by metis
  have rev: "cc_RevokedAt (cr_Metadata c2) \<noteq> None" "cr_TokenHash c2 = cr_TokenHash c" using c1(2) c2(2) rev1 by (auto simp: record_evolves_def)
  with c2 show "\<exists>c'. map_of (cs_byID (bs_credentials ?t)) cid = Some c' \<and> cc_RevokedAt (cr_Metadata c') \<noteq> None" by blast
  show "FindByTokenHash e (cr_TokenHash c) (bs_credentials ?t) \<noteq> Inr m"
    using revoked_not_found [OF _ _ c2(1) rev(1)] reachable_creds_wf [OF reachable_browser_creds [OF reachable_browser_run [OF assms(2)]]] rev(2) by simp
qed

text \<open>
  C19: a refresh token that was consumed and is presented again by its client outside its grace ends its family. If
  the family is live and unexpired and the call completes (it returns a result and not the error of an
  interrupted revocation), then the answer is a revocation and, after any further operations, every credential
  of the family and its organization is revoked and its token authenticates nobody, and no refresh of the
  family ever rotates or replays again.
\<close>

theorem reused_token_ends_the_family:
  assumes "reachable_browser lib s"
    and "map_of (bs_tokens s) (rf_PresentedHash r) = Some token" "map_of (bs_families s) (rt_familyID token) = Some f"
    and "rt_consumedAt token = Some at" "\<not> BrowserRefreshInGrace at (rf_Now r) (rf_Grace r)"
    and "bf_clientID f = rf_ClientID r" "bf_revokedAt f = None" "rf_Now r < bf_expiresAt f"
    and "RotateBrowserRefresh lib es r s = (Inr out, s1)"
    and t_def: "t = run_ops (browser_step lib) ops s1"
  shows "ro_Decision out \<in> {BrowserRefreshReuseRevoked, BrowserRefreshFamilyRevoked} \<and> ro_Credential out = None \<and>
     (\<forall>cid c. map_of (cs_byID (bs_credentials s)) cid = Some c \<longrightarrow> cp_FamilyID (cc_Provenance (cr_Metadata c)) = rt_familyID token \<longrightarrow>
       normalizeIdentifier ''organization'' (bf_orgID f) = Inr (cc_OrgID (cr_Metadata c)) \<longrightarrow>
       (\<exists>c'. map_of (cs_byID (bs_credentials t)) cid = Some c' \<and> cc_RevokedAt (cr_Metadata c') \<noteq> None) \<and>
       (\<forall>e m. FindByTokenHash e (cr_TokenHash c) (bs_credentials t) \<noteq> Inr m)) \<and>
     (\<forall>es' r' out' s2. RotateBrowserRefresh lib es' r' t = (Inr out', s2) \<longrightarrow> ro_FamilyID out' = rt_familyID token \<longrightarrow>
       ro_Decision out' \<notin> {BrowserRefreshRotated, BrowserRefreshGraceReplay})"
proof -
  have s1: "s1 = run_ops (browser_step lib) [BrRotate es r] s" using assms(9) by simp
  have reach: "reachable_browser lib s1" unfolding s1 by (rule reachable_browser_run [OF assms(1)])
  obtain reason cs' es' n where rv:
    "s1 = s\<lparr>bs_families := put (rt_familyID token) (mark_revoked reason (rf_Now r) f) (bs_families s), bs_credentials := cs'\<rparr>"
    "revokeFamilyCredentials lib es' (bf_orgID f) (rt_familyID token) (rf_ActorID r) reason (bs_credentials s) = (Inr n, cs')"
    "ro_Decision out \<in> {BrowserRefreshReuseRevoked, BrowserRefreshFamilyRevoked}" "ro_Credential out = None"
    using assms(2-9) by (rule stale_refresh_revokes)
  have fam: "map_of (bs_families s1) (rt_familyID token) = Some (mark_revoked reason (rf_Now r) f)" using rv(1) by (simp add: map_simps)
  have "(\<exists>c'. map_of (cs_byID (bs_credentials t)) cid = Some c' \<and> cc_RevokedAt (cr_Metadata c') \<noteq> None) \<and>
      (\<forall>e m. FindByTokenHash e (cr_TokenHash c) (bs_credentials t) \<noteq> Inr m)"
    if c: "map_of (cs_byID (bs_credentials s)) cid = Some c" "cp_FamilyID (cc_Provenance (cr_Metadata c)) = rt_familyID token"
      "normalizeIdentifier ''organization'' (bf_orgID f) = Inr (cc_OrgID (cr_Metadata c))" for cid c
    using family_credential_dead [OF assms(1) reach rv(2) _ c, where ops = ops] rv(1) by (simp add: t_def)
  moreover have "ro_Decision out' \<notin> {BrowserRefreshRotated, BrowserRefreshGraceReplay}"
    if "RotateBrowserRefresh lib es' r' t = (Inr out', s2)" "ro_FamilyID out' = rt_familyID token" for es' r' out' s2
    using revoked_family_grants_nothing [OF reach fam] that by (simp add: t_def)
  ultimately show ?thesis using rv(3,4) by blast
qed

text \<open>The same token presented again an hour later ends the family, and the first access token with it.\<close>

theorem reused_token_ends_the_family_witness:
  "\<exists>s out. reachable_browser ex_libs s \<and>
    fst (RotateBrowserRefresh ex_libs (\<lambda>_. ex_env (3 * Hour)) (ex_refresh (3 * Hour) (CHR ''6'')) s) = Inr out \<and>
    (\<forall>e m. FindByTokenHash e (ex_hash (CHR ''1''))
       (bs_credentials (snd (RotateBrowserRefresh ex_libs (\<lambda>_. ex_env (3 * Hour)) (ex_refresh (3 * Hour) (CHR ''6'')) s))) \<noteq> Inr m)"
proof -
  define s where "s = run_ops (browser_step ex_libs) [BrRotate (\<lambda>_. ex_env (2 * Hour)) (ex_refresh (2 * Hour) (CHR ''5''))] ex_families"
  let ?r = "ex_refresh (3 * Hour) (CHR ''6'')"
  let ?R = "RotateBrowserRefresh ex_libs (\<lambda>_. ex_env (3 * Hour)) ?r s"
  have reach: "reachable_browser ex_libs s" unfolding s_def by (rule reachable_browser_run [OF reachable_ex_families])
  have "map_option (\<lambda>u. (rt_familyID u, rt_consumedAt u)) (map_of (bs_tokens s) (rf_PresentedHash ?r)) = Some (''fam1'', Some (2 * Hour))"
    unfolding s_def by code_simp
  then obtain u where u: "map_of (bs_tokens s) (rf_PresentedHash ?r) = Some u" "rt_familyID u = ''fam1''" "rt_consumedAt u = Some (2 * Hour)" by auto
  have "map_option (\<lambda>f. (bf_orgID f, bf_clientID f = rf_ClientID ?r, bf_revokedAt f, rf_Now ?r < bf_expiresAt f)) (map_of (bs_families s) ''fam1'')
    = Some (''org1'', True, None, True)" unfolding s_def by code_simp
  then obtain f where f: "map_of (bs_families s) (rt_familyID u) = Some f" "bf_orgID f = ''org1''" "bf_clientID f = rf_ClientID ?r"
    "bf_revokedAt f = None" "rf_Now ?r < bf_expiresAt f" using u(2) by auto
  have g: "\<not> BrowserRefreshInGrace (2 * Hour) (rf_Now ?r) (rf_Grace ?r)" by code_simp
  have "map_sum (\<lambda>_. ()) (\<lambda>_. ()) (fst ?R) = Inr ()" unfolding s_def by code_simp
  then obtain out where R: "?R = (Inr out, snd ?R)" by (rule result_pair)
  have "map_option (\<lambda>r. (cp_FamilyID (cc_Provenance (cr_Metadata r)), cc_OrgID (cr_Metadata r), cr_TokenHash r)) (map_of (cs_byID (bs_credentials s)) ''c1'')
      = Some (''fam1'', ''org1'', ex_hash (CHR ''1''))" unfolding s_def by code_simp
  then obtain c where c: "map_of (cs_byID (bs_credentials s)) ''c1'' = Some c" "cp_FamilyID (cc_Provenance (cr_Metadata c)) = ''fam1''"
    "cc_OrgID (cr_Metadata c) = ''org1''" "cr_TokenHash c = ex_hash (CHR ''1'')" by auto
  have "normalizeIdentifier ''organization'' ''org1'' = Inr ''org1''" by code_simp
  then have n: "normalizeIdentifier ''organization'' (bf_orgID f) = Inr (cc_OrgID (cr_Metadata c))" using f(2) c(3) by simp
  have k: "cp_FamilyID (cc_Provenance (cr_Metadata c)) = rt_familyID u" using u(2) c(2) by simp
  have run: "snd ?R = run_ops (browser_step ex_libs) [] (snd ?R)" by simp
  from reused_token_ends_the_family [OF reach u(1) f(1) u(3) g f(3-5) R run] c(1) k n
  have "\<forall>e m. FindByTokenHash e (ex_hash (CHR ''1'')) (bs_credentials (snd ?R)) \<noteq> Inr m" unfolding c(4) [symmetric] by blast
  moreover have "fst ?R = Inr out" using R by (metis fst_conv)
  ultimately show ?thesis using reach by blast
qed

section \<open>The successor\<close>

text \<open>
  A rotation never gives the successor more than its source had: the same organization, scopes, repositories,
  resource, approving user, client, session and family, the class of browser credentials, and an expiry
  that passes neither the end of the family nor the lifetime asked for; and it is in the store.
\<close>

theorem successor_stays_within_the_family:
  assumes "reachable_browser lib s" "RotateBrowserRefresh lib es r s = (Inr out, s1)" "ro_Decision out = BrowserRefreshRotated"
  shows "\<exists>token f source c x rec. map_of (bs_tokens s) (rf_PresentedHash r) = Some token \<and> map_of (bs_families s) (rt_familyID token) = Some f \<and>
     GetByID (es 1) (bf_orgID f) (rt_credentialID token) (bs_credentials s) = Inr source \<and> cc_RevokedAt source = None \<and>
     ro_Credential out = Some c \<and> cc_OrgID c = cc_OrgID source \<and> cc_Scopes c = cc_Scopes source \<and>
     cc_RepositoryScopes c = cc_RepositoryScopes source \<and> cc_Resource c = cc_Resource source \<and>
     cc_Provenance c = (cc_Provenance source)\<lparr>cp_ClientClass := ClientClassBrowser, cp_FamilyExpiresAt := Some (bf_expiresAt f)\<rparr> \<and>
     cc_ExpiresAt c = Some x \<and> x \<le> bf_expiresAt f \<and> x \<le> rf_Now r + rf_AccessLifetime r \<and> env_now (es 2) < x \<and>
     map_of (cs_byID (bs_credentials s1)) (cc_CredentialID c) = Some rec \<and> cr_Metadata rec = c"
  using assms(2,3)
proof (rule rotated_refresh)
  fix token f source c cs'
  assume r: "map_of (bs_tokens s) (rf_PresentedHash r) = Some token" "map_of (bs_families s) (rt_familyID token) = Some f"
    "GetByID (es 1) (bf_orgID f) (rt_credentialID token) (bs_credentials s) = Inr source" "cc_RevokedAt source = None"
    "ro_Credential out = Some c"
    "CreateCredential lib (es 2) (BrowserRefreshSuccessorInput r source (bf_expiresAt f) (rf_Now r)) (bs_credentials s) = (Inr c, cs')"
    "s1 = s\<lparr>bs_credentials := cs', bs_tokens := put (rf_SuccessorRefresh r) \<lparr>rt_familyID = rt_familyID token, rt_credentialID = cc_CredentialID c,
        rt_consumedAt = None, rt_successorHash = '''', rt_seed = '''', rt_accessHash = rf_SuccessorTokenHash r\<rparr>
        (put (rf_PresentedHash r) (token\<lparr>rt_consumedAt := Some (rf_Now r), rt_successorHash := rf_SuccessorRefresh r,
           rt_seed := rf_Seed r\<rparr>) (bs_tokens s))\<rparr>"
  have wf: "store_ok (bs_credentials s)" "all_wf (bs_credentials s)" using reachable_creds_wf [OF reachable_browser_creds [OF assms(1)]] by simp_all
  obtain q where q: "map_of (cs_byID (bs_credentials s)) (cc_CredentialID source) = Some q" "cr_Metadata q = source" "cc_OrgID source = TrimSpace (bf_orgID f)"
    using r(3) wf(1) by (rule GetByID_record) blast
  have src: "scopes_ok (cc_Scopes source)" "repositories_ok (cc_RepositoryScopes source)" "list_all trimmed [cc_Resource source,
      cp_ClientID (cc_Provenance source), cp_ApprovingUserID (cc_Provenance source), cp_SessionID (cc_Provenance source), cp_FamilyID (cc_Provenance source)]"
    using wf(2) q(1,2) by (auto simp: all_wf_def credential_wf_def Let_def)
  from r(6) show ?thesis
  proof (cases rule: create_cases)
    case (created n rows)
    note nf = normalizeCreate_issued [OF created(1), unfolded BrowserRefreshSuccessorInput_def, simplified]
    have c: "c = credentialFromCreate n (env_now (es 2))" using created(2) by simp
    have org: "ci_OrgID n = cc_OrgID source" using nf(4) q(3) by (auto simp: normalizeIdentifier_def dest: normalizeText_trimmed)
    have prov: "cc_Provenance c = (cc_Provenance source)\<lparr>cp_ClientClass := ClientClassBrowser, cp_FamilyExpiresAt := Some (bf_expiresAt f)\<rparr>"
      using nf(5-9,11,13) src(3) by (simp add: c credentialFromCreate_def trimmed_def)
    have x: "cc_ExpiresAt c = Some (BrowserRefreshSuccessorExpiry (rf_Now r) (rf_AccessLifetime r) (bf_expiresAt f))"
      using nf(10) by (simp add: c credentialFromCreate_def)
    have later: "env_now (es 2) < BrowserRefreshSuccessorExpiry (rf_Now r) (rf_AccessLifetime r) (bf_expiresAt f)"
      using created(5) nf(10) by simp
    have stored: "map_of (cs_byID (bs_credentials s1)) (cc_CredentialID c) = Some \<lparr>cr_Metadata = c, cr_TokenHash = ci_TokenHash n,
        cr_CreatedBy = ci_ActorID n, cr_RotatedAt = None, cr_LastUsedIP = '''', cr_LastUsedUserAgent = '''', cr_IssuanceProvenance = ci_IssuanceProvenance n\<rparr>"
      using created(7) r(7) by (simp add: c credentialFromCreate_def map_simps)
    have rest: "cc_OrgID c = cc_OrgID source" "cc_Scopes c = cc_Scopes source" "cc_RepositoryScopes c = cc_RepositoryScopes source" "cc_Resource c = cc_Resource source"
      using nf(5,14,15) src org by (simp_all add: c credentialFromCreate_def trimmed_def)
    have "BrowserRefreshSuccessorExpiry (rf_Now r) (rf_AccessLifetime r) (bf_expiresAt f) \<le> bf_expiresAt f"
      "BrowserRefreshSuccessorExpiry (rf_Now r) (rf_AccessLifetime r) (bf_expiresAt f) \<le> rf_Now r + rf_AccessLifetime r"
      by (simp_all add: BrowserRefreshSuccessorExpiry_def Let_def)
    with r(1-5) rest prov x later stored show ?thesis by (metis credential_record.select_convs(1))
  qed simp
qed

theorem successor_stays_within_the_family_witness:
  "\<exists>out. fst (RotateBrowserRefresh ex_libs (\<lambda>_. ex_env (2 * Hour)) (ex_refresh (2 * Hour) (CHR ''5'')) ex_families) = Inr out \<and>
    (\<exists>c x. ro_Credential out = Some c \<and> cc_ExpiresAt c = Some x \<and> x \<le> 3 * Hour)"
proof -
  let ?R = "RotateBrowserRefresh ex_libs (\<lambda>_. ex_env (2 * Hour)) (ex_refresh (2 * Hour) (CHR ''5'')) ex_families"
  have "map_sum (\<lambda>_. ()) ro_Decision (fst ?R) = Inr BrowserRefreshRotated" by code_simp
  then obtain out where R: "?R = (Inr out, snd ?R)" "ro_Decision out = BrowserRefreshRotated" by (rule result_pair)
  have "rf_Now (ex_refresh (2 * Hour) (CHR ''5'')) + rf_AccessLifetime (ex_refresh (2 * Hour) (CHR ''5'')) = 3 * Hour" by code_simp
  with successor_stays_within_the_family [OF reachable_ex_families R]
  have "\<exists>c x. ro_Credential out = Some c \<and> cc_ExpiresAt c = Some x \<and> x \<le> 3 * Hour" by auto
  moreover have "fst ?R = Inr out" using R(1) by (metis fst_conv)
  ultimately show ?thesis by blast
qed

section \<open>An interrupted revocation\<close>

text \<open>
  What the code does when a sign-out is interrupted. The family is marked revoked before its credentials are;
  when the request's context ends in between, the sign-out fails, yet its retry answers that the family is
  revoked already and revokes nothing, and the access token of the family still authenticates.
\<close>

theorem interrupted_sign_out_leaves_live_credentials:
  "let s1 = snd (RevokeBrowserFamilyByToken ex_libs (ex_ends (2 * Hour)) ''t0'' ''web'' ''user1'' (2 * Hour) ex_families);
       (retry, s2) = RevokeBrowserFamilyByToken ex_libs (\<lambda>_. ex_env (3 * Hour)) ''t0'' ''web'' ''user1'' (3 * Hour) s1
   in fst (RevokeBrowserFamilyByToken ex_libs (ex_ends (2 * Hour)) ''t0'' ''web'' ''user1'' (2 * Hour) ex_families) = Inl (BrCredential ErrCanceled) \<and>
      map_sum id vo_Decision retry = Inr BrowserRefreshFamilyRevoked \<and> map_sum id vo_RevokedCredentials retry = Inr 0 \<and>
      map_sum id cc_CredentialID (FindByTokenHash (ex_env (3 * Hour)) (ex_hash (CHR ''1'')) (bs_credentials s2)) = Inr ''c1''"
  by code_simp

end
