(* ===== verification/Browser_Service.thy ===== *)
theory Browser_Service
  imports Credential_Service Browser_Properties
begin

text \<open>
  The browser refresh grant, \<^verbatim>\<open>src/internal/auth/browser_refresh.go\<close>, over the store of token families. HMAC-SHA256 is the
  parameter \<open>hmac\<close> (key, message, 32 bytes); random bytes, the generated credential id and the clock are arguments.
\<close>

section \<open>Tokens\<close>

definition RefreshTokenPrefix :: string where "RefreshTokenPrefix = ''acrrt_''"
definition BrowserRefreshGrace :: duration where "BrowserRefreshGrace = 30 * Second"
definition refreshTokenBytes :: nat where "refreshTokenBytes = 32"
definition refreshSeedBytes :: nat where "refreshSeedBytes = 32"
definition browserRefreshActor :: string where "browserRefreshActor = ''oauth_refresh_grant''"

definition b64_EncodedLen :: "nat \<Rightarrow> nat" where "b64_EncodedLen n = (n * 8 + 5) div 6"

definition ValidRefreshTokenShape :: "string \<Rightarrow> bool" where
  "ValidRefreshTokenShape token =
    (if \<not> has_prefix token RefreshTokenPrefix then False
     else let secret = drop (length RefreshTokenPrefix) token
          in if length secret \<noteq> b64_EncodedLen refreshTokenBytes then False else b64_decode False secret \<noteq> None)"

definition HashRefreshToken :: "libs \<Rightarrow> string \<Rightarrow> string" where "HashRefreshToken lib token = HashToken lib token"

type_synonym hmac = "string \<Rightarrow> string \<Rightarrow> nat list"

definition refresh_mac :: "hmac \<Rightarrow> string \<Rightarrow> string \<Rightarrow> string \<Rightarrow> nat list" where
  "refresh_mac hmac presented seed label = hmac presented (''acr-browser-refresh/v1/'' @ label @ ''/'' @ seed)"

definition deriveRefreshSuccessor :: "hmac \<Rightarrow> string \<Rightarrow> string \<Rightarrow> string \<times> string" where
  "deriveRefreshSuccessor hmac presented seed =
    (TokenPrefix @ b64_encode (refresh_mac hmac presented seed ''access''), RefreshTokenPrefix @ b64_encode (refresh_mac hmac presented seed ''refresh''))"

section \<open>The service\<close>

datatype refresh_error = RfNotBrowser | RfRandom | RfStore browser_error | errRefreshDerivation

record browser_refresh =
  br_Decision :: browser_decision
  br_Issued :: "issued_credential option"
  br_RefreshToken :: string

type_synonym 'a refresh_result = "(refresh_error + 'a) \<times> browser_store"

definition Refresh_Start :: "libs \<Rightarrow> env \<Rightarrow> nat list option \<Rightarrow> issued_credential \<Rightarrow> browser_store \<Rightarrow> string refresh_result" where
  "Refresh_Start lib e random issued s =
    (let c = is_Credential issued; provenance = cc_Provenance c
     in case cp_FamilyExpiresAt provenance of
          None \<Rightarrow> (Inl RfNotBrowser, s)
        | Some familyExpiresAt \<Rightarrow>
            if cp_ClientClass provenance \<noteq> ClientClassBrowser \<or> cp_FamilyID provenance = '''' then (Inl RfNotBrowser, s)
            else case random of
              None \<Rightarrow> (Inl RfRandom, s)
            | Some secret \<Rightarrow>
                let token = RefreshTokenPrefix @ b64_encode secret
                in (case StartBrowserFamily e \<lparr>fs_OrgID = cc_OrgID c, fs_FamilyID = cp_FamilyID provenance, fs_ClientID = cp_ClientID provenance,
                       fs_CredentialID = cc_CredentialID c, fs_RefreshTokenHash = HashRefreshToken lib token, fs_CreatedAt = cc_CreatedAt c,
                       fs_ExpiresAt = familyExpiresAt\<rparr> s of
                      (Inl err, s1) \<Rightarrow> (Inl (RfStore err), s1)
                    | (Inr _, s1) \<Rightarrow> (Inr token, s1)))"

definition refresh_rotation_of :: "libs \<Rightarrow> hmac \<Rightarrow> time \<Rightarrow> string \<Rightarrow> string \<Rightarrow> string \<Rightarrow> string \<Rightarrow> refresh_rotation" where
  "refresh_rotation_of lib hmac now seed credentialID presented clientID =
    (let (access, refresh) = deriveRefreshSuccessor hmac presented seed
     in \<lparr>rf_PresentedHash = HashRefreshToken lib presented, rf_ClientID = clientID, rf_Now = now, rf_Grace = BrowserRefreshGrace,
         rf_AccessLifetime = BrowserCredentialLifetime, rf_Seed = seed, rf_SuccessorCredential = credentialID,
         rf_SuccessorTokenHash = HashToken lib access, rf_SuccessorPrefix = DisplayPrefix access,
         rf_SuccessorRefresh = HashRefreshToken lib refresh, rf_ActorID = browserRefreshActor\<rparr>)"

definition plain_refresh :: "browser_decision \<Rightarrow> browser_refresh" where
  "plain_refresh d = \<lparr>br_Decision = d, br_Issued = None, br_RefreshToken = ''''\<rparr>"

definition successor_of :: "libs \<Rightarrow> refresh_outcome \<Rightarrow> string \<times> string \<Rightarrow> refresh_error + browser_refresh" where
  "successor_of lib outcome tokens =
    (if HashToken lib (fst tokens) \<noteq> ro_SuccessorTokenHash outcome \<or> HashRefreshToken lib (snd tokens) \<noteq> ro_SuccessorRefreshHash outcome
     then Inl errRefreshDerivation
     else Inr \<lparr>br_Decision = ro_Decision outcome,
       br_Issued = map_option (\<lambda>c. \<lparr>is_Credential = c, is_Token = fst tokens\<rparr>) (ro_Credential outcome), br_RefreshToken = snd tokens\<rparr>)"

definition Refresh ::
  "libs \<Rightarrow> hmac \<Rightarrow> (nat \<Rightarrow> env) \<Rightarrow> time \<Rightarrow> string option \<Rightarrow> string option \<Rightarrow> string \<Rightarrow> string \<Rightarrow> browser_store \<Rightarrow> browser_refresh refresh_result" where
  "Refresh lib hmac es now random generatedID presented clientID s =
    (if \<not> ValidRefreshTokenShape presented \<or> clientID = '''' then (Inr (plain_refresh BrowserRefreshUnknownToken), s)
     else case random of
       None \<Rightarrow> (Inl RfRandom, s)
     | Some seed \<Rightarrow>
         (case generatedID of
            None \<Rightarrow> (Inl RfRandom, s)
          | Some credentialID \<Rightarrow>
              (case RotateBrowserRefresh lib es (refresh_rotation_of lib hmac now seed credentialID presented clientID) s of
                 (Inl err, s1) \<Rightarrow> (Inl (RfStore err), s1)
               | (Inr outcome, s1) \<Rightarrow>
                   (case ro_Decision outcome of
                      BrowserRefreshRotated \<Rightarrow> (successor_of lib outcome (deriveRefreshSuccessor hmac presented seed), s1)
                    | BrowserRefreshGraceReplay \<Rightarrow> (successor_of lib outcome (deriveRefreshSuccessor hmac presented (ro_Seed outcome)), s1)
                    | d \<Rightarrow> (Inr (plain_refresh d), s1)))))"

definition RevokeFamily ::
  "libs \<Rightarrow> (nat \<Rightarrow> env) \<Rightarrow> time \<Rightarrow> string \<Rightarrow> string \<Rightarrow> browser_store \<Rightarrow> browser_decision refresh_result" where
  "RevokeFamily lib es now presented clientID s =
    (if \<not> ValidRefreshTokenShape presented \<or> clientID = '''' then (Inr BrowserRefreshUnknownToken, s)
     else case RevokeBrowserFamilyByToken lib es (HashRefreshToken lib presented) clientID browserRefreshActor now s of
       (Inl err, s1) \<Rightarrow> (Inl (RfStore err), s1)
     | (Inr outcome, s1) \<Rightarrow> (Inr (vo_Decision outcome), s1))"

end
