(* ===== verification/OAuth_Client.thy ===== *)
theory OAuth_Client
  imports Device_Flow Browser_Service
begin

text \<open>
  The first half of \<^verbatim>\<open>src/internal/auth/oauth.go\<close>: scopes, refusals, the configuration of the OAuth service, and how a
  client registers and is identified. Parameters: \<open>libs\<close> as before and the record \<open>net\<close> with what is used of
  \<^verbatim>\<open>net/url\<close> and \<^verbatim>\<open>strings\<close> besides (\<open>EqualFold\<close>, the query of a URL, a URL with another query as text). The answer of
  the fetcher of client metadata to a call is an argument of that call.
\<close>

section \<open>Scopes\<close>

fun Join :: "string list \<Rightarrow> string \<Rightarrow> string" where
  "Join [] sep = ''''"
| "Join [v] sep = v"
| "Join (v # w # vs) sep = v @ sep @ Join (w # vs) sep"

definition oauthScopes :: "string list" where "oauthScopes = [''context:read'', ''evidence:read'', ''data:read'']"
definition OAuthScope :: string where "OAuthScope = ''context:read'' @ '' '' @ ''evidence:read''"

definition oauthApprovalScopes :: "string \<Rightarrow> string list" where
  "oauthApprovalScopes normalizedScope = oauthDefaultApprovalScopes @ (if ''data:read'' \<in> set (Fields normalizedScope) then [''data:read''] else [])"

definition NormalizeOAuthScope :: "string \<Rightarrow> string option" where
  "NormalizeOAuthScope raw =
    (let requested = Fields raw
     in if requested = [] then Some OAuthScope
        else if \<not> list_all (\<lambda>scope. scope \<in> set oauthScopes) requested then None
        else Some (Join (filter (\<lambda>scope. scope \<in> set requested) oauthScopes) '' ''))"

section \<open>Refusals\<close>

record refusal =
  oe_Code :: string
  oe_Outcome :: string
  oe_Redirectable :: bool
  oe_RedirectURL :: string
  oe_RedirectMismatch :: "(string list \<times> string) option"
  oe_RetryAfter :: duration
  oe_ClientRefusal :: string

datatype oauth_cause = OcRandom | OcStore oauth_error | OcFlow flow_error | OcRefresh refresh_error | OcRedirect | OcBind

datatype oauth_failure = OAuthError refusal | ErrOAuthUnavailable oauth_cause

definition refusal_of :: "string \<Rightarrow> string \<Rightarrow> refusal" where
  "refusal_of code outcome = \<lparr>oe_Code = code, oe_Outcome = outcome, oe_Redirectable = False, oe_RedirectURL = '''', oe_RedirectMismatch = None,
     oe_RetryAfter = 0, oe_ClientRefusal = ''''\<rparr>"

definition oauthError :: "string \<Rightarrow> string \<Rightarrow> oauth_failure" where
  "oauthError code outcome = OAuthError (refusal_of code outcome)"

definition client_refusal :: "string \<Rightarrow> string \<Rightarrow> string \<Rightarrow> oauth_failure" where
  "client_refusal code outcome refused = OAuthError ((refusal_of code outcome)\<lparr>oe_ClientRefusal := refused\<rparr>)"

section \<open>Configuration\<close>

record net =
  n_EqualFold :: "string \<Rightarrow> string \<Rightarrow> bool"
  n_Query :: "url \<Rightarrow> (string, string list) gomap"
  n_Encoded :: "url \<Rightarrow> (string, string list) gomap \<Rightarrow> string"

definition aliasPath :: "string \<Rightarrow> bool" where
  "aliasPath p \<longleftrightarrow> p = '''' \<or> p = ''/'' \<or> p = ''/mcp''"

definition SameResource :: "url_parser \<Rightarrow> net \<Rightarrow> string \<Rightarrow> string \<Rightarrow> bool" where
  "SameResource parse n a b =
    (if a = b then True
     else case (parse a, parse b) of
       (Some ua, Some ub) \<Rightarrow>
         if u_Host ua = '''' \<or> u_Scheme ua \<noteq> u_Scheme ub \<or> \<not> n_EqualFold n (u_Host ua) (u_Host ub) then False
         else if u_RawQuery ua \<noteq> '''' \<or> u_RawQuery ub \<noteq> '''' \<or> u_Fragment ua \<noteq> '''' \<or> u_Fragment ub \<noteq> '''' \<or> u_User ua \<or> u_User ub then False
         else aliasPath (u_Path ua) \<and> aliasPath (u_Path ub)
     | _ \<Rightarrow> False)"

record oauth_config =
  cf_Issuer :: string
  cf_Resources :: "string list"
  cf_ClientMetadata :: bool  \<comment> \<open>a fetcher is given\<close>
  cf_BrowserClients :: "string list"
  cf_DevBrowserRedirectURIs :: "string list"
  cf_BrowserRefresh :: bool  \<comment> \<open>a store is given\<close>

record resolved_client =
  rc_ClientID :: string
  rc_Kind :: string
  rc_Name :: string
  rc_RedirectURIs :: "string list"
  rc_Browser :: bool

record oauth_service =
  so_issuer :: string
  so_resources :: "string list"
  so_metadata :: bool
  so_browserClients :: "string list"
  so_devBrowser :: "resolved_client option"
  so_browserResource :: string
  so_refresh :: bool

definition DevBrowserClientID :: string where "DevBrowserClientID = ''https://localhost/acr/dev-browser-client''"
definition devBrowserClientName :: string where "devBrowserClientName = ''Dev Health (development)''"

definition devBrowserRedirectURI :: "url_parser \<Rightarrow> string \<Rightarrow> bool" where
  "devBrowserRedirectURI parse value =
    (if \<not> ValidOAuthRedirectURI parse value then False
     else case parse value of
       None \<Rightarrow> False
     | Some u \<Rightarrow>
         if u_Scheme u \<noteq> ''http'' \<or> u_User u \<or> u_RawQuery u \<noteq> '''' \<or> u_ForceQuery u \<or> u_Fragment u \<noteq> '''' \<or> url_Port u = '''' then False
         else if \<not> oauth_loopback_host (url_Hostname u) then False
         else u_Path u \<noteq> '''' \<and> u_Path u \<noteq> ''/'')"

definition ValidOAuthIssuer :: "url_parser \<Rightarrow> string \<Rightarrow> bool" where
  "ValidOAuthIssuer parse value =
    (case parse value of
       None \<Rightarrow> False
     | Some u \<Rightarrow>
         if u_Host u = '''' \<or> u_User u \<or> u_RawQuery u \<noteq> '''' \<or> u_Fragment u \<noteq> '''' \<or> (u_Path u \<noteq> '''' \<and> u_Path u \<noteq> ''/'') \<or> has_suffix value ''/'' then False
         else if u_Scheme u = ''https'' then True
         else if u_Scheme u = ''http'' then oauth_loopback_host (url_Hostname u) else False)"

definition ValidOAuthConsentURL :: "url_parser \<Rightarrow> string \<Rightarrow> bool" where
  "ValidOAuthConsentURL parse value =
    (if CHR ''?'' \<in> set value \<or> CHR ''#'' \<in> set value then False
     else case parse value of
       None \<Rightarrow> False
     | Some u \<Rightarrow>
         if u_Host u = '''' \<or> u_User u \<or> u_RawQuery u \<noteq> '''' \<or> u_ForceQuery u \<or> u_Fragment u \<noteq> '''' \<or> u_Path u = '''' \<or> u_Path u = ''/'' then False
         else if u_Scheme u = ''https'' then True
         else if u_Scheme u = ''http'' then oauth_loopback_host (url_Hostname u) else False)"

text \<open>A loop that collects values, each acceptable and new.\<close>

fun collect_new :: "(string \<Rightarrow> bool) \<Rightarrow> string list \<Rightarrow> string list \<Rightarrow> string list option" where
  "collect_new ok [] acc = Some acc"
| "collect_new ok (v # vs) acc = (if \<not> ok v \<or> v \<in> set acc then None else collect_new ok vs (acc @ [v]))"

definition configureBrowserClients :: "url_parser \<Rightarrow> net \<Rightarrow> oauth_config \<Rightarrow> oauth_service \<Rightarrow> oauth_service option" where
  "configureBrowserClients parse n cfg s =
    (if cf_BrowserClients cfg = [] \<and> cf_DevBrowserRedirectURIs cfg = [] then Some s
     else case collect_new (\<lambda>clientID. \<not> (\<not> so_metadata s \<or> \<not> ValidOAuthClientMetadataURL parse clientID \<or> clientID = DevBrowserClientID))
            (cf_BrowserClients cfg) [] of
       None \<Rightarrow> None
     | Some clients \<Rightarrow>
         (case collect_new (devBrowserRedirectURI parse) (cf_DevBrowserRedirectURIs cfg) [] of
            None \<Rightarrow> None
          | Some redirects \<Rightarrow>
              let dev = (if cf_DevBrowserRedirectURIs cfg = [] then None
                         else Some \<lparr>rc_ClientID = DevBrowserClientID, rc_Kind = OAuthClientKindMetadataDocument, rc_Name = devBrowserClientName,
                           rc_RedirectURIs = redirects, rc_Browser = False\<rparr>)
              in if so_issuer s \<notin> set (so_resources s) then None
                 else if list_ex (\<lambda>resource. resource \<noteq> so_issuer s \<and> SameResource parse n resource (so_issuer s)) (so_resources s) then None
                 else if \<not> cf_BrowserRefresh cfg then None
                 else Some (s\<lparr>so_browserClients := clients, so_devBrowser := dev, so_browserResource := so_issuer s, so_refresh := True\<rparr>)))"

text \<open>\<open>given\<close>: the OAuth store and the device flow are not nil.\<close>

definition NewOAuthService :: "url_parser \<Rightarrow> net \<Rightarrow> bool \<Rightarrow> oauth_config \<Rightarrow> oauth_service option" where
  "NewOAuthService parse n given cfg =
    (if \<not> given then None
     else if \<not> ValidOAuthIssuer parse (cf_Issuer cfg) \<or> cf_Resources cfg = [] then None
     else case collect_new (ValidOAuthResource parse) (cf_Resources cfg) [] of
       None \<Rightarrow> None
     | Some resources \<Rightarrow> configureBrowserClients parse n cfg
         \<lparr>so_issuer = cf_Issuer cfg, so_resources = resources, so_metadata = cf_ClientMetadata cfg, so_browserClients = [], so_devBrowser = None,
          so_browserResource = '''', so_refresh = False\<rparr>)"

definition RefreshGrantSupported :: "oauth_service \<Rightarrow> bool" where "RefreshGrantSupported s = so_refresh s"

definition isBrowserClient :: "oauth_service \<Rightarrow> string \<Rightarrow> bool" where
  "isBrowserClient s clientID =
    (if so_devBrowser s \<noteq> None \<and> clientID = DevBrowserClientID then True else clientID \<in> set (so_browserClients s))"

definition BrowserClientID :: "oauth_service \<Rightarrow> string \<Rightarrow> string option" where
  "BrowserClientID s clientID =
    (if so_devBrowser s \<noteq> None \<and> clientID = DevBrowserClientID then Some DevBrowserClientID
     else find (\<lambda>configured. configured = clientID) (so_browserClients s))"

section \<open>Registering\<close>

definition OAuthDeviceCodeGrantType :: string where "OAuthDeviceCodeGrantType = ''urn:ietf:params:oauth:grant-type:device_code''"

record registration_request =
  rg_ClientName :: string
  rg_RedirectURIs :: "string list"
  rg_GrantTypes :: "string list"
  rg_ResponseTypes :: "string list"
  rg_TokenEndpointAuthMethod :: string

fun grants_loop :: "string list \<Rightarrow> bool \<Rightarrow> bool \<Rightarrow> (bool \<times> bool) option" where
  "grants_loop [] wantsCode wantsDevice = Some (wantsCode, wantsDevice)"
| "grants_loop (grant # rest) wantsCode wantsDevice =
    (if grant = ''authorization_code'' \<or> grant = ''refresh_token'' then grants_loop rest True wantsDevice
     else if grant = OAuthDeviceCodeGrantType then grants_loop rest wantsCode True else None)"

definition Register ::
  "url_parser \<Rightarrow> env \<Rightarrow> time \<Rightarrow> string option \<Rightarrow> registration_request \<Rightarrow> oauth_store \<Rightarrow> (oauth_failure + oauth_client) \<times> oauth_store" where
  "Register parse e now random q s =
    (let bad = oauthError ''invalid_client_metadata'' ''invalid_client_metadata'';
         bad_uri = oauthError ''invalid_redirect_uri'' ''invalid_redirect_uri''
     in if rg_TokenEndpointAuthMethod q \<noteq> '''' \<and> rg_TokenEndpointAuthMethod q \<noteq> ''none'' then (Inl bad, s)
        else case grants_loop (rg_GrantTypes q) (rg_GrantTypes q = []) False of
          None \<Rightarrow> (Inl bad, s)
        | Some (wantsCode, wantsDevice) \<Rightarrow>
            if \<not> wantsCode \<and> \<not> wantsDevice then (Inl bad, s)
            else if list_ex (\<lambda>t. t \<noteq> ''code'') (rg_ResponseTypes q) then (Inl bad, s)
            else case random of
              None \<Rightarrow> (Inl (ErrOAuthUnavailable OcRandom), s)
            | Some bytes \<Rightarrow>
                let client = \<lparr>oc_ClientID = NewDynamicOAuthClientID bytes, oc_ClientName = TrimSpace (rg_ClientName q),
                              oc_RedirectURIs = rg_RedirectURIs q, oc_CreatedAt = now\<rparr>
                in if oc_RedirectURIs client = [] \<and> wantsCode then (Inl bad_uri, s)
                   else if list_ex (\<lambda>redirect. \<not> ValidOAuthRedirectURI parse redirect) (oc_RedirectURIs client) then (Inl bad_uri, s)
                   else if \<not> ValidateOAuthClient parse client then (Inl bad, s)
                   else (case RegisterClient parse e client s of
                     (Inl err, s1) \<Rightarrow> (Inl (ErrOAuthUnavailable (OcStore err)), s1)
                   | (Inr stored, s1) \<Rightarrow> (Inr stored, s1)))"

section \<open>Identifying a client\<close>

record client_metadata =
  cm_ClientID :: string
  cm_ClientName :: string
  cm_RedirectURIs :: "string list"
  cm_TokenEndpointAuthMethod :: string
  cm_TokenEndpointAuthMethodsSupported :: "string list option"  \<comment> \<open>\<open>None\<close>: nil\<close>

datatype fetch_error = ClientMetadataError string | FetchError

type_synonym fetched = "fetch_error + client_metadata"

definition ClientRefusalVocabulary :: "string list" where
  "ClientRefusalVocabulary = [''none'', ''unknown_client'', ''not_https'', ''unsupported_client_id'', ''fetch_failed'', ''private_address'',
     ''too_large'', ''invalid_document'', ''bad_client_id'', ''invalid_redirect_uris'', ''auth_method_unsupported'', ''redirect_uri_mismatch'']"

definition publicTokenEndpointAuth :: "client_metadata \<Rightarrow> bool" where
  "publicTokenEndpointAuth doc =
    (case cm_TokenEndpointAuthMethodsSupported doc of
       Some methods \<Rightarrow> ''none'' \<in> set methods
     | None \<Rightarrow> cm_TokenEndpointAuthMethod doc = '''' \<or> cm_TokenEndpointAuthMethod doc = ''none'')"

definition unresolvedClientRefusal :: "url_parser \<Rightarrow> string \<Rightarrow> string" where
  "unresolvedClientRefusal parse clientID =
    (case parse clientID of
       None \<Rightarrow> ''unknown_client''
     | Some u \<Rightarrow> if u_Scheme u = ''https'' then ''unsupported_client_id''
                 else if u_Scheme u \<noteq> '''' \<and> u_Host u \<noteq> '''' then ''not_https'' else ''unknown_client'')"

definition fetch_refusal :: "fetch_error \<Rightarrow> string" where
  "fetch_refusal err =
    (case err of ClientMetadataError r \<Rightarrow> if r \<noteq> ''none'' \<and> r \<in> set ClientRefusalVocabulary then r else ''fetch_failed'' | FetchError \<Rightarrow> ''fetch_failed'')"

definition metadata_client :: "url_parser \<Rightarrow> oauth_service \<Rightarrow> string \<Rightarrow> client_metadata \<Rightarrow> oauth_failure + resolved_client" where
  "metadata_client parse sv clientID doc =
    (let refuse = (\<lambda>r. Inl (client_refusal ''invalid_client'' ''invalid_client_metadata'' r))
     in if cm_ClientID doc \<noteq> clientID then refuse ''bad_client_id''
        else if cm_RedirectURIs doc = [] then refuse ''invalid_redirect_uris''
        else if \<not> publicTokenEndpointAuth doc then refuse ''auth_method_unsupported''
        else if list_ex (\<lambda>redirect. \<not> ValidOAuthRedirectURI parse redirect) (cm_RedirectURIs doc) then refuse ''invalid_redirect_uris''
        else let trimmed = TrimSpace (cm_ClientName doc);
                 name = (if length trimmed > 200 \<or> \<not> valid_string trimmed \<or> hasControl trimmed then '''' else trimmed)
             in Inr \<lparr>rc_ClientID = clientID, rc_Kind = OAuthClientKindMetadataDocument, rc_Name = name, rc_RedirectURIs = cm_RedirectURIs doc,
                     rc_Browser = isBrowserClient sv clientID\<rparr>)"

definition ResolveClient :: "url_parser \<Rightarrow> oauth_service \<Rightarrow> env \<Rightarrow> fetched \<Rightarrow> string \<Rightarrow> oauth_store \<Rightarrow> oauth_failure + resolved_client" where
  "ResolveClient parse sv e doc clientID s =
    (if so_devBrowser sv \<noteq> None \<and> clientID = DevBrowserClientID then Inr ((the (so_devBrowser sv))\<lparr>rc_Browser := True\<rparr>)
     else if IsDynamicOAuthClientID clientID then
       (case GetClient e clientID s of
          Inl err \<Rightarrow> if err = OaNotFound then Inl (client_refusal ''invalid_client'' ''invalid_client'' ''unknown_client'')
                     else Inl (ErrOAuthUnavailable (OcStore err))
        | Inr client \<Rightarrow> Inr \<lparr>rc_ClientID = oc_ClientID client, rc_Kind = OAuthClientKindDynamic, rc_Name = oc_ClientName client,
            rc_RedirectURIs = oc_RedirectURIs client, rc_Browser = False\<rparr>)
     else if so_metadata sv \<and> ValidOAuthClientMetadataURL parse clientID then
       (case doc of
          Inl err \<Rightarrow> Inl (client_refusal ''invalid_client'' ''invalid_client_metadata'' (fetch_refusal err))
        | Inr d \<Rightarrow> metadata_client parse sv clientID d)
     else Inl (client_refusal ''invalid_client'' ''invalid_client'' (unresolvedClientRefusal parse clientID)))"

definition resolveResource :: "url_parser \<Rightarrow> net \<Rightarrow> oauth_service \<Rightarrow> string \<Rightarrow> bool \<Rightarrow> string option" where
  "resolveResource parse n sv requested browser =
    (if browser then
       (if so_browserResource sv \<noteq> '''' \<and> (requested = '''' \<or> requested = so_browserResource sv) then Some (so_browserResource sv) else None)
     else if requested = so_issuer sv then None
     else let resources = filter (\<lambda>r. r \<noteq> so_issuer sv) (so_resources sv)
          in if requested = '''' then (if length resources = 1 then Some (hd resources) else None)
             else if ValidOAuthResource parse requested \<and> list_ex (\<lambda>r. SameResource parse n r requested) resources then Some requested
             else None)"

definition redirectOrigin :: "url_parser \<Rightarrow> string \<Rightarrow> string option" where
  "redirectOrigin parse raw =
    (case parse raw of
       None \<Rightarrow> None
     | Some u \<Rightarrow> if u_Scheme u = '''' \<or> u_Host u = '''' then None else Some (u_Scheme u @ ''://'' @ u_Host u))"

definition safeRedirectOrigin :: "url_parser \<Rightarrow> string \<Rightarrow> string" where
  "safeRedirectOrigin parse raw = (case redirectOrigin parse raw of None \<Rightarrow> '''' | Some origin \<Rightarrow> origin)"

definition redirectOrigins :: "url_parser \<Rightarrow> string list \<Rightarrow> string list" where
  "redirectOrigins parse uris = map (safeRedirectOrigin parse) uris"

definition redirectURL :: "url_parser \<Rightarrow> net \<Rightarrow> oauth_service \<Rightarrow> string \<Rightarrow> string \<Rightarrow> string \<times> string \<Rightarrow> string" where
  "redirectURL parse n sv redirectURI state value =
    (case parse redirectURI of
       None \<Rightarrow> ''''
     | Some target \<Rightarrow>
         let query = put (fst value) [snd value] (n_Query n target);
             query = (if state \<noteq> '''' then put ''state'' [state] query else query)
         in n_Encoded n target (put ''iss'' [so_issuer sv] query))"

end
