(* ===== verification/OAuth_Service.thy ===== *)
theory OAuth_Service
  imports OAuth_Client
begin

text \<open>
  The OAuth service, the second half of \<^verbatim>\<open>src/internal/auth/oauth.go\<close>: authorization requests, the consent of a signed-in
  user, the exchange of codes, the browser refresh grant and the device grant. It works on four stores at once, the
  \<open>oauth_world\<close>: the OAuth store, the device authorizations (which hold the credential store), and the
  families and tokens of the browser refresh store, which shares that credential store. A failure carries the client
  kind that the code reports beside it.
\<close>

section \<open>World and inputs\<close>

record oauth_world =
  ow_oauth :: oauth_store
  ow_devices :: device_store
  ow_families :: "(string, browser_family) gomap"
  ow_tokens :: "(string, refresh_token) gomap"

definition browser_view :: "oauth_world \<Rightarrow> browser_store" where
  "browser_view w = \<lparr>bs_families = ow_families w, bs_tokens = ow_tokens w, bs_credentials = ds_credentials (ow_devices w)\<rparr>"

definition with_browser :: "browser_store \<Rightarrow> oauth_world \<Rightarrow> oauth_world" where
  "with_browser b w = w\<lparr>ow_families := bs_families b, ow_tokens := bs_tokens b, ow_devices := (ow_devices w)\<lparr>ds_credentials := bs_credentials b\<rparr>\<rparr>"

text \<open>Library functions, and what one operation reads from outside: a flow of environments per call, clock, random bytes.\<close>

record oauth_libs =
  ol_lib :: libs
  ol_net :: net
  ol_sha :: "string \<Rightarrow> secret_hash"
  ol_hmac :: hmac

record oauth_inputs =
  ox_env :: "nat \<Rightarrow> flow_envs"
  ox_now :: "nat \<Rightarrow> time"
  ox_flow_now :: time
  ox_doc :: fetched
  ox_secret :: "nat list option"
  ox_codes :: "nat \<Rightarrow> random_codes"
  ox_issue :: issuance
  ox_seed :: "string option"
  ox_credentialID :: "string option"

type_synonym 'a answer = "((string \<times> oauth_failure) + 'a) \<times> oauth_world"

abbreviation ol_parse :: "oauth_libs \<Rightarrow> url_parser" where "ol_parse L \<equiv> url_Parse (ol_lib L)"

definition HashOAuthSecret :: "oauth_libs \<Rightarrow> string \<Rightarrow> secret_hash" where "HashOAuthSecret L v = ol_sha L v"

definition oauth_secret :: "nat list option \<Rightarrow> string option" where "oauth_secret random = map_option b64_encode random"

definition refused :: "string \<Rightarrow> string \<Rightarrow> string \<Rightarrow> oauth_world \<Rightarrow> 'a answer" where
  "refused kind code outcome w = (Inl (kind, oauthError code outcome), w)"

definition unavailable :: "string \<Rightarrow> oauth_cause \<Rightarrow> oauth_world \<Rightarrow> 'a answer" where
  "unavailable kind cause w = (Inl (kind, ErrOAuthUnavailable cause), w)"

section \<open>Authorization requests\<close>

definition oauthHandleBytes :: nat where "oauthHandleBytes = 32"
definition oauthCodeBytes :: nat where "oauthCodeBytes = 32"
definition oauthVerifierMinLength :: nat where "oauthVerifierMinLength = 43"
definition oauthVerifierMaxLength :: nat where "oauthVerifierMaxLength = 128"
definition OAuthAuthorizationCodeTTL :: duration where "OAuthAuthorizationCodeTTL = 2 * Minute"

record authorize_request =
  aq_ResponseType :: string
  aq_ClientID :: string
  aq_RedirectURI :: string
  aq_CodeChallenge :: string
  aq_CodeChallengeMethod :: string
  aq_Resource :: string
  aq_Scope :: string
  aq_State :: string

record authorization =
  au_Handle :: string
  au_ExpiresAt :: time
  au_Client :: resolved_client
  au_Resource :: string
  au_Scope :: string

definition redirect_matched :: "url_parser \<Rightarrow> resolved_client \<Rightarrow> string \<Rightarrow> bool" where
  "redirect_matched parse client presented \<longleftrightarrow> presented \<noteq> '''' \<and>
     list_ex (\<lambda>candidate. rc_Browser client \<and> candidate = presented \<or>
       \<not> rc_Browser client \<and> MatchOAuthRedirectURI parse candidate presented (rc_Kind client = OAuthClientKindMetadataDocument)) (rc_RedirectURIs client)"

definition redirect_mismatch :: "url_parser \<Rightarrow> resolved_client \<Rightarrow> string \<Rightarrow> oauth_failure" where
  "redirect_mismatch parse client presented = OAuthError ((refusal_of ''invalid_request'' ''invalid_redirect_uri'')\<lparr>oe_ClientRefusal := ''redirect_uri_mismatch'',
     oe_RedirectMismatch := Some (redirectOrigins parse (rc_RedirectURIs client), safeRedirectOrigin parse presented)\<rparr>)"

definition authorize_refusal :: "oauth_libs \<Rightarrow> oauth_service \<Rightarrow> authorize_request \<Rightarrow> string \<Rightarrow> string \<Rightarrow> oauth_failure" where
  "authorize_refusal L sv q code outcome = OAuthError ((refusal_of code outcome)\<lparr>oe_Redirectable := True,
     oe_RedirectURL := redirectURL (ol_parse L) (ol_net L) sv (aq_RedirectURI q) (aq_State q) (''error'', code)\<rparr>)"

text \<open>The checks after client and redirect URI are verified: the resource and the scope, or a redirectable refusal.\<close>

definition authorize_checks :: "oauth_libs \<Rightarrow> oauth_service \<Rightarrow> authorize_request \<Rightarrow> bool \<Rightarrow> oauth_failure + (string \<times> string)" where
  "authorize_checks L sv q browser =
    (let refuse = (\<lambda>code outcome. Inl (authorize_refusal L sv q code outcome))
     in if aq_ResponseType q \<noteq> ''code'' then refuse ''unsupported_response_type'' ''unsupported_response_type''
        else if aq_CodeChallengeMethod q \<noteq> ''S256'' \<or> \<not> ValidOAuthCodeChallenge (aq_CodeChallenge q) then refuse ''invalid_request'' ''pkce_required''
        else case resolveResource (ol_parse L) (ol_net L) sv (aq_Resource q) browser of
          None \<Rightarrow> refuse ''invalid_target'' ''invalid_target''
        | Some resource \<Rightarrow>
            if length (aq_State q) > maxOAuthStateLength \<or> length (aq_Scope q) > maxOAuthScopeLength \<or> \<not> valid_string (aq_State q)
               \<or> hasControl (aq_State q) \<or> hasControl (aq_Scope q) then refuse ''invalid_request'' ''invalid_request''
            else case NormalizeOAuthScope (aq_Scope q) of
              None \<Rightarrow> refuse ''invalid_scope'' ''invalid_scope''
            | Some scope \<Rightarrow> Inr (resource, scope))"

definition Authorize :: "oauth_libs \<Rightarrow> oauth_service \<Rightarrow> oauth_inputs \<Rightarrow> authorize_request \<Rightarrow> oauth_world \<Rightarrow> authorization answer" where
  "Authorize L sv x q w =
    (case ResolveClient (ol_parse L) sv (ox_env x 0 0 0) (ox_doc x) (aq_ClientID q) (ow_oauth w) of
       Inl f \<Rightarrow> (Inl ('''', f), w)
     | Inr client \<Rightarrow>
         if \<not> redirect_matched (ol_parse L) client (aq_RedirectURI q) then (Inl ('''', redirect_mismatch (ol_parse L) client (aq_RedirectURI q)), w)
         else case authorize_checks L sv q (rc_Browser client) of
           Inl f \<Rightarrow> (Inl ('''', f), w)
         | Inr (resource, scope) \<Rightarrow>
             (case StartForOAuth (ol_sha L) (ox_env x 1) (ox_codes x) (ow_devices w) of
                (Inl err, d1) \<Rightarrow> unavailable '''' (OcFlow err) (w\<lparr>ow_devices := d1\<rparr>)
              | (Inr device, d1) \<Rightarrow>
                  (case oauth_secret (ox_secret x) of
                     None \<Rightarrow> unavailable '''' OcRandom (w\<lparr>ow_devices := d1\<rparr>)
                   | Some handle \<Rightarrow>
                       (case CreateAuthorizationRequest (ol_parse L) (ox_env x 2 0 0)
                           \<lparr>ar_HandleHash = HashOAuthSecret L handle, ar_DeviceCodeHash = da_DeviceCodeHash (sd_Record device),
                            ar_ClientID = rc_ClientID client, ar_ClientKind = rc_Kind client, ar_RedirectURI = aq_RedirectURI q,
                            ar_CodeChallenge = aq_CodeChallenge q, ar_Resource = resource, ar_Scope = scope, ar_State = aq_State q,
                            ar_CreatedAt = ox_now x 0, ar_ExpiresAt = da_ExpiresAt (sd_Record device), ar_CodeHash = None, ar_CodeExpiresAt = None,
                            ar_ConsumedAt = None, ar_BoundOrgID = '''', ar_BoundSubject = ''''\<rparr> (ow_oauth w) of
                          (Inl err, o1) \<Rightarrow> unavailable '''' (OcStore err) (w\<lparr>ow_devices := d1, ow_oauth := o1\<rparr>)
                        | (Inr _, o1) \<Rightarrow> (Inr \<lparr>au_Handle = handle, au_ExpiresAt = da_ExpiresAt (sd_Record device), au_Client = client,
                            au_Resource = resource, au_Scope = scope\<rparr>, w\<lparr>ow_devices := d1, ow_oauth := o1\<rparr>)))))"

section \<open>Consent\<close>

definition validOAuthHandle :: "string \<Rightarrow> bool" where
  "validOAuthHandle handle = (if length handle \<noteq> b64_EncodedLen oauthHandleBytes then False else b64_decode False handle \<noteq> None)"

definition unknown_handle :: "string \<times> oauth_failure" where
  "unknown_handle = ('''', oauthError ''invalid_request'' ''invalid_request'')"

definition refuseOtherConsentUser :: "authorization_request \<Rightarrow> principal \<Rightarrow> bool" where
  "refuseOtherConsentUser r p \<longleftrightarrow> \<not> validDeviceApprovalPrincipal p \<or>
     (ar_BoundSubject r \<noteq> '''' \<and> (ar_BoundOrgID r \<noteq> p_OrgID p \<or> ar_BoundSubject r \<noteq> p_Subject p))"

definition pendingConsent ::
  "oauth_libs \<Rightarrow> oauth_inputs \<Rightarrow> string \<Rightarrow> principal \<Rightarrow> bool \<Rightarrow> oauth_world \<Rightarrow> authorization_request answer" where
  "pendingConsent L x handle p resumable w =
    (if \<not> validOAuthHandle handle then (Inl unknown_handle, w)
     else case GetAuthorizationRequest (ox_env x 0 0 0) (HashOAuthSecret L handle) (ow_oauth w) of
       Inl err \<Rightarrow> if err = OaNotFound then (Inl unknown_handle, w) else unavailable '''' (OcStore err) w
     | Inr r \<Rightarrow>
         let kind = ar_ClientKind r; completed = refused kind ''already_completed'' ''already_completed''; expired = refused kind ''expired'' ''expired''
         in if refuseOtherConsentUser r p then (Inl unknown_handle, w)
            else if ar_CodeHash r \<noteq> None then completed w
            else if \<not> ar_ExpiresAt r > ox_now x 0 then expired w
            else (case StateForOAuth (ox_env x 1) (ox_flow_now x) (ar_DeviceCodeHash r) (ow_devices w) of
              (Inl err, d1) \<Rightarrow> unavailable kind (OcFlow err) (w\<lparr>ow_devices := d1\<rparr>)
            | (Inr st, d1) \<Rightarrow>
                let w1 = w\<lparr>ow_devices := d1\<rparr>
                in (case st of
                      OAuthDeviceStatePending \<Rightarrow> (Inr r, w1)
                    | OAuthDeviceStateApproved \<Rightarrow> if resumable then (Inr r, w1) else completed w1
                    | OAuthDeviceStateExpired \<Rightarrow> expired w1
                    | OAuthDeviceStateDenied \<Rightarrow> completed w1
                    | OAuthDeviceStateRedeemed \<Rightarrow> completed w1)))"

definition bindConsentUser :: "env \<Rightarrow> authorization_request \<Rightarrow> principal \<Rightarrow> oauth_world \<Rightarrow> oauth_failure option \<times> oauth_world" where
  "bindConsentUser e r p w =
    (if \<not> validDeviceApprovalPrincipal p then (Some (snd unknown_handle), w)
     else case BindAuthorizationRequestUser e (ar_HandleHash r) (p_OrgID p) (p_Subject p) (ow_oauth w) of
       (Inr _, o1) \<Rightarrow> (None, w\<lparr>ow_oauth := o1\<rparr>)
     | (Inl err, o1) \<Rightarrow>
         (Some (if err = OaConflict \<or> err = OaNotFound then snd unknown_handle else ErrOAuthUnavailable OcBind), w\<lparr>ow_oauth := o1\<rparr>))"

record consent_request =
  cr_ClientName :: string
  cr_ClientKind :: string
  cr_RedirectOrigin :: string
  cr_Resource :: string
  cr_Scopes :: "string list"
  cr_ExpiresAt :: time

definition ConsentRequest :: "oauth_libs \<Rightarrow> oauth_service \<Rightarrow> oauth_inputs \<Rightarrow> string \<Rightarrow> principal \<Rightarrow> oauth_world \<Rightarrow> consent_request answer" where
  "ConsentRequest L sv x handle p w =
    (case pendingConsent L x handle p True w of
       (Inl f, w1) \<Rightarrow> (Inl f, w1)
     | (Inr r, w1) \<Rightarrow>
         let kind = ar_ClientKind r
         in (case bindConsentUser (ox_env x 2 0 0) r p w1 of
               (Some f, w2) \<Rightarrow> (Inl (kind, f), w2)
             | (None, w2) \<Rightarrow>
                 (case ResolveClient (ol_parse L) sv (ox_env x 3 0 0) (ox_doc x) (ar_ClientID r) (ow_oauth w2) of
                    Inl (OAuthError f) \<Rightarrow> (Inl (kind, client_refusal ''invalid_request'' ''invalid_client'' (oe_ClientRefusal f)), w2)
                  | Inl f \<Rightarrow> (Inl (kind, f), w2)
                  | Inr client \<Rightarrow>
                      (case redirectOrigin (ol_parse L) (ar_RedirectURI r) of
                         None \<Rightarrow> unavailable kind OcRedirect w2
                       | Some origin \<Rightarrow> (Inr \<lparr>cr_ClientName = rc_Name client, cr_ClientKind = kind, cr_RedirectOrigin = origin,
                           cr_Resource = ar_Resource r, cr_Scopes = Fields (ar_Scope r), cr_ExpiresAt = ar_ExpiresAt r\<rparr>, w2)))))"

record consent_decision =
  cd_RedirectURL :: string
  cd_ClientKind :: string

fun flow_is :: "device_kind \<Rightarrow> flow_error \<Rightarrow> bool" where
  "flow_is k (FlStore err) = is_kind k err"
| "flow_is k _ = False"

definition consentDecisionError :: "flow_error \<Rightarrow> oauth_failure" where
  "consentDecisionError err =
    (if err = ErrImpersonatedApproval then oauthError ''invalid_request'' ''impersonating''
     else if err = ErrInvalidDeviceFlow then oauthError ''invalid_request'' ''invalid_request''
     else if flow_is DeviceConflict err then oauthError ''already_completed'' ''already_completed''
     else if flow_is DeviceExpired err \<or> flow_is DeviceNotFound err then oauthError ''expired'' ''expired''
     else ErrOAuthUnavailable (OcFlow err))"

text \<open>The approval of a request that is pending and bound: record it, then attach the code.\<close>

definition approve_bound ::
  "oauth_libs \<Rightarrow> oauth_service \<Rightarrow> oauth_inputs \<Rightarrow> authorization_request \<Rightarrow> principal \<Rightarrow> string list \<Rightarrow> oauth_world \<Rightarrow> consent_decision answer" where
  "approve_bound L sv x r p repositoryScopes w =
    (let kind = ar_ClientKind r
     in if p_Impersonating p then refused kind ''invalid_request'' ''impersonating'' w
        else if isBrowserClient sv (ar_ClientID r) \<and> p_SessionID p = '''' then refused kind ''invalid_request'' ''session_required'' w
        else case NormalizeOAuthScope (ar_Scope r) of
          None \<Rightarrow> refused kind ''invalid_scope'' ''invalid_scope'' w
        | Some scope \<Rightarrow>
            (case ApproveForOAuth (ox_env x 3) p (ar_DeviceCodeHash r) repositoryScopes (oauthApprovalScopes scope) (ow_devices w) of
               (Inl err, d1) \<Rightarrow> (Inl (kind, consentDecisionError err), w\<lparr>ow_devices := d1\<rparr>)
             | (Inr _, d1) \<Rightarrow>
                 let w1 = w\<lparr>ow_devices := d1\<rparr>
                 in (case oauth_secret (ox_secret x) of
                       None \<Rightarrow> unavailable kind OcRandom w1
                     | Some code \<Rightarrow>
                         (case IssueAuthorizationCode (ox_env x 4 0 0) (ar_HandleHash r) (HashOAuthSecret L code)
                             (ox_now x 1 + OAuthAuthorizationCodeTTL) (ow_oauth w1) of
                            (Inl err, o1) \<Rightarrow>
                              if err = OaConflict \<or> err = OaNotFound then refused kind ''already_completed'' ''already_completed'' (w1\<lparr>ow_oauth := o1\<rparr>)
                              else unavailable kind (OcStore err) (w1\<lparr>ow_oauth := o1\<rparr>)
                          | (Inr _, o1) \<Rightarrow> (Inr \<lparr>cd_RedirectURL = redirectURL (ol_parse L) (ol_net L) sv (ar_RedirectURI r) (ar_State r) (''code'', code),
                              cd_ClientKind = kind\<rparr>, w1\<lparr>ow_oauth := o1\<rparr>)))))"

definition ApproveConsent ::
  "oauth_libs \<Rightarrow> oauth_service \<Rightarrow> oauth_inputs \<Rightarrow> string \<Rightarrow> principal \<Rightarrow> string list \<Rightarrow> oauth_world \<Rightarrow> consent_decision answer" where
  "ApproveConsent L sv x handle p repositoryScopes w =
    (case pendingConsent L x handle p True w of
       (Inl f, w1) \<Rightarrow> (Inl f, w1)
     | (Inr r, w1) \<Rightarrow>
         (case bindConsentUser (ox_env x 2 0 0) r p w1 of
            (Some f, w2) \<Rightarrow> (Inl (ar_ClientKind r, f), w2)
          | (None, w2) \<Rightarrow> approve_bound L sv x r p repositoryScopes w2))"

definition DenyConsent :: "oauth_libs \<Rightarrow> oauth_service \<Rightarrow> oauth_inputs \<Rightarrow> string \<Rightarrow> principal \<Rightarrow> oauth_world \<Rightarrow> consent_decision answer" where
  "DenyConsent L sv x handle p w =
    (case pendingConsent L x handle p False w of
       (Inl f, w1) \<Rightarrow> (Inl f, w1)
     | (Inr r, w1) \<Rightarrow>
         let kind = ar_ClientKind r
         in (case bindConsentUser (ox_env x 2 0 0) r p w1 of
               (Some f, w2) \<Rightarrow> (Inl (kind, f), w2)
             | (None, w2) \<Rightarrow>
                 (case DenyForOAuth (ox_env x 3) p (ar_DeviceCodeHash r) (ow_devices w2) of
                    (Inl err, d1) \<Rightarrow> (Inl (kind, consentDecisionError err), w2\<lparr>ow_devices := d1\<rparr>)
                  | (Inr _, d1) \<Rightarrow> (Inr \<lparr>cd_RedirectURL = redirectURL (ol_parse L) (ol_net L) sv (ar_RedirectURI r) (ar_State r) (''error'', ''access_denied''),
                      cd_ClientKind = kind\<rparr>, w2\<lparr>ow_devices := d1\<rparr>))))"

section \<open>Exchanging a code\<close>

record token_request =
  tq_GrantType :: string
  tq_Code :: string
  tq_RedirectURI :: string
  tq_ClientID :: string
  tq_CodeVerifier :: string
  tq_Resource :: string

record oauth_token =
  ot_Issued :: issued_credential
  ot_ExpiresIn :: duration
  ot_Scope :: string
  ot_ClientKind :: string
  ot_RefreshToken :: string
  ot_Outcome :: string

definition isUnreserved :: "int \<Rightarrow> bool" where
  "isUnreserved r \<longleftrightarrow> 65 \<le> r \<and> r \<le> 90 \<or> 97 \<le> r \<and> r \<le> 122 \<or> 48 \<le> r \<and> r \<le> 57 \<or> r = 45 \<or> r = 46 \<or> r = 95 \<or> r = 126"

definition VerifyPKCES256 :: "(string \<Rightarrow> secret_hash) \<Rightarrow> string \<Rightarrow> string \<Rightarrow> bool" where
  "VerifyPKCES256 sha verifier challenge =
    (if length verifier < oauthVerifierMinLength \<or> length verifier > oauthVerifierMaxLength \<or> \<not> ValidOAuthCodeChallenge challenge then False
     else if \<not> list_all (\<lambda>g. isUnreserved (seg_rune g)) (runes_of verifier) then False
     else b64_encode (map of_char (sha verifier)) = challenge)"

text \<open>What a token request must repeat of the request its code was issued for: the scope and the class to issue.\<close>

definition exchange_checks ::
  "(string \<Rightarrow> secret_hash) \<Rightarrow> oauth_service \<Rightarrow> token_request \<Rightarrow> authorization_request \<Rightarrow> oauth_failure + (string \<times> bool)" where
  "exchange_checks sha sv q pending =
    (if tq_ClientID q \<noteq> ar_ClientID pending then Inl (oauthError ''invalid_grant'' ''client_mismatch'')
     else if tq_RedirectURI q \<noteq> ar_RedirectURI pending then Inl (oauthError ''invalid_grant'' ''redirect_mismatch'')
     else if \<not> VerifyPKCES256 sha (tq_CodeVerifier q) (ar_CodeChallenge pending) then Inl (oauthError ''invalid_grant'' ''pkce_mismatch'')
     else if tq_Resource q \<noteq> '''' \<and> tq_Resource q \<noteq> ar_Resource pending then Inl (oauthError ''invalid_target'' ''resource_mismatch'')
     else case NormalizeOAuthScope (ar_Scope pending) of
       None \<Rightarrow> Inl (oauthError ''invalid_grant'' ''invalid_grant'')
     | Some scope \<Rightarrow>
         let browser = isBrowserClient sv (ar_ClientID pending)
         in if browser \<and> (so_browserResource sv = '''' \<or> ar_Resource pending \<noteq> so_browserResource sv) \<or> \<not> browser \<and> ar_Resource pending = so_issuer sv
            then Inl (oauthError ''invalid_target'' ''resource_mismatch'')
            else Inr (scope, browser))"

definition lifetime_of :: "duration \<Rightarrow> issued_credential \<Rightarrow> time \<Rightarrow> duration" where
  "lifetime_of fallback issued now = (case cc_ExpiresAt (is_Credential issued) of None \<Rightarrow> fallback | Some t \<Rightarrow> time_sub t now)"

text \<open>The credential for a consumed code, and for a browser client the start of its token family.\<close>

definition exchange_issue ::
  "oauth_libs \<Rightarrow> oauth_inputs \<Rightarrow> authorization_request \<Rightarrow> string \<Rightarrow> bool \<Rightarrow> oauth_world \<Rightarrow> oauth_token answer" where
  "exchange_issue L x pending scope browser w =
    (let kind = ar_ClientKind pending;
         redeem = (if browser then RedeemBrowserForResource else RedeemForResource)
     in case redeem (ol_lib L) (ox_env x 1) (ox_flow_now x) (ox_issue x) (ar_DeviceCodeHash pending) (ar_ClientID pending) (ar_Resource pending)
             (Fields scope) (ow_devices w) of
          (Inl err, d1) \<Rightarrow>
            let w1 = w\<lparr>ow_devices := d1\<rparr>
            in if err = ErrOAuthDeviceNotApproved then refused kind ''invalid_grant'' ''invalid_grant'' w1
               else if err = ErrBrowserSessionRequired then refused kind ''invalid_grant'' ''session_required'' w1
               else unavailable kind (OcFlow err) w1
        | (Inr issued, d1) \<Rightarrow>
            let w1 = w\<lparr>ow_devices := d1\<rparr>;
                token = \<lparr>ot_Issued = issued, ot_ExpiresIn = lifetime_of DeviceCredentialLifetime issued (ox_now x 0), ot_Scope = scope, ot_ClientKind = kind,
                  ot_RefreshToken = '''', ot_Outcome = ''''\<rparr>
            in if browser then
                 (case Refresh_Start (ol_lib L) (ox_env x 2 0 0) (ox_secret x) issued (browser_view w1) of
                    (Inl err, b) \<Rightarrow> unavailable kind (OcRefresh err) (with_browser b w1)
                  | (Inr refresh, b) \<Rightarrow> (Inr (token\<lparr>ot_RefreshToken := refresh\<rparr>), with_browser b w1))
               else (Inr token, w1))"

definition Exchange :: "oauth_libs \<Rightarrow> oauth_service \<Rightarrow> oauth_inputs \<Rightarrow> token_request \<Rightarrow> oauth_world \<Rightarrow> oauth_token answer" where
  "Exchange L sv x q w =
    (if tq_GrantType q \<noteq> ''authorization_code'' then refused '''' ''unsupported_grant_type'' ''unsupported_grant_type'' w
     else if tq_Code q = '''' \<or> length (tq_Code q) > 128 then refused '''' ''invalid_grant'' ''invalid_grant'' w
     else case ConsumeAuthorizationCode (ox_env x 0 0 0) (HashOAuthSecret L (tq_Code q)) (ow_oauth w) of
       (Inl err, o1) \<Rightarrow>
         if err = ErrOAuthAuthorizationCodeUnavailable then refused '''' ''invalid_grant'' ''invalid_grant'' (w\<lparr>ow_oauth := o1\<rparr>)
         else unavailable '''' (OcStore err) (w\<lparr>ow_oauth := o1\<rparr>)
     | (Inr pending, o1) \<Rightarrow>
         (case exchange_checks (ol_sha L) sv q pending of
            Inl f \<Rightarrow> (Inl (ar_ClientKind pending, f), w\<lparr>ow_oauth := o1\<rparr>)
          | Inr (scope, browser) \<Rightarrow> exchange_issue L x pending scope browser (w\<lparr>ow_oauth := o1\<rparr>)))"

section \<open>The browser refresh grant\<close>

record oauth_refresh_request =
  fq_GrantType :: string
  fq_RefreshToken :: string
  fq_ClientID :: string

definition refresh_refusal :: "browser_decision \<Rightarrow> string" where
  "refresh_refusal d = (case d of BrowserRefreshReuseRevoked \<Rightarrow> ''reuse_revoked'' | BrowserRefreshFamilyExpired \<Rightarrow> ''family_expired''
     | BrowserRefreshFamilyRevoked \<Rightarrow> ''family_revoked'' | BrowserRefreshClientMismatch \<Rightarrow> ''client_mismatch'' | _ \<Rightarrow> ''invalid_grant'')"

definition OAuth_Refresh :: "oauth_libs \<Rightarrow> oauth_service \<Rightarrow> oauth_inputs \<Rightarrow> oauth_refresh_request \<Rightarrow> oauth_world \<Rightarrow> oauth_token answer" where
  "OAuth_Refresh L sv x q w =
    (let kind = OAuthClientKindMetadataDocument
     in if fq_GrantType q \<noteq> ''refresh_token'' \<or> \<not> so_refresh sv then refused '''' ''unsupported_grant_type'' ''unsupported_grant_type'' w
        else if \<not> isBrowserClient sv (fq_ClientID q) then refused '''' ''unauthorized_client'' ''unauthorized_client'' w
        else case Refresh (ol_lib L) (ol_hmac L) (ox_env x 0 0) (ox_now x 0) (ox_seed x) (ox_credentialID x) (fq_RefreshToken q) (fq_ClientID q) (browser_view w) of
          (Inl err, b) \<Rightarrow> unavailable kind (OcRefresh err) (with_browser b w)
        | (Inr result, b) \<Rightarrow>
            if br_Decision result \<notin> {BrowserRefreshRotated, BrowserRefreshGraceReplay}
            then refused kind ''invalid_grant'' (refresh_refusal (br_Decision result)) (with_browser b w)
            else let issued = the (br_Issued result)
                 in (Inr \<lparr>ot_Issued = issued, ot_ExpiresIn = lifetime_of BrowserCredentialLifetime issued (ox_now x 1),
                   ot_Scope = Join (cc_Scopes (is_Credential issued)) '' '', ot_ClientKind = kind, ot_RefreshToken = br_RefreshToken result,
                   ot_Outcome = (if br_Decision result = BrowserRefreshGraceReplay then ''grace_replay'' else '''')\<rparr>, with_browser b w))"

text \<open>The outcome of a revocation; the refusals carry an outcome too.\<close>

definition RevokeRefreshToken ::
  "oauth_libs \<Rightarrow> oauth_service \<Rightarrow> oauth_inputs \<Rightarrow> string \<Rightarrow> string \<Rightarrow> oauth_world \<Rightarrow> (string \<times> string) answer" where
  "RevokeRefreshToken L sv x token clientID w =
    (let kind = OAuthClientKindMetadataDocument
     in if \<not> so_refresh sv \<or> \<not> isBrowserClient sv clientID then refused '''' ''unauthorized_client'' ''unauthorized_client'' w
        else if has_prefix token TokenPrefix then refused kind ''unsupported_token_type'' ''unsupported_token_type'' w
        else case RevokeFamily (ol_lib L) (ox_env x 0 0) (ox_now x 0) token clientID (browser_view w) of
          (Inl err, b) \<Rightarrow> unavailable kind (OcRefresh err) (with_browser b w)
        | (Inr decision, b) \<Rightarrow>
            (Inr (case decision of BrowserFamilyRevokedNow \<Rightarrow> ''ok'' | BrowserRefreshFamilyRevoked \<Rightarrow> ''family_revoked''
                  | BrowserRefreshClientMismatch \<Rightarrow> ''client_mismatch'' | _ \<Rightarrow> ''invalid_grant'', kind), with_browser b w))"

section \<open>The device grant\<close>

record device_authorization_request =
  dq_ClientID :: string
  dq_Scope :: string
  dq_Resource :: string

record device_authorization_start =
  dt_DeviceCode :: string
  dt_UserCode :: string
  dt_ExpiresIn :: duration
  dt_Interval :: duration
  dt_ClientKind :: string

definition StartDeviceAuthorization ::
  "oauth_libs \<Rightarrow> oauth_service \<Rightarrow> oauth_inputs \<Rightarrow> device_authorization_request \<Rightarrow> oauth_world \<Rightarrow> device_authorization_start answer" where
  "StartDeviceAuthorization L sv x q w =
    (case ResolveClient (ol_parse L) sv (ox_env x 0 0 0) (ox_doc x) (dq_ClientID q) (ow_oauth w) of
       Inl f \<Rightarrow> (Inl ('''', f), w)
     | Inr client \<Rightarrow>
         let kind = rc_Kind client
         in if rc_Browser client then refused kind ''unauthorized_client'' ''unauthorized_client'' w
            else if length (dq_Scope q) > maxOAuthScopeLength \<or> hasControl (dq_Scope q) then refused kind ''invalid_request'' ''invalid_request'' w
            else case NormalizeOAuthScope (dq_Scope q) of
              None \<Rightarrow> refused kind ''invalid_scope'' ''invalid_scope'' w
            | Some scope \<Rightarrow>
                (case resolveResource (ol_parse L) (ol_net L) sv (dq_Resource q) False of
                   None \<Rightarrow> refused kind ''invalid_target'' ''invalid_target'' w
                 | Some resource \<Rightarrow>
                     (case StartDeviceGrant (ol_sha L) (ox_env x 1) (ox_codes x) (ow_devices w) of
                        (Inl err, d1) \<Rightarrow> unavailable kind (OcFlow err) (w\<lparr>ow_devices := d1\<rparr>)
                      | (Inr start, d1) \<Rightarrow>
                          (case CreateDeviceGrant (ol_parse L) (ox_env x 2 0 0)
                              \<lparr>dg_DeviceCodeHash = da_DeviceCodeHash (sd_Record start), dg_ClientID = rc_ClientID client, dg_ClientKind = kind,
                               dg_Resource = resource, dg_Scope = scope, dg_CreatedAt = ox_now x 0, dg_ExpiresAt = da_ExpiresAt (sd_Record start)\<rparr> (ow_oauth w) of
                             (Inl err, o1) \<Rightarrow> unavailable kind (OcStore err) (w\<lparr>ow_devices := d1, ow_oauth := o1\<rparr>)
                           | (Inr _, o1) \<Rightarrow> (Inr \<lparr>dt_DeviceCode = sd_DeviceCode start, dt_UserCode = sd_UserCode start,
                               dt_ExpiresIn = DeviceAuthorizationTTL, dt_Interval = DeviceAuthorizationPollInterval, dt_ClientKind = kind\<rparr>,
                               w\<lparr>ow_devices := d1, ow_oauth := o1\<rparr>)))))"

record device_token_request =
  vq_GrantType :: string
  vq_DeviceCode :: string
  vq_ClientID :: string

definition oauthDeviceGrantError :: "string \<Rightarrow> string \<Rightarrow> duration \<Rightarrow> oauth_failure" where
  "oauthDeviceGrantError kind outcome retryAfter = OAuthError ((refusal_of kind outcome)\<lparr>oe_RetryAfter := retryAfter\<rparr>)"

fun mapDevicePollOutcome :: "poll_kind \<Rightarrow> duration \<Rightarrow> oauth_failure" where
  "mapDevicePollOutcome DevicePollAuthorizationPending retry = oauthDeviceGrantError ''authorization_pending'' ''authorization_pending'' 0"
| "mapDevicePollOutcome DevicePollSlowDown retry = oauthDeviceGrantError ''slow_down'' ''slow_down'' retry"
| "mapDevicePollOutcome DevicePollAccessDenied retry = oauthDeviceGrantError ''access_denied'' ''access_denied'' 0"
| "mapDevicePollOutcome DevicePollExpiredToken retry = oauthDeviceGrantError ''expired_token'' ''expired'' 0"
| "mapDevicePollOutcome DevicePollInvalidGrant retry = oauthDeviceGrantError ''invalid_grant'' ''invalid_grant'' 0"

definition ExchangeDeviceCode ::
  "oauth_libs \<Rightarrow> oauth_service \<Rightarrow> oauth_inputs \<Rightarrow> device_token_request \<Rightarrow> oauth_world \<Rightarrow> oauth_token answer" where
  "ExchangeDeviceCode L sv x q w =
    (if vq_GrantType q \<noteq> OAuthDeviceCodeGrantType then refused '''' ''unsupported_grant_type'' ''unsupported_grant_type'' w
     else if vq_DeviceCode q = '''' \<or> length (vq_DeviceCode q) > 128 then refused '''' ''invalid_grant'' ''invalid_grant'' w
     else case NormalizeDeviceCode (vq_DeviceCode q) of
       None \<Rightarrow> refused '''' ''invalid_grant'' ''invalid_grant'' w
     | Some normalized \<Rightarrow>
         let hash = HashDeviceCode (ol_sha L) normalized
         in (case GetDeviceGrant (ox_env x 0 0 0) hash (ow_oauth w) of
               Inl err \<Rightarrow> if err = OaNotFound then refused '''' ''invalid_grant'' ''invalid_grant'' w else unavailable '''' (OcStore err) w
             | Inr grant \<Rightarrow>
                 let kind = dg_ClientKind grant
                 in if vq_ClientID q \<noteq> dg_ClientID grant then refused kind ''invalid_grant'' ''client_mismatch'' w
                    else if isBrowserClient sv (dg_ClientID grant) \<or> dg_Resource grant = so_issuer sv
                    then refused kind ''unauthorized_client'' ''unauthorized_client'' w
                    else case NormalizeOAuthScope (dg_Scope grant) of
                      None \<Rightarrow> refused kind ''invalid_grant'' ''invalid_grant'' w
                    | Some scope \<Rightarrow>
                        (case PollDeviceGrant (ol_lib L) (ox_env x 1) (ox_issue x) hash (dg_ClientID grant) (dg_Resource grant) (Fields scope) (ow_devices w) of
                           (Inl (DevicePollError pk retry), d1) \<Rightarrow> (Inl (kind, mapDevicePollOutcome pk retry), w\<lparr>ow_devices := d1\<rparr>)
                         | (Inl err, d1) \<Rightarrow> unavailable kind (OcFlow err) (w\<lparr>ow_devices := d1\<rparr>)
                         | (Inr issued, d1) \<Rightarrow> (Inr \<lparr>ot_Issued = issued, ot_ExpiresIn = lifetime_of DeviceCredentialLifetime issued (ox_now x 0),
                             ot_Scope = scope, ot_ClientKind = kind, ot_RefreshToken = '''', ot_Outcome = ''''\<rparr>, w\<lparr>ow_devices := d1\<rparr>))))"

end
