(* ===== verification/OAuth_Examples.thy ===== *)
theory OAuth_Examples
  imports OAuth_Store Credential_Properties
begin

text \<open>
  An authorization request of a dynamic client, at which the properties of the OAuth store are evaluated.
\<close>

definition ex_secret :: "char \<Rightarrow> secret_hash" where
  "ex_secret c = replicate 32 c"

definition ex_request :: authorization_request where
  "ex_request = \<lparr>ar_HandleHash = ex_secret (CHR ''h''), ar_DeviceCodeHash = ex_secret (CHR ''d''), ar_ClientID = ''acrc_'' @ replicate 32 (CHR ''a''),
     ar_ClientKind = OAuthClientKindDynamic, ar_RedirectURI = ''https://acr.example/cb'', ar_CodeChallenge = replicate 43 (CHR ''x''),
     ar_Resource = ''https://acr.example/mcp'', ar_Scope = ''context:read'', ar_State = ''st'', ar_CreatedAt = Hour, ar_ExpiresAt = 2 * Hour,
     ar_CodeHash = None, ar_CodeExpiresAt = None, ar_ConsumedAt = None, ar_BoundOrgID = '''', ar_BoundSubject = ''''\<rparr>"

abbreviation ex_parse :: url_parser where "ex_parse \<equiv> url_Parse ex_libs"

definition ex_requests :: oauth_store where
  "ex_requests = snd (CreateAuthorizationRequest ex_parse (ex_env Hour) ex_request NewOAuthStore)"

definition ex_coded :: oauth_store where
  "ex_coded = snd (IssueAuthorizationCode (ex_env Hour) (ex_secret (CHR ''h'')) (ex_secret (CHR ''c'')) (Hour + 2 * Minute) ex_requests)"

text \<open>A parser that knows two loopback redirect URIs.\<close>

definition ex_loopback :: url_parser where
  "ex_loopback v = (if v = ''http://127.0.0.1/cb'' then Some \<lparr>u_Scheme = ''http'', u_Opaque = '''', u_User = False, u_Host = ''127.0.0.1'', u_Path = ''/cb'', u_RawQuery = '''', u_ForceQuery = False, u_Fragment = ''''\<rparr>
     else if v = ''http://127.0.0.1:8080/cb'' then Some \<lparr>u_Scheme = ''http'', u_Opaque = '''', u_User = False, u_Host = ''127.0.0.1:8080'', u_Path = ''/cb'', u_RawQuery = '''', u_ForceQuery = False, u_Fragment = ''''\<rparr>
     else None)"

end
