(* ===== verification/OAuth_Properties.thy ===== *)
theory OAuth_Properties
  imports OAuth_Examples
begin

text \<open>
  The properties of the OAuth store, over every state a new store can reach (\<open>reachable_oauth\<close>): an authorization
  code is used once and returns the request it was issued for, the first user to open a request owns it;
  and of its input: a presented redirect URI differs from the registered one in a port at most, and the
  text of a hash reads back.
\<close>

section \<open>The machine keeps its codes\<close>

text \<open>Every operation adds an entry or changes one request.\<close>

lemma oauth_step_cases:
  obtains (none) "oauth_step parse op s = s"
    | (other) cs gs where "oauth_step parse op s = s\<lparr>os_clients := cs, os_deviceGrants := gs\<rparr>"
      "map_evolves (=) (os_clients s) cs" "map_evolves (=) (os_deviceGrants s) gs"
    | (request) r where "ValidateOAuthAuthorizationRequest parse r" "\<not> has_key (os_byHandle s) (ar_HandleHash r)" "\<not> has_key (os_byDeviceCode s) (ar_DeviceCodeHash r)"
      "oauth_step parse op s = s\<lparr>os_byHandle := put (ar_HandleHash r) r (os_byHandle s), os_byDeviceCode := put (ar_DeviceCodeHash r) (ar_HandleHash r) (os_byDeviceCode s)\<rparr>"
    | (bind) h r org subject where "map_of (os_byHandle s) h = Some r" "ar_BoundSubject r = '''' \<or> ar_BoundOrgID r = org \<and> ar_BoundSubject r = subject"
      "oauth_step parse op s = s\<lparr>os_byHandle := put h (r\<lparr>ar_BoundOrgID := org, ar_BoundSubject := subject\<rparr>) (os_byHandle s)\<rparr>"
    | (issue) h r code t where "map_of (os_byHandle s) h = Some r" "ar_CodeHash r = None" "\<not> has_key (os_byCode s) code"
      "oauth_step parse op s = s\<lparr>os_byHandle := put h (r\<lparr>ar_CodeHash := Some code, ar_CodeExpiresAt := Some t\<rparr>) (os_byHandle s), os_byCode := put code h (os_byCode s)\<rparr>"
    | (consume) h r code now where "map_of (os_byHandle s) h = Some r" "ar_CodeHash r = Some code" "ar_ConsumedAt r = None"
      "oauth_step parse op s = s\<lparr>os_byHandle := put h (r\<lparr>ar_ConsumedAt := Some now\<rparr>) (os_byHandle s)\<rparr>"
proof (cases op)
  case (OaRegister e c)
  show ?thesis
    by (rule other [of "os_deviceGrants s" "os_clients (oauth_step parse op s)"])
      (auto simp: OaRegister RegisterClient_def map_evolves_intros)
next
  case (OaGrant e g)
  show ?thesis
    by (rule other [of "os_deviceGrants (oauth_step parse op s)" "os_clients s"])
      (auto simp: OaGrant CreateDeviceGrant_def map_evolves_intros)
next
  case (OaRequest e r)
  show ?thesis
  proof (cases "env_err e 0 \<or> \<not> ValidateOAuthAuthorizationRequest parse r \<or> env_err e 1 \<or> has_key (os_byHandle s) (ar_HandleHash r) \<or>
      has_key (os_byDeviceCode s) (ar_DeviceCodeHash r)")
    case True
    then show ?thesis by (intro none) (auto simp: OaRequest CreateAuthorizationRequest_def)
  next
    case False
    then show ?thesis by (intro request [of r]) (simp_all add: OaRequest CreateAuthorizationRequest_def)
  qed
next
  case (OaBind e h org subject)
  obtain x s' where c: "BindAuthorizationRequestUser e h org subject s = (x, s')" by fastforce
  show ?thesis
  proof (cases x)
    case Inl
    with c have "s' = s" by (auto simp: BindAuthorizationRequestUser_def split: if_splits option.splits)
    with c OaBind show ?thesis by (intro none) simp
  next
    case (Inr u)
    with c have "BindAuthorizationRequestUser e h org subject s = (Inr u, s')" by simp
    then show ?thesis by (rule bind_ok) (use c OaBind in \<open>auto intro: bind\<close>)
  qed
next
  case (OaIssue e h code t)
  obtain x s' where c: "IssueAuthorizationCode e h code t s = (x, s')" by fastforce
  show ?thesis
  proof (cases x)
    case Inl
    with c have "s' = s" by (auto simp: IssueAuthorizationCode_def Let_def split: if_splits option.splits)
    with c OaIssue show ?thesis by (intro none) simp
  next
    case (Inr u)
    with c have "IssueAuthorizationCode e h code t s = (Inr u, s')" by simp
    then show ?thesis by (rule issue_ok) (use c OaIssue in \<open>auto intro: issue\<close>)
  qed
next
  case (OaConsume e code)
  obtain x s' where c: "ConsumeAuthorizationCode e code s = (x, s')" by fastforce
  show ?thesis
  proof (cases x)
    case Inl
    with c have "s' = s" by (auto simp: ConsumeAuthorizationCode_def Let_def split: if_splits option.splits)
    with c OaConsume show ?thesis by (intro none) simp
  next
    case (Inr u)
    with c have "ConsumeAuthorizationCode e code s = (Inr u, s')" by simp
    then show ?thesis by (rule consume_ok) (use c OaConsume in \<open>auto intro: consume\<close>)
  qed
qed

lemma request_evolves_at:
  "map_of m h = Some r \<Longrightarrow> request_evolves r r' \<Longrightarrow> map_evolves request_evolves m (put h r' m)"
  by (rule request_evolution.map_put) simp

lemma oauth_step_evolves: "oauth_evolves s (oauth_step parse op s)"
proof (cases rule: oauth_step_cases [of parse op s])
  case (bind h r org subject)
  then have "request_evolves r (r\<lparr>ar_BoundOrgID := org, ar_BoundSubject := subject\<rparr>)" by (auto simp: request_evolves_def)
  with bind show ?thesis by (simp add: oauth_evolves_def map_evolves_intros request_evolves_at)
next
  case (issue h r code t)
  then have "request_evolves r (r\<lparr>ar_CodeHash := Some code, ar_CodeExpiresAt := Some t\<rparr>)" by (simp add: request_evolves_def)
  with issue show ?thesis by (simp add: oauth_evolves_def map_evolves_intros request_evolves_at)
next
  case (consume h r code now)
  then have "request_evolves r (r\<lparr>ar_ConsumedAt := Some now\<rparr>)" by (simp add: request_evolves_def)
  with consume show ?thesis by (simp add: oauth_evolves_def map_evolves_intros request_evolves_at)
qed (simp_all add: oauth_evolves_def map_evolves_intros)

lemma codes_okD:
  assumes "codes_ok s"
  shows "map_of (os_byCode s) code = Some h \<Longrightarrow> \<exists>r. map_of (os_byHandle s) h = Some r \<and> ar_CodeHash r = Some code"
    and "map_of (os_byHandle s) h = Some r \<Longrightarrow> ar_HandleHash r = h"
    and "map_of (os_byHandle s) h = Some r \<Longrightarrow> ar_CodeHash r = Some code \<Longrightarrow> map_of (os_byCode s) code = Some h"
    and "map_of (os_byHandle s) h = Some r \<Longrightarrow> ar_CodeHash r = None \<Longrightarrow> ar_ConsumedAt r = None"
    and "map_of (os_byHandle s) h = Some r \<Longrightarrow> map_of (os_byDeviceCode s) (ar_DeviceCodeHash r) = Some h"
  using assms unfolding codes_ok_def by (blast dest: map_option_eq_Some [THEN iffD1])+

lemma codes_okI:
  assumes "\<And>code h. map_of (os_byCode s) code = Some h \<Longrightarrow> \<exists>r. map_of (os_byHandle s) h = Some r \<and> ar_CodeHash r = Some code"
    "\<And>h r. map_of (os_byHandle s) h = Some r \<Longrightarrow> ar_HandleHash r = h"
    "\<And>h r code. map_of (os_byHandle s) h = Some r \<Longrightarrow> ar_CodeHash r = Some code \<Longrightarrow> map_of (os_byCode s) code = Some h"
    "\<And>h r. map_of (os_byHandle s) h = Some r \<Longrightarrow> ar_CodeHash r = None \<Longrightarrow> ar_ConsumedAt r = None"
    "\<And>h r. map_of (os_byHandle s) h = Some r \<Longrightarrow> map_of (os_byDeviceCode s) (ar_DeviceCodeHash r) = Some h"
  shows "codes_ok s"
  using assms unfolding codes_ok_def map_option_eq_Some by blast

lemma codes_ok_change:
  assumes ok: "codes_ok s" and r: "map_of (os_byHandle s) h = Some r" "ar_HandleHash r' = ar_HandleHash r" "ar_DeviceCodeHash r' = ar_DeviceCodeHash r"
    "ar_CodeHash r' = ar_CodeHash r" "ar_CodeHash r = None \<longrightarrow> ar_ConsumedAt r' = None"
  shows "codes_ok (s\<lparr>os_byHandle := put h r' (os_byHandle s)\<rparr>)"
proof (rule codes_okI, goal_cases)
  case (1 code k)
  then show ?case using codes_okD(1) [OF ok, of code k] r by (cases "k = h") (auto simp: map_simps)
qed (use r codes_okD(2-5) [OF ok] in \<open>auto simp: map_simps split: if_splits\<close>)

lemma codes_ok_request:
  assumes ok: "codes_ok s" and r: "\<not> has_key (os_byHandle s) (ar_HandleHash r)" "\<not> has_key (os_byDeviceCode s) (ar_DeviceCodeHash r)"
    "ar_CodeHash r = None" "ar_ConsumedAt r = None"
  shows "codes_ok (s\<lparr>os_byHandle := put (ar_HandleHash r) r (os_byHandle s), os_byDeviceCode := put (ar_DeviceCodeHash r) (ar_HandleHash r) (os_byDeviceCode s)\<rparr>)"
proof (rule codes_okI, goal_cases)
  case (1 code k)
  then show ?case using codes_okD(1) [OF ok, of code k] r(1) by (cases "k = ar_HandleHash r") (auto simp: map_simps has_key_def)
next
  case (5 k q)
  then show ?case using codes_okD(5) [OF ok, of k q] r(1,2) by (cases "k = ar_HandleHash r") (auto simp: map_simps has_key_def)
qed (use r codes_okD(2-4) [OF ok] in \<open>auto simp: map_simps split: if_splits\<close>)

lemma codes_ok_issue:
  assumes ok: "codes_ok s" and r: "map_of (os_byHandle s) h = Some r" "ar_CodeHash r = None" "\<not> has_key (os_byCode s) code"
  shows "codes_ok (s\<lparr>os_byHandle := put h (r\<lparr>ar_CodeHash := Some code, ar_CodeExpiresAt := Some t\<rparr>) (os_byHandle s), os_byCode := put code h (os_byCode s)\<rparr>)"
proof (rule codes_okI, goal_cases)
  case (1 c k)
  then show ?case using codes_okD(1) [OF ok, of c k] r(1,2) by (cases "k = h"; cases "c = code") (auto simp: map_simps)
next
  case (3 k q c)
  then show ?case using codes_okD(3) [OF ok, of k q c] r(3) by (cases "k = h"; cases "c = code") (auto simp: map_simps has_key_def)
qed (use r codes_okD(2,4,5) [OF ok] in \<open>auto simp: map_simps split: if_splits\<close>)

lemma codes_ok_step: "codes_ok s \<Longrightarrow> codes_ok (oauth_step parse op s)"
proof (cases rule: oauth_step_cases [of parse op s])
  case (request r)
  assume ok: "codes_ok s"
  have "ar_CodeHash r = None" "ar_ConsumedAt r = None" using request(1) by (auto simp: ValidateOAuthAuthorizationRequest_def)
  with ok request show ?thesis by (simp add: codes_ok_request)
next
  case (bind h r org subject)
  assume ok: "codes_ok s"
  from codes_okD(4) [OF ok bind(1)] ok bind show ?thesis by (simp add: codes_ok_change)
qed (simp_all add: codes_ok_issue codes_ok_change, simp add: codes_ok_def)

interpretation oauth_machine: evolving_machine "oauth_step parse" "\<lambda>_ _. True" codes_ok oauth_evolves
  by unfold_locales (auto intro: codes_ok_step oauth_step_evolves oauth_evolves_trans)

definition reachable_oauth :: "url_parser \<Rightarrow> oauth_store \<Rightarrow> bool" where
  "reachable_oauth parse s \<longleftrightarrow> (\<exists>ops. s = run_ops (oauth_step parse) ops NewOAuthStore)"

lemma reachable_oauth_ok: "reachable_oauth parse s \<Longrightarrow> codes_ok s"
proof -
  have "codes_ok NewOAuthStore" by (simp add: codes_ok_def NewOAuthStore_def)
  then show "reachable_oauth parse s \<Longrightarrow> ?thesis" using oauth_machine.run_inv [of NewOAuthStore parse] by (auto simp: reachable_oauth_def)
qed

lemma reachable_oauth_run: "reachable_oauth parse s \<Longrightarrow> reachable_oauth parse (run_ops (oauth_step parse) ops s)"
  unfolding reachable_oauth_def by (metis run_ops_append)

lemma oauth_run_evolves: "codes_ok s \<Longrightarrow> oauth_evolves s (run_ops (oauth_step parse) ops s)"
  using oauth_machine.run_rel [of s parse ops] by simp

lemma request_after:
  assumes "reachable_oauth parse s" "map_of (os_byHandle s) h = Some r"
  obtains r' where "map_of (os_byHandle (run_ops (oauth_step parse) ops s)) h = Some r'" "request_evolves r r'"
  using oauth_run_evolves [OF reachable_oauth_ok [OF assms(1)], of parse ops] assms(2) by (auto simp: oauth_evolves_def elim: map_evolves_at)

lemma code_after:
  assumes "reachable_oauth parse s" "map_of (os_byCode s) c = Some h"
  shows "map_of (os_byCode (run_ops (oauth_step parse) ops s)) c = Some h"
  using oauth_run_evolves [OF reachable_oauth_ok [OF assms(1)], of parse ops] assms(2) by (auto simp: oauth_evolves_def elim: map_evolves_at)

lemma reachable_new_oauth: "reachable_oauth parse NewOAuthStore"
  unfolding reachable_oauth_def by (rule exI [of _ "[]"]) simp

lemma reachable_ex_requests: "reachable_oauth ex_parse ex_requests"
  using reachable_oauth_run [OF reachable_new_oauth, of ex_parse "[OaRequest (ex_env Hour) ex_request]"] by (simp add: ex_requests_def)

lemma reachable_ex_coded: "reachable_oauth ex_parse ex_coded"
  using reachable_oauth_run [OF reachable_ex_requests, of "[OaIssue (ex_env Hour) (ex_secret (CHR ''h'')) (ex_secret (CHR ''c'')) (Hour + 2 * Minute)]"]
  by (simp add: ex_coded_def)

definition authorized :: "authorization_request \<Rightarrow> string list" where
  "authorized r = [ar_HandleHash r, ar_DeviceCodeHash r, ar_ClientID r, ar_ClientKind r, ar_RedirectURI r, ar_CodeChallenge r, ar_Resource r, ar_Scope r, ar_State r]"

lemma request_evolves_fields:
  assumes "request_evolves r r'"
  shows "authorized r' = authorized r" "ar_ExpiresAt r' = ar_ExpiresAt r" "ar_CreatedAt r' = ar_CreatedAt r"
proof -
  have eq: "r'\<lparr>ar_CodeHash := None, ar_CodeExpiresAt := None, ar_ConsumedAt := None, ar_BoundOrgID := '''', ar_BoundSubject := ''''\<rparr> =
     r\<lparr>ar_CodeHash := None, ar_CodeExpiresAt := None, ar_ConsumedAt := None, ar_BoundOrgID := '''', ar_BoundSubject := ''''\<rparr>"
    using assms by (simp add: request_evolves_def)
  from arg_cong [OF eq, of authorized] show "authorized r' = authorized r" by (simp add: authorized_def)
  from arg_cong [OF eq, of ar_ExpiresAt] arg_cong [OF eq, of ar_CreatedAt]
  show "ar_ExpiresAt r' = ar_ExpiresAt r" "ar_CreatedAt r' = ar_CreatedAt r" by simp_all
qed

section \<open>Authorization codes\<close>

lemma code_spent:
  assumes "reachable_oauth parse s" "ConsumeAuthorizationCode e code s = (Inr r, s1)"
    and t: "t = run_ops (oauth_step parse) ops s1"
  shows "ConsumeAuthorizationCode e' code t =
    (Inl (if env_err e' 0 \<or> env_err e' 1 then OaCanceled else ErrOAuthAuthorizationCodeUnavailable), t)"
proof -
  have s1: "s1 = run_ops (oauth_step parse) [OaConsume e code] s" using assms(2) by simp
  have reach: "reachable_oauth parse s1" unfolding s1 by (rule reachable_oauth_run [OF assms(1)])
  obtain h q x where c: "map_of (os_byCode s) code = Some h" "map_of (os_byHandle s) h = Some q" "ar_CodeHash q = Some code"
    "ar_CodeExpiresAt q = Some x" "env_now e < x" "ar_ConsumedAt q = None" "r = q\<lparr>ar_ConsumedAt := Some (env_now e)\<rparr>" "s1 = s\<lparr>os_byHandle := put h r (os_byHandle s)\<rparr>"
    using assms(2) by (rule consume_ok)
  have "map_of (os_byHandle s1) h = Some r" using c(8) by (simp add: map_simps)
  with reach obtain r' where r': "map_of (os_byHandle (run_ops (oauth_step parse) ops s1)) h = Some r'" "request_evolves r r'"
    by (rule request_after)
  have "map_of (os_byCode s1) code = Some h" using c(1,8) by simp
  note k = code_after [OF reach this, of ops]
  have "ar_ConsumedAt r' \<noteq> None" using r'(2) c(7) by (simp add: request_evolves_def)
  then show ?thesis using k r'(1) unfolding t by (simp add: ConsumeAuthorizationCode_def)
qed

text \<open>
  An authorization code is used once. After a code was exchanged, at any later state, the same code is
  refused, in the very way an unknown code is, unless the request itself is cut off.
\<close>

theorem authorization_code_is_single_use:
  assumes "reachable_oauth parse s" "ConsumeAuthorizationCode e code s = (Inr r, s1)"
    and t: "t = run_ops (oauth_step parse) ops s1"
  shows "ConsumeAuthorizationCode e' code t =
    (Inl (if env_err e' 0 \<or> env_err e' 1 then OaCanceled else ErrOAuthAuthorizationCodeUnavailable), t)"
  by (rule code_spent [OF assms])

theorem authorization_code_is_single_use_witness:
  "let code = ex_secret (CHR ''c''); s1 = snd (ConsumeAuthorizationCode (ex_env (Hour + Minute)) code ex_coded)
   in \<not> isl (fst (ConsumeAuthorizationCode (ex_env (Hour + Minute)) code ex_coded)) \<and>
      ConsumeAuthorizationCode (ex_env (Hour + Minute)) code s1 = (Inl ErrOAuthAuthorizationCodeUnavailable, s1)"
proof -
  let ?c = "ex_secret (CHR ''c'')"
  let ?R = "ConsumeAuthorizationCode (ex_env (Hour + Minute)) ?c ex_coded"
  have "map_sum (\<lambda>_. ()) (\<lambda>_. ()) (fst ?R) = Inr ()" by code_simp
  then obtain r where R: "?R = (Inr r, snd ?R)" by (rule result_pair)
  have run: "snd ?R = run_ops (oauth_step ex_parse) [] (snd ?R)" by simp
  from authorization_code_is_single_use [OF reachable_ex_coded R run, of "ex_env (Hour + Minute)"]
  have "ConsumeAuthorizationCode (ex_env (Hour + Minute)) ?c (snd ?R) = (Inl ErrOAuthAuthorizationCodeUnavailable, snd ?R)"
    by (simp add: ex_env_def)
  moreover have "\<not> isl (fst ?R)" using arg_cong [OF R, of fst] by simp
  ultimately show ?thesis by (simp add: Let_def)
qed

text \<open>
  What a code is exchanged for is what was authorized. The request a code returns is the one it was issued
  for, with the client, redirect URI, PKCE challenge, resource, scope and state that were verified when it
  was stored, at a time before the expiry of the code.
\<close>

theorem code_returns_what_was_authorized:
  assumes "reachable_oauth parse s" "CreateAuthorizationRequest parse e r s = (Inr q, s1)"
    and "IssueAuthorizationCode e1 (ar_HandleHash r) code t (run_ops (oauth_step parse) ops s1) = (Inr q1, s2)"
    and "ConsumeAuthorizationCode e2 code (run_ops (oauth_step parse) ops' s2) = (Inr q2, s3)"
  shows "authorized q2 = authorized r \<and> env_now e2 < t \<and> env_now e1 < ar_ExpiresAt r"
proof -
  let ?a = "run_ops (oauth_step parse) ops s1" and ?b = "run_ops (oauth_step parse) ops' s2"
  have s1: "s1 = run_ops (oauth_step parse) [OaRequest e r] s" using assms(2) by simp
  have reach: "reachable_oauth parse s1" unfolding s1 by (rule reachable_oauth_run [OF assms(1)])
  have s2: "s2 = run_ops (oauth_step parse) [OaIssue e1 (ar_HandleHash r) code t] ?a" using assms(3) by simp
  have reach2: "reachable_oauth parse s2" unfolding s2 by (intro reachable_oauth_run reach)
  have "map_of (os_byHandle s1) (ar_HandleHash r) = Some r"
    using assms(2) by (auto simp: CreateAuthorizationRequest_def map_simps split: if_splits)
  with reach obtain r1 where r1: "map_of (os_byHandle ?a) (ar_HandleHash r) = Some r1" "request_evolves r r1" by (rule request_after)
  obtain r1' where i: "map_of (os_byHandle ?a) (ar_HandleHash r) = Some r1'" "env_now e1 < ar_ExpiresAt r1'" "ar_CodeHash r1' = None"
    "\<not> has_key (os_byCode ?a) code" "q1 = r1'\<lparr>ar_CodeHash := Some code, ar_CodeExpiresAt := Some t\<rparr>"
    "s2 = ?a\<lparr>os_byHandle := put (ar_HandleHash r) q1 (os_byHandle ?a), os_byCode := put code (ar_HandleHash r) (os_byCode ?a)\<rparr>"
    using assms(3) by (rule issue_ok)
  have "map_of (os_byHandle s2) (ar_HandleHash r) = Some q1" using i(6) by (simp add: map_simps)
  with reach2 obtain r2 where r2: "map_of (os_byHandle ?b) (ar_HandleHash r) = Some r2" "request_evolves q1 r2" by (rule request_after)
  have "map_of (os_byCode s2) code = Some (ar_HandleHash r)" using i(6) by (simp add: map_simps)
  note k = code_after [OF reach2 this, of ops']
  obtain h q' t' where c: "map_of (os_byCode ?b) code = Some h" "map_of (os_byHandle ?b) h = Some q'" "ar_CodeHash q' = Some code" "ar_CodeExpiresAt q' = Some t'"
    "env_now e2 < t'" "ar_ConsumedAt q' = None" "q2 = q'\<lparr>ar_ConsumedAt := Some (env_now e2)\<rparr>" "s3 = ?b\<lparr>os_byHandle := put h q2 (os_byHandle ?b)\<rparr>"
    using assms(4) by (rule consume_ok)
  have "q' = r2" using c(1,2) k r2(1) by simp
  moreover have "t' = t" using c(4) r2(2) i(5) \<open>q' = r2\<close> by (simp add: request_evolves_def)
  moreover have "r1' = r1" using i(1) r1(1) by simp
  moreover have "authorized q2 = authorized q'" "authorized q1 = authorized r1'" using c(7) i(5) by (simp_all add: authorized_def)
  ultimately show ?thesis using request_evolves_fields [OF r1(2)] request_evolves_fields [OF r2(2)] c(5) i(2) by simp
qed

theorem code_returns_what_was_authorized_witness:
  "\<exists>q. fst (ConsumeAuthorizationCode (ex_env (Hour + Minute)) (ex_secret (CHR ''c'')) ex_coded) = Inr q \<and> authorized q = authorized ex_request"
proof -
  let ?A = "CreateAuthorizationRequest ex_parse (ex_env Hour) ex_request NewOAuthStore"
  let ?B = "IssueAuthorizationCode (ex_env Hour) (ex_secret (CHR ''h'')) (ex_secret (CHR ''c'')) (Hour + 2 * Minute) ex_requests"
  let ?C = "ConsumeAuthorizationCode (ex_env (Hour + Minute)) (ex_secret (CHR ''c'')) ex_coded"
  have "map_sum (\<lambda>_. ()) (\<lambda>_. ()) (fst ?A) = Inr ()" by code_simp
  then obtain a where A: "?A = (Inr a, snd ?A)" by (rule result_pair)
  have "map_sum (\<lambda>_. ()) (\<lambda>_. ()) (fst ?B) = Inr ()" by code_simp
  then obtain b where B: "?B = (Inr b, snd ?B)" by (rule result_pair)
  have "map_sum (\<lambda>_. ()) (\<lambda>_. ()) (fst ?C) = Inr ()" by code_simp
  then obtain c where C: "?C = (Inr c, snd ?C)" by (rule result_pair)
  have h: "ar_HandleHash ex_request = ex_secret (CHR ''h'')" by (simp add: ex_request_def)
  have B': "IssueAuthorizationCode (ex_env Hour) (ar_HandleHash ex_request) (ex_secret (CHR ''c'')) (Hour + 2 * Minute)
      (run_ops (oauth_step ex_parse) [] (snd ?A)) = (Inr b, snd ?B)" using B by (simp add: h ex_requests_def)
  have C': "ConsumeAuthorizationCode (ex_env (Hour + Minute)) (ex_secret (CHR ''c'')) (run_ops (oauth_step ex_parse) [] (snd ?B)) = (Inr c, snd ?C)"
    using C by (simp add: ex_coded_def)
  from code_returns_what_was_authorized [OF reachable_new_oauth A B' C'] have "authorized c = authorized ex_request" by simp
  moreover have "fst ?C = Inr c" using arg_cong [OF C, of fst] by simp
  ultimately show ?thesis by blast
qed

section \<open>The user of a request\<close>

text \<open>
  The first user to open a request owns it. Once a request is bound, at any later state, the same user is
  accepted again, every other user gets a conflict, and the request stays bound to the first.
\<close>

theorem first_binder_owns_the_request:
  assumes "reachable_oauth parse s" "BindAuthorizationRequestUser e h org subject s = (Inr (), s1)"
    and t: "t = run_ops (oauth_step parse) ops s1"
    and live: "\<not> env_err e' 0" "\<not> env_err e' 1" and "org' \<noteq> ''''" "subject' \<noteq> ''''"
  shows "fst (BindAuthorizationRequestUser e' h org' subject' t) = (if org' = org \<and> subject' = subject then Inr () else Inl OaConflict) \<and>
    (\<exists>r. map_of (os_byHandle t) h = Some r \<and> ar_BoundOrgID r = org \<and> ar_BoundSubject r = subject)"
proof -
  have s1: "s1 = run_ops (oauth_step parse) [OaBind e h org subject] s" using assms(2) by simp
  have reach: "reachable_oauth parse s1" unfolding s1 by (rule reachable_oauth_run [OF assms(1)])
  have nz: "\<not> hash_IsZero h" using assms(2) by (auto simp: BindAuthorizationRequestUser_def split: if_splits)
  obtain q where b: "map_of (os_byHandle s) h = Some q" "ar_BoundSubject q = '''' \<or> ar_BoundOrgID q = org \<and> ar_BoundSubject q = subject"
    "s1 = s\<lparr>os_byHandle := put h (q\<lparr>ar_BoundOrgID := org, ar_BoundSubject := subject\<rparr>) (os_byHandle s)\<rparr>" "subject \<noteq> ''''"
    using assms(2) by (rule bind_ok)
  have "map_of (os_byHandle s1) h = Some (q\<lparr>ar_BoundOrgID := org, ar_BoundSubject := subject\<rparr>)" using b(3) by (simp add: map_simps)
  with reach obtain r where r: "map_of (os_byHandle t) h = Some r" "request_evolves (q\<lparr>ar_BoundOrgID := org, ar_BoundSubject := subject\<rparr>) r"
    unfolding t by (rule request_after)
  have bound: "ar_BoundOrgID r = org" "ar_BoundSubject r = subject" using r(2) b(4) by (auto simp: request_evolves_def)
  with r(1) b(4) nz live assms(6,7) show ?thesis
    by (auto simp: BindAuthorizationRequestUser_def)
qed

theorem first_binder_owns_the_request_witness:
  "let s1 = snd (BindAuthorizationRequestUser (ex_env Hour) (ex_secret (CHR ''h'')) ''org1'' ''user1'' ex_requests)
   in fst (BindAuthorizationRequestUser (ex_env Hour) (ex_secret (CHR ''h'')) ''org1'' ''user2'' s1) = Inl OaConflict"
proof -
  let ?R = "BindAuthorizationRequestUser (ex_env Hour) (ex_secret (CHR ''h'')) ''org1'' ''user1'' ex_requests"
  have "fst ?R = Inr ()" by code_simp
  then have R: "?R = (Inr (), snd ?R)" by (metis prod.collapse)
  have run: "snd ?R = run_ops (oauth_step ex_parse) [] (snd ?R)" by simp
  from first_binder_owns_the_request [OF reachable_ex_requests R run, of "ex_env Hour" "''org1''" "''user2''"]
  show ?thesis by (simp add: ex_env_def Let_def)
qed

text \<open>
  What the in-memory store does for a dynamic client that was never registered, or was purged: it stores the
  authorization request. The interface promises \<^verbatim>\<open>ErrOAuthClientGone\<close> and that nothing is stored.
\<close>

theorem request_of_unknown_client_is_stored:
  "ar_ClientKind ex_request = OAuthClientKindDynamic \<and> GetClient (ex_env Hour) (ar_ClientID ex_request) NewOAuthStore = Inl OaNotFound \<and>
   fst (CreateAuthorizationRequest ex_parse (ex_env Hour) ex_request NewOAuthStore) = Inr ex_request \<and>
   GetAuthorizationRequest (ex_env Hour) (ar_HandleHash ex_request) ex_requests = Inr ex_request"
  by code_simp

section \<open>Redirect URIs\<close>

lemma url_Port_digits: "list_all is_digit (url_Port u)"
  by (auto simp: url_Port_def port_digits_def list_all_iff dest: set_takeWhileD)

text \<open>
  A presented redirect URI never differs from the registered one in more than a port. When it matches, the
  two are equal, or the registered one names a loopback host (localhost only when that is allowed) and no
  port, and the presented one is the same text with a colon and a port of digits after the host; whatever
  \<^verbatim>\<open>url.Parse\<close> answers.
\<close>

theorem redirect_match_widens_the_port_only:
  assumes "MatchOAuthRedirectURI parse registered presented allowLocalhost"
  shows "presented = registered \<or>
    (\<exists>before port after reg. parse registered = Some reg \<and> url_Port reg = '''' \<and> isLoopbackRedirectHost (url_Hostname reg) allowLocalhost \<and>
       registered = before @ after \<and> presented = before @ CHR '':'' # port @ after \<and> port \<noteq> '''' \<and> list_all is_digit port)"
proof (cases "registered = presented")
  case False
  with assms obtain reg pres where p: "parse registered = Some reg" "parse presented = Some pres" "url_Port reg = ''''"
      "isLoopbackRedirectHost (url_Hostname reg) allowLocalhost" "url_Port pres \<noteq> ''''"
      "has_prefix presented (u_Scheme pres @ ''://'' @ u_Host pres)"
      "u_Scheme pres @ ''://'' @ trim_suffix (u_Host pres) (CHR '':'' # url_Port pres) @ drop (length (u_Scheme pres @ ''://'' @ u_Host pres)) presented = registered"
    by (auto simp: MatchOAuthRedirectURI_def Let_def split: option.splits if_splits)
  obtain rest where rest: "presented = (u_Scheme pres @ ''://'' @ u_Host pres) @ rest" using p(6) by (auto simp: has_prefix_iff)
  have dropped: "drop (length (u_Scheme pres @ ''://'' @ u_Host pres)) presented = rest" unfolding rest by (rule append_eq_conv_conj [THEN iffD1, THEN conjunct2, symmetric]) simp
  have "has_suffix (u_Host pres) (CHR '':'' # url_Port pres)"
  proof (rule ccontr)
    assume "\<not> has_suffix (u_Host pres) (CHR '':'' # url_Port pres)"
    then have "trim_suffix (u_Host pres) (CHR '':'' # url_Port pres) = u_Host pres" by (simp add: trim_suffix_def)
    with p(7) dropped rest False show False by simp
  qed
  then obtain host where host: "u_Host pres = host @ CHR '':'' # url_Port pres" by (auto simp: has_suffix_iff)
  have "trim_suffix (u_Host pres) (CHR '':'' # url_Port pres) = host" by (subst host) (rule trim_suffix_append)
  with p(7) dropped have reg: "registered = (u_Scheme pres @ ''://'' @ host) @ rest" by simp
  have pres: "presented = (u_Scheme pres @ ''://'' @ host) @ CHR '':'' # url_Port pres @ rest" unfolding rest by (subst host) simp
  from p(1,3,4,5) reg pres url_Port_digits show ?thesis by blast
qed simp

theorem redirect_match_widens_the_port_only_witness:
  "MatchOAuthRedirectURI ex_loopback ''http://127.0.0.1/cb'' ''http://127.0.0.1:8080/cb'' False \<and>
   (\<exists>before port after. ''http://127.0.0.1/cb'' = before @ after \<and> ''http://127.0.0.1:8080/cb'' = before @ CHR '':'' # port @ after \<and> port \<noteq> [])"
proof -
  have m: "MatchOAuthRedirectURI ex_loopback ''http://127.0.0.1/cb'' ''http://127.0.0.1:8080/cb'' False" by code_simp
  from redirect_match_widens_the_port_only [OF this] m show ?thesis by auto
qed

section \<open>Hashes\<close>

lemma hex_value_digit: "n < 16 \<Longrightarrow> hex_value (hex_digit n) = Some n"
  by (auto simp: hex_value_def hex_digit_def byte_of_nat Let_def)

lemma nibbles: "of_char c div 16 < (16 :: nat)" "of_char c mod 16 < (16 :: nat)"
  using nat_of_char_less_256 [of c] less_mult_imp_div_less [of "of_char c" 16 16] by simp_all

lemma hex_decode_encode: "hex_DecodeString (hex_EncodeToString bs) = Some bs"
proof (induction bs)
  case (Cons c bs)
  note n = nibbles [of c]
  have "(char_of (16 * (of_char c div 16) + of_char c mod 16 :: nat) :: char) = char_of (of_char c :: nat)"
    by (simp only: mult_div_mod_eq)
  with Cons show ?case by (simp add: hex_EncodeToString_def hex_value_digit [OF n(1)] hex_value_digit [OF n(2)])
qed (simp add: hex_EncodeToString_def)

lemma hex_digit_plain: "n < 16 \<Longrightarrow> is_hex (hex_digit n)"
  by (auto simp: hex_digit_def is_hex_def is_digit_def byte_of_nat)

lemma hex_text: "list_all is_hex (hex_EncodeToString bs)"
proof (induction bs)
  case (Cons c bs)
  note n = nibbles [of c]
  with Cons show ?case by (simp add: hex_EncodeToString_def hex_digit_plain)
qed (simp add: hex_EncodeToString_def)

lemma hex_byte: "is_hex c \<Longrightarrow> 33 \<le> byte_of c \<and> byte_of c < 128"
  by (auto simp: is_hex_def is_digit_def)

lemma TrimSpace_hex: "list_all is_hex v \<Longrightarrow> TrimSpace v = v"
  by (intro TrimSpace_plain) (auto simp: list_all_iff dest: hex_byte)

text \<open>
  The stored text of a secret's hash reads back as the hash, and the id of a new dynamic client is one the
  server recognizes as its own, for every sixteen random bytes.
\<close>

theorem hash_text_round_trip:
  "(length h = hash_size \<longrightarrow> ParseOAuthSecretHash (hash_String h) = Inr h) \<and>
   (length random = dynamicOAuthClientIDBytes \<longrightarrow> IsDynamicOAuthClientID (NewDynamicOAuthClientID random))"
proof (intro conjI impI)
  show "ParseOAuthSecretHash (hash_String h) = Inr h" if "length h = hash_size"
    using that by (simp add: ParseOAuthSecretHash_def hash_String_def TrimSpace_hex [OF hex_text] hex_decode_encode)
  assume n: "length random = dynamicOAuthClientIDBytes"
  have ascii: "runes_of (hex_EncodeToString random) = map (\<lambda>c. \<lparr>seg_rune = byte_of c, seg_valid = True, seg_bytes = [byte_of c]\<rparr>) (hex_EncodeToString random)"
    using hex_text [of random] by (intro runes_of_ascii) (auto simp: list_all_iff dest: hex_byte)
  have "length (hex_EncodeToString random) = 2 * length random" by (induction random) (simp_all add: hex_EncodeToString_def)
  moreover have "list_all (\<lambda>c. \<not> ((byte_of c < 48 \<or> byte_of c > 57) \<and> (byte_of c < 97 \<or> byte_of c > 102))) (hex_EncodeToString random)"
    using hex_text [of random] by (auto simp: list_all_iff is_hex_def is_digit_def)
  ultimately show "IsDynamicOAuthClientID (NewDynamicOAuthClientID random)"
    using n ascii by (simp add: IsDynamicOAuthClientID_def NewDynamicOAuthClientID_def list_all_iff)
qed

theorem hash_text_round_trip_witness:
  "ParseOAuthSecretHash (hash_String (ex_secret (CHR ''c''))) = Inr (ex_secret (CHR ''c'')) \<and>
   IsDynamicOAuthClientID (NewDynamicOAuthClientID (replicate 16 (CHR ''r'')))"
proof -
  have "length (ex_secret (CHR ''c'')) = hash_size" "length (replicate 16 (CHR ''r'')) = dynamicOAuthClientIDBytes"
    by (simp_all add: ex_secret_def hash_size_def dynamicOAuthClientIDBytes_def)
  with hash_text_round_trip [of "ex_secret (CHR ''c'')" "replicate 16 (CHR ''r'')"] show ?thesis by blast
qed

end
