(* ===== verification/Device_Machine.thy ===== *)
theory Device_Machine
  imports Device_Store Credential_Client Map_Evolution
begin

text \<open>
  Device authorizations as a state machine. The step relation \<open>device_move\<close> has one rule for each change a record
  can undergo; every operation of the store makes at most one move, of one record, or adds a pending one
  (\<open>device_step_cases\<close>). A record therefore evolves along the reflexive transitive closure of the relation,
  which the interpretations below carry to the map and to runs.
\<close>

section \<open>Moves of a record\<close>

definition approved_record :: "device_authorization \<Rightarrow> device_approval \<Rightarrow> time \<Rightarrow> device_authorization" where
  "approved_record r g now = r\<lparr>da_State := DeviceAuthorizationStateApproved, da_AuthorizedOrgID := dp_OrgID g,
     da_AuthorizedRepositoryScopes := dp_RepositoryScopes g, da_AuthorizedScopes := dp_Scopes g,
     da_ApprovingSubject := dp_ApprovingSubject g, da_ApprovingAuthenticationMethod := dp_ApprovingAuthenticationMethod g,
     da_ApprovingSessionID := dp_ApprovingSessionID g, da_ApprovedAt := Some now\<rparr>"

inductive device_move :: "device_authorization \<Rightarrow> device_authorization \<Rightarrow> bool" where
  expire: "da_State r \<in> {DeviceAuthorizationStatePending, DeviceAuthorizationStateApproved} \<Longrightarrow>
    device_move r (r\<lparr>da_State := DeviceAuthorizationStateExpired\<rparr>)"
| poll: "\<not> Terminal (da_State r) \<Longrightarrow> device_move r (r\<lparr>da_LastPollAt := Some now\<rparr>)"
| approve: "da_State r = DeviceAuthorizationStatePending \<Longrightarrow> ValidateDeviceAuthorizationGrant g \<Longrightarrow> device_move r (approved_record r g now)"
| deny: "da_State r = DeviceAuthorizationStatePending \<Longrightarrow> device_move r (r\<lparr>da_State := DeviceAuthorizationStateDenied\<rparr>)"
| redeem: "da_State r = DeviceAuthorizationStateApproved \<Longrightarrow> credential_id_ok cid \<Longrightarrow> device_move r (redeemed_record r now cid ackable)"
| replace: "AckWindowOpen r now \<Longrightarrow> credential_id_ok cid \<Longrightarrow> cid \<noteq> da_RedeemedCredentialID r \<Longrightarrow> device_move r (redeemed_record r now cid True)"
| acknowledge: "da_AckRequired r \<Longrightarrow> da_CredentialAckedAt r = None \<Longrightarrow> device_move r (r\<lparr>da_CredentialAckedAt := Some now\<rparr>)"

inductive_cases device_moveE: "device_move r r'"

abbreviation device_moves :: "device_authorization \<Rightarrow> device_authorization \<Rightarrow> bool" where
  "device_moves \<equiv> device_move\<^sup>*\<^sup>*"

interpretation device_evolution: evolution device_moves
  by unfold_locales auto

text \<open>What every record keeps along its moves.\<close>

definition record_ok :: "device_authorization \<Rightarrow> bool" where
  "record_ok r \<longleftrightarrow>
     (da_State r \<in> {DeviceAuthorizationStateApproved, DeviceAuthorizationStateRedeemed} \<longrightarrow>
        ValidateDeviceAuthorizationGrant \<lparr>dp_OrgID = da_AuthorizedOrgID r, dp_RepositoryScopes = da_AuthorizedRepositoryScopes r,
          dp_Scopes = da_AuthorizedScopes r, dp_ApprovingSubject = da_ApprovingSubject r,
          dp_ApprovingAuthenticationMethod = da_ApprovingAuthenticationMethod r, dp_ApprovingSessionID = da_ApprovingSessionID r\<rparr>) \<and>
     (da_State r = DeviceAuthorizationStateRedeemed \<longleftrightarrow> da_RedeemedCredentialID r \<noteq> '''') \<and>
     (da_State r = DeviceAuthorizationStateRedeemed \<longleftrightarrow> da_RedeemedAt r \<noteq> None) \<and>
     (da_State r = DeviceAuthorizationStateRedeemed \<longrightarrow> credential_id_ok (da_RedeemedCredentialID r)) \<and>
     (da_AckRequired r \<longrightarrow> da_State r = DeviceAuthorizationStateRedeemed) \<and>
     (da_CredentialAckedAt r \<noteq> None \<longrightarrow> da_AckRequired r)"

lemma credential_id_nonempty [simp]: "\<not> credential_id_ok ''''"
  by (simp add: credential_id_ok_def)

lemma AckWindowOpen_state: "AckWindowOpen r now \<Longrightarrow> da_State r = DeviceAuthorizationStateRedeemed \<and> da_AckRequired r \<and> da_CredentialAckedAt r = None"
  by (simp add: AckWindowOpen_def CredentialUnacknowledged_def)

lemma approval_collapse [simp]: "\<lparr>dp_OrgID = dp_OrgID g, dp_RepositoryScopes = dp_RepositoryScopes g, dp_Scopes = dp_Scopes g,
    dp_ApprovingSubject = dp_ApprovingSubject g, dp_ApprovingAuthenticationMethod = dp_ApprovingAuthenticationMethod g,
    dp_ApprovingSessionID = dp_ApprovingSessionID g\<rparr> = g"
  by (cases g) simp

lemma record_ok_move: "device_move r r' \<Longrightarrow> record_ok r \<Longrightarrow> record_ok r'"
  by (induction rule: device_move.induct)
    (auto simp: record_ok_def approved_record_def redeemed_record_def Terminal_def dest: AckWindowOpen_state split: device_state.splits)

definition settled :: "device_authorization \<Rightarrow> bool" where
  "settled r \<longleftrightarrow> da_State r \<in> {DeviceAuthorizationStateDenied, DeviceAuthorizationStateExpired} \<and> \<not> da_AckRequired r \<or>
     da_State r = DeviceAuthorizationStateRedeemed \<and> (\<not> da_AckRequired r \<or> da_CredentialAckedAt r \<noteq> None)"

text \<open>A denied, expired or acknowledged record, and one redeemed for good, never moves again.\<close>

lemma settled_stuck: "settled r \<Longrightarrow> \<not> device_move r r'"
  by (auto simp: settled_def Terminal_def elim!: device_moveE dest: AckWindowOpen_state)

lemma settled_moves: "device_moves r r' \<Longrightarrow> settled r \<Longrightarrow> r' = r"
  by (induction rule: rtranclp_induct) (auto simp: settled_stuck)

definition redeemed :: "device_authorization \<Rightarrow> bool" where
  "redeemed r \<longleftrightarrow> da_State r = DeviceAuthorizationStateRedeemed"

lemma redeemed_move: "device_move r r' \<Longrightarrow> redeemed r \<Longrightarrow> redeemed r'"
  by (induction rule: device_move.induct) (auto simp: redeemed_def approved_record_def redeemed_record_def Terminal_def)

lemma redeemed_moves: "device_moves r r' \<Longrightarrow> redeemed r \<Longrightarrow> redeemed r'"
  by (induction rule: rtranclp_induct) (auto intro: redeemed_move)

definition granted :: "device_authorization \<Rightarrow> string \<times> string list \<times> string list \<times> string \<times> string \<times> time option" where
  "granted r = (da_AuthorizedOrgID r, da_AuthorizedRepositoryScopes r, da_AuthorizedScopes r, da_ApprovingSubject r, da_ApprovingSessionID r, da_ApprovedAt r)"

lemma granted_move: "device_move r r' \<Longrightarrow> da_State r \<noteq> DeviceAuthorizationStatePending \<Longrightarrow>
    granted r' = granted r \<and> da_State r' \<noteq> DeviceAuthorizationStatePending"
  by (induction rule: device_move.induct) (auto simp: granted_def redeemed_record_def dest: AckWindowOpen_state)

lemma granted_moves: "device_moves r r' \<Longrightarrow> da_State r \<noteq> DeviceAuthorizationStatePending \<Longrightarrow>
    granted r' = granted r \<and> da_State r' \<noteq> DeviceAuthorizationStatePending"
  by (induction rule: rtranclp_induct) (auto dest: granted_move)

section \<open>The operations\<close>

datatype device_op =
    DvCreate "nat \<Rightarrow> env" device_create
  | DvGetDevice env secret_hash
  | DvGetUser env secret_hash
  | DvPoll "nat \<Rightarrow> env" secret_hash
  | DvApprove "nat \<Rightarrow> env" secret_hash device_approval
  | DvDeny env secret_hash
  | DvRedeem "nat \<Rightarrow> env" secret_hash create_input bool
  | DvAck "nat \<Rightarrow> env" "(secret_hash \<times> device_authorization) list" string string
  | DvSweep "nat \<Rightarrow> env" "(secret_hash \<times> device_authorization) list" int
  | DvCred credential_op  \<comment> \<open>any other use of the credential store\<close>

fun device_step :: "libs \<Rightarrow> device_op \<Rightarrow> device_store \<Rightarrow> device_store" where
  "device_step lib (DvCreate es i) s = snd (Device_Create es i s)"
| "device_step lib (DvGetDevice e h) s = snd (GetByDeviceCodeHash e h s)"
| "device_step lib (DvGetUser e h) s = snd (GetByUserCodeHash e h s)"
| "device_step lib (DvPoll es h) s = snd (Device_Poll es h s)"
| "device_step lib (DvApprove es h g) s = snd (Device_Approve es h g s)"
| "device_step lib (DvDeny e h) s = snd (Device_Deny e h s)"
| "device_step lib (DvRedeem es h i ackable) s = snd (redeem lib es h i ackable s)"
| "device_step lib (DvAck es order org cid) s = snd (AcknowledgeCredential es order org cid s)"
| "device_step lib (DvSweep es order limit) s = snd (RevokeUnacknowledged lib es order limit s)"
| "device_step lib (DvCred op) s = s\<lparr>ds_credentials := credential_step lib op (ds_credentials s)\<rparr>"

text \<open>A range over the map yields its entries, in any order.\<close>

fun ranges :: "device_op \<Rightarrow> device_store \<Rightarrow> bool" where
  "ranges (DvAck es order org cid) s = (mset order = mset (ds_byDevice s))"
| "ranges (DvSweep es order limit) s = (mset order = mset (ds_byDevice s))"
| "ranges _ s = True"

lemma deviceLocked_cases:
  assumes "deviceLocked e h s = (x, s')"
  obtains (fail) err where "x = Inl err" "s' = s"
    | (expired) r err where "map_of (ds_byDevice s) h = Some r" "da_State r \<in> {DeviceAuthorizationStatePending, DeviceAuthorizationStateApproved}"
      "x = Inl err" "\<not> env_now e < da_ExpiresAt r" "s' = store_device h (r\<lparr>da_State := DeviceAuthorizationStateExpired\<rparr>) s"
    | (found) r where "map_of (ds_byDevice s) h = Some r" "x = Inr r" "s' = s" "da_State r \<noteq> DeviceAuthorizationStateExpired"
      "da_State r \<in> {DeviceAuthorizationStatePending, DeviceAuthorizationStateApproved} \<Longrightarrow> env_now e < da_ExpiresAt r"
proof (cases "map_of (ds_byDevice s) h")
  case None
  with assms show ?thesis by (intro fail) (auto simp: deviceLocked_def)
next
  case (Some r)
  with assms show ?thesis
    using fail expired [OF Some] found [OF Some]
    by (cases "env_now e < da_ExpiresAt r"; cases "da_State r") (auto simp: deviceLocked_def Let_def)
qed

lemma redeem_cases:
  assumes "redeem lib es h i ackable s = (x, s')"
  obtains (fail) err cs' where "x = Inl err" "s' = s\<lparr>ds_credentials := cs'\<rparr>" "calls lib (ds_credentials s) cs'"
    | (expired) r err where "map_of (ds_byDevice s) h = Some r" "da_State r \<in> {DeviceAuthorizationStatePending, DeviceAuthorizationStateApproved}"
      "x = Inl err" "s' = store_device h (r\<lparr>da_State := DeviceAuthorizationStateExpired\<rparr>) s"
    | (minted) r i1 c cs1 where "map_of (ds_byDevice s) h = Some r" "da_State r = DeviceAuthorizationStateApproved" "env_now (es 0) < da_ExpiresAt r"
      "redeem_input r i = Some i1" "CreateCredential lib (es 3) i1 (ds_credentials s) = (Inr c, cs1)" "x = Inr c"
      "s' = store_device h (redeemed_record r (env_now (es 1)) (cc_CredentialID c) ackable) (s\<lparr>ds_credentials := cs1\<rparr>)"
    | (replaced) r i1 c cs1 y cs2 where "ackable" "map_of (ds_byDevice s) h = Some r" "AckWindowOpen r (env_now (es 1))" "redeem_input r i = Some i1"
      "CreateCredential lib (es 3) i1 (ds_credentials s) = (Inr c, cs1)" "revokeUnackedLocked lib (es 4) r cs1 = (Inr y, cs2)" "x = Inr c"
      "s' = store_device h (redeemed_record r (env_now (es 1)) (cc_CredentialID c) ackable) (s\<lparr>ds_credentials := cs2\<rparr>)"
proof (cases "env_err (es 0) 0")
  case True
  with assms show ?thesis by (intro fail [of DvCanceled "ds_credentials s"]) (auto simp: redeem_def)
next
  case go: False
  obtain y s1 where l: "deviceLocked (es 0) h s = (y, s1)" by fastforce
  from l show ?thesis
  proof (cases rule: deviceLocked_cases)
    case (fail err)
    with assms go l show ?thesis by (intro that(1) [of err "ds_credentials s"]) (auto simp: redeem_def)
  next
    case (expired r err)
    with assms go l show ?thesis by (intro that(2) [OF expired(1,2), of err]) (auto simp: redeem_def)
  next
    case (found r)
    show ?thesis
    proof (cases "redeemable es ackable r (ds_credentials s)")
      case (Inl err)
      with assms go l found show ?thesis by (intro that(1) [of err "ds_credentials s"]) (auto simp: redeem_def)
    next
      case ra: (Inr replacing)
      show ?thesis
      proof (cases "redeem_input r i")
        case None
        with assms go l found ra show ?thesis by (intro that(1) [of ErrInvalidDeviceAuthorization "ds_credentials s"]) (auto simp: redeem_def)
      next
        case ri: (Some i1)
        obtain z cs1 where c: "CreateCredential lib (es 3) i1 (ds_credentials s) = (z, cs1)" by fastforce
        have k1: "calls lib (ds_credentials s) cs1" using calls_create c by (metis snd_conv)
        show ?thesis
        proof (cases z)
          case (Inl err)
          with assms go l found ra ri c have "x = Inl (DvCredential err)" "s' = s\<lparr>ds_credentials := cs1\<rparr>" by (simp_all add: redeem_def)
          then show ?thesis using k1 by (rule that(1))
        next
          case z: (Inr cc)
          show ?thesis
          proof (cases "replacing = []")
            case True
            with ra have "da_State r = DeviceAuthorizationStateApproved"
              by (auto simp: redeemable_def CredentialUnacknowledged_def split: if_splits sum.splits)
            with assms go l found ra ri c z True show ?thesis
              by (intro that(3) [OF found(1) _ _ ri c [unfolded z]]) (auto simp: redeem_def)
          next
            case False
            then have w: "ackable" "AckWindowOpen r (env_now (es 1))" using ra by (auto simp: redeemable_def split: if_splits)
            obtain v cs2 where v: "revokeUnackedLocked lib (es 4) r cs1 = (v, cs2)" by fastforce
            have k2: "calls lib (ds_credentials s) cs2" using calls_trans [OF k1] calls_revoke v by (metis revokeUnackedLocked_def snd_conv)
            show ?thesis
            proof (cases v)
              case (Inr u)
              with assms go l found ra ri c z False v show ?thesis
                by (intro that(4) [OF w(1) found(1) w(2) ri c [unfolded z] v [unfolded Inr]]) (auto simp: redeem_def)
            next
              case (Inl err)
              let ?i = "ack_revocation (da_AuthorizedOrgID r) (cc_CredentialID cc) ''device credential replacement abandoned''"
              have "s' = s\<lparr>ds_credentials := snd (RevokeCredential lib (es 5) ?i cs2)\<rparr>" "\<exists>e. x = Inl e"
                using assms go l found ra ri c z False v Inl by (auto simp: redeem_def Let_def)
              with calls_trans [OF k2 calls_revoke [of lib cs2 "es 5" ?i]] show ?thesis using that(1) by blast
            qed
          qed
        qed
      qed
    qed
  qed
qed

lemma revoke_overdue_calls: "calls lib cs (snd (revoke_overdue lib es now limit order revoked cs))"
proof (induction order arbitrary: es revoked cs)
  case (Cons p order)
  obtain h r where p: "p = (h, r)" by (cases p)
  obtain v cs1 where v: "revokeUnackedLocked lib (es 1) r cs = (v, cs1)" by fastforce
  then have "calls lib cs cs1" using calls_revoke by (metis revokeUnackedLocked_def snd_conv)
  with v p Cons.IH show ?case by (auto split: sum.splits intro: calls_trans)
qed simp

section \<open>Steps of the store\<close>

text \<open>A move that issues no credential.\<close>

definition small_move :: "device_authorization \<Rightarrow> device_authorization \<Rightarrow> bool" where
  "small_move r r' \<longleftrightarrow> device_move r r' \<and> da_RedeemedCredentialID r' = da_RedeemedCredentialID r"

lemma deviceLocked_step:
  assumes "deviceLocked e h s = (x, s')"
  shows "s' = s \<or> (\<exists>r r'. map_of (ds_byDevice s) h = Some r \<and> small_move r r' \<and> s' = store_device h r' s)"
  using assms by (cases rule: deviceLocked_cases) (auto intro: device_move.expire simp: small_move_def)

text \<open>Looking up, polling, approving and denying change at most one record, by one move.\<close>

lemma locked_op_step:
  assumes "op = DvGetDevice e h \<or> op = DvGetUser e h \<or> op = DvPoll es h \<or> op = DvApprove es h g \<or> op = DvDeny e h"
  shows "device_step lib op s = s \<or> (\<exists>k r r'. map_of (ds_byDevice s) k = Some r \<and> small_move r r' \<and> device_step lib op s = store_device k r' s)"
proof -
  have go: "s2 = s \<or> (\<exists>k r r'. map_of (ds_byDevice s) k = Some r \<and> small_move r r' \<and> s2 = store_device k r' s)"
    if d: "deviceLocked e k s = (x, s1)" and f: "\<And>err. x = Inl err \<Longrightarrow> s2 = s1"
      "\<And>r. x = Inr r \<Longrightarrow> s2 = s1 \<or> (\<exists>r'. small_move r r' \<and> s2 = store_device k r' s1)" for e k x s1 s2
  proof (cases x)
    case (Inl err)
    with deviceLocked_step [OF d] f(1) show ?thesis by auto
  next
    case (Inr r)
    with d have "s1 = s" "map_of (ds_byDevice s) k = Some r" by (auto elim: deviceLocked_cases)
    with f(2) [OF Inr] show ?thesis by auto
  qed
  from assms show ?thesis
  proof (elim disjE)
    assume op: "op = DvGetDevice e h"
    obtain x s1 where d: "deviceLocked e h s = (x, s1)" by fastforce
    show ?thesis using go [OF d, of s1] by (auto simp: op GetByDeviceCodeHash_def d)
  next
    assume op: "op = DvGetUser e h"
    show ?thesis
    proof (cases "map_of (ds_byUser s) h")
      case (Some k)
      obtain x s1 where d: "deviceLocked e k s = (x, s1)" by fastforce
      show ?thesis using go [OF d, of s1] by (auto simp: op GetByUserCodeHash_def by_user_def Some d)
    qed (simp add: op GetByUserCodeHash_def by_user_def)
  next
    assume op: "op = DvPoll es h"
    obtain x s1 where d: "deviceLocked (es 0) h s = (x, s1)" by fastforce
    show ?thesis
    proof (cases "env_err (es 0) 0")
      case False
      show ?thesis
        by (rule go [OF d]) (use False in \<open>auto simp: op Device_Poll_def d Let_def small_move_def split: option.splits intro: device_move.poll\<close>)
    qed (simp add: op Device_Poll_def)
  next
    assume op: "op = DvApprove es h g"
    show ?thesis
    proof (cases "env_err (es 0) 0 \<or> \<not> ValidateDeviceAuthorizationGrant g \<or> map_of (ds_byUser s) h = None")
      case False
      then obtain k where k: "map_of (ds_byUser s) h = Some k" by blast
      obtain x s1 where d: "deviceLocked (es 0) k s = (x, s1)" by fastforce
      show ?thesis
      proof (rule go [OF d])
        fix r assume r: "x = Inr r"
        show "device_step lib op s = s1 \<or> (\<exists>r'. small_move r r' \<and> device_step lib op s = store_device k r' s1)"
          using False k r device_move.approve [of r g "env_now (es 1)"] by (auto simp: op Device_Approve_def by_user_def d Let_def small_move_def approved_record_def)
      qed (use False k in \<open>auto simp: op Device_Approve_def by_user_def d\<close>)
    qed (auto simp: op Device_Approve_def by_user_def)
  next
    assume op: "op = DvDeny e h"
    show ?thesis
    proof (cases "env_err e 0 \<or> map_of (ds_byUser s) h = None")
      case False
      then obtain k where k: "map_of (ds_byUser s) h = Some k" by blast
      obtain x s1 where d: "deviceLocked e k s = (x, s1)" by fastforce
      show ?thesis
      proof (rule go [OF d])
        fix r assume r: "x = Inr r"
        show "device_step lib op s = s1 \<or> (\<exists>r'. small_move r r' \<and> device_step lib op s = store_device k r' s1)"
          using False k r device_move.deny [of r] by (auto simp: op Device_Deny_def by_user_def d Let_def small_move_def)
      qed (use False k in \<open>auto simp: op Device_Deny_def by_user_def d\<close>)
    qed (auto simp: op Device_Deny_def by_user_def)
  qed
qed

lemma ack_step:
  assumes "wf_map (ds_byDevice s)" "mset order = mset (ds_byDevice s)"
  shows "snd (AcknowledgeCredential es order org cid s) = s \<or>
    (\<exists>h r r'. map_of (ds_byDevice s) h = Some r \<and> small_move r r' \<and>
       snd (AcknowledgeCredential es order org cid s) = store_device h r' s)"
proof (cases "find (\<lambda>(_, r). awaits org cid r) order")
  case (Some p)
  obtain h r where p: "p = (h, r)" by (cases p)
  from Some p have m: "(h, r) \<in> set order" "awaits org cid r" by (auto simp: find_Some_iff) (metis nth_mem)
  then have r: "map_of (ds_byDevice s) h = Some r"
    using assms mset_eq_setD [OF assms(2)] by (auto simp: wf_map_def)
  show ?thesis
  proof (cases "da_CredentialAckedAt r")
    case None
    have "small_move r (r\<lparr>da_CredentialAckedAt := Some (env_now (es 0))\<rparr>)" using m(2) None by (auto simp: small_move_def awaits_def intro: device_move.acknowledge)
    with r show ?thesis using Some p None by (auto simp: AcknowledgeCredential_def Let_def split: sum.splits)
  qed (use Some p in \<open>auto simp: AcknowledgeCredential_def\<close>)
qed (auto simp: AcknowledgeCredential_def split: sum.splits)

lemma device_step_calls: "calls lib (ds_credentials s) (ds_credentials (device_step lib op s))"
proof (cases op)
  case (DvRedeem es h i ackable)
  obtain x s' where c: "redeem lib es h i ackable s = (x, s')" by fastforce
  from c have "calls lib (ds_credentials s) (ds_credentials s')"
  proof (cases rule: redeem_cases)
    case (minted r i1 c cs1)
    then show ?thesis using calls_create [of lib "ds_credentials s" "es 3" i1] by (simp add: store_device_def)
  next
    case (replaced r i1 c cs1 y cs2)
    have "calls lib (ds_credentials s) cs1" using calls_create [of lib "ds_credentials s" "es 3" i1] replaced(5) by simp
    moreover have "calls lib cs1 cs2" using calls_revoke replaced(6) by (metis revokeUnackedLocked_def snd_conv)
    ultimately show ?thesis using replaced(8) calls_trans by (simp add: store_device_def)
  qed (simp_all add: store_device_def)
  with c DvRedeem show ?thesis by simp
next
  case (DvAck es order org cid)
  then show ?thesis by (auto simp: AcknowledgeCredential_def store_device_def Let_def split: option.splits sum.splits)
next
  case (DvSweep es order limit)
  have "calls lib (ds_credentials s) cs1" if "revoke_overdue lib (\<lambda>k. es (Suc k)) (env_now (es 0)) limit order 0 (ds_credentials s) = (y, cs1)" for y cs1
    using revoke_overdue_calls that by (metis snd_conv)
  with DvSweep show ?thesis by (auto simp: RevokeUnacknowledged_def split: sum.splits prod.splits)
next
  case (DvCred op)
  then show ?thesis by (simp add: calls_step)
next
  case (DvCreate es i)
  then show ?thesis by (auto simp: Device_Create_def store_device_def Let_def)
qed (use locked_op_step [of op _ _ _ _ lib s] in \<open>fastforce simp: store_device_def\<close>)+

interpretation device_creds: credential_client lib "device_step lib" ds_credentials
  by unfold_locales (rule device_step_calls)

text \<open>The invariant: every record is in order, and every credential was issued for one record.\<close>

definition issued_once :: "(secret_hash, device_authorization) gomap \<Rightarrow> bool" where
  "issued_once m \<longleftrightarrow> (\<forall>h h' r r'. map_of m h = Some r \<longrightarrow> map_of m h' = Some r' \<longrightarrow> da_RedeemedCredentialID r \<noteq> '''' \<longrightarrow>
     da_RedeemedCredentialID r' = da_RedeemedCredentialID r \<longrightarrow> h' = h)"

definition devices_ok :: "device_store \<Rightarrow> bool" where
  "devices_ok s \<longleftrightarrow> wf_map (ds_byDevice s) \<and> issued_once (ds_byDevice s) \<and>
     (\<forall>h r. map_of (ds_byDevice s) h = Some r \<longrightarrow> record_ok r \<and>
        (da_RedeemedCredentialID r \<noteq> '''' \<longrightarrow> map_of (cs_byID (ds_credentials s)) (da_RedeemedCredentialID r) \<noteq> None))"

definition device_inv :: "device_store \<Rightarrow> bool" where
  "device_inv s \<longleftrightarrow> devices_ok s \<and> store_ok (ds_credentials s) \<and> all_wf (ds_credentials s)"

lemma device_step_cases:
  assumes "ranges op s" "device_inv s"
  obtains (none) "ds_byDevice (device_step lib op s) = ds_byDevice s"
    | (add) h r where "\<not> has_key (ds_byDevice s) h" "record_ok r" "da_RedeemedCredentialID r = ''''" "ds_byDevice (device_step lib op s) = put h r (ds_byDevice s)"
      "da_DeviceCodeHash r = h" "map_of (ds_byUser (device_step lib op s)) (da_UserCodeHash r) = Some h"
    | (move) h r r' where "map_of (ds_byDevice s) h = Some r" "small_move r r'"
      "ds_byDevice (device_step lib op s) = put h r' (ds_byDevice s)"
    | (issue) h r r' where "map_of (ds_byDevice s) h = Some r" "device_move r r'" "map_of (cs_byID (ds_credentials s)) (da_RedeemedCredentialID r') = None"
      "map_of (cs_byID (ds_credentials (device_step lib op s))) (da_RedeemedCredentialID r') \<noteq> None"
      "ds_byDevice (device_step lib op s) = put h r' (ds_byDevice s)"
      "da_RedeemedCredentialID r \<noteq> '''' \<Longrightarrow>
         \<exists>q. map_of (cs_byID (ds_credentials (device_step lib op s))) (da_RedeemedCredentialID r) = Some q \<and> cc_RevokedAt (cr_Metadata q) \<noteq> None"
proof (cases op)
  case (DvCreate es i)
  show ?thesis
  proof (cases "isl (fst (Device_Create es i s))")
    case True
    with DvCreate show ?thesis by (intro none) (auto simp: Device_Create_def Let_def split: if_splits)
  next
    case False
    then have go: "\<not> env_err (es 0) 0" "\<not> env_err (es 0) 1" "\<not> (hash_IsZero (dc_DeviceCodeHash i) \<or> hash_IsZero (dc_UserCodeHash i) \<or> \<not> ValidateDeviceAuthorizationHints i)"
      "\<not> has_key (ds_byDevice s) (dc_DeviceCodeHash i)" "\<not> has_key (ds_byUser s) (dc_UserCodeHash i)"
      by (auto simp: Device_Create_def split: if_splits)
    show ?thesis
      by (rule add [OF go(4)]) (use go in \<open>auto simp: DvCreate Device_Create_def store_device_def Let_def record_ok_def map_simps\<close>)
  qed
next
  case (DvRedeem es h i ackable)
  obtain x s' where c: "redeem lib es h i ackable s = (x, s')" by fastforce
  then have s': "device_step lib op s = s'" by (simp add: DvRedeem)
  from c show ?thesis
  proof (cases rule: redeem_cases)
    case (fail err cs')
    then show ?thesis using s' none by simp
  next
    case (expired r err)
    then show ?thesis using s' by (intro move [OF expired(1)]) (auto simp: store_device_def small_move_def intro: device_move.expire)
  next
    case (minted r i1 c cs1)
    note cr = create_success [OF minted(5)]
    have "da_RedeemedCredentialID r = ''''" using assms(2) minted(1,2) by (fastforce simp: device_inv_def devices_ok_def record_ok_def)
    moreover have "device_move r (redeemed_record r (env_now (es 1)) (cc_CredentialID c) ackable)" using minted(2) cr(2) by (rule device_move.redeem)
    ultimately show ?thesis using s' minted(7) cr by (intro issue [OF minted(1)]) (auto simp: store_device_def redeemed_record_def)
  next
    case (replaced r i1 c cs1 y cs2)
    note cr = create_success [OF replaced(5)]
    have st: "da_State r = DeviceAuthorizationStateRedeemed" "da_RedeemedCredentialID r \<noteq> ''''"
      using replaced(3) by (simp_all add: AckWindowOpen_def CredentialUnacknowledged_def)
    have r: "credential_id_ok (da_RedeemedCredentialID r)" "map_of (cs_byID (ds_credentials s)) (da_RedeemedCredentialID r) \<noteq> None"
      using assms(2) replaced(2) st by (fastforce simp: device_inv_def devices_ok_def record_ok_def)+
    then have ne: "cc_CredentialID c \<noteq> da_RedeemedCredentialID r" using cr(1) by auto
    have ok1: "store_ok cs1" using store_ok_create [of "ds_credentials s" lib "es 3" i1] replaced(5) assms(2) by (simp add: device_inv_def)
    have "\<exists>q. map_of (cs_byID cs2) (da_RedeemedCredentialID r) = Some q \<and> cc_RevokedAt (cr_Metadata q) \<noteq> None"
      using revoke_success [OF replaced(6) [unfolded revokeUnackedLocked_def] ok1] r(1) by (simp add: ack_revocation_def)
    moreover have "map_of (cs_byID cs2) (cc_CredentialID c) \<noteq> None"
    proof -
      have "calls lib cs1 cs2" using calls_revoke replaced(6) by (metis revokeUnackedLocked_def snd_conv)
      with calls_ok ok1 have "store_evolves cs1 cs2" by blast
      with cr(4) show ?thesis using evolves_at by fastforce
    qed
    moreover have "device_move r (redeemed_record r (env_now (es 1)) (cc_CredentialID c) True)" using replaced(3) cr(2) ne by (rule device_move.replace)
    ultimately show ?thesis using s' replaced(1,8) cr by (intro issue [OF replaced(2)]) (auto simp: store_device_def redeemed_record_def)
  qed
next
  case (DvAck es order org cid)
  have wf: "wf_map (ds_byDevice s)" using assms(2) by (simp add: device_inv_def devices_ok_def)
  from ack_step [OF wf, of order es org cid] assms(1) DvAck show ?thesis
    using none move by (auto simp: store_device_def)
next
  case (DvSweep es order limit)
  then show ?thesis by (intro none) (auto simp: RevokeUnacknowledged_def split: sum.splits prod.splits)
next
  case (DvCred op)
  then show ?thesis by (intro none) simp
next
  case (DvGetDevice e h)
  with locked_op_step [of op e h undefined undefined lib s] none move show ?thesis by (auto simp: store_device_def)
next
  case (DvGetUser e h)
  with locked_op_step [of op e h undefined undefined lib s] none move show ?thesis by (auto simp: store_device_def)
next
  case (DvPoll es h)
  with locked_op_step [of op undefined h es undefined lib s] none move show ?thesis by (auto simp: store_device_def)
next
  case (DvApprove es h g)
  with locked_op_step [of op undefined h es g lib s] none move show ?thesis by (auto simp: store_device_def)
next
  case (DvDeny e h)
  with locked_op_step [of op e h undefined undefined lib s] none move show ?thesis by (auto simp: store_device_def)
qed

section \<open>Runs\<close>

lemma devices_ok_put:
  assumes ok: "devices_ok s" and m: "ds_byDevice s' = put h r' (ds_byDevice s)" "record_ok r'"
    and cs: "\<And>x. map_of (cs_byID (ds_credentials s)) x \<noteq> None \<Longrightarrow> map_of (cs_byID (ds_credentials s')) x \<noteq> None"
    and cid: "da_RedeemedCredentialID r' = '''' \<or> map_of (cs_byID (ds_credentials s')) (da_RedeemedCredentialID r') \<noteq> None"
    and fresh: "\<And>k q. map_of (ds_byDevice s) k = Some q \<Longrightarrow> da_RedeemedCredentialID r' \<noteq> '''' \<Longrightarrow> da_RedeemedCredentialID q = da_RedeemedCredentialID r' \<Longrightarrow> k = h"
  shows "devices_ok s'"
proof -
  have "issued_once (put h r' (ds_byDevice s))"
    unfolding issued_once_def
  proof (intro allI impI)
    fix k k' q q'
    assume q: "map_of (put h r' (ds_byDevice s)) k = Some q" "map_of (put h r' (ds_byDevice s)) k' = Some q'"
      "da_RedeemedCredentialID q \<noteq> ''''" "da_RedeemedCredentialID q' = da_RedeemedCredentialID q"
    have old: "map_of (ds_byDevice s) k = Some q \<Longrightarrow> map_of (ds_byDevice s) k' = Some q' \<Longrightarrow> k' = k"
      using ok q(3,4) unfolding devices_ok_def issued_once_def by blast
    show "k' = k"
    proof (cases "k = h")
      case True
      then have qr: "r' = q" using q(1) by (simp add: map_simps)
      have "k' = h"
      proof (rule ccontr)
        assume "k' \<noteq> h"
        with q(2) have "map_of (ds_byDevice s) k' = Some q'" by (simp add: map_simps)
        then have "k' = h" by (rule fresh) (unfold qr, rule q(3), rule q(4))
        with \<open>k' \<noteq> h\<close> show False by contradiction
      qed
      with True show ?thesis by simp
    next
      case False
      then have kq: "map_of (ds_byDevice s) k = Some q" using q(1) by (simp add: map_simps)
      show ?thesis
      proof (cases "k' = h")
        case True
        then have qr: "r' = q'" using q(2) by (simp add: map_simps)
        have "k = h" by (rule fresh [OF kq]) (use q(3,4) qr in simp_all)
        with True show ?thesis by simp
      next
        case False
        then show ?thesis using old [OF kq] q(2) by (simp add: map_simps)
      qed
    qed
  qed
  moreover have "record_ok q \<and> (da_RedeemedCredentialID q \<noteq> '''' \<longrightarrow> map_of (cs_byID (ds_credentials s')) (da_RedeemedCredentialID q) \<noteq> None)"
    if "map_of (put h r' (ds_byDevice s)) k = Some q" for k q
    using that ok m(2) cs cid unfolding devices_ok_def by (cases "k = h") (auto simp: map_simps)
  ultimately show ?thesis using ok m(1) by (simp add: devices_ok_def)
qed

lemma device_inv_step:
  assumes inv: "device_inv s" and op: "ranges op s"
  shows "device_inv (device_step lib op s)"
proof -
  let ?s = "device_step lib op s"
  have wf: "store_ok (ds_credentials s)" "all_wf (ds_credentials s)" and ok: "devices_ok s" using inv by (simp_all add: device_inv_def)
  note calls = device_step_calls [of lib s op]
  have ev: "store_evolves (ds_credentials s) (ds_credentials ?s)" using calls_ok [OF calls wf(1)] by simp
  then have cs: "map_of (cs_byID (ds_credentials ?s)) x \<noteq> None" if "map_of (cs_byID (ds_credentials s)) x \<noteq> None" for x
    using that by (fastforce simp: store_evolves_def)
  have known: "map_of (cs_byID (ds_credentials s)) (da_RedeemedCredentialID q) \<noteq> None" if "map_of (ds_byDevice s) k = Some q" "da_RedeemedCredentialID q \<noteq> ''''" for k q
    using ok that unfolding devices_ok_def by blast
  have recs: "record_ok q" if "map_of (ds_byDevice s) k = Some q" for k q using ok that by (simp add: devices_ok_def)
  have once: "k = h" if "map_of (ds_byDevice s) h = Some r" "map_of (ds_byDevice s) k = Some q" "da_RedeemedCredentialID r \<noteq> ''''"
      "da_RedeemedCredentialID q = da_RedeemedCredentialID r" for h k q r
    using ok that unfolding devices_ok_def issued_once_def by blast
  from op inv have "devices_ok ?s"
  proof (cases rule: device_step_cases [of op s lib])
    case none
    with ok cs show ?thesis by (auto simp: devices_ok_def)
  next
    case (add h r)
    then show ?thesis by (intro devices_ok_put [OF ok add(4) add(2) cs]) auto
  next
    case (move h r r')
    then have "device_move r r'" "da_RedeemedCredentialID r' = da_RedeemedCredentialID r" by (simp_all add: small_move_def)
    note m = this
    show ?thesis
    proof (rule devices_ok_put [OF ok move(3) record_ok_move [OF m(1) recs [OF move(1)]] cs])
      show "da_RedeemedCredentialID r' = '''' \<or> map_of (cs_byID (ds_credentials ?s)) (da_RedeemedCredentialID r') \<noteq> None"
        using known [OF move(1)] cs m(2) by auto
      show "k = h" if "map_of (ds_byDevice s) k = Some q" "da_RedeemedCredentialID r' \<noteq> ''''" "da_RedeemedCredentialID q = da_RedeemedCredentialID r'" for k q
        using once [OF move(1) that(1)] that(2,3) m(2) by simp
    qed
  next
    case (issue h r r')
    have "False" if "map_of (ds_byDevice s) k = Some q" "da_RedeemedCredentialID r' \<noteq> ''''" "da_RedeemedCredentialID q = da_RedeemedCredentialID r'" for k q
      using known [OF that(1)] that(2,3) issue(3) by simp
    with issue(4) show ?thesis by (intro devices_ok_put [OF ok issue(5) record_ok_move [OF issue(2) recs [OF issue(1)]] cs]) auto
  qed
  moreover have "store_ok (ds_credentials ?s) \<and> all_wf (ds_credentials ?s)"
    using calls wf wf_creds.run_inv [of "ds_credentials s" lib] by (auto simp: calls_def)
  ultimately show ?thesis by (simp add: device_inv_def)
qed

definition device_evolves :: "device_store \<Rightarrow> device_store \<Rightarrow> bool" where
  "device_evolves s s' \<longleftrightarrow> map_evolves device_moves (ds_byDevice s) (ds_byDevice s')"

lemma device_step_evolves:
  assumes "device_inv s" "ranges op s"
  shows "device_evolves s (device_step lib op s)"
  using assms(2,1)
  by (cases rule: device_step_cases [of op s lib])
    (auto simp: device_evolves_def small_move_def device_evolution.map_refl device_evolution.map_add intro!: device_evolution.map_put)

interpretation device_machine: evolving_machine "device_step lib" ranges device_inv device_evolves
  by unfold_locales
    (auto simp: device_evolves_def device_evolution.map_refl intro: device_inv_step device_step_evolves [unfolded device_evolves_def] device_evolution.map_trans)

definition reachable_devices :: "libs \<Rightarrow> device_store \<Rightarrow> bool" where
  "reachable_devices lib s \<longleftrightarrow> (\<exists>ops. ok_run (device_step lib) ranges ops (NewDeviceAuthorizationStore newCredentialStore) \<and>
     s = run_ops (device_step lib) ops (NewDeviceAuthorizationStore newCredentialStore))"

lemma device_inv_new: "device_inv (NewDeviceAuthorizationStore newCredentialStore)"
  using reachable_creds_wf [OF reachable_new_creds]
  by (simp add: device_inv_def devices_ok_def issued_once_def NewDeviceAuthorizationStore_def wf_map_def)

lemma reachable_devices_inv: "reachable_devices lib s \<Longrightarrow> device_inv s"
  using device_machine.run_inv [OF device_inv_new] by (auto simp: reachable_devices_def)

lemma reachable_devices_run:
  assumes "reachable_devices lib s" "ok_run (device_step lib) ranges ops s"
  shows "reachable_devices lib (run_ops (device_step lib) ops s)"
proof -
  let ?new = "NewDeviceAuthorizationStore newCredentialStore"
  obtain before where "ok_run (device_step lib) ranges before ?new" "s = run_ops (device_step lib) before ?new"
    using assms(1) by (auto simp: reachable_devices_def)
  with assms(2) show ?thesis unfolding reachable_devices_def by (intro exI [of _ "before @ ops"]) (simp add: ok_run_append run_ops_append)
qed

text \<open>A record names the code it is stored under.\<close>

lemma move_hash: "device_move r r' \<Longrightarrow> da_DeviceCodeHash r' = da_DeviceCodeHash r"
  by (erule device_moveE) (simp_all add: approved_record_def redeemed_record_def)

definition keyed :: "device_store \<Rightarrow> bool" where
  "keyed s \<longleftrightarrow> (\<forall>h r. map_of (ds_byDevice s) h = Some r \<longrightarrow> da_DeviceCodeHash r = h)"

lemma keyed_step: "device_inv s \<Longrightarrow> ranges op s \<Longrightarrow> keyed s \<Longrightarrow> keyed (device_step lib op s)"
  by (cases rule: device_step_cases [of op s lib]) (auto simp: keyed_def map_simps small_move_def dest: move_hash)

lemma reachable_devices_keyed:
  assumes "reachable_devices lib s"
  shows "keyed s"
proof -
  let ?s = "NewDeviceAuthorizationStore newCredentialStore"
  obtain ops where ops: "ok_run (device_step lib) ranges ops ?s" "s = run_ops (device_step lib) ops ?s" using assms by (auto simp: reachable_devices_def)
  have "keyed ?s" by (simp add: keyed_def NewDeviceAuthorizationStore_def)
  with device_machine.run_stable [of keyed lib ?s ops] keyed_step device_inv_new ops show ?thesis by blast
qed

text \<open>And its user code leads to it.\<close>

lemma device_users_kept:
  assumes "map_of (ds_byUser s) u = Some h"
  shows "map_of (ds_byUser (device_step lib op s)) u = Some h"
proof (cases op)
  case (DvCreate es i)
  then show ?thesis using assms by (auto simp: Device_Create_def Let_def store_device_def map_simps has_key_def split: if_splits)
next
  case (DvRedeem es k i ackable)
  obtain x s' where c: "redeem lib es k i ackable s = (x, s')" by fastforce
  from c assms have "map_of (ds_byUser s') u = Some h" by (cases rule: redeem_cases) (auto simp: store_device_def)
  with c show ?thesis by (simp add: DvRedeem)
next
  case (DvAck es order org cid)
  then show ?thesis using assms by (auto simp: AcknowledgeCredential_def store_device_def Let_def split: option.splits sum.splits)
next
  case (DvSweep es order limit)
  then show ?thesis using assms by (auto simp: RevokeUnacknowledged_def split: sum.splits prod.splits)
next
  case (DvGetDevice e k)
  with locked_op_step [of op e k undefined undefined lib s] assms show ?thesis by (auto simp: store_device_def)
next
  case (DvGetUser e k)
  with locked_op_step [of op e k undefined undefined lib s] assms show ?thesis by (auto simp: store_device_def)
next
  case (DvPoll es k)
  with locked_op_step [of op undefined k es undefined lib s] assms show ?thesis by (auto simp: store_device_def)
next
  case (DvApprove es k g)
  with locked_op_step [of op undefined k es g lib s] assms show ?thesis by (auto simp: store_device_def)
next
  case (DvDeny e k)
  with locked_op_step [of op e k undefined undefined lib s] assms show ?thesis by (auto simp: store_device_def)
qed (use assms in simp)

lemma move_user: "device_move r r' \<Longrightarrow> da_UserCodeHash r' = da_UserCodeHash r"
  by (erule device_moveE) (simp_all add: approved_record_def redeemed_record_def)

definition user_keyed :: "device_store \<Rightarrow> bool" where
  "user_keyed s \<longleftrightarrow> (\<forall>h r. map_of (ds_byDevice s) h = Some r \<longrightarrow> map_of (ds_byUser s) (da_UserCodeHash r) = Some h)"

lemma user_keyed_step: "device_inv s \<Longrightarrow> ranges op s \<Longrightarrow> user_keyed s \<Longrightarrow> user_keyed (device_step lib op s)"
  by (cases rule: device_step_cases [of op s lib]) (auto simp: user_keyed_def map_simps small_move_def device_users_kept dest: move_user)

lemma reachable_devices_user_keyed:
  assumes "reachable_devices lib s"
  shows "user_keyed s"
proof -
  let ?s = "NewDeviceAuthorizationStore newCredentialStore"
  obtain ops where ops: "ok_run (device_step lib) ranges ops ?s" "s = run_ops (device_step lib) ops ?s" using assms by (auto simp: reachable_devices_def)
  have "user_keyed ?s" by (simp add: user_keyed_def NewDeviceAuthorizationStore_def)
  with device_machine.run_stable [of user_keyed lib ?s ops] user_keyed_step device_inv_new ops show ?thesis by blast
qed

lemma device_after:
  assumes "reachable_devices lib s" "ok_run (device_step lib) ranges ops s" "map_of (ds_byDevice s) h = Some r"
  obtains r' where "map_of (ds_byDevice (run_ops (device_step lib) ops s)) h = Some r'" "device_moves r r'"
  using device_machine.run_rel [OF reachable_devices_inv [OF assms(1)] assms(2)] assms(3) by (auto simp: device_evolves_def elim: map_evolves_at)

end
