(* ===== verification/Device_Examples.thy ===== *)
theory Device_Examples
  imports Device_Machine Credential_Examples OAuth_Examples
begin

text \<open>
  One device authorization at which the properties are evaluated: it is created at one hour, and approved a minute
  later for one repository.
\<close>

definition ex_at :: "time \<Rightarrow> nat \<Rightarrow> env" where
  "ex_at t k = ex_env t"

text \<open>The request context ends after the fourth call of its surroundings.\<close>

definition ex_cut :: "time \<Rightarrow> nat \<Rightarrow> env" where
  "ex_cut t k = \<lparr>env_err = (\<lambda>_. k \<ge> 4), env_now = t\<rparr>"

definition ex_device :: device_create where
  "ex_device = \<lparr>dc_DeviceCodeHash = ex_secret (CHR ''d''), dc_UserCodeHash = ex_secret (CHR ''u''), dc_OrganizationIDHint = ''org1'',
     dc_RepositoryHints = [''acme/widgets'']\<rparr>"

definition ex_grant :: device_approval where
  "ex_grant = \<lparr>dp_OrgID = ''org1'', dp_RepositoryScopes = [''acme/widgets''], dp_Scopes = [''context:read'', ''evidence:read''],
     dp_ApprovingSubject = ''user1'', dp_ApprovingAuthenticationMethod = AuthenticationMethodWebAssertion, dp_ApprovingSessionID = ''sess1''\<rparr>"

definition ex_token :: "string \<Rightarrow> char \<Rightarrow> create_input" where
  "ex_token cid h = (ex_browser cid h)\<lparr>ci_RepositoryScopes := [''acme/widgets''], ci_Scopes := [''context:read''], ci_ApprovingUserID := '''',
     ci_SessionID := '''', ci_FamilyID := ''fam'' @ [h]\<rparr>"

definition ex_new_devices :: device_store where
  "ex_new_devices = NewDeviceAuthorizationStore newCredentialStore"

definition ex_pending :: device_store where
  "ex_pending = run_ops (device_step ex_libs) [DvCreate (ex_at Hour) ex_device] ex_new_devices"

definition ex_approved :: device_store where
  "ex_approved = run_ops (device_step ex_libs)
     [DvCreate (ex_at Hour) ex_device, DvApprove (ex_at (Hour + Minute)) (ex_secret (CHR ''u'')) ex_grant] ex_new_devices"

abbreviation ex_redeem :: "time \<Rightarrow> char \<Rightarrow> device_store \<Rightarrow> client_credential device_result" where
  "ex_redeem t h \<equiv> redeem ex_libs (ex_at t) (ex_secret (CHR ''d'')) (ex_token [CHR ''c'', h] h) True"

definition ex_redeemed :: device_store where
  "ex_redeemed = snd (ex_redeem (Hour + 2 * Minute) (CHR ''1'') ex_approved)"

lemma reachable_ex_new: "reachable_devices lib ex_new_devices"
  unfolding reachable_devices_def ex_new_devices_def by (rule exI [of _ "[]"]) simp

lemma reachable_ex_approved: "reachable_devices ex_libs ex_approved"
  unfolding ex_approved_def by (rule reachable_devices_run [OF reachable_ex_new]) simp

lemma reachable_ex_pending: "reachable_devices ex_libs ex_pending"
  unfolding ex_pending_def by (rule reachable_devices_run [OF reachable_ex_new]) simp

lemma reachable_ex_redeemed: "reachable_devices ex_libs ex_redeemed"
  using reachable_devices_run [OF reachable_ex_approved, of "[DvRedeem (ex_at (Hour + 2 * Minute)) (ex_secret (CHR ''d'')) (ex_token ''c1'' (CHR ''1'')) True]"]
  by (simp add: ex_redeemed_def)

end
