(* ===== verification/Device_Properties.thy ===== *)
theory Device_Properties
  imports Device_Examples
begin

text \<open>
  The properties of device authorizations, over every state a new store can reach (\<open>reachable_devices\<close>): a device
  code has one live credential at most, a decision is final, a credential is what was approved, and the
  sweep of unacknowledged credentials; and, as an example, what an interrupted replacement leaves behind.
\<close>

section \<open>One live credential\<close>

definition dead_in :: "credential_store \<Rightarrow> string \<Rightarrow> bool" where
  "dead_in cs cid \<longleftrightarrow> (\<exists>q. map_of (cs_byID cs) cid = Some q \<and> cc_RevokedAt (cr_Metadata q) \<noteq> None)"

lemma dead_in_calls: "calls lib cs cs' \<Longrightarrow> store_ok cs \<Longrightarrow> dead_in cs cid \<Longrightarrow> dead_in cs' cid"
  unfolding dead_in_def using calls_ok evolves_revoked by blast

text \<open>The credential is the record's current one, or revoked.\<close>

definition superseded :: "secret_hash \<Rightarrow> string \<Rightarrow> device_store \<Rightarrow> bool" where
  "superseded h cid s \<longleftrightarrow>
     (\<exists>r. map_of (ds_byDevice s) h = Some r \<and> redeemed r \<and> (da_RedeemedCredentialID r = cid \<or> dead_in (ds_credentials s) cid))"

lemma superseded_step:
  assumes inv: "device_inv s" and op: "ranges op s" and P: "superseded h cid s" and ne: "cid \<noteq> ''''"
  shows "superseded h cid (device_step lib op s)"
proof -
  let ?s = "device_step lib op s"
  have ok: "store_ok (ds_credentials s)" using inv by (simp add: device_inv_def)
  note dead = dead_in_calls [OF device_step_calls [of lib s op] ok]
  obtain r where r: "map_of (ds_byDevice s) h = Some r" "redeemed r" "da_RedeemedCredentialID r = cid \<or> dead_in (ds_credentials s) cid"
    using P by (auto simp: superseded_def)
  from op inv show ?thesis
  proof (cases rule: device_step_cases [of op s lib])
    case none
    with r dead show ?thesis by (auto simp: superseded_def)
  next
    case (add k q)
    with r dead show ?thesis by (auto simp: superseded_def has_key_def map_simps)
  next
    case (move k q q')
    show ?thesis
    proof (cases "k = h")
      case True
      with move(1) r(1) have "q = r" by simp
      with move True r dead redeemed_move show ?thesis by (auto simp: superseded_def small_move_def map_simps)
    qed (use move r dead in \<open>auto simp: superseded_def map_simps\<close>)
  next
    case (issue k q q')
    show ?thesis
    proof (cases "k = h")
      case True
      with issue(1) r(1) have q: "q = r" by simp
      have "dead_in (ds_credentials ?s) cid" using r(3) dead issue(6) ne q by (auto simp: dead_in_def)
      with issue(2,5) True q r(2) redeemed_move show ?thesis by (auto simp: superseded_def map_simps)
    qed (use issue r dead in \<open>auto simp: superseded_def map_simps\<close>)
  qed
qed

lemma superseded_run:
  assumes "device_inv s" "ok_run (device_step lib) ranges ops s" "superseded h cid s" "cid \<noteq> ''''"
  shows "superseded h cid (run_ops (device_step lib) ops s)"
  using device_machine.run_stable [of "superseded h cid" lib s ops] superseded_step assms by blast

text \<open>What a redemption leaves.\<close>

lemma redeem_success:
  assumes "redeem lib es h i ackable s = (Inr c, s1)" "device_inv s"
  obtains r where "map_of (ds_byDevice s) h = Some r" "map_of (ds_byDevice s1) h = Some (redeemed_record r (env_now (es 1)) (cc_CredentialID c) ackable)"
    "da_State r = DeviceAuthorizationStateApproved \<or> ackable \<and> AckWindowOpen r (env_now (es 1)) \<and> dead_in (ds_credentials s1) (da_RedeemedCredentialID r)"
    "credential_id_ok (cc_CredentialID c)" "\<exists>i1 cs1. redeem_input r i = Some i1 \<and> CreateCredential lib (es 3) i1 (ds_credentials s) = (Inr c, cs1)"
  using assms(1)
proof (cases rule: redeem_cases)
  case (minted r i1 c' cs1)
  with create_success(2) [OF minted(5)] show ?thesis by (intro that [OF minted(1)]) (auto simp: store_device_def map_simps)
next
  case (replaced r i1 c' cs1 y cs2)
  have id: "credential_id_ok (da_RedeemedCredentialID r)"
    using assms(2) replaced(2) AckWindowOpen_state [OF replaced(3)] by (auto simp: device_inv_def devices_ok_def record_ok_def)
  have "store_ok cs1" using store_ok_create [of "ds_credentials s" lib "es 3" i1] replaced(5) assms(2) by (simp add: device_inv_def)
  with revoke_success [OF replaced(6) [unfolded revokeUnackedLocked_def]] id have "dead_in cs2 (da_RedeemedCredentialID r)"
    by (simp add: dead_in_def ack_revocation_def)
  with replaced create_success(2) [OF replaced(5)] show ?thesis by (intro that [OF replaced(2)]) (auto simp: store_device_def map_simps)
qed simp_all

text \<open>
  C10: a second redemption ends the first. When a device code is redeemed successfully twice, however much later
  and whatever happened between, both redemptions asked for an acknowledgement, and from the second on, after
  any further operations, the first credential is revoked and its token authenticates nobody. A code that was
  redeemed without acknowledgement is thus never redeemed again. (A replacement that returns an error because
  its context ended on the way is not covered: it can leave both credentials live.)
\<close>

theorem second_redemption_ends_the_first:
  assumes "reachable_devices lib s" "redeem lib es h i ackable s = (Inr c, s1)" "ok_run (device_step lib) ranges ops s1"
    and "redeem lib es' h i' ackable' (run_ops (device_step lib) ops s1) = (Inr c', s2)"
    and "ok_run (device_step lib) ranges later s2" "t2 = run_ops (device_step lib) later s2"
  shows "ackable \<and> ackable' \<and> (\<exists>q. map_of (cs_byID (ds_credentials t2)) (cc_CredentialID c) = Some q \<and> cc_RevokedAt (cr_Metadata q) \<noteq> None \<and>
    (\<forall>e m. FindByTokenHash e (cr_TokenHash q) (ds_credentials t2) \<noteq> Inr m))"
proof -
  let ?t = "run_ops (device_step lib) ops s1"
  have s1: "s1 = run_ops (device_step lib) [DvRedeem es h i ackable] s" using assms(2) by simp
  have reach1: "reachable_devices lib s1" unfolding s1 by (rule reachable_devices_run [OF assms(1)]) simp
  have reach: "reachable_devices lib ?t" by (rule reachable_devices_run [OF reach1 assms(3)])
  have s2: "s2 = run_ops (device_step lib) [DvRedeem es' h i' ackable'] ?t" using assms(4) by simp
  have reach2: "reachable_devices lib s2" unfolding s2 by (rule reachable_devices_run [OF reach]) simp
  note inv = reachable_devices_inv
  obtain r where r: "map_of (ds_byDevice s) h = Some r" "map_of (ds_byDevice s1) h = Some (redeemed_record r (env_now (es 1)) (cc_CredentialID c) ackable)"
    "da_State r = DeviceAuthorizationStateApproved \<or> ackable \<and> AckWindowOpen r (env_now (es 1)) \<and> dead_in (ds_credentials s1) (da_RedeemedCredentialID r)"
    "credential_id_ok (cc_CredentialID c)" "\<exists>i1 cs1. redeem_input r i = Some i1 \<and> CreateCredential lib (es 3) i1 (ds_credentials s) = (Inr c, cs1)"
    using assms(2) inv [OF assms(1)] by (rule redeem_success)
  let ?r1 = "redeemed_record r (env_now (es 1)) (cc_CredentialID c) ackable"
  obtain r' where r': "map_of (ds_byDevice ?t) h = Some r'" "device_moves ?r1 r'" using reach1 assms(3) r(2) by (rule device_after)
  have red: "redeemed r'" by (rule redeemed_moves [OF r'(2)]) (simp add: redeemed_def redeemed_record_def)
  obtain u where u: "map_of (ds_byDevice ?t) h = Some u"
    "map_of (ds_byDevice s2) h = Some (redeemed_record u (env_now (es' 1)) (cc_CredentialID c') ackable')"
    "da_State u = DeviceAuthorizationStateApproved \<or> ackable' \<and> AckWindowOpen u (env_now (es' 1)) \<and> dead_in (ds_credentials s2) (da_RedeemedCredentialID u)"
    "credential_id_ok (cc_CredentialID c')" "\<exists>i1 cs1. redeem_input u i' = Some i1 \<and> CreateCredential lib (es' 3) i1 (ds_credentials ?t) = (Inr c', cs1)"
    using assms(4) inv [OF reach] by (rule redeem_success)
  have ur: "u = r'" using u(1) r'(1) by simp
  have w: "ackable'" "AckWindowOpen r' (env_now (es' 1))" "dead_in (ds_credentials s2) (da_RedeemedCredentialID r')"
    using u(3) red ur by (auto simp: redeemed_def)
  have "ackable"
  proof (rule ccontr)
    assume "\<not> ackable"
    then have st: "settled ?r1" by (simp add: settled_def redeemed_record_def)
    from settled_moves [OF r'(2) st] \<open>\<not> ackable\<close> AckWindowOpen_state [OF w(2)] show False by (simp add: redeemed_record_def)
  qed
  moreover have ne: "cc_CredentialID c \<noteq> ''''" using r(4) by auto
  have "superseded h (cc_CredentialID c) s1" using r(2) by (simp add: superseded_def redeemed_def redeemed_record_def)
  from superseded_run [OF inv [OF reach1] assms(3) this ne] r'(1)
  have "da_RedeemedCredentialID r' = cc_CredentialID c \<or> dead_in (ds_credentials ?t) (cc_CredentialID c)" by (auto simp: superseded_def)
  then have "dead_in (ds_credentials s2) (cc_CredentialID c)"
  proof
    assume "dead_in (ds_credentials ?t) (cc_CredentialID c)"
    with dead_in_calls device_creds.run_calls [of lib ?t "[DvRedeem es' h i' ackable']"] inv [OF reach] show ?thesis
      unfolding s2 by (auto simp: device_inv_def)
  qed (use w(3) in simp)
  with dead_in_calls device_creds.run_calls [of lib s2 later] inv [OF reach2] have "dead_in (ds_credentials t2) (cc_CredentialID c)"
    unfolding assms(6) by (auto simp: device_inv_def)
  then obtain q where q: "map_of (cs_byID (ds_credentials t2)) (cc_CredentialID c) = Some q" "cc_RevokedAt (cr_Metadata q) \<noteq> None" by (auto simp: dead_in_def)
  have reach3: "reachable_devices lib t2" unfolding assms(6) by (rule reachable_devices_run [OF reach2 assms(5)])
  have "FindByTokenHash e (cr_TokenHash q) (ds_credentials t2) \<noteq> Inr m" for e m
    using revoked_not_found [OF _ _ q] inv [OF reach3] by (simp add: device_inv_def)
  with q w(1) calculation show ?thesis by blast
qed

theorem second_redemption_ends_the_first_witness:
  "\<exists>c c' s1 s2. ex_redeem (Hour + 2 * Minute) (CHR ''1'') ex_approved = (Inr c, s1) \<and> ex_redeem (Hour + 3 * Minute) (CHR ''2'') s1 = (Inr c', s2) \<and>
    cc_CredentialID c = ''c1'' \<and> cc_CredentialID c' = ''c2'' \<and>
    (\<exists>q. map_of (cs_byID (ds_credentials s2)) ''c1'' = Some q \<and> cc_RevokedAt (cr_Metadata q) \<noteq> None \<and>
      (\<forall>e m. FindByTokenHash e (cr_TokenHash q) (ds_credentials s2) \<noteq> Inr m))"
proof -
  have "map_sum (\<lambda>_. ()) cc_CredentialID (fst (ex_redeem (Hour + 2 * Minute) (CHR ''1'') ex_approved)) = Inr ''c1''" by code_simp
  then obtain c where c: "ex_redeem (Hour + 2 * Minute) (CHR ''1'') ex_approved = (Inr c, ex_redeemed)" "cc_CredentialID c = ''c1''"
    unfolding ex_redeemed_def by (rule result_pair)
  have "map_sum (\<lambda>_. ()) cc_CredentialID (fst (ex_redeem (Hour + 3 * Minute) (CHR ''2'') ex_redeemed)) = Inr ''c2''" by code_simp
  then obtain c' where c': "ex_redeem (Hour + 3 * Minute) (CHR ''2'') ex_redeemed = (Inr c', snd (ex_redeem (Hour + 3 * Minute) (CHR ''2'') ex_redeemed))"
    "cc_CredentialID c' = ''c2''" by (rule result_pair)
  from second_redemption_ends_the_first [OF reachable_ex_approved c(1), of "[]" _ _ _ _ _ "[]", simplified, OF c'(1)] c c' show ?thesis by fastforce
qed

section \<open>A decision is final\<close>

lemma settled_refused:
  assumes "settled r" "map_of (ds_byDevice s) h = Some r"
  shows "\<exists>err. redeem lib es h i ackable s = (Inl err, s)" "map_of (ds_byUser s) uh = Some h \<Longrightarrow> \<exists>err. Device_Approve es uh g s = (Inl err, s)"
    "map_of (ds_byUser s) uh = Some h \<Longrightarrow> \<exists>err. Device_Deny e uh s = (Inl err, s)"
  using assms
  by (auto simp: settled_def redeem_def redeemable_def CredentialUnacknowledged_def deviceLocked_def Device_Approve_def Device_Deny_def by_user_def Let_def)

text \<open>
  A decision is final. Once an authorization is denied, expired, redeemed for good or acknowledged, no later
  operation changes its record: it cannot be approved or denied any more, and no redemption of it mints a
  credential or changes anything else of the store.
\<close>

theorem decided_authorization_is_final:
  assumes "reachable_devices lib s" "map_of (ds_byDevice s) h = Some r" "ok_run (device_step lib) ranges ops s"
    and "da_State r = DeviceAuthorizationStateDenied \<or> da_State r = DeviceAuthorizationStateExpired \<or>
      da_State r = DeviceAuthorizationStateRedeemed \<and> (\<not> da_AckRequired r \<or> da_CredentialAckedAt r \<noteq> None)"
  defines "t \<equiv> run_ops (device_step lib) ops s"
  shows "map_of (ds_byDevice t) h = Some r \<and> (\<forall>es i ackable. \<exists>err. redeem lib es h i ackable t = (Inl err, t)) \<and>
    (\<forall>es uh g. map_of (ds_byUser t) uh = Some h \<longrightarrow> (\<exists>err. Device_Approve es uh g t = (Inl err, t))) \<and>
    (\<forall>e uh. map_of (ds_byUser t) uh = Some h \<longrightarrow> (\<exists>err. Device_Deny e uh t = (Inl err, t)))"
proof -
  have "record_ok r" using reachable_devices_inv [OF assms(1)] assms(2) by (simp add: device_inv_def devices_ok_def)
  with assms(4) have st: "settled r" by (auto simp: settled_def record_ok_def)
  obtain r' where r': "map_of (ds_byDevice t) h = Some r'" "device_moves r r'" unfolding t_def using assms(1,3,2) by (rule device_after)
  have t: "map_of (ds_byDevice t) h = Some r" using settled_moves [OF r'(2) st] r'(1) by simp
  show ?thesis using t settled_refused [OF st t] by blast
qed

theorem decided_authorization_is_final_witness:
  "\<exists>s r. Device_Deny (ex_env (Hour + Minute)) (ex_secret (CHR ''u'')) ex_pending = (Inr r, s) \<and>
    map_of (ds_byDevice s) (ex_secret (CHR ''d'')) = Some r \<and> (\<forall>es i ackable. \<exists>err. redeem ex_libs es (ex_secret (CHR ''d'')) i ackable s = (Inl err, s))"
proof -
  let ?R = "Device_Deny (ex_env (Hour + Minute)) (ex_secret (CHR ''u'')) ex_pending"
  have "map_sum (\<lambda>_. ()) da_State (fst ?R) = Inr DeviceAuthorizationStateDenied" by code_simp
  then obtain r where r: "?R = (Inr r, snd ?R)" "da_State r = DeviceAuthorizationStateDenied" by (rule result_pair)
  have "map_of (ds_byDevice (snd ?R)) (ex_secret (CHR ''d'')) = Some (projr (fst ?R))" by code_simp
  moreover have "projr (fst ?R) = r" by (subst r(1)) simp
  ultimately have m: "map_of (ds_byDevice (snd ?R)) (ex_secret (CHR ''d'')) = Some r" by simp
  have reach: "reachable_devices ex_libs (snd ?R)"
    using reachable_devices_run [OF reachable_ex_pending, of "[DvDeny (ex_env (Hour + Minute)) (ex_secret (CHR ''u''))]"] by simp
  from decided_authorization_is_final [OF reach m, of "[]"] r(2) have "\<forall>es i ackable. \<exists>err. redeem ex_libs es (ex_secret (CHR ''d'')) i ackable (snd ?R) = (Inl err, snd ?R)"
    by simp
  with r m show ?thesis by blast
qed

section \<open>What the credential grants\<close>

lemma granted_scopes_plain:
  assumes "ValidateDeviceAuthorizationGrant g" "x \<in> set (dp_Scopes g)"
  shows "TrimSpace x = x"
proof -
  have "x = ''context:read'' \<or> x = ''evidence:read'' \<or> x = ''data:read''" using assms by (auto simp: ValidateDeviceAuthorizationGrant_def list_all_iff)
  moreover have "TrimSpace ''context:read'' = ''context:read''" "TrimSpace ''evidence:read'' = ''evidence:read''" "TrimSpace ''data:read'' = ''data:read''"
    by code_simp+
  ultimately show ?thesis by auto
qed

lemma approve_success:
  assumes "Device_Approve es uh g s = (Inr r, s1)" "map_of (ds_byUser s) uh = Some h"
  shows "ValidateDeviceAuthorizationGrant g" "map_of (ds_byDevice s1) h = Some r" "da_State r = DeviceAuthorizationStateApproved"
    "granted r = (dp_OrgID g, dp_RepositoryScopes g, dp_Scopes g, dp_ApprovingSubject g, dp_ApprovingSessionID g, Some (env_now (es 1)))"
proof -
  show v: "ValidateDeviceAuthorizationGrant g" using assms(1) by (auto simp: Device_Approve_def split: if_splits)
  have go: "\<not> env_err (es 0) 0" using assms(1) by (auto simp: Device_Approve_def)
  obtain x s' where l: "deviceLocked (es 0) h s = (x, s')" by fastforce
  with assms v go obtain q where x: "x = Inr q" by (cases x) (simp_all add: Device_Approve_def by_user_def)
  have "r = approved_record q g (env_now (es 1)) \<and> s1 = store_device h r s'"
    using assms v go l x by (auto simp: Device_Approve_def by_user_def approved_record_def Let_def split: if_splits)
  then show "map_of (ds_byDevice s1) h = Some r" "da_State r = DeviceAuthorizationStateApproved"
    "granted r = (dp_OrgID g, dp_RepositoryScopes g, dp_Scopes g, dp_ApprovingSubject g, dp_ApprovingSessionID g, Some (env_now (es 1)))"
    by (simp_all add: store_device_def map_simps approved_record_def granted_def)
qed

lemma redeem_input_result:
  assumes "redeem_input r i = Some i1"
  shows "ci_OrgID i1 = da_AuthorizedOrgID r" "ci_RepositoryScopes i1 = da_AuthorizedRepositoryScopes r" "set (ci_Scopes i1) \<subseteq> set (da_AuthorizedScopes r)"
    "ci_ApprovingUserID i1 = da_ApprovingSubject r" "ci_IssuanceProvenance i1 = IssuanceProvenanceDeviceAuthorization"
    "ci_ClientClass i1 = ClientClassBrowser \<Longrightarrow> ci_SessionID i1 = da_ApprovingSessionID r" "ci_ClientClass i1 = ci_ClientClass i"
    "ci_Scopes i1 = ci_Scopes i"
  using assms
  by (auto simp: redeem_input_def DeviceAuthorizationCredentialMatches_def scopesWithin_def list_all_iff Let_def split: if_splits)

lemma created_from:
  assumes "CreateCredential lib e i cs = (Inr c, cs1)"
  obtains n where "normalizeCreate (url_Parse lib) i = Inr n" "c = credentialFromCreate n (env_now e)"
  using assms
proof (cases rule: create_cases)
  case (created n rows)
  then show ?thesis using that by simp
qed simp

text \<open>The credential of a device that was approved, however much later.\<close>

lemma granted_credential:
  assumes "reachable_devices lib s1" "map_of (ds_byDevice s1) h = Some r" "da_State r = DeviceAuthorizationStateApproved"
    and "ok_run (device_step lib) ranges ops s1" "redeem lib es' h i ackable (run_ops (device_step lib) ops s1) = (Inr c, s2)"
  shows "cc_OrgID c = TrimSpace (da_AuthorizedOrgID r) \<and> normalizeRepositories (da_AuthorizedRepositoryScopes r) = Inr (cc_RepositoryScopes c) \<and>
    set (cc_Scopes c) \<subseteq> set (da_AuthorizedScopes r) \<and> set (cc_Scopes c) \<subseteq> TrimSpace ` set (ci_Scopes i) \<and>
    cp_ApprovingUserID (cc_Provenance c) = TrimSpace (da_ApprovingSubject r) \<and>
    (ci_ClientClass i = ClientClassBrowser \<longrightarrow> cp_SessionID (cc_Provenance c) = TrimSpace (da_ApprovingSessionID r))"
proof -
  obtain q where q: "map_of (ds_byDevice (run_ops (device_step lib) ops s1)) h = Some q" "device_moves r q" using assms(1,4,2) by (rule device_after)
  have "granted q = granted r" using granted_moves [OF q(2)] assms(3) by simp
  then have g: "da_AuthorizedOrgID q = da_AuthorizedOrgID r" "da_AuthorizedRepositoryScopes q = da_AuthorizedRepositoryScopes r"
    "da_AuthorizedScopes q = da_AuthorizedScopes r" "da_ApprovingSubject q = da_ApprovingSubject r" "da_ApprovingSessionID q = da_ApprovingSessionID r"
    by (simp_all add: granted_def)
  have inv: "device_inv (run_ops (device_step lib) ops s1)" by (rule reachable_devices_inv [OF reachable_devices_run [OF assms(1,4)]])
  from assms(5) inv obtain i1 cs1 where m: "redeem_input q i = Some i1"
    "CreateCredential lib (es' 3) i1 (ds_credentials (run_ops (device_step lib) ops s1)) = (Inr c, cs1)"
    by (rule redeem_success) (use q(1) in auto)
  obtain n where n: "normalizeCreate (url_Parse lib) i1 = Inr n" "c = credentialFromCreate n (env_now (es' 3))" using m(2) by (rule created_from)
  note ri = redeem_input_result [OF m(1), unfolded g]
  note f = normalizeCreate_issued [OF n(1)]
  have plain: "TrimSpace x = x" if "x \<in> set (da_AuthorizedScopes r)" for x
    using reachable_devices_inv [OF assms(1)] assms(2,3) that granted_scopes_plain by (fastforce simp: device_inv_def devices_ok_def record_ok_def)
  have "ci_OrgID n = TrimSpace (da_AuthorizedOrgID r)" using f(4) ri(1) normalizeText_trimmed unfolding normalizeIdentifier_def by metis
  moreover have "set (ci_Scopes n) \<subseteq> set (da_AuthorizedScopes r)" "set (ci_Scopes n) = TrimSpace ` set (ci_Scopes i)"
    using normalizeScopes_trim [OF normalizeCreate_scopes(1) [OF n(1)]] ri(3,8) plain by auto
  moreover have "normalizeRepositories (da_AuthorizedRepositoryScopes r) = Inr (ci_RepositoryScopes n)" using normalizeCreate_scopes(2) [OF n(1)] ri(2) by simp
  ultimately show ?thesis using n(2) f(7,8) ri(4,6,7) by (simp add: credentialFromCreate_def)
qed

lemma approved_credential:
  assumes "reachable_devices lib s" "Device_Approve es uh g s = (Inr r, s1)" "map_of (ds_byUser s) uh = Some h"
    and "ok_run (device_step lib) ranges ops s1" "redeem lib es' h i ackable (run_ops (device_step lib) ops s1) = (Inr c, s2)"
  shows "cc_OrgID c = TrimSpace (dp_OrgID g) \<and> normalizeRepositories (dp_RepositoryScopes g) = Inr (cc_RepositoryScopes c) \<and>
    set (cc_Scopes c) \<subseteq> set (dp_Scopes g) \<and> set (cc_Scopes c) \<subseteq> TrimSpace ` set (ci_Scopes i) \<and> cp_ApprovingUserID (cc_Provenance c) = TrimSpace (dp_ApprovingSubject g) \<and>
    (ci_ClientClass i = ClientClassBrowser \<longrightarrow> cp_SessionID (cc_Provenance c) = TrimSpace (dp_ApprovingSessionID g))"
proof -
  note a = approve_success [OF assms(2,3)]
  have "s1 = run_ops (device_step lib) [DvApprove es uh g] s" using assms(2) by simp
  then have reach1: "reachable_devices lib s1" using reachable_devices_run [OF assms(1), of "[DvApprove es uh g]"] by simp
  show ?thesis using granted_credential [OF reach1 a(2,3) assms(4,5)] a(4) by (simp add: granted_def)
qed

text \<open>
  A credential is what was approved. However long after the approval, and through whatever happened in between, a
  credential redeemed for a device code carries the organization, the repositories and the approving user of
  the approval, none but the approved scopes, and, for a browser, the web session that approved it.
\<close>

theorem credential_is_what_was_approved:
  assumes "reachable_devices lib s" "Device_Approve es uh g s = (Inr r, s1)" "map_of (ds_byUser s) uh = Some h"
    and "ok_run (device_step lib) ranges ops s1" "redeem lib es' h i ackable (run_ops (device_step lib) ops s1) = (Inr c, s2)"
  shows "cc_OrgID c = TrimSpace (dp_OrgID g) \<and> normalizeRepositories (dp_RepositoryScopes g) = Inr (cc_RepositoryScopes c) \<and>
    set (cc_Scopes c) \<subseteq> set (dp_Scopes g) \<and> cp_ApprovingUserID (cc_Provenance c) = TrimSpace (dp_ApprovingSubject g) \<and>
    (ci_ClientClass i = ClientClassBrowser \<longrightarrow> cp_SessionID (cc_Provenance c) = TrimSpace (dp_ApprovingSessionID g))"
  using approved_credential [OF assms] by blast

theorem credential_is_what_was_approved_witness:
  "\<exists>r s1 c s2. Device_Approve (ex_at (Hour + Minute)) (ex_secret (CHR ''u'')) ex_grant ex_pending = (Inr r, s1) \<and>
    ex_redeem (Hour + 2 * Minute) (CHR ''1'') s1 = (Inr c, s2) \<and> cc_OrgID c = TrimSpace ''org1'' \<and>
    set (cc_Scopes c) \<subseteq> {''context:read'', ''evidence:read''} \<and> cp_SessionID (cc_Provenance c) = TrimSpace ''sess1''"
proof -
  let ?A = "Device_Approve (ex_at (Hour + Minute)) (ex_secret (CHR ''u'')) ex_grant ex_pending"
  have "map_sum (\<lambda>_. ()) da_State (fst ?A) = Inr DeviceAuthorizationStateApproved" by code_simp
  then obtain r where r: "?A = (Inr r, snd ?A)" by (rule result_pair)
  let ?B = "ex_redeem (Hour + 2 * Minute) (CHR ''1'') (snd ?A)"
  have "map_sum (\<lambda>_. ()) cc_CredentialID (fst ?B) = Inr ''c1''" by code_simp
  then obtain c where c: "?B = (Inr c, snd ?B)" by (rule result_pair)
  have u: "map_of (ds_byUser ex_pending) (ex_secret (CHR ''u'')) = Some (ex_secret (CHR ''d''))" by code_simp
  have cl: "ci_ClientClass (ex_token ''c1'' (CHR ''1'')) = ClientClassBrowser" by (simp add: ex_token_def ex_browser_def)
  from credential_is_what_was_approved [OF reachable_ex_pending r u, of "[]", simplified, OF c] cl r c show ?thesis
    by (auto simp: ex_grant_def)
qed

section \<open>The sweep of unacknowledged credentials\<close>

definition counted :: "int \<Rightarrow> int \<Rightarrow> (int \<times> credential_error) + int \<Rightarrow> bool" where
  "counted limit k x \<longleftrightarrow> (case x of Inl (n, err) \<Rightarrow> k \<le> n \<and> n < limit | Inr n \<Rightarrow> k \<le> n \<and> n \<le> limit)"

lemma counted_simps [simp]: "counted limit k (Inl (n, err)) \<longleftrightarrow> k \<le> n \<and> n < limit" "counted limit k (Inr n) \<longleftrightarrow> k \<le> n \<and> n \<le> limit"
  by (simp_all add: counted_def)

lemma counted_less: "counted limit (k + 1) x \<Longrightarrow> counted limit k x"
  by (auto simp: counted_def split: sum.splits)

lemma revoke_overdue_bounds: "k \<le> limit \<Longrightarrow> counted limit k (fst (revoke_overdue lib es now limit order k cs))"
proof (induction order arbitrary: es k cs)
  case (Cons p order)
  obtain h r where p: "p = (h, r)" by (cases p)
  have next_one: "k < limit \<Longrightarrow> counted limit k (fst (revoke_overdue lib es' now limit order (k + 1) cs'))" for es' cs'
    by (rule counted_less [OF Cons.IH]) simp
  show ?case
    using Cons.prems Cons.IH next_one by (simp add: p split: sum.split prod.split)
qed simp

lemma get_dead:
  assumes "GetByID e org cid cs = Inr c" "store_ok cs" "credential_id_ok cid" "cc_RevokedAt c \<noteq> None"
  shows "dead_in cs cid"
  using assms(1,2)
proof (rule GetByID_record)
  fix q assume q: "cr_Metadata q = c" "\<And>k. normalizeCredentialID cid = Inr k \<Longrightarrow> map_of (cs_byID cs) k = Some q"
  from q(2) [OF credential_id_fixed [OF assms(3)]] q(1) assms(4) show ?thesis by (auto simp: dead_in_def)
qed

lemma revoke_dead:
  assumes "RevokeCredential lib e i cs = (x, cs1)" "store_ok cs" "credential_id_ok (vi_CredentialID i)" "x = Inr c \<or> x = Inl ErrConflict"
  shows "dead_in cs1 (vi_CredentialID i)"
  using assms(4)
proof
  assume "x = Inr c"
  with revoke_success assms(1-3) show ?thesis by (simp add: dead_in_def)
next
  assume x: "x = Inl ErrConflict"
  with revoke_conflict [of lib e i cs] assms(1) obtain n where n: "normalizeRevocation i = Inr n" by auto
  then have "normalizeIdentifier ''organization'' (vi_OrgID i) = Inr (vi_OrgID n)" by (auto simp: normalizeRevocation_def and_then_Inr split: if_splits)
  with revoke_leaves_revoked [OF assms(1,2)] credential_id_fixed [OF assms(3)] x show ?thesis by (simp add: dead_in_def)
qed

lemma revoke_overdue_all:
  assumes "revoke_overdue lib es now limit order k cs = (Inr n, cs')" "n < limit" "store_ok cs"
    and "\<And>h r. (h, r) \<in> set order \<Longrightarrow> overdue now r \<Longrightarrow> credential_id_ok (da_RedeemedCredentialID r)"
    and "(h, r) \<in> set order" "overdue now r"
  shows "dead_in cs' (da_RedeemedCredentialID r)"
  using assms
proof (induction order arbitrary: es k cs)
  case (Cons p order)
  obtain h' q where p: "p = (h', q)" by (cases p)
  note ids = Cons.prems(4)
  have k: "\<not> limit \<le> k" using Cons.prems(1,2) p by (auto split: if_splits)
  show ?case
  proof (cases "overdue now q")
    case False
    then have "revoke_overdue lib es now limit order k cs = (Inr n, cs')" using Cons.prems(1) p k by simp
    from Cons.IH [OF this Cons.prems(2,3)] ids False p Cons.prems(5,6) show ?thesis by auto
  next
    case od: True
    have id: "credential_id_ok (da_RedeemedCredentialID q)" using ids [of h' q] od p by simp
    from od Cons.prems(1) p k obtain c where c: "GetByID (es 0) (da_AuthorizedOrgID q) (da_RedeemedCredentialID q) cs = Inr c" by (auto split: sum.splits)
    let ?es = "\<lambda>k. es (k + 2)"
    have "\<exists>cs1 k1. revoke_overdue lib ?es now limit order k1 cs1 = (Inr n, cs') \<and> store_ok cs1 \<and> dead_in cs1 (da_RedeemedCredentialID q)"
    proof (cases "cc_RevokedAt c")
      case None
      obtain x cs1 where x: "revokeUnackedLocked lib (es 1) q cs = (x, cs1)" by fastforce
      with Cons.prems(1) p k od c None have s: "(\<exists>y. x = Inr y) \<or> x = Inl ErrConflict" "\<exists>k1. revoke_overdue lib ?es now limit order k1 cs1 = (Inr n, cs')"
        by (auto split: sum.splits if_splits)
      have "store_ok cs1" using calls_ok [OF calls_revoke Cons.prems(3)] x by (metis revokeUnackedLocked_def snd_conv)
      moreover have "dead_in cs1 (da_RedeemedCredentialID q)"
        using revoke_dead [OF x [unfolded revokeUnackedLocked_def] Cons.prems(3)] id s(1) by (auto simp: ack_revocation_def)
      ultimately show ?thesis using s(2) by blast
    next
      case (Some t)
      then have "dead_in cs (da_RedeemedCredentialID q)" using get_dead [OF c Cons.prems(3) id] by simp
      with Some Cons.prems(1,3) p k od c show ?thesis by auto
    qed
    then obtain cs1 k1 where s: "revoke_overdue lib ?es now limit order k1 cs1 = (Inr n, cs')" "store_ok cs1" "dead_in cs1 (da_RedeemedCredentialID q)" by blast
    show ?thesis
    proof (cases "(h, r) \<in> set order")
      case True
      show ?thesis by (rule Cons.IH [OF s(1) Cons.prems(2) s(2) _ True Cons.prems(6)]) (use ids in auto)
    next
      case False
      then have "r = q" using Cons.prems(5) p by auto
      moreover have "calls lib cs1 cs'" using revoke_overdue_calls [of lib cs1 ?es now limit order k1] s(1) by simp
      ultimately show ?thesis using dead_in_calls s(2,3) by blast
    qed
  qed
qed simp

text \<open>
  What a sweep does. It revokes no more credentials than its limit and changes no authorization. When it reports no
  error and stayed below its limit, every credential whose acknowledgement is overdue is revoked, whatever
  the order in which the map was ranged over.
\<close>

theorem sweep_revokes_overdue_credentials:
  assumes "reachable_devices lib s" "mset order = mset (ds_byDevice s)" "RevokeUnacknowledged lib es order limit s = ((n, err), s')"
  shows "0 \<le> n \<and> n \<le> max 0 limit \<and> ds_byDevice s' = ds_byDevice s \<and>
    (err = None \<longrightarrow> n < limit \<longrightarrow> (\<forall>h r. map_of (ds_byDevice s) h = Some r \<longrightarrow> overdue (env_now (es 0)) r \<longrightarrow>
      (\<exists>q. map_of (cs_byID (ds_credentials s')) (da_RedeemedCredentialID r) = Some q \<and> cc_RevokedAt (cr_Metadata q) \<noteq> None)))"
proof (cases "env_err (es 0) 0 \<or> limit \<le> 0")
  case True
  with assms(3) show ?thesis by (auto simp: RevokeUnacknowledged_def split: if_splits)
next
  case False
  note inv = reachable_devices_inv [OF assms(1)]
  obtain x cs1 where x: "revoke_overdue lib (\<lambda>k. es (Suc k)) (env_now (es 0)) limit order 0 (ds_credentials s) = (x, cs1)" by fastforce
  have s': "s' = s\<lparr>ds_credentials := cs1\<rparr>" "err = None \<Longrightarrow> x = Inr n" using assms(3) False x by (auto simp: RevokeUnacknowledged_def split: sum.splits)
  have "counted limit 0 x" using revoke_overdue_bounds [of 0 limit lib "\<lambda>k. es (Suc k)" "env_now (es 0)" order "ds_credentials s"] False x by simp
  then have n: "0 \<le> n \<and> n \<le> max 0 limit" using assms(3) False x by (auto simp: RevokeUnacknowledged_def split: sum.splits)
  have elems: "(h, r) \<in> set order \<longleftrightarrow> map_of (ds_byDevice s) h = Some r" for h r
    using mset_eq_setD [OF assms(2)] inv by (simp add: device_inv_def devices_ok_def wf_map_def)
  have ids: "credential_id_ok (da_RedeemedCredentialID r)" if "(h, r) \<in> set order" "overdue (env_now (es 0)) r" for h r
    using that inv unfolding elems by (auto simp: device_inv_def devices_ok_def record_ok_def overdue_def CredentialUnacknowledged_def)
  have "dead_in cs1 (da_RedeemedCredentialID r)"
    if "err = None" "n < limit" "map_of (ds_byDevice s) h = Some r" "overdue (env_now (es 0)) r" for h r
  proof (rule revoke_overdue_all [OF _ that(2) _ ids])
    show "revoke_overdue lib (\<lambda>k. es (Suc k)) (env_now (es 0)) limit order 0 (ds_credentials s) = (Inr n, cs1)" using x s'(2) [OF that(1)] by simp
    show "store_ok (ds_credentials s)" using inv by (simp add: device_inv_def)
  qed (use that elems in auto)
  then show ?thesis using n s'(1) by (simp add: dead_in_def)
qed

theorem sweep_revokes_overdue_credentials_witness:
  "\<exists>s' r. RevokeUnacknowledged ex_libs (ex_at (2 * Hour)) (rev (ds_byDevice ex_redeemed)) 10 ex_redeemed = ((1, None), s') \<and>
    map_of (ds_byDevice ex_redeemed) (ex_secret (CHR ''d'')) = Some r \<and> overdue (2 * Hour) r \<and>
    (\<exists>q. map_of (cs_byID (ds_credentials s')) (da_RedeemedCredentialID r) = Some q \<and> cc_RevokedAt (cr_Metadata q) \<noteq> None)"
proof -
  let ?R = "RevokeUnacknowledged ex_libs (ex_at (2 * Hour)) (rev (ds_byDevice ex_redeemed)) 10 ex_redeemed"
  have "fst ?R = (1, None)" by code_simp
  then have R: "?R = ((1, None), snd ?R)" by (metis prod.collapse)
  have "(case map_of (ds_byDevice ex_redeemed) (ex_secret (CHR ''d'')) of None \<Rightarrow> False | Some r \<Rightarrow> overdue (2 * Hour) r)" by code_simp
  then obtain r where r: "map_of (ds_byDevice ex_redeemed) (ex_secret (CHR ''d'')) = Some r" "overdue (2 * Hour) r" by (auto split: option.splits)
  have "env_now (ex_at (2 * Hour) 0) = 2 * Hour" by (simp add: ex_at_def ex_env_def)
  with sweep_revokes_overdue_credentials [OF reachable_ex_redeemed _ R] r R show ?thesis by auto
qed

section \<open>A replacement that is interrupted\<close>

text \<open>
  A replacement can be left live beside the original. The request context ends after the new credential was
  minted: the revocation of the original fails, and so does the one that should take the new credential back. Both
  tokens authenticate, the caller has an error, and the authorization still names the original, so no sweep will
  ever find the new one.
\<close>

theorem interrupted_replacement_leaves_two_live_credentials:
  "let R = redeem ex_libs (ex_cut (Hour + 3 * Minute)) (ex_secret (CHR ''d'')) (ex_token ''c2'' (CHR ''2'')) True ex_redeemed;
       find_token = (\<lambda>h. map_sum (\<lambda>_. ()) cc_CredentialID (FindByTokenHash (ex_env (Hour + 4 * Minute)) (ex_hash h) (ds_credentials (snd R))))
   in isl (fst R) \<and> find_token (CHR ''1'') = Inr ''c1'' \<and> find_token (CHR ''2'') = Inr ''c2'' \<and>
     map_option da_RedeemedCredentialID (map_of (ds_byDevice (snd R)) (ex_secret (CHR ''d''))) = Some ''c1''"
  by code_simp

end
