(* ===== verification/Service_Properties.thy ===== *)
theory Service_Properties
  imports Credential_Service Credential_Examples
begin

text \<open>
  The properties of the credential service, over every state the credential store can reach: the shape of a token,
  an issued token authenticates its credential and no other, a rotation never widens, and who may revoke
  what on whose behalf.
\<close>

section \<open>Tokens\<close>

lemma alphabet_values: "is_upper c \<or> is_lower c \<or> is_digit c \<or> c = CHR ''-'' \<or> c = CHR ''_'' \<longleftrightarrow> c \<in> set b64_alphabet"
  by (cases c) (auto simp: b64_alphabet_def is_upper_def is_lower_def is_digit_def byte_of_def)

lemma isRawURLAlphabet_set: "isRawURLAlphabet s \<longleftrightarrow> set s \<subseteq> set b64_alphabet"
  unfolding isRawURLAlphabet_def list_all_iff alphabet_values by blast

lemma b64_encode_alphabet:
  assumes "bytes_ok bs"
  shows "isRawURLAlphabet (b64_encode bs)"
proof -
  have "b64_char v \<in> set b64_alphabet" if "v < 64" for v using that nth_mem [of v b64_alphabet] by (simp add: b64_char_def b64_alphabet_facts)
  with b64_split_small [OF assms] show ?thesis by (auto simp: isRawURLAlphabet_set b64_encode_split list_all_iff)
qed

lemma token_decodes:
  assumes "isRawURLAlphabet s"
  shows "b64_decode True s = Some bs \<longleftrightarrow> bytes_ok bs \<and> s = b64_encode bs"
proof -
  have "CHR 0x0D \<notin> set s" "CHR 0x0A \<notin> set s" using assms b64_alphabet_facts by (auto simp: isRawURLAlphabet_set)
  then show ?thesis using b64_decode_strict [of s bs] b64_decode_encode [of bs True] by blast
qed

text \<open>
  C38: the shape test of tokens is exact. It accepts precisely what the generator can produce, the prefix followed
  by the encoding of thirty-two bytes, so that a secret has one spelling.
\<close>

theorem token_shape_is_canonical:
  "IsTokenShapeValid token \<longleftrightarrow> (\<exists>secret. bytes_ok secret \<and> length secret = tokenSecretBytes \<and> GenerateToken (Some secret) = Some token)"
proof
  assume shape: "IsTokenShapeValid token"
  let ?s = "drop (length TokenPrefix) token"
  have pre: "take (length TokenPrefix) token = TokenPrefix" and alpha: "isRawURLAlphabet ?s"
    using shape by (auto simp: IsTokenShapeValid_def has_prefix_def Let_def split: if_splits)
  obtain bs where bs: "b64_decode True ?s = Some bs" "length bs = tokenSecretBytes"
    using shape by (auto simp: IsTokenShapeValid_def Let_def split: if_splits option.splits)
  have "token = TokenPrefix @ ?s" using pre by (metis append_take_drop_id)
  with bs token_decodes [OF alpha] show "\<exists>secret. bytes_ok secret \<and> length secret = tokenSecretBytes \<and> GenerateToken (Some secret) = Some token"
    by (auto simp: GenerateToken_def)
next
  assume "\<exists>secret. bytes_ok secret \<and> length secret = tokenSecretBytes \<and> GenerateToken (Some secret) = Some token"
  then obtain bs where bs: "bytes_ok bs" "length bs = tokenSecretBytes" "token = TokenPrefix @ b64_encode bs" by (auto simp: GenerateToken_def)
  with b64_decode_encode [OF bs(1)] b64_encode_alphabet [OF bs(1)] show "IsTokenShapeValid token"
    by (simp add: IsTokenShapeValid_def has_prefix_def length_b64_encode tokenEncodedLen_def)
qed

section \<open>Issuing\<close>

lemma prepared_hash:
  assumes "PrepareCreate lib now g q = Inr p"
  shows "ci_TokenHash (snd p) = HashToken lib (fst p)" "IsTokenShapeValid (fst p)"
  using assms by (auto simp: PrepareCreate_def issueCreateInput_def split: option.splits if_splits)

lemma Service_Create_ok:
  assumes "Service_Create lib e now g q cs = (Inr issued, cs1)"
  obtains p where "PrepareCreate lib now g q = Inr p" "CreateCredential lib e (snd p) cs = (Inr (is_Credential issued), cs1)" "is_Token issued = fst p"
  using assms by (auto simp: Service_Create_def Complete_def split: sum.splits prod.splits if_splits)

text \<open>
  C34: an issued token authenticates its credential, and that one only. Right after a creation by the service, a
  lookup by the token's hash finds the new credential until it expires; the token has the shape of a
  token, and its credential was unknown before.
\<close>

theorem issued_token_authenticates:
  assumes "Service_Create lib e now g q cs = (Inr issued, cs1)" "\<not> env_err e' 0" "\<not> env_err e' 1" "\<not> env_err e' 2"
  shows "IsTokenShapeValid (is_Token issued) \<and> map_of (cs_byID cs) (cc_CredentialID (is_Credential issued)) = None \<and>
    FindByTokenHash e' (HashToken lib (is_Token issued)) cs1 =
      (if in_future (cc_ExpiresAt (is_Credential issued)) (env_now e') then Inr (is_Credential issued) else Inl ErrNotFound)"
proof -
  obtain p where p: "PrepareCreate lib now g q = Inr p" "CreateCredential lib e (snd p) cs = (Inr (is_Credential issued), cs1)" "is_Token issued = fst p"
    using assms(1) by (rule Service_Create_ok)
  from p(2) have "FindByTokenHash e' (ci_TokenHash (snd p)) cs1 =
      (if in_future (cc_ExpiresAt (is_Credential issued)) (env_now e') then Inr (is_Credential issued) else Inl ErrNotFound)"
  proof (cases rule: create_cases)
    case (created n rows)
    with normalizeCreate_issued(3) [OF created(1)] assms(2-4) show ?thesis
      by (simp add: FindByTokenHash_def map_simps in_future_def credentialFromCreate_def split: option.splits)
  qed simp
  with prepared_hash [OF p(1)] p(3) create_success(1) [OF p(2)] show ?thesis by simp
qed

section \<open>Examples\<close>

definition sx_token :: "nat \<Rightarrow> string" where
  "sx_token k = TokenPrefix @ b64_encode (replicate 32 k)"

definition sx_libs :: libs where
  "sx_libs = ex_libs\<lparr>sha256_hex := (\<lambda>v. ex_hash (if v = sx_token 7 then CHR ''9'' else CHR ''5''))\<rparr>"

definition sx_generated :: generated where
  "sx_generated = \<lparr>gn_token = GenerateToken (Some (replicate 32 7)), gn_id = GenerateCredentialID (Some (replicate 10 9))\<rparr>"

definition sx_service :: credential_service where
  "sx_service = newService 0"

definition sx_request :: create_request where
  "sx_request = \<lparr>cq_OrgID = '' org1'', cq_Name = ''ci'', cq_RepositoryScopes = [''Acme/Widgets''], cq_Scopes = [], cq_CreatedBy = ''admin'',
     cq_ExpiresAt = Some (2 * Hour), cq_IssuanceProvenance = '''', cq_WorkloadBindingID = '''', cq_Resource = '''', cq_ClientID = '''',
     cq_ClientClass = '''', cq_FamilyID = '''', cq_FamilyExpiresAt = None\<rparr>"

definition sx_rotate :: rotate_request where
  "sx_rotate = \<lparr>rq_OrgID = ''org1'', rq_CredentialID = ''c3'', rq_Name = '''', rq_RepositoryScopes = [''Acme/Gadgets''], rq_Scopes = [''context:read''],
     rq_CreatedBy = ''admin'', rq_ExpiresAt = None, rq_Overlap = 5 * Minute, rq_SelfCredential = False\<rparr>"

definition sx_oauth :: create_input where
  "sx_oauth = (ex_bearer ''c5'' (CHR ''5''))\<lparr>ci_ActorID := ''user1'', ci_Resource := ''https://acr.example/mcp'', ci_ClientID := ''web'',
     ci_ApprovingUserID := ''user1'', ci_IssuanceProvenance := IssuanceProvenanceDeviceAuthorization\<rparr>"

definition sx_creds :: credential_store where
  "sx_creds = run_ops (credential_step sx_libs) [OpCreate (ex_env Hour) (ex_bearer ''c3'' (CHR ''3'')), OpCreate (ex_env Hour) sx_oauth]
     newCredentialStore"

lemma reachable_sx_creds: "reachable_creds sx_libs sx_creds"
  unfolding reachable_creds_def sx_creds_def by blast

theorem issued_token_authenticates_witness:
  "\<exists>issued cs1. Service_Create sx_libs (ex_env Hour) Hour sx_generated sx_request newCredentialStore = (Inr issued, cs1) \<and>
    \<not> env_err (ex_env (Hour + Minute)) 0 \<and> cc_ExpiresAt (is_Credential issued) = Some (2 * Hour) \<and> 
    FindByTokenHash (ex_env (Hour + Minute)) (HashToken sx_libs (is_Token issued)) cs1 = Inr (is_Credential issued)"
proof -
  let ?R = "Service_Create sx_libs (ex_env Hour) Hour sx_generated sx_request newCredentialStore"
  have "map_sum (\<lambda>_. ()) (\<lambda>i. cc_ExpiresAt (is_Credential i)) (fst ?R) = Inr (Some (2 * Hour))" by code_simp
  then obtain issued where i: "?R = (Inr issued, snd ?R)" "cc_ExpiresAt (is_Credential issued) = Some (2 * Hour)" by (rule result_pair)
  have n: "\<not> env_err (ex_env (Hour + Minute)) k" for k by (simp add: ex_env_def)
  have "in_future (Some (2 * Hour)) (env_now (ex_env (Hour + Minute)))" by code_simp
  with issued_token_authenticates [OF i(1) n n n] i(2) n show ?thesis by (subst i(1)) simp
qed

section \<open>Rotating\<close>

lemma normalizeRotation_scopes:
  assumes "normalizeRotation parse i = Inr n"
  shows "normalizeScopes (rr_Scopes (ri_Replacement i)) = Inr (rr_Scopes (ri_Replacement n))"
    "normalizeRepositories (rr_RepositoryScopes (ri_Replacement i)) = Inr (rr_RepositoryScopes (ri_Replacement n))"
  using assms by (auto simp: normalizeRotation_def and_then_Inr Let_def dest: normalizeCreate_scopes split: if_splits)

lemma auth_scopes_known:
  assumes "auth_normalizeScopes vs = Some w"
  shows "set w \<subseteq> set auth_knownScopes"
proof -
  have loop: "auth_scopes_loop vs acc = Some w \<Longrightarrow> set acc \<subseteq> set auth_knownScopes \<Longrightarrow> set w \<subseteq> set auth_knownScopes" for acc
    by (induction vs acc rule: auth_scopes_loop.induct) (auto simp: Let_def split: if_splits)
  show ?thesis using assms loop [of "[]"] by (auto simp: auth_normalizeScopes_def auth_knownScopes_def split: if_splits option.splits)
qed

lemma auth_known_trimmed: "x \<in> set auth_knownScopes \<Longrightarrow> TrimSpace x = x"
proof -
  have "list_all (\<lambda>x. TrimSpace x = x) auth_knownScopes" by code_simp
  then show "x \<in> set auth_knownScopes \<Longrightarrow> TrimSpace x = x" by (simp add: list_all_iff)
qed

lemma normalizeCreateRequest_result:
  assumes "normalizeCreateRequest q = Some n"
  shows "set (cq_Scopes n) \<subseteq> set auth_knownScopes" "repositories_ok (cq_RepositoryScopes n)" "cq_OrgID n = TrimSpace (cq_OrgID q)"
  using assms by (auto simp: normalizeCreateRequest_def Let_def dest: NormalizeRepositoryScopes_ok intro: subsetD [OF auth_scopes_known] split: if_splits option.splits)

lemma Rotate_ok:
  assumes "Rotate sv lib es now g q0 cs = (Inr issued, cs1)"
  shows "\<exists>i parent n. RotateCredential lib (es 1) i cs = (Inr (is_Credential issued), cs1) \<and>
    GetByID (es 0) (TrimSpace (rq_OrgID q0)) (TrimSpace (rq_CredentialID q0)) cs = Inr parent \<and>
    cc_RevokedAt parent = None \<and> cp_ClientClass (cc_Provenance parent) \<noteq> ClientClassBrowser \<and>
    normalizeCreateRequest (rotation_request (rotation_trimmed q0) parent) = Some n \<and> rotationWithinParent parent n \<and>
    ri_OrgID i = TrimSpace (rq_OrgID q0) \<and> ri_SourceCredentialID i = TrimSpace (rq_CredentialID q0) \<and>
    rr_Scopes (ri_Replacement i) = cq_Scopes n \<and> rr_RepositoryScopes (ri_Replacement i) = cq_RepositoryScopes n"
  using assms
  by (auto simp: Rotate_def Let_def rotation_trimmed_def issueRotationInput_def and_then_Inr issueCreateInput_def
      split: if_splits sum.splits prod.splits option.splits intro!: exI)

text \<open>
  C9: a rotation never widens. A rotation that succeeds had a live parent of the same organization that is not a
  browser credential; the successor keeps its organization, resource and provenance, its scopes are among the parent's, and
  every repository it allows the parent allowed.
\<close>

theorem rotation_never_widens:
  assumes "reachable_creds lib cs" "Rotate sv lib es now g q cs = (Inr issued, cs1)"
  shows "\<exists>parent. GetByID (es 0) (TrimSpace (rq_OrgID q)) (TrimSpace (rq_CredentialID q)) cs = Inr parent \<and>
    cc_RevokedAt parent = None \<and> cp_ClientClass (cc_Provenance parent) \<noteq> ClientClassBrowser \<and>
    cc_OrgID (is_Credential issued) = cc_OrgID parent \<and> cc_Resource (is_Credential issued) = cc_Resource parent \<and>
    cc_Provenance (is_Credential issued) = cc_Provenance parent \<and> set (cc_Scopes (is_Credential issued)) \<subseteq> set (cc_Scopes parent) \<and>
    (\<forall>slug. RepositoryAllowed (cc_RepositoryScopes (is_Credential issued)) slug \<longrightarrow> RepositoryAllowed (cc_RepositoryScopes parent) slug)"
proof -
  have ok: "store_ok cs" "all_wf cs" using reachable_creds_wf [OF assms(1)] by simp_all
  obtain parent n i where r: "GetByID (es 0) (TrimSpace (rq_OrgID q)) (TrimSpace (rq_CredentialID q)) cs = Inr parent"
    "cc_RevokedAt parent = None" "cp_ClientClass (cc_Provenance parent) \<noteq> ClientClassBrowser"
    "normalizeCreateRequest (rotation_request (rotation_trimmed q) parent) = Some n" "rotationWithinParent parent n"
    "ri_OrgID i = TrimSpace (rq_OrgID q)" "ri_SourceCredentialID i = TrimSpace (rq_CredentialID q)"
    "rr_Scopes (ri_Replacement i) = cq_Scopes n" "rr_RepositoryScopes (ri_Replacement i) = cq_RepositoryScopes n"
    "RotateCredential lib (es 1) i cs = (Inr (is_Credential issued), cs1)"
    using Rotate_ok [OF assms(2)] by blast
  note n = normalizeCreateRequest_result [OF r(4)]
  from r(10) ok(1) show ?thesis
  proof (cases rule: rotate_cases)
    case (rotated m p rows)
    note nr = normalizeRotation_result [OF rotated(1)] and ns = normalizeRotation_scopes [OF rotated(1)]
    have p: "cr_Metadata p = parent"
      using r(1,6,7) nr(6,7) rotated(2) by (auto simp: GetByID_def and_then_Inr split: if_splits)
    have wf: "credential_wf p" using ok(2) rotated(2) by (auto simp: all_wf_def credential_at_some)
    have succ: "cc_Scopes (is_Credential issued) = rr_Scopes (ri_Replacement m)" "cc_RepositoryScopes (is_Credential issued) = cq_RepositoryScopes n"
      "cc_OrgID (is_Credential issued) = cc_OrgID parent" "cc_Resource (is_Credential issued) = cc_Resource parent"
      "cc_Provenance (is_Credential issued) = cc_Provenance parent"
      using rotated(8) p ns(2) r(9) normalizeRepositories_normal [OF n(2)] by (simp_all add: replacement_record_def credentialFromRotation_def credentialFromCreate_def)
    have "set (cc_Scopes parent) \<subseteq> set knownScopes" using wf p by (auto simp: credential_wf_def scopes_ok_def Let_def)
    then have pt: "TrimSpace x = x" if "x \<in> set (cc_Scopes parent)" for x using that knownScopes_normal by blast
    have "TrimSpace x = x" if "x \<in> set (cq_Scopes n)" for x using that n(1) auth_known_trimmed by blast
    then have "set (cc_Scopes (is_Credential issued)) \<subseteq> set (cq_Scopes n)" using normalizeScopes_trim [OF ns(1)] succ(1) r(8) by auto
    also have "\<dots> \<subseteq> set (cc_Scopes parent)" using r(5) pt by (auto simp: rotationWithinParent_def list_all_iff)
    finally have sc: "set (cc_Scopes (is_Credential issued)) \<subseteq> set (cc_Scopes parent)" .
    have "RepositoryAllowed (cc_RepositoryScopes parent) slug" if "RepositoryAllowed (cc_RepositoryScopes (is_Credential issued)) slug" for slug
      using that allowed_mono [of "cq_RepositoryScopes n" "cc_RepositoryScopes parent"] r(5) n(2) succ(2)
      by (auto simp: rotationWithinParent_def repositories_ok_def list_all_iff)
    with r(1-3) succ(3-5) sc show ?thesis by blast
  qed simp
qed

theorem rotation_never_widens_witness:
  "\<exists>issued cs1. reachable_creds sx_libs sx_creds \<and>
    Rotate sx_service sx_libs (\<lambda>_. ex_env (2 * Hour)) Hour sx_generated sx_rotate sx_creds = (Inr issued, cs1) \<and>
    cc_RepositoryScopes (is_Credential issued) = [''acme/gadgets''] \<and>
    (\<exists>parent. GetByID (ex_env (2 * Hour)) (TrimSpace ''org1'') (TrimSpace ''c3'') sx_creds = Inr parent \<and>
       (\<forall>slug. RepositoryAllowed [''acme/gadgets''] slug \<longrightarrow> RepositoryAllowed (cc_RepositoryScopes parent) slug))"
proof -
  let ?R = "Rotate sx_service sx_libs (\<lambda>_. ex_env (2 * Hour)) Hour sx_generated sx_rotate sx_creds"
  have "map_sum (\<lambda>_. ()) (\<lambda>i. cc_RepositoryScopes (is_Credential i)) (fst ?R) = Inr [''acme/gadgets'']" by code_simp
  then obtain issued where i: "?R = (Inr issued, snd ?R)" "cc_RepositoryScopes (is_Credential issued) = [''acme/gadgets'']" by (rule result_pair)
  have q: "rq_OrgID sx_rotate = ''org1''" "rq_CredentialID sx_rotate = ''c3''" by (simp_all add: sx_rotate_def)
  from rotation_never_widens [OF reachable_sx_creds i(1), unfolded q i(2)] i reachable_sx_creds show ?thesis by blast
qed

section \<open>Revoking\<close>

lemma credential_id_trimmed: "credential_id_ok v \<Longrightarrow> TrimSpace v = v"
  using credential_id_fixed [of v] by (auto simp: normalizeCredentialID_def Let_def split: if_splits)

lemma FindByTokenHash_normal: "normalizeTokenHash h = Inr k \<Longrightarrow> FindByTokenHash e h cs = FindByTokenHash e k cs"
  using normalizeTokenHash_normal [of h k] by (simp add: FindByTokenHash_def)

text \<open>The token of a revoked credential is dead for good.\<close>

lemma revoked_forever:
  assumes "reachable_creds lib cs" "map_of (cs_byID cs) cid = Some q" "cc_RevokedAt (cr_Metadata q) \<noteq> None"
  shows "FindByTokenHash e (cr_TokenHash q) (run_ops (credential_step lib) ops cs) \<noteq> Inr m"
proof -
  let ?t = "run_ops (credential_step lib) ops cs"
  have c: "calls lib cs ?t" unfolding calls_def by blast
  have ok: "store_ok ?t" "all_wf ?t" using reachable_creds_wf [OF calls_reachable [OF c assms(1)]] by simp_all
  obtain q' where q': "map_of (cs_byID ?t) cid = Some q'" "record_evolves q q'"
    using calls_ok [OF c reachable_creds_ok [OF assms(1)]] evolves_at [OF _ assms(2)] by blast
  then have "cc_RevokedAt (cr_Metadata q') \<noteq> None" "cr_TokenHash q' = cr_TokenHash q" using assms(3) by (simp_all add: record_evolves_def)
  with revoked_not_found [OF ok q'(1)] show ?thesis by simp
qed

lemma revokeWithActor_cases:
  assumes "revokeWithActor lib e i cs = (r, cs1)" "reachable_creds lib cs" "credential_id_ok (vi_CredentialID i)"
    "map_of (cs_byID cs) (vi_CredentialID i) = Some q"
  obtains (fail) err where "r = Inl err" "cs1 = cs"
    | (revoked) c where "r = Inr c" "\<And>ops e' m. FindByTokenHash e' (cr_TokenHash q) (run_ops (credential_step lib) ops cs1) \<noteq> Inr m"
proof -
  have ok: "store_ok cs" by (rule reachable_creds_ok [OF assms(2)])
  obtain x where x: "RevokeCredential lib e i cs = (x, cs1)" using assms(1) by (auto simp: revokeWithActor_def split: prod.splits sum.splits)
  show ?thesis
  proof (cases x)
    case (Inl err)
    with x have "cs1 = cs" by (auto elim: revoke_cases [OF _ ok])
    with assms(1) x Inl show ?thesis by (intro fail) (auto simp: revokeWithActor_def)
  next
    case (Inr c)
    have reach: "reachable_creds lib cs1" using calls_reachable [OF calls_revoke assms(2), of e i] x by simp
    have c1: "calls lib cs cs1" using calls_revoke [of lib cs e i] x by simp
    obtain q1 where q1: "map_of (cs_byID cs1) (vi_CredentialID i) = Some q1" "record_evolves q q1"
      using calls_ok [OF c1 ok] evolves_at [OF _ assms(4)] by blast
    with revoke_success [OF x [unfolded Inr] ok assms(3)] have "cc_RevokedAt (cr_Metadata q1) \<noteq> None" "cr_TokenHash q1 = cr_TokenHash q"
      by (auto simp: record_evolves_def)
    with revoked_forever [OF reach q1(1)] assms(1) x Inr show ?thesis by (intro revoked) (auto simp: revokeWithActor_def)
  qed
qed

text \<open>
  C8: a revocation on behalf of a person is authorized. It succeeds only for a credential of the named organization that
  an OAuth user holds for a resource, and for a user only if that user approved it; then the
  credential's token authenticates nobody again. Any other answer leaves the store as it was.
\<close>

theorem on_behalf_revocation_is_authorized:
  assumes "reachable_creds lib cs" "RevokeOnBehalf lib es orgID credentialID actorType actorID cs = (r, cs1)"
  shows "case r of Inl _ \<Rightarrow> cs1 = cs
    | Inr _ \<Rightarrow> (actorType = OnBehalfActorUser \<or> actorType = OnBehalfActorAdmin) \<and>
        (\<exists>cid q. map_of (cs_byID cs) cid = Some q \<and> GetByID (es 0) (TrimSpace orgID) (TrimSpace credentialID) cs = Inr (cr_Metadata q) \<and>
           cc_OrgID (cr_Metadata q) = TrimSpace orgID \<and> cp_ClientClass (cc_Provenance (cr_Metadata q)) = ClientClassOAuthUser \<and>
           cc_Resource (cr_Metadata q) \<noteq> [] \<and> (actorType = OnBehalfActorUser \<longrightarrow> cp_ApprovingUserID (cc_Provenance (cr_Metadata q)) = TrimSpace actorID) \<and>
           (\<forall>ops e m. FindByTokenHash e (cr_TokenHash q) (run_ops (credential_step lib) ops cs1) \<noteq> Inr m))"
proof -
  have ok: "store_ok cs" "all_wf cs" using reachable_creds_wf [OF assms(1)] by simp_all
  let ?i = "\<lambda>c. \<lparr>vi_OrgID = TrimSpace orgID, vi_CredentialID = cc_CredentialID c, vi_ActorID = TrimSpace actorID, vi_ActorType = actorType,
    vi_Reason = '''', vi_SelfCredential = False\<rparr>"
  consider (early) err where "r = Inl err" "cs1 = cs"
    | (go) c where "actorType = OnBehalfActorUser \<or> actorType = OnBehalfActorAdmin" "GetByID (es 0) (TrimSpace orgID) (TrimSpace credentialID) cs = Inr c"
      "cp_ClientClass (cc_Provenance c) = ClientClassOAuthUser" "actorType = OnBehalfActorUser \<longrightarrow> cp_ApprovingUserID (cc_Provenance c) = TrimSpace actorID"
      "cc_Resource c \<noteq> ''''" "revokeWithActor lib (es 1) (?i c) cs = (r, cs1)"
    using assms(2) unfolding RevokeOnBehalf_def Let_def by (auto split: if_splits sum.splits credential_error.splits)
  then show ?thesis
  proof cases
    case go
    obtain q where q: "map_of (cs_byID cs) (cc_CredentialID c) = Some q" "cr_Metadata q = c" "cc_OrgID c = TrimSpace orgID"
      using go(2) ok(1) by (rule GetByID_record) auto
    have "credential_id_ok (cc_CredentialID c)" using ok(2) q(1,2) by (auto simp: all_wf_def credential_wf_def Let_def)
    with q(1) have i: "credential_id_ok (vi_CredentialID (?i c))" "map_of (cs_byID cs) (vi_CredentialID (?i c)) = Some q" by simp_all
    from go(6) assms(1) i show ?thesis
    proof (cases rule: revokeWithActor_cases)
      case (revoked c')
      show ?thesis unfolding revoked(1) sum.case
        by (intro conjI exI [of _ "cc_CredentialID c"] exI [of _ q]) (use go(1-5) q revoked(2) in auto)
    qed simp
  qed simp
qed

theorem on_behalf_revocation_is_authorized_witness:
  "reachable_creds sx_libs sx_creds \<and>
   (\<exists>c cs1. RevokeOnBehalf sx_libs (\<lambda>_. ex_env (2 * Hour)) ''org1'' ''c5'' ''user'' ''user1'' sx_creds = (Inr c, cs1) \<and> cc_CredentialID c = ''c5'' \<and>
     (\<exists>q :: credential_record. GetByID (ex_env (2 * Hour)) (TrimSpace ''org1'') (TrimSpace ''c5'') sx_creds = Inr (cr_Metadata q) \<and>
        cp_ApprovingUserID (cc_Provenance (cr_Metadata q)) = TrimSpace ''user1''))"
proof -
  let ?R = "RevokeOnBehalf sx_libs (\<lambda>_. ex_env (2 * Hour)) ''org1'' ''c5'' ''user'' ''user1'' sx_creds"
  have "map_sum (\<lambda>_. ()) cc_CredentialID (fst ?R) = Inr ''c5''" by code_simp
  then obtain c where c: "?R = (Inr c, snd ?R)" "cc_CredentialID c = ''c5''" by (rule result_pair)
  obtain q :: credential_record where q: "GetByID (ex_env (2 * Hour)) (TrimSpace ''org1'') (TrimSpace ''c5'') sx_creds = Inr (cr_Metadata q)"
    "''user'' = OnBehalfActorUser \<longrightarrow> cp_ApprovingUserID (cc_Provenance (cr_Metadata q)) = TrimSpace ''user1''"
    using on_behalf_revocation_is_authorized [OF reachable_sx_creds c(1)] unfolding sum.case by blast
  then have "cp_ApprovingUserID (cc_Provenance (cr_Metadata q)) = TrimSpace ''user1''" by (simp add: OnBehalfActorUser_def)
  with q(1) c reachable_sx_creds show ?thesis by blast
qed

text \<open>
  A presented access token is revoked by its own client only. When the answer is \<^verbatim>\<open>ok\<close>, the token named a live
  credential issued to this client, and the token authenticates nobody again; every other answer leaves the
  store as it was.
\<close>

theorem presented_token_revocation:
  assumes "reachable_creds lib cs" "RevokePresentedAccessToken lib es token clientID cs = (r, cs1)"
  shows "if \<exists>cid. r = Inr (OutcomeOK, cid)
    then (\<exists>c. FindByTokenHash (es 0) (HashToken lib token) cs = Inr c \<and> cp_ClientID (cc_Provenance c) = clientID \<and> r = Inr (OutcomeOK, cc_CredentialID c)) \<and>
      (\<forall>ops e m. FindByTokenHash e (HashToken lib token) (run_ops (credential_step lib) ops cs1) \<noteq> Inr m)
    else cs1 = cs"
proof -
  have ok: "store_ok cs" "all_wf cs" using reachable_creds_wf [OF assms(1)] by simp_all
  consider (early) "\<nexists>cid. r = Inr (OutcomeOK, cid)" "cs1 = cs"
    | (go) c x where "FindByTokenHash (es 0) (HashToken lib token) cs = Inr c" "cp_ClientID (cc_Provenance c) = clientID"
      "service_revoke lib (es 1) (cc_OrgID c) (cc_CredentialID c) (cc_CredentialID c) True cs = (x, cs1)"
      "r = (case x of Inl err \<Rightarrow> if err = SvStore ErrNotFound \<or> err = SvStore ErrConflict then Inr (OutcomeInvalidGrant, cc_CredentialID c) else Inl err
        | Inr _ \<Rightarrow> Inr (OutcomeOK, cc_CredentialID c))"
    using assms(2) unfolding RevokePresentedAccessToken_def by (auto split: if_splits sum.splits prod.splits)
  then show ?thesis
  proof cases
    case go
    obtain k cid q where q: "normalizeTokenHash (HashToken lib token) = Inr k" "map_of (cs_byHash cs) k = Some cid" "map_of (cs_byID cs) cid = Some q" "cr_Metadata q = c"
      using go(1) by (auto simp: FindByTokenHash_def and_then_Inr split: if_splits option.splits)
    have "\<exists>q'. map_of (cs_byID cs) cid = Some q' \<and> cr_TokenHash q' = k" using ok(1) q(2) unfolding store_ok_def indexes_ok_def by blast
    with q(3) have h: "cr_TokenHash q = k" by simp
    have cid: "cc_CredentialID c = cid" "credential_id_ok cid" using store_ok_id [OF ok(1) q(3)] q(3,4) ok(2) by (auto simp: all_wf_def credential_wf_def Let_def)
    let ?i = "\<lparr>vi_OrgID = TrimSpace (cc_OrgID c), vi_CredentialID = cid, vi_ActorID = cid, vi_ActorType = '''', vi_Reason = '''', vi_SelfCredential = True\<rparr>"
    have i: "credential_id_ok (vi_CredentialID ?i)" "map_of (cs_byID cs) (vi_CredentialID ?i) = Some q" using cid(2) q(3) by simp_all
    consider (bad) err where "x = Inl err" "cs1 = cs" | (call) "revokeWithActor lib (es 1) ?i cs = (x, cs1)"
      using go(3) cid credential_id_trimmed [OF cid(2)] unfolding service_revoke_def revoke_with_def Let_def by (auto split: if_splits)
    then show ?thesis
    proof cases
      case call
      from call assms(1) i show ?thesis
      proof (cases rule: revokeWithActor_cases)
        case (revoked c')
        with go h FindByTokenHash_normal [OF q(1)] show ?thesis by auto
      qed (use go(4) in auto)
    qed (use go(4) in auto)
  qed auto
qed

theorem presented_token_revocation_witness:
  "reachable_creds sx_libs sx_creds \<and>
   (\<exists>cs1. RevokePresentedAccessToken sx_libs (\<lambda>_. ex_env (2 * Hour)) (sx_token 8) ''web'' sx_creds = (Inr (OutcomeOK, ''c5''), cs1) \<and>
     (\<forall>ops e m. FindByTokenHash e (HashToken sx_libs (sx_token 8)) (run_ops (credential_step sx_libs) ops cs1) \<noteq> Inr m))"
proof -
  let ?R = "RevokePresentedAccessToken sx_libs (\<lambda>_. ex_env (2 * Hour)) (sx_token 8) ''web'' sx_creds"
  have "fst ?R = Inr (OutcomeOK, ''c5'')" by code_simp
  then have r: "?R = (Inr (OutcomeOK, ''c5''), snd ?R)" by (metis prod.collapse)
  from presented_token_revocation [OF reachable_sx_creds r] r reachable_sx_creds show ?thesis by auto
qed

section \<open>Rotating oneself\<close>

lemma GetByID_normal:
  assumes "GetByID e org cid cs = Inr c" "GetByID e' (TrimSpace org) (TrimSpace cid) cs = Inr c'"
  shows "c' = c"
  using assms
  by (auto simp: GetByID_def and_then_Inr normalizeIdentifier_def normalizeText_def normalizeCredentialID_def Let_def split: if_splits option.splits)

lemma RotateSelf_ok:
  assumes "RotateSelf sv lib es now g p cs = (Inr (issued, receipt), cs1)"
  obtains source where "GetByID (es 0) (p_OrgID p) (p_CredentialID p) cs = Inr source" "validateSelfLifecyclePrincipal p"
    "cc_RevokedAt source = None" "in_future (cc_ExpiresAt source) (now 0)" "cc_RepositoryScopes source = p_RepositoryScopes p" "cc_Scopes source = p_Permissions p"
    "Rotate sv lib (\<lambda>k. es (Suc k)) (now 2) g (self_rotation p (now 1)) cs = (Inr issued, cs1)"
    "sf_RollbackUntil receipt \<le> cc_CreatedAt (is_Credential issued) + MaximumOverlap"
    "\<And>t. cc_ExpiresAt source = Some t \<Longrightarrow> sf_RollbackUntil receipt \<le> t"
  using assms by (auto simp: RotateSelf_def authenticatedCredential_def Let_def split: if_splits sum.splits prod.splits option.splits)

text \<open>
  A credential that rotates itself keeps its authority exactly. The successor has the scopes and
  repositories of the caller, whose own credential was live, and the window for a rollback closes no later than the
  longest overlap, and than the caller's own expiry.
\<close>

theorem self_rotation_keeps_authority:
  assumes "reachable_creds lib cs" "RotateSelf sv lib es now g p cs = (Inr (issued, receipt), cs1)"
  shows "cc_RepositoryScopes (is_Credential issued) = p_RepositoryScopes p \<and> cc_Scopes (is_Credential issued) = p_Permissions p \<and>
    (\<exists>source. GetByID (es 0) (p_OrgID p) (p_CredentialID p) cs = Inr source \<and> cc_RevokedAt source = None \<and>
       in_future (cc_ExpiresAt source) (now 0) \<and> cc_OrgID (is_Credential issued) = cc_OrgID source \<and>
       sf_RollbackUntil receipt \<le> cc_CreatedAt (is_Credential issued) + MaximumOverlap \<and>
       (\<forall>t. cc_ExpiresAt source = Some t \<longrightarrow> sf_RollbackUntil receipt \<le> t))"
proof -
  have ok: "store_ok cs" "all_wf cs" using reachable_creds_wf [OF assms(1)] by simp_all
  obtain source where s: "GetByID (es 0) (p_OrgID p) (p_CredentialID p) cs = Inr source" "validateSelfLifecyclePrincipal p"
    "cc_RevokedAt source = None" "in_future (cc_ExpiresAt source) (now 0)" "cc_RepositoryScopes source = p_RepositoryScopes p" "cc_Scopes source = p_Permissions p"
    "Rotate sv lib (\<lambda>k. es (Suc k)) (now 2) g (self_rotation p (now 1)) cs = (Inr issued, cs1)"
    "sf_RollbackUntil receipt \<le> cc_CreatedAt (is_Credential issued) + MaximumOverlap"
    "\<And>t. cc_ExpiresAt source = Some t \<Longrightarrow> sf_RollbackUntil receipt \<le> t"
    using assms(2) by (rule RotateSelf_ok) blast
  obtain i parent n where r: "RotateCredential lib (es (Suc 1)) i cs = (Inr (is_Credential issued), cs1)"
    "GetByID (es (Suc 0)) (TrimSpace (p_OrgID p)) (TrimSpace (p_CredentialID p)) cs = Inr parent"
    "normalizeCreateRequest (rotation_request (rotation_trimmed (self_rotation p (now 1))) parent) = Some n"
    "ri_OrgID i = TrimSpace (p_OrgID p)" "ri_SourceCredentialID i = TrimSpace (p_CredentialID p)"
    "rr_Scopes (ri_Replacement i) = cq_Scopes n" "rr_RepositoryScopes (ri_Replacement i) = cq_RepositoryScopes n"
    using Rotate_ok [OF s(7)] by (auto simp: self_rotation_def)
  have p: "parent = source" by (rule GetByID_normal [OF s(1) r(2)])
  have n: "cq_RepositoryScopes n = p_RepositoryScopes p" "cq_Scopes n = p_Permissions p"
    using r(3) s(2,5,6) by (auto simp: normalizeCreateRequest_def rotation_request_def rotation_trimmed_def self_rotation_def p
        validateSelfLifecyclePrincipal_def Let_def split: if_splits option.splits)
  from r(1) ok(1) show ?thesis
  proof (cases rule: rotate_cases)
    case (rotated m q rows)
    have q: "cr_Metadata q = source"
      using r(2,4,5) normalizeRotation_result(6,7) [OF rotated(1)] rotated(2) p by (auto simp: GetByID_def and_then_Inr split: if_splits)
    have "credential_wf q" using ok(2) rotated(2) by (auto simp: all_wf_def credential_at_some)
    then have "scopes_ok (p_Permissions p)" "repositories_ok (p_RepositoryScopes p)" using q s(5,6) by (simp_all add: credential_wf_def Let_def)
    with normalizeRotation_scopes [OF rotated(1)] r(6,7) n normalizeScopes_normal normalizeRepositories_normal
    have "rr_Scopes (ri_Replacement m) = p_Permissions p" "rr_RepositoryScopes (ri_Replacement m) = p_RepositoryScopes p" by simp_all
    with rotated(8) q have "cc_RepositoryScopes (is_Credential issued) = p_RepositoryScopes p" "cc_Scopes (is_Credential issued) = p_Permissions p"
      "cc_OrgID (is_Credential issued) = cc_OrgID source"
      by (simp_all add: replacement_record_def credentialFromRotation_def credentialFromCreate_def)
    with s show ?thesis by blast
  qed simp
qed

definition sx_principal :: principal where
  "sx_principal = \<lparr>p_AuthenticationMethod = AuthenticationMethodCredential, p_Subject = ''c3'', p_OrgID = ''org1'', p_CredentialID = ''c3'',
     p_RepositoryScopes = [''acme/*'', ''acme/widgets''], p_Permissions = [''context:read'', ''evidence:read''], p_ProductEntitlements = [],
     p_ClientClass = ''org_bearer'', p_ApprovingUserID = '''', p_SessionID = '''', p_Impersonating = False, p_CredentialSessionID = '''',
     p_ProjectScopes = []\<rparr>"

theorem self_rotation_keeps_authority_witness:
  "reachable_creds sx_libs sx_creds \<and>
   (\<exists>issued receipt cs1. RotateSelf sx_service sx_libs (\<lambda>_. ex_env (2 * Hour)) (\<lambda>_. 2 * Hour) sx_generated sx_principal sx_creds = (Inr (issued, receipt), cs1) \<and>
     sf_SourceCredentialID receipt = ''c3'' \<and> cc_RepositoryScopes (is_Credential issued) = [''acme/*'', ''acme/widgets''] \<and>
     cc_Scopes (is_Credential issued) = [''context:read'', ''evidence:read''])"
proof -
  let ?R = "RotateSelf sx_service sx_libs (\<lambda>_. ex_env (2 * Hour)) (\<lambda>_. 2 * Hour) sx_generated sx_principal sx_creds"
  have "map_sum (\<lambda>_. ()) (\<lambda>x. sf_SourceCredentialID (snd x)) (fst ?R) = Inr ''c3''" by code_simp
  then obtain out where o: "?R = (Inr out, snd ?R)" "sf_SourceCredentialID (snd out) = ''c3''" by (rule result_pair)
  then have r: "?R = (Inr (fst out, snd out), snd ?R)" by simp
  have p: "p_RepositoryScopes sx_principal = [''acme/*'', ''acme/widgets'']" "p_Permissions sx_principal = [''context:read'', ''evidence:read'']"
    by (simp_all add: sx_principal_def)
  from self_rotation_keeps_authority [OF reachable_sx_creds r, unfolded p] o(2) r reachable_sx_creds show ?thesis by blast
qed

end
