(* ===== verification/Device_Flow_Properties.thy ===== *)
theory Device_Flow_Properties
  imports Device_Flow Device_Properties Service_Properties
begin

text \<open>
  The properties of the device flow, which composes the device authorizations, the credential service and the OAuth
  grants: the codes it generates are the codes it accepts, a start ends with fresh codes, and a
  credential polled for a device never allows more than the person who approved it was allowed.
\<close>

section \<open>Codes\<close>

lemma five_bits:
  fixes a b c d e :: nat
  shows "a < 256 \<Longrightarrow> a div 8 < 32" "b < 256 \<Longrightarrow> a mod 8 * 4 + b div 64 < 32" "c < 256 \<Longrightarrow> b mod 2 * 16 + c div 16 < 32"
    "d < 256 \<Longrightarrow> c mod 16 * 2 + d div 128 < 32" "e < 256 \<Longrightarrow> d mod 4 * 8 + e div 32 < 32"
  by linarith+

lemma b32_five:
  assumes "bytes_ok bs" "length bs = 5"
  obtains vs where "b32_encode alphabet bs = map ((!) alphabet) vs" "length vs = 8" "list_all (\<lambda>v. v < 32) vs"
proof -
  obtain a b c d e where bs: "bs = [a, b, c, d, e]" using assms(2) by (auto simp: length_Suc_conv numeral_eq_Suc)
  let ?vs = "[a div 8, a mod 8 * 4 + b div 64, b div 2 mod 32, b mod 2 * 16 + c div 16, c mod 16 * 2 + d div 128, d div 4 mod 32,
    d mod 4 * 8 + e div 32, e mod 32]"
  have "list_all (\<lambda>v. v < 32) ?vs" using assms(1) five_bits [of a] five_bits [of b] by (simp add: bs bytes_ok_def five_bits)
  then show ?thesis by (intro that [of ?vs]) (simp_all add: bs)
qed

lemma ToUpper_plain:
  assumes "list_all (\<lambda>c. byte_of c < 128 \<and> \<not> is_lower c) s"
  shows "ToUpper s = s"
proof -
  have "runes_of s = map (\<lambda>c. \<lparr>seg_rune = byte_of c, seg_valid = True, seg_bytes = [byte_of c]\<rparr>) s"
    using assms by (intro runes_of_ascii) (auto simp: list_all_iff)
  moreover have "concat (map (upper_seg \<circ> (\<lambda>c. \<lparr>seg_rune = byte_of c, seg_valid = True, seg_bytes = [byte_of c]\<rparr>)) s) = s"
    using assms by (induction s) (auto simp: upper_seg_def ascii_upper_def)
  ultimately show ?thesis by (simp add: ToUpper_def)
qed

lemma alphabet_plain: "c \<in> set DeviceUserCodeAlphabet \<Longrightarrow> 33 \<le> byte_of c \<and> byte_of c < 128 \<and> \<not> is_lower c"
proof -
  have "list_all (\<lambda>c. 33 \<le> byte_of c \<and> byte_of c < 128 \<and> \<not> is_lower c) DeviceUserCodeAlphabet" by code_simp
  then show "c \<in> set DeviceUserCodeAlphabet \<Longrightarrow> 33 \<le> byte_of c \<and> byte_of c < 128 \<and> \<not> is_lower c" by (simp add: list_all_iff)
qed

lemma user_code_accepted:
  assumes "length code = DeviceUserCodeLength" "set code \<subseteq> set DeviceUserCodeAlphabet"
  shows "normalizeUserCode code = Some code"
proof -
  have plain: "list_all (\<lambda>c. 33 \<le> byte_of c \<and> byte_of c < 128 \<and> \<not> is_lower c) code" using assms(2) alphabet_plain by (auto simp: list_all_iff)
  then have u: "ToUpper (TrimSpace code) = code" using TrimSpace_plain [of code] ToUpper_plain [of code] by (auto simp: list_all_iff)
  have "runes_of code = map (\<lambda>c. \<lparr>seg_rune = byte_of c, seg_valid = True, seg_bytes = [byte_of c]\<rparr>) code"
    using plain by (intro runes_of_ascii) (auto simp: list_all_iff)
  then show ?thesis using assms u by (auto simp: normalizeUserCode_def Let_def list_all_iff list_ex_iff)
qed

lemma device_code_accepted:
  assumes "bytes_ok bs" "length bs = deviceCodeBytes"
  shows "NormalizeDeviceCode (b64_encode bs) = Some (b64_encode bs)"
proof -
  have "list_all (\<lambda>c. 33 \<le> byte_of c \<and> byte_of c < 128) b64_alphabet" by code_simp
  then have "list_all (\<lambda>c. 33 \<le> byte_of c \<and> byte_of c < 128) (b64_encode bs)"
    using b64_encode_alphabet [OF assms(1)] by (auto simp: isRawURLAlphabet_set list_all_iff)
  from TrimSpace_plain [OF this] show ?thesis by (simp add: NormalizeDeviceCode_def b64_decode_encode assms)
qed

text \<open>
  The flow accepts the codes it generates, unchanged, and a device code has one spelling: a device code is accepted
  only in the form its random bytes encode to.
\<close>

theorem generated_codes_are_accepted:
  assumes "generateDeviceCodes (Some (deviceBytes, userBytes)) = Some (deviceCode, userCode)"
    and "bytes_ok deviceBytes" "length deviceBytes = deviceCodeBytes" "bytes_ok userBytes" "length userBytes = userCodeRandomBytes"
  shows "NormalizeDeviceCode deviceCode = Some deviceCode \<and> normalizeUserCode userCode = Some userCode \<and>
    (\<forall>code. NormalizeDeviceCode code = Some deviceCode \<longrightarrow> TrimSpace code = deviceCode \<and> b64_decode False deviceCode = Some deviceBytes)"
proof -
  have codes: "deviceCode = b64_encode deviceBytes" "userCode = b32_encode DeviceUserCodeAlphabet userBytes"
    using assms(1) by (simp_all add: generateDeviceCodes_def)
  obtain vs where vs: "userCode = map ((!) DeviceUserCodeAlphabet) vs" "length vs = 8" "list_all (\<lambda>v. v < 32) vs"
    using b32_five [OF assms(4)] assms(5) codes(2) by (auto simp: userCodeRandomBytes_def)
  have al: "length DeviceUserCodeAlphabet = 32" by (simp add: DeviceUserCodeAlphabet_def)
  have "set userCode \<subseteq> set DeviceUserCodeAlphabet" using vs(1,3) nth_mem al by (auto simp: list_all_iff)
  with vs have "normalizeUserCode userCode = Some userCode" by (intro user_code_accepted) (simp_all add: DeviceUserCodeLength_def)
  moreover have "TrimSpace code = deviceCode" if "NormalizeDeviceCode code = Some deviceCode" for code
    using that by (auto simp: NormalizeDeviceCode_def Let_def split: option.splits if_splits)
  ultimately show ?thesis using device_code_accepted [OF assms(2,3)] codes(1) b64_decode_encode [OF assms(2)] by auto
qed

theorem generated_codes_are_accepted_witness:
  "\<exists>d u. generateDeviceCodes (Some (replicate 32 7, replicate 5 200)) = Some (d, u) \<and> NormalizeDeviceCode d = Some d \<and> normalizeUserCode u = Some u"
proof -
  obtain d u where c: "generateDeviceCodes (Some (replicate 32 7, replicate 5 200)) = Some (d, u)" by (simp add: generateDeviceCodes_def)
  have b: "bytes_ok (replicate 32 7)" "length (replicate 32 7) = deviceCodeBytes" "bytes_ok (replicate 5 200)" "length (replicate 5 200) = userCodeRandomBytes"
    by (simp_all add: bytes_ok_def deviceCodeBytes_def userCodeRandomBytes_def list_all_iff)
  from generated_codes_are_accepted [OF c b] c show ?thesis by blast
qed

section \<open>From approval to credential\<close>

lemma normal_slug:
  assumes "NormalizeRepositorySlug slug = Some s"
  shows "ValidSlug s" "NormalizeRepositorySlug s = Some s"
proof -
  show v: "ValidSlug s" using assms by (auto simp: NormalizeRepositorySlug_def Let_def split: if_splits)
  then show "NormalizeRepositorySlug s = Some s" using ValidScope_normal [OF ValidSlug_scope] by (simp add: NormalizeRepositorySlug_def)
qed

text \<open>What a principal may approve, the principal is allowed.\<close>

lemma may_approve_within:
  assumes "may_approve grant repositories" "repositories_ok repositories" "RepositoryAllowed repositories slug"
  shows "RepositoryAllowed grant slug"
proof (cases "repositories = [''*'']")
  case True
  with assms show ?thesis by (simp add: may_approve_def)
next
  case False
  then have m: "\<not> hasRepositoryWildcard repositories" "repositoriesWithinGrant grant repositories" using assms(1) by (auto simp: may_approve_def)
  obtain s v where s: "NormalizeRepositorySlug slug = Some s" "v \<in> set repositories" "scope_allows v s"
    using assms(3) by (auto simp: RepositoryAllowed_def list_ex_iff split: option.splits)
  have "ValidScope v" using assms(2) s(2) by (auto simp: repositories_ok_def list_all_iff)
  with s(3) have "v = ''*'' \<or> v = s \<or> v = owner_of s @ ''/*''" using scope_allows_valid by blast
  moreover have "v \<noteq> ''*''" "\<not> has_suffix v ''/*''" using m(1) s(2) by (auto simp: hasRepositoryWildcard_def list_ex_iff)
  ultimately have "v = s" by (auto simp: has_suffix_def)
  then have "RepositoryAllowed grant s" using m(2) s(2) by (auto simp: repositoriesWithinGrant_def list_all_iff)
  with normal_slug [OF s(1)] s(1) show ?thesis by (simp add: RepositoryAllowed_def)
qed

lemma approve_ok:
  assumes "approveUserCodeHash fe p hash repos scopes s = (Inr r, s1)"
  obtains repositories where "validDeviceApprovalPrincipal p" "\<not> p_Impersonating p" "NormalizeRepositoryScopes repos = Some repositories"
    "may_approve (p_RepositoryScopes p) repositories" "Device_Approve (fe 2) hash (approval_grant p repositories scopes) s = (Inr r, s1)"
  using assms
  by (auto simp: approveUserCodeHash_def normalizedPrincipalRepositories_def split: if_splits option.splits sum.splits prod.splits)

lemma Device_Poll_ok:
  assumes "Device_Poll es h s = (Inr r, s1)"
  shows "map_of (ds_byDevice s1) h = Some r" "ds_credentials s1 = ds_credentials s"
proof -
  obtain x s' where l: "deviceLocked (es 0) h s = (x, s')" by fastforce
  from l assms have "map_of (ds_byDevice s1) h = Some r \<and> ds_credentials s1 = ds_credentials s"
    by (cases rule: deviceLocked_cases)
      (auto simp: Device_Poll_def l store_device_def map_simps Let_def split: if_splits option.splits)
  then show "map_of (ds_byDevice s1) h = Some r" "ds_credentials s1 = ds_credentials s" by auto
qed

lemma flow_redeem_ok:
  assumes "flow_redeem lib es ic r clientID resource scopes ackable s = (Inr issued, s1)"
  obtains p where "PrepareCreate lib (ic_service_now ic) (ic_generated ic) (redeem_request r (ic_now ic) clientID resource scopes) = Inr p"
    "redeem lib es (da_DeviceCodeHash r) (snd p) ackable s = (Inr (is_Credential issued), s1)" "is_Token issued = fst p"
  using assms
  by (auto simp: flow_redeem_def redeemAs_def redeem_prepared_def Redeem_def RedeemAckable_def Complete_def Let_def
      split: if_splits sum.splits prod.splits)

lemma prepared_scopes:
  assumes "PrepareCreate lib now g q = Inr p"
  shows "auth_normalizeScopes (cq_Scopes q) = Some (ci_Scopes (snd p))" "ci_ClientClass (snd p) = cq_ClientClass q"
  using assms
  by (auto simp: PrepareCreate_def normalizeCreateRequest_def issueCreateInput_def Let_def split: if_splits option.splits)

lemma auth_scopes_set: "auth_normalizeScopes vs = Some w \<Longrightarrow> vs \<noteq> [] \<Longrightarrow> set w = TrimSpace ` set vs"
proof -
  have loop: "auth_scopes_loop vs acc = Some w \<Longrightarrow> set w = set acc \<union> TrimSpace ` set vs" for acc
    by (induction vs acc rule: auth_scopes_loop.induct) (auto simp: Let_def split: if_splits)
  show "auth_normalizeScopes vs = Some w \<Longrightarrow> vs \<noteq> [] \<Longrightarrow> set w = TrimSpace ` set vs"
    using loop [of "[]"] by (auto simp: auth_normalizeScopes_def split: option.splits if_splits)
qed

lemma Flow_Poll_ok:
  assumes "Flow_Poll lib sha fe ic grants code s = (Inr issued, s2)"
  obtains deviceCode r s1 where "NormalizeDeviceCode code = Some deviceCode" "Device_Poll (fe 1) (HashDeviceCode sha deviceCode) s = (Inr r, s1)"
    "lookup_grant (fe 2 0) (HashDeviceCode sha deviceCode) grants = Inl OaNotFound" "flow_redeem lib (fe 3) ic r '''' '''' None True s1 = (Inr issued, s2)"
  using assms
  by (auto simp: Flow_Poll_def Let_def split: if_splits option.splits sum.splits prod.splits device_state.splits)

text \<open>
  C2: a device gets no more than its approver has. When a person approves a user code, and the device later polls the device flow with its
  code and receives a credential, whatever happened in between, then the person was signed in to the web, not
  impersonated and permitted to issue credentials; the credential belongs to their organization and
  names them; it can read context and evidence and nothing else; every repository it allows their grant allows;
  and the code was not one of an OAuth device grant.
\<close>

theorem device_credential_within_approver:
  assumes reach: "reachable_devices lib s" and appr: "Flow_Approve sha fe p userCode repositoryScopes s = (Inr r, s1)"
    and codes: "normalizeUserCode userCode = Some uc" "NormalizeDeviceCode code = Some dc" "map_of (ds_byUser s) (HashUserCode sha uc) = Some (HashDeviceCode sha dc)"
    and run: "ok_run (device_step lib) ranges ops s1"
    and poll: "Flow_Poll lib sha fe' ic grants code (run_ops (device_step lib) ops s1) = (Inr issued, s2)"
  shows "validDeviceApprovalPrincipal p \<and> \<not> p_Impersonating p \<and> lookup_grant (fe' 2 0) (HashDeviceCode sha dc) grants = Inl OaNotFound \<and>
    cc_OrgID (is_Credential issued) = TrimSpace (p_OrgID p) \<and> cp_ApprovingUserID (cc_Provenance (is_Credential issued)) = TrimSpace (p_Subject p) \<and>
    set (cc_Scopes (is_Credential issued)) \<subseteq> {''context:read'', ''evidence:read''} \<and>
    (\<forall>slug. RepositoryAllowed (cc_RepositoryScopes (is_Credential issued)) slug \<longrightarrow> RepositoryAllowed (p_RepositoryScopes p) slug)"
proof -
  let ?h = "HashDeviceCode sha dc" and ?t = "run_ops (device_step lib) ops s1"
  have "approveUserCodeHash fe p (HashUserCode sha uc) repositoryScopes deviceApprovalScopes s = (Inr r, s1)"
    using appr codes(1) by (simp add: Flow_Approve_def split: if_splits)
  then obtain repositories where a: "validDeviceApprovalPrincipal p" "\<not> p_Impersonating p" "NormalizeRepositoryScopes repositoryScopes = Some repositories"
    "may_approve (p_RepositoryScopes p) repositories" "Device_Approve (fe 2) (HashUserCode sha uc) (approval_grant p repositories deviceApprovalScopes) s = (Inr r, s1)"
    by (rule approve_ok)
  obtain u t1 where f: "Device_Poll (fe' 1) ?h ?t = (Inr u, t1)" "lookup_grant (fe' 2 0) ?h grants = Inl OaNotFound"
    "flow_redeem lib (fe' 3) ic u '''' '''' None True t1 = (Inr issued, s2)"
    using poll codes(2) by (auto elim!: Flow_Poll_ok)
  have t1: "t1 = run_ops (device_step lib) (ops @ [DvPoll (fe' 1) ?h]) s1" using f(1) by (simp add: run_ops_append)
  have run': "ok_run (device_step lib) ranges (ops @ [DvPoll (fe' 1) ?h]) s1" using run by (simp add: ok_run_append)
  have "s1 = run_ops (device_step lib) [DvApprove (fe 2) (HashUserCode sha uc) (approval_grant p repositories deviceApprovalScopes)] s"
    using a(5) by simp
  then have "reachable_devices lib s1" using reachable_devices_run [OF reach, of "[DvApprove (fe 2) (HashUserCode sha uc) (approval_grant p repositories deviceApprovalScopes)]"] by simp
  from reachable_devices_run [OF this run'] have "keyed t1" unfolding t1 by (rule reachable_devices_keyed)
  with Device_Poll_ok(1) [OF f(1)] have key: "da_DeviceCodeHash u = ?h" by (simp add: keyed_def)
  obtain pr where pr: "PrepareCreate lib (ic_service_now ic) (ic_generated ic) (redeem_request u (ic_now ic) '''' '''' None) = Inr pr"
    "redeem lib (fe' 3) ?h (snd pr) True t1 = (Inr (is_Credential issued), s2)"
    using f(3) key by (auto elim!: flow_redeem_ok)
  note c = approved_credential [OF reach a(5) codes(3) run' pr(2) [unfolded t1]]
  have n: "auth_normalizeScopes [''context:read'', ''evidence:read''] = Some [''context:read'', ''evidence:read'']"
      "TrimSpace ''context:read'' = ''context:read''" "TrimSpace ''evidence:read'' = ''evidence:read''" by code_simp+
  have "ci_Scopes (snd pr) = [''context:read'', ''evidence:read'']" using prepared_scopes(1) [OF pr(1)] n(1) by (simp add: redeem_request_def)
  then have "TrimSpace ` set (ci_Scopes (snd pr)) = {''context:read'', ''evidence:read''}" by (simp add: n(2,3))
  with c have sc: "set (cc_Scopes (is_Credential issued)) \<subseteq> {''context:read'', ''evidence:read''}" by simp
  have rep: "repositories_ok repositories" by (rule NormalizeRepositoryScopes_ok [OF a(3)])
  then have "cc_RepositoryScopes (is_Credential issued) = repositories" using c normalizeRepositories_normal by (simp add: approval_grant_def)
  with may_approve_within [OF a(4) rep] a(1,2) f(2) c sc show ?thesis by (simp add: approval_grant_def)
qed

definition fx_sha :: "string \<Rightarrow> secret_hash" where
  "fx_sha v = ex_secret (if length v = DeviceUserCodeLength then CHR ''u'' else CHR ''d'')"

definition fx_envs :: "time \<Rightarrow> flow_envs" where
  "fx_envs t c k = ex_env t"

definition fx_device :: string where "fx_device = b64_encode (replicate 32 7)"
definition fx_user :: string where "fx_user = ''ABCD2345''"

definition fx_person :: principal where
  "fx_person = \<lparr>p_AuthenticationMethod = AuthenticationMethodWebAssertion, p_Subject = ''user1'', p_OrgID = ''org1'', p_CredentialID = '''',
     p_RepositoryScopes = [''acme/*''], p_Permissions = [WebAssertionPermissionCredentialIssue], p_ProductEntitlements = [],
     p_ClientClass = '''', p_ApprovingUserID = '''', p_SessionID = ''sess1'', p_Impersonating = False, p_CredentialSessionID = '''',
     p_ProjectScopes = []\<rparr>"

definition fx_issuance :: "time \<Rightarrow> issuance" where
  "fx_issuance t = \<lparr>ic_now = t, ic_service_now = t, ic_generated = sx_generated, ic_family = None\<rparr>"

lemma reachable_fx_pending: "reachable_devices lib ex_pending"
proof -
  have "device_step lib (DvCreate (ex_at Hour) ex_device) = device_step ex_libs (DvCreate (ex_at Hour) ex_device)" by (rule ext) simp
  then show ?thesis using reachable_devices_run [OF reachable_ex_new, of lib "[DvCreate (ex_at Hour) ex_device]"] by (simp add: ex_pending_def)
qed

theorem device_credential_within_approver_witness:
  "\<exists>r s1 issued s2. reachable_devices sx_libs ex_pending \<and>
    Flow_Approve fx_sha (fx_envs (Hour + Minute)) fx_person fx_user [''Acme/Widgets''] ex_pending = (Inr r, s1) \<and>
    Flow_Poll sx_libs fx_sha (fx_envs (Hour + 2 * Minute)) (fx_issuance (Hour + 2 * Minute)) None fx_device s1 = (Inr issued, s2) \<and>
    cc_RepositoryScopes (is_Credential issued) = [''acme/widgets''] \<and> cc_OrgID (is_Credential issued) = TrimSpace ''org1'' \<and>
    (\<forall>slug. RepositoryAllowed [''acme/widgets''] slug \<longrightarrow> RepositoryAllowed [''acme/*''] slug)"
proof -
  let ?A = "Flow_Approve fx_sha (fx_envs (Hour + Minute)) fx_person fx_user [''Acme/Widgets''] ex_pending"
  have "map_sum (\<lambda>_. ()) da_State (fst ?A) = Inr DeviceAuthorizationStateApproved" by code_simp
  then obtain r where r: "?A = (Inr r, snd ?A)" by (rule result_pair)
  let ?B = "Flow_Poll sx_libs fx_sha (fx_envs (Hour + 2 * Minute)) (fx_issuance (Hour + 2 * Minute)) None fx_device (snd ?A)"
  have "map_sum (\<lambda>_. ()) (\<lambda>i. cc_RepositoryScopes (is_Credential i)) (fst ?B) = Inr [''acme/widgets'']" by code_simp
  then obtain issued where i: "?B = (Inr issued, snd ?B)" "cc_RepositoryScopes (is_Credential issued) = [''acme/widgets'']" by (rule result_pair)
  have c: "normalizeUserCode fx_user = Some fx_user" "NormalizeDeviceCode fx_device = Some fx_device"
    "map_of (ds_byUser ex_pending) (HashUserCode fx_sha fx_user) = Some (HashDeviceCode fx_sha fx_device)" by code_simp+
  have p: "p_RepositoryScopes fx_person = [''acme/*'']" "p_OrgID fx_person = ''org1''" by (simp_all add: fx_person_def)
  have i': "Flow_Poll sx_libs fx_sha (fx_envs (Hour + 2 * Minute)) (fx_issuance (Hour + 2 * Minute)) None fx_device
      (run_ops (device_step sx_libs) [] (snd ?A)) = (Inr issued, snd ?B)" using i(1) by simp
  from device_credential_within_approver [OF reachable_fx_pending r c _ i'] i r reachable_fx_pending show ?thesis
    unfolding p by auto
qed

section \<open>Starting\<close>

lemma plain_hint:
  assumes "ValidScope v" "v \<noteq> ''*''" "\<not> has_suffix v ''/*''"
  shows "TrimSpace v = v \<and> v \<noteq> '''' \<and> length (runes_of v) \<le> 512 \<and> CHR ''*'' \<notin> set v"
proof -
  let ?parts = "split_on (CHR ''/'') v"
  have slug: "ValidSlug v" using assms by (auto simp: ValidScope_def split: if_splits)
  have b: "list_all (\<lambda>c. 33 \<le> byte_of c \<and> byte_of c < 128) v" using ValidScope_chars [OF assms(1)] scope_char_byte by (auto simp: list_all_iff)
  have len: "length v \<le> 255" using slug by (auto simp: ValidSlug_def MaxSlugBytes_def Let_def)
  have "length (runes_of v) = length v" using b by (subst runes_of_ascii) (auto simp: list_all_iff)
  moreover have "CHR ''*'' \<notin> set v"
  proof
    assume "CHR ''*'' \<in> set v"
    then obtain q where q: "q \<in> set ?parts" "CHR ''*'' \<in> set q" using split_on_chars [of "CHR ''*''" v "CHR ''/''"] by auto
    have "q \<in> set (butlast ?parts) \<or> q = last ?parts"
      using q(1) by (metis append_butlast_last_id in_set_butlast_appendI rotate1.simps(2) set_ConsD set_rotate1 split_on_nonempty)
    then have "list_all slug_char q" using slug by (auto simp: ValidSlug_def Let_def ValidOwner_def ValidName_def list_all_iff)
    with q(2) show False by (auto simp: list_all_iff slug_char_def slug_alnum_def is_lower_def is_digit_def byte_of_def)
  qed
  ultimately show ?thesis using TrimSpace_plain [OF b] len owner_of_slug [OF slug] by auto
qed

lemma normal_hints_valid:
  assumes "normalizeDeviceAuthorizationHints hints = Some h" "case fh_RepositoryHints h of None \<Rightarrow> True | Some hs \<Rightarrow> length hs \<le> 100"
  shows "ValidateDeviceAuthorizationHints \<lparr>dc_DeviceCodeHash = d, dc_UserCodeHash = u, dc_OrganizationIDHint = fh_OrganizationIDHint h,
    dc_RepositoryHints = (case fh_RepositoryHints h of None \<Rightarrow> [] | Some hs \<Rightarrow> hs)\<rparr>"
proof -
  have org: "TrimSpace (fh_OrganizationIDHint h) = fh_OrganizationIDHint h" "length (runes_of (fh_OrganizationIDHint h)) \<le> 128"
    using assms(1) by (auto simp: normalizeDeviceAuthorizationHints_def split: if_splits option.splits)
  show ?thesis
  proof (cases "fh_RepositoryHints h")
    case None
    with org show ?thesis by (simp add: ValidateDeviceAuthorizationHints_def)
  next
    case (Some hs)
    have hs: "repositories_ok hs" "\<not> hasRepositoryWildcard hs"
      using assms(1) Some NormalizeRepositoryScopes_ok by (auto simp: normalizeDeviceAuthorizationHints_def split: if_splits option.splits)
    have "TrimSpace v = v \<and> v \<noteq> '''' \<and> length (runes_of v) \<le> 512 \<and> CHR ''*'' \<notin> set v" if "v \<in> set hs" for v
      using plain_hint [of v] hs that by (auto simp: repositories_ok_def hasRepositoryWildcard_def list_all_iff list_ex_iff)
    with org hs(1) assms(2) Some show ?thesis by (auto simp: ValidateDeviceAuthorizationHints_def repositories_ok_def list_all_iff not_less)
  qed
qed

definition usable_codes :: "(string \<Rightarrow> secret_hash) \<Rightarrow> random_codes \<Rightarrow> bool" where
  "usable_codes sha random = (case generateDeviceCodes random of None \<Rightarrow> False | Some (d, u) \<Rightarrow> \<not> hash_IsZero (sha d) \<and> \<not> hash_IsZero (sha u))"

definition fresh_codes :: "(string \<Rightarrow> secret_hash) \<Rightarrow> device_store \<Rightarrow> random_codes \<Rightarrow> bool" where
  "fresh_codes sha s random = (case generateDeviceCodes random of None \<Rightarrow> False
     | Some (d, u) \<Rightarrow> \<not> has_key (ds_byDevice s) (sha d) \<and> \<not> has_key (ds_byUser s) (sha u))"

lemma start_loop_ends:
  assumes "\<And>d u. ValidateDeviceAuthorizationHints \<lparr>dc_DeviceCodeHash = d, dc_UserCodeHash = u, dc_OrganizationIDHint = fh_OrganizationIDHint h,
      dc_RepositoryHints = (case fh_RepositoryHints h of None \<Rightarrow> [] | Some hs \<Rightarrow> hs)\<rparr>"
    and "\<And>c k j. \<not> env_err (fe c k) j" "list_all (usable_codes sha) randoms" "list_ex (fresh_codes sha s) randoms"
  shows "\<exists>st s1. start_loop sha fe h randoms s = (Inr st, s1) \<and> da_State (sd_Record st) = DeviceAuthorizationStatePending \<and>
    map_of (ds_byDevice s) (sha (sd_DeviceCode st)) = None \<and> map_of (ds_byUser s) (sha (sd_UserCode st)) = None \<and> map_of (ds_byDevice s1) (sha (sd_DeviceCode st)) = Some (sd_Record st) \<and>
    map_of (ds_byUser s1) (sha (sd_UserCode st)) = Some (sha (sd_DeviceCode st))"
  using assms(2-4)
proof (induction randoms arbitrary: fe)
  case (Cons random rest)
  obtain d u where g: "generateDeviceCodes random = Some (d, u)" "\<not> hash_IsZero (sha d)" "\<not> hash_IsZero (sha u)"
    using Cons.prems(2) by (auto simp: usable_codes_def split: option.splits)
  let ?C = "Device_Create (fe 0) \<lparr>dc_DeviceCodeHash = sha d, dc_UserCodeHash = sha u, dc_OrganizationIDHint = fh_OrganizationIDHint h,
    dc_RepositoryHints = (case fh_RepositoryHints h of None \<Rightarrow> [] | Some hs \<Rightarrow> hs)\<rparr> s"
  show ?case
  proof (cases "has_key (ds_byDevice s) (sha d) \<or> has_key (ds_byUser s) (sha u)")
    case True
    with g assms(1) Cons.prems(1) have "?C = (Inl (NewDeviceAuthorizationError DeviceConflict DeviceAuthorizationStatePending 0), s)"
      by (auto simp: Device_Create_def)
    then have "start_loop sha fe h (random # rest) s = start_loop sha (\<lambda>c. fe (Suc c)) h rest s"
      using g by (simp add: HashDeviceCode_def HashUserCode_def NewDeviceAuthorizationError_def)
    moreover have "\<not> fresh_codes sha s random" using True g by (simp add: fresh_codes_def)
    with Cons.prems(3) have "list_ex (fresh_codes sha s) rest" by simp
    ultimately show ?thesis using Cons.IH [of "\<lambda>c. fe (Suc c)"] Cons.prems(1,2) by simp
  next
    case False
    obtain r s1 where "?C = (Inr r, s1)" "da_State r = DeviceAuthorizationStatePending" "map_of (ds_byDevice s1) (sha d) = Some r" "map_of (ds_byUser s1) (sha u) = Some (sha d)"
      using False g assms(1) Cons.prems(1) by (simp add: Device_Create_def Let_def store_device_def map_simps)
    with g False show ?thesis by (auto simp: HashDeviceCode_def HashUserCode_def has_key_def)
  qed
qed simp

text \<open>
  C35: a start ends with codes nobody had. When the hints are acceptable and at most 100, the source of random bytes
  yields usable codes, the request's context does not end, and one of the eight attempts draws codes of which neither is
  taken, the flow starts: the answer is a pending authorization stored under both codes, and neither the device code nor
  the user code led to an authorization before.
\<close>

theorem start_ends_with_fresh_codes:
  assumes "normalizeDeviceAuthorizationHints hints = Some h" "case fh_RepositoryHints h of None \<Rightarrow> True | Some hs \<Rightarrow> length hs \<le> 100"
    and "\<And>c k j. \<not> env_err (fe c k) j" "\<And>k. k < maxDeviceCodeAttempts \<Longrightarrow> usable_codes sha (random k)"
    and "k < maxDeviceCodeAttempts" "fresh_codes sha s (random k)"
  shows "\<exists>st s1. Flow_Start sha fe random hints s = (Inr st, s1) \<and> da_State (sd_Record st) = DeviceAuthorizationStatePending \<and>
    map_of (ds_byDevice s) (sha (sd_DeviceCode st)) = None \<and> map_of (ds_byUser s) (sha (sd_UserCode st)) = None \<and> map_of (ds_byDevice s1) (sha (sd_DeviceCode st)) = Some (sd_Record st) \<and>
    map_of (ds_byUser s1) (sha (sd_UserCode st)) = Some (sha (sd_DeviceCode st))"
proof -
  have "list_all (usable_codes sha) (map random [0..<maxDeviceCodeAttempts])" "list_ex (fresh_codes sha s) (map random [0..<maxDeviceCodeAttempts])"
    using assms(4-6) by (auto simp: list_all_iff list_ex_iff)
  from start_loop_ends [OF normal_hints_valid [OF assms(1,2)] _ this, of "\<lambda>c. fe (Suc c)"] assms(1,3) show ?thesis
    by (simp add: Flow_Start_def start_with_def)
qed

definition fx_random :: "nat \<Rightarrow> random_codes" where
  "fx_random k = Some (replicate 32 7, replicate 5 200)"

theorem start_ends_with_fresh_codes_witness:
  "normalizeDeviceAuthorizationHints \<lparr>fh_OrganizationIDHint = ''org1'', fh_RepositoryHints = Some [''Acme/Widgets'']\<rparr> =
     Some \<lparr>fh_OrganizationIDHint = ''org1'', fh_RepositoryHints = Some [''acme/widgets'']\<rparr> \<and> fresh_codes fx_sha ex_new_devices (fx_random 0) \<and>
   (\<exists>st s1. Flow_Start fx_sha (fx_envs Hour) fx_random \<lparr>fh_OrganizationIDHint = ''org1'', fh_RepositoryHints = Some [''Acme/Widgets'']\<rparr> ex_new_devices = (Inr st, s1) \<and>
      map_of (ds_byUser ex_new_devices) (fx_sha (sd_UserCode st)) = None \<and> map_of (ds_byDevice s1) (fx_sha (sd_DeviceCode st)) = Some (sd_Record st))"
proof -
  have h: "normalizeDeviceAuthorizationHints \<lparr>fh_OrganizationIDHint = ''org1'', fh_RepositoryHints = Some [''Acme/Widgets'']\<rparr> =
     Some \<lparr>fh_OrganizationIDHint = ''org1'', fh_RepositoryHints = Some [''acme/widgets'']\<rparr>" by code_simp
  have u: "usable_codes fx_sha (fx_random k)" for k
  proof -
    have "usable_codes fx_sha (fx_random 0)" by code_simp
    then show ?thesis by (simp add: fx_random_def)
  qed
  have f: "fresh_codes fx_sha ex_new_devices (fx_random 0)" by code_simp
  have e: "\<not> env_err (fx_envs Hour c k) j" for c k j by (simp add: fx_envs_def ex_env_def)
  from start_ends_with_fresh_codes [where sha = fx_sha and random = fx_random and fe = "fx_envs Hour" and k = 0, OF h _ e u _ f] h f
  show ?thesis by (simp add: maxDeviceCodeAttempts_def) blast
qed

end
