(* ===== verification/OAuth_Machine.thy ===== *)
theory OAuth_Machine
  imports OAuth_Service OAuth_Properties Device_Flow_Properties
begin

text \<open>
  The OAuth service as a machine over its four stores. Each of its operations is a run of operations of the stores, so that
  what holds of every reachable state of a store holds under the service (\<open>world_step_runs\<close>).
\<close>

section \<open>Runs of store operations\<close>

definition runs :: "('op \<Rightarrow> 's \<Rightarrow> 's) \<Rightarrow> ('op \<Rightarrow> 's \<Rightarrow> bool) \<Rightarrow> 's \<Rightarrow> 's \<Rightarrow> bool" where
  "runs step ok s t \<longleftrightarrow> (\<exists>ops. ok_run step ok ops s \<and> t = run_ops step ops s)"

lemma runs_refl [simp, intro]: "runs step ok s s"
  unfolding runs_def by (rule exI [of _ "[]"]) simp

lemma runs_trans: "runs step ok a b \<Longrightarrow> runs step ok b c \<Longrightarrow> runs step ok a c"
  unfolding runs_def by (metis ok_run_append run_ops_append)

lemma runs_step: "ok op s \<Longrightarrow> runs step ok s (step op s)"
  unfolding runs_def by (rule exI [of _ "[op]"]) simp

abbreviation device_runs :: "libs \<Rightarrow> device_store \<Rightarrow> device_store \<Rightarrow> bool" where "device_runs lib \<equiv> runs (device_step lib) ranges"
abbreviation oauth_runs :: "url_parser \<Rightarrow> oauth_store \<Rightarrow> oauth_store \<Rightarrow> bool" where "oauth_runs parse \<equiv> runs (oauth_step parse) (\<lambda>_ _. True)"
abbreviation browser_runs :: "libs \<Rightarrow> browser_store \<Rightarrow> browser_store \<Rightarrow> bool" where "browser_runs lib \<equiv> runs (browser_step lib) (\<lambda>_ _. True)"

lemma device_runs_ops:
  "Device_Create es i d = (x, d1) \<Longrightarrow> device_runs lib d d1" "GetByDeviceCodeHash e h d = (y, d1) \<Longrightarrow> device_runs lib d d1"
  "Device_Poll es h d = (z, d1) \<Longrightarrow> device_runs lib d d1" "Device_Approve es h g d = (u, d1) \<Longrightarrow> device_runs lib d d1"
  "Device_Deny e h d = (v, d1) \<Longrightarrow> device_runs lib d d1" "redeem lib es h ci ackable d = (w, d1) \<Longrightarrow> device_runs lib d d1"
  using runs_step [of ranges "DvCreate es i" d "device_step lib"] runs_step [of ranges "DvGetDevice e h" d "device_step lib"]
    runs_step [of ranges "DvPoll es h" d "device_step lib"] runs_step [of ranges "DvApprove es h g" d "device_step lib"]
    runs_step [of ranges "DvDeny e h" d "device_step lib"] runs_step [of ranges "DvRedeem es h ci ackable" d "device_step lib"]
  by simp_all

lemma oauth_runs_ops:
  "RegisterClient parse e c s = (x, s1) \<Longrightarrow> oauth_runs parse s s1" "CreateAuthorizationRequest parse e r s = (y, s1) \<Longrightarrow> oauth_runs parse s s1"
  "BindAuthorizationRequestUser e h org subject s = (z, s1) \<Longrightarrow> oauth_runs parse s s1" "IssueAuthorizationCode e h code t s = (u, s1) \<Longrightarrow> oauth_runs parse s s1"
  "ConsumeAuthorizationCode e code s = (v, s1) \<Longrightarrow> oauth_runs parse s s1" "CreateDeviceGrant parse e g s = (w, s1) \<Longrightarrow> oauth_runs parse s s1"
  using runs_step [of "\<lambda>_ _. True" "OaRegister e c" s "oauth_step parse"] runs_step [of "\<lambda>_ _. True" "OaRequest e r" s "oauth_step parse"]
    runs_step [of "\<lambda>_ _. True" "OaBind e h org subject" s "oauth_step parse"] runs_step [of "\<lambda>_ _. True" "OaIssue e h code t" s "oauth_step parse"]
    runs_step [of "\<lambda>_ _. True" "OaConsume e code" s "oauth_step parse"] runs_step [of "\<lambda>_ _. True" "OaGrant e g" s "oauth_step parse"]
  by simp_all

lemma browser_runs_ops:
  "StartBrowserFamily e st b = (x, b1) \<Longrightarrow> browser_runs lib b b1" "RotateBrowserRefresh lib es r b = (y, b1) \<Longrightarrow> browser_runs lib b b1"
  "RevokeBrowserFamilyByToken lib es h c a now b = (z, b1) \<Longrightarrow> browser_runs lib b b1"
  using runs_step [of "\<lambda>_ _. True" "BrStart e st" b "browser_step lib"] runs_step [of "\<lambda>_ _. True" "BrRotate es r" b "browser_step lib"]
    runs_step [of "\<lambda>_ _. True" "BrRevoke es h c a now" b "browser_step lib"]
  by simp_all

text \<open>Calls of the shared credential store are operations of either store that holds it.\<close>

lemma calls_device_runs: "calls lib (ds_credentials d) cs \<Longrightarrow> device_runs lib d (d\<lparr>ds_credentials := cs\<rparr>)"
proof -
  have "ok_run (device_step lib) ranges (map DvCred ops) d \<and>
      run_ops (device_step lib) (map DvCred ops) d = d\<lparr>ds_credentials := run_ops (credential_step lib) ops (ds_credentials d)\<rparr>" for ops
    by (induction ops arbitrary: d) simp_all
  then show "calls lib (ds_credentials d) cs \<Longrightarrow> device_runs lib d (d\<lparr>ds_credentials := cs\<rparr>)" unfolding calls_def runs_def by metis
qed

lemma calls_browser_runs: "calls lib (bs_credentials b) cs \<Longrightarrow> browser_runs lib b (b\<lparr>bs_credentials := cs\<rparr>)"
proof -
  have "run_ops (browser_step lib) (map BrCred ops) b = b\<lparr>bs_credentials := run_ops (credential_step lib) ops (bs_credentials b)\<rparr>" for ops
    by (induction ops arbitrary: b) simp_all
  then show "calls lib (bs_credentials b) cs \<Longrightarrow> browser_runs lib b (b\<lparr>bs_credentials := cs\<rparr>)"
    unfolding calls_def runs_def by (metis ok_run_trivial)
qed

lemma device_runs_calls: "device_runs lib d d1 \<Longrightarrow> calls lib (ds_credentials d) (ds_credentials d1)"
proof -
  have "calls lib (ds_credentials d) (ds_credentials (run_ops (device_step lib) ops d))" for ops
    by (induction ops arbitrary: d) (auto intro: calls_trans device_step_calls)
  then show "device_runs lib d d1 \<Longrightarrow> calls lib (ds_credentials d) (ds_credentials d1)" by (auto simp: runs_def)
qed

lemma browser_runs_calls: "browser_runs lib b b1 \<Longrightarrow> calls lib (bs_credentials b) (bs_credentials b1)"
proof -
  have "calls lib (bs_credentials b) (bs_credentials (run_ops (browser_step lib) ops b))" for ops
    by (induction ops arbitrary: b) (auto intro: calls_trans browser_step_calls)
  then show "browser_runs lib b b1 \<Longrightarrow> calls lib (bs_credentials b) (bs_credentials b1)" by (auto simp: runs_def)
qed

section \<open>The operations of the flow\<close>

lemma start_loop_runs: "start_loop sha fe h randoms d = (x, d1) \<Longrightarrow> device_runs lib d d1"
  by (induction sha fe h randoms d rule: start_loop.induct)
    (auto dest: device_runs_ops(1) [where lib = lib] intro: runs_trans split: option.splits prod.splits sum.splits if_splits)

lemma start_runs:
  "StartForOAuth sha fe random d = (x, d1) \<Longrightarrow> device_runs lib d d1" "StartDeviceGrant sha fe random d = (x, d1) \<Longrightarrow> device_runs lib d d1"
  by (auto simp: StartForOAuth_def StartDeviceGrant_def start_with_def dest: start_loop_runs [where lib = lib] split: if_splits)

lemma approve_hash_runs: "approveUserCodeHash fe p hash repos scopes d = (x, d1) \<Longrightarrow> device_runs lib d d1"
  by (auto simp: approveUserCodeHash_def dest: device_runs_ops(4) [where lib = lib] split: if_splits option.splits sum.splits prod.splits)

lemma decide_runs:
  "StateForOAuth fe now h d = (x, d1) \<Longrightarrow> device_runs lib d d1" "ApproveForOAuth fe p h repos scopes d = (y, d1) \<Longrightarrow> device_runs lib d d1"
  "DenyForOAuth fe p h d = (z, d1) \<Longrightarrow> device_runs lib d d1"
  by (auto simp: StateForOAuth_def ApproveForOAuth_def DenyForOAuth_def intro: runs_trans
      dest!: device_runs_ops [where lib = lib] approve_hash_runs [where lib = lib] split: if_splits sum.splits prod.splits)

lemma redeemAs_runs: "redeemAs lib es ic r clientID resource scopes ackable browser d = (x, d1) \<Longrightarrow> device_runs lib d d1"
  by (auto simp: redeemAs_def redeem_prepared_def Redeem_def RedeemAckable_def Let_def dest!: device_runs_ops(6)
      split: if_splits option.splits sum.splits prod.splits)

lemma redeemForResource_runs: "redeemForResource lib fe now ic h clientID resource scopes browser d = (x, d1) \<Longrightarrow> device_runs lib d d1"
  by (auto simp: redeemForResource_def intro: runs_trans dest!: device_runs_ops(2) [where lib = lib] redeemAs_runs split: if_splits sum.splits prod.splits)

lemma PollDeviceGrant_runs: "PollDeviceGrant lib fe ic h clientID resource scopes d = (x, d1) \<Longrightarrow> device_runs lib d d1"
  by (auto simp: PollDeviceGrant_def flow_redeem_def intro: runs_trans dest!: device_runs_ops(3) [where lib = lib] redeemAs_runs
      split: if_splits sum.splits prod.splits device_state.splits)

lemma refresh_runs:
  "Refresh_Start lib e random issued b = (x, b1) \<Longrightarrow> browser_runs lib b b1"
  "Refresh lib hmac es now seed gid presented client b = (y, b1) \<Longrightarrow> browser_runs lib b b1"
  "RevokeFamily lib es now presented client b = (z, b1) \<Longrightarrow> browser_runs lib b b1"
  by (auto simp: Refresh_Start_def Refresh_def RevokeFamily_def Let_def dest!: browser_runs_ops [where lib = lib]
      split: if_splits option.splits sum.splits prod.splits browser_decision.splits)

section \<open>The operations of the service\<close>

definition world_runs :: "oauth_libs \<Rightarrow> oauth_world \<Rightarrow> oauth_world \<Rightarrow> bool" where
  "world_runs L w w1 \<longleftrightarrow> oauth_runs (ol_parse L) (ow_oauth w) (ow_oauth w1) \<and> device_runs (ol_lib L) (ow_devices w) (ow_devices w1) \<and>
     browser_runs (ol_lib L) (browser_view w) (browser_view w1)"

lemma world_runs_refl [simp, intro]: "world_runs L w w"
  by (simp add: world_runs_def)

lemma world_runs_trans: "world_runs L a b \<Longrightarrow> world_runs L b c \<Longrightarrow> world_runs L a c"
  unfolding world_runs_def by (blast intro: runs_trans)

lemma world_runs_oauth: "oauth_runs (ol_parse L) (ow_oauth w) s \<Longrightarrow> world_runs L w (w\<lparr>ow_oauth := s\<rparr>)"
  by (simp add: world_runs_def browser_view_def)

lemma world_runs_devices:
  assumes "device_runs (ol_lib L) (ow_devices w) d"
  shows "world_runs L w (w\<lparr>ow_devices := d\<rparr>)"
proof -
  have "browser_runs (ol_lib L) (browser_view w) ((browser_view w)\<lparr>bs_credentials := ds_credentials d\<rparr>)"
    using device_runs_calls [OF assms] by (intro calls_browser_runs) (simp add: browser_view_def)
  with assms show ?thesis by (simp add: world_runs_def browser_view_def)
qed

lemma browser_view_with [simp]: "browser_view (with_browser b w) = b"
  by (simp add: browser_view_def with_browser_def)

lemma world_runs_browser:
  assumes "browser_runs (ol_lib L) (browser_view w) b"
  shows "world_runs L w (with_browser b w)"
proof -
  have "device_runs (ol_lib L) (ow_devices w) ((ow_devices w)\<lparr>ds_credentials := bs_credentials b\<rparr>)"
    using browser_runs_calls [OF assms] by (intro calls_device_runs) (simp add: browser_view_def)
  with assms show ?thesis by (simp add: world_runs_def) (simp add: with_browser_def)
qed


lemma refused_world [simp]: "snd (refused kind code outcome w) = w" "refused kind code outcome w = (x, w1) \<longleftrightarrow> x = Inl (kind, oauthError code outcome) \<and> w1 = w"
  by (auto simp: refused_def)

lemma unavailable_world [simp]: "snd (unavailable kind cause w) = w" "unavailable kind cause w = (x, w1) \<longleftrightarrow> x = Inl (kind, ErrOAuthUnavailable cause) \<and> w1 = w"
  by (auto simp: unavailable_def)


lemma Register_runs: "Register parse e now random q s = (x, s1) \<Longrightarrow> oauth_runs parse s s1"
  by (auto simp: Register_def Let_def dest: oauth_runs_ops(1) split: if_splits option.splits sum.splits prod.splits)

lemma world_runs_both:
  "oauth_runs (ol_parse L) (ow_oauth w) s \<Longrightarrow> device_runs (ol_lib L) (ow_devices w) d \<Longrightarrow> world_runs L w (w\<lparr>ow_devices := d, ow_oauth := s\<rparr>)"
  using world_runs_trans [OF world_runs_devices world_runs_oauth [of L "w\<lparr>ow_devices := d\<rparr>"]] by simp

lemma Authorize_runs: "Authorize L sv x q w = (y, w1) \<Longrightarrow> world_runs L w w1"
  by (auto simp: Authorize_def intro!: world_runs_both world_runs_devices
      dest!: start_runs(1) [where lib = "ol_lib L"] oauth_runs_ops(2) split: if_splits option.splits sum.splits prod.splits)

lemma pendingConsent_runs: "pendingConsent L x handle p resumable w = (y, w1) \<Longrightarrow> world_runs L w w1"
  by (auto simp: pendingConsent_def Let_def intro!: world_runs_devices
      dest!: decide_runs(1) [where lib = "ol_lib L"] split: if_splits sum.splits prod.splits oauth_device_state.splits)

lemma bindConsentUser_runs: "bindConsentUser e r p w = (y, w1) \<Longrightarrow> world_runs L w w1"
  by (auto simp: bindConsentUser_def intro!: world_runs_oauth dest!: oauth_runs_ops(3) [where parse = "ol_parse L"] split: if_splits sum.splits prod.splits)

lemma ConsentRequest_runs: "ConsentRequest L sv x handle p w = (y, w1) \<Longrightarrow> world_runs L w w1"
  by (auto simp: ConsentRequest_def Let_def intro: world_runs_trans dest!: pendingConsent_runs bindConsentUser_runs [where L = L]
      split: sum.splits prod.splits option.splits oauth_failure.splits)

lemma approve_bound_runs: "approve_bound L sv x r p repos w = (y, w1) \<Longrightarrow> world_runs L w w1"
  by (auto simp: approve_bound_def Let_def intro!: world_runs_both world_runs_devices
      dest!: decide_runs(2) [where lib = "ol_lib L"] oauth_runs_ops(4) [where parse = "ol_parse L"] split: if_splits option.splits sum.splits prod.splits)

lemma ApproveConsent_runs: "ApproveConsent L sv x handle p repos w = (y, w1) \<Longrightarrow> world_runs L w w1"
  by (auto simp: ApproveConsent_def intro: world_runs_trans dest!: pendingConsent_runs bindConsentUser_runs [where L = L] approve_bound_runs
      split: sum.splits prod.splits option.splits)

lemma DenyConsent_runs: "DenyConsent L sv x handle p w = (y, w1) \<Longrightarrow> world_runs L w w1"
  by (auto simp: DenyConsent_def Let_def intro: world_runs_trans world_runs_devices dest!: pendingConsent_runs bindConsentUser_runs [where L = L]
      decide_runs(3) [where lib = "ol_lib L"] split: sum.splits prod.splits option.splits)

lemma exchange_issue_runs: "exchange_issue L x pending scope browser w = (y, w1) \<Longrightarrow> world_runs L w w1"
  by (auto simp: exchange_issue_def RedeemBrowserForResource_def RedeemForResource_def Let_def
      intro: world_runs_trans world_runs_devices world_runs_browser dest!: redeemForResource_runs refresh_runs(1) [where lib = "ol_lib L"]
      split: if_splits sum.splits prod.splits)

lemma Exchange_runs: "Exchange L sv x q w = (y, w1) \<Longrightarrow> world_runs L w w1"
  by (auto simp: Exchange_def intro: world_runs_oauth world_runs_trans [OF world_runs_oauth] dest!: exchange_issue_runs
      oauth_runs_ops(5) [where parse = "ol_parse L"] split: if_splits sum.splits prod.splits)

lemma refresh_grant_runs:
  "OAuth_Refresh L sv x q w = (y, w1) \<Longrightarrow> world_runs L w w1" "RevokeRefreshToken L sv x token client w = (z, w1) \<Longrightarrow> world_runs L w w1"
  by (auto simp: OAuth_Refresh_def RevokeRefreshToken_def Let_def intro!: world_runs_browser dest!: refresh_runs split: if_splits sum.splits prod.splits)

lemma device_grant_runs:
  "StartDeviceAuthorization L sv x q w = (y, w1) \<Longrightarrow> world_runs L w w1" "ExchangeDeviceCode L sv x t w = (z, w1) \<Longrightarrow> world_runs L w w1"
  by (auto simp: StartDeviceAuthorization_def ExchangeDeviceCode_def Let_def intro!: world_runs_both world_runs_devices
      dest!: start_runs(2) [where lib = "ol_lib L"] oauth_runs_ops(6) PollDeviceGrant_runs split: if_splits option.splits sum.splits prod.splits flow_error.splits)

text \<open>The operations of the service, and whatever else uses the device authorizations or the credentials meanwhile.\<close>

datatype world_op =
    WRegister env time "string option" registration_request
  | WAuthorize oauth_inputs authorize_request
  | WConsent oauth_inputs string principal
  | WApprove oauth_inputs string principal "string list"
  | WDeny oauth_inputs string principal
  | WExchange oauth_inputs token_request
  | WRefresh oauth_inputs oauth_refresh_request
  | WRevoke oauth_inputs string string
  | WStartDevice oauth_inputs device_authorization_request
  | WDeviceToken oauth_inputs device_token_request
  | WDevice device_op

fun world_step :: "oauth_libs \<Rightarrow> oauth_service \<Rightarrow> world_op \<Rightarrow> oauth_world \<Rightarrow> oauth_world" where
  "world_step L sv (WRegister e now random q) w = w\<lparr>ow_oauth := snd (Register (ol_parse L) e now random q (ow_oauth w))\<rparr>"
| "world_step L sv (WAuthorize x q) w = snd (Authorize L sv x q w)"
| "world_step L sv (WConsent x handle p) w = snd (ConsentRequest L sv x handle p w)"
| "world_step L sv (WApprove x handle p repos) w = snd (ApproveConsent L sv x handle p repos w)"
| "world_step L sv (WDeny x handle p) w = snd (DenyConsent L sv x handle p w)"
| "world_step L sv (WExchange x q) w = snd (Exchange L sv x q w)"
| "world_step L sv (WRefresh x q) w = snd (OAuth_Refresh L sv x q w)"
| "world_step L sv (WRevoke x token client) w = snd (RevokeRefreshToken L sv x token client w)"
| "world_step L sv (WStartDevice x q) w = snd (StartDeviceAuthorization L sv x q w)"
| "world_step L sv (WDeviceToken x q) w = snd (ExchangeDeviceCode L sv x q w)"
| "world_step L sv (WDevice op) w = w\<lparr>ow_devices := device_step (ol_lib L) op (ow_devices w)\<rparr>"

fun world_ranges :: "world_op \<Rightarrow> oauth_world \<Rightarrow> bool" where
  "world_ranges (WDevice op) w = ranges op (ow_devices w)"
| "world_ranges _ w = True"

lemma world_step_runs:
  assumes "world_ranges op w"
  shows "world_runs L w (world_step L sv op w)"
proof (cases op)
  case (WRegister e now random q)
  then show ?thesis using Register_runs [of "ol_parse L" e now random q "ow_oauth w"] by (auto intro!: world_runs_oauth simp: prod_eq_iff)
next
  case (WDevice dop)
  with assms show ?thesis by (auto intro!: world_runs_devices runs_step)
qed (simp_all add: prod_eq_iff [symmetric] Authorize_runs [OF prod.collapse [symmetric]] ConsentRequest_runs [OF prod.collapse [symmetric]] ApproveConsent_runs [OF prod.collapse [symmetric]]
    DenyConsent_runs [OF prod.collapse [symmetric]] Exchange_runs [OF prod.collapse [symmetric]] refresh_grant_runs [OF prod.collapse [symmetric]]
    device_grant_runs [OF prod.collapse [symmetric]])

lemma world_run_runs: "ok_run (world_step L sv) world_ranges ops w \<Longrightarrow> world_runs L w (run_ops (world_step L sv) ops w)"
  by (induction ops arbitrary: w) (auto intro: world_runs_trans world_step_runs)

definition new_world :: oauth_world where
  "new_world = \<lparr>ow_oauth = NewOAuthStore, ow_devices = NewDeviceAuthorizationStore newCredentialStore, ow_families = [], ow_tokens = []\<rparr>"

definition reachable_world :: "oauth_libs \<Rightarrow> oauth_service \<Rightarrow> oauth_world \<Rightarrow> bool" where
  "reachable_world L sv w \<longleftrightarrow> (\<exists>ops. ok_run (world_step L sv) world_ranges ops new_world \<and> w = run_ops (world_step L sv) ops new_world)"

lemma reachable_world_run:
  "reachable_world L sv w \<Longrightarrow> ok_run (world_step L sv) world_ranges ops w \<Longrightarrow> reachable_world L sv (run_ops (world_step L sv) ops w)"
  unfolding reachable_world_def by (metis ok_run_append run_ops_append)

end
