(* ===== verification/Browser_Service_Properties.thy ===== *)
theory Browser_Service_Properties
  imports Browser_Service
begin

text \<open>
  The refresh grant as a client sees it: the tokens are derived again on a replay, so that a client which lost an answer
  gets the very same tokens, and never a second pair.
\<close>

lemma Refresh_ok:
  assumes "Refresh lib hmac es now random gid presented client s = (Inr r, s1)" "br_Decision r \<noteq> BrowserRefreshUnknownToken"
  obtains seed cid out where "random = Some seed" "gid = Some cid" "ValidRefreshTokenShape presented" "client \<noteq> ''''"
    "RotateBrowserRefresh lib es (refresh_rotation_of lib hmac now seed cid presented client) s = (Inr out, s1)" "br_Decision r = ro_Decision out"
    "ro_Decision out = BrowserRefreshRotated \<longrightarrow> successor_of lib out (deriveRefreshSuccessor hmac presented seed) = Inr r"
    "ro_Decision out = BrowserRefreshGraceReplay \<longrightarrow> successor_of lib out (deriveRefreshSuccessor hmac presented (ro_Seed out)) = Inr r"
  using assms
  by (auto simp: Refresh_def plain_refresh_def successor_of_def split: if_splits option.splits prod.splits sum.splits browser_decision.splits)

lemma Refresh_grants:
  assumes "Refresh lib hmac es now random gid presented client s = (Inr r, s1)" "br_Decision r \<notin> {BrowserRefreshRotated, BrowserRefreshGraceReplay}"
  shows "br_Issued r = None \<and> br_RefreshToken r = ''''"
  using assms
  by (auto simp: Refresh_def plain_refresh_def successor_of_def split: if_splits option.splits prod.splits sum.splits browser_decision.splits)

lemma rotation_of_fields [simp]:
  "rf_PresentedHash (refresh_rotation_of lib hmac now seed cid presented client) = HashRefreshToken lib presented"
  "rf_Now (refresh_rotation_of lib hmac now seed cid presented client) = now"
  "rf_ClientID (refresh_rotation_of lib hmac now seed cid presented client) = client"
  "rf_Grace (refresh_rotation_of lib hmac now seed cid presented client) = BrowserRefreshGrace"
  "rf_Seed (refresh_rotation_of lib hmac now seed cid presented client) = seed"
  "rf_SuccessorTokenHash (refresh_rotation_of lib hmac now seed cid presented client) = HashToken lib (fst (deriveRefreshSuccessor hmac presented seed))"
  "rf_SuccessorRefresh (refresh_rotation_of lib hmac now seed cid presented client) = HashRefreshToken lib (snd (deriveRefreshSuccessor hmac presented seed))"
  by (simp_all add: refresh_rotation_of_def split: prod.split)

lemma Refresh_rotated:
  assumes "Refresh lib hmac es now random gid presented client s = (Inr r, s1)" "br_Decision r = BrowserRefreshRotated"
  obtains seed cid out c where "RotateBrowserRefresh lib es (refresh_rotation_of lib hmac now seed cid presented client) s = (Inr out, s1)"
    "ro_Decision out = BrowserRefreshRotated" "ro_Seed out = seed" "ro_Credential out = Some c"
    "ro_SuccessorTokenHash out = HashToken lib (fst (deriveRefreshSuccessor hmac presented seed))"
    "ro_SuccessorRefreshHash out = HashRefreshToken lib (snd (deriveRefreshSuccessor hmac presented seed))"
    "br_Issued r = Some \<lparr>is_Credential = c, is_Token = fst (deriveRefreshSuccessor hmac presented seed)\<rparr>"
    "br_RefreshToken r = snd (deriveRefreshSuccessor hmac presented seed)"
proof -
  have known: "br_Decision r \<noteq> BrowserRefreshUnknownToken" using assms(2) by simp
  obtain seed cid out where o: "RotateBrowserRefresh lib es (refresh_rotation_of lib hmac now seed cid presented client) s = (Inr out, s1)"
    "br_Decision r = ro_Decision out" "ro_Decision out = BrowserRefreshRotated \<longrightarrow> successor_of lib out (deriveRefreshSuccessor hmac presented seed) = Inr r"
    using assms(1) known by (rule Refresh_ok) blast
  have d: "ro_Decision out = BrowserRefreshRotated" using o(2) assms(2) by simp
  have r: "successor_of lib out (deriveRefreshSuccessor hmac presented seed) = Inr r" using o(3) d by simp
  from o(1) d show ?thesis
  proof (rule rotated_refresh)
    fix token f source c cs'
    assume "ro_Credential out = Some c" "ro_Seed out = rf_Seed (refresh_rotation_of lib hmac now seed cid presented client)"
      "ro_SuccessorTokenHash out = rf_SuccessorTokenHash (refresh_rotation_of lib hmac now seed cid presented client)"
      "ro_SuccessorRefreshHash out = rf_SuccessorRefresh (refresh_rotation_of lib hmac now seed cid presented client)"
    with r that [OF o(1) d] show ?thesis by (auto simp: successor_of_def)
  qed
qed

lemma refresh_rotation_valid:
  assumes "length seed = 32" "cid \<noteq> ''''" "client \<noteq> ''''" "\<not> IsZero now" "\<forall>v. sha256_hex lib v \<noteq> ''''"
  shows "ValidateBrowserRefreshRotation (refresh_rotation_of lib hmac now seed cid presented client)"
  using assms
  by (auto simp: ValidateBrowserRefreshRotation_def refresh_rotation_of_def deriveRefreshSuccessor_def HashRefreshToken_def HashToken_def
      DisplayPrefix_def TokenPrefix_def BrowserRefreshGrace_def BrowserCredentialLifetime_def browserRefreshActor_def Minute_def Second_def Let_def)

text \<open>
  What has to hold of the store for a repeat to be answered again: the client's family is live, the credential of the
  presented token is live, and the successor token is unused with a live credential.
\<close>

definition replayable :: "(nat \<Rightarrow> env) \<Rightarrow> string \<Rightarrow> string \<Rightarrow> time \<Rightarrow> browser_store \<Rightarrow> bool" where
  "replayable es presentedHash client now s \<longleftrightarrow>
    (\<exists>token f source st successor. map_of (bs_tokens s) presentedHash = Some token \<and> map_of (bs_families s) (rt_familyID token) = Some f \<and>
       bf_clientID f = client \<and> bf_revokedAt f = None \<and> now < bf_expiresAt f \<and>
       GetByID (es 1) (bf_orgID f) (rt_credentialID token) (bs_credentials s) = Inr source \<and> cc_RevokedAt source = None \<and>
       map_of (bs_tokens s) (rt_successorHash token) = Some st \<and> rt_consumedAt st = None \<and>
       GetByID (es 2) (bf_orgID f) (rt_credentialID st) (bs_credentials s) = Inr successor \<and> cc_RevokedAt successor = None)"

lemma revoke_outcome_no_replay:
  "revoke_outcome lib es d reason r f token s = (Inr out, s') \<Longrightarrow> d \<noteq> BrowserRefreshGraceReplay \<Longrightarrow> ro_Decision out \<noteq> BrowserRefreshGraceReplay"
  by (auto simp: revoke_outcome_def plain_outcome_def split: prod.splits sum.splits)

text \<open>A presented token that was consumed: the answer is a replay exactly within the grace and while the family is replayable.\<close>

lemma consumed_replay_iff:
  assumes "map_of (bs_tokens s) (rf_PresentedHash r) = Some token" "rt_consumedAt token = Some at" "rt_successorHash token \<noteq> ''''"
    "length (rt_seed token) = 32" "ValidateBrowserRefreshRotation r" "\<not> env_err (es 0) 0"
  shows "(\<exists>out s'. RotateBrowserRefresh lib es r s = (Inr out, s') \<and> ro_Decision out = BrowserRefreshGraceReplay) \<longleftrightarrow>
    BrowserRefreshInGrace at (rf_Now r) (rf_Grace r) \<and> replayable es (rf_PresentedHash r) (rf_ClientID r) (rf_Now r) s" (is "?L \<longleftrightarrow> ?G \<and> ?R")
proof
  assume ?L
  then obtain out s' where o: "RotateBrowserRefresh lib es r s = (Inr out, s')" "ro_Decision out = BrowserRefreshGraceReplay" by blast
  from o(1) show "?G \<and> ?R"
    using assms o(2)
    by (auto simp: RotateBrowserRefresh_def graceReplayLocked_def plain_outcome_def replayable_def Let_def
        dest!: revoke_outcome_no_replay split: if_splits option.splits sum.splits)
next
  assume "?G \<and> ?R"
  with assms show ?L
    by (auto simp: RotateBrowserRefresh_def graceReplayLocked_def replayable_def Let_def)
qed

lemma rotated_replay_iff:
  assumes "reachable_browser lib s" "RotateBrowserRefresh lib es r s = (Inr out, s1)" "ro_Decision out = BrowserRefreshRotated"
    "t = run_ops (browser_step lib) ops s1" "rf_PresentedHash r' = rf_PresentedHash r" "ValidateBrowserRefreshRotation r'" "\<not> env_err (es' 0) 0"
  shows "(\<exists>out' s'. RotateBrowserRefresh lib es' r' t = (Inr out', s') \<and> ro_Decision out' = BrowserRefreshGraceReplay) \<longleftrightarrow>
    BrowserRefreshInGrace (rf_Now r) (rf_Now r') (rf_Grace r') \<and> replayable es' (rf_PresentedHash r') (rf_ClientID r') (rf_Now r') t"
proof -
  obtain u v c where uv: "reachable_browser lib s1" "map_of (bs_tokens s1) (rf_PresentedHash r) = Some u" "rt_consumedAt u = Some (rf_Now r)"
    "rt_successorHash u = ro_SuccessorRefreshHash out" "rt_seed u = ro_Seed out"
    using assms(1-3) by (rule rotated_tokens)
  obtain u' where "map_of (bs_tokens t) (rf_PresentedHash r) = Some u'" "token_evolves u u'"
    unfolding assms(4) using uv(1,2) by (rule token_after)
  then have u: "map_of (bs_tokens t) (rf_PresentedHash r') = Some u" using assms(5) uv(3) by (simp add: token_evolves_def)
  have "ValidateBrowserRefreshRotation r"
    using assms(2) by (rule contrapos_pp) (auto simp: RotateBrowserRefresh_def)
  moreover have "ro_SuccessorRefreshHash out = rf_SuccessorRefresh r" "ro_Seed out = rf_Seed r"
    using assms(2,3) by (auto elim: rotated_refresh)
  ultimately have "rt_successorHash u \<noteq> ''''" "length (rt_seed u) = 32" using uv(4,5) by (auto simp: ValidateBrowserRefreshRotation_def)
  from consumed_replay_iff [where es = es', OF u uv(3) this assms(6,7)] show ?thesis .
qed

lemma Refresh_replay_iff:
  assumes "ValidRefreshTokenShape presented" "client \<noteq> ''''"
    and "\<And>out s'. RotateBrowserRefresh lib es (refresh_rotation_of lib hmac now seed cid presented client) s = (Inr out, s') \<Longrightarrow>
      ro_Decision out = BrowserRefreshGraceReplay \<Longrightarrow> \<not> isl (successor_of lib out (deriveRefreshSuccessor hmac presented (ro_Seed out)))"
  shows "(\<exists>r s'. Refresh lib hmac es now (Some seed) (Some cid) presented client s = (Inr r, s') \<and> br_Decision r = BrowserRefreshGraceReplay) \<longleftrightarrow>
    (\<exists>out s'. RotateBrowserRefresh lib es (refresh_rotation_of lib hmac now seed cid presented client) s = (Inr out, s') \<and>
       ro_Decision out = BrowserRefreshGraceReplay)" (is "?L \<longleftrightarrow> ?R")
proof
  assume ?L
  then obtain r s' where R: "Refresh lib hmac es now (Some seed) (Some cid) presented client s = (Inr r, s')" "br_Decision r = BrowserRefreshGraceReplay"
    by blast
  have "br_Decision r \<noteq> BrowserRefreshUnknownToken" using R(2) by simp
  with R(1) show ?R by (rule Refresh_ok) (use R(2) in \<open>metis option.inject\<close>)
next
  assume ?R
  then obtain out s' where o: "RotateBrowserRefresh lib es (refresh_rotation_of lib hmac now seed cid presented client) s = (Inr out, s')"
    "ro_Decision out = BrowserRefreshGraceReplay" by blast
  with assms show ?L by (auto simp: Refresh_def successor_of_def split: if_splits)
qed

text \<open>
  C22: a client that lost the answer to a refresh gets the same answer again and never a second pair of tokens. Once
  a refresh rotated a token, every later refresh with it, whatever happened in the store between, issues nothing
  new: it returns no token at all or, changing nothing, the same access token, refresh token and credential.
  With usable inputs (a seed of 32 bytes, a credential id, a hash that is never empty, a context alive at the
  start) it returns the tokens exactly when it comes within the thirty seconds of grace and the family is still
  replayable: the same client, a live unexpired family, a live credential, a successor that is unused and live.
  The derived tokens always match what was stored.
\<close>

theorem replay_returns_the_same_tokens:
  assumes "reachable_browser lib s" "Refresh lib hmac es now random gid presented client s = (Inr r, s1)" "br_Decision r = BrowserRefreshRotated"
    and "t = run_ops (browser_step lib) ops s1" "Refresh lib hmac es' now' random' gid' presented client' t = (res, s2)"
  shows "res \<noteq> Inl errRefreshDerivation \<and>
    (\<forall>seed' cid'. random' = Some seed' \<and> length seed' = 32 \<and> gid' = Some cid' \<and> cid' \<noteq> '''' \<and> client' \<noteq> '''' \<and> \<not> IsZero now' \<and>
        (\<forall>v. sha256_hex lib v \<noteq> '''') \<and> \<not> env_err (es' 0) 0 \<longrightarrow>
      ((\<exists>r'. res = Inr r' \<and> br_Decision r' = BrowserRefreshGraceReplay) \<longleftrightarrow>
       BrowserRefreshInGrace now now' BrowserRefreshGrace \<and> replayable es' (HashRefreshToken lib presented) client' now' t)) \<and>
    (\<forall>r'. res = Inr r' \<longrightarrow> br_Decision r' \<noteq> BrowserRefreshRotated \<and>
      (if br_Decision r' = BrowserRefreshGraceReplay
       then map_option is_Token (br_Issued r') = map_option is_Token (br_Issued r) \<and> br_Issued r \<noteq> None \<and> br_RefreshToken r' = br_RefreshToken r \<and>
         map_option (cc_CredentialID \<circ> is_Credential) (br_Issued r') = map_option (cc_CredentialID \<circ> is_Credential) (br_Issued r) \<and>
         BrowserRefreshInGrace now now' BrowserRefreshGrace \<and> s2 = t
       else br_Issued r' = None \<and> br_RefreshToken r' = ''''))"
proof -
  obtain seed cid out c where o: "RotateBrowserRefresh lib es (refresh_rotation_of lib hmac now seed cid presented client) s = (Inr out, s1)"
    "ro_Decision out = BrowserRefreshRotated" "ro_Seed out = seed" "ro_Credential out = Some c"
    "ro_SuccessorTokenHash out = HashToken lib (fst (deriveRefreshSuccessor hmac presented seed))"
    "ro_SuccessorRefreshHash out = HashRefreshToken lib (snd (deriveRefreshSuccessor hmac presented seed))"
    "br_Issued r = Some \<lparr>is_Credential = c, is_Token = fst (deriveRefreshSuccessor hmac presented seed)\<rparr>"
    "br_RefreshToken r = snd (deriveRefreshSuccessor hmac presented seed)"
    using assms(2,3) by (rule Refresh_rotated)
  have once: "ro_Decision out' \<noteq> BrowserRefreshRotated \<and> (ro_Decision out' = BrowserRefreshGraceReplay \<longrightarrow>
      (\<exists>c'. successor_of lib out' (deriveRefreshSuccessor hmac presented (ro_Seed out')) =
        Inr \<lparr>br_Decision = BrowserRefreshGraceReplay, br_Issued = Some \<lparr>is_Credential = c',
          is_Token = fst (deriveRefreshSuccessor hmac presented seed)\<rparr>, br_RefreshToken = br_RefreshToken r\<rparr> \<and>
        cc_CredentialID c' = cc_CredentialID c) \<and> BrowserRefreshInGrace now now' BrowserRefreshGrace \<and> s3 = t)"
    if "RotateBrowserRefresh lib es' (refresh_rotation_of lib hmac now' seed' cid' presented client') t = (Inr out', s3)" for seed' cid' out' s3
    using rotated_once [OF assms(1) o(1,2) that [unfolded assms(4)]] o(3-8) by (auto simp: successor_of_def assms(4))
  have "res \<noteq> Inl errRefreshDerivation"
    using assms(5) by (auto simp: Refresh_def dest!: once split: if_splits option.splits prod.splits sum.splits browser_decision.splits)
  moreover have "(\<exists>r'. res = Inr r' \<and> br_Decision r' = BrowserRefreshGraceReplay) \<longleftrightarrow>
       BrowserRefreshInGrace now now' BrowserRefreshGrace \<and> replayable es' (HashRefreshToken lib presented) client' now' t"
    if u: "random' = Some seed' \<and> length seed' = 32 \<and> gid' = Some cid' \<and> cid' \<noteq> '''' \<and> client' \<noteq> '''' \<and> \<not> IsZero now' \<and>
        (\<forall>v. sha256_hex lib v \<noteq> '''') \<and> \<not> env_err (es' 0) 0" for seed' cid'
  proof -
    let ?r = "refresh_rotation_of lib hmac now' seed' cid' presented client'"
    have shape: "ValidRefreshTokenShape presented" using assms(2,3) by (auto elim: Refresh_ok)
    have valid: "ValidateBrowserRefreshRotation ?r" using u by (simp add: refresh_rotation_valid)
    have "(\<exists>r'. res = Inr r' \<and> br_Decision r' = BrowserRefreshGraceReplay) \<longleftrightarrow>
      (\<exists>r' s'. Refresh lib hmac es' now' (Some seed') (Some cid') presented client' t = (Inr r', s') \<and> br_Decision r' = BrowserRefreshGraceReplay)"
      using assms(5) u by auto
    also have "\<dots> \<longleftrightarrow> (\<exists>out' s'. RotateBrowserRefresh lib es' ?r t = (Inr out', s') \<and> ro_Decision out' = BrowserRefreshGraceReplay)"
      by (rule Refresh_replay_iff [OF shape]) (use u in simp, auto dest!: once)
    also have "\<dots> \<longleftrightarrow> BrowserRefreshInGrace now now' BrowserRefreshGrace \<and> replayable es' (HashRefreshToken lib presented) client' now' t"
      using rotated_replay_iff [where es' = es', OF assms(1) o(1,2) assms(4) _ valid] u by simp
    finally show ?thesis .
  qed
  moreover have "br_Decision r' \<noteq> BrowserRefreshRotated" "br_Decision r' = BrowserRefreshGraceReplay \<Longrightarrow>
      map_option is_Token (br_Issued r') = Some (fst (deriveRefreshSuccessor hmac presented seed)) \<and> br_RefreshToken r' = br_RefreshToken r \<and>
      map_option (cc_CredentialID \<circ> is_Credential) (br_Issued r') = Some (cc_CredentialID c) \<and> BrowserRefreshInGrace now now' BrowserRefreshGrace \<and> s2 = t"
    if "res = Inr r'" for r'
    using assms(5) that
    by (auto simp: Refresh_def plain_refresh_def dest!: once split: if_splits option.splits prod.splits sum.splits browser_decision.splits)
  moreover have "br_Issued r' = None \<and> br_RefreshToken r' = ''''" if "res = Inr r'" "br_Decision r' \<noteq> BrowserRefreshGraceReplay" for r'
    using Refresh_grants assms(5) that calculation(3) by blast
  ultimately show ?thesis using o(7) by auto
qed

section \<open>Example\<close>

definition bx_token :: string where "bx_token = RefreshTokenPrefix @ b64_encode (replicate 32 7)"

definition bx_hmac :: hmac where "bx_hmac key msg = replicate 32 (length msg)"

definition bx_libs :: libs where
  "bx_libs = ex_libs\<lparr>sha256_hex := (\<lambda>v. if v = bx_token then ''t0'' else if has_prefix v TokenPrefix then ex_hash (CHR ''5'') else ''t5'')\<rparr>"

definition bx_families :: browser_store where
  "bx_families = run_ops (browser_step bx_libs)
     [BrCred (OpCreate (ex_env Hour) (ex_browser ''c1'' (CHR ''1''))), BrStart (ex_env Hour) ex_start] (NewBrowserRefreshStore newCredentialStore)"

definition bx_refresh :: "time \<Rightarrow> char \<Rightarrow> browser_store \<Rightarrow> browser_refresh refresh_result" where
  "bx_refresh now h = Refresh bx_libs bx_hmac (\<lambda>_. ex_env now) now (Some (replicate 32 h)) (Some (''cred_'' @ [h])) bx_token ''web''"

lemma reachable_bx_families: "reachable_browser bx_libs bx_families"
  unfolding reachable_browser_def bx_families_def by blast

text \<open>The same token twice within thirty seconds, with other random bytes: the family is replayable, the second answer repeats the first.\<close>

theorem replay_returns_the_same_tokens_witness:
  "\<exists>r r'. fst (bx_refresh (2 * Hour) (CHR ''5'') bx_families) = Inr r \<and>
    fst (bx_refresh (2 * Hour + 20 * Second) (CHR ''6'') (snd (bx_refresh (2 * Hour) (CHR ''5'') bx_families))) = Inr r' \<and>
    replayable (\<lambda>_. ex_env (2 * Hour + 20 * Second)) (HashRefreshToken bx_libs bx_token) ''web'' (2 * Hour + 20 * Second)
      (snd (bx_refresh (2 * Hour) (CHR ''5'') bx_families)) \<and>
    br_Decision r' = BrowserRefreshGraceReplay \<and> map_option is_Token (br_Issued r') = map_option is_Token (br_Issued r) \<and>
    br_RefreshToken r' = br_RefreshToken r"
proof -
  let ?R = "bx_refresh (2 * Hour) (CHR ''5'') bx_families" and ?now = "2 * Hour + 20 * Second"
  let ?R' = "bx_refresh ?now (CHR ''6'') (snd ?R)"
  have "map_sum (\<lambda>_. ()) br_Decision (fst ?R) = Inr BrowserRefreshRotated" by code_simp
  then obtain r where R: "?R = (Inr r, snd ?R)" "br_Decision r = BrowserRefreshRotated" by (rule result_pair)
  have "map_sum (\<lambda>_. ()) br_Decision (fst ?R') = Inr BrowserRefreshGraceReplay" by code_simp
  then obtain r' where R': "?R' = (Inr r', snd ?R')" "br_Decision r' = BrowserRefreshGraceReplay" by (rule result_pair)
  define s1 s2 where s12: "s1 = snd ?R" "s2 = snd ?R'"
  note first = R(1) [folded s12(1), unfolded bx_refresh_def]
  note second = R'(1) [folded s12, unfolded bx_refresh_def]
  have run: "s1 = run_ops (browser_step bx_libs) [] s1" by simp
  have "\<forall>v. sha256_hex bx_libs v \<noteq> ''''" "\<not> env_err (ex_env ?now) 0" "\<not> IsZero ?now"
    by (simp_all add: bx_libs_def ex_hash_def ex_env_def IsZero_def Hour_def Minute_def Second_def)
  with replay_returns_the_same_tokens [OF reachable_bx_families first R(2) run second] R'(2)
  have "replayable (\<lambda>_. ex_env ?now) (HashRefreshToken bx_libs bx_token) ''web'' ?now (snd ?R)"
    "map_option is_Token (br_Issued r') = map_option is_Token (br_Issued r)" "br_RefreshToken r' = br_RefreshToken r"
    by (simp_all add: s12)
  moreover have "fst ?R = Inr r" "fst ?R' = Inr r'" using R(1) R'(1) by (metis fst_conv)+
  ultimately show ?thesis using R'(2) by blast
qed

end
