(* ===== verification/OAuth_Service_Properties.thy ===== *)
theory OAuth_Service_Properties
  imports OAuth_Machine Browser_Service_Properties
begin

text \<open>
  The properties of the OAuth service over every state it can reach: what a credential may do was consented to by a person who
  may do it, an exchange spends its code, the first person to open a request owns it, and a scope has one spelling.
\<close>

section \<open>The stores under the service\<close>

lemma world_runs_stores:
  assumes "reachable_oauth (ol_parse L) (ow_oauth w)" "reachable_devices (ol_lib L) (ow_devices w)" "reachable_browser (ol_lib L) (browser_view w)"
    and "world_runs L w w1"
  shows "reachable_oauth (ol_parse L) (ow_oauth w1)" "reachable_devices (ol_lib L) (ow_devices w1)" "reachable_browser (ol_lib L) (browser_view w1)"
  using assms(4) reachable_oauth_run [OF assms(1)] reachable_devices_run [OF assms(2)] reachable_browser_run [OF assms(3)]
  by (auto simp: world_runs_def runs_def)

lemma new_world_stores:
  "reachable_oauth (ol_parse L) (ow_oauth new_world)" "reachable_devices (ol_lib L) (ow_devices new_world)" "reachable_browser (ol_lib L) (browser_view new_world)"
proof -
  show "reachable_oauth (ol_parse L) (ow_oauth new_world)" by (simp add: new_world_def reachable_new_oauth)
  show "reachable_devices (ol_lib L) (ow_devices new_world)"
    unfolding reachable_devices_def by (rule exI [of _ "[]"]) (simp add: new_world_def)
  show "reachable_browser (ol_lib L) (browser_view new_world)"
    unfolding reachable_browser_def by (rule exI [of _ "[]"]) (simp add: new_world_def browser_view_def NewBrowserRefreshStore_def NewDeviceAuthorizationStore_def)
qed

lemma reachable_world_stores:
  assumes "reachable_world L sv w"
  shows "reachable_oauth (ol_parse L) (ow_oauth w)" "reachable_devices (ol_lib L) (ow_devices w)" "reachable_browser (ol_lib L) (browser_view w)"
proof -
  obtain ops where "ok_run (world_step L sv) world_ranges ops new_world" "w = run_ops (world_step L sv) ops new_world"
    using assms by (auto simp: reachable_world_def)
  then have "world_runs L new_world w" using world_run_runs by blast
  from world_runs_stores [OF new_world_stores this]
  show "reachable_oauth (ol_parse L) (ow_oauth w)" "reachable_devices (ol_lib L) (ow_devices w)" "reachable_browser (ol_lib L) (browser_view w)" .
qed

text \<open>
  The service refines its stores. Whatever sequence of requests it serves, the OAuth store, the device authorizations
  and the browser families change only by runs of their own operations, all three over one credential store; so every property
  of their reachable states holds under the service.
\<close>

theorem service_refines_its_stores:
  assumes "reachable_world L sv w" "ok_run (world_step L sv) world_ranges ops w"
  defines "w1 \<equiv> run_ops (world_step L sv) ops w"
  shows "(\<exists>rs. ow_oauth w1 = run_ops (oauth_step (ol_parse L)) rs (ow_oauth w)) \<and>
    (\<exists>rs. ok_run (device_step (ol_lib L)) ranges rs (ow_devices w) \<and> ow_devices w1 = run_ops (device_step (ol_lib L)) rs (ow_devices w)) \<and>
    (\<exists>rs. browser_view w1 = run_ops (browser_step (ol_lib L)) rs (browser_view w)) \<and>
    reachable_oauth (ol_parse L) (ow_oauth w1) \<and> reachable_devices (ol_lib L) (ow_devices w1) \<and> reachable_browser (ol_lib L) (browser_view w1) \<and>
    bs_credentials (browser_view w1) = ds_credentials (ow_devices w1)"
proof -
  have "world_runs L w w1" unfolding w1_def by (rule world_run_runs [OF assms(2)])
  moreover have "reachable_world L sv w1" unfolding w1_def by (rule reachable_world_run [OF assms(1,2)])
  ultimately show ?thesis using reachable_world_stores by (auto simp: world_runs_def runs_def browser_view_def)
qed

section \<open>Scopes\<close>

lemma filter_subseqs: "filter P xs \<in> set (subseqs xs)"
  by (induction xs) (auto simp: Let_def)

lemma Fields_Join: "Fields (Join (filter P oauthScopes) '' '') = filter P oauthScopes"
proof -
  have "list_all (\<lambda>vs. Fields (Join vs '' '') = vs) (subseqs oauthScopes)" by code_simp
  with filter_subseqs [of P oauthScopes] show ?thesis by (simp add: list_all_iff)
qed

lemma OAuthScope_join: "OAuthScope = Join (filter (\<lambda>v. v \<in> {''context:read'', ''evidence:read''}) oauthScopes) '' ''"
  by (simp add: OAuthScope_def oauthScopes_def)

lemma NormalizeOAuthScope_set:
  assumes "NormalizeOAuthScope raw = Some s"
  defines "asked \<equiv> (if Fields raw = [] then {''context:read'', ''evidence:read''} else set (Fields raw))"
  shows "s = Join (filter (\<lambda>v. v \<in> asked) oauthScopes) '' ''" "Fields s = filter (\<lambda>v. v \<in> asked) oauthScopes" "set (Fields s) = asked" "asked \<subseteq> set oauthScopes"
proof -
  show s: "s = Join (filter (\<lambda>v. v \<in> asked) oauthScopes) '' ''" and sub: "asked \<subseteq> set oauthScopes"
    using assms OAuthScope_join by (auto simp: NormalizeOAuthScope_def Let_def list_all_iff oauthScopes_def split: if_splits)
  show f: "Fields s = filter (\<lambda>v. v \<in> asked) oauthScopes" unfolding s by (rule Fields_Join)
  show "set (Fields s) = asked" using sub by (auto simp: f)
qed

text \<open>
  A scope has one spelling. Normalizing a scope parameter gives the scopes it names, each once and in the fixed order, or
  the default pair when it names none, never \<^verbatim>\<open>data:read\<close> unless it is named; it gives the same text for the same
  scopes however they were written, and leaves its own result as it is.
\<close>

theorem scope_is_canonical:
  assumes "NormalizeOAuthScope raw = Some s"
  shows "NormalizeOAuthScope s = Some s \<and> distinct (Fields s) \<and>
    set (Fields s) = (if Fields raw = [] then {''context:read'', ''evidence:read''} else set (Fields raw)) \<and>
    (''data:read'' \<in> set (Fields s) \<longrightarrow> ''data:read'' \<in> set (Fields raw)) \<and>
    (\<forall>raw'. Fields raw' \<noteq> [] \<longrightarrow> set (Fields raw') = set (Fields s) \<longrightarrow> NormalizeOAuthScope raw' = Some s)"
proof -
  note n = NormalizeOAuthScope_set [OF assms]
  have "set (Fields s) \<noteq> {}" unfolding n(3) by simp
  then have ne: "Fields s \<noteq> []" by (metis set_empty)
  have again: "NormalizeOAuthScope raw' = Some s" if "Fields raw' \<noteq> []" "set (Fields raw') = set (Fields s)" for raw'
  proof -
    have "list_all (\<lambda>v. v \<in> set oauthScopes) (Fields raw')" unfolding list_all_iff that(2) n(3) using n(4) by blast
    moreover have "Join (filter (\<lambda>v. v \<in> set (Fields raw')) oauthScopes) '' '' = s" unfolding that(2) n(3) by (rule n(1) [symmetric])
    ultimately show ?thesis using that(1) by (simp add: NormalizeOAuthScope_def Let_def)
  qed
  moreover have "distinct (Fields s)" unfolding n(2) by (rule distinct_filter) (simp add: oauthScopes_def)
  moreover have "''data:read'' \<in> set (Fields s) \<Longrightarrow> ''data:read'' \<in> set (Fields raw)" unfolding n(3) by (simp split: if_splits)
  ultimately show ?thesis using n(3) again [OF ne refl] by blast
qed

theorem scope_is_canonical_witness:
  "NormalizeOAuthScope ''data:read  context:read data:read'' = Some ''context:read data:read'' \<and>
   NormalizeOAuthScope ''context:read data:read'' = Some ''context:read data:read''"
proof -
  have n: "NormalizeOAuthScope ''data:read  context:read data:read'' = Some ''context:read data:read''" by code_simp
  with scope_is_canonical [OF n] show ?thesis by simp
qed


section \<open>A code is spent by its first exchange\<close>

lemma Exchange_consumes:
  assumes "Exchange L sv x q w = (res, w1)" "\<And>f. res \<noteq> Inl ('''', f)"
  obtains pending o1 where "ConsumeAuthorizationCode (ox_env x 0 0 0) (HashOAuthSecret L (tq_Code q)) (ow_oauth w) = (Inr pending, o1)"
    "world_runs L (w\<lparr>ow_oauth := o1\<rparr>) w1"
  using assms by (auto simp: Exchange_def refused_def unavailable_def intro: exchange_issue_runs split: if_splits sum.splits prod.splits)

text \<open>
  C13: an exchange spends its code, even one that fails. Once an exchange got as far as the request behind a code, whether it then
  issued a token or refused the client, the redirect URI, the verifier or the resource, the same code is never exchanged
  again: every later attempt, after any other requests, is refused without touching a store, and as an unknown code is.
\<close>

theorem exchange_spends_the_code:
  assumes "reachable_world L sv w" "Exchange L sv x q w = (res, w1)" "\<And>f. res \<noteq> Inl ('''', f)"
    and "ok_run (world_step L sv) world_ranges ops w1" "tq_Code q' = tq_Code q"
  defines "t \<equiv> run_ops (world_step L sv) ops w1"
  shows "\<exists>f. Exchange L sv x' q' t = (Inl ('''', f), t) \<and>
    (tq_GrantType q' = ''authorization_code'' \<longrightarrow> \<not> env_err (ox_env x' 0 0 0) 0 \<longrightarrow> \<not> env_err (ox_env x' 0 0 0) 1 \<longrightarrow>
       f = oauthError ''invalid_grant'' ''invalid_grant'')"
proof -
  obtain pending o1 where c: "ConsumeAuthorizationCode (ox_env x 0 0 0) (HashOAuthSecret L (tq_Code q)) (ow_oauth w) = (Inr pending, o1)"
    "world_runs L (w\<lparr>ow_oauth := o1\<rparr>) w1"
    using assms(2,3) by (rule Exchange_consumes)
  have "world_runs L (w\<lparr>ow_oauth := o1\<rparr>) t" unfolding t_def by (rule world_runs_trans [OF c(2) world_run_runs [OF assms(4)]])
  then obtain rs where "ow_oauth t = run_ops (oauth_step (ol_parse L)) rs o1" by (auto simp: world_runs_def runs_def)
  note spent = code_spent [OF reachable_world_stores(1) [OF assms(1)] c(1) this, of "ox_env x' 0 0 0"]
  have t: "t\<lparr>ow_oauth := ow_oauth t\<rparr> = t" by simp
  show ?thesis using spent assms(5) by (auto simp: Exchange_def refused_def unavailable_def t split: if_splits)
qed

section \<open>The first person to open a request owns it\<close>

lemma pendingConsent_ok:
  assumes "pendingConsent L x handle p resumable w = (Inr r, w1)"
  obtains d1 st where "validOAuthHandle handle" "map_of (os_byHandle (ow_oauth w)) (HashOAuthSecret L handle) = Some r" "validDeviceApprovalPrincipal p"
    "ar_CodeHash r = None" "StateForOAuth (ox_env x 1) (ox_flow_now x) (ar_DeviceCodeHash r) (ow_devices w) = (Inr st, d1)" "w1 = w\<lparr>ow_devices := d1\<rparr>"
    "st = OAuthDeviceStatePending \<or> resumable \<and> st = OAuthDeviceStateApproved"
  using assms
  by (auto simp: pendingConsent_def refuseOtherConsentUser_def GetAuthorizationRequest_def Let_def
      split: if_splits option.splits sum.splits prod.splits oauth_device_state.splits)

lemma bindConsentUser_ok:
  assumes "bindConsentUser e r p w = (None, w1)"
  obtains o1 where "BindAuthorizationRequestUser e (ar_HandleHash r) (p_OrgID p) (p_Subject p) (ow_oauth w) = (Inr (), o1)" "w1 = w\<lparr>ow_oauth := o1\<rparr>"
  using assms by (auto simp: bindConsentUser_def split: if_splits sum.splits prod.splits)

lemma other_user_refused:
  assumes "map_of (os_byHandle (ow_oauth w)) (HashOAuthSecret L handle) = Some r" "ar_BoundSubject r \<noteq> ''''"
    and "(p_OrgID p, p_Subject p) \<noteq> (ar_BoundOrgID r, ar_BoundSubject r)" "\<not> env_err (ox_env x 0 0 0) 0"
  shows "pendingConsent L x handle p resumable w = (Inl unknown_handle, w)"
  using assms by (auto simp: pendingConsent_def refuseOtherConsentUser_def GetAuthorizationRequest_def Let_def)

text \<open>
  C17: the first person to open a request owns it. After someone's browser opened the consent page of a request, anyone else who
  presents its handle, however much later, gets in preview, approval and denial alike the one answer that an
  unknown handle gets, and changes nothing: they cannot tell whether the request exists, is pending, decided or expired.
\<close>

theorem other_people_learn_nothing:
  assumes "reachable_world L sv w" "ConsentRequest L sv x handle p w = (Inr shown, w1)" "ok_run (world_step L sv) world_ranges ops w1"
    and "(p_OrgID p', p_Subject p') \<noteq> (p_OrgID p, p_Subject p)" "\<not> env_err (ox_env x' 0 0 0) 0"
  defines "t \<equiv> run_ops (world_step L sv) ops w1"
  shows "ConsentRequest L sv x' handle p' t = (Inl unknown_handle, t) \<and> ApproveConsent L sv x' handle p' repos t = (Inl unknown_handle, t) \<and>
    DenyConsent L sv x' handle p' t = (Inl unknown_handle, t) \<and>
    (\<forall>u. map_of (os_byHandle (ow_oauth u)) (HashOAuthSecret L handle) = None \<longrightarrow> ConsentRequest L sv x' handle p' u = (Inl unknown_handle, u) \<and>
       ApproveConsent L sv x' handle p' repos u = (Inl unknown_handle, u) \<and> DenyConsent L sv x' handle p' u = (Inl unknown_handle, u))"
proof -
  let ?h = "HashOAuthSecret L handle"
  obtain r w0 where pb: "pendingConsent L x handle p True w = (Inr r, w0)" "bindConsentUser (ox_env x 2 0 0) r p w0 = (None, w1)"
    using assms(2) by (auto simp: ConsentRequest_def Let_def unavailable_def split: sum.splits prod.splits option.splits oauth_failure.splits)
  obtain d1 where r: "map_of (os_byHandle (ow_oauth w)) ?h = Some r" "w0 = w\<lparr>ow_devices := d1\<rparr>" using pb(1) by (rule pendingConsent_ok)
  obtain o1 where b: "BindAuthorizationRequestUser (ox_env x 2 0 0) (ar_HandleHash r) (p_OrgID p) (p_Subject p) (ow_oauth w) = (Inr (), o1)"
    "w1 = w0\<lparr>ow_oauth := o1\<rparr>"
    using pb(2) r(2) by (auto elim!: bindConsentUser_ok)
  have hh: "ar_HandleHash r = ?h" using codes_okD(2) [OF reachable_oauth_ok [OF reachable_world_stores(1) [OF assms(1)]] r(1)] .
  have bound: "map_of (os_byHandle o1) ?h = Some (r\<lparr>ar_BoundOrgID := p_OrgID p, ar_BoundSubject := p_Subject p\<rparr>)" and ne: "p_Subject p \<noteq> ''''"
    using b(1) by (rule bind_ok; use r(1) hh in \<open>simp add: map_simps\<close>)+
  have reach: "reachable_oauth (ol_parse L) o1"
    using oauth_runs_ops(3) [OF b(1), of "ol_parse L"] reachable_oauth_run [OF reachable_world_stores(1) [OF assms(1)]] by (auto simp: runs_def)
  obtain rs where rs: "ow_oauth t = run_ops (oauth_step (ol_parse L)) rs o1"
    using world_run_runs [OF assms(3)] b(2) by (auto simp: world_runs_def runs_def t_def)
  obtain q where q: "map_of (os_byHandle (ow_oauth t)) ?h = Some q" "request_evolves (r\<lparr>ar_BoundOrgID := p_OrgID p, ar_BoundSubject := p_Subject p\<rparr>) q"
    using reach bound unfolding rs by (rule request_after)
  have "ar_BoundSubject q = p_Subject p" "ar_BoundOrgID q = p_OrgID p" using q(2) ne by (simp_all add: request_evolves_def)
  then have "pendingConsent L x' handle p' resumable t = (Inl unknown_handle, t)" for resumable
    using other_user_refused [OF q(1)] assms(4,5) ne by simp
  moreover have "pendingConsent L x' handle p' resumable u = (Inl unknown_handle, u)" if "map_of (os_byHandle (ow_oauth u)) ?h = None" for resumable u
    using that assms(5) by (simp add: pendingConsent_def GetAuthorizationRequest_def)
  ultimately show ?thesis by (simp add: ConsentRequest_def ApproveConsent_def DenyConsent_def)
qed


section \<open>From consent to credential\<close>

lemma redeem_input_kept:
  "redeem_input r i = Some i1 \<Longrightarrow> ci_Resource i1 = ci_Resource i \<and> ci_ClientID i1 = ci_ClientID i \<and> ci_FamilyID i1 = ci_FamilyID i \<and> ci_ClientClass i1 = ci_ClientClass i"
  by (auto simp: redeem_input_def Let_def split: if_splits)

lemma redeemed_binding:
  assumes "redeem lib es h i ackable d = (Inr c, d1)" "device_inv d"
  shows "cc_Resource c = TrimSpace (ci_Resource i)" "cp_ClientID (cc_Provenance c) = TrimSpace (ci_ClientID i)"
    "ci_ClientClass i = ClientClassBrowser \<Longrightarrow> cp_ClientClass (cc_Provenance c) = ClientClassBrowser"
    "ci_FamilyID i = '''' \<Longrightarrow> cp_ClientClass (cc_Provenance c) \<noteq> ClientClassBrowser"
proof -
  from assms obtain r i1 cs1 where m: "redeem_input r i = Some i1" "CreateCredential lib (es 3) i1 (ds_credentials d) = (Inr c, cs1)"
    by (rule redeem_success) auto
  obtain n where n: "normalizeCreate (url_Parse lib) i1 = Inr n" "c = credentialFromCreate n (env_now (es 3))" using m(2) by (rule created_from)
  note f = normalizeCreate_issued [OF n(1)] and k = redeem_input_kept [OF m(1)]
  show "cc_Resource c = TrimSpace (ci_Resource i)" "cp_ClientID (cc_Provenance c) = TrimSpace (ci_ClientID i)" using n(2) f(5,6) k by (simp_all add: credentialFromCreate_def)
  show "ci_ClientClass i = ClientClassBrowser \<Longrightarrow> cp_ClientClass (cc_Provenance c) = ClientClassBrowser" using n(2) f(13) k by (auto simp: credentialFromCreate_def)
  have "TrimSpace '''' = ''''" by code_simp
  then show "ci_FamilyID i = '''' \<Longrightarrow> cp_ClientClass (cc_Provenance c) \<noteq> ClientClassBrowser" using n(2) f(1,9) k by (auto simp: credentialFromCreate_def issued_ok_def)
qed

lemma GetByDeviceCodeHash_ok:
  assumes "GetByDeviceCodeHash e h d = (Inr r, d1)"
  shows "map_of (ds_byDevice d) h = Some r" "d1 = d"
proof -
  have "deviceLocked e h d = (Inr r, d1)" using assms by (simp add: GetByDeviceCodeHash_def split: if_splits)
  then show "map_of (ds_byDevice d) h = Some r" "d1 = d" by (auto elim: deviceLocked_cases)
qed

lemma ApproveForOAuth_ok:
  assumes "ApproveForOAuth fe p h repos scopes d = (Inr u, d1)" "reachable_devices lib d"
  obtains r r1 where "map_of (ds_byDevice d) h = Some r" "map_of (ds_byDevice d1) h = Some r1" "da_State r1 = DeviceAuthorizationStateApproved"
    "validDeviceApprovalPrincipal p" "da_AuthorizedOrgID r1 = p_OrgID p" "da_ApprovingSubject r1 = p_Subject p" "da_AuthorizedScopes r1 = scopes"
    "NormalizeRepositoryScopes repos = Some (da_AuthorizedRepositoryScopes r1)"
    "da_State r \<noteq> DeviceAuthorizationStateApproved \<longrightarrow> may_approve (p_RepositoryScopes p) (da_AuthorizedRepositoryScopes r1)"
proof -
  obtain r d0 where g: "GetByDeviceCodeHash (fe 3 0) h d = (Inr r, d0)"
    using assms(1) by (auto simp: ApproveForOAuth_def split: if_splits sum.splits prod.splits)
  note r = GetByDeviceCodeHash_ok [OF g]
  show ?thesis
  proof (cases "da_State r = DeviceAuthorizationStateApproved")
    case True
    then have "sameOAuthApproval r p repos" "da_AuthorizedScopes r = scopes" "d1 = d"
      using assms(1) g r by (auto simp: ApproveForOAuth_def split: if_splits)
    with True r show ?thesis by (intro that [of r r]) (auto simp: sameOAuthApproval_def split: option.splits)
  next
    case False
    obtain r1 where "approveUserCodeHash fe p (da_UserCodeHash r) repos scopes d = (Inr r1, d1)"
      using assms(1) g r False by (auto simp: ApproveForOAuth_def split: if_splits sum.splits prod.splits)
    then obtain repositories where a: "validDeviceApprovalPrincipal p" "NormalizeRepositoryScopes repos = Some repositories"
      "may_approve (p_RepositoryScopes p) repositories" "Device_Approve (fe 2) (da_UserCodeHash r) (approval_grant p repositories scopes) d = (Inr r1, d1)"
      by (rule approve_ok)
    have "map_of (ds_byUser d) (da_UserCodeHash r) = Some h" using reachable_devices_user_keyed [OF assms(2)] r(1) by (simp add: user_keyed_def)
    note s = approve_success [OF a(4) this]
    show ?thesis by (rule that [OF r(1) s(2,3) a(1)]) (use s(4) a in \<open>simp_all add: granted_def approval_grant_def\<close>)
  qed
qed

lemma redeemForResource_ok:
  assumes "redeemForResource lib fe now ic h clientID resource scopes browser d = (Inr issued, d1)" "reachable_devices lib d"
  obtains r pr q where "map_of (ds_byDevice d) h = Some r" "redeem lib (fe 2) h (snd pr) False d = (Inr (is_Credential issued), d1)" "is_Token issued = fst pr"
    "PrepareCreate lib (ic_service_now ic) (ic_generated ic) q = Inr pr" "cq_Scopes q = scopes" "cq_ClientID q = clientID" "cq_Resource q = resource"
    "cq_ClientClass q = (if browser then ClientClassBrowser else '''')" "browser \<or> cq_FamilyID q = ''''" "scopes \<noteq> []"
proof -
  obtain r d0 where g: "GetByDeviceCodeHash (fe 1 0) h d = (Inr r, d0)" "scopes \<noteq> []"
    "redeemAs lib (fe 2) ic r clientID resource (Some scopes) False browser d0 = (Inr issued, d1)"
    using assms(1) by (auto simp: redeemForResource_def split: if_splits sum.splits prod.splits)
  note r = GetByDeviceCodeHash_ok [OF g(1)]
  have key: "da_DeviceCodeHash r = h" using reachable_devices_keyed [OF assms(2)] r(1) by (simp add: keyed_def)
  have "\<exists>q. redeem_prepared lib (fe 2) ic q r False d = (Inr issued, d1) \<and> cq_Scopes q = scopes \<and> cq_ClientID q = clientID \<and> cq_Resource q = resource \<and>
      cq_ClientClass q = (if browser then ClientClassBrowser else '''') \<and> (browser \<or> cq_FamilyID q = '''')"
    using g(3) r(2) by (auto simp: redeemAs_def Let_def redeem_request_def browser_request_def split: if_splits option.splits)
  then obtain q where q: "redeem_prepared lib (fe 2) ic q r False d = (Inr issued, d1)" "cq_Scopes q = scopes" "cq_ClientID q = clientID" "cq_Resource q = resource"
      "cq_ClientClass q = (if browser then ClientClassBrowser else '''')" "browser \<or> cq_FamilyID q = ''''" by blast
  obtain pr where "PrepareCreate lib (ic_service_now ic) (ic_generated ic) q = Inr pr" "redeem lib (fe 2) h (snd pr) False d = (Inr (is_Credential issued), d1)"
      "is_Token issued = fst pr"
    using q(1) key by (auto simp: redeem_prepared_def Redeem_def Complete_def split: if_splits sum.splits prod.splits)
  with r(1) q g(2) show ?thesis by (intro that) auto
qed

lemma exchange_checks_ok:
  assumes "exchange_checks sha sv q pending = Inr (scope, browser)"
  shows "tq_ClientID q = ar_ClientID pending" "tq_RedirectURI q = ar_RedirectURI pending" "VerifyPKCES256 sha (tq_CodeVerifier q) (ar_CodeChallenge pending)"
    "tq_Resource q = '''' \<or> tq_Resource q = ar_Resource pending" "NormalizeOAuthScope (ar_Scope pending) = Some scope" "browser = isBrowserClient sv (ar_ClientID pending)"
    "browser \<Longrightarrow> ar_Resource pending = so_browserResource sv" "\<not> browser \<Longrightarrow> ar_Resource pending \<noteq> so_issuer sv"
  using assms by (auto simp: exchange_checks_def Let_def split: if_splits option.splits)

lemma Exchange_ok:
  assumes "Exchange L sv x q w = (Inr token, w1)"
  obtains pending o1 scope browser d1 where
    "ConsumeAuthorizationCode (ox_env x 0 0 0) (HashOAuthSecret L (tq_Code q)) (ow_oauth w) = (Inr pending, o1)"
    "exchange_checks (ol_sha L) sv q pending = Inr (scope, browser)" "ot_Scope token = scope"
    "redeemForResource (ol_lib L) (ox_env x 1) (ox_flow_now x) (ox_issue x) (ar_DeviceCodeHash pending) (ar_ClientID pending) (ar_Resource pending)
       (Fields scope) browser (ow_devices w) = (Inr (ot_Issued token), d1)"
    "ot_RefreshToken token \<noteq> '''' \<longleftrightarrow> browser"
  using assms
  by (auto simp: Exchange_def exchange_issue_def RedeemBrowserForResource_def RedeemForResource_def Refresh_Start_def RefreshTokenPrefix_def Let_def
      split: if_splits sum.splits prod.splits option.splits)


text \<open>What a token request is answered with, in terms of the code's request.\<close>

lemma prepared_binding:
  assumes "PrepareCreate lib now g q = Inr p"
  shows "ci_Resource (snd p) = cq_Resource q" "ci_ClientID (snd p) = TrimSpace (cq_ClientID q)" "ci_FamilyID (snd p) = cq_FamilyID q"
  using assms by (auto simp: PrepareCreate_def normalizeCreateRequest_def issueCreateInput_def Let_def split: if_splits option.splits)

lemma exchanged_binding:
  assumes "redeemForResource lib fe now ic h clientID resource scopes browser d = (Inr issued, d1)" "reachable_devices lib d"
  shows "cc_Resource (is_Credential issued) = TrimSpace resource" "cp_ClientID (cc_Provenance (is_Credential issued)) = TrimSpace (TrimSpace clientID)"
    "cp_ClientClass (cc_Provenance (is_Credential issued)) = ClientClassBrowser \<longleftrightarrow> browser"
proof -
  obtain r pr q where p: "map_of (ds_byDevice d) h = Some r" "redeem lib (fe 2) h (snd pr) False d = (Inr (is_Credential issued), d1)" "is_Token issued = fst pr"
    "PrepareCreate lib (ic_service_now ic) (ic_generated ic) q = Inr pr" "cq_Scopes q = scopes" "cq_ClientID q = clientID" "cq_Resource q = resource"
    "cq_ClientClass q = (if browser then ClientClassBrowser else '''')" "browser \<or> cq_FamilyID q = ''''" "scopes \<noteq> []"
    using assms by (rule redeemForResource_ok)
  note b = redeemed_binding [OF p(2) reachable_devices_inv [OF assms(2)]] and i = prepared_binding [OF p(4)] prepared_scopes(2) [OF p(4)]
  show "cc_Resource (is_Credential issued) = TrimSpace resource" using b(1) i p by simp
  show "cp_ClientID (cc_Provenance (is_Credential issued)) = TrimSpace (TrimSpace clientID)" using b(2) i p by simp
  show "cp_ClientClass (cc_Provenance (is_Credential issued)) = ClientClassBrowser \<longleftrightarrow> browser" using b(3,4) i p(8,9) by (cases browser) simp_all
qed

lemma approve_bound_ok:
  assumes "approve_bound L sv x r p repos w = (Inr decision, w1)"
  obtains scope d1 code r1 o1 where "\<not> p_Impersonating p" "isBrowserClient sv (ar_ClientID r) \<longrightarrow> p_SessionID p \<noteq> ''''" "NormalizeOAuthScope (ar_Scope r) = Some scope"
    "ApproveForOAuth (ox_env x 3) p (ar_DeviceCodeHash r) repos (oauthApprovalScopes scope) (ow_devices w) = (Inr (), d1)"
    "oauth_secret (ox_secret x) = Some code"
    "IssueAuthorizationCode (ox_env x 4 0 0) (ar_HandleHash r) (HashOAuthSecret L code) (ox_now x 1 + OAuthAuthorizationCodeTTL) (ow_oauth w) = (Inr r1, o1)"
    "w1 = w\<lparr>ow_devices := d1, ow_oauth := o1\<rparr>"
  using assms by (auto simp: approve_bound_def Let_def split: if_splits option.splits sum.splits prod.splits)

lemma ApproveConsent_ok:
  assumes "ApproveConsent L sv x handle p repos w = (Inr decision, w2)" "reachable_world L sv w"
  obtains r w1 where "map_of (os_byHandle (ow_oauth w)) (HashOAuthSecret L handle) = Some r" "ar_HandleHash r = HashOAuthSecret L handle"
    "world_runs L w w1" "approve_bound L sv x r p repos w1 = (Inr decision, w2)" "validDeviceApprovalPrincipal p"
    "ds_byDevice (ow_devices w1) = ds_byDevice (ow_devices w)"
proof -
  obtain r w0 w1 where a: "pendingConsent L x handle p True w = (Inr r, w0)" "bindConsentUser (ox_env x 2 0 0) r p w0 = (None, w1)"
    "approve_bound L sv x r p repos w1 = (Inr decision, w2)"
    using assms(1) by (auto simp: ApproveConsent_def split: sum.splits prod.splits option.splits)
  obtain d1 st where pc: "map_of (os_byHandle (ow_oauth w)) (HashOAuthSecret L handle) = Some r" "validDeviceApprovalPrincipal p" "w0 = w\<lparr>ow_devices := d1\<rparr>"
    "StateForOAuth (ox_env x 1) (ox_flow_now x) (ar_DeviceCodeHash r) (ow_devices w) = (Inr st, d1)" "st = OAuthDeviceStatePending \<or> True \<and> st = OAuthDeviceStateApproved"
    using a(1) by (rule pendingConsent_ok)
  have "d1 = ow_devices w" using pc(4,5) GetByDeviceCodeHash_ok(2)
    by (auto simp: StateForOAuth_def split: if_splits sum.splits prod.splits device_state.splits)
  moreover obtain o1 where "w1 = w0\<lparr>ow_oauth := o1\<rparr>" using a(2) by (rule bindConsentUser_ok)
  ultimately have "ds_byDevice (ow_devices w1) = ds_byDevice (ow_devices w)" using pc(3) by simp
  moreover have "world_runs L w w1" using world_runs_trans [OF pendingConsent_runs [OF a(1)] bindConsentUser_runs [OF a(2)]] .
  moreover have "ar_HandleHash r = HashOAuthSecret L handle" using codes_okD(2) [OF reachable_oauth_ok [OF reachable_world_stores(1) [OF assms(2)]] pc(1)] .
  ultimately show ?thesis using that pc(1,2) a(3) by blast
qed


text \<open>The request behind the code of an approval, at any later time.\<close>

lemma approved_request_after:
  assumes "reachable_world L sv w" "ApproveConsent L sv x handle p repos w = (Inr decision, w1)" "oauth_secret (ox_secret x) = Some code"
    and "map_of (os_byHandle (ow_oauth w)) (HashOAuthSecret L handle) = Some r" "ok_run (world_step L sv) world_ranges ops w1"
    and "ConsumeAuthorizationCode e (HashOAuthSecret L code) (ow_oauth (run_ops (world_step L sv) ops w1)) = (Inr pending, o2)"
  shows "authorized pending = authorized r"
proof -
  let ?t = "run_ops (world_step L sv) ops w1" and ?h = "HashOAuthSecret L handle" and ?c = "HashOAuthSecret L code"
  obtain r' w0 where a: "map_of (os_byHandle (ow_oauth w)) ?h = Some r'" "ar_HandleHash r' = ?h" "world_runs L w w0" "approve_bound L sv x r' p repos w0 = (Inr decision, w1)"
    using assms(2,1) by (rule ApproveConsent_ok)
  have rr: "r' = r" using a(1) assms(4) by simp
  obtain scope d1 code' r1 o1 where b: "oauth_secret (ox_secret x) = Some code'"
    "IssueAuthorizationCode (ox_env x 4 0 0) (ar_HandleHash r') (HashOAuthSecret L code') (ox_now x 1 + OAuthAuthorizationCodeTTL) (ow_oauth w0) = (Inr r1, o1)"
    "w1 = w0\<lparr>ow_devices := d1, ow_oauth := o1\<rparr>"
    using a(4) by (rule approve_bound_ok)
  have issue: "IssueAuthorizationCode (ox_env x 4 0 0) ?h ?c (ox_now x 1 + OAuthAuthorizationCodeTTL) (ow_oauth w0) = (Inr r1, o1)" using b(1,2) a(2) assms(3) by simp
  obtain rb where rb: "map_of (os_byHandle (ow_oauth w0)) ?h = Some rb" "r1 = rb\<lparr>ar_CodeHash := Some ?c, ar_CodeExpiresAt := Some (ox_now x 1 + OAuthAuthorizationCodeTTL)\<rparr>"
    "o1 = (ow_oauth w0)\<lparr>os_byHandle := put ?h r1 (os_byHandle (ow_oauth w0)), os_byCode := put ?c ?h (os_byCode (ow_oauth w0))\<rparr>"
    using issue by (rule issue_ok)
  note reach = reachable_world_stores(1) [OF assms(1)]
  have "authorized rb = authorized r"
  proof -
    obtain rs where "ow_oauth w0 = run_ops (oauth_step (ol_parse L)) rs (ow_oauth w)" using a(3) by (auto simp: world_runs_def runs_def)
    then obtain q where "map_of (os_byHandle (ow_oauth w0)) ?h = Some q" "request_evolves r q" using request_after [OF reach assms(4)] by metis
    with rb(1) request_evolves_fields(1) show ?thesis by auto
  qed
  then have r1: "authorized r1 = authorized r" by (simp add: rb(2) authorized_def)
  have reach1: "reachable_oauth (ol_parse L) o1"
    using world_runs_stores(1) [OF reachable_world_stores [OF assms(1)] ApproveConsent_runs [OF assms(2)]] b(3) by simp
  obtain rs where rs: "ow_oauth ?t = run_ops (oauth_step (ol_parse L)) rs o1" using world_run_runs [OF assms(5)] b(3) by (auto simp: world_runs_def runs_def)
  have at1: "map_of (os_byHandle o1) ?h = Some r1" "map_of (os_byCode o1) ?c = Some ?h" by (simp_all add: rb(3) map_simps)
  obtain q where q: "map_of (os_byHandle (ow_oauth ?t)) ?h = Some q" "request_evolves r1 q" using reach1 at1(1) unfolding rs by (rule request_after)
  have "map_of (os_byCode (ow_oauth ?t)) ?c = Some ?h" unfolding rs by (rule code_after [OF reach1 at1(2)])
  with assms(6) q(1) have "pending = q\<lparr>ar_ConsumedAt := Some (env_now e)\<rparr>" by (auto elim!: consume_ok)
  then show ?thesis using request_evolves_fields(1) [OF q(2)] r1 by (simp add: authorized_def)
qed

lemma oauth_scopes_plain: "set vs \<subseteq> set oauthScopes \<Longrightarrow> TrimSpace ` set vs = set vs"
proof -
  have "list_all (\<lambda>v. TrimSpace v = v) oauthScopes" by code_simp
  then show "set vs \<subseteq> set oauthScopes \<Longrightarrow> TrimSpace ` set vs = set vs" by (force simp: list_all_iff)
qed

lemma granted_exchange:
  assumes "reachable_devices lib d1" "map_of (ds_byDevice d1) h = Some u" "da_State u = DeviceAuthorizationStateApproved" "device_runs lib d1 d"
    and "redeemForResource lib fe now ic h clientID resource scopes browser d = (Inr issued, d2)" "set scopes \<subseteq> set oauthScopes"
    and "repositories_ok (da_AuthorizedRepositoryScopes u)"
  shows "cc_OrgID (is_Credential issued) = TrimSpace (da_AuthorizedOrgID u)" "cc_RepositoryScopes (is_Credential issued) = da_AuthorizedRepositoryScopes u"
    "cp_ApprovingUserID (cc_Provenance (is_Credential issued)) = TrimSpace (da_ApprovingSubject u)" "set (cc_Scopes (is_Credential issued)) \<subseteq> set scopes"
    "cc_Resource (is_Credential issued) = TrimSpace resource"
proof -
  obtain rs where rs: "ok_run (device_step lib) ranges rs d1" "d = run_ops (device_step lib) rs d1" using assms(4) by (auto simp: runs_def)
  have reach: "reachable_devices lib d" unfolding rs(2) by (rule reachable_devices_run [OF assms(1) rs(1)])
  obtain pr q where p: "redeem lib (fe 2) h (snd pr) False d = (Inr (is_Credential issued), d2)"
    "PrepareCreate lib (ic_service_now ic) (ic_generated ic) q = Inr pr" "cq_Scopes q = scopes" "scopes \<noteq> []"
    using assms(5) reach by (rule redeemForResource_ok) blast
  note g = granted_credential [OF assms(1-3) rs(1) p(1) [unfolded rs(2)]]
  have "set (ci_Scopes (snd pr)) = set scopes" using auth_scopes_set [OF prepared_scopes(1) [OF p(2)]] p(3,4) oauth_scopes_plain [OF assms(6)] by simp
  with g oauth_scopes_plain [OF assms(6)] show "set (cc_Scopes (is_Credential issued)) \<subseteq> set scopes" by simp
  show "cc_OrgID (is_Credential issued) = TrimSpace (da_AuthorizedOrgID u)" "cc_RepositoryScopes (is_Credential issued) = da_AuthorizedRepositoryScopes u"
    "cp_ApprovingUserID (cc_Provenance (is_Credential issued)) = TrimSpace (da_ApprovingSubject u)"
    using g normalizeRepositories_normal [OF assms(7)] by simp_all
  show "cc_Resource (is_Credential issued) = TrimSpace resource" by (rule exchanged_binding(1) [OF assms(5) reach])
qed

text \<open>
  C1: from consent to credential. When a person approves an OAuth request and its code is later exchanged for a token, whatever
  happened in between, then the person was signed in to the web, permitted to issue credentials and not
  impersonated; the token request came from the client of the request, to its redirect URI, with the verifier of its challenge; the credential
  is bound to the person's organization, to the person and to the resource of the request; it has no scope the request
  did not ask for, and exactly the repositories the person chose, which, where this approval was the first, are all within the
  person's own grant.
\<close>

theorem consent_bounds_the_credential:
  assumes "reachable_world L sv w" "ApproveConsent L sv x handle p repos w = (Inr decision, w1)" "oauth_secret (ox_secret x) = Some code"
    and "ok_run (world_step L sv) world_ranges ops w1" "tq_Code q = code"
    and "Exchange L sv x' q (run_ops (world_step L sv) ops w1) = (Inr token, w2)"
  defines "c \<equiv> is_Credential (ot_Issued token)"
  shows "\<exists>r scope. map_of (os_byHandle (ow_oauth w)) (HashOAuthSecret L handle) = Some r \<and> NormalizeOAuthScope (ar_Scope r) = Some scope \<and>
    validDeviceApprovalPrincipal p \<and> \<not> p_Impersonating p \<and>
    tq_ClientID q = ar_ClientID r \<and> tq_RedirectURI q = ar_RedirectURI r \<and> VerifyPKCES256 (ol_sha L) (tq_CodeVerifier q) (ar_CodeChallenge r) \<and>
    cc_OrgID c = TrimSpace (p_OrgID p) \<and> cp_ApprovingUserID (cc_Provenance c) = TrimSpace (p_Subject p) \<and> cc_Resource c = TrimSpace (ar_Resource r) \<and>
    set (cc_Scopes c) \<subseteq> set (Fields scope) \<and> NormalizeRepositoryScopes repos = Some (cc_RepositoryScopes c) \<and>
    (map_option da_State (map_of (ds_byDevice (ow_devices w)) (ar_DeviceCodeHash r)) \<noteq> Some DeviceAuthorizationStateApproved \<longrightarrow>
       (\<forall>slug. RepositoryAllowed (cc_RepositoryScopes c) slug \<longrightarrow> RepositoryAllowed (p_RepositoryScopes p) slug))"
proof -
  let ?t = "run_ops (world_step L sv) ops w1"
  obtain r w0 where a: "map_of (os_byHandle (ow_oauth w)) (HashOAuthSecret L handle) = Some r" "world_runs L w w0" "approve_bound L sv x r p repos w0 = (Inr decision, w1)"
    "validDeviceApprovalPrincipal p" "ds_byDevice (ow_devices w0) = ds_byDevice (ow_devices w)"
    using assms(2,1) by (rule ApproveConsent_ok)
  obtain scope0 d1 o1 where b: "\<not> p_Impersonating p"
    "ApproveForOAuth (ox_env x 3) p (ar_DeviceCodeHash r) repos (oauthApprovalScopes scope0) (ow_devices w0) = (Inr (), d1)" "w1 = w0\<lparr>ow_devices := d1, ow_oauth := o1\<rparr>"
    using a(3) by (rule approve_bound_ok)
  note reach0 = world_runs_stores(2) [OF reachable_world_stores [OF assms(1)] a(2)]
  have reach1: "reachable_devices (ol_lib L) d1"
    using world_runs_stores(2) [OF reachable_world_stores [OF assms(1)] ApproveConsent_runs [OF assms(2)]] b(3) by simp
  obtain u u1 where f: "map_of (ds_byDevice (ow_devices w0)) (ar_DeviceCodeHash r) = Some u" "map_of (ds_byDevice d1) (ar_DeviceCodeHash r) = Some u1"
    "da_State u1 = DeviceAuthorizationStateApproved" "da_AuthorizedOrgID u1 = p_OrgID p" "da_ApprovingSubject u1 = p_Subject p"
    "NormalizeRepositoryScopes repos = Some (da_AuthorizedRepositoryScopes u1)"
    "da_State u \<noteq> DeviceAuthorizationStateApproved \<longrightarrow> may_approve (p_RepositoryScopes p) (da_AuthorizedRepositoryScopes u1)"
    using b(2) reach0 by (rule ApproveForOAuth_ok)
  obtain pending o2 scope browser d2 where x: "ConsumeAuthorizationCode (ox_env x' 0 0 0) (HashOAuthSecret L (tq_Code q)) (ow_oauth ?t) = (Inr pending, o2)"
    "exchange_checks (ol_sha L) sv q pending = Inr (scope, browser)"
    "redeemForResource (ol_lib L) (ox_env x' 1) (ox_flow_now x') (ox_issue x') (ar_DeviceCodeHash pending) (ar_ClientID pending) (ar_Resource pending)
       (Fields scope) browser (ow_devices ?t) = (Inr (ot_Issued token), d2)"
    using assms(6) by (rule Exchange_ok)
  note k = exchange_checks_ok [OF x(2)]
  have same: "authorized pending = authorized r" using approved_request_after [OF assms(1-3) a(1) assms(4)] x(1) assms(5) by simp
  have run: "device_runs (ol_lib L) d1 (ow_devices ?t)" using world_run_runs [OF assms(4)] b(3) by (simp add: world_runs_def)
  have dev: "ar_DeviceCodeHash pending = ar_DeviceCodeHash r" using same by (simp add: authorized_def)
  have sub: "set (Fields scope) \<subseteq> set oauthScopes" using NormalizeOAuthScope_set(3,4) [OF k(5)] by simp
  have ok: "repositories_ok (da_AuthorizedRepositoryScopes u1)" by (rule NormalizeRepositoryScopes_ok [OF f(6)])
  note g = granted_exchange [OF reach1 f(2,3) run x(3) [unfolded dev] sub ok, folded c_def]
  have within: "RepositoryAllowed (p_RepositoryScopes p) slug" if "da_State u \<noteq> DeviceAuthorizationStateApproved" "RepositoryAllowed (cc_RepositoryScopes c) slug" for slug
    using may_approve_within [OF _ ok] f(7) that g(2) by simp
  have "cc_Resource c = TrimSpace (ar_Resource r)" using g(5) same by (simp add: authorized_def)
  moreover have "NormalizeOAuthScope (ar_Scope r) = Some scope" "tq_ClientID q = ar_ClientID r" "tq_RedirectURI q = ar_RedirectURI r"
    "VerifyPKCES256 (ol_sha L) (tq_CodeVerifier q) (ar_CodeChallenge r)" using k same by (simp_all add: authorized_def)
  ultimately show ?thesis using a(1,4,5) b(1) f g within by auto
qed


section \<open>Browser credentials\<close>

lemma NewOAuthService_browser:
  assumes "NewOAuthService parse n given cfg = Some sv"
  shows "so_browserResource sv = so_issuer sv \<or> so_browserResource sv = '''' \<and> (\<forall>clientID. \<not> isBrowserClient sv clientID)"
  using assms
  by (auto simp: NewOAuthService_def configureBrowserClients_def isBrowserClient_def Let_def split: if_splits option.splits)

lemma device_code_binding:
  assumes "flow_redeem lib es ic r clientID resource scopes ackable d = (Inr issued, d1)" "device_inv d"
  shows "cp_ClientClass (cc_Provenance (is_Credential issued)) \<noteq> ClientClassBrowser" "cc_Resource (is_Credential issued) = TrimSpace resource"
proof -
  obtain p where p: "PrepareCreate lib (ic_service_now ic) (ic_generated ic) (redeem_request r (ic_now ic) clientID resource scopes) = Inr p"
    "redeem lib es (da_DeviceCodeHash r) (snd p) ackable d = (Inr (is_Credential issued), d1)" "is_Token issued = fst p"
    using assms(1) by (rule flow_redeem_ok)
  note b = redeemed_binding [OF p(2) assms(2)] and i = prepared_binding [OF p(1)]
  show "cp_ClientClass (cc_Provenance (is_Credential issued)) \<noteq> ClientClassBrowser" "cc_Resource (is_Credential issued) = TrimSpace resource"
    using b(1,4) i by (simp_all add: redeem_request_def)
qed

lemma ExchangeDeviceCode_ok:
  assumes "ExchangeDeviceCode L sv x q w = (Inr token, w1)"
  obtains grant :: device_grant and r d1 d2 scope where "dg_ClientID grant = vq_ClientID q" "dg_Resource grant \<noteq> so_issuer sv" "\<not> isBrowserClient sv (dg_ClientID grant)"
    "Device_Poll (ox_env x 1 1) (HashDeviceCode (ol_sha L) (the (NormalizeDeviceCode (vq_DeviceCode q)))) (ow_devices w) = (Inr r, d1)"
    "flow_redeem (ol_lib L) (ox_env x 1 2) (ox_issue x) r (dg_ClientID grant) (dg_Resource grant) (Some (Fields scope)) False d1 = (Inr (ot_Issued token), d2)"
  using assms
  by (auto simp: ExchangeDeviceCode_def PollDeviceGrant_def Let_def split: if_splits option.splits sum.splits prod.splits flow_error.splits device_state.splits)

text \<open>
  C18: the resource of the API itself belongs to the browser class, both ways. A token issued for a code is of the browser
  class, and comes with a refresh token, exactly when its client is a configured browser client, and exactly then the
  resource of its request is the issuer; a device code never yields a browser credential and never one for the issuer.
\<close>

theorem browser_class_has_its_own_resource:
  assumes "NewOAuthService parse n given cfg = Some sv" "reachable_world L sv w"
  shows "(\<forall>x q token w1. Exchange L sv x q w = (Inr token, w1) \<longrightarrow>
      (\<exists>pending o1. ConsumeAuthorizationCode (ox_env x 0 0 0) (HashOAuthSecret L (tq_Code q)) (ow_oauth w) = (Inr pending, o1) \<and>
        cc_Resource (is_Credential (ot_Issued token)) = TrimSpace (ar_Resource pending) \<and>
        (cp_ClientClass (cc_Provenance (is_Credential (ot_Issued token))) = ClientClassBrowser \<longleftrightarrow> isBrowserClient sv (tq_ClientID q)) \<and>
        (ot_RefreshToken token \<noteq> '''' \<longleftrightarrow> isBrowserClient sv (tq_ClientID q)) \<and> (ar_Resource pending = so_issuer sv \<longleftrightarrow> isBrowserClient sv (tq_ClientID q)))) \<and>
    (\<forall>x q token w1. ExchangeDeviceCode L sv x q w = (Inr token, w1) \<longrightarrow>
      cp_ClientClass (cc_Provenance (is_Credential (ot_Issued token))) \<noteq> ClientClassBrowser \<and> \<not> isBrowserClient sv (vq_ClientID q) \<and>
      (\<exists>resource. resource \<noteq> so_issuer sv \<and> cc_Resource (is_Credential (ot_Issued token)) = TrimSpace resource))"
proof (intro conjI allI impI)
  fix x q token w1
  assume e: "Exchange L sv x q w = (Inr token, w1)"
  obtain pending o1 scope browser d1 where r: "ConsumeAuthorizationCode (ox_env x 0 0 0) (HashOAuthSecret L (tq_Code q)) (ow_oauth w) = (Inr pending, o1)"
    "exchange_checks (ol_sha L) sv q pending = Inr (scope, browser)" "ot_RefreshToken token \<noteq> '''' \<longleftrightarrow> browser"
    "redeemForResource (ol_lib L) (ox_env x 1) (ox_flow_now x) (ox_issue x) (ar_DeviceCodeHash pending) (ar_ClientID pending) (ar_Resource pending)
       (Fields scope) browser (ow_devices w) = (Inr (ot_Issued token), d1)"
    using e by (rule Exchange_ok)
  note k = exchange_checks_ok [OF r(2)] and b = exchanged_binding [OF r(4) reachable_world_stores(2) [OF assms(2)]]
  have "ar_Resource pending = so_issuer sv \<longleftrightarrow> browser" using NewOAuthService_browser [OF assms(1)] k by (cases browser) auto
  with r(1,3) k(1,6) b show "\<exists>pending o1. ConsumeAuthorizationCode (ox_env x 0 0 0) (HashOAuthSecret L (tq_Code q)) (ow_oauth w) = (Inr pending, o1) \<and>
        cc_Resource (is_Credential (ot_Issued token)) = TrimSpace (ar_Resource pending) \<and>
        (cp_ClientClass (cc_Provenance (is_Credential (ot_Issued token))) = ClientClassBrowser \<longleftrightarrow> isBrowserClient sv (tq_ClientID q)) \<and>
        (ot_RefreshToken token \<noteq> '''' \<longleftrightarrow> isBrowserClient sv (tq_ClientID q)) \<and> (ar_Resource pending = so_issuer sv \<longleftrightarrow> isBrowserClient sv (tq_ClientID q))"
    by auto
next
  fix x q token w1
  assume e: "ExchangeDeviceCode L sv x q w = (Inr token, w1)"
  obtain grant :: device_grant and r d1 d2 scope where g: "dg_ClientID grant = vq_ClientID q" "dg_Resource grant \<noteq> so_issuer sv" "\<not> isBrowserClient sv (dg_ClientID grant)"
    "Device_Poll (ox_env x 1 1) (HashDeviceCode (ol_sha L) (the (NormalizeDeviceCode (vq_DeviceCode q)))) (ow_devices w) = (Inr r, d1)"
    "flow_redeem (ol_lib L) (ox_env x 1 2) (ox_issue x) r (dg_ClientID grant) (dg_Resource grant) (Some (Fields scope)) False d1 = (Inr (ot_Issued token), d2)"
    using e by (rule ExchangeDeviceCode_ok)
  have "device_inv d1" using device_runs_ops(3) [OF g(4), of "ol_lib L"] reachable_devices_run [OF reachable_world_stores(2) [OF assms(2)]] reachable_devices_inv
    by (auto simp: runs_def)
  note b = device_code_binding [OF g(5) this]
  show "cp_ClientClass (cc_Provenance (is_Credential (ot_Issued token))) \<noteq> ClientClassBrowser" "\<not> isBrowserClient sv (vq_ClientID q)"
    "\<exists>resource. resource \<noteq> so_issuer sv \<and> cc_Resource (is_Credential (ot_Issued token)) = TrimSpace resource"
    using b g(1-3) by auto
qed


section \<open>Examples\<close>

text \<open>A service with one browser client and one hosted resource, and a login from the request to the token.\<close>

definition wx_url :: "string \<Rightarrow> string \<Rightarrow> url" where
  "wx_url host path = \<lparr>u_Scheme = ''https'', u_Opaque = '''', u_User = False, u_Host = host, u_Path = path, u_RawQuery = '''', u_ForceQuery = False, u_Fragment = ''''\<rparr>"

definition wx_parse :: url_parser where
  "wx_parse v = (if v = ''https://acr.example'' then Some (wx_url ''acr.example'' '''') else if v = ''https://mcp.example/mcp'' then Some (wx_url ''mcp.example'' ''/mcp'')
     else if v = ''https://app.example/client'' then Some (wx_url ''app.example'' ''/client'') else if v = ''https://app.example/cb'' then Some (wx_url ''app.example'' ''/cb'')
     else None)"

definition wx_libs :: oauth_libs where
  "wx_libs = \<lparr>ol_lib = sx_libs\<lparr>url_Parse := wx_parse\<rparr>, ol_net = \<lparr>n_EqualFold = (=), n_Query = (\<lambda>_. []), n_Encoded = (\<lambda>u query. u_Path u)\<rparr>,
     ol_sha = (\<lambda>v. replicate 32 (hd v)), ol_hmac = bx_hmac\<rparr>"

definition wx_config :: oauth_config where
  "wx_config = \<lparr>cf_Issuer = ''https://acr.example'', cf_Resources = [''https://mcp.example/mcp'', ''https://acr.example''], cf_ClientMetadata = True,
     cf_BrowserClients = [''https://app.example/client''], cf_DevBrowserRedirectURIs = [], cf_BrowserRefresh = True\<rparr>"

definition wx_service :: oauth_service where
  "wx_service = the (NewOAuthService wx_parse (ol_net wx_libs) True wx_config)"

definition wx_inputs :: "time \<Rightarrow> nat \<Rightarrow> oauth_inputs" where
  "wx_inputs t k = \<lparr>ox_env = (\<lambda>_. fx_envs t), ox_now = (\<lambda>_. t), ox_flow_now = t,
     ox_doc = Inr \<lparr>cm_ClientID = ''https://app.example/client'', cm_ClientName = ''App'', cm_RedirectURIs = [''https://app.example/cb''],
       cm_TokenEndpointAuthMethod = ''none'', cm_TokenEndpointAuthMethodsSupported = None\<rparr>,
     ox_secret = Some (replicate 32 k), ox_codes = fx_random, ox_issue = (fx_issuance t)\<lparr>ic_family := Some (replicate 16 3)\<rparr>,
     ox_seed = Some (replicate 32 (CHR ''s'')), ox_credentialID = Some ''cred_x''\<rparr>"

definition wx_verifier :: string where "wx_verifier = replicate 43 (CHR ''z'')"

definition wx_authorize :: authorize_request where
  "wx_authorize = \<lparr>aq_ResponseType = ''code'', aq_ClientID = ''https://app.example/client'', aq_RedirectURI = ''https://app.example/cb'',
     aq_CodeChallenge = b64_encode (map of_char (ol_sha wx_libs wx_verifier)), aq_CodeChallengeMethod = ''S256'', aq_Resource = '''', aq_Scope = ''context:read'', aq_State = ''st''\<rparr>"

definition wx_handle :: string where "wx_handle = b64_encode (replicate 32 9)"

definition wx_pending :: oauth_world where
  "wx_pending = snd (Authorize wx_libs wx_service (wx_inputs Hour 9) wx_authorize new_world)"

definition wx_approve :: "oauth_world \<Rightarrow> consent_decision answer" where
  "wx_approve = ApproveConsent wx_libs wx_service (wx_inputs (Hour + Minute) 13) wx_handle fx_person [''Acme/Widgets'']"

definition wx_token :: token_request where
  "wx_token = \<lparr>tq_GrantType = ''authorization_code'', tq_Code = b64_encode (replicate 32 13), tq_RedirectURI = ''https://app.example/cb'',
     tq_ClientID = ''https://app.example/client'', tq_CodeVerifier = wx_verifier, tq_Resource = ''''\<rparr>"

definition wx_exchange :: "oauth_world \<Rightarrow> oauth_token answer" where
  "wx_exchange = Exchange wx_libs wx_service (wx_inputs (Hour + 2 * Minute) 17) wx_token"

lemma reachable_wx_pending: "reachable_world wx_libs wx_service wx_pending"
  unfolding reachable_world_def wx_pending_def by (rule exI [of _ "[WAuthorize (wx_inputs Hour 9) wx_authorize]"]) simp

lemma wx_reachable:
  "reachable_world wx_libs wx_service (snd (wx_approve wx_pending))"
  using reachable_world_run [OF reachable_wx_pending, of "[WApprove (wx_inputs (Hour + Minute) 13) wx_handle fx_person [''Acme/Widgets'']]"]
  by (simp add: wx_approve_def)

lemma wx_approved:
  obtains decision where "wx_approve wx_pending = (Inr decision, snd (wx_approve wx_pending))" "cd_ClientKind decision = OAuthClientKindMetadataDocument"
proof -
  have "map_sum (\<lambda>_. ()) cd_ClientKind (fst (wx_approve wx_pending)) = Inr OAuthClientKindMetadataDocument" by code_simp
  then show ?thesis using that by (rule result_pair)
qed

lemma wx_exchanged:
  obtains token where "wx_exchange (snd (wx_approve wx_pending)) = (Inr token, snd (wx_exchange (snd (wx_approve wx_pending))))"
    "ot_ClientKind token = OAuthClientKindMetadataDocument"
proof -
  have "map_sum (\<lambda>_. ()) ot_ClientKind (fst (wx_exchange (snd (wx_approve wx_pending)))) = Inr OAuthClientKindMetadataDocument" by code_simp
  then show ?thesis using that by (rule result_pair)
qed


theorem service_refines_its_stores_witness:
  "reachable_world wx_libs wx_service wx_pending \<and>
   reachable_browser (ol_lib wx_libs) (browser_view (snd (wx_exchange (snd (wx_approve wx_pending)))))"
proof -
  have e: "run_ops (world_step wx_libs wx_service) [WExchange (wx_inputs (Hour + 2 * Minute) 17) wx_token] (snd (wx_approve wx_pending)) =
    snd (wx_exchange (snd (wx_approve wx_pending)))" by (simp add: wx_exchange_def)
  from service_refines_its_stores [OF wx_reachable, of "[WExchange (wx_inputs (Hour + 2 * Minute) 17) wx_token]"] reachable_wx_pending
  show ?thesis unfolding e by simp
qed

text \<open>The code of the example, presented with a wrong verifier first: the right one comes too late.\<close>

theorem exchange_spends_the_code_witness:
  "let w = snd (wx_approve wx_pending);
       wrong = wx_token\<lparr>tq_CodeVerifier := replicate 43 (CHR ''y'')\<rparr>;
       R = Exchange wx_libs wx_service (wx_inputs (Hour + 2 * Minute) 17) wrong w
   in fst R = Inl (OAuthClientKindMetadataDocument, oauthError ''invalid_grant'' ''pkce_mismatch'') \<and>
      fst (wx_exchange (snd R)) = Inl ('''', oauthError ''invalid_grant'' ''invalid_grant'')"
proof -
  let ?w = "snd (wx_approve wx_pending)" and ?wrong = "wx_token\<lparr>tq_CodeVerifier := replicate 43 (CHR ''y'')\<rparr>"
  let ?R = "Exchange wx_libs wx_service (wx_inputs (Hour + 2 * Minute) 17) ?wrong ?w"
  have f: "fst ?R = Inl (OAuthClientKindMetadataDocument, oauthError ''invalid_grant'' ''pkce_mismatch'')" by code_simp
  have n: "fst ?R \<noteq> Inl ('''', g)" for g unfolding f by (simp add: OAuthClientKindMetadataDocument_def)
  have same: "tq_Code wx_token = tq_Code ?wrong" "tq_GrantType wx_token = ''authorization_code''" by (simp_all add: wx_token_def)
  have ok: "\<not> env_err (ox_env (wx_inputs t k) 0 0 0) j" for t k j by (simp add: wx_inputs_def fx_envs_def ex_env_def)
  have run: "ok_run (world_step wx_libs wx_service) world_ranges [] (snd ?R)" "run_ops (world_step wx_libs wx_service) [] (snd ?R) = snd ?R" by simp_all
  obtain g where g: "Exchange wx_libs wx_service (wx_inputs (Hour + 2 * Minute) 17) wx_token (snd ?R) = (Inl ('''', g), snd ?R)"
    "tq_GrantType wx_token = ''authorization_code'' \<longrightarrow> \<not> env_err (ox_env (wx_inputs (Hour + 2 * Minute) 17) 0 0 0) 0 \<longrightarrow>
      \<not> env_err (ox_env (wx_inputs (Hour + 2 * Minute) 17) 0 0 0) 1 \<longrightarrow> g = oauthError ''invalid_grant'' ''invalid_grant''"
    using exchange_spends_the_code [OF wx_reachable prod.collapse [symmetric] n run(1) same(1), of "wx_inputs (Hour + 2 * Minute) 17", unfolded run(2)] by blast
  then have "fst (wx_exchange (snd ?R)) = Inl ('''', oauthError ''invalid_grant'' ''invalid_grant'')" using same(2) ok by (simp add: wx_exchange_def)
  with f show ?thesis by (simp add: Let_def)
qed

theorem other_people_learn_nothing_witness:
  "\<exists>shown w1. ConsentRequest wx_libs wx_service (wx_inputs (Hour + Minute) 1) wx_handle fx_person wx_pending = (Inr shown, w1) \<and>
    fx_person\<lparr>p_Subject := ''user2''\<rparr> \<noteq> fx_person \<and>
    ApproveConsent wx_libs wx_service (wx_inputs (Hour + Minute) 1) wx_handle (fx_person\<lparr>p_Subject := ''user2''\<rparr>) [''acme/widgets''] w1 = (Inl unknown_handle, w1)"
proof -
  let ?R = "ConsentRequest wx_libs wx_service (wx_inputs (Hour + Minute) 1) wx_handle fx_person wx_pending"
  have "map_sum (\<lambda>_. ()) cr_RedirectOrigin (fst ?R) = Inr ''https://app.example''" by code_simp
  then obtain shown where R: "?R = (Inr shown, snd ?R)" by (rule result_pair)
  have p: "p_Subject fx_person = ''user1''" by (simp add: fx_person_def)
  have ok: "\<not> env_err (ox_env (wx_inputs (Hour + Minute) 1) 0 0 0) 0" by (simp add: wx_inputs_def fx_envs_def ex_env_def)
  from other_people_learn_nothing [OF reachable_wx_pending R, of "[]" "fx_person\<lparr>p_Subject := ''user2''\<rparr>", OF _ _ ok] p R
  show ?thesis by (auto simp: fx_person_def)
qed

theorem consent_bounds_the_credential_witness:
  "\<exists>decision w1 token w2. wx_approve wx_pending = (Inr decision, w1) \<and> wx_exchange w1 = (Inr token, w2) \<and>
    cc_OrgID (is_Credential (ot_Issued token)) = TrimSpace ''org1'' \<and> set (cc_Scopes (is_Credential (ot_Issued token))) \<subseteq> set (Fields ''context:read'') \<and>
    NormalizeRepositoryScopes [''Acme/Widgets''] = Some (cc_RepositoryScopes (is_Credential (ot_Issued token)))"
proof -
  obtain decision where a: "wx_approve wx_pending = (Inr decision, snd (wx_approve wx_pending))" by (rule wx_approved)
  obtain token where e: "wx_exchange (snd (wx_approve wx_pending)) = (Inr token, snd (wx_exchange (snd (wx_approve wx_pending))))" by (rule wx_exchanged)
  have s: "oauth_secret (ox_secret (wx_inputs (Hour + Minute) 13)) = Some (tq_Code wx_token)" by (simp add: wx_inputs_def wx_token_def oauth_secret_def)
  have sc: "map_option ar_Scope (map_of (os_byHandle (ow_oauth wx_pending)) (HashOAuthSecret wx_libs wx_handle)) = Some ''context:read''" by code_simp
  have no: "NormalizeOAuthScope ''context:read'' = Some ''context:read''" by code_simp
  have e': "Exchange wx_libs wx_service (wx_inputs (Hour + 2 * Minute) 17) wx_token (run_ops (world_step wx_libs wx_service) [] (snd (wx_approve wx_pending))) =
    (Inr token, snd (wx_exchange (snd (wx_approve wx_pending))))" using e by (simp add: wx_exchange_def)
  have p: "p_OrgID fx_person = ''org1''" by (simp add: fx_person_def)
  from consent_bounds_the_credential [OF reachable_wx_pending a [unfolded wx_approve_def] s _ refl e' [unfolded wx_approve_def]] sc no p
  have "cc_OrgID (is_Credential (ot_Issued token)) = TrimSpace ''org1''" "set (cc_Scopes (is_Credential (ot_Issued token))) \<subseteq> set (Fields ''context:read'')"
    "NormalizeRepositoryScopes [''Acme/Widgets''] = Some (cc_RepositoryScopes (is_Credential (ot_Issued token)))" by auto
  with a e show ?thesis by metis
qed

theorem browser_class_has_its_own_resource_witness:
  "NewOAuthService wx_parse (ol_net wx_libs) True wx_config = Some wx_service \<and>
   (\<exists>token w2. wx_exchange (snd (wx_approve wx_pending)) = (Inr token, w2) \<and>
      cp_ClientClass (cc_Provenance (is_Credential (ot_Issued token))) = ClientClassBrowser \<and> ot_RefreshToken token \<noteq> '''')"
proof -
  have "NewOAuthService wx_parse (ol_net wx_libs) True wx_config \<noteq> None" by code_simp
  then have n: "NewOAuthService wx_parse (ol_net wx_libs) True wx_config = Some wx_service" by (simp add: wx_service_def)
  obtain token where e: "wx_exchange (snd (wx_approve wx_pending)) = (Inr token, snd (wx_exchange (snd (wx_approve wx_pending))))" by (rule wx_exchanged)
  have b: "isBrowserClient wx_service (tq_ClientID wx_token)" by code_simp
  from browser_class_has_its_own_resource [OF n wx_reachable, THEN conjunct1, rule_format, OF e [unfolded wx_exchange_def]] b
  have "cp_ClientClass (cc_Provenance (is_Credential (ot_Issued token))) = ClientClassBrowser" "ot_RefreshToken token \<noteq> ''''" by auto
  with n e show ?thesis by metis
qed


text \<open>
  An approval that is resumed keeps what was first approved. The first attempt records the approval and fails to attach the code; the same
  person approves again from another session, their grant meanwhile moved to another owner. The second approval
  succeeds, and the credential has the repositories and the session of the first.
\<close>

theorem resumed_approval_keeps_the_first:
  "let first = ApproveConsent wx_libs wx_service ((wx_inputs (Hour + Minute) 13)\<lparr>ox_secret := None\<rparr>) wx_handle fx_person [''Acme/Widgets''] wx_pending;
       later = fx_person\<lparr>p_RepositoryScopes := [''other/*''], p_SessionID := ''sess2''\<rparr>;
       again = ApproveConsent wx_libs wx_service (wx_inputs (Hour + Minute) 13) wx_handle later [''Acme/Widgets''] (snd first)
   in fst first = Inl (OAuthClientKindMetadataDocument, ErrOAuthUnavailable OcRandom) \<and>
      map_sum (\<lambda>_. ()) (\<lambda>token. (cc_RepositoryScopes (is_Credential (ot_Issued token)), cp_SessionID (cc_Provenance (is_Credential (ot_Issued token)))))
        (fst (wx_exchange (snd again))) = Inr ([''acme/widgets''], ''sess1'') \<and>
      \<not> RepositoryAllowed (p_RepositoryScopes later) ''acme/widgets''"
  by code_simp

end
