(* ===== verification/Web_Assertion.thy ===== *)
theory Web_Assertion
  imports Credential_Service
begin

text \<open>
  Signed web assertions: \<^verbatim>\<open>web_assertion.go\<close>, \<^verbatim>\<open>web_assertion_binding.go\<close>, \<^verbatim>\<open>web_assertion_jwks.go\<close> and
  \<^verbatim>\<open>web_assertion_replay.go\<close> under \<^verbatim>\<open>src/internal/auth\<close>, and the shared record of used ids,
  \<^verbatim>\<open>src/internal/storage/postgres/web_assertion_replay.go\<close>. Parameters: the JSON decoder of the two token parts, Ed25519 and
  SHA-256 (record \<open>web_libs\<close>), the key set the JWKS file holds at a call, and the successive readings of the clock.
  The two records of used ids meet the interface \<open>replay_record\<close>, where the single use of an assertion is proved once.
\<close>

section \<open>Requests\<close>

text \<open>
  What the authentication code reads of \<^verbatim>\<open>http.Request\<close>. A body stream is given by the bytes it delivers, whether it then
  fails instead of ending, and whether \<^verbatim>\<open>Close\<close> succeeds.
\<close>

datatype request_body = BodyNil | BodyStream (bs_bytes: string) (bs_fails: bool) (bs_closes: bool)

record http_request =
  hr_Method :: string
  hr_EscapedPath :: string
  hr_RawQuery :: string
  hr_Header :: "(string, string list) gomap"  \<comment> \<open>by canonical name\<close>
  hr_Body :: request_body

text \<open>\<^verbatim>\<open>CanonicalMIMEHeaderKey\<close> on a name of letters, digits and hyphens, as every name in the code is.\<close>

fun canonical_header :: "bool \<Rightarrow> string \<Rightarrow> string" where
  "canonical_header upper [] = []"
| "canonical_header upper (c # cs) =
    (if upper \<and> is_lower c then char_of (byte_of c - 32) else if \<not> upper \<and> is_upper c then ascii_lower c else c)
      # canonical_header (c = CHR ''-'') cs"

definition Header_Values :: "http_request \<Rightarrow> string \<Rightarrow> string list" where
  "Header_Values r name = lookup_or [] (hr_Header r) (canonical_header True name)"

definition Header_Get :: "http_request \<Rightarrow> string \<Rightarrow> string" where
  "Header_Get r name = (case Header_Values r name of [] \<Rightarrow> '''' | v # _ \<Rightarrow> v)"

definition WebAssertionHeader :: string where "WebAssertionHeader = ''X-ACR-Web-Assertion''"

definition singleHeader :: "http_request \<Rightarrow> string \<Rightarrow> string option" where
  "singleHeader r name =
    (case Header_Values r name of
       [v] \<Rightarrow> if TrimSpace v \<noteq> v \<or> v = '''' then None else Some v
     | _ \<Rightarrow> None)"

definition readAssertionBody :: "http_request \<Rightarrow> int \<Rightarrow> string option" where
  "readAssertionBody r maximum =
    (case hr_Body r of
       BodyNil \<Rightarrow> Some ''''
     | BodyStream bytes fails closes \<Rightarrow>
         if int (length bytes) > maximum \<or> fails then None else if \<not> closes then None else Some bytes)"

section \<open>Numbers and instants\<close>

text \<open>\<^verbatim>\<open>json.Number.Int64\<close> is \<^verbatim>\<open>strconv.ParseInt(s, 10, 64)\<close>.\<close>

fun parse_digits :: "string \<Rightarrow> int \<Rightarrow> int option" where
  "parse_digits [] acc = Some acc"
| "parse_digits (c # cs) acc = (if is_digit c then parse_digits cs (acc * 10 + byte_of c - 48) else None)"

definition ParseInt64 :: "string \<Rightarrow> int option" where
  "ParseInt64 s =
    (let negative = (case s of c # _ \<Rightarrow> c = CHR ''-'' | [] \<Rightarrow> False);
         digits = (case s of c # cs \<Rightarrow> if c = CHR ''-'' \<or> c = CHR ''+'' then cs else s | [] \<Rightarrow> [])
     in if digits = [] then None
        else case parse_digits digits 0 of
          None \<Rightarrow> None
        | Some v \<Rightarrow> let n = (if negative then - v else v) in if n < min_int64 \<or> n > max_int64 then None else Some n)"

definition unixToInternal :: int where "unixToInternal = 62135596800"

definition Unix :: "time \<Rightarrow> int" where "Unix t = wrap64 (t div Second - unixToInternal)"
definition time_Unix :: "int \<Rightarrow> time" where "time_Unix sec = wrap64 (sec + unixToInternal) * Second"

section \<open>The verifier\<close>

definition maxWebAssertionLifetime :: duration where "maxWebAssertionLifetime = 30 * Second"
definition webAssertionClockSkew :: duration where "webAssertionClockSkew = 5 * Second"
definition webAssertionOverlapCeiling :: duration where "webAssertionOverlapCeiling = 24 * Hour"
definition defaultReplayCapacity :: int where "defaultReplayCapacity = 10000"
definition defaultWebAssertionBodyBytes :: int where "defaultWebAssertionBodyBytes = 2 ^ 20"

record web_header =
  wh_Algorithm :: string
  wh_Type :: string
  wh_KeyID :: string

record web_claims =
  wc_Issuer :: string
  wc_Audience :: string
  wc_Subject :: string
  wc_OrganizationID :: string
  wc_RepositoryScopes :: "string list"
  wc_Permissions :: "string list"
  wc_IssuedAt :: string
  wc_NotBefore :: string
  wc_ExpiresAt :: string
  wc_JWTID :: string
  wc_Method :: string
  wc_Path :: string
  wc_BodySHA256 :: string
  wc_SessionID :: string
  wc_Impersonating :: bool

record jwks_key =
  jk_Public :: string
  jk_RetireAfter :: "time option"

record web_libs =
  wl_header :: "nat list \<Rightarrow> web_header option"  \<comment> \<open>one JSON value, unknown fields refused, nothing after it\<close>
  wl_claims :: "nat list \<Rightarrow> web_claims option"
  wl_ed25519 :: "string \<Rightarrow> string \<Rightarrow> nat list \<Rightarrow> bool"  \<comment> \<open>public key, message, signature\<close>
  wl_sha256 :: "string \<Rightarrow> nat list"

record web_verifier =
  wv_issuer :: string
  wv_audience :: string
  wv_maxBodyBytes :: int

datatype web_error = ErrInvalidWebAssertion | ErrWebAssertionReplay principal | ErrWebAssertionStoreUnavailable

definition NewWebAssertionVerifier ::
  "string \<Rightarrow> string \<Rightarrow> string \<Rightarrow> int \<Rightarrow> (string, jwks_key) gomap option \<Rightarrow> web_verifier option" where
  "NewWebAssertionVerifier issuer audience jwksPath maxBodyBytes keys =
    (if TrimSpace issuer = '''' \<or> TrimSpace audience = '''' \<or> TrimSpace jwksPath = '''' then None
     else if keys = None then None
     else Some \<lparr>wv_issuer = TrimSpace issuer, wv_audience = TrimSpace audience,
            wv_maxBodyBytes = (if maxBodyBytes \<le> 0 then defaultWebAssertionBodyBytes else maxBodyBytes)\<rparr>)"

definition validWebAssertionID :: "string \<Rightarrow> bool" where
  "validWebAssertionID value = (let v = TrimSpace value in v \<noteq> '''' \<and> length v \<le> 256)"

definition decodeWebAssertion :: "(nat list \<Rightarrow> 'a option) \<Rightarrow> string \<Rightarrow> 'a option" where
  "decodeWebAssertion json segment = Option.bind (b64_decode False segment) json"

definition keyInTimeBound :: "time \<Rightarrow> jwks_key \<Rightarrow> bool" where
  "keyInTimeBound now key =
    (case jk_RetireAfter key of
       None \<Rightarrow> True
     | Some retireAfter \<Rightarrow> now < retireAfter \<and> \<not> retireAfter > now + webAssertionOverlapCeiling)"

definition assertionBodyDigest :: "web_libs \<Rightarrow> string \<Rightarrow> string" where
  "assertionBodyDigest wl body = b64_encode (wl_sha256 wl body)"

section \<open>What an assertion may name\<close>

definition credentialIssuePermission :: string where "credentialIssuePermission = ''credential:issue''"

definition webAssertionOrganizationWidePaths :: "string list" where
  "webAssertionOrganizationWidePaths = [''/api/v1/oauth/device_approval'', ''/authorize/consent'', ''/authorize/first-party'']"

fun web_scope_fault_loop :: "string list \<Rightarrow> string list \<Rightarrow> (string \<times> string) option" where
  "web_scope_fault_loop [] seen = None"
| "web_scope_fault_loop (candidate # rest) seen =
    (case NormalizeRepositorySlug candidate of
       None \<Rightarrow> Some (candidate, repositorySlugFault candidate)
     | Some normalized \<Rightarrow>
         if normalized \<noteq> candidate then Some (candidate, ''not in normalized (lower-case, trimmed) form'')
         else if normalized \<in> set seen then Some (candidate, ''duplicate scope'')
         else web_scope_fault_loop rest (normalized # seen))"

definition webRepositoryScopeFault :: "string list \<Rightarrow> (string \<times> string) option" where
  "webRepositoryScopeFault scopes = web_scope_fault_loop scopes []"

definition validWebRepositories :: "string list \<Rightarrow> string list \<Rightarrow> string \<Rightarrow> string \<Rightarrow> bool" where
  "validWebRepositories scopes permissions meth path =
    (if scopes = [] then False
     else if scopes = [''*'']
     then permissions = [credentialIssuePermission] \<and> meth = ''POST'' \<and> path \<in> set webAssertionOrganizationWidePaths
     else webRepositoryScopeFault scopes = None)"

fun web_permissions_loop :: "string list \<Rightarrow> string list \<Rightarrow> bool" where
  "web_permissions_loop [] seen = True"
| "web_permissions_loop (permission # rest) seen =
    (if permission \<noteq> ''context:read'' \<and> permission \<noteq> ''evidence:read'' \<and> permission \<noteq> credentialIssuePermission then False
     else if permission \<in> set seen then False
     else web_permissions_loop rest (permission # seen))"

definition validWebPermissions :: "string list \<Rightarrow> bool" where
  "validWebPermissions permissions = (if permissions = [] then False else web_permissions_loop permissions [])"

definition normalizeWebRepositoryScopes :: "string list \<Rightarrow> string list" where "normalizeWebRepositoryScopes scopes = sort scopes"
definition normalizeWebPermissions :: "string list \<Rightarrow> string list" where "normalizeWebPermissions permissions = sort permissions"

section \<open>Verification\<close>

definition validClaims :: "web_libs \<Rightarrow> web_verifier \<Rightarrow> time \<Rightarrow> http_request \<Rightarrow> web_claims \<Rightarrow> bool" where
  "validClaims wl v now r c =
    (case (ParseInt64 (wc_IssuedAt c), ParseInt64 (wc_NotBefore c), ParseInt64 (wc_ExpiresAt c)) of
       (Some issuedAt, Some notBefore, Some expiresAt) \<Rightarrow>
         if wc_Issuer c \<noteq> wv_issuer v \<or> wc_Audience c \<noteq> wv_audience v
           \<or> \<not> validWebAssertionID (wc_Subject c) \<or> \<not> validWebAssertionID (wc_OrganizationID c) \<or> \<not> validWebAssertionID (wc_JWTID c)
           \<or> issuedAt > Unix (now + webAssertionClockSkew) \<or> notBefore > Unix (now + webAssertionClockSkew)
           \<or> expiresAt < Unix (now - webAssertionClockSkew) \<or> expiresAt < issuedAt
           \<or> wrap64 (expiresAt - issuedAt) > tdiv maxWebAssertionLifetime Second
           \<or> wc_Method c \<noteq> hr_Method r \<or> wc_Path c \<noteq> hr_EscapedPath r \<or> hr_RawQuery r \<noteq> ''''
           \<or> \<not> validWebRepositories (wc_RepositoryScopes c) (wc_Permissions c) (wc_Method c) (wc_Path c)
           \<or> \<not> validWebPermissions (wc_Permissions c)
           \<or> (wc_SessionID c \<noteq> '''' \<and> \<not> validWebAssertionID (wc_SessionID c))
         then False
         else (case readAssertionBody r (wv_maxBodyBytes v) of
                 None \<Rightarrow> False
               | Some body \<Rightarrow> wc_BodySHA256 c = assertionBodyDigest wl body)
     | _ \<Rightarrow> False)"

definition web_principal :: "web_claims \<Rightarrow> principal" where
  "web_principal c =
    \<lparr>p_AuthenticationMethod = AuthenticationMethodWebAssertion, p_Subject = wc_Subject c, p_OrgID = wc_OrganizationID c, p_CredentialID = '''',
     p_RepositoryScopes = [], p_Permissions = [], p_ProductEntitlements = [], p_ClientClass = '''', p_ApprovingUserID = '''', p_SessionID = '''',
     p_Impersonating = False, p_CredentialSessionID = '''', p_ProjectScopes = []\<rparr>"

text \<open>
  The part of \<^verbatim>\<open>Verify\<close> before the record of used ids: header, key, signature, time bound of the key, claims. The clock is
  read in \<^verbatim>\<open>keyInTimeBound\<close> (reading 0), in \<^verbatim>\<open>validClaims\<close> (1) and for \<^verbatim>\<open>Observe\<close> (2).
\<close>

definition signed_claims ::
  "web_libs \<Rightarrow> web_verifier \<Rightarrow> (string, jwks_key) gomap option \<Rightarrow> (nat \<Rightarrow> time) \<Rightarrow> http_request \<Rightarrow> web_claims option" where
  "signed_claims wl v keyset clock r =
    (case singleHeader r WebAssertionHeader of
       None \<Rightarrow> None
     | Some raw \<Rightarrow>
         (case split_on (CHR ''.'') raw of
            [part0, part1, part2] \<Rightarrow>
              if part0 = '''' \<or> part1 = '''' \<or> part2 = '''' then None
              else (case decodeWebAssertion (wl_header wl) part0 of
                None \<Rightarrow> None
              | Some header \<Rightarrow>
                  if wh_Algorithm header \<noteq> ''EdDSA'' \<or> wh_Type header \<noteq> ''JWT'' \<or> \<not> validWebAssertionID (wh_KeyID header) then None
                  else (case keyset of
                    None \<Rightarrow> None
                  | Some keys \<Rightarrow>
                      (case (map_of keys (wh_KeyID header), b64_decode False part2) of
                         (Some key, Some signature) \<Rightarrow>
                           if \<not> wl_ed25519 wl (jk_Public key) (part0 @ ''.'' @ part1) signature then None
                           else if \<not> keyInTimeBound (clock 0) key then None
                           else (case decodeWebAssertion (wl_claims wl) part1 of
                             None \<Rightarrow> None
                           | Some claims \<Rightarrow> if \<not> validClaims wl v (clock 1) r claims then None else Some claims)
                       | _ \<Rightarrow> None)))
          | _ \<Rightarrow> None))"

definition claims_expiry :: "web_claims \<Rightarrow> time" where
  "claims_expiry c = time_Unix (case ParseInt64 (wc_ExpiresAt c) of None \<Rightarrow> 0 | Some n \<Rightarrow> n)"

definition Verify ::
  "(string \<Rightarrow> string \<Rightarrow> time \<Rightarrow> time \<Rightarrow> 's \<Rightarrow> bool option \<times> 's) \<Rightarrow> web_libs \<Rightarrow> web_verifier \<Rightarrow> (string, jwks_key) gomap option
    \<Rightarrow> (nat \<Rightarrow> time) \<Rightarrow> http_request \<Rightarrow> 's \<Rightarrow> (web_error + principal) \<times> 's" where
  "Verify Observe wl v keyset clock r s =
    (case signed_claims wl v keyset clock r of
       None \<Rightarrow> (Inl ErrInvalidWebAssertion, s)
     | Some c \<Rightarrow>
         (case Observe (wv_issuer v) (wc_JWTID c) (claims_expiry c) (clock 2) s of
            (None, s1) \<Rightarrow> (Inl ErrWebAssertionStoreUnavailable, s1)
          | (Some True, s1) \<Rightarrow> (Inl (ErrWebAssertionReplay (web_principal c)), s1)
          | (Some False, s1) \<Rightarrow>
              (Inr ((web_principal c)\<lparr>p_RepositoryScopes := normalizeWebRepositoryScopes (wc_RepositoryScopes c),
                 p_Permissions := normalizeWebPermissions (wc_Permissions c), p_SessionID := TrimSpace (wc_SessionID c),
                 p_Impersonating := wc_Impersonating c\<rparr>), s1)))"

section \<open>Records of used ids\<close>

text \<open>The record of one process.\<close>

record memory_replays =
  wr_byJTI :: "(string, time) gomap"
  wr_capacity :: int

definition newMemoryReplays :: memory_replays where
  "newMemoryReplays = \<lparr>wr_byJTI = [], wr_capacity = defaultReplayCapacity\<rparr>"

definition memory_Observe :: "string \<Rightarrow> string \<Rightarrow> time \<Rightarrow> time \<Rightarrow> memory_replays \<Rightarrow> bool option \<times> memory_replays" where
  "memory_Observe issuer jti expiresAt now s =
    (let s1 = s\<lparr>wr_byJTI := filter (\<lambda>(candidate, expiry). expiry > now) (wr_byJTI s)\<rparr>
     in if has_key (wr_byJTI s1) jti then (Some True, s1)
        else if map_len (wr_byJTI s1) \<ge> wr_capacity s1 then (Some True, s1)
        else (Some False, s1\<lparr>wr_byJTI := put jti expiresAt (wr_byJTI s1)\<rparr>))"

text \<open>
  The shared record. The table has the primary key \<^verbatim>\<open>(issuer, jti)\<close>; its list order stands for the order in which the
  sweep meets rows of one expiry. \<open>db\<close> says which of the two statements fail and what \<^verbatim>\<open>now()\<close> is in the database.
\<close>

definition webAssertionReplayRetention :: duration where "webAssertionReplayRetention = Minute"
definition webAssertionReplaySweepEach :: int where "webAssertionReplaySweepEach = 16"
definition webAssertionReplaySweepRows :: nat where "webAssertionReplaySweepRows = 100"

record replay_db =
  db_insert_fails :: bool
  db_affected_fails :: bool
  db_sweep_fails :: bool
  db_now :: time

record shared_replays =
  sr_rows :: "(string \<times> string, time) gomap"
  sr_counter :: int

definition newSharedReplays :: shared_replays where "newSharedReplays = \<lparr>sr_rows = [], sr_counter = 0\<rparr>"

definition sweep_replays :: "replay_db \<Rightarrow> (string \<times> string, time) gomap \<Rightarrow> (string \<times> string, time) gomap" where
  "sweep_replays db rows =
    (if db_sweep_fails db then rows
     else let picked = take webAssertionReplaySweepRows (sort_key snd (filter (\<lambda>(k, expires_at). expires_at < db_now db - webAssertionReplayRetention) rows))
          in filter (\<lambda>row. row \<notin> set picked) rows)"

text \<open>
  One observation is one step here, its insert and the sweep it may trigger, and the counter that triggers sweeps is one
  for all processes; the code has one counter per process. The proofs use no value of the counter: they hold
  whichever observations sweep.
\<close>

definition shared_Observe :: "replay_db \<Rightarrow> string \<Rightarrow> string \<Rightarrow> time \<Rightarrow> time \<Rightarrow> shared_replays \<Rightarrow> bool option \<times> shared_replays" where
  "shared_Observe db issuer jti expiresAt now s =
    (if db_insert_fails db then (None, s)
     else let inserted = \<not> has_key (sr_rows s) (issuer, jti);
              s1 = (if inserted then s\<lparr>sr_rows := put (issuer, jti) expiresAt (sr_rows s)\<rparr> else s)
          in if db_affected_fails db then (None, s1)
             else let s2 = s1\<lparr>sr_counter := (sr_counter s1 + 1) mod 2 ^ 64\<rparr>;
                      s3 = (if sr_counter s2 mod webAssertionReplaySweepEach = 0 then s2\<lparr>sr_rows := sweep_replays db (sr_rows s2)\<rparr> else s2)
                  in (Some (\<not> inserted), s3))"

end
