(* ===== verification/Usage_Telemetry.thy ===== *)
theory Usage_Telemetry
  imports Credential_Machine
begin

text \<open>
  The coalescer of credential usage: \<^verbatim>\<open>usage_telemetry.go\<close>, \<^verbatim>\<open>usage_telemetry_worker.go\<close> and
  \<^verbatim>\<open>usage_telemetry_lifecycle.go\<close> under \<^verbatim>\<open>src/internal/auth\<close>. Requests enqueue, one worker collects, flushes and stops; the
  machine \<open>usage_step\<close> interleaves them at the granularity of the channel operations. A flush is given the outcomes of its
  checks of the context and, for each batch, the contexts of the two deliveries. \<open>us_handed\<close> records the batches handed to
  delivery; nothing reads it.
\<close>

section \<open>Records\<close>

definition defaultUsageQueueCapacity :: int where "defaultUsageQueueCapacity = 256"
definition maximumUsageQueueCapacity :: int where "maximumUsageQueueCapacity = 4096"

record usage_record =
  ur_OrgID :: string
  ur_CredentialID :: string
  ur_ActorType :: string
  ur_ActorID :: string
  ur_Action :: string
  ur_ResourceType :: string
  ur_ResourceID :: string
  ur_Metadata :: "(string \<times> meta) list"
  ur_ClientIP :: string
  ur_UserAgent :: string
  ur_RequestID :: string
  ur_UsedAt :: time

definition usageActorType :: "usage_record \<Rightarrow> string" where
  "usageActorType r = (if ur_ActorType r \<noteq> '''' then ur_ActorType r else ''credential'')"

definition usageActorID :: "usage_record \<Rightarrow> string" where
  "usageActorID r = (if ur_ActorID r \<noteq> '''' then ur_ActorID r else ur_CredentialID r)"

definition usageAction :: "usage_record \<Rightarrow> string" where
  "usageAction r = (if ur_Action r \<noteq> '''' then ur_Action r else ''credential_used'')"

definition usageResourceType :: "usage_record \<Rightarrow> string" where
  "usageResourceType r = (if ur_ResourceType r \<noteq> '''' then ur_ResourceType r else ''acr_credential'')"

definition usageResourceID :: "usage_record \<Rightarrow> string" where
  "usageResourceID r = (if ur_ResourceID r \<noteq> '''' then ur_ResourceID r else usageActorID r)"

section \<open>State\<close>

record usage_batch =
  ub_record :: usage_record
  ub_count :: int

datatype usage_state = UsageOpen | UsageStopping | UsageStopped

datatype worker_phase = Selecting | Draining bool  \<comment> \<open>for the shutdown\<close>

record usage_stats =
  ut_Enqueued :: int
  ut_Coalesced :: int
  ut_Dropped :: int
  ut_Delivered :: int
  ut_DeliveryFailures :: int
  ut_ShutdownDropped :: int

record usage_telemetry =
  us_capacity :: int
  us_audit :: bool  \<comment> \<open>an audit store is given\<close>
  us_queue :: "usage_record list"
  us_pending :: "(string, usage_batch) gomap"
  us_state :: usage_state
  us_phase :: worker_phase
  us_stats :: usage_stats
  us_creds :: credential_store
  us_handed :: "usage_batch list"

definition NewUsageTelemetry :: "int \<Rightarrow> bool \<Rightarrow> credential_store \<Rightarrow> usage_telemetry option" where
  "NewUsageTelemetry queueCapacity audit creds =
    (let capacity = (if queueCapacity = 0 then defaultUsageQueueCapacity else queueCapacity)
     in if capacity < 1 \<or> capacity > maximumUsageQueueCapacity then None
        else Some \<lparr>us_capacity = capacity, us_audit = audit, us_queue = [], us_pending = [], us_state = UsageOpen, us_phase = Selecting,
          us_stats = \<lparr>ut_Enqueued = 0, ut_Coalesced = 0, ut_Dropped = 0, ut_Delivered = 0, ut_DeliveryFailures = 0, ut_ShutdownDropped = 0\<rparr>,
          us_creds = creds, us_handed = []\<rparr>)"

section \<open>Operations\<close>

definition drop_record :: "usage_telemetry \<Rightarrow> usage_telemetry" where
  "drop_record u = u\<lparr>us_stats := (us_stats u)\<lparr>ut_Dropped := ut_Dropped (us_stats u) + 1\<rparr>\<rparr>"

text \<open>
  The send to the channel and the increment of the counter after it are one step here. In the code the worker can
  take the record in between, so a reader of the counters can for a moment see it one short.
\<close>

definition Enqueue :: "usage_record \<Rightarrow> usage_telemetry \<Rightarrow> usage_telemetry" where
  "Enqueue r u =
    (if ur_OrgID r = '''' \<or> usageActorID r = '''' \<or> IsZero (ur_UsedAt r) then u
     else if us_state u \<noteq> UsageOpen then drop_record u
     else if int (length (us_queue u)) < us_capacity u
     then u\<lparr>us_queue := us_queue u @ [r], us_stats := (us_stats u)\<lparr>ut_Enqueued := ut_Enqueued (us_stats u) + 1\<rparr>\<rparr>
     else drop_record u)"

definition usage_batch_key :: "usage_record \<Rightarrow> string" where
  "usage_batch_key r =
    ur_OrgID r @ [CHR 0x00] @ usageActorID r @ [CHR 0x00] @ usageAction r @ [CHR 0x00] @ usageResourceType r @ [CHR 0x00] @ usageResourceID r"

definition collect :: "usage_record \<Rightarrow> usage_telemetry \<Rightarrow> usage_telemetry" where
  "collect r u =
    (case map_of (us_pending u) (usage_batch_key r) of
       None \<Rightarrow> u\<lparr>us_pending := put (usage_batch_key r) \<lparr>ub_record = r, ub_count = 1\<rparr> (us_pending u)\<rparr>
     | Some batch \<Rightarrow>
         let batch1 = batch\<lparr>ub_count := ub_count batch + 1, ub_record := (if ur_UsedAt r > ur_UsedAt (ub_record batch) then r else ub_record batch)\<rparr>
         in u\<lparr>us_pending := put (usage_batch_key r) batch1 (us_pending u), us_stats := (us_stats u)\<lparr>ut_Coalesced := ut_Coalesced (us_stats u) + 1\<rparr>\<rparr>)"

definition fail_delivery :: "usage_telemetry \<Rightarrow> usage_telemetry" where
  "fail_delivery u = u\<lparr>us_stats := (us_stats u)\<lparr>ut_DeliveryFailures := ut_DeliveryFailures (us_stats u) + 1\<rparr>\<rparr>"

text \<open>The audit metadata of a batch: a count in it wins over an entry of the record.\<close>

definition usage_metadata :: "usage_batch \<Rightarrow> (string \<times> meta) list" where
  "usage_metadata b = put ''successful_use_count'' (MetaScalar (itoa (ub_count b))) (ur_Metadata (ub_record b))"

definition usage_event :: "usage_batch \<Rightarrow> audit_event" where
  "usage_event b =
    (let r = ub_record b
     in \<lparr>ae_OrgID = ur_OrgID r, ae_RepoID = '''', ae_ActorType = usageActorType r, ae_ActorID = usageActorID r, ae_Action = usageAction r,
         ae_ResourceType = usageResourceType r, ae_ResourceID = usageResourceID r, ae_Status = ''success'', ae_RequestID = ur_RequestID r,
         ae_Metadata = Some (usage_metadata b), ae_CreatedAt = ur_UsedAt r\<rparr>)"

definition deliver_touch :: "libs \<Rightarrow> env \<Rightarrow> usage_batch \<Rightarrow> usage_telemetry \<Rightarrow> bool \<times> usage_telemetry" where
  "deliver_touch lib e b u =
    (if usageAction (ub_record b) \<noteq> ''credential_used'' then (False, u)
     else case TouchLastUsed lib e (ur_OrgID (ub_record b)) (ur_CredentialID (ub_record b)) (ur_ClientIP (ub_record b)) (ur_UserAgent (ub_record b))
                 (ur_UsedAt (ub_record b)) (us_creds u) of
       (err, creds) \<Rightarrow> let u1 = u\<lparr>us_creds := creds\<rparr> in if err \<noteq> None then (True, fail_delivery u1) else (False, u1))"

definition deliver_audit :: "env \<Rightarrow> usage_batch \<Rightarrow> usage_telemetry \<Rightarrow> bool \<times> usage_telemetry" where
  "deliver_audit e b u =
    (if \<not> us_audit u then (False, u)
     else case audit_Record e (usage_event b) (us_creds u) of
       (err, creds) \<Rightarrow> let u1 = u\<lparr>us_creds := creds\<rparr> in if err \<noteq> None then (True, fail_delivery u1) else (False, u1))"

definition deliver :: "libs \<Rightarrow> env \<times> env \<Rightarrow> usage_batch \<Rightarrow> usage_telemetry \<Rightarrow> usage_telemetry" where
  "deliver lib es b u =
    (case deliver_touch lib (fst es) b u of
       (failed, u1) \<Rightarrow>
         (case deliver_audit (snd es) b u1 of
            (failed2, u2) \<Rightarrow>
              let u3 = u2\<lparr>us_handed := us_handed u2 @ [b]\<rparr>
              in if \<not> failed \<and> \<not> failed2 then u3\<lparr>us_stats := (us_stats u3)\<lparr>ut_Delivered := ut_Delivered (us_stats u3) + 1\<rparr>\<rparr> else u3))"

record flush_env =
  fe_err :: "nat \<Rightarrow> bool"  \<comment> \<open>\<^verbatim>\<open>ctx.Err()\<close> before the batch of this number\<close>
  fe_deliver :: "nat \<Rightarrow> env \<times> env"

definition pending_count :: "(string, usage_batch) gomap \<Rightarrow> int" where
  "pending_count m = sum_list (map (ub_count \<circ> snd) m)"

text \<open>The loop over the pending map; the list is what the loop has not visited, which is what the map still holds.\<close>

fun flush_loop :: "libs \<Rightarrow> flush_env \<Rightarrow> bool \<Rightarrow> nat \<Rightarrow> (string, usage_batch) gomap \<Rightarrow> usage_telemetry \<Rightarrow> bool \<times> usage_telemetry" where
  "flush_loop lib e final k [] u = (True, u\<lparr>us_pending := []\<rparr>)"
| "flush_loop lib e final k ((key, batch) # rest) u =
    (if fe_err e k
     then (False, if final
       then u\<lparr>us_pending := [], us_stats := (us_stats u)\<lparr>ut_ShutdownDropped := ut_ShutdownDropped (us_stats u) + pending_count ((key, batch) # rest)\<rparr>\<rparr>
       else u\<lparr>us_pending := (key, batch) # rest\<rparr>)
     else flush_loop lib e final (Suc k) rest (deliver lib (fe_deliver e k) batch u))"

definition usage_flush :: "libs \<Rightarrow> flush_env \<Rightarrow> bool \<Rightarrow> usage_telemetry \<Rightarrow> bool \<times> usage_telemetry" where
  "usage_flush lib e final u = flush_loop lib e final 0 (us_pending u) u"

section \<open>The worker\<close>

datatype usage_op =
    UEnqueue usage_record
  | UReceive flush_env  \<comment> \<open>the worker takes one record\<close>
  | UTick flush_env
  | UFlush  \<comment> \<open>the worker takes a flush request\<close>
  | UClose
  | UStop  \<comment> \<open>the worker sees the stop channel closed\<close>
  | UDrain  \<comment> \<open>one round of \<^verbatim>\<open>drain\<close>\<close>
  | UDrained flush_env  \<comment> \<open>\<^verbatim>\<open>drain\<close> finds the queue empty; the flush after it\<close>

definition close_telemetry :: "usage_telemetry \<Rightarrow> usage_telemetry" where
  "close_telemetry u = (if us_state u = UsageOpen then u\<lparr>us_state := UsageStopping\<rparr> else u)"

fun usage_step :: "libs \<Rightarrow> usage_op \<Rightarrow> usage_telemetry \<Rightarrow> usage_telemetry" where
  "usage_step lib (UEnqueue r) u = Enqueue r u"
| "usage_step lib (UReceive e) u =
    (if us_phase u \<noteq> Selecting \<or> us_state u = UsageStopped then u
     else case us_queue u of
       [] \<Rightarrow> u
     | r # rest \<Rightarrow>
         let u1 = collect r (u\<lparr>us_queue := rest\<rparr>)
         in if map_len (us_pending u1) = us_capacity u1 then snd (usage_flush lib e False u1) else u1)"
| "usage_step lib (UTick e) u =
    (if us_phase u \<noteq> Selecting \<or> us_state u = UsageStopped then u else snd (usage_flush lib e False u))"
| "usage_step lib UFlush u = (if us_phase u \<noteq> Selecting \<or> us_state u = UsageStopped then u else u\<lparr>us_phase := Draining False\<rparr>)"
| "usage_step lib UClose u = close_telemetry u"
| "usage_step lib UStop u = (if us_phase u \<noteq> Selecting \<or> us_state u \<noteq> UsageStopping then u else u\<lparr>us_phase := Draining True\<rparr>)"
| "usage_step lib UDrain u =
    (if us_phase u = Selecting then u
     else case us_queue u of [] \<Rightarrow> u | r # rest \<Rightarrow> collect r (u\<lparr>us_queue := rest\<rparr>))"
| "usage_step lib (UDrained e) u =
    (case us_phase u of
       Selecting \<Rightarrow> u
     | Draining final \<Rightarrow>
         if us_queue u \<noteq> [] then u
         else let u1 = snd (usage_flush lib e final u)
              in if final then u1\<lparr>us_phase := Selecting, us_state := UsageStopped\<rparr> else u1\<lparr>us_phase := Selecting\<rparr>)"

section \<open>Accounting\<close>

text \<open>Where an enqueued record can be: queued, pending, in a batch handed to delivery, or counted as lost at shutdown.\<close>

definition usage_accounted :: "usage_telemetry \<Rightarrow> bool" where
  "usage_accounted u \<longleftrightarrow>
     ut_Enqueued (us_stats u) = int (length (us_queue u)) + pending_count (us_pending u) + sum_list (map ub_count (us_handed u)) + ut_ShutdownDropped (us_stats u)"

definition usage_shutdown :: "usage_telemetry \<Rightarrow> bool" where
  "usage_shutdown u \<longleftrightarrow> (us_phase u = Draining True \<longrightarrow> us_state u \<noteq> UsageOpen) \<and> (us_state u = UsageStopped \<longrightarrow> us_queue u = [] \<and> us_pending u = [] \<and> us_phase u = Selecting)"

definition usage_inv :: "usage_telemetry \<Rightarrow> bool" where
  "usage_inv u \<longleftrightarrow> wf_map (us_pending u) \<and> usage_accounted u \<and> usage_shutdown u \<and> int (length (us_queue u)) \<le> us_capacity u"

end
