(* ===== verification/Request_Auth.thy ===== *)
theory Request_Auth
  imports Web_Assertion Attempt_Limiter OAuth_Client Usage_Telemetry
begin

text \<open>
  Who a request acts for: \<^verbatim>\<open>middleware.go\<close>, \<^verbatim>\<open>web_assertion_middleware.go\<close>, \<^verbatim>\<open>mcp_hop.go\<close> and \<^verbatim>\<open>response_status.go\<close> under
  \<^verbatim>\<open>src/internal/auth\<close>. The middleware is two steps, so that other requests may run between them: \<open>begin_request\<close> takes a
  slot of the attempt limiter and \<open>decide_request\<close> checks the credential and gives the slot back. The state
  holds the limiter, the credential store with its audit log, the record of used web assertions (of any type) and the cache of
  verified hops. What a request meets outside this state (clock readings, contexts of store calls, the answer of the token
  validator, the key set) is the record \<open>meets\<close>. Log lines are left out.
\<close>

section \<open>The limiter behind its interface\<close>

definition release_slot :: "string \<Rightarrow> attempt_limiter \<Rightarrow> attempt_limiter" where
  "release_slot key l = (case l of NoopLimiter \<Rightarrow> NoopLimiter | Memory m \<Rightarrow> Memory (release_attempt key m))"

definition RecordFailure :: "string \<Rightarrow> time \<Rightarrow> attempt_limiter \<Rightarrow> attempt_limiter" where
  "RecordFailure key now l = (case l of NoopLimiter \<Rightarrow> NoopLimiter | Memory m \<Rightarrow> Memory (limiter_RecordFailure key now m))"

definition RetryAfter :: "string \<Rightarrow> time \<Rightarrow> attempt_limiter \<Rightarrow> duration" where
  "RetryAfter key now l = (case l of NoopLimiter \<Rightarrow> 0 | Memory m \<Rightarrow> limiter_RetryAfter key now m)"

definition allow_attempt :: "string \<Rightarrow> time \<Rightarrow> attempt_limiter \<Rightarrow> bool \<times> attempt_limiter" where
  "allow_attempt key now l =
    (case l of NoopLimiter \<Rightarrow> (True, NoopLimiter) | Memory m \<Rightarrow> (case AllowAttempt key now m of (ok, m') \<Rightarrow> (ok, Memory m')))"

definition failure_blocked :: "string \<Rightarrow> time \<Rightarrow> attempt_limiter \<Rightarrow> bool \<times> attempt_limiter" where
  "failure_blocked key now l =
    (case l of NoopLimiter \<Rightarrow> (False, NoopLimiter) | Memory m \<Rightarrow> (case FailureBlocked key now m of (b, m') \<Rightarrow> (b, Memory m')))"

section \<open>The hop of the MCP server\<close>

definition MCPHopHeader :: string where "MCPHopHeader = ''X-ACR-MCP-Hop''"
definition mcpHopCacheLimit :: int where "mcpHopCacheLimit = 256"

datatype hop_error = errMCPHopMissing | errMCPHopRefused | HopValidatorError

record subject_identity =
  si_Namespace :: string
  si_ServiceAccountName :: string
  si_ExpiresAt :: time

datatype validator_answer = SubjectTokenInvalid | ValidatorError | Identity subject_identity

record hop_policy =
  hp_namespace :: string
  hp_serviceAccount :: string
  hp_issuer :: string

type_synonym hop_cache = "(string, time) gomap"

definition NewMCPHopPolicy :: "bool \<Rightarrow> string \<Rightarrow> string \<Rightarrow> string \<Rightarrow> (hop_policy \<times> hop_cache) option" where
  "NewMCPHopPolicy has_validator namespace serviceAccount issuer =
    (if \<not> has_validator then None
     else if TrimSpace namespace = '''' \<or> TrimSpace serviceAccount = '''' then None
     else if TrimSpace issuer = '''' then None
     else Some (\<lparr>hp_namespace = namespace, hp_serviceAccount = serviceAccount, hp_issuer = issuer\<rparr>, []))"

definition hop_requires :: "url_parser \<Rightarrow> net \<Rightarrow> hop_policy option \<Rightarrow> string \<Rightarrow> bool" where
  "hop_requires parse n policy resource =
    (case policy of None \<Rightarrow> False | Some p \<Rightarrow> resource \<noteq> '''' \<and> \<not> SameResource parse n resource (hp_issuer p))"

definition hop_remember :: "string \<Rightarrow> time \<Rightarrow> time \<Rightarrow> hop_cache \<Rightarrow> hop_cache" where
  "hop_remember key expiry now cache =
    (let cache1 = (if map_len cache \<ge> mcpHopCacheLimit then filter (\<lambda>(k, e). now < e) cache else cache);
         cache2 = (if map_len cache1 \<ge> mcpHopCacheLimit then [] else cache1)
     in put key expiry cache2)"

definition hop_verify ::
  "libs \<Rightarrow> hop_policy \<Rightarrow> time \<Rightarrow> (string \<Rightarrow> validator_answer) \<Rightarrow> string list \<Rightarrow> hop_cache \<Rightarrow> hop_error option \<times> hop_cache" where
  "hop_verify lib p now validate values cache =
    (case values of
       [value] \<Rightarrow>
         if TrimSpace value = '''' then (Some errMCPHopMissing, cache)
         else let token = TrimSpace value; key = sha256_hex lib token
              in if (case map_of cache key of None \<Rightarrow> False | Some expiry \<Rightarrow> now < expiry) then (None, cache)
                 else (case validate token of
                   SubjectTokenInvalid \<Rightarrow> (Some errMCPHopRefused, cache)
                 | ValidatorError \<Rightarrow> (Some HopValidatorError, cache)
                 | Identity i \<Rightarrow>
                     if si_Namespace i \<noteq> hp_namespace p \<or> si_ServiceAccountName i \<noteq> hp_serviceAccount p \<or> \<not> now < si_ExpiresAt i
                     then (Some errMCPHopRefused, cache) else (None, hop_remember key (si_ExpiresAt i) now cache))
     | _ \<Rightarrow> (Some errMCPHopMissing, cache))"

section \<open>Requests and answers\<close>

definition ResourceHeader :: string where "ResourceHeader = ''X-ACR-Resource''"

definition extractBearer :: "net \<Rightarrow> http_request \<Rightarrow> string" where
  "extractBearer n r =
    (if length (Header_Values r ''Authorization'') \<noteq> 1 then ''''
     else let header = TrimSpace (Header_Get r ''Authorization'')
          in if length header < 7 \<or> \<not> n_EqualFold n (take 7 header) ''Bearer '' then '''' else TrimSpace (drop 7 header))"

definition requestID :: "http_request \<Rightarrow> string" where
  "requestID r = (let value = TrimSpace (Header_Get r ''X-Request-ID'') in if value \<noteq> '''' then value else ''unknown'')"

definition resourceAdmitted :: "url_parser \<Rightarrow> net \<Rightarrow> string \<Rightarrow> string list \<Rightarrow> bool" where
  "resourceAdmitted parse n bound presented =
    (if bound = '''' then True else case presented of [value] \<Rightarrow> SameResource parse n bound value | _ \<Rightarrow> False)"

record error_answer =
  ea_status :: int
  ea_code :: string
  ea_retryable :: bool
  ea_retryAfter :: "int option"  \<comment> \<open>seconds, the header and the detail\<close>
  ea_requiredScope :: "string option"

datatype auth_outcome = Answered error_answer | PassedOn principal

definition writeError :: "int \<Rightarrow> string \<Rightarrow> bool \<Rightarrow> auth_outcome" where
  "writeError status code retryable =
    Answered \<lparr>ea_status = status, ea_code = code, ea_retryable = retryable, ea_retryAfter = None, ea_requiredScope = None\<rparr>"

definition writeRateLimitError :: "duration \<Rightarrow> auth_outcome" where
  "writeRateLimitError retryAfter =
    Answered \<lparr>ea_status = 429, ea_code = ''rate_limited'', ea_retryable = True,
      ea_retryAfter = (if retryAfter > 0 then Some (max 1 (tdiv (wrap64 (retryAfter + Second - 1)) Second)) else None), ea_requiredScope = None\<rparr>"

definition retry_or_second :: "duration \<Rightarrow> duration" where
  "retry_or_second retryAfter = (if retryAfter \<le> 0 then Second else retryAfter)"

abbreviation invalid_token :: auth_outcome where "invalid_token \<equiv> writeError 401 ''invalid_token'' False"
abbreviation upstream_unavailable :: auth_outcome where "upstream_unavailable \<equiv> writeError 503 ''upstream_unavailable'' True"

section \<open>The authenticator\<close>

record authenticator =
  an_audit :: bool  \<comment> \<open>an audit store is given\<close>
  an_hop :: "hop_policy option"
  an_web :: "web_verifier option"

record 's auth_state =
  as_limiter :: attempt_limiter
  as_creds :: credential_store
  as_replays :: 's
  as_hops :: hop_cache

type_synonym 's observer = "string \<Rightarrow> string \<Rightarrow> time \<Rightarrow> time \<Rightarrow> 's \<Rightarrow> bool option \<times> 's"

record 's auth_params =
  ap_lib :: libs
  ap_net :: net
  ap_web :: web_libs
  ap_observe :: "'s observer"

record meets =
  mt_decided :: time  \<comment> \<open>the clock when a rejection is decided\<close>
  mt_find :: env  \<comment> \<open>the context and the clock of \<open>FindByTokenHash\<close>\<close>
  mt_audit :: env
  mt_hop_now :: time
  mt_validate :: "string \<Rightarrow> validator_answer"
  mt_keys :: "(string, jwks_key) gomap option"
  mt_web_clock :: "nat \<Rightarrow> time"

definition recordDenialAudit :: "authenticator \<Rightarrow> env \<Rightarrow> audit_event \<Rightarrow> 's auth_state \<Rightarrow> 's auth_state" where
  "recordDenialAudit a e event s = (if \<not> an_audit a then s else s\<lparr>as_creds := snd (audit_Record e event (as_creds s))\<rparr>)"

definition recordKnownDenialAudit ::
  "authenticator \<Rightarrow> env \<Rightarrow> http_request \<Rightarrow> client_credential \<Rightarrow> string \<Rightarrow> time \<Rightarrow> 's auth_state \<Rightarrow> 's auth_state" where
  "recordKnownDenialAudit a e r c reason now s =
    recordDenialAudit a e
      \<lparr>ae_OrgID = cc_OrgID c, ae_RepoID = '''', ae_ActorType = ''credential'', ae_ActorID = cc_CredentialID c, ae_Action = ''credential_auth_denied'',
       ae_ResourceType = ''acr_credential'', ae_ResourceID = cc_CredentialID c, ae_Status = ''denied'', ae_RequestID = requestID r,
       ae_Metadata = Some [(''reason'', MetaScalar reason)], ae_CreatedAt = now\<rparr> s"

definition auditEvent ::
  "principal \<Rightarrow> string \<Rightarrow> string \<Rightarrow> string \<Rightarrow> string \<Rightarrow> string \<Rightarrow> (string \<times> meta) list option \<Rightarrow> time \<Rightarrow> audit_event" where
  "auditEvent p action resourceType resourceID status request_id metadata createdAt =
    \<lparr>ae_OrgID = p_OrgID p, ae_RepoID = '''', ae_ActorType = fst (AuditActor p), ae_ActorID = snd (AuditActor p), ae_Action = action,
     ae_ResourceType = resourceType, ae_ResourceID = resourceID, ae_Status = status, ae_RequestID = request_id, ae_Metadata = metadata,
     ae_CreatedAt = createdAt\<rparr>"

definition recordUnknownFailure :: "string \<Rightarrow> time \<Rightarrow> 's auth_state \<Rightarrow> 's auth_state" where
  "recordUnknownFailure ip now s = s\<lparr>as_limiter := RecordFailure ip now (as_limiter s)\<rparr>"

definition rejectCredential ::
  "authenticator \<Rightarrow> meets \<Rightarrow> http_request \<Rightarrow> string \<Rightarrow> string \<Rightarrow> client_credential option \<Rightarrow> attempt_decision \<Rightarrow> time \<Rightarrow> 's auth_state
    \<Rightarrow> auth_outcome \<times> 's auth_state" where
  "rejectCredential a m r ip reason credential decision now s =
    (case RecordRejection (as_limiter s) ip (mt_decided m) (ad_OverBudget decision) of
       ((overBudget, first), l1) \<Rightarrow>
         let s1 = s\<lparr>as_limiter := l1\<rparr>;
             s2 = (case credential of None \<Rightarrow> s1 | Some c \<Rightarrow> recordKnownDenialAudit a (mt_audit m) r c reason now s1)
         in if overBudget then (writeRateLimitError (retry_or_second (RetryAfter ip (mt_decided m) (as_limiter s2))), s2)
            else (invalid_token, s2))"

definition credential_principal :: "client_credential \<Rightarrow> principal" where
  "credential_principal c =
    \<lparr>p_AuthenticationMethod = AuthenticationMethodCredential,
     p_Subject = (case cc_WorkloadBindingID c of None \<Rightarrow> cc_CredentialID c | Some b \<Rightarrow> if b \<noteq> '''' then b else cc_CredentialID c),
     p_OrgID = cc_OrgID c, p_CredentialID = cc_CredentialID c, p_RepositoryScopes = cc_RepositoryScopes c, p_Permissions = cc_Scopes c,
     p_ProductEntitlements = [], p_ClientClass = cp_ClientClass (cc_Provenance c), p_ApprovingUserID = cp_ApprovingUserID (cc_Provenance c),
     p_SessionID = '''', p_Impersonating = False, p_CredentialSessionID = cp_SessionID (cc_Provenance c), p_ProjectScopes = []\<rparr>"

section \<open>The middleware\<close>

datatype request_step =
    Decided auth_outcome
  | Undecided attempt_decision  \<comment> \<open>the attempt holds a slot\<close>

definition is_web_assertion :: "http_request \<Rightarrow> bool" where
  "is_web_assertion r \<longleftrightarrow> Header_Values r WebAssertionHeader \<noteq> []"

definition begin_request :: "'s auth_params \<Rightarrow> http_request \<Rightarrow> string \<Rightarrow> time \<Rightarrow> 's auth_state \<Rightarrow> request_step \<times> 's auth_state" where
  "begin_request P r ip now s =
    (if \<not> is_web_assertion r \<and> Header_Values r ''Authorization'' = [] then (Decided invalid_token, s)
     else case (if \<not> is_web_assertion r \<and> IsTokenShapeValid (extractBearer (ap_net P) r)
                then BeginVerificationDecision (as_limiter s) ip now else BeginAttemptDecision (as_limiter s) ip now) of
       (decision, l1) \<Rightarrow>
         let s1 = s\<lparr>as_limiter := l1\<rparr>
         in if \<not> Admitted decision then (Decided (writeRateLimitError (retry_or_second (RetryAfter ip now l1))), s1)
            else (Undecided decision, s1))"

definition authenticateWebAssertion ::
  "'s auth_params \<Rightarrow> authenticator \<Rightarrow> meets \<Rightarrow> http_request \<Rightarrow> string \<Rightarrow> time \<Rightarrow> bool \<Rightarrow> 's auth_state \<Rightarrow> auth_outcome \<times> 's auth_state" where
  "authenticateWebAssertion P a m r ip now allow s =
    (case an_web a of
       Some v \<Rightarrow>
         if \<not> allow \<or> Header_Values r ''Authorization'' \<noteq> [] then (invalid_token, recordUnknownFailure ip now s)
         else (case Verify (ap_observe P) (ap_web P) v (mt_keys m) (mt_web_clock m) r (as_replays s) of
           (Inl (ErrWebAssertionReplay p), rs) \<Rightarrow>
             (writeRateLimitError Second,
              recordDenialAudit a (mt_audit m) (auditEvent p ''web_assertion_replay'' ''web_assertion'' ''replayed'' ''denied'' (requestID r) None (mt_decided m))
                (recordUnknownFailure ip (mt_decided m) (s\<lparr>as_replays := rs\<rparr>)))
         | (Inl ErrWebAssertionStoreUnavailable, rs) \<Rightarrow> (writeError 503 ''temporarily_unavailable'' True, s\<lparr>as_replays := rs\<rparr>)
         | (Inl ErrInvalidWebAssertion, rs) \<Rightarrow> (invalid_token, recordUnknownFailure ip (mt_decided m) (s\<lparr>as_replays := rs\<rparr>))
         | (Inr p, rs) \<Rightarrow>
             let s1 = s\<lparr>as_replays := rs\<rparr>; subjectKey = ''web:'' @ p_Subject p
             in (case allow_attempt subjectKey now (as_limiter s1) of
                   (allowed, l1) \<Rightarrow>
                     (case (if allowed then failure_blocked subjectKey now l1 else (True, l1)) of
                        (blocked, l2) \<Rightarrow>
                          let s2 = s1\<lparr>as_limiter := l2\<rparr>
                          in if blocked then (writeRateLimitError (RetryAfter subjectKey now l2), s2) else (PassedOn p, s2))))
     | None \<Rightarrow> (invalid_token, recordUnknownFailure ip now s))"

text \<open>The checks of a credential the store returned, in their order.\<close>

definition check_credential ::
  "'s auth_params \<Rightarrow> authenticator \<Rightarrow> meets \<Rightarrow> http_request \<Rightarrow> string \<Rightarrow> time \<Rightarrow> attempt_decision \<Rightarrow> client_credential \<Rightarrow> 's auth_state
    \<Rightarrow> auth_outcome \<times> 's auth_state" where
  "check_credential P a m r ip now decision c s =
    (let parse = url_Parse (ap_lib P); reject = (\<lambda>reason s. rejectCredential a m r ip reason (Some c) decision now s)
     in if cc_RevokedAt c \<noteq> None then reject ''revoked'' s
        else if (case cc_ExpiresAt c of None \<Rightarrow> False | Some t \<Rightarrow> \<not> t > now) then reject ''expired'' s
        else if \<not> resourceAdmitted parse (ap_net P) (cc_Resource c) (Header_Values r ResourceHeader) then reject ''resource_mismatch'' s
        else case an_hop a of
          None \<Rightarrow> (PassedOn (credential_principal c), s)
        | Some p \<Rightarrow>
            if \<not> hop_requires parse (ap_net P) (Some p) (cc_Resource c) then (PassedOn (credential_principal c), s)
            else (case hop_verify (ap_lib P) p (mt_hop_now m) (mt_validate m) (Header_Values r MCPHopHeader) (as_hops s) of
              (None, hops) \<Rightarrow> (PassedOn (credential_principal c), s\<lparr>as_hops := hops\<rparr>)
            | (Some errMCPHopMissing, hops) \<Rightarrow> reject ''mcp_hop_missing'' (s\<lparr>as_hops := hops\<rparr>)
            | (Some errMCPHopRefused, hops) \<Rightarrow> reject ''mcp_hop_refused'' (s\<lparr>as_hops := hops\<rparr>)
            | (Some HopValidatorError, hops) \<Rightarrow> (upstream_unavailable, s\<lparr>as_hops := hops\<rparr>)))"

definition authenticateBearer ::
  "'s auth_params \<Rightarrow> authenticator \<Rightarrow> meets \<Rightarrow> http_request \<Rightarrow> string \<Rightarrow> time \<Rightarrow> attempt_decision \<Rightarrow> 's auth_state \<Rightarrow> auth_outcome \<times> 's auth_state" where
  "authenticateBearer P a m r ip now decision s =
    (let raw = extractBearer (ap_net P) r
     in if \<not> IsTokenShapeValid raw then (invalid_token, recordUnknownFailure ip now s)
        else case FindByTokenHash (mt_find m) (HashToken (ap_lib P) raw) (as_creds s) of
          Inr c \<Rightarrow> check_credential P a m r ip now decision c s
        | Inl err \<Rightarrow>
            if err = ErrNotFound then rejectCredential a m r ip ''unknown_token'' None decision now s else (upstream_unavailable, s))"

text \<open>The slot is given back when the attempt is decided, before the wrapped handler runs.\<close>

definition decide_request ::
  "'s auth_params \<Rightarrow> authenticator \<Rightarrow> bool \<Rightarrow> meets \<Rightarrow> http_request \<Rightarrow> string \<Rightarrow> time \<Rightarrow> attempt_decision \<Rightarrow> 's auth_state
    \<Rightarrow> auth_outcome \<times> 's auth_state" where
  "decide_request P a allowWebAssertions m r ip now decision s =
    (case (if is_web_assertion r then authenticateWebAssertion P a m r ip now allowWebAssertions s
           else authenticateBearer P a m r ip now decision s) of
       (outcome, s1) \<Rightarrow> (outcome, s1\<lparr>as_limiter := release_slot ip (as_limiter s1)\<rparr>))"

definition MiddlewareFor ::
  "'s auth_params \<Rightarrow> authenticator \<Rightarrow> bool \<Rightarrow> meets \<Rightarrow> http_request \<Rightarrow> string \<Rightarrow> time \<Rightarrow> 's auth_state \<Rightarrow> auth_outcome \<times> 's auth_state" where
  "MiddlewareFor P a allowWebAssertions m r ip now s =
    (case begin_request P r ip now s of
       (Decided outcome, s1) \<Rightarrow> (outcome, s1)
     | (Undecided decision, s1) \<Rightarrow> decide_request P a allowWebAssertions m r ip now decision s1)"

section \<open>Requirements on the principal\<close>

text \<open>A handler finds the principal in its context or not.\<close>

definition HasScope :: "string list \<Rightarrow> string \<Rightarrow> bool" where
  "HasScope scopes required \<longleftrightarrow> required \<in> set scopes"

definition RequireScope ::
  "authenticator \<Rightarrow> env \<Rightarrow> time \<Rightarrow> string \<Rightarrow> http_request \<Rightarrow> principal option \<Rightarrow> 's auth_state \<Rightarrow> auth_outcome \<times> 's auth_state" where
  "RequireScope a e now required r context s =
    (case context of
       None \<Rightarrow> (invalid_token, s)
     | Some p \<Rightarrow>
         if \<not> HasScope (p_Permissions p) required
         then (Answered \<lparr>ea_status = 403, ea_code = ''insufficient_scope'', ea_retryable = False, ea_retryAfter = None, ea_requiredScope = Some required\<rparr>,
               recordDenialAudit a e (auditEvent p ''scope_denied'' ''acr_scope'' required ''denied'' (requestID r)
                 (Some [(''required_scope'', MetaScalar required)]) now) s)
         else (PassedOn p, s))"

definition RequireRepository ::
  "authenticator \<Rightarrow> env \<Rightarrow> time \<Rightarrow> (http_request \<Rightarrow> string) option \<Rightarrow> http_request \<Rightarrow> principal option \<Rightarrow> 's auth_state
    \<Rightarrow> auth_outcome \<times> 's auth_state" where
  "RequireRepository a e now resolve r context s =
    (case context of
       None \<Rightarrow> (invalid_token, s)
     | Some p \<Rightarrow>
         let repository = (case resolve of None \<Rightarrow> '''' | Some f \<Rightarrow> f r)
         in if \<not> AuthorizeRepository p repository
            then (writeError 403 ''repo_forbidden'' False,
                  recordDenialAudit a e (auditEvent p ''repository_denied'' ''repository'' repository ''denied'' (requestID r)
                    (Some [(''repository'', MetaScalar repository)]) now) s)
            else (PassedOn p, s))"

section \<open>Narrowing the principal\<close>

datatype narrow_error = NoPrincipal | ErrEmptyRepositoryScope | ScopeWidens string | ErrGrantNotUniversal | ErrEmptyProjectScope | ErrProjectScopeNeedsStarGrant

definition ProjectOnlyRepositoryScope :: string where "ProjectOnlyRepositoryScope = ReservedRepositoryScopePrefix @ ''project-only''"

definition NarrowRepositoryScopes :: "string list \<Rightarrow> principal option \<Rightarrow> narrow_error + principal" where
  "NarrowRepositoryScopes scopes context =
    (case context of
       None \<Rightarrow> Inl NoPrincipal
     | Some p \<Rightarrow>
         if scopes = [] then Inl ErrEmptyRepositoryScope
         else (case find (\<lambda>scope. \<not> RepositoryAllowed (p_RepositoryScopes p) scope) scopes of
           Some scope \<Rightarrow> Inl (ScopeWidens scope)
         | None \<Rightarrow> Inr (p\<lparr>p_RepositoryScopes := scopes\<rparr>)))"

definition KeepUniversalGrant :: "principal option \<Rightarrow> narrow_error + principal" where
  "KeepUniversalGrant context =
    (case context of
       None \<Rightarrow> Inl NoPrincipal
     | Some p \<Rightarrow> if ClassifyGrant p \<noteq> GrantUniversal then Inl ErrGrantNotUniversal else Inr (p\<lparr>p_RepositoryScopes := [''*'']\<rparr>))"

definition NarrowToProjectScopes :: "string list \<Rightarrow> principal option \<Rightarrow> narrow_error + principal" where
  "NarrowToProjectScopes projects context =
    (case context of
       None \<Rightarrow> Inl NoPrincipal
     | Some p \<Rightarrow>
         if projects = [] then Inl ErrEmptyProjectScope
         else if ClassifyGrant p \<noteq> GrantUniversal then Inl ErrProjectScopeNeedsStarGrant
         else Inr (p\<lparr>p_RepositoryScopes := [ProjectOnlyRepositoryScope], p_ProjectScopes := projects\<rparr>))"

section \<open>The status of the wrapped handler\<close>

text \<open>\<^verbatim>\<open>responseStatusWriter\<close>: the first status written stands; a \<^verbatim>\<open>Write\<close> with no status before it means 200.\<close>

datatype response_call = WriteHeader int | Write_body string

fun status_after :: "response_call \<Rightarrow> int \<Rightarrow> int" where
  "status_after (WriteHeader status) written = (if written = 0 then status else written)"
| "status_after (Write_body body) written = (if written = 0 then 200 else written)"

definition successful :: "int \<Rightarrow> bool" where
  "successful status \<longleftrightarrow> status = 0 \<or> status \<ge> 200 \<and> status < 400"


text \<open>After the wrapped handler: the use of the credential or assertion is enqueued when the answer was a success.\<close>

definition credential_usage :: "principal \<Rightarrow> http_request \<Rightarrow> string \<Rightarrow> time \<Rightarrow> usage_record" where
  "credential_usage p r ip now =
    \<lparr>ur_OrgID = p_OrgID p, ur_CredentialID = p_CredentialID p, ur_ActorType = '''', ur_ActorID = '''', ur_Action = '''', ur_ResourceType = '''',
     ur_ResourceID = '''', ur_Metadata = [], ur_ClientIP = ip, ur_UserAgent = Header_Get r ''User-Agent'', ur_RequestID = requestID r, ur_UsedAt = now\<rparr>"

definition web_usage :: "principal \<Rightarrow> http_request \<Rightarrow> time \<Rightarrow> usage_record" where
  "web_usage p r now =
    \<lparr>ur_OrgID = p_OrgID p, ur_CredentialID = '''', ur_ActorType = p_AuthenticationMethod p, ur_ActorID = p_Subject p, ur_Action = ''web_assertion_used'',
     ur_ResourceType = ''web_assertion'', ur_ResourceID = p_Subject p, ur_Metadata = [], ur_ClientIP = '''', ur_UserAgent = '''', ur_RequestID = requestID r,
     ur_UsedAt = now\<rparr>"

definition finish_request :: "principal \<Rightarrow> http_request \<Rightarrow> string \<Rightarrow> time \<Rightarrow> response_call list \<Rightarrow> usage_telemetry \<Rightarrow> usage_telemetry" where
  "finish_request p r ip now answer u =
    (if successful (fold status_after answer 0) then Enqueue (if is_web_assertion r then web_usage p r now else credential_usage p r ip now) u else u)"

end
