(* ===== verification/Web_Assertion_Properties.thy ===== *)
theory Web_Assertion_Properties
  imports Web_Assertion Service_Properties
begin

text \<open>
  What the verifier of web assertions promises. The interface \<open>replay_record\<close> says what a record of used ids keeps and until when; the
  single use of an assertion is its client fact, and both records are interpretations of it.
\<close>

section \<open>The interface of a record of used ids\<close>

record 'e verification =
  vf_env :: 'e
  vf_keys :: "(string, jwks_key) gomap option"
  vf_clock :: "nat \<Rightarrow> time"
  vf_request :: http_request

definition verify_op ::
  "('e \<Rightarrow> string \<Rightarrow> string \<Rightarrow> time \<Rightarrow> time \<Rightarrow> 's \<Rightarrow> bool option \<times> 's) \<Rightarrow> web_libs \<Rightarrow> web_verifier \<Rightarrow> 'e verification \<Rightarrow> 's
    \<Rightarrow> (web_error + principal) \<times> 's" where
  "verify_op observe wl v x s = Verify (observe (vf_env x)) wl v (vf_keys x) (vf_clock x) (vf_request x) s"

abbreviation verify_run where "verify_run observe wl v \<equiv> run_ops (\<lambda>x s. snd (verify_op observe wl v x s))"

definition claims_of :: "web_libs \<Rightarrow> web_verifier \<Rightarrow> 'e verification \<Rightarrow> web_claims option" where
  "claims_of wl v x = signed_claims wl v (vf_keys x) (vf_clock x) (vf_request x)"

text \<open>
  \<open>used s issuer jti exp\<close>: the record holds the id with this expiry. It keeps it as long as the clock it forgets by,
  \<open>forgets\<close>, is below \<open>exp + grace\<close>.
\<close>

locale replay_record =
  fixes observe :: "'e \<Rightarrow> string \<Rightarrow> string \<Rightarrow> time \<Rightarrow> time \<Rightarrow> 's \<Rightarrow> bool option \<times> 's"
    and used :: "'s \<Rightarrow> string \<Rightarrow> string \<Rightarrow> time \<Rightarrow> bool"
    and forgets :: "'e \<Rightarrow> time \<Rightarrow> time"
    and grace :: duration
  assumes observe_fresh:
      "observe e issuer jti expiry now s = (Some False, s') \<Longrightarrow> forgets e now < expiry + grace \<Longrightarrow> used s' issuer jti expiry"
    and observe_used: "used s issuer jti expiry \<Longrightarrow> forgets e now < expiry + grace \<Longrightarrow> fst (observe e issuer jti expiry' now s) \<noteq> Some False"
    and observe_keeps:
      "used s issuer jti expiry \<Longrightarrow> forgets e now < expiry + grace \<Longrightarrow> used (snd (observe e issuer' jti' expiry' now s)) issuer jti expiry"
begin

abbreviation remembers :: "'e verification \<Rightarrow> time \<Rightarrow> bool" where
  "remembers x expiry \<equiv> forgets (vf_env x) (vf_clock x 2) < expiry + grace"

lemma verify_keeps: "used s issuer jti expiry \<Longrightarrow> remembers x expiry \<Longrightarrow> used (snd (verify_op observe wl v x s)) issuer jti expiry"
  using observe_keeps [of s issuer jti expiry "vf_env x" "vf_clock x 2"]
  by (auto simp: verify_op_def Verify_def split: option.splits prod.splits bool.splits) (metis snd_conv)+

lemma run_keeps:
  "used s issuer jti expiry \<Longrightarrow> list_all (\<lambda>x. remembers x expiry) xs \<Longrightarrow> used (verify_run observe wl v xs s) issuer jti expiry"
  by (induction xs arbitrary: s) (auto intro: verify_keeps)

lemma accepted_once:
  assumes acc: "verify_op observe wl v x s = (Inr p, s1)" and c: "claims_of wl v x = Some c"
    and c2: "claims_of wl v y = Some c2" "wc_JWTID c2 = wc_JWTID c"
    and rem: "list_all (\<lambda>z. remembers z (claims_expiry c)) (x # xs @ [y])"
  shows "fst (verify_op observe wl v y (verify_run observe wl v xs s1))
    \<in> {Inl (ErrWebAssertionReplay (web_principal c2)), Inl ErrWebAssertionStoreUnavailable}"
proof -
  let ?t = "verify_run observe wl v xs s1"
  have "observe (vf_env x) (wv_issuer v) (wc_JWTID c) (claims_expiry c) (vf_clock x 2) s = (Some False, s1)"
    using acc c by (auto simp: verify_op_def claims_of_def Verify_def split: option.splits prod.splits bool.splits)
  then have "used s1 (wv_issuer v) (wc_JWTID c) (claims_expiry c)" using observe_fresh rem by auto
  then have "used ?t (wv_issuer v) (wc_JWTID c) (claims_expiry c)" using run_keeps rem by simp
  then have "fst (observe (vf_env y) (wv_issuer v) (wc_JWTID c2) (claims_expiry c2) (vf_clock y 2) ?t) \<noteq> Some False"
    using observe_used rem c2(2) by simp
  then show ?thesis using c2(1) by (auto simp: verify_op_def claims_of_def Verify_def split: option.splits prod.splits bool.splits)
qed

end

lemma set_put_new: "\<not> has_key m k \<Longrightarrow> set (put k v m) = insert (k, v) (set m)"
  by (induction m) (auto simp: has_key_def split: if_splits)

section \<open>The record of one process\<close>

definition memory_used :: "memory_replays \<Rightarrow> string \<Rightarrow> string \<Rightarrow> time \<Rightarrow> bool" where
  "memory_used s issuer jti expiry \<longleftrightarrow> (jti, expiry) \<in> set (wr_byJTI s)"

interpretation process_record: replay_record "\<lambda>_ :: unit. memory_Observe" memory_used "\<lambda>_ now. now" 0
proof
  fix e :: unit and issuer jti issuer' jti' expiry expiry' now s s'
  show "memory_used s' issuer jti expiry" if "memory_Observe issuer jti expiry now s = (Some False, s')"
    using that by (auto simp: memory_Observe_def memory_used_def Let_def set_put_new split: if_splits)
  assume u: "memory_used s issuer jti expiry" "now < expiry + 0"
  then have kept: "(jti, expiry) \<in> set (filter (\<lambda>(candidate, expiry). now < expiry) (wr_byJTI s))" by (simp add: memory_used_def)
  then have "has_key (filter (\<lambda>(candidate, expiry). now < expiry) (wr_byJTI s)) jti" by (force simp: has_key_iff)
  then show "fst (memory_Observe issuer jti expiry' now s) \<noteq> Some False" by (simp add: memory_Observe_def)
  show "memory_used (snd (memory_Observe issuer' jti' expiry' now s)) issuer jti expiry"
    using kept by (auto simp: memory_Observe_def memory_used_def Let_def set_put_new)
qed

section \<open>The shared record\<close>

definition shared_used :: "shared_replays \<Rightarrow> string \<Rightarrow> string \<Rightarrow> time \<Rightarrow> bool" where
  "shared_used s issuer jti expiry \<longleftrightarrow> ((issuer, jti), expiry) \<in> set (sr_rows s)"

lemma sweep_keeps:
  assumes "(k, expiry) \<in> set rows" "db_now db < expiry + webAssertionReplayRetention"
  shows "(k, expiry) \<in> set (sweep_replays db rows)"
proof -
  have "set (take n (sort_key f (filter Q rows))) \<subseteq> {x. Q x}" for n Q and f :: "('a \<times> 'b) \<times> time \<Rightarrow> time" and rows
    using set_take_subset by fastforce
  then show ?thesis using assms by (fastforce simp: sweep_replays_def Let_def dest: in_set_takeD)
qed

interpretation shared_record: replay_record shared_Observe shared_used "\<lambda>db _. db_now db" webAssertionReplayRetention
proof
  fix e issuer jti issuer' jti' expiry expiry' now s s'
  show "shared_used s' issuer jti expiry"
    if "shared_Observe e issuer jti expiry now s = (Some False, s')" "db_now e < expiry + webAssertionReplayRetention"
    using that by (auto simp: shared_Observe_def shared_used_def Let_def set_put_new intro!: sweep_keeps split: if_splits)
  assume u: "shared_used s issuer jti expiry" "db_now e < expiry + webAssertionReplayRetention"
  then have "has_key (sr_rows s) (issuer, jti)" by (force simp: shared_used_def has_key_iff)
  then show "fst (shared_Observe e issuer jti expiry' now s) \<noteq> Some False" by (simp add: shared_Observe_def Let_def)
  show "shared_used (snd (shared_Observe e issuer' jti' expiry' now s)) issuer jti expiry"
    using u by (auto simp: shared_Observe_def shared_used_def Let_def set_put_new intro!: sweep_keeps)
qed

section \<open>Instants of a claim\<close>

definition plausible_clock :: "time \<Rightarrow> bool" where
  "plausible_clock t \<longleftrightarrow> 0 \<le> t \<and> t < 2 ^ 62 * Second"

lemma Unix_id: "- 5 * Second \<le> t \<Longrightarrow> t < 2 ^ 62 * Second \<Longrightarrow> Unix t = t div Second - unixToInternal"
  unfolding Unix_def by (rule wrap64_id) (auto simp: unixToInternal_def Second_def min_int64_def max_int64_def)

lemma time_Unix_id: "- (2 ^ 62) \<le> n \<Longrightarrow> n < 2 ^ 62 \<Longrightarrow> time_Unix n = (n + unixToInternal) * Second"
  by (simp add: time_Unix_def wrap64_id unixToInternal_def min_int64_def max_int64_def)

text \<open>An assertion verifies for less than six seconds after its expiry: the skew, and the part of a second \<^verbatim>\<open>Unix\<close> cuts off.\<close>

lemma verifies_until:
  assumes "validClaims wl v now r c" "plausible_clock now" "ParseInt64 (wc_ExpiresAt c) = Some n" "n < 2 ^ 62"
  shows "now < claims_expiry c + 6 * Second"
proof -
  have "Unix (now - webAssertionClockSkew) \<le> n" using assms(1,3) by (auto simp: validClaims_def split: option.splits if_splits)
  then have n: "(now - 5 * Second) div Second - unixToInternal \<le> n"
    using assms(2) Unix_id [of "now - 5 * Second"] by (simp add: webAssertionClockSkew_def plausible_clock_def Second_def)
  have "- 5 \<le> (now - 5 * Second) div Second" using assms(2) by (auto simp: plausible_clock_def Second_def)
  then have "claims_expiry c = (n + unixToInternal) * Second"
    using n assms(3,4) time_Unix_id [of n] by (simp add: claims_expiry_def unixToInternal_def)
  moreover have "now - 5 * Second < ((now - 5 * Second) div Second + 1) * Second" by (simp add: Second_def)
  moreover have "((now - 5 * Second) div Second + 1) * Second \<le> (n + unixToInternal + 1) * Second"
    using n by (simp add: Second_def)
  ultimately show ?thesis by (simp add: algebra_simps)
qed

section \<open>A concrete web application\<close>

definition wa_libs :: "web_claims \<Rightarrow> web_libs" where
  "wa_libs c = \<lparr>wl_header = (\<lambda>_. Some \<lparr>wh_Algorithm = ''EdDSA'', wh_Type = ''JWT'', wh_KeyID = ''k1''\<rparr>), wl_claims = (\<lambda>_. Some c),
     wl_ed25519 = (\<lambda>key message signature. key = ''pub'' \<and> message = ''AA.AA'' \<and> signature = [0]), wl_sha256 = (\<lambda>body. [length body])\<rparr>"

definition wa_verifier :: web_verifier where
  "wa_verifier = \<lparr>wv_issuer = ''web'', wv_audience = ''acr'', wv_maxBodyBytes = 16\<rparr>"

definition wa_claims :: "string \<Rightarrow> string \<Rightarrow> web_claims" where
  "wa_claims issuedAt expiresAt = \<lparr>wc_Issuer = ''web'', wc_Audience = ''acr'', wc_Subject = ''user-1'', wc_OrganizationID = ''org-1'',
     wc_RepositoryScopes = [''acme/widgets''], wc_Permissions = [''context:read''], wc_IssuedAt = issuedAt, wc_NotBefore = issuedAt, wc_ExpiresAt = expiresAt,
     wc_JWTID = ''jti-1'', wc_Method = ''GET'', wc_Path = ''/api/v1/context'', wc_BodySHA256 = ''AA'', wc_SessionID = '''', wc_Impersonating = False\<rparr>"

definition wa_request :: http_request where
  "wa_request = \<lparr>hr_Method = ''GET'', hr_EscapedPath = ''/api/v1/context'', hr_RawQuery = '''', hr_Header = [(''X-Acr-Web-Assertion'', [''AA.AA.AA''])], hr_Body = BodyNil\<rparr>"

definition at_unix :: "int \<Rightarrow> time" where "at_unix n = (n + unixToInternal) * Second"

definition wa_verification :: "'e \<Rightarrow> int \<Rightarrow> 'e verification" where
  "wa_verification e n = \<lparr>vf_env = e, vf_keys = Some [(''k1'', \<lparr>jk_Public = ''pub'', jk_RetireAfter = None\<rparr>)], vf_clock = (\<lambda>_. at_unix n), vf_request = wa_request\<rparr>"

definition wa_db :: "int \<Rightarrow> replay_db" where
  "wa_db n = \<lparr>db_insert_fails = False, db_affected_fails = False, db_sweep_fails = False, db_now = at_unix n\<rparr>"

section \<open>Properties\<close>

text \<open>
  C12: the shared record makes a web assertion single-use. An assertion that was accepted is refused ever after, through any
  verifications in between and with any failures of the database, as long as the database clock runs forward and
  is at most 54 seconds ahead of the clock that checks the claims: the record keeps an id for as long as its assertion can verify.
\<close>

theorem assertion_is_used_once:
  assumes "verify_op shared_Observe wl v x s = (Inr p, s1)" "claims_of wl v x = Some c"
    and "claims_of wl v y = Some c2" "wc_JWTID c2 = wc_JWTID c" "wc_ExpiresAt c2 = wc_ExpiresAt c"
    and "ParseInt64 (wc_ExpiresAt c) = Some n" "n < 2 ^ 62" "plausible_clock (vf_clock y 1)"
    and "db_now (vf_env y) \<le> vf_clock y 1 + 54 * Second"
    and "list_all (\<lambda>z. db_now (vf_env z) \<le> db_now (vf_env y)) (x # xs)"
  shows "fst (verify_op shared_Observe wl v y (verify_run shared_Observe wl v xs s1))
    \<in> {Inl (ErrWebAssertionReplay (web_principal c2)), Inl ErrWebAssertionStoreUnavailable}"
proof -
  have "validClaims wl v (vf_clock y 1) (vf_request y) c2"
    using assms(3) by (auto simp: claims_of_def signed_claims_def split: option.splits list.splits if_splits)
  moreover have "claims_expiry c2 = claims_expiry c" using assms(5) by (simp add: claims_expiry_def)
  ultimately have "vf_clock y 1 < claims_expiry c + 6 * Second" using verifies_until assms(5-8) by metis
  then have "db_now (vf_env y) < claims_expiry c + webAssertionReplayRetention"
    using assms(9) by (simp add: webAssertionReplayRetention_def Minute_def)
  with assms(10) have "list_all (\<lambda>z. db_now (vf_env z) < claims_expiry c + webAssertionReplayRetention) (x # xs @ [y])"
    by (auto simp: list_all_iff)
  then show ?thesis using shared_record.accepted_once [OF assms(1-4)] by simp
qed

lemma wa_claims_of:
  "claims_of (wa_libs (wa_claims ''990'' ''1000'')) wa_verifier (wa_verification (wa_db n) 1003) = Some (wa_claims ''990'' ''1000'')"
  unfolding wa_verification_def claims_of_def by code_simp

theorem assertion_is_used_once_witness:
  "let wl = wa_libs (wa_claims ''990'' ''1000''); x = wa_verification (wa_db 1003) 1003
   in verify_op shared_Observe wl wa_verifier x newSharedReplays
        = (Inr ((web_principal (wa_claims ''990'' ''1000''))\<lparr>p_RepositoryScopes := [''acme/widgets''], p_Permissions := [''context:read'']\<rparr>),
           snd (verify_op shared_Observe wl wa_verifier x newSharedReplays)) \<and>
      fst (verify_op shared_Observe wl wa_verifier x (snd (verify_op shared_Observe wl wa_verifier x newSharedReplays)))
        \<in> {Inl (ErrWebAssertionReplay (web_principal (wa_claims ''990'' ''1000''))), Inl ErrWebAssertionStoreUnavailable}"
proof -
  let ?wl = "wa_libs (wa_claims ''990'' ''1000'')" and ?x = "wa_verification (wa_db 1003) 1003"
  let ?s1 = "snd (verify_op shared_Observe ?wl wa_verifier ?x newSharedReplays)"
  have acc: "verify_op shared_Observe ?wl wa_verifier ?x newSharedReplays
      = (Inr ((web_principal (wa_claims ''990'' ''1000''))\<lparr>p_RepositoryScopes := [''acme/widgets''], p_Permissions := [''context:read'']\<rparr>), ?s1)"
    by code_simp
  have "ParseInt64 (wc_ExpiresAt (wa_claims ''990'' ''1000'')) = Some 1000" by code_simp
  moreover have "plausible_clock (vf_clock ?x 1)" "db_now (vf_env ?x) \<le> vf_clock ?x 1 + 54 * Second" by code_simp+
  ultimately show ?thesis
    using assertion_is_used_once [where n = 1000 and xs = "[]", OF acc wa_claims_of wa_claims_of refl refl] acc by (simp add: Let_def)
qed

lemma memory_Observe_wf: "wf_map (wr_byJTI s) \<Longrightarrow> wf_map (wr_byJTI (snd (memory_Observe issuer jti expiry now s)))"
  by (simp add: memory_Observe_def Let_def)

lemma memory_run_wf:
  "wf_map (wr_byJTI s) \<Longrightarrow> wf_map (wr_byJTI (verify_run (\<lambda>_ :: unit. memory_Observe) wl v xs s))"
proof (induction xs arbitrary: s)
  case (Cons x xs)
  have "wf_map (wr_byJTI (snd (verify_op (\<lambda>_. memory_Observe) wl v x s)))"
    using Cons.prems memory_Observe_wf [OF Cons.prems]
    by (auto simp: verify_op_def Verify_def split: option.splits prod.splits bool.splits) (metis snd_conv)+
  with Cons.IH show ?case by simp
qed simp

lemma memory_forgets:
  assumes "wf_map (wr_byJTI s)" "memory_Observe issuer jti expiry now s = (Some False, s1)" "expiry \<le> now'"
  shows "fst (memory_Observe issuer' jti expiry' now' s1) = Some False"
proof -
  let ?kept = "filter (\<lambda>(candidate, e). e > now) (wr_byJTI s)" and ?after = "filter (\<lambda>(candidate, e). e > now') (wr_byJTI s1)"
  have s1: "wr_byJTI s1 = put jti expiry ?kept" "\<not> has_key ?kept jti" "map_len ?kept < wr_capacity s" "wr_capacity s1 = wr_capacity s"
    using assms(2) by (auto simp: memory_Observe_def Let_def split: if_splits)
  have "set ?after \<subseteq> set ?kept" using s1(1) assms(3) set_put_new [OF s1(2)] by auto
  moreover have "wf_map ?after" "wf_map ?kept" unfolding s1(1) using assms(1) by (intro wf_map_filter wf_map_put; assumption)+
  then have "distinct ?after" "distinct ?kept" by (simp_all only: wf_map_def distinct_map)
  ultimately have "length ?after \<le> length ?kept" by (metis card_mono distinct_card finite_set)
  moreover have "\<not> has_key ?after jti" using \<open>set ?after \<subseteq> set ?kept\<close> s1(2) by (auto simp: has_key_iff)
  ultimately show ?thesis using s1(3,4) by (simp add: memory_Observe_def Let_def map_len_def)
qed

text \<open>
  C39: the record of one process does not make an assertion single-use. It forgets a used id at the expiry of its assertion, and
  the verifier accepts assertions for up to the skew beyond it: whatever was verified before, an assertion that was just accepted
  is accepted again, as the same principal, whenever it still verifies at or after its expiry.
\<close>

theorem process_record_replays_in_the_skew:
  assumes "s = verify_run (\<lambda>_ :: unit. memory_Observe) wl v earlier newMemoryReplays"
    and "verify_op (\<lambda>_. memory_Observe) wl v x s = (Inr p, s1)" "claims_of wl v x = Some c"
    and "claims_of wl v y = Some c" "claims_expiry c \<le> vf_clock y 2"
  shows "fst (verify_op (\<lambda>_. memory_Observe) wl v y s1) = Inr p"
proof -
  have wf: "wf_map (wr_byJTI s)" unfolding assms(1) by (rule memory_run_wf) (simp add: newMemoryReplays_def)
  have o: "memory_Observe (wv_issuer v) (wc_JWTID c) (claims_expiry c) (vf_clock x 2) s = (Some False, s1)"
    using assms(2,3) by (auto simp: verify_op_def claims_of_def Verify_def split: option.splits prod.splits bool.splits)
  have "fst (memory_Observe (wv_issuer v) (wc_JWTID c) (claims_expiry c) (vf_clock y 2) s1) = Some False"
    by (rule memory_forgets [OF wf o assms(5)])
  then show ?thesis
    using assms(2-4) o by (auto simp: verify_op_def claims_of_def Verify_def split: prod.splits)
qed

text \<open>The same request twice, three seconds after its expiry.\<close>

theorem process_record_replays_in_the_skew_witness:
  "let wl = wa_libs (wa_claims ''990'' ''1000''); x = wa_verification () 1003;
       V = verify_op (\<lambda>_. memory_Observe) wl wa_verifier x
   in \<exists>p. fst (V newMemoryReplays) = Inr p \<and> fst (V (snd (V newMemoryReplays))) = Inr p"
proof -
  let ?c = "wa_claims ''990'' ''1000''" and ?x = "wa_verification () 1003"
  let ?V = "verify_op (\<lambda>_. memory_Observe) (wa_libs ?c) wa_verifier ?x"
  let ?p = "(web_principal ?c)\<lparr>p_RepositoryScopes := [''acme/widgets''], p_Permissions := [''context:read'']\<rparr>"
  have V: "?V newMemoryReplays = (Inr ?p, snd (?V newMemoryReplays))" by code_simp
  have c: "claims_of (wa_libs ?c) wa_verifier ?x = Some ?c" unfolding wa_verification_def claims_of_def by code_simp
  have e: "claims_expiry ?c \<le> vf_clock ?x 2" by code_simp
  have s: "newMemoryReplays = verify_run (\<lambda>_ :: unit. memory_Observe) (wa_libs ?c) wa_verifier [] newMemoryReplays" by simp
  from process_record_replays_in_the_skew [OF s V c c e] V show ?thesis unfolding Let_def by (metis fst_conv)
qed

text \<open>
  C40: the lifetime check subtracts in 64 bits. Claims that verify still verify with every issue time and every expiry that lie
  \<open>2 ^ 63\<close> seconds or more apart, as long as the expiry is not past: the thirty seconds an assertion may live do not
  bound them.
\<close>

theorem lifetime_check_overflows:
  assumes "validClaims wl v now r c" "ParseInt64 i = Some issuedAt" "ParseInt64 x = Some expiresAt"
    and "2 ^ 63 \<le> expiresAt - issuedAt" "Unix (now - webAssertionClockSkew) \<le> expiresAt" "0 \<le> Unix (now + webAssertionClockSkew)"
  shows "validClaims wl v now r (c\<lparr>wc_IssuedAt := i, wc_ExpiresAt := x\<rparr>) \<and> maxWebAssertionLifetime < (expiresAt - issuedAt) * Second"
proof -
  have b: "min_int64 \<le> issuedAt" "expiresAt \<le> max_int64"
    using assms(2,3) by (auto simp: ParseInt64_def Let_def split: option.splits if_splits)
  then have "(expiresAt - issuedAt + 2 ^ 63) mod 2 ^ 64 = expiresAt - issuedAt + 2 ^ 63 - 2 ^ 64"
    using assms(4) by (subst mod_pos_geq) (simp_all add: min_int64_def max_int64_def)
  then have "wrap64 (expiresAt - issuedAt) = expiresAt - issuedAt - 2 ^ 64" by (simp add: wrap64_def)
  with b have "wrap64 (expiresAt - issuedAt) \<le> tdiv maxWebAssertionLifetime Second"
    by (simp add: min_int64_def max_int64_def maxWebAssertionLifetime_def Second_def tdiv_def)
  moreover have "issuedAt \<le> Unix (now + webAssertionClockSkew)" using assms(4,6) b by (simp add: max_int64_def)
  ultimately have "validClaims wl v now r (c\<lparr>wc_IssuedAt := i, wc_ExpiresAt := x\<rparr>)"
    using assms(1-5) by (auto simp: validClaims_def split: option.splits if_splits)
  moreover have "maxWebAssertionLifetime < (expiresAt - issuedAt) * Second"
    using assms(4) by (simp add: maxWebAssertionLifetime_def Second_def)
  ultimately show ?thesis by blast
qed

theorem lifetime_check_overflows_witness:
  "validClaims (wa_libs (wa_claims ''990'' ''1000'')) wa_verifier (at_unix 1003) wa_request (wa_claims ''990'' ''1000'') \<and>
   validClaims (wa_libs (wa_claims ''990'' ''1000'')) wa_verifier (at_unix 1003) wa_request
     ((wa_claims ''990'' ''1000'')\<lparr>wc_IssuedAt := ''-9223372036854775808'', wc_ExpiresAt := ''4000000000''\<rparr>)"
proof -
  let ?c = "wa_claims ''990'' ''1000''"
  have c: "validClaims (wa_libs ?c) wa_verifier (at_unix 1003) wa_request ?c" by code_simp
  have p: "ParseInt64 ''-9223372036854775808'' = Some (- (2 ^ 63))" "ParseInt64 ''4000000000'' = Some 4000000000" by code_simp+
  have u: "Unix (at_unix 1003 - webAssertionClockSkew) \<le> 4000000000" "0 \<le> Unix (at_unix 1003 + webAssertionClockSkew)" by code_simp+
  from lifetime_check_overflows [OF c p _ u] c show ?thesis by simp
qed

section \<open>What an accepted assertion may read\<close>

lemma web_scopes_exact: "web_scope_fault_loop scopes seen = None \<Longrightarrow> scope \<in> set scopes \<Longrightarrow> ValidSlug scope"
  by (induction scopes seen rule: web_scope_fault_loop.induct)
    (auto simp: NormalizeRepositorySlug_def Let_def split: option.splits if_splits)

lemma web_permissions_known:
  "web_permissions_loop permissions seen \<Longrightarrow> set permissions \<subseteq> {''context:read'', ''evidence:read'', credentialIssuePermission}"
  by (induction permissions seen rule: web_permissions_loop.induct) (auto split: if_splits)

lemma exact_scopes_allow:
  assumes "\<And>v. v \<in> set vs \<Longrightarrow> ValidSlug v"
  shows "RepositoryAllowed vs slug \<longleftrightarrow> ToLower (TrimSpace slug) \<in> set vs"
  using assms slug_is_exact scope_allows_valid [OF ValidSlug_scope]
  by (auto simp: RepositoryAllowed_def NormalizeRepositorySlug_def Let_def list_ex_iff split: option.splits)

text \<open>
  C23: outside the three approval routes a web assertion reads exactly what its signed claims name. An accepted request carries
  verified claims; its principal has their subject, organization and permissions, which are among the three an assertion may
  carry, it is restricted, and it is authorized for a repository precisely when the claims list it.
\<close>

theorem web_assertion_reads_what_it_names:
  assumes "Verify Observe wl v keyset clock r s = (Inr p, s1)" "hr_EscapedPath r \<notin> set webAssertionOrganizationWidePaths"
  shows "\<exists>c. signed_claims wl v keyset clock r = Some c \<and> p_Subject p = wc_Subject c \<and> p_OrgID p = wc_OrganizationID c \<and>
    set (p_Permissions p) = set (wc_Permissions c) \<and> set (wc_Permissions c) \<subseteq> {''context:read'', ''evidence:read'', ''credential:issue''} \<and>
    ClassifyGrant p = GrantRestricted \<and> (\<forall>slug. AuthorizeRepository p slug \<longleftrightarrow> ToLower (TrimSpace slug) \<in> set (wc_RepositoryScopes c))"
proof -
  obtain c where c: "signed_claims wl v keyset clock r = Some c"
    and p: "p_RepositoryScopes p = sort (wc_RepositoryScopes c)" "p_Permissions p = sort (wc_Permissions c)" "p_ProjectScopes p = []"
      "p_Subject p = wc_Subject c" "p_OrgID p = wc_OrganizationID c"
    using assms(1) by (auto simp: Verify_def web_principal_def normalizeWebRepositoryScopes_def normalizeWebPermissions_def
        split: option.splits prod.splits bool.splits)
  have "validClaims wl v (clock 1) r c" using c by (auto simp: signed_claims_def split: option.splits list.splits if_splits)
  then have v: "validWebRepositories (wc_RepositoryScopes c) (wc_Permissions c) (wc_Method c) (wc_Path c)" "validWebPermissions (wc_Permissions c)"
      "wc_Path c = hr_EscapedPath r"
    by (auto simp: validClaims_def split: option.splits if_splits)
  then have ne: "wc_RepositoryScopes c \<noteq> []" and slug: "\<And>w. w \<in> set (p_RepositoryScopes p) \<Longrightarrow> ValidSlug w"
    using assms(2) web_scopes_exact p(1) by (auto simp: validWebRepositories_def webRepositoryScopeFault_def split: if_splits)
  have "ToLower ''*'' = ''*''" by code_simp
  then have "TrimSpace w \<noteq> ''*''" if "w \<in> set (p_RepositoryScopes p)" for w
    using slug_is_exact(1) [OF slug [OF that]] ValidScope_normal [OF ValidSlug_scope [OF slug [OF that]]] by auto
  then have "ClassifyGrant p = GrantRestricted" using p(1,3) ne by (auto simp: ClassifyGrant_def HoldsProjectGrant_def list_ex_iff)
  moreover have "set (wc_Permissions c) \<subseteq> {''context:read'', ''evidence:read'', ''credential:issue''}"
    using v(2) web_permissions_known by (fastforce simp: validWebPermissions_def credentialIssuePermission_def split: if_splits)
  moreover have "AuthorizeRepository p slug \<longleftrightarrow> ToLower (TrimSpace slug) \<in> set (wc_RepositoryScopes c)" for slug
    using exact_scopes_allow [of "p_RepositoryScopes p" slug, OF slug] p(1) calculation(1) by (simp add: AuthorizeRepository_def)
  ultimately show ?thesis using c p(2,4,5) by simp
qed

theorem web_assertion_reads_what_it_names_witness:
  "\<exists>p s1. Verify memory_Observe (wa_libs (wa_claims ''990'' ''1000'')) wa_verifier (vf_keys (wa_verification () 995)) (\<lambda>_. at_unix 995) wa_request newMemoryReplays
     = (Inr p, s1) \<and> ClassifyGrant p = GrantRestricted \<and> AuthorizeRepository p ''Acme/Widgets'' \<and> \<not> AuthorizeRepository p ''acme/other''"
proof -
  let ?V = "Verify memory_Observe (wa_libs (wa_claims ''990'' ''1000'')) wa_verifier (vf_keys (wa_verification () 995)) (\<lambda>_. at_unix 995) wa_request newMemoryReplays"
  let ?p = "(web_principal (wa_claims ''990'' ''1000''))\<lparr>p_RepositoryScopes := [''acme/widgets''], p_Permissions := [''context:read'']\<rparr>"
  have V: "?V = (Inr ?p, snd ?V)" by code_simp
  have "hr_EscapedPath wa_request \<notin> set webAssertionOrganizationWidePaths" by code_simp
  note reads = web_assertion_reads_what_it_names [OF V this]
  have "signed_claims (wa_libs (wa_claims ''990'' ''1000'')) wa_verifier (vf_keys (wa_verification () 995)) (\<lambda>_. at_unix 995) wa_request
    = Some (wa_claims ''990'' ''1000'')" by code_simp
  moreover have "ToLower (TrimSpace ''Acme/Widgets'') = ''acme/widgets''" "ToLower (TrimSpace ''acme/other'') = ''acme/other''" by code_simp+
  ultimately have "ClassifyGrant ?p = GrantRestricted" "AuthorizeRepository ?p ''Acme/Widgets''" "\<not> AuthorizeRepository ?p ''acme/other''"
    using reads by (auto simp: wa_claims_def)
  with V show ?thesis by blast
qed

end
