(* ===== verification/Request_Auth_Properties.thy ===== *)
theory Request_Auth_Properties
  imports Request_Auth Web_Assertion_Properties
begin

text \<open>
  What a request can get: the authority of the credential it carries and nothing more, the same answer for every guess from an
  address over its budget, and a principal that only narrows.
\<close>

section \<open>Paths through the middleware\<close>

lemma audit_keeps [simp]:
  "as_limiter (recordDenialAudit a e event s) = as_limiter s" "as_limiter (recordKnownDenialAudit a e r c reason now s) = as_limiter s"
  by (simp_all add: recordDenialAudit_def recordKnownDenialAudit_def)







section \<open>Authority\<close>




section \<open>A concrete request\<close>

definition rx_params :: "memory_replays auth_params" where
  "rx_params = \<lparr>ap_lib = sx_libs, ap_net = \<lparr>n_EqualFold = (=), n_Query = (\<lambda>_. []), n_Encoded = (\<lambda>u query. u_Path u)\<rparr>,
     ap_web = \<lparr>wl_header = (\<lambda>_. None), wl_claims = (\<lambda>_. None), wl_ed25519 = (\<lambda>_ _ _. False), wl_sha256 = (\<lambda>_. [])\<rparr>, ap_observe = memory_Observe\<rparr>"

definition rx_authenticator :: authenticator where
  "rx_authenticator = \<lparr>an_audit = True, an_hop = None, an_web = None\<rparr>"

definition rx_meets :: "time \<Rightarrow> meets" where
  "rx_meets now = \<lparr>mt_decided = now, mt_find = ex_env now, mt_audit = ex_env now, mt_hop_now = now, mt_validate = (\<lambda>_. ValidatorError), mt_keys = None,
     mt_web_clock = (\<lambda>_. now)\<rparr>"

definition rx_request :: "string \<Rightarrow> http_request" where
  "rx_request token = \<lparr>hr_Method = ''GET'', hr_EscapedPath = ''/api/v1/context'', hr_RawQuery = '''',
     hr_Header = [(''Authorization'', [''Bearer '' @ token]), (''X-Acr-Resource'', [''https://acr.example/mcp''])], hr_Body = BodyNil\<rparr>"

definition rx_state :: "(string, fixed_window) gomap \<Rightarrow> memory_replays auth_state" where
  "rx_state failures = \<lparr>as_limiter = Memory ((NewMemoryLimiter Hour 0 2)\<lparr>al_failures := failures\<rparr>), as_creds = sx_creds, as_replays = newMemoryReplays, as_hops = []\<rparr>"

definition rx_call :: "string \<Rightarrow> (string, fixed_window) gomap \<Rightarrow> auth_outcome \<times> memory_replays auth_state" where
  "rx_call token failures = MiddlewareFor rx_params rx_authenticator False (rx_meets (2 * Hour)) (rx_request token) ''10.0.0.1'' (2 * Hour) (rx_state failures)"



section \<open>Guesses from an address over its budget\<close>

text \<open>An address over its budget at an instant: its failure window is current and full.\<close>

definition over_at :: "memory_limiter \<Rightarrow> string \<Rightarrow> time \<Rightarrow> fixed_window \<Rightarrow> bool" where
  "over_at l ip now w \<longleftrightarrow> wf_map (al_failures l) \<and> map_of (al_failures l) ip = Some w \<and> now < fw_Started w + al_Window l \<and> 0 < al_Window l \<and>
     \<not> IsZero (fw_Started w) \<and> over_budget l w"

lemma over_window:
  assumes "over_at l ip now w"
  shows "limiter_window l (al_failures l) ip now = (purge l now (al_failures l), Some w)"
  using assms by (auto simp: over_at_def limiter_window_def purge_def current_window_def map_of_filter split: option.splits)

lemma over_at_put:
  assumes "over_at l ip now w" "fw_Started w' = fw_Started w" "fw_Count w \<le> fw_Count w'"
  shows "over_at (l\<lparr>al_failures := put ip w' (purge l now (al_failures l)), al_inflight := i\<rparr>) ip now w'"
  using assms by (auto simp: over_at_def over_budget_def purge_def map_simps)

text \<open>
  The answer of the rate limit at an instant: 429 with the time the failure window still runs, a new window when the old one
  has ended by then, or the window of plain attempts when that runs longer. It is computed from the windows of the address alone.
\<close>

definition budget_answer :: "memory_limiter \<Rightarrow> string \<Rightarrow> fixed_window \<Rightarrow> time \<Rightarrow> auth_outcome" where
  "budget_answer l ip w t =
    (let begun = (if t < fw_Started w + al_Window l then fw_Started w else t)
     in writeRateLimitError (max (remaining l (al_attempts l) ip t) (time_sub (begun + al_Window l) t)))"

lemma RetryAfter_failures:
  "0 < remaining l (al_failures l) ip t \<Longrightarrow>
    limiter_RetryAfter ip t l = max (remaining l (al_attempts l) ip t) (remaining l (al_failures l) ip t)"
  by (simp add: limiter_RetryAfter_def Let_def)

lemma over_retry:
  assumes "over_at l ip now w"
  shows "writeRateLimitError (limiter_RetryAfter ip now l) = budget_answer l ip w now" "0 < limiter_RetryAfter ip now l"
proof -
  have f: "remaining l (al_failures l) ip now = time_sub (fw_Started w + al_Window l) now" "0 < remaining l (al_failures l) ip now"
    using assms by (auto simp: over_at_def remaining_def less_max_iff_disj)
  note r = RetryAfter_failures [OF f(2)]
  show "writeRateLimitError (limiter_RetryAfter ip now l) = budget_answer l ip w now"
    unfolding r unfolding f(1) using assms by (simp add: over_at_def budget_answer_def)
  show "0 < limiter_RetryAfter ip now l" unfolding r using f(2) by (simp add: less_max_iff_disj)
qed

lemma budget_answer_cong:
  "fw_Started w' = fw_Started w \<Longrightarrow> al_Window l' = al_Window l \<Longrightarrow> al_attempts l' = al_attempts l \<Longrightarrow> budget_answer l' ip w' t = budget_answer l ip w t"
  by (simp add: budget_answer_def remaining_def Let_def split: option.splits)

lemma over_begin:
  assumes "over_at l ip now w" "begin_attempt ip now verification l = (d, l1)"
  shows "(Admitted d \<longrightarrow> verification \<and> ad_OverBudget d \<and> inflight_at l1 ip = inflight_at l ip + 1) \<and>
    (\<exists>w1. over_at l1 ip now w1 \<and> fw_Started w1 = fw_Started w) \<and> al_Window l1 = al_Window l \<and> al_attempts l1 = al_attempts l"
proof -
  let ?ws = "purge l now (al_failures l)"
  note ob = assms(1) [unfolded over_at_def]
  have p: "over_at (l\<lparr>al_failures := put ip w' ?ws\<rparr>) ip now w'" "over_at (l\<lparr>al_failures := put ip w' ?ws, al_inflight := i\<rparr>) ip now w'"
    if "w' = w \<or> w' = w\<lparr>fw_RefusalLogged := True\<rparr>" for w' i
    using over_at_put [OF assms(1), of w'] over_at_put [OF assms(1), of w' "al_inflight l"] that by auto
  show ?thesis
    using assms(2) ob p [of w] p [of "w\<lparr>fw_RefusalLogged := True\<rparr>"]
    by (auto simp: begin_attempt_def over_window [OF assms(1)] Let_def Admitted_def inflight_at_def lookup_or_def map_simps split: if_splits)
qed

text \<open>A rejection of an attempt that was admitted over the budget: counted and answered at the moment it is decided.\<close>

lemma RecordRejection_over:
  assumes "over_at l ip now w" "0 < inflight_at l ip"
  obtains first l1 where "RecordRejection (Memory l) ip t True = ((True, first), Memory l1)"
    "writeRateLimitError (retry_or_second (limiter_RetryAfter ip t l1)) = budget_answer l ip w t"
proof (cases "t < fw_Started w + al_Window l")
  case True
  let ?w = "w\<lparr>fw_RefusalLogged := True, fw_Count := fw_Count w + 1\<rparr>"
  let ?l = "l\<lparr>al_failures := put ip ?w (purge l t (al_failures l))\<rparr>"
  have o: "over_at l ip t w" using assms(1) True by (simp add: over_at_def)
  have r: "RecordRejection (Memory l) ip t True = ((True, \<not> fw_RefusalLogged w), Memory ?l)"
    by (simp add: RecordRejection_def limiter_RecordRejection_def over_window [OF o])
  have o1: "over_at ?l ip t ?w" using over_at_put [OF o, of ?w "al_inflight l"] by simp
  show ?thesis
    using over_retry [OF o1] budget_answer_cong [of ?w w ?l l ip t] by (intro that [OF r]) (simp add: retry_or_second_def)
next
  case False
  let ?w = "(fresh_window t)\<lparr>fw_RefusalLogged := True, fw_Count := 1\<rparr>"
  let ?l = "l\<lparr>al_failures := put ip ?w (purge l t (al_failures l))\<rparr>"
  have "map_of (purge l t (al_failures l)) ip = None"
    using assms(1) False by (auto simp: over_at_def purge_def map_of_filter split: option.splits)
  then have "limiter_window l (al_failures l) ip t = (purge l t (al_failures l), Some (fresh_window t))"
    using assms(2) by (simp add: limiter_window_def)
  then have r: "RecordRejection (Memory l) ip t True = ((True, True), Memory ?l)"
    by (simp add: RecordRejection_def limiter_RecordRejection_def fresh_window_def)
  have w: "0 < time_sub (t + al_Window l) t" using assms(1) by (simp add: over_at_def)
  have "remaining ?l (al_failures ?l) ip t = time_sub (t + al_Window l) t" "remaining ?l (al_attempts ?l) ip t = remaining l (al_attempts l) ip t"
    using w by (auto simp: remaining_def map_simps fresh_window_def split: option.splits)
  with w RetryAfter_failures [of ?l ip t] have retry: "limiter_RetryAfter ip t ?l = max (remaining l (al_attempts l) ip t) (time_sub (t + al_Window l) t)"
    by simp
  with w have "0 < limiter_RetryAfter ip t ?l" by (simp add: less_max_iff_disj)
  then have "retry_or_second (limiter_RetryAfter ip t ?l) = limiter_RetryAfter ip t ?l" by (simp add: retry_or_second_def)
  then show ?thesis using False by (intro that [OF r]) (simp only: retry budget_answer_def Let_def if_False)
qed

lemma over_reject:
  assumes "over_at l ip now w" "0 < inflight_at l ip" "as_limiter s = Memory l" "ad_OverBudget decision"
  shows "fst (rejectCredential a m r ip reason credential decision at s) = budget_answer l ip w (mt_decided m)"
proof -
  obtain first l1 where "RecordRejection (Memory l) ip (mt_decided m) True = ((True, first), Memory l1)"
    "writeRateLimitError (retry_or_second (limiter_RetryAfter ip (mt_decided m) l1)) = budget_answer l ip w (mt_decided m)"
    using RecordRejection_over [OF assms(1,2)] by blast
  then show ?thesis
    by (simp add: rejectCredential_def assms(3,4) RetryAfter_def Let_def split: option.splits)
qed

lemma over_check:
  assumes "over_at l ip now w" "0 < inflight_at l ip" "as_limiter s = Memory l" "ad_OverBudget decision"
  shows "fst (check_credential P a m r ip at decision c s) \<in> {budget_answer l ip w (mt_decided m), upstream_unavailable} \<union> range PassedOn"
proof -
  have "fst (rejectCredential a m r ip reason credential decision at (s\<lparr>as_hops := hops\<rparr>)) = budget_answer l ip w (mt_decided m)"
    for reason credential hops
    by (rule over_reject [OF assms(1,2) _ assms(4)]) (simp add: assms(3))
  with over_reject [OF assms] show ?thesis
    unfolding check_credential_def Let_def by (auto split: option.splits prod.splits hop_error.splits)
qed

text \<open>
  C14: an address over its failure budget learns nothing from a guess. Whatever bearer a request carries (malformed, unknown,
  revoked, expired, bound to another resource, without its hop) it is answered 429 with the time the window of its address still
  runs, computed from the windows of the address alone: at its arrival when it is malformed or gets no verification slot, and
  otherwise at the moment it is decided, also when the window ended in between. There are two exceptions: a credential that
  verifies passes, and a failure of the credential store or of the hop validator is answered 503.
\<close>

theorem over_budget_guess_learns_nothing:
  assumes "as_limiter s = Memory l" "over_at l ip now w" "0 \<le> inflight_at l ip" "\<not> is_web_assertion r" "Header_Values r ''Authorization'' \<noteq> []"
    and "verified = (IsTokenShapeValid (extractBearer (ap_net P) r) \<and> Admitted (fst (begin_attempt ip now True l)))"
  shows "fst (MiddlewareFor P a allow m r ip now s) \<in>
    {budget_answer l ip w (if verified then mt_decided m else now)} \<union> (if verified then {upstream_unavailable} \<union> range PassedOn else {})"
proof -
  let ?shaped = "IsTokenShapeValid (extractBearer (ap_net P) r)"
  obtain d l1 where b: "begin_attempt ip now ?shaped l = (d, l1)" by fastforce
  from over_begin [OF assms(2) b] obtain w1 where o: "over_at l1 ip now w1" "fw_Started w1 = fw_Started w" "al_Window l1 = al_Window l" "al_attempts l1 = al_attempts l"
    and d: "Admitted d \<Longrightarrow> ?shaped \<and> ad_OverBudget d \<and> inflight_at l1 ip = inflight_at l ip + 1" by blast
  have verified: "verified \<longleftrightarrow> Admitted d" using d b assms(6) by (cases ?shaped) auto
  have same: "budget_answer l1 ip w1 t = budget_answer l ip w t" for t by (rule budget_answer_cong [OF o(2-4)])
  let ?s1 = "s\<lparr>as_limiter := Memory l1\<rparr>"
  have start: "begin_request P r ip now s = (if Admitted d then (Undecided d, ?s1) else (Decided (budget_answer l ip w now), ?s1))"
    using b assms(1,4,5) over_retry [OF o(1)] same
    by (cases ?shaped) (auto simp: begin_request_def BeginVerificationDecision_def BeginAttemptDecision_def Let_def RetryAfter_def retry_or_second_def)
  show ?thesis
  proof (cases "Admitted d")
    case True
    note d = d [OF True]
    have i: "0 < inflight_at l1 ip" using d assms(3) by simp
    have "fst (authenticateBearer P a m r ip now d ?s1) \<in> {budget_answer l1 ip w1 (mt_decided m), upstream_unavailable} \<union> range PassedOn"
      using over_check [OF o(1) i, of ?s1 d P a m r now] over_reject [OF o(1) i, of ?s1 d] d
      by (auto simp: authenticateBearer_def Let_def split: sum.splits)
    then show ?thesis using True verified start assms(4) same
      by (auto simp: MiddlewareFor_def decide_request_def split: prod.splits)
  qed (simp add: MiddlewareFor_def start verified)
qed

definition ea_status_is_429 :: "auth_outcome \<Rightarrow> bool" where
  "ea_status_is_429 outcome = (case outcome of Answered e \<Rightarrow> ea_status e = 429 | _ \<Rightarrow> False)"

text \<open>
  A full window that ends while the guess is verified: the unknown token is answered 429 for the new window; a malformed one is
  answered 429 at its arrival.
\<close>

theorem over_budget_guess_learns_nothing_witness:
  "let w = \<lparr>fw_Started = 2 * Hour - Minute, fw_Count = 2, fw_RefusalLogged = False\<rparr>;
       l = (NewMemoryLimiter Hour 0 2)\<lparr>al_failures := [(''10.0.0.1'', w)]\<rparr>; late = 3 * Hour;
       call = (\<lambda>token. fst (MiddlewareFor rx_params rx_authenticator False ((rx_meets (2 * Hour))\<lparr>mt_decided := late\<rparr>) (rx_request token)
         ''10.0.0.1'' (2 * Hour) (rx_state [(''10.0.0.1'', w)])))
   in over_at l ''10.0.0.1'' (2 * Hour) w \<and> call (sx_token 7) = budget_answer l ''10.0.0.1'' w late \<and>
      call ''guess'' = budget_answer l ''10.0.0.1'' w (2 * Hour)"
proof -
  let ?w = "\<lparr>fw_Started = 2 * Hour - Minute, fw_Count = 2, fw_RefusalLogged = False\<rparr>"
  let ?full = "[(''10.0.0.1'', ?w)]"
  let ?l = "(NewMemoryLimiter Hour 0 2)\<lparr>al_failures := [(''10.0.0.1'', \<lparr>fw_Started = 2 * Hour - Minute, fw_Count = 2, fw_RefusalLogged = False\<rparr>)]\<rparr>"
  let ?m = "(rx_meets (2 * Hour))\<lparr>mt_decided := 3 * Hour\<rparr>"
  have o: "over_at ?l ''10.0.0.1'' (2 * Hour) ?w" by code_simp
  have l: "as_limiter (rx_state ?full) = Memory ?l" by (simp add: rx_state_def)
  have i: "0 \<le> inflight_at ?l ''10.0.0.1''" by code_simp
  have t: "\<not> is_web_assertion (rx_request (sx_token 7))" "Header_Values (rx_request (sx_token 7)) ''Authorization'' \<noteq> []"
    "True = (IsTokenShapeValid (extractBearer (ap_net rx_params) (rx_request (sx_token 7))) \<and> Admitted (fst (begin_attempt ''10.0.0.1'' (2 * Hour) True ?l)))"
    "ea_status_is_429 (fst (MiddlewareFor rx_params rx_authenticator False ?m (rx_request (sx_token 7)) ''10.0.0.1'' (2 * Hour) (rx_state ?full)))"
    by code_simp+
  have g: "\<not> is_web_assertion (rx_request ''guess'')" "Header_Values (rx_request ''guess'') ''Authorization'' \<noteq> []"
    "False = (IsTokenShapeValid (extractBearer (ap_net rx_params) (rx_request ''guess'')) \<and> Admitted (fst (begin_attempt ''10.0.0.1'' (2 * Hour) True ?l)))"
    by code_simp+
  have "fst (MiddlewareFor rx_params rx_authenticator False ?m (rx_request (sx_token 7)) ''10.0.0.1'' (2 * Hour) (rx_state ?full)) = budget_answer ?l ''10.0.0.1'' ?w (3 * Hour)"
    using over_budget_guess_learns_nothing [OF l o i t(1-3), of rx_authenticator False ?m] t(4)
    by (auto simp: writeError_def ea_status_is_429_def)
  with over_budget_guess_learns_nothing [OF l o i g, of rx_authenticator False ?m] o show ?thesis by (simp add: Let_def)
qed

section \<open>Slots\<close>

definition slots :: "attempt_limiter \<Rightarrow> (string, int) gomap option" where
  "slots l = (case l of NoopLimiter \<Rightarrow> None | Memory m \<Rightarrow> Some (al_inflight m))"

definition undecided_at :: "attempt_limiter \<Rightarrow> string \<Rightarrow> int" where
  "undecided_at l key = (case slots l of None \<Rightarrow> 0 | Some m \<Rightarrow> lookup_or 0 m key)"

lemma record_failure_slots [simp]: "slots (RecordFailure ip now l) = slots l"
  by (auto simp: slots_def RecordFailure_def limiter_RecordFailure_def split: attempt_limiter.splits prod.splits option.splits)

lemma limiter_slots:
  "RecordRejection l ip now b = (x, l1) \<Longrightarrow> slots l1 = slots l" "allow_attempt ip now l = (y, l1) \<Longrightarrow> slots l1 = slots l"
  "failure_blocked ip now l = (y, l1) \<Longrightarrow> slots l1 = slots l"
  by (auto simp: slots_def RecordRejection_def allow_attempt_def failure_blocked_def limiter_RecordRejection_def AllowAttempt_def FailureBlocked_def Let_def
      split: attempt_limiter.splits prod.splits option.splits if_splits)

lemma reject_slots: "rejectCredential a m r ip reason c d now s = (x, s') \<Longrightarrow> slots (as_limiter s') = slots (as_limiter s)"
  by (auto simp: rejectCredential_def Let_def dest: limiter_slots(1) split: prod.splits option.splits if_splits)

lemma bearer_slots: "authenticateBearer P a m r ip now d s = (x, s') \<Longrightarrow> slots (as_limiter s') = slots (as_limiter s)"
  by (auto simp: authenticateBearer_def check_credential_def recordUnknownFailure_def Let_def dest!: reject_slots
      split: if_splits sum.splits option.splits prod.splits hop_error.splits)

lemma web_slots: "authenticateWebAssertion P a m r ip now allow s = (x, s') \<Longrightarrow> slots (as_limiter s') = slots (as_limiter s)"
  by (auto simp: authenticateWebAssertion_def recordUnknownFailure_def Let_def dest: limiter_slots
      split: if_splits sum.splits option.splits prod.splits web_error.splits) (metis limiter_slots)+

lemma begin_slots:
  assumes "begin_request P r ip now s = (x, s1)"
  shows "slots (as_limiter s1) = (case x of Decided _ \<Rightarrow> slots (as_limiter s)
    | Undecided _ \<Rightarrow> map_option (\<lambda>m. put ip (lookup_or 0 m ip + 1) m) (slots (as_limiter s)))"
proof -
  have "begin_attempt ip now verification l = (d, l1) \<Longrightarrow> al_inflight l1 = (if Admitted d then put ip (lookup_or 0 (al_inflight l) ip + 1) (al_inflight l) else al_inflight l)"
    for verification l d l1
    by (auto simp: begin_attempt_def inflight_at_def Let_def Admitted_def split: prod.splits option.splits if_splits)
  note begin_inflight = this
  show ?thesis using assms
    by (cases "as_limiter s")
      (auto simp: begin_request_def BeginVerificationDecision_def BeginAttemptDecision_def Let_def slots_def Admitted_def split: if_splits prod.splits
        dest!: begin_inflight)
qed

lemma release_slots: "slots (release_slot ip l) = map_option (decrement ip) (slots l)"
  by (cases l) (simp_all add: release_slot_def slots_def release_attempt_def)

text \<open>
  C24: no request keeps its slot. On every path through the middleware, refused or passed, for a bearer or a web assertion, the
  number of undecided attempts of every address is afterwards what it was before.
\<close>

theorem no_request_leaks_its_slot:
  assumes "MiddlewareFor P a allow m r ip now s = (outcome, s')" "0 \<le> undecided_at (as_limiter s) ip"
  shows "undecided_at (as_limiter s') key = undecided_at (as_limiter s) key"
proof -
  obtain x s1 where b: "begin_request P r ip now s = (x, s1)" by fastforce
  show ?thesis
  proof (cases x)
    case (Decided o1)
    then show ?thesis using b begin_slots [OF b] assms(1) by (simp add: MiddlewareFor_def undecided_at_def)
  next
    case (Undecided d)
    have "\<exists>s2. slots (as_limiter s2) = slots (as_limiter s1) \<and> s' = s2\<lparr>as_limiter := release_slot ip (as_limiter s2)\<rparr>"
      using assms(1) b Undecided by (auto simp: MiddlewareFor_def decide_request_def dest: bearer_slots web_slots split: prod.splits if_splits)
    then have "slots (as_limiter s') = map_option (decrement ip) (slots (as_limiter s1))"
      by (auto simp: release_slots)
    then show ?thesis using begin_slots [OF b] Undecided assms(2) by (auto simp: undecided_at_def decrement_def map_simps split: option.splits)
  qed
qed

theorem no_request_leaks_its_slot_witness:
  "undecided_at (as_limiter (rx_state [])) ''10.0.0.1'' = 0 \<and> undecided_at (as_limiter (snd (rx_call ''guess'' []))) ''10.0.0.1'' = 0"
proof -
  have u: "undecided_at (as_limiter (rx_state [])) ''10.0.0.1'' = 0" by code_simp
  have "rx_call ''guess'' [] = (fst (rx_call ''guess'' []), snd (rx_call ''guess'' []))" by simp
  from no_request_leaks_its_slot [OF this [unfolded rx_call_def], folded rx_call_def, of "''10.0.0.1''"] u show ?thesis by simp
qed

section \<open>Narrowing\<close>

text \<open>
  C20: narrowing never widens. Whichever way a principal is narrowed, to live repositories, to exactly \<^verbatim>\<open>*\<close> or to
  projects, every repository the new principal is authorized for was authorized before, the grant never becomes the unrestricted one, and
  nothing but the grant changes.
\<close>

theorem narrowing_never_widens:
  assumes "Inr p' \<in> {NarrowRepositoryScopes scopes (Some p), KeepUniversalGrant (Some p), NarrowToProjectScopes projects (Some p)}"
  shows "(\<forall>slug. AuthorizeRepository p' slug \<longrightarrow> AuthorizeRepository p slug) \<and> ClassifyGrant p' \<noteq> GrantUnrestricted \<and>
    p'\<lparr>p_RepositoryScopes := p_RepositoryScopes p, p_ProjectScopes := p_ProjectScopes p\<rparr> = p"
proof -
  consider (repos) "NarrowRepositoryScopes scopes (Some p) = Inr p'" | (star) "KeepUniversalGrant (Some p) = Inr p'" | (projects) "NarrowToProjectScopes projects (Some p) = Inr p'"
    using assms by auto
  then show ?thesis
  proof cases
    case repos
    then have p': "p' = p\<lparr>p_RepositoryScopes := scopes\<rparr>" "scopes \<noteq> []" and held: "\<And>v. v \<in> set scopes \<Longrightarrow> RepositoryAllowed (p_RepositoryScopes p) v"
      by (auto simp: NarrowRepositoryScopes_def find_None_iff split: if_splits option.splits)
    have "RepositoryAllowed (p_RepositoryScopes p) slug" if allowed: "RepositoryAllowed scopes slug" for slug
    proof -
      obtain n v where n: "NormalizeRepositorySlug slug = Some n" "v \<in> set scopes" "scope_allows v n"
        using allowed by (auto simp: RepositoryAllowed_def list_ex_iff split: option.splits)
      from held [OF n(2)] have v: "NormalizeRepositorySlug v = Some (ToLower (TrimSpace v))" "ValidSlug (ToLower (TrimSpace v))"
        by (auto simp: RepositoryAllowed_def NormalizeRepositorySlug_def Let_def split: option.splits if_splits)
      have "ToLower (TrimSpace v) = n" using n(3) slug_is_exact [OF v(2)] by (auto simp: scope_allows_def Let_def split: if_splits)
      with held [OF n(2)] n(1) v(1) show ?thesis by (simp add: RepositoryAllowed_def)
    qed
    then show ?thesis using p' by (auto simp: AuthorizeRepository_def ClassifyGrant_def HoldsProjectGrant_def split: if_splits)
  next
    case star
    then have p': "p' = p\<lparr>p_RepositoryScopes := [''*'']\<rparr>" and u: "ClassifyGrant p = GrantUniversal" by (auto simp: KeepUniversalGrant_def split: if_splits)
    then obtain v where v: "v \<in> set (p_RepositoryScopes p)" "TrimSpace v = ''*''" by (auto simp: ClassifyGrant_def list_ex_iff split: if_splits)
    have "ToLower ''*'' = ''*''" "\<not> IsReservedRepositoryScope ''*''" by code_simp+
    then have "scope_allows v n" for n using v(2) by (simp add: scope_allows_def)
    then have "AuthorizeRepository p slug" if "AuthorizeRepository p' slug" for slug
      using that v(1) u by (auto simp: AuthorizeRepository_def RepositoryAllowed_def list_ex_iff split: option.splits)
    then show ?thesis using p' u by (auto simp: ClassifyGrant_def HoldsProjectGrant_def)
  next
    case projects
    then have "p' = p\<lparr>p_RepositoryScopes := [ProjectOnlyRepositoryScope], p_ProjectScopes := projects\<rparr>" "projects \<noteq> []"
      by (auto simp: NarrowToProjectScopes_def split: if_splits)
    then show ?thesis by (simp add: AuthorizeRepository_def ClassifyGrant_def HoldsProjectGrant_def)
  qed
qed

theorem narrowing_never_widens_witness:
  "\<exists>p p'. p = (web_principal (wa_claims ''990'' ''1000''))\<lparr>p_RepositoryScopes := [''acme/*'', ''*'']\<rparr> \<and> KeepUniversalGrant (Some p) = Inr p' \<and>
     AuthorizeRepository p' ''acme/widgets'' \<and> AuthorizeRepository p ''acme/widgets''"
proof -
  let ?p = "(web_principal (wa_claims ''990'' ''1000''))\<lparr>p_RepositoryScopes := [''acme/*'', ''*'']\<rparr>"
  let ?q = "?p\<lparr>p_RepositoryScopes := [''*'']\<rparr>"
  have k: "KeepUniversalGrant (Some ?p) = Inr ?q" by code_simp
  have "AuthorizeRepository ?q ''acme/widgets''" by code_simp
  moreover have "Inr ?q \<in> {NarrowRepositoryScopes [] (Some ?p), KeepUniversalGrant (Some ?p), NarrowToProjectScopes [] (Some ?p)}" using k by simp
  ultimately show ?thesis using narrowing_never_widens [of ?q "[]" ?p "[]"] k by blast
qed

end
