(* ===== verification/Usage_Telemetry_Properties.thy ===== *)
theory Usage_Telemetry_Properties
  imports Usage_Telemetry
begin

text \<open>
  The usage coalescer loses no record silently: an interpretation of \<open>invariant_machine\<close> gives the accounting of every run.
\<close>

section \<open>Accounting, step by step\<close>

lemma pending_count_simps [simp]: "pending_count [] = 0" "pending_count (e # m) = ub_count (snd e) + pending_count m"
  by (simp_all add: pending_count_def)

lemma pending_count_put: "pending_count (put k v m) = pending_count m - (case map_of m k of None \<Rightarrow> 0 | Some u \<Rightarrow> ub_count u) + ub_count v"
  by (induction m) (auto split: option.splits)

definition handed_count :: "usage_telemetry \<Rightarrow> int" where
  "handed_count u = sum_list (map ub_count (us_handed u))"

text \<open>What an operation of the worker leaves alone.\<close>

definition same_frame :: "usage_telemetry \<Rightarrow> usage_telemetry \<Rightarrow> bool" where
  "same_frame u u' \<longleftrightarrow> us_capacity u' = us_capacity u \<and> us_queue u' = us_queue u \<and> us_state u' = us_state u \<and> us_phase u' = us_phase u \<and>
     ut_Enqueued (us_stats u') = ut_Enqueued (us_stats u)"

lemma collect_facts:
  "same_frame u (collect r u)" "pending_count (us_pending (collect r u)) = pending_count (us_pending u) + 1"
  "handed_count (collect r u) = handed_count u" "ut_ShutdownDropped (us_stats (collect r u)) = ut_ShutdownDropped (us_stats u)"
  "wf_map (us_pending u) \<Longrightarrow> wf_map (us_pending (collect r u))"
  by (auto simp: collect_def same_frame_def handed_count_def pending_count_put Let_def split: option.splits)

lemma deliver_facts:
  "same_frame u (deliver lib es b u)" "handed_count (deliver lib es b u) = handed_count u + ub_count b"
  "ut_ShutdownDropped (us_stats (deliver lib es b u)) = ut_ShutdownDropped (us_stats u)"
  by (auto simp: deliver_def deliver_touch_def deliver_audit_def fail_delivery_def same_frame_def handed_count_def Let_def split: prod.splits if_splits)

lemma same_frame_trans: "same_frame u v \<Longrightarrow> same_frame v w \<Longrightarrow> same_frame u w"
  by (simp add: same_frame_def)

lemma flush_loop_facts:
  assumes "flush_loop lib e final k m u = (ok, u')"
  shows "same_frame u u' \<and> (ok \<or> final \<longrightarrow> us_pending u' = []) \<and> (wf_map m \<longrightarrow> wf_map (us_pending u')) \<and>
    pending_count (us_pending u') + handed_count u' + ut_ShutdownDropped (us_stats u') = pending_count m + handed_count u + ut_ShutdownDropped (us_stats u)"
  using assms
proof (induction lib e final k m u rule: flush_loop.induct)
  case (1 lib e final k u)
  then show ?case by (auto simp: same_frame_def handed_count_def)
next
  case (2 lib e final k key batch rest u)
  show ?case
  proof (cases "fe_err e k")
    case True
    with 2(2) show ?thesis by (auto simp: same_frame_def handed_count_def split: if_splits)
  next
    case False
    with 2(1) [OF False] 2(2) show ?thesis using deliver_facts [where u = u and lib = lib and es = "fe_deliver e k" and b = batch] same_frame_trans by auto
  qed
qed

lemma flush_facts:
  assumes "wf_map (us_pending u)"
  shows "same_frame u (snd (usage_flush lib e final u))" "final \<Longrightarrow> us_pending (snd (usage_flush lib e final u)) = []"
    "wf_map (us_pending (snd (usage_flush lib e final u)))"
    "pending_count (us_pending (snd (usage_flush lib e final u))) + handed_count (snd (usage_flush lib e final u)) + ut_ShutdownDropped (us_stats (snd (usage_flush lib e final u)))
      = pending_count (us_pending u) + handed_count u + ut_ShutdownDropped (us_stats u)"
  using flush_loop_facts [of lib e final 0 "us_pending u" u] assms unfolding usage_flush_def by (metis prod.collapse)+

section \<open>The machine\<close>

text \<open>A worker step that only collects, flushes or moves on keeps the invariant while it runs.\<close>

lemma usage_inv_frame:
  assumes "same_frame u u'" "usage_inv u" "us_state u \<noteq> UsageStopped" "wf_map (us_pending u')"
    "pending_count (us_pending u') + handed_count u' + ut_ShutdownDropped (us_stats u') = pending_count (us_pending u) + handed_count u + ut_ShutdownDropped (us_stats u)"
  shows "usage_inv u'"
  using assms by (auto simp: usage_inv_def usage_accounted_def usage_shutdown_def same_frame_def handed_count_def)

lemma usage_inv_flush:
  assumes "usage_inv u" "us_state u \<noteq> UsageStopped"
  shows "usage_inv (snd (usage_flush lib e final u))"
proof -
  have "wf_map (us_pending u)" using assms(1) by (simp add: usage_inv_def)
  from flush_facts [OF this] show ?thesis by (intro usage_inv_frame [OF _ assms]) auto
qed

lemma usage_inv_collect:
  assumes "usage_inv u" "us_state u \<noteq> UsageStopped" "us_queue u = r # rest"
  shows "usage_inv (collect r (u\<lparr>us_queue := rest\<rparr>))"
  using assms collect_facts [where r = r and u = "u\<lparr>us_queue := rest\<rparr>"]
  by (auto simp: usage_inv_def usage_accounted_def usage_shutdown_def same_frame_def handed_count_def)

lemma running_when_queued: "usage_inv u \<Longrightarrow> us_queue u = r # rest \<Longrightarrow> us_state u \<noteq> UsageStopped"
  by (auto simp: usage_inv_def usage_shutdown_def)

lemma usage_inv_step:
  assumes "usage_inv u"
  shows "usage_inv (usage_step lib x u)"
proof (cases x)
  case (UEnqueue r)
  then show ?thesis using assms
    by (auto simp: Enqueue_def drop_record_def usage_inv_def usage_accounted_def usage_shutdown_def split: if_splits)
next
  case (UReceive e)
  show ?thesis
  proof (cases "us_queue u")
    case (Cons r rest)
    let ?u = "collect r (u\<lparr>us_queue := rest\<rparr>)"
    have "usage_inv ?u" "us_state ?u \<noteq> UsageStopped"
      using usage_inv_collect [OF assms _ Cons] running_when_queued [OF assms Cons] collect_facts(1) [where u = "u\<lparr>us_queue := rest\<rparr>" and r = r]
      by (auto simp: same_frame_def)
    then show ?thesis using UReceive Cons assms usage_inv_flush by (auto simp: Let_def)
  qed (use UReceive assms in simp)
next
  case (UTick e)
  then show ?thesis using assms usage_inv_flush by simp
next
  case UDrain
  then show ?thesis using assms usage_inv_collect running_when_queued by (auto split: list.splits)
next
  case (UDrained e)
  show ?thesis
  proof (cases "us_phase u")
    case (Draining final)
    show ?thesis
    proof (cases "us_queue u = []")
      case True
      have wf: "wf_map (us_pending u)" using assms by (simp add: usage_inv_def)
      note f = flush_facts [OF wf, where lib = lib and e = e and final = final]
      show ?thesis using UDrained Draining True assms f
        by (auto simp: usage_inv_def usage_accounted_def usage_shutdown_def same_frame_def handed_count_def Let_def)
    qed (use UDrained Draining assms in simp)
  qed (use UDrained assms in simp)
qed (use assms in \<open>auto simp: close_telemetry_def usage_inv_def usage_accounted_def usage_shutdown_def\<close>)


interpretation usage: invariant_machine "usage_step lib" "\<lambda>_ _. True" usage_inv
  by unfold_locales (rule usage_inv_step)

text \<open>
  C28: no use of a credential is lost silently. In every interleaving of requests, ticks, flushes and the shutdown, a record that
  was counted as enqueued is still queued, in a pending batch, in a batch handed to delivery, or counted as dropped at shutdown; the
  queue stays within its capacity; and once the worker has stopped, nothing is queued or pending any more.
\<close>

theorem usage_is_accounted:
  assumes "NewUsageTelemetry queueCapacity audit creds = Some u0" "u = run_ops (usage_step lib) ops u0"
  shows "ut_Enqueued (us_stats u) = int (length (us_queue u)) + pending_count (us_pending u) + sum_list (map ub_count (us_handed u)) + ut_ShutdownDropped (us_stats u) \<and>
    int (length (us_queue u)) \<le> us_capacity u \<and> (us_state u = UsageStopped \<longrightarrow> us_queue u = [] \<and> us_pending u = [])"
proof -
  have "usage_inv u0" using assms(1)
    by (auto simp: NewUsageTelemetry_def Let_def usage_inv_def usage_accounted_def usage_shutdown_def split: if_splits)
  then have "usage_inv u" using usage.run_inv [of u0 lib ops] assms(2) by simp
  then show ?thesis by (simp add: usage_inv_def usage_accounted_def usage_shutdown_def)
qed

section \<open>A concrete run\<close>

definition ux_record :: "string \<Rightarrow> usage_record" where
  "ux_record cid = \<lparr>ur_OrgID = ''org1'', ur_CredentialID = cid, ur_ActorType = '''', ur_ActorID = '''', ur_Action = '''', ur_ResourceType = '''', ur_ResourceID = '''',
     ur_Metadata = [], ur_ClientIP = ''10.0.0.1'', ur_UserAgent = ''cli'', ur_RequestID = ''r1'', ur_UsedAt = Hour\<rparr>"

definition ux_flush :: flush_env where
  "ux_flush = \<lparr>fe_err = (\<lambda>_. False), fe_deliver = (\<lambda>_. (\<lparr>env_err = (\<lambda>_. False), env_now = Hour\<rparr>, \<lparr>env_err = (\<lambda>_. False), env_now = Hour\<rparr>))\<rparr>"

definition ux_libs :: libs where
  "ux_libs = \<lparr>url_Parse = (\<lambda>_. None), net_ParseIP = (\<lambda>_. True), uuid_Parse = (\<lambda>_. None), sha256_hex = id, json_Marshal = we_IdempotencyKey\<rparr>"

definition ux_start :: usage_telemetry where
  "ux_start = (case NewUsageTelemetry 2 True newCredentialStore of Some u \<Rightarrow> u | None \<Rightarrow> undefined)"

definition ux_filled :: usage_telemetry where
  "ux_filled = run_ops (usage_step ux_libs) [UEnqueue (ux_record ''c1''), UReceive ux_flush, UEnqueue (ux_record ''c2''), UEnqueue (ux_record ''c3''), UFlush, UDrain, UDrain] ux_start"

theorem usage_is_accounted_witness:
  "NewUsageTelemetry 2 True newCredentialStore = Some ux_start \<and> ut_Enqueued (us_stats ux_filled) = 3 \<and>
   int (length (us_queue ux_filled)) + pending_count (us_pending ux_filled) + sum_list (map ub_count (us_handed ux_filled)) + ut_ShutdownDropped (us_stats ux_filled) = 3"
proof -
  have n: "NewUsageTelemetry 2 True newCredentialStore = Some ux_start"
    by (simp add: ux_start_def NewUsageTelemetry_def maximumUsageQueueCapacity_def)
  have "ut_Enqueued (us_stats ux_filled) = 3" by code_simp
  with usage_is_accounted [OF n ux_filled_def] n show ?thesis by simp
qed

text \<open>
  The pending batches outgrow the capacity. A flush drains the whole queue into the batches it already holds: with a capacity of
  two, three batches are pending.
\<close>

theorem pending_exceeds_the_capacity:
  "us_capacity ux_filled = 2 \<and> map_len (us_pending ux_filled) = 3"
  by code_simp

end
