(* ===== verification/Client_Address.thy ===== *)
theory Client_Address
  imports Web_Assertion
begin

text \<open>
  The address a request is accounted under: \<^verbatim>\<open>src/internal/auth/client_ip.go\<close>, the list of trusted proxies
  \<^verbatim>\<open>src/internal/trustedproxy/trustedproxy.go\<close> and the sanitizer \<^verbatim>\<open>src/internal/logsanitize/logsanitize.go\<close>. What is used of
  \<^verbatim>\<open>net\<close> and \<^verbatim>\<open>net/netip\<close> is the record \<open>netip\<close>, over a type of addresses and one of prefixes.
\<close>

section \<open>Definitions\<close>

record ('a, 'p) netip =
  ni_SplitHostPort :: "string \<Rightarrow> string option"  \<comment> \<open>the host\<close>
  ni_ParseAddr :: "string \<Rightarrow> 'a option"
  ni_ParsePrefix :: "string \<Rightarrow> 'p option"
  ni_Masked :: "'p \<Rightarrow> 'p"
  ni_Contains :: "'p \<Rightarrow> 'a \<Rightarrow> bool"
  ni_Unmap :: "'a \<Rightarrow> 'a"
  ni_Is4In6 :: "'a \<Rightarrow> bool"
  ni_Zone :: "'a \<Rightarrow> string"
  ni_String :: "'a \<Rightarrow> string"

definition SanitizeLogAttr :: "string \<Rightarrow> string" where
  "SanitizeLogAttr s =
    (let replaced = map (\<lambda>c. if c = CHR 0x0A \<or> c = CHR 0x0D then CHR ''?'' else c) s
     in map (\<lambda>g. if seg_rune g < 32 \<or> seg_rune g > 126 then CHR ''?'' else char_of (seg_rune g)) (take 256 (runes_of replaced)))"

definition SanitizeLogStrings :: "string list option \<Rightarrow> string list option" where
  "SanitizeLogStrings ss = map_option (map SanitizeLogAttr) ss"

record ('a, 'p) proxy_list =
  pl_prefixes :: "'p list"
  pl_except :: "'a list"

definition inPrefixes :: "('a, 'p) netip \<Rightarrow> 'p list \<Rightarrow> 'a \<Rightarrow> bool" where
  "inPrefixes N prefixes address = list_ex (\<lambda>prefix. ni_Contains N prefix address) prefixes"

definition Trusts :: "('a, 'p) netip \<Rightarrow> ('a, 'p) proxy_list \<Rightarrow> 'a \<Rightarrow> bool" where
  "Trusts N l address =
    (let unmapped = ni_Unmap N address in if unmapped \<in> set (pl_except l) then False else inPrefixes N (pl_prefixes l) unmapped)"

definition excluded_address :: "('a, 'p) netip \<Rightarrow> string \<Rightarrow> 'a option" where
  "excluded_address N rest =
    (case ni_ParseAddr N rest of
       None \<Rightarrow> None
     | Some addr \<Rightarrow> if ni_Zone N addr \<noteq> '''' then None else if ni_Is4In6 N addr then None else Some addr)"

fun proxy_entries :: "('a, 'p) netip \<Rightarrow> string list \<Rightarrow> 'p list \<Rightarrow> 'a list \<Rightarrow> ('p list \<times> 'a list) option" where
  "proxy_entries N [] prefixes exclusions = Some (prefixes, exclusions)"
| "proxy_entries N (raw # rest) prefixes exclusions =
    (let entry = TrimSpace raw
     in if has_prefix entry ''!''
        then (case excluded_address N (drop 1 entry) of
          None \<Rightarrow> None
        | Some addr \<Rightarrow> proxy_entries N rest prefixes (exclusions @ [addr]))
        else (case ni_ParsePrefix N entry of
          None \<Rightarrow> None
        | Some prefix \<Rightarrow> proxy_entries N rest (prefixes @ [ni_Masked N prefix]) exclusions))"

definition ParseProxies :: "('a, 'p) netip \<Rightarrow> string list \<Rightarrow> ('a, 'p) proxy_list option" where
  "ParseProxies N values =
    (case proxy_entries N values [] [] of
       None \<Rightarrow> None
     | Some (prefixes, exclusions) \<Rightarrow>
         if list_all (inPrefixes N prefixes) exclusions then Some \<lparr>pl_prefixes = prefixes, pl_except = exclusions\<rparr> else None)"

definition RemoteAddressClientIP :: "('a, 'p) netip \<Rightarrow> string \<Rightarrow> string" where
  "RemoteAddressClientIP N remoteAddr =
    (let v = TrimSpace remoteAddr;
         v1 = (case ni_SplitHostPort N v of Some host \<Rightarrow> if host \<noteq> '''' then host else v | None \<Rightarrow> v)
     in if v1 = '''' then ''unknown'' else SanitizeLogAttr v1)"

fun forwarded_walk :: "('a, 'p) netip \<Rightarrow> ('a, 'p) proxy_list \<Rightarrow> string \<Rightarrow> string list \<Rightarrow> string" where
  "forwarded_walk N l peerText [] = peerText"
| "forwarded_walk N l peerText (hop # rest) =
    (case ni_ParseAddr N (TrimSpace hop) of
       None \<Rightarrow> peerText
     | Some candidate \<Rightarrow> if \<not> Trusts N l candidate then ni_String N candidate else forwarded_walk N l peerText rest)"

definition forwarded_hops :: "string list \<Rightarrow> string list" where
  "forwarded_hops headers = concat (map (split_on (CHR '','')) headers)"

definition TrustedProxyClientIPResolver :: "('a, 'p) netip \<Rightarrow> ('a, 'p) proxy_list \<Rightarrow> string \<Rightarrow> string list \<Rightarrow> string" where
  "TrustedProxyClientIPResolver N l remoteAddr headers =
    (let peerText = RemoteAddressClientIP N remoteAddr
     in case ni_ParseAddr N peerText of
          None \<Rightarrow> peerText
        | Some peer \<Rightarrow> if \<not> Trusts N l peer then peerText else forwarded_walk N l peerText (rev (forwarded_hops headers)))"

section \<open>Properties\<close>

text \<open>A hop at which the walk ends: not an address, or not a trusted proxy.\<close>

definition hop_ends :: "('a, 'p) netip \<Rightarrow> ('a, 'p) proxy_list \<Rightarrow> string \<Rightarrow> bool" where
  "hop_ends N l hop \<longleftrightarrow> (case ni_ParseAddr N (TrimSpace hop) of None \<Rightarrow> True | Some a \<Rightarrow> \<not> Trusts N l a)"

lemma walk_append: "list_ex (hop_ends N l) hops \<Longrightarrow> forwarded_walk N l peerText (hops @ others) = forwarded_walk N l peerText hops"
  by (induction N l peerText hops rule: forwarded_walk.induct) (auto simp: hop_ends_def split: option.splits)

text \<open>
  C30: a client cannot choose the address it is accounted under. Whatever a request lists in its forwarding headers in front of the
  hops the trusted proxies appended, if these hold one that ends the walk, the resolver gives the same address: only the hops from the right-most one that is no
  trusted proxy count.
\<close>

theorem forged_hops_are_ignored:
  assumes "forwarded_hops headers = forged @ trail" "forwarded_hops headers' = forged' @ trail" "list_ex (hop_ends N l) trail"
  shows "TrustedProxyClientIPResolver N l remoteAddr headers = TrustedProxyClientIPResolver N l remoteAddr headers'"
  using assms walk_append [where N = N and l = l and hops = "rev trail"] by (auto simp: TrustedProxyClientIPResolver_def list_ex_iff Let_def split: option.splits)

definition cx_netip :: "(string, string) netip" where
  "cx_netip = \<lparr>ni_SplitHostPort = (\<lambda>v. Some (takeWhile (\<lambda>c. c \<noteq> CHR '':'') v)), ni_ParseAddr = (\<lambda>v. if v = '''' then None else Some v), ni_ParsePrefix = Some,
     ni_Masked = id, ni_Contains = (\<lambda>p a. has_prefix a p), ni_Unmap = id, ni_Is4In6 = (\<lambda>_. False), ni_Zone = (\<lambda>_. ''''), ni_String = id\<rparr>"

theorem forged_hops_are_ignored_witness:
  "\<exists>l. ParseProxies cx_netip [''10.42.0.'', ''!10.42.0.1''] = Some l \<and>
     TrustedProxyClientIPResolver cx_netip l ''10.42.0.6:443'' [''1.1.1.1'', ''2.2.2.2, 10.42.0.1, 10.42.0.7''] = ''10.42.0.1'' \<and>
     TrustedProxyClientIPResolver cx_netip l ''10.42.0.6:443'' [''10.42.0.1, 10.42.0.7''] = ''10.42.0.1''"
proof -
  let ?l = "\<lparr>pl_prefixes = [''10.42.0.''], pl_except = [''10.42.0.1'']\<rparr>"
  have l: "ParseProxies cx_netip [''10.42.0.'', ''!10.42.0.1''] = Some ?l" by code_simp
  have r: "TrustedProxyClientIPResolver cx_netip ?l ''10.42.0.6:443'' [''10.42.0.1, 10.42.0.7''] = ''10.42.0.1''" by code_simp
  have "list_ex (hop_ends cx_netip ?l) ['' 10.42.0.1'', '' 10.42.0.7'']" by code_simp
  moreover have "forwarded_hops [''1.1.1.1'', ''2.2.2.2, 10.42.0.1, 10.42.0.7''] = [''1.1.1.1'', ''2.2.2.2''] @ ['' 10.42.0.1'', '' 10.42.0.7'']" by code_simp
  moreover have "forwarded_hops ['' 10.42.0.1, 10.42.0.7''] = [] @ ['' 10.42.0.1'', '' 10.42.0.7'']" by code_simp
  moreover have "TrustedProxyClientIPResolver cx_netip ?l ''10.42.0.6:443'' ['' 10.42.0.1, 10.42.0.7''] = ''10.42.0.1''" by code_simp
  ultimately show ?thesis
    using forged_hops_are_ignored [of "[''1.1.1.1'', ''2.2.2.2, 10.42.0.1, 10.42.0.7'']" "[''1.1.1.1'', ''2.2.2.2'']" "['' 10.42.0.1'', '' 10.42.0.7'']"
        "['' 10.42.0.1, 10.42.0.7'']" "[]" cx_netip ?l "''10.42.0.6:443''"] l r by metis
qed

end
