(* ===== verification/Work_Item_Grants.thy ===== *)
theory Work_Item_Grants
  imports Repository_Grants
begin

text \<open>
  A grant as the reader of work items takes it, \<^verbatim>\<open>src/internal/auth/work_item_grant.go\<close>: a set of exact repositories and owners
  instead of a list of scopes. The theorem shows that the set admits exactly what the scopes allow.
\<close>

section \<open>Definitions\<close>

datatype work_item_selector_kind = workItemSelectorExact | workItemSelectorOwner | workItemSelectorAll

record repository_selector_set =
  rs_All :: bool
  rs_ExactSlugs :: "string list"
  rs_Owners :: "string list"

definition workItemRepositorySelector :: "string \<Rightarrow> (work_item_selector_kind \<times> string) option" where
  "workItemRepositorySelector raw =
    (let trimmed = TrimSpace raw
     in if trimmed = ''*'' then Some (workItemSelectorAll, '''')
        else if has_suffix (ToLower trimmed) ''/*''
        then (case NormalizeRepositoryScopes [trimmed] of
            Some [v] \<Rightarrow>
              if \<not> has_suffix v ''/*'' then None
              else let owner = trim_suffix v ''/*'' in if owner = '''' then None else Some (workItemSelectorOwner, owner)
          | _ \<Rightarrow> None)
        else map_option (\<lambda>normalized. (workItemSelectorExact, normalized)) (NormalizeRepositorySlug trimmed))"

text \<open>The two sets the loop fills are maps without values.\<close>

fun selector_loop :: "string list \<Rightarrow> string list \<Rightarrow> string list \<Rightarrow> repository_selector_set" where
  "selector_loop [] exact owners = \<lparr>rs_All = False, rs_ExactSlugs = sort exact, rs_Owners = sort owners\<rparr>"
| "selector_loop (raw # rest) exact owners =
    (case workItemRepositorySelector raw of
       None \<Rightarrow> selector_loop rest exact owners
     | Some (workItemSelectorAll, v) \<Rightarrow> \<lparr>rs_All = True, rs_ExactSlugs = [], rs_Owners = []\<rparr>
     | Some (workItemSelectorOwner, v) \<Rightarrow> selector_loop rest exact (List.insert v owners)
     | Some (workItemSelectorExact, v) \<Rightarrow> selector_loop rest (List.insert v exact) owners)"

definition WorkItemRepositorySelectorSet :: "string list \<Rightarrow> bool \<Rightarrow> repository_selector_set" where
  "WorkItemRepositorySelectorSet values grants =
    (if grants \<and> values = [] then \<lparr>rs_All = True, rs_ExactSlugs = [], rs_Owners = []\<rparr> else selector_loop values [] [])"

definition WorkItemGrantSelectorSet :: "principal \<Rightarrow> repository_selector_set" where
  "WorkItemGrantSelectorSet p =
    (if ClassifyGrant p = GrantProjectOnly then \<lparr>rs_All = False, rs_ExactSlugs = [], rs_Owners = []\<rparr>
     else WorkItemRepositorySelectorSet (p_RepositoryScopes p) True)"

text \<open>What a set names: everything, one of its repositories, or a repository of one of its owners.\<close>

definition selects :: "repository_selector_set \<Rightarrow> string \<Rightarrow> bool" where
  "selects s slug \<longleftrightarrow> rs_All s \<or> slug \<in> set (rs_ExactSlugs s) \<or> owner_of slug \<in> set (rs_Owners s)"

section \<open>Lower case and the star\<close>

lemma seg_bytes_nonempty: "g \<in> set (segments bs) \<Longrightarrow> seg_bytes g \<noteq> []"
proof (induction bs rule: segments.induct)
  case (2 b bs)
  obtain r v n where "decode_rune b bs = (r, v, n)" by (metis prod_cases3)
  with 2 show ?case by auto
qed simp

lemma concat_single: "concat xss = [x] \<Longrightarrow> \<forall>xs \<in> set xss. xs \<noteq> [] \<Longrightarrow> xss = [[x]]"
  by (cases xss) (auto simp: append_eq_Cons_conv)

lemma ascii_lower_star: "ascii_lower c = CHR ''*'' \<Longrightarrow> c = CHR ''*''"
proof (rule ccontr)
  assume c: "ascii_lower c = CHR ''*''" "c \<noteq> CHR ''*''"
  then have u: "is_upper c" "char_of (byte_of c + 32) = CHR ''*''" by (auto simp: ascii_lower_def split: if_splits)
  then have "(of_char (char_of (byte_of c + 32) :: char) :: int) = of_char (CHR ''*'')" by (simp only: u(2))
  then show False using u(1) by (simp add: is_upper_def)
qed

lemma ToLower_star: "ToLower s = ''*'' \<Longrightarrow> s = ''*''"
proof -
  assume t: "ToLower s = ''*''"
  have "\<forall>xs \<in> set (map lower_seg (runes_of s)). xs \<noteq> []" by (auto simp: lower_seg_def runes_of_def dest: seg_bytes_nonempty)
  then obtain g where g: "runes_of s = [g]" "lower_seg g = ''*''" using concat_single t by (force simp: ToLower_def)
  then obtain b where b: "seg_bytes g = [b]" "ascii_lower (char_of b) = CHR ''*''" by (auto simp: lower_seg_def split: if_splits)
  have "map byte_of s = [b]" using concat_segments [of "map byte_of s"] g(1) b(1) by (simp add: runes_of_def)
  then obtain c where "s = [c]" "byte_of c = b" by auto
  then show ?thesis using b(2) ascii_lower_star by auto
qed

section \<open>One selector\<close>

lemma owner_of_split: "hd (split_on (CHR ''/'') s) = owner_of s"
proof (induction s)
  case (Cons c s)
  obtain p ps where "split_on (CHR ''/'') s = p # ps" by (metis neq_Nil_conv split_on_nonempty)
  with Cons show ?case by (simp add: split_on_Cons split_step_def owner_of_def)
qed (simp add: split_on_def owner_of_def)

lemma slug_owner: "ValidSlug s \<Longrightarrow> ValidOwner (owner_of s)"
  using owner_of_split [of s]
  by (cases "split_on (CHR ''/'') s" rule: remdups_adj.cases) (auto simp: ValidSlug_def Let_def)

definition selected :: "string \<Rightarrow> string \<Rightarrow> bool" where
  "selected raw slug =
    (case workItemRepositorySelector raw of
       None \<Rightarrow> False
     | Some (kind, v) \<Rightarrow>
         (case kind of workItemSelectorAll \<Rightarrow> True | workItemSelectorOwner \<Rightarrow> owner_of slug = v | workItemSelectorExact \<Rightarrow> slug = v))"


lemma selected_iff:
  assumes n: "ValidSlug n"
  shows "selected raw n \<longleftrightarrow> scope_allows raw n"
proof -
  let ?scope = "ToLower (TrimSpace raw)"
  have own: "ValidScope (owner_of n @ ''/*'')" using slug_owner [OF n] by (simp add: ValidScope_def)
  have star: "ToLower ''*'' = ''*''" "\<not> IsReservedRepositoryScope ''*''" by code_simp+
  consider (all) "TrimSpace raw = ''*''" | (owner) "TrimSpace raw \<noteq> ''*''" "has_suffix ?scope ''/*''"
    | (exact) "TrimSpace raw \<noteq> ''*''" "\<not> has_suffix ?scope ''/*''" by blast
  then show ?thesis
  proof cases
    case all
    then show ?thesis using star by (simp add: selected_def workItemRepositorySelector_def scope_allows_def)
  next
    case owner
    have ne: "?scope \<noteq> ''*''" "?scope \<noteq> n" using owner ToLower_star slug_no_suffix [OF n] by auto
    have norm: "NormalizeRepositoryScopes [TrimSpace raw] = (if ValidScope ?scope then Some [?scope] else None)"
      using ValidScope_not_reserved [of ?scope] TrimSpace_idem [of raw] by (auto simp: NormalizeRepositoryScopes_def Let_def)
    show ?thesis
    proof (cases "ValidScope ?scope")
      case True
      then have "trim_suffix ?scope ''/*'' \<noteq> ''''" using ne owner(2) by (auto simp: ValidScope_def ValidOwner_def)
      then have "selected raw n \<longleftrightarrow> owner_of n = trim_suffix ?scope ''/*''"
        using owner norm True by (simp add: selected_def workItemRepositorySelector_def Let_def)
      moreover have "scope_allows raw n \<longleftrightarrow> ?scope = owner_of n @ ''/*''"
        using ne ValidScope_not_reserved [OF True] by (simp add: scope_allows_def Let_def)
      ultimately show ?thesis using trim_suffix_back [OF owner(2)] by auto
    next
      case False
      then have "\<not> selected raw n" using owner norm by (simp add: selected_def workItemRepositorySelector_def Let_def)
      moreover have "\<not> scope_allows raw n" using ne own False by (auto simp: scope_allows_def Let_def)
      ultimately show ?thesis by simp
    qed
  next
    case exact
    then have "?scope \<noteq> ''*''" "?scope \<noteq> owner_of n @ ''/*''" using ToLower_star by auto
    then have "scope_allows raw n \<longleftrightarrow> ?scope = n" using ValidScope_not_reserved [OF ValidSlug_scope [OF n]] by (auto simp: scope_allows_def Let_def)
    then show ?thesis using exact n TrimSpace_idem [of raw]
      by (auto simp: selected_def workItemRepositorySelector_def NormalizeRepositorySlug_def Let_def)
  qed
qed

section \<open>The set of a grant\<close>

lemma selects_loop:
  "selects (selector_loop values exact owners) n \<longleftrightarrow> n \<in> set exact \<or> owner_of n \<in> set owners \<or> list_ex (\<lambda>raw. selected raw n) values"
  by (induction "values" exact owners rule: selector_loop.induct)
    (auto simp: selects_def selected_def split: option.splits prod.splits work_item_selector_kind.splits)

text \<open>
  C31: the selector set of a list of scopes is the list's meaning. For a list of scopes that is not empty, and every repository name the
  code can normalize, the set the reader of work items gets names the repository exactly when the scopes allow it;
  malformed scopes drop out of both.
\<close>

theorem selector_set_is_the_grant:
  assumes "values \<noteq> [] \<or> \<not> grants" "NormalizeRepositorySlug slug = Some n"
  shows "selects (WorkItemRepositorySelectorSet values grants) n \<longleftrightarrow> RepositoryAllowed values slug"
proof -
  have "ValidSlug n" using assms(2) by (auto simp: NormalizeRepositorySlug_def Let_def split: if_splits)
  then have "list_ex (\<lambda>raw. selected raw n) values \<longleftrightarrow> list_ex (\<lambda>raw. scope_allows raw n) values" using selected_iff by (simp add: list_ex_iff)
  then show ?thesis using assms by (auto simp: WorkItemRepositorySelectorSet_def selects_loop RepositoryAllowed_def)
qed

theorem selector_set_is_the_grant_witness:
  "NormalizeRepositorySlug ''Acme/Widgets'' = Some ''acme/widgets'' \<and>
   selects (WorkItemRepositorySelectorSet ['' ACME/* '', ''not a scope''] True) ''acme/widgets'' \<and> RepositoryAllowed ['' ACME/* '', ''not a scope''] ''Acme/Widgets''"
proof -
  have n: "NormalizeRepositorySlug ''Acme/Widgets'' = Some ''acme/widgets''" by code_simp
  have "RepositoryAllowed ['' ACME/* '', ''not a scope''] ''Acme/Widgets''" by code_simp
  with selector_set_is_the_grant [OF _ n, of "['' ACME/* '', ''not a scope'']" True] n show ?thesis by simp
qed

end
