(* ===== verification/Spec2Isabelle.thy ===== *)
theory Spec2Isabelle
  imports Limits_Properties Attempt_Limiter_Properties Retention_Properties OAuth_Service_Properties Device_Properties Service_Properties
    Request_Auth_Properties Usage_Telemetry_Properties Client_Address Work_Item_Grants
begin

text \<open>
  \<^bold>\<open>Verification of the control state of dev-health-acr.\<close>

  The program answers questions about an engineering organization with language models. Its own core logic is
  the state that decides who may ask, how often, and what becomes of a question: request limits, attempt
  limits, credentials and the flows that issue them, submissions, runs, conversations and stored results. This
  development models that state, the in-memory implementations of the stores together with the rules they share
  with the PostgreSQL ones, and proves what callers rely on.

  \<^bold>\<open>Conventions.\<close> Source paths are below \<^verbatim>\<open>src/internal\<close>. A Go struct is a record, an enumeration a
  datatype, a map an association list with one entry per key (\<open>gomap\<close>, \<open>wf_map\<close>), an error a value of a sum
  type. A string is a list of bytes (\<open>Go_Text\<close> has UTF-8, \<^verbatim>\<open>strings.TrimSpace\<close> and \<^verbatim>\<open>unicode.IsControl\<close>). An
  instant is an \<open>int\<close> of nanoseconds and the zero time is \<open>IsZero\<close>; differences saturate as in Go. Counters
  wrap at 64 bits where the code can reach the width. A method under a mutex is one step. A method that can be
  interrupted takes an \<open>env\<close>: its clock, and for each of its successive \<^verbatim>\<open>ctx.Err()\<close> checks whether the
  context has ended, so an interruption at any point is covered; a method that calls others takes one \<open>env\<close> per
  call. Where Go leaves the order of a range over a map open and the order can matter, it is an argument, a
  permutation of the map; the one exception is the search for a submission under another credential of its user, which takes the
  first match, and of whose result the properties state only that it matches. Pointers that alias (the windows of open claims) live on an explicit heap.

  \<^bold>\<open>Parameters.\<close> Code outside the repository is an argument: \<open>libs\<close> (\<^verbatim>\<open>url.Parse\<close>, \<^verbatim>\<open>net.ParseIP\<close>,
  \<^verbatim>\<open>uuid.Parse\<close>, SHA-256, \<^verbatim>\<open>json.Marshal\<close>), \<open>net\<close> and \<open>oauth_libs\<close> (more of
  \<^verbatim>\<open>net/url\<close>, SHA-256 as bytes, HMAC), \<open>web_libs\<close> (the JSON of an assertion, Ed25519), \<open>netip\<close>, the answers of the client metadata
  fetcher, of the token validator and of the database, the key set, random bytes, \<open>result_codec\<close> (the JSON codec of a result and of its
  snapshot) and \<open>digest\<close>. Properties that rely on documented behaviour of one say so as a hypothesis, and their
  witnesses instantiate it.

  \<^bold>\<open>The library.\<close>
  \<^item> \<open>Go_Prelude\<close>, \<open>Go_Text\<close>, \<open>Go_Calendar\<close>, \<open>Go_Format\<close>, \<open>Map_Evolution\<close>: the language, and the interfaces
    \<open>invariant_machine\<close>, \<open>evolving_machine\<close> (an invariant and a preorder that every step respects, hence every
    run) and \<open>evolution\<close> (a preorder on values, lifted to maps). Each component interprets them on its own step
    function, so an induction over runs is done once.
  \<^item> \<open>Limits_Policy\<close>, \<open>Limits_Windows\<close>, \<open>Limits_Manager\<close>, \<open>Limits_Accounting\<close>, \<open>Limits_Retention\<close>,
    \<open>Limits_Bursts\<close>, \<open>Limits_Properties\<close>: \<^verbatim>\<open>limits/policy.go\<close>, \<^verbatim>\<open>manager.go\<close>, \<^verbatim>\<open>retention.go\<close>. In every interleaving of claims
    and completions the concurrency limit holds and every open claim is accounted for; in any stretch shorter than a
    quota window at most twice the quota is admitted, which the interface \<open>quota_meter\<close> shows once for organizations and
    credentials; the tracked state is bounded, and the guard that lets \<^verbatim>\<open>forgetIdle\<close> skip its scan is equivalent to scanning.
  \<^item> \<open>Attempt_Limiter\<close>, \<open>_Facts\<close>, \<open>_Properties\<close>: \<^verbatim>\<open>auth/limiter.go\<close>. Concurrent guesses overshoot the
    failure limit by less than the in-flight cap, but for the verifications admitted over it, one at a time, and waiting for the reported time clears the budget.
  \<^item> \<open>Submission\<close>, \<open>Threads\<close>, \<open>Run_Lease\<close>: the value types and rules of \<^verbatim>\<open>contextfabric/submission.go\<close>,
    \<^verbatim>\<open>submission_limits.go\<close>, \<^verbatim>\<open>thread.go\<close>, \<^verbatim>\<open>run_lease.go\<close>, \<^verbatim>\<open>retention.go\<close>.
  \<^item> \<open>Investigation_Store\<close>, \<open>_Submissions\<close>, \<open>_Runs\<close>, \<open>_Threads\<close>, \<open>_Retention\<close>: every method of
    \<^verbatim>\<open>contextfabric/memoryinvestigation\<close>. \<open>Investigation_Machine\<close>, \<open>_Growth\<close>, \<open>_Touch\<close>, \<open>_Index\<close>,
    \<open>_Ownership\<close>, \<open>_Lifecycle\<close> hold its step function, the relation \<open>touch\<close> on records, the invariants, and an
    abstract phase machine with labelled moves, \<open>phase_move\<close>, that the store simulates step for step. \<open>Investigation_Properties\<close>, \<open>_Results\<close>, \<open>Run_Properties\<close>
    and \<open>Retention_Properties\<close>: a submission is admitted at most once while its record is stored, and within the limits, a done record
    names its owner's result, a lost run is taken over once, event logs are ordered, a deleted conversation is
    gone, and retention spares what can still be read or saved.
  \<^item> \<open>Repo_Slug\<close>, \<open>Credential_Input\<close>, \<open>Credential_Events\<close>, \<open>Credential_Store\<close>: \<^verbatim>\<open>reposlug\<close>,
    \<^verbatim>\<open>storage/internal/credentiallifecycle\<close> and the credential and audit stores of \<^verbatim>\<open>storage/memory\<close>.
    \<open>Credential_Facts\<close> has the invariant \<open>store_ok\<close> (the indexes agree, and every credential has exactly the
    outbox stream its state demands), \<open>Credential_Machine\<close> the step function and the evolution of a record,
    \<open>Credential_Normal\<close> the normal form of an input. \<open>Credential_Properties\<close>: the reconciliation listing
    computed from the outbox is the credential table, a failed mutation leaves nothing behind, a revoked family
    never authenticates, a rotation keeps provenance and ends its source, and normalization is idempotent.
  \<^item> \<open>Credential_Client\<close>: the interface \<open>credential_client\<close> of a component that uses the credential store
    through its operations only, and what a client learns from their answers. The next two components interpret
    it.
  \<^item> \<open>Browser_Refresh\<close>, \<open>_Facts\<close>, \<open>_Machine\<close>, \<open>_Properties\<close>: \<^verbatim>\<open>storage/browser_refresh.go\<close> and its
    in-memory store. A refresh token has one successor, reuse ends the family, a successor never outgrows it.
  \<^item> \<open>Device_Store\<close>, \<open>_Machine\<close>, \<open>_Properties\<close>: \<^verbatim>\<open>storage/device_authorization.go\<close> and its in-memory
    store. The inductive relation \<open>device_move\<close> has a rule for each change of a record, and every operation makes
    at most one move. A second redemption of a code ends the first credential, a decision is final, a credential is what was
    approved, and the sweep finds every overdue one.
  \<^item> \<open>OAuth_Input\<close>, \<open>OAuth_Store\<close>, \<open>OAuth_Properties\<close>: \<^verbatim>\<open>storage/oauth.go\<close> and its in-memory store. A
    code is single use and returns what was authorized, the first user owns a request, and a redirect URI can
    differ in the port of a loopback host only.
  \<^item> \<open>Go_Base64\<close>, \<open>Repository_Grants\<close>, \<open>Credential_Service\<close>, \<open>Service_Properties\<close>: \<^verbatim>\<open>auth/repository.go\<close>,
    \<^verbatim>\<open>grant_class.go\<close>, \<^verbatim>\<open>types.go\<close>, \<^verbatim>\<open>token.go\<close>, \<^verbatim>\<open>service.go\<close>, \<^verbatim>\<open>self_lifecycle.go\<close>, \<^verbatim>\<open>revoke_on_behalf.go\<close>. A
    scope covers another exactly when it allows all the other allows, a token has one spelling and finds its
    credential, a rotation never widens, and only those entitled revoke.
  \<^item> \<open>Device_Flow\<close>, \<open>Device_Flow_Properties\<close>: \<^verbatim>\<open>auth/device_flow.go\<close>, \<^verbatim>\<open>device_flow_codes.go\<close>, \<^verbatim>\<open>device_hints.go\<close>,
    \<^verbatim>\<open>device_poll.go\<close>, \<^verbatim>\<open>device_oauth.go\<close>. A device never gets more than the person who approved it has, and a start ends.
  \<^item> \<open>Browser_Service\<close>, \<open>Browser_Service_Properties\<close>: \<^verbatim>\<open>auth/browser_refresh.go\<close>. A refresh repeated within the grace
    returns the very same tokens exactly as long as the family can be replayed, and otherwise none.
  \<^item> \<open>OAuth_Client\<close>, \<open>OAuth_Service\<close>, \<open>OAuth_Machine\<close>, \<open>OAuth_Service_Properties\<close>: \<^verbatim>\<open>auth/oauth.go\<close>, which composes all
    of the above. \<open>oauth_world\<close> is the state of its four stores, with the credential store that the device and the browser
    store share. \<open>OAuth_Machine\<close> shows that each operation is a run of operations of the stores, so that their properties
    hold under the service; on it rest the properties of the whole login: a credential is bounded by what a
    person consented to, an exchange spends its code, the first person to open a request owns it, and the browser
    class has its own resource.
  \<^item> \<open>Web_Assertion\<close>, \<open>Web_Assertion_Properties\<close>: \<^verbatim>\<open>auth/web_assertion.go\<close> with its three companions, and the shared
    record of used ids, \<^verbatim>\<open>storage/postgres/web_assertion_replay.go\<close>. The two records meet the interface \<open>replay_record\<close>; an
    assertion is single use with the shared one, and reads exactly the repositories its claims list.
  \<^item> \<open>Usage_Telemetry\<close>, \<open>Usage_Telemetry_Properties\<close>: \<^verbatim>\<open>auth/usage_telemetry.go\<close>, its worker and its lifecycle, as a machine
    of channel operations. No enqueued record is lost without being counted.
  \<^item> \<open>Request_Auth\<close>, \<open>Request_Auth_Properties\<close>: \<^verbatim>\<open>auth/middleware.go\<close>, \<^verbatim>\<open>web_assertion_middleware.go\<close>, \<^verbatim>\<open>mcp_hop.go\<close>,
    \<^verbatim>\<open>response_status.go\<close>: every request, from its headers to its principal, over the attempt limiter, the credential store and the
    assertions. A request has the authority of a live credential and no more, an address over its budget learns
    nothing from a guess, no request keeps its slot, and narrowing never widens.
  \<^item> \<open>Client_Address\<close>, \<open>Work_Item_Grants\<close>: \<^verbatim>\<open>auth/client_ip.go\<close> with \<^verbatim>\<open>trustedproxy\<close> and \<^verbatim>\<open>logsanitize\<close>, and
    \<^verbatim>\<open>auth/work_item_grant.go\<close>. A client cannot choose its address, and a selector set means what its scopes mean.
  \<^item> \<open>Investigation_Examples\<close>, \<open>Credential_Examples\<close>, \<open>Browser_Examples\<close>, \<open>OAuth_Examples\<close>,
    \<open>Device_Examples\<close>: the concrete states at which the witnesses are evaluated.

  \<^bold>\<open>Bounds and termination.\<close> No definition uses fuel: loops range over lists and are structural recursions, so
  every operation is a total function. Properties over runs hold for every finite sequence of operations.

  \<^bold>\<open>Deviations found.\<close> \<open>attempt_table_exceeds_twice_the_bound\<close> (a comment on \<^verbatim>\<open>window\<close>), \<open>append_accepts_gaps\<close>
  (the contract of the event log), \<open>interrupted_sign_out_leaves_live_credentials\<close> (a family is marked revoked
  before its credentials are), \<open>request_of_unknown_client_is_stored\<close> (the in-memory OAuth store does not look
  the client up), \<open>interrupted_replacement_leaves_two_live_credentials\<close> (the compensating revocation uses the
  context that ended), \<open>resumed_approval_keeps_the_first\<close> (a consent that is resumed checks neither the grant nor the
  session again), \<open>process_record_replays_in_the_skew\<close> (the record of one process forgets a used assertion while it still
  verifies), \<open>lifetime_check_overflows\<close> (the lifetime of an assertion is computed with wrap-around) and
  \<open>pending_exceeds_the_capacity\<close> (a comment on the usage coalescer).

  \<^bold>\<open>Not modelled.\<close> The PostgreSQL stores (their behaviour is in SQL) but for the record of used assertions, the engine, model
  runtime, ranking, projection and fact sources (they depend on databases and models outside the repository), the
  telemetry of the context fabric, generated tables, HTTP routing and MCP handling, source gates and commands; of \<^verbatim>\<open>auth\<close>, the fetcher
  of client metadata and the issuer of workload tokens, which rest on HTTP and Kubernetes; and the in-memory
  stores of workload bindings, packets and episodes, which no modelled component calls.
\<close>

end
